(* ===== verification/B2_Prelude.thy ===== *)
theory B2_Prelude
  imports Main "HOL-Library.Word"
begin

text \<open>
  Shared material of the development: the names of the model's basic types, the collections
  of facts the components feed, and the generic lemmas on lists, folds and sorted vectors that
  several components use.

  Unsigned C++ integers that only index containers are natural numbers. Where the source narrows
  one (\<open>static_cast\<close> to \<open>std::uint16_t\<close> or \<open>std::uint32_t\<close>) the narrowing is written out
  with \<open>u16\<close> and \<open>u32\<close>.
\<close>

section \<open>Basic types\<close>

type_synonym node_id = nat
type_synonym region_id = nat
type_synonym method_id = nat
type_synonym dependency_id = nat

definition u16 :: "nat \<Rightarrow> nat" where
  "u16 n = n mod 2 ^ 16"

definition u32 :: "nat \<Rightarrow> nat" where
  "u32 n = n mod 2 ^ 32"

lemma u16_id [simp]: "n < 65536 \<Longrightarrow> u16 n = n"
  by (simp add: u16_def)

lemma u32_id [simp]: "n < 4294967296 \<Longrightarrow> u32 n = n"
  by (simp add: u32_def)

lemma int_le_div_iff: "0 < d \<Longrightarrow> (k::int) \<le> m div d \<longleftrightarrow> k * d \<le> m"
proof
  assume d: "0 < d" and k: "k \<le> m div d"
  have "k * d \<le> m div d * d" using k d by (intro mult_right_mono) auto
  also have "\<dots> \<le> m" using pos_mod_sign [OF d, of m] div_mult_mod_eq [of m d] by linarith
  finally show "k * d \<le> m" .
next
  assume d: "0 < d" and "k * d \<le> m"
  then show "k \<le> m div d" using zdiv_mono1 [of "k * d" m d] by simp
qed

section \<open>Collections of facts\<close>

named_theorems rbc_defs \<open>definitions of the RBC component to unfold for evaluation\<close>
named_theorems ir_defs \<open>definitions of the IR component to unfold for evaluation\<close>
named_theorems length_simps \<open>operations that keep the size of a vector\<close>

end
