(* ===== verification/Rbc_Type.thy ===== *)
theory Rbc_Type
  imports B2_Prelude
begin

text \<open>
  The verification types of the register bytecode (\<open>include/b2/rbc/Type.h\<close>): the type lattice
  of registers and local slots, its merge \<open>join\<close> and its subtype test \<open>isAssignable\<close>.

  The interface \<open>flat_ref_lattice\<close> states what the rest of the system relies on: \<open>join\<close> is
  a semilattice operation whose greatest element is \<open>Bottom\<close> ("conflicting or never assigned"),
  and a value may be used at a type exactly when that type is its join with the value's type.
  The intermediate representation has a second lattice of the same shape, so the laws are stated
  once.
\<close>

section \<open>Types and operations\<close>

datatype rtype = RT_Bottom | RT_Int | RT_Long | RT_Float | RT_Double | RT_Null | RT_Ref

definition join :: "rtype \<Rightarrow> rtype \<Rightarrow> rtype" where
  "join a b =
     (if a = b then a
      else if (a = RT_Null \<and> b = RT_Ref) \<or> (a = RT_Ref \<and> b = RT_Null) then RT_Ref
      else RT_Bottom)"

definition isAssignable :: "rtype \<Rightarrow> rtype \<Rightarrow> bool" where
  "isAssignable from to =
     (if from = to then True
      else if from = RT_Null \<and> to = RT_Ref then True
      else False)"

definition isNumeric :: "rtype \<Rightarrow> bool" where
  "isNumeric t \<longleftrightarrow> t = RT_Int \<or> t = RT_Long \<or> t = RT_Float \<or> t = RT_Double"

definition isCategory2 :: "rtype \<Rightarrow> bool" where
  "isCategory2 t \<longleftrightarrow> t = RT_Long \<or> t = RT_Double"

fun typeName :: "rtype \<Rightarrow> string" where
  "typeName RT_Bottom = ''bottom''"
| "typeName RT_Int = ''int''"
| "typeName RT_Long = ''long''"
| "typeName RT_Float = ''float''"
| "typeName RT_Double = ''double''"
| "typeName RT_Null = ''null''"
| "typeName RT_Ref = ''ref''"

section \<open>The lattice interface\<close>

locale flat_ref_lattice =
  fixes jn :: "'t \<Rightarrow> 't \<Rightarrow> 't"
    and asg :: "'t \<Rightarrow> 't \<Rightarrow> bool"
    and bt :: 't
  assumes jn_idem: "jn a a = a"
    and jn_comm: "jn a b = jn b a"
    and jn_assoc: "jn (jn a b) c = jn a (jn b c)"
    and jn_bt: "jn bt a = bt"
    and asg_iff: "b \<noteq> bt \<Longrightarrow> asg a b \<longleftrightarrow> jn a b = b"
    and chain: "jn a b = b \<Longrightarrow> a \<noteq> b \<Longrightarrow> jn b c = c \<Longrightarrow> b \<noteq> c \<Longrightarrow> c = bt"
begin

definition le :: "'t \<Rightarrow> 't \<Rightarrow> bool" where
  "le a b \<longleftrightarrow> jn a b = b"

lemma le_refl [simp]: "le a a"
  by (simp add: le_def jn_idem)

lemma le_trans: "le a b \<Longrightarrow> le b c \<Longrightarrow> le a c"
  unfolding le_def by (metis jn_assoc)

lemma le_antisym: "le a b \<Longrightarrow> le b a \<Longrightarrow> a = b"
  unfolding le_def by (metis jn_comm)

lemma le_bt [simp]: "le a bt"
  unfolding le_def by (metis jn_comm jn_bt)

lemma bt_le_iff [simp]: "le bt a \<longleftrightarrow> a = bt"
  unfolding le_def by (metis jn_bt)

lemma jn_upper1 [simp]: "le a (jn a b)"
  unfolding le_def by (metis jn_assoc jn_idem)

lemma jn_upper2 [simp]: "le b (jn a b)"
  by (metis jn_comm jn_upper1)

lemma jn_least: "le a c \<Longrightarrow> le b c \<Longrightarrow> le (jn a b) c"
  unfolding le_def by (metis jn_assoc)

lemma le_asg: "le a b \<Longrightarrow> b \<noteq> bt \<Longrightarrow> asg a b"
  by (simp add: asg_iff le_def)

lemma asg_le: "asg a b \<Longrightarrow> b \<noteq> bt \<Longrightarrow> le a b"
  by (simp add: asg_iff le_def)

text \<open>Using a more precise value is always allowed: the operand check is monotone.\<close>

lemma asg_mono: "le a b \<Longrightarrow> asg b t \<Longrightarrow> t \<noteq> bt \<Longrightarrow> asg a t"
  by (metis asg_iff le_def le_trans)

text \<open>A slot changes at most twice under repeated joins.\<close>

lemma two_descents:
  "le a b \<Longrightarrow> a \<noteq> b \<Longrightarrow> le b c \<Longrightarrow> b \<noteq> c \<Longrightarrow> le c d \<Longrightarrow> c = d"
  unfolding le_def using chain jn_bt by metis

end

text \<open>A flat type system in which only \<open>nl\<close> lies below \<open>rf\<close> and conflicts merge to \<open>bt\<close>.\<close>

lemma flat_ref_latticeI:
  assumes jn: "\<And>a b. jn a b =
      (if a = b then a else if (a = nl \<and> b = rf) \<or> (a = rf \<and> b = nl) then rf else bt)"
    and asg: "\<And>a b. asg a b \<longleftrightarrow> a = b \<or> (a = nl \<and> b = rf)"
    and "bt \<noteq> nl" and "bt \<noteq> rf" and "nl \<noteq> rf"
  shows "flat_ref_lattice jn asg bt"
proof unfold_locales
  fix a b c
  show "jn a a = a" "jn a b = jn b a" "jn bt a = bt" using assms(3-5) by (auto simp: jn)
  show "jn (jn a b) c = jn a (jn b c)"
    using assms(3-5) by (cases "a = b"; cases "b = c"; cases "a = c") (auto simp: jn)
  show "b \<noteq> bt \<Longrightarrow> asg a b \<longleftrightarrow> jn a b = b" using assms(3-5) by (auto simp: jn asg)
  show "jn a b = b \<Longrightarrow> a \<noteq> b \<Longrightarrow> jn b c = c \<Longrightarrow> b \<noteq> c \<Longrightarrow> c = bt"
    using assms(3-5) by (auto simp: jn split: if_split_asm)
qed

interpretation rty: flat_ref_lattice join isAssignable RT_Bottom
  by (rule flat_ref_latticeI [where nl = RT_Null and rf = RT_Ref])
    (simp_all add: join_def isAssignable_def)

abbreviation rle :: "rtype \<Rightarrow> rtype \<Rightarrow> bool" where
  "rle \<equiv> rty.le"

lemma rle_cases: "rle a b \<longleftrightarrow> b = RT_Bottom \<or> a = b \<or> (a = RT_Null \<and> b = RT_Ref)"
  by (cases a; cases b; simp add: rty.le_def join_def)

section \<open>Properties\<close>



end
