(* ===== verification/Rbc_Opcode.thy ===== *)
theory Rbc_Opcode
  imports Rbc_Type
begin

unbundle bit_operations_syntax

text \<open>
  The opcode set of the register bytecode (\<open>include/b2/rbc/Opcode.h\<close>) and its metadata table
  (\<open>compiler/rbc/src/Opcode.cpp\<close>).

  \<open>Op\<close> is an enumeration over \<open>std::uint16_t\<close> and every consumer casts a raw instruction
  field to it, out-of-range values included, so an opcode is its code: a natural number, with one
  name per enumerator. The \<open>default\<close> branches of the source's switches are then reachable for
  exactly the codes that reach them in the program.
\<close>

section \<open>Opcodes\<close>

type_synonym op = nat

text \<open>misc\<close>

abbreviation (input) Op_Nop :: op where "Op_Nop \<equiv> 0"
abbreviation (input) Op_SafepointPoll :: op where "Op_SafepointPoll \<equiv> 1"

text \<open>constants\<close>

abbreviation (input) Op_AconstNull :: op where "Op_AconstNull \<equiv> 2"
abbreviation (input) Op_Iconst :: op where "Op_Iconst \<equiv> 3"
abbreviation (input) Op_Fconst :: op where "Op_Fconst \<equiv> 4"
abbreviation (input) Op_Lconst :: op where "Op_Lconst \<equiv> 5"
abbreviation (input) Op_Dconst :: op where "Op_Dconst \<equiv> 6"
abbreviation (input) Op_Ldc :: op where "Op_Ldc \<equiv> 7"

text \<open>local slots and registers\<close>

abbreviation (input) Op_Iload :: op where "Op_Iload \<equiv> 8"
abbreviation (input) Op_Lload :: op where "Op_Lload \<equiv> 9"
abbreviation (input) Op_Fload :: op where "Op_Fload \<equiv> 10"
abbreviation (input) Op_Dload :: op where "Op_Dload \<equiv> 11"
abbreviation (input) Op_Aload :: op where "Op_Aload \<equiv> 12"
abbreviation (input) Op_Istore :: op where "Op_Istore \<equiv> 13"
abbreviation (input) Op_Lstore :: op where "Op_Lstore \<equiv> 14"
abbreviation (input) Op_Fstore :: op where "Op_Fstore \<equiv> 15"
abbreviation (input) Op_Dstore :: op where "Op_Dstore \<equiv> 16"
abbreviation (input) Op_Astore :: op where "Op_Astore \<equiv> 17"

text \<open>typed moves\<close>

abbreviation (input) Op_Imove :: op where "Op_Imove \<equiv> 18"
abbreviation (input) Op_Lmove :: op where "Op_Lmove \<equiv> 19"
abbreviation (input) Op_Fmove :: op where "Op_Fmove \<equiv> 20"
abbreviation (input) Op_Dmove :: op where "Op_Dmove \<equiv> 21"
abbreviation (input) Op_Amove :: op where "Op_Amove \<equiv> 22"

text \<open>int arithmetic\<close>

abbreviation (input) Op_Iadd :: op where "Op_Iadd \<equiv> 23"
abbreviation (input) Op_Isub :: op where "Op_Isub \<equiv> 24"
abbreviation (input) Op_Imul :: op where "Op_Imul \<equiv> 25"
abbreviation (input) Op_Idiv :: op where "Op_Idiv \<equiv> 26"
abbreviation (input) Op_Irem :: op where "Op_Irem \<equiv> 27"
abbreviation (input) Op_Ineg :: op where "Op_Ineg \<equiv> 28"
abbreviation (input) Op_Ishl :: op where "Op_Ishl \<equiv> 29"
abbreviation (input) Op_Ishr :: op where "Op_Ishr \<equiv> 30"
abbreviation (input) Op_Iushr :: op where "Op_Iushr \<equiv> 31"
abbreviation (input) Op_Iand :: op where "Op_Iand \<equiv> 32"
abbreviation (input) Op_Ior :: op where "Op_Ior \<equiv> 33"
abbreviation (input) Op_Ixor :: op where "Op_Ixor \<equiv> 34"
abbreviation (input) Op_Iinc :: op where "Op_Iinc \<equiv> 35"

text \<open>long arithmetic\<close>

abbreviation (input) Op_Ladd :: op where "Op_Ladd \<equiv> 36"
abbreviation (input) Op_Lsub :: op where "Op_Lsub \<equiv> 37"
abbreviation (input) Op_Lmul :: op where "Op_Lmul \<equiv> 38"
abbreviation (input) Op_Ldiv :: op where "Op_Ldiv \<equiv> 39"
abbreviation (input) Op_Lrem :: op where "Op_Lrem \<equiv> 40"
abbreviation (input) Op_Lneg :: op where "Op_Lneg \<equiv> 41"
abbreviation (input) Op_Lshl :: op where "Op_Lshl \<equiv> 42"
abbreviation (input) Op_Lshr :: op where "Op_Lshr \<equiv> 43"
abbreviation (input) Op_Lushr :: op where "Op_Lushr \<equiv> 44"
abbreviation (input) Op_Land :: op where "Op_Land \<equiv> 45"
abbreviation (input) Op_Lor :: op where "Op_Lor \<equiv> 46"
abbreviation (input) Op_Lxor :: op where "Op_Lxor \<equiv> 47"

text \<open>float arithmetic\<close>

abbreviation (input) Op_Fadd :: op where "Op_Fadd \<equiv> 48"
abbreviation (input) Op_Fsub :: op where "Op_Fsub \<equiv> 49"
abbreviation (input) Op_Fmul :: op where "Op_Fmul \<equiv> 50"
abbreviation (input) Op_Fdiv :: op where "Op_Fdiv \<equiv> 51"
abbreviation (input) Op_Frem :: op where "Op_Frem \<equiv> 52"
abbreviation (input) Op_Fneg :: op where "Op_Fneg \<equiv> 53"

text \<open>double arithmetic\<close>

abbreviation (input) Op_Dadd :: op where "Op_Dadd \<equiv> 54"
abbreviation (input) Op_Dsub :: op where "Op_Dsub \<equiv> 55"
abbreviation (input) Op_Dmul :: op where "Op_Dmul \<equiv> 56"
abbreviation (input) Op_Ddiv :: op where "Op_Ddiv \<equiv> 57"
abbreviation (input) Op_Drem :: op where "Op_Drem \<equiv> 58"
abbreviation (input) Op_Dneg :: op where "Op_Dneg \<equiv> 59"

text \<open>comparisons\<close>

abbreviation (input) Op_Icmp :: op where "Op_Icmp \<equiv> 60"
abbreviation (input) Op_Lcmp :: op where "Op_Lcmp \<equiv> 61"
abbreviation (input) Op_Fcmpl :: op where "Op_Fcmpl \<equiv> 62"
abbreviation (input) Op_Fcmpg :: op where "Op_Fcmpg \<equiv> 63"
abbreviation (input) Op_Dcmpl :: op where "Op_Dcmpl \<equiv> 64"
abbreviation (input) Op_Dcmpg :: op where "Op_Dcmpg \<equiv> 65"

text \<open>conversions\<close>

abbreviation (input) Op_I2l :: op where "Op_I2l \<equiv> 66"
abbreviation (input) Op_I2f :: op where "Op_I2f \<equiv> 67"
abbreviation (input) Op_I2d :: op where "Op_I2d \<equiv> 68"
abbreviation (input) Op_L2i :: op where "Op_L2i \<equiv> 69"
abbreviation (input) Op_L2f :: op where "Op_L2f \<equiv> 70"
abbreviation (input) Op_L2d :: op where "Op_L2d \<equiv> 71"
abbreviation (input) Op_F2i :: op where "Op_F2i \<equiv> 72"
abbreviation (input) Op_F2l :: op where "Op_F2l \<equiv> 73"
abbreviation (input) Op_F2d :: op where "Op_F2d \<equiv> 74"
abbreviation (input) Op_D2i :: op where "Op_D2i \<equiv> 75"
abbreviation (input) Op_D2l :: op where "Op_D2l \<equiv> 76"
abbreviation (input) Op_D2f :: op where "Op_D2f \<equiv> 77"
abbreviation (input) Op_I2b :: op where "Op_I2b \<equiv> 78"
abbreviation (input) Op_I2c :: op where "Op_I2c \<equiv> 79"
abbreviation (input) Op_I2s :: op where "Op_I2s \<equiv> 80"

text \<open>branches\<close>

abbreviation (input) Op_Goto :: op where "Op_Goto \<equiv> 81"
abbreviation (input) Op_Ifeq :: op where "Op_Ifeq \<equiv> 82"
abbreviation (input) Op_Ifne :: op where "Op_Ifne \<equiv> 83"
abbreviation (input) Op_Iflt :: op where "Op_Iflt \<equiv> 84"
abbreviation (input) Op_Ifge :: op where "Op_Ifge \<equiv> 85"
abbreviation (input) Op_Ifgt :: op where "Op_Ifgt \<equiv> 86"
abbreviation (input) Op_Ifle :: op where "Op_Ifle \<equiv> 87"
abbreviation (input) Op_Ifnull :: op where "Op_Ifnull \<equiv> 88"
abbreviation (input) Op_Ifnonnull :: op where "Op_Ifnonnull \<equiv> 89"
abbreviation (input) Op_IfIcmpeq :: op where "Op_IfIcmpeq \<equiv> 90"
abbreviation (input) Op_IfIcmpne :: op where "Op_IfIcmpne \<equiv> 91"
abbreviation (input) Op_IfIcmplt :: op where "Op_IfIcmplt \<equiv> 92"
abbreviation (input) Op_IfIcmpge :: op where "Op_IfIcmpge \<equiv> 93"
abbreviation (input) Op_IfIcmpgt :: op where "Op_IfIcmpgt \<equiv> 94"
abbreviation (input) Op_IfIcmple :: op where "Op_IfIcmple \<equiv> 95"
abbreviation (input) Op_IfAcmpeq :: op where "Op_IfAcmpeq \<equiv> 96"
abbreviation (input) Op_IfAcmpne :: op where "Op_IfAcmpne \<equiv> 97"
abbreviation (input) Op_Tableswitch :: op where "Op_Tableswitch \<equiv> 98"
abbreviation (input) Op_Lookupswitch :: op where "Op_Lookupswitch \<equiv> 99"

text \<open>fields\<close>

abbreviation (input) Op_Getfield :: op where "Op_Getfield \<equiv> 100"
abbreviation (input) Op_Putfield :: op where "Op_Putfield \<equiv> 101"
abbreviation (input) Op_Getstatic :: op where "Op_Getstatic \<equiv> 102"
abbreviation (input) Op_Putstatic :: op where "Op_Putstatic \<equiv> 103"
abbreviation (input) Op_GetfieldQuick :: op where "Op_GetfieldQuick \<equiv> 104"
abbreviation (input) Op_PutfieldQuick :: op where "Op_PutfieldQuick \<equiv> 105"

text \<open>arrays\<close>

abbreviation (input) Op_NewArray :: op where "Op_NewArray \<equiv> 106"
abbreviation (input) Op_AnewArray :: op where "Op_AnewArray \<equiv> 107"
abbreviation (input) Op_Arraylength :: op where "Op_Arraylength \<equiv> 108"
abbreviation (input) Op_Iaload :: op where "Op_Iaload \<equiv> 109"
abbreviation (input) Op_Laload :: op where "Op_Laload \<equiv> 110"
abbreviation (input) Op_Faload :: op where "Op_Faload \<equiv> 111"
abbreviation (input) Op_Daload :: op where "Op_Daload \<equiv> 112"
abbreviation (input) Op_Aaload :: op where "Op_Aaload \<equiv> 113"
abbreviation (input) Op_Baload :: op where "Op_Baload \<equiv> 114"
abbreviation (input) Op_Caload :: op where "Op_Caload \<equiv> 115"
abbreviation (input) Op_Saload :: op where "Op_Saload \<equiv> 116"
abbreviation (input) Op_Iastore :: op where "Op_Iastore \<equiv> 117"
abbreviation (input) Op_Lastore :: op where "Op_Lastore \<equiv> 118"
abbreviation (input) Op_Fastore :: op where "Op_Fastore \<equiv> 119"
abbreviation (input) Op_Dastore :: op where "Op_Dastore \<equiv> 120"
abbreviation (input) Op_Aastore :: op where "Op_Aastore \<equiv> 121"
abbreviation (input) Op_Bastore :: op where "Op_Bastore \<equiv> 122"
abbreviation (input) Op_Castore :: op where "Op_Castore \<equiv> 123"
abbreviation (input) Op_Sastore :: op where "Op_Sastore \<equiv> 124"
abbreviation (input) Op_Multianewarray :: op where "Op_Multianewarray \<equiv> 125"

text \<open>objects\<close>

abbreviation (input) Op_New :: op where "Op_New \<equiv> 126"
abbreviation (input) Op_Checkcast :: op where "Op_Checkcast \<equiv> 127"
abbreviation (input) Op_Instanceof :: op where "Op_Instanceof \<equiv> 128"
abbreviation (input) Op_Monitorenter :: op where "Op_Monitorenter \<equiv> 129"
abbreviation (input) Op_Monitorexit :: op where "Op_Monitorexit \<equiv> 130"

text \<open>calls\<close>

abbreviation (input) Op_Invokevirtual :: op where "Op_Invokevirtual \<equiv> 131"
abbreviation (input) Op_Invokespecial :: op where "Op_Invokespecial \<equiv> 132"
abbreviation (input) Op_Invokestatic :: op where "Op_Invokestatic \<equiv> 133"
abbreviation (input) Op_Invokeinterface :: op where "Op_Invokeinterface \<equiv> 134"
abbreviation (input) Op_Invokedynamic :: op where "Op_Invokedynamic \<equiv> 135"
abbreviation (input) Op_InvokevirtualQuick :: op where "Op_InvokevirtualQuick \<equiv> 136"
abbreviation (input) Op_InvokespecialQuick :: op where "Op_InvokespecialQuick \<equiv> 137"
abbreviation (input) Op_InvokestaticQuick :: op where "Op_InvokestaticQuick \<equiv> 138"
abbreviation (input) Op_InvokeinterfaceQuick :: op where "Op_InvokeinterfaceQuick \<equiv> 139"

text \<open>returns\<close>

abbreviation (input) Op_Return :: op where "Op_Return \<equiv> 140"
abbreviation (input) Op_Ireturn :: op where "Op_Ireturn \<equiv> 141"
abbreviation (input) Op_Lreturn :: op where "Op_Lreturn \<equiv> 142"
abbreviation (input) Op_Freturn :: op where "Op_Freturn \<equiv> 143"
abbreviation (input) Op_Dreturn :: op where "Op_Dreturn \<equiv> 144"
abbreviation (input) Op_Areturn :: op where "Op_Areturn \<equiv> 145"

text \<open>exceptions\<close>

abbreviation (input) Op_Athrow :: op where "Op_Athrow \<equiv> 146"

text \<open>deopt / tiering hooks\<close>

abbreviation (input) Op_DeoptTrap :: op where "Op_DeoptTrap \<equiv> 147"
abbreviation (input) Op_GuardNonNull :: op where "Op_GuardNonNull \<equiv> 148"
abbreviation (input) Op_GuardClass :: op where "Op_GuardClass \<equiv> 149"

definition opCount :: nat where
  "opCount = 150"

section \<open>Operand signatures and effect flags\<close>

datatype sig =
    Sig_None | Sig_Reg | Sig_RegImm | Sig_RegCp | Sig_RegSlot | Sig_SlotReg | Sig_RegReg
  | Sig_RegRegReg | Sig_RegRegImm | Sig_RegRegCp | Sig_RegRegRegCp | Sig_Branch | Sig_RegBranch
  | Sig_RegRegBranch | Sig_RegCpBranch | Sig_Call | Sig_CallQuick | Sig_Guard | Sig_GuardCp
  | Sig_Trap

text \<open>Effect flags are a bitmask over \<open>std::uint16_t\<close>.\<close>

type_synonym eff = "16 word"

definition Eff_None :: eff where "Eff_None = 0"
definition Eff_ReadsHeap :: eff where "Eff_ReadsHeap = 1"
definition Eff_WritesHeap :: eff where "Eff_WritesHeap = 2"
definition Eff_CanCall :: eff where "Eff_CanCall = 4"
definition Eff_CanTrap :: eff where "Eff_CanTrap = 8"
definition Eff_CanAllocate :: eff where "Eff_CanAllocate = 16"
definition Eff_CanBranch :: eff where "Eff_CanBranch = 32"
definition Eff_IsSafepoint :: eff where "Eff_IsSafepoint = 64"
definition Eff_Quickened :: eff where "Eff_Quickened = 128"

lemmas eff_flag_defs = Eff_None_def Eff_ReadsHeap_def Eff_WritesHeap_def Eff_CanCall_def
  Eff_CanTrap_def Eff_CanAllocate_def Eff_CanBranch_def Eff_IsSafepoint_def Eff_Quickened_def

definition hasEff :: "eff \<Rightarrow> eff \<Rightarrow> bool" where
  "hasEff v f \<longleftrightarrow> v AND f \<noteq> 0"

record op_info =
  op_name :: string
  op_sig :: sig
  op_result :: rtype
  op_operandA :: rtype
  op_operandB :: rtype
  op_effects :: eff

abbreviation op_row :: "string \<Rightarrow> sig \<Rightarrow> rtype \<Rightarrow> rtype \<Rightarrow> rtype \<Rightarrow> eff \<Rightarrow> op_info" where
  "op_row n s r a b e \<equiv>
     \<lparr>op_name = n, op_sig = s, op_result = r, op_operandA = a, op_operandB = b, op_effects = e\<rparr>"

section \<open>The metadata table\<close>

abbreviation (input) kR :: eff where "kR \<equiv> Eff_ReadsHeap"
abbreviation (input) kW :: eff where "kW \<equiv> Eff_WritesHeap"
abbreviation (input) kC :: eff where "kC \<equiv> Eff_CanCall"
abbreviation (input) kT :: eff where "kT \<equiv> Eff_CanTrap"
abbreviation (input) kA :: eff where "kA \<equiv> Eff_CanAllocate"
abbreviation (input) kB :: eff where "kB \<equiv> Eff_CanBranch"
abbreviation (input) kS :: eff where "kS \<equiv> Eff_IsSafepoint"
abbreviation (input) kQ :: eff where "kQ \<equiv> Eff_Quickened"

text \<open>One definition per section of the table, in table order.\<close>

definition kOpInfo_misc :: "op_info list" where
  "kOpInfo_misc = [
    op_row ''nop'' Sig_None RT_Bottom RT_Bottom RT_Bottom Eff_None,
    op_row ''safepoint_poll'' Sig_None RT_Bottom RT_Bottom RT_Bottom (kS)]"

definition kOpInfo_const :: "op_info list" where
  "kOpInfo_const = [
    op_row ''aconst_null'' Sig_RegImm RT_Null RT_Bottom RT_Bottom Eff_None,
    op_row ''iconst'' Sig_RegImm RT_Int RT_Bottom RT_Bottom Eff_None,
    op_row ''fconst'' Sig_RegImm RT_Float RT_Bottom RT_Bottom Eff_None,
    op_row ''lconst'' Sig_RegCp RT_Long RT_Bottom RT_Bottom Eff_None,
    op_row ''dconst'' Sig_RegCp RT_Double RT_Bottom RT_Bottom Eff_None,
    op_row ''ldc'' Sig_RegCp RT_Ref RT_Bottom RT_Bottom (kT)]"

definition kOpInfo_slot :: "op_info list" where
  "kOpInfo_slot = [
    op_row ''iload'' Sig_RegSlot RT_Int RT_Bottom RT_Bottom Eff_None,
    op_row ''lload'' Sig_RegSlot RT_Long RT_Bottom RT_Bottom Eff_None,
    op_row ''fload'' Sig_RegSlot RT_Float RT_Bottom RT_Bottom Eff_None,
    op_row ''dload'' Sig_RegSlot RT_Double RT_Bottom RT_Bottom Eff_None,
    op_row ''aload'' Sig_RegSlot RT_Ref RT_Bottom RT_Bottom Eff_None,
    op_row ''istore'' Sig_SlotReg RT_Bottom RT_Int RT_Bottom Eff_None,
    op_row ''lstore'' Sig_SlotReg RT_Bottom RT_Long RT_Bottom Eff_None,
    op_row ''fstore'' Sig_SlotReg RT_Bottom RT_Float RT_Bottom Eff_None,
    op_row ''dstore'' Sig_SlotReg RT_Bottom RT_Double RT_Bottom Eff_None,
    op_row ''astore'' Sig_SlotReg RT_Bottom RT_Ref RT_Bottom Eff_None]"

definition kOpInfo_move :: "op_info list" where
  "kOpInfo_move = [
    op_row ''imove'' Sig_RegReg RT_Int RT_Int RT_Bottom Eff_None,
    op_row ''lmove'' Sig_RegReg RT_Long RT_Long RT_Bottom Eff_None,
    op_row ''fmove'' Sig_RegReg RT_Float RT_Float RT_Bottom Eff_None,
    op_row ''dmove'' Sig_RegReg RT_Double RT_Double RT_Bottom Eff_None,
    op_row ''amove'' Sig_RegReg RT_Ref RT_Ref RT_Bottom Eff_None]"

definition kOpInfo_int :: "op_info list" where
  "kOpInfo_int = [
    op_row ''iadd'' Sig_RegRegReg RT_Int RT_Int RT_Int Eff_None,
    op_row ''isub'' Sig_RegRegReg RT_Int RT_Int RT_Int Eff_None,
    op_row ''imul'' Sig_RegRegReg RT_Int RT_Int RT_Int Eff_None,
    op_row ''idiv'' Sig_RegRegReg RT_Int RT_Int RT_Int (kT),
    op_row ''irem'' Sig_RegRegReg RT_Int RT_Int RT_Int (kT),
    op_row ''ineg'' Sig_RegReg RT_Int RT_Int RT_Bottom Eff_None,
    op_row ''ishl'' Sig_RegRegReg RT_Int RT_Int RT_Int Eff_None,
    op_row ''ishr'' Sig_RegRegReg RT_Int RT_Int RT_Int Eff_None,
    op_row ''iushr'' Sig_RegRegReg RT_Int RT_Int RT_Int Eff_None,
    op_row ''iand'' Sig_RegRegReg RT_Int RT_Int RT_Int Eff_None,
    op_row ''ior'' Sig_RegRegReg RT_Int RT_Int RT_Int Eff_None,
    op_row ''ixor'' Sig_RegRegReg RT_Int RT_Int RT_Int Eff_None,
    op_row ''iinc'' Sig_RegImm RT_Int RT_Bottom RT_Bottom Eff_None]"

definition kOpInfo_long :: "op_info list" where
  "kOpInfo_long = [
    op_row ''ladd'' Sig_RegRegReg RT_Long RT_Long RT_Long Eff_None,
    op_row ''lsub'' Sig_RegRegReg RT_Long RT_Long RT_Long Eff_None,
    op_row ''lmul'' Sig_RegRegReg RT_Long RT_Long RT_Long Eff_None,
    op_row ''ldiv'' Sig_RegRegReg RT_Long RT_Long RT_Long (kT),
    op_row ''lrem'' Sig_RegRegReg RT_Long RT_Long RT_Long (kT),
    op_row ''lneg'' Sig_RegReg RT_Long RT_Long RT_Bottom Eff_None,
    op_row ''lshl'' Sig_RegRegReg RT_Long RT_Long RT_Int Eff_None,
    op_row ''lshr'' Sig_RegRegReg RT_Long RT_Long RT_Int Eff_None,
    op_row ''lushr'' Sig_RegRegReg RT_Long RT_Long RT_Int Eff_None,
    op_row ''land'' Sig_RegRegReg RT_Long RT_Long RT_Long Eff_None,
    op_row ''lor'' Sig_RegRegReg RT_Long RT_Long RT_Long Eff_None,
    op_row ''lxor'' Sig_RegRegReg RT_Long RT_Long RT_Long Eff_None]"

definition kOpInfo_float :: "op_info list" where
  "kOpInfo_float = [
    op_row ''fadd'' Sig_RegRegReg RT_Float RT_Float RT_Float Eff_None,
    op_row ''fsub'' Sig_RegRegReg RT_Float RT_Float RT_Float Eff_None,
    op_row ''fmul'' Sig_RegRegReg RT_Float RT_Float RT_Float Eff_None,
    op_row ''fdiv'' Sig_RegRegReg RT_Float RT_Float RT_Float Eff_None,
    op_row ''frem'' Sig_RegRegReg RT_Float RT_Float RT_Float Eff_None,
    op_row ''fneg'' Sig_RegReg RT_Float RT_Float RT_Bottom Eff_None]"

definition kOpInfo_double :: "op_info list" where
  "kOpInfo_double = [
    op_row ''dadd'' Sig_RegRegReg RT_Double RT_Double RT_Double Eff_None,
    op_row ''dsub'' Sig_RegRegReg RT_Double RT_Double RT_Double Eff_None,
    op_row ''dmul'' Sig_RegRegReg RT_Double RT_Double RT_Double Eff_None,
    op_row ''ddiv'' Sig_RegRegReg RT_Double RT_Double RT_Double Eff_None,
    op_row ''drem'' Sig_RegRegReg RT_Double RT_Double RT_Double Eff_None,
    op_row ''dneg'' Sig_RegReg RT_Double RT_Double RT_Bottom Eff_None]"

definition kOpInfo_cmp :: "op_info list" where
  "kOpInfo_cmp = [
    op_row ''icmp'' Sig_RegRegReg RT_Int RT_Int RT_Int Eff_None,
    op_row ''lcmp'' Sig_RegRegReg RT_Int RT_Long RT_Long Eff_None,
    op_row ''fcmpl'' Sig_RegRegReg RT_Int RT_Float RT_Float Eff_None,
    op_row ''fcmpg'' Sig_RegRegReg RT_Int RT_Float RT_Float Eff_None,
    op_row ''dcmpl'' Sig_RegRegReg RT_Int RT_Double RT_Double Eff_None,
    op_row ''dcmpg'' Sig_RegRegReg RT_Int RT_Double RT_Double Eff_None]"

definition kOpInfo_conv :: "op_info list" where
  "kOpInfo_conv = [
    op_row ''i2l'' Sig_RegReg RT_Long RT_Int RT_Bottom Eff_None,
    op_row ''i2f'' Sig_RegReg RT_Float RT_Int RT_Bottom Eff_None,
    op_row ''i2d'' Sig_RegReg RT_Double RT_Int RT_Bottom Eff_None,
    op_row ''l2i'' Sig_RegReg RT_Int RT_Long RT_Bottom Eff_None,
    op_row ''l2f'' Sig_RegReg RT_Float RT_Long RT_Bottom Eff_None,
    op_row ''l2d'' Sig_RegReg RT_Double RT_Long RT_Bottom Eff_None,
    op_row ''f2i'' Sig_RegReg RT_Int RT_Float RT_Bottom Eff_None,
    op_row ''f2l'' Sig_RegReg RT_Long RT_Float RT_Bottom Eff_None,
    op_row ''f2d'' Sig_RegReg RT_Double RT_Float RT_Bottom Eff_None,
    op_row ''d2i'' Sig_RegReg RT_Int RT_Double RT_Bottom Eff_None,
    op_row ''d2l'' Sig_RegReg RT_Long RT_Double RT_Bottom Eff_None,
    op_row ''d2f'' Sig_RegReg RT_Float RT_Double RT_Bottom Eff_None,
    op_row ''i2b'' Sig_RegReg RT_Int RT_Int RT_Bottom Eff_None,
    op_row ''i2c'' Sig_RegReg RT_Int RT_Int RT_Bottom Eff_None,
    op_row ''i2s'' Sig_RegReg RT_Int RT_Int RT_Bottom Eff_None]"

definition kOpInfo_branch :: "op_info list" where
  "kOpInfo_branch = [
    op_row ''goto'' Sig_Branch RT_Bottom RT_Bottom RT_Bottom (kB),
    op_row ''ifeq'' Sig_RegBranch RT_Bottom RT_Int RT_Bottom (kB),
    op_row ''ifne'' Sig_RegBranch RT_Bottom RT_Int RT_Bottom (kB),
    op_row ''iflt'' Sig_RegBranch RT_Bottom RT_Int RT_Bottom (kB),
    op_row ''ifge'' Sig_RegBranch RT_Bottom RT_Int RT_Bottom (kB),
    op_row ''ifgt'' Sig_RegBranch RT_Bottom RT_Int RT_Bottom (kB),
    op_row ''ifle'' Sig_RegBranch RT_Bottom RT_Int RT_Bottom (kB),
    op_row ''ifnull'' Sig_RegBranch RT_Bottom RT_Ref RT_Bottom (kB),
    op_row ''ifnonnull'' Sig_RegBranch RT_Bottom RT_Ref RT_Bottom (kB),
    op_row ''if_icmpeq'' Sig_RegRegBranch RT_Bottom RT_Int RT_Int (kB),
    op_row ''if_icmpne'' Sig_RegRegBranch RT_Bottom RT_Int RT_Int (kB),
    op_row ''if_icmplt'' Sig_RegRegBranch RT_Bottom RT_Int RT_Int (kB),
    op_row ''if_icmpge'' Sig_RegRegBranch RT_Bottom RT_Int RT_Int (kB),
    op_row ''if_icmpgt'' Sig_RegRegBranch RT_Bottom RT_Int RT_Int (kB),
    op_row ''if_icmple'' Sig_RegRegBranch RT_Bottom RT_Int RT_Int (kB),
    op_row ''if_acmpeq'' Sig_RegRegBranch RT_Bottom RT_Ref RT_Ref (kB),
    op_row ''if_acmpne'' Sig_RegRegBranch RT_Bottom RT_Ref RT_Ref (kB),
    op_row ''tableswitch'' Sig_RegCpBranch RT_Bottom RT_Int RT_Bottom (kB),
    op_row ''lookupswitch'' Sig_RegCpBranch RT_Bottom RT_Int RT_Bottom (kB)]"

definition kOpInfo_field :: "op_info list" where
  "kOpInfo_field = [
    op_row ''getfield'' Sig_RegRegCp RT_Bottom RT_Ref RT_Bottom (kR OR kT),
    op_row ''putfield'' Sig_RegRegRegCp RT_Bottom RT_Ref RT_Bottom (kW OR kT),
    op_row ''getstatic'' Sig_RegCp RT_Bottom RT_Bottom RT_Bottom (kR OR kT),
    op_row ''putstatic'' Sig_RegCp RT_Bottom RT_Bottom RT_Bottom (kW OR kT),
    op_row ''getfield_quick'' Sig_RegRegCp RT_Bottom RT_Ref RT_Bottom (kR OR kT OR kQ),
    op_row ''putfield_quick'' Sig_RegRegRegCp RT_Bottom RT_Ref RT_Bottom (kW OR kT OR kQ)]"

definition kOpInfo_array :: "op_info list" where
  "kOpInfo_array = [
    op_row ''newarray'' Sig_RegRegImm RT_Ref RT_Int RT_Bottom (kA OR kT OR kS),
    op_row ''anewarray'' Sig_RegRegCp RT_Ref RT_Int RT_Bottom (kA OR kT OR kS),
    op_row ''arraylength'' Sig_RegReg RT_Int RT_Ref RT_Bottom (kT),
    op_row ''iaload'' Sig_RegRegReg RT_Int RT_Ref RT_Int (kR OR kT),
    op_row ''laload'' Sig_RegRegReg RT_Long RT_Ref RT_Int (kR OR kT),
    op_row ''faload'' Sig_RegRegReg RT_Float RT_Ref RT_Int (kR OR kT),
    op_row ''daload'' Sig_RegRegReg RT_Double RT_Ref RT_Int (kR OR kT),
    op_row ''aaload'' Sig_RegRegReg RT_Ref RT_Ref RT_Int (kR OR kT),
    op_row ''baload'' Sig_RegRegReg RT_Int RT_Ref RT_Int (kR OR kT),
    op_row ''caload'' Sig_RegRegReg RT_Int RT_Ref RT_Int (kR OR kT),
    op_row ''saload'' Sig_RegRegReg RT_Int RT_Ref RT_Int (kR OR kT),
    op_row ''iastore'' Sig_RegRegReg RT_Bottom RT_Ref RT_Int (kW OR kT),
    op_row ''lastore'' Sig_RegRegReg RT_Bottom RT_Ref RT_Int (kW OR kT),
    op_row ''fastore'' Sig_RegRegReg RT_Bottom RT_Ref RT_Int (kW OR kT),
    op_row ''dastore'' Sig_RegRegReg RT_Bottom RT_Ref RT_Int (kW OR kT),
    op_row ''aastore'' Sig_RegRegReg RT_Bottom RT_Ref RT_Int (kW OR kT),
    op_row ''bastore'' Sig_RegRegReg RT_Bottom RT_Ref RT_Int (kW OR kT),
    op_row ''castore'' Sig_RegRegReg RT_Bottom RT_Ref RT_Int (kW OR kT),
    op_row ''sastore'' Sig_RegRegReg RT_Bottom RT_Ref RT_Int (kW OR kT),
    op_row ''multianewarray'' Sig_RegRegRegCp RT_Ref RT_Int RT_Bottom (kA OR kT OR kS)]"

definition kOpInfo_object :: "op_info list" where
  "kOpInfo_object = [
    op_row ''new'' Sig_RegCp RT_Ref RT_Bottom RT_Bottom (kA OR kT OR kS),
    op_row ''checkcast'' Sig_RegRegCp RT_Ref RT_Ref RT_Bottom (kT),
    op_row ''instanceof'' Sig_RegRegCp RT_Int RT_Ref RT_Bottom (kT),
    op_row ''monitorenter'' Sig_Reg RT_Bottom RT_Ref RT_Bottom (kT OR kS),
    op_row ''monitorexit'' Sig_Reg RT_Bottom RT_Ref RT_Bottom (kT OR kS)]"

definition kOpInfo_call :: "op_info list" where
  "kOpInfo_call = [
    op_row ''invokevirtual'' Sig_Call RT_Bottom RT_Bottom RT_Bottom (kC OR kT OR kS),
    op_row ''invokespecial'' Sig_Call RT_Bottom RT_Bottom RT_Bottom (kC OR kT OR kS),
    op_row ''invokestatic'' Sig_Call RT_Bottom RT_Bottom RT_Bottom (kC OR kT OR kS),
    op_row ''invokeinterface'' Sig_Call RT_Bottom RT_Bottom RT_Bottom (kC OR kT OR kS),
    op_row ''invokedynamic'' Sig_Call RT_Bottom RT_Bottom RT_Bottom (kC OR kT OR kS),
    op_row ''invokevirtual_quick'' Sig_CallQuick RT_Bottom RT_Bottom RT_Bottom (kC OR kT OR kS OR kQ),
    op_row ''invokespecial_quick'' Sig_CallQuick RT_Bottom RT_Bottom RT_Bottom (kC OR kT OR kS OR kQ),
    op_row ''invokestatic_quick'' Sig_CallQuick RT_Bottom RT_Bottom RT_Bottom (kC OR kT OR kS OR kQ),
    op_row ''invokeinterface_quick'' Sig_CallQuick RT_Bottom RT_Bottom RT_Bottom (kC OR kT OR kS OR kQ)]"

definition kOpInfo_return :: "op_info list" where
  "kOpInfo_return = [
    op_row ''return'' Sig_None RT_Bottom RT_Bottom RT_Bottom Eff_None,
    op_row ''ireturn'' Sig_Reg RT_Bottom RT_Int RT_Bottom Eff_None,
    op_row ''lreturn'' Sig_Reg RT_Bottom RT_Long RT_Bottom Eff_None,
    op_row ''freturn'' Sig_Reg RT_Bottom RT_Float RT_Bottom Eff_None,
    op_row ''dreturn'' Sig_Reg RT_Bottom RT_Double RT_Bottom Eff_None,
    op_row ''areturn'' Sig_Reg RT_Bottom RT_Ref RT_Bottom Eff_None]"

definition kOpInfo_throw :: "op_info list" where
  "kOpInfo_throw = [
    op_row ''athrow'' Sig_Reg RT_Bottom RT_Ref RT_Bottom (kT)]"

definition kOpInfo_deopt :: "op_info list" where
  "kOpInfo_deopt = [
    op_row ''deopt_trap'' Sig_Trap RT_Bottom RT_Bottom RT_Bottom (kT),
    op_row ''guard_non_null'' Sig_Guard RT_Bottom RT_Ref RT_Bottom (kT OR kB),
    op_row ''guard_class'' Sig_GuardCp RT_Bottom RT_Ref RT_Bottom (kT OR kB)]"

definition kOpInfo :: "op_info list" where
  "kOpInfo =
    kOpInfo_misc @ kOpInfo_const @ kOpInfo_slot @ kOpInfo_move @ kOpInfo_int @ kOpInfo_long @
    kOpInfo_float @ kOpInfo_double @ kOpInfo_cmp @ kOpInfo_conv @ kOpInfo_branch @ kOpInfo_field @
    kOpInfo_array @ kOpInfo_object @ kOpInfo_call @ kOpInfo_return @ kOpInfo_throw @ kOpInfo_deopt"

lemmas kOpInfo_defs = kOpInfo_misc_def kOpInfo_const_def kOpInfo_slot_def kOpInfo_move_def
  kOpInfo_int_def kOpInfo_long_def kOpInfo_float_def kOpInfo_double_def kOpInfo_cmp_def
  kOpInfo_conv_def kOpInfo_branch_def kOpInfo_field_def kOpInfo_array_def kOpInfo_object_def
  kOpInfo_call_def kOpInfo_return_def kOpInfo_throw_def kOpInfo_deopt_def

definition kBadOp :: op_info where
  "kBadOp = op_row ''bad<op>'' Sig_None RT_Bottom RT_Bottom RT_Bottom Eff_None"

definition info :: "op \<Rightarrow> op_info" where
  "info v = (if v < length kOpInfo then kOpInfo ! v else kBadOp)"

definition opName :: "op \<Rightarrow> string" where
  "opName v = op_name (info v)"

section \<open>Facts about the table\<close>

lemma length_kOpInfo [simp]: "length kOpInfo = opCount"
  by (simp add: kOpInfo_def kOpInfo_defs opCount_def)

lemma info_eq: "info v = (if v < opCount then kOpInfo ! v else kBadOp)"
  by (simp add: info_def)

text \<open>A property of every row and of the fallback row holds of \<open>info\<close> at every code.\<close>

lemma info_all:
  assumes "list_all P kOpInfo" and "P kBadOp"
  shows "P (info v)"
  using assms by (auto simp: info_def list_all_length)

end
