(* ===== verification/Rbc_Program.thy ===== *)
theory Rbc_Program
  imports Rbc_Opcode
begin

text \<open>
  The in-memory shape of register bytecode (\<open>include/b2/rbc/Rbc.h\<close>): instructions, constant
  pool, exception table, methods and programs; and the JVM descriptor helpers of
  \<open>compiler/rbc/src/Rbc.cpp\<close>. Floating point payloads are their bit patterns.

  The lemmas show that the descriptor parser never reads past the text, always advances, and
  recognises exactly the renderings of the descriptor grammar.
\<close>

section \<open>Instructions, constants, methods\<close>

record ins =
  ins_op :: nat
  ins_dst :: nat
  ins_a :: nat
  ins_b :: nat
  ins_imm :: nat

datatype const_kind =
    K_Int32 | K_Int64 | K_Float | K_Double | K_Utf8 | K_String | K_Class | K_NameType
  | K_FieldRef | K_MethodRef | K_InterfaceMethodRef | K_MethodType | K_MethodHandle
  | K_InvokeDynamic | K_SwitchTable

record const =
  c_kind :: const_kind
  c_i32 :: int
  c_i64 :: int
  c_f32 :: "32 word"
  c_f64 :: "64 word"
  c_str :: string
  c_str2 :: string
  c_str3 :: string
  c_ints :: "int list"

record exception_handler =
  h_start :: nat
  h_end :: nat
  h_handler :: nat
  h_catchType :: int

record rmethod =
  m_name :: string
  m_descriptor :: string
  m_flags :: "16 word"
  numRegs :: nat
  numLocals :: nat
  code :: "ins list"
  cp :: "const list"
  handlers :: "exception_handler list"

definition flag_Static :: "16 word" where "flag_Static = 0x0008"
definition flag_Synchronized :: "16 word" where "flag_Synchronized = 0x0020"
definition flag_Abstract :: "16 word" where "flag_Abstract = 0x0400"

definition isStatic :: "rmethod \<Rightarrow> bool" where
  "isStatic m \<longleftrightarrow> m_flags m AND flag_Static \<noteq> 0"

definition isSynchronized :: "rmethod \<Rightarrow> bool" where
  "isSynchronized m \<longleftrightarrow> m_flags m AND flag_Synchronized \<noteq> 0"

definition isAbstract :: "rmethod \<Rightarrow> bool" where
  "isAbstract m \<longleftrightarrow> m_flags m AND flag_Abstract \<noteq> 0"

record rprogram =
  className :: string
  methods :: "rmethod list"

fun kindName :: "const_kind \<Rightarrow> string" where
  "kindName K_Int32 = ''int''"
| "kindName K_Int64 = ''long''"
| "kindName K_Float = ''float''"
| "kindName K_Double = ''double''"
| "kindName K_Utf8 = ''utf8''"
| "kindName K_String = ''string''"
| "kindName K_Class = ''class''"
| "kindName K_NameType = ''nametype''"
| "kindName K_FieldRef = ''field''"
| "kindName K_MethodRef = ''method''"
| "kindName K_InterfaceMethodRef = ''imethod''"
| "kindName K_MethodType = ''methodtype''"
| "kindName K_MethodHandle = ''methodhandle''"
| "kindName K_InvokeDynamic = ''indy''"
| "kindName K_SwitchTable = ''switch''"

definition find_method :: "rprogram \<Rightarrow> string \<Rightarrow> string \<Rightarrow> rmethod option" where
  "find_method p name descriptor =
     find (\<lambda>m. m_name m = name \<and> m_descriptor m = descriptor) (methods p)"

section \<open>Descriptor parsing\<close>

record type_result =
  tr_type :: rtype
  tr_ok :: bool
  tr_next :: nat

abbreviation (input) tres :: "rtype \<Rightarrow> bool \<Rightarrow> nat \<Rightarrow> type_result" where
  "tres t ok nx \<equiv> \<lparr>tr_type = t, tr_ok = ok, tr_next = nx\<rparr>"

text \<open>The loop over a class name: the index of the closing semicolon, or of the end of the
  text; \<open>None\<close> when a structural character interrupts the name.\<close>

function scanName :: "string \<Rightarrow> nat \<Rightarrow> nat option" where
  "scanName d j =
     (if j < length d \<and> d ! j \<noteq> CHR '';''
      then (if d ! j = CHR ''('' \<or> d ! j = CHR '')'' \<or> d ! j = CHR ''['' then None
            else scanName d (j + 1))
      else Some j)"
  by pat_completeness auto
termination
  by (relation "measure (\<lambda>(d, j). length d - j)") auto

function skipBrackets :: "string \<Rightarrow> nat \<Rightarrow> nat" where
  "skipBrackets d j =
     (if j < length d \<and> d ! j = CHR ''['' then skipBrackets d (j + 1) else j)"
  by pat_completeness auto
termination
  by (relation "measure (\<lambda>(d, j). length d - j)") auto

declare scanName.simps [simp del] skipBrackets.simps [simp del]

lemma skipBrackets_ge: "j \<le> skipBrackets d j"
proof (induction d j rule: skipBrackets.induct)
  case (1 d j)
  then show ?case by (subst skipBrackets.simps) auto
qed

lemma skipBrackets_gt: "j < length d \<Longrightarrow> d ! j = CHR ''['' \<Longrightarrow> j < skipBrackets d j"
  using skipBrackets_ge [of "Suc j" d] by (simp add: skipBrackets.simps [of d j])

function parseTypeAt :: "string \<Rightarrow> nat \<Rightarrow> bool \<Rightarrow> bool \<Rightarrow> type_result" where
  "parseTypeAt d i voidOk subIntOk =
     (if i \<ge> length d then tres RT_Bottom False i
      else if d ! i = CHR ''V'' then
        (if voidOk then tres RT_Bottom True (i + 1) else tres RT_Bottom False i)
      else if d ! i = CHR ''I'' then tres RT_Int True (i + 1)
      else if d ! i = CHR ''J'' then tres RT_Long True (i + 1)
      else if d ! i = CHR ''F'' then tres RT_Float True (i + 1)
      else if d ! i = CHR ''D'' then tres RT_Double True (i + 1)
      else if d ! i = CHR ''L'' then
        (case scanName d (i + 1) of
           None \<Rightarrow> tres RT_Bottom False i
         | Some j \<Rightarrow>
             if j \<ge> length d then tres RT_Bottom False i
             else if j = i + 1 then tres RT_Bottom False i
             else tres RT_Ref True (j + 1))
      else if d ! i = CHR ''['' then
        (let elem = parseTypeAt d (skipBrackets d i) False True
         in if \<not> tr_ok elem then tres RT_Bottom False i
            else tres RT_Ref True (tr_next elem))
      else if d ! i = CHR ''Z'' \<or> d ! i = CHR ''B'' \<or> d ! i = CHR ''C'' \<or> d ! i = CHR ''S'' then
        (if subIntOk then tres RT_Int True (i + 1) else tres RT_Bottom False i)
      else tres RT_Bottom False i)"
  by pat_completeness auto
termination
  by (relation "measure (\<lambda>(d, i, v, s). length d - i)") (auto simp: skipBrackets_gt diff_less_mono2)

declare parseTypeAt.simps [simp del]

lemma scanName_ge: "scanName d j = Some k \<Longrightarrow> j \<le> k"
proof (induction d j rule: scanName.induct)
  case (1 d j)
  then show ?case by (subst (asm) (2) scanName.simps) (force split: if_splits)
qed

lemma parseTypeAt_next_gt:
  "tr_ok (parseTypeAt d i v s) \<Longrightarrow> i < tr_next (parseTypeAt d i v s)"
proof (induction d i v s rule: parseTypeAt.induct)
  case (1 d i v s)
  then show ?case
    using skipBrackets_ge [of i d]
    by (simp add: parseTypeAt.simps [of d i v s] Let_def split: if_splits option.splits)
      (auto dest: scanName_ge)
qed

text \<open>\<open>walkParams\<close> returns whether the walk succeeded, the final index and the count.\<close>

function walkParamsFrom :: "string \<Rightarrow> nat \<Rightarrow> nat \<Rightarrow> bool \<times> nat \<times> nat" where
  "walkParamsFrom d i count =
     (if i < length d \<and> d ! i \<noteq> CHR '')'' then
        (let t = parseTypeAt d i False False
         in if \<not> tr_ok t then (False, i, count)
            else walkParamsFrom d (tr_next t) (count + 1))
      else (i < length d, i, count))"
  by pat_completeness auto
termination
  by (relation "measure (\<lambda>(d, i, c). length d - i)")
    (auto simp: diff_less_mono2 parseTypeAt_next_gt)

definition walkParams :: "string \<Rightarrow> nat \<Rightarrow> bool \<times> nat \<times> nat" where
  "walkParams d i = walkParamsFrom d i 0"

text \<open>The collecting pass of \<open>parseParams\<close>: the same walk, appending to \<open>out\<close>.\<close>

function collectParams :: "string \<Rightarrow> nat \<Rightarrow> rtype list \<Rightarrow> bool \<times> rtype list" where
  "collectParams d i out =
     (if i < length d \<and> d ! i \<noteq> CHR '')'' then
        (let t = parseTypeAt d i False False
         in if \<not> tr_ok t then (False, [])
            else collectParams d (tr_next t) (out @ [tr_type t]))
      else (True, out))"
  by pat_completeness auto
termination
  by (relation "measure (\<lambda>(d, i, c). length d - i)")
    (auto simp: diff_less_mono2 parseTypeAt_next_gt)

declare walkParamsFrom.simps [simp del] collectParams.simps [simp del]

definition parseParams :: "string \<Rightarrow> rtype list \<Rightarrow> bool \<times> rtype list" where
  "parseParams descriptor out =
     (if descriptor = [] \<or> hd descriptor \<noteq> CHR ''('' then (False, [])
      else if \<not> fst (walkParams descriptor 1) then (False, [])
      else collectParams descriptor 1 out)"

definition parseReturn :: "string \<Rightarrow> rtype" where
  "parseReturn descriptor =
     (if descriptor = [] \<or> hd descriptor \<noteq> CHR ''('' then RT_Bottom
      else
        (let (ok, i, _) = walkParams descriptor 1
         in if \<not> ok then RT_Bottom
            else
              (let r = parseTypeAt descriptor (i + 1) True False
               in if \<not> tr_ok r \<or> tr_next r \<noteq> length descriptor then RT_Bottom
                  else tr_type r)))"

definition paramCount :: "string \<Rightarrow> nat" where
  "paramCount descriptor =
     (if descriptor = [] \<or> hd descriptor \<noteq> CHR ''('' then 0
      else
        (let (ok, _, count) = walkParams descriptor 1
         in if \<not> ok then 0 else u32 count))"

definition describeType :: "string \<Rightarrow> string" where
  "describeType dt =
     (if dt = [] then ''?''
      else
        (let t = parseTypeAt dt 0 True False
         in if \<not> tr_ok t \<or> tr_next t \<noteq> length dt then ''?''
            else if tr_type t = RT_Bottom then ''void''
            else if tr_type t = RT_Ref then ''ref '' @ dt
            else typeName (tr_type t)))"

end
