(* ===== verification/Rbc_Verifier.thy ===== *)
theory Rbc_Verifier
  imports Rbc_Program
begin

text \<open>
  The structural and type verifier of register bytecode (\<open>compiler/rbc/src/Verifier.cpp\<close>),
  definition by definition in source order: descriptor scanning, operand layout, switch payload
  validation, the structural phases, basic blocks, the worklist dataflow, the final sweep and the
  protected-range verdict.

  The lambdas of \<open>verifyImpl\<close> share mutable locals; here those locals are the record \<open>wl\<close>
  (worklist state) and \<open>sweep\<close> (final sweep state), passed explicitly. Diagnostics carry a
  structured message; \<open>diag_text\<close> renders the source's text. The operation budget makes the
  worklist a total function: its measure is the budget that is left.
\<close>

section \<open>Tunables\<close>

definition kMaxDiags :: nat where "kMaxDiags = 100"
definition kMaxU16 :: nat where "kMaxU16 = 65535"
definition kOpBudget :: nat where "kOpBudget = 1073741824"
definition kMaxStateSlots :: nat where "kMaxStateSlots = 268435456"
definition kMaxBreakpoints :: nat where "kMaxBreakpoints = 8388608"

section \<open>Descriptor scanning\<close>

text \<open>\<open>std::string_view::find\<close> of one character from a position; \<open>None\<close> is \<open>npos\<close>.\<close>

function find_char :: "char \<Rightarrow> string \<Rightarrow> nat \<Rightarrow> nat option" where
  "find_char c s i =
     (if i \<ge> length s then None else if s ! i = c then Some i else find_char c s (i + 1))"
  by pat_completeness auto
termination
  by (relation "measure (\<lambda>(c, s, i). length s - i)") auto

declare find_char.simps [simp del]

record field_scan =
  fs_ok :: bool
  fs_type :: rtype
  fs_used :: nat

abbreviation (input) fsc :: "bool \<Rightarrow> rtype \<Rightarrow> nat \<Rightarrow> field_scan" where
  "fsc ok t u \<equiv> \<lparr>fs_ok = ok, fs_type = t, fs_used = u\<rparr>"

definition scanField :: "string \<Rightarrow> field_scan" where
  "scanField s =
     (if s = [] then fsc False RT_Bottom 0
      else if s ! 0 = CHR ''I'' \<or> s ! 0 = CHR ''Z'' \<or> s ! 0 = CHR ''B'' \<or> s ! 0 = CHR ''C''
        \<or> s ! 0 = CHR ''S'' then fsc True RT_Int 1
      else if s ! 0 = CHR ''J'' then fsc True RT_Long 1
      else if s ! 0 = CHR ''F'' then fsc True RT_Float 1
      else if s ! 0 = CHR ''D'' then fsc True RT_Double 1
      else if s ! 0 = CHR ''L'' then
        (case find_char (CHR '';'') s 0 of
           None \<Rightarrow> fsc False RT_Bottom 0
         | Some semi \<Rightarrow> if semi < 2 then fsc False RT_Bottom 0 else fsc True RT_Ref (semi + 1))
      else if s ! 0 = CHR ''['' then
        (let i = skipBrackets s 1
         in if i \<ge> length s then fsc False RT_Bottom 0
            else if s ! i = CHR ''L'' then
              (case find_char (CHR '';'') s i of
                 None \<Rightarrow> fsc False RT_Bottom 0
               | Some semi \<Rightarrow>
                   if semi < i + 2 then fsc False RT_Bottom 0 else fsc True RT_Ref (semi + 1))
            else if s ! i = CHR ''I'' \<or> s ! i = CHR ''J'' \<or> s ! i = CHR ''F'' \<or> s ! i = CHR ''D''
              \<or> s ! i = CHR ''Z'' \<or> s ! i = CHR ''B'' \<or> s ! i = CHR ''C'' \<or> s ! i = CHR ''S''
              then fsc True RT_Ref (i + 1)
            else fsc False RT_Bottom 0)
      else fsc False RT_Bottom 0)"

lemma scanField_used_pos_imp: "fs_ok (scanField s) \<longrightarrow> 0 < fs_used (scanField s)"
  by (simp add: scanField_def Let_def split: option.split)

lemmas scanField_used_pos = scanField_used_pos_imp [rule_format]

record ret_scan =
  rs_ok :: bool
  rs_isVoid :: bool
  rs_type :: rtype

abbreviation (input) rsc :: "bool \<Rightarrow> bool \<Rightarrow> rtype \<Rightarrow> ret_scan" where
  "rsc ok v t \<equiv> \<lparr>rs_ok = ok, rs_isVoid = v, rs_type = t\<rparr>"

text \<open>The parameter loop of \<open>scanMethodDesc\<close>: the index where it stops, \<open>None\<close> when a
  parameter is malformed.\<close>

function scanParams :: "string \<Rightarrow> nat \<Rightarrow> nat option" where
  "scanParams d i =
     (if i < length d \<and> d ! i \<noteq> CHR '')'' then
        (let fs = scanField (drop i d)
         in if \<not> fs_ok fs then None else scanParams d (i + fs_used fs))
      else Some i)"
  by pat_completeness auto
termination
  by (relation "measure (\<lambda>(d, i). length d - i)") (auto dest: scanField_used_pos)

declare scanParams.simps [simp del]

definition scanMethodDesc :: "string \<Rightarrow> ret_scan" where
  "scanMethodDesc d =
     (if d = [] \<or> d ! 0 \<noteq> CHR ''('' then rsc False False RT_Bottom
      else
        (case scanParams d 1 of
           None \<Rightarrow> rsc False False RT_Bottom
         | Some i \<Rightarrow>
             if i \<ge> length d \<or> d ! i \<noteq> CHR '')'' then rsc False False RT_Bottom
             else if i + 1 = length d then rsc False False RT_Bottom
             else if d ! (i + 1) = CHR ''V'' \<and> i + 2 = length d then rsc True True RT_Bottom
             else
               (let fs = scanField (drop (i + 1) d)
                in if \<not> fs_ok fs \<or> fs_used fs \<noteq> length d - (i + 1) then rsc False False RT_Bottom
                   else rsc True False (fs_type fs))))"

definition retName :: "ret_scan \<Rightarrow> string" where
  "retName rs = (if rs_isVoid rs then ''void'' else typeName (rs_type rs))"

section \<open>Operand layout\<close>

record reg_use =
  ru_dst :: bool
  ru_a :: bool
  ru_b :: bool

abbreviation (input) ruse :: "bool \<Rightarrow> bool \<Rightarrow> bool \<Rightarrow> reg_use" where
  "ruse x y z \<equiv> \<lparr>ru_dst = x, ru_a = y, ru_b = z\<rparr>"

fun regUse :: "sig \<Rightarrow> reg_use" where
  "regUse Sig_None = ruse False False False"
| "regUse Sig_Reg = ruse False True False"
| "regUse Sig_RegImm = ruse True False False"
| "regUse Sig_RegCp = ruse True False False"
| "regUse Sig_RegSlot = ruse True False False"
| "regUse Sig_SlotReg = ruse False True False"
| "regUse Sig_RegReg = ruse True True False"
| "regUse Sig_RegRegReg = ruse True True True"
| "regUse Sig_RegRegImm = ruse True True False"
| "regUse Sig_RegRegCp = ruse True True False"
| "regUse Sig_RegRegRegCp = ruse True True True"
| "regUse Sig_Branch = ruse False False False"
| "regUse Sig_RegBranch = ruse False True False"
| "regUse Sig_RegRegBranch = ruse False True True"
| "regUse Sig_RegCpBranch = ruse False True False"
| "regUse Sig_Call = ruse True True False"
| "regUse Sig_CallQuick = ruse True True False"
| "regUse Sig_Guard = ruse False True False"
| "regUse Sig_GuardCp = ruse False True False"
| "regUse Sig_Trap = ruse False False False"

definition sigUsesCpIndex :: "sig \<Rightarrow> bool" where
  "sigUsesCpIndex s \<longleftrightarrow> s = Sig_RegCp \<or> s = Sig_RegRegCp \<or> s = Sig_RegRegRegCp
     \<or> s = Sig_Call \<or> s = Sig_RegCpBranch"

definition isBranchSig :: "sig \<Rightarrow> bool" where
  "isBranchSig s \<longleftrightarrow> s = Sig_Branch \<or> s = Sig_RegBranch \<or> s = Sig_RegRegBranch"

definition isReturnOp :: "op \<Rightarrow> bool" where
  "isReturnOp v \<longleftrightarrow> v = Op_Return \<or> v = Op_Ireturn \<or> v = Op_Lreturn \<or> v = Op_Freturn
     \<or> v = Op_Dreturn \<or> v = Op_Areturn"

definition canFallThrough :: "op \<Rightarrow> bool" where
  "canFallThrough v \<longleftrightarrow> \<not> (v = Op_Goto \<or> v = Op_Tableswitch \<or> v = Op_Lookupswitch
     \<or> v = Op_Athrow \<or> v = Op_DeoptTrap \<or> v = Op_Return \<or> v = Op_Ireturn \<or> v = Op_Lreturn
     \<or> v = Op_Freturn \<or> v = Op_Dreturn \<or> v = Op_Areturn)"

definition cpKindOk :: "op \<Rightarrow> const_kind \<Rightarrow> bool" where
  "cpKindOk v k =
     (if v = Op_Lconst then k = K_Int64
      else if v = Op_Dconst then k = K_Double
      else if v = Op_Ldc then
        k = K_String \<or> k = K_Class \<or> k = K_MethodType \<or> k = K_MethodHandle
      else if v = Op_New \<or> v = Op_AnewArray \<or> v = Op_Checkcast \<or> v = Op_Instanceof
        \<or> v = Op_Multianewarray then k = K_Class
      else if v = Op_Getfield \<or> v = Op_Putfield \<or> v = Op_Getstatic \<or> v = Op_Putstatic then
        k = K_FieldRef
      else if v = Op_Invokevirtual \<or> v = Op_Invokespecial then k = K_MethodRef
      else if v = Op_Invokeinterface \<or> v = Op_Invokestatic then
        k = K_MethodRef \<or> k = K_InterfaceMethodRef
      else if v = Op_Invokedynamic then k = K_InvokeDynamic
      else if v = Op_Tableswitch \<or> v = Op_Lookupswitch then k = K_SwitchTable
      else if v = Op_GuardClass then k = K_Class
      else True)"

definition expectedCpName :: "op \<Rightarrow> string" where
  "expectedCpName v =
     (if v = Op_Lconst then ''long''
      else if v = Op_Dconst then ''double''
      else if v = Op_Ldc then ''string, class, methodtype or methodhandle''
      else if v = Op_New \<or> v = Op_AnewArray \<or> v = Op_Checkcast \<or> v = Op_Instanceof
        \<or> v = Op_Multianewarray \<or> v = Op_GuardClass then ''class''
      else if v = Op_Getfield \<or> v = Op_Putfield \<or> v = Op_Getstatic \<or> v = Op_Putstatic then
        ''field''
      else if v = Op_Invokevirtual \<or> v = Op_Invokespecial then ''method''
      else if v = Op_Invokeinterface \<or> v = Op_Invokestatic then ''method or interface method''
      else if v = Op_Invokedynamic then ''invoke dynamic''
      else if v = Op_Tableswitch \<or> v = Op_Lookupswitch then ''switch table''
      else ''any'')"

section \<open>Diagnostics\<close>

datatype vmsg =
    M_TooLarge | M_EmptyBody | M_AbstractCode | M_NumRegs nat | M_NumLocals nat
  | M_InvalidOpcode nat nat | M_RegRange nat nat | M_SlotRange nat nat | M_Atype nat nat
  | M_CpRange nat nat | M_CpKind nat const_kind string string | M_BranchRange nat nat
  | M_SwitchTarget int nat | M_TablePayload nat | M_TableLowHigh int int | M_LookupPayload nat
  | M_LookupOrder nat | M_HandlerRange nat nat | M_HandlerEmpty nat nat | M_HandlerTarget nat
  | M_CatchType int | M_FallOff | M_Descriptor | M_Params nat nat | M_Budget
  | M_Operand nat string rtype nat rtype bool | M_Return nat string string | M_FieldDesc nat
  | M_MethodDesc nat | M_IndyDesc nat | M_ProtectedLocal nat

record verify_diag =
  vd_pc :: nat
  vd_msg :: vmsg

abbreviation (input) vdiag :: "nat \<Rightarrow> vmsg \<Rightarrow> verify_diag" where
  "vdiag pc msg \<equiv> \<lparr>vd_pc = pc, vd_msg = msg\<rparr>"

type_synonym diags = "verify_diag list"

text \<open>\<open>std::to_string\<close> on unsigned and signed integers.\<close>

fun show_nat :: "nat \<Rightarrow> string" where
  "show_nat n =
     (if n < 10 then [char_of (48 + n)] else show_nat (n div 10) @ [char_of (48 + n mod 10)])"

declare show_nat.simps [simp del]

definition show_int :: "int \<Rightarrow> string" where
  "show_int i = (if i < 0 then CHR ''-'' # show_nat (nat (- i)) else show_nat (nat i))"

definition operandMsg :: "nat \<Rightarrow> string \<Rightarrow> rtype \<Rightarrow> nat \<Rightarrow> rtype \<Rightarrow> bool \<Rightarrow> string" where
  "operandMsg pc name expected slot found isLocal =
     ''pc '' @ show_nat pc @ '': '' @ name @ '' expects '' @ typeName expected @ '' in '' @
     (if isLocal then ''l'' else ''r'') @ show_nat slot @ '', found '' @ typeName found"

fun diag_text :: "vmsg \<Rightarrow> string" where
  "diag_text M_TooLarge = ''method too large to verify''"
| "diag_text M_EmptyBody = ''empty method body''"
| "diag_text M_AbstractCode = ''abstract method must have empty code''"
| "diag_text (M_NumRegs n) = ''numRegs '' @ show_nat n @ '' exceeds 65535''"
| "diag_text (M_NumLocals n) = ''numLocals '' @ show_nat n @ '' exceeds 65535''"
| "diag_text (M_InvalidOpcode v pc) = ''invalid opcode '' @ show_nat v @ '' at pc '' @ show_nat pc"
| "diag_text (M_RegRange r n) =
     ''register r'' @ show_nat r @ '' out of range (numRegs='' @ show_nat n @ '')''"
| "diag_text (M_SlotRange s n) =
     ''local slot l'' @ show_nat s @ '' out of range (numLocals='' @ show_nat n @ '')''"
| "diag_text (M_Atype c pc) = ''invalid array type code '' @ show_nat c @ '' at pc '' @ show_nat pc"
| "diag_text (M_CpRange i n) =
     ''constant pool index '' @ show_nat i @ '' out of range (size '' @ show_nat n @ '')''"
| "diag_text (M_CpKind i k name expected) =
     ''constant pool entry '' @ show_nat i @ '' is '' @ kindName k @ '', but '' @ name @
     '' requires '' @ expected"
| "diag_text (M_BranchRange t n) =
     ''branch target '' @ show_nat t @ '' out of range (code size '' @ show_nat n @ '')''"
| "diag_text (M_SwitchTarget t n) =
     ''switch target '' @ show_int t @ '' out of range (code size '' @ show_nat n @ '')''"
| "diag_text (M_TablePayload n) = ''malformed tableswitch payload (size '' @ show_nat n @ '')''"
| "diag_text (M_TableLowHigh l h) =
     ''tableswitch low '' @ show_int l @ '' exceeds high '' @ show_int h"
| "diag_text (M_LookupPayload n) = ''malformed lookupswitch payload (size '' @ show_nat n @ '')''"
| "diag_text (M_LookupOrder i) =
     ''lookupswitch matches not strictly increasing at entry '' @ show_nat i"
| "diag_text (M_HandlerRange s e) =
     ''exception handler range ['' @ show_nat s @ '','' @ show_nat e @ '') invalid''"
| "diag_text (M_HandlerEmpty s e) =
     ''exception handler range ['' @ show_nat s @ '','' @ show_nat e @ '') is empty''"
| "diag_text (M_HandlerTarget h) = ''exception handler target '' @ show_nat h @ '' out of range''"
| "diag_text (M_CatchType t) =
     ''exception handler catch type '' @ show_int t @ '' is not a Class constant''"
| "diag_text M_FallOff = ''control falls off the end of the method''"
| "diag_text M_Descriptor = ''malformed method descriptor''"
| "diag_text (M_Params needed n) =
     ''method parameters require '' @ show_nat needed @ '' local slots but numLocals='' @ show_nat n"
| "diag_text M_Budget = ''verification budget exceeded''"
| "diag_text (M_Operand pc name e s f l) = operandMsg pc name e s f l"
| "diag_text (M_Return pc name r) =
     ''pc '' @ show_nat pc @ '': '' @ name @ '' does not match method return type '' @ r"
| "diag_text (M_FieldDesc pc) = ''malformed FieldRef descriptor at pc '' @ show_nat pc"
| "diag_text (M_MethodDesc pc) = ''malformed MethodRef descriptor at pc '' @ show_nat pc"
| "diag_text (M_IndyDesc pc) = ''malformed InvokeDynamic descriptor at pc '' @ show_nat pc"
| "diag_text (M_ProtectedLocal i) =
     ''local l'' @ show_nat i @ '' changes type within protected range''"

text \<open>The capped sink.\<close>

definition sink_full :: "diags \<Rightarrow> bool" where
  "sink_full ds \<longleftrightarrow> length ds \<ge> kMaxDiags"

definition sink_add :: "diags \<Rightarrow> verify_diag \<Rightarrow> diags" where
  "sink_add ds d = (if length ds \<ge> kMaxDiags then ds else ds @ [d])"

definition sink_adds :: "diags \<Rightarrow> diags \<Rightarrow> diags" where
  "sink_adds ds new = foldl sink_add ds new"

section \<open>Switch payloads\<close>

text \<open>Each validation step yields its verdict, its diagnostics and the valid targets, in the
  source's order; a caller without a sink ignores the diagnostics.\<close>

type_synonym switch_res = "bool \<times> diags \<times> nat list"

definition sw_seq :: "switch_res \<Rightarrow> switch_res \<Rightarrow> switch_res" where
  "sw_seq x y = (fst x \<and> fst y, fst (snd x) @ fst (snd y), snd (snd x) @ snd (snd y))"

definition switchTargetOk :: "rmethod \<Rightarrow> nat \<Rightarrow> int \<Rightarrow> switch_res" where
  "switchTargetOk m pc t =
     (if t < 0 \<or> nat t \<ge> length (code m)
      then (False, [vdiag pc (M_SwitchTarget t (length (code m)))], [])
      else (True, [], [nat t]))"

definition validateTable :: "rmethod \<Rightarrow> nat \<Rightarrow> int list \<Rightarrow> switch_res" where
  "validateTable m pc v =
     (if length v < 3 then (False, [vdiag pc (M_TablePayload (length v))], [])
      else
        (let low = v ! 0; high = v ! 1;
             d1 = (if low > high then [vdiag pc (M_TableLowHigh low high)] else []);
             d2 = (if 3 + (high - low) + 1 \<noteq> int (length v)
                   then [vdiag pc (M_TablePayload (length v))] else [])
         in if d1 @ d2 \<noteq> [] then (False, d1 @ d2, [])
            else foldl (\<lambda>r t. sw_seq r (switchTargetOk m pc t)) (True, [], []) (drop 2 v)))"

definition lookupEntry :: "rmethod \<Rightarrow> nat \<Rightarrow> int list \<Rightarrow> nat \<Rightarrow> switch_res" where
  "lookupEntry m pc v i =
     sw_seq
       (if i > 0 \<and> v ! (2 + 2 * i) \<le> v ! (2 + 2 * (i - 1))
        then (False, [vdiag pc (M_LookupOrder i)], []) else (True, [], []))
       (switchTargetOk m pc (v ! (3 + 2 * i)))"

definition validateLookup :: "rmethod \<Rightarrow> nat \<Rightarrow> int list \<Rightarrow> switch_res" where
  "validateLookup m pc v =
     (if length v < 2 then (False, [vdiag pc (M_LookupPayload (length v))], [])
      else
        (let cnt = v ! 0
         in if cnt < 0 \<or> 2 + 2 * cnt \<noteq> int (length v)
            then (False, [vdiag pc (M_LookupPayload (length v))], [])
            else
              sw_seq
                (foldl (\<lambda>r i. sw_seq r (lookupEntry m pc v i)) (True, [], []) [0..<nat cnt])
                (switchTargetOk m pc (v ! 1))))"

definition validateSwitch :: "rmethod \<Rightarrow> nat \<Rightarrow> ins \<Rightarrow> switch_res" where
  "validateSwitch m pc i =
     (if ins_imm i \<ge> length (cp m) then (False, [], [])
      else
        (let c = cp m ! ins_imm i
         in if c_kind c \<noteq> K_SwitchTable then (False, [], [])
            else if ins_op i = Op_Tableswitch then validateTable m pc (c_ints c)
            else validateLookup m pc (c_ints c)))"

definition switchTargets :: "rmethod \<Rightarrow> nat \<Rightarrow> ins \<Rightarrow> nat list" where
  "switchTargets m pc i = snd (snd (validateSwitch m pc i))"

section \<open>Phases 0 and 1: guards and structure\<close>

definition phase0 :: "rmethod \<Rightarrow> diags \<Rightarrow> diags" where
  "phase0 m ds =
     sink_adds ds
       ((if code m = [] \<and> \<not> isAbstract m then [vdiag 0 M_EmptyBody] else []) @
        (if code m \<noteq> [] \<and> isAbstract m then [vdiag 0 M_AbstractCode] else []) @
        (if numRegs m > kMaxU16 then [vdiag 0 (M_NumRegs (numRegs m))] else []) @
        (if numLocals m > kMaxU16 then [vdiag 0 (M_NumLocals (numLocals m))] else []))"

definition regDiags :: "rmethod \<Rightarrow> nat \<Rightarrow> reg_use \<Rightarrow> ins \<Rightarrow> diags" where
  "regDiags m pc ru i =
     (if ru_dst ru \<and> ins_dst i \<ge> numRegs m
      then [vdiag pc (M_RegRange (ins_dst i) (numRegs m))] else []) @
     (if ru_a ru \<and> ins_a i \<ge> numRegs m
      then [vdiag pc (M_RegRange (ins_a i) (numRegs m))] else []) @
     (if ru_b ru \<and> ins_b i \<ge> numRegs m
      then [vdiag pc (M_RegRange (ins_b i) (numRegs m))] else [])"

definition cpDiags :: "rmethod \<Rightarrow> nat \<Rightarrow> ins \<Rightarrow> diags" where
  "cpDiags m pc i =
     (let oi = info (ins_op i)
      in if sigUsesCpIndex (op_sig oi) \<or> ins_op i = Op_GuardClass then
           (if ins_imm i \<ge> length (cp m)
            then [vdiag pc (M_CpRange (ins_imm i) (length (cp m)))]
            else if \<not> cpKindOk (ins_op i) (c_kind (cp m ! ins_imm i))
            then [vdiag pc (M_CpKind (ins_imm i) (c_kind (cp m ! ins_imm i)) (op_name oi)
                    (expectedCpName (ins_op i)))]
            else [])
         else [])"

text \<open>The body of the structural loop for one instruction.\<close>

definition structDiags :: "rmethod \<Rightarrow> nat \<Rightarrow> ins \<Rightarrow> diags" where
  "structDiags m pc i =
     (if ins_op i \<ge> opCount then [vdiag pc (M_InvalidOpcode (ins_op i) pc)]
      else
        (let oi = info (ins_op i); ru = regUse (op_sig oi)
         in regDiags m pc ru i @
            (if (op_sig oi = Sig_Call \<or> op_sig oi = Sig_CallQuick) \<and> ins_b i \<noteq> 0
                \<and> ins_a i < numRegs m \<and> ins_a i + ins_b i > numRegs m
             then [vdiag pc (M_RegRange (numRegs m) (numRegs m))] else []) @
            (if (op_sig oi = Sig_RegSlot \<or> op_sig oi = Sig_SlotReg) \<and> ins_imm i \<ge> numLocals m
             then [vdiag pc (M_SlotRange (ins_imm i) (numLocals m))] else []) @
            (if ins_op i = Op_NewArray \<and> (ins_imm i < 4 \<or> ins_imm i > 11)
             then [vdiag pc (M_Atype (ins_imm i) pc)] else []) @
            cpDiags m pc i @
            (if isBranchSig (op_sig oi) \<and> ins_imm i \<ge> length (code m)
             then [vdiag pc (M_BranchRange (ins_imm i) (length (code m)))] else []) @
            (if op_sig oi = Sig_RegCpBranch then fst (snd (validateSwitch m pc i)) else [])))"

fun phase1_from :: "rmethod \<Rightarrow> nat list \<Rightarrow> diags \<Rightarrow> diags" where
  "phase1_from m [] ds = ds"
| "phase1_from m (pc # pcs) ds =
     (if sink_full ds then ds
      else phase1_from m pcs (sink_adds ds (structDiags m pc (code m ! pc))))"

definition phase1 :: "rmethod \<Rightarrow> diags \<Rightarrow> diags" where
  "phase1 m ds = phase1_from m [0..<length (code m)] ds"

definition handlerDiags :: "rmethod \<Rightarrow> exception_handler \<Rightarrow> diags" where
  "handlerDiags m h =
     (let n = length (code m)
      in (if h_start h > h_end h \<or> h_end h > n
          then [vdiag 0 (M_HandlerRange (h_start h) (h_end h))]
          else if h_start h = h_end h
          then [vdiag 0 (M_HandlerEmpty (h_start h) (h_end h))]
          else []) @
         (if h_handler h \<ge> n then [vdiag 0 (M_HandlerTarget (h_handler h))] else []) @
         (if h_catchType h < -1 \<or>
             (h_catchType h \<ge> 0 \<and>
              (nat (h_catchType h) \<ge> length (cp m) \<or>
               c_kind (cp m ! nat (h_catchType h)) \<noteq> K_Class))
          then [vdiag 0 (M_CatchType (h_catchType h))] else []))"

fun phase1b_from :: "rmethod \<Rightarrow> exception_handler list \<Rightarrow> diags \<Rightarrow> diags" where
  "phase1b_from m [] ds = ds"
| "phase1b_from m (h # hs) ds =
     (if sink_full ds then ds else phase1b_from m hs (sink_adds ds (handlerDiags m h)))"

definition phase1b :: "rmethod \<Rightarrow> diags \<Rightarrow> diags" where
  "phase1b m ds = phase1b_from m (handlers m) ds"

section \<open>Basic blocks\<close>

definition terminatorIns :: "ins \<Rightarrow> bool" where
  "terminatorIns i \<longleftrightarrow>
     (let s = op_sig (info (ins_op i))
      in isBranchSig s \<or> s = Sig_RegCpBranch \<or> isReturnOp (ins_op i)
         \<or> ins_op i = Op_Athrow \<or> ins_op i = Op_DeoptTrap)"

text \<open>The leaders one instruction contributes: its branch target, its valid switch targets and,
  after a terminator, the next instruction.\<close>

definition leadersOf :: "rmethod \<Rightarrow> nat \<Rightarrow> ins \<Rightarrow> nat list" where
  "leadersOf m pc i =
     (if ins_op i \<ge> opCount then []
      else
        (let s = op_sig (info (ins_op i)); n = length (code m)
         in (if isBranchSig s \<and> ins_imm i < n then [ins_imm i] else []) @
            (if s = Sig_RegCpBranch then filter (\<lambda>t. t < n) (switchTargets m pc i) else []) @
            (if terminatorIns i \<and> pc + 1 < n then [pc + 1] else [])))"

definition markLeaders :: "bool list \<Rightarrow> nat list \<Rightarrow> bool list" where
  "markLeaders ls ts = foldl (\<lambda>l t. l[t := True]) ls ts"

definition leaders :: "rmethod \<Rightarrow> bool list" where
  "leaders m =
     (let n = length (code m);
          l0 = (replicate n False)[0 := True];
          l1 = foldl (\<lambda>l pc. markLeaders l (leadersOf m pc (code m ! pc))) l0 [0..<n]
      in foldl (\<lambda>l h. if h_handler h < n then l[h_handler h := True] else l) l1 (handlers m))"

definition blockStarts :: "rmethod \<Rightarrow> nat list" where
  "blockStarts m = filter (\<lambda>pc. leaders m ! pc) [0..<length (code m)]"

definition blockEnd :: "nat list \<Rightarrow> nat \<Rightarrow> nat \<Rightarrow> nat" where
  "blockEnd starts n b = (if b + 1 < length starts then starts ! (b + 1) else n)"

definition blockOfTable :: "nat list \<Rightarrow> nat \<Rightarrow> nat list" where
  "blockOfTable starts n =
     foldl (\<lambda>tab b. foldl (\<lambda>tab p. tab[p := b]) tab [starts ! b..<blockEnd starts n b])
       (replicate n 0) [0..<length starts]"

definition addSucc :: "nat list \<Rightarrow> nat \<Rightarrow> nat list \<Rightarrow> nat \<Rightarrow> nat list" where
  "addSucc blockOf n ss target =
     (if target \<ge> n then ss
      else
        (let tb = blockOf ! target
         in if ss = [] \<or> last ss \<noteq> tb then ss @ [tb] else ss))"

definition blockSucc :: "rmethod \<Rightarrow> nat list \<Rightarrow> nat list \<Rightarrow> nat \<Rightarrow> nat list" where
  "blockSucc m starts blockOf b =
     (let n = length (code m); lst = blockEnd starts n b - 1; i = code m ! lst
      in if ins_op i \<ge> opCount then []
         else
           (let s = op_sig (info (ins_op i));
                s0 = (if canFallThrough (ins_op i) \<and> lst + 1 < n
                      then addSucc blockOf n [] (lst + 1) else []);
                s1 = (if isBranchSig s then addSucc blockOf n s0 (ins_imm i) else s0)
            in if s = Sig_RegCpBranch
               then foldl (addSucc blockOf n) s1 (switchTargets m lst i) else s1))"

record cfg =
  starts :: "nat list"
  blockOf :: "nat list"
  succs :: "nat list list"

definition buildCfg :: "rmethod \<Rightarrow> cfg" where
  "buildCfg m =
     (let st = blockStarts m; bo = blockOfTable st (length (code m))
      in \<lparr>starts = st, blockOf = bo, succs = map (blockSucc m st bo) [0..<length st]\<rparr>)"

section \<open>One abstract-interpretation step\<close>

record flow_state =
  regs :: "rtype list"
  locals :: "rtype list"

definition cpAt :: "rmethod \<Rightarrow> nat \<Rightarrow> op \<Rightarrow> const option" where
  "cpAt m idx v =
     (if idx \<ge> length (cp m) then None
      else if cpKindOk v (c_kind (cp m ! idx)) then Some (cp m ! idx) else None)"

definition setDst :: "ins \<Rightarrow> rtype \<Rightarrow> flow_state \<Rightarrow> flow_state" where
  "setDst i t S = (if ins_dst i < length (regs S) then S\<lparr>regs := (regs S)[ins_dst i := t]\<rparr> else S)"

definition operandDiags :: "nat \<Rightarrow> op_info \<Rightarrow> reg_use \<Rightarrow> ins \<Rightarrow> flow_state \<Rightarrow> diags" where
  "operandDiags pc oi ru i S =
     (if ru_a ru \<and> op_operandA oi \<noteq> RT_Bottom
         \<and> \<not> isAssignable (regs S ! ins_a i) (op_operandA oi)
      then [vdiag pc (M_Operand pc (op_name oi) (op_operandA oi) (ins_a i) (regs S ! ins_a i) False)]
      else []) @
     (if ru_b ru \<and> op_operandB oi \<noteq> RT_Bottom
         \<and> \<not> isAssignable (regs S ! ins_b i) (op_operandB oi)
      then [vdiag pc (M_Operand pc (op_name oi) (op_operandB oi) (ins_b i) (regs S ! ins_b i) False)]
      else [])"

definition returnAgrees :: "ret_scan \<Rightarrow> op \<Rightarrow> bool" where
  "returnAgrees ret v =
     (if v = Op_Return then rs_isVoid ret
      else if v = Op_Ireturn then \<not> rs_isVoid ret \<and> rs_type ret = RT_Int
      else if v = Op_Lreturn then \<not> rs_isVoid ret \<and> rs_type ret = RT_Long
      else if v = Op_Freturn then \<not> rs_isVoid ret \<and> rs_type ret = RT_Float
      else if v = Op_Dreturn then \<not> rs_isVoid ret \<and> rs_type ret = RT_Double
      else \<not> rs_isVoid ret \<and> rs_type ret = RT_Ref)"

definition isInvokeOp :: "op \<Rightarrow> bool" where
  "isInvokeOp v \<longleftrightarrow> v = Op_Invokevirtual \<or> v = Op_Invokespecial \<or> v = Op_Invokestatic
     \<or> v = Op_Invokeinterface \<or> v = Op_Invokedynamic"

definition destWrite ::
  "rmethod \<Rightarrow> nat \<Rightarrow> ins \<Rightarrow> flow_state \<Rightarrow> bool \<Rightarrow> flow_state \<times> diags" where
  "destWrite m pc i S emitD =
     (let v = ins_op i; oi = info v
      in if v = Op_Getfield \<or> v = Op_Getstatic then
           (case cpAt m (ins_imm i) v of
              None \<Rightarrow> (S, [])
            | Some c \<Rightarrow>
                (let fs = scanField (c_str3 c)
                 in if fs_ok fs \<and> fs_used fs = length (c_str3 c)
                    then (setDst i (fs_type fs) S, [])
                    else (setDst i RT_Ref S, if emitD then [vdiag pc (M_FieldDesc pc)] else [])))
         else if isInvokeOp v then
           (case cpAt m (ins_imm i) v of
              None \<Rightarrow> (S, [])
            | Some c \<Rightarrow>
                (let rscan = scanMethodDesc (if v = Op_Invokedynamic then c_str2 c else c_str3 c)
                 in if \<not> rs_ok rscan
                    then (setDst i RT_Ref S,
                          if emitD
                          then [vdiag pc (if v = Op_Invokedynamic then M_IndyDesc pc
                                          else M_MethodDesc pc)]
                          else [])
                    else if \<not> rs_isVoid rscan then (setDst i (rs_type rscan) S, [])
                    else (S, [])))
         else if op_result oi \<noteq> RT_Bottom then (setDst i (op_result oi) S, [])
         else (S, []))"

text \<open>The result is the new state, the diagnostics and, for a store to a local, the slot and the
  stored type (the sweep records change points from it).\<close>

definition stepIns ::
  "rmethod \<Rightarrow> ret_scan \<Rightarrow> nat \<Rightarrow> ins \<Rightarrow> flow_state \<Rightarrow> bool
    \<Rightarrow> flow_state \<times> diags \<times> (nat \<times> rtype) option" where
  "stepIns m ret pc i S emitD =
     (if ins_op i \<ge> opCount then (S, [], None)
      else
        (let v = ins_op i; oi = info v; ru = regUse (op_sig oi);
             dstOk = ins_dst i < length (regs S);
             aOk = ins_a i < length (regs S);
             bOk = ins_b i < length (regs S);
             slotOk = ins_imm i < length (locals S)
         in if (ru_dst ru \<and> \<not> dstOk) \<or> (ru_a ru \<and> \<not> aOk) \<or> (ru_b ru \<and> \<not> bOk) then (S, [], None)
            else
              (let isCall = (op_sig oi = Sig_Call \<or> op_sig oi = Sig_CallQuick);
                   od = (if emitD \<and> \<not> isCall then operandDiags pc oi ru i S else [])
               in if v = Op_Iinc then
                    (if dstOk
                     then (S\<lparr>regs := (regs S)[ins_dst i := RT_Int]\<rparr>,
                           od @ (if emitD \<and> \<not> isAssignable (regs S ! ins_dst i) RT_Int
                                 then [vdiag pc (M_Operand pc (op_name oi) RT_Int (ins_dst i)
                                         (regs S ! ins_dst i) False)]
                                 else []), None)
                     else (S, od, None))
                  else if op_sig oi = Sig_RegSlot then
                    (if \<not> slotOk then (S, od, None)
                     else if op_result oi \<noteq> RT_Bottom
                     then (setDst i (op_result oi) S,
                           od @ (if emitD \<and> \<not> isAssignable (locals S ! ins_imm i) (op_result oi)
                                 then [vdiag pc (M_Operand pc (op_name oi) (op_result oi)
                                         (ins_imm i) (locals S ! ins_imm i) True)]
                                 else []), None)
                     else (setDst i RT_Bottom S, od, None))
                  else if op_sig oi = Sig_SlotReg then
                    (if \<not> slotOk then (S, od, None)
                     else (S\<lparr>locals := (locals S)[ins_imm i := regs S ! ins_a i]\<rparr>, od,
                           Some (ins_imm i, regs S ! ins_a i)))
                  else
                    (let rd = (if emitD \<and> isReturnOp v \<and> \<not> returnAgrees ret v
                               then [vdiag pc (M_Return pc (op_name oi) (retName ret))] else []);
                         (S', dd) = destWrite m pc i S emitD
                     in (S', od @ rd @ dd, None)))))"

end
