(* ===== verification/Rbc_Worklist.thy ===== *)
theory Rbc_Worklist
  imports Rbc_Verifier
begin

text \<open>
  The dataflow of the bytecode verifier (\<open>compiler/rbc/src/Verifier.cpp\<close>, second half of
  \<open>verifyImpl\<close>): the worklist over basic blocks, the final sweep with its change points, the
  protected-range verdict, and \<open>verify\<close> itself. An allocation failure, which \<open>verify\<close> turns
  into a diagnostic, has no counterpart here.
\<close>

section \<open>Worklist state\<close>

record wl =
  inStates :: "flow_state list"
  visited :: "bool list"
  inQueue :: "bool list"
  queue :: "nat list"
  ops :: nat
  dead :: bool
  stateSlots :: nat
  wdiags :: diags

definition tick :: "wl \<Rightarrow> wl" where
  "tick w =
     (if ops w + 1 > kOpBudget \<and> \<not> dead w
      then w\<lparr>ops := ops w + 1, dead := True, wdiags := sink_add (wdiags w) (vdiag 0 M_Budget)\<rparr>
      else w\<lparr>ops := ops w + 1\<rparr>)"

definition ticks :: "nat \<Rightarrow> wl \<Rightarrow> wl" where
  "ticks k w = (tick ^^ k) w"

definition enq :: "nat \<Rightarrow> wl \<Rightarrow> wl" where
  "enq b w =
     (if \<not> inQueue w ! b
      then w\<lparr>inQueue := (inQueue w)[b := True], queue := queue w @ [b]\<rparr> else w)"

definition seed :: "rmethod \<Rightarrow> nat \<Rightarrow> flow_state \<Rightarrow> wl \<Rightarrow> bool \<times> wl" where
  "seed m b st w =
     (let w1 = w\<lparr>inStates := (inStates w)[b := \<lparr>regs = regs st, locals = locals st\<rparr>],
                 stateSlots := stateSlots w + numRegs m + numLocals m\<rparr>
      in if stateSlots w1 > kMaxStateSlots
         then (False, w1\<lparr>dead := True, wdiags := sink_add (wdiags w1) (vdiag 0 M_TooLarge)\<rparr>)
         else (True, w1\<lparr>visited := (visited w1)[b := True]\<rparr>))"

definition handlerRegs :: "nat \<Rightarrow> rtype list" where
  "handlerRegs n = (replicate n RT_Bottom)[0 := RT_Ref]"

definition seedHandler :: "rmethod \<Rightarrow> nat \<Rightarrow> rtype list \<Rightarrow> wl \<Rightarrow> bool \<times> wl" where
  "seedHandler m b locs w =
     (let w1 = w\<lparr>inStates := (inStates w)[b := \<lparr>regs = handlerRegs (numRegs m), locals = locs\<rparr>],
                 stateSlots := stateSlots w + numRegs m + numLocals m\<rparr>
      in if stateSlots w1 > kMaxStateSlots
         then (False, w1\<lparr>dead := True, wdiags := sink_add (wdiags w1) (vdiag 0 M_TooLarge)\<rparr>)
         else (True, w1\<lparr>visited := (visited w1)[b := True]\<rparr>))"

text \<open>Element-wise joins: the joined vector, whether it changed, and the number of ticks.\<close>

fun joinVec :: "rtype list \<Rightarrow> rtype list \<Rightarrow> rtype list \<times> bool \<times> nat" where
  "joinVec [] ys = ([], False, 0)"
| "joinVec (x # xs) [] = (x # xs, False, 1)"
| "joinVec (x # xs) (y # ys) =
     (let (zs, ch, k) = joinVec xs ys
      in (join x y # zs, join x y \<noteq> x \<or> ch, k + 1))"

definition joinInto :: "flow_state \<Rightarrow> flow_state \<Rightarrow> flow_state \<times> bool \<times> nat" where
  "joinInto dst src =
     (let (rs, c1, k1) = joinVec (regs dst) (regs src);
          (ls, c2, k2) = joinVec (locals dst) (locals src)
      in (\<lparr>regs = rs, locals = ls\<rparr>, c1 \<or> c2, k1 + k2))"

fun joinRegsFrom :: "nat \<Rightarrow> rtype list \<Rightarrow> rtype list \<times> bool \<times> nat" where
  "joinRegsFrom i [] = ([], False, 0)"
| "joinRegsFrom i (x # xs) =
     (let edgeReg = (if i = 0 then RT_Ref else RT_Bottom);
          (zs, ch, k) = joinRegsFrom (i + 1) xs
      in (join x edgeReg # zs, join x edgeReg \<noteq> x \<or> ch, k + 1))"

fun joinLocals :: "rtype list \<Rightarrow> rtype list \<Rightarrow> rtype list \<times> bool \<times> nat" where
  "joinLocals [] ys = ([], False, 0)"
| "joinLocals (x # xs) [] = (x # xs, False, 0)"
| "joinLocals (x # xs) (y # ys) =
     (let (zs, ch, k) = joinLocals xs ys
      in (join x y # zs, join x y \<noteq> x \<or> ch, k + 1))"

definition joinHandler :: "flow_state \<Rightarrow> rtype list \<Rightarrow> flow_state \<times> bool \<times> nat" where
  "joinHandler dst locs =
     (let (rs, c1, k1) = joinRegsFrom 0 (regs dst);
          (ls, c2, k2) = joinLocals (locals dst) locs
      in (\<lparr>regs = rs, locals = ls\<rparr>, c1 \<or> c2, k1 + k2))"

section \<open>Processing one block\<close>

definition badHandler :: "rmethod \<Rightarrow> exception_handler \<Rightarrow> bool" where
  "badHandler m h \<longleftrightarrow>
     h_start h \<ge> h_end h \<or> h_end h > length (code m) \<or> h_handler h \<ge> length (code m)"

fun exnEdges ::
  "rmethod \<Rightarrow> cfg \<Rightarrow> nat \<Rightarrow> rtype list \<Rightarrow> exception_handler list \<Rightarrow> wl \<Rightarrow> wl" where
  "exnEdges m c pc locs [] w = w"
| "exnEdges m c pc locs (h # hs) w =
     (let w1 = tick w
      in if badHandler m h then exnEdges m c pc locs hs w1
         else if pc < h_start h \<or> pc \<ge> h_end h then exnEdges m c pc locs hs w1
         else
           (let hb = blockOf c ! h_handler h
            in if \<not> visited w1 ! hb then
                 (let (ok, w2) = seedHandler m hb locs w1
                  in if \<not> ok then w2 else exnEdges m c pc locs hs (enq hb w2))
               else
                 (let (dst, changed, k) = joinHandler (inStates w1 ! hb) locs;
                      w2 = ticks k (w1\<lparr>inStates := (inStates w1)[hb := dst]\<rparr>)
                  in exnEdges m c pc locs hs (if changed then enq hb w2 else w2))))"

fun blockLoop ::
  "rmethod \<Rightarrow> ret_scan \<Rightarrow> cfg \<Rightarrow> nat list \<Rightarrow> flow_state \<Rightarrow> wl \<Rightarrow> flow_state \<times> wl" where
  "blockLoop m ret c [] S w = (S, w)"
| "blockLoop m ret c (pc # pcs) S w =
     (if dead w then (S, w)
      else
        (let w1 = tick w;
             w2 = (if handlers m \<noteq> [] then exnEdges m c pc (locals S) (handlers m) w1 else w1)
         in if handlers m \<noteq> [] \<and> dead w2 then (S, w2)
            else
              blockLoop m ret c pcs
                (if dead w2 then S else fst (stepIns m ret pc (code m ! pc) S False)) w2))"

fun succEdges :: "rmethod \<Rightarrow> nat \<Rightarrow> flow_state \<Rightarrow> nat list \<Rightarrow> wl \<Rightarrow> wl" where
  "succEdges m nb S [] w = w"
| "succEdges m nb S (s # ss) w =
     (let w1 = tick w
      in if s \<ge> nb then succEdges m nb S ss w1
         else if \<not> visited w1 ! s then
           (let (ok, w2) = seed m s S w1
            in if \<not> ok then w2 else succEdges m nb S ss (enq s w2))
         else
           (let (dst, changed, k) = joinInto (inStates w1 ! s) S;
                w2 = ticks k (w1\<lparr>inStates := (inStates w1)[s := dst]\<rparr>)
            in succEdges m nb S ss (if changed then enq s w2 else w2)))"

definition blockPcs :: "rmethod \<Rightarrow> cfg \<Rightarrow> nat \<Rightarrow> nat list" where
  "blockPcs m c b = [starts c ! b..<blockEnd (starts c) (length (code m)) b]"

definition processBlock :: "rmethod \<Rightarrow> ret_scan \<Rightarrow> cfg \<Rightarrow> wl \<Rightarrow> wl" where
  "processBlock m ret c w =
     (let b = hd (queue w);
          w1 = tick (w\<lparr>queue := tl (queue w), inQueue := (inQueue w)[b := False]\<rparr>);
          (S', w2) = blockLoop m ret c (blockPcs m c b) (inStates w1 ! b) w1
      in if dead w2 then w2
         else succEdges m (length (starts c)) S' (succs c ! b) w2)"

section \<open>The budget as a measure\<close>

definition budget_left :: "wl \<Rightarrow> nat" where
  "budget_left w = (if dead w then 0 else 1 + (kOpBudget + 1 - ops w))"

lemma budget_left_tick: "\<not> dead w \<Longrightarrow> budget_left (tick w) < budget_left w"
  by (auto simp: budget_left_def tick_def)

lemma budget_left_tick_le: "budget_left (tick w) \<le> budget_left w"
  by (auto simp: budget_left_def tick_def)

lemma budget_left_ticks: "budget_left (ticks k w) \<le> budget_left w"
  unfolding ticks_def by (induction k) (auto intro: le_trans budget_left_tick_le)

lemma budget_left_enq [simp]: "budget_left (enq b w) = budget_left w"
  by (simp add: budget_left_def enq_def)

lemma budget_left_seed: "budget_left (snd (seed m b st w)) \<le> budget_left w"
  by (simp add: budget_left_def seed_def Let_def)

lemma budget_left_seedHandler: "budget_left (snd (seedHandler m b st w)) \<le> budget_left w"
  by (simp add: budget_left_def seedHandler_def Let_def)

lemma budget_left_inStates [simp]: "budget_left (w\<lparr>inStates := x\<rparr>) = budget_left w"
  by (simp add: budget_left_def)

lemma budget_left_exnEdges: "budget_left (exnEdges m c pc locs hs w) \<le> budget_left w"
proof (induction hs arbitrary: w)
  case (Cons h hs)
  have seed: "seedHandler m b st (tick w) = (ok, w2) \<Longrightarrow> budget_left w2 \<le> budget_left w" for b st ok w2
    using budget_left_seedHandler [of m b st "tick w"] budget_left_tick_le [of w] by simp
  have upd: "budget_left (ticks k ((tick w)\<lparr>inStates := x\<rparr>)) \<le> budget_left w" for k x
    using budget_left_ticks [of k "(tick w)\<lparr>inStates := x\<rparr>"] budget_left_tick_le [of w] by simp
  show ?case
    by (auto simp: Let_def budget_left_tick_le split: prod.split
        intro!: order_trans [OF Cons.IH] upd dest: seed)
qed simp

lemma budget_left_succEdges: "budget_left (succEdges m nb S ss w) \<le> budget_left w"
proof (induction ss arbitrary: w)
  case (Cons s ss)
  have seed: "seed m b st (tick w) = (ok, w2) \<Longrightarrow> budget_left w2 \<le> budget_left w" for b st ok w2
    using budget_left_seed [of m b st "tick w"] budget_left_tick_le [of w] by simp
  have upd: "budget_left (ticks k ((tick w)\<lparr>inStates := x\<rparr>)) \<le> budget_left w" for k x
    using budget_left_ticks [of k "(tick w)\<lparr>inStates := x\<rparr>"] budget_left_tick_le [of w] by simp
  show ?case
    by (auto simp: Let_def budget_left_tick_le split: prod.split
        intro!: order_trans [OF Cons.IH] upd dest: seed)
qed simp

lemma budget_left_blockLoop: "budget_left (snd (blockLoop m ret c pcs S w)) \<le> budget_left w"
proof (induction pcs arbitrary: S w)
  case (Cons pc pcs)
  have "budget_left (exnEdges m c pc locs hs (tick w)) \<le> budget_left w" for locs hs
    by (rule order_trans [OF budget_left_exnEdges budget_left_tick_le])
  then show ?case
    by (auto simp: Let_def budget_left_tick_le intro!: order_trans [OF Cons.IH])
qed simp

lemma budget_left_processBlock:
  assumes "\<not> dead w"
  shows "budget_left (processBlock m ret c w) < budget_left w"
proof -
  let ?b = "hd (queue w)"
  let ?w0 = "w\<lparr>queue := tl (queue w), inQueue := (inQueue w)[?b := False]\<rparr>"
  have "budget_left (tick ?w0) < budget_left ?w0"
    using assms by (intro budget_left_tick) simp
  moreover have "budget_left ?w0 = budget_left w"
    by (simp add: budget_left_def)
  ultimately have lt: "budget_left (tick ?w0) < budget_left w" by simp
  obtain S' w2 where bl: "blockLoop m ret c (blockPcs m c ?b) (inStates (tick ?w0) ! ?b) (tick ?w0)
      = (S', w2)"
    by fastforce
  have w2: "budget_left w2 < budget_left w"
    using budget_left_blockLoop [of m ret c "blockPcs m c ?b" "inStates (tick ?w0) ! ?b" "tick ?w0"]
      bl lt by simp
  show ?thesis
    using w2 order_le_less_trans [OF budget_left_succEdges w2] by (simp add: processBlock_def bl)
qed

function worklist :: "rmethod \<Rightarrow> ret_scan \<Rightarrow> cfg \<Rightarrow> wl \<Rightarrow> wl" where
  "worklist m ret c w =
     (if queue w = [] \<or> dead w \<or> sink_full (wdiags w) then w
      else worklist m ret c (processBlock m ret c w))"
  by pat_completeness auto
termination
  by (relation "measure (\<lambda>(m, ret, c, w). budget_left w)") (auto intro: budget_left_processBlock)

declare worklist.simps [simp del]

section \<open>The final sweep\<close>

record sweep =
  sw_w :: wl
  sw_running :: "rtype list"
  sw_bps :: "(nat \<times> rtype) list list"
  sw_bpCount :: nat

definition recordChange :: "nat \<Rightarrow> nat \<Rightarrow> rtype \<Rightarrow> sweep \<Rightarrow> sweep" where
  "recordChange slot pos t sw =
     (if sw_running sw ! slot \<noteq> t then
        (let sw1 = sw\<lparr>sw_running := (sw_running sw)[slot := t]\<rparr>
         in if sw_bpCount sw1 < kMaxBreakpoints
            then sw1\<lparr>sw_bpCount := sw_bpCount sw1 + 1,
                     sw_bps := (sw_bps sw1)[slot := (sw_bps sw1 ! slot) @ [(pos, t)]]\<rparr>
            else sw1\<lparr>sw_w := (sw_w sw1)\<lparr>dead := True,
                       wdiags := sink_add (wdiags (sw_w sw1)) (vdiag 0 M_Budget)\<rparr>\<rparr>)
      else sw)"

fun sweepEntry :: "rtype list \<Rightarrow> nat \<Rightarrow> nat list \<Rightarrow> sweep \<Rightarrow> sweep" where
  "sweepEntry locs pos [] sw = sw"
| "sweepEntry locs pos (i # is) sw =
     (let sw' = recordChange i pos (locs ! i) sw
      in if dead (sw_w sw') then sw' else sweepEntry locs pos is sw')"

definition sweepIns :: "rmethod \<Rightarrow> ret_scan \<Rightarrow> nat \<Rightarrow> flow_state \<Rightarrow> sweep \<Rightarrow> flow_state \<times> sweep" where
  "sweepIns m ret pc S sw =
     (let sw1 = sw\<lparr>sw_w := tick (sw_w sw)\<rparr>
      in if dead (sw_w sw1) then (S, sw1)
         else
           (let (S', ds, store) = stepIns m ret pc (code m ! pc) S True;
                sw2 = sw1\<lparr>sw_w := (sw_w sw1)\<lparr>wdiags := sink_adds (wdiags (sw_w sw1)) ds\<rparr>\<rparr>
            in case store of
                 None \<Rightarrow> (S', sw2)
               | Some (slot, t) \<Rightarrow>
                   (S', if slot < length (sw_running sw2)
                        then recordChange slot (pc + 1) t sw2 else sw2)))"

fun sweepLoop :: "rmethod \<Rightarrow> ret_scan \<Rightarrow> nat list \<Rightarrow> flow_state \<Rightarrow> sweep \<Rightarrow> sweep" where
  "sweepLoop m ret [] S sw = sw"
| "sweepLoop m ret (pc # pcs) S sw =
     (if dead (sw_w sw) then sw
      else (let (S', sw') = sweepIns m ret pc S sw in sweepLoop m ret pcs S' sw'))"

fun sweepBlocks :: "rmethod \<Rightarrow> ret_scan \<Rightarrow> cfg \<Rightarrow> nat list \<Rightarrow> sweep \<Rightarrow> sweep" where
  "sweepBlocks m ret c [] sw = sw"
| "sweepBlocks m ret c (b # bs) sw =
     (if dead (sw_w sw) \<or> sink_full (wdiags (sw_w sw)) then sw
      else if \<not> visited (sw_w sw) ! b then sweepBlocks m ret c bs sw
      else
        (let S = inStates (sw_w sw) ! b;
             sw1 = (if handlers m \<noteq> []
                    then sweepEntry (locals S) (starts c ! b)
                           [0..<min (length (locals S)) (length (sw_running sw))] sw
                    else sw)
         in if dead (sw_w sw1) then sw1
            else sweepBlocks m ret c bs (sweepLoop m ret (blockPcs m c b) S sw1)))"

section \<open>The protected-range verdict\<close>

text \<open>The binary search for the first change point past \<open>start\<close>.\<close>

function firstAfter :: "(nat \<times> rtype) list \<Rightarrow> nat \<Rightarrow> nat \<Rightarrow> nat \<Rightarrow> nat" where
  "firstAfter l start lo hi =
     (if lo < hi then
        (let mid = lo + (hi - lo) div 2
         in if fst (l ! mid) \<le> start then firstAfter l start (mid + 1) hi
            else firstAfter l start lo mid)
      else lo)"
  by pat_completeness auto
termination
  by (relation "measure (\<lambda>(l, s, lo, hi). hi - lo)") auto

declare firstAfter.simps [simp del]

definition stabilityDiags :: "rmethod \<Rightarrow> (nat \<times> rtype) list list \<Rightarrow> exception_handler \<Rightarrow> diags" where
  "stabilityDiags m bps h =
     (if badHandler m h then []
      else
        concat (map (\<lambda>i.
          let l = bps ! i; lo = firstAfter l (h_start h) 0 (length l)
          in if lo < length l \<and> fst (l ! lo) < h_end h
             then [vdiag (fst (l ! lo)) (M_ProtectedLocal i)] else []) [0..<length bps]))"

section \<open>The whole verifier\<close>

definition initWl :: "nat \<Rightarrow> diags \<Rightarrow> wl" where
  "initWl nb ds =
     \<lparr>inStates = replicate nb \<lparr>regs = [], locals = []\<rparr>, visited = replicate nb False,
      inQueue = replicate nb False, queue = [], ops = 0, dead = False, stateSlots = 0,
      wdiags = ds\<rparr>"

definition typeCheck :: "rmethod \<Rightarrow> ret_scan \<Rightarrow> flow_state \<Rightarrow> diags \<Rightarrow> diags" where
  "typeCheck m ret entry ds =
     (let c = buildCfg m; nb = length (starts c);
          (ok, w1) = seed m 0 entry (initWl nb ds)
      in if \<not> ok then wdiags w1
         else
           (let w2 = worklist m ret c (enq 0 w1)
            in if dead w2 then wdiags w2
               else
                 (let sw = sweepBlocks m ret c [0..<nb]
                        \<lparr>sw_w = w2, sw_running = locals (inStates w2 ! 0),
                         sw_bps = replicate (numLocals m) [], sw_bpCount = 0\<rparr>
                  in if dead (sw_w sw) then wdiags (sw_w sw)
                     else
                       foldl (\<lambda>d h. sink_adds d (stabilityDiags m (sw_bps sw) h))
                         (wdiags (sw_w sw)) (handlers m))))"

definition entryState :: "rmethod \<Rightarrow> rtype list \<Rightarrow> flow_state" where
  "entryState m params =
     (let base = (if isStatic m then 0 else 1);
          l0 = replicate (numLocals m) RT_Bottom;
          l1 = (if base = 1 \<and> numLocals m > 0 then l0[0 := RT_Ref] else l0)
      in \<lparr>regs = replicate (numRegs m) RT_Bottom,
          locals = foldl (\<lambda>l i. l[base + i := params ! i]) l1 [0..<length params]\<rparr>)"

definition phase2 :: "rmethod \<Rightarrow> diags \<Rightarrow> diags" where
  "phase2 m ds =
     (let n = length (code m); lst = last (code m);
          ds1 = (if ins_op lst < opCount \<and> canFallThrough (ins_op lst)
                 then sink_add ds (vdiag (n - 1) M_FallOff) else ds);
          (pok, params) = parseParams (m_descriptor m) []
      in if \<not> pok then sink_add ds1 (vdiag 0 M_Descriptor)
         else
           (let rs = scanMethodDesc (m_descriptor m)
            in if \<not> rs_ok rs then sink_add ds1 (vdiag 0 M_Descriptor)
               else
                 (let needed = (if isStatic m then 0 else 1) + length params
                  in if needed > numLocals m
                     then sink_add ds1 (vdiag 0 (M_Params needed (numLocals m)))
                     else typeCheck m rs (entryState m params) ds1)))"

definition verifyImpl :: "rmethod \<Rightarrow> diags" where
  "verifyImpl m =
     (if length (code m) > 4294967295 then sink_add [] (vdiag 0 M_TooLarge)
      else
        (let ds = phase1b m (phase1 m (phase0 m []))
         in if code m = [] \<or> sink_full ds then ds else phase2 m ds))"

record verify_result =
  vr_ok :: bool
  vr_diags :: diags

definition verify :: "rmethod \<Rightarrow> verify_result" where
  "verify m = (let ds = verifyImpl m in \<lparr>vr_ok = (ds = []), vr_diags = ds\<rparr>)"

end
