(* ===== verification/Rbc_Flow.thy ===== *)
theory Rbc_Flow
  imports Rbc_Worklist
begin

text \<open>
  The order on abstract states and its interaction with the verifier's step: the step keeps the
  size of a state, is monotone, and reports no more on a more precise state. The element-wise
  joins of the worklist are least upper bounds in this order, and the exception-edge join is the
  ordinary join with the handler's entry state.
\<close>

section \<open>The order on abstract states\<close>

definition sle :: "flow_state \<Rightarrow> flow_state \<Rightarrow> bool" where
  "sle S T \<longleftrightarrow> list_all2 rle (regs S) (regs T) \<and> list_all2 rle (locals S) (locals T)"

definition dims :: "rmethod \<Rightarrow> flow_state \<Rightarrow> bool" where
  "dims m S \<longleftrightarrow> length (regs S) = numRegs m \<and> length (locals S) = numLocals m"

lemma sle_refl [simp]: "sle S S"
  by (simp add: sle_def list_all2_refl)

lemma sle_trans: "sle S T \<Longrightarrow> sle T U \<Longrightarrow> sle S U"
  unfolding sle_def using list_all2_trans [of rle rle rle] rty.le_trans by blast

lemma sle_dims: "sle S T \<Longrightarrow> dims m S \<longleftrightarrow> dims m T"
  by (auto simp: sle_def dims_def dest: list_all2_lengthD)

lemma sle_length:
  "sle S T \<Longrightarrow> length (regs S) = length (regs T) \<and> length (locals S) = length (locals T)"
  by (auto simp: sle_def dest: list_all2_lengthD)

lemma sle_reg: "sle S T \<Longrightarrow> i < length (regs S) \<Longrightarrow> rle (regs S ! i) (regs T ! i)"
  by (simp add: sle_def list_all2_nthD)

lemma sle_local: "sle S T \<Longrightarrow> i < length (locals S) \<Longrightarrow> rle (locals S ! i) (locals T ! i)"
  by (simp add: sle_def list_all2_nthD)

lemma sle_set_reg: "sle S T \<Longrightarrow> rle x y \<Longrightarrow>
    sle (S\<lparr>regs := (regs S)[i := x]\<rparr>) (T\<lparr>regs := (regs T)[i := y]\<rparr>)"
  by (simp add: sle_def list_all2_update_cong)

lemma sle_set_local: "sle S T \<Longrightarrow> rle x y \<Longrightarrow>
    sle (S\<lparr>locals := (locals S)[i := x]\<rparr>) (T\<lparr>locals := (locals T)[i := y]\<rparr>)"
  by (simp add: sle_def list_all2_update_cong)

lemma sle_setDst: "sle S T \<Longrightarrow> sle (setDst i t S) (setDst i t T)"
  using sle_length [of S T] by (auto simp: setDst_def sle_set_reg)

lemma dims_setDst [simp]: "dims m (setDst i t S) = dims m S"
  by (simp add: setDst_def dims_def)

section \<open>The flow of one instruction\<close>

definition flow :: "rmethod \<Rightarrow> nat \<Rightarrow> flow_state \<Rightarrow> flow_state" where
  "flow m pc S = fst (stepIns m \<lparr>rs_ok = True, rs_isVoid = True, rs_type = RT_Bottom\<rparr> pc
     (code m ! pc) S False)"

definition stepDiags :: "rmethod \<Rightarrow> ret_scan \<Rightarrow> nat \<Rightarrow> flow_state \<Rightarrow> diags" where
  "stepDiags m ret pc S = fst (snd (stepIns m ret pc (code m ! pc) S True))"

definition stepStore :: "rmethod \<Rightarrow> nat \<Rightarrow> flow_state \<Rightarrow> (nat \<times> rtype) option" where
  "stepStore m pc S = snd (snd (stepIns m \<lparr>rs_ok = True, rs_isVoid = True, rs_type = RT_Bottom\<rparr> pc
     (code m ! pc) S True))"

text \<open>Instructions the step ignores, because phase 1 has already flagged them.\<close>

definition stepSkips :: "ins \<Rightarrow> flow_state \<Rightarrow> bool" where
  "stepSkips i S \<longleftrightarrow> ins_op i \<ge> opCount \<or>
     (let ru = regUse (op_sig (info (ins_op i)))
      in (ru_dst ru \<and> \<not> ins_dst i < length (regs S)) \<or> (ru_a ru \<and> \<not> ins_a i < length (regs S))
         \<or> (ru_b ru \<and> \<not> ins_b i < length (regs S)))"

text \<open>The three components of the step, one equation each. Neither the return type nor the
  emission of diagnostics changes the state.\<close>

lemma fst_destWrite: "fst (destWrite m pc i S e) = fst (destWrite m pc i S e')"
  by (simp add: destWrite_def Let_def split: option.split)

lemma fst_stepIns_eq:
  "fst (stepIns m ret pc i S e) =
     (if stepSkips i S then S
      else if ins_op i = Op_Iinc then
        (if ins_dst i < length (regs S) then S\<lparr>regs := (regs S)[ins_dst i := RT_Int]\<rparr> else S)
      else if op_sig (info (ins_op i)) = Sig_RegSlot then
        (if ins_imm i < length (locals S) then setDst i (op_result (info (ins_op i))) S else S)
      else if op_sig (info (ins_op i)) = Sig_SlotReg then
        (if ins_imm i < length (locals S)
         then S\<lparr>locals := (locals S)[ins_imm i := regs S ! ins_a i]\<rparr> else S)
      else fst (destWrite m pc i S False))"
  unfolding stepIns_def Let_def split_beta stepSkips_def
  using fst_destWrite [of m pc i S e False] by (simp cong: if_cong)

lemma snd_snd_stepIns_eq:
  "snd (snd (stepIns m ret pc i S e)) =
     (if \<not> stepSkips i S \<and> ins_op i \<noteq> Op_Iinc \<and> op_sig (info (ins_op i)) = Sig_SlotReg
         \<and> ins_imm i < length (locals S)
      then Some (ins_imm i, regs S ! ins_a i) else None)"
  unfolding stepIns_def Let_def split_beta stepSkips_def
  by (simp cong: if_cong)

lemma fst_snd_stepIns_eq:
  "fst (snd (stepIns m ret pc i S True)) =
     (let oi = info (ins_op i);
          od = (if op_sig oi = Sig_Call \<or> op_sig oi = Sig_CallQuick then []
                else operandDiags pc oi (regUse (op_sig oi)) i S)
      in if stepSkips i S then []
         else if ins_op i = Op_Iinc then
           od @ (if ins_dst i < length (regs S) \<and> \<not> isAssignable (regs S ! ins_dst i) RT_Int
                 then [vdiag pc (M_Operand pc (op_name oi) RT_Int (ins_dst i)
                         (regs S ! ins_dst i) False)] else [])
         else if op_sig oi = Sig_RegSlot then
           od @ (if ins_imm i < length (locals S) \<and> op_result oi \<noteq> RT_Bottom
                   \<and> \<not> isAssignable (locals S ! ins_imm i) (op_result oi)
                 then [vdiag pc (M_Operand pc (op_name oi) (op_result oi) (ins_imm i)
                         (locals S ! ins_imm i) True)] else [])
         else if op_sig oi = Sig_SlotReg then od
         else od @ (if isReturnOp (ins_op i) \<and> \<not> returnAgrees ret (ins_op i)
                    then [vdiag pc (M_Return pc (op_name oi) (retName ret))] else [])
              @ snd (destWrite m pc i S True))"
proof (cases "stepSkips i S")
  case True
  let ?ru = "regUse (op_sig (info (ins_op i)))"
  consider (bad) "opCount \<le> ins_op i"
    | (range) "\<not> opCount \<le> ins_op i" "(ru_dst ?ru \<and> \<not> ins_dst i < length (regs S))
        \<or> (ru_a ?ru \<and> \<not> ins_a i < length (regs S)) \<or> (ru_b ?ru \<and> \<not> ins_b i < length (regs S))"
    using True unfolding stepSkips_def Let_def by blast
  then show ?thesis
  proof cases
    case bad
    then show ?thesis unfolding Let_def if_P [OF True] by (simp add: stepIns_def)
  next
    case range
    then show ?thesis
      unfolding stepIns_def Let_def if_P [OF True] if_not_P [OF range(1)] if_P [OF range(2)] by simp
  qed
next
  case False
  let ?ru = "regUse (op_sig (info (ins_op i)))"
  have op: "\<not> opCount \<le> ins_op i"
    and g: "\<not> ((ru_dst ?ru \<and> \<not> ins_dst i < length (regs S)) \<or> (ru_a ?ru \<and> \<not> ins_a i < length (regs S))
      \<or> (ru_b ?ru \<and> \<not> ins_b i < length (regs S)))"
    using False by (simp_all only: stepSkips_def Let_def de_Morgan_disj not_not simp_thms)
  obtain od where od: "od = (if op_sig (info (ins_op i)) = Sig_Call \<or> op_sig (info (ins_op i)) = Sig_CallQuick
      then [] else operandDiags pc (info (ins_op i)) ?ru i S)" by simp
  have od': "(if True \<and> \<not> (op_sig (info (ins_op i)) = Sig_Call \<or> op_sig (info (ins_op i)) = Sig_CallQuick)
      then operandDiags pc (info (ins_op i)) ?ru i S else []) = od"
    by (simp add: od)
  note red = stepIns_def Let_def split_beta if_not_P [OF op] if_not_P [OF g] if_not_P [OF False]
      od' od [symmetric]
  consider (iinc) "ins_op i = Op_Iinc"
    | (rs) "ins_op i \<noteq> Op_Iinc" "op_sig (info (ins_op i)) = Sig_RegSlot"
    | (sr) "ins_op i \<noteq> Op_Iinc" "op_sig (info (ins_op i)) \<noteq> Sig_RegSlot"
        "op_sig (info (ins_op i)) = Sig_SlotReg"
    | (other) "ins_op i \<noteq> Op_Iinc" "op_sig (info (ins_op i)) \<noteq> Sig_RegSlot"
        "op_sig (info (ins_op i)) \<noteq> Sig_SlotReg"
    by blast
  then show ?thesis
  proof cases
    case iinc
    show ?thesis unfolding red if_P [OF iinc]
      by (cases "ins_dst i < length (regs S)") simp_all
  next
    case rs
    show ?thesis unfolding red if_not_P [OF rs(1)] if_P [OF rs(2)]
      by (cases "ins_imm i < length (locals S)"; cases "op_result (info (ins_op i)) = RT_Bottom")
        simp_all
  next
    case sr
    show ?thesis unfolding red if_not_P [OF sr(1)] if_not_P [OF sr(2)] if_P [OF sr(3)]
      by (cases "ins_imm i < length (locals S)") simp_all
  next
    case other
    show ?thesis unfolding red if_not_P [OF other(1)] if_not_P [OF other(2)] if_not_P [OF other(3)]
      by simp
  qed
qed

lemma fst_stepIns: "fst (stepIns m ret pc i S e) = fst (stepIns m ret' pc i S e')"
  by (simp only: fst_stepIns_eq)

lemma stepIns_flow: "fst (stepIns m ret pc (code m ! pc) S e) = flow m pc S"
  unfolding flow_def by (rule fst_stepIns)

lemma stepIns_split:
  "stepIns m ret pc (code m ! pc) S True = (flow m pc S, stepDiags m ret pc S, stepStore m pc S)"
proof -
  have "snd (snd (stepIns m ret pc (code m ! pc) S True)) = stepStore m pc S"
    by (simp only: stepStore_def snd_snd_stepIns_eq)
  then show ?thesis
    using stepIns_flow [of m ret pc S True] unfolding stepDiags_def by (metis prod.collapse)
qed

lemmas flow_eq = fst_stepIns_eq [of m _ pc "code m ! pc" S False, folded flow_def] for m pc S

lemma dims_destWrite [simp]: "dims m (fst (destWrite m' pc i S e)) = dims m S"
  by (simp add: destWrite_def Let_def split: option.split)

lemma dims_upd [simp]:
  "dims m (S\<lparr>regs := (regs S)[i := x]\<rparr>) = dims m S"
  "dims m (S\<lparr>locals := (locals S)[i := x]\<rparr>) = dims m S"
  by (simp_all add: dims_def)

lemma dims_flow [simp]: "dims m (flow m' pc S) = dims m S"
  by (simp add: flow_def fst_stepIns_eq)

lemma sle_destWrite:
  "sle S T \<Longrightarrow> sle (fst (destWrite m pc i S e)) (fst (destWrite m pc i T e))"
  by (simp add: destWrite_def Let_def sle_setDst split: option.split)

lemma stepSkips_sle: "sle S T \<Longrightarrow> stepSkips i S \<longleftrightarrow> stepSkips i T"
  using sle_length by (simp add: stepSkips_def)

lemma SlotReg_reads_a: "\<not> stepSkips i S \<Longrightarrow> ru_a (regUse (op_sig (info (ins_op i)))) \<Longrightarrow>
    ins_a i < length (regs S)"
  by (simp add: stepSkips_def Let_def)

lemma sle_flow:
  assumes "sle S T"
  shows "sle (flow m pc S) (flow m pc T)"
proof -
  let ?i = "code m ! pc"
  have len: "length (regs S) = length (regs T)" "length (locals S) = length (locals T)"
    using sle_length [OF assms] by auto
  have "sle (S\<lparr>locals := (locals S)[ins_imm ?i := regs S ! ins_a ?i]\<rparr>)
      (T\<lparr>locals := (locals T)[ins_imm ?i := regs T ! ins_a ?i]\<rparr>)"
    if "\<not> stepSkips ?i S" "op_sig (info (ins_op ?i)) = Sig_SlotReg"
    using assms that SlotReg_reads_a [OF that(1)] by (simp add: sle_set_local sle_reg)
  then show ?thesis
    using assms
    by (simp add: flow_def fst_stepIns_eq stepSkips_sle [OF assms] len sle_set_reg sle_setDst
        sle_destWrite del: One_nat_def)
qed

text \<open>A check that passes on a state passes on every more precise state.\<close>

lemma operand_check_mono:
  "sle S T \<Longrightarrow> r < length (regs S) \<Longrightarrow> t \<noteq> RT_Bottom \<Longrightarrow>
    isAssignable (regs T ! r) t \<Longrightarrow> isAssignable (regs S ! r) t"
  using rty.asg_mono sle_reg by blast

lemma local_check_mono:
  "sle S T \<Longrightarrow> r < length (locals S) \<Longrightarrow> t \<noteq> RT_Bottom \<Longrightarrow>
    isAssignable (locals T ! r) t \<Longrightarrow> isAssignable (locals S ! r) t"
  using rty.asg_mono sle_local by blast

lemma snd_destWrite_eq: "snd (destWrite m pc i S e) = snd (destWrite m pc i T e)"
  by (simp add: destWrite_def Let_def split: option.split)

lemma operandDiags_Nil:
  "operandDiags pc oi ru i S = [] \<longleftrightarrow>
    (ru_a ru \<and> op_operandA oi \<noteq> RT_Bottom \<longrightarrow> isAssignable (regs S ! ins_a i) (op_operandA oi)) \<and>
    (ru_b ru \<and> op_operandB oi \<noteq> RT_Bottom \<longrightarrow> isAssignable (regs S ! ins_b i) (op_operandB oi))"
  by (auto simp: operandDiags_def)

lemma operandDiags_mono:
  assumes "sle S T" and "ru_a ru \<longrightarrow> ins_a i < length (regs S)"
    and "ru_b ru \<longrightarrow> ins_b i < length (regs S)" and "operandDiags pc oi ru i T = []"
  shows "operandDiags pc oi ru i S = []"
  using assms unfolding operandDiags_Nil by (blast intro: operand_check_mono)

text \<open>What the absence of diagnostics at an instruction means.\<close>

lemma stepDiags_Nil:
  "stepDiags m ret pc S = [] \<longleftrightarrow>
    (let i = code m ! pc; oi = info (ins_op i); sg = op_sig oi
     in stepSkips i S \<or>
        ((sg \<noteq> Sig_Call \<and> sg \<noteq> Sig_CallQuick \<longrightarrow> operandDiags pc oi (regUse sg) i S = []) \<and>
         (ins_op i = Op_Iinc \<and> ins_dst i < length (regs S) \<longrightarrow>
            isAssignable (regs S ! ins_dst i) RT_Int) \<and>
         (ins_op i \<noteq> Op_Iinc \<and> sg = Sig_RegSlot \<and> ins_imm i < length (locals S)
            \<and> op_result oi \<noteq> RT_Bottom \<longrightarrow> isAssignable (locals S ! ins_imm i) (op_result oi)) \<and>
         (ins_op i \<noteq> Op_Iinc \<and> sg \<noteq> Sig_RegSlot \<and> sg \<noteq> Sig_SlotReg \<longrightarrow>
            (isReturnOp (ins_op i) \<longrightarrow> returnAgrees ret (ins_op i)) \<and>
            snd (destWrite m pc i S True) = [])))"
proof -
  have split: "(if P then xs else ys) = [] \<longleftrightarrow> (P \<longrightarrow> xs = []) \<and> (\<not> P \<longrightarrow> ys = [])"
    for P and xs ys :: diags by simp
  show ?thesis
    unfolding stepDiags_def fst_snd_stepIns_eq Let_def split append_is_Nil_conv list.distinct(2)
    by blast
qed

lemma stepDiags_mono:
  assumes "sle S T" and "stepDiags m ret pc T = []"
  shows "stepDiags m ret pc S = []"
proof (cases "stepSkips (code m ! pc) S")
  case True
  then show ?thesis by (simp add: stepDiags_Nil Let_def)
next
  case False
  let ?i = "code m ! pc" and ?oi = "info (ins_op (code m ! pc))"
  have len: "length (regs T) = length (regs S)" "length (locals T) = length (locals S)"
    using sle_length [OF assms(1)] by auto
  have od: "operandDiags pc ?oi (regUse (op_sig ?oi)) ?i S = []"
    if "operandDiags pc ?oi (regUse (op_sig ?oi)) ?i T = []"
    using operandDiags_mono [OF assms(1) _ _ that] False by (simp add: stepSkips_def Let_def)
  note dw = snd_destWrite_eq [of m pc ?i S True T]
  from False have T: "\<not> stepSkips ?i T" by (simp add: stepSkips_sle [OF assms(1)])
  show ?thesis
    using assms(2) T od operand_check_mono [OF assms(1), of "ins_dst ?i" RT_Int]
      local_check_mono [OF assms(1), of "ins_imm ?i" "op_result ?oi"]
    unfolding stepDiags_Nil Let_def len dw by blast
qed

section \<open>Joins\<close>

lemma joinVec_eq:
  "length xs = length ys \<Longrightarrow>
    joinVec xs ys = (map2 join xs ys, map2 join xs ys \<noteq> xs, length xs)"
  by (induction xs ys rule: list_induct2) auto

lemma joinLocals_eq:
  "length xs = length ys \<Longrightarrow>
    joinLocals xs ys = (map2 join xs ys, map2 join xs ys \<noteq> xs, length xs)"
  by (induction xs ys rule: list_induct2) auto

lemma joinRegsFrom_eq:
  "joinRegsFrom i xs = joinVec xs (map (\<lambda>k. if k = 0 then RT_Ref else RT_Bottom) [i..<i + length xs])"
  by (induction xs arbitrary: i) (simp_all add: upt_conv_Cons Let_def del: upt_Suc)

lemma handlerRegs_eq:
  "handlerRegs n = map (\<lambda>k. if k = 0 then RT_Ref else RT_Bottom) [0..<n]"
  by (rule nth_equalityI) (auto simp: handlerRegs_def nth_list_update)

lemma length_handlerRegs [simp]: "length (handlerRegs n) = n"
  by (simp add: handlerRegs_def)

text \<open>The state an exception edge carries into a handler.\<close>

definition edgeState :: "rmethod \<Rightarrow> rtype list \<Rightarrow> flow_state" where
  "edgeState m locs = \<lparr>regs = handlerRegs (numRegs m), locals = locs\<rparr>"

lemma joinHandler_eq:
  assumes "dims m dst" and "length locs = numLocals m"
  shows "joinHandler dst locs = joinInto dst (edgeState m locs)"
  using assms
  by (simp add: joinHandler_def joinInto_def edgeState_def dims_def joinRegsFrom_eq
      joinLocals_eq joinVec_eq handlerRegs_eq)

lemma sle_edgeState: "list_all2 rle xs ys \<Longrightarrow> sle (edgeState m xs) (edgeState m ys)"
  by (simp add: sle_def edgeState_def list_all2_refl)

lemma map2_join_upper:
  "length xs = length ys \<Longrightarrow> list_all2 rle xs (map2 join xs ys) \<and> list_all2 rle ys (map2 join xs ys)"
  by (simp add: list_all2_conv_all_nth)

lemma joinInto_props:
  assumes "dims m dst" and "dims m src" and "joinInto dst src = (d', ch, k)"
  shows "dims m d'" and "sle dst d'" and "sle src d'" and "ch \<longleftrightarrow> d' \<noteq> dst"
proof -
  let ?R = "map2 join (regs dst) (regs src)" and ?L = "map2 join (locals dst) (locals src)"
  have d: "d' = \<lparr>regs = ?R, locals = ?L\<rparr>" and ch: "ch \<longleftrightarrow> ?R \<noteq> regs dst \<or> ?L \<noteq> locals dst"
    using assms by (auto simp: joinInto_def joinVec_eq dims_def)
  show "dims m d'" "sle dst d'" "sle src d'"
    using assms map2_join_upper [of "regs dst" "regs src"]
      map2_join_upper [of "locals dst" "locals src"]
    by (simp_all add: d dims_def sle_def)
  show "ch \<longleftrightarrow> d' \<noteq> dst"
    unfolding ch d by (cases dst) auto
qed

end
