(* ===== verification/Rbc_Cfg.thy ===== *)
theory Rbc_Cfg
  imports Rbc_Flow
begin

text \<open>
  The basic-block decomposition of the verifier: the blocks partition the code, every jump target
  and handler entry starts a block, only the last instruction of a block can leave it, and the
  successor lists cover the control-flow successors of that instruction.
\<close>

section \<open>Control-flow successors\<close>

definition succPcs :: "rmethod \<Rightarrow> nat \<Rightarrow> nat list" where
  "succPcs m pc =
     (let i = code m ! pc; s = op_sig (info (ins_op i))
      in (if canFallThrough (ins_op i) then [pc + 1] else []) @
         (if isBranchSig s then [ins_imm i] else []) @
         (if s = Sig_RegCpBranch then switchTargets m pc i else []))"

section \<open>Switch targets\<close>

lemma switchTargetOk_range: "t \<in> set (snd (snd (switchTargetOk m pc v))) \<Longrightarrow> t < length (code m)"
  by (auto simp: switchTargetOk_def split: if_splits)

lemma sw_fold_range:
  assumes "\<And>x t. x \<in> set xs \<Longrightarrow> t \<in> set (snd (snd (f x))) \<Longrightarrow> t < n"
    and "\<And>t. t \<in> set (snd (snd r)) \<Longrightarrow> t < n"
    and "t \<in> set (snd (snd (foldl (\<lambda>r x. sw_seq r (f x)) r xs)))"
  shows "t < n"
  using assms
proof (induction xs arbitrary: r)
  case (Cons x xs)
  show ?case
  proof (rule Cons.IH)
    show "t \<in> set (snd (snd (foldl (\<lambda>r x. sw_seq r (f x)) (sw_seq r (f x)) xs)))"
      using Cons.prems(3) by simp
    show "t' < n" if "t' \<in> set (snd (snd (sw_seq r (f x))))" for t'
      using that Cons.prems(1) [of x t'] Cons.prems(2) [of t'] by (auto simp: sw_seq_def)
  qed (use Cons.prems(1) in auto)
qed simp

lemma lookupEntry_range: "t \<in> set (snd (snd (lookupEntry m pc v i))) \<Longrightarrow> t < length (code m)"
  by (auto simp: lookupEntry_def sw_seq_def dest: switchTargetOk_range split: if_splits)

lemma validateTable_range:
  "t \<in> set (snd (snd (validateTable m pc v))) \<Longrightarrow> t < length (code m)"
  unfolding validateTable_def Let_def
  by (auto split: if_splits intro: switchTargetOk_range
      sw_fold_range [where f = "switchTargetOk m pc" and r = "(True, [], [])" and xs = "drop 2 v"])

lemma validateLookup_range:
  assumes "t \<in> set (snd (snd (validateLookup m pc v)))"
  shows "t < length (code m)"
proof -
  let ?f = "foldl (\<lambda>r i. sw_seq r (lookupEntry m pc v i)) (True, [], []) [0..<nat (v ! 0)]"
  have "t \<in> set (snd (snd ?f)) \<or> t \<in> set (snd (snd (switchTargetOk m pc (v ! 1))))"
    using assms unfolding validateLookup_def Let_def
    by (simp add: sw_seq_def [of ?f] split: if_splits)
  moreover have "t < length (code m)" if "t \<in> set (snd (snd ?f))"
    by (rule sw_fold_range [OF lookupEntry_range _ that]) simp_all
  ultimately show ?thesis
    using switchTargetOk_range by blast
qed

lemma switchTargets_range: "t \<in> set (switchTargets m pc i) \<Longrightarrow> t < length (code m)"
  unfolding switchTargets_def validateSwitch_def Let_def
  by (auto split: if_splits dest: validateTable_range validateLookup_range)

section \<open>Leaders\<close>

lemma nth_list_update_if: "p < length ls \<Longrightarrow> ls[a := x] ! p = (if p = a then x else ls ! p)"
  by auto

lemma length_markLeaders [simp]: "length (markLeaders ls ts) = length ls"
  unfolding markLeaders_def by (induction ts arbitrary: ls) auto

lemma nth_markLeaders:
  "p < length ls \<Longrightarrow> markLeaders ls ts ! p \<longleftrightarrow> ls ! p \<or> p \<in> set ts"
  unfolding markLeaders_def
  by (induction ts arbitrary: ls) (auto simp: nth_list_update_if)

lemma foldl_markLeaders:
  "p < length ls \<Longrightarrow>
    length (foldl (\<lambda>l x. markLeaders l (f x)) ls xs) = length ls \<and>
    (foldl (\<lambda>l x. markLeaders l (f x)) ls xs ! p \<longleftrightarrow> ls ! p \<or> (\<exists>x\<in>set xs. p \<in> set (f x)))"
  by (induction xs arbitrary: ls) (auto simp: nth_markLeaders)

lemma foldl_handlers:
  "p < length ls \<Longrightarrow>
    foldl (\<lambda>l h. if h_handler h < n then l[h_handler h := True] else l) ls hs ! p \<longleftrightarrow>
      ls ! p \<or> (\<exists>h\<in>set hs. h_handler h < n \<and> h_handler h = p)"
  by (induction hs arbitrary: ls) (auto simp: nth_list_update_if)

lemma leaders_iff:
  assumes "p < length (code m)"
  shows "leaders m ! p \<longleftrightarrow>
    p = 0 \<or> (\<exists>pc < length (code m). p \<in> set (leadersOf m pc (code m ! pc)))
    \<or> (\<exists>h\<in>set (handlers m). h_handler h = p)"
proof -
  let ?n = "length (code m)" and ?l0 = "(replicate (length (code m)) False)[0 := True]"
  let ?l1 = "foldl (\<lambda>l pc. markLeaders l (leadersOf m pc (code m ! pc))) ?l0 [0..<?n]"
  have p: "p < length ?l0" using assms by simp
  have l1: "length ?l1 = ?n"
      "?l1 ! p \<longleftrightarrow> ?l0 ! p \<or> (\<exists>pc\<in>set [0..<?n]. p \<in> set (leadersOf m pc (code m ! pc)))"
    using foldl_markLeaders [OF p, of "\<lambda>pc. leadersOf m pc (code m ! pc)" "[0..<?n]"] by simp_all
  have "leaders m ! p \<longleftrightarrow> ?l1 ! p \<or> (\<exists>h\<in>set (handlers m). h_handler h < ?n \<and> h_handler h = p)"
    unfolding leaders_def Let_def by (rule foldl_handlers) (simp add: l1 assms)
  moreover have "?l0 ! p \<longleftrightarrow> p = 0"
    using assms by (auto simp: nth_list_update_if)
  ultimately show ?thesis using l1(2) assms by auto
qed

section \<open>Block starts\<close>

lemma sorted_starts: "sorted_wrt (<) (blockStarts m)"
  unfolding blockStarts_def by (intro sorted_wrt_filter) simp

lemma set_starts: "set (blockStarts m) = {p. p < length (code m) \<and> leaders m ! p}"
  by (auto simp: blockStarts_def)

lemma starts_less: "b < length (blockStarts m) \<Longrightarrow> blockStarts m ! b < length (code m)"
  using nth_mem [of b "blockStarts m"] set_starts by blast

lemma starts_mono: "i < j \<Longrightarrow> j < length (blockStarts m) \<Longrightarrow> blockStarts m ! i < blockStarts m ! j"
  using sorted_starts sorted_wrt_nth_less by blast

lemma starts_mono_le:
  "i \<le> j \<Longrightarrow> j < length (blockStarts m) \<Longrightarrow> blockStarts m ! i \<le> blockStarts m ! j"
  using starts_mono [of i j m] by (cases "i = j") auto

lemma leader_index:
  assumes "p < length (code m)" and "leaders m ! p"
  obtains b where "b < length (blockStarts m)" and "blockStarts m ! b = p"
  using assms set_starts [of m] by (metis (mono_tags, lifting) in_set_conv_nth mem_Collect_eq)

lemma starts_0:
  assumes "code m \<noteq> []"
  shows "blockStarts m \<noteq> []" and "blockStarts m ! 0 = 0"
proof -
  have 0: "0 < length (code m)" using assms by simp
  then obtain b where b: "b < length (blockStarts m)" "blockStarts m ! b = 0"
    using leaders_iff leader_index by metis
  then show "blockStarts m \<noteq> []" by auto
  show "blockStarts m ! 0 = 0"
    using b starts_mono_le [of 0 b m] by simp
qed

section \<open>The partition into blocks\<close>

definition inBlock :: "rmethod \<Rightarrow> nat \<Rightarrow> nat \<Rightarrow> bool" where
  "inBlock m b p \<longleftrightarrow> b < length (blockStarts m) \<and> blockStarts m ! b \<le> p
     \<and> p < blockEnd (blockStarts m) (length (code m)) b"

lemma blockEnd_le: "blockEnd (blockStarts m) (length (code m)) b \<le> length (code m)"
  using starts_less [of "b + 1" m] by (auto simp: blockEnd_def)

lemma blockEnd_gt:
  "b < length (blockStarts m) \<Longrightarrow> blockStarts m ! b < blockEnd (blockStarts m) (length (code m)) b"
  using starts_less [of b m] starts_mono [of b "b + 1" m] by (auto simp: blockEnd_def)

lemma inBlock_less: "inBlock m b p \<Longrightarrow> p < length (code m)"
  using blockEnd_le [of m b] by (auto simp: inBlock_def)

lemma inBlock_unique:
  assumes "inBlock m b p" and "inBlock m b' p"
  shows "b = b'"
proof (rule ccontr)
  assume "b \<noteq> b'"
  then consider "b < b'" | "b' < b" by linarith
  then show False
  proof cases
    case 1
    then have "blockStarts m ! (b + 1) \<le> blockStarts m ! b'"
      using assms(2) by (intro starts_mono_le) (auto simp: inBlock_def)
    then show False using assms 1 by (auto simp: inBlock_def blockEnd_def split: if_splits)
  next
    case 2
    then have "blockStarts m ! (b' + 1) \<le> blockStarts m ! b"
      using assms(1) by (intro starts_mono_le) (auto simp: inBlock_def)
    then show False using assms 2 by (auto simp: inBlock_def blockEnd_def split: if_splits)
  qed
qed

lemma inBlock_ex:
  assumes "p < length (code m)"
  obtains b where "inBlock m b p"
proof -
  let ?P = "\<lambda>b. b < length (blockStarts m) \<and> blockStarts m ! b \<le> p"
  have ne: "code m \<noteq> []" using assms by auto
  then have 0: "?P 0" using starts_0 [of m] by simp
  define b where "b = (GREATEST b. ?P b)"
  have bound: "\<And>y. ?P y \<Longrightarrow> y \<le> length (blockStarts m)" by simp
  have b: "?P b" unfolding b_def by (rule GreatestI_nat [of ?P, OF 0 bound])
  have "\<not> ?P (b + 1)"
    using Greatest_le_nat [of ?P "b + 1", OF _ bound] unfolding b_def by fastforce
  then have "inBlock m b p" using b assms by (auto simp: inBlock_def blockEnd_def)
  then show ?thesis by (rule that)
qed

lemma inBlock_start: "b < length (blockStarts m) \<Longrightarrow> inBlock m b (blockStarts m ! b)"
  by (simp add: inBlock_def blockEnd_gt)

lemma leader_inBlock:
  assumes "inBlock m b p" and "leaders m ! p"
  shows "p = blockStarts m ! b"
proof -
  obtain k where k: "k < length (blockStarts m)" "blockStarts m ! k = p"
    using leader_index [OF inBlock_less [OF assms(1)] assms(2)] .
  then have "inBlock m k p" using inBlock_start by metis
  then show ?thesis using inBlock_unique [OF assms(1)] k by simp
qed

lemma foldl_fill:
  "q < length tab \<Longrightarrow> foldl (\<lambda>tab p. tab[p := b]) tab ps ! q = (if q \<in> set ps then b else tab ! q)"
  by (induction ps arbitrary: tab) auto

lemma length_foldl_fill [simp]: "length (foldl (\<lambda>tab p. tab[p := b]) tab ps) = length tab"
  by (induction ps arbitrary: tab) auto

lemma blockOfTable_aux:
  defines "step \<equiv> \<lambda>m tab b. foldl (\<lambda>tab p. tab[p := b]) tab
      [blockStarts m ! b..<blockEnd (blockStarts m) (length (code m)) b]"
  assumes "k \<le> length (blockStarts m)"
  shows "length (foldl (step m) (replicate (length (code m)) 0) [0..<k]) = length (code m) \<and>
    (\<forall>b < k. \<forall>q. inBlock m b q \<longrightarrow> foldl (step m) (replicate (length (code m)) 0) [0..<k] ! q = b)"
  using assms(2)
proof (induction k)
  case (Suc k)
  let ?tab = "foldl (step m) (replicate (length (code m)) 0) [0..<k]"
  have IH: "length ?tab = length (code m)" "\<And>b q. b < k \<Longrightarrow> inBlock m b q \<Longrightarrow> ?tab ! q = b"
    using Suc by auto
  have "step m ?tab k ! q = b" if "b < Suc k" "inBlock m b q" for b q
  proof (cases "b = k")
    case True
    then show ?thesis
      using that IH(1) inBlock_less [of m b q] by (simp add: step_def foldl_fill inBlock_def)
  next
    case False
    then have "\<not> inBlock m k q" using inBlock_unique that by blast
    then show ?thesis
      using that False IH inBlock_less [of m b q] Suc.prems
      by (simp add: step_def foldl_fill inBlock_def)
  qed
  then show ?case using IH(1) by (simp add: step_def)
qed simp

abbreviation nblocks :: "rmethod \<Rightarrow> nat" where
  "nblocks m \<equiv> length (blockStarts m)"

lemma cfg_fields [simp]:
  "starts (buildCfg m) = blockStarts m"
  "blockOf (buildCfg m) = blockOfTable (blockStarts m) (length (code m))"
  "length (succs (buildCfg m)) = nblocks m"
  by (simp_all add: buildCfg_def Let_def)

lemma succs_nth:
  "b < nblocks m \<Longrightarrow> succs (buildCfg m) ! b = blockSucc m (blockStarts m) (blockOf (buildCfg m)) b"
  by (simp add: buildCfg_def Let_def)

lemma blockOf_inBlock:
  assumes "inBlock m b p"
  shows "blockOf (buildCfg m) ! p = b"
  using blockOfTable_aux [of "nblocks m" m] assms unfolding blockOfTable_def
  by (simp add: blockOfTable_def inBlock_def)

lemma inBlock_blockOf: "p < length (code m) \<Longrightarrow> inBlock m (blockOf (buildCfg m) ! p) p"
  using inBlock_ex blockOf_inBlock by metis

lemma blockOf_less: "p < length (code m) \<Longrightarrow> blockOf (buildCfg m) ! p < nblocks m"
  using inBlock_blockOf inBlock_def by blast

lemma blockOf_leader:
  "p < length (code m) \<Longrightarrow> leaders m ! p \<Longrightarrow> blockStarts m ! (blockOf (buildCfg m) ! p) = p"
  using leader_inBlock inBlock_blockOf by metis

section \<open>Jump targets start blocks\<close>

lemma leaders_target:
  assumes "pc < length (code m)" and "ins_op (code m ! pc) < opCount" and "t < length (code m)"
    and "isBranchSig (op_sig (info (ins_op (code m ! pc)))) \<and> t = ins_imm (code m ! pc)
      \<or> op_sig (info (ins_op (code m ! pc))) = Sig_RegCpBranch \<and> t \<in> set (switchTargets m pc (code m ! pc))
      \<or> terminatorIns (code m ! pc) \<and> t = pc + 1"
  shows "leaders m ! t"
proof -
  have "t \<in> set (leadersOf m pc (code m ! pc))"
    using assms by (auto simp: leadersOf_def Let_def)
  then show ?thesis using leaders_iff [OF assms(3)] assms(1) by blast
qed

lemma leaders_handler: "h \<in> set (handlers m) \<Longrightarrow> h_handler h < length (code m) \<Longrightarrow> leaders m ! h_handler h"
  using leaders_iff by blast

text \<open>An instruction that is not the last of its block has only itself to fall to.\<close>

lemma inner_not_terminator:
  assumes "inBlock m b pc" and "pc + 1 < blockEnd (blockStarts m) (length (code m)) b"
    and "ins_op (code m ! pc) < opCount"
  shows "\<not> terminatorIns (code m ! pc)"
proof
  assume "terminatorIns (code m ! pc)"
  have "inBlock m b (pc + 1)" using assms(1,2) by (simp add: inBlock_def)
  then have "leaders m ! (pc + 1) \<Longrightarrow> pc + 1 = blockStarts m ! b" by (rule leader_inBlock)
  moreover have "leaders m ! (pc + 1)"
    using leaders_target [OF inBlock_less [OF assms(1)] assms(3) inBlock_less] \<open>terminatorIns _\<close>
      \<open>inBlock m b (pc + 1)\<close> by blast
  ultimately show False using assms(1) by (simp add: inBlock_def)
qed

lemma succPcs_inner:
  assumes "inBlock m b pc" and "pc + 1 < blockEnd (blockStarts m) (length (code m)) b"
    and "ins_op (code m ! pc) < opCount" and "t \<in> set (succPcs m pc)"
  shows "t = pc + 1"
  using inner_not_terminator [OF assms(1-3)] assms(4)
  by (auto simp: succPcs_def terminatorIns_def Let_def split: if_splits)

section \<open>Successor lists\<close>

lemma addSucc_mono: "x \<in> set ss \<Longrightarrow> x \<in> set (addSucc bo n ss t)"
  by (simp add: addSucc_def Let_def)

lemma addSucc_new: "t < n \<Longrightarrow> bo ! t \<in> set (addSucc bo n ss t)"
  by (auto simp: addSucc_def Let_def intro: last_in_set dest: sym)

lemma foldl_addSucc:
  "(x \<in> set ss \<longrightarrow> x \<in> set (foldl (addSucc bo n) ss ts)) \<and>
   (t \<in> set ts \<and> t < n \<longrightarrow> bo ! t \<in> set (foldl (addSucc bo n) ss ts))"
proof (induction ts arbitrary: ss x)
  case (Cons a ts)
  show ?case
    using Cons [of x "addSucc bo n ss a"] Cons [of "bo ! a" "addSucc bo n ss a"]
      addSucc_mono [of x ss bo n a] addSucc_new [of a n bo ss] by auto
qed simp

lemma succPcs_last:
  assumes "inBlock m b pc" and "pc + 1 = blockEnd (blockStarts m) (length (code m)) b"
    and "ins_op (code m ! pc) < opCount" and "t \<in> set (succPcs m pc)" and "t < length (code m)"
  shows "blockOf (buildCfg m) ! t \<in> set (succs (buildCfg m) ! b)" and "leaders m ! t"
proof -
  let ?i = "code m ! pc" and ?bo = "blockOf (buildCfg m)" and ?n = "length (code m)"
  let ?s = "op_sig (info (ins_op ?i))"
  have b: "b < nblocks m" using assms(1) by (simp add: inBlock_def)
  have lst: "blockEnd (blockStarts m) ?n b - 1 = pc" using assms(2) by simp
  define s0 where "s0 = (if canFallThrough (ins_op ?i) \<and> pc + 1 < ?n then addSucc ?bo ?n [] (pc + 1) else [])"
  define s1 where "s1 = (if isBranchSig ?s then addSucc ?bo ?n s0 (ins_imm ?i) else s0)"
  have eq: "succs (buildCfg m) ! b
      = (if ?s = Sig_RegCpBranch then foldl (addSucc ?bo ?n) s1 (switchTargets m pc ?i) else s1)"
    using assms(3) unfolding succs_nth [OF b] blockSucc_def lst Let_def s1_def s0_def by simp
  have s1: "x \<in> set s1 \<Longrightarrow> x \<in> set (succs (buildCfg m) ! b)" for x
    unfolding eq using foldl_addSucc [of x s1] by simp
  consider (fall) "canFallThrough (ins_op ?i)" "t = pc + 1"
    | (branch) "isBranchSig ?s" "t = ins_imm ?i"
    | (switch) "?s = Sig_RegCpBranch" "t \<in> set (switchTargets m pc ?i)"
    using assms(4) by (auto simp: succPcs_def Let_def split: if_splits)
  then have "?bo ! t \<in> set (succs (buildCfg m) ! b) \<and> leaders m ! t"
  proof cases
    case fall
    then have "?bo ! t \<in> set s0" using assms(5) by (simp add: s0_def addSucc_new)
    then have "?bo ! t \<in> set s1" by (simp add: s1_def addSucc_mono)
    moreover have "blockEnd (blockStarts m) ?n b = blockStarts m ! (b + 1)" "b + 1 < nblocks m"
      using assms(2,5) fall by (auto simp: blockEnd_def split: if_splits)
    then have "leaders m ! t"
      using set_starts [of m] nth_mem [of "b + 1" "blockStarts m"] assms(2) fall by auto
    ultimately show ?thesis using s1 by blast
  next
    case branch
    then have "?bo ! t \<in> set s1" using assms(5) by (simp add: s1_def addSucc_new)
    then show ?thesis
      using s1 leaders_target [OF inBlock_less [OF assms(1)] assms(3,5)] branch by blast
  next
    case switch
    then have "?bo ! t \<in> set (succs (buildCfg m) ! b)"
      unfolding eq using foldl_addSucc assms(5) by simp
    then show ?thesis
      using leaders_target [OF inBlock_less [OF assms(1)] assms(3,5)] switch by blast
  qed
  then show "?bo ! t \<in> set (succs (buildCfg m) ! b)" "leaders m ! t" by auto
qed

end
