(* ===== verification/Rbc_Fixpoint.thy ===== *)
theory Rbc_Fixpoint
  imports Rbc_Cfg
begin

text \<open>
  The worklist reaches a post-fixpoint: when it ends without a diagnostic, the in-states of the
  visited blocks cover every normal and every exceptional edge out of a visited block.
\<close>

section \<open>One edge\<close>

text \<open>What both kinds of edges do: the first edge into a block seeds its in-state, later edges
  join into it, and a change enqueues the block.\<close>

definition flowInto :: "rmethod \<Rightarrow> nat \<Rightarrow> flow_state \<Rightarrow> wl \<Rightarrow> bool \<times> wl" where
  "flowInto m t st w =
     (if \<not> visited w ! t then
        (let (ok, w2) = seed m t st w in if \<not> ok then (False, w2) else (True, enq t w2))
      else
        (let (dst, changed, k) = joinInto (inStates w ! t) st;
             w2 = ticks k (w\<lparr>inStates := (inStates w)[t := dst]\<rparr>)
         in (True, if changed then enq t w2 else w2)))"

definition wfw :: "rmethod \<Rightarrow> wl \<Rightarrow> bool" where
  "wfw m w \<longleftrightarrow>
     length (inStates w) = nblocks m \<and> length (visited w) = nblocks m \<and>
     length (inQueue w) = nblocks m \<and>
     (\<forall>b < nblocks m. visited w ! b \<longrightarrow> dims m (inStates w ! b)) \<and>
     (\<forall>b \<in> set (queue w). b < nblocks m \<and> visited w ! b) \<and>
     (\<forall>b < nblocks m. inQueue w ! b \<longleftrightarrow> b \<in> set (queue w)) \<and> distinct (queue w) \<and>
     (dead w \<longrightarrow> wdiags w \<noteq> [])"

definition wprog :: "rmethod \<Rightarrow> wl \<Rightarrow> wl \<Rightarrow> bool" where
  "wprog m w w' \<longleftrightarrow>
     (\<forall>b < nblocks m. visited w ! b \<longrightarrow> visited w' ! b \<and> sle (inStates w ! b) (inStates w' ! b)) \<and>
     set (queue w) \<subseteq> set (queue w') \<and>
     (\<forall>b < nblocks m. visited w' ! b \<and> b \<notin> set (queue w') \<longrightarrow>
        visited w ! b \<and> inStates w' ! b = inStates w ! b) \<and>
     (wdiags w \<noteq> [] \<longrightarrow> wdiags w' \<noteq> [])"

definition cov :: "wl \<Rightarrow> nat \<Rightarrow> flow_state \<Rightarrow> bool" where
  "cov w t st \<longleftrightarrow> visited w ! t \<and> sle st (inStates w ! t)"

lemma wprog_refl [simp]: "wprog m w w"
  by (simp add: wprog_def)

lemma wprogD:
  assumes "wprog m w w'"
  shows "b < nblocks m \<Longrightarrow> visited w ! b \<Longrightarrow> visited w' ! b"
    and "b < nblocks m \<Longrightarrow> visited w ! b \<Longrightarrow> sle (inStates w ! b) (inStates w' ! b)"
    and "set (queue w) \<subseteq> set (queue w')"
    and "b < nblocks m \<Longrightarrow> visited w' ! b \<Longrightarrow> b \<notin> set (queue w') \<Longrightarrow>
      visited w ! b \<and> inStates w' ! b = inStates w ! b"
    and "wdiags w \<noteq> [] \<Longrightarrow> wdiags w' \<noteq> []"
  using assms unfolding wprog_def by blast+

lemma wprog_trans:
  assumes 1: "wprog m w w'" and 2: "wprog m w' w''"
  shows "wprog m w w''"
  unfolding wprog_def
proof (intro conjI allI impI)
  show "set (queue w) \<subseteq> set (queue w'')" using wprogD(3) [OF 1] wprogD(3) [OF 2] by (rule subset_trans)
  show "wdiags w \<noteq> [] \<Longrightarrow> wdiags w'' \<noteq> []" using wprogD(5) [OF 1] wprogD(5) [OF 2] by blast
  show "visited w'' ! b" if "b < nblocks m" "visited w ! b" for b
    using that wprogD(1) [OF 1] wprogD(1) [OF 2] by blast
  show "sle (inStates w ! b) (inStates w'' ! b)" if "b < nblocks m" "visited w ! b" for b
    using that wprogD(1,2) [OF 1] wprogD(2) [OF 2] sle_trans by blast
  fix b assume b: "b < nblocks m" "visited w'' ! b \<and> b \<notin> set (queue w'')"
  then have "visited w' ! b" "inStates w'' ! b = inStates w' ! b" "b \<notin> set (queue w')"
    using wprogD(3,4) [OF 2] by auto
  then show "visited w ! b" "inStates w'' ! b = inStates w ! b"
    using b(1) wprogD(4) [OF 1] by auto
qed

lemma cov_mono: "wprog m w w' \<Longrightarrow> t < nblocks m \<Longrightarrow> cov w t st \<Longrightarrow> cov w' t st"
  unfolding wprog_def cov_def by (blast intro: sle_trans)

lemma cov_weaken: "sle st st' \<Longrightarrow> cov w t st' \<Longrightarrow> cov w t st"
  unfolding cov_def by (blast intro: sle_trans)

lemma dead_iff: "dead w \<longleftrightarrow> budget_left w = 0"
  by (simp add: budget_left_def)

lemma sink_add_ne [simp]: "sink_add ds d \<noteq> []"
  by (auto simp: sink_add_def kMaxDiags_def)

lemma tick_same [simp]:
  "inStates (tick w) = inStates w" "visited (tick w) = visited w" "inQueue (tick w) = inQueue w"
  "queue (tick w) = queue w" "stateSlots (tick w) = stateSlots w"
  by (simp_all add: tick_def)

lemma ticks_same [simp]:
  "inStates (ticks k w) = inStates w" "visited (ticks k w) = visited w"
  "inQueue (ticks k w) = inQueue w" "queue (ticks k w) = queue w"
  unfolding ticks_def by (induction k) simp_all

lemma tick_diags: "(wdiags w \<noteq> [] \<longrightarrow> wdiags (tick w) \<noteq> []) \<and>
    ((dead w \<longrightarrow> wdiags w \<noteq> []) \<longrightarrow> dead (tick w) \<longrightarrow> wdiags (tick w) \<noteq> [])"
  by (simp add: tick_def)

lemma ticks_diags: "(wdiags w \<noteq> [] \<longrightarrow> wdiags (ticks k w) \<noteq> []) \<and>
    ((dead w \<longrightarrow> wdiags w \<noteq> []) \<longrightarrow> dead (ticks k w) \<longrightarrow> wdiags (ticks k w) \<noteq> [])"
  unfolding ticks_def
proof (induction k)
  case (Suc k)
  then show ?case using tick_diags [of "(tick ^^ k) w"] by auto
qed simp

lemma wfw_ticks: "wfw m w \<Longrightarrow> wfw m (ticks k w)"
  using ticks_diags [of w k] by (simp add: wfw_def)

lemma wprog_ticks: "wprog m w (ticks k w)"
  using ticks_diags [of w k] by (simp add: wprog_def)

lemma wfw_tick: "wfw m w \<Longrightarrow> wfw m (tick w)" and wprog_tick: "wprog m w (tick w)"
  using tick_diags [of w] by (simp_all add: wfw_def wprog_def)

lemma wfw_enq: "wfw m w \<Longrightarrow> t < nblocks m \<Longrightarrow> visited w ! t \<Longrightarrow> wfw m (enq t w)"
  by (auto simp: wfw_def enq_def nth_list_update_if)

lemma wfw_pop:
  assumes w: "wfw m w" and q: "queue w \<noteq> []"
  shows "wfw m (w\<lparr>queue := tl (queue w), inQueue := (inQueue w)[hd (queue w) := False]\<rparr>)"
proof -
  obtain b bs where q: "queue w = b # bs" using q by (cases "queue w") auto
  then show ?thesis using w by (auto simp: wfw_def nth_list_update_if)
qed

lemma enq_same [simp]:
  "inStates (enq t w) = inStates w" "visited (enq t w) = visited w" "wdiags (enq t w) = wdiags w"
  "dead (enq t w) = dead w"
  by (simp_all add: enq_def)

lemma set_queue_enq:
  "wfw m w \<Longrightarrow> t < nblocks m \<Longrightarrow> set (queue (enq t w)) = insert t (set (queue w))"
  by (auto simp: wfw_def enq_def)

section \<open>Edges make progress\<close>

text \<open>The first edge.\<close>

lemma seed_edge:
  assumes w: "wfw m w" and t: "t < nblocks m" and st: "dims m st" and nv: "\<not> visited w ! t"
    and s: "seed m t st w = (ok, w2)"
  shows "wfw m w2" and "ok \<Longrightarrow> visited w2 ! t \<and> inStates w2 ! t = st" and "\<not> ok \<Longrightarrow> dead w2"
    and "wprog m w (if ok then enq t w2 else w2)"
proof -
  have st': "\<lparr>regs = regs st, locals = locals st\<rparr> = st" by simp
  show wf2: "wfw m w2"
    using w t st nv s unfolding seed_def Let_def st'
    by (cases ok) (auto simp: wfw_def nth_list_update split: if_splits)
  show v: "ok \<Longrightarrow> visited w2 ! t \<and> inStates w2 ! t = st" and "\<not> ok \<Longrightarrow> dead w2"
    using w t s by (auto simp: seed_def Let_def wfw_def split: if_splits)
  have q: "queue w2 = queue w" "wdiags w \<noteq> [] \<Longrightarrow> wdiags w2 \<noteq> []"
    using s by (auto simp: seed_def Let_def split: if_splits)
  have other: "b < nblocks m \<Longrightarrow> b \<noteq> t \<Longrightarrow> visited w2 ! b = visited w ! b \<and> inStates w2 ! b = inStates w ! b" for b
    using s w by (auto simp: seed_def Let_def wfw_def split: if_splits)
  have nv2: "\<not> ok \<Longrightarrow> \<not> visited w2 ! t"
    using s nv by (auto simp: seed_def Let_def split: if_splits)
  have same: "b < nblocks m \<Longrightarrow> visited w ! b \<Longrightarrow> inStates w2 ! b = inStates w ! b" for b
    using other nv by (cases "b = t") auto
  show "wprog m w (if ok then enq t w2 else w2)"
    unfolding wprog_def using other same q nv nv2 set_queue_enq [OF wf2 t] by auto
qed

text \<open>A later edge.\<close>

lemma join_edge:
  assumes w: "wfw m w" and t: "t < nblocks m" and st: "dims m st" and v: "visited w ! t"
    and j: "joinInto (inStates w ! t) st = (dst, changed, k)"
    and w2: "w2 = ticks k (w\<lparr>inStates := (inStates w)[t := dst]\<rparr>)"
  shows "wfw m (if changed then enq t w2 else w2)"
    and "cov (if changed then enq t w2 else w2) t st"
    and "wprog m w (if changed then enq t w2 else w2)"
proof -
  have d: "dims m (inStates w ! t)" using w t v by (simp add: wfw_def)
  note jp = joinInto_props [OF d st j]
  have len: "t < length (inStates w)" using w t by (simp add: wfw_def)
  let ?w1 = "w\<lparr>inStates := (inStates w)[t := dst]\<rparr>"
  have "wfw m ?w1"
    using w jp(1) len by (auto simp: wfw_def nth_list_update_if)
  then have wf2: "wfw m w2" unfolding w2 by (rule wfw_ticks)
  then show "wfw m (if changed then enq t w2 else w2)"
    using wfw_enq [OF wf2 t] v by (simp add: w2)
  show "cov (if changed then enq t w2 else w2) t st"
    using v jp(3) len by (simp add: cov_def w2)
  have "wdiags w \<noteq> [] \<Longrightarrow> wdiags w2 \<noteq> []" using ticks_diags [of ?w1 k] by (simp add: w2)
  moreover have "\<not> changed \<Longrightarrow> dst = inStates w ! t" using jp(4) by simp
  ultimately show "wprog m w (if changed then enq t w2 else w2)"
    unfolding wprog_def using w jp(2) v len set_queue_enq [OF wf2 t]
    by (auto simp: w2 nth_list_update_if wfw_def [of m w])
qed

lemma flowInto_edge:
  assumes "wfw m w" and "t < nblocks m" and "dims m st" and "flowInto m t st w = (ok, w')"
  shows "wfw m w'" and "wprog m w w'" and "ok \<Longrightarrow> cov w' t st" and "\<not> ok \<Longrightarrow> dead w'"
proof -
  have "wfw m w' \<and> wprog m w w' \<and> (ok \<longrightarrow> cov w' t st) \<and> (\<not> ok \<longrightarrow> dead w')"
  proof (cases "visited w ! t")
    case True
    obtain dst changed k where j: "joinInto (inStates w ! t) st = (dst, changed, k)"
      by (metis prod_cases3)
    show ?thesis
      using assms(4) True join_edge [OF assms(1-3) True j refl] by (simp add: flowInto_def j Let_def)
  next
    case False
    obtain ok' w2 where s: "seed m t st w = (ok', w2)" by fastforce
    show ?thesis
      using assms(4) False seed_edge [OF assms(1-3) False s] wfw_enq [OF _ assms(2)]
      by (auto simp: flowInto_def s cov_def split: if_splits)
  qed
  then show "wfw m w'" "wprog m w w'" "ok \<Longrightarrow> cov w' t st" "\<not> ok \<Longrightarrow> dead w'" by auto
qed

section \<open>Exceptional edges\<close>

definition covers :: "rmethod \<Rightarrow> exception_handler \<Rightarrow> nat \<Rightarrow> bool" where
  "covers m h pc \<longleftrightarrow> \<not> badHandler m h \<and> h_start h \<le> pc \<and> pc < h_end h"

lemma covers_handler: "covers m h pc \<Longrightarrow> h_handler h < length (code m)"
  by (simp add: covers_def badHandler_def)

lemma exnEdges_step:
  assumes "wfw m w" and "length locs = numLocals m" and "covers m h pc"
  shows "exnEdges m (buildCfg m) pc locs (h # hs) w =
    (let (ok, w2) = flowInto m (blockOf (buildCfg m) ! h_handler h) (edgeState m locs) (tick w)
     in if ok then exnEdges m (buildCfg m) pc locs hs w2 else w2)"
proof -
  let ?hb = "blockOf (buildCfg m) ! h_handler h" and ?w1 = "tick w"
  have hb: "?hb < nblocks m" by (rule blockOf_less [OF covers_handler [OF assms(3)]])
  have "visited ?w1 ! ?hb \<Longrightarrow>
      joinHandler (inStates ?w1 ! ?hb) locs = joinInto (inStates ?w1 ! ?hb) (edgeState m locs)"
    using joinHandler_eq assms(1,2) hb by (simp add: wfw_def del: cfg_fields)
  moreover have "seedHandler m ?hb locs ?w1 = seed m ?hb (edgeState m locs) ?w1"
    by (simp add: seedHandler_def seed_def edgeState_def)
  moreover have "\<not> badHandler m h" "\<not> (pc < h_start h \<or> h_end h \<le> pc)"
    using assms(3) by (auto simp: covers_def)
  ultimately show ?thesis
    by (simp add: flowInto_def Let_def split: prod.split del: cfg_fields)
qed

lemma exnEdges_skip:
  "\<not> covers m h pc \<Longrightarrow> exnEdges m c pc locs (h # hs) w = exnEdges m c pc locs hs (tick w)"
  by (auto simp: covers_def Let_def)

lemma exnEdges_edges:
  assumes "wfw m w" and "length locs = numLocals m" and "exnEdges m (buildCfg m) pc locs hs w = w'"
  shows "wfw m w' \<and> wprog m w w' \<and>
    (\<not> dead w' \<longrightarrow> (\<forall>h\<in>set hs. covers m h pc \<longrightarrow>
       cov w' (blockOf (buildCfg m) ! h_handler h) (edgeState m locs)))"
  using assms(1,3)
proof (induction hs arbitrary: w)
  case (Cons h hs)
  have t: "wfw m (tick w)" "wprog m w (tick w)" using Cons.prems(1) wfw_tick wprog_tick by blast+
  show ?case
  proof (cases "covers m h pc")
    case False
    then show ?thesis
      using Cons.IH [OF t(1)] Cons.prems(2) wprog_trans [OF t(2)]
      unfolding exnEdges_skip [OF False] by auto
  next
    case True
    let ?hb = "blockOf (buildCfg m) ! h_handler h"
    have hb: "?hb < nblocks m" by (rule blockOf_less [OF covers_handler [OF True]])
    obtain ok w2 where f: "flowInto m ?hb (edgeState m locs) (tick w) = (ok, w2)" by fastforce
    have st: "dims m (edgeState m locs)" using assms(2) by (simp add: dims_def edgeState_def)
    note e = flowInto_edge [OF t(1) hb st f]
    have p: "wprog m w w2" using wprog_trans [OF t(2) e(2)] .
    show ?thesis
    proof (cases ok)
      case False
      then show ?thesis
        using Cons.prems(2) e p unfolding exnEdges_step [OF Cons.prems(1) assms(2) True] f by simp
    next
      case ok: True
      then have eq: "exnEdges m (buildCfg m) pc locs hs w2 = w'"
        using Cons.prems(2) unfolding exnEdges_step [OF Cons.prems(1) assms(2) True] f by simp
      note ih = Cons.IH [OF e(1) eq]
      have "cov w' ?hb (edgeState m locs)"
        using cov_mono [of m w2 w'] ih hb e(3) ok by blast
      then show ?thesis using ih wprog_trans [OF p] by auto
    qed
  qed
qed simp

section \<open>One block\<close>

abbreviation runFlow :: "rmethod \<Rightarrow> flow_state \<Rightarrow> nat list \<Rightarrow> flow_state" where
  "runFlow m S pcs \<equiv> foldl (\<lambda>s pc. flow m pc s) S pcs"

lemma dims_runFlow [simp]: "dims m (runFlow m' S pcs) = dims m S"
  by (induction pcs arbitrary: S) auto

lemma dead_exnEdges: "dead w \<Longrightarrow> dead (exnEdges m c pc locs hs w)"
  using budget_left_exnEdges [of m c pc locs hs w] by (simp add: dead_iff)

lemma dead_tick: "dead w \<Longrightarrow> dead (tick w)"
  by (simp add: tick_def)

lemma dead_blockLoop: "dead w \<Longrightarrow> dead (snd (blockLoop m ret c pcs S w))"
  using budget_left_blockLoop [of m ret c pcs S w] by (simp add: dead_iff)

lemma dead_succEdges: "dead w \<Longrightarrow> dead (succEdges m nb S ss w)"
  using budget_left_succEdges [of m nb S ss w] by (simp add: dead_iff)

definition exnCov :: "rmethod \<Rightarrow> wl \<Rightarrow> nat \<Rightarrow> flow_state \<Rightarrow> bool" where
  "exnCov m w pc S \<longleftrightarrow>
     (\<forall>h\<in>set (handlers m). covers m h pc \<longrightarrow>
        cov w (blockOf (buildCfg m) ! h_handler h) (edgeState m (locals S)))"

lemma exnCov_mono: "wprog m w w' \<Longrightarrow> exnCov m w pc S \<Longrightarrow> exnCov m w' pc S"
  unfolding exnCov_def by (metis cov_mono blockOf_less covers_handler)

lemma blockLoop_edges:
  assumes "wfw m w" and "dims m S" and "blockLoop m ret (buildCfg m) pcs S w = (S', w')"
  shows "wfw m w' \<and> wprog m w w' \<and>
    (\<not> dead w' \<longrightarrow> S' = runFlow m S pcs \<and>
       (\<forall>i < length pcs. exnCov m w' (pcs ! i) (runFlow m S (take i pcs))))"
  using assms
proof (induction pcs arbitrary: S w)
  case (Cons pc pcs)
  define w2 where "w2 = (if handlers m \<noteq> []
    then exnEdges m (buildCfg m) pc (locals S) (handlers m) (tick w) else tick w)"
  have t: "wfw m (tick w)" "wprog m w (tick w)" using Cons.prems(1) wfw_tick wprog_tick by blast+
  have "length (locals S) = numLocals m" using Cons.prems(2) by (simp add: dims_def)
  then have e: "wfw m w2" "wprog m (tick w) w2" "\<not> dead w2 \<Longrightarrow> exnCov m w2 pc S"
    using exnEdges_edges [OF t(1) _ refl, of "locals S" pc "handlers m"] t(1)
    by (auto simp: w2_def exnCov_def)
  have p: "wprog m w w2" using wprog_trans [OF t(2) e(2)] .
  show ?case
  proof (cases "dead w")
    case True
    then show ?thesis using Cons.prems by simp
  next
    case nd: False
    show ?thesis
    proof (cases "dead w2")
      case True
      then have eq: "(S', w') = (if handlers m \<noteq> [] then (S, w2) else blockLoop m ret (buildCfg m) pcs S w2)"
        using Cons.prems(3) nd True by (auto simp: w2_def Let_def)
      show ?thesis
      proof (cases "handlers m = []")
        case True
        then show ?thesis
          using eq Cons.IH [OF e(1) Cons.prems(2)] wprog_trans [OF p]
            dead_blockLoop [OF \<open>dead w2\<close>, of m ret "buildCfg m" pcs S]
          by (simp add: prod_eq_iff)
      next
        case False
        then show ?thesis using eq e(1) p \<open>dead w2\<close> by simp
      qed
    next
      case False
      then have eq: "blockLoop m ret (buildCfg m) pcs (flow m pc S) w2 = (S', w')"
        using Cons.prems(3) nd by (simp add: w2_def [symmetric] Let_def stepIns_flow)
      note ih = Cons.IH [OF e(1) _ eq]
      have pw: "wfw m w'" "wprog m w2 w'" using ih Cons.prems(2) by auto
      have "exnCov m w' ((pc # pcs) ! i) (runFlow m S (take i (pc # pcs)))"
        if "i < length (pc # pcs)" "\<not> dead w'" for i
        using that ih Cons.prems(2) exnCov_mono [OF pw(2) e(3) [OF False]] by (cases i) auto
      then show ?thesis using ih Cons.prems(2) wprog_trans [OF p pw(2)] by auto
    qed
  qed
qed simp

section \<open>Normal edges\<close>

lemma succEdges_step:
  "s < nb \<Longrightarrow> succEdges m nb S (s # ss) w =
    (let (ok, w2) = flowInto m s S (tick w) in if ok then succEdges m nb S ss w2 else w2)"
  by (simp add: flowInto_def Let_def split: prod.split)

lemma succEdges_edges:
  assumes "wfw m w" and "dims m S" and "succEdges m (nblocks m) S ss w = w'"
  shows "wfw m w' \<and> wprog m w w' \<and>
    (\<not> dead w' \<longrightarrow> (\<forall>s\<in>set ss. s < nblocks m \<longrightarrow> cov w' s S))"
  using assms(1,3)
proof (induction ss arbitrary: w)
  case (Cons s ss)
  have t: "wfw m (tick w)" "wprog m w (tick w)" using Cons.prems(1) wfw_tick wprog_tick by blast+
  show ?case
  proof (cases "s < nblocks m")
    case False
    then show ?thesis
      using Cons.IH [OF t(1)] Cons.prems(2) wprog_trans [OF t(2)] by (auto simp: Let_def)
  next
    case True
    obtain ok w2 where f: "flowInto m s S (tick w) = (ok, w2)" by fastforce
    note e = flowInto_edge [OF t(1) True assms(2) f]
    have p: "wprog m w w2" using wprog_trans [OF t(2) e(2)] .
    show ?thesis
    proof (cases ok)
      case False
      then show ?thesis using Cons.prems(2) e p unfolding succEdges_step [OF True] f by simp
    next
      case ok: True
      then have eq: "succEdges m (nblocks m) S ss w2 = w'"
        using Cons.prems(2) unfolding succEdges_step [OF True] f by simp
      note ih = Cons.IH [OF e(1) eq]
      have "cov w' s S" using cov_mono [of m w2 w'] ih True e(3) ok by blast
      then show ?thesis using ih wprog_trans [OF p] by auto
    qed
  qed
qed simp

section \<open>The worklist invariant\<close>

definition stAt :: "rmethod \<Rightarrow> wl \<Rightarrow> nat \<Rightarrow> nat \<Rightarrow> flow_state" where
  "stAt m w b pc = runFlow m (inStates w ! b) [blockStarts m ! b..<pc]"

definition sat :: "rmethod \<Rightarrow> wl \<Rightarrow> nat \<Rightarrow> bool" where
  "sat m w b \<longleftrightarrow>
     (\<forall>pc. inBlock m b pc \<longrightarrow> exnCov m w pc (stAt m w b pc)) \<and>
     (\<forall>s\<in>set (succs (buildCfg m) ! b). s < nblocks m \<longrightarrow>
        cov w s (stAt m w b (blockEnd (blockStarts m) (length (code m)) b)))"

definition winv :: "rmethod \<Rightarrow> wl \<Rightarrow> bool" where
  "winv m w \<longleftrightarrow> wfw m w \<and> (\<forall>b < nblocks m. visited w ! b \<and> b \<notin> set (queue w) \<longrightarrow> sat m w b)"

lemma sat_mono:
  assumes "wprog m w w'" and "inStates w' ! b = inStates w ! b" and "sat m w b"
  shows "sat m w' b"
  using assms exnCov_mono [OF assms(1)] cov_mono [OF assms(1)] by (simp add: sat_def stAt_def)

lemma processBlock_wfw:
  assumes "wfw m w" and "queue w \<noteq> []"
  shows "wfw m (processBlock m ret (buildCfg m) w)"
proof -
  let ?b = "hd (queue w)"
  let ?w0 = "tick (w\<lparr>queue := tl (queue w), inQueue := (inQueue w)[?b := False]\<rparr>)"
  obtain S' w2 where bl:
    "blockLoop m ret (buildCfg m) (blockPcs m (buildCfg m) ?b) (inStates ?w0 ! ?b) ?w0 = (S', w2)"
    by fastforce
  have d: "dims m (inStates ?w0 ! ?b)"
    using assms hd_in_set [OF assms(2)] by (simp add: wfw_def)
  note loop = blockLoop_edges [OF wfw_tick [OF wfw_pop [OF assms]] d bl]
  then have "\<not> dead w2 \<Longrightarrow> dims m S'" using d by simp
  moreover have "processBlock m ret (buildCfg m) w =
      (if dead w2 then w2 else succEdges m (nblocks m) S' (succs (buildCfg m) ! ?b) w2)"
    unfolding processBlock_def Let_def bl prod.case cfg_fields(1) by (rule refl)
  ultimately show ?thesis
    using loop succEdges_edges [OF _ _ refl, of m w2 S' "succs (buildCfg m) ! ?b"]
    by (cases "dead w2") auto
qed

lemma processBlock_inv:
  assumes "winv m w" and "queue w \<noteq> []" and "processBlock m ret (buildCfg m) w = w'" and "\<not> dead w'"
  shows "winv m w'" and
    "\<forall>b < nblocks m. visited w ! b \<longrightarrow> visited w' ! b \<and> sle (inStates w ! b) (inStates w' ! b)"
    and "wdiags w' = [] \<Longrightarrow> wdiags w = []"
proof -
  define b where "b = hd (queue w)"
  define w0 where "w0 = w\<lparr>queue := tl (queue w), inQueue := (inQueue w)[b := False]\<rparr>"
  let ?pcs = "blockPcs m (buildCfg m) b"
  have q: "queue w = b # queue w0" using assms(2) by (simp add: b_def w0_def)
  have wf: "wfw m w" using assms(1) by (simp add: winv_def)
  have b: "b < nblocks m" "visited w ! b" using wf q by (auto simp: wfw_def)
  have wf0: "wfw m (tick w0)"
    unfolding w0_def b_def by (rule wfw_tick [OF wfw_pop [OF wf assms(2)]])
  note ts = tick_same [of w0]
  have st0: "inStates w0 = inStates w" "visited w0 = visited w" by (simp_all add: w0_def)
  obtain S' w2 where bl: "blockLoop m ret (buildCfg m) ?pcs (inStates (tick w0) ! b) (tick w0) = (S', w2)"
    by fastforce
  have d: "dims m (inStates (tick w0) ! b)" using wf b st0 by (simp add: wfw_def)
  note loop = blockLoop_edges [OF wf0 d bl]
  have w': "w' = (if dead w2 then w2 else succEdges m (nblocks m) S' (succs (buildCfg m) ! b) w2)"
    using assms(3)
    unfolding processBlock_def Let_def b_def [symmetric] w0_def [symmetric] bl prod.case cfg_fields(1)
    by (rule sym)
  then have nd: "\<not> dead w2" using assms(4) by auto
  then have S': "S' = runFlow m (inStates w ! b) ?pcs" using loop st0 by simp
  then have dS': "dims m S'" using d st0 by simp
  note se = succEdges_edges [OF _ dS', of w2 "succs (buildCfg m) ! b" w']
  have wf': "wfw m w'" and p2: "wprog m w2 w'" and
    sc: "\<And>s. s \<in> set (succs (buildCfg m) ! b) \<Longrightarrow> s < nblocks m \<Longrightarrow> cov w' s S'"
    using se loop w' nd assms(4) by auto
  have p: "wprog m (tick w0) w'" using loop p2 wprog_trans by blast
  then show "\<forall>b < nblocks m. visited w ! b \<longrightarrow> visited w' ! b \<and> sle (inStates w ! b) (inStates w' ! b)"
    using st0 by (simp add: wprog_def)
  show "wdiags w' = [] \<Longrightarrow> wdiags w = []"
    using wprogD(5) [OF p] tick_diags [of w0] by (auto simp: w0_def)
  have keep: "visited w ! k \<and> inStates w' ! k = inStates w ! k \<and> k \<notin> set (queue w0)"
    if "k < nblocks m" "visited w' ! k" "k \<notin> set (queue w')" for k
    using p that st0 unfolding wprog_def by auto
  have "sat m w' b" if same: "inStates w' ! b = inStates w ! b"
    unfolding sat_def
  proof (intro conjI allI impI ballI)
    fix pc assume "inBlock m b pc"
    then have "pc - blockStarts m ! b < length ?pcs" "?pcs ! (pc - blockStarts m ! b) = pc"
      "take (pc - blockStarts m ! b) ?pcs = [blockStarts m ! b..<pc]"
      by (auto simp: inBlock_def blockPcs_def take_upt)
    then have "exnCov m w2 pc (stAt m w b pc)"
      using loop nd st0 by (metis stAt_def ts(1))
    then show "exnCov m w' pc (stAt m w' b pc)"
      using exnCov_mono [OF p2] same by (simp add: stAt_def)
  next
    fix s assume "s \<in> set (succs (buildCfg m) ! b)" "s < nblocks m"
    then show "cov w' s (stAt m w' b (blockEnd (blockStarts m) (length (code m)) b))"
      using sc same S' by (simp add: stAt_def blockPcs_def)
  qed
  moreover have "sat m w' k" if "k < nblocks m" "visited w' ! k" "k \<notin> set (queue w')" "k \<noteq> b" for k
  proof -
    have k: "visited w ! k" "inStates w' ! k = inStates w ! k" "k \<notin> set (queue w)"
      using keep [OF that(1-3)] that(4) q by auto
    then have "sat m w k" using assms(1) that(1) by (simp add: winv_def)
    then have "sat m (tick w0) k" using st0 by (simp add: sat_def stAt_def exnCov_def cov_def)
    then show ?thesis using sat_mono [OF p] k(2) st0 by simp
  qed
  ultimately show "winv m w'"
    using wf' keep unfolding winv_def by blast
qed

lemma worklist_inv:
  assumes "winv m w" and "wdiags (worklist m ret (buildCfg m) w) = []"
  shows "winv m (worklist m ret (buildCfg m) w)" and "queue (worklist m ret (buildCfg m) w) = []"
    and "\<not> dead (worklist m ret (buildCfg m) w)" and "wdiags w = []"
    and "\<forall>b < nblocks m. visited w ! b \<longrightarrow> visited (worklist m ret (buildCfg m) w) ! b \<and>
      sle (inStates w ! b) (inStates (worklist m ret (buildCfg m) w) ! b)"
proof -
  have "winv m (worklist m ret (buildCfg m) w) \<and> queue (worklist m ret (buildCfg m) w) = [] \<and>
    \<not> dead (worklist m ret (buildCfg m) w) \<and> wdiags w = [] \<and>
    (\<forall>b < nblocks m. visited w ! b \<longrightarrow> visited (worklist m ret (buildCfg m) w) ! b \<and>
      sle (inStates w ! b) (inStates (worklist m ret (buildCfg m) w) ! b))"
    using assms
  proof (induction m ret "buildCfg m" w rule: worklist.induct)
    case (1 m ret w)
    let ?p = "processBlock m ret (buildCfg m) w"
    show ?case
    proof (cases "queue w = [] \<or> dead w \<or> sink_full (wdiags w)")
      case True
      then have eq: "worklist m ret (buildCfg m) w = w" by (simp add: worklist.simps)
      have "wdiags w = []" "wfw m w" using 1 eq by (auto simp: winv_def)
      then have "queue w = []" "\<not> dead w"
        using True by (auto simp: wfw_def sink_full_def kMaxDiags_def)
      then show ?thesis using 1 eq by simp
    next
      case False
      then have eq: "worklist m ret (buildCfg m) w = worklist m ret (buildCfg m) ?p"
        by (simp add: worklist.simps [of m ret "buildCfg m" w])
      have nd: "\<not> dead ?p"
      proof
        assume "dead ?p"
        then have "worklist m ret (buildCfg m) ?p = ?p" by (simp add: worklist.simps)
        moreover have "wfw m ?p"
          using 1(2) False by (intro processBlock_wfw) (simp_all add: winv_def)
        ultimately show False using 1(3) eq \<open>dead ?p\<close> by (simp add: wfw_def)
      qed
      note pb = processBlock_inv [OF 1(2) _ refl nd]
      have q: "queue w \<noteq> []" using False by blast
      note ih = 1(1) [OF False pb(1) [OF q]]
      have "wdiags (worklist m ret (buildCfg m) ?p) = []" using 1(3) eq by simp
      then show ?thesis
        using ih pb(2,3) [OF q] sle_trans unfolding eq by blast
    qed
  qed
  then show "winv m (worklist m ret (buildCfg m) w)" "queue (worklist m ret (buildCfg m) w) = []"
    "\<not> dead (worklist m ret (buildCfg m) w)" "wdiags w = []"
    "\<forall>b < nblocks m. visited w ! b \<longrightarrow> visited (worklist m ret (buildCfg m) w) ! b \<and>
      sle (inStates w ! b) (inStates (worklist m ret (buildCfg m) w) ! b)" by auto
qed

end
