(* ===== verification/Rbc_Sweep.thy ===== *)
theory Rbc_Sweep
  imports Rbc_Fixpoint
begin

text \<open>
  What the final sweep establishes when it ends without a diagnostic: every instruction of a
  visited block passes its checks in the fixpoint state, and the recorded change points describe
  the types of the locals at every visited pc.
\<close>

section \<open>Diagnostics only accumulate\<close>

lemma sink_adds_Nil [simp]: "sink_adds ds new = [] \<longleftrightarrow> ds = [] \<and> new = []"
proof -
  have "foldl sink_add ds new = [] \<longleftrightarrow> ds = [] \<and> new = []" for ds
    by (induction new arbitrary: ds) auto
  then show ?thesis by (simp add: sink_adds_def)
qed

lemma sink_full_Nil [simp]: "\<not> sink_full []"
  by (simp add: sink_full_def kMaxDiags_def)

definition swok :: "sweep \<Rightarrow> bool" where
  "swok sw \<longleftrightarrow> (dead (sw_w sw) \<longrightarrow> wdiags (sw_w sw) \<noteq> [])"

definition sprog :: "sweep \<Rightarrow> sweep \<Rightarrow> bool" where
  "sprog sw sw' \<longleftrightarrow> inStates (sw_w sw') = inStates (sw_w sw) \<and> visited (sw_w sw') = visited (sw_w sw) \<and>
     (wdiags (sw_w sw) \<noteq> [] \<longrightarrow> wdiags (sw_w sw') \<noteq> []) \<and> (swok sw \<longrightarrow> swok sw')"

lemma sprog_refl [simp]: "sprog sw sw"
  by (simp add: sprog_def)

lemma sprog_trans: "sprog sw sw' \<Longrightarrow> sprog sw' sw'' \<Longrightarrow> sprog sw sw''"
  by (simp add: sprog_def)

lemma sprogD:
  "sprog sw sw' \<Longrightarrow> inStates (sw_w sw') = inStates (sw_w sw)"
  "sprog sw sw' \<Longrightarrow> visited (sw_w sw') = visited (sw_w sw)"
  "sprog sw sw' \<Longrightarrow> wdiags (sw_w sw') = [] \<Longrightarrow> wdiags (sw_w sw) = []"
  "sprog sw sw' \<Longrightarrow> swok sw \<Longrightarrow> swok sw'"
  by (auto simp: sprog_def)

lemma swok_alive: "swok sw \<Longrightarrow> wdiags (sw_w sw) = [] \<Longrightarrow> \<not> dead (sw_w sw)"
  by (simp add: swok_def)

lemma sprog_tick: "sprog sw (sw\<lparr>sw_w := tick (sw_w sw)\<rparr>)"
  using tick_diags [of "sw_w sw"] by (simp add: sprog_def swok_def)

lemma sprog_recordChange: "sprog sw (recordChange slot pos t sw)"
  by (simp add: recordChange_def sprog_def swok_def Let_def)

lemma sprog_sweepEntry: "sprog sw (sweepEntry locs pos is sw)"
proof (induction "is" arbitrary: sw)
  case (Cons i "is")
  have "sprog sw (sweepEntry locs pos is (recordChange i pos (locs ! i) sw))"
    by (rule sprog_trans [OF sprog_recordChange Cons.IH])
  then show ?case by (simp add: Let_def sprog_recordChange)
qed simp

section \<open>One instruction, one block, all blocks\<close>

text \<open>The effect of one swept instruction on the change points.\<close>

definition sweepStore :: "rmethod \<Rightarrow> nat \<Rightarrow> flow_state \<Rightarrow> sweep \<Rightarrow> sweep" where
  "sweepStore m pc S sw =
     (case stepStore m pc S of
        None \<Rightarrow> sw
      | Some (slot, t) \<Rightarrow>
          if slot < length (sw_running sw) then recordChange slot (pc + 1) t sw else sw)"

lemma sprog_sweepStore: "sprog sw (sweepStore m pc S sw)"
  by (simp add: sweepStore_def sprog_recordChange split: option.split)

lemma sweepIns_cases:
  assumes "sweepIns m ret pc S sw = (S', sw')"
  shows "sprog sw sw'"
    and "swok sw \<Longrightarrow> wdiags (sw_w sw') = [] \<Longrightarrow> S' = flow m pc S \<and> stepDiags m ret pc S = []
      \<and> sw' = sweepStore m pc S (sw\<lparr>sw_w := tick (sw_w sw)\<rparr>)"
proof -
  let ?sw1 = "sw\<lparr>sw_w := tick (sw_w sw)\<rparr>"
  let ?sw2 = "?sw1\<lparr>sw_w := (sw_w ?sw1)\<lparr>wdiags := sink_adds (wdiags (sw_w ?sw1)) (stepDiags m ret pc S)\<rparr>\<rparr>"
  have eq: "(S', sw') = (if dead (sw_w ?sw1) then (S, ?sw1) else (flow m pc S, sweepStore m pc S ?sw2))"
    using assms unfolding sweepIns_def stepIns_split Let_def sweepStore_def
    by (auto split: option.splits if_splits)
  have p2: "sprog ?sw1 ?sw2"
    by (auto simp: sprog_def swok_def)
  then have "sprog ?sw1 sw'"
    using eq sprog_trans [OF p2 sprog_sweepStore] by (auto split: if_splits)
  then show p: "sprog sw sw'" by (rule sprog_trans [OF sprog_tick])
  assume ok: "swok sw" and nil: "wdiags (sw_w sw') = []"
  have n1: "wdiags (sw_w ?sw1) = []" using sprogD(3) [OF \<open>sprog ?sw1 sw'\<close> nil] .
  then have alive: "\<not> dead (sw_w ?sw1)" using swok_alive sprogD(4) [OF sprog_tick ok] by blast
  then have "wdiags (sw_w ?sw2) = []"
    using eq nil sprogD(3) [OF sprog_sweepStore, of m pc S ?sw2] by simp
  then have "stepDiags m ret pc S = []" by simp
  moreover from this n1 have "?sw2 = ?sw1" by simp
  ultimately show "S' = flow m pc S \<and> stepDiags m ret pc S = [] \<and> sw' = sweepStore m pc S ?sw1"
    using eq alive by simp
qed

lemma sweepLoop_checks:
  "sprog sw (sweepLoop m ret pcs S sw) \<and>
   (swok sw \<and> wdiags (sw_w (sweepLoop m ret pcs S sw)) = [] \<longrightarrow>
     (\<forall>i < length pcs. stepDiags m ret (pcs ! i) (runFlow m S (take i pcs)) = []))"
proof (induction pcs arbitrary: S sw)
  case (Cons pc pcs)
  obtain S' sw' where si: "sweepIns m ret pc S sw = (S', sw')" by fastforce
  note c = sweepIns_cases [OF si]
  note ih = Cons.IH [of sw' S']
  have p: "sprog sw (sweepLoop m ret (pc # pcs) S sw)"
    using ih sprog_trans [OF c(1)] by (simp add: si)
  moreover have "stepDiags m ret ((pc # pcs) ! i) (runFlow m S (take i (pc # pcs))) = []"
    if ok: "swok sw" and nil: "wdiags (sw_w (sweepLoop m ret (pc # pcs) S sw)) = []"
      and i: "i < length (pc # pcs)" for i
  proof -
    have "\<not> dead (sw_w sw)" using swok_alive [OF ok] sprogD(3) [OF p nil] .
    then have eq: "sweepLoop m ret (pc # pcs) S sw = sweepLoop m ret pcs S' sw'" by (simp add: si)
    then have nil': "wdiags (sw_w (sweepLoop m ret pcs S' sw')) = []" using nil by simp
    then have "S' = flow m pc S" "stepDiags m ret pc S = []"
      using c(2) [OF ok] sprogD(3) ih by blast+
    then show ?thesis using ih nil' sprogD(4) [OF c(1) ok] i by (cases i) auto
  qed
  ultimately show ?case by blast
qed simp

definition enterBlock :: "rmethod \<Rightarrow> nat \<Rightarrow> sweep \<Rightarrow> sweep" where
  "enterBlock m b sw =
     (if handlers m \<noteq> []
      then sweepEntry (locals (inStates (sw_w sw) ! b)) (blockStarts m ! b)
             [0..<min (length (locals (inStates (sw_w sw) ! b))) (length (sw_running sw))] sw
      else sw)"

lemma sprog_enterBlock: "sprog sw (enterBlock m b sw)"
  by (simp add: enterBlock_def sprog_sweepEntry)

lemma sweepBlocks_Cons:
  "sweepBlocks m ret (buildCfg m) (b # bs) sw =
    (if dead (sw_w sw) \<or> sink_full (wdiags (sw_w sw)) then sw
     else if \<not> visited (sw_w sw) ! b then sweepBlocks m ret (buildCfg m) bs sw
     else if dead (sw_w (enterBlock m b sw)) then enterBlock m b sw
     else sweepBlocks m ret (buildCfg m) bs
            (sweepLoop m ret (blockPcs m (buildCfg m) b) (inStates (sw_w sw) ! b) (enterBlock m b sw)))"
  by (simp add: enterBlock_def Let_def)

lemma sprog_sweepBlock: "sprog sw (sweepLoop m ret pcs S (enterBlock m b sw))"
  using sprog_trans [OF sprog_enterBlock] sweepLoop_checks by blast

lemma sprog_sweepBlocks: "sprog sw (sweepBlocks m ret (buildCfg m) bs sw)"
proof (induction bs arbitrary: sw)
  case (Cons b bs)
  have "sprog sw (sweepBlocks m ret (buildCfg m) bs (sweepLoop m ret pcs S (enterBlock m b sw)))" for pcs S
    by (rule sprog_trans [OF sprog_sweepBlock Cons.IH])
  then show ?case
    unfolding sweepBlocks_Cons using Cons.IH sprog_enterBlock by simp
qed simp

text \<open>A clean sweep takes none of its early exits.\<close>

lemma sweepBlocks_clean:
  assumes "swok sw" and "wdiags (sw_w (sweepBlocks m ret (buildCfg m) (b # bs) sw)) = []"
  shows "sweepBlocks m ret (buildCfg m) (b # bs) sw =
    sweepBlocks m ret (buildCfg m) bs
      (if visited (sw_w sw) ! b
       then sweepLoop m ret (blockPcs m (buildCfg m) b) (inStates (sw_w sw) ! b) (enterBlock m b sw)
       else sw)"
proof -
  have nil: "wdiags (sw_w sw) = []" using sprogD(3) [OF sprog_sweepBlocks assms(2)] .
  then have 1: "\<not> (dead (sw_w sw) \<or> sink_full (wdiags (sw_w sw)))"
    using swok_alive [OF assms(1)] by simp
  have "\<not> dead (sw_w (enterBlock m b sw))" if "visited (sw_w sw) ! b"
  proof
    assume d: "dead (sw_w (enterBlock m b sw))"
    then have "sweepBlocks m ret (buildCfg m) (b # bs) sw = enterBlock m b sw"
      unfolding sweepBlocks_Cons using that 1 by simp
    then show False
      using d assms sprogD(4) [OF sprog_enterBlock assms(1), of m b] by (auto simp: swok_def)
  qed
  then show ?thesis unfolding sweepBlocks_Cons using 1 by simp
qed

lemma blockPcs_index:
  assumes "inBlock m b pc"
  obtains i where "i < length (blockPcs m (buildCfg m) b)" and "blockPcs m (buildCfg m) b ! i = pc"
    and "take i (blockPcs m (buildCfg m) b) = [blockStarts m ! b..<pc]"
  using assms that [of "pc - blockStarts m ! b"] by (auto simp: inBlock_def blockPcs_def take_upt)

lemma sweepBlocks_checks:
  assumes "swok sw" and "wdiags (sw_w (sweepBlocks m ret (buildCfg m) bs sw)) = []"
    and "b \<in> set bs" and "visited (sw_w sw) ! b" and "inBlock m b pc"
  shows "stepDiags m ret pc (stAt m (sw_w sw) b pc) = []"
  using assms
proof (induction bs arbitrary: sw)
  case (Cons a bs)
  let ?loop = "sweepLoop m ret (blockPcs m (buildCfg m) a) (inStates (sw_w sw) ! a) (enterBlock m a sw)"
  let ?next = "if visited (sw_w sw) ! a then ?loop else sw"
  note eq = sweepBlocks_clean [OF Cons.prems(1,2)]
  have p: "sprog sw ?next"
    by (simp add: sprog_sweepBlock)
  have nil: "wdiags (sw_w (sweepBlocks m ret (buildCfg m) bs ?next)) = []"
    using Cons.prems(2) unfolding eq .
  show ?case
  proof (cases "b = a")
    case True
    then have nx: "?next = ?loop" using Cons.prems(4) by simp
    have "wdiags (sw_w ?loop) = []" using sprogD(3) [OF sprog_sweepBlocks nil] nx by simp
    moreover obtain i where "i < length (blockPcs m (buildCfg m) a)" "blockPcs m (buildCfg m) a ! i = pc"
      "take i (blockPcs m (buildCfg m) a) = [blockStarts m ! a..<pc]"
      using blockPcs_index [of m a pc] Cons.prems(5) True by metis
    ultimately show ?thesis
      using sweepLoop_checks [of "enterBlock m a sw" m ret "blockPcs m (buildCfg m) a"
          "inStates (sw_w sw) ! a"] sprogD(4) [OF sprog_enterBlock Cons.prems(1), of m a] True
      by (metis stAt_def)
  next
    case False
    then show ?thesis
      using Cons.IH [OF sprogD(4) [OF p Cons.prems(1)] nil] Cons.prems(3-5) sprogD(1,2) [OF p]
      by (simp add: stAt_def)
  qed
qed simp

end
