(* ===== verification/Rbc_Stability.thy ===== *)
theory Rbc_Stability
  imports Rbc_Sweep
begin

text \<open>
  The protected-range check. The change points recorded by the sweep describe the local types at
  every visited pc, the binary search finds the first change point past the start of a range, and
  so the absence of a stability diagnostic means that no local changes its type inside the range.
\<close>

section \<open>Change points as a step function\<close>

definition valAt :: "rtype \<Rightarrow> (nat \<times> rtype) list \<Rightarrow> nat \<Rightarrow> rtype" where
  "valAt d l p = (let es = filter (\<lambda>e. fst e \<le> p) l in if es = [] then d else snd (last es))"

lemma valAt_append: "\<forall>e\<in>set new. p < fst e \<Longrightarrow> valAt d (l @ new) p = valAt d l p"
  by (simp add: valAt_def Let_def filter_False linorder_not_le [symmetric])

lemma valAt_all: "\<forall>e\<in>set l. fst e \<le> p \<Longrightarrow> valAt d l p = (if l = [] then d else snd (last l))"
  by (simp add: valAt_def)

lemma valAt_const:
  assumes "p \<le> q" and "\<forall>e\<in>set l. \<not> (p < fst e \<and> fst e \<le> q)"
  shows "valAt d l p = valAt d l q"
proof -
  have "filter (\<lambda>e. fst e \<le> p) l = filter (\<lambda>e. fst e \<le> q) l"
    using assms by (intro filter_cong) auto
  then show ?thesis by (simp add: valAt_def)
qed

text \<open>All change points so far lie at or before \<open>P\<close>, in order, and \<open>sw_running\<close> is the value they
  lead to from the types \<open>ini\<close> at entry.\<close>

definition chg :: "rtype list \<Rightarrow> nat \<Rightarrow> sweep \<Rightarrow> bool" where
  "chg ini P sw \<longleftrightarrow> length (sw_running sw) = length ini \<and> length (sw_bps sw) = length ini \<and>
     (\<forall>i < length ini. sorted (map fst (sw_bps sw ! i)) \<and> (\<forall>e\<in>set (sw_bps sw ! i). fst e \<le> P) \<and>
        sw_running sw ! i = (if sw_bps sw ! i = [] then ini ! i else snd (last (sw_bps sw ! i))))"

definition ext :: "rtype list \<Rightarrow> nat \<Rightarrow> sweep \<Rightarrow> sweep \<Rightarrow> bool" where
  "ext ini pos sw sw' \<longleftrightarrow>
     (\<forall>i < length ini. \<exists>new. sw_bps sw' ! i = sw_bps sw ! i @ new \<and> (\<forall>e\<in>set new. pos \<le> fst e))"

definition described :: "rtype list \<Rightarrow> sweep \<Rightarrow> nat \<Rightarrow> flow_state \<Rightarrow> bool" where
  "described ini sw p S \<longleftrightarrow>
     locals S = map (\<lambda>i. valAt (ini ! i) (sw_bps sw ! i) p) [0..<length ini]"

lemma chg_mono: "chg ini P sw \<Longrightarrow> P \<le> Q \<Longrightarrow> chg ini Q sw"
  by (auto simp: chg_def intro: order_trans)

lemma chg_tick: "chg ini P sw \<Longrightarrow> chg ini P (sw\<lparr>sw_w := w\<rparr>)"
  by (simp add: chg_def)

lemma ext_refl: "ext ini pos sw sw"
  by (simp add: ext_def)

lemma ext_trans:
  assumes "ext ini pos sw sw'" and "ext ini pos' sw' sw''" and "pos \<le> pos'"
  shows "ext ini pos sw sw''"
  unfolding ext_def
proof (intro allI impI)
  fix i assume i: "i < length ini"
  obtain a where a: "sw_bps sw' ! i = sw_bps sw ! i @ a" "\<forall>e\<in>set a. pos \<le> fst e"
    using assms(1) i unfolding ext_def by blast
  obtain c where c: "sw_bps sw'' ! i = sw_bps sw' ! i @ c" "\<forall>e\<in>set c. pos' \<le> fst e"
    using assms(2) i unfolding ext_def by blast
  show "\<exists>new. sw_bps sw'' ! i = sw_bps sw ! i @ new \<and> (\<forall>e\<in>set new. pos \<le> fst e)"
    using a c assms(3) by (intro exI [of _ "a @ c"]) auto
qed

lemma described_ext:
  assumes "described ini sw p S" and "ext ini pos sw sw'" and "p < pos"
  shows "described ini sw' p S"
proof -
  have "valAt (ini ! i) (sw_bps sw' ! i) p = valAt (ini ! i) (sw_bps sw ! i) p" if "i < length ini" for i
    using assms(2,3) that valAt_append unfolding ext_def by (metis order_less_le_trans)
  then show ?thesis using assms(1) by (simp add: described_def)
qed

lemma chg_described: "chg ini P sw \<Longrightarrow> locals S = sw_running sw \<Longrightarrow> described ini sw P S"
  unfolding described_def chg_def by (auto intro!: nth_equalityI simp: valAt_all)

section \<open>Recording\<close>

lemma recordChange_chg:
  assumes "chg ini P sw" and "P \<le> pos" and "slot < length ini"
    and "\<not> dead (sw_w (recordChange slot pos t sw))"
  shows "chg ini pos (recordChange slot pos t sw)" and "ext ini pos sw (recordChange slot pos t sw)"
    and "sw_running (recordChange slot pos t sw) = (sw_running sw)[slot := t]"
proof -
  have len: "length (sw_running sw) = length ini" "length (sw_bps sw) = length ini"
    using assms(1) by (auto simp: chg_def)
  consider (same) "sw_running sw ! slot = t" "recordChange slot pos t sw = sw"
    | (new) "sw_running sw ! slot \<noteq> t" "recordChange slot pos t sw =
        sw\<lparr>sw_running := (sw_running sw)[slot := t], sw_bpCount := sw_bpCount sw + 1,
           sw_bps := (sw_bps sw)[slot := (sw_bps sw ! slot) @ [(pos, t)]]\<rparr>"
    using assms(4) by (auto simp: recordChange_def Let_def split: if_splits)
  then have "chg ini pos (recordChange slot pos t sw) \<and> ext ini pos sw (recordChange slot pos t sw) \<and>
    sw_running (recordChange slot pos t sw) = (sw_running sw)[slot := t]"
  proof cases
    case same
    then have "(sw_running sw)[slot := t] = sw_running sw" by (metis list_update_id)
    then show ?thesis using same chg_mono [OF assms(1,2)] ext_refl by simp
  next
    case new
    have le: "\<forall>e\<in>set (sw_bps sw ! i). fst e \<le> pos" "sorted (map fst (sw_bps sw ! i))"
      if "i < length ini" for i
      using assms(1,2) that by (auto simp: chg_def intro: order_trans)
    then show ?thesis
      using assms(1,3) len unfolding new(2) chg_def ext_def
      by (auto simp: nth_list_update_if sorted_append)
  qed
  then show "chg ini pos (recordChange slot pos t sw)" "ext ini pos sw (recordChange slot pos t sw)"
    "sw_running (recordChange slot pos t sw) = (sw_running sw)[slot := t]" by auto
qed

lemma sweepEntry_chg:
  assumes "chg ini P sw" and "P \<le> pos" and "set is \<subseteq> {..<length ini}"
    and "\<not> dead (sw_w sw)" and "\<not> dead (sw_w (sweepEntry locs pos is sw))"
  shows "chg ini pos (sweepEntry locs pos is sw) \<and> ext ini pos sw (sweepEntry locs pos is sw) \<and>
    (\<forall>i < length ini. sw_running (sweepEntry locs pos is sw) ! i
       = (if i \<in> set is then locs ! i else sw_running sw ! i))"
  using assms
proof (induction "is" arbitrary: sw P)
  case Nil
  then show ?case using chg_mono ext_refl by auto
next
  case (Cons i "is")
  let ?sw1 = "recordChange i pos (locs ! i) sw"
  have alive: "\<not> dead (sw_w ?sw1)"
    and eq: "sweepEntry locs pos (i # is) sw = sweepEntry locs pos is ?sw1"
    using Cons.prems(5) by (auto simp: Let_def split: if_splits)
  have i: "i < length ini" using Cons.prems(3) by simp
  note r = recordChange_chg [OF Cons.prems(1,2) i alive]
  have ih: "chg ini pos (sweepEntry locs pos is ?sw1) \<and> ext ini pos ?sw1 (sweepEntry locs pos is ?sw1) \<and>
    (\<forall>k < length ini. sw_running (sweepEntry locs pos is ?sw1) ! k
       = (if k \<in> set is then locs ! k else sw_running ?sw1 ! k))"
    using Cons.prems(3,5) alive unfolding eq by (intro Cons.IH [OF r(1)]) simp_all
  have len: "length (sw_running sw) = length ini" using Cons.prems(1) by (simp add: chg_def)
  show ?case
    unfolding eq using ih ext_trans [OF r(2) _ order_refl] r(3) i len by (auto simp: nth_list_update_if)
qed

section \<open>Sweeping a block\<close>

lemma stepStore_eq:
  "stepStore m pc S =
     (let i = code m ! pc
      in if \<not> stepSkips i S \<and> ins_op i \<noteq> Op_Iinc \<and> op_sig (info (ins_op i)) = Sig_SlotReg
           \<and> ins_imm i < length (locals S)
         then Some (ins_imm i, regs S ! ins_a i) else None)"
  by (simp only: stepStore_def snd_snd_stepIns_eq Let_def)

lemma locals_setDst [simp]: "locals (setDst i t S) = locals S"
  by (simp add: setDst_def)

lemma locals_destWrite [simp]: "locals (fst (destWrite m pc i S e)) = locals S"
  by (simp add: destWrite_def Let_def split: option.split)

lemma locals_flow:
  "locals (flow m pc S) = (case stepStore m pc S of None \<Rightarrow> locals S | Some (s, t) \<Rightarrow> (locals S)[s := t])"
  unfolding flow_def stepStore_eq fst_stepIns_eq Let_def by (simp cong: if_cong)

lemma stepStore_slot: "stepStore m pc S = Some (s, t) \<Longrightarrow> s < length (locals S)"
  by (auto simp: stepStore_eq Let_def split: if_splits)

lemma sweepStore_chg:
  assumes "chg ini pc sw" and "sw_running sw = locals S" and "\<not> dead (sw_w (sweepStore m pc S sw))"
  shows "chg ini (pc + 1) (sweepStore m pc S sw) \<and> ext ini (pc + 1) sw (sweepStore m pc S sw) \<and>
    sw_running (sweepStore m pc S sw) = locals (flow m pc S)"
proof (cases "stepStore m pc S")
  case None
  then show ?thesis
    using assms chg_mono [OF assms(1), of "pc + 1"] by (simp add: sweepStore_def locals_flow ext_refl)
next
  case (Some st)
  obtain s t where st: "st = (s, t)" by fastforce
  have s: "s < length (sw_running sw)" using stepStore_slot Some st assms(2) by simp
  then have eq: "sweepStore m pc S sw = recordChange s (pc + 1) t sw"
    by (simp add: sweepStore_def Some st)
  have "s < length ini" using s assms(1) by (simp add: chg_def)
  then show ?thesis
    using recordChange_chg [OF assms(1), of "pc + 1" s t] assms(2,3)
    unfolding eq by (simp add: locals_flow Some st)
qed

lemma sweepLoop_chg:
  assumes "a \<le> e" and "chg ini a sw" and "sw_running sw = locals S" and "swok sw"
    and "wdiags (sw_w (sweepLoop m ret [a..<e] S sw)) = []"
  shows "chg ini e (sweepLoop m ret [a..<e] S sw) \<and> ext ini (a + 1) sw (sweepLoop m ret [a..<e] S sw) \<and>
    (\<forall>pc. a \<le> pc \<and> pc < e \<longrightarrow>
       described ini (sweepLoop m ret [a..<e] S sw) pc (runFlow m S [a..<pc]))"
  using assms
proof (induction "e - a" arbitrary: a S sw)
  case 0
  then show ?case by (auto simp: ext_refl)
next
  case (Suc k)
  then have ae: "a < e" by simp
  obtain S' sw' where si: "sweepIns m ret a S sw = (S', sw')" by fastforce
  let ?L = "sweepLoop m ret [a + 1..<e] S' sw'"
  have p: "sprog sw (sweepLoop m ret [a..<e] S sw)" using sweepLoop_checks by blast
  then have "\<not> dead (sw_w sw)" using swok_alive [OF Suc.prems(4)] sprogD(3) Suc.prems(5) by blast
  then have eq: "sweepLoop m ret [a..<e] S sw = ?L" using ae by (simp add: upt_conv_Cons si)
  have p2: "sprog sw' ?L" using sweepLoop_checks by blast
  then have nil: "wdiags (sw_w sw') = []" using Suc.prems(5) eq sprogD(3) by metis
  note c = sweepIns_cases(2) [OF si Suc.prems(4) nil]
  have ok: "swok sw'" using sprogD(4) [OF sweepIns_cases(1) [OF si] Suc.prems(4)] .
  let ?t = "sw\<lparr>sw_w := tick (sw_w sw)\<rparr>"
  have st: "chg ini (a + 1) sw' \<and> ext ini (a + 1) ?t sw' \<and> sw_running sw' = locals S'"
    using sweepStore_chg [OF chg_tick [OF Suc.prems(2)], of "tick (sw_w sw)" S m] Suc.prems(3)
      c swok_alive [OF ok nil] by simp
  then have x1: "ext ini (a + 1) sw sw'" by (simp add: ext_def)
  have ih: "chg ini e ?L" "ext ini (a + 1 + 1) sw' ?L"
    "\<And>pc. a + 1 \<le> pc \<Longrightarrow> pc < e \<Longrightarrow> described ini ?L pc (runFlow m S' [a + 1..<pc])"
    using Suc.hyps(1) [of "a + 1" sw' S'] Suc.hyps(2) Suc.prems(5) ae st ok unfolding eq by auto
  have x: "ext ini (a + 1) sw ?L" by (rule ext_trans [OF x1 ih(2)]) simp
  have "described ini ?L pc (runFlow m S [a..<pc])" if "a \<le> pc" "pc < e" for pc
  proof (cases "pc = a")
    case True
    have "described ini sw a S" using chg_described [OF Suc.prems(2)] Suc.prems(3) by simp
    then show ?thesis using described_ext [OF _ x] True by simp
  next
    case False
    then show ?thesis using ih(3) [of pc] that c by (simp add: upt_conv_Cons)
  qed
  then show ?case unfolding eq using ih(1) x by blast
qed

section \<open>Sweeping all blocks\<close>

lemma enterBlock_chg:
  assumes "handlers m \<noteq> []" and "chg ini P sw" and "P \<le> blockStarts m ! b"
    and "length (locals (inStates (sw_w sw) ! b)) = length ini"
    and "\<not> dead (sw_w sw)" and "\<not> dead (sw_w (enterBlock m b sw))"
  shows "chg ini (blockStarts m ! b) (enterBlock m b sw) \<and> ext ini (blockStarts m ! b) sw (enterBlock m b sw) \<and>
    sw_running (enterBlock m b sw) = locals (inStates (sw_w sw) ! b)"
proof -
  have len: "length (sw_running sw) = length ini" using assms(2) by (simp add: chg_def)
  have eq: "enterBlock m b sw = sweepEntry (locals (inStates (sw_w sw) ! b)) (blockStarts m ! b) [0..<length ini] sw"
    using assms(1,4) len by (simp add: enterBlock_def)
  have sub: "set [0..<length ini] \<subseteq> {..<length ini}" by auto
  have e: "chg ini (blockStarts m ! b) (enterBlock m b sw)"
    "ext ini (blockStarts m ! b) sw (enterBlock m b sw)"
    "\<And>i. i < length ini \<Longrightarrow> sw_running (enterBlock m b sw) ! i = locals (inStates (sw_w sw) ! b) ! i"
    using sweepEntry_chg [OF assms(2,3) sub assms(5)] assms(6) unfolding eq by auto
  have "length (sw_running (enterBlock m b sw)) = length ini" using e(1) by (simp add: chg_def)
  then have "sw_running (enterBlock m b sw) = locals (inStates (sw_w sw) ! b)"
    using e(3) assms(4) by (intro nth_equalityI) simp_all
  then show ?thesis using e by blast
qed

lemma sweepBlocks_chg:
  assumes "handlers m \<noteq> []" and "b0 \<le> nblocks m" and "chg ini P sw"
    and "\<forall>b. b0 \<le> b \<and> b < nblocks m \<longrightarrow> P \<le> blockStarts m ! b"
    and "\<forall>b < nblocks m. visited (sw_w sw) ! b \<longrightarrow> length (locals (inStates (sw_w sw) ! b)) = length ini"
    and "swok sw" and "wdiags (sw_w (sweepBlocks m ret (buildCfg m) [b0..<nblocks m] sw)) = []"
  shows "(\<exists>Q. chg ini Q (sweepBlocks m ret (buildCfg m) [b0..<nblocks m] sw)) \<and>
    (\<forall>pos. (\<forall>b. b0 \<le> b \<and> b < nblocks m \<longrightarrow> pos \<le> blockStarts m ! b) \<longrightarrow>
       ext ini pos sw (sweepBlocks m ret (buildCfg m) [b0..<nblocks m] sw)) \<and>
    (\<forall>b pc. b0 \<le> b \<and> visited (sw_w sw) ! b \<and> inBlock m b pc \<longrightarrow>
       described ini (sweepBlocks m ret (buildCfg m) [b0..<nblocks m] sw) pc (stAt m (sw_w sw) b pc))"
  using assms(2-)
proof (induction "nblocks m - b0" arbitrary: b0 P sw)
  case 0
  then have "[b0..<nblocks m] = []" by simp
  then show ?case using 0 ext_refl by (auto simp: inBlock_def)
next
  case (Suc k)
  then have lt: "b0 < nblocks m" by simp
  let ?e = "blockEnd (blockStarts m) (length (code m)) b0"
  let ?loop = "sweepLoop m ret (blockPcs m (buildCfg m) b0) (inStates (sw_w sw) ! b0) (enterBlock m b0 sw)"
  let ?next = "if visited (sw_w sw) ! b0 then ?loop else sw"
  let ?F = "sweepBlocks m ret (buildCfg m) [b0 + 1..<nblocks m] ?next"
  have upt: "[b0..<nblocks m] = b0 # [b0 + 1..<nblocks m]" using lt by (simp add: upt_conv_Cons)
  have eq: "sweepBlocks m ret (buildCfg m) [b0..<nblocks m] sw = ?F"
    using sweepBlocks_clean [of sw m ret b0 "[b0 + 1..<nblocks m]"] Suc.prems(5,6) unfolding upt by blast
  have pn: "sprog sw ?next" by (simp add: sprog_sweepBlock)
  have nilF: "wdiags (sw_w ?F) = []" using Suc.prems(6) eq by simp
  have nilN: "wdiags (sw_w ?next) = []" using sprogD(3) [OF sprog_sweepBlocks nilF] .
  have later: "?e \<le> blockStarts m ! b" if "b0 + 1 \<le> b" "b < nblocks m" for b
    using that starts_mono_le [of "b0 + 1" b m] by (auto simp: blockEnd_def)
  have st: "(\<exists>Q. chg ini Q ?next \<and> (\<forall>b. b0 + 1 \<le> b \<and> b < nblocks m \<longrightarrow> Q \<le> blockStarts m ! b)) \<and>
    ext ini (blockStarts m ! b0) sw ?next \<and>
    (\<forall>pc. visited (sw_w sw) ! b0 \<and> inBlock m b0 pc \<longrightarrow> described ini ?next pc (stAt m (sw_w sw) b0 pc))"
  proof (cases "visited (sw_w sw) ! b0")
    case False
    then show ?thesis using Suc.prems(2,3) ext_refl by auto
  next
    case True
    have nilE: "wdiags (sw_w (enterBlock m b0 sw)) = []"
      using nilN True sprogD(3) sweepLoop_checks by (metis (full_types))
    have okE: "swok (enterBlock m b0 sw)" by (rule sprogD(4) [OF sprog_enterBlock Suc.prems(5)])
    have alive: "\<not> dead (sw_w sw)"
      by (rule swok_alive [OF Suc.prems(5) sprogD(3) [OF pn nilN]])
    have P: "P \<le> blockStarts m ! b0" using Suc.prems(3) lt by simp
    have len: "length (locals (inStates (sw_w sw) ! b0)) = length ini" using Suc.prems(4) lt True by simp
    note en = enterBlock_chg [OF assms(1) Suc.prems(2) P len alive swok_alive [OF okE nilE]]
    have le: "blockStarts m ! b0 \<le> ?e" using blockEnd_gt [OF lt] by simp
    have pcs: "blockPcs m (buildCfg m) b0 = [blockStarts m ! b0..<?e]" by (simp add: blockPcs_def)
    have lp: "chg ini ?e ?loop \<and> ext ini (blockStarts m ! b0 + 1) (enterBlock m b0 sw) ?loop \<and>
      (\<forall>pc. blockStarts m ! b0 \<le> pc \<and> pc < ?e \<longrightarrow> described ini ?loop pc (stAt m (sw_w sw) b0 pc))"
      using sweepLoop_chg [OF le _ _ okE, of ini "inStates (sw_w sw) ! b0" m ret] en nilN True
      unfolding pcs stAt_def by simp
    moreover have "ext ini (blockStarts m ! b0) sw ?loop"
      using en lp ext_trans [of ini "blockStarts m ! b0" sw] by (metis le_add1)
    ultimately show ?thesis using True later by (auto simp: inBlock_def)
  qed
  then obtain Q where Q: "chg ini Q ?next" "\<forall>b. b0 + 1 \<le> b \<and> b < nblocks m \<longrightarrow> Q \<le> blockStarts m ! b"
    and extN: "ext ini (blockStarts m ! b0) sw ?next"
    and desN: "\<And>pc. visited (sw_w sw) ! b0 \<Longrightarrow> inBlock m b0 pc \<Longrightarrow> described ini ?next pc (stAt m (sw_w sw) b0 pc)"
    by blast
  have k: "k = nblocks m - (b0 + 1)" and b1: "b0 + 1 \<le> nblocks m" using Suc.hyps(2) lt by auto
  have lens: "\<forall>b < nblocks m. visited (sw_w ?next) ! b \<longrightarrow> length (locals (inStates (sw_w ?next) ! b)) = length ini"
    using Suc.prems(4) unfolding sprogD(1,2) [OF pn] .
  note ih = Suc.hyps(1) [OF k b1 Q lens sprogD(4) [OF pn Suc.prems(5)] nilF]
  have "described ini ?F pc (stAt m (sw_w sw) b pc)"
    if "b0 \<le> b" "visited (sw_w sw) ! b" "inBlock m b pc" for b pc
  proof (cases "b = b0")
    case True
    have "ext ini ?e ?next ?F" using ih later by blast
    then show ?thesis
      using described_ext [OF desN, of pc ?e] that True by (simp add: inBlock_def)
  next
    case False
    then have "b0 + 1 \<le> b" "visited (sw_w ?next) ! b" using that unfolding sprogD(2) [OF pn] by auto
    moreover have "stAt m (sw_w ?next) b pc = stAt m (sw_w sw) b pc"
      unfolding stAt_def sprogD(1) [OF pn] by (rule refl)
    ultimately show ?thesis using ih that(3) by metis
  qed
  moreover have "ext ini pos sw ?F" if "\<forall>b. b0 \<le> b \<and> b < nblocks m \<longrightarrow> pos \<le> blockStarts m ! b" for pos
  proof -
    have "ext ini pos sw ?next"
      using extN that lt unfolding ext_def by (meson le_refl order_trans)
    moreover have "ext ini pos ?next ?F" using ih that by simp
    ultimately show ?thesis using ext_trans by blast
  qed
  ultimately show ?case unfolding eq using ih by blast
qed

section \<open>The verdict\<close>

lemma firstAfter_spec:
  assumes "sorted (map fst l)" and "lo \<le> hi" and "hi \<le> length l"
    and "\<forall>k < lo. fst (l ! k) \<le> start" and "\<forall>k. hi \<le> k \<and> k < length l \<longrightarrow> start < fst (l ! k)"
  shows "firstAfter l start lo hi \<le> length l \<and> (\<forall>k < firstAfter l start lo hi. fst (l ! k) \<le> start) \<and>
    (\<forall>k. firstAfter l start lo hi \<le> k \<and> k < length l \<longrightarrow> start < fst (l ! k))"
  using assms
proof (induction l start lo hi rule: firstAfter.induct)
  case (1 l start lo hi)
  let ?mid = "lo + (hi - lo) div 2"
  have mono: "i \<le> j \<Longrightarrow> j < length l \<Longrightarrow> fst (l ! i) \<le> fst (l ! j)" for i j
    using sorted_nth_mono [OF 1(3), of i j] by simp
  show ?case
  proof (cases "lo < hi")
    case True
    then have mid: "?mid < hi" "?mid < length l" "lo \<le> ?mid" using 1(5) by auto
    show ?thesis
    proof (cases "fst (l ! ?mid) \<le> start")
      case le: True
      have eq: "firstAfter l start lo hi = firstAfter l start (?mid + 1) hi"
        by (simp add: firstAfter.simps [of l start lo hi] Let_def True le)
      have "fst (l ! k) \<le> start" if "k < ?mid + 1" for k
        using mono [of k ?mid] mid that le by linarith
      then show ?thesis
        unfolding eq using 1(1) [OF True refl le 1(3)] 1(5,7) mid(1) by simp
    next
      case gt: False
      have eq: "firstAfter l start lo hi = firstAfter l start lo ?mid"
        by (simp add: firstAfter.simps [of l start lo hi] Let_def True gt)
      have tail: "\<forall>k. ?mid \<le> k \<and> k < length l \<longrightarrow> start < fst (l ! k)"
        using mono gt by (metis not_le order_trans)
      show ?thesis
        unfolding eq by (rule 1(2) [OF True refl gt 1(3) mid(3) less_imp_le [OF mid(2)] 1(6) tail])
    qed
  next
    case False
    then have eq: "firstAfter l start lo hi = lo" by (simp add: firstAfter.simps [of l start lo hi])
    have "lo = hi" using False 1(4) by simp
    then show ?thesis unfolding eq using 1(5-7) by blast
  qed
qed

lemma stabilityDiags_Nil:
  assumes "stabilityDiags m bps h = []" and "\<not> badHandler m h" and "i < length bps"
    and "sorted (map fst (bps ! i))" and "e \<in> set (bps ! i)" and "h_start h < fst e"
  shows "h_end h \<le> fst e"
proof -
  let ?l = "bps ! i" and ?lo = "firstAfter (bps ! i) (h_start h) 0 (length (bps ! i))"
  have spec: "?lo \<le> length ?l" "\<forall>k < ?lo. fst (?l ! k) \<le> h_start h"
    using firstAfter_spec [OF assms(4), of 0 "length ?l" "h_start h"] by auto
  obtain k where k: "k < length ?l" "?l ! k = e" using assms(5) by (metis in_set_conv_nth)
  then have "?lo \<le> k" using spec(2) assms(6) by (metis not_le)
  moreover have "\<not> (?lo < length ?l \<and> fst (?l ! ?lo) < h_end h)"
  proof -
    have "concat (map f xs) = [] \<Longrightarrow> x \<in> set xs \<Longrightarrow> f x = []" for f :: "nat \<Rightarrow> diags" and xs x
      by simp
    from this [OF assms(1) [unfolded stabilityDiags_def if_not_P [OF assms(2)]], of i] show ?thesis
      using assms(3) by (auto simp: Let_def split: if_split_asm)
  qed
  moreover have "?lo \<le> k \<Longrightarrow> fst (?l ! ?lo) \<le> fst (?l ! k)"
    using sorted_nth_mono [OF assms(4), of ?lo k] k by simp
  ultimately show ?thesis using k by auto
qed

lemma described_stable:
  assumes "described ini sw p S" and "described ini sw q T" and "i < length ini"
    and "\<forall>e\<in>set (sw_bps sw ! i). lo < fst e \<longrightarrow> hi \<le> fst e"
    and "lo \<le> p" and "p < hi" and "lo \<le> q" and "q < hi"
  shows "locals S ! i = locals T ! i"
proof -
  have "valAt (ini ! i) (sw_bps sw ! i) p = valAt (ini ! i) (sw_bps sw ! i) q"
  proof (cases "p \<le> q")
    case True
    then show ?thesis using assms by (intro valAt_const) force+
  next
    case False
    then have "valAt (ini ! i) (sw_bps sw ! i) q = valAt (ini ! i) (sw_bps sw ! i) p"
      using assms by (intro valAt_const) force+
    then show ?thesis by simp
  qed
  then show ?thesis using assms(1-3) by (simp add: described_def)
qed

end
