(* ===== verification/Rbc_Sound.thy ===== *)
theory Rbc_Sound
  imports Rbc_Stability
begin

text \<open>
  What acceptance by \<open>verify\<close> guarantees. The declarative side is a typing judgement for one
  instruction, a notion of well-typed state assignment, and the relation of the abstract states
  that reach a pc along any path of normal and exceptional edges.
\<close>

section \<open>Declarative specification\<close>

text \<open>The cp entry an instruction names and the descriptor it is typed by.\<close>

definition insDescOk :: "rmethod \<Rightarrow> ins \<Rightarrow> bool" where
  "insDescOk m i \<longleftrightarrow>
     (let c = cp m ! ins_imm i
      in (ins_op i = Op_Getfield \<or> ins_op i = Op_Getstatic \<longrightarrow>
            ins_imm i < length (cp m) \<and> c_kind c = K_FieldRef \<and>
            fs_ok (scanField (c_str3 c)) \<and> fs_used (scanField (c_str3 c)) = length (c_str3 c)) \<and>
         (isInvokeOp (ins_op i) \<longrightarrow>
            ins_imm i < length (cp m) \<and>
            rs_ok (scanMethodDesc (if ins_op i = Op_Invokedynamic then c_str2 c else c_str3 c))))"

definition wtIns :: "rmethod \<Rightarrow> ret_scan \<Rightarrow> ins \<Rightarrow> flow_state \<Rightarrow> bool" where
  "wtIns m ret i S \<longleftrightarrow>
     (let oi = info (ins_op i); ru = regUse (op_sig oi)
      in ins_op i < opCount \<and>
         (ru_dst ru \<longrightarrow> ins_dst i < length (regs S)) \<and>
         (ru_a ru \<longrightarrow> ins_a i < length (regs S)) \<and>
         (ru_b ru \<longrightarrow> ins_b i < length (regs S)) \<and>
         (op_sig oi \<noteq> Sig_Call \<and> op_sig oi \<noteq> Sig_CallQuick \<longrightarrow>
            (ru_a ru \<and> op_operandA oi \<noteq> RT_Bottom \<longrightarrow> isAssignable (regs S ! ins_a i) (op_operandA oi)) \<and>
            (ru_b ru \<and> op_operandB oi \<noteq> RT_Bottom \<longrightarrow> isAssignable (regs S ! ins_b i) (op_operandB oi))) \<and>
         (op_sig oi = Sig_Call \<or> op_sig oi = Sig_CallQuick \<longrightarrow> ins_a i + ins_b i \<le> length (regs S)) \<and>
         (ins_op i = Op_Iinc \<longrightarrow> isAssignable (regs S ! ins_dst i) RT_Int) \<and>
         (op_sig oi = Sig_RegSlot \<longrightarrow>
            ins_imm i < length (locals S) \<and>
            (op_result oi \<noteq> RT_Bottom \<longrightarrow> isAssignable (locals S ! ins_imm i) (op_result oi))) \<and>
         (op_sig oi = Sig_SlotReg \<longrightarrow> ins_imm i < length (locals S)) \<and>
         (isReturnOp (ins_op i) \<longrightarrow> returnAgrees ret (ins_op i)) \<and>
         insDescOk m i)"

text \<open>An assignment of abstract states to pcs (\<open>None\<close>: unreachable) that contains the entry
  state, passes every check, and is closed under both kinds of edges.\<close>

definition wellTyped :: "rmethod \<Rightarrow> ret_scan \<Rightarrow> flow_state \<Rightarrow> (nat \<Rightarrow> flow_state option) \<Rightarrow> bool" where
  "wellTyped m ret entry \<Phi> \<longleftrightarrow>
     (\<exists>S. \<Phi> 0 = Some S \<and> sle entry S) \<and>
     (\<forall>pc S. \<Phi> pc = Some S \<longrightarrow>
        pc < length (code m) \<and> dims m S \<and> wtIns m ret (code m ! pc) S \<and>
        (\<forall>t\<in>set (succPcs m pc). \<exists>T. \<Phi> t = Some T \<and> sle (flow m pc S) T) \<and>
        (\<forall>h\<in>set (handlers m). h_start h \<le> pc \<and> pc < h_end h \<longrightarrow>
           (\<exists>T. \<Phi> (h_handler h) = Some T \<and> sle (edgeState m (locals S)) T)))"

definition protectedStable :: "rmethod \<Rightarrow> (nat \<Rightarrow> flow_state option) \<Rightarrow> bool" where
  "protectedStable m \<Phi> \<longleftrightarrow>
     (\<forall>h\<in>set (handlers m). \<forall>p q S T. h_start h \<le> p \<and> p < h_end h \<and> h_start h \<le> q \<and> q < h_end h \<and>
        \<Phi> p = Some S \<and> \<Phi> q = Some T \<longrightarrow> locals S = locals T)"

text \<open>The abstract states that reach a pc along some path from the method entry.\<close>

inductive reach :: "rmethod \<Rightarrow> flow_state \<Rightarrow> nat \<Rightarrow> flow_state \<Rightarrow> bool" for m entry where
  entry: "reach m entry 0 entry"
| normal: "reach m entry pc S \<Longrightarrow> t \<in> set (succPcs m pc) \<Longrightarrow> reach m entry t (flow m pc S)"
| exceptional: "reach m entry pc S \<Longrightarrow> h \<in> set (handlers m) \<Longrightarrow> h_start h \<le> pc \<Longrightarrow> pc < h_end h \<Longrightarrow>
    reach m entry (h_handler h) (edgeState m (locals S))"

inductive_cases reach_cases: "reach m entry pc S"

section \<open>The phases of an accepted method\<close>

lemma phase1_from_Nil:
  "phase1_from m pcs ds = [] \<longleftrightarrow> ds = [] \<and> (\<forall>pc\<in>set pcs. structDiags m pc (code m ! pc) = [])"
proof (induction pcs arbitrary: ds)
  case (Cons pc pcs)
  show ?case
  proof (cases "sink_full ds")
    case True
    then have "ds \<noteq> []" by auto
    then show ?thesis using True by simp
  next
    case False
    then show ?thesis by (simp only: phase1_from.simps phase1b_from.simps Cons.IH sink_adds_Nil if_False) auto
  qed
qed simp

lemma phase1b_from_Nil:
  "phase1b_from m hs ds = [] \<longleftrightarrow> ds = [] \<and> (\<forall>h\<in>set hs. handlerDiags m h = [])"
proof (induction hs arbitrary: ds)
  case (Cons h hs)
  show ?case
  proof (cases "sink_full ds")
    case True
    then have "ds \<noteq> []" by auto
    then show ?thesis using True by simp
  next
    case False
    then show ?thesis by (simp only: phase1_from.simps phase1b_from.simps Cons.IH sink_adds_Nil if_False) auto
  qed
qed simp

section \<open>A clean type check\<close>

lemma dims_entryState: "dims m (entryState m params)"
proof -
  have "length (foldl (\<lambda>l i. l[f i := g i]) l xs) = length l" for f :: "nat \<Rightarrow> nat" and g and l :: "rtype list" and xs
    by (induction xs arbitrary: l) auto
  then show ?thesis by (simp add: dims_def entryState_def Let_def)
qed

text \<open>The worklist state before the first block is taken, and the state it ends in.\<close>

definition startWl :: "rmethod \<Rightarrow> flow_state \<Rightarrow> diags \<Rightarrow> wl" where
  "startWl m entry ds = enq 0 (snd (seed m 0 entry (initWl (nblocks m) ds)))"

definition finalWl :: "rmethod \<Rightarrow> ret_scan \<Rightarrow> flow_state \<Rightarrow> diags \<Rightarrow> wl" where
  "finalWl m ret entry ds = worklist m ret (buildCfg m) (startWl m entry ds)"

definition finalSweep :: "rmethod \<Rightarrow> ret_scan \<Rightarrow> wl \<Rightarrow> sweep" where
  "finalSweep m ret w = sweepBlocks m ret (buildCfg m) [0..<nblocks m]
     \<lparr>sw_w = w, sw_running = locals (inStates w ! 0), sw_bps = replicate (numLocals m) [], sw_bpCount = 0\<rparr>"

lemma nblocks_pos: "code m \<noteq> [] \<Longrightarrow> 0 < nblocks m"
  using starts_0 by simp

lemma startWl_inv:
  assumes "code m \<noteq> []" and "dims m entry"
    and "seed m 0 entry (initWl (nblocks m) ds) = (True, w1)"
  shows "winv m (startWl m entry ds)" and "visited (startWl m entry ds) ! 0"
    and "inStates (startWl m entry ds) ! 0 = entry" and "wdiags (startWl m entry ds) = ds"
proof -
  have wf0: "wfw m (initWl (nblocks m) ds)" by (simp add: wfw_def initWl_def)
  have nv: "\<not> visited (initWl (nblocks m) ds) ! b" if "b < nblocks m" for b
    using that by (simp add: initWl_def)
  note e = seed_edge [OF wf0 nblocks_pos [OF assms(1)] assms(2) nv [OF nblocks_pos [OF assms(1)]] assms(3)]
  have sw: "startWl m entry ds = enq 0 w1" by (simp add: startWl_def assms(3))
  have wf: "wfw m (enq 0 w1)" using wfw_enq [OF e(1) nblocks_pos [OF assms(1)]] e(2) by simp
  have "winv m (enq 0 w1)"
    unfolding winv_def using wf e(4) nv unfolding wprog_def by auto
  then show "winv m (startWl m entry ds)" "visited (startWl m entry ds) ! 0"
    "inStates (startWl m entry ds) ! 0 = entry" using e(2) by (simp_all add: sw)
  show "wdiags (startWl m entry ds) = ds"
    using assms(3) by (auto simp: sw seed_def initWl_def Let_def split: if_splits)
qed

lemma stability_fold_Nil:
  "foldl (\<lambda>d h. sink_adds d (f h)) ds hs = [] \<longleftrightarrow> ds = [] \<and> (\<forall>h\<in>set hs. f h = [])"
  by (induction hs arbitrary: ds) auto

lemma typeCheck_Nil:
  assumes "code m \<noteq> []" and "dims m entry" and "typeCheck m ret entry ds = []"
  shows "ds = []" and "winv m (finalWl m ret entry ds)" and "queue (finalWl m ret entry ds) = []"
    and "visited (finalWl m ret entry ds) ! 0" and "sle entry (inStates (finalWl m ret entry ds) ! 0)"
    and "\<not> dead (finalWl m ret entry ds)"
    and "wdiags (sw_w (finalSweep m ret (finalWl m ret entry ds))) = []"
    and "h \<in> set (handlers m) \<Longrightarrow>
      stabilityDiags m (sw_bps (finalSweep m ret (finalWl m ret entry ds))) h = []"
proof -
  let ?w = "finalWl m ret entry ds" and ?sw = "finalSweep m ret (finalWl m ret entry ds)"
  obtain ok w1 where s: "seed m 0 entry (initWl (nblocks m) ds) = (ok, w1)" by fastforce
  have ok: "ok"
  proof (rule ccontr)
    assume "\<not> ok"
    then have "wdiags w1 = []" using assms(3) s by (simp add: typeCheck_def Let_def)
    moreover have "wdiags w1 \<noteq> []" using s \<open>\<not> ok\<close> by (auto simp: seed_def Let_def split: if_splits)
    ultimately show False by simp
  qed
  then have s: "seed m 0 entry (initWl (nblocks m) ds) = (True, w1)" using s by simp
  have w: "worklist m ret (buildCfg m) (enq 0 w1) = ?w" by (simp add: finalWl_def startWl_def s)
  have tc: "(if dead ?w then wdiags ?w
     else if dead (sw_w ?sw) then wdiags (sw_w ?sw)
     else foldl (\<lambda>d h. sink_adds d (stabilityDiags m (sw_bps ?sw) h)) (wdiags (sw_w ?sw)) (handlers m)) = []"
    using assms(3) by (simp only: typeCheck_def Let_def cfg_fields(1) s prod.case not_True_eq_False
        if_False w finalSweep_def)
  note st = startWl_inv [OF assms(1,2) s]
  have swD: "wdiags (sw_w ?sw) = []" if "\<not> dead ?w"
    using tc that by (simp add: stability_fold_Nil split: if_splits)
  have "wdiags ?w = []"
  proof (cases "dead ?w")
    case False
    then have "wdiags (sw_w ?sw) = []" by (rule swD)
    then show ?thesis using sprogD(3) [OF sprog_sweepBlocks] unfolding finalSweep_def by fastforce
  qed (use tc in simp)
  note wl = worklist_inv [OF st(1) this [unfolded finalWl_def], folded finalWl_def]
  show "ds = []" "winv m ?w" "queue ?w = []" "\<not> dead ?w" using wl st(4) by auto
  show "visited ?w ! 0" "sle entry (inStates ?w ! 0)"
    using wl(5) nblocks_pos [OF assms(1)] st by auto
  show sw: "wdiags (sw_w ?sw) = []" using swD wl(3) by simp
  have "swok ?sw" using sprogD(4) [OF sprog_sweepBlocks] wl(3) unfolding finalSweep_def by (simp add: swok_def)
  then have "\<not> dead (sw_w ?sw)" using sw by (rule swok_alive)
  then show "h \<in> set (handlers m) \<Longrightarrow> stabilityDiags m (sw_bps ?sw) h = []"
    using tc wl(3) by (simp add: stability_fold_Nil)
qed

lemma phase2_Nil:
  assumes "code m \<noteq> []" and "phase2 m ds = []"
  shows "ds = []" and "ins_op (last (code m)) < opCount \<Longrightarrow> \<not> canFallThrough (ins_op (last (code m)))"
    and "fst (parseParams (m_descriptor m) [])" and "rs_ok (scanMethodDesc (m_descriptor m))"
    and "(if isStatic m then 0 else 1) + length (snd (parseParams (m_descriptor m) [])) \<le> numLocals m"
    and "typeCheck m (scanMethodDesc (m_descriptor m))
      (entryState m (snd (parseParams (m_descriptor m) []))) [] = []"
proof -
  obtain pok params where pp: "parseParams (m_descriptor m) [] = (pok, params)" by fastforce
  let ?rs = "scanMethodDesc (m_descriptor m)" and ?lst = "last (code m)"
  define ds1 where "ds1 = (if ins_op ?lst < opCount \<and> canFallThrough (ins_op ?lst)
    then sink_add ds (vdiag (length (code m) - 1) M_FallOff) else ds)"
  have p: "(if \<not> pok then sink_add ds1 (vdiag 0 M_Descriptor)
     else if \<not> rs_ok ?rs then sink_add ds1 (vdiag 0 M_Descriptor)
     else if (if isStatic m then 0 else 1) + length params > numLocals m
       then sink_add ds1 (vdiag 0 (M_Params ((if isStatic m then 0 else 1) + length params) (numLocals m)))
     else typeCheck m ?rs (entryState m params) ds1) = []"
    using assms(2) by (simp only: phase2_def Let_def pp prod.case ds1_def)
  then have c: "pok" "rs_ok ?rs" "(if isStatic m then 0 else 1) + length params \<le> numLocals m"
    and t: "typeCheck m ?rs (entryState m params) ds1 = []"
    by (auto split: if_split_asm)
  have ds1: "ds1 = []" by (rule typeCheck_Nil(1) [OF assms(1) dims_entryState t])
  then show "ds = []" "ins_op ?lst < opCount \<Longrightarrow> \<not> canFallThrough (ins_op ?lst)"
    by (auto simp: ds1_def split: if_split_asm)
  show "fst (parseParams (m_descriptor m) [])" "rs_ok ?rs"
    "(if isStatic m then 0 else 1) + length (snd (parseParams (m_descriptor m) [])) \<le> numLocals m"
    "typeCheck m ?rs (entryState m (snd (parseParams (m_descriptor m) []))) [] = []"
    using c t by (simp_all add: pp ds1)
qed

lemma verify_ok_phases:
  assumes "vr_ok (verify m)"
  shows "length (code m) \<le> 4294967295" and "phase0 m [] = []"
    and "pc < length (code m) \<Longrightarrow> structDiags m pc (code m ! pc) = []"
    and "h \<in> set (handlers m) \<Longrightarrow> handlerDiags m h = []"
    and "code m \<noteq> [] \<Longrightarrow> phase2 m [] = []"
proof -
  let ?ds = "phase1b m (phase1 m (phase0 m []))"
  have v: "verifyImpl m = []" using assms by (simp add: verify_def Let_def)
  show len: "length (code m) \<le> 4294967295"
    using v by (simp add: verifyImpl_def split: if_splits)
  have e: "(if code m = [] \<or> sink_full ?ds then ?ds else phase2 m ?ds) = []"
    using v len by (simp add: verifyImpl_def Let_def)
  have ds: "?ds = []"
  proof (cases "code m = [] \<or> sink_full ?ds")
    case False
    then show ?thesis using e phase2_Nil(1) [of m ?ds] by simp
  qed (use e in simp)
  then show "phase0 m [] = []" "pc < length (code m) \<Longrightarrow> structDiags m pc (code m ! pc) = []"
    "h \<in> set (handlers m) \<Longrightarrow> handlerDiags m h = []"
    by (simp_all add: phase1_def phase1b_def phase1_from_Nil phase1b_from_Nil)
  show "code m \<noteq> [] \<Longrightarrow> phase2 m [] = []" using e ds by simp
qed

section \<open>The typing judgement from the checks\<close>

lemma info_sigs:
  "isReturnOp v \<Longrightarrow> op_sig (info v) = Sig_None \<or> op_sig (info v) = Sig_Reg"
  "v = Op_Getfield \<or> v = Op_Getstatic \<Longrightarrow> op_sig (info v) = Sig_RegRegCp \<or> op_sig (info v) = Sig_RegCp"
  "isInvokeOp v \<Longrightarrow> op_sig (info v) = Sig_Call"
  by (auto simp: isReturnOp_def isInvokeOp_def info_def opCount_def kOpInfo_def kOpInfo_defs)

lemma structDiags_Nil:
  "structDiags m pc i = [] \<longleftrightarrow>
    (let oi = info (ins_op i); ru = regUse (op_sig oi)
     in ins_op i < opCount \<and>
        (ru_dst ru \<longrightarrow> ins_dst i < numRegs m) \<and> (ru_a ru \<longrightarrow> ins_a i < numRegs m) \<and>
        (ru_b ru \<longrightarrow> ins_b i < numRegs m) \<and>
        ((op_sig oi = Sig_Call \<or> op_sig oi = Sig_CallQuick) \<and> ins_b i \<noteq> 0 \<and> ins_a i < numRegs m \<longrightarrow>
           ins_a i + ins_b i \<le> numRegs m) \<and>
        (op_sig oi = Sig_RegSlot \<or> op_sig oi = Sig_SlotReg \<longrightarrow> ins_imm i < numLocals m) \<and>
        (ins_op i = Op_NewArray \<longrightarrow> 4 \<le> ins_imm i \<and> ins_imm i \<le> 11) \<and>
        (sigUsesCpIndex (op_sig oi) \<or> ins_op i = Op_GuardClass \<longrightarrow>
           ins_imm i < length (cp m) \<and> cpKindOk (ins_op i) (c_kind (cp m ! ins_imm i))) \<and>
        (isBranchSig (op_sig oi) \<longrightarrow> ins_imm i < length (code m)) \<and>
        (op_sig oi = Sig_RegCpBranch \<longrightarrow> fst (snd (validateSwitch m pc i)) = []))"
proof -
  have split: "(if P then xs else ys) = [] \<longleftrightarrow> (P \<longrightarrow> xs = []) \<and> (\<not> P \<longrightarrow> ys = [])"
    for P and xs ys :: diags by simp
  show ?thesis
    unfolding structDiags_def regDiags_def cpDiags_def Let_def split append_is_Nil_conv list.distinct(2)
      not_le [symmetric] by blast
qed

lemma not_skipped: "structDiags m pc i = [] \<Longrightarrow> dims m S \<Longrightarrow> \<not> stepSkips i S"
  unfolding structDiags_Nil by (simp only: stepSkips_def dims_def Let_def) auto

lemma destWrite_desc:
  assumes "structDiags m pc i = []" and "snd (destWrite m pc i S True) = []"
  shows "insDescOk m i"
proof -
  have st: "sigUsesCpIndex (op_sig (info (ins_op i))) \<Longrightarrow>
      ins_imm i < length (cp m) \<and> cpKindOk (ins_op i) (c_kind (cp m ! ins_imm i))"
    using assms(1) unfolding structDiags_Nil Let_def by blast
  consider (field) "ins_op i = Op_Getfield \<or> ins_op i = Op_Getstatic"
    | (call) "isInvokeOp (ins_op i)"
    | (none) "\<not> isInvokeOp (ins_op i)" "\<not> (ins_op i = Op_Getfield \<or> ins_op i = Op_Getstatic)"
    by blast
  then show ?thesis
  proof cases
    case field
    then have c: "ins_imm i < length (cp m)" "cpKindOk (ins_op i) (c_kind (cp m ! ins_imm i))"
      "\<not> isInvokeOp (ins_op i)"
      using st info_sigs(2) [OF field] by (auto simp: sigUsesCpIndex_def isInvokeOp_def)
    then have "cpAt m (ins_imm i) (ins_op i) = Some (cp m ! ins_imm i)" by (simp add: cpAt_def)
    moreover have "c_kind (cp m ! ins_imm i) = K_FieldRef"
      using c(2) field by (auto simp: cpKindOk_def)
    ultimately show ?thesis
      using assms(2) field c by (simp add: insDescOk_def destWrite_def Let_def split: if_split_asm)
  next
    case call
    then have c: "ins_imm i < length (cp m)" "cpKindOk (ins_op i) (c_kind (cp m ! ins_imm i))"
      "\<not> (ins_op i = Op_Getfield \<or> ins_op i = Op_Getstatic)"
      using st info_sigs(3) [OF call] by (auto simp: sigUsesCpIndex_def isInvokeOp_def)
    then have "cpAt m (ins_imm i) (ins_op i) = Some (cp m ! ins_imm i)" by (simp add: cpAt_def)
    then show ?thesis
      using assms(2) call c unfolding insDescOk_def destWrite_def Let_def
      by (simp del: One_nat_def split: if_split_asm)
  next
    case none
    then show ?thesis by (simp add: insDescOk_def Let_def)
  qed
qed

lemma wtIns_checked:
  assumes "structDiags m pc (code m ! pc) = []" and "dims m S" and "stepDiags m ret pc S = []"
  shows "wtIns m ret (code m ! pc) S"
proof -
  let ?i = "code m ! pc" and ?oi = "info (ins_op (code m ! pc))"
  have d: "length (regs S) = numRegs m" "length (locals S) = numLocals m" using assms(2) by (auto simp: dims_def)
  note st = assms(1) [unfolded structDiags_Nil Let_def]
  have ck: "op_sig ?oi \<noteq> Sig_Call \<and> op_sig ?oi \<noteq> Sig_CallQuick \<longrightarrow> operandDiags pc ?oi (regUse (op_sig ?oi)) ?i S = []"
    "ins_op ?i = Op_Iinc \<and> ins_dst ?i < length (regs S) \<longrightarrow> isAssignable (regs S ! ins_dst ?i) RT_Int"
    "ins_op ?i \<noteq> Op_Iinc \<and> op_sig ?oi = Sig_RegSlot \<and> ins_imm ?i < length (locals S) \<and> op_result ?oi \<noteq> RT_Bottom
       \<longrightarrow> isAssignable (locals S ! ins_imm ?i) (op_result ?oi)"
    "ins_op ?i \<noteq> Op_Iinc \<and> op_sig ?oi \<noteq> Sig_RegSlot \<and> op_sig ?oi \<noteq> Sig_SlotReg \<longrightarrow>
       (isReturnOp (ins_op ?i) \<longrightarrow> returnAgrees ret (ins_op ?i)) \<and> snd (destWrite m pc ?i S True) = []"
    using assms(3) not_skipped [OF assms(1,2)] unfolding stepDiags_Nil Let_def by blast+
  have iinc: "op_sig (info Op_Iinc) = Sig_RegImm"
    by (simp add: info_def opCount_def kOpInfo_def kOpInfo_defs)
  have ret: "isReturnOp (ins_op ?i) \<longrightarrow> returnAgrees ret (ins_op ?i)"
  proof
    assume r: "isReturnOp (ins_op ?i)"
    then have "ins_op ?i \<noteq> Op_Iinc" "op_sig ?oi \<noteq> Sig_RegSlot" "op_sig ?oi \<noteq> Sig_SlotReg"
      using info_sigs(1) [OF r] by (auto simp: isReturnOp_def)
    then show "returnAgrees ret (ins_op ?i)" using ck(4) r by blast
  qed
  have desc: "insDescOk m ?i"
  proof (cases "isInvokeOp (ins_op ?i) \<or> ins_op ?i = Op_Getfield \<or> ins_op ?i = Op_Getstatic")
    case True
    then have "ins_op ?i \<noteq> Op_Iinc" "op_sig ?oi \<noteq> Sig_RegSlot" "op_sig ?oi \<noteq> Sig_SlotReg"
      using info_sigs(2,3) [of "ins_op ?i"] by (auto simp: isInvokeOp_def)
    then show ?thesis using ck(4) destWrite_desc [OF assms(1)] by blast
  next
    case False
    then show ?thesis by (simp add: insDescOk_def Let_def)
  qed
  have span: "op_sig ?oi = Sig_Call \<or> op_sig ?oi = Sig_CallQuick \<longrightarrow> ins_a ?i + ins_b ?i \<le> length (regs S)"
  proof
    assume c: "op_sig ?oi = Sig_Call \<or> op_sig ?oi = Sig_CallQuick"
    then have "ru_a (regUse (op_sig ?oi))" by auto
    then have a: "ins_a ?i < numRegs m" using st by blast
    then have "ins_b ?i \<noteq> 0 \<Longrightarrow> ins_a ?i + ins_b ?i \<le> numRegs m" using st c by blast
    then show "ins_a ?i + ins_b ?i \<le> length (regs S)" using a d by (cases "ins_b ?i = 0") simp_all
  qed
  have inc: "ins_op ?i = Op_Iinc \<longrightarrow> isAssignable (regs S ! ins_dst ?i) RT_Int"
  proof
    assume inc: "ins_op ?i = Op_Iinc"
    then have "ins_dst ?i < numRegs m" using st iinc by simp
    then show "isAssignable (regs S ! ins_dst ?i) RT_Int" using ck(2) inc d by simp
  qed
  have slot: "op_sig ?oi = Sig_RegSlot \<longrightarrow> ins_imm ?i < length (locals S) \<and>
      (op_result ?oi \<noteq> RT_Bottom \<longrightarrow> isAssignable (locals S ! ins_imm ?i) (op_result ?oi))"
  proof
    assume sl: "op_sig ?oi = Sig_RegSlot"
    then have "ins_op ?i \<noteq> Op_Iinc" using iinc by auto
    moreover have "ins_imm ?i < numLocals m" using st sl by blast
    ultimately show "ins_imm ?i < length (locals S) \<and>
      (op_result ?oi \<noteq> RT_Bottom \<longrightarrow> isAssignable (locals S ! ins_imm ?i) (op_result ?oi))"
      using ck(3) sl d by simp
  qed
  show ?thesis
    unfolding wtIns_def Let_def d
    using st ck(1) [unfolded operandDiags_Nil] ret desc span [unfolded d] inc slot [unfolded d] by blast
qed

section \<open>The verified states\<close>

definition methodRet :: "rmethod \<Rightarrow> ret_scan" where
  "methodRet m = scanMethodDesc (m_descriptor m)"

definition methodEntry :: "rmethod \<Rightarrow> flow_state" where
  "methodEntry m = entryState m (snd (parseParams (m_descriptor m) []))"

definition verifiedWl :: "rmethod \<Rightarrow> wl" where
  "verifiedWl m = finalWl m (methodRet m) (methodEntry m) []"

definition verifiedState :: "rmethod \<Rightarrow> nat \<Rightarrow> flow_state option" where
  "verifiedState m pc =
     (let b = blockOf (buildCfg m) ! pc
      in if pc < length (code m) \<and> visited (verifiedWl m) ! b
         then Some (stAt m (verifiedWl m) b pc) else None)"

lemma verifiedState_Some:
  assumes "verifiedState m pc = Some S"
  obtains b where "inBlock m b pc" and "visited (verifiedWl m) ! b" and "S = stAt m (verifiedWl m) b pc"
    and "b < nblocks m" and "pc < length (code m)"
  using assms that [of "blockOf (buildCfg m) ! pc"] inBlock_blockOf [of pc m] blockOf_less [of pc m]
  by (auto simp: verifiedState_def Let_def simp del: cfg_fields split: if_split_asm)

lemma verifiedState_inBlock:
  "inBlock m b pc \<Longrightarrow> visited (verifiedWl m) ! b \<Longrightarrow> verifiedState m pc = Some (stAt m (verifiedWl m) b pc)"
  by (simp add: verifiedState_def blockOf_inBlock inBlock_less del: cfg_fields)

lemma verifiedState_start:
  assumes "cov (verifiedWl m) (blockOf (buildCfg m) ! t) st" and "t < length (code m)" and "leaders m ! t"
  shows "\<exists>T. verifiedState m t = Some T \<and> sle st T"
proof -
  let ?b = "blockOf (buildCfg m) ! t"
  have "verifiedState m t = Some (stAt m (verifiedWl m) ?b t)"
    using verifiedState_inBlock [OF inBlock_blockOf [OF assms(2)]] assms(1) by (simp add: cov_def)
  moreover have "stAt m (verifiedWl m) ?b t = inStates (verifiedWl m) ! ?b"
    using blockOf_leader [OF assms(2,3)] by (simp add: stAt_def)
  ultimately show ?thesis using assms(1) by (simp add: cov_def)
qed

lemma verified_wl:
  assumes "vr_ok (verify m)" and "code m \<noteq> []"
  shows "wfw m (verifiedWl m)"
    and "b < nblocks m \<Longrightarrow> visited (verifiedWl m) ! b \<Longrightarrow> sat m (verifiedWl m) b"
    and "visited (verifiedWl m) ! 0" and "sle (methodEntry m) (inStates (verifiedWl m) ! 0)"
    and "\<not> dead (verifiedWl m)"
    and "wdiags (sw_w (finalSweep m (methodRet m) (verifiedWl m))) = []"
    and "h \<in> set (handlers m) \<Longrightarrow>
      stabilityDiags m (sw_bps (finalSweep m (methodRet m) (verifiedWl m))) h = []"
proof -
  have "typeCheck m (methodRet m) (methodEntry m) [] = []"
    using phase2_Nil(6) [OF assms(2) verify_ok_phases(5) [OF assms]] by (simp add: methodRet_def methodEntry_def)
  note t = typeCheck_Nil [OF assms(2) dims_entryState this [unfolded methodEntry_def],
      folded methodEntry_def verifiedWl_def]
  show "wfw m (verifiedWl m)" "b < nblocks m \<Longrightarrow> visited (verifiedWl m) ! b \<Longrightarrow> sat m (verifiedWl m) b"
    using t(2,3) by (simp_all add: winv_def)
  show "visited (verifiedWl m) ! 0" "sle (methodEntry m) (inStates (verifiedWl m) ! 0)"
    "\<not> dead (verifiedWl m)" "wdiags (sw_w (finalSweep m (methodRet m) (verifiedWl m))) = []"
    "h \<in> set (handlers m) \<Longrightarrow>
      stabilityDiags m (sw_bps (finalSweep m (methodRet m) (verifiedWl m))) h = []"
    using t by auto
qed

lemma verified_succ_range:
  assumes "vr_ok (verify m)" and "pc < length (code m)" and "t \<in> set (succPcs m pc)"
  shows "t < length (code m)"
proof -
  let ?i = "code m ! pc"
  have ne: "code m \<noteq> []" using assms(2) by auto
  note st = verify_ok_phases(3) [OF assms(1,2), unfolded structDiags_Nil Let_def]
  consider (fall) "canFallThrough (ins_op ?i)" "t = pc + 1"
    | (branch) "isBranchSig (op_sig (info (ins_op ?i)))" "t = ins_imm ?i"
    | (switch) "t \<in> set (switchTargets m pc ?i)"
    using assms(3) by (auto simp: succPcs_def Let_def split: if_splits)
  then show ?thesis
  proof cases
    case fall
    have "pc + 1 \<noteq> length (code m)"
    proof
      assume "pc + 1 = length (code m)"
      then have "pc = length (code m) - 1" by simp
      then have "?i = last (code m)" using ne by (simp add: last_conv_nth)
      then show False
        using phase2_Nil(2) [OF ne verify_ok_phases(5) [OF assms(1) ne]] fall st by simp
    qed
    then show ?thesis using fall assms(2) by simp
  next
    case branch
    then show ?thesis using st by blast
  next
    case switch
    then show ?thesis by (rule switchTargets_range)
  qed
qed

lemma verified_succ:
  assumes "vr_ok (verify m)" and "verifiedState m pc = Some S" and "t \<in> set (succPcs m pc)"
  shows "\<exists>T. verifiedState m t = Some T \<and> sle (flow m pc S) T"
proof -
  obtain b where b: "inBlock m b pc" "visited (verifiedWl m) ! b" "S = stAt m (verifiedWl m) b pc"
    "b < nblocks m" "pc < length (code m)" using verifiedState_Some [OF assms(2)] .
  have ne: "code m \<noteq> []" using b(5) by auto
  have op: "ins_op (code m ! pc) < opCount"
    using verify_ok_phases(3) [OF assms(1) b(5)] by (simp add: structDiags_Nil Let_def)
  have tn: "t < length (code m)" using verified_succ_range [OF assms(1) b(5) assms(3)] .
  have nxt: "flow m pc S = stAt m (verifiedWl m) b (pc + 1)"
    using b(1) by (simp add: b(3) stAt_def inBlock_def)
  consider (inner) "pc + 1 < blockEnd (blockStarts m) (length (code m)) b"
    | (last) "pc + 1 = blockEnd (blockStarts m) (length (code m)) b"
    using b(1) by (fastforce simp: inBlock_def)
  then show ?thesis
  proof cases
    case inner
    have "t = pc + 1" by (rule succPcs_inner [OF b(1) inner op assms(3)])
    moreover have "inBlock m b (pc + 1)" using inner b(1) by (simp add: inBlock_def)
    ultimately show ?thesis using verifiedState_inBlock b(2) nxt by auto
  next
    case last
    note sl = succPcs_last [OF b(1) last op assms(3) tn]
    have "cov (verifiedWl m) (blockOf (buildCfg m) ! t) (flow m pc S)"
      using verified_wl(2) [OF assms(1) ne b(4,2)] sl(1) blockOf_less [OF tn]
      unfolding sat_def nxt last by blast
    then show ?thesis using verifiedState_start tn sl(2) by blast
  qed
qed

lemma verified_handler:
  assumes "vr_ok (verify m)" and "h \<in> set (handlers m)"
  shows "\<not> badHandler m h" and "h_handler h < length (code m)"
  using verify_ok_phases(4) [OF assms] by (auto simp: handlerDiags_def badHandler_def Let_def split: if_split_asm)

lemma verified_exn:
  assumes "vr_ok (verify m)" and "verifiedState m pc = Some S" and "h \<in> set (handlers m)"
    and "h_start h \<le> pc" and "pc < h_end h"
  shows "\<exists>T. verifiedState m (h_handler h) = Some T \<and> sle (edgeState m (locals S)) T"
proof -
  obtain b where b: "inBlock m b pc" "visited (verifiedWl m) ! b" "S = stAt m (verifiedWl m) b pc"
    "b < nblocks m" "pc < length (code m)" using verifiedState_Some [OF assms(2)] .
  have ne: "code m \<noteq> []" using b(5) by auto
  note h = verified_handler [OF assms(1,3)]
  have "cov (verifiedWl m) (blockOf (buildCfg m) ! h_handler h) (edgeState m (locals S))"
    using verified_wl(2) [OF assms(1) ne b(4,2)] b(1,3) h assms(3-5)
    by (simp add: sat_def exnCov_def covers_def del: cfg_fields)
  then show ?thesis
    using verifiedState_start h(2) leaders_handler [OF assms(3) h(2)] by blast
qed

lemma verified_state:
  assumes "vr_ok (verify m)" and "verifiedState m pc = Some S"
  shows "pc < length (code m)" and "dims m S" and "wtIns m (methodRet m) (code m ! pc) S"
proof -
  obtain b where b: "inBlock m b pc" "visited (verifiedWl m) ! b" "S = stAt m (verifiedWl m) b pc"
    "b < nblocks m" "pc < length (code m)" using verifiedState_Some [OF assms(2)] .
  have ne: "code m \<noteq> []" using b(5) by auto
  show "pc < length (code m)" by (rule b(5))
  show d: "dims m S" using verified_wl(1) [OF assms(1) ne] b by (simp add: stAt_def wfw_def)
  let ?start = "\<lparr>sw_w = verifiedWl m, sw_running = locals (inStates (verifiedWl m) ! 0),
    sw_bps = replicate (numLocals m) [], sw_bpCount = 0\<rparr>"
  have "swok ?start" using verified_wl(5) [OF assms(1) ne] by (simp add: swok_def)
  then have "stepDiags m (methodRet m) pc S = []"
    using sweepBlocks_checks [OF _ verified_wl(6) [OF assms(1) ne, unfolded finalSweep_def], of b pc] b by simp
  then show "wtIns m (methodRet m) (code m ! pc) S"
    using wtIns_checked verify_ok_phases(3) [OF assms(1) b(5)] d by blast
qed

section \<open>Protected ranges\<close>

lemma verified_protected:
  assumes "vr_ok (verify m)" and h: "h \<in> set (handlers m)"
    and p: "verifiedState m p = Some S" "h_start h \<le> p" "p < h_end h"
    and q: "verifiedState m q = Some T" "h_start h \<le> q" "q < h_end h"
  shows "locals S = locals T"
proof (rule nth_equalityI)
  have d: "dims m S" "dims m T" using verified_state(2) [OF assms(1)] p(1) q(1) by auto
  then show "length (locals S) = length (locals T)" by (simp add: dims_def)
  fix i assume "i < length (locals S)"
  then have i: "i < numLocals m" using d by (simp add: dims_def)
  let ?w = "verifiedWl m"
  let ?ini = "locals (inStates ?w ! 0)"
  let ?start = "\<lparr>sw_w = ?w, sw_running = ?ini, sw_bps = replicate (numLocals m) [], sw_bpCount = 0\<rparr>"
  let ?sw = "finalSweep m (methodRet m) ?w"
  obtain b where b: "inBlock m b p" "visited ?w ! b" "S = stAt m ?w b p" "b < nblocks m" "p < length (code m)"
    using verifiedState_Some [OF p(1)] .
  obtain c where c: "inBlock m c q" "visited ?w ! c" "T = stAt m ?w c q"
    using verifiedState_Some [OF q(1)] .
  have ne: "code m \<noteq> []" and hs: "handlers m \<noteq> []" using b(5) h by auto
  note v = verified_wl [OF assms(1) ne]
  have lens: "visited ?w ! k \<Longrightarrow> k < nblocks m \<Longrightarrow> length (locals (inStates ?w ! k)) = numLocals m" for k
    using v(1) by (simp add: wfw_def dims_def)
  have ini: "length ?ini = numLocals m" using lens v(3) nblocks_pos [OF ne] by blast
  have chg0: "chg ?ini 0 ?start" by (simp add: chg_def ini)
  have ok0: "swok ?start" using v(5) by (simp add: swok_def)
  note sb = sweepBlocks_chg [OF hs _ chg0 _ _ ok0 v(6) [unfolded finalSweep_def], folded finalSweep_def]
  have "(\<exists>Q. chg ?ini Q ?sw) \<and> described ?ini ?sw p S \<and> described ?ini ?sw q T"
    using sb lens ini b c by simp
  then obtain Q where Q: "chg ?ini Q ?sw" "described ?ini ?sw p S" "described ?ini ?sw q T" by blast
  have bp: "i < length (sw_bps ?sw)" "sorted (map fst (sw_bps ?sw ! i))"
    using Q(1) i ini by (auto simp: chg_def)
  have "\<forall>e\<in>set (sw_bps ?sw ! i). h_start h < fst e \<longrightarrow> h_end h \<le> fst e"
    using stabilityDiags_Nil [OF v(7) [OF h] verified_handler(1) [OF assms(1) h] bp] by blast
  then show "locals S ! i = locals T ! i"
    using described_stable [OF Q(2,3)] i ini p q by simp
qed

section \<open>Soundness\<close>

lemma verified_wellTyped:
  assumes "vr_ok (verify m)" and "code m \<noteq> []"
  shows "wellTyped m (methodRet m) (methodEntry m) (verifiedState m)"
proof -
  have "inBlock m 0 0"
    using inBlock_start [of 0 m] starts_0 [OF assms(2)] by simp
  then have "verifiedState m 0 = Some (inStates (verifiedWl m) ! 0)"
    using verifiedState_inBlock [of m 0 0] verified_wl(3) [OF assms] starts_0 [OF assms(2)] by (simp add: stAt_def)
  then show ?thesis
    unfolding wellTyped_def
    using verified_wl(4) [OF assms] verified_state [OF assms(1)] verified_succ [OF assms(1)]
      verified_exn [OF assms(1)] by blast
qed

text \<open>A well-typed state assignment covers every abstract state that reaches a pc.\<close>

lemma wellTyped_reach:
  assumes "wellTyped m ret entry \<Phi>" and "reach m entry pc S"
  shows "\<exists>T. \<Phi> pc = Some T \<and> sle S T"
  using assms(2)
proof induction
  case entry
  then show ?case using assms(1) unfolding wellTyped_def by blast
next
  case (normal pc S t)
  then obtain T where T: "\<Phi> pc = Some T" "sle S T" by blast
  then obtain U where "\<Phi> t = Some U" "sle (flow m pc T) U"
    using assms(1) normal(2) unfolding wellTyped_def by blast
  then show ?case using sle_trans [OF sle_flow [OF T(2)]] by blast
next
  case (exceptional pc S h)
  then obtain T where T: "\<Phi> pc = Some T" "sle S T" by blast
  then obtain U where "\<Phi> (h_handler h) = Some U" "sle (edgeState m (locals T)) U"
    using assms(1) exceptional(2-4) unfolding wellTyped_def by blast
  moreover have "sle (edgeState m (locals S)) (edgeState m (locals T))"
    using T(2) by (intro sle_edgeState) (simp add: sle_def)
  ultimately show ?case using sle_trans by blast
qed

text \<open>The judgement is closed under more precise states.\<close>

lemma wtIns_mono:
  assumes "sle S T" and "wtIns m ret i T"
  shows "wtIns m ret i S"
proof -
  have len: "length (regs T) = length (regs S)" "length (locals T) = length (locals S)"
    using sle_length [OF assms(1)] by auto
  have inc: "ins_op i = Op_Iinc \<Longrightarrow> ins_dst i < length (regs S)"
  proof -
    assume "ins_op i = Op_Iinc"
    moreover have "op_sig (info Op_Iinc) = Sig_RegImm"
      by (simp add: info_def opCount_def kOpInfo_def kOpInfo_defs)
    ultimately show "ins_dst i < length (regs S)" using assms(2) len by (simp add: wtIns_def Let_def)
  qed
  show ?thesis
    using assms(2) inc operand_check_mono [OF assms(1)] local_check_mono [OF assms(1)]
    unfolding wtIns_def Let_def len by (metis (no_types, lifting) rtype.distinct(1))
qed

end
