(* ===== verification/Rbc_Switch.thy ===== *)
theory Rbc_Switch
  imports Rbc_Sound
begin

text \<open>
  Switch dispatch of the T0 interpreter (\<open>compiler/interp/src/Interp.cpp\<close>, the
  \<open>Tableswitch\<close> and \<open>Lookupswitch\<close> targets) against the payload the verifier accepted. The
  interpreter indexes the table without bounds checks; the model returns \<open>None\<close> where the
  vector would be read out of range.
\<close>

definition tblAt :: "int list \<Rightarrow> nat \<Rightarrow> int option" where
  "tblAt tbl k = (if k < length tbl then Some (tbl ! k) else None)"

definition cast_u32 :: "int \<Rightarrow> nat" where
  "cast_u32 t = nat (t mod 2 ^ 32)"

definition tableswitchTarget :: "int list \<Rightarrow> int \<Rightarrow> nat option" where
  "tableswitchTarget tbl sel =
     Option.bind (tblAt tbl 0) (\<lambda>low. Option.bind (tblAt tbl 1) (\<lambda>high.
       Option.bind (tblAt tbl 2) (\<lambda>dflt.
         if low \<le> sel \<and> sel \<le> high
         then map_option cast_u32 (tblAt tbl (3 + nat (sel - low)))
         else Some (cast_u32 dflt))))"

fun lookupScan :: "int list \<Rightarrow> int \<Rightarrow> nat \<Rightarrow> nat list \<Rightarrow> nat option" where
  "lookupScan tbl sel dflt [] = Some dflt"
| "lookupScan tbl sel dflt (i # is) =
     (case tblAt tbl (2 + 2 * i) of
        None \<Rightarrow> None
      | Some v \<Rightarrow>
          if v = sel then map_option cast_u32 (tblAt tbl (3 + 2 * i))
          else lookupScan tbl sel dflt is)"

definition lookupswitchTarget :: "int list \<Rightarrow> int \<Rightarrow> nat option" where
  "lookupswitchTarget tbl sel =
     Option.bind (tblAt tbl 1) (\<lambda>dflt. Option.bind (tblAt tbl 0) (\<lambda>n.
       lookupScan tbl sel (cast_u32 dflt) [0..<(if n > 0 then nat n else 0)]))"

definition switchTarget :: "rmethod \<Rightarrow> ins \<Rightarrow> int \<Rightarrow> nat option" where
  "switchTarget m i sel =
     (let tbl = c_ints (cp m ! ins_imm i)
      in if ins_op i = Op_Tableswitch then tableswitchTarget tbl sel
         else lookupswitchTarget tbl sel)"

section \<open>Accepted payloads\<close>

lemma sw_fold_eq:
  "fst (snd (foldl (\<lambda>r x. sw_seq r (f x)) r xs)) = fst (snd r) @ concat (map (\<lambda>x. fst (snd (f x))) xs)"
  "snd (snd (foldl (\<lambda>r x. sw_seq r (f x)) r xs)) = snd (snd r) @ concat (map (\<lambda>x. snd (snd (f x))) xs)"
  by (induction xs arbitrary: r) (auto simp: sw_seq_def)

lemma switchTargetOk_Nil:
  "fst (snd (switchTargetOk m pc t)) = [] \<longleftrightarrow> 0 \<le> t \<and> nat t < length (code m)"
  by (auto simp: switchTargetOk_def)

lemma switchTargetOk_targets:
  "0 \<le> t \<Longrightarrow> nat t < length (code m) \<Longrightarrow> snd (snd (switchTargetOk m pc t)) = [nat t]"
  by (simp add: switchTargetOk_def)

lemma cast_u32_id: "0 \<le> t \<Longrightarrow> nat t < n \<Longrightarrow> n \<le> 4294967295 \<Longrightarrow> cast_u32 t = nat t"
  by (simp add: cast_u32_def)

lemma validateTable_accepts:
  assumes "fst (snd (validateTable m pc v)) = []"
  shows "3 \<le> length v" and "v ! 0 \<le> v ! 1" and "int (length v) = 3 + (v ! 1 - v ! 0) + 1"
    and "2 \<le> k \<Longrightarrow> k < length v \<Longrightarrow>
      0 \<le> v ! k \<and> nat (v ! k) < length (code m) \<and> nat (v ! k) \<in> set (snd (snd (validateTable m pc v)))"
proof -
  let ?f = "foldl (\<lambda>r t. sw_seq r (switchTargetOk m pc t)) (True, [], []) (drop 2 v)"
  have len: "\<not> length v < 3" "\<not> v ! 1 < v ! 0" "\<not> 3 + (v ! 1 - v ! 0) + 1 \<noteq> int (length v)"
    using assms by (auto simp: validateTable_def Let_def split: if_split_asm)
  then show "3 \<le> length v" "v ! 0 \<le> v ! 1" "int (length v) = 3 + (v ! 1 - v ! 0) + 1" by auto
  have eq: "validateTable m pc v = ?f"
    unfolding validateTable_def Let_def if_not_P [OF len(1)] if_not_P [OF len(2)] if_not_P [OF len(3)] by simp
  assume k: "2 \<le> k" "k < length v"
  then obtain j where "k = 2 + j" using le_Suc_ex by blast
  then have mem: "v ! k \<in> set (drop 2 v)"
    using k nth_mem [of j "drop 2 v"] by simp
  then have ok: "0 \<le> v ! k \<and> nat (v ! k) < length (code m)"
    using assms unfolding eq sw_fold_eq switchTargetOk_Nil [symmetric, of _ m pc] by auto
  moreover have "nat (v ! k) \<in> set (snd (snd (validateTable m pc v)))"
    unfolding eq sw_fold_eq using mem ok switchTargetOk_targets [of "v ! k" m pc] by force
  ultimately show "0 \<le> v ! k \<and> nat (v ! k) < length (code m) \<and>
    nat (v ! k) \<in> set (snd (snd (validateTable m pc v)))" by blast
qed

lemma validateLookup_accepts:
  assumes "fst (snd (validateLookup m pc v)) = []"
  shows "0 \<le> v ! 0" and "length v = 2 + 2 * nat (v ! 0)"
    and "i < nat (v ! 0) \<Longrightarrow> 0 < i \<Longrightarrow> v ! (2 + 2 * (i - 1)) < v ! (2 + 2 * i)"
    and "k = 1 \<or> (\<exists>i < nat (v ! 0). k = 3 + 2 * i) \<Longrightarrow>
      0 \<le> v ! k \<and> nat (v ! k) < length (code m) \<and> nat (v ! k) \<in> set (snd (snd (validateLookup m pc v)))"
proof -
  let ?f = "foldl (\<lambda>r i. sw_seq r (lookupEntry m pc v i)) (True, [], []) [0..<nat (v ! 0)]"
  have len: "\<not> length v < 2" "\<not> (v ! 0 < 0 \<or> 2 + 2 * (v ! 0) \<noteq> int (length v))"
    using assms by (auto simp: validateLookup_def Let_def split: if_split_asm)
  then show "0 \<le> v ! 0" "length v = 2 + 2 * nat (v ! 0)" by auto
  have eq: "validateLookup m pc v = sw_seq ?f (switchTargetOk m pc (v ! 1))"
    unfolding validateLookup_def Let_def if_not_P [OF len(1)] if_not_P [OF len(2)] by (rule refl)
  have ent: "fst (snd (lookupEntry m pc v i)) = []" if "i < nat (v ! 0)" for i
    using assms that unfolding eq sw_seq_def [of ?f] by (simp add: sw_fold_eq)
  show "i < nat (v ! 0) \<Longrightarrow> 0 < i \<Longrightarrow> v ! (2 + 2 * (i - 1)) < v ! (2 + 2 * i)"
    using ent [of i] by (simp add: lookupEntry_def sw_seq_def split: if_split_asm)
  have ok: "0 \<le> v ! (3 + 2 * i) \<and> nat (v ! (3 + 2 * i)) < length (code m)" if "i < nat (v ! 0)" for i
    using ent [OF that] switchTargetOk_Nil [of m pc "v ! (3 + 2 * i)"] by (simp add: lookupEntry_def sw_seq_def)
  have dok: "0 \<le> v ! 1 \<and> nat (v ! 1) < length (code m)"
    using assms switchTargetOk_Nil [of m pc "v ! 1"] unfolding eq sw_seq_def [of ?f] by simp
  have tgt: "snd (snd (lookupEntry m pc v i)) = [nat (v ! (3 + 2 * i))]" if "i < nat (v ! 0)" for i
    using ok [OF that] switchTargetOk_targets [of "v ! (3 + 2 * i)" m pc] by (simp add: lookupEntry_def sw_seq_def)
  assume "k = 1 \<or> (\<exists>i < nat (v ! 0). k = 3 + 2 * i)"
  then show "0 \<le> v ! k \<and> nat (v ! k) < length (code m) \<and>
    nat (v ! k) \<in> set (snd (snd (validateLookup m pc v)))"
  proof
    assume "k = 1"
    then show ?thesis using dok switchTargetOk_targets [of "v ! 1" m pc] unfolding eq sw_seq_def [of ?f] by simp
  next
    assume "\<exists>i < nat (v ! 0). k = 3 + 2 * i"
    then obtain i where i: "i < nat (v ! 0)" "k = 3 + 2 * i" by blast
    then have "nat (v ! k) \<in> set (snd (snd ?f))"
      unfolding sw_fold_eq using tgt [OF i(1)] by (auto intro!: bexI [of _ i])
    then show ?thesis using ok i unfolding eq sw_seq_def [of ?f] by simp
  qed
qed

lemma switch_ops:
  assumes "v < opCount" and "op_sig (info v) = Sig_RegCpBranch"
  shows "v = Op_Tableswitch \<or> v = Op_Lookupswitch"
proof -
  have "list_all (\<lambda>(v, oi). op_sig oi = Sig_RegCpBranch \<longrightarrow> v = Op_Tableswitch \<or> v = Op_Lookupswitch)
      (enumerate 0 kOpInfo)"
    by code_simp
  moreover have "(v, kOpInfo ! v) \<in> set (enumerate 0 kOpInfo)"
    using assms(1) by (simp add: in_set_enumerate_eq)
  ultimately show ?thesis using assms by (auto simp: list_all_iff info_def)
qed

section \<open>Dispatch\<close>

lemma tableswitchTarget_ok:
  assumes "fst (snd (validateTable m pc v)) = []" and "length (code m) \<le> 4294967295"
  shows "\<exists>t. tableswitchTarget v sel = Some t \<and> t \<in> set (snd (snd (validateTable m pc v)))"
proof -
  note a = validateTable_accepts [OF assms(1)]
  have c: "cast_u32 (v ! k) = nat (v ! k)" if "2 \<le> k" "k < length v" for k
    using a(4) [OF that] cast_u32_id assms(2) by blast
  show ?thesis
  proof (cases "v ! 0 \<le> sel \<and> sel \<le> v ! 1")
    case True
    then have k: "3 + nat (sel - v ! 0) < length v" using a(3) by linarith
    moreover from k have "v \<noteq> []" by auto
    ultimately show ?thesis
      using True a(1) a(4) [OF _ k] c [OF _ k] by (simp add: tableswitchTarget_def tblAt_def)
  next
    case False
    then show ?thesis using a(1) a(4) [of 2] c [of 2] by (auto simp: tableswitchTarget_def tblAt_def)
  qed
qed

lemma lookupScan_ok:
  assumes "\<And>i. i \<in> set is \<Longrightarrow> 3 + 2 * i < length tbl"
  shows "lookupScan tbl sel dflt is =
    Some (case filter (\<lambda>i. tbl ! (2 + 2 * i) = sel) is of
            [] \<Rightarrow> dflt | i # _ \<Rightarrow> cast_u32 (tbl ! (3 + 2 * i)))"
  using assms
proof (induction "is")
  case (Cons i "is")
  have i: "2 + 2 * i < length tbl" "3 + 2 * i < length tbl" using Cons.prems [of i] by auto
  have "lookupScan tbl sel dflt (i # is) =
      (if tbl ! (2 + 2 * i) = sel then Some (cast_u32 (tbl ! (3 + 2 * i))) else lookupScan tbl sel dflt is)"
    using i by (simp only: lookupScan.simps tblAt_def if_True option.case option.map)
  then show ?case using Cons by (simp del: lookupScan.simps)
qed simp

lemma lookupswitchTarget_ok:
  assumes "fst (snd (validateLookup m pc v)) = []" and "length (code m) \<le> 4294967295"
  shows "\<exists>t. lookupswitchTarget v sel = Some t \<and> t \<in> set (snd (snd (validateLookup m pc v)))"
proof -
  note a = validateLookup_accepts [OF assms(1)]
  have c: "cast_u32 (v ! k) \<in> set (snd (snd (validateLookup m pc v)))"
    if "k = 1 \<or> (\<exists>i < nat (v ! 0). k = 3 + 2 * i)" for k
    using a(4) [OF that] cast_u32_id assms(2) by metis
  let ?fs = "filter (\<lambda>i. v ! (2 + 2 * i) = sel) [0..<nat (v ! 0)]"
  have "lookupswitchTarget v sel = lookupScan v sel (cast_u32 (v ! 1)) [0..<nat (v ! 0)]"
    using a(1,2) by (auto simp: lookupswitchTarget_def tblAt_def)
  also have "\<dots> = Some (case ?fs of [] \<Rightarrow> cast_u32 (v ! 1) | i # _ \<Rightarrow> cast_u32 (v ! (3 + 2 * i)))"
    using a(2) by (intro lookupScan_ok) auto
  finally have eq: "lookupswitchTarget v sel = \<dots>" .
  show ?thesis
  proof (cases ?fs)
    case Nil
    then show ?thesis using eq c [of 1] by simp
  next
    case (Cons i "is")
    then have "i \<in> set ?fs" by simp
    then have "i < nat (v ! 0)" by simp
    then show ?thesis using eq c [of "3 + 2 * i"] Cons by auto
  qed
qed

lemma verified_switch:
  assumes "vr_ok (verify m)" and "pc < length (code m)"
    and "op_sig (info (ins_op (code m ! pc))) = Sig_RegCpBranch"
  shows "\<exists>t. switchTarget m (code m ! pc) sel = Some t \<and> t < length (code m) \<and> t \<in> set (succPcs m pc)"
proof -
  let ?i = "code m ! pc"
  let ?v = "c_ints (cp m ! ins_imm ?i)"
  note st = verify_ok_phases(3) [OF assms(1,2), unfolded structDiags_Nil Let_def]
  note len = verify_ok_phases(1) [OF assms(1)]
  have cp: "ins_imm ?i < length (cp m)" "c_kind (cp m ! ins_imm ?i) = K_SwitchTable"
    and nil: "fst (snd (validateSwitch m pc ?i)) = []"
    using st assms(3) switch_ops [of "ins_op ?i"] by (auto simp: sigUsesCpIndex_def cpKindOk_def)
  have "\<exists>t. switchTarget m ?i sel = Some t \<and> t \<in> set (switchTargets m pc ?i)"
    using nil cp tableswitchTarget_ok [OF _ len, of pc ?v sel] lookupswitchTarget_ok [OF _ len, of pc ?v sel]
    by (cases "ins_op ?i = Op_Tableswitch")
      (simp_all add: switchTarget_def switchTargets_def validateSwitch_def Let_def)
  then show ?thesis
    using switchTargets_range assms(3) by (auto simp: succPcs_def Let_def)
qed

end
