(* ===== verification/Rbc_Example.thy ===== *)
theory Rbc_Example
  imports Rbc_Switch
begin

text \<open>
  A concrete method, a loop through a switch under an exception handler, evaluated through every
  phase of the verifier. The instances of the verifier's theorems are taken at it.
\<close>

section \<open>The method\<close>

abbreviation (input) mk :: "op \<Rightarrow> nat \<Rightarrow> nat \<Rightarrow> nat \<Rightarrow> nat \<Rightarrow> ins" where
  "mk v d a b i \<equiv> \<lparr>ins_op = v, ins_dst = d, ins_a = a, ins_b = b, ins_imm = i\<rparr>"

abbreviation (input) fs :: "rtype list \<Rightarrow> rtype list \<Rightarrow> flow_state" where
  "fs rs ls \<equiv> \<lparr>regs = rs, locals = ls\<rparr>"

definition sample_table :: const where
  "sample_table = \<lparr>c_kind = K_SwitchTable, c_i32 = 0, c_i64 = 0, c_f32 = 0, c_f64 = 0, c_str = [],
     c_str2 = [], c_str3 = [], c_ints = [0, 0, 0, 0]\<rparr>"

definition sample :: rmethod where
  "sample = \<lparr>m_name = ''f'', m_descriptor = ''(I)V'', m_flags = 8, numRegs = 1, numLocals = 1,
     code = [mk Op_Iload 0 0 0 0, mk Op_Tableswitch 0 0 0 0], cp = [sample_table],
     handlers = [\<lparr>h_start = 0, h_end = 2, h_handler = 0, h_catchType = -1\<rparr>]\<rparr>"

lemma sample_fields [simp]:
  "m_descriptor sample = ''(I)V''" "m_flags sample = 8" "numRegs sample = 1" "numLocals sample = 1"
  "code sample = [mk Op_Iload 0 0 0 0, mk Op_Tableswitch 0 0 0 0]"
  "cp sample = [sample_table]" "c_kind sample_table = K_SwitchTable" "c_ints sample_table = [0, 0, 0, 0]"
  "handlers sample = [\<lparr>h_start = 0, h_end = 2, h_handler = 0, h_catchType = -1\<rparr>]"
  by (simp_all add: sample_def sample_table_def)

lemma sample_info:
  "info Op_Iload = op_row ''iload'' Sig_RegSlot RT_Int RT_Bottom RT_Bottom Eff_None"
  "info Op_Tableswitch = op_row ''tableswitch'' Sig_RegCpBranch RT_Bottom RT_Int RT_Bottom kB"
  by (simp_all add: info_def kOpInfo_def kOpInfo_defs opCount_def)

abbreviation (input) sample_ret :: ret_scan where
  "sample_ret \<equiv> \<lparr>rs_ok = True, rs_isVoid = True, rs_type = RT_Bottom\<rparr>"

lemma sample_descriptor:
  "parseParams ''(I)V'' [] = (True, [RT_Int])" "scanMethodDesc ''(I)V'' = sample_ret"
  by (simp_all add: parseParams_def walkParams_def walkParamsFrom.simps parseTypeAt.simps
      collectParams.simps scanMethodDesc_def scanParams.simps scanField_def)

lemma sample_flags: "isStatic sample" "\<not> isAbstract sample"
  by (simp_all add: isStatic_def isAbstract_def flag_Static_def flag_Abstract_def)

section \<open>Structure and blocks\<close>

lemma sample_switch: "validateSwitch sample (Suc 0) (mk Op_Tableswitch 0 0 0 0) = (True, [], [0, 0])"
  by (simp add: validateSwitch_def validateTable_def switchTargetOk_def sw_seq_def Let_def)

lemma sample_structure: "phase1b sample (phase1 sample (phase0 sample [])) = []"
  by (simp add: phase0_def phase1_def phase1b_def sample_flags sink_adds_def kMaxU16_def
      structDiags_def sample_info sample_switch opCount_def regDiags_def cpDiags_def cpKindOk_def
      sigUsesCpIndex_def isBranchSig_def sink_full_def kMaxDiags_def handlerDiags_def Let_def)

lemma sample_leaders: "leaders sample = [True, False]"
  by (simp add: leaders_def leadersOf_def sample_info opCount_def isBranchSig_def terminatorIns_def
      isReturnOp_def switchTargets_def sample_switch markLeaders_def Let_def)

lemma sample_cfg: "buildCfg sample = \<lparr>starts = [0], blockOf = [0, 0], succs = [[0]]\<rparr>"
  by (simp add: buildCfg_def blockStarts_def sample_leaders blockOfTable_def blockEnd_def blockSucc_def
      canFallThrough_def addSucc_def sample_info opCount_def isBranchSig_def switchTargets_def
      sample_switch Let_def upt_rec)

section \<open>Dataflow\<close>

abbreviation (input) sample_wl :: "bool \<Rightarrow> nat list \<Rightarrow> nat \<Rightarrow> wl" where
  "sample_wl iq q k \<equiv> \<lparr>inStates = [fs [RT_Bottom] [RT_Int]], visited = [True], inQueue = [iq], queue = q,
     ops = k, dead = False, stateSlots = 2, wdiags = []\<rparr>"

lemma tick_live: "ops w < 1073741823 \<Longrightarrow> tick w = w\<lparr>ops := Suc (ops w)\<rparr>"
  by (simp add: tick_def kOpBudget_def)

lemma sample_step:
  "stepIns sample sample_ret pc (mk Op_Iload 0 0 0 0) (fs [x] [RT_Int]) e = (fs [RT_Int] [RT_Int], [], None)"
  "stepIns sample sample_ret pc (mk Op_Tableswitch 0 0 0 0) (fs [RT_Int] ls) e = (fs [RT_Int] ls, [], None)"
  by (simp_all add: stepIns_def sample_info opCount_def setDst_def operandDiags_def isAssignable_def
      destWrite_def isInvokeOp_def isReturnOp_def Let_def)

lemma sample_start:
  "startWl sample (fs [RT_Bottom] [RT_Int]) [] = sample_wl True [0] 0"
  using arg_cong [OF sample_cfg, of starts]
  by (simp add: startWl_def seed_def initWl_def enq_def kMaxStateSlots_def Let_def)

lemma sample_block: "blockPcs sample (buildCfg sample) 0 = [0, Suc 0]"
  by (simp add: sample_cfg blockPcs_def blockEnd_def upt_rec)

lemma sample_process:
  "processBlock sample sample_ret (buildCfg sample) (sample_wl True [0] 0) = sample_wl False [] 12"
  unfolding processBlock_def sample_cfg
  by (simp add: sample_block [unfolded sample_cfg] sample_step tick_live ticks_def badHandler_def joinHandler_def joinInto_def
      join_def Let_def)

lemma sample_fixpoint: "finalWl sample sample_ret (fs [RT_Bottom] [RT_Int]) [] = sample_wl False [] 12"
  unfolding finalWl_def sample_start
  by (subst worklist.simps) (simp add: sample_process worklist.simps sink_full_def kMaxDiags_def)

lemma sample_sweep:
  "sweepBlocks sample sample_ret (buildCfg sample) [0]
     \<lparr>sw_w = sample_wl False [] 12, sw_running = [RT_Int], sw_bps = [[]], sw_bpCount = 0\<rparr> =
   \<lparr>sw_w = sample_wl False [] 14, sw_running = [RT_Int], sw_bps = [[]], sw_bpCount = 0\<rparr>"
  unfolding sample_cfg
  by (simp add: sample_block [unfolded sample_cfg] sink_full_def kMaxDiags_def recordChange_def
      sweepIns_def tick_live sample_step sink_adds_def Let_def)

lemma sample_entry: "entryState sample [RT_Int] = fs [RT_Bottom] [RT_Int]"
  by (simp add: entryState_def sample_flags)

lemma sample_stable: "stabilityDiags sample [[]] h = []"
  by (simp add: stabilityDiags_def firstAfter.simps Let_def)

lemma sample_typeCheck: "typeCheck sample sample_ret (fs [RT_Bottom] [RT_Int]) [] = []"
proof -
  have s: "seed sample 0 (fs [RT_Bottom] [RT_Int]) (initWl 1 []) =
      (True, (sample_wl False [] 0))"
    by (simp add: seed_def initWl_def kMaxStateSlots_def Let_def)
  have w: "worklist sample sample_ret (buildCfg sample) (enq 0 (sample_wl False [] 0)) = sample_wl False [] 12"
    using sample_fixpoint unfolding finalWl_def sample_start by (simp add: enq_def)
  have "length (starts (buildCfg sample)) = 1" by (simp only: sample_cfg) simp
  then show ?thesis
    unfolding typeCheck_def Let_def
    using sample_sweep by (simp add: s [simplified] w sample_stable sink_adds_def del: cfg_fields)
qed

lemma sample_ok: "vr_ok (verify sample)"
  by (simp add: verify_def verifyImpl_def sample_structure phase2_def sample_descriptor sample_flags
      sample_entry sample_typeCheck canFallThrough_def Let_def)

end
