(* ===== verification/Rbc_Verified.thy ===== *)
theory Rbc_Verified
  imports Rbc_Example
begin

text \<open>
  What acceptance by the bytecode verifier guarantees, and what it promises on every input: the
  properties of \<open>verify\<close>, each with its instance at the sample method.
\<close>

section \<open>The diagnostic list is bounded\<close>

definition capped :: "diags \<Rightarrow> bool" where
  "capped ds \<longleftrightarrow> length ds \<le> kMaxDiags"

named_theorems capped_intros \<open>operations that keep the diagnostic list within the cap\<close>

lemma capped_Nil [capped_intros]: "capped []"
  by (simp add: capped_def)

lemma capped_add [capped_intros]: "capped ds \<Longrightarrow> capped (sink_add ds d)"
  by (simp add: capped_def sink_add_def)

lemma capped_adds [capped_intros]: "capped ds \<Longrightarrow> capped (sink_adds ds new)"
  unfolding sink_adds_def by (induction new arbitrary: ds) (auto intro: capped_add)

lemma capped_tick [capped_intros]: "capped (wdiags w) \<Longrightarrow> capped (wdiags (tick w))"
  by (simp add: tick_def capped_intros)

lemma capped_ticks [capped_intros]: "capped (wdiags w) \<Longrightarrow> capped (wdiags (ticks k w))"
  unfolding ticks_def by (induction k) (auto intro: capped_intros)

lemma capped_seed:
  "capped (wdiags w) \<Longrightarrow> seed m b st w = (ok, w') \<Longrightarrow> capped (wdiags w')"
  by (auto simp: seed_def Let_def intro: capped_intros split: if_split_asm)

lemma capped_seedHandler:
  "capped (wdiags w) \<Longrightarrow> seedHandler m b st w = (ok, w') \<Longrightarrow> capped (wdiags w')"
  by (auto simp: seedHandler_def Let_def intro: capped_intros split: if_split_asm)

lemma capped_exnEdges [capped_intros]:
  "capped (wdiags w) \<Longrightarrow> capped (wdiags (exnEdges m c pc locs hs w))"
proof (induction hs arbitrary: w)
  case (Cons h hs)
  have t: "capped (wdiags (tick w))" by (rule capped_tick [OF Cons.prems])
  have j: "capped (wdiags (ticks k ((tick w)\<lparr>inStates := x\<rparr>)))" for k x
    using t by (intro capped_ticks) simp
  show ?case
    using t j Cons.IH capped_seedHandler [OF t] by (auto simp: Let_def split: prod.split)
qed simp

lemma capped_succEdges [capped_intros]:
  "capped (wdiags w) \<Longrightarrow> capped (wdiags (succEdges m nb S ss w))"
proof (induction ss arbitrary: w)
  case (Cons s ss)
  have t: "capped (wdiags (tick w))" by (rule capped_tick [OF Cons.prems])
  have j: "capped (wdiags (ticks k ((tick w)\<lparr>inStates := x\<rparr>)))" for k x
    using t by (intro capped_ticks) simp
  show ?case
    using t j Cons.IH capped_seed [OF t] by (auto simp: Let_def split: prod.split)
qed simp

lemma capped_blockLoop:
  "capped (wdiags w) \<Longrightarrow> blockLoop m ret c pcs S w = (S', w') \<Longrightarrow> capped (wdiags w')"
proof (induction pcs arbitrary: S w)
  case (Cons pc pcs)
  have "capped (wdiags (tick w))" "capped (wdiags (exnEdges m c pc locs hs (tick w)))" for locs hs
    using Cons.prems(1) by (auto intro: capped_intros)
  then show ?case using Cons.prems Cons.IH by (auto simp: Let_def split: if_split_asm)
qed simp

lemma capped_processBlock [capped_intros]:
  "capped (wdiags w) \<Longrightarrow> capped (wdiags (processBlock m ret c w))"
proof -
  assume w: "capped (wdiags w)"
  let ?w0 = "tick (w\<lparr>queue := tl (queue w), inQueue := (inQueue w)[hd (queue w) := False]\<rparr>)"
  have "capped (wdiags ?w0)" using w by (intro capped_tick) simp
  then show ?thesis
    using capped_blockLoop [of ?w0] capped_succEdges
    by (simp add: processBlock_def Let_def split: prod.split del: tick_same)
qed

lemma capped_worklist [capped_intros]: "capped (wdiags w) \<Longrightarrow> capped (wdiags (worklist m ret c w))"
proof (induction m ret c w rule: worklist.induct)
  case (1 m ret c w)
  then show ?case using capped_processBlock [OF 1(2)] by (subst worklist.simps) simp
qed

lemma capped_recordChange [capped_intros]:
  "capped (wdiags (sw_w sw)) \<Longrightarrow> capped (wdiags (sw_w (recordChange slot pos t sw)))"
  by (simp add: recordChange_def Let_def capped_intros)

lemma capped_sweepEntry [capped_intros]:
  "capped (wdiags (sw_w sw)) \<Longrightarrow> capped (wdiags (sw_w (sweepEntry locs pos is sw)))"
  by (induction "is" arbitrary: sw) (auto simp: Let_def intro: capped_intros)

lemma capped_sweepIns:
  "capped (wdiags (sw_w sw)) \<Longrightarrow> sweepIns m ret pc S sw = (S', sw') \<Longrightarrow> capped (wdiags (sw_w sw'))"
proof -
  assume sw: "capped (wdiags (sw_w sw))" and si: "sweepIns m ret pc S sw = (S', sw')"
  have t: "capped (wdiags (tick (sw_w sw)))" by (rule capped_tick [OF sw])
  obtain T ds st where step: "stepIns m ret pc (code m ! pc) S True = (T, ds, st)" by (metis prod_cases3)
  let ?sw2 = "sw\<lparr>sw_w := (tick (sw_w sw))\<lparr>wdiags := sink_adds (wdiags (tick (sw_w sw))) ds\<rparr>\<rparr>"
  have 2: "capped (wdiags (sw_w ?sw2))" using capped_adds [OF t] by simp
  show "capped (wdiags (sw_w sw'))"
    using si t 2 capped_recordChange [OF 2]
    by (auto simp: sweepIns_def step Let_def split: if_split_asm option.split_asm)
qed

lemma capped_sweepLoop [capped_intros]:
  "capped (wdiags (sw_w sw)) \<Longrightarrow> capped (wdiags (sw_w (sweepLoop m ret pcs S sw)))"
proof (induction pcs arbitrary: S sw)
  case (Cons pc pcs)
  then show ?case using capped_sweepIns [OF Cons.prems] by (auto split: prod.split)
qed simp

lemma capped_sweepBlocks [capped_intros]:
  "capped (wdiags (sw_w sw)) \<Longrightarrow> capped (wdiags (sw_w (sweepBlocks m ret c bs sw)))"
proof (induction bs arbitrary: sw)
  case (Cons b bs)
  have "capped (wdiags (sw_w (sweepEntry locs pos is sw)))" for locs pos "is"
    by (rule capped_sweepEntry [OF Cons.prems])
  then show ?case using Cons capped_sweepLoop by (simp add: Let_def)
qed simp

lemma capped_typeCheck [capped_intros]: "capped ds \<Longrightarrow> capped (typeCheck m ret entry ds)"
proof -
  assume ds: "capped ds"
  have st: "capped (foldl (\<lambda>d h. sink_adds d (f h)) d hs)" if "capped d" for f d and hs :: "exception_handler list"
    using that by (induction hs arbitrary: d) (auto intro: capped_intros)
  obtain ok w1 where s: "seed m 0 entry (initWl (length (starts (buildCfg m))) ds) = (ok, w1)" by fastforce
  have w1: "capped (wdiags w1)" by (rule capped_seed [OF _ s]) (simp add: initWl_def ds)
  then have "capped (wdiags (worklist m ret (buildCfg m) (enq 0 w1)))" by (intro capped_worklist) simp
  then show ?thesis
    unfolding typeCheck_def Let_def s prod.case
    using w1 st capped_sweepBlocks by (auto simp del: cfg_fields)
qed

lemma capped_phases:
  "capped ds \<Longrightarrow> capped (phase0 m ds)" "capped ds \<Longrightarrow> capped (phase1_from m pcs ds)"
  "capped ds \<Longrightarrow> capped (phase1b_from m hs ds)" "capped ds \<Longrightarrow> capped (phase2 m ds)"
proof -
  show "capped ds \<Longrightarrow> capped (phase0 m ds)" by (simp add: phase0_def capped_intros)
  show "capped ds \<Longrightarrow> capped (phase1_from m pcs ds)"
    by (induction pcs arbitrary: ds) (auto intro: capped_intros)
  show "capped ds \<Longrightarrow> capped (phase1b_from m hs ds)"
    by (induction hs arbitrary: ds) (auto intro: capped_intros)
  show "capped ds \<Longrightarrow> capped (phase2 m ds)"
    by (simp add: phase2_def Let_def capped_intros split: prod.split)
qed

section \<open>Structure of an accepted method\<close>

text \<open>The structural contract the tiers rely on without checking.\<close>

definition insStructOk :: "rmethod \<Rightarrow> ins \<Rightarrow> bool" where
  "insStructOk m i \<longleftrightarrow>
     (let oi = info (ins_op i); ru = regUse (op_sig oi)
      in ins_op i < opCount \<and>
         (ru_dst ru \<longrightarrow> ins_dst i < numRegs m) \<and> (ru_a ru \<longrightarrow> ins_a i < numRegs m) \<and>
         (ru_b ru \<longrightarrow> ins_b i < numRegs m) \<and>
         (op_sig oi = Sig_Call \<or> op_sig oi = Sig_CallQuick \<longrightarrow> ins_a i + ins_b i \<le> numRegs m) \<and>
         (op_sig oi = Sig_RegSlot \<or> op_sig oi = Sig_SlotReg \<longrightarrow> ins_imm i < numLocals m) \<and>
         (ins_op i = Op_NewArray \<longrightarrow> ins_imm i \<in> {4..11}) \<and>
         (sigUsesCpIndex (op_sig oi) \<or> ins_op i = Op_GuardClass \<longrightarrow>
            ins_imm i < length (cp m) \<and> cpKindOk (ins_op i) (c_kind (cp m ! ins_imm i))) \<and>
         (isBranchSig (op_sig oi) \<longrightarrow> ins_imm i < length (code m)))"

definition handlerOk :: "rmethod \<Rightarrow> exception_handler \<Rightarrow> bool" where
  "handlerOk m h \<longleftrightarrow> h_start h < h_end h \<and> h_end h \<le> length (code m) \<and> h_handler h < length (code m) \<and>
     (h_catchType h = -1 \<or>
      (0 \<le> h_catchType h \<and> nat (h_catchType h) < length (cp m) \<and> c_kind (cp m ! nat (h_catchType h)) = K_Class))"

definition structureOk :: "rmethod \<Rightarrow> bool" where
  "structureOk m \<longleftrightarrow> length (code m) < 2 ^ 32 \<and> (code m = [] \<longleftrightarrow> isAbstract m) \<and>
     numRegs m < 2 ^ 16 \<and> numLocals m < 2 ^ 16 \<and>
     (\<forall>i\<in>set (code m). insStructOk m i) \<and> (\<forall>h\<in>set (handlers m). handlerOk m h) \<and>
     (code m \<noteq> [] \<longrightarrow> \<not> canFallThrough (ins_op (last (code m))))"

lemma structDiags_insStructOk: "structDiags m pc i = [] \<Longrightarrow> insStructOk m i"
proof -
  assume st: "structDiags m pc i = []"
  note st' = st [unfolded structDiags_Nil Let_def]
  have "ins_a i + ins_b i \<le> numRegs m"
    if c: "op_sig (info (ins_op i)) = Sig_Call \<or> op_sig (info (ins_op i)) = Sig_CallQuick"
  proof -
    have "ru_a (regUse (op_sig (info (ins_op i))))" using c by auto
    then have a: "ins_a i < numRegs m" using st' by blast
    then show ?thesis using st' c by (cases "ins_b i = 0") auto
  qed
  then show ?thesis using st' unfolding insStructOk_def Let_def atLeastAtMost_iff by blast
qed

lemma handlerDiags_handlerOk: "handlerDiags m h = [] \<Longrightarrow> handlerOk m h"
  by (auto simp: handlerDiags_def handlerOk_def Let_def not_less split: if_split_asm)

lemma verified_structure:
  assumes "vr_ok (verify m)"
  shows "structureOk m"
proof -
  note p = verify_ok_phases [OF assms]
  have g: "code m = [] \<longleftrightarrow> isAbstract m" "numRegs m \<le> 65535" "numLocals m \<le> 65535"
    using p(2) by (auto simp: phase0_def kMaxU16_def split: if_split_asm)
  have ins: "insStructOk m i" if "i \<in> set (code m)" for i
    using that p(3) structDiags_insStructOk by (metis in_set_conv_nth)
  moreover have "\<not> canFallThrough (ins_op (last (code m)))" if "code m \<noteq> []"
    using phase2_Nil(2) [OF that p(5) [OF that]] ins [OF last_in_set [OF that]]
    by (simp add: insStructOk_def Let_def)
  ultimately show ?thesis
    using p(1,4) g handlerDiags_handlerOk by (auto simp: structureOk_def)
qed

section \<open>Properties\<close>

text \<open>Property C2. The fixpoint of an accepted method with a body is a well-typed state assignment:
  it contains the entry state, every instruction it reaches is well typed, and it is closed under
  fall-through, branch, switch and exception edges, none of which leaves the code.\<close>

theorem verify_wellTyped:
  assumes "vr_ok (verify m)" and "code m \<noteq> []"
  shows "wellTyped m (methodRet m) (methodEntry m) (verifiedState m)"
  by (rule verified_wellTyped [OF assms])

theorem verify_wellTyped_witness:
  "vr_ok (verify sample) \<and> code sample \<noteq> [] \<and>
   wellTyped sample (methodRet sample) (methodEntry sample) (verifiedState sample)"
  using verify_wellTyped [OF sample_ok] sample_ok by simp

text \<open>Property C3. Along every path of normal and exceptional edges from the entry of an accepted
  method, every abstract state that arrives at a pc has the method's dimensions, the pc is inside
  the code, and the instruction there is well typed in it.\<close>

theorem verify_path_sound:
  assumes "vr_ok (verify m)" and "reach m (methodEntry m) pc S" and "code m \<noteq> []"
  shows "pc < length (code m) \<and> dims m S \<and> wtIns m (methodRet m) (code m ! pc) S"
proof -
  obtain T where T: "verifiedState m pc = Some T" "sle S T"
    using wellTyped_reach [OF verified_wellTyped [OF assms(1,3)] assms(2)] by blast
  show ?thesis
    using verified_state [OF assms(1) T(1)] sle_dims [OF T(2)] wtIns_mono [OF T(2)] by blast
qed

lemma sample_reach: "reach sample (methodEntry sample) 1 (flow sample 0 (methodEntry sample))"
  by (rule reach.normal [OF reach.entry])
    (simp add: succPcs_def sample_info canFallThrough_def Let_def)

theorem verify_path_sound_witness:
  "reach sample (methodEntry sample) 1 (flow sample 0 (methodEntry sample)) \<and>
   wtIns sample (methodRet sample) (mk Op_Tableswitch 0 0 0 0) (flow sample 0 (methodEntry sample))"
  using verify_path_sound [OF sample_ok sample_reach] sample_reach by simp

text \<open>Property C4. In an accepted method the types of the locals are the same at every reachable pc
  of a protected range.\<close>

theorem verify_protected_ranges:
  assumes "vr_ok (verify m)"
  shows "protectedStable m (verifiedState m)"
  unfolding protectedStable_def using verified_protected [OF assms] by blast

theorem verify_protected_ranges_witness:
  "vr_ok (verify sample) \<and> handlers sample \<noteq> [] \<and> protectedStable sample (verifiedState sample)"
  using verify_protected_ranges [OF sample_ok] sample_ok by simp

text \<open>Property C5. On an accepted method the interpreter's unchecked switch dispatch never reads
  outside the table, for any selector, and continues at a pc inside the code that the verifier
  followed as an edge of that switch.\<close>

theorem switch_dispatch_safe:
  assumes "vr_ok (verify m)" and "pc < length (code m)"
    and "op_sig (info (ins_op (code m ! pc))) = Sig_RegCpBranch"
  shows "\<exists>t. switchTarget m (code m ! pc) sel = Some t \<and> t < length (code m) \<and> t \<in> set (succPcs m pc)"
  by (rule verified_switch [OF assms])

theorem switch_dispatch_safe_witness:
  "\<exists>t. switchTarget sample (mk Op_Tableswitch 0 0 0 0) 7 = Some t \<and> t < 2"
  using switch_dispatch_safe [OF sample_ok, of 1 7] by (auto simp: sample_info)



text \<open>Property C40. On every input the verifier returns at most 100 diagnostics, and it accepts
  exactly when it has none.\<close>

theorem verify_bounded: "length (vr_diags (verify m)) \<le> 100 \<and> (vr_ok (verify m) \<longleftrightarrow> vr_diags (verify m) = [])"
proof -
  have "capped (verifyImpl m)"
    using capped_phases by (simp add: verifyImpl_def phase1_def phase1b_def Let_def capped_intros)
  then show ?thesis by (simp add: verify_def Let_def capped_def kMaxDiags_def)
qed

end
