(* ===== verification/Rbc_Descriptor.thy ===== *)
theory Rbc_Descriptor
  imports Rbc_Verifier
begin

text \<open>
  Method descriptors: an abstract syntax with its printer, the round trip through the parsers of
  \<open>Rbc.cpp\<close>, and the agreement of the verifier's own scanner with them.
\<close>

section \<open>Abstract syntax\<close>

datatype dbase = B_Prim char | B_Class string

text \<open>A field type: a number of array dimensions over a primitive or a class.\<close>

type_synonym desc = "nat \<times> dbase"

definition nameOk :: "string \<Rightarrow> bool" where
  "nameOk s \<longleftrightarrow> s \<noteq> [] \<and> (\<forall>c\<in>set s. c \<notin> set '';()['')"

definition descOk :: "desc \<Rightarrow> bool" where
  "descOk t =
     (case t of
        (n, B_Prim c) \<Rightarrow> c \<in> set ''IJFD'' \<or> (n > 0 \<and> c \<in> set ''ZBCS'')
      | (n, B_Class s) \<Rightarrow> nameOk s)"

definition render :: "desc \<Rightarrow> string" where
  "render t =
     (case t of
        (n, B_Prim c) \<Rightarrow> replicate n (CHR ''['') @ [c]
      | (n, B_Class s) \<Rightarrow> replicate n (CHR ''['') @ CHR ''L'' # s @ '';'')"

definition descType :: "desc \<Rightarrow> rtype" where
  "descType t =
     (case t of
        (0, B_Prim c) \<Rightarrow>
          (if c = CHR ''I'' then RT_Int else if c = CHR ''J'' then RT_Long
           else if c = CHR ''F'' then RT_Float else RT_Double)
      | _ \<Rightarrow> RT_Ref)"

text \<open>A return type: \<open>None\<close> is void.\<close>

definition renderRet :: "desc option \<Rightarrow> string" where
  "renderRet r = (case r of None \<Rightarrow> ''V'' | Some t \<Rightarrow> render t)"

definition renderMethod :: "desc list \<Rightarrow> desc option \<Rightarrow> string" where
  "renderMethod ts r = ''('' @ concat (map render ts) @ '')'' @ renderRet r"

section \<open>Parsing one type\<close>

lemma nth_app: "(pre @ x # post) ! length pre = x"
  by simp

lemma scanName_render:
  assumes "\<forall>c\<in>set nm. c \<notin> set '';()[''"
  shows "scanName (pre @ nm @ CHR '';'' # post) (length pre) = Some (length pre + length nm)"
  using assms
proof (induction nm arbitrary: pre)
  case Nil
  then show ?case by (subst scanName.simps) simp
next
  case (Cons c nm)
  have "scanName (pre @ (c # nm) @ CHR '';'' # post) (length pre)
      = scanName (pre @ (c # nm) @ CHR '';'' # post) (length pre + 1)"
    using Cons.prems by (subst scanName.simps) (simp add: nth_app)
  also have "\<dots> = Some (length pre + length (c # nm))"
    using Cons.IH [of "pre @ [c]"] Cons.prems by simp
  finally show ?case .
qed

lemma skipBrackets_render:
  assumes "x \<noteq> CHR ''[''"
  shows "skipBrackets (pre @ replicate n (CHR ''['') @ x # post) (length pre) = length pre + n"
proof (induction n arbitrary: pre)
  case 0
  then show ?case using assms by (subst skipBrackets.simps) (simp add: nth_app)
next
  case (Suc n)
  have "skipBrackets (pre @ replicate (Suc n) (CHR ''['') @ x # post) (length pre)
      = skipBrackets (pre @ replicate (Suc n) (CHR ''['') @ x # post) (length pre + 1)"
    by (subst skipBrackets.simps) (simp add: nth_app)
  also have "\<dots> = length pre + Suc n"
    using Suc.IH [of "pre @ ''[''"] by (simp add: replicate_append_same)
  finally show ?case .
qed

text \<open>An element: a class or a primitive, the sub-int ones only where they are allowed.\<close>

lemma parse_class:
  assumes "nameOk nm"
  shows "parseTypeAt (pre @ CHR ''L'' # nm @ CHR '';'' # post) (length pre) v s
    = tres RT_Ref True (length pre + length nm + 2)"
proof -
  let ?d = "pre @ CHR ''L'' # nm @ CHR '';'' # post"
  have "scanName ?d (length pre + 1) = Some (length pre + 1 + length nm)"
    using scanName_render [of nm "pre @ ''L''" post] assms by (simp add: nameOk_def)
  then show ?thesis
    using assms by (subst parseTypeAt.simps) (simp add: nth_app nameOk_def)
qed

lemma parse_prim:
  assumes "c \<in> set ''IJFD'' \<or> (s \<and> c \<in> set ''ZBCS'')"
  shows "tr_ok (parseTypeAt (pre @ c # post) (length pre) v s)"
    and "tr_next (parseTypeAt (pre @ c # post) (length pre) v s) = length pre + 1"
    and "c \<in> set ''IJFD'' \<Longrightarrow> tr_type (parseTypeAt (pre @ c # post) (length pre) v s) = descType (0, B_Prim c)"
  using assms by (subst parseTypeAt.simps; auto simp: nth_app descType_def)+

lemma parse_array:
  assumes "x \<noteq> CHR ''[''"
    and "parseTypeAt (pre @ replicate (Suc n) (CHR ''['') @ x # post) (length pre + Suc n) False True = tres t True nx"
  shows "parseTypeAt (pre @ replicate (Suc n) (CHR ''['') @ x # post) (length pre) v s = tres RT_Ref True nx"
proof -
  let ?d = "pre @ replicate (Suc n) (CHR ''['') @ x # post"
  have "skipBrackets ?d (length pre) = length pre + Suc n" by (rule skipBrackets_render [OF assms(1)])
  moreover have "?d ! length pre = CHR ''[''" by (simp add: nth_append)
  ultimately show ?thesis
    using assms(2) by (subst parseTypeAt.simps) (simp add: Let_def)
qed

lemma parse_render:
  assumes "descOk t"
  shows "parseTypeAt (pre @ render t @ post) (length pre) v False
    = tres (descType t) True (length pre + length (render t))"
proof -
  obtain n b where t: "t = (n, b)" by fastforce
  show ?thesis
  proof (cases b)
    case (B_Class nm)
    then have nm: "nameOk nm" using assms by (simp add: descOk_def t)
    show ?thesis
    proof (cases n)
      case 0
      then show ?thesis using parse_class [OF nm] by (simp add: t B_Class render_def descType_def)
    next
      case (Suc k)
      let ?pre = "pre @ replicate (Suc k) (CHR ''['')"
      have "parseTypeAt (?pre @ CHR ''L'' # nm @ CHR '';'' # post) (length ?pre) False True
          = tres RT_Ref True (length ?pre + length nm + 2)"
        by (rule parse_class [OF nm])
      then have "parseTypeAt (pre @ replicate (Suc k) (CHR ''['') @ CHR ''L'' # nm @ CHR '';'' # post)
          (length pre) v False = tres RT_Ref True (length ?pre + length nm + 2)"
        by (intro parse_array) simp_all
      then show ?thesis by (simp add: t B_Class Suc render_def descType_def)
    qed
  next
    case (B_Prim c)
    show ?thesis
    proof (cases n)
      case 0
      then have "c \<in> set ''IJFD''" using assms by (simp add: descOk_def t B_Prim)
      then show ?thesis
        using parse_prim [of c False pre post v]
        by (intro type_result.equality) (simp_all add: t B_Prim 0 render_def)
    next
      case (Suc k)
      let ?pre = "pre @ replicate (Suc k) (CHR ''['')"
      have c: "c \<in> set ''IJFD'' \<or> True \<and> c \<in> set ''ZBCS''" using assms by (auto simp: descOk_def t B_Prim)
      then have "c \<noteq> CHR ''[''" by auto
      moreover have "parseTypeAt (?pre @ c # post) (length ?pre) False True
          = tres (tr_type (parseTypeAt (?pre @ c # post) (length ?pre) False True)) True (length ?pre + 1)"
        using parse_prim(1,2) [OF c, of ?pre post False] by (intro type_result.equality) simp_all
      ultimately have "parseTypeAt (pre @ replicate (Suc k) (CHR ''['') @ c # post) (length pre) v False
          = tres RT_Ref True (length ?pre + 1)"
        by (intro parse_array) simp_all
      then show ?thesis by (simp add: t B_Prim Suc render_def descType_def)
    qed
  qed
qed

lemma render_first: "descOk t \<Longrightarrow> \<exists>x xs. render t = x # xs \<and> x \<noteq> CHR '')''"
proof -
  assume ok: "descOk t"
  obtain n b where "t = (n, b)" by fastforce
  then show ?thesis using ok by (cases n; cases b) (auto simp: render_def descOk_def)
qed

section \<open>Parsing the parameter list\<close>

lemma walk_render:
  assumes "\<forall>t\<in>set ts. descOk t"
  shows "walkParamsFrom (pre @ concat (map render ts) @ CHR '')'' # post) (length pre) k
      = (True, length pre + length (concat (map render ts)), k + length ts)"
    and "collectParams (pre @ concat (map render ts) @ CHR '')'' # post) (length pre) out
      = (True, out @ map descType ts)"
  using assms
proof (induction ts arbitrary: pre k out)
  case Nil
  { case 1 then show ?case by (subst walkParamsFrom.simps) (simp add: nth_app) }
  { case 2 then show ?case by (subst collectParams.simps) (simp add: nth_app) }
next
  case (Cons t ts)
  let ?d = "\<lambda>pre. pre @ render t @ concat (map render ts) @ CHR '')'' # post"
  have d: "pre @ concat (map render (t # ts)) @ CHR '')'' # post = ?d pre" for pre by simp
  have p: "parseTypeAt (?d pre) (length pre) False False = tres (descType t) True (length (pre @ render t))"
    and c: "length pre < length (?d pre) \<and> ?d pre ! length pre \<noteq> CHR '')''" if "descOk t" for pre
    using parse_render [OF that, of pre "concat (map render ts) @ CHR '')'' # post"] render_first [OF that]
    by (auto simp: nth_app)
  { case 1
    then have t: "descOk t" "\<forall>t\<in>set ts. descOk t" by auto
    have "walkParamsFrom (?d pre) (length pre) k = walkParamsFrom (?d pre) (length (pre @ render t)) (k + 1)"
      unfolding walkParamsFrom.simps [of "?d pre" "length pre"] if_P [OF c [OF t(1)]] p [OF t(1)] Let_def by simp
    then show ?case using Cons.IH(1) [OF t(2), of "pre @ render t" "k + 1"] unfolding d by simp }
  { case 2
    then have t: "descOk t" "\<forall>t\<in>set ts. descOk t" by auto
    have "collectParams (?d pre) (length pre) out = collectParams (?d pre) (length (pre @ render t)) (out @ [descType t])"
      unfolding collectParams.simps [of "?d pre" "length pre"] if_P [OF c [OF t(1)]] p [OF t(1)] Let_def by simp
    then show ?case using Cons.IH(2) [OF t(2), of "pre @ render t" "out @ [descType t]"] unfolding d by simp }
qed

section \<open>The verifier's scanner\<close>

lemma find_char_eq:
  assumes "i \<le> k" and "k < length s" and "s ! k = c" and "\<And>l. i \<le> l \<Longrightarrow> l < k \<Longrightarrow> s ! l \<noteq> c"
  shows "find_char c s i = Some k"
  using assms
proof (induction "k - i" arbitrary: i)
  case 0
  then show ?case by (subst find_char.simps) simp
next
  case (Suc n)
  then have "find_char c s (i + 1) = Some k" by (intro Suc.hyps(1)) simp_all
  then show ?case using Suc.hyps(2) Suc.prems by (subst find_char.simps) force
qed

lemma scanName_spec:
  assumes "scanName d j = Some k" and "k < length d"
  shows "j \<le> k" and "d ! k = CHR '';''" and "j \<le> l \<Longrightarrow> l < k \<Longrightarrow> d ! l \<noteq> CHR '';''"
proof -
  have "j \<le> k \<and> d ! k = CHR '';'' \<and> (\<forall>l. j \<le> l \<and> l < k \<longrightarrow> d ! l \<noteq> CHR '';'')"
    using assms
  proof (induction d j rule: scanName.induct)
    case (1 d j)
    show ?case
    proof (cases "j < length d \<and> d ! j \<noteq> CHR '';''")
      case True
      then have n: "\<not> (d ! j = CHR ''('' \<or> d ! j = CHR '')'' \<or> d ! j = CHR ''['')"
        and k: "scanName d (j + 1) = Some k"
        using 1(2) by (auto simp: scanName.simps [of d j] split: if_split_asm)
      have ih: "j + 1 \<le> k \<and> d ! k = CHR '';'' \<and> (\<forall>l. j + 1 \<le> l \<and> l < k \<longrightarrow> d ! l \<noteq> CHR '';'')"
        by (rule 1(1) [OF True n k 1(3)])
      have "d ! l \<noteq> CHR '';''" if "j \<le> l" "l < k" for l
        using ih True that by (cases "l = j") auto
      then show ?thesis using ih by auto
    next
      case False
      then have "k = j" using 1(2) by (auto simp: scanName.simps [of d j] split: if_split_asm)
      then show ?thesis using False 1(3) by auto
    qed
  qed
  then show "j \<le> k" "d ! k = CHR '';''" "j \<le> l \<Longrightarrow> l < k \<Longrightarrow> d ! l \<noteq> CHR '';''" by auto
qed

lemma skipBrackets_drop:
  "i \<le> j \<Longrightarrow> j \<le> length d \<Longrightarrow> skipBrackets (drop i d) (j - i) + i = skipBrackets d j"
proof (induction d j rule: skipBrackets.induct)
  case (1 d j)
  show ?case
  proof (cases "j < length d \<and> d ! j = CHR ''[''")
    case True
    then have "j - i < length (drop i d)" using 1(2) by (simp add: diff_less_mono)
    then have "skipBrackets (drop i d) (j - i) = skipBrackets (drop i d) (j + 1 - i)"
      using 1(2) True by (subst skipBrackets.simps) (simp add: Suc_diff_le)
    moreover have "skipBrackets d j = skipBrackets d (j + 1)"
      by (subst skipBrackets.simps) (use True in simp)
    moreover have "skipBrackets (drop i d) (j + 1 - i) + i = skipBrackets d (j + 1)"
      by (rule 1(1) [OF True]) (use 1(2) True in auto)
    ultimately show ?thesis by simp
  next
    case False
    have "skipBrackets (drop i d) (j - i) = j - i"
      by (subst skipBrackets.simps) (use False 1(2,3) in auto)
    moreover have "skipBrackets d j = j" by (subst skipBrackets.simps) (use False in auto)
    ultimately show ?thesis using 1(2) by simp
  qed
qed

lemma skipBrackets_stop: "skipBrackets d j < length d \<Longrightarrow> d ! skipBrackets d j \<noteq> CHR ''[''"
proof (induction d j rule: skipBrackets.induct)
  case (1 d j)
  then show ?case by (cases "j < length d \<and> d ! j = CHR ''[''") (auto simp: skipBrackets.simps [of d j])
qed

text \<open>A class name found by the parser is found by the scanner.\<close>

lemma find_semi:
  assumes "scanName d (j + 1) = Some k" and "k < length d" and "i \<le> j" and "j < length d" and "d ! j = CHR ''L''"
  shows "find_char (CHR '';'') (drop i d) (j - i) = Some (k - i)"
proof (rule find_char_eq)
  note sp = scanName_spec [OF assms(1,2)]
  show "j - i \<le> k - i" "k - i < length (drop i d)" using sp(1) assms by auto
  show "drop i d ! (k - i) = CHR '';''" using sp(1,2) assms by simp
  fix l assume l: "j - i \<le> l" "l < k - i"
  then have "d ! (i + l) \<noteq> CHR '';''"
    using sp(3) [of "i + l"] assms(3,5) by (cases "i + l = j") auto
  then show "drop i d ! l \<noteq> CHR '';''" using l assms by simp
qed

lemma scan_element:
  assumes "tr_ok (parseTypeAt d j False True)" and "d ! j \<noteq> CHR ''[''"
  shows "j < length d"
    and "d ! j = CHR ''L'' \<Longrightarrow> \<exists>k. scanName d (j + 1) = Some k \<and> k < length d \<and> j + 1 < k \<and>
      tr_next (parseTypeAt d j False True) = k + 1"
    and "d ! j \<noteq> CHR ''L'' \<Longrightarrow> d ! j \<in> set ''IJFDZBCS'' \<and> tr_next (parseTypeAt d j False True) = j + 1"
proof -
  show "j < length d" using assms(1) by (cases "j < length d") (simp_all add: parseTypeAt.simps)
  show "d ! j = CHR ''L'' \<Longrightarrow> \<exists>k. scanName d (j + 1) = Some k \<and> k < length d \<and> j + 1 < k \<and>
      tr_next (parseTypeAt d j False True) = k + 1"
    using assms(1) scanName_ge [of d "j + 1"]
    by (fastforce simp: parseTypeAt.simps [of d j] split: if_split_asm option.split_asm)
  show "d ! j \<noteq> CHR ''L'' \<Longrightarrow> d ! j \<in> set ''IJFDZBCS'' \<and> tr_next (parseTypeAt d j False True) = j + 1"
    using assms by (auto simp: parseTypeAt.simps [of d j] split: if_split_asm)
qed

text \<open>Every bare type the parser accepts, the scanner accepts with the same type and extent.\<close>

lemma scanField_parse:
  assumes "tr_ok (parseTypeAt d i False False)"
  shows "scanField (drop i d) = fsc True (tr_type (parseTypeAt d i False False))
    (tr_next (parseTypeAt d i False False) - i)"
proof -
  have i: "i < length d" using assms by (cases "i < length d") (simp_all add: parseTypeAt.simps)
  then have s0: "drop i d \<noteq> []" "drop i d ! 0 = d ! i" by simp_all
  consider (prim) "d ! i \<in> set ''IJFD''" | (cls) "d ! i = CHR ''L''" | (arr) "d ! i = CHR ''[''"
    using assms i by (auto simp: parseTypeAt.simps [of d i] split: if_split_asm)
  then show ?thesis
  proof cases
    case prim
    then show ?thesis
      using s0 i by (auto simp: scanField_def parseTypeAt.simps [of d i])
  next
    case cls
    then obtain k where k: "scanName d (i + 1) = Some k" "k < length d" "k \<noteq> i + 1"
      using assms i by (fastforce simp: parseTypeAt.simps [of d i] split: if_split_asm option.split_asm)
    have "find_char (CHR '';'') (drop i d) 0 = Some (k - i)"
      using find_semi [OF k(1,2) order_refl i cls] by simp
    moreover have "\<not> k - i < 2" using scanName_ge [OF k(1)] k(3) by simp
    ultimately show ?thesis
      using s0 i k cls scanName_ge [OF k(1)] by (simp add: scanField_def parseTypeAt.simps [of d i] Suc_diff_le)
  next
    case arr
    let ?j = "skipBrackets d i" and ?e = "parseTypeAt d (skipBrackets d i) False True"
    have e: "tr_ok ?e" and p: "parseTypeAt d i False False = tres RT_Ref True (tr_next ?e)"
      using assms i arr by (auto simp: parseTypeAt.simps [of d i] Let_def split: if_split_asm)
    have j: "skipBrackets (drop i d) 1 + i = ?j"
      using skipBrackets_drop [of i "i + 1" d] i arr by (simp add: skipBrackets.simps [of d i])
    have ij: "i < ?j" by (rule skipBrackets_gt [OF i arr])
    have "?j < length d" using e by (cases "?j < length d") (simp_all add: parseTypeAt.simps [of d ?j])
    then have nb: "d ! ?j \<noteq> CHR ''[''" by (rule skipBrackets_stop)
    note el = scan_element [OF e nb]
    have sj: "drop i d ! (?j - i) = d ! ?j" "skipBrackets (drop i d) 1 = ?j - i"
      using ij el(1) j by auto
    show ?thesis
    proof (cases "d ! ?j = CHR ''L''")
      case True
      then obtain k where k: "scanName d (?j + 1) = Some k" "k < length d" "?j + 1 < k" "tr_next ?e = k + 1"
        using el(2) by blast
      have "find_char (CHR '';'') (drop i d) (?j - i) = Some (k - i)"
        using find_semi [OF k(1,2) less_imp_le [OF ij] el(1) True] .
      then show ?thesis
        using s0 arr sj el(1) True k ij p by (simp add: scanField_def Let_def Suc_diff_le)
    next
      case False
      then show ?thesis
        using s0 arr sj el(1,3) ij p by (auto simp: scanField_def Let_def Suc_diff_le)
    qed
  qed
qed

lemma scanParams_walk:
  "walkParamsFrom d i k = (True, e, n) \<Longrightarrow> scanParams d i = Some e \<and> e < length d \<and> d ! e = CHR '')''"
proof (induction d i k rule: walkParamsFrom.induct)
  case (1 d i k)
  let ?t = "parseTypeAt d i False False"
  show ?case
  proof (cases "i < length d \<and> d ! i \<noteq> CHR '')''")
    case True
    then have ok: "tr_ok ?t" and w: "walkParamsFrom d (tr_next ?t) (k + 1) = (True, e, n)"
      using 1(2) by (auto simp: walkParamsFrom.simps [of d i k] Let_def split: if_split_asm)
    have "scanParams d i = scanParams d (tr_next ?t)"
      using True scanField_parse [OF ok] parseTypeAt_next_gt [OF ok]
      by (simp add: scanParams.simps [of d i] Let_def)
    then show ?thesis using 1(1) [OF True refl] ok w by simp
  next
    case False
    then show ?thesis
      using 1(2) by (auto simp: walkParamsFrom.simps [of d i k] scanParams.simps [of d i])
  qed
qed

lemma parse_subInt: "d ! i \<in> set ''ZBCS'' \<Longrightarrow> \<not> tr_ok (parseTypeAt d i v False)"
  by (subst parseTypeAt.simps) auto

lemma parse_void_flag: "d ! i \<noteq> CHR ''V'' \<Longrightarrow> parseTypeAt d i v s = parseTypeAt d i False s"
  by (simp add: parseTypeAt.simps [of d i])

lemma scanMethodDesc_parse:
  assumes "parseReturn d \<noteq> RT_Bottom"
  shows "scanMethodDesc d = rsc True False (parseReturn d)"
proof -
  obtain ok e n where w: "walkParamsFrom d (Suc 0) 0 = (ok, e, n)" by (metis prod_cases3)
  let ?r = "parseTypeAt d (e + 1) True False"
  have h: "d \<noteq> []" "hd d = CHR ''(''" "ok" "tr_ok ?r" "tr_next ?r = length d" "parseReturn d = tr_type ?r"
    using assms by (auto simp: parseReturn_def walkParams_def w Let_def split: if_split_asm)
  note sp = scanParams_walk [of d "Suc 0" 0 e n]
  have e: "scanParams d (Suc 0) = Some e" "e < length d" "d ! e = CHR '')''" using sp w h(3) by auto
  have nV: "d ! (e + 1) \<noteq> CHR ''V''"
    using assms h(6) e(2) by (auto simp: parseTypeAt.simps [of d "Suc e"] split: if_split_asm)
  then have r: "?r = parseTypeAt d (e + 1) False False" by (rule parse_void_flag)
  have "e + 1 < length d" using parseTypeAt_next_gt [OF h(4)] h(5) by simp
  moreover have "scanField (drop (e + 1) d) = fsc True (tr_type ?r) (length d - (e + 1))"
    using scanField_parse [of d "e + 1"] h(4,5) r by simp
  ultimately show ?thesis
    using h e nV by (simp add: scanMethodDesc_def hd_conv_nth)
qed

section \<open>Properties\<close>



text \<open>The verifier's scanner and the shared parser agree wherever the parser yields a
  type: the scanner then reports a non-void return of that type. The converse fails: on a sub-int
  return such as boolean the scanner reports Int while the parser reports none.\<close>

theorem descriptor_scanners:
  "(\<forall>d. parseReturn d = RT_Bottom \<or> scanMethodDesc d = rsc True False (parseReturn d))
   \<and> scanMethodDesc ''()Z'' = rsc True False RT_Int \<and> parseReturn ''()Z'' = RT_Bottom
   \<and> parseParams ''()Z'' [] = (True, [])"
proof (intro conjI allI)
  show "parseReturn d = RT_Bottom \<or> scanMethodDesc d = rsc True False (parseReturn d)" for d
    using scanMethodDesc_parse by blast
qed (simp_all add: scanMethodDesc_def scanParams.simps scanField_def parseReturn_def walkParams_def
    walkParamsFrom.simps parseTypeAt.simps parseParams_def collectParams.simps)

end
