(* ===== verification/Ir_Effect.thy ===== *)
theory Ir_Effect
  imports B2_Prelude
begin

text \<open>
  The effect model of the IR (\<open>include/b2/ir/Effect.h\<close>): twelve effect classes, the construction
  rules, and the frozen 12 by 12 reorder table with its lookup. The second half states what
  \<open>Allowed\<close> means on a small semantics of effects and shows that the table is sound for it.
\<close>

section \<open>Effect classes\<close>

datatype effect_kind =
    EK_Pure | EK_ReadLocal | EK_ReadShared | EK_WriteLocal | EK_WriteShared | EK_VolatileRead
  | EK_VolatileWrite | EK_MonitorEnter | EK_MonitorExit | EK_Allocation | EK_CallOpaque
  | EK_ExceptionThrow

definition effects :: "effect_kind list" where
  "effects = [EK_Pure, EK_ReadLocal, EK_ReadShared, EK_WriteLocal, EK_WriteShared, EK_VolatileRead,
     EK_VolatileWrite, EK_MonitorEnter, EK_MonitorExit, EK_Allocation, EK_CallOpaque, EK_ExceptionThrow]"

fun effCode :: "effect_kind \<Rightarrow> nat" where
  "effCode EK_Pure = 0"
| "effCode EK_ReadLocal = 1"
| "effCode EK_ReadShared = 2"
| "effCode EK_WriteLocal = 3"
| "effCode EK_WriteShared = 4"
| "effCode EK_VolatileRead = 5"
| "effCode EK_VolatileWrite = 6"
| "effCode EK_MonitorEnter = 7"
| "effCode EK_MonitorExit = 8"
| "effCode EK_Allocation = 9"
| "effCode EK_CallOpaque = 10"
| "effCode EK_ExceptionThrow = 11"

definition effectCount :: nat where
  "effectCount = 12"

fun effectName :: "effect_kind \<Rightarrow> string" where
  "effectName EK_Pure = ''pure''"
| "effectName EK_ReadLocal = ''read.local''"
| "effectName EK_ReadShared = ''read.shared''"
| "effectName EK_WriteLocal = ''write.local''"
| "effectName EK_WriteShared = ''write.shared''"
| "effectName EK_VolatileRead = ''volatile.read''"
| "effectName EK_VolatileWrite = ''volatile.write''"
| "effectName EK_MonitorEnter = ''monitor.enter''"
| "effectName EK_MonitorExit = ''monitor.exit''"
| "effectName EK_Allocation = ''alloc''"
| "effectName EK_CallOpaque = ''call.opaque''"
| "effectName EK_ExceptionThrow = ''throw''"

datatype order_result = Allowed | Forbidden | RequiresCompensation

fun effectOrderName :: "order_result \<Rightarrow> string" where
  "effectOrderName Allowed = ''allowed''"
| "effectOrderName Forbidden = ''forbidden''"
| "effectOrderName RequiresCompensation = ''compensate''"

definition isReadEffect :: "effect_kind \<Rightarrow> bool" where
  "isReadEffect e \<longleftrightarrow> e = EK_ReadLocal \<or> e = EK_ReadShared \<or> e = EK_VolatileRead"

definition isWriteEffect :: "effect_kind \<Rightarrow> bool" where
  "isWriteEffect e \<longleftrightarrow> e = EK_WriteLocal \<or> e = EK_WriteShared \<or> e = EK_VolatileWrite"

definition isThreadLocalEffect :: "effect_kind \<Rightarrow> bool" where
  "isThreadLocalEffect e \<longleftrightarrow> e = EK_Pure \<or> e = EK_ReadLocal \<or> e = EK_WriteLocal"

definition isSyncEffect :: "effect_kind \<Rightarrow> bool" where
  "isSyncEffect e \<longleftrightarrow> e = EK_VolatileRead \<or> e = EK_VolatileWrite \<or> e = EK_MonitorEnter
     \<or> e = EK_MonitorExit"

definition isStrongSyncEffect :: "effect_kind \<Rightarrow> bool" where
  "isStrongSyncEffect e \<longleftrightarrow> e = EK_VolatileWrite \<or> e = EK_MonitorEnter \<or> e = EK_MonitorExit"

section \<open>Rules and table\<close>

definition ruleImpl :: "effect_kind \<Rightarrow> effect_kind \<Rightarrow> order_result" where
  "ruleImpl a b =
     (if a = EK_Pure \<or> b = EK_Pure then Allowed
      else if a = EK_CallOpaque \<or> b = EK_CallOpaque then
        (let other = (if a = EK_CallOpaque then b else a)
         in if other = EK_ReadLocal \<or> other = EK_WriteLocal then Allowed else Forbidden)
      else if a = EK_ExceptionThrow \<or> b = EK_ExceptionThrow then
        (let other = (if a = EK_ExceptionThrow then b else a)
         in if other = EK_ReadLocal \<or> other = EK_ReadShared \<or> other = EK_VolatileRead
               \<or> other = EK_Allocation then Allowed else Forbidden)
      else
        (let aTL = isThreadLocalEffect a; bTL = isThreadLocalEffect b;
             aRL = (a = EK_ReadLocal); bRL = (b = EK_ReadLocal)
         in if aTL \<and> bTL then (if aRL \<and> bRL then Allowed else RequiresCompensation)
            else if aTL \<or> bTL then Allowed
            else if isSyncEffect a \<and> isSyncEffect b then Forbidden
            else if a = EK_Allocation \<or> b = EK_Allocation then Allowed
            else if a = EK_ReadShared \<and> b = EK_ReadShared then Allowed
            else if a = EK_WriteShared \<and> isStrongSyncEffect b then Forbidden
            else if isStrongSyncEffect a \<and> b = EK_WriteShared then Forbidden
            else RequiresCompensation))"

definition kEffectOrderTable :: "order_result list list" where
  "kEffectOrderTable = map (\<lambda>a. map (\<lambda>b. ruleImpl (effects ! a) (effects ! b)) [0..<12]) [0..<12]"

definition reorderByRule :: "effect_kind \<Rightarrow> effect_kind \<Rightarrow> order_result" where
  "reorderByRule a b = ruleImpl a b"

text \<open>The lookup takes the underlying codes, which may lie outside the enumeration.\<close>

definition canReorder :: "nat \<Rightarrow> nat \<Rightarrow> order_result" where
  "canReorder ra rb = (if ra \<ge> 12 \<or> rb \<ge> 12 then Forbidden else kEffectOrderTable ! ra ! rb)"

lemma effCode_less: "effCode e < 12"
  by (cases e) simp_all

lemma effects_effCode [simp]: "effects ! effCode e = e"
  by (cases e) (simp_all add: effects_def)

lemma canReorder_rule: "canReorder (effCode a) (effCode b) = ruleImpl a b"
  using effCode_less [of a] effCode_less [of b] by (simp add: canReorder_def kEffectOrderTable_def)

lemmas rule_defs = ruleImpl_def isThreadLocalEffect_def isSyncEffect_def isStrongSyncEffect_def Let_def

lemma ruleImpl_sym: "ruleImpl a b = ruleImpl b a"
  by (cases a; cases b; simp add: rule_defs)

section \<open>A semantics of effects\<close>

text \<open>The state other effects can observe: thread-local and shared memory, the synchronization
  order, and the snapshots that exceptions have published.\<close>

record eff_state =
  local_mem :: "nat \<Rightarrow> int"
  shared_mem :: "nat \<Rightarrow> int"
  sync_order :: "(effect_kind \<times> nat) list"
  published :: "((nat \<Rightarrow> int) \<times> (nat \<Rightarrow> int) \<times> (effect_kind \<times> nat) list) list"

text \<open>One effect of a class: a location and a value to write. It returns the value it observes.
  An opaque call is an arbitrary function \<open>call\<close> of the shared state. A volatile read is not part
  of what an exception publishes.\<close>

definition strongOrder :: "(effect_kind \<times> nat) list \<Rightarrow> (effect_kind \<times> nat) list" where
  "strongOrder l = filter (\<lambda>e. fst e \<noteq> EK_VolatileRead) l"

type_synonym opaque_call = "(nat \<Rightarrow> int) \<Rightarrow> (effect_kind \<times> nat) list \<Rightarrow> (nat \<Rightarrow> int) \<times> int"

fun perform ::
  "opaque_call \<Rightarrow> effect_kind \<Rightarrow> nat \<Rightarrow> int \<Rightarrow> eff_state \<Rightarrow> int \<times> eff_state" where
  "perform call EK_Pure l v s = (v, s)"
| "perform call EK_ReadLocal l v s = (local_mem s l, s)"
| "perform call EK_ReadShared l v s = (shared_mem s l, s)"
| "perform call EK_WriteLocal l v s = (0, s\<lparr>local_mem := (local_mem s)(l := v)\<rparr>)"
| "perform call EK_WriteShared l v s = (0, s\<lparr>shared_mem := (shared_mem s)(l := v)\<rparr>)"
| "perform call EK_VolatileRead l v s =
     (shared_mem s l, s\<lparr>sync_order := sync_order s @ [(EK_VolatileRead, l)]\<rparr>)"
| "perform call EK_VolatileWrite l v s =
     (0, s\<lparr>shared_mem := (shared_mem s)(l := v), sync_order := sync_order s @ [(EK_VolatileWrite, l)]\<rparr>)"
| "perform call EK_MonitorEnter l v s = (0, s\<lparr>sync_order := sync_order s @ [(EK_MonitorEnter, l)]\<rparr>)"
| "perform call EK_MonitorExit l v s = (0, s\<lparr>sync_order := sync_order s @ [(EK_MonitorExit, l)]\<rparr>)"
| "perform call EK_Allocation l v s = (0, s)"
| "perform call EK_CallOpaque l v s =
     (let (m, r) = call (shared_mem s) (sync_order s)
      in (r, s\<lparr>shared_mem := m, sync_order := sync_order s @ [(EK_CallOpaque, l)]\<rparr>))"
| "perform call EK_ExceptionThrow l v s =
     (0, s\<lparr>published := published s @ [(local_mem s, shared_mem s, strongOrder (sync_order s))]\<rparr>)"

text \<open>Two effects commute when both orders give the same observations and the same final state.\<close>

definition commute :: "effect_kind \<Rightarrow> effect_kind \<Rightarrow> bool" where
  "commute a b \<longleftrightarrow>
     (\<forall>call l v l' v' s.
        let (ra, s1) = perform call a l v s; (rb, s2) = perform call b l' v' s1;
            (rb', t1) = perform call b l' v' s; (ra', t2) = perform call a l v t1
        in ra = ra' \<and> rb = rb' \<and> s2 = t2)"

lemma commute_Allowed: "ruleImpl a b = Allowed \<Longrightarrow> commute a b"
  by (cases a; cases b; simp add: commute_def rule_defs strongOrder_def split: prod.split)

section \<open>Properties\<close>

text \<open>The frozen table is total and symmetric, answers every in-range pair by the
  construction rules, refuses codes outside the enumeration, and never lets a pair of
  synchronization effects, or a shared write and a release or monitor effect, be reordered.\<close>

theorem effect_table_rules:
  "canReorder (effCode a) (effCode b) = reorderByRule a b
   \<and> canReorder ra rb = canReorder rb ra
   \<and> (ra \<ge> effectCount \<or> rb \<ge> effectCount \<longrightarrow> canReorder ra rb = Forbidden)
   \<and> (isSyncEffect a \<and> isSyncEffect b \<or> a = EK_WriteShared \<and> isStrongSyncEffect b \<longrightarrow>
        canReorder (effCode a) (effCode b) = Forbidden)"
proof (intro conjI impI)
  show "canReorder (effCode a) (effCode b) = reorderByRule a b"
    by (simp add: canReorder_rule reorderByRule_def)
  show "canReorder ra rb = canReorder rb ra"
    by (simp add: canReorder_def kEffectOrderTable_def ruleImpl_sym)
  show "ra \<ge> effectCount \<or> rb \<ge> effectCount \<Longrightarrow> canReorder ra rb = Forbidden"
    by (simp add: canReorder_def effectCount_def)
  show "isSyncEffect a \<and> isSyncEffect b \<or> a = EK_WriteShared \<and> isStrongSyncEffect b \<Longrightarrow>
      canReorder (effCode a) (effCode b) = Forbidden"
    unfolding canReorder_rule by (cases a; cases b; simp add: rule_defs)
qed

theorem effect_table_rules_witness:
  "canReorder 200 3 = Forbidden \<and> canReorder (effCode EK_WriteShared) (effCode EK_MonitorExit) = Forbidden"
  using effect_table_rules [of EK_WriteShared EK_MonitorExit 200 3, THEN conjunct2, THEN conjunct2]
  by (simp add: effectCount_def isStrongSyncEffect_def del: effCode.simps)



text \<open>The header announces Forbidden for pairs no rule covers; the rules answer otherwise.\<close>

lemma effect_default: "canReorder (effCode EK_ReadShared) (effCode EK_MonitorEnter) = RequiresCompensation"
  by (simp add: canReorder_rule rule_defs del: effCode.simps)

end
