(* ===== verification/Ir_Type.thy ===== *)
theory Ir_Type
  imports Rbc_Type
begin

text \<open>
  The value types of the sea-of-nodes IR (\<open>include/b2/ir/Types.h\<close>): the scalar lattice, lane and
  vector types, the legality tables of vector operations, and the packing of a lane type and a
  lane count into one 32-bit payload. A cast from an integer that is no enumerator yields \<open>None\<close>.
\<close>

unbundle bit_operations_syntax

section \<open>Types\<close>

datatype irtype =
    IT_Bottom | IT_Int | IT_Long | IT_Float | IT_Double | IT_Null | IT_Ref | IT_Tagged
  | IT_Int8 | IT_Int16
  | IT_VectorI8 | IT_VectorI16 | IT_VectorI32 | IT_VectorI64 | IT_VectorF32 | IT_VectorF64

definition irtypes :: "irtype list" where
  "irtypes = [IT_Bottom, IT_Int, IT_Long, IT_Float, IT_Double, IT_Null, IT_Ref, IT_Tagged, IT_Int8,
     IT_Int16, IT_VectorI8, IT_VectorI16, IT_VectorI32, IT_VectorI64, IT_VectorF32, IT_VectorF64]"

fun irCode :: "irtype \<Rightarrow> nat" where
  "irCode IT_Bottom = 0"
| "irCode IT_Int = 1"
| "irCode IT_Long = 2"
| "irCode IT_Float = 3"
| "irCode IT_Double = 4"
| "irCode IT_Null = 5"
| "irCode IT_Ref = 6"
| "irCode IT_Tagged = 7"
| "irCode IT_Int8 = 8"
| "irCode IT_Int16 = 9"
| "irCode IT_VectorI8 = 10"
| "irCode IT_VectorI16 = 11"
| "irCode IT_VectorI32 = 12"
| "irCode IT_VectorI64 = 13"
| "irCode IT_VectorF32 = 14"
| "irCode IT_VectorF64 = 15"

definition irOfCode :: "nat \<Rightarrow> irtype option" where
  "irOfCode n = (if n < 16 then Some (irtypes ! n) else None)"

definition isScalarType :: "irtype \<Rightarrow> bool" where
  "isScalarType t \<longleftrightarrow> t = IT_Int \<or> t = IT_Long \<or> t = IT_Float \<or> t = IT_Double \<or> t = IT_Null
     \<or> t = IT_Ref \<or> t = IT_Tagged"

definition isVectorType :: "irtype \<Rightarrow> bool" where
  "isVectorType t \<longleftrightarrow> irCode t \<ge> irCode IT_VectorI8 \<and> irCode t \<le> irCode IT_VectorF64"

fun laneTypeOf :: "irtype \<Rightarrow> irtype" where
  "laneTypeOf IT_VectorI8 = IT_Int8"
| "laneTypeOf IT_VectorI16 = IT_Int16"
| "laneTypeOf IT_VectorI32 = IT_Int"
| "laneTypeOf IT_VectorI64 = IT_Long"
| "laneTypeOf IT_VectorF32 = IT_Float"
| "laneTypeOf IT_VectorF64 = IT_Double"
| "laneTypeOf _ = IT_Bottom"

fun vectorOfLane :: "irtype \<Rightarrow> irtype" where
  "vectorOfLane IT_Int8 = IT_VectorI8"
| "vectorOfLane IT_Int16 = IT_VectorI16"
| "vectorOfLane IT_Int = IT_VectorI32"
| "vectorOfLane IT_Long = IT_VectorI64"
| "vectorOfLane IT_Float = IT_VectorF32"
| "vectorOfLane IT_Double = IT_VectorF64"
| "vectorOfLane _ = IT_Bottom"

definition ir_join :: "irtype \<Rightarrow> irtype \<Rightarrow> irtype" where
  "ir_join a b =
     (if a = b then a
      else if (a = IT_Null \<and> b = IT_Ref) \<or> (a = IT_Ref \<and> b = IT_Null) then IT_Ref
      else IT_Bottom)"

definition ir_isAssignable :: "irtype \<Rightarrow> irtype \<Rightarrow> bool" where
  "ir_isAssignable from to =
     (if from = to then True else if from = IT_Null \<and> to = IT_Ref then True else False)"

fun ir_typeName :: "irtype \<Rightarrow> string" where
  "ir_typeName IT_Bottom = ''bottom''"
| "ir_typeName IT_Int = ''int''"
| "ir_typeName IT_Long = ''long''"
| "ir_typeName IT_Float = ''float''"
| "ir_typeName IT_Double = ''double''"
| "ir_typeName IT_Null = ''null''"
| "ir_typeName IT_Ref = ''ref''"
| "ir_typeName IT_Tagged = ''tagged''"
| "ir_typeName IT_Int8 = ''i8''"
| "ir_typeName IT_Int16 = ''i16''"
| "ir_typeName IT_VectorI8 = ''vec.i8''"
| "ir_typeName IT_VectorI16 = ''vec.i16''"
| "ir_typeName IT_VectorI32 = ''vec.i32''"
| "ir_typeName IT_VectorI64 = ''vec.i64''"
| "ir_typeName IT_VectorF32 = ''vec.f32''"
| "ir_typeName IT_VectorF64 = ''vec.f64''"

section \<open>Representations, vector operations, barriers\<close>

datatype value_rep =
    VR_UnboxedInt32 | VR_UnboxedInt64 | VR_UnboxedFloat32 | VR_UnboxedFloat64 | VR_CompressedOop
  | VR_NaNBoxedRef | VR_TaggedInt31 | VR_BoxedObject | VR_Polymorphic

fun repName :: "value_rep \<Rightarrow> string" where
  "repName VR_UnboxedInt32 = ''i32''"
| "repName VR_UnboxedInt64 = ''i64''"
| "repName VR_UnboxedFloat32 = ''f32''"
| "repName VR_UnboxedFloat64 = ''f64''"
| "repName VR_CompressedOop = ''oop''"
| "repName VR_NaNBoxedRef = ''nanbox''"
| "repName VR_TaggedInt31 = ''int31''"
| "repName VR_BoxedObject = ''boxed''"
| "repName VR_Polymorphic = ''poly''"

definition kMinVectorLanes :: nat where "kMinVectorLanes = 2"
definition kMaxVectorLanes :: nat where "kMaxVectorLanes = 64"

datatype vector_op =
    VO_Add | VO_Sub | VO_Mul | VO_Div | VO_Rem | VO_And | VO_Or | VO_Xor | VO_Min | VO_Max | VO_Sum

definition isLegalElementWiseOp :: "vector_op \<Rightarrow> irtype \<Rightarrow> bool" where
  "isLegalElementWiseOp v lane =
     (if lane = IT_Int8 \<or> lane = IT_Int16 \<or> lane = IT_Int \<or> lane = IT_Long then v \<noteq> VO_Sum
      else if lane = IT_Float \<or> lane = IT_Double then
        v = VO_Add \<or> v = VO_Sub \<or> v = VO_Mul \<or> v = VO_Div \<or> v = VO_Rem \<or> v = VO_Min \<or> v = VO_Max
      else False)"

definition isLegalReductionOp :: "vector_op \<Rightarrow> irtype \<Rightarrow> bool" where
  "isLegalReductionOp v lane =
     (if lane = IT_Int8 \<or> lane = IT_Int16 \<or> lane = IT_Int \<or> lane = IT_Long then
        v = VO_Sum \<or> v = VO_Min \<or> v = VO_Max \<or> v = VO_And \<or> v = VO_Or \<or> v = VO_Xor
      else if lane = IT_Float \<or> lane = IT_Double then v = VO_Sum \<or> v = VO_Min \<or> v = VO_Max
      else False)"

fun vectorOpName :: "vector_op \<Rightarrow> string" where
  "vectorOpName VO_Add = ''add''"
| "vectorOpName VO_Sub = ''sub''"
| "vectorOpName VO_Mul = ''mul''"
| "vectorOpName VO_Div = ''div''"
| "vectorOpName VO_Rem = ''rem''"
| "vectorOpName VO_And = ''and''"
| "vectorOpName VO_Or = ''or''"
| "vectorOpName VO_Xor = ''xor''"
| "vectorOpName VO_Min = ''min''"
| "vectorOpName VO_Max = ''max''"
| "vectorOpName VO_Sum = ''sum''"

datatype membar_kind =
    MB_LoadLoad | MB_StoreStore | MB_LoadStore | MB_StoreLoad | MB_Acquire | MB_Release

fun memBarName :: "membar_kind \<Rightarrow> string" where
  "memBarName MB_LoadLoad = ''loadload''"
| "memBarName MB_StoreStore = ''storestore''"
| "memBarName MB_LoadStore = ''loadstore''"
| "memBarName MB_StoreLoad = ''storeload''"
| "memBarName MB_Acquire = ''acquire''"
| "memBarName MB_Release = ''release''"

section \<open>Vector payloads\<close>

definition packVecPayload :: "irtype \<Rightarrow> 32 word \<Rightarrow> 32 word" where
  "packVecPayload lane lanes = push_bit 8 lanes OR word_of_nat (irCode lane)"

definition unpackVecLane :: "32 word \<Rightarrow> irtype option" where
  "unpackVecLane p = irOfCode (unat (p AND 0xFF))"

definition unpackVecLanes :: "32 word \<Rightarrow> 32 word" where
  "unpackVecLanes p = drop_bit 8 p"

section \<open>From RBC types\<close>

text \<open>The conversion of the graph builder (\<open>compiler/passes/src/GraphBuilder.cpp\<close>).\<close>

fun rtypeToIr :: "rtype \<Rightarrow> irtype" where
  "rtypeToIr RT_Int = IT_Int"
| "rtypeToIr RT_Long = IT_Long"
| "rtypeToIr RT_Float = IT_Float"
| "rtypeToIr RT_Double = IT_Double"
| "rtypeToIr RT_Null = IT_Null"
| "rtypeToIr RT_Ref = IT_Ref"
| "rtypeToIr RT_Bottom = IT_Bottom"

section \<open>Lattice\<close>

interpretation irt: flat_ref_lattice ir_join ir_isAssignable IT_Bottom
  by (rule flat_ref_latticeI [where nl = IT_Null and rf = IT_Ref])
    (simp_all add: ir_join_def ir_isAssignable_def)

lemma irOfCode_irCode [simp]: "irOfCode (irCode t) = Some t"
  by (cases t) (simp_all add: irOfCode_def irtypes_def)

lemma irCode_less: "irCode t < 16"
  by (cases t) simp_all

lemma irCode_irOfCode: "irOfCode n = Some t \<Longrightarrow> irCode t = n"
proof -
  have "\<forall>n < 16. irCode (irtypes ! n) = n"
    by (simp add: irtypes_def All_less_Suc numeral_eq_Suc)
  then show "irOfCode n = Some t \<Longrightarrow> irCode t = n" by (auto simp: irOfCode_def split: if_split_asm)
qed

lemma isVectorType_iff: "isVectorType t \<longleftrightarrow> laneTypeOf t \<noteq> IT_Bottom"
  by (cases t) (simp_all add: isVectorType_def)

lemma and_0xFF: "(w :: 32 word) AND 0xFF = take_bit 8 w"
  by (simp add: take_bit_eq_mask mask_eq_exp_minus_1)

lemma take_bit_code: "take_bit 8 (word_of_nat (irCode t) :: 32 word) = word_of_nat (irCode t)"
  by (cases t) simp_all

lemma drop_bit_code: "drop_bit 8 (word_of_nat (irCode t) :: 32 word) = 0"
  by (cases t) simp_all

lemma shift_back:
  assumes "(w :: 32 word) < 2 ^ 24"
  shows "drop_bit 8 (push_bit 8 w) = w"
proof -
  have "unat w < 2 ^ 24" using assms by (simp add: word_less_nat_alt)
  then have "unat (push_bit 8 w) = unat w * 2 ^ 8"
    by (simp add: push_bit_eq_mult unat_word_ariths)
  then show ?thesis
    by (simp add: word_unat_eq_iff drop_bit_eq_div unat_div)
qed

lemma unat_code: "unat (word_of_nat (irCode t) :: 32 word) = irCode t"
  using irCode_less [of t] by (simp add: unat_of_nat take_bit_nat_eq_self)

section \<open>Properties\<close>

text \<open>The IR's scalar types mirror the RBC types: the conversion is injective, commutes
  with the joins, and preserves and reflects assignability.\<close>

theorem rtype_embedding:
  "inj rtypeToIr \<and> rtypeToIr (join a b) = ir_join (rtypeToIr a) (rtypeToIr b)
   \<and> (ir_isAssignable (rtypeToIr a) (rtypeToIr b) \<longleftrightarrow> isAssignable a b)"
proof (intro conjI)
  show "inj rtypeToIr"
  proof (rule injI)
    show "rtypeToIr x = rtypeToIr y \<Longrightarrow> x = y" for x y by (cases x; cases y) simp_all
  qed
  show "rtypeToIr (join a b) = ir_join (rtypeToIr a) (rtypeToIr b)"
    by (cases a; cases b) (simp_all add: join_def ir_join_def)
  show "ir_isAssignable (rtypeToIr a) (rtypeToIr b) \<longleftrightarrow> isAssignable a b"
    by (cases a; cases b) (simp_all add: isAssignable_def ir_isAssignable_def)
qed

text \<open>Packing a lane type and a lane count that fits 24 bits into a payload and
  unpacking it gives both back; and the two conversions between lane and vector types are inverse
  on the types for which they are defined.\<close>

theorem vector_payload_roundtrip:
  assumes "lanes < 2 ^ 24"
  shows "unpackVecLane (packVecPayload lane lanes) = Some lane \<and>
    unpackVecLanes (packVecPayload lane lanes) = lanes \<and>
    (isVectorType t \<longrightarrow> vectorOfLane (laneTypeOf t) = t) \<and>
    (vectorOfLane lane \<noteq> IT_Bottom \<longrightarrow> laneTypeOf (vectorOfLane lane) = lane \<and> isVectorType (vectorOfLane lane))"
proof (intro conjI)
  show "unpackVecLane (packVecPayload lane lanes) = Some lane"
    by (simp add: unpackVecLane_def packVecPayload_def and_0xFF take_bit_or take_bit_push_bit
        take_bit_code unat_code)
  show "unpackVecLanes (packVecPayload lane lanes) = lanes"
    by (simp add: unpackVecLanes_def packVecPayload_def drop_bit_or drop_bit_code shift_back [OF assms])
qed (cases t; cases lane; simp add: isVectorType_def)+

theorem vector_payload_roundtrip_witness:
  "unpackVecLane (packVecPayload IT_Float 4) = Some IT_Float \<and> unpackVecLanes (packVecPayload IT_Float 4) = 4"
  using vector_payload_roundtrip [of 4 IT_Float IT_VectorI8] by simp

end
