(* ===== verification/Ir_Node.thy ===== *)
theory Ir_Node
  imports Ir_Effect Ir_Type
begin

unbundle bit_operations_syntax

text \<open>
  The node vocabulary of the IR (\<open>include/b2/ir/Node.h\<close>) and the registry that gives every node
  kind its input signature and effect (\<open>compiler/ir/core/NodeInfo.cpp\<close>).

  \<open>NodeKind\<close> is an enumeration over \<open>std::uint16_t\<close> that the deserializer fills from raw
  integers, so a node kind is its code, a natural number, with one name per enumerator;
  \<open>info\<close> answers every code, the ones above the last enumerator with the bad row.
\<close>

section \<open>Node kinds\<close>

type_synonym node_kind = nat

text \<open>control\<close>

abbreviation (input) Nk_Start :: node_kind where "Nk_Start \<equiv> 0"
abbreviation (input) Nk_End :: node_kind where "Nk_End \<equiv> 1"
abbreviation (input) Nk_Region :: node_kind where "Nk_Region \<equiv> 2"
abbreviation (input) Nk_If :: node_kind where "Nk_If \<equiv> 3"
abbreviation (input) Nk_IfTrue :: node_kind where "Nk_IfTrue \<equiv> 4"
abbreviation (input) Nk_IfFalse :: node_kind where "Nk_IfFalse \<equiv> 5"
abbreviation (input) Nk_Switch :: node_kind where "Nk_Switch \<equiv> 6"
abbreviation (input) Nk_SwitchCase :: node_kind where "Nk_SwitchCase \<equiv> 7"
abbreviation (input) Nk_SwitchDefault :: node_kind where "Nk_SwitchDefault \<equiv> 8"
abbreviation (input) Nk_LoopBegin :: node_kind where "Nk_LoopBegin \<equiv> 9"
abbreviation (input) Nk_LoopEnd :: node_kind where "Nk_LoopEnd \<equiv> 10"
abbreviation (input) Nk_LoopExit :: node_kind where "Nk_LoopExit \<equiv> 11"
abbreviation (input) Nk_Return :: node_kind where "Nk_Return \<equiv> 12"
abbreviation (input) Nk_Unwind :: node_kind where "Nk_Unwind \<equiv> 13"
abbreviation (input) Nk_Deopt :: node_kind where "Nk_Deopt \<equiv> 14"

text \<open>memory\<close>

abbreviation (input) Nk_LoadField :: node_kind where "Nk_LoadField \<equiv> 15"
abbreviation (input) Nk_StoreField :: node_kind where "Nk_StoreField \<equiv> 16"
abbreviation (input) Nk_LoadStatic :: node_kind where "Nk_LoadStatic \<equiv> 17"
abbreviation (input) Nk_StoreStatic :: node_kind where "Nk_StoreStatic \<equiv> 18"
abbreviation (input) Nk_LoadElem :: node_kind where "Nk_LoadElem \<equiv> 19"
abbreviation (input) Nk_StoreElem :: node_kind where "Nk_StoreElem \<equiv> 20"
abbreviation (input) Nk_ArrayLength :: node_kind where "Nk_ArrayLength \<equiv> 21"
abbreviation (input) Nk_MemBar :: node_kind where "Nk_MemBar \<equiv> 22"
abbreviation (input) Nk_MonitorEnter :: node_kind where "Nk_MonitorEnter \<equiv> 23"
abbreviation (input) Nk_MonitorExit :: node_kind where "Nk_MonitorExit \<equiv> 24"
abbreviation (input) Nk_New :: node_kind where "Nk_New \<equiv> 25"
abbreviation (input) Nk_NewArray :: node_kind where "Nk_NewArray \<equiv> 26"
abbreviation (input) Nk_NewRefArray :: node_kind where "Nk_NewRefArray \<equiv> 27"
abbreviation (input) Nk_NewMultiArray :: node_kind where "Nk_NewMultiArray \<equiv> 28"
abbreviation (input) Nk_ClassInit :: node_kind where "Nk_ClassInit \<equiv> 29"

text \<open>calls\<close>

abbreviation (input) Nk_CallStatic :: node_kind where "Nk_CallStatic \<equiv> 30"
abbreviation (input) Nk_CallVirtual :: node_kind where "Nk_CallVirtual \<equiv> 31"
abbreviation (input) Nk_CallInterface :: node_kind where "Nk_CallInterface \<equiv> 32"
abbreviation (input) Nk_CallDynamic :: node_kind where "Nk_CallDynamic \<equiv> 33"
abbreviation (input) Nk_CallExcept :: node_kind where "Nk_CallExcept \<equiv> 34"
abbreviation (input) Nk_LoadException :: node_kind where "Nk_LoadException \<equiv> 35"

text \<open>object / type ops\<close>

abbreviation (input) Nk_CheckCast :: node_kind where "Nk_CheckCast \<equiv> 36"
abbreviation (input) Nk_InstanceOf :: node_kind where "Nk_InstanceOf \<equiv> 37"

text \<open>guards (Rule 32: GuardKind taxonomy)\<close>

abbreviation (input) Nk_Guard :: node_kind where "Nk_Guard \<equiv> 38"

text \<open>constants / parameters\<close>

abbreviation (input) Nk_ConstantI :: node_kind where "Nk_ConstantI \<equiv> 39"
abbreviation (input) Nk_ConstantL :: node_kind where "Nk_ConstantL \<equiv> 40"
abbreviation (input) Nk_ConstantF :: node_kind where "Nk_ConstantF \<equiv> 41"
abbreviation (input) Nk_ConstantD :: node_kind where "Nk_ConstantD \<equiv> 42"
abbreviation (input) Nk_ConstantNull :: node_kind where "Nk_ConstantNull \<equiv> 43"
abbreviation (input) Nk_ConstantSym :: node_kind where "Nk_ConstantSym \<equiv> 44"
abbreviation (input) Nk_Parameter :: node_kind where "Nk_Parameter \<equiv> 45"

text \<open>int arithmetic\<close>

abbreviation (input) Nk_AddI :: node_kind where "Nk_AddI \<equiv> 46"
abbreviation (input) Nk_SubI :: node_kind where "Nk_SubI \<equiv> 47"
abbreviation (input) Nk_MulI :: node_kind where "Nk_MulI \<equiv> 48"
abbreviation (input) Nk_DivI :: node_kind where "Nk_DivI \<equiv> 49"
abbreviation (input) Nk_RemI :: node_kind where "Nk_RemI \<equiv> 50"
abbreviation (input) Nk_NegI :: node_kind where "Nk_NegI \<equiv> 51"
abbreviation (input) Nk_ShlI :: node_kind where "Nk_ShlI \<equiv> 52"
abbreviation (input) Nk_ShrI :: node_kind where "Nk_ShrI \<equiv> 53"
abbreviation (input) Nk_UShrI :: node_kind where "Nk_UShrI \<equiv> 54"
abbreviation (input) Nk_AndI :: node_kind where "Nk_AndI \<equiv> 55"
abbreviation (input) Nk_OrI :: node_kind where "Nk_OrI \<equiv> 56"
abbreviation (input) Nk_XorI :: node_kind where "Nk_XorI \<equiv> 57"

text \<open>long arithmetic (shift counts stay Int, per JVM)\<close>

abbreviation (input) Nk_AddL :: node_kind where "Nk_AddL \<equiv> 58"
abbreviation (input) Nk_SubL :: node_kind where "Nk_SubL \<equiv> 59"
abbreviation (input) Nk_MulL :: node_kind where "Nk_MulL \<equiv> 60"
abbreviation (input) Nk_DivL :: node_kind where "Nk_DivL \<equiv> 61"
abbreviation (input) Nk_RemL :: node_kind where "Nk_RemL \<equiv> 62"
abbreviation (input) Nk_NegL :: node_kind where "Nk_NegL \<equiv> 63"
abbreviation (input) Nk_ShlL :: node_kind where "Nk_ShlL \<equiv> 64"
abbreviation (input) Nk_ShrL :: node_kind where "Nk_ShrL \<equiv> 65"
abbreviation (input) Nk_UShrL :: node_kind where "Nk_UShrL \<equiv> 66"
abbreviation (input) Nk_AndL :: node_kind where "Nk_AndL \<equiv> 67"
abbreviation (input) Nk_OrL :: node_kind where "Nk_OrL \<equiv> 68"
abbreviation (input) Nk_XorL :: node_kind where "Nk_XorL \<equiv> 69"

text \<open>float arithmetic\<close>

abbreviation (input) Nk_AddF :: node_kind where "Nk_AddF \<equiv> 70"
abbreviation (input) Nk_SubF :: node_kind where "Nk_SubF \<equiv> 71"
abbreviation (input) Nk_MulF :: node_kind where "Nk_MulF \<equiv> 72"
abbreviation (input) Nk_DivF :: node_kind where "Nk_DivF \<equiv> 73"
abbreviation (input) Nk_RemF :: node_kind where "Nk_RemF \<equiv> 74"
abbreviation (input) Nk_NegF :: node_kind where "Nk_NegF \<equiv> 75"

text \<open>double arithmetic\<close>

abbreviation (input) Nk_AddD :: node_kind where "Nk_AddD \<equiv> 76"
abbreviation (input) Nk_SubD :: node_kind where "Nk_SubD \<equiv> 77"
abbreviation (input) Nk_MulD :: node_kind where "Nk_MulD \<equiv> 78"
abbreviation (input) Nk_DivD :: node_kind where "Nk_DivD \<equiv> 79"
abbreviation (input) Nk_RemD :: node_kind where "Nk_RemD \<equiv> 80"
abbreviation (input) Nk_NegD :: node_kind where "Nk_NegD \<equiv> 81"

text \<open>comparisons\<close>

abbreviation (input) Nk_CmpI :: node_kind where "Nk_CmpI \<equiv> 82"
abbreviation (input) Nk_CmpL :: node_kind where "Nk_CmpL \<equiv> 83"
abbreviation (input) Nk_CmpFl :: node_kind where "Nk_CmpFl \<equiv> 84"
abbreviation (input) Nk_CmpFg :: node_kind where "Nk_CmpFg \<equiv> 85"
abbreviation (input) Nk_CmpDl :: node_kind where "Nk_CmpDl \<equiv> 86"
abbreviation (input) Nk_CmpDg :: node_kind where "Nk_CmpDg \<equiv> 87"

text \<open>conversions (Rule 33: explicit only)\<close>

abbreviation (input) Nk_I2L :: node_kind where "Nk_I2L \<equiv> 88"
abbreviation (input) Nk_I2F :: node_kind where "Nk_I2F \<equiv> 89"
abbreviation (input) Nk_I2D :: node_kind where "Nk_I2D \<equiv> 90"
abbreviation (input) Nk_L2I :: node_kind where "Nk_L2I \<equiv> 91"
abbreviation (input) Nk_L2F :: node_kind where "Nk_L2F \<equiv> 92"
abbreviation (input) Nk_L2D :: node_kind where "Nk_L2D \<equiv> 93"
abbreviation (input) Nk_F2I :: node_kind where "Nk_F2I \<equiv> 94"
abbreviation (input) Nk_F2L :: node_kind where "Nk_F2L \<equiv> 95"
abbreviation (input) Nk_F2D :: node_kind where "Nk_F2D \<equiv> 96"
abbreviation (input) Nk_D2I :: node_kind where "Nk_D2I \<equiv> 97"
abbreviation (input) Nk_D2L :: node_kind where "Nk_D2L \<equiv> 98"
abbreviation (input) Nk_D2F :: node_kind where "Nk_D2F \<equiv> 99"
abbreviation (input) Nk_I2B :: node_kind where "Nk_I2B \<equiv> 100"
abbreviation (input) Nk_I2C :: node_kind where "Nk_I2C \<equiv> 101"
abbreviation (input) Nk_I2S :: node_kind where "Nk_I2S \<equiv> 102"
abbreviation (input) Nk_SignExtend :: node_kind where "Nk_SignExtend \<equiv> 103"
abbreviation (input) Nk_ZeroExtend :: node_kind where "Nk_ZeroExtend \<equiv> 104"
abbreviation (input) Nk_Truncate :: node_kind where "Nk_Truncate \<equiv> 105"
abbreviation (input) Nk_BitCast :: node_kind where "Nk_BitCast \<equiv> 106"
abbreviation (input) Nk_CompressedRefEncode :: node_kind where "Nk_CompressedRefEncode \<equiv> 107"
abbreviation (input) Nk_CompressedRefDecode :: node_kind where "Nk_CompressedRefDecode \<equiv> 108"
abbreviation (input) Nk_BoxPrimitive :: node_kind where "Nk_BoxPrimitive \<equiv> 109"
abbreviation (input) Nk_UnboxPrimitive :: node_kind where "Nk_UnboxPrimitive \<equiv> 110"

text \<open>merges\<close>

abbreviation (input) Nk_Phi :: node_kind where "Nk_Phi \<equiv> 111"

text \<open>vector / SIMD (SWLP, Part XVIII)\<close>

abbreviation (input) Nk_VectorBroadcast :: node_kind where "Nk_VectorBroadcast \<equiv> 112"
abbreviation (input) Nk_VectorPack :: node_kind where "Nk_VectorPack \<equiv> 113"
abbreviation (input) Nk_VectorExtract :: node_kind where "Nk_VectorExtract \<equiv> 114"
abbreviation (input) Nk_VectorInsert :: node_kind where "Nk_VectorInsert \<equiv> 115"
abbreviation (input) Nk_VectorOp :: node_kind where "Nk_VectorOp \<equiv> 116"
abbreviation (input) Nk_VectorMaskOp :: node_kind where "Nk_VectorMaskOp \<equiv> 117"
abbreviation (input) Nk_VectorLoad :: node_kind where "Nk_VectorLoad \<equiv> 118"
abbreviation (input) Nk_VectorStore :: node_kind where "Nk_VectorStore \<equiv> 119"
abbreviation (input) Nk_VectorReduce :: node_kind where "Nk_VectorReduce \<equiv> 120"

text \<open>PEA virtual objects / materialization (Part XVIII)\<close>

abbreviation (input) Nk_VirtualObjectState :: node_kind where "Nk_VirtualObjectState \<equiv> 121"
abbreviation (input) Nk_Materialize :: node_kind where "Nk_Materialize \<equiv> 122"

text \<open>tagged values (NaN boxing, Part XVIII)\<close>

abbreviation (input) Nk_TagValue :: node_kind where "Nk_TagValue \<equiv> 123"
abbreviation (input) Nk_UntagValue :: node_kind where "Nk_UntagValue \<equiv> 124"
abbreviation (input) Nk_RepTransitionGuard :: node_kind where "Nk_RepTransitionGuard \<equiv> 125"

text \<open>state, and the v2 additions of the graph builder\<close>

abbreviation (input) Nk_FrameState :: node_kind where "Nk_FrameState \<equiv> 126"
abbreviation (input) Nk_Undef :: node_kind where "Nk_Undef \<equiv> 127"
abbreviation (input) Nk_Not :: node_kind where "Nk_Not \<equiv> 128"
abbreviation (input) Nk_IsNull :: node_kind where "Nk_IsNull \<equiv> 129"
abbreviation (input) Nk_RefEq :: node_kind where "Nk_RefEq \<equiv> 130"
abbreviation (input) Nk_EqI :: node_kind where "Nk_EqI \<equiv> 131"
abbreviation (input) Nk_NeI :: node_kind where "Nk_NeI \<equiv> 132"
abbreviation (input) Nk_LtI :: node_kind where "Nk_LtI \<equiv> 133"
abbreviation (input) Nk_LeI :: node_kind where "Nk_LeI \<equiv> 134"
abbreviation (input) Nk_GtI :: node_kind where "Nk_GtI \<equiv> 135"
abbreviation (input) Nk_GeI :: node_kind where "Nk_GeI \<equiv> 136"

definition nodeKindCount :: nat where
  "nodeKindCount = 137"

section \<open>Guards, flags, roles and classes\<close>

datatype guard_kind =
    GK_None | GK_NullCheck | GK_BoundsCheck | GK_ZeroCheck | GK_ClassCast | GK_ArrayStore
  | GK_TypeProfile | GK_UnstableIf | GK_UnstableSwitch | GK_LoopLimit | GK_Deoptimize

fun guardKindName :: "guard_kind \<Rightarrow> string" where
  "guardKindName GK_None = ''none''"
| "guardKindName GK_NullCheck = ''nullcheck''"
| "guardKindName GK_BoundsCheck = ''boundscheck''"
| "guardKindName GK_ZeroCheck = ''zerocheck''"
| "guardKindName GK_ClassCast = ''classcast''"
| "guardKindName GK_ArrayStore = ''arraystore''"
| "guardKindName GK_TypeProfile = ''typeprofile''"
| "guardKindName GK_UnstableIf = ''unstableif''"
| "guardKindName GK_UnstableSwitch = ''unstableswitch''"
| "guardKindName GK_LoopLimit = ''looplimit''"
| "guardKindName GK_Deoptimize = ''deoptimize''"

text \<open>\<open>NodeFlag\<close> is a bit of a 16-bit mask; \<open>Flags\<close> wraps the mask.\<close>

datatype node_flag = F_None | F_Dead | F_Replaced | F_Speculative | F_Pinned | F_NeverNull | F_OnExceptionPath

fun flagBits :: "node_flag \<Rightarrow> 16 word" where
  "flagBits F_None = 0"
| "flagBits F_Dead = 1"
| "flagBits F_Replaced = 2"
| "flagBits F_Speculative = 4"
| "flagBits F_Pinned = 8"
| "flagBits F_NeverNull = 16"
| "flagBits F_OnExceptionPath = 32"

definition flagsSet :: "node_flag \<Rightarrow> 16 word \<Rightarrow> 16 word" where
  "flagsSet f raw = raw OR flagBits f"

definition flagsClear :: "node_flag \<Rightarrow> 16 word \<Rightarrow> 16 word" where
  "flagsClear f raw = raw AND NOT (flagBits f)"

definition flagsHas :: "16 word \<Rightarrow> node_flag \<Rightarrow> bool" where
  "flagsHas raw f \<longleftrightarrow> raw AND flagBits f \<noteq> 0"

datatype input_role = IR_None | IR_Ctrl | IR_Mem | IR_Data | IR_FrameState | IR_Parent

datatype node_class = NC_Control | NC_Memory | NC_Call | NC_TypeOp | NC_Guard | NC_Value | NC_State

record node_info =
  ni_name :: string
  ni_cls :: node_class
  ni_numFixed :: nat
  ni_variadic :: bool
  ni_variadicRole :: input_role
  ni_hasFrameState :: bool
  ni_roles :: "input_role list"
  ni_effect :: effect_kind

section \<open>The node record\<close>

record node =
  nd_kind :: node_kind
  nd_flags :: "16 word"
  nd_edgeOffset :: nat
  nd_numInputs :: nat
  nd_reserved :: nat
  nd_payload :: nat
  nd_payload2 :: nat
  nd_constValue :: "64 word"
  nd_specMeta :: nat
  nd_epoch :: nat

definition defaultNode :: node where
  "defaultNode = \<lparr>nd_kind = Nk_Start, nd_flags = 0, nd_edgeOffset = 0, nd_numInputs = 0,
     nd_reserved = 0, nd_payload = 0, nd_payload2 = 0, nd_constValue = 0, nd_specMeta = 0,
     nd_epoch = 0\<rparr>"

definition isDead :: "node \<Rightarrow> bool" where
  "isDead n \<longleftrightarrow> flagsHas (nd_flags n) F_Dead"

section \<open>The registry\<close>

text \<open>\<open>makeRow\<close> copies at most six roles into a row whose role array starts as six \<open>None\<close>.\<close>

fun fillRoles :: "nat \<Rightarrow> input_role list \<Rightarrow> input_role list \<Rightarrow> input_role list" where
  "fillRoles i [] acc = acc"
| "fillRoles i (r # rs) acc = fillRoles (Suc i) rs (if i < 6 then acc[i := r] else acc)"

definition makeRow ::
  "string \<Rightarrow> node_class \<Rightarrow> nat \<Rightarrow> bool \<Rightarrow> input_role \<Rightarrow> bool \<Rightarrow> effect_kind \<Rightarrow> input_role list \<Rightarrow> node_info"
where
  "makeRow nm cls numFixed variadic variadicRole hasFrameState eff roles =
     \<lparr>ni_name = nm, ni_cls = cls, ni_numFixed = numFixed, ni_variadic = variadic,
      ni_variadicRole = variadicRole, ni_hasFrameState = hasFrameState,
      ni_roles = fillRoles 0 roles (replicate 6 IR_None), ni_effect = eff\<rparr>"

definition regControl :: "node_info list" where
  "regControl = [
     makeRow ''Start'' NC_Control 0 False IR_None False EK_Pure [],
     makeRow ''End'' NC_Control 0 True IR_Ctrl False EK_Pure [],
     makeRow ''Region'' NC_Control 0 True IR_Ctrl False EK_Pure [],
     makeRow ''If'' NC_Control 2 False IR_None False EK_Pure [IR_Ctrl, IR_Data],
     makeRow ''IfTrue'' NC_Control 1 False IR_None False EK_Pure [IR_Parent],
     makeRow ''IfFalse'' NC_Control 1 False IR_None False EK_Pure [IR_Parent],
     makeRow ''Switch'' NC_Control 2 False IR_None False EK_Pure [IR_Ctrl, IR_Data],
     makeRow ''SwitchCase'' NC_Control 1 False IR_None False EK_Pure [IR_Parent],
     makeRow ''SwitchDefault'' NC_Control 1 False IR_None False EK_Pure [IR_Parent],
     makeRow ''LoopBegin'' NC_Control 0 True IR_Ctrl False EK_Pure [],
     makeRow ''LoopEnd'' NC_Control 1 False IR_None False EK_Pure [IR_Ctrl],
     makeRow ''LoopExit'' NC_Control 1 False IR_None True EK_Pure [IR_Ctrl],
     makeRow ''Return'' NC_Control 1 True IR_Data False EK_Pure [IR_Ctrl],
     makeRow ''Unwind'' NC_Control 2 False IR_None False EK_ExceptionThrow [IR_Ctrl, IR_Data],
     makeRow ''Deopt'' NC_Control 1 False IR_None True EK_Pure [IR_Ctrl]]"

definition regMemory :: "node_info list" where
  "regMemory = [
     makeRow ''LoadField'' NC_Memory 3 False IR_None False EK_ReadShared [IR_Ctrl, IR_Mem, IR_Data],
     makeRow ''StoreField'' NC_Memory 4 False IR_None False EK_WriteShared [IR_Ctrl, IR_Mem, IR_Data, IR_Data],
     makeRow ''LoadStatic'' NC_Memory 2 False IR_None False EK_ReadShared [IR_Ctrl, IR_Mem],
     makeRow ''StoreStatic'' NC_Memory 3 False IR_None False EK_WriteShared [IR_Ctrl, IR_Mem, IR_Data],
     makeRow ''LoadElem'' NC_Memory 4 False IR_None False EK_ReadShared [IR_Ctrl, IR_Mem, IR_Data, IR_Data],
     makeRow ''StoreElem'' NC_Memory 5 False IR_None False EK_WriteShared [IR_Ctrl, IR_Mem, IR_Data, IR_Data, IR_Data],
     makeRow ''ArrayLength'' NC_Value 1 False IR_None False EK_ReadShared [IR_Data],
     makeRow ''MemBar'' NC_Memory 2 False IR_None False EK_VolatileWrite [IR_Ctrl, IR_Mem],
     makeRow ''MonitorEnter'' NC_Memory 3 False IR_None False EK_MonitorEnter [IR_Ctrl, IR_Mem, IR_Data],
     makeRow ''MonitorExit'' NC_Memory 3 False IR_None False EK_MonitorExit [IR_Ctrl, IR_Mem, IR_Data],
     makeRow ''New'' NC_Memory 1 False IR_None False EK_Allocation [IR_Ctrl],
     makeRow ''NewArray'' NC_Memory 2 False IR_None False EK_Allocation [IR_Ctrl, IR_Data],
     makeRow ''NewRefArray'' NC_Memory 2 False IR_None False EK_Allocation [IR_Ctrl, IR_Data],
     makeRow ''NewMultiArray'' NC_Memory 1 True IR_Data False EK_Allocation [IR_Ctrl],
     makeRow ''ClassInit'' NC_Memory 2 False IR_None False EK_CallOpaque [IR_Ctrl, IR_Mem]]"

definition regCalls :: "node_info list" where
  "regCalls = [
     makeRow ''CallStatic'' NC_Call 2 True IR_Data True EK_CallOpaque [IR_Ctrl, IR_Mem],
     makeRow ''CallVirtual'' NC_Call 2 True IR_Data True EK_CallOpaque [IR_Ctrl, IR_Mem],
     makeRow ''CallInterface'' NC_Call 2 True IR_Data True EK_CallOpaque [IR_Ctrl, IR_Mem],
     makeRow ''CallDynamic'' NC_Call 2 True IR_Data True EK_CallOpaque [IR_Ctrl, IR_Mem],
     makeRow ''CallExcept'' NC_Call 1 False IR_None False EK_Pure [IR_Parent],
     makeRow ''LoadException'' NC_Call 1 False IR_None False EK_Pure [IR_Ctrl]]"

definition regTypeOps :: "node_info list" where
  "regTypeOps = [
     makeRow ''CheckCast'' NC_TypeOp 2 False IR_None False EK_ExceptionThrow [IR_Ctrl, IR_Data],
     makeRow ''InstanceOf'' NC_TypeOp 1 False IR_None False EK_ReadShared [IR_Data]]"

definition regGuards :: "node_info list" where
  "regGuards = [
     makeRow ''Guard'' NC_Guard 2 False IR_None True EK_Pure [IR_Ctrl, IR_Data]]"

definition regConstants :: "node_info list" where
  "regConstants = [
     makeRow ''ConstantI'' NC_Value 0 False IR_None False EK_Pure [],
     makeRow ''ConstantL'' NC_Value 0 False IR_None False EK_Pure [],
     makeRow ''ConstantF'' NC_Value 0 False IR_None False EK_Pure [],
     makeRow ''ConstantD'' NC_Value 0 False IR_None False EK_Pure [],
     makeRow ''ConstantNull'' NC_Value 0 False IR_None False EK_Pure [],
     makeRow ''ConstantSym'' NC_Value 0 False IR_None False EK_Pure [],
     makeRow ''Parameter'' NC_Value 0 False IR_None False EK_Pure []]"

definition regInt :: "node_info list" where
  "regInt = [
     makeRow ''AddI'' NC_Value 2 False IR_None False EK_Pure [IR_Data, IR_Data],
     makeRow ''SubI'' NC_Value 2 False IR_None False EK_Pure [IR_Data, IR_Data],
     makeRow ''MulI'' NC_Value 2 False IR_None False EK_Pure [IR_Data, IR_Data],
     makeRow ''DivI'' NC_Value 2 False IR_None False EK_Pure [IR_Data, IR_Data],
     makeRow ''RemI'' NC_Value 2 False IR_None False EK_Pure [IR_Data, IR_Data],
     makeRow ''NegI'' NC_Value 1 False IR_None False EK_Pure [IR_Data],
     makeRow ''ShlI'' NC_Value 2 False IR_None False EK_Pure [IR_Data, IR_Data],
     makeRow ''ShrI'' NC_Value 2 False IR_None False EK_Pure [IR_Data, IR_Data],
     makeRow ''UShrI'' NC_Value 2 False IR_None False EK_Pure [IR_Data, IR_Data],
     makeRow ''AndI'' NC_Value 2 False IR_None False EK_Pure [IR_Data, IR_Data],
     makeRow ''OrI'' NC_Value 2 False IR_None False EK_Pure [IR_Data, IR_Data],
     makeRow ''XorI'' NC_Value 2 False IR_None False EK_Pure [IR_Data, IR_Data]]"

definition regLong :: "node_info list" where
  "regLong = [
     makeRow ''AddL'' NC_Value 2 False IR_None False EK_Pure [IR_Data, IR_Data],
     makeRow ''SubL'' NC_Value 2 False IR_None False EK_Pure [IR_Data, IR_Data],
     makeRow ''MulL'' NC_Value 2 False IR_None False EK_Pure [IR_Data, IR_Data],
     makeRow ''DivL'' NC_Value 2 False IR_None False EK_Pure [IR_Data, IR_Data],
     makeRow ''RemL'' NC_Value 2 False IR_None False EK_Pure [IR_Data, IR_Data],
     makeRow ''NegL'' NC_Value 1 False IR_None False EK_Pure [IR_Data],
     makeRow ''ShlL'' NC_Value 2 False IR_None False EK_Pure [IR_Data, IR_Data],
     makeRow ''ShrL'' NC_Value 2 False IR_None False EK_Pure [IR_Data, IR_Data],
     makeRow ''UShrL'' NC_Value 2 False IR_None False EK_Pure [IR_Data, IR_Data],
     makeRow ''AndL'' NC_Value 2 False IR_None False EK_Pure [IR_Data, IR_Data],
     makeRow ''OrL'' NC_Value 2 False IR_None False EK_Pure [IR_Data, IR_Data],
     makeRow ''XorL'' NC_Value 2 False IR_None False EK_Pure [IR_Data, IR_Data]]"

definition regFloat :: "node_info list" where
  "regFloat = [
     makeRow ''AddF'' NC_Value 2 False IR_None False EK_Pure [IR_Data, IR_Data],
     makeRow ''SubF'' NC_Value 2 False IR_None False EK_Pure [IR_Data, IR_Data],
     makeRow ''MulF'' NC_Value 2 False IR_None False EK_Pure [IR_Data, IR_Data],
     makeRow ''DivF'' NC_Value 2 False IR_None False EK_Pure [IR_Data, IR_Data],
     makeRow ''RemF'' NC_Value 2 False IR_None False EK_Pure [IR_Data, IR_Data],
     makeRow ''NegF'' NC_Value 1 False IR_None False EK_Pure [IR_Data]]"

definition regDouble :: "node_info list" where
  "regDouble = [
     makeRow ''AddD'' NC_Value 2 False IR_None False EK_Pure [IR_Data, IR_Data],
     makeRow ''SubD'' NC_Value 2 False IR_None False EK_Pure [IR_Data, IR_Data],
     makeRow ''MulD'' NC_Value 2 False IR_None False EK_Pure [IR_Data, IR_Data],
     makeRow ''DivD'' NC_Value 2 False IR_None False EK_Pure [IR_Data, IR_Data],
     makeRow ''RemD'' NC_Value 2 False IR_None False EK_Pure [IR_Data, IR_Data],
     makeRow ''NegD'' NC_Value 1 False IR_None False EK_Pure [IR_Data]]"

definition regCompare :: "node_info list" where
  "regCompare = [
     makeRow ''CmpI'' NC_Value 2 False IR_None False EK_Pure [IR_Data, IR_Data],
     makeRow ''CmpL'' NC_Value 2 False IR_None False EK_Pure [IR_Data, IR_Data],
     makeRow ''CmpFl'' NC_Value 2 False IR_None False EK_Pure [IR_Data, IR_Data],
     makeRow ''CmpFg'' NC_Value 2 False IR_None False EK_Pure [IR_Data, IR_Data],
     makeRow ''CmpDl'' NC_Value 2 False IR_None False EK_Pure [IR_Data, IR_Data],
     makeRow ''CmpDg'' NC_Value 2 False IR_None False EK_Pure [IR_Data, IR_Data]]"

definition regConvert :: "node_info list" where
  "regConvert = [
     makeRow ''I2L'' NC_Value 1 False IR_None False EK_Pure [IR_Data],
     makeRow ''I2F'' NC_Value 1 False IR_None False EK_Pure [IR_Data],
     makeRow ''I2D'' NC_Value 1 False IR_None False EK_Pure [IR_Data],
     makeRow ''L2I'' NC_Value 1 False IR_None False EK_Pure [IR_Data],
     makeRow ''L2F'' NC_Value 1 False IR_None False EK_Pure [IR_Data],
     makeRow ''L2D'' NC_Value 1 False IR_None False EK_Pure [IR_Data],
     makeRow ''F2I'' NC_Value 1 False IR_None False EK_Pure [IR_Data],
     makeRow ''F2L'' NC_Value 1 False IR_None False EK_Pure [IR_Data],
     makeRow ''F2D'' NC_Value 1 False IR_None False EK_Pure [IR_Data],
     makeRow ''D2I'' NC_Value 1 False IR_None False EK_Pure [IR_Data],
     makeRow ''D2L'' NC_Value 1 False IR_None False EK_Pure [IR_Data],
     makeRow ''D2F'' NC_Value 1 False IR_None False EK_Pure [IR_Data],
     makeRow ''I2B'' NC_Value 1 False IR_None False EK_Pure [IR_Data],
     makeRow ''I2C'' NC_Value 1 False IR_None False EK_Pure [IR_Data],
     makeRow ''I2S'' NC_Value 1 False IR_None False EK_Pure [IR_Data],
     makeRow ''SignExtend'' NC_Value 1 False IR_None False EK_Pure [IR_Data],
     makeRow ''ZeroExtend'' NC_Value 1 False IR_None False EK_Pure [IR_Data],
     makeRow ''Truncate'' NC_Value 1 False IR_None False EK_Pure [IR_Data],
     makeRow ''BitCast'' NC_Value 1 False IR_None False EK_Pure [IR_Data],
     makeRow ''CompressedRefEncode'' NC_Value 1 False IR_None False EK_Pure [IR_Data],
     makeRow ''CompressedRefDecode'' NC_Value 1 False IR_None False EK_Pure [IR_Data],
     makeRow ''BoxPrimitive'' NC_Value 1 False IR_None False EK_Pure [IR_Data],
     makeRow ''UnboxPrimitive'' NC_Value 1 False IR_None False EK_Pure [IR_Data]]"

definition regMerge :: "node_info list" where
  "regMerge = [
     makeRow ''Phi'' NC_Value 1 True IR_Data False EK_Pure [IR_Ctrl]]"

definition regVector :: "node_info list" where
  "regVector = [
     makeRow ''VectorBroadcast'' NC_Value 1 False IR_None False EK_Pure [IR_Data],
     makeRow ''VectorPack'' NC_Value 0 True IR_Data False EK_Pure [],
     makeRow ''VectorExtract'' NC_Value 2 False IR_None False EK_Pure [IR_Data, IR_Data],
     makeRow ''VectorInsert'' NC_Value 3 False IR_None False EK_Pure [IR_Data, IR_Data, IR_Data],
     makeRow ''VectorOp'' NC_Value 2 False IR_None False EK_Pure [IR_Data, IR_Data],
     makeRow ''VectorMaskOp'' NC_Value 3 False IR_None False EK_Pure [IR_Data, IR_Data, IR_Data],
     makeRow ''VectorLoad'' NC_Memory 4 False IR_None False EK_ReadShared [IR_Ctrl, IR_Mem, IR_Data, IR_Data],
     makeRow ''VectorStore'' NC_Memory 5 False IR_None False EK_WriteShared [IR_Ctrl, IR_Mem, IR_Data, IR_Data, IR_Data],
     makeRow ''VectorReduce'' NC_Value 1 False IR_None False EK_Pure [IR_Data]]"

definition regVirtual :: "node_info list" where
  "regVirtual = [
     makeRow ''VirtualObjectState'' NC_Value 0 True IR_Data False EK_Pure [],
     makeRow ''Materialize'' NC_Memory 3 False IR_None False EK_Allocation [IR_Ctrl, IR_Mem, IR_Data]]"

definition regTagged :: "node_info list" where
  "regTagged = [
     makeRow ''TagValue'' NC_Value 1 False IR_None False EK_Pure [IR_Data],
     makeRow ''UntagValue'' NC_Value 1 False IR_None False EK_Pure [IR_Data],
     makeRow ''RepTransitionGuard'' NC_Guard 2 False IR_None True EK_Pure [IR_Ctrl, IR_Data]]"

definition regState :: "node_info list" where
  "regState = [
     makeRow ''FrameState'' NC_State 0 True IR_Data False EK_Pure []]"

definition regTests :: "node_info list" where
  "regTests = [
     makeRow ''Undef'' NC_Value 0 False IR_None False EK_Pure [],
     makeRow ''Not'' NC_Value 1 False IR_None False EK_Pure [IR_Data],
     makeRow ''IsNull'' NC_Value 1 False IR_None False EK_Pure [IR_Data],
     makeRow ''RefEq'' NC_Value 2 False IR_None False EK_Pure [IR_Data, IR_Data],
     makeRow ''EqI'' NC_Value 2 False IR_None False EK_Pure [IR_Data, IR_Data],
     makeRow ''NeI'' NC_Value 2 False IR_None False EK_Pure [IR_Data, IR_Data],
     makeRow ''LtI'' NC_Value 2 False IR_None False EK_Pure [IR_Data, IR_Data],
     makeRow ''LeI'' NC_Value 2 False IR_None False EK_Pure [IR_Data, IR_Data],
     makeRow ''GtI'' NC_Value 2 False IR_None False EK_Pure [IR_Data, IR_Data],
     makeRow ''GeI'' NC_Value 2 False IR_None False EK_Pure [IR_Data, IR_Data]]"

definition kRegistry :: "node_info list" where
  "kRegistry = regControl @ regMemory @ regCalls @ regTypeOps @ regGuards @ regConstants @ regInt @ regLong
     @ regFloat @ regDouble @ regCompare
     @ regConvert @ regMerge @ regVector @ regVirtual @ regTagged @ regState @ regTests"

definition kBadNodeInfo :: node_info where
  "kBadNodeInfo = makeRow ''bad<kind>'' NC_Value 0 False IR_None False EK_Pure []"

definition info_ir :: "node_kind \<Rightarrow> node_info" where
  "info_ir k = (if k < nodeKindCount then kRegistry ! k else kBadNodeInfo)"

definition nodeKindName :: "node_kind \<Rightarrow> string" where
  "nodeKindName k = ni_name (info_ir k)"

definition registeredNodeKinds :: nat where
  "registeredNodeKinds = u16 (length kRegistry)"

lemmas registry_defs = kRegistry_def regControl_def regMemory_def regCalls_def regTypeOps_def
  regGuards_def regConstants_def regInt_def regLong_def regFloat_def regDouble_def regCompare_def
  regConvert_def regMerge_def regVector_def regVirtual_def regTagged_def regState_def regTests_def

section \<open>What the registry guarantees\<close>

text \<open>
  The conventions the verifier and the pipeline rely on: the role array has exactly the fixed
  prefix filled, a row is variadic exactly when it names a variadic role, the trailing frame
  state is never listed as a role, a memory input comes right after a control input, and a memory
  or call node that is not a projection has an effect.
\<close>

definition rolesOk :: "node_info \<Rightarrow> bool" where
  "rolesOk ni \<longleftrightarrow> length (ni_roles ni) = 6 \<and> ni_numFixed ni \<le> 6
     \<and> list_all (\<lambda>r. r \<noteq> IR_None \<and> r \<noteq> IR_FrameState) (take (ni_numFixed ni) (ni_roles ni))
     \<and> list_all (\<lambda>r. r = IR_None) (drop (ni_numFixed ni) (ni_roles ni))
     \<and> ni_variadic ni = (ni_variadicRole ni \<noteq> IR_None)
     \<and> ni_variadicRole ni \<notin> {IR_FrameState, IR_Mem, IR_Parent}"

definition effectOk :: "node_info \<Rightarrow> bool" where
  "effectOk ni \<longleftrightarrow> (ni_cls ni \<noteq> NC_Memory \<or> ni_effect ni \<noteq> EK_Pure)
     \<and> (ni_cls ni \<noteq> NC_Guard \<or> ni_hasFrameState ni)
     \<and> (IR_Mem \<notin> set (ni_roles ni) \<or> ni_effect ni \<noteq> EK_Pure \<and> take 2 (ni_roles ni) = [IR_Ctrl, IR_Mem])
     \<and> count_list (ni_roles ni) IR_Mem \<le> 1"

text \<open>The enumerators with their names, in the order of the enumeration.\<close>

definition kindNames :: "(node_kind \<times> string) list" where
  "kindNames = [
     (Nk_Start, ''Start''), (Nk_End, ''End''), (Nk_Region, ''Region''), (Nk_If, ''If''),
     (Nk_IfTrue, ''IfTrue''), (Nk_IfFalse, ''IfFalse''), (Nk_Switch, ''Switch''),
     (Nk_SwitchCase, ''SwitchCase''), (Nk_SwitchDefault, ''SwitchDefault''),
     (Nk_LoopBegin, ''LoopBegin''), (Nk_LoopEnd, ''LoopEnd''), (Nk_LoopExit, ''LoopExit''),
     (Nk_Return, ''Return''), (Nk_Unwind, ''Unwind''), (Nk_Deopt, ''Deopt''),
     (Nk_LoadField, ''LoadField''), (Nk_StoreField, ''StoreField''),
     (Nk_LoadStatic, ''LoadStatic''), (Nk_StoreStatic, ''StoreStatic''),
     (Nk_LoadElem, ''LoadElem''), (Nk_StoreElem, ''StoreElem''), (Nk_ArrayLength, ''ArrayLength''),
     (Nk_MemBar, ''MemBar''), (Nk_MonitorEnter, ''MonitorEnter''),
     (Nk_MonitorExit, ''MonitorExit''), (Nk_New, ''New''), (Nk_NewArray, ''NewArray''),
     (Nk_NewRefArray, ''NewRefArray''), (Nk_NewMultiArray, ''NewMultiArray''),
     (Nk_ClassInit, ''ClassInit''), (Nk_CallStatic, ''CallStatic''),
     (Nk_CallVirtual, ''CallVirtual''), (Nk_CallInterface, ''CallInterface''),
     (Nk_CallDynamic, ''CallDynamic''), (Nk_CallExcept, ''CallExcept''),
     (Nk_LoadException, ''LoadException''), (Nk_CheckCast, ''CheckCast''),
     (Nk_InstanceOf, ''InstanceOf''), (Nk_Guard, ''Guard''), (Nk_ConstantI, ''ConstantI''),
     (Nk_ConstantL, ''ConstantL''), (Nk_ConstantF, ''ConstantF''), (Nk_ConstantD, ''ConstantD''),
     (Nk_ConstantNull, ''ConstantNull''), (Nk_ConstantSym, ''ConstantSym''),
     (Nk_Parameter, ''Parameter''), (Nk_AddI, ''AddI''), (Nk_SubI, ''SubI''), (Nk_MulI, ''MulI''),
     (Nk_DivI, ''DivI''), (Nk_RemI, ''RemI''), (Nk_NegI, ''NegI''), (Nk_ShlI, ''ShlI''),
     (Nk_ShrI, ''ShrI''), (Nk_UShrI, ''UShrI''), (Nk_AndI, ''AndI''), (Nk_OrI, ''OrI''),
     (Nk_XorI, ''XorI''), (Nk_AddL, ''AddL''), (Nk_SubL, ''SubL''), (Nk_MulL, ''MulL''),
     (Nk_DivL, ''DivL''), (Nk_RemL, ''RemL''), (Nk_NegL, ''NegL''), (Nk_ShlL, ''ShlL''),
     (Nk_ShrL, ''ShrL''), (Nk_UShrL, ''UShrL''), (Nk_AndL, ''AndL''), (Nk_OrL, ''OrL''),
     (Nk_XorL, ''XorL''), (Nk_AddF, ''AddF''), (Nk_SubF, ''SubF''), (Nk_MulF, ''MulF''),
     (Nk_DivF, ''DivF''), (Nk_RemF, ''RemF''), (Nk_NegF, ''NegF''), (Nk_AddD, ''AddD''),
     (Nk_SubD, ''SubD''), (Nk_MulD, ''MulD''), (Nk_DivD, ''DivD''), (Nk_RemD, ''RemD''),
     (Nk_NegD, ''NegD''), (Nk_CmpI, ''CmpI''), (Nk_CmpL, ''CmpL''), (Nk_CmpFl, ''CmpFl''),
     (Nk_CmpFg, ''CmpFg''), (Nk_CmpDl, ''CmpDl''), (Nk_CmpDg, ''CmpDg''), (Nk_I2L, ''I2L''),
     (Nk_I2F, ''I2F''), (Nk_I2D, ''I2D''), (Nk_L2I, ''L2I''), (Nk_L2F, ''L2F''), (Nk_L2D, ''L2D''),
     (Nk_F2I, ''F2I''), (Nk_F2L, ''F2L''), (Nk_F2D, ''F2D''), (Nk_D2I, ''D2I''), (Nk_D2L, ''D2L''),
     (Nk_D2F, ''D2F''), (Nk_I2B, ''I2B''), (Nk_I2C, ''I2C''), (Nk_I2S, ''I2S''),
     (Nk_SignExtend, ''SignExtend''), (Nk_ZeroExtend, ''ZeroExtend''), (Nk_Truncate, ''Truncate''),
     (Nk_BitCast, ''BitCast''), (Nk_CompressedRefEncode, ''CompressedRefEncode''),
     (Nk_CompressedRefDecode, ''CompressedRefDecode''), (Nk_BoxPrimitive, ''BoxPrimitive''),
     (Nk_UnboxPrimitive, ''UnboxPrimitive''), (Nk_Phi, ''Phi''),
     (Nk_VectorBroadcast, ''VectorBroadcast''), (Nk_VectorPack, ''VectorPack''),
     (Nk_VectorExtract, ''VectorExtract''), (Nk_VectorInsert, ''VectorInsert''),
     (Nk_VectorOp, ''VectorOp''), (Nk_VectorMaskOp, ''VectorMaskOp''),
     (Nk_VectorLoad, ''VectorLoad''), (Nk_VectorStore, ''VectorStore''),
     (Nk_VectorReduce, ''VectorReduce''), (Nk_VirtualObjectState, ''VirtualObjectState''),
     (Nk_Materialize, ''Materialize''), (Nk_TagValue, ''TagValue''),
     (Nk_UntagValue, ''UntagValue''), (Nk_RepTransitionGuard, ''RepTransitionGuard''),
     (Nk_FrameState, ''FrameState''), (Nk_Undef, ''Undef''), (Nk_Not, ''Not''),
     (Nk_IsNull, ''IsNull''), (Nk_RefEq, ''RefEq''), (Nk_EqI, ''EqI''), (Nk_NeI, ''NeI''),
     (Nk_LtI, ''LtI''), (Nk_LeI, ''LeI''), (Nk_GtI, ''GtI''), (Nk_GeI, ''GeI'')]"

lemma length_kRegistry [simp]: "length kRegistry = 137"
  by (simp add: registry_defs)

lemma registry_all_ok: "list_all (\<lambda>ni. rolesOk ni \<and> effectOk ni) kRegistry"
  by code_simp

lemma registry_names: "map ni_name kRegistry = map snd kindNames" "map fst kindNames = [0..<137]"
  by code_simp+

lemma kindNames_distinct: "distinct (map snd kindNames)"
  by code_simp

lemma info_ok: "rolesOk (info_ir k) \<and> effectOk (info_ir k)"
proof (cases "k < 137")
  case True
  then show ?thesis
    using registry_all_ok by (auto simp: info_ir_def nodeKindCount_def list_all_length)
next
  case False
  then show ?thesis
    by (simp add: info_ir_def nodeKindCount_def kBadNodeInfo_def makeRow_def rolesOk_def effectOk_def
        numeral_eq_Suc)
qed

lemma info_roles_length [simp]: "length (ni_roles (info_ir k)) = 6"
  using info_ok [of k] by (simp add: rolesOk_def)

lemma info_numFixed_le: "ni_numFixed (info_ir k) \<le> 6"
  using info_ok [of k] by (simp add: rolesOk_def)


section \<open>Flags\<close>

fun flagIndex :: "node_flag \<Rightarrow> nat" where
  "flagIndex F_None = 16"
| "flagIndex F_Dead = 0"
| "flagIndex F_Replaced = 1"
| "flagIndex F_Speculative = 2"
| "flagIndex F_Pinned = 3"
| "flagIndex F_NeverNull = 4"
| "flagIndex F_OnExceptionPath = 5"

lemma flagBits_exp: "flagBits f = 2 ^ flagIndex f"
  by (cases f) simp_all

lemma flagsHas_bit: "flagsHas raw f \<longleftrightarrow> bit raw (flagIndex f)"
  by (simp add: flagsHas_def flagBits_exp and_exp_eq_0_iff_not_bit)

lemma flagIndex_inj: "flagIndex f = flagIndex g \<longleftrightarrow> f = g"
  by (cases f; cases g) simp_all

lemma flagIndex_less: "flagIndex f < 16 \<longleftrightarrow> f \<noteq> F_None"
  by (cases f) simp_all

lemma bit_flagBits: "bit (flagBits f) (flagIndex g) \<longleftrightarrow> f = g \<and> f \<noteq> F_None"
  by (auto simp: flagBits_exp bit_exp_iff flagIndex_inj flagIndex_less possible_bit_word)

lemma flagsHas_set [simp]: "flagsHas (flagsSet f raw) g \<longleftrightarrow> flagsHas raw g \<or> (f = g \<and> f \<noteq> F_None)"
  by (simp add: flagsHas_bit flagsSet_def bit_or_iff bit_flagBits)

lemma flagsHas_None [simp]: "\<not> flagsHas raw F_None"
  by (simp add: flagsHas_def)

lemma flagsHas_clear [simp]: "flagsHas (flagsClear f raw) g \<longleftrightarrow> flagsHas raw g \<and> f \<noteq> g"
proof (cases "g = F_None")
  case True
  then show ?thesis by (simp add: flagsHas_def)
next
  case False
  then show ?thesis
    by (auto simp: flagsHas_bit flagsClear_def bit_and_iff bit_not_iff bit_flagBits
        possible_bit_word flagIndex_less)
qed

lemma isDead_default [simp]: "\<not> isDead defaultNode"
  by (simp add: isDead_def defaultNode_def flagsHas_def)

end
