(* ===== verification/Ir_Graph.thy ===== *)
theory Ir_Graph
  imports Ir_Node
begin

text \<open>
  The graph container of the IR (\<open>include/b2/ir/Graph.h\<close>, \<open>compiler/ir/core/Graph.cpp\<close>): nodes in
  creation order, one shared edge pool in which every node owns a slice, use lists kept beside
  the nodes, and the flat vector of virtual objects that the frame-state descriptors slice.

  A graph is a record with the vectors of the class as fields; every operation takes and returns
  it. The narrowing casts of the source are \<open>u16\<close> and \<open>u32\<close>. The arena the vectors allocate from
  is not state a caller can observe and is left out. Reading or inserting past the end of a
  vector is undefined in the source: the invariant of \<open>Ir_GraphOk\<close> shows it does not happen.
\<close>

section \<open>Records\<close>

datatype use = Use (u_user: node_id) (u_slot: nat)

definition kInvalidNodeId :: node_id where "kInvalidNodeId = 4294967295"
definition kInvalidFrameState :: nat where "kInvalidFrameState = 4294967295"
definition kInvalidDependency :: nat where "kInvalidDependency = 4294967295"

record frame_state_desc =
  fs_method :: method_id
  fs_pc :: nat
  fs_caller :: nat
  fs_vobjOffset :: nat
  fs_vobjCount :: nat

datatype spec_kind =
    ClassHierarchyStable | MethodFinal | TypeMonomorphic | TypeBimorphic | NullNeverSeen
  | BoundsAlwaysValid | ArgumentConstant | LoopTripCountProfile | StaticProofCarried

datatype spec_source = Source_PGO | Source_Static | Source_Assumption

datatype spec_rollback = Rollback_None | Rollback_DeferredEffects | Rollback_Compensated

record spec_meta =
  sm_kind :: spec_kind
  sm_source :: spec_source
  sm_confidence :: nat
  sm_guard :: node_id
  sm_deoptTarget :: nat
  sm_cost :: nat
  sm_dependency :: nat
  sm_rollback :: spec_rollback

datatype dep_kind = DK_ClassHierarchy | DK_MethodBody | DK_FieldFinality | DK_ProfileCounter | DK_StaticProof

record dependency =
  dep_kind :: dep_kind
  dep_target :: nat

record replacement =
  rp_oldNode :: node_id
  rp_newNode :: node_id
  rp_epoch :: nat

record graph =
  g_nodes :: "node list"
  g_edgePool :: "node_id list"
  g_uses :: "use list list"
  g_fsDesc :: "frame_state_desc list"
  g_fsVobjs :: "node_id list"
  g_specMetas :: "spec_meta list"
  g_deps :: "dependency list"
  g_replacements :: "replacement list"
  g_epoch :: nat
  g_start :: node_id

definition defaultFrameState :: frame_state_desc where
  "defaultFrameState = \<lparr>fs_method = 0, fs_pc = 0, fs_caller = kInvalidFrameState,
     fs_vobjOffset = 0, fs_vobjCount = 0\<rparr>"

definition defaultSpecMeta :: spec_meta where
  "defaultSpecMeta = \<lparr>sm_kind = TypeMonomorphic, sm_source = Source_PGO, sm_confidence = 0,
     sm_guard = kInvalidNodeId, sm_deoptTarget = 0, sm_cost = 0, sm_dependency = kInvalidDependency,
     sm_rollback = Rollback_None\<rparr>"

definition defaultDependency :: dependency where
  "defaultDependency = \<lparr>dep_kind = DK_ClassHierarchy, dep_target = 0\<rparr>"

text \<open>\<open>SmallVector::remove\<close>: the first equal element goes, the order of the others stays.\<close>

fun svRemove :: "'a \<Rightarrow> 'a list \<Rightarrow> 'a list \<times> bool" where
  "svRemove v [] = ([], False)"
| "svRemove v (x # xs) =
     (if x = v then (xs, True) else let (ys, found) = svRemove v xs in (x # ys, found))"

section \<open>Accessors\<close>

abbreviation nodesSize :: "graph \<Rightarrow> nat" where
  "nodesSize g \<equiv> length (g_nodes g)"

definition nodeCount :: "graph \<Rightarrow> nat" where
  "nodeCount g = u32 (nodesSize g)"

definition node_at :: "graph \<Rightarrow> node_id \<Rightarrow> node" where
  "node_at g n = (if n < nodesSize g then g_nodes g ! n else defaultNode)"

definition numInputs :: "graph \<Rightarrow> node_id \<Rightarrow> nat" where
  "numInputs g n = nd_numInputs (node_at g n)"

definition edgeIndex :: "node \<Rightarrow> nat \<Rightarrow> nat" where
  "edgeIndex nd slot = u32 (nd_edgeOffset nd + slot)"

definition input :: "graph \<Rightarrow> node_id \<Rightarrow> nat \<Rightarrow> node_id" where
  "input g n slot =
     (let nd = node_at g n in
      if slot < nd_numInputs nd then g_edgePool g ! edgeIndex nd slot else kInvalidNodeId)"

definition usesOf :: "graph \<Rightarrow> node_id \<Rightarrow> use list" where
  "usesOf g n = (if n < length (g_uses g) then g_uses g ! n else [])"

definition liveNodeCount :: "graph \<Rightarrow> nat" where
  "liveNodeCount g = u32 (length (filter (\<lambda>n. \<not> isDead n) (g_nodes g)))"

definition frameState :: "graph \<Rightarrow> nat \<Rightarrow> frame_state_desc" where
  "frameState g i = (if i < length (g_fsDesc g) then g_fsDesc g ! i else defaultFrameState)"

definition specMeta :: "graph \<Rightarrow> nat \<Rightarrow> spec_meta" where
  "specMeta g i = (if i < length (g_specMetas g) then g_specMetas g ! i else defaultSpecMeta)"

definition dependency_at :: "graph \<Rightarrow> nat \<Rightarrow> dependency" where
  "dependency_at g i = (if i < length (g_deps g) then g_deps g ! i else defaultDependency)"

definition frameStateVobjs :: "graph \<Rightarrow> nat \<Rightarrow> node_id list" where
  "frameStateVobjs g i =
     (if i < length (g_fsDesc g) then
        let d = g_fsDesc g ! i in
        if u32 (fs_vobjOffset d + fs_vobjCount d) \<le> length (g_fsVobjs g)
        then take (fs_vobjCount d) (drop (fs_vobjOffset d) (g_fsVobjs g)) else []
      else [])"

definition startNode :: "graph \<Rightarrow> node_id" where
  "startNode g = g_start g"

definition frameStateCount :: "graph \<Rightarrow> nat" where
  "frameStateCount g = u32 (length (g_fsDesc g))"

definition specMetaCount :: "graph \<Rightarrow> nat" where
  "specMetaCount g = u32 (length (g_specMetas g))"

definition dependencyCount :: "graph \<Rightarrow> nat" where
  "dependencyCount g = u32 (length (g_deps g))"

section \<open>Node creation\<close>

definition pushUse :: "node_id \<Rightarrow> use \<Rightarrow> graph \<Rightarrow> graph" where
  "pushUse v u g =
     (if v < nodesSize g then g\<lparr>g_uses := (g_uses g)[v := g_uses g ! v @ [u]]\<rparr> else g)"

fun pushUses :: "node_id \<Rightarrow> nat \<Rightarrow> node_id list \<Rightarrow> graph \<Rightarrow> graph" where
  "pushUses n s [] g = g"
| "pushUses n s (v # vs) g = pushUses n (Suc s) vs (pushUse v (Use n s) g)"

definition makeRaw ::
  "node_kind \<Rightarrow> node_id list \<Rightarrow> nat \<Rightarrow> nat \<Rightarrow> 64 word \<Rightarrow> graph \<Rightarrow> graph \<times> node_id" where
  "makeRaw kind inputs payload payload2 constValue g =
     (let n = u32 (nodesSize g);
          nd = defaultNode\<lparr>nd_kind := kind, nd_edgeOffset := u32 (length (g_edgePool g)),
            nd_numInputs := u16 (length inputs), nd_payload := payload, nd_payload2 := payload2,
            nd_constValue := constValue\<rparr>;
          g' = g\<lparr>g_edgePool := g_edgePool g @ inputs, g_nodes := g_nodes g @ [nd],
            g_uses := g_uses g @ [[]]\<rparr>
      in (pushUses n 0 (take (nd_numInputs nd) inputs) g', n))"

definition make :: "node_kind \<Rightarrow> node_id list \<Rightarrow> nat \<Rightarrow> nat \<Rightarrow> graph \<Rightarrow> graph \<times> node_id" where
  "make kind inputs payload payload2 g = makeRaw kind inputs payload payload2 0 g"

definition emptyGraph :: graph where
  "emptyGraph = \<lparr>g_nodes = [], g_edgePool = [], g_uses = [], g_fsDesc = [], g_fsVobjs = [],
     g_specMetas = [], g_deps = [], g_replacements = [], g_epoch = 0, g_start = kInvalidNodeId\<rparr>"

definition newGraph :: graph where
  "newGraph = (let (g, n) = makeRaw Nk_Start [] 0 0 0 emptyGraph in g\<lparr>g_start := n\<rparr>)"

definition constantI :: "32 word \<Rightarrow> graph \<Rightarrow> graph \<times> node_id" where
  "constantI v = makeRaw Nk_ConstantI [] 0 0 (scast v)"

definition constantL :: "64 word \<Rightarrow> graph \<Rightarrow> graph \<times> node_id" where
  "constantL v = makeRaw Nk_ConstantL [] 0 0 v"

text \<open>A float or double constant is given by its bits, which is all the maker keeps of it.\<close>

definition constantF :: "32 word \<Rightarrow> graph \<Rightarrow> graph \<times> node_id" where
  "constantF bits = makeRaw Nk_ConstantF [] 0 0 (ucast bits)"

definition constantD :: "64 word \<Rightarrow> graph \<Rightarrow> graph \<times> node_id" where
  "constantD bits = makeRaw Nk_ConstantD [] 0 0 bits"

definition constantNull :: "graph \<Rightarrow> graph \<times> node_id" where
  "constantNull = makeRaw Nk_ConstantNull [] 0 0 0"

definition constantSym :: "nat \<Rightarrow> graph \<Rightarrow> graph \<times> node_id" where
  "constantSym s = makeRaw Nk_ConstantSym [] s 0 0"

definition parameter :: "nat \<Rightarrow> irtype \<Rightarrow> graph \<Rightarrow> graph \<times> node_id" where
  "parameter index ty = makeRaw Nk_Parameter [] index (irCode ty) 0"

section \<open>Frame states and virtual objects\<close>

definition addFrameStateDesc ::
  "method_id \<Rightarrow> nat \<Rightarrow> nat \<Rightarrow> node_id list \<Rightarrow> graph \<Rightarrow> graph \<times> nat" where
  "addFrameStateDesc method pc caller vobjs g =
     (let d = \<lparr>fs_method = method, fs_pc = pc, fs_caller = caller,
            fs_vobjOffset = u32 (length (g_fsVobjs g)), fs_vobjCount = u32 (length vobjs)\<rparr>;
          g' = g\<lparr>g_fsVobjs := g_fsVobjs g @ vobjs, g_fsDesc := g_fsDesc g @ [d]\<rparr>
      in (g', u32 (length (g_fsDesc g') - 1)))"

definition shiftDesc :: "nat \<Rightarrow> frame_state_desc \<Rightarrow> frame_state_desc" where
  "shiftDesc insertPos d =
     (if insertPos \<le> fs_vobjOffset d then d\<lparr>fs_vobjOffset := u32 (fs_vobjOffset d + 1)\<rparr> else d)"

definition appendFrameStateVobj :: "nat \<Rightarrow> node_id \<Rightarrow> graph \<Rightarrow> graph" where
  "appendFrameStateVobj fs vobj g =
     (if length (g_fsDesc g) \<le> fs then g
      else let d = g_fsDesc g ! fs;
               insertPos = u32 (fs_vobjOffset d + fs_vobjCount d);
               vs = g_fsVobjs g;
               ds = map (shiftDesc insertPos) (g_fsDesc g)
           in g\<lparr>g_fsVobjs := take insertPos vs @ vobj # drop insertPos vs,
                g_fsDesc := ds[fs := d\<lparr>fs_vobjCount := u32 (fs_vobjCount d + 1)\<rparr>]\<rparr>)"

definition makeFrameState ::
  "method_id \<Rightarrow> nat \<Rightarrow> node_id list \<Rightarrow> nat \<Rightarrow> node_id list \<Rightarrow> graph \<Rightarrow> graph \<times> node_id" where
  "makeFrameState method pc locals caller vobjs g =
     (let (g', desc) = addFrameStateDesc method pc caller vobjs g
      in makeRaw Nk_FrameState locals desc 0 0 g')"

definition makeVirtualObject :: "nat \<Rightarrow> node_id list \<Rightarrow> graph \<Rightarrow> graph \<times> node_id" where
  "makeVirtualObject classId fieldValues = makeRaw Nk_VirtualObjectState fieldValues classId 0 0"

definition makeArrayVirtualObject ::
  "irtype \<Rightarrow> node_id \<Rightarrow> node_id list \<Rightarrow> graph \<Rightarrow> graph \<times> node_id" where
  "makeArrayVirtualObject elemType len elements =
     makeRaw Nk_VirtualObjectState (len # elements) (irCode elemType) 1 0"

definition addSpecMeta :: "spec_meta \<Rightarrow> graph \<Rightarrow> graph \<times> nat" where
  "addSpecMeta sm g =
     (let g' = g\<lparr>g_specMetas := g_specMetas g @ [sm]\<rparr> in (g', u32 (length (g_specMetas g') - 1)))"

definition addDependency :: "dependency \<Rightarrow> graph \<Rightarrow> graph \<times> nat" where
  "addDependency d g =
     (let g' = g\<lparr>g_deps := g_deps g @ [d]\<rparr> in (g', u32 (length (g_deps g') - 1)))"

definition updNode :: "node_id \<Rightarrow> (node \<Rightarrow> node) \<Rightarrow> graph \<Rightarrow> graph" where
  "updNode n f g = g\<lparr>g_nodes := (g_nodes g)[n := f (g_nodes g ! n)]\<rparr>"

definition attachSpecMeta :: "node_id \<Rightarrow> nat \<Rightarrow> graph \<Rightarrow> graph" where
  "attachSpecMeta n i g =
     (if nodesSize g \<le> n then g
      else updNode n (\<lambda>nd. nd\<lparr>nd_specMeta := u32 (i + 1),
             nd_flags := flagsSet F_Speculative (nd_flags nd)\<rparr>) g)"

section \<open>Edges\<close>

definition removeFromUses :: "node_id \<Rightarrow> node_id \<Rightarrow> nat \<Rightarrow> graph \<Rightarrow> graph" where
  "removeFromUses d user slot g =
     (if length (g_uses g) \<le> d then g
      else g\<lparr>g_uses := (g_uses g)[d := fst (svRemove (Use user slot) (g_uses g ! d))]\<rparr>)"

definition setInput :: "node_id \<Rightarrow> nat \<Rightarrow> node_id \<Rightarrow> graph \<Rightarrow> graph" where
  "setInput n slot v g =
     (if nodesSize g \<le> n then g
      else let nd = g_nodes g ! n in
        if nd_numInputs nd \<le> slot then g
        else let i = edgeIndex nd slot; old = g_edgePool g ! i in
          if old = v then g
          else pushUse v (Use n slot)
                 (removeFromUses old n slot (g\<lparr>g_edgePool := (g_edgePool g)[i := v]\<rparr>)))"

text \<open>The copy loop of \<open>appendInput\<close> reads the pool it appends to.\<close>

definition relocate :: "node \<Rightarrow> node_id list \<Rightarrow> node_id list" where
  "relocate nd pool = fold (\<lambda>s p. p @ [p ! edgeIndex nd s]) [0..<nd_numInputs nd] pool"

definition appendInput :: "node_id \<Rightarrow> node_id \<Rightarrow> graph \<Rightarrow> graph" where
  "appendInput n v g =
     (if nodesSize g \<le> n then g
      else let nd = g_nodes g ! n;
               newOffset = u32 (length (g_edgePool g));
               newCount = u16 (nd_numInputs nd + 1);
               g' = g\<lparr>g_edgePool := relocate nd (g_edgePool g) @ [v]\<rparr>;
               g'' = updNode n (\<lambda>nd. nd\<lparr>nd_edgeOffset := newOffset, nd_numInputs := newCount\<rparr>) g'
           in pushUse v (Use n (u16 (newCount + 65535))) g'')"

section \<open>Replacement\<close>

definition rewireUse :: "node_id \<Rightarrow> node_id \<Rightarrow> use \<Rightarrow> graph \<Rightarrow> graph" where
  "rewireUse oldNode withNode u g =
     (if u_user u < nodesSize g \<and> u_slot u < nd_numInputs (g_nodes g ! u_user u)
         \<and> g_edgePool g ! edgeIndex (g_nodes g ! u_user u) (u_slot u) = oldNode
      then setInput (u_user u) (u_slot u) withNode g else g)"

definition nextEpoch :: "graph \<Rightarrow> graph" where
  "nextEpoch g = g\<lparr>g_epoch := u32 (g_epoch g + 1)\<rparr>"

definition replaceNode :: "node_id \<Rightarrow> node_id \<Rightarrow> graph \<Rightarrow> graph \<times> nat" where
  "replaceNode oldNode withNode g =
     (if nodesSize g \<le> oldNode \<or> nodesSize g \<le> withNode then (g, 0)
      else if isDead (g_nodes g ! withNode) then (g, 0)
      else if oldNode = withNode then (g, 0)
      else let g1 = nextEpoch (fold (rewireUse oldNode withNode) (g_uses g ! oldNode) g);
               e = g_epoch g1;
               g2 = updNode oldNode (\<lambda>nd. nd\<lparr>nd_flags := flagsSet F_Dead (flagsSet F_Replaced (nd_flags nd)),
                      nd_epoch := e\<rparr>) g1;
               r = \<lparr>rp_oldNode = oldNode, rp_newNode = withNode, rp_epoch = e\<rparr>
           in (g2\<lparr>g_replacements := g_replacements g2 @ [r]\<rparr>, e))"

definition killNode :: "node_id \<Rightarrow> graph \<Rightarrow> graph" where
  "killNode n g =
     (if nodesSize g \<le> n then g
      else let g1 = nextEpoch g in
        updNode n (\<lambda>nd. nd\<lparr>nd_flags := flagsSet F_Dead (nd_flags nd), nd_epoch := g_epoch g1\<rparr>) g1)"

definition replayReplacement :: "node_id \<Rightarrow> node_id \<Rightarrow> nat \<Rightarrow> graph \<Rightarrow> graph" where
  "replayReplacement oldNode newNode ep g =
     (if nodesSize g \<le> oldNode then g
      else let g1 = updNode oldNode (\<lambda>nd. nd\<lparr>nd_flags := flagsSet F_Dead (flagsSet F_Replaced (nd_flags nd)),
                      nd_epoch := ep\<rparr>) g;
               r = \<lparr>rp_oldNode = oldNode, rp_newNode = newNode, rp_epoch = ep\<rparr>
           in g1\<lparr>g_replacements := g_replacements g1 @ [r],
                 g_epoch := (if g_epoch g1 < ep then ep else g_epoch g1)\<rparr>)"

end
