(* ===== verification/Std_Algorithms.thy ===== *)
theory Std_Algorithms
  imports B2_Prelude
begin

text \<open>
  The algorithms of the C++ standard library that the pipeline uses on vectors. \<open>std::lower_bound\<close>,
  \<open>std::upper_bound\<close> and \<open>std::binary_search\<close> are the halving search on a predicate that splits
  the range; \<open>std::sort\<close> followed by \<open>std::unique\<close> and \<open>erase\<close> is \<open>sortUnique\<close>; the
  remove-erase idiom is \<open>filter\<close>; \<open>vector::insert\<close> of one element is \<open>insertAt\<close>.
\<close>

section \<open>Halving search\<close>

function lbLoop :: "('a \<Rightarrow> bool) \<Rightarrow> 'a list \<Rightarrow> nat \<Rightarrow> nat \<Rightarrow> nat" where
  "lbLoop p xs first len =
     (if len = 0 then first
      else let half = len div 2; mid = first + half in
        if p (xs ! mid) then lbLoop p xs (mid + 1) (len - half - 1) else lbLoop p xs first half)"
  by auto
termination by (relation "measure (\<lambda>(p, xs, first, len). len)") auto

declare lbLoop.simps [simp del]

definition lowerBound :: "('a \<Rightarrow> bool) \<Rightarrow> 'a list \<Rightarrow> nat" where
  "lowerBound before xs = lbLoop before xs 0 (length xs)"

definition binarySearch :: "'a::linorder list \<Rightarrow> 'a \<Rightarrow> bool" where
  "binarySearch xs x = (let i = lowerBound (\<lambda>y. y < x) xs in i < length xs \<and> \<not> x < xs ! i)"

definition insertAt :: "nat \<Rightarrow> 'a \<Rightarrow> 'a list \<Rightarrow> 'a list" where
  "insertAt i x xs = take i xs @ x # drop i xs"

definition sortUnique :: "'a::linorder list \<Rightarrow> 'a list" where
  "sortUnique xs = remdups_adj (sort xs)"

text \<open>The predicate splits the range at \<open>k\<close>.\<close>

definition splitsAt :: "('a \<Rightarrow> bool) \<Rightarrow> 'a list \<Rightarrow> nat \<Rightarrow> bool" where
  "splitsAt p xs k \<longleftrightarrow> k \<le> length xs \<and> (\<forall>i<k. p (xs ! i)) \<and> (\<forall>i<length xs. k \<le> i \<longrightarrow> \<not> p (xs ! i))"

lemma lbLoop_split:
  assumes "splitsAt p xs k" "first \<le> k" "k \<le> first + len" "first + len \<le> length xs"
  shows "lbLoop p xs first len = k"
  using assms
proof (induction p xs first len rule: lbLoop.induct)
  case (1 p xs first len)
  show ?case
  proof (cases "len = 0")
    case True
    then show ?thesis using 1 by (simp add: lbLoop.simps)
  next
    case False
    let ?h = "len div 2" let ?m = "first + ?h"
    have m: "?m < length xs" "?h < len" using False 1(6) by auto
    show ?thesis
    proof (cases "p (xs ! ?m)")
      case True
      have "?m < k" using True 1(3) m by (auto simp: splitsAt_def not_le)
      then have "lbLoop p xs (?m + 1) (len - ?h - 1) = k"
        using 1(1) [OF False refl refl True 1(3)] 1(5,6) m by linarith
      then show ?thesis using False True by (simp add: lbLoop.simps [of p xs first len] Let_def)
    next
      case F: False
      have "k \<le> ?m" using F 1(3) m by (metis not_le splitsAt_def)
      then have "lbLoop p xs first ?h = k"
        using 1(2) [OF False refl refl F 1(3)] 1(4,6) m by linarith
      then show ?thesis using False F by (simp add: lbLoop.simps [of p xs first len] Let_def)
    qed
  qed
qed

lemma lowerBound_split: "splitsAt p xs k \<Longrightarrow> lowerBound p xs = k"
  using lbLoop_split [of p xs k 0 "length xs"] by (simp add: lowerBound_def splitsAt_def)

lemma splitsAt_exists:
  assumes "sorted_wrt r xs" "\<And>x y. r x y \<Longrightarrow> p y \<Longrightarrow> p x"
  shows "splitsAt p xs (length (takeWhile p xs))"
  using assms
proof (induction xs)
  case (Cons x xs)
  show ?case
  proof (cases "p x")
    case True
    then show ?thesis
      using Cons by (auto simp: splitsAt_def nth_Cons' less_Suc_eq_0_disj)
  next
    case False
    then have "\<not> p y" if "y \<in> set xs" for y using Cons.prems that by auto
    then show ?thesis using False by (auto simp: splitsAt_def nth_Cons')
  qed
qed (simp add: splitsAt_def)

lemma lowerBound_sorted:
  assumes "sorted_wrt r xs" "\<And>x y. r x y \<Longrightarrow> p y \<Longrightarrow> p x"
  shows "lowerBound p xs = length (takeWhile p xs)"
    and "splitsAt p xs (lowerBound p xs)"
proof -
  note s = splitsAt_exists [of r xs p, OF assms]
  show "lowerBound p xs = length (takeWhile p xs)" by (rule lowerBound_split [OF s])
  then show "splitsAt p xs (lowerBound p xs)" using s by simp
qed

lemma binarySearch_sorted [simp]:
  assumes "sorted xs"
  shows "binarySearch xs x \<longleftrightarrow> x \<in> set xs"
proof -
  have s: "splitsAt (\<lambda>y. y < x) xs (lowerBound (\<lambda>y. y < x) xs)"
    by (rule lowerBound_sorted [OF assms]) simp
  show ?thesis (is "_ \<longleftrightarrow> ?r")
  proof
    assume "binarySearch xs x"
    then show ?r using s
      by (auto simp: binarySearch_def Let_def splitsAt_def) (metis antisym_conv3 nth_mem order_refl)
  next
    assume ?r
    then obtain i where i: "i < length xs" "xs ! i = x" by (auto simp: in_set_conv_nth)
    let ?k = "lowerBound (\<lambda>y. y < x) xs"
    have k: "?k \<le> i" using s i by (metis less_irrefl not_le splitsAt_def)
    then have "xs ! ?k \<le> x" using sorted_nth_mono [OF assms, of ?k i] i by simp
    then show "binarySearch xs x" using k i by (simp add: binarySearch_def Let_def)
  qed
qed

section \<open>Sorted vectors without duplicates\<close>

lemma set_insertAt [simp]: "set (insertAt i x xs) = insert x (set xs)"
proof -
  have "set xs = set (take i xs) \<union> set (drop i xs)" by (metis append_take_drop_id set_append)
  then show ?thesis by (auto simp: insertAt_def)
qed

lemma length_insertAt [simp]: "length (insertAt i x xs) = Suc (length xs)"
  by (simp add: insertAt_def)

text \<open>Inserting a new element at its lower bound keeps a strict order.\<close>

lemma sorted_insertAt:
  assumes s: "sorted_wrt r xs" and split: "splitsAt (\<lambda>y. r y x) xs k"
    and new: "\<And>i. k \<le> i \<Longrightarrow> i < length xs \<Longrightarrow> r x (xs ! i)"
  shows "sorted_wrt r (insertAt k x xs)"
proof -
  have "sorted_wrt r (take k xs @ drop k xs)" using s by simp
  moreover have "r y x" if "y \<in> set (take k xs)" for y
    using that split by (auto simp: in_set_conv_nth splitsAt_def)
  moreover have "r x y" if "y \<in> set (drop k xs)" for y
    using that new by (auto simp: in_set_conv_nth)
  ultimately show ?thesis
    by (auto simp: insertAt_def sorted_wrt_append simp del: append_take_drop_id)
qed

lemma set_sortUnique [simp]: "set (sortUnique xs) = set xs"
  by (simp add: sortUnique_def)

lemma sorted_remdups_adj_strict: "sorted xs \<Longrightarrow> sorted_wrt (<) (remdups_adj (xs :: 'a::linorder list))"
proof (induction xs rule: remdups_adj.induct)
  case (3 x y xs)
  have "x < z" if "x \<noteq> y" "z \<in> set (y # xs)" for z
    using 3(3) that by (auto simp: order_less_le)
  then show ?case using 3 by (cases "x = y") (simp_all del: set_simps)
qed simp_all

lemma sorted_sortUnique [simp]: "sorted_wrt (<) (sortUnique xs)"
  by (simp add: sortUnique_def sorted_remdups_adj_strict)

lemma strict_sorted_unique: "sorted_wrt (<) (xs :: 'a::linorder list) \<Longrightarrow> sorted_wrt (<) ys \<Longrightarrow> set xs = set ys \<Longrightarrow> xs = ys"
  by (simp add: strict_sorted_equal)

end
