(* ===== verification/Pipe_DependencyIndex.thy ===== *)
theory Pipe_DependencyIndex
  imports Ir_Graph Std_Algorithms
begin

text \<open>
  The runtime dependency index (\<open>include/b2/pipeline/DependencyIndex.h\<close>,
  \<open>compiler/pipeline/src/DependencyIndex.cpp\<close>): a vector of associations sorted by dependency,
  node and region. The abstract view is a map from those three to the method that recorded them
  first; the operations refine operations on that map, and what a history of calls promises is
  proved against the interface \<open>inverse_index\<close>.
\<close>

section \<open>State and operations\<close>

definition kInvalidRegion :: region_id where "kInvalidRegion = 4294967295"

record dirty_set =
  ds_nodes :: "node_id list"
  ds_regions :: "region_id list"

record dependency_entry =
  de_node :: node_id
  de_region :: region_id
  de_method :: method_id

type_synonym index_entry = "dependency_id \<times> dependency_entry"

record dependency_index =
  di_entries :: "index_entry list"

definition dirtyEmpty :: "dirty_set \<Rightarrow> bool" where
  "dirtyEmpty s \<longleftrightarrow> ds_nodes s = [] \<and> ds_regions s = []"

definition dirtySize :: "dirty_set \<Rightarrow> nat" where
  "dirtySize s = length (ds_nodes s) + length (ds_regions s)"

definition entryLess :: "index_entry \<Rightarrow> index_entry \<Rightarrow> bool" where
  "entryLess a b =
     (if fst a \<noteq> fst b then fst a < fst b
      else if de_node (snd a) \<noteq> de_node (snd b) then de_node (snd a) < de_node (snd b)
      else de_region (snd a) < de_region (snd b))"

definition newIndex :: dependency_index where
  "newIndex = \<lparr>di_entries = []\<rparr>"

definition record_dep ::
  "dependency_id \<Rightarrow> node_id \<Rightarrow> region_id \<Rightarrow> method_id \<Rightarrow> dependency_index \<Rightarrow> dependency_index" where
  "record_dep dep node region method idx =
     (if dep = kInvalidDependency then idx
      else if node = kInvalidNodeId \<and> region = kInvalidRegion then idx
      else let kv = (dep, \<lparr>de_node = node, de_region = region, de_method = method\<rparr>);
               es = di_entries idx;
               it = lowerBound (\<lambda>e. entryLess e kv) es
           in if it < length es \<and> fst (es ! it) = dep \<and> de_node (snd (es ! it)) = node
                \<and> de_region (snd (es ! it)) = region
              then idx else idx\<lparr>di_entries := insertAt it kv es\<rparr>)"

definition invalidate :: "dependency_id \<Rightarrow> dependency_index \<Rightarrow> dirty_set" where
  "invalidate dep idx =
     (if dep = kInvalidDependency then \<lparr>ds_nodes = [], ds_regions = []\<rparr>
      else let es = di_entries idx;
               b = lowerBound (\<lambda>e. fst e < dep) es;
               f = lowerBound (\<lambda>e. \<not> dep < fst e) es;
               hits = map snd (take (f - b) (drop b es))
           in \<lparr>ds_nodes = sortUnique (filter (\<lambda>n. n \<noteq> kInvalidNodeId) (map de_node hits)),
               ds_regions = sortUnique (filter (\<lambda>r. r \<noteq> kInvalidRegion) (map de_region hits))\<rparr>)"

definition retireMethod :: "method_id \<Rightarrow> dependency_index \<Rightarrow> dependency_index" where
  "retireMethod m idx = idx\<lparr>di_entries := filter (\<lambda>e. de_method (snd e) \<noteq> m) (di_entries idx)\<rparr>"

definition indexSize :: "dependency_index \<Rightarrow> nat" where
  "indexSize idx = length (di_entries idx)"

fun countGroups :: "dependency_id \<Rightarrow> nat \<Rightarrow> index_entry list \<Rightarrow> nat" where
  "countGroups prev count [] = count"
| "countGroups prev count ((dep, e) # es) =
     (if dep \<noteq> prev then countGroups dep (Suc count) es else countGroups prev count es)"

definition distinctDependencies :: "dependency_index \<Rightarrow> nat" where
  "distinctDependencies idx =
     (case di_entries idx of [] \<Rightarrow> 0 | e # es \<Rightarrow> countGroups (fst e) 1 (e # es))"

section \<open>Order of the entries\<close>

definition keyOf :: "index_entry \<Rightarrow> dependency_id \<times> node_id \<times> region_id" where
  "keyOf e = (fst e, de_node (snd e), de_region (snd e))"

lemma entryLess_trans: "entryLess a b \<Longrightarrow> entryLess b c \<Longrightarrow> entryLess a c"
  by (auto simp: entryLess_def split: if_splits)

lemma entryLess_irrefl: "entryLess a b \<Longrightarrow> keyOf a \<noteq> keyOf b"
  by (auto simp: entryLess_def keyOf_def)

lemma entryLess_total: "entryLess a b \<or> entryLess b a \<or> keyOf a = keyOf b"
  by (auto simp: entryLess_def keyOf_def)

lemma entryLess_key: "keyOf a = keyOf b \<Longrightarrow> entryLess a c = entryLess b c \<and> entryLess c a = entryLess c b"
  by (auto simp: entryLess_def keyOf_def)

lemma entryLess_fst: "entryLess a b \<Longrightarrow> fst a \<le> fst b"
  by (auto simp: entryLess_def split: if_splits)

definition indexOk :: "dependency_index \<Rightarrow> bool" where
  "indexOk idx \<longleftrightarrow> sorted_wrt entryLess (di_entries idx)"

definition lookup :: "dependency_index \<Rightarrow> dependency_id \<times> node_id \<times> region_id \<rightharpoonup> method_id" where
  "lookup idx = map_of (map (\<lambda>e. (keyOf e, de_method (snd e))) (di_entries idx))"

lemma distinct_keys: "sorted_wrt entryLess es \<Longrightarrow> distinct (map keyOf es)"
  by (induction es) (auto dest: entryLess_irrefl)

lemma lookup_Some:
  assumes "indexOk idx"
  shows "lookup idx k = Some m \<longleftrightarrow> (\<exists>e\<in>set (di_entries idx). keyOf e = k \<and> de_method (snd e) = m)"
proof -
  have "distinct (map fst (map (\<lambda>e. (keyOf e, de_method (snd e))) (di_entries idx)))"
    using distinct_keys assms by (simp add: indexOk_def comp_def)
  from map_of_eq_Some_iff [OF this, of k m] show ?thesis
    by (auto simp: lookup_def)
qed

lemma lookup_None: "lookup idx k = None \<longleftrightarrow> k \<notin> keyOf ` set (di_entries idx)"
  by (auto simp: lookup_def map_of_eq_None_iff image_image)

section \<open>Recording\<close>

definition validKey :: "dependency_id \<times> node_id \<times> region_id \<Rightarrow> bool" where
  "validKey k = (case k of (d, n, r) \<Rightarrow> d \<noteq> kInvalidDependency \<and> \<not> (n = kInvalidNodeId \<and> r = kInvalidRegion))"

lemma record_dep_cases:
  fixes m :: method_id
  assumes ok: "indexOk idx" and v: "validKey (d, n, r)"
  defines "kv \<equiv> (d, \<lparr>de_node = n, de_region = r, de_method = m\<rparr>)"
  shows "record_dep d n r m idx =
    (if (d, n, r) \<in> keyOf ` set (di_entries idx) then idx
     else idx\<lparr>di_entries := insertAt (lowerBound (\<lambda>e. entryLess e kv) (di_entries idx)) kv (di_entries idx)\<rparr>)"
    and "(d, n, r) \<notin> keyOf ` set (di_entries idx) \<Longrightarrow> indexOk (record_dep d n r m idx)"
proof -
  let ?es = "di_entries idx"
  let ?k = "lowerBound (\<lambda>e. entryLess e kv) ?es"
  have srt: "sorted_wrt entryLess ?es" using ok by (simp add: indexOk_def)
  have sp: "splitsAt (\<lambda>e. entryLess e kv) ?es ?k"
    by (rule lowerBound_sorted [OF srt]) (rule entryLess_trans)
  have kv: "keyOf kv = (d, n, r)" by (simp add: kv_def keyOf_def)
  have hit: "(?k < length ?es \<and> keyOf (?es ! ?k) = (d, n, r)) \<longleftrightarrow> (d, n, r) \<in> keyOf ` set ?es"
  proof
    assume "(d, n, r) \<in> keyOf ` set ?es"
    then obtain i where i: "i < length ?es" "keyOf (?es ! i) = keyOf kv"
      by (auto simp: in_set_conv_nth kv)
    then have ni: "\<not> entryLess (?es ! i) kv" using entryLess_irrefl by blast
    then have ki: "?k \<le> i" using sp i by (metis not_le splitsAt_def)
    have "\<not> entryLess (?es ! ?k) kv" using sp ki i by (simp add: splitsAt_def)
    moreover have "?k = i \<or> entryLess (?es ! ?k) (?es ! i)"
      using srt ki i by (metis le_neq_implies_less sorted_wrt_nth_less)
    ultimately have "?k = i" using entryLess_key [OF i(2)] by blast
    then show "?k < length ?es \<and> keyOf (?es ! ?k) = (d, n, r)" using i kv by simp
  qed (metis nth_mem rev_image_eqI)
  show r: "record_dep d n r m idx =
    (if (d, n, r) \<in> keyOf ` set ?es then idx else idx\<lparr>di_entries := insertAt ?k kv ?es\<rparr>)"
    using v hit unfolding record_dep_def kv_def [symmetric] Let_def
    by (auto simp: validKey_def keyOf_def)
  assume new: "(d, n, r) \<notin> keyOf ` set ?es"
  have "entryLess kv (?es ! i)" if "?k \<le> i" "i < length ?es" for i
    using that sp new kv entryLess_total [of kv "?es ! i"] by (auto simp: splitsAt_def)
  then have "sorted_wrt entryLess (insertAt ?k kv ?es)" by (rule sorted_insertAt [OF srt sp])
  then show "indexOk (record_dep d n r m idx)" using new by (simp add: r indexOk_def)
qed

lemma record_dep_invalid: "\<not> validKey (d, n, r) \<Longrightarrow> record_dep d n r m idx = idx"
  by (auto simp: record_dep_def validKey_def)

lemma indexOk_record: "indexOk idx \<Longrightarrow> indexOk (record_dep d n r m idx)"
  using record_dep_cases [of idx d n r m] record_dep_invalid [of d n r m idx]
  by (cases "validKey (d, n, r)"; cases "(d, n, r) \<in> keyOf ` set (di_entries idx)") auto

lemma lookup_record:
  assumes ok: "indexOk idx"
  shows "lookup (record_dep d n r m idx) =
    (if validKey (d, n, r) \<and> lookup idx (d, n, r) = None then (lookup idx)((d, n, r) \<mapsto> m) else lookup idx)"
proof (cases "validKey (d, n, r) \<and> lookup idx (d, n, r) = None")
  case True
  then have v: "validKey (d, n, r)" and new: "\<forall>e\<in>set (di_entries idx). keyOf e \<noteq> (d, n, r)"
    by (force simp: lookup_None)+
  let ?kv = "(d, \<lparr>de_node = n, de_region = r, de_method = m\<rparr>)"
  have ok': "indexOk (record_dep d n r m idx)" using ok by (rule indexOk_record)
  have es: "set (di_entries (record_dep d n r m idx)) = insert ?kv (set (di_entries idx))"
    using record_dep_cases(1) [OF ok v, of m] new by (auto simp: image_iff)
  have kv: "keyOf ?kv = (d, n, r)" by (simp add: keyOf_def)
  have eq: "lookup (record_dep d n r m idx) k = Some x \<longleftrightarrow> ((lookup idx)((d, n, r) \<mapsto> m)) k = Some x" for k x
    using new unfolding lookup_Some [OF ok'] es
    by (cases "k = (d, n, r)") (auto simp: kv lookup_Some [OF ok])
  have "lookup (record_dep d n r m idx) k = ((lookup idx)((d, n, r) \<mapsto> m)) k" for k
    using eq [of k] by (metis not_None_eq)
  then show ?thesis using True by auto
next
  case False
  then show ?thesis
    using record_dep_cases(1) [OF ok, of d n r m] record_dep_invalid [of d n r m idx]
    by (cases "validKey (d, n, r)") (auto simp: lookup_None)
qed

section \<open>Retiring and invalidating\<close>

lemma indexOk_retire: "indexOk idx \<Longrightarrow> indexOk (retireMethod m idx)"
  by (simp add: indexOk_def retireMethod_def sorted_wrt_filter)

lemma lookup_retire:
  assumes "indexOk idx"
  shows "lookup (retireMethod m idx) k = (if lookup idx k = Some m then None else lookup idx k)"
proof -
  have es: "set (di_entries (retireMethod m idx)) = {e \<in> set (di_entries idx). de_method (snd e) \<noteq> m}"
    by (auto simp: retireMethod_def)
  have "lookup (retireMethod m idx) k = Some x \<longleftrightarrow> lookup idx k = Some x \<and> x \<noteq> m" for x
    unfolding lookup_Some [OF indexOk_retire [OF assms]] lookup_Some [OF assms] es by blast
  then show ?thesis by (metis not_None_eq)
qed

text \<open>The two binary searches cut out exactly the entries of the dependency.\<close>

lemma dep_range:
  assumes ok: "indexOk idx"
  defines "es \<equiv> di_entries idx"
  shows "take (lowerBound (\<lambda>e. \<not> d < fst e) es - lowerBound (\<lambda>e. fst e < d) es)
      (drop (lowerBound (\<lambda>e. fst e < d) es) es) = filter (\<lambda>e. fst e = d) es"
proof -
  have srt: "sorted_wrt entryLess es" using ok by (simp add: indexOk_def es_def)
  have lb: "lowerBound (\<lambda>e. fst e < d) es = length (takeWhile (\<lambda>e. fst e < d) es)"
    by (rule lowerBound_sorted(1) [OF srt]) (metis entryLess_fst order_le_less_trans)
  have ub: "lowerBound (\<lambda>e. \<not> d < fst e) es = length (takeWhile (\<lambda>e. \<not> d < fst e) es)"
    by (rule lowerBound_sorted(1) [OF srt]) (metis entryLess_fst leD leI order_trans)
  have "take (length (takeWhile (\<lambda>e. \<not> d < fst e) es) - length (takeWhile (\<lambda>e. fst e < d) es))
      (drop (length (takeWhile (\<lambda>e. fst e < d) es)) es) = filter (\<lambda>e. fst e = d) es"
    using srt
  proof (induction es)
    case (Cons e es)
    have le: "fst e \<le> fst x" if "x \<in> set es" for x
      using Cons.prems that entryLess_fst by auto
    consider "fst e < d" | "fst e = d" | "d < fst e" by linarith
    then show ?case
    proof cases
      case 2
      then have "takeWhile (\<lambda>e. fst e < d) es = []"
        using le [of "hd es"] by (cases es) auto
      then show ?thesis using 2 Cons by simp
    next
      case 3
      then have "filter (\<lambda>e. fst e = d) es = []" using le by (fastforce simp: filter_empty_conv)
      then show ?thesis using 3 by simp
    qed (use Cons in simp)
  qed simp
  then show ?thesis by (simp add: lb ub)
qed

lemma invalidate_sets:
  assumes "indexOk idx" "d \<noteq> kInvalidDependency"
  shows "set (ds_nodes (invalidate d idx)) = {n. n \<noteq> kInvalidNodeId \<and> (\<exists>r m. lookup idx (d, n, r) = Some m)}"
    and "set (ds_regions (invalidate d idx)) = {r. r \<noteq> kInvalidRegion \<and> (\<exists>n m. lookup idx (d, n, r) = Some m)}"
  using assms dep_range [OF assms(1), of d]
  by (auto simp: invalidate_def Let_def lookup_Some keyOf_def)

section \<open>What a history of calls promises\<close>

datatype index_op = Record dependency_id node_id region_id method_id | Retire method_id

text \<open>
  The interface of an inverse index: the first method to record a valid key owns it, retiring a
  method removes the keys it owns, and invalidating a dependency reports the nodes of its keys.
\<close>

locale inverse_index =
  fixes ok :: "'i \<Rightarrow> bool" and look :: "'i \<Rightarrow> dependency_id \<times> node_id \<times> region_id \<rightharpoonup> method_id"
    and put :: "dependency_id \<Rightarrow> node_id \<Rightarrow> region_id \<Rightarrow> method_id \<Rightarrow> 'i \<Rightarrow> 'i"
    and retire :: "method_id \<Rightarrow> 'i \<Rightarrow> 'i" and dirtyNodes :: "dependency_id \<Rightarrow> 'i \<Rightarrow> node_id set"
  assumes put_ok: "ok i \<Longrightarrow> ok (put d n r m i)"
    and retire_ok: "ok i \<Longrightarrow> ok (retire m i)"
    and look_put: "ok i \<Longrightarrow> look (put d n r m i) =
      (if validKey (d, n, r) \<and> look i (d, n, r) = None then (look i)((d, n, r) \<mapsto> m) else look i)"
    and look_retire: "ok i \<Longrightarrow> look (retire m i) k = (if look i k = Some m then None else look i k)"
    and dirty_exact: "ok i \<Longrightarrow> d \<noteq> kInvalidDependency \<Longrightarrow>
      dirtyNodes d i = {n. n \<noteq> kInvalidNodeId \<and> (\<exists>r m. look i (d, n, r) = Some m)}"
begin

fun act :: "index_op \<Rightarrow> 'i \<Rightarrow> 'i" where
  "act (Record d n r m) i = put d n r m i"
| "act (Retire m) i = retire m i"

lemma act_ok: "ok i \<Longrightarrow> ok (act x i)"
  by (cases x) (simp_all add: put_ok retire_ok)

lemma history_ok: "ok i \<Longrightarrow> ok (fold act h i)"
  by (induction h arbitrary: i) (simp_all add: act_ok)

lemma owner_recorded:
  assumes "ok i" "look (fold act h i) (d, n, r) = Some m" "look i (d, n, r) \<noteq> Some m"
  shows "Record d n r m \<in> set h"
  using assms
proof (induction h arbitrary: i)
  case (Cons x h)
  show ?case
  proof (cases "look (act x i) (d, n, r) = Some m")
    case True
    then show ?thesis
      using Cons.prems(1,3) by (cases x) (auto simp: look_put look_retire split: if_splits)
  next
    case False
    then show ?thesis using Cons.IH [of "act x i"] Cons.prems act_ok by simp
  qed
qed simp

lemma owner_kept:
  assumes "ok i" "look i k = Some m" "Retire m \<notin> set h"
  shows "look (fold act h i) k = Some m"
  using assms
proof (induction h arbitrary: i)
  case (Cons x h)
  have "look (act x i) k = Some m"
    using Cons.prems by (cases x) (auto simp: look_put look_retire)
  then show ?case using Cons.IH [of "act x i"] Cons.prems act_ok by simp
qed simp

lemma put_owned: "ok i \<Longrightarrow> validKey (d, n, r) \<Longrightarrow> \<exists>m'. look (put d n r m i) (d, n, r) = Some m'
    \<and> (m' = m \<or> look i (d, n, r) = Some m')"
  by (cases "look i (d, n, r)") (auto simp: look_put)

lemma kept_until_retired:
  assumes ok: "ok i" and fresh: "look i (d, n, r) = None" and v: "validKey (d, n, r)" "n \<noteq> kInvalidNodeId"
    and same: "\<forall>m'. Record d n r m' \<in> set h1 \<longrightarrow> m' = m" and h2: "Retire m \<notin> set h2"
  shows "n \<in> dirtyNodes d (fold act (h1 @ Record d n r m # h2) i)"
proof -
  let ?i = "fold act h1 i"
  have ok1: "ok ?i" using history_ok [OF ok] .
  obtain m' where m': "look (put d n r m ?i) (d, n, r) = Some m'" "m' = m \<or> look ?i (d, n, r) = Some m'"
    using put_owned [OF ok1 v(1)] by blast
  have "m' = m" using m'(2) owner_recorded [OF ok, of h1 d n r m'] fresh same by auto
  then have "look (fold act h2 (put d n r m ?i)) (d, n, r) = Some m"
    using owner_kept [OF put_ok [OF ok1] _ h2] m'(1) by simp
  then show ?thesis
    using dirty_exact [OF history_ok [OF put_ok [OF ok1]], of d h2] v by (auto simp: validKey_def)
qed

lemma dirty_was_recorded:
  assumes ok: "ok i" and empty: "look i = Map.empty" and d: "d \<noteq> kInvalidDependency"
    and n: "n \<in> dirtyNodes d (fold act h i)"
  shows "\<exists>r m. Record d n r m \<in> set h"
  using n dirty_exact [OF history_ok [OF ok] d] owner_recorded [OF ok] empty by fastforce

end

interpretation dpi: inverse_index indexOk lookup record_dep retireMethod "\<lambda>d i. set (ds_nodes (invalidate d i))"
  by unfold_locales
    (simp_all add: indexOk_record indexOk_retire lookup_record lookup_retire invalidate_sets)

fun runOp :: "index_op \<Rightarrow> dependency_index \<Rightarrow> dependency_index" where
  "runOp (Record d n r m) i = record_dep d n r m i"
| "runOp (Retire m) i = retireMethod m i"

definition runIndex :: "index_op list \<Rightarrow> dependency_index" where
  "runIndex h = fold runOp h newIndex"

lemma runIndex_act: "runIndex h = fold dpi.act h newIndex"
proof -
  have "runOp = dpi.act" by (intro ext, rename_tac x i, case_tac x) simp_all
  then show ?thesis by (simp add: runIndex_def)
qed

lemma newIndex_ok: "indexOk newIndex" "lookup newIndex = Map.empty"
  by (simp_all add: newIndex_def indexOk_def lookup_def)

lemma runIndex_ok: "indexOk (runIndex h)"
  unfolding runIndex_act by (rule dpi.history_ok) (rule newIndex_ok(1))

text \<open>Property C37. After any history of calls the vector of associations is sorted by dependency, node
  and region without duplicates, and invalidating a dependency returns exactly the nodes and the
  regions associated with it, each in increasing order without duplicates.\<close>

theorem invalidate_exact:
  fixes h :: "index_op list" and d :: dependency_id
  defines "idx \<equiv> runIndex h" and "s \<equiv> invalidate d (runIndex h)"
  shows "sorted_wrt entryLess (di_entries idx) \<and> sorted_wrt (<) (ds_nodes s) \<and> sorted_wrt (<) (ds_regions s)
    \<and> set (ds_nodes s) = {n. n \<noteq> kInvalidNodeId \<and> d \<noteq> kInvalidDependency \<and> (\<exists>r m. lookup idx (d, n, r) = Some m)}
    \<and> set (ds_regions s) = {r. r \<noteq> kInvalidRegion \<and> d \<noteq> kInvalidDependency \<and> (\<exists>n m. lookup idx (d, n, r) = Some m)}"
proof -
  have ok: "indexOk idx" using runIndex_ok by (simp add: idx_def)
  have "sorted_wrt (<) (ds_nodes s) \<and> sorted_wrt (<) (ds_regions s)"
    by (simp add: s_def invalidate_def Let_def)
  moreover have "ds_nodes s = [] \<and> ds_regions s = []" if "d = kInvalidDependency"
    using that by (simp add: s_def invalidate_def)
  ultimately show ?thesis
    using ok invalidate_sets [OF ok, of d] by (cases "d = kInvalidDependency") (simp_all add: indexOk_def s_def idx_def)
qed

text \<open>The index refines a map from (dependency, node, region) to the method that recorded
  the association: recording a valid key that is not there adds it and any other recording changes
  nothing, retiring a method removes exactly the keys it owns, and the size is the number of keys.\<close>

theorem index_refines_map:
  "lookup (runIndex (h @ [Record d n r m])) =
     (if validKey (d, n, r) \<and> lookup (runIndex h) (d, n, r) = None
      then (lookup (runIndex h))((d, n, r) \<mapsto> m) else lookup (runIndex h))
   \<and> lookup (runIndex (h @ [Retire m])) =
       (\<lambda>k. if lookup (runIndex h) k = Some m then None else lookup (runIndex h) k)
   \<and> indexSize (runIndex h) = card (dom (lookup (runIndex h)))"
proof -
  note ok = runIndex_ok [of h]
  have "dom (lookup (runIndex h)) = keyOf ` set (di_entries (runIndex h))"
    by (simp add: dom_def lookup_None)
  moreover have "card (keyOf ` set (di_entries (runIndex h))) = length (di_entries (runIndex h))"
    using distinct_keys [of "di_entries (runIndex h)"] ok distinct_card
    by (metis indexOk_def length_map list.set_map)
  ultimately show ?thesis
    using lookup_record [OF ok] lookup_retire [OF ok] by (auto simp: runIndex_def indexSize_def)
qed

text \<open>A node recorded for a dependency stays in the dirty set of that dependency until its
  method is retired, whatever else is recorded and retired, provided the same association was not
  recorded before for another method.\<close>

theorem recorded_until_retired:
  assumes "d \<noteq> kInvalidDependency" "n \<noteq> kInvalidNodeId"
    and "\<forall>m'. Record d n r m' \<in> set h1 \<longrightarrow> m' = m" "Retire m \<notin> set h2"
  shows "n \<in> set (ds_nodes (invalidate d (runIndex (h1 @ Record d n r m # h2))))"
  unfolding runIndex_act
  by (rule dpi.kept_until_retired [OF newIndex_ok(1) _ _ assms(2-4)])
    (use assms newIndex_ok in \<open>simp_all add: validKey_def\<close>)

theorem recorded_until_retired_witness:
  "(4::nat) \<in> set (ds_nodes (invalidate 1 (runIndex ([Record 1 4 0 7, Retire 7] @ Record 1 4 0 7 # [Retire 8]))))"
  by (rule recorded_until_retired [of 1 4 0 "[Record 1 4 0 7, Retire 7]" 7 "[Retire 8]"])
    (simp_all add: kInvalidDependency_def kInvalidNodeId_def)

text \<open>
  The proviso is needed: the index keeps the first method of a shared association only, so
  retiring that method drops the association although the second method is still installed.
\<close>

lemma retire_drops_shared:
  assumes "d \<noteq> kInvalidDependency" "n \<noteq> kInvalidNodeId"
  shows "ds_nodes (invalidate d (runIndex [Record d n r m1, Record d n r m2, Retire m1])) = []"
proof -
  let ?h = "[Record d n r m1, Record d n r m2]"
  have "lookup (runIndex ?h) = [(d, n, r) \<mapsto> m1]"
    using assms newIndex_ok
    by (simp add: runIndex_def lookup_record indexOk_record validKey_def)
  then have "lookup (runIndex (?h @ [Retire m1])) = Map.empty"
    using lookup_retire [OF runIndex_ok [of ?h]] by (auto simp: runIndex_def)
  then have "set (ds_nodes (invalidate d (runIndex (?h @ [Retire m1])))) = {}"
    using invalidate_sets(1) [OF runIndex_ok assms(1)] by simp
  then show ?thesis by simp
qed

section \<open>Telemetry\<close>

lemma countGroups_card:
  assumes "sorted_wrt entryLess es" "\<forall>e\<in>set es. prev \<le> fst e"
  shows "countGroups prev c es = c + card (fst ` set es - {prev})"
  using assms
proof (induction prev c es rule: countGroups.induct)
  case (2 prev c dep e es)
  have le: "\<forall>x\<in>set es. dep \<le> fst x" using 2(3) entryLess_fst by force
  show ?case
  proof (cases "dep = prev")
    case True
    then show ?thesis using 2(2) [OF _ _ ] 2(3) le by simp
  next
    case False
    then have "prev < dep" using 2(4) by auto
    then have "prev \<notin> fst ` set es" using le by fastforce
    then have "fst ` set ((dep, e) # es) - {prev} = insert dep (fst ` set es - {dep})"
      using False by auto
    moreover have "card (insert dep (fst ` set es - {dep})) = Suc (card (fst ` set es - {dep}))"
      by (simp add: card.insert_remove)
    ultimately show ?thesis using 2(1) [OF False _ le] 2(3) False by simp
  qed
qed simp

text \<open>The telemetry counter reports the number of distinct dependencies that have at least
  one association, after any history of calls.\<close>

theorem distinctDependencies_exact:
  "distinctDependencies (runIndex h) = card {d. \<exists>n r m. lookup (runIndex h) (d, n, r) = Some m}"
proof -
  let ?es = "di_entries (runIndex h)"
  have srt: "sorted_wrt entryLess ?es" using runIndex_ok by (simp add: indexOk_def)
  have deps: "{d. \<exists>n r m. lookup (runIndex h) (d, n, r) = Some m} = fst ` set ?es"
    by (force simp: lookup_Some [OF runIndex_ok] keyOf_def)
  show ?thesis
  proof (cases ?es)
    case (Cons e es)
    have "\<forall>x\<in>set ?es. fst e \<le> fst x" using srt Cons entryLess_fst by auto
    then have "countGroups (fst e) 1 ?es = 1 + card (fst ` set ?es - {fst e})"
      by (rule countGroups_card [OF srt])
    also have "\<dots> = card (fst ` set ?es)"
      using Cons by (simp add: card.insert_remove)
    finally show ?thesis using Cons deps by (simp add: distinctDependencies_def)
  qed (simp add: distinctDependencies_def deps)
qed

end
