(* ===== verification/Ir_GraphOk.thy ===== *)
theory Ir_GraphOk
  imports Ir_Graph
begin

text \<open>
  The invariant of the graph container and its abstract view. The abstract view of a graph,
  \<open>absg\<close>, is the list of the input lists of its nodes; the operations that change edges are shown
  to refine plain list operations on it. The invariant \<open>graphOk\<close> says that the slices of the edge
  pool are in range and disjoint and that the use lists are exact: \<open>(user, slot)\<close> is in the list
  of \<open>d\<close>, once, if and only if the input of \<open>user\<close> at \<open>slot\<close> is \<open>d\<close>. That is the invariant the
  header of \<open>Graph.cpp\<close> states.
\<close>

section \<open>Abstract view and invariant\<close>

definition inputsOf :: "graph \<Rightarrow> node_id \<Rightarrow> node_id list" where
  "inputsOf g n = map (input g n) [0..<numInputs g n]"

definition absg :: "graph \<Rightarrow> node_id list list" where
  "absg g = map (inputsOf g) [0..<nodesSize g]"

definition offs :: "graph \<Rightarrow> node_id \<Rightarrow> nat" where
  "offs g n = nd_edgeOffset (g_nodes g ! n)"

definition cnt :: "graph \<Rightarrow> node_id \<Rightarrow> nat" where
  "cnt g n = nd_numInputs (g_nodes g ! n)"

definition storeOk :: "graph \<Rightarrow> bool" where
  "storeOk g \<longleftrightarrow> length (g_uses g) = nodesSize g \<and> nodesSize g < 2 ^ 32 \<and> length (g_edgePool g) < 2 ^ 32
     \<and> (\<forall>n<nodesSize g. cnt g n < 2 ^ 16 \<and> offs g n + cnt g n \<le> length (g_edgePool g))
     \<and> (\<forall>m<nodesSize g. \<forall>n<nodesSize g. m \<noteq> n \<longrightarrow>
          (\<forall>i<cnt g m. \<forall>j<cnt g n. offs g m + i \<noteq> offs g n + j))"

definition usesExact :: "use list list \<Rightarrow> node_id list list \<Rightarrow> bool" where
  "usesExact us es \<longleftrightarrow> length us = length es
     \<and> (\<forall>d<length es. distinct (us ! d)
          \<and> (\<forall>u s. Use u s \<in> set (us ! d) \<longleftrightarrow> u < length es \<and> s < length (es ! u) \<and> es ! u ! s = d))"

text \<open>Every input is a node of the graph or the invalid id.\<close>

definition refOk :: "nat \<Rightarrow> node_id \<Rightarrow> bool" where
  "refOk k v \<longleftrightarrow> v < k \<or> v = kInvalidNodeId"

definition refsOk :: "node_id list list \<Rightarrow> bool" where
  "refsOk es \<longleftrightarrow> (\<forall>e\<in>set es. \<forall>v\<in>set e. refOk (length es) v)"

definition graphOk :: "graph \<Rightarrow> bool" where
  "graphOk g \<longleftrightarrow> storeOk g \<and> usesExact (g_uses g) (absg g) \<and> refsOk (absg g)"

text \<open>Room for one more node with \<open>k\<close> inputs, without a wrap-around of a 32-bit size.\<close>

definition roomFor :: "nat \<Rightarrow> graph \<Rightarrow> bool" where
  "roomFor k g \<longleftrightarrow> nodesSize g + 1 < 2 ^ 32 \<and> length (g_edgePool g) + k < 2 ^ 32"

section \<open>Use lists\<close>

lemma svRemove_remove1 [simp]: "fst (svRemove v xs) = remove1 v xs"
  by (induction v xs rule: svRemove.induct) (auto simp: split_beta)

definition pushAt :: "node_id \<Rightarrow> use \<Rightarrow> use list list \<Rightarrow> use list list" where
  "pushAt v u us = (if v < length us then us[v := us ! v @ [u]] else us)"

definition remAt :: "node_id \<Rightarrow> use \<Rightarrow> use list list \<Rightarrow> use list list" where
  "remAt d u us = (if d < length us then us[d := remove1 u (us ! d)] else us)"

lemma length_pushAt [simp]: "length (pushAt v u us) = length us"
  by (simp add: pushAt_def)

lemma length_remAt [simp]: "length (remAt d u us) = length us"
  by (simp add: remAt_def)

lemma nth_pushAt: "d < length us \<Longrightarrow> pushAt v u us ! d = (if d = v then us ! d @ [u] else us ! d)"
  by (simp add: pushAt_def)

lemma nth_remAt: "d < length us \<Longrightarrow> remAt v u us ! d = (if d = v then remove1 u (us ! d) else us ! d)"
  by (simp add: remAt_def)

lemma usesExactD:
  assumes "usesExact us es"
  shows "length us = length es"
    and "d < length es \<Longrightarrow> distinct (us ! d)"
    and "d < length es \<Longrightarrow> Use u s \<in> set (us ! d) \<longleftrightarrow> u < length es \<and> s < length (es ! u) \<and> es ! u ! s = d"
  using assms by (auto simp: usesExact_def)

lemma usesExact_set:
  assumes ex: "usesExact us es" and n: "n < length es" and s: "s < length (es ! n)"
    and ne: "es ! n ! s \<noteq> v"
  shows "usesExact (pushAt v (Use n s) (remAt (es ! n ! s) (Use n s) us)) (es[n := (es ! n)[s := v]])"
  unfolding usesExact_def
proof (intro conjI allI impI)
  show "length (pushAt v (Use n s) (remAt (es ! n ! s) (Use n s) us)) = length (es[n := (es ! n)[s := v]])"
    using usesExactD(1) [OF ex] by simp
next
  fix d assume "d < length (es[n := (es ! n)[s := v]])"
  then have d: "d < length es" "d < length us" using usesExactD(1) [OF ex] by simp_all
  note [simp] = nth_pushAt nth_remAt usesExactD(2,3) [OF ex]
  let ?us = "pushAt v (Use n s) (remAt (es ! n ! s) (Use n s) us)"
  let ?es = "es[n := (es ! n)[s := v]]"
  show "distinct (?us ! d)"
    using d ne by (auto simp: distinct_remove1)
  fix u t
  show "Use u t \<in> set (?us ! d) \<longleftrightarrow> u < length ?es \<and> t < length (?es ! u) \<and> ?es ! u ! t = d"
    using d ne n s by (auto simp: nth_list_update set_remove1_eq split: if_splits)
qed

lemma usesExact_append:
  assumes ex: "usesExact us es" and n: "n < length es"
  shows "usesExact (pushAt v (Use n (length (es ! n))) us) (es[n := es ! n @ [v]])"
  unfolding usesExact_def
proof (intro conjI allI impI)
  show "length (pushAt v (Use n (length (es ! n))) us) = length (es[n := es ! n @ [v]])"
    using usesExactD(1) [OF ex] by simp
next
  fix d assume "d < length (es[n := es ! n @ [v]])"
  then have d: "d < length es" "d < length us" using usesExactD(1) [OF ex] by simp_all
  note [simp] = nth_pushAt usesExactD(2,3) [OF ex]
  let ?us = "pushAt v (Use n (length (es ! n))) us"
  let ?es = "es[n := es ! n @ [v]]"
  show "distinct (?us ! d)"
    using d by auto
  fix u t
  show "Use u t \<in> set (?us ! d) \<longleftrightarrow> u < length ?es \<and> t < length (?es ! u) \<and> ?es ! u ! t = d"
    using d n by (auto simp: nth_list_update nth_append less_Suc_eq)
qed

lemma usesExact_snoc:
  assumes ex: "usesExact us es" and fresh: "\<forall>e\<in>set es. length es \<notin> set e"
  shows "usesExact (us @ [[]]) (es @ [[]])"
  unfolding usesExact_def
proof (intro conjI allI impI)
  show "length (us @ [[]]) = length (es @ [[]])"
    using usesExactD(1) [OF ex] by simp
next
  fix d assume "d < length (es @ [[]])"
  then consider "d < length es" | "d = length es" by fastforce
  then show "distinct ((us @ [[]]) ! d)"
    using ex by cases (auto simp: usesExact_def nth_append)
  fix u t
  have old: "es ! u ! t \<noteq> length es" if "u < length es" "t < length (es ! u)"
    using that fresh by (metis nth_mem)
  show "Use u t \<in> set ((us @ [[]]) ! d) \<longleftrightarrow>
      u < length (es @ [[]]) \<and> t < length ((es @ [[]]) ! u) \<and> (es @ [[]]) ! u ! t = d"
    using \<open>d < length (es @ [[]])\<close> usesExactD [OF ex] old
    by (cases "d < length es"; cases "u < length es") (auto simp: nth_append less_Suc_eq)
qed

section \<open>The edge pool\<close>

lemma storeOkD:
  assumes "storeOk g"
  shows "length (g_uses g) = nodesSize g" "nodesSize g < 4294967296" "length (g_edgePool g) < 4294967296"
    and "n < nodesSize g \<Longrightarrow> cnt g n < 65536"
    and "n < nodesSize g \<Longrightarrow> offs g n + cnt g n \<le> length (g_edgePool g)"
    and "m < nodesSize g \<Longrightarrow> n < nodesSize g \<Longrightarrow> m \<noteq> n \<Longrightarrow> i < cnt g m \<Longrightarrow> j < cnt g n \<Longrightarrow>
         offs g m + i \<noteq> offs g n + j"
  using assms by (auto simp: storeOk_def)

lemma edgeIndex_ok:
  assumes "storeOk g" "n < nodesSize g" "s < cnt g n"
  shows "edgeIndex (g_nodes g ! n) s = offs g n + s"
    and "offs g n + s < length (g_edgePool g)"
  using storeOkD(3,5) [OF assms(1)] assms(2,3) by (fastforce simp: edgeIndex_def offs_def)+

lemma numInputs_cnt [simp]: "n < nodesSize g \<Longrightarrow> numInputs g n = cnt g n"
  by (simp add: numInputs_def node_at_def cnt_def)

lemma input_pool:
  "storeOk g \<Longrightarrow> n < nodesSize g \<Longrightarrow> s < cnt g n \<Longrightarrow> input g n s = g_edgePool g ! (offs g n + s)"
  using edgeIndex_ok(1) [of g n s] by (simp add: input_def node_at_def cnt_def Let_def)

lemma length_absg [simp]: "length (absg g) = nodesSize g"
  by (simp add: absg_def)

lemma length_absg_nth [simp]: "n < nodesSize g \<Longrightarrow> length (absg g ! n) = cnt g n"
  by (simp add: absg_def inputsOf_def)

lemma absg_nth_nth:
  "storeOk g \<Longrightarrow> n < nodesSize g \<Longrightarrow> s < cnt g n \<Longrightarrow> absg g ! n ! s = g_edgePool g ! (offs g n + s)"
  by (simp add: absg_def inputsOf_def input_pool)

lemma absg_nth_input: "n < nodesSize g \<Longrightarrow> s < cnt g n \<Longrightarrow> absg g ! n ! s = input g n s"
  by (simp add: absg_def inputsOf_def)

text \<open>Two graphs with the same sizes have the same view when the slices agree.\<close>

lemma absg_eqI:
  assumes "nodesSize g = length es" "\<And>n. n < length es \<Longrightarrow> cnt g n = length (es ! n)"
    and "\<And>n s. n < length es \<Longrightarrow> s < length (es ! n) \<Longrightarrow> absg g ! n ! s = es ! n ! s"
  shows "absg g = es"
  using assms by (intro nth_equalityI) (auto intro: nth_equalityI)

lemma g_uses_pushUse: "length (g_uses g) = nodesSize g \<Longrightarrow> g_uses (pushUse v u g) = pushAt v u (g_uses g)"
  by (simp add: pushUse_def pushAt_def)

lemma pushUse_simps [simp]:
  "g_nodes (pushUse v u g) = g_nodes g" "g_edgePool (pushUse v u g) = g_edgePool g"
  "length (g_uses (pushUse v u g)) = length (g_uses g)"
  "g_fsDesc (pushUse v u g) = g_fsDesc g" "g_fsVobjs (pushUse v u g) = g_fsVobjs g"
  "g_epoch (pushUse v u g) = g_epoch g" "g_replacements (pushUse v u g) = g_replacements g"
  by (simp_all add: pushUse_def)

lemma pushUses_simps [simp]:
  "g_nodes (pushUses n s vs g) = g_nodes g" "g_edgePool (pushUses n s vs g) = g_edgePool g"
  "length (g_uses (pushUses n s vs g)) = length (g_uses g)"
  "g_fsDesc (pushUses n s vs g) = g_fsDesc g" "g_fsVobjs (pushUses n s vs g) = g_fsVobjs g"
  "g_epoch (pushUses n s vs g) = g_epoch g" "g_replacements (pushUses n s vs g) = g_replacements g"
  by (induction n s vs g rule: pushUses.induct) simp_all

lemma removeFromUses_simps [simp]:
  "g_nodes (removeFromUses d n s g) = g_nodes g" "g_edgePool (removeFromUses d n s g) = g_edgePool g"
  "length (g_uses (removeFromUses d n s g)) = length (g_uses g)"
  "g_uses (removeFromUses d n s g) = remAt d (Use n s) (g_uses g)"
  "g_fsDesc (removeFromUses d n s g) = g_fsDesc g" "g_fsVobjs (removeFromUses d n s g) = g_fsVobjs g"
  "g_epoch (removeFromUses d n s g) = g_epoch g"
  "g_replacements (removeFromUses d n s g) = g_replacements g"
  by (simp_all add: removeFromUses_def remAt_def)

text \<open>The view and the invariant depend on the slices, the pool and the use lists only.\<close>

lemma same_edges:
  assumes "nodesSize g' = nodesSize g" "g_edgePool g' = g_edgePool g"
    and "\<And>n. n < nodesSize g \<Longrightarrow> cnt g' n = cnt g n \<and> offs g' n = offs g n"
  shows "absg g' = absg g" and "g_uses g' = g_uses g \<Longrightarrow> graphOk g' = graphOk g"
    and "length (g_uses g') = length (g_uses g) \<Longrightarrow> storeOk g' = storeOk g"
proof -
  have "inputsOf g' n = inputsOf g n" if "n < nodesSize g" for n
    using that assms(1,2) assms(3) [OF that]
    by (simp add: inputsOf_def input_def node_at_def edgeIndex_def Let_def cnt_def offs_def numInputs_def)
  then show abs: "absg g' = absg g"
    using assms(1) by (simp add: absg_def)
  show st: "storeOk g' = storeOk g" if "length (g_uses g') = length (g_uses g)"
    using assms that by (simp add: storeOk_def)
  show "graphOk g' = graphOk g" if "g_uses g' = g_uses g"
    using that st abs by (simp add: graphOk_def)
qed

section \<open>Creating a node\<close>

lemma pushUses_exact:
  assumes "usesExact (g_uses g) (es @ [pre])" "nodesSize g = Suc (length es)"
  shows "usesExact (g_uses (pushUses (length es) (length pre) vs g)) (es @ [pre @ vs])"
  using assms
proof (induction vs arbitrary: pre g)
  case Nil
  then show ?case by simp
next
  case (Cons v vs)
  let ?g = "pushUse v (Use (length es) (length pre)) g"
  have len: "length (g_uses g) = nodesSize g"
    using Cons.prems usesExactD(1) [OF Cons.prems(1)] by simp
  have "usesExact (g_uses ?g) (es @ [pre @ [v]])"
    using usesExact_append [OF Cons.prems(1), of "length es" v] by (simp add: g_uses_pushUse len)
  from Cons.IH [OF this] Cons.prems(2) show ?case
    by simp
qed

definition rawGraph :: "node \<Rightarrow> node_id list \<Rightarrow> graph \<Rightarrow> graph" where
  "rawGraph nd ins g = g\<lparr>g_edgePool := g_edgePool g @ ins, g_nodes := g_nodes g @ [nd],
     g_uses := g_uses g @ [[]]\<rparr>"

lemma rawGraph_simps [simp]:
  "nodesSize (rawGraph nd ins g) = Suc (nodesSize g)"
  "g_uses (rawGraph nd ins g) = g_uses g @ [[]]"
  "g_edgePool (rawGraph nd ins g) = g_edgePool g @ ins"
  "g_nodes (rawGraph nd ins g) = g_nodes g @ [nd]"
  "n < nodesSize g \<Longrightarrow> cnt (rawGraph nd ins g) n = cnt g n"
  "n < nodesSize g \<Longrightarrow> offs (rawGraph nd ins g) n = offs g n"
  "cnt (rawGraph nd ins g) (nodesSize g) = nd_numInputs nd"
  "offs (rawGraph nd ins g) (nodesSize g) = nd_edgeOffset nd"
  by (simp_all add: rawGraph_def cnt_def offs_def nth_append)

lemma storeOk_raw:
  assumes ok: "storeOk g" and room: "roomFor (length ins) g"
    and nd: "nd_edgeOffset nd = length (g_edgePool g)" "nd_numInputs nd = length ins" "length ins < 2 ^ 16"
  shows "storeOk (rawGraph nd ins g)"
proof -
  note d = storeOkD [OF ok]
  let ?g = "rawGraph nd ins g"
  have sl: "offs ?g n + cnt ?g n \<le> length (g_edgePool g)" if "n < nodesSize g" for n
    using d(5) that by simp
  have "offs ?g m + i \<noteq> offs ?g n + j"
    if "m < Suc (nodesSize g)" "n < Suc (nodesSize g)" "m \<noteq> n" "i < cnt ?g m" "j < cnt ?g n" for m n i j
    using that d(6) [of m n i j] sl [of m] sl [of n] nd
    by (cases "m < nodesSize g"; cases "n < nodesSize g") (auto simp: less_Suc_eq)
  moreover have "cnt ?g n < 2 ^ 16 \<and> offs ?g n + cnt ?g n \<le> length (g_edgePool g) + length ins"
    if "n < Suc (nodesSize g)" for n
    using that d(4) [of n] sl [of n] nd by (cases "n < nodesSize g") (auto simp: less_Suc_eq)
  ultimately show ?thesis
    using d(1) room by (simp add: storeOk_def roomFor_def)
qed

lemma absg_raw:
  assumes ok: "storeOk g" and room: "roomFor (length ins) g"
    and nd: "nd_edgeOffset nd = length (g_edgePool g)" "nd_numInputs nd = length ins" "length ins < 2 ^ 16"
  shows "absg (rawGraph nd ins g) = absg g @ [ins]"
proof (rule absg_eqI)
  let ?g = "rawGraph nd ins g"
  note ok' = storeOk_raw [OF ok room nd]
  show "nodesSize ?g = length (absg g @ [ins])" by simp
  show "cnt ?g n = length ((absg g @ [ins]) ! n)" if "n < length (absg g @ [ins])" for n
    using that nd by (cases "n < nodesSize g") (auto simp: nth_append less_Suc_eq)
  show "absg ?g ! n ! s = (absg g @ [ins]) ! n ! s"
    if "n < length (absg g @ [ins])" "s < length ((absg g @ [ins]) ! n)" for n s
  proof (cases "n < nodesSize g")
    case True
    with that have s: "s < cnt g n" by (simp add: nth_append)
    have "offs g n + s < length (g_edgePool g)" using edgeIndex_ok(2) [OF ok True s] .
    then show ?thesis
      using True s absg_nth_nth [OF ok' , of n s] absg_nth_nth [OF ok True s] by (simp add: nth_append)
  next
    case False
    with that have "n = nodesSize g" "s < length ins" by (simp_all add: nth_append less_Suc_eq)
    then show ?thesis
      using absg_nth_nth [OF ok', of n s] nd by (simp add: nth_append)
  qed
qed

lemma makeRaw_ok:
  assumes ok: "graphOk g" and room: "roomFor (length ins) g" "length ins < 2 ^ 16"
    and refs: "\<forall>v\<in>set ins. refOk (Suc (nodesSize g)) v"
  shows "graphOk (fst (makeRaw k ins p p2 c g))"
    and "absg (fst (makeRaw k ins p p2 c g)) = absg g @ [ins]"
    and "snd (makeRaw k ins p p2 c g) = nodesSize g"
    and "nd_kind (node_at (fst (makeRaw k ins p p2 c g)) (nodesSize g)) = k"
proof -
  have st: "storeOk g" using ok by (simp add: graphOk_def)
  note d = storeOkD [OF st]
  define nd where "nd = defaultNode\<lparr>nd_kind := k, nd_edgeOffset := length (g_edgePool g),
    nd_numInputs := length ins, nd_payload := p, nd_payload2 := p2, nd_constValue := c\<rparr>"
  have nd: "nd_edgeOffset nd = length (g_edgePool g)" "nd_numInputs nd = length ins" "nd_kind nd = k"
    by (simp_all add: nd_def)
  let ?r = "rawGraph nd ins g"
  let ?g = "pushUses (nodesSize g) 0 ins ?r"
  have mk: "makeRaw k ins p p2 c g = (?g, nodesSize g)"
    using d(2,3) room by (simp add: makeRaw_def nd_def rawGraph_def Let_def)
  have abs: "absg ?g = absg g @ [ins]"
    using same_edges(1) [of ?g ?r] absg_raw [OF st room(1) nd(1,2) room(2)] by (simp add: cnt_def offs_def)
  have "\<forall>e\<in>set (absg g). length (absg g) \<notin> set e"
    using ok room(1) by (fastforce simp: graphOk_def refsOk_def refOk_def kInvalidNodeId_def roomFor_def)
  then have "usesExact (g_uses ?r) (absg g @ [[]])"
    using ok by (simp add: graphOk_def usesExact_snoc)
  from pushUses_exact [OF this, of ins] have "usesExact (g_uses ?g) (absg ?g)"
    by (simp add: abs)
  moreover have "storeOk ?g"
    using same_edges(3) [of ?g ?r] storeOk_raw [OF st room(1) nd(1,2) room(2)]
    by (simp add: cnt_def offs_def)
  moreover have "refsOk (absg ?g)"
    using ok refs by (fastforce simp: abs graphOk_def refsOk_def refOk_def)
  ultimately show "graphOk (fst (makeRaw k ins p p2 c g))"
    by (simp add: mk graphOk_def)
  show "absg (fst (makeRaw k ins p p2 c g)) = absg g @ [ins]" "snd (makeRaw k ins p p2 c g) = nodesSize g"
    by (simp_all add: mk abs)
  show "nd_kind (node_at (fst (makeRaw k ins p p2 c g)) (nodesSize g)) = k"
    by (simp add: mk node_at_def nd)
qed

section \<open>Changing an edge\<close>

lemma setInput_pool:
  assumes ok: "storeOk g" and n: "n < nodesSize g" and s: "s < cnt g n"
  shows "storeOk (g\<lparr>g_edgePool := (g_edgePool g)[offs g n + s := v]\<rparr>)"
    and "absg (g\<lparr>g_edgePool := (g_edgePool g)[offs g n + s := v]\<rparr>) = (absg g)[n := (absg g ! n)[s := v]]"
proof -
  let ?g = "g\<lparr>g_edgePool := (g_edgePool g)[offs g n + s := v]\<rparr>"
  have sz [simp]: "cnt ?g m = cnt g m" "offs ?g m = offs g m" for m
    by (simp_all add: cnt_def offs_def)
  show ok': "storeOk ?g"
    using ok by (simp add: storeOk_def)
  show "absg ?g = (absg g)[n := (absg g ! n)[s := v]]"
  proof (rule absg_eqI)
    show "cnt ?g m = length ((absg g)[n := (absg g ! n)[s := v]] ! m)"
      if "m < length ((absg g)[n := (absg g ! n)[s := v]])" for m
      using that by (cases "m = n") simp_all
    show "absg ?g ! m ! t = (absg g)[n := (absg g ! n)[s := v]] ! m ! t"
      if "m < length ((absg g)[n := (absg g ! n)[s := v]])"
        "t < length ((absg g)[n := (absg g ! n)[s := v]] ! m)" for m t
    proof (cases "m = n")
      case True
      then show ?thesis
        using that n s absg_nth_nth [OF ok'] absg_nth_nth [OF ok] edgeIndex_ok(2) [OF ok n s]
        by (auto simp: nth_list_update)
    next
      case False
      then have "t < cnt g m" "m < nodesSize g" using that by simp_all
      moreover from this have "offs g n + s \<noteq> offs g m + t"
        using storeOkD(6) [OF ok n _ _ s] False by auto
      ultimately show ?thesis
        using False absg_nth_nth [OF ok', of m t] absg_nth_nth [OF ok, of m t] by simp
    qed
  qed simp
qed

lemma setInput_eq:
  assumes st: "storeOk g" and n: "n < nodesSize g" and s: "s < cnt g n"
  shows "setInput n s v g =
    (if absg g ! n ! s = v then g
     else pushUse v (Use n s) (removeFromUses (absg g ! n ! s) n s
            (g\<lparr>g_edgePool := (g_edgePool g)[offs g n + s := v]\<rparr>)))"
  using n s absg_nth_nth [OF st n s] edgeIndex_ok(1) [OF st n s]
  by (simp add: setInput_def cnt_def Let_def)

lemma refsOk_update:
  assumes rf: "refsOk es" and n: "n < length es" and v: "refOk (length es) v"
  shows "refsOk (es[n := (es ! n)[s := v]])"
  unfolding refsOk_def
proof (intro ballI)
  fix e w assume "e \<in> set (es[n := (es ! n)[s := v]])" "w \<in> set e"
  then have "w = v \<or> (\<exists>e'\<in>set es. w \<in> set e')"
    using n set_update_subset_insert [of es n] set_update_subset_insert [of "es ! n" s v]
    by (metis insertE nth_mem subsetD)
  then show "refOk (length (es[n := (es ! n)[s := v]])) w"
    using v rf by (auto simp: refsOk_def)
qed

lemma setInput_ok:
  assumes ok: "graphOk g" and n: "n < nodesSize g" and s: "s < cnt g n" and v: "refOk (nodesSize g) v"
  shows "graphOk (setInput n s v g)"
    and "absg (setInput n s v g) = (absg g)[n := (absg g ! n)[s := v]]"
proof -
  have st: "storeOk g" and ex: "usesExact (g_uses g) (absg g)" and rf: "refsOk (absg g)"
    using ok by (simp_all add: graphOk_def)
  let ?p = "g\<lparr>g_edgePool := (g_edgePool g)[offs g n + s := v]\<rparr>"
  let ?g = "pushUse v (Use n s) (removeFromUses (absg g ! n ! s) n s ?p)"
  note eq = setInput_eq [OF st n s, of v]
  have abs: "absg ?g = (absg g)[n := (absg g ! n)[s := v]]"
    using same_edges(1) [of ?g ?p] setInput_pool(2) [OF st n s] by (simp add: cnt_def offs_def)
  show "absg (setInput n s v g) = (absg g)[n := (absg g ! n)[s := v]]"
    by (cases "absg g ! n ! s = v") (simp add: eq, metis list_update_id, simp add: eq abs)
  show "graphOk (setInput n s v g)"
  proof (cases "absg g ! n ! s = v")
    case True
    then show ?thesis using ok by (simp add: eq)
  next
    case False
    have "storeOk ?g"
      using same_edges(3) [of ?g ?p] setInput_pool(1) [OF st n s] by (simp add: cnt_def offs_def)
    moreover have "usesExact (g_uses ?g) (absg ?g)"
      using usesExact_set [OF ex, of n s v] n s False storeOkD(1) [OF st]
      by (simp add: abs g_uses_pushUse)
    moreover have "refsOk (absg ?g)"
      using refsOk_update [OF rf] n v by (simp add: abs)
    ultimately show ?thesis using False by (simp add: eq graphOk_def)
  qed
qed

lemma setInput_noop: "nodesSize g \<le> n \<or> numInputs g n \<le> s \<Longrightarrow> setInput n s v g = g"
  by (auto simp: setInput_def numInputs_def node_at_def Let_def split: if_splits)

section \<open>Appending an edge\<close>

lemma fold_relocate:
  assumes "off + k \<le> length pool" "length pool + k < 2 ^ 32" "nd_edgeOffset nd = off"
  shows "fold (\<lambda>s p. p @ [p ! edgeIndex nd s]) [0..<k] pool = pool @ take k (drop off pool)"
  using assms
proof (induction k)
  case 0
  then show ?case by simp
next
  case (Suc k)
  have "take (Suc k) (drop off pool) = take k (drop off pool) @ [pool ! (off + k)]"
    using Suc.prems by (simp add: take_Suc_conv_app_nth)
  then show ?case
    using Suc by (simp add: edgeIndex_def nth_append)
qed

lemma absg_nth_slice:
  assumes "storeOk g" "n < nodesSize g"
  shows "absg g ! n = take (cnt g n) (drop (offs g n) (g_edgePool g))"
  using storeOkD(5) [OF assms] assms by (intro nth_equalityI) (auto simp: absg_nth_nth)

lemma relocate_slice:
  assumes "storeOk g" "n < nodesSize g" "length (g_edgePool g) + cnt g n < 2 ^ 32"
  shows "relocate (g_nodes g ! n) (g_edgePool g) = g_edgePool g @ absg g ! n"
  using fold_relocate [OF storeOkD(5) [OF assms(1,2)] assms(3) offs_def [symmetric]]
  unfolding relocate_def absg_nth_slice [OF assms(1,2)] cnt_def .

definition grown :: "node_id \<Rightarrow> node_id \<Rightarrow> graph \<Rightarrow> graph" where
  "grown n v g = updNode n (\<lambda>nd. nd\<lparr>nd_edgeOffset := length (g_edgePool g), nd_numInputs := cnt g n + 1\<rparr>)
     (g\<lparr>g_edgePool := (g_edgePool g @ absg g ! n) @ [v]\<rparr>)"

lemma grown_simps [simp]:
  "nodesSize (grown n v g) = nodesSize g" "g_uses (grown n v g) = g_uses g"
  "g_edgePool (grown n v g) = g_edgePool g @ absg g ! n @ [v]"
  "m < nodesSize g \<Longrightarrow> cnt (grown n v g) m = (if m = n then cnt g n + 1 else cnt g m)"
  "m < nodesSize g \<Longrightarrow> offs (grown n v g) m = (if m = n then length (g_edgePool g) else offs g m)"
  by (auto simp: grown_def updNode_def cnt_def offs_def)

lemma grown_ok:
  assumes ok: "storeOk g" and n: "n < nodesSize g"
    and room: "length (g_edgePool g) + cnt g n + 1 < 2 ^ 32" "cnt g n + 1 < 2 ^ 16"
  shows "storeOk (grown n v g)" and "absg (grown n v g) = (absg g)[n := absg g ! n @ [v]]"
proof -
  note d = storeOkD [OF ok]
  let ?g = "grown n v g"
  have dis: "offs ?g m + i \<noteq> offs ?g k + j"
    if "m < nodesSize g" "k < nodesSize g" "m \<noteq> k" "i < cnt ?g m" "j < cnt ?g k" for m k i j
    using that d(5) [of m] d(5) [of k] d(6) [of m k i j] by (cases "m = n"; cases "k = n") simp_all
  have "cnt ?g m < 2 ^ 16 \<and> offs ?g m + cnt ?g m \<le> length (g_edgePool ?g)" if "m < nodesSize g" for m
    using that d(4,5) [of m] room n by (cases "m = n") simp_all
  then show ok': "storeOk ?g"
    using dis d room n by (simp add: storeOk_def)
  show "absg ?g = (absg g)[n := absg g ! n @ [v]]"
  proof (rule absg_eqI)
    show "cnt ?g m = length ((absg g)[n := absg g ! n @ [v]] ! m)"
      if "m < length ((absg g)[n := absg g ! n @ [v]])" for m
      using that by (cases "m = n") simp_all
    show "absg ?g ! m ! t = (absg g)[n := absg g ! n @ [v]] ! m ! t"
      if "m < length ((absg g)[n := absg g ! n @ [v]])" "t < length ((absg g)[n := absg g ! n @ [v]] ! m)" for m t
      using that n absg_nth_nth [OF ok', of m t] absg_nth_nth [OF ok, of m t] d(5) [of m]
      by (cases "m = n") (simp_all add: nth_append)
  qed simp
qed

lemma refsOk_append:
  assumes "refsOk es" "n < length es" "refOk (length es) v"
  shows "refsOk (es[n := es ! n @ [v]])"
  using assms by (auto simp: refsOk_def in_set_conv_nth nth_list_update nth_append) (metis nth_mem)+

lemma appendInput_ok:
  assumes ok: "graphOk g" and n: "n < nodesSize g" and v: "refOk (nodesSize g) v"
    and room: "length (g_edgePool g) + cnt g n + 1 < 2 ^ 32" "cnt g n + 1 < 2 ^ 16"
  shows "graphOk (appendInput n v g)"
    and "absg (appendInput n v g) = (absg g)[n := absg g ! n @ [v]]"
proof -
  have st: "storeOk g" and ex: "usesExact (g_uses g) (absg g)" and rf: "refsOk (absg g)"
    using ok by (simp_all add: graphOk_def)
  let ?g = "pushUse v (Use n (cnt g n)) (grown n v g)"
  have w: "u16 (cnt g n + 1 + 65535) = cnt g n"
    using room(2) by (simp add: u16_def)
  have eq: "appendInput n v g = ?g"
    using n room w relocate_slice [OF st n] storeOkD(3) [OF st]
    by (simp add: appendInput_def grown_def Let_def cnt_def)
  have abs: "absg ?g = (absg g)[n := absg g ! n @ [v]]"
    using same_edges(1) [of ?g "grown n v g"] grown_ok(2) [OF st n room] by (simp add: cnt_def offs_def)
  then show "absg (appendInput n v g) = (absg g)[n := absg g ! n @ [v]]"
    by (simp add: eq)
  have "storeOk ?g"
    using same_edges(3) [of ?g "grown n v g"] grown_ok(1) [OF st n room] by (simp add: cnt_def offs_def)
  moreover have "usesExact (g_uses ?g) (absg ?g)"
    using usesExact_append [OF ex, of n v] n storeOkD(1) [OF st] by (simp add: abs g_uses_pushUse)
  moreover have "refsOk (absg ?g)"
    using refsOk_append [OF rf] n v by (simp add: abs)
  ultimately show "graphOk (appendInput n v g)"
    by (simp add: eq graphOk_def)
qed

lemma length_relocate: "length (relocate nd pool) = length pool + nd_numInputs nd"
proof -
  have "length (fold (\<lambda>s p. p @ [p ! edgeIndex nd s]) ss pool) = length pool + length ss" for ss
    by (induction ss arbitrary: pool) simp_all
  then show ?thesis by (simp add: relocate_def)
qed

end
