(* ===== verification/Ir_Replace.thy ===== *)
theory Ir_Replace
  imports Ir_GraphOk
begin

text \<open>
  Replacement and the life of a graph. Replacement is proved once against an interface, the locale
  \<open>use_def_graph\<close>: a graph whose use lists are exact and whose edges can be rewired one at a
  time. The interface is then discharged for the graph of the IR, and \<open>replaceNode\<close>, \<open>killNode\<close>,
  \<open>attachSpecMeta\<close> and the replay of a replacement are shown to keep the invariant.
\<close>

section \<open>Rewiring against an interface\<close>

definition substNode :: "node_id \<Rightarrow> node_id \<Rightarrow> node_id \<Rightarrow> node_id" where
  "substNode old w x = (if x = old then w else x)"

locale use_def_graph =
  fixes ok :: "'g \<Rightarrow> bool" and edges :: "'g \<Rightarrow> node_id list list" and usesAt :: "'g \<Rightarrow> node_id \<Rightarrow> use list"
    and rewire :: "node_id \<Rightarrow> node_id \<Rightarrow> use \<Rightarrow> 'g \<Rightarrow> 'g"
  assumes uses_distinct: "ok g \<Longrightarrow> d < length (edges g) \<Longrightarrow> distinct (usesAt g d)"
    and uses_exact: "ok g \<Longrightarrow> d < length (edges g) \<Longrightarrow>
      Use n s \<in> set (usesAt g d) \<longleftrightarrow> n < length (edges g) \<and> s < length (edges g ! n) \<and> edges g ! n ! s = d"
    and rewire_ok: "ok g \<Longrightarrow> w < length (edges g) \<Longrightarrow> ok (rewire old w u g)"
    and edges_rewire: "ok g \<Longrightarrow> w < length (edges g) \<Longrightarrow>
      edges (rewire old w (Use n s) g) =
        (if n < length (edges g) \<and> s < length (edges g ! n) \<and> edges g ! n ! s = old
         then (edges g)[n := (edges g ! n)[s := w]] else edges g)"
begin

definition rewired :: "node_id \<Rightarrow> node_id \<Rightarrow> use set \<Rightarrow> node_id list list \<Rightarrow> node_id list list" where
  "rewired old w us es = map (\<lambda>n. map (\<lambda>s. if Use n s \<in> us \<and> es ! n ! s = old then w else es ! n ! s)
     [0..<length (es ! n)]) [0..<length es]"

lemma length_rewire [simp]:
  "ok g \<Longrightarrow> w < length (edges g) \<Longrightarrow> length (edges (rewire old w u g)) = length (edges g)"
  by (cases u) (simp add: edges_rewire)

lemma rewired_step:
  "rewired old w us (if n < length es \<and> s < length (es ! n) \<and> es ! n ! s = old
      then es[n := (es ! n)[s := w]] else es) = rewired old w (insert (Use n s) us) es"
  by (intro nth_equalityI) (auto simp: rewired_def nth_list_update intro!: nth_equalityI)

lemma fold_rewire:
  assumes "ok g" "w < length (edges g)"
  shows "ok (fold (rewire old w) us g)
    \<and> edges (fold (rewire old w) us g) = rewired old w (set us) (edges g)"
  using assms
proof (induction us arbitrary: g)
  case Nil
  then show ?case by (auto simp: rewired_def intro!: nth_equalityI)
next
  case (Cons u us)
  obtain n s where u: "u = Use n s" by (cases u)
  let ?g = "rewire old w u g"
  have "ok ?g" "w < length (edges ?g)" using Cons.prems by (simp_all add: rewire_ok)
  from Cons.IH [OF this] show ?case
    using Cons.prems by (simp add: u edges_rewire rewired_step)
qed

lemma rewire_all:
  assumes "ok g" "old < length (edges g)" "w < length (edges g)"
  shows "ok (fold (rewire old w) (usesAt g old) g)"
    and "edges (fold (rewire old w) (usesAt g old) g) = map (map (substNode old w)) (edges g)"
proof -
  note f = fold_rewire [OF assms(1,3), of old "usesAt g old"]
  show "ok (fold (rewire old w) (usesAt g old) g)" using f by simp
  have "rewired old w (set (usesAt g old)) (edges g) = map (map (substNode old w)) (edges g)"
    using uses_exact [OF assms(1,2)]
    by (intro nth_equalityI) (auto simp: rewired_def substNode_def intro!: nth_equalityI)
  then show "edges (fold (rewire old w) (usesAt g old) g) = map (map (substNode old w)) (edges g)"
    using f by simp
qed

lemma no_uses_left:
  assumes "ok g" "old < length (edges g)" "w < length (edges g)" "old \<noteq> w"
  shows "usesAt (fold (rewire old w) (usesAt g old) g) old = []"
proof -
  let ?g = "fold (rewire old w) (usesAt g old) g"
  note r = rewire_all [OF assms(1-3)]
  have "Use n s \<notin> set (usesAt ?g old)" for n s
    using uses_exact [OF r(1), of old n s] assms(2,4) r(2) by (auto simp: substNode_def split: if_splits)
  then have "set (usesAt ?g old) = {}"
    by (metis equals0I use.exhaust)
  then show ?thesis by simp
qed

end

section \<open>The IR graph provides the interface\<close>

lemma graphOk_simps:
  assumes "graphOk g"
  shows "storeOk g" "usesExact (g_uses g) (absg g)" "refsOk (absg g)"
  using assms by (simp_all add: graphOk_def)

lemma usesOf_eq: "graphOk g \<Longrightarrow> d < nodesSize g \<Longrightarrow> usesOf g d = g_uses g ! d"
  using storeOkD(1) [OF graphOk_simps(1), of g] by (simp add: usesOf_def)

lemma rewireUse_eq:
  assumes "graphOk g"
  shows "rewireUse old w (Use n s) g =
    (if n < nodesSize g \<and> s < cnt g n \<and> absg g ! n ! s = old then setInput n s w g else g)"
  using edgeIndex_ok(1) [OF graphOk_simps(1) [OF assms], of n s]
    absg_nth_nth [OF graphOk_simps(1) [OF assms], of n s]
  by (auto simp: rewireUse_def cnt_def)

interpretation irg: use_def_graph graphOk absg usesOf rewireUse
proof unfold_locales
  fix g :: graph and d n s w old :: nat and u :: use
  assume ok: "graphOk g"
  note ex = usesExactD [OF graphOk_simps(2) [OF ok]]
  show "distinct (usesOf g d)" if "d < length (absg g)"
    using that ex(2) usesOf_eq [OF ok] by simp
  show "Use n s \<in> set (usesOf g d) \<longleftrightarrow> n < length (absg g) \<and> s < length (absg g ! n) \<and> absg g ! n ! s = d"
    if "d < length (absg g)"
    using that ex(3) [of d n s] usesOf_eq [OF ok] by simp
  assume w: "w < length (absg g)"
  then have r: "refOk (nodesSize g) w" by (simp add: refOk_def)
  show "graphOk (rewireUse old w u g)"
    using setInput_ok(1) [OF ok _ _ r] ok by (cases u) (simp add: rewireUse_eq [OF ok])
  show "absg (rewireUse old w (Use n s) g) =
      (if n < length (absg g) \<and> s < length (absg g ! n) \<and> absg g ! n ! s = old
       then (absg g)[n := (absg g ! n)[s := w]] else absg g)"
    using setInput_ok(2) [OF ok _ _ r] by (auto simp: rewireUse_eq [OF ok])
qed

section \<open>Updates that leave the edges alone\<close>

lemma updNode_edges:
  assumes "\<And>nd. nd_edgeOffset (f nd) = nd_edgeOffset nd" "\<And>nd. nd_numInputs (f nd) = nd_numInputs nd"
  shows "cnt (updNode n f g) m = cnt g m" "offs (updNode n f g) m = offs g m"
  using assms by (simp_all add: updNode_def cnt_def offs_def nth_list_update) (metis list_update_beyond
    not_le_imp_less nth_list_update_eq nth_list_update_neq)+

lemma updNode_simps [simp]:
  "nodesSize (updNode n f g) = nodesSize g" "g_uses (updNode n f g) = g_uses g"
  "g_edgePool (updNode n f g) = g_edgePool g" "g_fsDesc (updNode n f g) = g_fsDesc g"
  "g_fsVobjs (updNode n f g) = g_fsVobjs g" "g_epoch (updNode n f g) = g_epoch g"
  "g_replacements (updNode n f g) = g_replacements g"
  "n < nodesSize g \<Longrightarrow> g_nodes (updNode n f g) ! n = f (g_nodes g ! n)"
  "m \<noteq> n \<Longrightarrow> g_nodes (updNode n f g) ! m = g_nodes g ! m"
  by (simp_all add: updNode_def)

lemma graphOk_fields:
  assumes "nodesSize g' = nodesSize g" "g_edgePool g' = g_edgePool g" "g_uses g' = g_uses g"
    and "\<And>n. cnt g' n = cnt g n" "\<And>n. offs g' n = offs g n"
  shows "graphOk g' = graphOk g" "absg g' = absg g"
  using same_edges [of g' g] assms by simp_all

lemma graphOk_updNode:
  assumes "\<And>nd. nd_edgeOffset (f nd) = nd_edgeOffset nd" "\<And>nd. nd_numInputs (f nd) = nd_numInputs nd"
  shows "graphOk (updNode n f g) = graphOk g" "absg (updNode n f g) = absg g"
  by (rule graphOk_fields; simp add: updNode_edges [OF assms])+

lemma killNode_ok: "graphOk g \<Longrightarrow> graphOk (killNode n g)" "absg (killNode n g) = absg g"
proof -
  have e: "graphOk (nextEpoch g) = graphOk g" "absg (nextEpoch g) = absg g"
    by (rule graphOk_fields; simp add: nextEpoch_def cnt_def offs_def)+
  show "graphOk g \<Longrightarrow> graphOk (killNode n g)" "absg (killNode n g) = absg g"
    by (simp_all add: killNode_def Let_def graphOk_updNode e)
qed

lemma attachSpecMeta_ok:
  "graphOk g \<Longrightarrow> graphOk (attachSpecMeta n i g)" "absg (attachSpecMeta n i g) = absg g"
  by (simp_all add: attachSpecMeta_def graphOk_updNode)

lemma replayReplacement_ok:
  "graphOk g \<Longrightarrow> graphOk (replayReplacement a b e g)" "absg (replayReplacement a b e g) = absg g"
proof -
  have r: "graphOk (h\<lparr>g_replacements := x, g_epoch := y\<rparr>) = graphOk h"
    "absg (h\<lparr>g_replacements := x, g_epoch := y\<rparr>) = absg h" for h x y
    by (rule graphOk_fields; simp add: cnt_def offs_def)+
  show "graphOk g \<Longrightarrow> graphOk (replayReplacement a b e g)" "absg (replayReplacement a b e g) = absg g"
    by (simp_all add: replayReplacement_def Let_def graphOk_updNode r)
qed

section \<open>Replacing a node\<close>

definition replaceable :: "node_id \<Rightarrow> node_id \<Rightarrow> graph \<Rightarrow> bool" where
  "replaceable old w g \<longleftrightarrow> old < nodesSize g \<and> w < nodesSize g \<and> \<not> isDead (g_nodes g ! w) \<and> old \<noteq> w"

lemma setInput_simps [simp]:
  "g_nodes (setInput n s v g) = g_nodes g" "g_epoch (setInput n s v g) = g_epoch g"
  "g_replacements (setInput n s v g) = g_replacements g"
  "g_fsDesc (setInput n s v g) = g_fsDesc g" "g_fsVobjs (setInput n s v g) = g_fsVobjs g"
  by (simp_all add: setInput_def Let_def)

lemma fold_rewireUse_simps [simp]:
  "g_nodes (fold (rewireUse old w) us g) = g_nodes g" "g_epoch (fold (rewireUse old w) us g) = g_epoch g"
  "g_replacements (fold (rewireUse old w) us g) = g_replacements g"
  "g_fsDesc (fold (rewireUse old w) us g) = g_fsDesc g"
  "g_fsVobjs (fold (rewireUse old w) us g) = g_fsVobjs g"
  by (induction us arbitrary: g) (simp_all add: rewireUse_def)

lemma replaceNode_refused: "\<not> replaceable old w g \<Longrightarrow> replaceNode old w g = (g, 0)"
  by (auto simp: replaceNode_def replaceable_def not_less)

lemma replaceNode_ok:
  assumes ok: "graphOk g" and r: "replaceable old w g"
  shows "graphOk (fst (replaceNode old w g))"
    and "absg (fst (replaceNode old w g)) = map (map (substNode old w)) (absg g)"
    and "usesOf (fst (replaceNode old w g)) old = []"
    and "isDead (g_nodes (fst (replaceNode old w g)) ! old)"
    and "snd (replaceNode old w g) = u32 (g_epoch g + 1)"
    and "g_replacements (fst (replaceNode old w g)) =
           g_replacements g @ [\<lparr>rp_oldNode = old, rp_newNode = w, rp_epoch = u32 (g_epoch g + 1)\<rparr>]"
proof -
  let ?f = "fold (rewireUse old w) (g_uses g ! old) g"
  let ?h = "fst (replaceNode old w g)"
  have lt: "old < length (absg g)" "w < length (absg g)" "old \<noteq> w"
    using r by (simp_all add: replaceable_def)
  have u: "usesOf g old = g_uses g ! old" using usesOf_eq [OF ok] lt by simp
  note all = irg.rewire_all [OF ok lt(1,2), unfolded u] irg.no_uses_left [OF ok lt, unfolded u]
  have eq: "nodesSize ?h = nodesSize ?f" "g_edgePool ?h = g_edgePool ?f" "g_uses ?h = g_uses ?f"
    "\<And>n. cnt ?h n = cnt ?f n" "\<And>n. offs ?h n = offs ?f n"
    using r by (auto simp: replaceNode_def replaceable_def Let_def nextEpoch_def updNode_def cnt_def offs_def
        nth_list_update)
  show "graphOk ?h" "absg ?h = map (map (substNode old w)) (absg g)" "usesOf ?h old = []"
    using graphOk_fields [OF eq] all eq(3) by (simp_all add: usesOf_def split: if_splits)
  show "isDead (g_nodes ?h ! old)" "snd (replaceNode old w g) = u32 (g_epoch g + 1)"
    "g_replacements ?h = g_replacements g @
       [\<lparr>rp_oldNode = old, rp_newNode = w, rp_epoch = u32 (g_epoch g + 1)\<rparr>]"
    using r by (simp_all add: replaceNode_def replaceable_def Let_def nextEpoch_def isDead_def)
qed

end
