(* ===== verification/Ir_Build.thy ===== *)
theory Ir_Build
  imports Ir_Replace
begin

text \<open>
  The frame-state table of the graph and the life of a graph. The first part is the invariant of
  the flat vector of virtual objects: the slices of the descriptors are in range and ordered, and
  appending to one slice leaves the others as they were. The second part collects the operations
  in a step relation and proves the invariants of every graph they build.
\<close>

section \<open>The frame-state table\<close>

definition fsEnd :: "frame_state_desc \<Rightarrow> nat" where
  "fsEnd d = fs_vobjOffset d + fs_vobjCount d"

definition apart :: "frame_state_desc \<Rightarrow> frame_state_desc \<Rightarrow> bool" where
  "apart d e \<longleftrightarrow> fsEnd d \<le> fs_vobjOffset e \<or> fsEnd e \<le> fs_vobjOffset d"

definition fsOk :: "frame_state_desc list \<Rightarrow> node_id list \<Rightarrow> bool" where
  "fsOk ds vs \<longleftrightarrow> length vs < 2 ^ 32 \<and> (\<forall>d\<in>set ds. fsEnd d \<le> length vs)
     \<and> (\<forall>i<length ds. \<forall>j<length ds. i \<noteq> j \<longrightarrow> apart (ds ! i) (ds ! j))"

definition sliceOf :: "node_id list \<Rightarrow> frame_state_desc \<Rightarrow> node_id list" where
  "sliceOf vs d = take (fs_vobjCount d) (drop (fs_vobjOffset d) vs)"

text \<open>The abstract view: the list of the virtual objects of every descriptor.\<close>

definition absfs :: "graph \<Rightarrow> node_id list list" where
  "absfs g = map (frameStateVobjs g) [0..<length (g_fsDesc g)]"

abbreviation frameTableOk :: "graph \<Rightarrow> bool" where
  "frameTableOk g \<equiv> fsOk (g_fsDesc g) (g_fsVobjs g)"

lemma absfs_slices:
  assumes "frameTableOk g"
  shows "absfs g = map (sliceOf (g_fsVobjs g)) (g_fsDesc g)"
proof (rule nth_equalityI)
  fix i assume "i < length (absfs g)"
  then have i: "i < length (g_fsDesc g)" by (simp add: absfs_def)
  then have "fsEnd (g_fsDesc g ! i) \<le> length (g_fsVobjs g)" "length (g_fsVobjs g) < 4294967296"
    using assms by (simp_all add: fsOk_def)
  then show "absfs g ! i = map (sliceOf (g_fsVobjs g)) (g_fsDesc g) ! i"
    using i by (simp add: absfs_def frameStateVobjs_def Let_def sliceOf_def fsEnd_def)
qed (simp add: absfs_def)

lemma sliceOf_append: "fsEnd d \<le> length vs \<Longrightarrow> sliceOf (vs @ ws) d = sliceOf vs d"
  by (simp add: sliceOf_def fsEnd_def)

lemma addFrameStateDesc_ok:
  fixes m pc caller :: nat
  assumes ok: "frameTableOk g" and room: "length (g_fsVobjs g) + length vobjs < 2 ^ 32"
    and size: "length (g_fsDesc g) < 2 ^ 32"
  defines "g' \<equiv> fst (addFrameStateDesc m pc caller vobjs g)"
  shows "frameTableOk g'" "absfs g' = absfs g @ [vobjs]"
    "snd (addFrameStateDesc m pc caller vobjs g) = length (g_fsDesc g)"
proof -
  define d where "d = \<lparr>fs_method = m, fs_pc = pc, fs_caller = caller,
    fs_vobjOffset = length (g_fsVobjs g), fs_vobjCount = length vobjs\<rparr>"
  have g': "g_fsDesc g' = g_fsDesc g @ [d]" "g_fsVobjs g' = g_fsVobjs g @ vobjs"
    using room by (simp_all add: g'_def addFrameStateDesc_def d_def)
  have old: "fsEnd e \<le> length (g_fsVobjs g)" if "e \<in> set (g_fsDesc g)" for e
    using ok that by (simp add: fsOk_def)
  have "apart ((g_fsDesc g @ [d]) ! i) ((g_fsDesc g @ [d]) ! j)"
    if "i < Suc (length (g_fsDesc g))" "j < Suc (length (g_fsDesc g))" "i \<noteq> j" for i j
    using that ok old [OF nth_mem, of i] old [OF nth_mem, of j]
    by (cases "i < length (g_fsDesc g)"; cases "j < length (g_fsDesc g)")
      (auto simp: fsOk_def nth_append apart_def d_def)
  moreover have "\<forall>e\<in>set (g_fsDesc g @ [d]). fsEnd e \<le> length (g_fsVobjs g @ vobjs)"
    using old by (fastforce simp: d_def fsEnd_def)
  ultimately show ok': "frameTableOk g'"
    using room by (simp add: fsOk_def g')
  show "absfs g' = absfs g @ [vobjs]"
    unfolding absfs_slices [OF ok'] absfs_slices [OF ok] g'
    using old by (simp add: sliceOf_append) (simp add: sliceOf_def d_def)
  show "snd (addFrameStateDesc m pc caller vobjs g) = length (g_fsDesc g)"
    using size by (simp add: addFrameStateDesc_def Let_def)
qed

text \<open>Inserting at the end of the slice of \<open>fs\<close> moves the slices behind it by one.\<close>

lemma sliceOf_insert_before:
  "fsEnd e \<le> p \<Longrightarrow> p \<le> length vs \<Longrightarrow> sliceOf (take p vs @ v # drop p vs) e = sliceOf vs e"
  by (intro nth_equalityI) (auto simp: sliceOf_def fsEnd_def nth_append)

lemma sliceOf_insert_behind:
  assumes "p \<le> fs_vobjOffset e" "fsEnd e \<le> length vs" "length vs < 2 ^ 32 - 1"
  shows "sliceOf (take p vs @ v # drop p vs) (shiftDesc p e) = sliceOf vs e"
  using assms by (intro nth_equalityI) (auto simp: sliceOf_def fsEnd_def shiftDesc_def nth_append)

lemma sliceOf_insert_here:
  assumes "fsEnd d \<le> length vs"
  shows "sliceOf (take (fsEnd d) vs @ v # drop (fsEnd d) vs) (d\<lparr>fs_vobjCount := fs_vobjCount d + 1\<rparr>) =
    sliceOf vs d @ [v]"
  using assms by (intro nth_equalityI) (auto simp: sliceOf_def fsEnd_def nth_append less_Suc_eq)

lemma shifted_end:
  "fs_vobjOffset e + 1 < 2 ^ 32 \<Longrightarrow>
   fs_vobjOffset (shiftDesc p e) = fs_vobjOffset e + (if p \<le> fs_vobjOffset e then 1 else 0)
   \<and> fsEnd (shiftDesc p e) = fsEnd e + (if p \<le> fs_vobjOffset e then 1 else 0)"
  by (simp add: shiftDesc_def fsEnd_def)

lemma appendFrameStateVobj_ok:
  assumes ok: "frameTableOk g" and fs: "fs < length (g_fsDesc g)"
    and room: "length (g_fsVobjs g) + 1 < 2 ^ 32"
  shows "frameTableOk (appendFrameStateVobj fs v g)"
    and "absfs (appendFrameStateVobj fs v g) = (absfs g)[fs := absfs g ! fs @ [v]]"
proof -
  let ?ds = "g_fsDesc g" and ?vs = "g_fsVobjs g"
  define d where "d = ?ds ! fs"
  let ?p = "fsEnd d"
  let ?d = "d\<lparr>fs_vobjCount := fs_vobjCount d + 1\<rparr>"
  let ?es = "(map (shiftDesc ?p) ?ds)[fs := ?d]" and ?ws = "take ?p ?vs @ v # drop ?p ?vs"
  have ends: "fsEnd e \<le> length ?vs" if "e \<in> set ?ds" for e using ok that by (simp add: fsOk_def)
  then have p: "?p \<le> length ?vs" using fs by (simp add: d_def)
  have ap: "apart (?ds ! i) (?ds ! j)" if "i < length ?ds" "j < length ?ds" "i \<noteq> j" for i j
    using ok that by (simp add: fsOk_def)
  have g': "g_fsDesc (appendFrameStateVobj fs v g) = ?es" "g_fsVobjs (appendFrameStateVobj fs v g) = ?ws"
    using fs p room by (simp_all add: appendFrameStateVobj_def Let_def d_def fsEnd_def)
  have sh: "fs_vobjOffset (shiftDesc ?p (?ds ! i)) =
        fs_vobjOffset (?ds ! i) + (if ?p \<le> fs_vobjOffset (?ds ! i) then 1 else 0)
      \<and> fsEnd (shiftDesc ?p (?ds ! i)) = fsEnd (?ds ! i) + (if ?p \<le> fs_vobjOffset (?ds ! i) then 1 else 0)"
    if "i < length ?ds" for i
    using shifted_end [of "?ds ! i" ?p] ends [of "?ds ! i"] that room by (simp add: fsEnd_def)
  have endd: "fsEnd ?d = ?p + 1" "fs_vobjOffset ?d = fs_vobjOffset d" "fs_vobjOffset d \<le> ?p"
    by (simp_all add: fsEnd_def)
  have before: "fsEnd (?ds ! i) \<le> fs_vobjOffset d" if "i < length ?ds" "i \<noteq> fs" "\<not> ?p \<le> fs_vobjOffset (?ds ! i)" for i
    using ap [of i fs] that fs by (auto simp: apart_def d_def)
  have "apart (?es ! i) (?es ! j)" if "i < length ?es" "j < length ?es" "i \<noteq> j" for i j
    using that sh [of i] sh [of j] ap [of i j] before [of i] before [of j] endd
    by (cases "i = fs"; cases "j = fs") (auto simp: apart_def fsEnd_def)
  moreover have "fsEnd (?es ! i) \<le> length ?ws" if "i < length ?es" for i
    using that sh [of i] ends [of "?ds ! i"] endd p by (cases "i = fs") auto
  ultimately show ok': "frameTableOk (appendFrameStateVobj fs v g)"
    using room p by (simp add: fsOk_def g' all_set_conv_all_nth)
  have "sliceOf ?ws (?es ! i) = (if i = fs then sliceOf ?vs d @ [v] else sliceOf ?vs (?ds ! i))"
    if i: "i < length ?ds" for i
  proof (cases "i = fs")
    case True
    then show ?thesis using i sliceOf_insert_here [OF p] by simp
  next
    case False
    then show ?thesis
      using i before [of i] endd p ends [of "?ds ! i"] room sliceOf_insert_behind [of ?p "?ds ! i" ?vs v]
        sliceOf_insert_before [of "?ds ! i" ?p ?vs v]
      by (cases "?p \<le> fs_vobjOffset (?ds ! i)") (auto simp: shiftDesc_def)
  qed
  then show "absfs (appendFrameStateVobj fs v g) = (absfs g)[fs := absfs g ! fs @ [v]]"
    unfolding absfs_slices [OF ok'] absfs_slices [OF ok] g' using fs
    by (intro nth_equalityI) (auto simp: nth_list_update d_def)
qed

section \<open>The replacement log\<close>

definition logOk :: "graph \<Rightarrow> bool" where
  "logOk g \<longleftrightarrow> sorted_wrt (<) (map rp_epoch (g_replacements g))
     \<and> (\<forall>r\<in>set (g_replacements g). rp_oldNode r < nodesSize g \<and> isDead (g_nodes g ! rp_oldNode r)
          \<and> rp_epoch r \<le> g_epoch g)"

lemma logOk_fields:
  assumes "logOk g" "g_replacements g' = g_replacements g" "nodesSize g \<le> nodesSize g'" "g_epoch g \<le> g_epoch g'"
    and "\<And>n. n < nodesSize g \<Longrightarrow> isDead (g_nodes g ! n) \<Longrightarrow> isDead (g_nodes g' ! n)"
  shows "logOk g'"
  using assms by (fastforce simp: logOk_def)

lemma logOk_replace:
  assumes log: "logOk g" and e: "g_epoch g + 1 < 2 ^ 32"
  shows "logOk (fst (replaceNode old w g))"
proof (cases "replaceable old w g")
  case True
  let ?h = "fst (replaceNode old w g)"
  have dead: "isDead (g_nodes ?h ! n) \<longleftrightarrow> n = old \<or> isDead (g_nodes g ! n)" if "n < nodesSize g" for n
    using True that
    by (cases "n = old") (simp_all add: replaceNode_def replaceable_def Let_def nextEpoch_def isDead_def)
  have h: "nodesSize ?h = nodesSize g" "g_epoch ?h = g_epoch g + 1"
    "g_replacements ?h = g_replacements g @ [\<lparr>rp_oldNode = old, rp_newNode = w, rp_epoch = g_epoch g + 1\<rparr>]"
    using True e by (simp_all add: replaceNode_def replaceable_def Let_def nextEpoch_def)
  show ?thesis
    using log True dead unfolding logOk_def h
    by (fastforce simp: sorted_wrt_append replaceable_def)
qed (simp add: replaceNode_refused log)

section \<open>The life of a graph\<close>

text \<open>
  One step is one call of a public operation. The premises are what the operations need from
  their callers: inputs that exist (or the invalid id), and no wrap-around of a 16- or 32-bit
  size. Operations the source makes total (out-of-range ids are ignored, a dead replacement is
  refused) have no premise on their ids.
\<close>

definition fits :: "node_id list \<Rightarrow> graph \<Rightarrow> bool" where
  "fits ins g \<longleftrightarrow> roomFor (length ins) g \<and> length ins < 2 ^ 16 \<and> (\<forall>v\<in>set ins. refOk (Suc (nodesSize g)) v)"

inductive built :: "graph \<Rightarrow> bool" where
  new: "built newGraph"
| makeRaw: "built g \<Longrightarrow> fits ins g \<Longrightarrow> built (fst (makeRaw k ins p p2 c g))"
| setInput: "built g \<Longrightarrow> refOk (nodesSize g) v \<Longrightarrow> built (setInput n s v g)"
| appendInput: "built g \<Longrightarrow> refOk (nodesSize g) v \<Longrightarrow>
    length (g_edgePool g) + numInputs g n + 1 < 2 ^ 32 \<Longrightarrow> numInputs g n + 1 < 2 ^ 16 \<Longrightarrow>
    built (appendInput n v g)"
| replaceNode: "built g \<Longrightarrow> g_epoch g + 1 < 2 ^ 32 \<Longrightarrow> built (fst (replaceNode old w g))"
| killNode: "built g \<Longrightarrow> g_epoch g + 1 < 2 ^ 32 \<Longrightarrow> built (killNode n g)"
| nextEpoch: "built g \<Longrightarrow> g_epoch g + 1 < 2 ^ 32 \<Longrightarrow> built (nextEpoch g)"
| attachSpecMeta: "built g \<Longrightarrow> built (attachSpecMeta n i g)"
| addSpecMeta: "built g \<Longrightarrow> built (fst (addSpecMeta sm g))"
| addDependency: "built g \<Longrightarrow> built (fst (addDependency d g))"
| makeFrameState: "built g \<Longrightarrow> fits locals g \<Longrightarrow> length (g_fsVobjs g) + length vobjs < 2 ^ 32 \<Longrightarrow>
    length (g_fsDesc g) < 2 ^ 32 \<Longrightarrow> built (fst (makeFrameState m pc locals caller vobjs g))"
| appendFrameStateVobj: "built g \<Longrightarrow> length (g_fsVobjs g) + 1 < 2 ^ 32 \<Longrightarrow>
    built (appendFrameStateVobj fs v g)"

definition invOk :: "graph \<Rightarrow> bool" where
  "invOk g \<longleftrightarrow> graphOk g \<and> frameTableOk g \<and> logOk g"

lemma makeRaw_keeps [simp]:
  "g_fsDesc (fst (makeRaw k ins p p2 c g)) = g_fsDesc g"
  "g_fsVobjs (fst (makeRaw k ins p p2 c g)) = g_fsVobjs g"
  "g_epoch (fst (makeRaw k ins p p2 c g)) = g_epoch g"
  "g_replacements (fst (makeRaw k ins p p2 c g)) = g_replacements g"
  "nodesSize (fst (makeRaw k ins p p2 c g)) = Suc (nodesSize g)"
  "n < nodesSize g \<Longrightarrow> g_nodes (fst (makeRaw k ins p p2 c g)) ! n = g_nodes g ! n"
  by (simp_all add: makeRaw_def Let_def nth_append)

lemma invOk_makeRaw:
  assumes "invOk g" "fits ins g"
  shows "invOk (fst (makeRaw k ins p p2 c g))"
  using assms makeRaw_ok(1) [of g ins k p p2 c] logOk_fields [of g "fst (makeRaw k ins p p2 c g)"]
  by (simp add: invOk_def fits_def)

lemma graphOk_empty: "graphOk emptyGraph"
  by (simp add: graphOk_def storeOk_def usesExact_def refsOk_def emptyGraph_def absg_def)

lemma invOk_new: "invOk newGraph"
proof -
  have "invOk emptyGraph"
    using graphOk_empty by (simp add: invOk_def fsOk_def logOk_def emptyGraph_def)
  then have "invOk (fst (makeRaw 0 [] 0 0 0 emptyGraph))"
    by (rule invOk_makeRaw) (simp add: fits_def roomFor_def emptyGraph_def)
  moreover have "graphOk (g\<lparr>g_start := n\<rparr>) = graphOk g" for g n
    by (rule graphOk_fields; simp add: cnt_def offs_def)
  ultimately show ?thesis
    by (simp add: newGraph_def split_beta invOk_def logOk_def)
qed

lemma addFrameStateDesc_keeps [simp]:
  "g_nodes (fst (addFrameStateDesc m pc caller vobjs g)) = g_nodes g"
  "g_uses (fst (addFrameStateDesc m pc caller vobjs g)) = g_uses g"
  "g_edgePool (fst (addFrameStateDesc m pc caller vobjs g)) = g_edgePool g"
  "g_epoch (fst (addFrameStateDesc m pc caller vobjs g)) = g_epoch g"
  "g_replacements (fst (addFrameStateDesc m pc caller vobjs g)) = g_replacements g"
  by (simp_all add: addFrameStateDesc_def Let_def)

lemma invOk_makeFrameState:
  assumes inv: "invOk g" and f: "fits locals g" and room: "length (g_fsVobjs g) + length vobjs < 2 ^ 32"
    and size: "length (g_fsDesc g) < 2 ^ 32"
  shows "invOk (fst (makeFrameState m pc locals caller vobjs g))"
proof -
  let ?g = "fst (addFrameStateDesc m pc caller vobjs g)"
  have "graphOk ?g" using inv graphOk_fields(1) [of ?g g] by (simp add: invOk_def cnt_def offs_def)
  moreover have "logOk ?g" using inv logOk_fields [of g ?g] by (simp add: invOk_def)
  moreover have "frameTableOk ?g" using inv addFrameStateDesc_ok(1) room size by (simp add: invOk_def)
  ultimately have "invOk ?g" by (simp add: invOk_def)
  moreover have "fits locals ?g" using f by (simp add: fits_def roomFor_def)
  ultimately show ?thesis
    by (simp add: makeFrameState_def split_beta invOk_makeRaw)
qed

lemma built_invOk: "built g \<Longrightarrow> invOk g"
proof (induction rule: built.induct)
  case new
  show ?case by (rule invOk_new)
next
  case (makeRaw g ins k p p2 c)
  then show ?case by (simp add: invOk_makeRaw)
next
  case (setInput g v n s)
  then show ?case
    using setInput_ok(1) [of g n s v] setInput_noop [of g n s v] logOk_fields [of g "setInput n s v g"]
    by (cases "n < nodesSize g"; cases "s < cnt g n") (auto simp: invOk_def not_less)
next
  case (appendInput g v n)
  show ?case
  proof (cases "n < nodesSize g")
    case True
    have "logOk (appendInput n v g)"
      using appendInput.IH logOk_fields [of g "appendInput n v g"] True
      by (auto simp: invOk_def appendInput_def Let_def updNode_def nth_list_update isDead_def)
    moreover have "frameTableOk (appendInput n v g)"
      using appendInput.IH by (simp add: invOk_def appendInput_def Let_def)
    ultimately show ?thesis
      using appendInput appendInput_ok(1) [of g n v] True by (simp add: invOk_def)
  qed (use appendInput.IH in \<open>simp add: appendInput_def\<close>)
next
  case (replaceNode g old w)
  have "frameTableOk (fst (replaceNode old w g))"
    using replaceNode.IH by (simp add: invOk_def replaceNode_def Let_def nextEpoch_def)
  then show ?case
    using replaceNode logOk_replace replaceNode_ok(1) [of g old w] replaceNode_refused [of old w g]
    by (cases "replaceable old w g") (simp_all add: invOk_def)
next
  case (killNode g n)
  have "logOk (killNode n g)"
    using killNode logOk_fields [of g "killNode n g"]
    by (auto simp: invOk_def killNode_def Let_def nextEpoch_def updNode_def nth_list_update isDead_def)
  then show ?case
    using killNode killNode_ok(1) by (simp add: invOk_def killNode_def Let_def nextEpoch_def)
next
  case (nextEpoch g)
  have "graphOk (nextEpoch g) = graphOk g"
    by (rule graphOk_fields; simp add: nextEpoch_def cnt_def offs_def)
  then show ?case
    using nextEpoch logOk_fields [of g "nextEpoch g"] by (simp add: invOk_def) (simp add: nextEpoch_def)
next
  case (attachSpecMeta g n i)
  have "logOk (attachSpecMeta n i g)"
    using attachSpecMeta logOk_fields [of g "attachSpecMeta n i g"]
    by (auto simp: invOk_def attachSpecMeta_def updNode_def nth_list_update isDead_def)
  then show ?case
    using attachSpecMeta attachSpecMeta_ok(1) by (simp add: invOk_def attachSpecMeta_def)
next
  case (addSpecMeta g sm)
  have "graphOk (fst (addSpecMeta sm g)) = graphOk g"
    by (rule graphOk_fields; simp add: addSpecMeta_def cnt_def offs_def)
  then show ?case using addSpecMeta by (simp add: invOk_def addSpecMeta_def logOk_def)
next
  case (addDependency g d)
  have "graphOk (fst (addDependency d g)) = graphOk g"
    by (rule graphOk_fields; simp add: addDependency_def cnt_def offs_def)
  then show ?case using addDependency by (simp add: invOk_def addDependency_def logOk_def)
next
  case (makeFrameState g locals vobjs m pc caller)
  then show ?case by (simp add: invOk_makeFrameState)
next
  case (appendFrameStateVobj g fs v)
  have "graphOk (appendFrameStateVobj fs v g) = graphOk g"
    by (rule graphOk_fields; simp add: appendFrameStateVobj_def Let_def cnt_def offs_def)
  then show ?case
    using appendFrameStateVobj appendFrameStateVobj_ok(1) [of g fs v]
    by (cases "fs < length (g_fsDesc g)")
      (simp_all add: invOk_def logOk_def appendFrameStateVobj_def Let_def)
qed

lemma built_uses:
  assumes "built g" "d < nodesSize g"
  shows "distinct (usesOf g d)"
    and "Use u s \<in> set (usesOf g d) \<longleftrightarrow> u < nodesSize g \<and> s < numInputs g u \<and> input g u s = d"
proof -
  have ok: "graphOk g" using built_invOk [OF assms(1)] by (simp add: invOk_def)
  show "distinct (usesOf g d)"
    using irg.uses_distinct [OF ok] assms(2) by simp
  show "Use u s \<in> set (usesOf g d) \<longleftrightarrow> u < nodesSize g \<and> s < numInputs g u \<and> input g u s = d"
    using irg.uses_exact [OF ok, of d u s] assms(2) by (auto simp: absg_nth_input)
qed

lemma built_nodeCount: "built g \<Longrightarrow> nodeCount g = nodesSize g"
  using built_invOk [of g] storeOkD(2) [of g] by (simp add: invOk_def graphOk_def nodeCount_def)

section \<open>Properties of the graph\<close>

text \<open>Property C25. The def-use invariant that the header of \<open>Graph.cpp\<close> states, for every graph the
  public operations build: the use list of a node has no duplicates, and it has \<open>(user, slot)\<close> if
  and only if \<open>user\<close> is a node whose input at \<open>slot\<close> is that node.\<close>

theorem built_def_use:
  assumes "built g" "d < nodesSize g"
  shows "distinct (usesOf g d)
    \<and> (\<forall>u s. Use u s \<in> set (usesOf g d) \<longleftrightarrow> u < nodesSize g \<and> s < numInputs g u \<and> input g u s = d)"
  using built_uses [OF assms] by blast

text \<open>Property C27. The edge operations refine list operations on the inputs of the nodes: creating a
  node appends its input list and returns its index, \<open>setInput\<close> changes that one input,
  \<open>appendInput\<close> adds one input at the end although it moves the slice of the node to the
  tail of the pool, and none of them touches the inputs of another node.\<close>

theorem edge_operations_refine:
  assumes "built g" "fits ins g" "n < nodesSize g" "s < numInputs g n" "refOk (nodesSize g) v"
    and "length (g_edgePool g) + numInputs g n + 1 < 2 ^ 32" "numInputs g n + 1 < 2 ^ 16"
  shows "absg (fst (make k ins p p2 g)) = absg g @ [ins] \<and> snd (make k ins p p2 g) = nodesSize g
    \<and> absg (setInput n s v g) = (absg g)[n := (absg g ! n)[s := v]]
    \<and> absg (appendInput n v g) = (absg g)[n := absg g ! n @ [v]]"
proof (intro conjI)
  have ok: "graphOk g" using built_invOk [OF assms(1)] by (simp add: invOk_def)
  show "absg (fst (make k ins p p2 g)) = absg g @ [ins]" "snd (make k ins p p2 g) = nodesSize g"
    using makeRaw_ok(2,3) [OF ok] assms(2) by (simp_all add: make_def fits_def)
  show "absg (setInput n s v g) = (absg g)[n := (absg g ! n)[s := v]]"
    using setInput_ok(2) [OF ok] assms by simp
  show "absg (appendInput n v g) = (absg g)[n := absg g ! n @ [v]]"
    using appendInput_ok(2) [OF ok] assms by simp
qed

text \<open>Property C26. Replacement (Rule 14): when the replacement is not refused, every input that was
  \<open>old\<close> is \<open>w\<close> afterwards and no other input changes, \<open>old\<close> has no users left and is dead, and
  the new epoch is returned and logged. It is refused, with no change and result 0, exactly when
  an id is out of range, the replacement is dead, or both ids are the same.\<close>

theorem replaceNode_refines_subst:
  assumes "built g"
  shows "if old < nodesSize g \<and> w < nodesSize g \<and> \<not> isDead (g_nodes g ! w) \<and> old \<noteq> w
    then absg (fst (replaceNode old w g)) = map (map (substNode old w)) (absg g)
      \<and> usesOf (fst (replaceNode old w g)) old = []
      \<and> isDead (node_at (fst (replaceNode old w g)) old)
      \<and> snd (replaceNode old w g) = u32 (g_epoch g + 1)
      \<and> g_replacements (fst (replaceNode old w g)) =
          g_replacements g @ [\<lparr>rp_oldNode = old, rp_newNode = w, rp_epoch = u32 (g_epoch g + 1)\<rparr>]
    else replaceNode old w g = (g, 0)"
proof (cases "replaceable old w g")
  case True
  have ok: "graphOk g" using built_invOk [OF assms] by (simp add: invOk_def)
  have "nodesSize (fst (replaceNode old w g)) = nodesSize g"
    using arg_cong [OF replaceNode_ok(2) [OF ok True], of length] by simp
  then show ?thesis
    using True replaceNode_ok [OF ok True] by (simp add: replaceable_def node_at_def)
next
  case False
  have c: "\<not> (old < nodesSize g \<and> w < nodesSize g \<and> \<not> isDead (g_nodes g ! w) \<and> old \<noteq> w)"
    using False by (simp add: replaceable_def)
  show ?thesis unfolding if_not_P [OF c] by (rule replaceNode_refused [OF False])
qed

text \<open>Appending a virtual object to a frame state extends the list of that frame state
  and leaves the list of every other frame state as it was, although the slices behind it move in
  the shared vector; an out-of-range id changes nothing.\<close>

theorem appendFrameStateVobj_exact:
  assumes "built g" "length (g_fsVobjs g) + 1 < 2 ^ 32"
  shows "frameStateVobjs (appendFrameStateVobj fs v g) i =
    (if i = fs \<and> fs < length (g_fsDesc g) then frameStateVobjs g i @ [v] else frameStateVobjs g i)"
proof (cases "fs < length (g_fsDesc g)")
  case True
  have ok: "frameTableOk g" using built_invOk [OF assms(1)] by (simp add: invOk_def)
  have len: "length (g_fsDesc (appendFrameStateVobj fs v g)) = length (g_fsDesc g)"
    by (simp add: appendFrameStateVobj_def Let_def)
  show ?thesis
  proof (cases "i < length (g_fsDesc g)")
    case True
    then have "frameStateVobjs (appendFrameStateVobj fs v g) i = absfs (appendFrameStateVobj fs v g) ! i"
      by (simp add: absfs_def len)
    also have "\<dots> = (absfs g)[fs := absfs g ! fs @ [v]] ! i"
      using appendFrameStateVobj_ok(2) [OF ok \<open>fs < _\<close> assms(2)] by simp
    finally show ?thesis
      using True \<open>fs < _\<close> by (simp add: absfs_def nth_list_update)
  next
    case False
    then show ?thesis using True by (auto simp: frameStateVobjs_def len)
  qed
qed (simp add: appendFrameStateVobj_def)

text \<open>The replacement log of every graph the operations build (Rule 14): the epochs in it
  increase strictly and never exceed the epoch of the graph, and every node it lists as replaced is
  a node of the graph and is dead.\<close>

theorem replacement_log:
  assumes "built g"
  shows "sorted_wrt (<) (map rp_epoch (g_replacements g))
    \<and> (\<forall>r\<in>set (g_replacements g). rp_oldNode r < nodesSize g \<and> isDead (g_nodes g ! rp_oldNode r)
           \<and> rp_epoch r \<le> g_epoch g)"
  using built_invOk [OF assms] by (simp_all add: invOk_def logOk_def)

section \<open>A small graph\<close>

text \<open>The graph of \<open>-(5 + 5)\<close> with a frame state, built by five calls.\<close>

definition demo0 :: graph where "demo0 = fst (makeRaw Nk_ConstantI [] 0 0 5 newGraph)"
definition demo1 :: graph where "demo1 = fst (makeRaw Nk_AddI [1, 1] 0 0 0 demo0)"
definition demo2 :: graph where "demo2 = fst (makeRaw Nk_NegI [2] 0 0 0 demo1)"
definition demo3 :: graph where "demo3 = fst (makeFrameState 7 0 [1, 2] kInvalidFrameState [] demo2)"

lemmas demo_eval = makeRaw_def makeFrameState_def addFrameStateDesc_def newGraph_def emptyGraph_def
  defaultNode_def Let_def pushUse_def

lemma newGraph_eval: "newGraph = \<lparr>g_nodes = [defaultNode], g_edgePool = [], g_uses = [[]], g_fsDesc = [],
  g_fsVobjs = [], g_specMetas = [], g_deps = [], g_replacements = [], g_epoch = 0, g_start = 0\<rparr>"
  by (simp add: demo_eval)

lemma demo_nodes:
  "g_edgePool demo3 = [1, 1, 2, 1, 2]" "nodesSize demo3 = 5"
  "g_uses demo3 = [[], [Use 2 0, Use 2 1, Use 4 0], [Use 3 0, Use 4 1], [], []]"
  "g_fsVobjs demo3 = []" "length (g_fsDesc demo3) = 1" "g_epoch demo3 = 0"
  "map nd_numInputs (g_nodes demo3) = [0, 0, 2, 1, 2]"
  by (simp_all add: demo0_def demo1_def demo2_def demo3_def newGraph_eval makeRaw_def makeFrameState_def
      addFrameStateDesc_def defaultNode_def Let_def pushUse_def)

lemma built_demo: "built demo0" "built demo1" "built demo2" "built demo3"
proof -
  have sz: "nodesSize newGraph = 1" "length (g_edgePool newGraph) = 0"
    "nodesSize demo0 = 2" "length (g_edgePool demo0) = 0" "nodesSize demo1 = 3" "length (g_edgePool demo1) = 2"
    "nodesSize demo2 = 4" "length (g_edgePool demo2) = 3" "g_fsVobjs demo2 = []" "g_fsDesc demo2 = []"
    by (simp_all add: demo0_def demo1_def demo2_def newGraph_eval makeRaw_def Let_def pushUse_def)
  show 0: "built demo0"
    unfolding demo0_def by (rule built.makeRaw [OF built.new]) (simp add: fits_def roomFor_def sz)
  show 1: "built demo1"
    unfolding demo1_def by (rule built.makeRaw [OF 0]) (simp add: fits_def roomFor_def refOk_def sz)
  show 2: "built demo2"
    unfolding demo2_def by (rule built.makeRaw [OF 1]) (simp add: fits_def roomFor_def refOk_def sz)
  show "built demo3"
    unfolding demo3_def
    by (rule built.makeFrameState [OF 2]) (simp_all add: fits_def roomFor_def refOk_def sz)
qed

lemma demo_numInputs: "numInputs demo3 2 = 2"
  using arg_cong [OF demo_nodes(7), of "\<lambda>xs. xs ! 2"] demo_nodes(2) by (simp add: numInputs_def node_at_def)

lemma demo_absg: "absg demo3 = [[], [], [1, 1], [2], [1, 2]]"
  by (simp add: absg_def inputsOf_def numInputs_def input_def node_at_def edgeIndex_def upt_rec demo0_def
      demo1_def demo2_def demo3_def newGraph_eval makeRaw_def makeFrameState_def addFrameStateDesc_def
      defaultNode_def Let_def pushUse_def)

lemma demo_live: "isDead (g_nodes demo3 ! Suc 0) = False" "g_replacements demo3 = []"
  by (simp_all add: demo0_def demo1_def demo2_def demo3_def newGraph_eval makeRaw_def makeFrameState_def
      addFrameStateDesc_def defaultNode_def Let_def pushUse_def isDead_def flagsHas_def)

theorem built_def_use_witness: "Use 2 1 \<in> set (usesOf demo3 1) \<and> input demo3 2 1 = 1"
  using built_def_use [OF built_demo(4), of 1, THEN conjunct2, THEN spec [of _ 2], THEN spec [of _ 1]]
    demo_nodes(2,3) by (simp add: usesOf_def)

theorem edge_operations_refine_witness:
  "absg (setInput 2 1 3 demo3) = [[], [], [1, 3], [2], [1, 2]]
   \<and> absg (appendInput 2 3 demo3) = [[], [], [1, 1, 3], [2], [1, 2]]
   \<and> absg (fst (make Nk_NegI [3] 0 0 demo3)) = [[], [], [1, 1], [2], [1, 2], [3]]"
  using edge_operations_refine [OF built_demo(4), of "[3]" 2 1 3 51 0 0]
  by (simp add: fits_def roomFor_def refOk_def demo_nodes demo_numInputs demo_absg)

theorem replaceNode_refines_subst_witness:
  "absg (fst (replaceNode 2 1 demo3)) = [[], [], [1, 1], [1], [1, 1]] \<and> snd (replaceNode 2 1 demo3) = 1
   \<and> usesOf (fst (replaceNode 2 1 demo3)) 2 = [] \<and> replaceNode 2 9 demo3 = (demo3, 0)"
  using replaceNode_refines_subst [OF built_demo(4), of 2 "Suc 0"]
    replaceNode_refines_subst [OF built_demo(4), of 2 9]
  by (simp add: demo_nodes demo_live demo_absg substNode_def)

theorem appendFrameStateVobj_exact_witness:
  "frameStateVobjs (appendFrameStateVobj 0 3 demo3) 0 = [3]"
  using appendFrameStateVobj_exact [OF built_demo(4), of 0 3 0]
  by (simp add: demo_nodes frameStateVobjs_def Let_def)

theorem replacement_log_witness:
  "g_replacements (fst (replaceNode 2 1 demo3)) = [\<lparr>rp_oldNode = 2, rp_newNode = 1, rp_epoch = 1\<rparr>]
   \<and> isDead (g_nodes (fst (replaceNode 2 1 demo3)) ! 2)"
proof -
  have ok: "graphOk demo3" using built_invOk [OF built_demo(4)] by (simp add: invOk_def)
  have r: "replaceable 2 1 demo3" by (simp add: replaceable_def demo_nodes demo_live)
  have b: "built (fst (replaceNode 2 1 demo3))"
    by (rule built.replaceNode [OF built_demo(4)]) (simp add: demo_nodes)
  show ?thesis
    using replacement_log [OF b] replaceNode_ok(6) [OF ok r] by (simp add: demo_live demo_nodes)
qed

text \<open>
  The restriction to inputs that exist is needed. An input id that is not yet a node is stored as
  it is and gets no use entry; when a later call creates that node, the edge is there and the use
  list of the new node is empty.
\<close>

lemma forward_reference_not_exact:
  "input (fst (constantI 7 (fst (make Nk_NegI [2] 0 0 newGraph)))) 1 0 = 2
   \<and> nodesSize (fst (constantI 7 (fst (make Nk_NegI [2] 0 0 newGraph)))) = 3
   \<and> usesOf (fst (constantI 7 (fst (make Nk_NegI [2] 0 0 newGraph)))) 2 = []"
  by (simp add: constantI_def make_def input_def node_at_def edgeIndex_def usesOf_def newGraph_eval
      makeRaw_def defaultNode_def Let_def pushUse_def)

end
