(* ===== verification/Pipe_DirtyClosure.thy ===== *)
theory Pipe_DirtyClosure
  imports Pipe_DependencyIndex Ir_Build
begin

text \<open>
  The dirty-node closure (\<open>include/b2/pipeline/DirtyClosure.h\<close>,
  \<open>compiler/pipeline/src/DirtyClosure.cpp\<close>): from the nodes that depend on a broken assumption, the
  nodes whose semantics depend on them, found by walking use lists until nothing changes or the
  size budget is exceeded. The walk inserts into the sorted vector it is indexing; the proofs
  show that this costs nothing: the loop ends, and unless the budget is exceeded the result is
  the closure.
\<close>

section \<open>Which users depend on a producer\<close>

definition kDefaultMaxDirtyRegionSize :: nat where "kDefaultMaxDirtyRegionSize = 64"

record dirty_closure_result =
  dc_dirty :: dirty_set
  dc_budget_exceeded :: bool
  dc_iterations :: nat

definition roleOfSlot :: "graph \<Rightarrow> node_id \<Rightarrow> nat \<Rightarrow> input_role" where
  "roleOfSlot g user slot =
     (let n = node_at g user in
      if nd_numInputs n = 0 then IR_None
      else let ni = info_ir (nd_kind n) in
        if ni_hasFrameState ni \<and> slot = u16 (nd_numInputs n - 1) then IR_FrameState
        else if slot < ni_numFixed ni then ni_roles ni ! slot
        else if ni_variadic ni then ni_variadicRole ni
        else IR_None)"

definition isSideEffectingUser :: "node \<Rightarrow> bool" where
  "isSideEffectingUser n =
     (let ni = info_ir (nd_kind n) in
      case ni_cls ni of
        NC_Call \<Rightarrow> True
      | NC_Memory \<Rightarrow> ni_effect ni \<noteq> EK_Pure
      | NC_Guard \<Rightarrow> True
      | NC_Control \<Rightarrow> False | NC_TypeOp \<Rightarrow> False | NC_Value \<Rightarrow> False | NC_State \<Rightarrow> False)"

definition semanticsDependOn :: "graph \<Rightarrow> node_id \<Rightarrow> nat \<Rightarrow> bool" where
  "semanticsDependOn g user slot =
     (let n = node_at g user in
      if isDead n then False
      else if isSideEffectingUser n then True
      else case roleOfSlot g user slot of
          IR_Mem \<Rightarrow> True | IR_Data \<Rightarrow> True | IR_FrameState \<Rightarrow> True | IR_Parent \<Rightarrow> True
        | IR_Ctrl \<Rightarrow> False | IR_None \<Rightarrow> False)"

section \<open>The fixpoint\<close>

record closure_state =
  cs_dirty :: "node_id list"
  cs_changed :: bool
  cs_exceeded :: bool
  cs_iterations :: nat

definition skipped :: "graph \<Rightarrow> node_id \<Rightarrow> bool" where
  "skipped g n \<longleftrightarrow> nodeCount g \<le> n \<or> isDead (node_at g n)"

fun visitUses :: "graph \<Rightarrow> nat \<Rightarrow> use list \<Rightarrow> closure_state \<Rightarrow> closure_state" where
  "visitUses g max_size [] st = st"
| "visitUses g max_size (u # us) st =
     (if skipped g (u_user u) then visitUses g max_size us st
      else if \<not> semanticsDependOn g (u_user u) (u_slot u) then visitUses g max_size us st
      else let d = cs_dirty st; it = lowerBound (\<lambda>x. x < u_user u) d in
        if it < length d \<and> d ! it = u_user u then visitUses g max_size us st
        else let st' = st\<lparr>cs_dirty := insertAt it (u_user u) d, cs_changed := True\<rparr> in
          if max_size < length (cs_dirty st') then st'\<lparr>cs_exceeded := True\<rparr>
          else visitUses g max_size us st')"

function visitNodes :: "graph \<Rightarrow> nat \<Rightarrow> nat \<Rightarrow> nat \<Rightarrow> closure_state \<Rightarrow> closure_state" where
  "visitNodes g max_size snapshot i st =
     (if i < snapshot then
        let n = cs_dirty st ! i in
        if skipped g n then visitNodes g max_size snapshot (Suc i) st
        else let st' = visitUses g max_size (usesOf g n) st in
          if cs_exceeded st' then st' else visitNodes g max_size snapshot (Suc i) st'
      else st)"
  by auto
termination by (relation "measure (\<lambda>(g, m, snapshot, i, st). snapshot - i)") auto

declare visitNodes.simps [simp del]

definition sweepOnce :: "graph \<Rightarrow> nat \<Rightarrow> closure_state \<Rightarrow> closure_state" where
  "sweepOnce g max_size st =
     visitNodes g max_size (length (cs_dirty st)) 0
       (st\<lparr>cs_changed := False, cs_iterations := u32 (cs_iterations st + 1)\<rparr>)"

partial_function (option) closeLoop :: "graph \<Rightarrow> nat \<Rightarrow> closure_state \<Rightarrow> closure_state option" where
  "closeLoop g max_size st =
     (if cs_changed st \<and> \<not> cs_exceeded st then closeLoop g max_size (sweepOnce g max_size st) else Some st)"

definition liveSeeds :: "graph \<Rightarrow> node_id list \<Rightarrow> node_id list" where
  "liveSeeds g ns = filter (\<lambda>n. \<not> skipped g n) (sortUnique ns)"

definition expandDirtyClosure :: "graph \<Rightarrow> dirty_set \<Rightarrow> nat \<Rightarrow> dirty_closure_result option" where
  "expandDirtyClosure g seeds max_size =
     map_option (\<lambda>st. \<lparr>dc_dirty = seeds\<lparr>ds_nodes := cs_dirty st\<rparr>,
         dc_budget_exceeded = cs_exceeded st, dc_iterations = cs_iterations st\<rparr>)
       (closeLoop g max_size \<lparr>cs_dirty = liveSeeds g (ds_nodes seeds), cs_changed = True,
          cs_exceeded = False, cs_iterations = 0\<rparr>)"

section \<open>The specification: a closure\<close>

definition okUse :: "graph \<Rightarrow> use \<Rightarrow> bool" where
  "okUse g u \<longleftrightarrow> \<not> skipped g (u_user u) \<and> semanticsDependOn g (u_user u) (u_slot u)"

definition depSet :: "graph \<Rightarrow> use list \<Rightarrow> node_id set" where
  "depSet g us = {u_user u |u. u \<in> set us \<and> okUse g u}"

definition depEdge :: "graph \<Rightarrow> (node_id \<times> node_id) set" where
  "depEdge g = {(n, m). \<not> skipped g n \<and> m \<in> depSet g (usesOf g n)}"

definition dirtyClosure :: "graph \<Rightarrow> node_id set \<Rightarrow> node_id set" where
  "dirtyClosure g seeds = (depEdge g)\<^sup>* `` {n \<in> seeds. \<not> skipped g n}"

section \<open>One walk over a use list\<close>

definition closureGrows :: "nat \<Rightarrow> node_id set \<Rightarrow> closure_state \<Rightarrow> closure_state \<Rightarrow> bool" where
  "closureGrows m X st st' \<longleftrightarrow> sorted_wrt (<) (cs_dirty st') \<and> set (cs_dirty st) \<subseteq> set (cs_dirty st')
     \<and> set (cs_dirty st') \<subseteq> set (cs_dirty st) \<union> X
     \<and> cs_changed st' = (cs_changed st \<or> cs_dirty st' \<noteq> cs_dirty st)
     \<and> (cs_exceeded st' \<longrightarrow> m < length (cs_dirty st') \<and> cs_dirty st' \<noteq> cs_dirty st)
     \<and> (\<not> cs_exceeded st' \<longrightarrow> cs_dirty st' \<noteq> cs_dirty st \<longrightarrow> length (cs_dirty st') \<le> m)"

lemma closureGrows_refl: "sorted_wrt (<) (cs_dirty st) \<Longrightarrow> \<not> cs_exceeded st \<Longrightarrow> closureGrows m X st st"
  by (simp add: closureGrows_def)

lemma closureGrows_trans:
  assumes "closureGrows m X st st1" "\<not> cs_exceeded st1" "closureGrows m Y st1 st2" "sorted_wrt (<) (cs_dirty st)"
  shows "closureGrows m (X \<union> Y) st st2"
proof -
  have "cs_dirty st2 = cs_dirty st \<Longrightarrow> cs_dirty st1 = cs_dirty st"
    using assms strict_sorted_unique by (metis closureGrows_def subset_antisym)
  then show ?thesis using assms by (auto simp: closureGrows_def)
qed

lemma closureGrows_mono: "closureGrows m X st st' \<Longrightarrow> X \<subseteq> Y \<Longrightarrow> closureGrows m Y st st'"
  by (auto simp: closureGrows_def)

lemma member_lowerBound:
  assumes "sorted_wrt (<) (d :: nat list)"
  shows "(lowerBound (\<lambda>x. x < v) d < length d \<and> d ! lowerBound (\<lambda>x. x < v) d = v) \<longleftrightarrow> v \<in> set d"
    and "v \<notin> set d \<Longrightarrow> sorted_wrt (<) (insertAt (lowerBound (\<lambda>x. x < v) d) v d)"
proof -
  let ?k = "lowerBound (\<lambda>x. x < v) d"
  have s: "sorted d" using assms by (rule strict_sorted_imp_sorted)
  have sp: "splitsAt (\<lambda>x. x < v) d ?k" by (rule lowerBound_sorted [OF assms]) simp
  have b: "binarySearch d v \<longleftrightarrow> v \<in> set d" using s by simp
  show "(?k < length d \<and> d ! ?k = v) \<longleftrightarrow> v \<in> set d"
    using b sp by (fastforce simp: binarySearch_def Let_def splitsAt_def)
  assume v: "v \<notin> set d"
  have "v < d ! i" if "?k \<le> i" "i < length d" for i
    using that sp v by (metis linorder_neqE_nat nth_mem splitsAt_def)
  then show "sorted_wrt (<) (insertAt ?k v d)" by (rule sorted_insertAt [OF assms sp])
qed

lemma depSet_Cons: "depSet g (u # us) = (if okUse g u then insert (u_user u) (depSet g us) else depSet g us)"
  by (auto simp: depSet_def)

lemma visitUses_grows:
  assumes "sorted_wrt (<) (cs_dirty st)" "\<not> cs_exceeded st"
  shows "closureGrows m (depSet g us) st (visitUses g m us st)
    \<and> (\<not> cs_exceeded (visitUses g m us st) \<longrightarrow> depSet g us \<subseteq> set (cs_dirty (visitUses g m us st)))"
  using assms
proof (induction us arbitrary: st)
  case Nil
  then show ?case by (simp add: closureGrows_refl depSet_def)
next
  case (Cons u us)
  let ?d = "cs_dirty st" and ?v = "u_user u"
  let ?k = "lowerBound (\<lambda>x. x < ?v) ?d"
  note mem = member_lowerBound [OF Cons.prems(1), of ?v]
  consider (skip) "\<not> okUse g u" | (old) "okUse g u" "?v \<in> set ?d" | (new) "okUse g u" "?v \<notin> set ?d" by blast
  then show ?case
  proof cases
    case skip
    then have "visitUses g m (u # us) st = visitUses g m us st" by (auto simp: okUse_def)
    then show ?thesis using Cons.IH [OF Cons.prems] skip by (simp add: depSet_Cons)
  next
    case old
    then have eq: "visitUses g m (u # us) st = visitUses g m us st"
      using mem(1) by (simp add: okUse_def Let_def)
    show ?thesis
      unfolding eq using Cons.IH [OF Cons.prems] old
      by (auto simp: depSet_Cons closureGrows_def)
  next
    case new
    let ?st = "st\<lparr>cs_dirty := insertAt ?k ?v ?d, cs_changed := True\<rparr>"
    have eq: "visitUses g m (u # us) st = (if m < Suc (length ?d) then ?st\<lparr>cs_exceeded := True\<rparr>
        else visitUses g m us ?st)"
      using new mem(1) by (auto simp: okUse_def Let_def)
    have ne: "insertAt ?k ?v ?d \<noteq> ?d" using new(2) by (metis insertI1 set_insertAt)
    show ?thesis
    proof (cases "m < Suc (length ?d)")
      case True
      show ?thesis
        unfolding eq if_P [OF True] using True new mem(2) ne by (auto simp: closureGrows_def depSet_Cons)
    next
      case False
      have g1: "closureGrows m {?v} st ?st"
        using False mem(2) new(2) Cons.prems ne by (auto simp: closureGrows_def)
      have IH: "closureGrows m (depSet g us) ?st (visitUses g m us ?st)
        \<and> (\<not> cs_exceeded (visitUses g m us ?st) \<longrightarrow> depSet g us \<subseteq> set (cs_dirty (visitUses g m us ?st)))"
        using Cons.IH [of ?st] mem(2) new(2) Cons.prems(2) by simp
      moreover have "closureGrows m ({?v} \<union> depSet g us) st (visitUses g m us ?st)"
        using closureGrows_trans [OF g1 _ conjunct1 [OF IH] Cons.prems(1)] Cons.prems(2) by simp
      moreover have "?v \<in> set (cs_dirty (visitUses g m us ?st))"
        using IH by (auto simp: closureGrows_def)
      ultimately show ?thesis unfolding eq if_not_P [OF False] using new(1) by (simp add: depSet_Cons)
    qed
  qed
qed

section \<open>One sweep\<close>

text \<open>\<open>C\<close> is any set of nodes closed under dependence that contains the vector.\<close>

definition closedUnder :: "graph \<Rightarrow> node_id set \<Rightarrow> bool" where
  "closedUnder g C \<longleftrightarrow> (\<forall>n\<in>C. \<not> skipped g n \<and> depSet g (usesOf g n) \<subseteq> C)"

lemma visitNodes_grows:
  assumes "sorted_wrt (<) (cs_dirty st)" "\<not> cs_exceeded st" "set (cs_dirty st) \<subseteq> C" "closedUnder g C"
    and "snapshot \<le> length (cs_dirty st)"
  shows "closureGrows m C st (visitNodes g m snapshot i st)
    \<and> (cs_dirty (visitNodes g m snapshot i st) = cs_dirty st \<longrightarrow>
        (\<forall>j. i \<le> j \<longrightarrow> j < snapshot \<longrightarrow> depSet g (usesOf g (cs_dirty st ! j)) \<subseteq> set (cs_dirty st)))"
  using assms
proof (induction g m snapshot i st rule: visitNodes.induct)
  case (1 g m snapshot i st)
  show ?case
  proof (cases "i < snapshot")
    case False
    then show ?thesis using 1(3-) by (simp add: visitNodes.simps [of g m snapshot i st] closureGrows_refl)
  next
    case i: True
    let ?n = "cs_dirty st ! i" let ?st = "visitUses g m (usesOf g ?n) st"
    have n: "?n \<in> C" using i 1(5,7) by (meson less_le_trans nth_mem subsetD)
    have ns: "\<not> skipped g ?n" and X: "depSet g (usesOf g ?n) \<subseteq> C"
      using n 1(6) by (auto simp: closedUnder_def)
    have v: "closureGrows m C st ?st" "\<not> cs_exceeded ?st \<Longrightarrow> depSet g (usesOf g ?n) \<subseteq> set (cs_dirty ?st)"
      using visitUses_grows [OF 1(3,4), of m g "usesOf g ?n"] closureGrows_mono X by blast+
    show ?thesis
    proof (cases "cs_exceeded ?st")
      case True
      then have "visitNodes g m snapshot i st = ?st"
        using i ns by (simp add: visitNodes.simps [of g m snapshot i st] Let_def)
      then show ?thesis using v(1) True by (auto simp: closureGrows_def)
    next
      case False
      let ?r = "visitNodes g m snapshot (Suc i) ?st"
      have eq: "visitNodes g m snapshot i st = ?r"
        using i ns False by (simp add: visitNodes.simps [of g m snapshot i st] Let_def)
      have "length (cs_dirty st) \<le> length (cs_dirty ?st)"
        using v(1) 1(3) by (metis List.finite_set card_mono distinct_card closureGrows_def strict_sorted_iff)
      then have IH: "closureGrows m C ?st ?r
        \<and> (cs_dirty ?r = cs_dirty ?st \<longrightarrow> (\<forall>j. Suc i \<le> j \<longrightarrow> j < snapshot \<longrightarrow>
            depSet g (usesOf g (cs_dirty ?st ! j)) \<subseteq> set (cs_dirty ?st)))"
        using 1(2) [OF i refl ns refl False] v(1) 1(5-7) False by (auto simp: closureGrows_def)
      have gr: "closureGrows m C st ?r"
        using closureGrows_trans [OF v(1) False conjunct1 [OF IH] 1(3)] by simp
      have same: "cs_dirty ?st = cs_dirty st" if "cs_dirty ?r = cs_dirty st"
        using that v(1) IH 1(3) strict_sorted_unique by (metis closureGrows_def subset_antisym)
      have "depSet g (usesOf g (cs_dirty st ! j)) \<subseteq> set (cs_dirty st)"
        if "cs_dirty ?r = cs_dirty st" "i \<le> j" "j < snapshot" for j
        using that same IH v(2) [OF False] by (cases "j = i") simp_all
      then show ?thesis unfolding eq using gr by blast
    qed
  qed
qed

lemma sweepOnce_grows:
  fixes m :: nat
  assumes "sorted_wrt (<) (cs_dirty st)" "\<not> cs_exceeded st" "set (cs_dirty st) \<subseteq> C" "closedUnder g C"
  defines "st' \<equiv> sweepOnce g m st"
  shows "closureGrows m C (st\<lparr>cs_changed := False\<rparr>) st'"
    and "\<not> cs_changed st' \<Longrightarrow> cs_dirty st' = cs_dirty st \<and> closedUnder g (set (cs_dirty st))"
proof -
  let ?st = "st\<lparr>cs_changed := False, cs_iterations := u32 (cs_iterations st + 1)\<rparr>"
  have v: "closureGrows m C ?st st' \<and> (cs_dirty st' = cs_dirty st \<longrightarrow>
      (\<forall>j. 0 \<le> j \<longrightarrow> j < length (cs_dirty st) \<longrightarrow> depSet g (usesOf g (cs_dirty st ! j)) \<subseteq> set (cs_dirty st)))"
    using visitNodes_grows [of ?st C g "length (cs_dirty st)" m 0] assms(1-4) by (simp add: st'_def sweepOnce_def)
  then show "closureGrows m C (st\<lparr>cs_changed := False\<rparr>) st'" by (simp add: closureGrows_def)
  assume "\<not> cs_changed st'"
  then have "cs_dirty st' = cs_dirty st" using v by (auto simp: closureGrows_def)
  then show "cs_dirty st' = cs_dirty st \<and> closedUnder g (set (cs_dirty st))"
    using v assms(3,4) by (auto simp: closedUnder_def in_set_conv_nth subset_eq)
qed

section \<open>The loop ends with the closure\<close>

definition closeResult :: "graph \<Rightarrow> nat \<Rightarrow> node_id set \<Rightarrow> node_id list \<Rightarrow> closure_state \<Rightarrow> bool" where
  "closeResult g m C d st \<longleftrightarrow> sorted_wrt (<) (cs_dirty st) \<and> set d \<subseteq> set (cs_dirty st) \<and> set (cs_dirty st) \<subseteq> C
     \<and> (cs_exceeded st \<longrightarrow> m < length (cs_dirty st) \<and> cs_dirty st \<noteq> d)
     \<and> (\<not> cs_exceeded st \<longrightarrow> closedUnder g (set (cs_dirty st)) \<and> (cs_dirty st \<noteq> d \<longrightarrow> length (cs_dirty st) \<le> m))"

lemma closeLoop_spec:
  assumes "finite C" "closedUnder g C" "sorted_wrt (<) (cs_dirty st)" "set (cs_dirty st) \<subseteq> C"
    and "cs_changed st" "\<not> cs_exceeded st"
  shows "\<exists>st'. closeLoop g m st = Some st' \<and> closeResult g m C (cs_dirty st) st'"
  using assms(3-)
proof (induction "card (C - set (cs_dirty st))" arbitrary: st rule: less_induct)
  case less
  let ?s = "sweepOnce g m st"
  note sw = sweepOnce_grows [OF less.prems(1,4,2) assms(2), of m]
  have step: "closeLoop g m st = closeLoop g m ?s"
    using less.prems by (simp add: closeLoop.simps [of g m st])
  consider (stable) "\<not> cs_changed ?s" | (over) "cs_changed ?s" "cs_exceeded ?s"
    | (more) "cs_changed ?s" "\<not> cs_exceeded ?s" by blast
  then show ?case
  proof cases
    case stable
    then have "closeLoop g m st = Some ?s" by (simp add: step closeLoop.simps [of g m ?s])
    then show ?thesis
      using sw less.prems stable by (auto simp: closeResult_def closureGrows_def)
  next
    case over
    then have "closeLoop g m st = Some ?s" by (simp add: step closeLoop.simps [of g m ?s])
    then show ?thesis
      using sw(1) less.prems over by (auto simp: closeResult_def closureGrows_def)
  next
    case more
    then have ne: "cs_dirty ?s \<noteq> cs_dirty st" and g: "sorted_wrt (<) (cs_dirty ?s)" "set (cs_dirty ?s) \<subseteq> C"
      "set (cs_dirty st) \<subseteq> set (cs_dirty ?s)" "length (cs_dirty ?s) \<le> m"
      using sw(1) less.prems(2) by (auto simp: closureGrows_def)
    then have sub: "set (cs_dirty st) \<subset> set (cs_dirty ?s)"
      using strict_sorted_unique [OF g(1) less.prems(1)] by auto
    then have "card (C - set (cs_dirty ?s)) < card (C - set (cs_dirty st))"
      using assms(1) g(2) by (intro psubset_card_mono) auto
    from less.hyps [OF this g(1,2) more] obtain r where
      r: "closeLoop g m ?s = Some r" "closeResult g m C (cs_dirty ?s) r" by blast
    have "cs_dirty r \<noteq> cs_dirty st" using r(2) sub by (auto simp: closeResult_def)
    then show ?thesis
      using r g by (auto simp: step closeResult_def)
  qed
qed

lemma closed_dirtyClosure: "closedUnder g (dirtyClosure g S)"
proof -
  have "\<not> skipped g n" if "n \<in> dirtyClosure g S" for n
  proof -
    from that obtain s where "s \<in> S" "\<not> skipped g s" "(s, n) \<in> (depEdge g)\<^sup>*"
      by (auto simp: dirtyClosure_def)
    from this(3,2) show ?thesis
      by (induction rule: rtrancl_induct) (auto simp: depEdge_def depSet_def okUse_def)
  qed
  moreover have "m \<in> dirtyClosure g S" if n: "n \<in> dirtyClosure g S" "m \<in> depSet g (usesOf g n)" "\<not> skipped g n" for n m
  proof -
    have "(n, m) \<in> depEdge g" using n by (simp add: depEdge_def)
    then show ?thesis using n(1) unfolding dirtyClosure_def by (meson ImageE ImageI rtrancl.rtrancl_into_rtrancl)
  qed
  ultimately show ?thesis by (auto simp: closedUnder_def)
qed

lemma dirtyClosure_least:
  assumes "closedUnder g D" "{n \<in> S. \<not> skipped g n} \<subseteq> D"
  shows "dirtyClosure g S \<subseteq> D"
proof
  fix n assume "n \<in> dirtyClosure g S"
  then obtain s where "s \<in> D" "(s, n) \<in> (depEdge g)\<^sup>*" using assms(2) by (auto simp: dirtyClosure_def)
  from this(2,1) show "n \<in> D"
    by (induction rule: rtrancl_induct) (use assms(1) in \<open>auto simp: depEdge_def closedUnder_def\<close>)
qed

lemma finite_dirtyClosure: "finite (dirtyClosure g S)"
proof (rule finite_subset)
  show "dirtyClosure g S \<subseteq> {..<nodeCount g}"
    using closed_dirtyClosure [of g S] by (auto simp: closedUnder_def skipped_def)
qed simp

lemma liveSeeds_ok:
  "sorted_wrt (<) (liveSeeds g ns)" "set (liveSeeds g ns) = {n \<in> set ns. \<not> skipped g n}"
  "set (liveSeeds g ns) \<subseteq> dirtyClosure g (set ns)"
  by (auto simp: liveSeeds_def sorted_wrt_filter dirtyClosure_def)

definition seedState :: "graph \<Rightarrow> node_id list \<Rightarrow> closure_state" where
  "seedState g ns = \<lparr>cs_dirty = liveSeeds g ns, cs_changed = True, cs_exceeded = False, cs_iterations = 0\<rparr>"

lemma closeLoop_seeds:
  "\<exists>st. closeLoop g m (seedState g ns) = Some st \<and> closeResult g m (dirtyClosure g (set ns)) (liveSeeds g ns) st"
  using closeLoop_spec [OF finite_dirtyClosure closed_dirtyClosure, where st = "seedState g ns"]
    liveSeeds_ok [of g ns] by (simp add: seedState_def)

text \<open>Property C28. The dirty closure always terminates with a result. Its nodes are sorted without
  duplicates; when the budget is not exceeded they are exactly the nodes reachable from the live
  seeds along uses whose semantics depend on the producer, and otherwise they are more than the
  budget allows and part of that set. The budget is reported as exceeded exactly when that
  closure has more nodes than the budget and more nodes than the live seeds.\<close>

theorem expandDirtyClosure_exact:
  "\<exists>r. expandDirtyClosure g seeds m = Some r
     \<and> sorted_wrt (<) (ds_nodes (dc_dirty r)) \<and> ds_regions (dc_dirty r) = ds_regions seeds
     \<and> (if dc_budget_exceeded r
        then m < length (ds_nodes (dc_dirty r)) \<and> set (ds_nodes (dc_dirty r)) \<subseteq> dirtyClosure g (set (ds_nodes seeds))
        else set (ds_nodes (dc_dirty r)) = dirtyClosure g (set (ds_nodes seeds)))
     \<and> (dc_budget_exceeded r \<longleftrightarrow> m < card (dirtyClosure g (set (ds_nodes seeds)))
          \<and> {n \<in> set (ds_nodes seeds). \<not> skipped g n} \<subset> dirtyClosure g (set (ds_nodes seeds)))"
proof -
  let ?S = "set (ds_nodes seeds)" let ?C = "dirtyClosure g ?S" let ?d = "liveSeeds g (ds_nodes seeds)"
  obtain st where st: "closeLoop g m (seedState g (ds_nodes seeds)) = Some st" "closeResult g m ?C ?d st"
    using closeLoop_seeds by blast
  note res = st(2) [unfolded closeResult_def]
  have len: "length (cs_dirty st) = card (set (cs_dirty st))"
    using res by (simp add: distinct_card strict_sorted_iff)
  have closed: "set (cs_dirty st) = ?C" if "\<not> cs_exceeded st"
    using that res dirtyClosure_least [of g "set (cs_dirty st)" ?S] liveSeeds_ok(2) [of g "ds_nodes seeds"] by auto
  have exc: "cs_exceeded st \<longleftrightarrow> m < card ?C \<and> set ?d \<subset> ?C"
  proof (cases "cs_exceeded st")
    case True
    then have "set ?d \<subset> set (cs_dirty st)"
      using res liveSeeds_ok(1) strict_sorted_unique by (metis psubsetI)
    moreover have "card (set (cs_dirty st)) \<le> card ?C" using res finite_dirtyClosure by (simp add: card_mono)
    ultimately show ?thesis using True res len by auto
  next
    case False
    then show ?thesis using res closed len by (cases "cs_dirty st = ?d") auto
  qed
  show ?thesis
    using st(1) res closed exc liveSeeds_ok(2) [of g "ds_nodes seeds"]
    by (simp add: expandDirtyClosure_def seedState_def)
qed

section \<open>The closure on a graph of the IR\<close>

text \<open>On a graph that the operations built, the use lists are exact, so the closure can be read off
  the inputs: a live node that reads a dirty node in a slot that matters is dirty.\<close>

lemma closure_reads:
  assumes g: "built g" and n: "input g u s \<in> dirtyClosure g S"
    and u: "u < nodesSize g" "\<not> isDead (node_at g u)" "s < numInputs g u" "semanticsDependOn g u s"
  shows "u \<in> dirtyClosure g S"
proof -
  let ?n = "input g u s"
  have ns: "\<not> skipped g ?n" and cl: "depSet g (usesOf g ?n) \<subseteq> dirtyClosure g S"
    using closed_dirtyClosure [of g S] n by (auto simp: closedUnder_def)
  then have lt: "?n < nodesSize g" using built_nodeCount [OF g] by (simp add: skipped_def)
  have "Use u s \<in> set (usesOf g ?n)" using built_uses(2) [OF g lt, of u s] u by simp
  moreover have "okUse g (Use u s)"
    using u built_nodeCount [OF g] by (simp add: okUse_def skipped_def)
  ultimately have "u \<in> depSet g (usesOf g ?n)" by (force simp: depSet_def)
  then show ?thesis using cl by auto
qed

lemma expand_result:
  assumes "expandDirtyClosure g seeds m = Some r" "\<not> dc_budget_exceeded r"
  shows "set (ds_nodes (dc_dirty r)) = dirtyClosure g (set (ds_nodes seeds))"
proof -
  obtain st where st: "closeLoop g m (seedState g (ds_nodes seeds)) = Some st"
    and res: "closeResult g m (dirtyClosure g (set (ds_nodes seeds))) (liveSeeds g (ds_nodes seeds)) st"
    using closeLoop_seeds by blast
  then have "dc_budget_exceeded r = cs_exceeded st" "ds_nodes (dc_dirty r) = cs_dirty st"
    using assms(1) by (auto simp: expandDirtyClosure_def seedState_def)
  then show ?thesis
    using assms(2) res dirtyClosure_least [of g "set (cs_dirty st)" "set (ds_nodes seeds)"]
      liveSeeds_ok(2) [of g "ds_nodes seeds"] by (auto simp: closeResult_def)
qed

end
