(* ===== verification/Pipe_RegionSafety.thy ===== *)
theory Pipe_RegionSafety
  imports Pipe_DirtyClosure
begin

text \<open>
  Recompilation regions (\<open>include/b2/pipeline/Region.h\<close>), the region safety checks
  (\<open>include/b2/pipeline/RegionSafety.h\<close>, \<open>compiler/pipeline/src/RegionSafety.cpp\<close>) and the decision of
  the guard-failure path (\<open>include/b2/pipeline/PartialDeopt.h\<close>).

  Two of the checks walk the inputs of a node with an 8-bit counter although a node has up to
  65535 inputs. Those loops are partial functions here: \<open>None\<close> means that the loop does not end.
  A region's pointers to its graph and to its code are left out; the checks take the graph as an
  argument.
\<close>

section \<open>Regions\<close>

record region =
  rg_id :: region_id
  rg_method :: method_id
  rg_entryControl :: node_id
  rg_exitControls :: "node_id list"
  rg_entryValues :: "node_id list"
  rg_exitValues :: "node_id list"
  rg_entryMemory :: node_id
  rg_exitMemory :: node_id
  rg_exceptionExit :: node_id
  rg_nodes :: "node_id list"
  rg_assumptions :: "dependency_id list"
  rg_guards :: "node_id list"
  rg_activeEpoch :: nat
  rg_deoptCount :: nat
  rg_partialRecompileCount :: nat
  rg_failureRate :: nat

datatype region_safety =
    Safe | UnsafeBoundary | UnsafeDanglingUses | UnsafeExceptionEdges | UnsafeMemoryState
  | UnsafeEffectOrdering | UnsafePhi | UnsafeSideEffectDup | UnsafeGcRoots | UnsafeDeoptState
  | UnsafeTooLarge | UnsafeBudgetExceeded

fun regionSafetyName :: "region_safety \<Rightarrow> string" where
  "regionSafetyName Safe = ''safe''"
| "regionSafetyName UnsafeBoundary = ''unsafe-boundary''"
| "regionSafetyName UnsafeDanglingUses = ''unsafe-dangling-uses''"
| "regionSafetyName UnsafeExceptionEdges = ''unsafe-exception-edges''"
| "regionSafetyName UnsafeMemoryState = ''unsafe-memory-state''"
| "regionSafetyName UnsafeEffectOrdering = ''unsafe-effect-ordering''"
| "regionSafetyName UnsafePhi = ''unsafe-phi''"
| "regionSafetyName UnsafeSideEffectDup = ''unsafe-side-effect-dup''"
| "regionSafetyName UnsafeGcRoots = ''unsafe-gc-roots''"
| "regionSafetyName UnsafeDeoptState = ''unsafe-deopt-state''"
| "regionSafetyName UnsafeTooLarge = ''unsafe-too-large''"
| "regionSafetyName UnsafeBudgetExceeded = ''unsafe-budget-exceeded''"

record region_safety_result =
  rs_verdict :: region_safety
  rs_failedCheck :: nat
  rs_checkedNodeCount :: nat

definition isSafe :: "region_safety_result \<Rightarrow> bool" where
  "isSafe r \<longleftrightarrow> rs_verdict r = Safe"

definition regionSafetyCheckName :: "nat \<Rightarrow> string" where
  "regionSafetyCheckName check =
     (if check < 11 then
        [''safe'', ''control-entry'', ''control-exits'', ''dangling-uses'', ''exception-edges'',
         ''memory-state'', ''effect-ordering'', ''phi-resolvable'', ''side-effect-dup'', ''gc-roots'',
         ''deopt-state''] ! check
      else ''?'')"

section \<open>The checks\<close>

definition inRegion :: "node_id list \<Rightarrow> node_id \<Rightarrow> bool" where
  "inRegion ns n = binarySearch ns n"

definition isControlEntryKind :: "node_kind \<Rightarrow> bool" where
  "isControlEntryKind k \<longleftrightarrow>
     k \<in> {Nk_Start, Nk_IfTrue, Nk_IfFalse, Nk_SwitchCase, Nk_SwitchDefault, Nk_LoopBegin, Nk_Region}"

definition isTerminalControl :: "node_kind \<Rightarrow> bool" where
  "isTerminalControl k \<longleftrightarrow> k \<in> {Nk_Return, Nk_Unwind, Nk_Deopt}"

definition isCallKind :: "node_kind \<Rightarrow> bool" where
  "isCallKind k \<longleftrightarrow> k \<in> {Nk_CallStatic, Nk_CallVirtual, Nk_CallInterface, Nk_CallDynamic}"

definition isMemoryStateKind :: "node_kind \<Rightarrow> bool" where
  "isMemoryStateKind k =
     (let ni = info_ir k in
      list_ex (\<lambda>i. ni_roles ni ! i = IR_Mem) [0..<ni_numFixed ni]
      \<or> (ni_variadic ni \<and> ni_variadicRole ni = IR_Mem))"

definition isPhiKind :: "node_kind \<Rightarrow> bool" where
  "isPhiKind k \<longleftrightarrow> k = Nk_Phi"

definition check1_ControlEntry :: "graph \<Rightarrow> region \<Rightarrow> bool" where
  "check1_ControlEntry g r =
     (if rg_entryControl r = kInvalidNodeId then False
      else if nodeCount g \<le> rg_entryControl r then False
      else let n = node_at g (rg_entryControl r) in
        if isDead n then False
        else if \<not> isControlEntryKind (nd_kind n) then False
        else if \<not> inRegion (rg_nodes r) (rg_entryControl r) then False
        else True)"

definition slotRole :: "node_info \<Rightarrow> nat \<Rightarrow> input_role" where
  "slotRole ni s =
     (if s < ni_numFixed ni then ni_roles ni ! s
      else if ni_variadic ni then ni_variadicRole ni else IR_None)"

definition ctrlUseInside :: "graph \<Rightarrow> region \<Rightarrow> use \<Rightarrow> bool" where
  "ctrlUseInside g r u =
     (if nodeCount g \<le> u_user u then False
      else slotRole (info_ir (nd_kind (node_at g (u_user u)))) (u_slot u) = IR_Ctrl
        \<and> inRegion (rg_nodes r) (u_user u))"

definition exitOk :: "graph \<Rightarrow> region \<Rightarrow> node_id \<Rightarrow> bool" where
  "exitOk g r exit =
     (if exit = kInvalidNodeId then False
      else if nodeCount g \<le> exit then False
      else let n = node_at g exit in
        if isDead n then False
        else if isTerminalControl (nd_kind n) then True
        else if \<not> inRegion (rg_nodes r) exit then False
        else \<not> list_ex (ctrlUseInside g r) (usesOf g exit))"

definition check2_ControlExits :: "graph \<Rightarrow> region \<Rightarrow> bool" where
  "check2_ControlExits g r \<longleftrightarrow> rg_exitControls r \<noteq> [] \<and> list_all (exitOk g r) (rg_exitControls r)"

text \<open>The source's guard \<open>if (n >= nodeCount) continue; if (isDead) continue;\<close> is \<open>skipped\<close>.\<close>

definition check3_DanglingUses :: "graph \<Rightarrow> region \<Rightarrow> bool" where
  "check3_DanglingUses g r =
     list_all (\<lambda>n. skipped g n
         \<or> list_all (\<lambda>u. nodeCount g \<le> u_user u \<or> inRegion (rg_nodes r) (u_user u)
             \<or> inRegion (rg_exitValues r) n) (usesOf g n))
       (rg_nodes r)"

definition callExceptWired :: "graph \<Rightarrow> region \<Rightarrow> node_id \<Rightarrow> bool" where
  "callExceptWired g r n =
     list_ex (\<lambda>u. u_user u < nodeCount g \<and> nd_kind (node_at g (u_user u)) = Nk_CallExcept
         \<and> (u_user u = rg_exceptionExit r \<or> inRegion (rg_nodes r) (u_user u))) (usesOf g n)"

definition check4_ExceptionEdges :: "graph \<Rightarrow> region \<Rightarrow> bool" where
  "check4_ExceptionEdges g r =
     list_all (\<lambda>n. skipped g n \<or> \<not> isCallKind (nd_kind (node_at g n)) \<or> callExceptWired g r n) (rg_nodes r)"

definition memNode :: "graph \<Rightarrow> node_id \<Rightarrow> bool" where
  "memNode g n \<longleftrightarrow> \<not> skipped g n \<and> isMemoryStateKind (nd_kind (node_at g n))"

text \<open>
  The input loop of check 5 on one node: \<open>None\<close> when the 8-bit counter keeps it running,
  \<open>Some None\<close> when it returns false, \<open>Some (Some e)\<close> when it ends with the external memory
  predecessor \<open>e\<close>.
\<close>

partial_function (option) memWalk ::
  "graph \<Rightarrow> region \<Rightarrow> node_id \<Rightarrow> nat \<Rightarrow> node_id \<Rightarrow> node_id option option" where
  "memWalk g r n s ext =
     (if s < nd_numInputs (node_at g n) then
        let next = (s + 1) mod 256; p = input g n s in
        if slotRole (info_ir (nd_kind (node_at g n))) s \<noteq> IR_Mem then memWalk g r n next ext
        else if nodeCount g \<le> p then memWalk g r n next ext
        else if inRegion (rg_nodes r) p then memWalk g r n next ext
        else if p \<noteq> rg_entryMemory r then Some None
        else if ext \<noteq> kInvalidNodeId \<and> ext \<noteq> p then Some None
        else memWalk g r n next p
      else Some (Some ext))"

fun memNodesWalk :: "graph \<Rightarrow> region \<Rightarrow> node_id list \<Rightarrow> node_id \<Rightarrow> node_id option option" where
  "memNodesWalk g r [] ext = Some (Some ext)"
| "memNodesWalk g r (n # ns) ext =
     (if memNode g n then
        (case memWalk g r n 0 ext of
           None \<Rightarrow> None | Some None \<Rightarrow> Some None | Some (Some e) \<Rightarrow> memNodesWalk g r ns e)
      else memNodesWalk g r ns ext)"

definition check5_MemoryState :: "graph \<Rightarrow> region \<Rightarrow> bool option" where
  "check5_MemoryState g r =
     (if \<not> list_ex (memNode g) (rg_nodes r) then
        Some (rg_entryMemory r = rg_exitMemory r
              \<or> (rg_entryMemory r = kInvalidNodeId \<and> rg_exitMemory r = kInvalidNodeId))
      else if rg_entryMemory r = kInvalidNodeId then Some False
      else if nodeCount g \<le> rg_entryMemory r then Some False
      else if inRegion (rg_nodes r) (rg_entryMemory r) then Some False
      else if rg_exitMemory r = kInvalidNodeId then Some False
      else if nodeCount g \<le> rg_exitMemory r then Some False
      else if inRegion (rg_nodes r) (rg_exitMemory r) then Some False
      else case memNodesWalk g r (rg_nodes r) kInvalidNodeId of
          None \<Rightarrow> None | Some None \<Rightarrow> Some False | Some (Some e) \<Rightarrow> Some (e \<noteq> kInvalidNodeId))"

partial_function (option) memCount :: "graph \<Rightarrow> node_id \<Rightarrow> nat \<Rightarrow> nat \<Rightarrow> nat option" where
  "memCount g n s c =
     (if s < nd_numInputs (node_at g n) then
        memCount g n ((s + 1) mod 256)
          (if slotRole (info_ir (nd_kind (node_at g n))) s = IR_Mem then (c + 1) mod 256 else c)
      else Some c)"

fun memCounts :: "graph \<Rightarrow> node_id list \<Rightarrow> bool option" where
  "memCounts g [] = Some True"
| "memCounts g (n # ns) =
     (if memNode g n then
        (case memCount g n 0 0 of None \<Rightarrow> None | Some c \<Rightarrow> if 1 < c then Some False else memCounts g ns)
      else memCounts g ns)"

definition check6_EffectOrdering :: "graph \<Rightarrow> region \<Rightarrow> bool option" where
  "check6_EffectOrdering g r = memCounts g (rg_nodes r)"

definition check7_PhiResolvable :: "graph \<Rightarrow> region \<Rightarrow> bool" where
  "check7_PhiResolvable g r =
     list_all (\<lambda>n. skipped g n \<or> \<not> isPhiKind (nd_kind (node_at g n))
         \<or> list_all (\<lambda>s. nodeCount g \<le> input g n s \<or> inRegion (rg_nodes r) (input g n s)
             \<or> inRegion (rg_entryValues r) (input g n s)) [0..<nd_numInputs (node_at g n)])
       (rg_nodes r)"

text \<open>Checks 8 to 10 are stubs in the source: they wait for machinery that does not exist yet.\<close>

definition check8_SideEffectDup :: "graph \<Rightarrow> region \<Rightarrow> bool" where
  "check8_SideEffectDup g r = True"

definition check9_GcRoots :: "graph \<Rightarrow> region \<Rightarrow> bool" where
  "check9_GcRoots g r = True"

definition check10_DeoptState :: "graph \<Rightarrow> region \<Rightarrow> bool" where
  "check10_DeoptState g r = True"

definition checkRegionSafety :: "graph \<Rightarrow> region \<Rightarrow> region_safety_result option" where
  "checkRegionSafety g r =
     (let fin = (\<lambda>v k. Some \<lparr>rs_verdict = v, rs_failedCheck = k,
                   rs_checkedNodeCount = u32 (length (rg_nodes r))\<rparr>) in
      if \<not> check1_ControlEntry g r then fin UnsafeBoundary 1
      else if \<not> check2_ControlExits g r then fin UnsafeBoundary 2
      else if \<not> check3_DanglingUses g r then fin UnsafeDanglingUses 3
      else if \<not> check4_ExceptionEdges g r then fin UnsafeExceptionEdges 4
      else case check5_MemoryState g r of None \<Rightarrow> None | Some c5 \<Rightarrow>
        if \<not> c5 then fin UnsafeMemoryState 5
        else case check6_EffectOrdering g r of None \<Rightarrow> None | Some c6 \<Rightarrow>
          if \<not> c6 then fin UnsafeEffectOrdering 6
          else if \<not> check7_PhiResolvable g r then fin UnsafePhi 7
          else if \<not> check8_SideEffectDup g r then fin UnsafeSideEffectDup 8
          else if \<not> check9_GcRoots g r then fin UnsafeGcRoots 9
          else if \<not> check10_DeoptState g r then fin UnsafeDeoptState 10
          else fin Safe 0)"

section \<open>The guard-failure decision\<close>

datatype verify_level = VL_Always | VL_Sampled

record partial_deopt_config =
  pd_enable_partial_deopt :: bool
  pd_enable_partial_loop_recompile :: bool
  pd_enable_partial_inline_recompile :: bool
  pd_allow_region_patching :: bool
  pd_partial_deopt_budget :: nat
  pd_max_dirty_region_size :: nat
  pd_verification_level :: verify_level
  pd_shadow_mode :: bool

definition defaultPartialDeoptConfig :: partial_deopt_config where
  "defaultPartialDeoptConfig = \<lparr>pd_enable_partial_deopt = False, pd_enable_partial_loop_recompile = False,
     pd_enable_partial_inline_recompile = False, pd_allow_region_patching = False,
     pd_partial_deopt_budget = 3, pd_max_dirty_region_size = kDefaultMaxDirtyRegionSize,
     pd_verification_level = VL_Always, pd_shadow_mode = True\<rparr>"

datatype partial_deopt_decision = ActivatedNewRegion | EscalateToFullDeopt | Disabled | ShadowComputed

fun partialDeoptDecisionName :: "partial_deopt_decision \<Rightarrow> string" where
  "partialDeoptDecisionName ActivatedNewRegion = ''activated''"
| "partialDeoptDecisionName EscalateToFullDeopt = ''escalated''"
| "partialDeoptDecisionName Disabled = ''disabled''"
| "partialDeoptDecisionName ShadowComputed = ''shadow''"

definition onGuardFailure :: "nat \<Rightarrow> partial_deopt_config \<Rightarrow> partial_deopt_decision" where
  "onGuardFailure deoptId cfg = (if \<not> pd_enable_partial_deopt cfg then Disabled else Disabled)"

section \<open>Memory slots\<close>

text \<open>By the registry, a memory-state node has its memory input at slot 1 and nowhere else.\<close>

lemma mem_role_index:
  assumes "i < 6"
  shows "ni_roles (info_ir k) ! i = IR_Mem \<longleftrightarrow> IR_Mem \<in> set (ni_roles (info_ir k)) \<and> i = 1"
proof -
  let ?rs = "ni_roles (info_ir k)"
  have ok: "IR_Mem \<notin> set ?rs \<or> take 2 ?rs = [IR_Ctrl, IR_Mem]" "count_list ?rs IR_Mem \<le> 1"
    using info_ok [of k] by (auto simp: effectOk_def)
  have len: "i < length ?rs" using assms by simp
  show ?thesis
  proof
    assume m: "?rs ! i = IR_Mem"
    then have mem: "IR_Mem \<in> set ?rs" using len nth_mem by metis
    then have t: "take 2 ?rs = [IR_Ctrl, IR_Mem]" using ok by simp
    have rs: "?rs = IR_Ctrl # IR_Mem # drop 2 ?rs" using t append_take_drop_id [of 2 ?rs] by simp
    then have "count_list ?rs IR_Mem = Suc (count_list (drop 2 ?rs) IR_Mem)"
      by (metis count_list.simps(2) input_role.distinct(11) add.commute plus_1_eq_Suc)
    then have "IR_Mem \<notin> set (drop 2 ?rs)" using ok(2) by (simp add: count_list_0_iff)
    moreover have "?rs ! i \<in> set (drop 2 ?rs)" if "2 \<le> i"
      using that len by (metis Cons_nth_drop_Suc in_set_dropD list.set_intros(1) set_drop_subset_set_drop subsetD)
    moreover have "?rs ! 0 = IR_Ctrl" by (subst rs) simp
    ultimately show "IR_Mem \<in> set ?rs \<and> i = 1"
      using m mem by (metis One_nat_def Suc_1 input_role.distinct(11) less_2_cases not_less)
  next
    assume "IR_Mem \<in> set ?rs \<and> i = 1"
    then have "take 2 ?rs ! 1 = IR_Mem" "i = 1" using ok by auto
    then show "?rs ! i = IR_Mem" by simp
  qed
qed

lemma slotRole_Mem: "slotRole (info_ir k) s = IR_Mem \<longleftrightarrow> isMemoryStateKind k \<and> s = 1"
proof -
  let ?ni = "info_ir k"
  have ok: "ni_variadicRole ?ni \<noteq> IR_Mem" "ni_numFixed ?ni \<le> 6"
    using info_ok [of k] by (auto simp: rolesOk_def)
  have mem: "isMemoryStateKind k \<longleftrightarrow> (\<exists>i<ni_numFixed ?ni. ni_roles ?ni ! i = IR_Mem)"
    using ok by (auto simp: isMemoryStateKind_def Let_def list_ex_iff)
  have "slotRole ?ni s = IR_Mem \<longleftrightarrow> s < ni_numFixed ?ni \<and> ni_roles ?ni ! s = IR_Mem"
    using ok by (simp add: slotRole_def)
  also have "\<dots> \<longleftrightarrow> isMemoryStateKind k \<and> s = 1"
  proof -
    have "i = 1" if "i < ni_numFixed ?ni" "ni_roles ?ni ! i = IR_Mem" for i
      using mem_role_index [of i k] that ok(2) by simp
    then show ?thesis unfolding mem by blast
  qed
  finally show ?thesis .
qed

section \<open>The loops with an 8-bit counter\<close>

abbreviation nIn :: "graph \<Rightarrow> node_id \<Rightarrow> nat" where
  "nIn g n \<equiv> nd_numInputs (node_at g n)"

lemma memCount_returns:
  assumes "nIn g n < 256" "s \<le> nIn g n"
  shows "memCount g n s c = Some (if memNode g n \<and> s \<le> 1 \<and> 1 < nIn g n then (c + 1) mod 256 else c)
    \<or> \<not> memNode g n"
  using assms
proof (induction "nIn g n - s" arbitrary: s c)
  case 0
  then show ?case by (simp add: memCount.simps [of g n s c])
next
  case (Suc x)
  then have s: "s < nIn g n" by simp
  then have "(s + 1) mod 256 = Suc s" using Suc.prems by simp
  then have eq: "memCount g n s c = memCount g n (Suc s)
      (if slotRole (info_ir (nd_kind (node_at g n))) s = IR_Mem then (c + 1) mod 256 else c)"
    using s by (simp add: memCount.simps [of g n s c])
  show ?case
    unfolding eq using Suc.hyps(1) [of "Suc s"] Suc.hyps(2) Suc.prems s
    by (auto simp: slotRole_Mem memNode_def)
qed

lemma memCount_ends:
  assumes "memCount g n s c = Some y"
  shows "s < 256 \<longrightarrow> nIn g n < 256"
  using assms
proof (rule memCount.raw_induct [where P = "\<lambda>g n s c y. s < 256 \<longrightarrow> nIn g n < 256", rotated])
  fix f g n s c y
  assume IH: "\<And>g n s c y. f g n s c = Some y \<Longrightarrow> s < 256 \<longrightarrow> nIn g n < 256"
    and "(if s < nIn g n then f g n ((s + 1) mod 256)
        (if slotRole (info_ir (nd_kind (node_at g n))) s = IR_Mem then (c + 1) mod 256 else c)
      else Some c) = Some y"
  then show "s < 256 \<longrightarrow> nIn g n < 256"
    using IH by (cases "s < nIn g n") fastforce+
qed

text \<open>Check 6 in closed form: it never reports a fork, and it does not end when a memory-state
  node of the region has 256 inputs or more.\<close>

lemma memCounts_closed:
  "memCounts g ns = (if \<exists>n\<in>set ns. memNode g n \<and> 256 \<le> nIn g n then None else Some True)"
proof (induction ns)
  case (Cons n ns)
  show ?case
  proof (cases "memNode g n")
    case m: True
    show ?thesis
    proof (cases "nIn g n < 256")
      case True
      then show ?thesis using Cons m memCount_returns [OF True, of 0 0] by (auto split: if_splits)
    next
      case False
      then have "memCount g n 0 0 = None" using memCount_ends [of g n 0 0] by (cases "memCount g n 0 0") auto
      then show ?thesis using m False by auto
    qed
  qed (use Cons in auto)
qed simp

lemma check6_closed:
  "check6_EffectOrdering g r = (if \<exists>n\<in>set (rg_nodes r). memNode g n \<and> 256 \<le> nIn g n then None else Some True)"
  unfolding check6_EffectOrdering_def by (rule memCounts_closed)

lemma memWalk_returns:
  assumes "nIn g n < 256" "s \<le> nIn g n"
  shows "\<exists>x. memWalk g r n s ext = Some x"
  using assms
proof (induction "nIn g n - s" arbitrary: s ext)
  case 0
  then show ?case by (simp add: memWalk.simps [of g r n s ext])
next
  case (Suc x)
  then have s: "s < nIn g n" "(s + 1) mod 256 = Suc s" by simp_all
  have IH: "\<exists>x. memWalk g r n (Suc s) e = Some x" for e
    using Suc.hyps(1) [of "Suc s" e] Suc.hyps(2) Suc.prems s by simp
  show ?case
    unfolding memWalk.simps [of g r n s ext] Let_def s(2) using s(1) IH by simp
qed

text \<open>What a run of the memory walk has checked: the memory input of the node.\<close>

definition memInputOk :: "graph \<Rightarrow> region \<Rightarrow> node_id \<Rightarrow> bool" where
  "memInputOk g r n \<longleftrightarrow> 1 < nIn g n \<longrightarrow>
     nodeCount g \<le> input g n 1 \<or> inRegion (rg_nodes r) (input g n 1) \<or> input g n 1 = rg_entryMemory r"

lemma memWalk_checks:
  assumes "memWalk g r n s ext = Some (Some e)" "memNode g n" "s \<le> 1" "nIn g n < 256"
  shows "memInputOk g r n"
proof -
  have mem: "isMemoryStateKind (nd_kind (node_at g n))" using assms(2) by (simp add: memNode_def)
  have one: "memInputOk g r n" if w: "memWalk g r n 1 x = Some (Some e)" for x
  proof (cases "1 < nIn g n")
    case True
    then show ?thesis
      using w mem unfolding memWalk.simps [of g r n 1 x] Let_def slotRole_Mem
      by (auto simp: memInputOk_def split: if_splits)
  qed (simp add: memInputOk_def)
  show ?thesis
  proof (cases "s = 1")
    case True
    then show ?thesis using one assms(1) by blast
  next
    case False
    then have s: "s = 0" using assms(3) by simp
    show ?thesis
    proof (cases "0 < nIn g n")
      case True
      then have "memWalk g r n 1 ext = Some (Some e)"
        using assms(1) s unfolding memWalk.simps [of g r n s ext] Let_def slotRole_Mem by simp
      then show ?thesis by (rule one)
    qed (simp add: memInputOk_def)
  qed
qed

lemma memNodesWalk_checks:
  assumes "memNodesWalk g r ns ext = Some (Some e)" "\<forall>n\<in>set ns. memNode g n \<longrightarrow> nIn g n < 256"
  shows "\<forall>n\<in>set ns. memNode g n \<longrightarrow> memInputOk g r n"
  using assms
proof (induction ns arbitrary: ext)
  case (Cons n ns)
  then show ?case using memWalk_checks [of g r n 0 ext] by (auto split: if_splits option.splits)
qed simp

lemma memNodesWalk_returns:
  "\<forall>n\<in>set ns. memNode g n \<longrightarrow> nIn g n < 256 \<Longrightarrow> \<exists>x. memNodesWalk g r ns ext = Some x"
proof (induction ns arbitrary: ext)
  case (Cons n ns)
  show ?case
  proof (cases "memNode g n")
    case True
    then obtain x where "memWalk g r n 0 ext = Some x" using Cons.prems memWalk_returns [of g n 0 r ext] by auto
    then show ?thesis using Cons True by (cases x) auto
  qed (use Cons in simp)
qed simp

section \<open>The contract of a safe region\<close>

text \<open>What a partial rebuild relies on, stated over the inputs of the nodes.\<close>

definition entryContract :: "graph \<Rightarrow> region \<Rightarrow> bool" where
  "entryContract g r \<longleftrightarrow> rg_entryControl r \<in> set (rg_nodes r) \<and> rg_entryControl r < nodesSize g
     \<and> \<not> isDead (node_at g (rg_entryControl r)) \<and> isControlEntryKind (nd_kind (node_at g (rg_entryControl r)))
     \<and> rg_exitControls r \<noteq> []"

definition valueContract :: "graph \<Rightarrow> region \<Rightarrow> bool" where
  "valueContract g r \<longleftrightarrow> (\<forall>u<nodesSize g. \<forall>s<numInputs g u. u \<notin> set (rg_nodes r) \<longrightarrow>
     input g u s \<in> set (rg_nodes r) \<longrightarrow> \<not> skipped g (input g u s) \<longrightarrow> input g u s \<in> set (rg_exitValues r))"

definition callContract :: "graph \<Rightarrow> region \<Rightarrow> bool" where
  "callContract g r \<longleftrightarrow> (\<forall>n\<in>set (rg_nodes r). \<not> skipped g n \<longrightarrow> isCallKind (nd_kind (node_at g n)) \<longrightarrow>
     (\<exists>u s. u < nodesSize g \<and> s < numInputs g u \<and> input g u s = n \<and> nd_kind (node_at g u) = Nk_CallExcept
        \<and> (u = rg_exceptionExit r \<or> u \<in> set (rg_nodes r))))"

definition memoryContract :: "graph \<Rightarrow> region \<Rightarrow> bool" where
  "memoryContract g r \<longleftrightarrow> (\<forall>n\<in>set (rg_nodes r). memNode g n \<longrightarrow> 1 < numInputs g n \<longrightarrow>
     rg_entryMemory r \<notin> set (rg_nodes r) \<and>
     (nodesSize g \<le> input g n 1 \<or> input g n 1 \<in> set (rg_nodes r) \<or> input g n 1 = rg_entryMemory r))"

definition phiContract :: "graph \<Rightarrow> region \<Rightarrow> bool" where
  "phiContract g r \<longleftrightarrow> (\<forall>n\<in>set (rg_nodes r). \<not> skipped g n \<longrightarrow> nd_kind (node_at g n) = Nk_Phi \<longrightarrow>
     (\<forall>s<numInputs g n. nodesSize g \<le> input g n s \<or> input g n s \<in> set (rg_nodes r) \<union> set (rg_entryValues r)))"

lemma safe_checks:
  assumes "checkRegionSafety g r = Some res" "isSafe res"
  shows "check1_ControlEntry g r" "check2_ControlExits g r" "check3_DanglingUses g r" "check4_ExceptionEdges g r"
    "check5_MemoryState g r = Some True" "check6_EffectOrdering g r = Some True" "check7_PhiResolvable g r"
  using assms unfolding checkRegionSafety_def Let_def isSafe_def by (auto split: if_splits option.splits)

lemma check3_contract:
  assumes g: "built g" and srt: "sorted (rg_nodes r)" "sorted (rg_exitValues r)" and c: "check3_DanglingUses g r"
  shows "valueContract g r"
  unfolding valueContract_def
proof (intro allI impI)
  fix u s assume u: "u < nodesSize g" "s < numInputs g u" "u \<notin> set (rg_nodes r)"
    "input g u s \<in> set (rg_nodes r)" "\<not> skipped g (input g u s)"
  then have "input g u s < nodesSize g" using built_nodeCount [OF g] by (simp add: skipped_def)
  then have "Use u s \<in> set (usesOf g (input g u s))" using built_uses(2) [OF g] u by simp
  then show "input g u s \<in> set (rg_exitValues r)"
    using c u srt built_nodeCount [OF g] by (force simp: check3_DanglingUses_def list_all_iff inRegion_def)
qed

lemma check4_contract:
  assumes g: "built g" and srt: "sorted (rg_nodes r)" and c: "check4_ExceptionEdges g r"
  shows "callContract g r"
  unfolding callContract_def
proof (intro ballI impI)
  fix n assume n: "n \<in> set (rg_nodes r)" "\<not> skipped g n" "isCallKind (nd_kind (node_at g n))"
  then obtain v where v: "v \<in> set (usesOf g n)" "nd_kind (node_at g (u_user v)) = Nk_CallExcept"
    "u_user v = rg_exceptionExit r \<or> u_user v \<in> set (rg_nodes r)"
    using c srt by (auto simp: check4_ExceptionEdges_def list_all_iff callExceptWired_def list_ex_iff inRegion_def)
  have "n < nodesSize g" using n(2) built_nodeCount [OF g] by (simp add: skipped_def)
  then show "\<exists>u s. u < nodesSize g \<and> s < numInputs g u \<and> input g u s = n
      \<and> nd_kind (node_at g u) = Nk_CallExcept \<and> (u = rg_exceptionExit r \<or> u \<in> set (rg_nodes r))"
    using v built_uses(2) [OF g, of n "u_user v" "u_slot v"] by auto
qed

lemma check5_contract:
  assumes g: "built g" and srt: "sorted (rg_nodes r)" and c: "check5_MemoryState g r = Some True"
    and c6: "check6_EffectOrdering g r = Some True"
  shows "memoryContract g r"
proof (cases "list_ex (memNode g) (rg_nodes r)")
  case True
  have small: "\<forall>n\<in>set (rg_nodes r). memNode g n \<longrightarrow> nIn g n < 256"
    using c6 by (auto simp: check6_closed not_le split: if_splits)
  obtain e where "memNodesWalk g r (rg_nodes r) kInvalidNodeId = Some (Some e)"
    and out: "\<not> inRegion (rg_nodes r) (rg_entryMemory r)"
    using c True unfolding check5_MemoryState_def by (auto split: if_splits option.splits)
  then show ?thesis
    using memNodesWalk_checks [of g r "rg_nodes r" kInvalidNodeId e] small srt built_nodeCount [OF g]
    by (auto simp: memoryContract_def memInputOk_def inRegion_def numInputs_def)
next
  case False
  then show ?thesis by (auto simp: memoryContract_def list_ex_iff)
qed

text \<open>Property C29. A region of a graph the IR operations built that the checker calls safe keeps the
  contract a partial rebuild needs, stated over the inputs of the nodes: it has a live control
  entry inside and an exit; a live node of it that is read from outside is listed as an exit
  value; every live call has its exception projection inside or at the exception exit; a memory
  input comes from inside or from the entry memory, which is outside; and every input of a live
  phi is inside or an entry value.\<close>

theorem safe_region_contract:
  assumes "built g" "sorted (rg_nodes r)" "sorted (rg_exitValues r)" "sorted (rg_entryValues r)"
    and "checkRegionSafety g r = Some res" "isSafe res"
  shows "entryContract g r \<and> valueContract g r \<and> callContract g r \<and> memoryContract g r \<and> phiContract g r"
proof (intro conjI)
  note c = safe_checks [OF assms(5,6)]
  show "entryContract g r"
    using c(1,2) assms(2) built_nodeCount [OF assms(1)]
    by (auto simp: entryContract_def check1_ControlEntry_def check2_ControlExits_def Let_def inRegion_def
        split: if_splits)
  show "valueContract g r" by (rule check3_contract [OF assms(1-3) c(3)])
  show "callContract g r" by (rule check4_contract [OF assms(1,2) c(4)])
  show "memoryContract g r" by (rule check5_contract [OF assms(1,2) c(5,6)])
  show "phiContract g r"
    using c(7) assms(2,4) built_nodeCount [OF assms(1)]
    by (fastforce simp: phiContract_def check7_PhiResolvable_def list_all_iff isPhiKind_def inRegion_def numInputs_def)
qed

text \<open>Property C38. The checker returns a verdict whenever no memory-state node of the region has more than
  255 inputs, and the verdict is \<open>Safe\<close> exactly when no check is reported as failed. A region
  with a memory-state node of 256 inputs or more is never called safe: the input loops of checks 5
  and 6 count in eight bits and do not end on it.\<close>

theorem region_check_returns:
  "if \<exists>n\<in>set (rg_nodes r). memNode g n \<and> 256 \<le> nIn g n
   then check6_EffectOrdering g r = None \<and> \<not> (\<exists>res. checkRegionSafety g r = Some res \<and> isSafe res)
   else \<exists>res. checkRegionSafety g r = Some res \<and> (isSafe res \<longleftrightarrow> rs_failedCheck res = 0)
     \<and> rs_failedCheck res \<le> 7"
proof (cases "\<exists>n\<in>set (rg_nodes r). memNode g n \<and> 256 \<le> nIn g n")
  case True
  then have "check6_EffectOrdering g r = None" by (simp add: check6_closed)
  then show ?thesis
    unfolding if_P [OF True] using safe_checks(6) by fastforce
next
  case False
  then obtain x where "memNodesWalk g r (rg_nodes r) kInvalidNodeId = Some x"
    using memNodesWalk_returns [of "rg_nodes r" g r] by (auto simp: not_le)
  then have "\<exists>b. check5_MemoryState g r = Some b"
    by (cases x) (auto simp: check5_MemoryState_def)
  then obtain b where b: "check5_MemoryState g r = Some b" by blast
  have "check6_EffectOrdering g r = Some True" using False by (auto simp: check6_closed)
  with b show ?thesis
    unfolding if_not_P [OF False] checkRegionSafety_def
    by (simp add: Let_def isSafe_def check8_SideEffectDup_def check9_GcRoots_def check10_DeoptState_def)
qed

section \<open>A safe region\<close>

text \<open>A method that returns the constant 5, as one region.\<close>

definition retGraph :: graph where
  "retGraph = fst (makeRaw Nk_Return [0, 1] 0 0 0 demo0)"

definition retRegion :: region where
  "retRegion = \<lparr>rg_id = 0, rg_method = 7, rg_entryControl = 0, rg_exitControls = [2], rg_entryValues = [],
     rg_exitValues = [], rg_entryMemory = kInvalidNodeId, rg_exitMemory = kInvalidNodeId,
     rg_exceptionExit = kInvalidNodeId, rg_nodes = [0, 1, 2], rg_assumptions = [], rg_guards = [],
     rg_activeEpoch = 0, rg_deoptCount = 0, rg_partialRecompileCount = 0, rg_failureRate = 0\<rparr>"

lemma built_retGraph: "built retGraph"
  unfolding retGraph_def
  by (rule built.makeRaw [OF built_demo(1)])
    (simp add: fits_def roomFor_def refOk_def demo0_def newGraph_eval makeRaw_def Let_def pushUse_def)

lemma retGraph_eval:
  "nodesSize retGraph = 3" "nodeCount retGraph = 3" "map nd_kind (g_nodes retGraph) = [0, 39, 12]"
  "g_uses retGraph = [[Use 2 0], [Use 2 1], []]" "map nd_flags (g_nodes retGraph) = [0, 0, 0]"
  by (simp_all add: retGraph_def demo0_def newGraph_eval makeRaw_def Let_def pushUse_def defaultNode_def
      nodeCount_def)

lemma retGraph_node:
  assumes "n < 3"
  shows "nd_kind (node_at retGraph n) = [0, 39, 12] ! n" "\<not> isDead (node_at retGraph n)"
    "usesOf retGraph n = [[Use 2 0], [Use 2 1], []] ! n"
  using assms retGraph_eval(1,4) arg_cong [OF retGraph_eval(3), of "\<lambda>xs. xs ! n"]
    arg_cong [OF retGraph_eval(5), of "\<lambda>xs. xs ! n"]
  by (auto simp: node_at_def usesOf_def isDead_def flagsHas_def less_Suc_eq numeral_3_eq_3)

lemma mem_kinds: "\<not> isMemoryStateKind 0" "\<not> isMemoryStateKind 39" "\<not> isMemoryStateKind 12"
  by code_simp+

lemma retRegion_safe:
  "checkRegionSafety retGraph retRegion = Some \<lparr>rs_verdict = Safe, rs_failedCheck = 0, rs_checkedNodeCount = 3\<rparr>"
proof -
  note ev = retRegion_def retGraph_eval(2) retGraph_node inRegion_def skipped_def kInvalidNodeId_def
  have "check1_ControlEntry retGraph retRegion" "check2_ControlExits retGraph retRegion"
    "check3_DanglingUses retGraph retRegion" "check4_ExceptionEdges retGraph retRegion"
    "check7_PhiResolvable retGraph retRegion"
    by (simp_all add: ev check1_ControlEntry_def check2_ControlExits_def check3_DanglingUses_def
        check4_ExceptionEdges_def check7_PhiResolvable_def exitOk_def isControlEntryKind_def
        isTerminalControl_def isCallKind_def isPhiKind_def Let_def)
  moreover have nomem: "\<not> memNode retGraph n" if "n \<in> set (rg_nodes retRegion)" for n
    using that mem_kinds by (auto simp: ev memNode_def)
  moreover have "check5_MemoryState retGraph retRegion = Some True"
    using nomem by (auto simp: check5_MemoryState_def list_ex_iff) (simp_all add: retRegion_def)
  ultimately show ?thesis
    by (simp add: checkRegionSafety_def check6_closed check8_SideEffectDup_def check9_GcRoots_def
        check10_DeoptState_def Let_def) (auto simp: retRegion_def)
qed

theorem safe_region_contract_witness:
  "entryContract retGraph retRegion \<and> valueContract retGraph retRegion \<and> callContract retGraph retRegion
   \<and> memoryContract retGraph retRegion \<and> phiContract retGraph retRegion"
  by (rule safe_region_contract [OF built_retGraph _ _ _ retRegion_safe]) (simp_all add: retRegion_def isSafe_def)

end
