(* ===== verification/Java_Num.thy ===== *)
theory Java_Num
  imports B2_Prelude "HOL-Library.Signed_Division"
begin

unbundle bit_operations_syntax

text \<open>
  The numeric kernels of the T0 interpreter (\<open>compiler/interp/src/Interp.cpp\<close>) and the part of
  IEEE 754 they rest on. Machine integers are words; \<open>int32_t\<close> and \<open>uint32_t\<close> are the two
  readings (\<open>sint\<close>, \<open>unat\<close>) of one word, so a cast between them is the identity. A float or
  double is its bit pattern. Classification, comparison, negation, truncation and the widening of a
  float are defined exactly on the bits; the rounded operations (sum, product, quotient, \<open>fmod\<close>
  and the rounding conversions) are those of the host's floating point unit and come in a record.

  The lemmas relate each kernel to integer arithmetic: wrap-around, division with truncation, and
  saturating conversion.
\<close>

section \<open>Integers\<close>

definition wrapAdd32 :: "32 word \<Rightarrow> 32 word \<Rightarrow> 32 word" where
  "wrapAdd32 a b = ucast ((scast a :: 64 word) + scast b)"

definition wrapSub32 :: "32 word \<Rightarrow> 32 word \<Rightarrow> 32 word" where
  "wrapSub32 a b = ucast ((scast a :: 64 word) - scast b)"

definition wrapMul32 :: "32 word \<Rightarrow> 32 word \<Rightarrow> 32 word" where
  "wrapMul32 a b = ucast ((scast a :: 64 word) * scast b)"

definition wrapAdd64 :: "64 word \<Rightarrow> 64 word \<Rightarrow> 64 word" where
  "wrapAdd64 a b = a + b"

definition wrapSub64 :: "64 word \<Rightarrow> 64 word \<Rightarrow> 64 word" where
  "wrapSub64 a b = a - b"

definition wrapMul64 :: "64 word \<Rightarrow> 64 word \<Rightarrow> 64 word" where
  "wrapMul64 a b = a * b"

definition neg32 :: "32 word \<Rightarrow> 32 word" where
  "neg32 a = 0 - a"

definition neg64 :: "64 word \<Rightarrow> 64 word" where
  "neg64 a = 0 - a"

text \<open>\<open>std::numeric_limits::min\<close> and \<open>max\<close> of the signed type of a width.\<close>

definition minInt :: "'a::len word" where
  "minInt = push_bit (LENGTH('a) - 1) 1"

definition maxInt :: "'a::len word" where
  "maxInt = mask (LENGTH('a) - 1)"

text \<open>The quotient and the remainder of the built-in operators round toward zero; both overflow
  exactly at \<open>MIN / -1\<close>, which the interpreter treats apart.\<close>

definition divTrunc :: "'a::len word \<Rightarrow> 'a word \<Rightarrow> 'a word" where
  "divTrunc a b = (if a = minInt \<and> b = -1 then minInt else word_of_int (sint a sdiv sint b))"

definition remTrunc :: "'a::len word \<Rightarrow> 'a word \<Rightarrow> 'a word" where
  "remTrunc a b = (if a = minInt \<and> b = -1 then 0 else word_of_int (sint a smod sint b))"

definition shiftCount :: "'a::len word \<Rightarrow> 32 word \<Rightarrow> nat" where
  "shiftCount a c = unat (c AND (if LENGTH('a) = 32 then 0x1F else 0x3F))"

definition shl :: "'a::len word \<Rightarrow> 32 word \<Rightarrow> 'a word" where
  "shl a c = push_bit (shiftCount a c) a"

definition shr :: "'a::len word \<Rightarrow> 32 word \<Rightarrow> 'a word" where
  "shr a c = signed_drop_bit (shiftCount a c) a"

definition ushr :: "'a::len word \<Rightarrow> 32 word \<Rightarrow> 'a word" where
  "ushr a c = drop_bit (shiftCount a c) a"

definition cmpSigned :: "'a::len word \<Rightarrow> 'a word \<Rightarrow> 32 word" where
  "cmpSigned a b = of_bool (b <s a) - of_bool (a <s b)"

definition narrow8 :: "32 word \<Rightarrow> 32 word" where
  "narrow8 a = scast (ucast a :: 8 word)"

definition narrowU16 :: "32 word \<Rightarrow> 32 word" where
  "narrowU16 a = ucast (ucast a :: 16 word)"

definition narrow16 :: "32 word \<Rightarrow> 32 word" where
  "narrow16 a = scast (ucast a :: 16 word)"

section \<open>Floating point on bits\<close>

definition fracBits :: "'a::len word \<Rightarrow> nat" where
  "fracBits w = (if LENGTH('a) = 32 then 23 else 52)"

definition fpBias :: "'a::len word \<Rightarrow> int" where
  "fpBias w = (if LENGTH('a) = 32 then 127 else 1023)"

definition fpNeg :: "'a::len word \<Rightarrow> bool" where
  "fpNeg w \<longleftrightarrow> bit w (LENGTH('a) - 1)"

text \<open>The magnitude: exponent and fraction as one number, increasing with the absolute value.\<close>

definition fpMag :: "'a::len word \<Rightarrow> int" where
  "fpMag w = uint w mod 2 ^ (LENGTH('a) - 1)"

definition fpInfMag :: "'a::len word \<Rightarrow> int" where
  "fpInfMag w = (2 * fpBias w + 1) * 2 ^ fracBits w"

definition fpIsNan :: "'a::len word \<Rightarrow> bool" where
  "fpIsNan w \<longleftrightarrow> fpInfMag w < fpMag w"

definition fpIsInf :: "'a::len word \<Rightarrow> bool" where
  "fpIsInf w \<longleftrightarrow> fpMag w = fpInfMag w"

definition fpKey :: "'a::len word \<Rightarrow> int" where
  "fpKey w = (if fpNeg w then - fpMag w else fpMag w)"

definition fpLess :: "'a::len word \<Rightarrow> 'a word \<Rightarrow> bool" where
  "fpLess a b \<longleftrightarrow> \<not> fpIsNan a \<and> \<not> fpIsNan b \<and> fpKey a < fpKey b"

definition fpLe :: "'a::len word \<Rightarrow> 'a word \<Rightarrow> bool" where
  "fpLe a b \<longleftrightarrow> \<not> fpIsNan a \<and> \<not> fpIsNan b \<and> fpKey a \<le> fpKey b"

definition fpNegate :: "'a::len word \<Rightarrow> 'a word" where
  "fpNegate w = w XOR push_bit (LENGTH('a) - 1) 1"

text \<open>The biased exponent (1 for subnormal values) and the significand of a finite value, which is
  the significand times two to the power of exponent - bias - number of fraction bits.\<close>

definition fpExp :: "'a::len word \<Rightarrow> int" where
  "fpExp w = max 1 (fpMag w div 2 ^ fracBits w)"

definition fpSig :: "'a::len word \<Rightarrow> int" where
  "fpSig w = fpMag w mod 2 ^ fracBits w + (if fpMag w < 2 ^ fracBits w then 0 else 2 ^ fracBits w)"

text \<open>Rounding of a finite value toward zero, as the cast to an integer type computes it.\<close>

definition scaleTrunc :: "int \<Rightarrow> int \<Rightarrow> int" where
  "scaleTrunc m e = (if 0 \<le> e then m * 2 ^ nat e else m div 2 ^ nat (- e))"

definition fpTrunc :: "'a::len word \<Rightarrow> int" where
  "fpTrunc w =
     (let m = scaleTrunc (fpSig w) (fpExp w - fpBias w - int (fracBits w))
      in if fpNeg w then - m else m)"

text \<open>The powers of two that bound the integer types, which both formats represent exactly.\<close>

definition fpPow2 :: "int \<Rightarrow> 'a::len word" where
  "fpPow2 k = (let w = 0 :: 'a word in word_of_int ((fpBias w + k) * 2 ^ fracBits w))"

definition toInt32Sat :: "'a::len word \<Rightarrow> 32 word" where
  "toInt32Sat v =
     (if fpIsNan v then 0
      else if fpLe (fpPow2 31) v then maxInt
      else if fpLess v (fpNegate (fpPow2 31)) then minInt
      else word_of_int (fpTrunc v))"

definition toInt64Sat :: "'a::len word \<Rightarrow> 64 word" where
  "toInt64Sat v =
     (if fpIsNan v then 0
      else if fpLe (fpPow2 63) v then maxInt
      else if fpLess v (fpNegate (fpPow2 63)) then minInt
      else word_of_int (fpTrunc v))"

text \<open>\<open>fcmpl\<close> and \<open>fcmpg\<close> differ in the answer for unordered operands.\<close>

definition fpCompare :: "32 word \<Rightarrow> 'a::len word \<Rightarrow> 'a word \<Rightarrow> 32 word" where
  "fpCompare unordered a b =
     (if fpIsNan a \<or> fpIsNan b then unordered else of_bool (fpLess b a) - of_bool (fpLess a b))"

text \<open>The host's floating point unit: the rounded operations on bit patterns. The widening of a
  float is exact, so only its answer on a NaN is left to the host.\<close>

record fpu =
  fadd :: "32 word \<Rightarrow> 32 word \<Rightarrow> 32 word"
  fsub :: "32 word \<Rightarrow> 32 word \<Rightarrow> 32 word"
  fmul :: "32 word \<Rightarrow> 32 word \<Rightarrow> 32 word"
  fdiv :: "32 word \<Rightarrow> 32 word \<Rightarrow> 32 word"
  fmod32 :: "32 word \<Rightarrow> 32 word \<Rightarrow> 32 word"
  dadd :: "64 word \<Rightarrow> 64 word \<Rightarrow> 64 word"
  dsub :: "64 word \<Rightarrow> 64 word \<Rightarrow> 64 word"
  dmul :: "64 word \<Rightarrow> 64 word \<Rightarrow> 64 word"
  ddiv :: "64 word \<Rightarrow> 64 word \<Rightarrow> 64 word"
  fmod64 :: "64 word \<Rightarrow> 64 word \<Rightarrow> 64 word"
  cvtI2f :: "32 word \<Rightarrow> 32 word"
  cvtI2d :: "32 word \<Rightarrow> 64 word"
  cvtL2f :: "64 word \<Rightarrow> 32 word"
  cvtL2d :: "64 word \<Rightarrow> 64 word"
  cvtD2f :: "64 word \<Rightarrow> 32 word"
  widenNan :: "32 word \<Rightarrow> 64 word"

text \<open>The position of the highest bit of a positive number.\<close>

function topBit :: "int \<Rightarrow> nat" where
  "topBit n = (if n \<le> 1 then 0 else Suc (topBit (n div 2)))"
  by pat_completeness auto
termination
  by (relation "measure nat") auto

declare topBit.simps [simp del]

definition widenMag :: "int \<Rightarrow> int" where
  "widenMag m =
     (if m = 0 then 0
      else if m < 2 ^ 23 then (int (topBit m) + 874) * 2 ^ 52 + (m - 2 ^ topBit m) * 2 ^ (52 - topBit m)
      else if m < 255 * 2 ^ 23 then 896 * 2 ^ 52 + m * 2 ^ 29
      else 2047 * 2 ^ 52)"

definition fpWiden :: "fpu \<Rightarrow> 32 word \<Rightarrow> 64 word" where
  "fpWiden u w =
     (if fpIsNan w then widenNan u w
      else word_of_int ((if fpNeg w then 2 ^ 63 else 0) + widenMag (fpMag w)))"

section \<open>Integer kernels as integer arithmetic\<close>

lemma wrap32_eq: "wrapAdd32 a b = a + b" "wrapSub32 a b = a - b" "wrapMul32 a b = a * b"
proof -
  have a: "(ucast (word_of_int x :: 64 word) :: 32 word) = word_of_int x" for x
    by (rule bit_word_eqI) (simp add: bit_simps)
  have s: "(scast v :: 64 word) = word_of_int (sint v)" "v = word_of_int (sint v)" for v :: "32 word"
    by simp_all
  show "wrapAdd32 a b = a + b"
    unfolding wrapAdd32_def s(1) of_int_add [symmetric] a by simp
  show "wrapSub32 a b = a - b"
    unfolding wrapSub32_def s(1) of_int_diff [symmetric] a by simp
  show "wrapMul32 a b = a * b"
    unfolding wrapMul32_def s(1) of_int_mult [symmetric] a by simp
qed

lemma sint_limits:
  "sint (minInt :: 32 word) = - (2 ^ 31)" "sint (maxInt :: 32 word) = 2 ^ 31 - 1"
  "sint (minInt :: 64 word) = - (2 ^ 63)" "sint (maxInt :: 64 word) = 2 ^ 63 - 1"
  by code_simp+

lemma sint_of_int:
  "- (2 ^ 31) \<le> x \<Longrightarrow> x < 2 ^ 31 \<Longrightarrow> sint (word_of_int x :: 32 word) = x"
  "- (2 ^ 63) \<le> x \<Longrightarrow> x < 2 ^ 63 \<Longrightarrow> sint (word_of_int x :: 64 word) = x"
  by (simp_all add: signed_of_int signed_take_bit_int_eq_self)

lemma sint_bounds:
  "- (2 ^ 31) \<le> sint (a :: 32 word)" "sint (a :: 32 word) < 2 ^ 31"
  "- (2 ^ 63) \<le> sint (b :: 64 word)" "sint (b :: 64 word) < 2 ^ 63"
  using sint_greater_eq [of a] sint_lt [of a] sint_greater_eq [of b] sint_lt [of b] by simp_all

text \<open>Division overflows only at the one pair the interpreter tests for.\<close>

lemma sdiv_range:
  fixes x y :: int
  assumes "- N \<le> x" "x < N" "y \<noteq> 0" "\<not> (x = - N \<and> y = -1)" "0 < N"
  shows "- N \<le> x sdiv y \<and> x sdiv y < N" "- N \<le> x smod y \<and> x smod y < N"
proof -
  define r where "r = \<bar>x\<bar> mod \<bar>y\<bar>"
  have r: "0 \<le> r" "r \<le> \<bar>x\<bar>" "r < \<bar>y\<bar>" "x smod y = sgn x * r"
    using assms(3) by (simp_all add: r_def zmod_le_nonneg_dividend signed_modulo_int_def)
  have d: "\<bar>x sdiv y\<bar> = \<bar>x\<bar> div \<bar>y\<bar>"
    using assms(3) by (auto simp: signed_divide_int_def abs_mult sgn_if pos_imp_zdiv_nonneg_iff)
  show "- N \<le> x smod y \<and> x smod y < N"
    using r assms by (cases "\<bar>y\<bar> = 1") (auto simp: sgn_if)
  show "- N \<le> x sdiv y \<and> x sdiv y < N"
  proof (cases "\<bar>y\<bar> = 1")
    case True
    then show ?thesis using assms by (auto simp: signed_divide_int_def sgn_if abs_if split: if_splits)
  next
    case False
    then have "\<bar>x\<bar> div \<bar>y\<bar> \<le> \<bar>x\<bar> div 2" using assms(3) by (intro zdiv_mono2) auto
    then have "\<bar>x sdiv y\<bar> < N" using d assms by auto
    then show ?thesis by auto
  qed
qed

lemma divTrunc_sint:
  fixes a :: "32 word" and c :: "64 word"
  shows "sint b \<noteq> 0 \<Longrightarrow> \<not> (a = minInt \<and> b = -1) \<Longrightarrow> sint (divTrunc a b) = sint a sdiv sint b"
    and "sint b \<noteq> 0 \<Longrightarrow> \<not> (a = minInt \<and> b = -1) \<Longrightarrow> sint (remTrunc a b) = sint a smod sint b"
    and "sint d \<noteq> 0 \<Longrightarrow> \<not> (c = minInt \<and> d = -1) \<Longrightarrow> sint (divTrunc c d) = sint c sdiv sint d"
    and "sint d \<noteq> 0 \<Longrightarrow> \<not> (c = minInt \<and> d = -1) \<Longrightarrow> sint (remTrunc c d) = sint c smod sint d"
proof -
  have e32: "sint a = - (2 ^ 31) \<and> sint b = -1 \<Longrightarrow> a = minInt \<and> b = -1"
    by (metis sint_limits(1) signed_minus_1 signed_word_eqI)
  have e64: "sint c = - (2 ^ 63) \<and> sint d = -1 \<Longrightarrow> c = minInt \<and> d = -1"
    by (metis sint_limits(3) signed_minus_1 signed_word_eqI)
  note r32 = sdiv_range [OF sint_bounds(1,2) [of a], of "sint b"]
  note r64 = sdiv_range [OF sint_bounds(3,4) [of c], of "sint d"]
  show "sint b \<noteq> 0 \<Longrightarrow> \<not> (a = minInt \<and> b = -1) \<Longrightarrow> sint (divTrunc a b) = sint a sdiv sint b"
    unfolding divTrunc_def using r32(1) e32 by (subst if_not_P) (blast, intro sint_of_int, auto)
  show "sint b \<noteq> 0 \<Longrightarrow> \<not> (a = minInt \<and> b = -1) \<Longrightarrow> sint (remTrunc a b) = sint a smod sint b"
    unfolding remTrunc_def using r32(2) e32 by (subst if_not_P) (blast, intro sint_of_int, auto)
  show "sint d \<noteq> 0 \<Longrightarrow> \<not> (c = minInt \<and> d = -1) \<Longrightarrow> sint (divTrunc c d) = sint c sdiv sint d"
    unfolding divTrunc_def using r64(1) e64 by (subst if_not_P) (blast, intro sint_of_int, auto)
  show "sint d \<noteq> 0 \<Longrightarrow> \<not> (c = minInt \<and> d = -1) \<Longrightarrow> sint (remTrunc c d) = sint c smod sint d"
    unfolding remTrunc_def using r64(2) e64 by (subst if_not_P) (blast, intro sint_of_int, auto)
qed

section \<open>Truncation and saturation\<close>

lemma scaleTrunc_ge: "2 ^ f \<le> m \<Longrightarrow> int k - int f \<le> e \<Longrightarrow> 2 ^ k \<le> scaleTrunc m e"
proof -
  assume m: "2 ^ f \<le> m" and e: "int k - int f \<le> e"
  show "2 ^ k \<le> scaleTrunc m e"
  proof (cases "0 \<le> e")
    case True
    have "(2::int) ^ k \<le> 2 ^ (f + nat e)" using e True by (intro power_increasing) auto
    also have "\<dots> \<le> m * 2 ^ nat e" using m by (simp add: power_add mult_right_mono)
    finally show ?thesis using True by (simp add: scaleTrunc_def)
  next
    case False
    then have "k + nat (- e) \<le> f" using e by linarith
    then have "(2::int) ^ (k + nat (- e)) \<le> m" using m power_increasing [of "k + nat (- e)" f "2::int"] by linarith
    then have "(2::int) ^ k * 2 ^ nat (- e) div 2 ^ nat (- e) \<le> m div 2 ^ nat (- e)"
      by (intro zdiv_mono1) (simp_all add: power_add)
    then show ?thesis using False by (simp add: scaleTrunc_def)
  qed
qed

lemma scaleTrunc_less: "m < 2 ^ Suc f \<Longrightarrow> e < int k - int f \<Longrightarrow> scaleTrunc m e < 2 ^ k"
proof -
  assume m: "m < 2 ^ Suc f" and e: "e < int k - int f"
  show "scaleTrunc m e < 2 ^ k"
  proof (cases "0 \<le> e")
    case True
    have "m * 2 ^ nat e < 2 ^ Suc f * 2 ^ nat e" using m by (intro mult_strict_right_mono) auto
    also have "\<dots> = (2::int) ^ (Suc f + nat e)" by (simp add: power_add)
    also have "\<dots> \<le> 2 ^ k" using e True by (intro power_increasing) auto
    finally show ?thesis using True by (simp add: scaleTrunc_def)
  next
    case False
    then have "Suc f \<le> k + nat (- e)" using e by linarith
    then have "m < 2 ^ (k + nat (- e))" using m power_increasing [of "Suc f" "k + nat (- e)" "2::int"] by linarith
    then have "m < 2 ^ k * 2 ^ nat (- e)" by (simp add: power_add)
    then have "m div 2 ^ nat (- e) < 2 ^ k" using int_le_div_iff [of "2 ^ nat (- e)" "2 ^ k" m] by simp
    then show ?thesis using False by (simp add: scaleTrunc_def)
  qed
qed

lemma fpMag_nonneg [simp]: "0 \<le> fpMag w"
  by (simp add: fpMag_def)

definition truncMag :: "'a::len word \<Rightarrow> int" where
  "truncMag w = scaleTrunc (fpSig w) (fpExp w - fpBias w - int (fracBits w))"

lemma truncMag_less:
  "truncMag (w :: 'a::len word) < 2 ^ k \<longleftrightarrow> fpMag w < (fpBias w + int k) * 2 ^ fracBits w"
proof -
  let ?f = "fracBits w" and ?B = "fpBias w" and ?m = "fpMag w"
  have B: "1 < ?B" by (simp add: fpBias_def)
  have sig: "0 \<le> fpSig w" "fpSig w < 2 ^ Suc ?f"
    using pos_mod_bound [of "2 ^ ?f" ?m] by (auto simp: fpSig_def intro: less_trans)
  show ?thesis
  proof (cases "?m < (?B + int k) * 2 ^ ?f")
    case True
    then have "?m div 2 ^ ?f < ?B + int k" using int_le_div_iff [of "2 ^ ?f" "?B + int k" ?m] by simp
    then have "fpExp w - ?B - int ?f < int k - int ?f" using B by (simp add: fpExp_def)
    then show ?thesis using True scaleTrunc_less [OF sig(2)] by (simp add: truncMag_def)
  next
    case False
    then have e: "?B + int k \<le> ?m div 2 ^ ?f" using int_le_div_iff [of "2 ^ ?f" "?B + int k" ?m] by simp
    then have "1 * 2 ^ ?f \<le> ?m"
      using B False by (intro order_trans [OF mult_right_mono [of 1 "?B + int k"]]) auto
    then have "2 ^ ?f \<le> fpSig w" by (simp add: fpSig_def)
    moreover have "int k - int ?f \<le> fpExp w - ?B - int ?f" using e by (simp add: fpExp_def)
    ultimately show ?thesis using False scaleTrunc_ge [of ?f "fpSig w" k] by (simp add: truncMag_def not_less)
  qed
qed

lemma scaleTrunc_pow2: "scaleTrunc (2 ^ f) (int k - int f) = 2 ^ k"
proof (cases "f \<le> k")
  case True
  then show ?thesis by (simp add: scaleTrunc_def nat_diff_distrib power_add [symmetric])
next
  case False
  then have "(2::int) ^ f = 2 ^ k * 2 ^ (f - k)" by (simp add: power_add [symmetric])
  then have "(2::int) ^ f div 2 ^ (f - k) = 2 ^ k" by simp
  then show ?thesis using False by (simp add: scaleTrunc_def nat_diff_distrib)
qed

lemma truncMag_pow2:
  fixes w :: "'a::len word"
  assumes "fpMag w = (fpBias w + int k) * 2 ^ fracBits w"
  shows "truncMag w = 2 ^ k"
proof -
  have B: "1 < fpBias w" by (simp add: fpBias_def)
  then have "\<not> fpMag w < 2 ^ fracBits w" using assms by simp
  then have "fpSig w = 2 ^ fracBits w" "fpExp w = fpBias w + int k"
    using B by (simp_all add: fpSig_def fpExp_def assms)
  then show ?thesis using scaleTrunc_pow2 [of "fracBits w" k] by (simp add: truncMag_def)
qed

lemma fpTrunc_mag: "fpTrunc w = (if fpNeg w then - truncMag w else truncMag w)"
  by (simp add: fpTrunc_def truncMag_def Let_def)

lemma truncMag_nonneg: "0 \<le> truncMag w"
proof -
  have "0 \<le> fpSig w" by (simp add: fpSig_def)
  then show ?thesis by (simp add: truncMag_def scaleTrunc_def pos_imp_zdiv_nonneg_iff)
qed

text \<open>The comparisons with the bounds, made in the value's own format, decide whether the truncated
  value fits.\<close>

lemma fp_bounds:
  fixes v :: "'a::len word"
  assumes "\<not> fpIsNan v" "\<not> fpIsNan p" "\<not> fpIsNan n"
    and p: "fpKey p = (fpBias v + int k) * 2 ^ fracBits v" and n: "fpKey n = - ((fpBias v + int k) * 2 ^ fracBits v)"
  shows "fpLe p v \<longleftrightarrow> 2 ^ k \<le> fpTrunc v"
    and "fpLess v n \<Longrightarrow> fpTrunc v \<le> - (2 ^ k)"
    and "\<not> fpLess v n \<Longrightarrow> - (2 ^ k) \<le> fpTrunc v"
proof -
  let ?M = "(fpBias v + int k) * 2 ^ fracBits v"
  have M: "0 < ?M" by (simp add: fpBias_def)
  have less: "truncMag v < 2 ^ k \<longleftrightarrow> fpMag v < ?M" by (rule truncMag_less)
  have le: "fpMag v \<le> ?M \<Longrightarrow> truncMag v \<le> 2 ^ k"
    using less truncMag_pow2 [of v k] by (cases "fpMag v = ?M") auto
  have pos: "0 < (2::int) ^ k" by simp
  then have neg: "\<not> 2 ^ k \<le> - truncMag v" "- (2 ^ k) \<le> truncMag v"
    using truncMag_nonneg [of v] by linarith+
  show "fpLe p v \<longleftrightarrow> 2 ^ k \<le> fpTrunc v"
    using assms(1,2) p M less neg fpMag_nonneg [of v]
    unfolding fpLe_def fpTrunc_mag fpKey_def [of v] by (cases "fpNeg v") (auto simp: not_less simp del: fpMag_nonneg)
  show "fpTrunc v \<le> - (2 ^ k)" if "fpLess v n"
    using that n M less fpMag_nonneg [of v] unfolding fpLess_def fpTrunc_mag fpKey_def [of v]
    by (cases "fpNeg v") (auto simp del: fpMag_nonneg)
  show "- (2 ^ k) \<le> fpTrunc v" if "\<not> fpLess v n"
    using that assms(1,3) n le neg unfolding fpLess_def fpTrunc_mag fpKey_def [of v]
    by (cases "fpNeg v") (auto simp del: fpMag_nonneg)
qed

lemma pow2_consts:
  "fpKey (fpPow2 31 :: 32 word) = (127 + 31) * 2 ^ 23" "fpKey (fpPow2 63 :: 32 word) = (127 + 63) * 2 ^ 23"
  "fpKey (fpPow2 31 :: 64 word) = (1023 + 31) * 2 ^ 52" "fpKey (fpPow2 63 :: 64 word) = (1023 + 63) * 2 ^ 52"
  "fpKey (fpNegate (fpPow2 31) :: 32 word) = - ((127 + 31) * 2 ^ 23)"
  "fpKey (fpNegate (fpPow2 63) :: 32 word) = - ((127 + 63) * 2 ^ 23)"
  "fpKey (fpNegate (fpPow2 31) :: 64 word) = - ((1023 + 31) * 2 ^ 52)"
  "fpKey (fpNegate (fpPow2 63) :: 64 word) = - ((1023 + 63) * 2 ^ 52)"
  "\<not> fpIsNan (fpPow2 31 :: 32 word)" "\<not> fpIsNan (fpPow2 63 :: 32 word)"
  "\<not> fpIsNan (fpPow2 31 :: 64 word)" "\<not> fpIsNan (fpPow2 63 :: 64 word)"
  "\<not> fpIsNan (fpNegate (fpPow2 31) :: 32 word)" "\<not> fpIsNan (fpNegate (fpPow2 63) :: 32 word)"
  "\<not> fpIsNan (fpNegate (fpPow2 31) :: 64 word)" "\<not> fpIsNan (fpNegate (fpPow2 63) :: 64 word)"
  by code_simp+

text \<open>JLS 5.1.3: a NaN becomes zero, every other value the nearest representable integer to its
  truncation.\<close>

definition satInt :: "nat \<Rightarrow> 'a::len word \<Rightarrow> int" where
  "satInt k v = (if fpIsNan v then 0 else max (- (2 ^ k)) (min (2 ^ k - 1) (fpTrunc v)))"

lemma toIntSat_clamp:
  fixes f :: "32 word" and d :: "64 word"
  shows "sint (toInt32Sat f) = satInt 31 f" "sint (toInt64Sat f) = satInt 63 f"
    and "sint (toInt32Sat d) = satInt 31 d" "sint (toInt64Sat d) = satInt 63 d"
proof -
  have b: "fpBias f = 127" "fracBits f = 23" "fpBias d = 1023" "fracBits d = 52"
    by (simp_all add: fpBias_def fracBits_def)
  note c = b pow2_consts of_nat_numeral not_False_eq_True
  have f31: "fpLe (fpPow2 31) f \<longleftrightarrow> 2 ^ 31 \<le> fpTrunc f"
    "fpLess f (fpNegate (fpPow2 31)) \<Longrightarrow> fpTrunc f \<le> - (2 ^ 31)"
    "\<not> fpLess f (fpNegate (fpPow2 31)) \<Longrightarrow> - (2 ^ 31) \<le> fpTrunc f" if "\<not> fpIsNan f"
    by (rule fp_bounds [OF that, of "fpPow2 31" "fpNegate (fpPow2 31)"]; (assumption | simp only: c))+
  have f63: "fpLe (fpPow2 63) f \<longleftrightarrow> 2 ^ 63 \<le> fpTrunc f"
    "fpLess f (fpNegate (fpPow2 63)) \<Longrightarrow> fpTrunc f \<le> - (2 ^ 63)"
    "\<not> fpLess f (fpNegate (fpPow2 63)) \<Longrightarrow> - (2 ^ 63) \<le> fpTrunc f" if "\<not> fpIsNan f"
    by (rule fp_bounds [OF that, of "fpPow2 63" "fpNegate (fpPow2 63)"]; (assumption | simp only: c))+
  have d31: "fpLe (fpPow2 31) d \<longleftrightarrow> 2 ^ 31 \<le> fpTrunc d"
    "fpLess d (fpNegate (fpPow2 31)) \<Longrightarrow> fpTrunc d \<le> - (2 ^ 31)"
    "\<not> fpLess d (fpNegate (fpPow2 31)) \<Longrightarrow> - (2 ^ 31) \<le> fpTrunc d" if "\<not> fpIsNan d"
    by (rule fp_bounds [OF that, of "fpPow2 31" "fpNegate (fpPow2 31)"]; (assumption | simp only: c))+
  have d63: "fpLe (fpPow2 63) d \<longleftrightarrow> 2 ^ 63 \<le> fpTrunc d"
    "fpLess d (fpNegate (fpPow2 63)) \<Longrightarrow> fpTrunc d \<le> - (2 ^ 63)"
    "\<not> fpLess d (fpNegate (fpPow2 63)) \<Longrightarrow> - (2 ^ 63) \<le> fpTrunc d" if "\<not> fpIsNan d"
    by (rule fp_bounds [OF that, of "fpPow2 63" "fpNegate (fpPow2 63)"]; (assumption | simp only: c))+
  show "sint (toInt32Sat f) = satInt 31 f"
    using f31 sint_of_int(1) [of "fpTrunc f"] by (auto simp: toInt32Sat_def satInt_def sint_limits)
  show "sint (toInt64Sat f) = satInt 63 f"
    using f63 sint_of_int(2) [of "fpTrunc f"] by (auto simp: toInt64Sat_def satInt_def sint_limits)
  show "sint (toInt32Sat d) = satInt 31 d"
    using d31 sint_of_int(1) [of "fpTrunc d"] by (auto simp: toInt32Sat_def satInt_def sint_limits)
  show "sint (toInt64Sat d) = satInt 63 d"
    using d63 sint_of_int(2) [of "fpTrunc d"] by (auto simp: toInt64Sat_def satInt_def sint_limits)
qed

section \<open>The widening of a float is exact\<close>

lemma topBit: "0 < m \<Longrightarrow> 2 ^ topBit m \<le> m \<and> m < 2 ^ Suc (topBit m)"
proof (induction m rule: topBit.induct)
  case (1 n)
  show ?case
  proof (cases "n \<le> 1")
    case True
    then show ?thesis using 1(2) by (subst (1 2) topBit.simps) simp
  next
    case False
    then have "2 ^ topBit (n div 2) \<le> n div 2 \<and> n div 2 < 2 ^ Suc (topBit (n div 2))"
      using 1(1) by simp
    then show ?thesis using False by (subst (1 2) topBit.simps) (simp, linarith)
  qed
qed

lemma topBit_mono: "0 < m \<Longrightarrow> m \<le> n \<Longrightarrow> topBit m \<le> topBit n"
proof -
  assume "0 < m" "m \<le> n"
  then have "(2::int) ^ topBit m < 2 ^ Suc (topBit n)" using topBit [of m] topBit [of n] by linarith
  then show ?thesis by (simp only: power_strict_increasing_iff less_Suc_eq_le)
qed

lemma widenMag_subnormal:
  assumes "0 < m" "m < 2 ^ 23"
  shows "(int (topBit m) + 874) * 2 ^ 52 \<le> widenMag m" "widenMag m < (int (topBit m) + 875) * 2 ^ 52"
    and "topBit m \<le> 22"
proof -
  let ?k = "topBit m"
  have "(2::int) ^ ?k < 2 ^ 23" using topBit [OF assms(1)] assms(2) by linarith
  then have "?k < 23" by (rule power_less_imp_less_exp [rotated]) simp
  then show k: "?k \<le> 22" by simp
  have eq: "widenMag m = (int ?k + 874) * 2 ^ 52 + (m - 2 ^ ?k) * 2 ^ (52 - ?k)"
    using assms by (simp add: widenMag_def)
  have "0 \<le> (m - 2 ^ ?k) * 2 ^ (52 - ?k)" using topBit [OF assms(1)] by simp
  then show "(int ?k + 874) * 2 ^ 52 \<le> widenMag m" unfolding eq by simp
  have "(m - 2 ^ ?k) * 2 ^ (52 - ?k) < 2 ^ ?k * 2 ^ (52 - ?k)"
    using topBit [OF assms(1)] by (intro mult_strict_right_mono) auto
  also have "\<dots> = (2::int) ^ 52" using k by (simp add: power_add [symmetric])
  finally show "widenMag m < (int ?k + 875) * 2 ^ 52" unfolding eq by (simp add: algebra_simps)
qed

lemma widenMag_mono:
  assumes "0 \<le> m" "m < n" "n \<le> 255 * 2 ^ 23"
  shows "widenMag m < widenMag n"
proof -
  consider (z) "m = 0" "n < 2 ^ 23" | (zn) "m = 0" "2 ^ 23 \<le> n" | (ss) "0 < m" "n < 2 ^ 23"
    | (sn) "0 < m" "m < 2 ^ 23" "2 ^ 23 \<le> n" | (nn) "2 ^ 23 \<le> m"
    using assms by fastforce
  then show ?thesis
  proof cases
    case z
    have "0 < (int (topBit n) + 874) * (2::int) ^ 52" by simp
    then have "0 < widenMag n" using widenMag_subnormal(1) [of n] z assms by linarith
    then show ?thesis using z by (simp add: widenMag_def)
  next
    case zn
    then show ?thesis using assms by (auto simp: widenMag_def)
  next
    case ss
    show ?thesis
    proof (cases "topBit m = topBit n")
      case True
      have "m - 2 ^ topBit n < n - 2 ^ topBit n" using assms by simp
      then have "(m - 2 ^ topBit n) * 2 ^ (52 - topBit n) < (n - 2 ^ topBit n) * 2 ^ (52 - topBit n)"
        by (intro mult_strict_right_mono) auto
      then show ?thesis using True ss assms by (simp add: widenMag_def)
    next
      case False
      then have "topBit m < topBit n" using topBit_mono [of m n] ss assms by simp
      then have "(int (topBit m) + 875) * (2::int) ^ 52 \<le> (int (topBit n) + 874) * 2 ^ 52"
        by (intro mult_right_mono) auto
      then show ?thesis
        using widenMag_subnormal(1) [of n] widenMag_subnormal(2) [of m] ss assms by linarith
    qed
  next
    case sn
    have "(int (topBit m) + 875) * (2::int) ^ 52 \<le> 897 * 2 ^ 52"
      using widenMag_subnormal(3) [of m] sn by (intro mult_right_mono) auto
    then have "widenMag m < 897 * 2 ^ 52" using widenMag_subnormal(2) [of m] sn by linarith
    moreover have "897 * 2 ^ 52 \<le> widenMag n" using sn assms by (auto simp: widenMag_def)
    ultimately show ?thesis by linarith
  next
    case nn
    then show ?thesis using assms by (auto simp: widenMag_def)
  qed
qed

lemma fpMag_le: "\<not> fpIsNan w \<Longrightarrow> fpMag w \<le> fpInfMag w"
  by (simp add: fpIsNan_def)

lemma signMag_word:
  assumes "0 \<le> m" "m < 2 ^ 63"
  shows "fpMag (word_of_int ((if s then 2 ^ 63 else 0) + m) :: 64 word) = m"
    and "fpNeg (word_of_int ((if s then 2 ^ 63 else 0) + m) :: 64 word) = s"
proof -
  let ?x = "(if s then 2 ^ 63 else 0) + m"
  have g: "uint (word_of_int y :: 64 word) = y" if "0 \<le> y" "y < 2 ^ 64" for y
    using that by (simp add: uint_word_of_int)
  have u: "uint (word_of_int ?x :: 64 word) = ?x" by (rule g) (use assms in auto)
  show "fpMag (word_of_int ?x :: 64 word) = m" unfolding fpMag_def u using assms by simp
  have "bit (word_of_int y :: 64 word) 63 = bit y 63" for y by (simp add: bit_simps)
  then have "bit (word_of_int ?x :: 64 word) 63 = bit ?x 63" .
  also have "\<dots> = odd (?x div 2 ^ 63)" by (simp add: bit_iff_odd)
  also have "?x div 2 ^ 63 = (if s then 1 else 0)" using assms by (simp add: div_add_self1)
  finally show "fpNeg (word_of_int ?x :: 64 word) = s" by (simp add: fpNeg_def)
qed

lemma widen_fields:
  assumes "\<not> fpIsNan w"
  shows "fpMag (fpWiden u w) = widenMag (fpMag w)" "fpNeg (fpWiden u w) = fpNeg w" "\<not> fpIsNan (fpWiden u w)"
proof -
  have m: "0 \<le> fpMag w" "fpMag w \<le> 255 * 2 ^ 23"
    using fpMag_le [OF assms] by (simp_all add: fpInfMag_def fpBias_def fracBits_def)
  have top: "widenMag (255 * 2 ^ 23) = 2047 * 2 ^ 52" "widenMag 0 = 0" by (simp_all add: widenMag_def)
  have w: "0 \<le> widenMag (fpMag w)" "widenMag (fpMag w) \<le> 2047 * 2 ^ 52"
    using widenMag_mono [of 0 "fpMag w"] widenMag_mono [of "fpMag w" "255 * 2 ^ 23"] m top
    by (cases "fpMag w = 0"; cases "fpMag w = 255 * 2 ^ 23"; force)+
  show "fpMag (fpWiden u w) = widenMag (fpMag w)" "fpNeg (fpWiden u w) = fpNeg w"
    using signMag_word [of "widenMag (fpMag w)" "fpNeg w"] w assms by (simp_all add: fpWiden_def)
  then show "\<not> fpIsNan (fpWiden u w)" using w by (simp add: fpIsNan_def fpInfMag_def fpBias_def fracBits_def)
qed

lemma widen_less:
  assumes "\<not> fpIsNan a" "\<not> fpIsNan b"
  shows "fpLess (fpWiden u a) (fpWiden u b) \<longleftrightarrow> fpLess a b"
proof -
  have m: "fpMag a \<le> 255 * 2 ^ 23" "fpMag b \<le> 255 * 2 ^ 23"
    using fpMag_le [OF assms(1)] fpMag_le [OF assms(2)] by (simp_all add: fpInfMag_def fpBias_def fracBits_def)
  have iff: "widenMag (fpMag x) < widenMag (fpMag y) \<longleftrightarrow> fpMag x < fpMag y"
    if "fpMag x \<le> 255 * 2 ^ 23" "fpMag y \<le> 255 * 2 ^ 23" for x y :: "32 word"
    using widenMag_mono [of "fpMag x" "fpMag y"] widenMag_mono [of "fpMag y" "fpMag x"] that
    by (cases "fpMag x" "fpMag y" rule: linorder_cases) auto
  have pos: "0 \<le> widenMag (fpMag x)" "0 < widenMag (fpMag x) \<longleftrightarrow> 0 < fpMag x"
    if "fpMag x \<le> 255 * 2 ^ 23" for x :: "32 word"
  proof -
    have z: "widenMag 0 = 0" by (simp add: widenMag_def)
    have "fpMag x = 0 \<or> 0 < fpMag x" using fpMag_nonneg [of x] by linarith
    then have "fpMag x = 0 \<or> 0 < fpMag x \<and> 0 < widenMag (fpMag x)"
      using widenMag_mono [of 0 "fpMag x"] that z by auto
    then show "0 \<le> widenMag (fpMag x)" "0 < widenMag (fpMag x) \<longleftrightarrow> 0 < fpMag x" using z by auto
  qed
  have sgn: "(- x < y) = (0 < x \<or> 0 < y)" "\<not> x < - y" if "0 \<le> x" "0 \<le> y" for x y :: int
    using that by auto
  note p = pos [OF m(1)] pos [OF m(2)] sgn [OF fpMag_nonneg [of a] fpMag_nonneg [of b]]
  show ?thesis
    unfolding fpLess_def fpKey_def widen_fields [OF assms(1)] widen_fields [OF assms(2)]
    using iff [OF m] iff [OF m(2,1)] p sgn [OF p(1,3)]
    by (cases "fpNeg a"; cases "fpNeg b"; simp add: assms widen_fields)
qed

lemma scaleTrunc_shift: "scaleTrunc (m * 2 ^ j) (e - int j) = scaleTrunc m e"
proof -
  consider (up) "int j \<le> e" | (mid) "0 \<le> e" "e < int j" | (down) "e < 0" by linarith
  then show ?thesis
  proof cases
    case up
    then have "j + nat (e - int j) = nat e" by linarith
    then have "(2::int) ^ j * 2 ^ nat (e - int j) = 2 ^ nat e" by (simp flip: power_add)
    then show ?thesis using up by (simp add: scaleTrunc_def mult.assoc)
  next
    case mid
    then have "j = nat e + nat (int j - e)" by linarith
    then have "(2::int) ^ j = 2 ^ nat e * 2 ^ nat (int j - e)" by (simp flip: power_add)
    then show ?thesis using mid by (simp add: scaleTrunc_def flip: mult.assoc)
  next
    case down
    then have "nat (int j - e) = j + nat (- e)" by linarith
    then show ?thesis using down by (simp add: scaleTrunc_def power_add div_mult2_eq')
  qed
qed

lemma truncMag_widen:
  assumes "\<not> fpIsNan w" "fpMag w < 255 * 2 ^ 23"
  shows "truncMag (fpWiden u w) = truncMag w"
proof -
  have c: "fpBias w = 127" "fracBits w = 23" "fpBias (fpWiden u w) = 1023" "fracBits (fpWiden u w) = 52"
    by (simp_all add: fpBias_def fracBits_def)
  note f = widen_fields [OF assms(1)]
  show ?thesis
  proof (cases "fpMag w < 2 ^ 23")
    case True
    then have "fpMag (fpWiden u w) < 1023 * 2 ^ 52"
      using widenMag_mono [of "fpMag w" "2 ^ 23"] f(1) [of u] by (simp add: widenMag_def)
    then have "truncMag (fpWiden u w) < 2 ^ 0" "truncMag w < 2 ^ 0"
      using True by (simp_all only: truncMag_less c) simp_all
    then show ?thesis using truncMag_nonneg [of w] truncMag_nonneg [of "fpWiden u w"] by simp
  next
    case False
    let ?m = "fpMag w"
    have eq: "fpMag (fpWiden u w) = 896 * 2 ^ 52 + ?m * 2 ^ 29" using False assms f(1) by (simp add: widenMag_def)
    have spl: "896 * 2 ^ 52 + ?m * 2 ^ 29 = (896 + ?m div 2 ^ 23) * 2 ^ 52 + ?m mod 2 ^ 23 * 2 ^ 29"
    proof -
      have "896 * 2 ^ 52 + x * 2 ^ 29 = (896 + q) * 2 ^ 52 + y * 2 ^ 29" if "q * 2 ^ 23 + y = x" for x q y :: int
        unfolding that [symmetric] by simp
      then show ?thesis by this (rule div_mult_mod_eq)
    qed
    have r: "0 \<le> ?m mod 2 ^ 23 * 2 ^ 29" "?m mod 2 ^ 23 * 2 ^ 29 < 2 ^ 52" by simp_all
    have dm: "(q * 2 ^ 52 + x) div 2 ^ 52 = q" "(q * 2 ^ 52 + x) mod 2 ^ 52 = x" if "0 \<le> x" "x < 2 ^ 52" for q x :: int
      using that by simp_all
    have "1 \<le> ?m div 2 ^ 23" using False int_le_div_iff [of "2 ^ 23" 1 ?m] by simp
    then have e: "fpExp w = ?m div 2 ^ 23" "fpExp (fpWiden u w) = 896 + ?m div 2 ^ 23"
      unfolding fpExp_def c eq spl dm [OF r] by simp_all
    have g: "\<not> fpMag (fpWiden u w) < 2 ^ 52" unfolding eq using False by simp
    have s: "fpSig w = ?m mod 2 ^ 23 + 2 ^ 23" "fpSig (fpWiden u w) = (?m mod 2 ^ 23 + 2 ^ 23) * 2 ^ 29"
      unfolding fpSig_def c if_not_P [OF g] if_not_P [OF False]
      unfolding eq spl dm [OF r] by simp_all
    show ?thesis
      unfolding truncMag_def e s c using scaleTrunc_shift [of "?m mod 2 ^ 23 + 2 ^ 23" 29 "?m div 2 ^ 23 - 150"] by simp
  qed
qed

lemma satInt_widen:
  assumes "\<not> fpIsNan w" "k \<le> 63"
  shows "satInt k (fpWiden u w) = satInt k w"
proof (cases "fpMag w < 255 * 2 ^ 23")
  case True
  then show ?thesis using truncMag_widen [OF assms(1)] widen_fields [OF assms(1)] assms(1)
    by (simp add: satInt_def fpTrunc_mag)
next
  case False
  have "255 * 2 ^ 23 = fpMag w" using False fpMag_le [OF assms(1)] by (simp add: fpInfMag_def fpBias_def fracBits_def)
  then have m: "fpMag w = 255 * 2 ^ 23" "fpMag (fpWiden u w) = 2047 * 2 ^ 52"
    using widen_fields [OF assms(1)] by (simp_all add: widenMag_def)
  have "\<not> truncMag w < 2 ^ 63" "\<not> truncMag (fpWiden u w) < 2 ^ 63"
    by (simp_all only: truncMag_less m) (simp_all add: fpBias_def fracBits_def)
  moreover have "(2::int) ^ k \<le> 2 ^ 63" using assms(2) by (intro power_increasing) auto
  ultimately have "2 ^ k \<le> truncMag w" "2 ^ k \<le> truncMag (fpWiden u w)" by linarith+
  then show ?thesis using widen_fields [OF assms(1)] assms(1) by (simp add: satInt_def fpTrunc_mag)
qed

section \<open>Properties\<close>


end
