(* ===== verification/Interp_Value.thy ===== *)
theory Interp_Value
  imports Rbc_Type Java_Num
begin

text \<open>
  Slot values of the T0 interpreter (\<open>include/b2/interp/Value.h\<close>). A value is a type tag and a
  union; the tag and the active member go together, so a value is one constructor per tag. Reading a
  member of the union that is not the active one is undefined in C++, and an accessor returns
  \<open>None\<close> there. The default member initialiser makes \<open>i\<close> the active member of an untyped and of
  a null value, with value 0.
\<close>

datatype jvalue =
    VBottom
  | VInt "32 word"
  | VLong "64 word"
  | VFloat "32 word"
  | VDouble "64 word"
  | VNull
  | VRef nat

fun v_type :: "jvalue \<Rightarrow> rtype" where
  "v_type VBottom = RT_Bottom"
| "v_type (VInt _) = RT_Int"
| "v_type (VLong _) = RT_Long"
| "v_type (VFloat _) = RT_Float"
| "v_type (VDouble _) = RT_Double"
| "v_type VNull = RT_Null"
| "v_type (VRef _) = RT_Ref"

fun as_i :: "jvalue \<Rightarrow> 32 word option" where
  "as_i (VInt w) = Some w"
| "as_i VNull = Some 0"
| "as_i VBottom = Some 0"
| "as_i _ = None"

fun as_l :: "jvalue \<Rightarrow> 64 word option" where
  "as_l (VLong w) = Some w"
| "as_l _ = None"

fun as_f :: "jvalue \<Rightarrow> 32 word option" where
  "as_f (VFloat w) = Some w"
| "as_f _ = None"

fun as_d :: "jvalue \<Rightarrow> 64 word option" where
  "as_d (VDouble w) = Some w"
| "as_d _ = None"

fun as_obj :: "jvalue \<Rightarrow> nat option" where
  "as_obj (VRef r) = Some r"
| "as_obj _ = None"

definition isNull :: "jvalue \<Rightarrow> bool" where
  "isNull v \<longleftrightarrow> v_type v = RT_Null"

definition isRef :: "jvalue \<Rightarrow> bool" where
  "isRef v \<longleftrightarrow> v_type v = RT_Ref"

definition isRefLike :: "jvalue \<Rightarrow> bool" where
  "isRefLike v \<longleftrightarrow> v_type v = RT_Ref \<or> v_type v = RT_Null"

definition sameObject :: "jvalue \<Rightarrow> jvalue \<Rightarrow> bool" where
  "sameObject a b =
     (if isNull a \<or> isNull b then isNull a \<and> isNull b
      else isRef a \<and> isRef b \<and> as_obj a = as_obj b)"

lemma isNull_iff [simp]: "isNull v \<longleftrightarrow> v = VNull"
  by (cases v) (simp_all add: isNull_def)

lemma isRef_iff [simp]: "isRef v \<longleftrightarrow> (\<exists>r. v = VRef r)"
  by (cases v) (simp_all add: isRef_def)

text \<open>On reference-like values the test is equality.\<close>

lemma sameObject_eq: "isRefLike a \<Longrightarrow> isRefLike b \<Longrightarrow> sameObject a b \<longleftrightarrow> a = b"
  by (cases a; cases b) (auto simp: sameObject_def isRefLike_def)

text \<open>The zero of a field or element type (\<open>zeroOfField\<close> in Interp.cpp, \<open>zeroOf\<close> in Heap.cpp).\<close>

fun zeroOfField :: "rtype \<Rightarrow> jvalue" where
  "zeroOfField RT_Int = VInt 0"
| "zeroOfField RT_Long = VLong 0"
| "zeroOfField RT_Float = VFloat 0"
| "zeroOfField RT_Double = VDouble 0"
| "zeroOfField RT_Null = VNull"
| "zeroOfField RT_Ref = VNull"
| "zeroOfField RT_Bottom = VBottom"

fun zeroOf :: "rtype \<Rightarrow> jvalue" where
  "zeroOf RT_Int = VInt 0"
| "zeroOf RT_Long = VLong 0"
| "zeroOf RT_Float = VFloat 0"
| "zeroOf RT_Double = VDouble 0"
| "zeroOf RT_Ref = VNull"
| "zeroOf RT_Null = VNull"
| "zeroOf RT_Bottom = VBottom"

text \<open>A value conforms to a verification type. Nothing is known of an untyped slot; a reference slot
  may hold null.\<close>

definition conf :: "jvalue \<Rightarrow> rtype \<Rightarrow> bool" where
  "conf v t \<longleftrightarrow> t = RT_Bottom \<or> isAssignable (v_type v) t"

lemma conf_cases:
  "conf v RT_Int \<longleftrightarrow> (\<exists>w. v = VInt w)" "conf v RT_Long \<longleftrightarrow> (\<exists>w. v = VLong w)"
  "conf v RT_Float \<longleftrightarrow> (\<exists>w. v = VFloat w)" "conf v RT_Double \<longleftrightarrow> (\<exists>w. v = VDouble w)"
  "conf v RT_Null \<longleftrightarrow> v = VNull" "conf v RT_Ref \<longleftrightarrow> v = VNull \<or> (\<exists>r. v = VRef r)"
  "conf v RT_Bottom"
  by (cases v; simp add: conf_def isAssignable_def)+

lemma conf_mono: "conf v s \<Longrightarrow> isAssignable s t \<Longrightarrow> conf v t"
  by (auto simp: conf_def isAssignable_def split: if_split_asm)

lemma conf_self: "conf v (v_type v)"
  by (simp add: conf_def isAssignable_def)

end
