(* ===== verification/Interp_Local.thy ===== *)
theory Interp_Local
  imports Interp_Value Rbc_Switch
begin

text \<open>
  The instructions of the T0 dispatch loop that touch one frame only (\<open>compiler/interp/src/Interp.cpp\<close>):
  constants, locals, moves, integer and floating point arithmetic, comparisons, conversions, branches
  and switches, with the fetch guards in front of them. The loop does not re-check what the verifier
  proved: register, slot and constant indices go to vectors unchecked, and an operand is read as the
  union member its opcode names. An access outside a vector and a read of an inactive member are
  undefined; the model's step is \<open>None\<close> there.

  A step ends in a frame that the loop continues with, and whether a backward branch was counted in
  the method's profile, or in a Java exception of a given class and message.
\<close>

section \<open>Frames\<close>

record frame =
  fr_method :: rmethod
  fr_pc :: nat
  fr_locals :: "jvalue list"
  fr_regs :: "jvalue list"
  fr_monitors :: "nat list"
  fr_pendingException :: nat
  fr_callerPc :: nat

datatype outcome =
    Continue frame bool
  | Raise string string

definition kClsArithmetic :: string where "kClsArithmetic = ''java/lang/ArithmeticException''"
definition kClsInternalError :: string where "kClsInternalError = ''java/lang/InternalError''"
definition kMsgDivByZero :: string where "kMsgDivByZero = ''/ by zero''"

section \<open>Reading and writing\<close>

definition reg :: "frame \<Rightarrow> nat \<Rightarrow> jvalue option" where
  "reg f k = (if k < length (fr_regs f) then Some (fr_regs f ! k) else None)"

definition slot :: "frame \<Rightarrow> nat \<Rightarrow> jvalue option" where
  "slot f k = (if k < length (fr_locals f) then Some (fr_locals f ! k) else None)"

definition cpEntry :: "frame \<Rightarrow> nat \<Rightarrow> const option" where
  "cpEntry f k = (if k < length (cp (fr_method f)) then Some (cp (fr_method f) ! k) else None)"

definition skip :: "frame \<Rightarrow> outcome option" where
  "skip f = Some (Continue (f\<lparr>fr_pc := fr_pc f + 1\<rparr>) False)"

definition setReg :: "frame \<Rightarrow> nat \<Rightarrow> jvalue \<Rightarrow> outcome option" where
  "setReg f k v =
     (if k < length (fr_regs f)
      then Some (Continue (f\<lparr>fr_regs := (fr_regs f)[k := v], fr_pc := fr_pc f + 1\<rparr>) False) else None)"

definition setSlot :: "frame \<Rightarrow> nat \<Rightarrow> jvalue \<Rightarrow> outcome option" where
  "setSlot f k v =
     (if k < length (fr_locals f)
      then Some (Continue (f\<lparr>fr_locals := (fr_locals f)[k := v], fr_pc := fr_pc f + 1\<rparr>) False) else None)"

text \<open>A taken branch; a target before the branch counts as a back edge.\<close>

definition jump :: "frame \<Rightarrow> nat \<Rightarrow> outcome option" where
  "jump f t = Some (Continue (f\<lparr>fr_pc := t\<rparr>) (t < fr_pc f))"

definition branch :: "frame \<Rightarrow> ins \<Rightarrow> bool \<Rightarrow> outcome option" where
  "branch f i c = (if c then jump f (ins_imm i) else skip f)"

definition unary :: "(jvalue \<Rightarrow> 'x option) \<Rightarrow> ('x \<Rightarrow> jvalue) \<Rightarrow> frame \<Rightarrow> ins \<Rightarrow> outcome option" where
  "unary rd g f i = Option.bind (Option.bind (reg f (ins_a i)) rd) (\<lambda>x. setReg f (ins_dst i) (g x))"

definition binary ::
  "(jvalue \<Rightarrow> 'x option) \<Rightarrow> (jvalue \<Rightarrow> 'y option) \<Rightarrow> ('x \<Rightarrow> 'y \<Rightarrow> jvalue) \<Rightarrow> frame \<Rightarrow> ins \<Rightarrow> outcome option" where
  "binary rda rdb g f i =
     Option.bind (Option.bind (reg f (ins_a i)) rda) (\<lambda>x.
       Option.bind (Option.bind (reg f (ins_b i)) rdb) (\<lambda>y. setReg f (ins_dst i) (g x y)))"

text \<open>Division and remainder: a zero divisor raises before anything is written.\<close>

definition divRem ::
  "(jvalue \<Rightarrow> 'a::len word option) \<Rightarrow> ('a word \<Rightarrow> 'a word \<Rightarrow> jvalue) \<Rightarrow> frame \<Rightarrow> ins \<Rightarrow> outcome option" where
  "divRem rd g f i =
     Option.bind (Option.bind (reg f (ins_a i)) rd) (\<lambda>x.
       Option.bind (Option.bind (reg f (ins_b i)) rd) (\<lambda>y.
         if y = 0 then Some (Raise kClsArithmetic kMsgDivByZero) else setReg f (ins_dst i) (g x y)))"

definition branchI :: "(32 word \<Rightarrow> bool) \<Rightarrow> frame \<Rightarrow> ins \<Rightarrow> outcome option" where
  "branchI c f i = Option.bind (Option.bind (reg f (ins_a i)) as_i) (\<lambda>x. branch f i (c x))"

definition branchII :: "(32 word \<Rightarrow> 32 word \<Rightarrow> bool) \<Rightarrow> frame \<Rightarrow> ins \<Rightarrow> outcome option" where
  "branchII c f i =
     Option.bind (Option.bind (reg f (ins_a i)) as_i) (\<lambda>x.
       Option.bind (Option.bind (reg f (ins_b i)) as_i) (\<lambda>y. branch f i (c x y)))"

definition branchV :: "(jvalue \<Rightarrow> bool) \<Rightarrow> frame \<Rightarrow> ins \<Rightarrow> outcome option" where
  "branchV c f i = Option.bind (reg f (ins_a i)) (\<lambda>x. branch f i (c x))"

definition branchVV :: "(jvalue \<Rightarrow> jvalue \<Rightarrow> bool) \<Rightarrow> frame \<Rightarrow> ins \<Rightarrow> outcome option" where
  "branchVV c f i =
     Option.bind (reg f (ins_a i)) (\<lambda>x. Option.bind (reg f (ins_b i)) (\<lambda>y. branch f i (c x y)))"

section \<open>The instructions, section by section\<close>

definition constStep :: "frame \<Rightarrow> ins \<Rightarrow> outcome option" where
  "constStep f i =
     (let v = ins_op i in
      if v = Op_AconstNull then setReg f (ins_dst i) VNull
      else if v = Op_Iconst then setReg f (ins_dst i) (VInt (word_of_nat (ins_imm i)))
      else if v = Op_Fconst then setReg f (ins_dst i) (VFloat (word_of_nat (ins_imm i)))
      else if v = Op_Lconst then
        Option.bind (cpEntry f (ins_imm i)) (\<lambda>c. setReg f (ins_dst i) (VLong (word_of_int (c_i64 c))))
      else Option.bind (cpEntry f (ins_imm i)) (\<lambda>c. setReg f (ins_dst i) (VDouble (c_f64 c))))"

definition loadStep :: "frame \<Rightarrow> ins \<Rightarrow> outcome option" where
  "loadStep f i = Option.bind (slot f (ins_imm i)) (setReg f (ins_dst i))"

definition storeStep :: "frame \<Rightarrow> ins \<Rightarrow> outcome option" where
  "storeStep f i = Option.bind (reg f (ins_a i)) (setSlot f (ins_imm i))"

definition moveStep :: "frame \<Rightarrow> ins \<Rightarrow> outcome option" where
  "moveStep f i = Option.bind (reg f (ins_a i)) (setReg f (ins_dst i))"

definition iincStep :: "frame \<Rightarrow> ins \<Rightarrow> outcome option" where
  "iincStep f i =
     Option.bind (Option.bind (reg f (ins_dst i)) as_i)
       (\<lambda>a. setReg f (ins_dst i) (VInt (wrapAdd32 a (word_of_nat (ins_imm i)))))"

definition intStep :: "frame \<Rightarrow> ins \<Rightarrow> outcome option" where
  "intStep f i =
     (let v = ins_op i in
      if v = Op_Iadd then binary as_i as_i (\<lambda>a b. VInt (wrapAdd32 a b)) f i
      else if v = Op_Isub then binary as_i as_i (\<lambda>a b. VInt (wrapSub32 a b)) f i
      else if v = Op_Imul then binary as_i as_i (\<lambda>a b. VInt (wrapMul32 a b)) f i
      else if v = Op_Idiv then divRem as_i (\<lambda>a b. VInt (divTrunc a b)) f i
      else if v = Op_Irem then divRem as_i (\<lambda>a b. VInt (remTrunc a b)) f i
      else if v = Op_Ineg then unary as_i (\<lambda>a. VInt (neg32 a)) f i
      else if v = Op_Ishl then binary as_i as_i (\<lambda>a b. VInt (shl a b)) f i
      else if v = Op_Ishr then binary as_i as_i (\<lambda>a b. VInt (shr a b)) f i
      else if v = Op_Iushr then binary as_i as_i (\<lambda>a b. VInt (ushr a b)) f i
      else if v = Op_Iand then binary as_i as_i (\<lambda>a b. VInt (and a b)) f i
      else if v = Op_Ior then binary as_i as_i (\<lambda>a b. VInt (or a b)) f i
      else if v = Op_Ixor then binary as_i as_i (\<lambda>a b. VInt (xor a b)) f i
      else iincStep f i)"

definition longStep :: "frame \<Rightarrow> ins \<Rightarrow> outcome option" where
  "longStep f i =
     (let v = ins_op i in
      if v = Op_Ladd then binary as_l as_l (\<lambda>a b. VLong (wrapAdd64 a b)) f i
      else if v = Op_Lsub then binary as_l as_l (\<lambda>a b. VLong (wrapSub64 a b)) f i
      else if v = Op_Lmul then binary as_l as_l (\<lambda>a b. VLong (wrapMul64 a b)) f i
      else if v = Op_Ldiv then divRem as_l (\<lambda>a b. VLong (divTrunc a b)) f i
      else if v = Op_Lrem then divRem as_l (\<lambda>a b. VLong (remTrunc a b)) f i
      else if v = Op_Lneg then unary as_l (\<lambda>a. VLong (neg64 a)) f i
      else if v = Op_Lshl then binary as_l as_i (\<lambda>a b. VLong (shl a b)) f i
      else if v = Op_Lshr then binary as_l as_i (\<lambda>a b. VLong (shr a b)) f i
      else if v = Op_Lushr then binary as_l as_i (\<lambda>a b. VLong (ushr a b)) f i
      else if v = Op_Land then binary as_l as_l (\<lambda>a b. VLong (and a b)) f i
      else if v = Op_Lor then binary as_l as_l (\<lambda>a b. VLong (or a b)) f i
      else binary as_l as_l (\<lambda>a b. VLong (xor a b)) f i)"

definition floatStep :: "fpu \<Rightarrow> frame \<Rightarrow> ins \<Rightarrow> outcome option" where
  "floatStep u f i =
     (let v = ins_op i in
      if v = Op_Fadd then binary as_f as_f (\<lambda>a b. VFloat (fadd u a b)) f i
      else if v = Op_Fsub then binary as_f as_f (\<lambda>a b. VFloat (fsub u a b)) f i
      else if v = Op_Fmul then binary as_f as_f (\<lambda>a b. VFloat (fmul u a b)) f i
      else if v = Op_Fdiv then binary as_f as_f (\<lambda>a b. VFloat (fdiv u a b)) f i
      else if v = Op_Frem then binary as_f as_f (\<lambda>a b. VFloat (fmod32 u a b)) f i
      else unary as_f (\<lambda>a. VFloat (fpNegate a)) f i)"

definition doubleStep :: "fpu \<Rightarrow> frame \<Rightarrow> ins \<Rightarrow> outcome option" where
  "doubleStep u f i =
     (let v = ins_op i in
      if v = Op_Dadd then binary as_d as_d (\<lambda>a b. VDouble (dadd u a b)) f i
      else if v = Op_Dsub then binary as_d as_d (\<lambda>a b. VDouble (dsub u a b)) f i
      else if v = Op_Dmul then binary as_d as_d (\<lambda>a b. VDouble (dmul u a b)) f i
      else if v = Op_Ddiv then binary as_d as_d (\<lambda>a b. VDouble (ddiv u a b)) f i
      else if v = Op_Drem then binary as_d as_d (\<lambda>a b. VDouble (fmod64 u a b)) f i
      else unary as_d (\<lambda>a. VDouble (fpNegate a)) f i)"

definition cmpStep :: "frame \<Rightarrow> ins \<Rightarrow> outcome option" where
  "cmpStep f i =
     (let v = ins_op i in
      if v = Op_Icmp then binary as_i as_i (\<lambda>a b. VInt (cmpSigned a b)) f i
      else if v = Op_Lcmp then binary as_l as_l (\<lambda>a b. VInt (cmpSigned a b)) f i
      else if v = Op_Fcmpl then binary as_f as_f (\<lambda>a b. VInt (fpCompare (-1) a b)) f i
      else if v = Op_Fcmpg then binary as_f as_f (\<lambda>a b. VInt (fpCompare 1 a b)) f i
      else if v = Op_Dcmpl then binary as_d as_d (\<lambda>a b. VInt (fpCompare (-1) a b)) f i
      else binary as_d as_d (\<lambda>a b. VInt (fpCompare 1 a b)) f i)"

definition convStep :: "fpu \<Rightarrow> frame \<Rightarrow> ins \<Rightarrow> outcome option" where
  "convStep u f i =
     (let v = ins_op i in
      if v = Op_I2l then unary as_i (\<lambda>a. VLong (scast a)) f i
      else if v = Op_I2f then unary as_i (\<lambda>a. VFloat (cvtI2f u a)) f i
      else if v = Op_I2d then unary as_i (\<lambda>a. VDouble (cvtI2d u a)) f i
      else if v = Op_L2i then unary as_l (\<lambda>a. VInt (ucast a)) f i
      else if v = Op_L2f then unary as_l (\<lambda>a. VFloat (cvtL2f u a)) f i
      else if v = Op_L2d then unary as_l (\<lambda>a. VDouble (cvtL2d u a)) f i
      else if v = Op_F2i then unary as_f (\<lambda>a. VInt (toInt32Sat a)) f i
      else if v = Op_F2l then unary as_f (\<lambda>a. VLong (toInt64Sat a)) f i
      else if v = Op_F2d then unary as_f (\<lambda>a. VDouble (fpWiden u a)) f i
      else if v = Op_D2i then unary as_d (\<lambda>a. VInt (toInt32Sat a)) f i
      else if v = Op_D2l then unary as_d (\<lambda>a. VLong (toInt64Sat a)) f i
      else if v = Op_D2f then unary as_d (\<lambda>a. VFloat (cvtD2f u a)) f i
      else if v = Op_I2b then unary as_i (\<lambda>a. VInt (narrow8 a)) f i
      else if v = Op_I2c then unary as_i (\<lambda>a. VInt (narrowU16 a)) f i
      else unary as_i (\<lambda>a. VInt (narrow16 a)) f i)"

definition branchStep :: "frame \<Rightarrow> ins \<Rightarrow> outcome option" where
  "branchStep f i =
     (let v = ins_op i in
      if v = Op_Goto then jump f (ins_imm i)
      else if v = Op_Ifeq then branchI (\<lambda>a. a = 0) f i
      else if v = Op_Ifne then branchI (\<lambda>a. a \<noteq> 0) f i
      else if v = Op_Iflt then branchI (\<lambda>a. sint a < 0) f i
      else if v = Op_Ifge then branchI (\<lambda>a. sint a \<ge> 0) f i
      else if v = Op_Ifgt then branchI (\<lambda>a. sint a > 0) f i
      else if v = Op_Ifle then branchI (\<lambda>a. sint a \<le> 0) f i
      else if v = Op_Ifnull then branchV isNull f i
      else if v = Op_Ifnonnull then branchV (\<lambda>a. \<not> isNull a) f i
      else if v = Op_IfIcmpeq then branchII (\<lambda>a b. a = b) f i
      else if v = Op_IfIcmpne then branchII (\<lambda>a b. a \<noteq> b) f i
      else if v = Op_IfIcmplt then branchII (\<lambda>a b. sint a < sint b) f i
      else if v = Op_IfIcmpge then branchII (\<lambda>a b. sint a \<ge> sint b) f i
      else if v = Op_IfIcmpgt then branchII (\<lambda>a b. sint a > sint b) f i
      else if v = Op_IfIcmple then branchII (\<lambda>a b. sint a \<le> sint b) f i
      else if v = Op_IfAcmpeq then branchVV sameObject f i
      else branchVV (\<lambda>a b. \<not> sameObject a b) f i)"

definition switchStep :: "frame \<Rightarrow> ins \<Rightarrow> outcome option" where
  "switchStep f i =
     Option.bind (cpEntry f (ins_imm i)) (\<lambda>c.
       Option.bind (Option.bind (reg f (ins_a i)) as_i) (\<lambda>sel.
         Option.bind (switchTarget (fr_method f) i (sint sel)) (jump f)))"

text \<open>The opcodes above: everything before the field section but \<open>ldc\<close>.\<close>

definition isLocalOp :: "op \<Rightarrow> bool" where
  "isLocalOp v \<longleftrightarrow> v \<le> Op_Lookupswitch \<and> v \<noteq> Op_Ldc"

definition localStep :: "fpu \<Rightarrow> frame \<Rightarrow> ins \<Rightarrow> outcome option" where
  "localStep u f i =
     (let v = ins_op i in
      if v \<le> Op_SafepointPoll then skip f
      else if v \<le> Op_Dconst then constStep f i
      else if v \<le> Op_Aload then loadStep f i
      else if v \<le> Op_Astore then storeStep f i
      else if v \<le> Op_Amove then moveStep f i
      else if v \<le> Op_Iinc then intStep f i
      else if v \<le> Op_Lxor then longStep f i
      else if v \<le> Op_Fneg then floatStep u f i
      else if v \<le> Op_Dneg then doubleStep u f i
      else if v \<le> Op_Dcmpg then cmpStep f i
      else if v \<le> Op_I2s then convStep u f i
      else if v \<le> Op_IfAcmpne then branchStep f i
      else switchStep f i)"

text \<open>Fetch: a pc outside the code and an opcode outside the table become Java errors.\<close>

definition fetchStep :: "fpu \<Rightarrow> frame \<Rightarrow> outcome option" where
  "fetchStep u f =
     (if fr_pc f \<ge> length (code (fr_method f))
      then Some (Raise kClsInternalError ''pc out of range (corrupt frame)'')
      else
        (let i = code (fr_method f) ! fr_pc f
         in if ins_op i \<ge> opCount then Some (Raise kClsInternalError ''unreachable opcode dispatched'')
            else localStep u f i))"

text \<open>The handler part of the exception algorithm (\<open>throwException\<close>): the handlers of the frame's
  method in table order. \<open>isA\<close> answers whether the class named by a catch type accepts the
  exception object.\<close>

definition handlerMatches :: "(string \<Rightarrow> bool) \<Rightarrow> frame \<Rightarrow> exception_handler \<Rightarrow> bool" where
  "handlerMatches isA f h =
     (if fr_pc f < h_start h \<or> fr_pc f \<ge> h_end h then False
      else if h_catchType h \<ge> 0 then isA (c_str (cp (fr_method f) ! nat (h_catchType h)))
      else True)"

definition enterHandler :: "nat \<Rightarrow> exception_handler \<Rightarrow> frame \<Rightarrow> frame" where
  "enterHandler exc h f =
     (let n = numRegs (fr_method f) in
      f\<lparr>fr_pc := h_handler h,
        fr_regs := (if n = 0 then [] else (replicate n VBottom)[0 := VRef exc]),
        fr_pendingException := 0\<rparr>)"

definition catchInFrame :: "(string \<Rightarrow> bool) \<Rightarrow> nat \<Rightarrow> frame \<Rightarrow> frame option" where
  "catchInFrame isA exc f =
     map_option (\<lambda>h. enterHandler exc h f) (find (handlerMatches isA f) (handlers (fr_method f)))"

end
