(* ===== verification/Interp_Heap.thy ===== *)
theory Interp_Heap
  imports Interp_Value
begin

text \<open>
  The object store of the interpreter (\<open>include/b2/interp/Heap.h\<close>, \<open>compiler/interp/src/Heap.cpp\<close>):
  a vector of objects whose identities are 1-based indices, lazily growing instance slots, array
  elements, reentrant monitors and interned strings.

  Identities are \<open>std::uint32_t\<close>, and the casts from the vector's size are written out. The
  growth of an instance to \<open>slot + 1\<close> slots also wraps; an access outside the vector is undefined
  and has the value \<open>None\<close>.
\<close>

section \<open>State\<close>

datatype obj_kind = Instance | Array

record heap_obj =
  ho_kind :: obj_kind
  ho_cls :: nat
  ho_str :: string
  ho_slots :: "jvalue list"
  ho_elem :: rtype
  ho_length :: nat
  ho_owner :: nat
  ho_count :: nat

text \<open>The interning table is a hash map; the order of the list is its iteration order, which the
  code reads once (\<open>begin()\<close> in \<open>isString\<close>).\<close>

record heap =
  objs :: "heap_obj list"
  interned :: "(string \<times> nat) list"

definition emptyHeap :: heap where
  "emptyHeap = \<lparr>objs = [], interned = []\<rparr>"

definition newObj :: heap_obj where
  "newObj = \<lparr>ho_kind = Instance, ho_cls = 0, ho_str = [], ho_slots = [], ho_elem = RT_Bottom,
     ho_length = 0, ho_owner = 0, ho_count = 0\<rparr>"

definition kOwnerThread :: nat where
  "kOwnerThread = 1"

section \<open>Operations\<close>

definition obj :: "heap \<Rightarrow> nat \<Rightarrow> heap_obj option" where
  "obj h r = (if r = 0 \<or> r > length (objs h) then None else Some (objs h ! (r - 1)))"

definition setObj :: "nat \<Rightarrow> heap_obj \<Rightarrow> heap \<Rightarrow> heap" where
  "setObj r ob h = h\<lparr>objs := (objs h)[r - 1 := ob]\<rparr>"

definition pushObj :: "heap_obj \<Rightarrow> heap \<Rightarrow> heap \<times> nat" where
  "pushObj ob h = (let h' = h\<lparr>objs := objs h @ [ob]\<rparr> in (h', u32 (length (objs h'))))"

definition allocInstance :: "nat \<Rightarrow> nat \<Rightarrow> heap \<Rightarrow> heap \<times> nat" where
  "allocInstance cls slotHint h =
     pushObj (newObj\<lparr>ho_kind := Instance, ho_cls := cls, ho_slots := replicate slotHint VBottom\<rparr>) h"

definition allocArray :: "nat \<Rightarrow> rtype \<Rightarrow> nat \<Rightarrow> heap \<Rightarrow> heap \<times> nat" where
  "allocArray arrayCls elem len h =
     pushObj (newObj\<lparr>ho_kind := Array, ho_cls := arrayCls, ho_elem := elem, ho_length := len,
       ho_slots := replicate len (zeroOf elem)\<rparr>) h"

definition allocString :: "string \<Rightarrow> nat \<Rightarrow> heap \<Rightarrow> heap \<times> nat" where
  "allocString utf8 stringCls h =
     pushObj (newObj\<lparr>ho_kind := Instance, ho_cls := stringCls, ho_str := utf8\<rparr>) h"

definition isInstance :: "heap \<Rightarrow> nat \<Rightarrow> bool" where
  "isInstance h r = (case obj h r of None \<Rightarrow> False | Some ob \<Rightarrow> ho_kind ob = Instance)"

definition isArray :: "heap \<Rightarrow> nat \<Rightarrow> bool" where
  "isArray h r = (case obj h r of None \<Rightarrow> False | Some ob \<Rightarrow> ho_kind ob = Array)"

definition isString :: "heap \<Rightarrow> nat \<Rightarrow> bool" where
  "isString h r =
     (case obj h r of
        None \<Rightarrow> False
      | Some ob \<Rightarrow>
          if ho_kind ob \<noteq> Instance \<or> interned h = [] then False
          else (case obj h (snd (hd (interned h))) of
                  None \<Rightarrow> False
                | Some anchor \<Rightarrow> ho_cls anchor = ho_cls ob))"

definition classOf :: "heap \<Rightarrow> nat \<Rightarrow> nat" where
  "classOf h r = (case obj h r of None \<Rightarrow> 0 | Some ob \<Rightarrow> ho_cls ob)"

definition arrayLength :: "heap \<Rightarrow> nat \<Rightarrow> nat" where
  "arrayLength h r =
     (case obj h r of None \<Rightarrow> 0 | Some ob \<Rightarrow> if ho_kind ob = Array then ho_length ob else 0)"

text \<open>\<open>std::vector::resize\<close> with a fill value.\<close>

definition resize :: "nat \<Rightarrow> 'a \<Rightarrow> 'a list \<Rightarrow> 'a list" where
  "resize n x xs = take n xs @ replicate (n - length xs) x"

definition growSlots :: "nat \<Rightarrow> heap_obj \<Rightarrow> heap_obj" where
  "growSlots slot ob =
     (if slot \<ge> length (ho_slots ob) then ob\<lparr>ho_slots := resize (u32 (slot + 1)) VBottom (ho_slots ob)\<rparr>
      else ob)"

definition loadField :: "nat \<Rightarrow> nat \<Rightarrow> heap \<Rightarrow> (heap \<times> jvalue) option" where
  "loadField r slot h =
     (case obj h r of
        None \<Rightarrow> Some (h, VBottom)
      | Some ob \<Rightarrow>
          if ho_kind ob \<noteq> Instance then Some (h, VBottom)
          else let ob' = growSlots slot ob in
            if slot < length (ho_slots ob') then Some (setObj r ob' h, ho_slots ob' ! slot) else None)"

definition storeField :: "nat \<Rightarrow> nat \<Rightarrow> jvalue \<Rightarrow> heap \<Rightarrow> (heap \<times> bool) option" where
  "storeField r slot v h =
     (case obj h r of
        None \<Rightarrow> Some (h, False)
      | Some ob \<Rightarrow>
          if ho_kind ob \<noteq> Instance then Some (h, False)
          else let ob' = growSlots slot ob in
            if slot < length (ho_slots ob')
            then Some (setObj r (ob'\<lparr>ho_slots := (ho_slots ob')[slot := v]\<rparr>) h, True) else None)"

definition loadElem :: "heap \<Rightarrow> nat \<Rightarrow> nat \<Rightarrow> jvalue" where
  "loadElem h r index =
     (case obj h r of
        None \<Rightarrow> VBottom
      | Some ob \<Rightarrow>
          if ho_kind ob \<noteq> Array then VBottom
          else if index \<ge> length (ho_slots ob) then VBottom
          else ho_slots ob ! index)"

definition storeElem :: "nat \<Rightarrow> nat \<Rightarrow> jvalue \<Rightarrow> heap \<Rightarrow> heap \<times> bool" where
  "storeElem r index v h =
     (case obj h r of
        None \<Rightarrow> (h, False)
      | Some ob \<Rightarrow>
          if ho_kind ob \<noteq> Array then (h, False)
          else if index \<ge> length (ho_slots ob) then (h, False)
          else (setObj r (ob\<lparr>ho_slots := (ho_slots ob)[index := v]\<rparr>) h, True))"

definition stringOf :: "heap \<Rightarrow> nat \<Rightarrow> string" where
  "stringOf h r = (if \<not> isString h r then [] else case obj h r of None \<Rightarrow> [] | Some ob \<Rightarrow> ho_str ob)"

datatype mon_fail = MF_None | MF_Null | MF_NotOwner

definition monitorenter :: "nat \<Rightarrow> heap \<Rightarrow> heap \<times> mon_fail" where
  "monitorenter r h =
     (case obj h r of
        None \<Rightarrow> (h, MF_Null)
      | Some ob \<Rightarrow>
          if ho_owner ob = 0
          then (setObj r (ob\<lparr>ho_owner := kOwnerThread, ho_count := 1\<rparr>) h, MF_None)
          else if ho_owner ob = kOwnerThread
          then (setObj r (ob\<lparr>ho_count := u32 (ho_count ob + 1)\<rparr>) h, MF_None)
          else (h, MF_NotOwner))"

definition monitorexit :: "nat \<Rightarrow> heap \<Rightarrow> heap \<times> mon_fail" where
  "monitorexit r h =
     (case obj h r of
        None \<Rightarrow> (h, MF_Null)
      | Some ob \<Rightarrow>
          if ho_owner ob \<noteq> kOwnerThread \<or> ho_count ob = 0 then (h, MF_NotOwner)
          else let ob' = ob\<lparr>ho_count := ho_count ob - 1\<rparr> in
            (setObj r (if ho_count ob' = 0 then ob'\<lparr>ho_owner := 0\<rparr> else ob') h, MF_None))"

definition internString :: "string \<Rightarrow> nat \<Rightarrow> heap \<Rightarrow> heap \<times> nat" where
  "internString utf8 stringCls h =
     (case map_of (interned h) utf8 of
        Some r \<Rightarrow> (h, r)
      | None \<Rightarrow> let (h', r) = allocString utf8 stringCls h
                in (h'\<lparr>interned := interned h' @ [(utf8, r)]\<rparr>, r))"

end
