(* ===== verification/Interp_Runtime.thy ===== *)
theory Interp_Runtime
  imports Interp_Heap Rbc_Program
begin

text \<open>
  The reference runtime services behind the interpreter (\<open>include/b2/interp/Runtime.h\<close>,
  \<open>compiler/interp/src/Runtime.cpp\<close>): the class registry with the builtin exception hierarchy, lazy
  field resolution, statics, method resolution, the print builtins, allocation, exception objects and
  profile counters. The registry of names is one hash map with two kinds of entries, told apart by the
  parity of the value; it is an association list here. Ids are \<open>std::uint32_t\<close>, with the casts written
  out. \<open>std::to_chars\<close> (the digits of a float or double) is a parameter.
\<close>

section \<open>State\<close>

record class_info =
  ci_name :: string
  ci_superclass :: nat
  ci_initialized :: bool
  ci_fields :: "nat list"
  ci_isException :: bool

record method_profile =
  mp_invocations :: nat
  mp_backedges :: nat

record runtime =
  rt_program :: rprogram
  rt_heap :: heap
  rt_classes :: "class_info list"
  rt_byName :: "(string \<times> nat) list"
  rt_fieldIndex :: "(nat \<times> nat) list"
  rt_statics :: "jvalue list"
  rt_profiles :: "method_profile list"
  rt_classObjects :: "nat list"
  rt_systemOut :: nat
  rt_systemErr :: nat
  rt_objectClass :: nat
  rt_stringClass :: nat
  rt_throwableClass :: nat
  rt_classClass :: nat
  rt_out :: string
  rt_err :: string

record resolved_field =
  rf_id :: nat
  rf_cls :: nat
  rf_slot :: nat
  rf_type :: rtype

record to_chars =
  digits32 :: "32 word \<Rightarrow> string"
  digits64 :: "64 word \<Rightarrow> string"

definition emptyClass :: class_info where
  "emptyClass = \<lparr>ci_name = [], ci_superclass = 0, ci_initialized = False, ci_fields = [], ci_isException = False\<rparr>"

section \<open>Numbers as text\<close>

definition digitChar :: "nat \<Rightarrow> char" where
  "digitChar d = char_of (48 + d)"

function showNat :: "nat \<Rightarrow> string" where
  "showNat n = (if n < 10 then [digitChar n] else showNat (n div 10) @ [digitChar (n mod 10)])"
  by pat_completeness auto
termination
  by (relation "measure id") auto

declare showNat.simps [simp del]

definition showInt :: "int \<Rightarrow> string" where
  "showInt k = (if k < 0 then CHR ''-'' # showNat (nat (- k)) else showNat (nat k))"

record shortest_decimal =
  sd_negative :: bool
  sd_digits :: string
  sd_exponent :: int
  sd_ok :: bool

definition isDigit :: "char \<Rightarrow> bool" where
  "isDigit c \<longleftrightarrow> 48 \<le> (of_char c :: nat) \<and> (of_char c :: nat) \<le> 57"

definition digitVal :: "char \<Rightarrow> int" where
  "digitVal c = int (of_char c) - 48"

text \<open>The exponent loop; \<open>None\<close> on a character that is not a digit.\<close>

fun parseExp :: "int \<Rightarrow> string \<Rightarrow> int option" where
  "parseExp e [] = Some e"
| "parseExp e (c # cs) = (if isDigit c then parseExp (e * 10 + digitVal c) cs else None)"

fun parseMantissa :: "shortest_decimal \<Rightarrow> string \<Rightarrow> shortest_decimal" where
  "parseMantissa out [] = out"
| "parseMantissa out (c # cs) =
     (if c = CHR ''e'' \<or> c = CHR ''E'' then
        (let (neg, rest) = (case cs of
               [] \<Rightarrow> (False, [])
             | d # ds \<Rightarrow> if d = CHR ''+'' \<or> d = CHR ''-'' then (d = CHR ''-'', ds) else (False, cs))
         in case parseExp 0 rest of
              None \<Rightarrow> out
            | Some e \<Rightarrow> out\<lparr>sd_exponent := (if neg then - e else e), sd_ok := sd_digits out \<noteq> []\<rparr>)
      else if isDigit c then
        (if length (sd_digits out) \<ge> 32 then out
         else parseMantissa (out\<lparr>sd_digits := sd_digits out @ [c]\<rparr>) cs)
      else if c \<noteq> CHR ''.'' then out
      else parseMantissa out cs)"

definition parseShortestScientific :: "string \<Rightarrow> shortest_decimal" where
  "parseShortestScientific s =
     (let start = \<lparr>sd_negative = False, sd_digits = [], sd_exponent = 0, sd_ok = False\<rparr>
      in case s of
           [] \<Rightarrow> start
         | c # cs \<Rightarrow> if c = CHR ''-'' then parseMantissa (start\<lparr>sd_negative := True\<rparr>) cs
                     else parseMantissa start s)"

definition layoutDecimal :: "shortest_decimal \<Rightarrow> string" where
  "layoutDecimal sd =
     (let d = sd_digits sd; e = sd_exponent sd;
          body =
            (if -3 \<le> e \<and> e < 7 then
               (if e \<ge> 0 then
                  (let n = nat e + 1 in
                   if length d \<le> n then d @ replicate (n - length d) (CHR ''0'') @ ''.0''
                   else take n d @ ''.'' @ drop n d)
                else ''0.'' @ replicate (nat (- e) - 1) (CHR ''0'') @ d)
             else
               [hd d] @ ''.'' @ (if length d > 1 then tl d else ''0'') @ ''E'' @ showInt e)
      in (if sd_negative sd then ''-'' else []) @ body)"

definition javaFloatStringImpl :: "('a::len word \<Rightarrow> string) \<Rightarrow> 'a word \<Rightarrow> string" where
  "javaFloatStringImpl toChars v =
     (if fpIsNan v then ''NaN''
      else if fpIsInf v then (if fpLess v 0 then ''-Infinity'' else ''Infinity'')
      else if fpMag v = 0 then (if fpNeg v then ''-0.0'' else ''0.0'')
      else let sd = parseShortestScientific (toChars v) in
        if \<not> sd_ok sd then ''NaN'' else layoutDecimal sd)"

section \<open>Class registry\<close>

definition isFieldRegistryEntry :: "nat \<Rightarrow> bool" where
  "isFieldRegistryEntry v \<longleftrightarrow> odd v"

definition fieldRegistryKey :: "string \<Rightarrow> string \<Rightarrow> string" where
  "fieldRegistryKey cls name = CHR 0x01 # cls @ CHR 0x01 # name"

text \<open>\<open>operator[]\<close> assignment and \<open>insert_or_assign\<close> of the map.\<close>

definition assign :: "string \<Rightarrow> nat \<Rightarrow> (string \<times> nat) list \<Rightarrow> (string \<times> nat) list" where
  "assign k v al = (k, v) # filter (\<lambda>e. fst e \<noteq> k) al"

definition addClass :: "string \<Rightarrow> nat \<Rightarrow> bool \<Rightarrow> runtime \<Rightarrow> runtime \<times> nat" where
  "addClass name super isExc rt =
     (let cid = u32 (length (rt_classes rt));
          ci = \<lparr>ci_name = name, ci_superclass = super, ci_initialized = False, ci_fields = [], ci_isException = isExc\<rparr>
      in (rt\<lparr>rt_byName := (if map_of (rt_byName rt) name = None then rt_byName rt @ [(name, u32 (cid * 2))] else rt_byName rt),
             rt_classes := rt_classes rt @ [ci]\<rparr>, cid))"

definition registerBuiltinClasses :: "runtime \<Rightarrow> runtime" where
  "registerBuiltinClasses rt =
     (let (rt, objectC) = addClass ''java/lang/Object'' 0 False rt;
          (rt, stringC) = addClass ''java/lang/String'' objectC False rt;
          (rt, classC) = addClass ''java/lang/Class'' objectC False rt;
          (rt, _) = addClass ''java/io/PrintStream'' objectC False rt;
          (rt, _) = addClass ''java/lang/System'' objectC False rt;
          (rt, throwableC) = addClass ''java/lang/Throwable'' objectC True rt;
          (rt, exceptionC) = addClass ''java/lang/Exception'' throwableC True rt;
          (rt, errorC) = addClass ''java/lang/Error'' throwableC True rt;
          (rt, runtimeExC) = addClass ''java/lang/RuntimeException'' exceptionC True rt;
          (rt, _) = addClass ''java/lang/ArithmeticException'' runtimeExC True rt;
          (rt, _) = addClass ''java/lang/NullPointerException'' runtimeExC True rt;
          (rt, _) = addClass ''java/lang/ArrayStoreException'' runtimeExC True rt;
          (rt, _) = addClass ''java/lang/ClassCastException'' runtimeExC True rt;
          (rt, _) = addClass ''java/lang/IllegalMonitorStateException'' runtimeExC True rt;
          (rt, indexC) = addClass ''java/lang/IndexOutOfBoundsException'' runtimeExC True rt;
          (rt, _) = addClass ''java/lang/NegativeArraySizeException'' runtimeExC True rt;
          (rt, _) = addClass ''java/lang/UnsupportedOperationException'' runtimeExC True rt;
          (rt, _) = addClass ''java/lang/ArrayIndexOutOfBoundsException'' indexC True rt;
          (rt, vmErrorC) = addClass ''java/lang/VirtualMachineError'' errorC True rt;
          (rt, _) = addClass ''java/lang/InternalError'' vmErrorC True rt;
          (rt, _) = addClass ''java/lang/StackOverflowError'' vmErrorC True rt;
          (rt, linkageC) = addClass ''java/lang/LinkageError'' errorC True rt;
          (rt, _) = addClass ''java/lang/NoSuchMethodError'' linkageC True rt;
          (rt, _) = addClass ''java/lang/BootstrapMethodError'' linkageC True rt
      in rt\<lparr>rt_objectClass := objectC, rt_stringClass := stringC, rt_classClass := classC, rt_throwableClass := throwableC\<rparr>)"

definition findClass :: "runtime \<Rightarrow> string \<Rightarrow> nat" where
  "findClass rt name =
     (case map_of (rt_byName rt) name of
        Some v \<Rightarrow> if \<not> isFieldRegistryEntry v then v div 2 else u32 (length (rt_classes rt))
      | None \<Rightarrow> u32 (length (rt_classes rt)))"

definition newRuntime :: "rprogram \<Rightarrow> runtime" where
  "newRuntime p =
     (let rt0 = \<lparr>rt_program = p, rt_heap = emptyHeap, rt_classes = [], rt_byName = [], rt_fieldIndex = [], rt_statics = [],
            rt_profiles = [], rt_classObjects = [], rt_systemOut = 0, rt_systemErr = 0, rt_objectClass = 0, rt_stringClass = 0,
            rt_throwableClass = 0, rt_classClass = 0, rt_out = [], rt_err = []\<rparr>;
          rt1 = registerBuiltinClasses rt0;
          ps = findClass rt1 ''java/io/PrintStream'';
          (h1, so) = allocInstance ps 0 (rt_heap rt1);
          (h2, se) = allocInstance ps 0 h1
      in rt1\<lparr>rt_heap := h2, rt_systemOut := so, rt_systemErr := se,
             rt_profiles := replicate (length (methods p)) \<lparr>mp_invocations = 0, mp_backedges = 0\<rparr>\<rparr>)"

definition classId :: "string \<Rightarrow> runtime \<Rightarrow> runtime \<times> nat" where
  "classId name rt =
     (case map_of (rt_byName rt) name of
        Some v \<Rightarrow> if \<not> isFieldRegistryEntry v then (rt, v div 2)
          else (let cid = u32 (length (rt_classes rt)) in
                (rt\<lparr>rt_byName := assign name (u32 (cid * 2)) (rt_byName rt),
                    rt_classes := rt_classes rt @ [emptyClass\<lparr>ci_name := name\<rparr>]\<rparr>, cid))
      | None \<Rightarrow>
          (let cid = u32 (length (rt_classes rt)) in
           (rt\<lparr>rt_byName := assign name (u32 (cid * 2)) (rt_byName rt),
               rt_classes := rt_classes rt @ [emptyClass\<lparr>ci_name := name\<rparr>]\<rparr>, cid)))"

definition classInfo :: "runtime \<Rightarrow> nat \<Rightarrow> class_info" where
  "classInfo rt c = (if c \<ge> length (rt_classes rt) then emptyClass else rt_classes rt ! c)"

section \<open>Initialisation, assignability, names\<close>

definition needsInit :: "runtime \<Rightarrow> nat \<Rightarrow> bool" where
  "needsInit rt c =
     (if c \<ge> length (rt_classes rt) \<or> ci_initialized (rt_classes rt ! c) then False
      else if ci_name (rt_classes rt ! c) \<noteq> className (rt_program rt) then False
      else find_method (rt_program rt) ''<clinit>'' ''()V'' \<noteq> None)"

text \<open>The index of the first method with a name and a descriptor (\<open>m - methods.data()\<close>).\<close>

fun methodIndexOf :: "string \<Rightarrow> string \<Rightarrow> rmethod list \<Rightarrow> nat option" where
  "methodIndexOf n d [] = None"
| "methodIndexOf n d (m # ms) =
     (if m_name m = n \<and> m_descriptor m = d then Some 0 else map_option Suc (methodIndexOf n d ms))"

definition findClinit :: "runtime \<Rightarrow> nat \<Rightarrow> nat" where
  "findClinit rt c =
     (if \<not> needsInit rt c then 0
      else case methodIndexOf ''<clinit>'' ''()V'' (methods (rt_program rt)) of None \<Rightarrow> 0 | Some k \<Rightarrow> u32 k)"

definition markInitialized :: "nat \<Rightarrow> runtime \<Rightarrow> runtime" where
  "markInitialized c rt =
     (if c < length (rt_classes rt)
      then rt\<lparr>rt_classes := (rt_classes rt)[c := (rt_classes rt ! c)\<lparr>ci_initialized := True\<rparr>]\<rparr> else rt)"

text \<open>The bounded walk up the superclass chain; the first argument is the number of iterations left.\<close>

fun superWalk :: "nat \<Rightarrow> class_info list \<Rightarrow> nat \<Rightarrow> nat \<Rightarrow> bool" where
  "superWalk 0 cs target cur = False"
| "superWalk (Suc k) cs target cur =
     (if cur = target then True
      else let sup = ci_superclass (cs ! cur) in
        if sup = cur \<or> sup \<ge> length cs then False else superWalk k cs target sup)"

definition isArrayName :: "string \<Rightarrow> bool" where
  "isArrayName n \<longleftrightarrow> n \<noteq> [] \<and> hd n = CHR ''[''"

definition isAssignableFrom :: "runtime \<Rightarrow> nat \<Rightarrow> nat \<Rightarrow> bool" where
  "isAssignableFrom rt target val =
     (let cs = rt_classes rt in
      if target \<ge> length cs \<or> val \<ge> length cs then False
      else if isArrayName (ci_name (cs ! target)) \<or> isArrayName (ci_name (cs ! val)) then target = val
      else superWalk (length cs + 1) cs target val)"

definition classNameOf :: "runtime \<Rightarrow> nat \<Rightarrow> string" where
  "classNameOf rt r = (case obj (rt_heap rt) r of None \<Rightarrow> [] | Some ob \<Rightarrow> ci_name (classInfo rt (ho_cls ob)))"

definition dotted :: "string \<Rightarrow> string" where
  "dotted s = map (\<lambda>c. if c = CHR ''/'' then CHR ''.'' else c) s"

definition dottedClassName :: "runtime \<Rightarrow> nat \<Rightarrow> string" where
  "dottedClassName rt c = dotted (ci_name (classInfo rt c))"

section \<open>Fields and statics\<close>

definition structural :: "char \<Rightarrow> bool" where
  "structural c \<longleftrightarrow> c = CHR ''('' \<or> c = CHR '')'' \<or> c = CHR ''['' \<or> c = CHR '';''"

definition fieldDescriptorType :: "string \<Rightarrow> rtype" where
  "fieldDescriptorType d =
     (case d of
        [] \<Rightarrow> RT_Bottom
      | c # cs \<Rightarrow>
          if c \<in> set ''IZBCS'' then (if cs = [] then RT_Int else RT_Bottom)
          else if c = CHR ''J'' then (if cs = [] then RT_Long else RT_Bottom)
          else if c = CHR ''F'' then (if cs = [] then RT_Float else RT_Bottom)
          else if c = CHR ''D'' then (if cs = [] then RT_Double else RT_Bottom)
          else if c = CHR ''L'' then
            (if length d < 3 \<or> last d \<noteq> CHR '';'' then RT_Bottom
             else if list_ex structural (butlast cs) then RT_Bottom else RT_Ref)
          else if c = CHR ''['' then
            (let el = dropWhile (\<lambda>x. x = CHR ''['') d in
             case el of
               [] \<Rightarrow> RT_Bottom
             | e # es \<Rightarrow>
                 if e = CHR ''L'' then (if last d = CHR '';'' \<and> length el \<ge> 3 then RT_Ref else RT_Bottom)
                 else if es \<noteq> [] then RT_Bottom
                 else if e \<in> set ''IJFDZBCS'' then RT_Ref else RT_Bottom)
          else RT_Bottom)"

definition resolveField :: "const \<Rightarrow> runtime \<Rightarrow> runtime \<times> resolved_field option" where
  "resolveField c rt =
     (if c_kind c \<noteq> K_FieldRef then (rt, None)
      else
        (let (rt, cid) = classId (c_str c) rt;
             key = fieldRegistryKey (c_str c) (c_str2 c);
             it = map_of (rt_byName rt) key;
             ty = fieldDescriptorType (c_str3 c);
             known = (case it of
                None \<Rightarrow> None
              | Some v \<Rightarrow> if isFieldRegistryEntry v \<and> v div 2 < length (rt_fieldIndex rt) \<and> fst (rt_fieldIndex rt ! (v div 2)) = cid
                          then Some (v div 2) else None)
         in case known of
              Some fid \<Rightarrow> (rt, Some \<lparr>rf_id = fid, rf_cls = cid, rf_slot = snd (rt_fieldIndex rt ! fid), rf_type = ty\<rparr>)
            | None \<Rightarrow>
                (let fid = u32 (length (rt_fieldIndex rt));
                     ci = rt_classes rt ! cid;
                     sl = u32 (length (ci_fields ci));
                     rt' = rt\<lparr>rt_classes := (rt_classes rt)[cid := ci\<lparr>ci_fields := ci_fields ci @ [fid]\<rparr>],
                              rt_fieldIndex := rt_fieldIndex rt @ [(cid, sl)],
                              rt_statics := rt_statics rt @ [VBottom],
                              rt_byName := (if (case it of None \<Rightarrow> True | Some v \<Rightarrow> isFieldRegistryEntry v)
                                            then assign key (u32 (fid * 2 + 1)) (rt_byName rt) else rt_byName rt)\<rparr>
                 in (rt', Some \<lparr>rf_id = fid, rf_cls = cid, rf_slot = sl, rf_type = ty\<rparr>))))"

definition kValueSlotBytes :: nat where
  "kValueSlotBytes = 16"

definition fieldOffsetOf :: "nat \<Rightarrow> nat" where
  "fieldOffsetOf sl = u32 (sl * kValueSlotBytes)"

definition slotOfFieldOffset :: "nat \<Rightarrow> nat" where
  "slotOfFieldOffset off = off div kValueSlotBytes"

definition loadStatic :: "runtime \<Rightarrow> nat \<Rightarrow> jvalue" where
  "loadStatic rt fid = (if fid \<ge> length (rt_statics rt) then VBottom else rt_statics rt ! fid)"

text \<open>As for instance slots, the growth to \<open>f.v + 1\<close> wraps and the store is then out of range.\<close>

definition storeStatic :: "nat \<Rightarrow> jvalue \<Rightarrow> runtime \<Rightarrow> runtime option" where
  "storeStatic fid v rt =
     (let xs = (if fid \<ge> length (rt_statics rt) then resize (u32 (fid + 1)) VBottom (rt_statics rt) else rt_statics rt)
      in if fid < length xs then Some (rt\<lparr>rt_statics := xs[fid := v]\<rparr>) else None)"

section \<open>Methods and builtins\<close>

definition resolveMethod :: "runtime \<Rightarrow> const \<Rightarrow> nat option" where
  "resolveMethod rt c =
     (if c_kind c \<noteq> K_MethodRef \<and> c_kind c \<noteq> K_InterfaceMethodRef then None
      else if c_str c \<noteq> className (rt_program rt) then None
      else map_option u32 (methodIndexOf (c_str2 c) (c_str3 c) (methods (rt_program rt))))"

definition dummyMethod :: rmethod where
  "dummyMethod = \<lparr>m_name = ''<b2-bad-method-id>'', m_descriptor = ''()V'', m_flags = 0, numRegs = 0, numLocals = 0,
     code = [], cp = [], handlers = []\<rparr>"

definition rt_method :: "runtime \<Rightarrow> nat \<Rightarrow> rmethod" where
  "rt_method rt k = (if k \<ge> length (methods (rt_program rt)) then dummyMethod else methods (rt_program rt) ! k)"

datatype builtin = B_None | B_Println | B_Print

definition kPrintOverloads :: "string list" where
  "kPrintOverloads = [''()V'', ''(I)V'', ''(J)V'', ''(F)V'', ''(D)V'', ''(Z)V'', ''(C)V'', ''(Ljava/lang/String;)V'',
     ''(Ljava/lang/Object;)V'']"

definition lookupBuiltinVirtual :: "runtime \<Rightarrow> nat \<Rightarrow> string \<Rightarrow> string \<Rightarrow> builtin" where
  "lookupBuiltinVirtual rt receiverClass name descriptor =
     (if name \<noteq> ''println'' \<and> name \<noteq> ''print'' then B_None
      else if ci_name (classInfo rt receiverClass) \<noteq> ''java/io/PrintStream'' then B_None
      else if descriptor \<in> set kPrintOverloads then (if name = ''println'' then B_Println else B_Print)
      else B_None)"

fun appendJavaValue :: "to_chars \<Rightarrow> runtime \<Rightarrow> jvalue \<Rightarrow> string" where
  "appendJavaValue tc rt (VInt w) = showInt (sint w)"
| "appendJavaValue tc rt (VLong w) = showInt (sint w)"
| "appendJavaValue tc rt (VFloat w) = javaFloatStringImpl (digits32 tc) w"
| "appendJavaValue tc rt (VDouble w) = javaFloatStringImpl (digits64 tc) w"
| "appendJavaValue tc rt VNull = ''null''"
| "appendJavaValue tc rt (VRef r) =
     (if isString (rt_heap rt) r then stringOf (rt_heap rt) r
      else dotted (classNameOf rt r) @ ''@'' @ showNat r)"
| "appendJavaValue tc rt VBottom = []"

definition execBuiltin :: "to_chars \<Rightarrow> builtin \<Rightarrow> jvalue list \<Rightarrow> runtime \<Rightarrow> runtime \<times> bool" where
  "execBuiltin tc b args rt =
     (if b = B_None then (rt, False)
      else if args = [] \<or> length args > 2 then (rt, False)
      else
        (let toErr = (isRef (args ! 0) \<and> as_obj (args ! 0) = Some (rt_systemErr rt));
             text = (if length args = 2 then appendJavaValue tc rt (args ! 1) else []) @
                    (if b = B_Println then [CHR 0x0A] else [])
         in (if toErr then rt\<lparr>rt_err := rt_err rt @ text\<rparr> else rt\<lparr>rt_out := rt_out rt @ text\<rparr>, True)))"

section \<open>Allocation\<close>

definition onHeap :: "(heap \<Rightarrow> heap \<times> nat) \<Rightarrow> runtime \<Rightarrow> runtime \<times> nat" where
  "onHeap f rt = (let (h, r) = f (rt_heap rt) in (rt\<lparr>rt_heap := h\<rparr>, r))"

definition newInstance :: "nat \<Rightarrow> runtime \<Rightarrow> runtime \<times> nat" where
  "newInstance cls rt = onHeap (allocInstance cls (u32 (length (ci_fields (classInfo rt cls))))) rt"

text \<open>The element type and the class name of an \<open>Atype\<close> code (4 to 11).\<close>

definition atypeInfo :: "nat \<Rightarrow> rtype \<times> string" where
  "atypeInfo atype =
     (if atype = 4 then (RT_Int, ''[Z'')
      else if atype = 5 then (RT_Int, ''[C'')
      else if atype = 6 then (RT_Float, ''[F'')
      else if atype = 7 then (RT_Double, ''[D'')
      else if atype = 8 then (RT_Int, ''[B'')
      else if atype = 9 then (RT_Int, ''[S'')
      else if atype = 11 then (RT_Long, ''[J'')
      else (RT_Int, ''[I''))"

definition newArray :: "nat \<Rightarrow> nat \<Rightarrow> runtime \<Rightarrow> runtime \<times> nat" where
  "newArray atype len rt =
     (let (elem, name) = atypeInfo atype; (rt, cls) = classId name rt
      in onHeap (allocArray cls elem len) rt)"

definition refArrayName :: "string \<Rightarrow> string" where
  "refArrayName n =
     (if n = [] then ''[Ljava/lang/Object;''
      else if hd n = CHR ''['' then CHR ''['' # n
      else ''[L'' @ n @ '';'')"

definition newRefArray :: "nat \<Rightarrow> nat \<Rightarrow> runtime \<Rightarrow> runtime \<times> nat" where
  "newRefArray elementClass len rt =
     (let (rt, cls) = classId (refArrayName (ci_name (classInfo rt elementClass))) rt
      in onHeap (allocArray cls RT_Ref len) rt)"

definition dimLen :: "int list \<Rightarrow> nat" where
  "dimLen dims = (case dims of [] \<Rightarrow> 0 | d # ds \<Rightarrow> nat d)"

definition childName :: "string \<Rightarrow> string" where
  "childName n = (case n of [] \<Rightarrow> [] | c # cs \<Rightarrow> if c = CHR ''['' then cs else n)"

text \<open>One level of a multi-dimensional array; the lengths of this level and the deeper ones come in a
  list, and levels without a length are empty. The first argument is the number of levels below.\<close>

fun buildMultiLevel :: "nat \<Rightarrow> string \<Rightarrow> rtype \<Rightarrow> int list \<Rightarrow> runtime \<Rightarrow> runtime \<times> nat" where
  "buildMultiLevel 0 name baseElem dims rt =
     (let (rt, cls) = classId name rt in onHeap (allocArray cls baseElem (dimLen dims)) rt)"
| "buildMultiLevel (Suc k) name baseElem dims rt =
     (let (rt, cls) = classId name rt;
          (rt, arr) = onHeap (allocArray cls RT_Ref (dimLen dims)) rt;
          rt = fold (\<lambda>i rt. let (rt, sub) = buildMultiLevel k (childName name) baseElem (tl dims) rt
                            in rt\<lparr>rt_heap := fst (storeElem arr i (VRef sub) (rt_heap rt))\<rparr>)
                 [0..<dimLen dims] rt
      in (rt, arr))"

definition newMultiArray :: "nat \<Rightarrow> int list \<Rightarrow> runtime \<Rightarrow> runtime \<times> nat" where
  "newMultiArray elementClass dims rt =
     (let fullName = ci_name (classInfo rt elementClass);
          depth = length (takeWhile (\<lambda>c. c = CHR ''['') fullName)
      in if depth = 0 then
           (let (rt, cls) = classId (''[L'' @ (if fullName = [] then ''java/lang/Object'' else fullName) @ '';'') rt
            in onHeap (allocArray cls RT_Ref (dimLen dims)) rt)
         else
           (let depth = min depth 255;
                ty = fieldDescriptorType (drop depth fullName);
                baseElem = (if ty = RT_Bottom then RT_Ref else ty)
            in buildMultiLevel (depth - 1) fullName baseElem dims rt))"

definition rt_internString :: "string \<Rightarrow> runtime \<Rightarrow> runtime \<times> nat" where
  "rt_internString utf8 rt = onHeap (internString utf8 (rt_stringClass rt)) rt"

section \<open>Exceptions, class objects, profiles\<close>

definition detailMessage :: const where
  "detailMessage = \<lparr>c_kind = K_FieldRef, c_i32 = 0, c_i64 = 0, c_f32 = 0, c_f64 = 0, c_str = ''java/lang/Throwable'',
     c_str2 = ''detailMessage'', c_str3 = ''Ljava/lang/String;'', c_ints = []\<rparr>"

definition makeException :: "string \<Rightarrow> string \<Rightarrow> runtime \<Rightarrow> (runtime \<times> nat) option" where
  "makeException name msg rt =
     (let (rt, cid) = classId name rt;
          rt = (if cid < length (rt_classes rt) \<and> \<not> ci_isException (rt_classes rt ! cid)
                   \<and> isAssignableFrom rt (rt_throwableClass rt) cid
                then rt\<lparr>rt_classes := (rt_classes rt)[cid := (rt_classes rt ! cid)\<lparr>ci_isException := True\<rparr>]\<rparr> else rt);
          (rt, ob) = onHeap (allocInstance cid (u32 (length (ci_fields (classInfo rt cid))))) rt;
          (rt, rf) = resolveField detailMessage rt
      in case rf of
           None \<Rightarrow> Some (rt, ob)
         | Some f \<Rightarrow>
             (let (rt, s) = rt_internString msg rt
              in map_option (\<lambda>(h, _). (rt\<lparr>rt_heap := h\<rparr>, ob)) (storeField ob (rf_slot f) (VRef s) (rt_heap rt))))"

definition exceptionMessage :: "runtime \<Rightarrow> nat \<Rightarrow> string" where
  "exceptionMessage rt r =
     (case find (\<lambda>(k, v). isFieldRegistryEntry v \<and> k = fieldRegistryKey ''java/lang/Throwable'' ''detailMessage'') (rt_byName rt) of
        None \<Rightarrow> []
      | Some (k, v) \<Rightarrow>
          if v div 2 \<ge> length (rt_fieldIndex rt) then []
          else
            (let sl = snd (rt_fieldIndex rt ! (v div 2))
             in case obj (rt_heap rt) r of
                  None \<Rightarrow> []
                | Some ob \<Rightarrow>
                    if ho_kind ob \<noteq> Instance \<or> sl \<ge> length (ho_slots ob) then []
                    else (case ho_slots ob ! sl of VRef s \<Rightarrow> stringOf (rt_heap rt) s | _ \<Rightarrow> [])))"

definition classObject :: "nat \<Rightarrow> runtime \<Rightarrow> runtime \<times> nat" where
  "classObject c rt =
     (let cos = (if c \<ge> length (rt_classObjects rt) then resize (c + 1) 0 (rt_classObjects rt) else rt_classObjects rt)
      in if cos ! c \<noteq> 0 then (rt\<lparr>rt_classObjects := cos\<rparr>, cos ! c)
         else
           (let (rt, r) = newInstance (rt_classClass rt) rt
            in (rt\<lparr>rt_classObjects := cos[c := r]\<rparr>, r)))"

definition builtinStatic :: "runtime \<Rightarrow> const \<Rightarrow> nat option" where
  "builtinStatic rt c =
     (if c_kind c \<noteq> K_FieldRef then None
      else if c_str c \<noteq> ''java/lang/System'' then None
      else if c_str3 c \<noteq> ''Ljava/io/PrintStream;'' then None
      else if c_str2 c = ''out'' then Some (rt_systemOut rt)
      else if c_str2 c = ''err'' then Some (rt_systemErr rt)
      else None)"

definition satIncr :: "nat \<Rightarrow> nat" where
  "satIncr c = (if c \<noteq> 2 ^ 32 - 1 then c + 1 else c)"

definition bumpInvocations :: "nat \<Rightarrow> runtime \<Rightarrow> runtime" where
  "bumpInvocations k rt =
     (if k \<ge> length (rt_profiles rt) then rt
      else rt\<lparr>rt_profiles := (rt_profiles rt)[k := (rt_profiles rt ! k)\<lparr>mp_invocations := satIncr (mp_invocations (rt_profiles rt ! k))\<rparr>]\<rparr>)"

definition bumpBackedge :: "nat \<Rightarrow> runtime \<Rightarrow> runtime" where
  "bumpBackedge k rt =
     (if k \<ge> length (rt_profiles rt) then rt
      else rt\<lparr>rt_profiles := (rt_profiles rt)[k := (rt_profiles rt ! k)\<lparr>mp_backedges := satIncr (mp_backedges (rt_profiles rt ! k))\<rparr>]\<rparr>)"

end
