(* ===== verification/Interp_Machine.thy ===== *)
theory Interp_Machine
  imports Interp_Local Interp_Runtime "HOL-Library.Monad_Syntax"
begin

text \<open>
  The whole T0 machine (\<open>dispatchLoop\<close>, \<open>run\<close> and \<open>resume\<close> of \<open>compiler/interp/src/Interp.cpp\<close>, types of
  \<open>include/b2/interp/Interp.h\<close>, state dumps of \<open>compiler/interp/src/Frame.cpp\<close>): the frame stack, the
  exception algorithm, class initialisation, calls with inline caches and dispatch profiles, fields,
  arrays, objects, monitors and returns, on top of the one-frame instructions of \<open>Interp_Local\<close>.

  A frame's method pointer is a method together with its position in the program; the innermost frame
  comes first. A step gives \<open>None\<close> where the C++ is undefined (an index outside a vector, a union read at
  the wrong tag); errors of the Java program are values. The loop is a partial function, so that a run
  that does not end is \<open>None\<close>.
\<close>

section \<open>State\<close>

record interp_config =
  maxFrames :: nat
  traceSafepoints :: bool
  collectStats :: bool

record interp_stats =
  st_instructions :: nat
  st_polls :: nat
  st_calls :: nat
  st_icHits :: nat
  st_icMisses :: nat
  st_exceptions :: nat
  st_allocations :: nat

record site_ic =
  ic_x :: nat
  ic_y :: nat
  ic_valid :: bool

datatype dispatch_site_kind = DS_Virtual | DS_Interface | DS_Special | DS_Static

record dispatch_entry =
  de_recvClass :: nat
  de_target :: nat
  de_count :: nat

record dispatch_site_profile =
  dp_kind :: dispatch_site_kind
  dp_megamorphic :: bool
  dp_count :: nat
  dp_entries :: "dispatch_entry list"

type_synonym mframe = "nat \<times> frame"

record machine =
  mc_rt :: runtime
  mc_frames :: "mframe list"
  mc_siteICs :: "site_ic list list"
  mc_profiles :: "dispatch_site_profile list list"
  mc_stats :: interp_stats
  mc_trace :: string
  mc_programClass :: nat

datatype status = Running machine | Returned jvalue machine | Threw nat machine

definition kMaxDispatchProfileEntries :: nat where "kMaxDispatchProfileEntries = 3"
definition kDispatchNoRecvClass :: nat where "kDispatchNoRecvClass = 4294967295"
definition kDispatchNoTarget :: nat where "kDispatchNoTarget = 4294967295"

definition emptyEntry :: dispatch_entry where
  "emptyEntry = \<lparr>de_recvClass = kDispatchNoRecvClass, de_target = kDispatchNoTarget, de_count = 0\<rparr>"

definition emptyProfile :: dispatch_site_profile where
  "emptyProfile = \<lparr>dp_kind = DS_Virtual, dp_megamorphic = False, dp_count = 0,
     dp_entries = replicate kMaxDispatchProfileEntries emptyEntry\<rparr>"

definition emptyIC :: site_ic where
  "emptyIC = \<lparr>ic_x = 0, ic_y = 0, ic_valid = False\<rparr>"

definition u64 :: "nat \<Rightarrow> nat" where
  "u64 n = n mod 2 ^ 64"

definition kClsNullPointer :: string where "kClsNullPointer = ''java/lang/NullPointerException''"
definition kClsArrayIndexOob :: string where "kClsArrayIndexOob = ''java/lang/ArrayIndexOutOfBoundsException''"
definition kClsNegativeArraySize :: string where "kClsNegativeArraySize = ''java/lang/NegativeArraySizeException''"
definition kClsClassCast :: string where "kClsClassCast = ''java/lang/ClassCastException''"
definition kClsArrayStore :: string where "kClsArrayStore = ''java/lang/ArrayStoreException''"
definition kClsIllegalMonitor :: string where "kClsIllegalMonitor = ''java/lang/IllegalMonitorStateException''"
definition kClsStackOverflow :: string where "kClsStackOverflow = ''java/lang/StackOverflowError''"
definition kClsNoSuchMethod :: string where "kClsNoSuchMethod = ''java/lang/NoSuchMethodError''"
definition kClsBootstrapMethod :: string where "kClsBootstrapMethod = ''java/lang/BootstrapMethodError''"
definition kMsgIndyUnsupported :: string where "kMsgIndyUnsupported = ''invokedynamic not supported in v0''"
definition kMsgDeoptTrap :: string where "kMsgDeoptTrap = ''deopt_trap executed in T0 without deopt metadata (v0)''"
definition kMsgLdcUnsupported :: string where "kMsgLdcUnsupported = ''ldc of methodtype/methodhandle not supported in v0''"
definition kMsgUnresolvedField :: string where "kMsgUnresolvedField = ''unresolved field''"
definition kClinitName :: string where "kClinitName = ''<clinit>''"
definition kClinitDesc :: string where "kClinitDesc = ''()V''"
definition kMaxMultiDims :: nat where "kMaxMultiDims = 255"
definition flag_Native :: "16 word" where "flag_Native = 0x0100"

section \<open>State dumps\<close>

definition kindSpelling :: "rtype \<Rightarrow> string" where
  "kindSpelling t = (if t = RT_Bottom then ''bot'' else typeName t)"

fun appendPayload :: "to_chars \<Rightarrow> runtime \<Rightarrow> jvalue \<Rightarrow> string" where
  "appendPayload tc rt (VInt w) = showInt (sint w)"
| "appendPayload tc rt (VLong w) = showInt (sint w)"
| "appendPayload tc rt (VFloat w) = javaFloatStringImpl (digits32 tc) w"
| "appendPayload tc rt (VDouble w) = javaFloatStringImpl (digits64 tc) w"
| "appendPayload tc rt VNull = ''null''"
| "appendPayload tc rt VBottom = ''bot''"
| "appendPayload tc rt (VRef r) =
     classNameOf rt r @ ''@'' @ showNat r @
     (if isString (rt_heap rt) r then '' str='' @ stringOf (rt_heap rt) r else [])"

definition appendSlotLine :: "to_chars \<Rightarrow> runtime \<Rightarrow> string \<Rightarrow> char \<Rightarrow> jvalue list \<Rightarrow> string" where
  "appendSlotLine tc rt label slotKind slots =
     ''  '' @ label @
     concat (map (\<lambda>(i, v). '' '' @ [slotKind] @ showNat i @ '':'' @ kindSpelling (v_type v) @ ''='' @ appendPayload tc rt v)
       (enumerate 0 slots)) @ [CHR 0x0A]"

definition dumpFrame :: "to_chars \<Rightarrow> runtime \<Rightarrow> nat \<Rightarrow> frame \<Rightarrow> string" where
  "dumpFrame tc rt depth f =
     ''frame '' @ showNat depth @ '' method='' @ m_name (fr_method f) @ m_descriptor (fr_method f) @
     '' pc='' @ showNat (fr_pc f) @ [CHR 0x0A] @
     appendSlotLine tc rt ''local'' CHR ''l'' (fr_locals f) @ appendSlotLine tc rt ''reg'' CHR ''r'' (fr_regs f) @
     ''  monitors='' @ showNat (length (fr_monitors f)) @ concat (map (\<lambda>m. '','' @ showNat m) (fr_monitors f)) @ [CHR 0x0A]"

definition dumpFrames :: "to_chars \<Rightarrow> runtime \<Rightarrow> frame list \<Rightarrow> string" where
  "dumpFrames tc rt fs =
     concat (map (\<lambda>(d, f). (if d = 0 then [] else [CHR 0x0A]) @ dumpFrame tc rt d f) (enumerate 0 fs))"

section \<open>Access to the machine\<close>

definition mc_program :: "machine \<Rightarrow> rprogram" where
  "mc_program m = rt_program (mc_rt m)"

definition mc_heap :: "machine \<Rightarrow> heap" where
  "mc_heap m = rt_heap (mc_rt m)"

definition setHeap :: "heap \<Rightarrow> machine \<Rightarrow> machine" where
  "setHeap h m = m\<lparr>mc_rt := (mc_rt m)\<lparr>rt_heap := h\<rparr>\<rparr>"

definition count :: "interp_config \<Rightarrow> (interp_stats \<Rightarrow> interp_stats) \<Rightarrow> machine \<Rightarrow> machine" where
  "count cfg f m = (if collectStats cfg then m\<lparr>mc_stats := f (mc_stats m)\<rparr> else m)"

abbreviation countHit :: "interp_config \<Rightarrow> machine \<Rightarrow> machine" where
  "countHit cfg \<equiv> count cfg (st_icHits_update (\<lambda>n. u64 (n + 1)))"

abbreviation countMiss :: "interp_config \<Rightarrow> machine \<Rightarrow> machine" where
  "countMiss cfg \<equiv> count cfg (st_icMisses_update (\<lambda>n. u64 (n + 1)))"

abbreviation countCall :: "interp_config \<Rightarrow> machine \<Rightarrow> machine" where
  "countCall cfg \<equiv> count cfg (st_calls_update (\<lambda>n. u64 (n + 1)))"

abbreviation countException :: "interp_config \<Rightarrow> machine \<Rightarrow> machine" where
  "countException cfg \<equiv> count cfg (st_exceptions_update (\<lambda>n. u64 (n + 1)))"

definition topFrame :: "machine \<Rightarrow> mframe option" where
  "topFrame m = (case mc_frames m of [] \<Rightarrow> None | fr # _ \<Rightarrow> Some fr)"

definition setTop :: "frame \<Rightarrow> machine \<Rightarrow> machine" where
  "setTop f m = m\<lparr>mc_frames := (case mc_frames m of [] \<Rightarrow> [] | (k, _) # fs \<Rightarrow> (k, f) # fs)\<rparr>"

text \<open>The index of a frame's method: the difference of two pointers, defined inside the program only.\<close>

definition methodIndex :: "machine \<Rightarrow> nat \<Rightarrow> nat option" where
  "methodIndex m k = (if k < length (methods (mc_program m)) then Some k else None)"

section \<open>The exception algorithm\<close>

definition releaseMonitorsLIFO :: "nat list \<Rightarrow> runtime \<Rightarrow> runtime" where
  "releaseMonitorsLIFO ms rt = rt\<lparr>rt_heap := fold (\<lambda>r h. fst (monitorexit r h)) ms (rt_heap rt)\<rparr>"

fun findHandler :: "frame \<Rightarrow> nat \<Rightarrow> exception_handler list \<Rightarrow> runtime \<Rightarrow> (runtime \<times> exception_handler option) option" where
  "findHandler f exc [] rt = Some (rt, None)"
| "findHandler f exc (h # hs) rt =
     (if fr_pc f < h_start h \<or> fr_pc f \<ge> h_end h then findHandler f exc hs rt
      else if h_catchType h \<ge> 0 then
        do {
          ct \<leftarrow> cpEntry f (nat (h_catchType h));
          let (rt, k) = classId (c_str ct) rt;
          if \<not> isAssignableFrom rt k (classOf (rt_heap rt) exc) then findHandler f exc hs rt
          else Some (rt, Some h)
        }
      else Some (rt, Some h))"

fun unwind :: "nat \<Rightarrow> mframe list \<Rightarrow> runtime \<Rightarrow> (runtime \<times> mframe list) option" where
  "unwind exc [] rt = Some (rt, [])"
| "unwind exc ((k, f) # fs) rt =
     do {
       (rt, h) \<leftarrow> findHandler f exc (handlers (fr_method f)) rt;
       case h of
         Some h \<Rightarrow> Some (rt, (k, enterHandler exc h f) # fs)
       | None \<Rightarrow> unwind exc fs (releaseMonitorsLIFO (fr_monitors f) rt)
     }"

definition throwException :: "interp_config \<Rightarrow> nat \<Rightarrow> machine \<Rightarrow> status option" where
  "throwException cfg exc m =
     do {
       let m = countException cfg m;
       (rt, fs) \<leftarrow> unwind exc (mc_frames m) (mc_rt m);
       let m = m\<lparr>mc_rt := rt, mc_frames := fs\<rparr>;
       Some (if fs = [] then Threw exc m else Running m)
     }"

definition raise :: "interp_config \<Rightarrow> string \<Rightarrow> string \<Rightarrow> machine \<Rightarrow> status option" where
  "raise cfg cls msg m =
     do {
       (rt, exc) \<leftarrow> makeException cls msg (mc_rt m);
       throwException cfg exc (m\<lparr>mc_rt := rt\<rparr>)
     }"

definition raiseNpe :: "interp_config \<Rightarrow> machine \<Rightarrow> status option" where
  "raiseNpe cfg m = raise cfg kClsNullPointer [] m"

definition raiseAioobe :: "interp_config \<Rightarrow> int \<Rightarrow> nat \<Rightarrow> machine \<Rightarrow> status option" where
  "raiseAioobe cfg idx len m =
     raise cfg kClsArrayIndexOob (''Index '' @ showInt idx @ '' out of bounds for length '' @ showNat len) m"

text \<open>The outcome of a one-frame instruction, put back into the machine.\<close>

definition continueWith :: "interp_config \<Rightarrow> machine \<Rightarrow> nat \<Rightarrow> outcome option \<Rightarrow> status option" where
  "continueWith cfg m k out =
     do {
       r \<leftarrow> out;
       case r of
         Raise cls msg \<Rightarrow> raise cfg cls msg m
       | Continue f backedge \<Rightarrow>
           if backedge
           then do { mi \<leftarrow> methodIndex m k; Some (Running (setTop f (m\<lparr>mc_rt := bumpBackedge mi (mc_rt m)\<rparr>))) }
           else Some (Running (setTop f m))
     }"

section \<open>Class initialisation and calls\<close>

datatype init_flow = Ready machine | PushedClinit status

definition newFrame :: "rmethod \<Rightarrow> nat \<Rightarrow> jvalue list \<Rightarrow> frame" where
  "newFrame mt callerPc args =
     \<lparr>fr_method = mt, fr_pc = 0,
      fr_locals = (if length args < numLocals mt then resize (numLocals mt) VBottom args else args),
      fr_regs = replicate (numRegs mt) VBottom, fr_monitors = [], fr_pendingException = 0, fr_callerPc = callerPc\<rparr>"

text \<open>\<open>pushClinit\<close> marks the class and then asks for its initialiser, in this order; its frame has no local slots.\<close>

definition pushClinit :: "interp_config \<Rightarrow> nat \<Rightarrow> machine \<Rightarrow> status option" where
  "pushClinit cfg cls m =
     do {
       let rt = markInitialized cls (mc_rt m);
       let clinit = findClinit rt cls;
       let m = m\<lparr>mc_rt := rt\<rparr>;
       if length (mc_frames m) \<ge> maxFrames cfg then raise cfg kClsStackOverflow [] m
       else do {
         (k, f) \<leftarrow> topFrame m;
         let nf = (newFrame (rt_method rt clinit) (fr_pc f) [])\<lparr>fr_locals := []\<rparr>;
         let m = countCall cfg (m\<lparr>mc_frames := (clinit, nf) # mc_frames m\<rparr>);
         Some (Running (m\<lparr>mc_rt := bumpInvocations clinit (mc_rt m)\<rparr>))
       }
     }"

definition initClassIfNeeded :: "interp_config \<Rightarrow> nat \<Rightarrow> machine \<Rightarrow> init_flow option" where
  "initClassIfNeeded cfg cls m =
     (if \<not> needsInit (mc_rt m) cls then Some (Ready m) else map_option PushedClinit (pushClinit cfg cls m))"

text \<open>The common end of the initialisation triggers: with the class ready the instruction runs, otherwise
  it runs again later.\<close>

definition afterInit :: "interp_config \<Rightarrow> nat \<Rightarrow> machine \<Rightarrow> (machine \<Rightarrow> status option) \<Rightarrow> status option" where
  "afterInit cfg cls m body =
     do { r \<leftarrow> initClassIfNeeded cfg cls m; case r of Ready m \<Rightarrow> body m | PushedClinit s \<Rightarrow> Some s }"

definition argSpan :: "frame \<Rightarrow> ins \<Rightarrow> jvalue list" where
  "argSpan f i =
     (let base = min (ins_a i) (length (fr_regs f)); n = min (ins_b i) (length (fr_regs f) - base)
      in take n (drop base (fr_regs f)))"

definition pushCall :: "interp_config \<Rightarrow> ins \<Rightarrow> nat \<Rightarrow> machine \<Rightarrow> status option" where
  "pushCall cfg i target m =
     (let mt = rt_method (mc_rt m) target in
      if isAbstract mt \<or> m_flags mt AND flag_Native \<noteq> 0
      then raise cfg kClsNoSuchMethod (className (mc_program m) @ ''.'' @ m_name mt @ m_descriptor mt) m
      else if length (mc_frames m) \<ge> maxFrames cfg then raise cfg kClsStackOverflow [] m
      else do {
        (k, f) \<leftarrow> topFrame m;
        let m = countCall cfg (m\<lparr>mc_frames := (target, newFrame mt (fr_pc f) (argSpan f i)) # mc_frames m\<rparr>);
        Some (Running (m\<lparr>mc_rt := bumpInvocations target (mc_rt m)\<rparr>))
      })"

section \<open>Inline caches and dispatch profiles\<close>

text \<open>The tables are indexed by the method and the site, both below the table sizes of a program, so the
  \<open>+ 1\<close> of the growth does not wrap.\<close>

definition growTo :: "nat \<Rightarrow> 'a \<Rightarrow> 'a list \<Rightarrow> 'a list" where
  "growTo i x xs = (if length xs \<le> i then resize (i + 1) x xs else xs)"

definition fillSiteIC :: "nat \<Rightarrow> nat \<Rightarrow> nat \<Rightarrow> nat \<Rightarrow> machine \<Rightarrow> machine" where
  "fillSiteIC mIdx site x y m =
     (let ics = growTo mIdx [] (mc_siteICs m); per = growTo site emptyIC (ics ! mIdx)
      in m\<lparr>mc_siteICs := ics[mIdx := per[site := \<lparr>ic_x = x, ic_y = y, ic_valid = True\<rparr>]]\<rparr>)"

definition icProbe :: "machine \<Rightarrow> nat \<Rightarrow> nat \<Rightarrow> nat option" where
  "icProbe m mIdx site =
     (let ics = mc_siteICs m in
      if mIdx < length ics \<and> site < length (ics ! mIdx) \<and> ic_valid (ics ! mIdx ! site)
      then Some (ic_x (ics ! mIdx ! site)) else None)"

text \<open>The entry of a receiver class that was seen before, or the first free one; both loops in one search each.\<close>

fun bumpEntry :: "nat \<Rightarrow> nat \<Rightarrow> dispatch_entry list \<Rightarrow> dispatch_entry list option" where
  "bumpEntry recvClass target [] = None"
| "bumpEntry recvClass target (e # es) =
     (if de_count e \<noteq> 0 \<and> de_recvClass e = recvClass
      then Some (e\<lparr>de_target := target, de_count := satIncr (de_count e)\<rparr> # es)
      else map_option ((#) e) (bumpEntry recvClass target es))"

fun claimEntry :: "nat \<Rightarrow> nat \<Rightarrow> dispatch_entry list \<Rightarrow> dispatch_entry list option" where
  "claimEntry recvClass target [] = None"
| "claimEntry recvClass target (e # es) =
     (if de_count e = 0 then Some (\<lparr>de_recvClass = recvClass, de_target = target, de_count = 1\<rparr> # es)
      else map_option ((#) e) (claimEntry recvClass target es))"

definition recordSite :: "dispatch_site_kind \<Rightarrow> nat \<Rightarrow> nat \<Rightarrow> dispatch_site_profile \<Rightarrow> dispatch_site_profile" where
  "recordSite kind recvClass target p0 =
     (let p = p0\<lparr>dp_kind := kind, dp_count := satIncr (dp_count p0)\<rparr> in
      if recvClass = kDispatchNoRecvClass then
        if target = kDispatchNoTarget then p
        else (let e = dp_entries p ! 0 in
              p\<lparr>dp_entries := (dp_entries p)[0 := \<lparr>de_recvClass = kDispatchNoRecvClass, de_target = target,
                 de_count = satIncr (de_count e)\<rparr>]\<rparr>)
      else if \<not> dp_megamorphic p then
        case bumpEntry recvClass target (dp_entries p) of
          Some es \<Rightarrow> p\<lparr>dp_entries := es\<rparr>
        | None \<Rightarrow>
            (case claimEntry recvClass target (dp_entries p) of
               Some es \<Rightarrow> p\<lparr>dp_entries := es\<rparr>
             | None \<Rightarrow> p\<lparr>dp_megamorphic := True\<rparr>)
      else p)"

definition recordDispatch :: "nat \<Rightarrow> nat \<Rightarrow> dispatch_site_kind \<Rightarrow> nat \<Rightarrow> nat \<Rightarrow> machine \<Rightarrow> machine" where
  "recordDispatch mIdx site kind recvClass target m =
     (let ps = growTo mIdx [] (mc_profiles m); per = growTo site emptyProfile (ps ! mIdx)
      in m\<lparr>mc_profiles := ps[mIdx := per[site := recordSite kind recvClass target (per ! site)]]\<rparr>)"

text \<open>A call followed by its record: the record is made whenever \<open>pushCall\<close> did not unwind the whole stack.\<close>

definition callAndRecord ::
  "interp_config \<Rightarrow> ins \<Rightarrow> nat \<Rightarrow> nat \<Rightarrow> dispatch_site_kind \<Rightarrow> nat \<Rightarrow> nat \<Rightarrow> machine \<Rightarrow> status option" where
  "callAndRecord cfg i mIdx site kind recvClass target m =
     do {
       s \<leftarrow> pushCall cfg i target m;
       Some (case s of Running m \<Rightarrow> Running (recordDispatch mIdx site kind recvClass target m) | _ \<Rightarrow> s)
     }"

end
