(* ===== verification/Interp_Dispatch.thy ===== *)
theory Interp_Dispatch
  imports Interp_Machine Rbc_Verified
begin

text \<open>
  The instructions of the T0 dispatch loop that leave one frame (\<open>dispatchLoop\<close> of
  \<open>compiler/interp/src/Interp.cpp\<close>: constants from the pool, fields, arrays, objects, monitors, calls,
  returns, throws, tiering hooks), the step over all opcodes, the loop, and the entry points \<open>run\<close> and
  \<open>resume\<close>. Each operation takes the top frame \<open>f\<close> with its method position \<open>k\<close> and the instruction \<open>i\<close>.
\<close>

section \<open>Constants and fields\<close>

definition setRegIn :: "machine \<Rightarrow> frame \<Rightarrow> nat \<Rightarrow> jvalue \<Rightarrow> status option" where
  "setRegIn m f dst v =
     (if dst < length (fr_regs f)
      then Some (Running (setTop (f\<lparr>fr_regs := (fr_regs f)[dst := v], fr_pc := fr_pc f + 1\<rparr>) m)) else None)"

definition nextPc :: "machine \<Rightarrow> frame \<Rightarrow> status" where
  "nextPc m f = Running (setTop (f\<lparr>fr_pc := fr_pc f + 1\<rparr>) m)"

definition ldcStep :: "interp_config \<Rightarrow> frame \<Rightarrow> ins \<Rightarrow> machine \<Rightarrow> status option" where
  "ldcStep cfg f i m =
     do {
       c \<leftarrow> cpEntry f (ins_imm i);
       if c_kind c = K_String then
         (let (rt, r) = rt_internString (c_str c) (mc_rt m) in setRegIn (m\<lparr>mc_rt := rt\<rparr>) f (ins_dst i) (VRef r))
       else if c_kind c = K_Class then
         (let (rt, cls) = classId (c_str c) (mc_rt m)
          in afterInit cfg cls (m\<lparr>mc_rt := rt\<rparr>) (\<lambda>m.
               let (rt, r) = classObject cls (mc_rt m) in setRegIn (m\<lparr>mc_rt := rt\<rparr>) f (ins_dst i) (VRef r)))
       else if c_kind c = K_MethodType \<or> c_kind c = K_MethodHandle then raise cfg kClsInternalError kMsgLdcUnsupported m
       else raise cfg kClsInternalError ''ldc of unsupported constant kind'' m
     }"

text \<open>The slot of a field site: from the inline cache, or resolved and cached.\<close>

definition fieldSlot :: "interp_config \<Rightarrow> nat \<Rightarrow> frame \<Rightarrow> ins \<Rightarrow> machine \<Rightarrow> (machine \<times> nat option) option" where
  "fieldSlot cfg k f i m =
     do {
       mIdx \<leftarrow> methodIndex m k;
       case icProbe m mIdx (fr_pc f) of
         Some x \<Rightarrow> Some (countHit cfg m, Some x)
       | None \<Rightarrow>
           do {
             let m = countMiss cfg m;
             c \<leftarrow> cpEntry f (ins_imm i);
             let (rt, rf) = resolveField c (mc_rt m);
             let m = m\<lparr>mc_rt := rt\<rparr>;
             case rf of
               None \<Rightarrow> Some (m, None)
             | Some r \<Rightarrow> Some (fillSiteIC mIdx (fr_pc f) (rf_slot r) (rf_cls r) m, Some (rf_slot r))
           }
     }"

text \<open>The value of an unwritten field: the zero of its declared type.\<close>

definition unsetField :: "interp_config \<Rightarrow> frame \<Rightarrow> ins \<Rightarrow> nat \<Rightarrow> machine \<Rightarrow> status option" where
  "unsetField cfg f i r m =
     (if \<not> isInstance (mc_heap m) r then raise cfg kClsInternalError ''field access on non-instance'' m
      else do {
        c \<leftarrow> cpEntry f (ins_imm i);
        let (rt, rf) = resolveField c (mc_rt m);
        let m = m\<lparr>mc_rt := rt\<rparr>;
        let ft = (case rf of None \<Rightarrow> RT_Bottom | Some x \<Rightarrow> rf_type x);
        if ft = RT_Bottom then raise cfg kClsInternalError ''malformed field descriptor'' m
        else setRegIn m f (ins_dst i) (zeroOfField ft)
      })"

definition getfieldStep :: "interp_config \<Rightarrow> nat \<Rightarrow> frame \<Rightarrow> ins \<Rightarrow> machine \<Rightarrow> status option" where
  "getfieldStep cfg k f i m =
     do {
       ob \<leftarrow> reg f (ins_a i);
       if isNull ob then raiseNpe cfg m
       else do {
         (m, sl) \<leftarrow> fieldSlot cfg k f i m;
         case sl of
           None \<Rightarrow> raise cfg kClsInternalError kMsgUnresolvedField m
         | Some s \<Rightarrow>
             do {
               r \<leftarrow> as_obj ob;
               (h, v) \<leftarrow> loadField r s (mc_heap m);
               let m = setHeap h m;
               if v_type v = RT_Bottom then unsetField cfg f i r m
               else setRegIn m f (ins_dst i) v
             }
       }
     }"

definition storeInto :: "interp_config \<Rightarrow> frame \<Rightarrow> nat \<Rightarrow> nat \<Rightarrow> jvalue \<Rightarrow> machine \<Rightarrow> status option" where
  "storeInto cfg f r s v m =
     do {
       (h, ok) \<leftarrow> storeField r s v (mc_heap m);
       let m = setHeap h m;
       if \<not> ok then raise cfg kClsInternalError ''field access on non-instance'' m else Some (nextPc m f)
     }"

definition putfieldStep :: "interp_config \<Rightarrow> nat \<Rightarrow> frame \<Rightarrow> ins \<Rightarrow> machine \<Rightarrow> status option" where
  "putfieldStep cfg k f i m =
     do {
       ob \<leftarrow> reg f (ins_a i);
       if isNull ob then raiseNpe cfg m
       else do {
         (m, sl) \<leftarrow> fieldSlot cfg k f i m;
         case sl of
           None \<Rightarrow> raise cfg kClsInternalError kMsgUnresolvedField m
         | Some s \<Rightarrow> do { r \<leftarrow> as_obj ob; v \<leftarrow> reg f (ins_b i); storeInto cfg f r s v m }
       }
     }"

definition getstaticStep :: "interp_config \<Rightarrow> frame \<Rightarrow> ins \<Rightarrow> machine \<Rightarrow> status option" where
  "getstaticStep cfg f i m =
     do {
       c \<leftarrow> cpEntry f (ins_imm i);
       case builtinStatic (mc_rt m) c of
         Some r \<Rightarrow> setRegIn m f (ins_dst i) (VRef r)
       | None \<Rightarrow>
           (let (rt, rf) = resolveField c (mc_rt m); m = m\<lparr>mc_rt := rt\<rparr>
            in case rf of
                 None \<Rightarrow> raise cfg kClsInternalError kMsgUnresolvedField m
               | Some r \<Rightarrow>
                   afterInit cfg (rf_cls r) m (\<lambda>m.
                     let v = loadStatic (mc_rt m) (rf_id r) in
                     if v_type v = RT_Bottom then
                       if rf_type r = RT_Bottom then raise cfg kClsInternalError ''malformed field descriptor'' m
                       else setRegIn m f (ins_dst i) (zeroOfField (rf_type r))
                     else setRegIn m f (ins_dst i) v))
     }"

definition putstaticStep :: "interp_config \<Rightarrow> frame \<Rightarrow> ins \<Rightarrow> machine \<Rightarrow> status option" where
  "putstaticStep cfg f i m =
     do {
       c \<leftarrow> cpEntry f (ins_imm i);
       if builtinStatic (mc_rt m) c \<noteq> None then raise cfg kClsInternalError ''store to builtin static'' m
       else
         (let (rt, rf) = resolveField c (mc_rt m); m = m\<lparr>mc_rt := rt\<rparr>
          in case rf of
               None \<Rightarrow> raise cfg kClsInternalError kMsgUnresolvedField m
             | Some r \<Rightarrow>
                 afterInit cfg (rf_cls r) m (\<lambda>m.
                   do {
                     v \<leftarrow> reg f (ins_dst i);
                     rt \<leftarrow> storeStatic (rf_id r) v (mc_rt m);
                     Some (nextPc (m\<lparr>mc_rt := rt\<rparr>) f)
                   }))
     }"

definition getfieldQuickStep :: "interp_config \<Rightarrow> frame \<Rightarrow> ins \<Rightarrow> machine \<Rightarrow> status option" where
  "getfieldQuickStep cfg f i m =
     do {
       ob \<leftarrow> reg f (ins_a i);
       if isNull ob then raiseNpe cfg m
       else do {
         r \<leftarrow> as_obj ob;
         (h, v) \<leftarrow> loadField r (slotOfFieldOffset (ins_imm i)) (mc_heap m);
         let m = setHeap h m;
         if v_type v = RT_Bottom then
           if \<not> isInstance h r then raise cfg kClsInternalError ''field access on non-instance'' m
           else raise cfg kClsInternalError ''quickened getfield of unwritten field (v0)'' m
         else setRegIn m f (ins_dst i) v
       }
     }"

definition putfieldQuickStep :: "interp_config \<Rightarrow> frame \<Rightarrow> ins \<Rightarrow> machine \<Rightarrow> status option" where
  "putfieldQuickStep cfg f i m =
     do {
       ob \<leftarrow> reg f (ins_a i);
       if isNull ob then raiseNpe cfg m
       else do { r \<leftarrow> as_obj ob; v \<leftarrow> reg f (ins_b i); storeInto cfg f r (slotOfFieldOffset (ins_imm i)) v m }
     }"

definition fieldStep :: "interp_config \<Rightarrow> nat \<Rightarrow> frame \<Rightarrow> ins \<Rightarrow> machine \<Rightarrow> status option" where
  "fieldStep cfg k f i m =
     (let v = ins_op i in
      if v = Op_Getfield then getfieldStep cfg k f i m
      else if v = Op_Putfield then putfieldStep cfg k f i m
      else if v = Op_Getstatic then getstaticStep cfg f i m
      else if v = Op_Putstatic then putstaticStep cfg f i m
      else if v = Op_GetfieldQuick then getfieldQuickStep cfg f i m
      else putfieldQuickStep cfg f i m)"

section \<open>Arrays\<close>

definition negativeSize :: "interp_config \<Rightarrow> int \<Rightarrow> machine \<Rightarrow> status option" where
  "negativeSize cfg n m = raise cfg kClsNegativeArraySize (showInt n) m"

definition newArrayStep :: "interp_config \<Rightarrow> frame \<Rightarrow> ins \<Rightarrow> machine \<Rightarrow> status option" where
  "newArrayStep cfg f i m =
     do {
       len \<leftarrow> Option.bind (reg f (ins_a i)) as_i;
       if sint len < 0 then negativeSize cfg (sint len) m
       else (let (rt, r) = newArray (ins_imm i mod 2 ^ 8) (unat len) (mc_rt m)
             in setRegIn (m\<lparr>mc_rt := rt\<rparr>) f (ins_dst i) (VRef r))
     }"

definition anewArrayStep :: "interp_config \<Rightarrow> frame \<Rightarrow> ins \<Rightarrow> machine \<Rightarrow> status option" where
  "anewArrayStep cfg f i m =
     do {
       len \<leftarrow> Option.bind (reg f (ins_a i)) as_i;
       if sint len < 0 then negativeSize cfg (sint len) m
       else do {
         c \<leftarrow> cpEntry f (ins_imm i);
         let (rt, cls) = classId (c_str c) (mc_rt m);
         let (rt, r) = newRefArray cls (unat len) rt;
         setRegIn (m\<lparr>mc_rt := rt\<rparr>) f (ins_dst i) (VRef r)
       }
     }"

definition arraylengthStep :: "interp_config \<Rightarrow> frame \<Rightarrow> ins \<Rightarrow> machine \<Rightarrow> status option" where
  "arraylengthStep cfg f i m =
     do {
       arr \<leftarrow> reg f (ins_a i);
       if isNull arr then raiseNpe cfg m
       else do {
         r \<leftarrow> as_obj arr;
         if \<not> isArray (mc_heap m) r then raise cfg kClsInternalError ''arraylength on non-array'' m
         else setRegIn m f (ins_dst i) (VInt (word_of_nat (arrayLength (mc_heap m) r)))
       }
     }"

text \<open>The checks shared by every element access: null array, then bounds.\<close>

definition withElement ::
  "interp_config \<Rightarrow> frame \<Rightarrow> ins \<Rightarrow> machine \<Rightarrow> (nat \<Rightarrow> nat \<Rightarrow> status option) \<Rightarrow> status option" where
  "withElement cfg f i m body =
     do {
       arr \<leftarrow> reg f (ins_a i);
       if isNull arr then raiseNpe cfg m
       else do {
         idx \<leftarrow> Option.bind (reg f (ins_b i)) as_i;
         r \<leftarrow> as_obj arr;
         let len = arrayLength (mc_heap m) r;
         if sint idx < 0 \<or> unat idx \<ge> len then raiseAioobe cfg (sint idx) len m
         else body r (unat idx)
       }
     }"

definition arrayLoad :: "interp_config \<Rightarrow> frame \<Rightarrow> ins \<Rightarrow> machine \<Rightarrow> status option" where
  "arrayLoad cfg f i m =
     withElement cfg f i m (\<lambda>r idx.
       let v = loadElem (mc_heap m) r idx in
       if v_type v = RT_Bottom then raise cfg kClsInternalError ''array element access on non-array'' m
       else setRegIn m f (ins_dst i) v)"

datatype store_narrow = SN_None | SN_Byte | SN_Char | SN_Short

fun narrowTo :: "store_narrow \<Rightarrow> jvalue \<Rightarrow> jvalue option" where
  "narrowTo SN_None v = Some v"
| "narrowTo SN_Byte v = map_option (\<lambda>x. VInt (narrow8 x)) (as_i v)"
| "narrowTo SN_Char v = map_option (\<lambda>x. VInt (narrowU16 x)) (as_i v)"
| "narrowTo SN_Short v = map_option (\<lambda>x. VInt (narrow16 x)) (as_i v)"

definition storeAt :: "interp_config \<Rightarrow> frame \<Rightarrow> nat \<Rightarrow> nat \<Rightarrow> jvalue \<Rightarrow> machine \<Rightarrow> status option" where
  "storeAt cfg f r idx v m =
     (let (h, ok) = storeElem r idx v (mc_heap m); m = setHeap h m
      in if \<not> ok then raise cfg kClsInternalError ''array element access on non-array'' m else Some (nextPc m f))"

definition arrayStore :: "interp_config \<Rightarrow> store_narrow \<Rightarrow> frame \<Rightarrow> ins \<Rightarrow> machine \<Rightarrow> status option" where
  "arrayStore cfg narrow f i m =
     withElement cfg f i m (\<lambda>r idx.
       do { v0 \<leftarrow> reg f (ins_dst i); v \<leftarrow> narrowTo narrow v0; storeAt cfg f r idx v m })"

text \<open>The element check of \<open>aastore\<close> on the name of the array class: interns the element class of
  \<open>[L...;\<close>, compares the descriptor for an array of arrays, and has no answer for other names.\<close>

definition elementAccepts :: "string \<Rightarrow> nat \<Rightarrow> runtime \<Rightarrow> (runtime \<times> bool) option" where
  "elementAccepts arrayName valueCls rt =
     (if length arrayName > 2 \<and> arrayName ! 0 = CHR ''['' \<and> arrayName ! 1 = CHR ''L'' \<and> last arrayName = CHR '';''
      then (let (rt, el) = classId (take (length arrayName - 3) (drop 2 arrayName)) rt
            in Some (rt, isAssignableFrom rt el valueCls))
      else if length arrayName \<ge> 2 \<and> arrayName ! 0 = CHR ''['' \<and> arrayName ! 1 = CHR ''[''
      then Some (rt, ci_name (classInfo rt valueCls) = drop 1 arrayName)
      else None)"

definition aastoreStep :: "interp_config \<Rightarrow> frame \<Rightarrow> ins \<Rightarrow> machine \<Rightarrow> status option" where
  "aastoreStep cfg f i m =
     withElement cfg f i m (\<lambda>r idx.
       do {
         v \<leftarrow> reg f (ins_dst i);
         if isNull v then storeAt cfg f r idx v m
         else do {
           q \<leftarrow> as_obj v;
           let valueCls = classOf (mc_heap m) q;
           case elementAccepts (ci_name (classInfo (mc_rt m) (classOf (mc_heap m) r))) valueCls (mc_rt m) of
             None \<Rightarrow> raise cfg kClsInternalError ''aastore into primitive-component array'' m
           | Some (rt, ok) \<Rightarrow>
               (let m = m\<lparr>mc_rt := rt\<rparr> in
                if \<not> ok then raise cfg kClsArrayStore (''class '' @ dottedClassName rt valueCls) m
                else storeAt cfg f r idx v m)
         }
       })"

text \<open>The dimensions of \<open>multianewarray\<close>: registers outside the frame count as zero; the first negative one
  stops the loop.\<close>

fun readDims :: "frame \<Rightarrow> nat list \<Rightarrow> (int + int list) option" where
  "readDims f [] = Some (Inr [])"
| "readDims f (r # rs) =
     do {
       d \<leftarrow> (if r < length (fr_regs f) then map_option sint (as_i (fr_regs f ! r)) else Some 0);
       if d < 0 then Some (Inl d) else map_option (map_sum id ((#) d)) (readDims f rs)
     }"

definition multianewarrayStep :: "interp_config \<Rightarrow> frame \<Rightarrow> ins \<Rightarrow> machine \<Rightarrow> status option" where
  "multianewarrayStep cfg f i m =
     (if ins_b i = 0 then raise cfg kClsInternalError ''multianewarray with zero dimensions'' m
      else if ins_b i > kMaxMultiDims then raise cfg kClsInternalError ''multianewarray exceeds 255 dimensions'' m
      else do {
        c \<leftarrow> cpEntry f (ins_imm i);
        if c_str c = [] \<or> hd (c_str c) \<noteq> CHR ''['' then raise cfg kClsInternalError ''multianewarray of non-array class'' m
        else do {
          r \<leftarrow> readDims f [ins_a i..<ins_a i + ins_b i];
          case r of
            Inl d \<Rightarrow> negativeSize cfg d m
          | Inr ds \<Rightarrow>
              (let (rt, cls) = classId (c_str c) (mc_rt m); (rt, arr) = newMultiArray cls ds rt
               in setRegIn (m\<lparr>mc_rt := rt\<rparr>) f (ins_dst i) (VRef arr))
        }
      })"

definition arrayStep :: "interp_config \<Rightarrow> frame \<Rightarrow> ins \<Rightarrow> machine \<Rightarrow> status option" where
  "arrayStep cfg f i m =
     (let v = ins_op i in
      if v = Op_NewArray then newArrayStep cfg f i m
      else if v = Op_AnewArray then anewArrayStep cfg f i m
      else if v = Op_Arraylength then arraylengthStep cfg f i m
      else if v \<le> Op_Saload then arrayLoad cfg f i m
      else if v \<le> Op_Dastore then arrayStore cfg SN_None f i m
      else if v = Op_Aastore then aastoreStep cfg f i m
      else if v = Op_Bastore then arrayStore cfg SN_Byte f i m
      else if v = Op_Castore then arrayStore cfg SN_Char f i m
      else if v = Op_Sastore then arrayStore cfg SN_Short f i m
      else multianewarrayStep cfg f i m)"

section \<open>Objects and monitors\<close>

definition newStep :: "interp_config \<Rightarrow> frame \<Rightarrow> ins \<Rightarrow> machine \<Rightarrow> status option" where
  "newStep cfg f i m =
     do {
       c \<leftarrow> cpEntry f (ins_imm i);
       let (rt, cls) = classId (c_str c) (mc_rt m);
       afterInit cfg cls (m\<lparr>mc_rt := rt\<rparr>) (\<lambda>m.
         let (rt, r) = newInstance cls (mc_rt m) in setRegIn (m\<lparr>mc_rt := rt\<rparr>) f (ins_dst i) (VRef r))
     }"

definition checkcastStep :: "interp_config \<Rightarrow> frame \<Rightarrow> ins \<Rightarrow> machine \<Rightarrow> status option" where
  "checkcastStep cfg f i m =
     do {
       v \<leftarrow> reg f (ins_a i);
       if isNull v then setRegIn m f (ins_dst i) v
       else do {
         c \<leftarrow> cpEntry f (ins_imm i);
         r \<leftarrow> as_obj v;
         let (rt, target) = classId (c_str c) (mc_rt m);
         let actual = classOf (rt_heap rt) r;
         let m = m\<lparr>mc_rt := rt\<rparr>;
         if isAssignableFrom rt target actual then setRegIn m f (ins_dst i) v
         else raise cfg kClsClassCast
           (''class '' @ dottedClassName rt actual @ '' cannot be cast to class '' @ dottedClassName rt target) m
       }
     }"

definition instanceofStep :: "frame \<Rightarrow> ins \<Rightarrow> machine \<Rightarrow> status option" where
  "instanceofStep f i m =
     do {
       v \<leftarrow> reg f (ins_a i);
       if isNull v then setRegIn m f (ins_dst i) (VInt 0)
       else do {
         c \<leftarrow> cpEntry f (ins_imm i);
         r \<leftarrow> as_obj v;
         let (rt, target) = classId (c_str c) (mc_rt m);
         setRegIn (m\<lparr>mc_rt := rt\<rparr>) f (ins_dst i) (VInt (of_bool (isAssignableFrom rt target (classOf (rt_heap rt) r))))
       }
     }"

text \<open>The reactions to a monitor operation: both failures trap, success updates the frame's record.\<close>

definition monitorStep ::
  "interp_config \<Rightarrow> (nat \<Rightarrow> heap \<Rightarrow> heap \<times> mon_fail) \<Rightarrow> (nat \<Rightarrow> nat list \<Rightarrow> nat list) \<Rightarrow> frame \<Rightarrow> ins \<Rightarrow> machine \<Rightarrow> status option" where
  "monitorStep cfg act note f i m =
     do {
       v \<leftarrow> reg f (ins_a i);
       if isNull v then raiseNpe cfg m
       else do {
         r \<leftarrow> as_obj v;
         let (h, mf) = act r (mc_heap m);
         let m = setHeap h m;
         if mf = MF_Null then raiseNpe cfg m
         else if mf = MF_NotOwner then raise cfg kClsIllegalMonitor [] m
         else Some (nextPc m (f\<lparr>fr_monitors := note r (fr_monitors f)\<rparr>))
       }
     }"

definition objectStep :: "interp_config \<Rightarrow> frame \<Rightarrow> ins \<Rightarrow> machine \<Rightarrow> status option" where
  "objectStep cfg f i m =
     (let v = ins_op i in
      if v = Op_New then newStep cfg f i m
      else if v = Op_Checkcast then checkcastStep cfg f i m
      else if v = Op_Instanceof then instanceofStep f i m
      else if v = Op_Monitorenter then monitorStep cfg monitorenter (#) f i m
      else monitorStep cfg monitorexit remove1 f i m)"

section \<open>Calls\<close>

definition noSuchMethod :: "interp_config \<Rightarrow> const \<Rightarrow> machine \<Rightarrow> status option" where
  "noSuchMethod cfg ref m = raise cfg kClsNoSuchMethod (c_str ref @ ''.'' @ c_str2 ref @ c_str3 ref) m"

text \<open>The miss path of a virtual call: the print builtins, then resolution, which fills the cache.\<close>

definition invokeMiss ::
  "interp_config \<Rightarrow> to_chars \<Rightarrow> frame \<Rightarrow> ins \<Rightarrow> nat \<Rightarrow> nat \<Rightarrow> dispatch_site_kind \<Rightarrow> nat \<Rightarrow> const \<Rightarrow> machine \<Rightarrow> status option" where
  "invokeMiss cfg tc f i mIdx site kind recv ref m =
     (let recvCls = classOf (mc_heap m) recv; b = lookupBuiltinVirtual (mc_rt m) recvCls (c_str2 ref) (c_str3 ref) in
      if b \<noteq> B_None then
        (let (rt, ok) = execBuiltin tc b (argSpan f i) (mc_rt m); m = m\<lparr>mc_rt := rt\<rparr> in
         if \<not> ok then raise cfg kClsInternalError ''builtin arity mismatch'' m
         else Some (nextPc (recordDispatch mIdx site kind kDispatchNoRecvClass kDispatchNoTarget m) f))
      else
        case resolveMethod (mc_rt m) ref of
          None \<Rightarrow> noSuchMethod cfg ref m
        | Some target \<Rightarrow>
            callAndRecord cfg i mIdx site kind recvCls target (fillSiteIC mIdx site target recvCls m))"

definition siteKind :: "op \<Rightarrow> dispatch_site_kind" where
  "siteKind v = (if v = Op_Invokevirtual \<or> v = Op_InvokevirtualQuick then DS_Virtual else DS_Interface)"

definition invokeVirtualStep :: "interp_config \<Rightarrow> to_chars \<Rightarrow> nat \<Rightarrow> frame \<Rightarrow> ins \<Rightarrow> machine \<Rightarrow> status option" where
  "invokeVirtualStep cfg tc k f i m =
     do {
       v \<leftarrow> reg f (ins_a i);
       if isNull v then raiseNpe cfg m
       else do {
         ref \<leftarrow> cpEntry f (ins_imm i);
         mIdx \<leftarrow> methodIndex m k;
         recv \<leftarrow> as_obj v;
         let site = fr_pc f;
         let kind = siteKind (ins_op i);
         case icProbe m mIdx site of
           Some cached \<Rightarrow> callAndRecord cfg i mIdx site kind (classOf (mc_heap m) recv) cached (countHit cfg m)
         | None \<Rightarrow> invokeMiss cfg tc f i mIdx site kind recv ref (countMiss cfg m)
       }
     }"

definition invokeVirtualQuickStep :: "interp_config \<Rightarrow> to_chars \<Rightarrow> nat \<Rightarrow> frame \<Rightarrow> ins \<Rightarrow> machine \<Rightarrow> status option" where
  "invokeVirtualQuickStep cfg tc k f i m =
     do {
       v \<leftarrow> reg f (ins_a i);
       if isNull v then raiseNpe cfg m
       else if ins_imm i \<ge> length (code (fr_method f)) then raise cfg kClsInternalError ''quickened call site id out of range'' m
       else do {
         mIdx \<leftarrow> methodIndex m k;
         recv \<leftarrow> as_obj v;
         let site = ins_imm i;
         let kind = siteKind (ins_op i);
         case icProbe m mIdx site of
           Some cached \<Rightarrow> callAndRecord cfg i mIdx site kind (classOf (mc_heap m) recv) cached (countHit cfg m)
         | None \<Rightarrow>
             (let m = countMiss cfg m in
              if ins_imm i \<ge> length (cp (fr_method f))
              then raise cfg kClsInternalError ''quickened virtual call with cold inline cache (v0)'' m
              else
                (let ref = cp (fr_method f) ! ins_imm i in
                 if c_kind ref \<noteq> K_MethodRef \<and> c_kind ref \<noteq> K_InterfaceMethodRef
                 then raise cfg kClsInternalError ''quickened virtual call with cold inline cache (v0)'' m
                 else invokeMiss cfg tc f i mIdx site kind recv ref m))
       }
     }"

definition callDirect :: "interp_config \<Rightarrow> nat \<Rightarrow> frame \<Rightarrow> ins \<Rightarrow> dispatch_site_kind \<Rightarrow> nat \<Rightarrow> machine \<Rightarrow> status option" where
  "callDirect cfg k f i kind target m =
     do { mIdx \<leftarrow> methodIndex m k; callAndRecord cfg i mIdx (fr_pc f) kind kDispatchNoRecvClass target m }"

definition invokespecialStep :: "interp_config \<Rightarrow> nat \<Rightarrow> frame \<Rightarrow> ins \<Rightarrow> machine \<Rightarrow> status option" where
  "invokespecialStep cfg k f i m =
     do {
       v \<leftarrow> reg f (ins_a i);
       if isNull v then raiseNpe cfg m
       else do {
         ref \<leftarrow> cpEntry f (ins_imm i);
         case resolveMethod (mc_rt m) ref of
           None \<Rightarrow> noSuchMethod cfg ref m
         | Some target \<Rightarrow> callDirect cfg k f i DS_Special target m
       }
     }"

definition invokestaticStep :: "interp_config \<Rightarrow> nat \<Rightarrow> frame \<Rightarrow> ins \<Rightarrow> machine \<Rightarrow> status option" where
  "invokestaticStep cfg k f i m =
     do {
       ref \<leftarrow> cpEntry f (ins_imm i);
       case resolveMethod (mc_rt m) ref of
         None \<Rightarrow> noSuchMethod cfg ref m
       | Some target \<Rightarrow> afterInit cfg (mc_programClass m) m (callDirect cfg k f i DS_Static target)
     }"

definition invokespecialQuickStep :: "interp_config \<Rightarrow> nat \<Rightarrow> frame \<Rightarrow> ins \<Rightarrow> machine \<Rightarrow> status option" where
  "invokespecialQuickStep cfg k f i m =
     do {
       v \<leftarrow> reg f (ins_a i);
       if isNull v then raiseNpe cfg m
       else if ins_imm i \<ge> length (methods (mc_program m)) then raise cfg kClsInternalError ''quickened method id out of range'' m
       else callDirect cfg k f i DS_Special (ins_imm i) m
     }"

definition invokestaticQuickStep :: "interp_config \<Rightarrow> nat \<Rightarrow> frame \<Rightarrow> ins \<Rightarrow> machine \<Rightarrow> status option" where
  "invokestaticQuickStep cfg k f i m =
     (if ins_imm i \<ge> length (methods (mc_program m)) then raise cfg kClsInternalError ''quickened method id out of range'' m
      else afterInit cfg (mc_programClass m) m (callDirect cfg k f i DS_Static (ins_imm i)))"

definition invokeStep :: "interp_config \<Rightarrow> to_chars \<Rightarrow> nat \<Rightarrow> frame \<Rightarrow> ins \<Rightarrow> machine \<Rightarrow> status option" where
  "invokeStep cfg tc k f i m =
     (let v = ins_op i in
      if v = Op_Invokevirtual \<or> v = Op_Invokeinterface then invokeVirtualStep cfg tc k f i m
      else if v = Op_Invokespecial then invokespecialStep cfg k f i m
      else if v = Op_Invokestatic then invokestaticStep cfg k f i m
      else if v = Op_Invokedynamic then raise cfg kClsBootstrapMethod kMsgIndyUnsupported m
      else if v = Op_InvokevirtualQuick \<or> v = Op_InvokeinterfaceQuick then invokeVirtualQuickStep cfg tc k f i m
      else if v = Op_InvokespecialQuick then invokespecialQuickStep cfg k f i m
      else invokestaticQuickStep cfg k f i m)"

section \<open>Returns, throws and the step\<close>

definition returnStep :: "frame \<Rightarrow> ins \<Rightarrow> machine \<Rightarrow> status option" where
  "returnStep f i m =
     do {
       retVal \<leftarrow> (if ins_op i = Op_Return then Some VBottom else reg f (ins_a i));
       let m = m\<lparr>mc_rt := releaseMonitorsLIFO (fr_monitors f) (mc_rt m), mc_frames := tl (mc_frames m)\<rparr>;
       let wasClinit = (m_name (fr_method f) = kClinitName \<and> m_descriptor (fr_method f) = kClinitDesc);
       case mc_frames m of
         [] \<Rightarrow> Some (Returned retVal m)
       | (k, caller) # below \<Rightarrow>
           do {
             caller \<leftarrow>
               (if ins_op i \<noteq> Op_Return \<and> parseReturn (m_descriptor (fr_method f)) \<noteq> RT_Bottom then
                  if fr_pc caller < length (code (fr_method caller)) then
                    (let dst = ins_dst (code (fr_method caller) ! fr_pc caller)
                     in Some (if dst < length (fr_regs caller) then caller\<lparr>fr_regs := (fr_regs caller)[dst := retVal]\<rparr> else caller))
                  else None
                else Some caller);
             Some (Running (setTop (if wasClinit then caller else caller\<lparr>fr_pc := fr_pc caller + 1\<rparr>) m))
           }
     }"

definition athrowStep :: "interp_config \<Rightarrow> frame \<Rightarrow> ins \<Rightarrow> machine \<Rightarrow> status option" where
  "athrowStep cfg f i m =
     do {
       v \<leftarrow> reg f (ins_a i);
       if isNull v then raiseNpe cfg m
       else do { r \<leftarrow> as_obj v; throwException cfg r m }
     }"

definition pollStep :: "interp_config \<Rightarrow> to_chars \<Rightarrow> frame \<Rightarrow> machine \<Rightarrow> status option" where
  "pollStep cfg tc f m =
     (let m = count cfg (st_polls_update (\<lambda>n. u64 (n + 1))) m;
          m = (if traceSafepoints cfg
               then m\<lparr>mc_trace := mc_trace m @ dumpFrames tc (mc_rt m) (map snd (mc_frames m))\<rparr> else m)
      in Some (nextPc m f))"

definition dispatch :: "fpu \<Rightarrow> to_chars \<Rightarrow> interp_config \<Rightarrow> nat \<Rightarrow> frame \<Rightarrow> ins \<Rightarrow> machine \<Rightarrow> status option" where
  "dispatch u tc cfg k f i m =
     (let v = ins_op i in
      if v = Op_SafepointPoll then pollStep cfg tc f m
      else if v = Op_Ldc then ldcStep cfg f i m
      else if v \<le> Op_Lookupswitch then continueWith cfg m k (localStep u f i)
      else if v \<le> Op_PutfieldQuick then fieldStep cfg k f i m
      else if v \<le> Op_Multianewarray then arrayStep cfg f i m
      else if v \<le> Op_Monitorexit then objectStep cfg f i m
      else if v \<le> Op_InvokeinterfaceQuick then invokeStep cfg tc k f i m
      else if v \<le> Op_Areturn then returnStep f i m
      else if v = Op_Athrow then athrowStep cfg f i m
      else if v = Op_DeoptTrap then raise cfg kClsInternalError kMsgDeoptTrap m
      else if v \<le> Op_GuardClass then Some (nextPc m f)
      else raise cfg kClsInternalError ''unreachable opcode dispatched'' m)"

definition step :: "fpu \<Rightarrow> to_chars \<Rightarrow> interp_config \<Rightarrow> machine \<Rightarrow> status option" where
  "step u tc cfg m =
     do {
       (k, f) \<leftarrow> topFrame m;
       if fr_pc f \<ge> length (code (fr_method f)) then raise cfg kClsInternalError ''pc out of range (corrupt frame)'' m
       else dispatch u tc cfg k f (code (fr_method f) ! fr_pc f) (count cfg (st_instructions_update (\<lambda>n. u64 (n + 1))) m)
     }"

text \<open>The loop: \<open>None\<close> when it runs forever, \<open>Some None\<close> when a step is undefined.\<close>

partial_function (option) dispatchFrom :: "fpu \<Rightarrow> to_chars \<Rightarrow> interp_config \<Rightarrow> machine \<Rightarrow> status option option" where
  "dispatchFrom u tc cfg m =
     (case step u tc cfg m of
        None \<Rightarrow> Some None
      | Some (Running m') \<Rightarrow> dispatchFrom u tc cfg m'
      | Some s \<Rightarrow> Some (Some s))"

definition dispatchLoop :: "fpu \<Rightarrow> to_chars \<Rightarrow> interp_config \<Rightarrow> machine \<Rightarrow> status option option" where
  "dispatchLoop u tc cfg m0 =
     (let (rt, cls) = classId (className (mc_program m0)) (mc_rt m0); m = m0\<lparr>mc_rt := rt, mc_programClass := cls\<rparr> in
      case mc_frames m of
        (k, f) # below \<Rightarrow>
          if fr_pendingException f \<noteq> 0 then
            case throwException cfg (fr_pendingException f) (setTop (f\<lparr>fr_pendingException := 0\<rparr>) m) of
              None \<Rightarrow> Some None
            | Some (Running m) \<Rightarrow> dispatchFrom u tc cfg m
            | Some s \<Rightarrow> Some (Some s)
          else dispatchFrom u tc cfg m
      | [] \<Rightarrow> dispatchFrom u tc cfg m)"

section \<open>Entry points\<close>

datatype run_status = RS_Returned jvalue | RS_Threw nat | RS_VerifyFailed "verify_diag list"

definition zeroStats :: interp_stats where
  "zeroStats = \<lparr>st_instructions = 0, st_polls = 0, st_calls = 0, st_icHits = 0, st_icMisses = 0, st_exceptions = 0, st_allocations = 0\<rparr>"

definition newInterpreter :: "rprogram \<Rightarrow> machine" where
  "newInterpreter p =
     \<lparr>mc_rt = newRuntime p, mc_frames = [], mc_siteICs = [], mc_profiles = [], mc_stats = zeroStats, mc_trace = [],
      mc_programClass = 0\<rparr>"

definition finish :: "run_status \<Rightarrow> machine \<Rightarrow> run_status \<times> machine" where
  "finish s m = (s, m\<lparr>mc_stats := (mc_stats m)\<lparr>st_allocations := u32 (length (objs (mc_heap m)))\<rparr>\<rparr>)"

definition finishLoop :: "status option option \<Rightarrow> (run_status \<times> machine) option option" where
  "finishLoop r =
     map_option (map_option (\<lambda>s. case s of
        Returned v m \<Rightarrow> finish (RS_Returned v) m | Threw e m \<Rightarrow> finish (RS_Threw e) m | Running m \<Rightarrow> finish (RS_Threw 0) m)) r"

definition failWith :: "interp_config \<Rightarrow> string \<Rightarrow> string \<Rightarrow> machine \<Rightarrow> (run_status \<times> machine) option option" where
  "failWith cfg cls msg m =
     Some (map_option (\<lambda>(rt, exc). finish (RS_Threw exc) (countException cfg (m\<lparr>mc_rt := rt\<rparr>))) (makeException cls msg (mc_rt m)))"

definition firstRejected :: "rmethod list \<Rightarrow> rmethod option" where
  "firstRejected ms = find (\<lambda>mt. \<not> vr_ok (verify mt)) ms"

text \<open>The lock of a synchronized entry: \<open>Inl\<close> the exception class when it cannot be taken.\<close>

definition entryLock :: "rmethod \<Rightarrow> jvalue list \<Rightarrow> runtime \<Rightarrow> (runtime \<times> (string + nat)) option" where
  "entryLock entry args rt =
     (if \<not> isStatic entry \<and> (args = [] \<or> isNull (hd args)) then Some (rt, Inl kClsNullPointer)
      else do {
        (rt, lock) \<leftarrow>
          (if isStatic entry
           then (let (rt, cls) = classId (className (rt_program rt)) rt in Some (classObject cls rt))
           else map_option (Pair rt) (as_obj (hd args)));
        let (h, mf) = monitorenter lock (rt_heap rt);
        let rt = rt\<lparr>rt_heap := h\<rparr>;
        Some (rt, if mf \<noteq> MF_None then Inl kClsIllegalMonitor else Inr lock)
      })"

definition run :: "fpu \<Rightarrow> to_chars \<Rightarrow> interp_config \<Rightarrow> string \<Rightarrow> string \<Rightarrow> jvalue list \<Rightarrow> machine
    \<Rightarrow> (run_status \<times> machine) option option" where
  "run u tc cfg name descriptor args m0 =
     (let m = m0\<lparr>mc_stats := zeroStats, mc_trace := []\<rparr>; ms = methods (mc_program m) in
      case firstRejected ms of
        Some mt \<Rightarrow> Some (Some (finish (RS_VerifyFailed (vr_diags (verify mt))) m))
      | None \<Rightarrow>
          (case methodIndexOf name descriptor ms of
             None \<Rightarrow> failWith cfg kClsNoSuchMethod (name @ descriptor) m
           | Some k \<Rightarrow>
               (let entry = ms ! k; required = paramCount descriptor + (if isStatic entry then 0 else 1) in
                if length args < required
                then failWith cfg kClsInternalError (''entry arguments insufficient for '' @ name @ descriptor) m
                else
                  (let f = newFrame entry 0 args; start = (\<lambda>f rt.
                         finishLoop (dispatchLoop u tc cfg (m\<lparr>mc_rt := bumpInvocations (u32 k) rt, mc_frames := [(k, f)]\<rparr>))) in
                   if \<not> isSynchronized entry then start f (mc_rt m)
                   else
                     case entryLock entry args (mc_rt m) of
                       None \<Rightarrow> Some None
                     | Some (rt, Inl cls) \<Rightarrow> failWith cfg cls [] (m\<lparr>mc_rt := rt, mc_frames := []\<rparr>)
                     | Some (rt, Inr lock) \<Rightarrow> start (f\<lparr>fr_monitors := [lock]\<rparr>) rt))))"

definition padTo :: "nat \<Rightarrow> jvalue list \<Rightarrow> jvalue list" where
  "padTo n vs = (if length vs < n then resize n VBottom vs else vs)"

text \<open>The frame passed to \<open>resume\<close> names its method by a position; one outside the program, or a frame that
  does not match the program at that position, is a pointer outside the method table.\<close>

definition resume :: "fpu \<Rightarrow> to_chars \<Rightarrow> interp_config \<Rightarrow> mframe \<Rightarrow> machine \<Rightarrow> (run_status \<times> machine) option option" where
  "resume u tc cfg fr m0 =
     (let m = m0\<lparr>mc_stats := zeroStats, mc_trace := []\<rparr>; ms = methods (mc_program m); (k, f) = fr in
      case firstRejected ms of
        Some mt \<Rightarrow> Some (Some (finish (RS_VerifyFailed (vr_diags (verify mt))) m))
      | None \<Rightarrow>
          if k \<ge> length ms \<or> fr_method f \<noteq> ms ! k \<or> fr_pc f \<ge> length (code (fr_method f))
          then failWith cfg kClsInternalError ''resume frame does not match the program'' m
          else
            (let f = f\<lparr>fr_locals := padTo (numLocals (fr_method f)) (fr_locals f), fr_regs := padTo (numRegs (fr_method f)) (fr_regs f)\<rparr>
             in finishLoop (dispatchLoop u tc cfg (m\<lparr>mc_frames := [(k, f)]\<rparr>))))"

end
