(* ===== verification/Interp_HeapOk.thy ===== *)
theory Interp_HeapOk
  imports Interp_Heap
begin

text \<open>
  What the object store promises. Fields and elements are slot stores (locale \<open>slot_store\<close>: a
  read sees the last write to its key and no other); the two instances are the interpretations
  \<open>fld\<close> and \<open>elm\<close>. The invariant \<open>heapOk\<close> ties arrays to their length, monitors to their
  owner and the interning table to the strings it names, and holds in every store that the operations
  build.
\<close>

section \<open>Slot stores\<close>

locale slot_store =
  fixes get :: "'h \<Rightarrow> 'k \<Rightarrow> 'v"
    and put :: "'k \<Rightarrow> 'v \<Rightarrow> 'h \<Rightarrow> 'h"
    and writable :: "'h \<Rightarrow> 'k \<Rightarrow> bool"
  assumes get_put: "writable h k \<Longrightarrow> get (put k v h) k = v"
    and get_put_other: "k' \<noteq> k \<Longrightarrow> get (put k v h) k' = get h k'"
    and writable_put: "writable (put k v h) k' \<longleftrightarrow> writable h k'"
begin

lemma writable_writes: "writable (fold (\<lambda>(k, v). put k v) ws h) k \<longleftrightarrow> writable h k"
  by (induction ws arbitrary: h) (auto simp: writable_put split: prod.split)

lemma last_write:
  assumes "writable h k"
  shows "get (fold (\<lambda>(k, v). put k v) ws h) k = (case map_of (rev ws) k of None \<Rightarrow> get h k | Some v \<Rightarrow> v)"
proof (induction ws rule: rev_induct)
  case (snoc w ws)
  obtain k' v where w: "w = (k', v)" by fastforce
  show ?case
  proof (cases "k' = k")
    case True
    then show ?thesis using assms writable_writes [of ws h k] by (simp add: w get_put)
  next
    case False
    then show ?thesis using snoc by (simp add: w get_put_other)
  qed
qed simp

lemma put_commute_get:
  assumes "k \<noteq> k'"
  shows "get (put k v (put k' v' h)) k'' = get (put k' v' (put k v h)) k'' \<or> \<not> writable h k''"
  using assms by (cases "k'' = k"; cases "k'' = k'") (auto simp: get_put get_put_other writable_put)

end

section \<open>Objects\<close>

lemma obj_None: "obj h r = None \<longleftrightarrow> r = 0 \<or> length (objs h) < r"
  by (simp add: obj_def)

lemma obj_SomeD: "obj h r = Some ob \<Longrightarrow> 0 < r \<and> r \<le> length (objs h) \<and> objs h ! (r - 1) = ob"
  by (auto simp: obj_def split: if_split_asm)

lemma obj_mem: "obj h r = Some ob \<Longrightarrow> ob \<in> set (objs h)"
  using obj_SomeD [of h r ob] nth_mem [of "r - 1" "objs h"] by auto

lemma obj_setObj:
  "obj h r = Some ob \<Longrightarrow> obj (setObj r ob' h) q = (if q = r then Some ob' else obj h q)"
  by (auto simp: obj_def setObj_def nth_list_update split: if_split_asm)

lemma interned_setObj [simp]: "interned (setObj r ob h) = interned h"
  by (simp add: setObj_def)

lemma length_setObj [simp]: "length (objs (setObj r ob h)) = length (objs h)"
  by (simp add: setObj_def)

lemma obj_pushObj:
  assumes "pushObj ob h = (h', r)" "length (objs h) < 2 ^ 32 - 1"
  shows "r = Suc (length (objs h))" "obj h r = None" "obj h' r = Some ob"
    and "q \<noteq> r \<Longrightarrow> obj h' q = obj h q" "interned h' = interned h" "length (objs h') = Suc (length (objs h))"
  using assms by (auto simp: pushObj_def obj_def nth_append Let_def)

lemma length_resize [simp]: "length (resize n x xs) = n"
  by (simp add: resize_def)

lemma nth_resize: "i < n \<Longrightarrow> resize n x xs ! i = (if i < length xs then xs ! i else x)"
  by (auto simp: resize_def nth_append min_def)

text \<open>The value a field slot holds; slots past the end have never been written.\<close>

definition slotAt :: "heap_obj \<Rightarrow> nat \<Rightarrow> jvalue" where
  "slotAt ob i = (if i < length (ho_slots ob) then ho_slots ob ! i else VBottom)"

lemma growSlots_same [simp]:
  "ho_kind (growSlots s ob) = ho_kind ob" "ho_cls (growSlots s ob) = ho_cls ob"
  "ho_str (growSlots s ob) = ho_str ob" "ho_elem (growSlots s ob) = ho_elem ob"
  "ho_length (growSlots s ob) = ho_length ob" "ho_owner (growSlots s ob) = ho_owner ob"
  "ho_count (growSlots s ob) = ho_count ob"
  by (simp_all add: growSlots_def)

lemma growSlots_in: "s < 2 ^ 32 - 1 \<Longrightarrow> s < length (ho_slots (growSlots s ob))"
  by (simp add: growSlots_def)

lemma slotAt_grow: "s < length (ho_slots (growSlots s ob)) \<Longrightarrow> slotAt (growSlots s ob) i = slotAt ob i"
proof -
  assume s: "s < length (ho_slots (growSlots s ob))"
  have "length (ho_slots ob) \<le> u32 (s + 1)" if "\<not> s < length (ho_slots ob)"
    using s that by (simp add: growSlots_def)
  then show ?thesis by (auto simp: slotAt_def growSlots_def nth_resize)
qed

lemma slotAt_update:
  "i < length (ho_slots ob) \<Longrightarrow> slotAt (ob\<lparr>ho_slots := (ho_slots ob)[i := v]\<rparr>) j = (if j = i then v else slotAt ob j)"
  by (simp add: slotAt_def)

definition fieldAt :: "heap \<Rightarrow> nat \<times> nat \<Rightarrow> jvalue" where
  "fieldAt h k = (case loadField (fst k) (snd k) h of None \<Rightarrow> VBottom | Some (h', v) \<Rightarrow> v)"

definition setField :: "nat \<times> nat \<Rightarrow> jvalue \<Rightarrow> heap \<Rightarrow> heap" where
  "setField k v h = (case storeField (fst k) (snd k) v h of None \<Rightarrow> h | Some (h', b) \<Rightarrow> h')"

definition fieldOk :: "heap \<Rightarrow> nat \<times> nat \<Rightarrow> bool" where
  "fieldOk h k \<longleftrightarrow> isInstance h (fst k) \<and> snd k < 2 ^ 32 - 1"

lemma fieldAt_eq:
  "fieldAt h k = (case obj h (fst k) of
     None \<Rightarrow> VBottom | Some ob \<Rightarrow> if ho_kind ob = Instance then slotAt ob (snd k) else VBottom)"
proof (cases "obj h (fst k)")
  case (Some ob)
  let ?ob = "growSlots (snd k) ob"
  have "snd k < length (ho_slots ?ob) \<or> \<not> snd k < length (ho_slots ob)"
    by (auto simp: growSlots_def)
  then show ?thesis using Some slotAt_grow [of "snd k" ob "snd k"]
    by (auto simp: fieldAt_def loadField_def Let_def slotAt_def)
qed (simp add: fieldAt_def loadField_def)

lemma setField_cases:
  obtains "setField k v h = h" "\<not> fieldOk h k"
  | ob where "obj h (fst k) = Some ob" "ho_kind ob = Instance"
      "setField k v h = setObj (fst k) ((growSlots (snd k) ob)\<lparr>ho_slots := (ho_slots (growSlots (snd k) ob))[snd k := v]\<rparr>) h"
      "snd k < length (ho_slots (growSlots (snd k) ob))"
proof (cases "\<exists>ob. obj h (fst k) = Some ob \<and> ho_kind ob = Instance \<and> snd k < length (ho_slots (growSlots (snd k) ob))")
  case True
  then show ?thesis using that(2) by (fastforce simp: setField_def storeField_def Let_def)
next
  case False
  then have "setField k v h = h" by (auto simp: setField_def storeField_def Let_def split: option.split)
  moreover have "\<not> fieldOk h k"
    using False growSlots_in [of "snd k"] by (auto simp: fieldOk_def isInstance_def split: option.split_asm)
  ultimately show ?thesis by (rule that(1))
qed

interpretation fld: slot_store fieldAt setField fieldOk
proof unfold_locales
  fix h k v k'
  show "fieldAt (setField k v h) k = v" if "fieldOk h k"
    by (rule setField_cases [of k v h]) (use that in \<open>simp_all add: fieldAt_eq obj_setObj slotAt_update\<close>)
  show "fieldAt (setField k v h) k' = fieldAt h k'" if "k' \<noteq> k"
    by (rule setField_cases [of k v h])
      (use that in \<open>cases k; cases k'; auto simp: fieldAt_eq obj_setObj slotAt_update slotAt_grow\<close>)+
  show "fieldOk (setField k v h) k' \<longleftrightarrow> fieldOk h k'"
    by (rule setField_cases [of k v h]) (auto simp: fieldOk_def isInstance_def obj_setObj)
qed

definition elemAt :: "heap \<Rightarrow> nat \<times> nat \<Rightarrow> jvalue" where
  "elemAt h k = loadElem h (fst k) (snd k)"

definition setElem :: "nat \<times> nat \<Rightarrow> jvalue \<Rightarrow> heap \<Rightarrow> heap" where
  "setElem k v h = fst (storeElem (fst k) (snd k) v h)"

definition elemOk :: "heap \<Rightarrow> nat \<times> nat \<Rightarrow> bool" where
  "elemOk h k \<longleftrightarrow> snd (storeElem (fst k) (snd k) VBottom h)"

lemma elemOk_eq:
  "elemOk h k \<longleftrightarrow> (\<exists>ob. obj h (fst k) = Some ob \<and> ho_kind ob = Array \<and> snd k < length (ho_slots ob))"
  by (auto simp: elemOk_def storeElem_def split: option.split)

lemma setElem_eq:
  "obj h (fst k) = Some ob \<Longrightarrow> ho_kind ob = Array \<Longrightarrow> snd k < length (ho_slots ob) \<Longrightarrow>
     setElem k v h = setObj (fst k) (ob\<lparr>ho_slots := (ho_slots ob)[snd k := v]\<rparr>) h"
  "\<not> elemOk h k \<Longrightarrow> setElem k v h = h"
  by (auto simp: setElem_def storeElem_def elemOk_def split: option.split)

interpretation elm: slot_store elemAt setElem elemOk
proof unfold_locales
  fix h k v k'
  show "elemAt (setElem k v h) k = v" if "elemOk h k"
    using that unfolding elemOk_eq by (auto simp: setElem_eq(1) elemAt_def loadElem_def obj_setObj)
  show "elemAt (setElem k v h) k' = elemAt h k'" if "k' \<noteq> k"
  proof (cases "elemOk h k")
    case True
    then obtain ob where "obj h (fst k) = Some ob" "ho_kind ob = Array" "snd k < length (ho_slots ob)"
      unfolding elemOk_eq by blast
    then show ?thesis using that
      by (cases k; cases k') (auto simp: setElem_eq(1) elemAt_def loadElem_def obj_setObj)
  qed (simp add: setElem_eq)
  show "elemOk (setElem k v h) k' \<longleftrightarrow> elemOk h k'"
  proof (cases "elemOk h k")
    case True
    then show ?thesis by (auto simp: elemOk_eq setElem_eq(1) obj_setObj split: if_split_asm)
  qed (simp add: setElem_eq)
qed

section \<open>The invariant\<close>

definition objOk :: "heap_obj \<Rightarrow> bool" where
  "objOk ob \<longleftrightarrow> (ho_kind ob = Array \<longrightarrow> length (ho_slots ob) = ho_length ob)
     \<and> (ho_owner ob = 0 \<and> ho_count ob = 0 \<or> ho_owner ob = kOwnerThread \<and> 0 < ho_count ob)"

text \<open>\<open>sc\<close> is the class the runtime passes to every call of \<open>internString\<close>.\<close>

definition heapOk :: "nat \<Rightarrow> heap \<Rightarrow> bool" where
  "heapOk sc h \<longleftrightarrow> (\<forall>ob\<in>set (objs h). objOk ob) \<and> distinct (map fst (interned h))
     \<and> (\<forall>(s, r)\<in>set (interned h). \<exists>ob. obj h r = Some ob \<and> ho_kind ob = Instance \<and> ho_cls ob = sc \<and> ho_str ob = s)"

definition frozen :: "heap_obj \<Rightarrow> heap_obj \<Rightarrow> bool" where
  "frozen ob ob' \<longleftrightarrow> ho_kind ob' = ho_kind ob \<and> ho_cls ob' = ho_cls ob \<and> ho_str ob' = ho_str ob"

lemma objOk_obj: "heapOk sc h \<Longrightarrow> obj h r = Some ob \<Longrightarrow> objOk ob"
  using obj_mem [of h r ob] by (auto simp: heapOk_def)

lemma heapOk_internedD:
  "heapOk sc h \<Longrightarrow> (s, r) \<in> set (interned h) \<Longrightarrow>
     \<exists>ob. obj h r = Some ob \<and> ho_kind ob = Instance \<and> ho_cls ob = sc \<and> ho_str ob = s"
  by (auto simp: heapOk_def)

lemma heapOk_setObj:
  assumes "heapOk sc h" "obj h r = Some ob" "objOk ob'" "frozen ob ob'"
  shows "heapOk sc (setObj r ob' h)"
proof -
  have "\<exists>x. obj (setObj r ob' h) q = Some x \<and> ho_kind x = Instance \<and> ho_cls x = sc \<and> ho_str x = s"
    if "(s, q) \<in> set (interned h)" for s q
    using heapOk_internedD [OF assms(1) that] assms(2,4) by (auto simp: obj_setObj frozen_def)
  moreover have "objOk x" if "x \<in> set (objs (setObj r ob' h))" for x
    using that assms(1,3) set_update_subset_insert [of "objs h" "r - 1" ob'] by (auto simp: heapOk_def setObj_def)
  ultimately show ?thesis using assms(1) by (auto simp: heapOk_def)
qed

lemma heapOk_push:
  assumes "heapOk sc h" "pushObj ob h = (h', r)" "objOk ob" "length (objs h) < 2 ^ 32 - 1"
  shows "heapOk sc h'"
proof -
  note p = obj_pushObj [OF assms(2,4)]
  have "\<exists>x. obj h' q = Some x \<and> ho_kind x = Instance \<and> ho_cls x = sc \<and> ho_str x = s"
    if "(s, q) \<in> set (interned h)" for s q
    using heapOk_internedD [OF assms(1) that] p(2,4) by (cases "q = r") auto
  moreover have "set (objs h') = insert ob (set (objs h))" using assms(2) by (auto simp: pushObj_def Let_def)
  ultimately show ?thesis using assms(1,3) p(5) by (auto simp: heapOk_def)
qed

lemma heapOk_intern:
  assumes "heapOk sc h" "internString s sc h = (h', r)" "length (objs h) < 2 ^ 32 - 1"
  shows "heapOk sc h'" "map_of (interned h') s = Some r" "q \<noteq> r \<or> obj h r \<noteq> None \<Longrightarrow> obj h' q = obj h q"
    and "length (objs h') \<le> Suc (length (objs h))"
    and "map_of (interned h) t = Some q' \<Longrightarrow> map_of (interned h') t = Some q'"
proof -
  have "heapOk sc h' \<and> map_of (interned h') s = Some r \<and> (q \<noteq> r \<or> obj h r \<noteq> None \<longrightarrow> obj h' q = obj h q)
    \<and> length (objs h') \<le> Suc (length (objs h))
    \<and> (map_of (interned h) t = Some q' \<longrightarrow> map_of (interned h') t = Some q')"
  proof (cases "map_of (interned h) s")
    case (Some r')
    then show ?thesis using assms by (simp add: internString_def)
  next
    case None
    obtain h1 where h1: "allocString s sc h = (h1, r)" "h' = h1\<lparr>interned := interned h1 @ [(s, r)]\<rparr>"
      using assms(2) None by (auto simp: internString_def split: prod.split_asm)
    note p = obj_pushObj [OF h1(1) [unfolded allocString_def] assms(3)]
    have "heapOk sc h1"
      by (rule heapOk_push [OF assms(1) h1(1) [unfolded allocString_def] _ assms(3)]) (simp add: objOk_def newObj_def)
    moreover have "obj h' = obj h1" by (simp add: h1(2) obj_def fun_eq_iff)
    moreover have "map_of (interned h') t = (if t = s then Some r else map_of (interned h) t)" for t
      using None p(5) by (simp add: h1(2) map_add_def split: option.split)
    moreover have "s \<notin> fst ` set (interned h)" using None by (simp add: map_of_eq_None_iff)
    ultimately show ?thesis using None p by (auto simp: h1(2) heapOk_def newObj_def)
  qed
  then show "heapOk sc h'" "map_of (interned h') s = Some r" "q \<noteq> r \<or> obj h r \<noteq> None \<Longrightarrow> obj h' q = obj h q"
    "length (objs h') \<le> Suc (length (objs h))"
    "map_of (interned h) t = Some q' \<Longrightarrow> map_of (interned h') t = Some q'" by blast+
qed

section \<open>Stores that the operations build\<close>

inductive heapRun :: "nat \<Rightarrow> nat \<Rightarrow> heap \<Rightarrow> bool" for sc where
  run_init: "heapRun sc 0 emptyHeap"
| run_instance: "heapRun sc n h \<Longrightarrow> allocInstance cls k h = (h', r) \<Longrightarrow> heapRun sc (Suc n) h'"
| run_array: "heapRun sc n h \<Longrightarrow> allocArray cls t k h = (h', r) \<Longrightarrow> heapRun sc (Suc n) h'"
| run_getfield: "heapRun sc n h \<Longrightarrow> loadField r i h = Some (h', v) \<Longrightarrow> heapRun sc (Suc n) h'"
| run_putfield: "heapRun sc n h \<Longrightarrow> storeField r i v h = Some (h', b) \<Longrightarrow> heapRun sc (Suc n) h'"
| run_putelem: "heapRun sc n h \<Longrightarrow> storeElem r i v h = (h', b) \<Longrightarrow> heapRun sc (Suc n) h'"
| run_enter: "heapRun sc n h \<Longrightarrow> monitorenter r h = (h', f) \<Longrightarrow> heapRun sc (Suc n) h'"
| run_exit: "heapRun sc n h \<Longrightarrow> monitorexit r h = (h', f) \<Longrightarrow> heapRun sc (Suc n) h'"
| run_intern: "heapRun sc n h \<Longrightarrow> internString s sc h = (h', r) \<Longrightarrow> heapRun sc (Suc n) h'"

text \<open>Every operation adds at most one object and one monitor level.\<close>

definition within :: "nat \<Rightarrow> heap \<Rightarrow> bool" where
  "within n h \<longleftrightarrow> length (objs h) \<le> n \<and> (\<forall>ob\<in>set (objs h). ho_count ob \<le> n)"

definition heapIn :: "nat \<Rightarrow> nat \<Rightarrow> heap \<Rightarrow> bool" where
  "heapIn sc n h \<longleftrightarrow> heapOk sc h \<and> within n h"

lemma heapIn_Suc: "heapIn sc n h \<Longrightarrow> heapIn sc (Suc n) h"
  by (auto simp: heapIn_def within_def)

lemma heapIn_obj: "heapIn sc n h \<Longrightarrow> obj h r = Some ob \<Longrightarrow> objOk ob \<and> ho_count ob \<le> n"
  using obj_mem [of h r ob] objOk_obj [of sc h r ob] by (auto simp: heapIn_def within_def)

lemma heapIn_setObj:
  assumes "heapIn sc n h" "obj h r = Some ob" "objOk ob'" "frozen ob ob'" "ho_count ob' \<le> Suc n"
  shows "heapIn sc (Suc n) (setObj r ob' h)"
proof -
  have "within (Suc n) (setObj r ob' h)"
    using assms(1,5) set_update_subset_insert [of "objs h" "r - 1" ob']
    by (force simp: heapIn_def within_def setObj_def le_Suc_eq)
  then show ?thesis using assms heapOk_setObj [of sc h r ob ob'] by (simp add: heapIn_def)
qed

lemma heapIn_push:
  assumes "heapIn sc n h" "pushObj ob h = (h', r)" "objOk ob" "ho_count ob = 0" "n < 2 ^ 32 - 1"
  shows "heapIn sc (Suc n) h'"
proof -
  have "within (Suc n) h'" using assms by (auto simp: heapIn_def within_def pushObj_def Let_def le_Suc_eq)
  then show ?thesis using assms heapOk_push [OF _ assms(2,3)] by (auto simp: heapIn_def within_def)
qed

lemma heapIn_alloc:
  assumes "heapIn sc n h" "n < 2 ^ 32 - 1"
  shows "allocInstance cls k h = (h', r) \<Longrightarrow> heapIn sc (Suc n) h'"
    and "allocArray cls t k h = (h', r) \<Longrightarrow> heapIn sc (Suc n) h'"
  unfolding allocInstance_def allocArray_def
  by (erule heapIn_push [OF assms(1) _ _ _ assms(2)]; simp add: objOk_def newObj_def)+

lemma heapIn_field:
  assumes "heapIn sc n h"
  shows "loadField r i h = Some (h', v) \<Longrightarrow> heapIn sc (Suc n) h'"
    and "storeField r i v' h = Some (h'', b) \<Longrightarrow> heapIn sc (Suc n) h''"
proof -
  have "heapIn sc (Suc n) (setObj r (growSlots i ob) h) \<and>
    heapIn sc (Suc n) (setObj r ((growSlots i ob)\<lparr>ho_slots := xs\<rparr>) h)"
    if "obj h r = Some ob" "ho_kind ob = Instance" for ob xs
    using heapIn_setObj [OF assms that(1)] heapIn_obj [OF assms that(1)] that(2)
    by (simp add: objOk_def frozen_def)
  then show "loadField r i h = Some (h', v) \<Longrightarrow> heapIn sc (Suc n) h'"
    "storeField r i v' h = Some (h'', b) \<Longrightarrow> heapIn sc (Suc n) h''"
    using heapIn_Suc [OF assms]
    by (auto simp: loadField_def storeField_def Let_def split: option.split_asm if_split_asm)
qed

lemma heapIn_elem: "heapIn sc n h \<Longrightarrow> storeElem r i v h = (h', b) \<Longrightarrow> heapIn sc (Suc n) h'"
  using heapIn_setObj [of sc n h r] heapIn_obj [of sc n h r] heapIn_Suc [of sc n h]
  by (auto simp: storeElem_def objOk_def frozen_def split: option.split_asm if_split_asm)

lemma heapIn_enter:
  assumes "heapIn sc n h" "monitorenter r h = (h', f)" "n < 2 ^ 32 - 1"
  shows "heapIn sc (Suc n) h'"
proof (cases "obj h r")
  case (Some ob)
  note ob = heapIn_obj [OF assms(1) Some]
  then have "u32 (ho_count ob + 1) = ho_count ob + 1" using assms(3) by simp
  then show ?thesis
    using assms(2) ob heapIn_setObj [OF assms(1) Some] heapIn_Suc [OF assms(1)] Some
    by (auto simp: monitorenter_def objOk_def frozen_def kOwnerThread_def split: if_split_asm)
qed (use assms heapIn_Suc in \<open>auto simp: monitorenter_def\<close>)

lemma heapIn_exit: "heapIn sc n h \<Longrightarrow> monitorexit r h = (h', f) \<Longrightarrow> heapIn sc (Suc n) h'"
  using heapIn_setObj [of sc n h r] heapIn_obj [of sc n h r] heapIn_Suc [of sc n h]
  by (auto simp: monitorexit_def objOk_def frozen_def kOwnerThread_def Let_def split: option.split_asm if_split_asm)

lemma heapIn_intern:
  assumes "heapIn sc n h" "internString s sc h = (h', r)" "n < 2 ^ 32 - 1"
  shows "heapIn sc (Suc n) h'"
proof -
  have ok: "heapOk sc h" "length (objs h) < 2 ^ 32 - 1" using assms by (auto simp: heapIn_def within_def)
  have "within (Suc n) h'" using assms(1,2)
    by (auto simp: internString_def allocString_def pushObj_def newObj_def heapIn_def within_def Let_def le_Suc_eq
        split: option.split_asm)
  then show ?thesis using heapOk_intern(1) [OF ok(1) assms(2) ok(2)] by (simp add: heapIn_def)
qed

lemmas heapIn_steps = heapIn_alloc heapIn_field heapIn_elem heapIn_enter heapIn_exit heapIn_intern

lemma heapRun_in: "heapRun sc n h \<Longrightarrow> n < 2 ^ 32 - 1 \<Longrightarrow> heapIn sc n h"
proof (induction rule: heapRun.induct)
  case run_init
  show ?case by (simp add: heapIn_def emptyHeap_def heapOk_def within_def)
qed (force intro: heapIn_steps)+

section \<open>Properties\<close>

lemma load_transparent:
  assumes "loadField r i h = Some (h', v)"
  shows "fieldAt h' k = fieldAt h k" "elemAt h' k = elemAt h k"
proof -
  have "h' = h \<or> (\<exists>ob. obj h r = Some ob \<and> ho_kind ob = Instance \<and> i < length (ho_slots (growSlots i ob))
      \<and> h' = setObj r (growSlots i ob) h)"
    using assms by (auto simp: loadField_def Let_def split: option.split_asm if_split_asm)
  then show "fieldAt h' k = fieldAt h k" "elemAt h' k = elemAt h k"
    by (cases "fst k = r"; auto simp: fieldAt_eq elemAt_def loadElem_def obj_setObj slotAt_grow)+
qed

text \<open>Property C31. After any sequence of stores, a field of a live instance and an element of an array
  in range hold the last value stored under their own object and index, or what they held before if
  there was none; reading a field, although it may grow the object, changes no field and no element.\<close>

theorem heap_last_write:
  assumes "fieldOk h k" "elemOk h e" "loadField r i h = Some (h', v)"
  shows "fieldAt (fold (\<lambda>(k, v). setField k v) ws h) k = (case map_of (rev ws) k of None \<Rightarrow> fieldAt h k | Some v \<Rightarrow> v)
    \<and> elemAt (fold (\<lambda>(k, v). setElem k v) ws h) e = (case map_of (rev ws) e of None \<Rightarrow> elemAt h e | Some v \<Rightarrow> v)
    \<and> fieldAt h' k' = fieldAt h k' \<and> elemAt h' k' = elemAt h k'"
  using fld.last_write [OF assms(1)] elm.last_write [OF assms(2)] load_transparent [OF assms(3)] by blast

definition twoObjects :: heap where
  "twoObjects = fst (allocArray 9 RT_Int 2 (fst (allocInstance 5 1 emptyHeap)))"

lemmas twoObjects_eval = twoObjects_def allocArray_def allocInstance_def pushObj_def emptyHeap_def newObj_def

theorem heap_last_write_witness:
  "fieldAt (fold (\<lambda>(k, v). setField k v) [((1, 3), VInt 4), ((1, 0), VNull), ((1, 3), VInt 7)] twoObjects) (1, 3) = VInt 7
   \<and> elemAt (fold (\<lambda>(k, v). setElem k v) [((2, 1), VInt 4), ((2, 0), VInt 9)] twoObjects) (2, 1) = VInt 4"
proof -
  have "fieldOk twoObjects (1, 3)" "elemOk twoObjects (2, 1)"
    by (simp_all add: fieldOk_def isInstance_def elemOk_eq obj_def twoObjects_eval)
  moreover obtain h' where "loadField 1 0 twoObjects = Some (h', VBottom)"
    by (simp add: loadField_def twoObjects_eval obj_def growSlots_def Let_def)
  ultimately have *: "fieldAt (fold (\<lambda>(k, v). setField k v) ws twoObjects) (1, 3) =
        (case map_of (rev ws) (1, 3) of None \<Rightarrow> fieldAt twoObjects (1, 3) | Some v \<Rightarrow> v)"
      "elemAt (fold (\<lambda>(k, v). setElem k v) ws twoObjects) (2, 1) =
        (case map_of (rev ws) (2, 1) of None \<Rightarrow> elemAt twoObjects (2, 1) | Some v \<Rightarrow> v)" for ws
    using heap_last_write by blast+
  show ?thesis by (simp only: *) simp
qed

lemma isString_iff:
  assumes "heapOk sc h"
  shows "isString h r \<longleftrightarrow> interned h \<noteq> [] \<and> (\<exists>ob. obj h r = Some ob \<and> ho_kind ob = Instance \<and> ho_cls ob = sc)"
proof (cases "interned h")
  case (Cons x xs)
  then have "(fst x, snd x) \<in> set (interned h)" by simp
  from heapOk_internedD [OF assms this] show ?thesis using Cons
    by (auto simp: isString_def split: option.split)
qed (simp add: isString_def split: option.split)

lemma intern_found:
  assumes "heapOk sc h" "map_of (interned h) s = Some r"
  shows "internString s sc h = (h, r)" "stringOf h r = s" "isString h r"
    and "\<exists>ob. obj h r = Some ob \<and> ho_str ob = s"
proof -
  have i: "(s, r) \<in> set (interned h)" using assms(2) by (rule map_of_SomeD)
  note ob = heapOk_internedD [OF assms(1) i]
  show str: "isString h r" using ob i isString_iff [OF assms(1)] by (cases "interned h") auto
  show "internString s sc h = (h, r)" using assms(2) by (simp add: internString_def)
  show "stringOf h r = s" "\<exists>ob. obj h r = Some ob \<and> ho_str ob = s" using ob str by (auto simp: stringOf_def)
qed

text \<open>Property C30. In every object store that the operations build, arrays have as many slots as
  their length, monitors are free exactly when their count is zero, and interning works: the string
  object found or created for a text carries that text, is recognised as a string whatever entry of
  the table serves as the anchor, is returned again later, and differs from the object of another text.\<close>

theorem heap_invariant:
  assumes "heapRun sc n h" "n < 2 ^ 32 - 2"
    and "internString s sc h = (h1, r)" "internString t sc h1 = (h2, q)"
  shows "heapOk sc h \<and> heapOk sc h2 \<and> stringOf h2 r = s \<and> stringOf h2 q = t \<and> isString h2 r
    \<and> internString s sc h2 = (h2, r) \<and> (r = q \<longleftrightarrow> s = t)"
proof -
  have h: "heapOk sc h" "length (objs h) \<le> n"
    using heapRun_in [OF assms(1)] assms(2) by (simp_all add: heapIn_def within_def)
  note i1 = heapOk_intern [OF h(1) assms(3)]
  have l: "length (objs h) < 2 ^ 32 - 1" "length (objs h1) < 2 ^ 32 - 1" using h assms(2) i1(4) by auto
  note i2 = heapOk_intern [OF i1(1) [OF l(1)] assms(4) l(2)]
  have r: "map_of (interned h2) s = Some r" "map_of (interned h2) t = Some q"
    using i2(2,5) i1(2) [OF l(1)] by auto
  note f = intern_found [OF i2(1) r(1)] intern_found [OF i2(1) r(2)]
  have "r = q \<longleftrightarrow> s = t" using f(4,8) r by auto
  then show ?thesis using h f i2(1) by blast
qed

lemma twoObjects_run: "heapRun 7 2 twoObjects"
proof -
  have "heapRun 7 (Suc 0) (fst (allocInstance 5 1 emptyHeap))"
    by (rule run_instance [OF run_init, of 5 1 _ 1]) (simp add: twoObjects_eval)
  then have "heapRun 7 (Suc (Suc 0)) twoObjects"
    by (rule run_array [of 7 _ _ 9 RT_Int 2 _ 2]) (simp add: twoObjects_eval)
  then show ?thesis by (simp add: numeral_2_eq_2)
qed

theorem heap_invariant_witness:
  "\<exists>h1 h2. internString ''a'' 7 twoObjects = (h1, 3) \<and> internString ''b'' 7 h1 = (h2, 4)
     \<and> stringOf h2 3 = ''a'' \<and> internString ''a'' 7 h2 = (h2, 3)"
proof -
  obtain h1 h2 where h: "internString ''a'' 7 twoObjects = (h1, 3)" "internString ''b'' 7 h1 = (h2, 4)"
    by (simp add: internString_def allocString_def twoObjects_eval)
  then show ?thesis using heap_invariant [OF twoObjects_run _ h] by auto
qed

text \<open>In every object store that the operations build, the monitor of a live object
  counts its entries: entering always succeeds and raises the count, leaving is refused without a
  change exactly when the count is zero and lowers it otherwise, and leaving after entering restores
  the store.\<close>

theorem monitor_counts:
  assumes "heapRun sc n h" "n < 2 ^ 32 - 1" "obj h r = Some ob"
  shows "(\<exists>h' ob'. monitorenter r h = (h', MF_None) \<and> obj h' r = Some ob' \<and> ho_count ob' = ho_count ob + 1
            \<and> monitorexit r h' = (h, MF_None))
    \<and> (if ho_count ob = 0 then monitorexit r h = (h, MF_NotOwner)
       else \<exists>h' ob'. monitorexit r h = (h', MF_None) \<and> obj h' r = Some ob' \<and> ho_count ob' = ho_count ob - 1)"
proof -
  have ok: "objOk ob" "ho_count ob < 2 ^ 32 - 1"
    using heapIn_obj [OF heapRun_in [OF assms(1,2)] assms(3)] assms(2) by auto
  have "(objs h)[r - 1 := ob] = objs h" using obj_SomeD [OF assms(3)] list_update_id by blast
  then have restore: "setObj r ob (setObj r x h) = h" for x by (simp add: setObj_def)
  have same: "ob\<lparr>ho_count := 0, ho_owner := 0\<rparr> = ob" if "ho_owner ob = 0" "ho_count ob = 0"
    using that by (cases ob) simp
  have restore0: "setObj r (ob\<lparr>ho_count := 0, ho_owner := 0\<rparr>) (setObj r x h) = h"
    if "ho_owner ob = 0" "ho_count ob = 0" for x
    by (simp only: same [OF that] restore)
  show ?thesis
    using assms(3) ok restore restore0
    by (auto simp: monitorenter_def monitorexit_def obj_setObj objOk_def kOwnerThread_def Let_def)
qed

theorem monitor_counts_witness:
  "\<exists>h'. monitorenter 1 twoObjects = (h', MF_None) \<and> monitorexit 1 h' = (twoObjects, MF_None)"
  using monitor_counts [OF twoObjects_run, of 1 "objs twoObjects ! 0"] by (force simp: obj_def twoObjects_eval)

end
