(* ===== verification/Interp_RuntimeOk.thy ===== *)
theory Interp_RuntimeOk
  imports Interp_Runtime Interp_HeapOk
begin

text \<open>
  What the class registry promises. The invariant \<open>registryOk\<close> relates the shared name map to the
  classes and fields it names, for class names without the separator character of field keys. It holds
  after construction and is kept by interning, field resolution and initialisation, and gives: class
  identity is name identity, field resolution is stable and assigns distinct slots, and the bounded
  walk of \<open>isAssignableFrom\<close> decides the subclass relation.
\<close>

section \<open>The invariant\<close>

definition legalName :: "string \<Rightarrow> bool" where
  "legalName s \<longleftrightarrow> CHR 0x01 \<notin> set s"

definition classEntryOk :: "runtime \<Rightarrow> nat \<Rightarrow> bool" where
  "classEntryOk rt k \<longleftrightarrow> legalName (ci_name (rt_classes rt ! k))
     \<and> map_of (rt_byName rt) (ci_name (rt_classes rt ! k)) = Some (2 * k)
     \<and> (if k = 0 then ci_superclass (rt_classes rt ! k) = 0 else ci_superclass (rt_classes rt ! k) < k)"

definition nameEntryOk :: "runtime \<Rightarrow> string \<Rightarrow> nat \<Rightarrow> bool" where
  "nameEntryOk rt s v \<longleftrightarrow>
     (if even v then v div 2 < length (rt_classes rt) \<and> ci_name (rt_classes rt ! (v div 2)) = s
      else v div 2 < length (rt_fieldIndex rt)
        \<and> (let (c, sl) = rt_fieldIndex rt ! (v div 2) in c < length (rt_classes rt)
            \<and> sl < length (ci_fields (rt_classes rt ! c)) \<and> ci_fields (rt_classes rt ! c) ! sl = v div 2
            \<and> (\<exists>name. s = fieldRegistryKey (ci_name (rt_classes rt ! c)) name)))"

definition fieldsOk :: "runtime \<Rightarrow> bool" where
  "fieldsOk rt \<longleftrightarrow> (\<forall>c < length (rt_classes rt). \<forall>sl < length (ci_fields (rt_classes rt ! c)).
     ci_fields (rt_classes rt ! c) ! sl < length (rt_fieldIndex rt) \<and> rt_fieldIndex rt ! (ci_fields (rt_classes rt ! c) ! sl) = (c, sl))"

definition registryOk :: "runtime \<Rightarrow> bool" where
  "registryOk rt \<longleftrightarrow> rt_classes rt \<noteq> [] \<and> (\<forall>k < length (rt_classes rt). classEntryOk rt k)
     \<and> (\<forall>s v. map_of (rt_byName rt) s = Some v \<longrightarrow> nameEntryOk rt s v) \<and> fieldsOk rt
     \<and> (\<forall>s t v. map_of (rt_byName rt) s = Some v \<longrightarrow> map_of (rt_byName rt) t = Some v \<longrightarrow> s = t)"

lemma registryOkD:
  assumes "registryOk rt"
  shows "k < length (rt_classes rt) \<Longrightarrow> legalName (ci_name (rt_classes rt ! k))"
    and "k < length (rt_classes rt) \<Longrightarrow> map_of (rt_byName rt) (ci_name (rt_classes rt ! k)) = Some (2 * k)"
    and "map_of (rt_byName rt) s = Some v \<Longrightarrow> nameEntryOk rt s v"
    and "0 < length (rt_classes rt)" "ci_superclass (rt_classes rt ! 0) = 0"
    and "0 < k \<Longrightarrow> k < length (rt_classes rt) \<Longrightarrow> ci_superclass (rt_classes rt ! k) < k"
    and "map_of (rt_byName rt) s = Some v \<Longrightarrow> map_of (rt_byName rt) t = Some v \<Longrightarrow> s = t"
  using assms by (auto simp: registryOk_def classEntryOk_def)

text \<open>Values not in use: the next class and the next field.\<close>

lemma fresh_values:
  assumes "registryOk rt" "map_of (rt_byName rt) s = Some v"
  shows "v \<noteq> 2 * length (rt_classes rt)" "v \<noteq> Suc (2 * length (rt_fieldIndex rt))"
  using registryOkD(3) [OF assms] by (auto simp: nameEntryOk_def)

lemma fieldKey_not_legal: "\<not> legalName (fieldRegistryKey c n)"
  by (simp add: legalName_def fieldRegistryKey_def)

lemma fieldKey_inj:
  assumes "legalName c" "legalName c'"
  shows "fieldRegistryKey c n = fieldRegistryKey c' n' \<longleftrightarrow> c = c' \<and> n = n'"
proof -
  have "c = c' \<and> n = n'" if "c @ x # n = c' @ x # n'" "x \<notin> set c" "x \<notin> set c'" for x :: char
    using that by (induction c arbitrary: c') (auto simp: Cons_eq_append_conv)
  then show ?thesis using assms by (auto simp: fieldRegistryKey_def legalName_def)
qed

lemma map_of_filter_neq: "map_of (filter (\<lambda>e. fst e \<noteq> k) al) s = (if s = k then None else map_of al s)"
  by (induction al) auto

lemma map_of_assign: "map_of (assign k v al) s = (if s = k then Some v else map_of al s)"
  by (simp add: assign_def map_of_filter_neq)

section \<open>Interning classes\<close>

lemma classId_known:
  assumes "registryOk rt" "k < length (rt_classes rt)"
  shows "classId (ci_name (rt_classes rt ! k)) rt = (rt, k)"
  using registryOkD(2) [OF assms] by (simp add: classId_def isFieldRegistryEntry_def)

lemma legal_entry_even:
  assumes "registryOk rt" "legalName s" "map_of (rt_byName rt) s = Some v"
  shows "even v" "v div 2 < length (rt_classes rt)" "ci_name (rt_classes rt ! (v div 2)) = s"
  using registryOkD(3) [OF assms(1,3)] assms(2) fieldKey_not_legal
  by (auto simp: nameEntryOk_def split: if_split_asm prod.split_asm)

lemma classId_fresh:
  assumes "registryOk rt" "legalName s" "map_of (rt_byName rt) s = None" "length (rt_classes rt) < 2 ^ 31"
  shows "classId s rt = (rt\<lparr>rt_byName := assign s (2 * length (rt_classes rt)) (rt_byName rt),
      rt_classes := rt_classes rt @ [emptyClass\<lparr>ci_name := s\<rparr>]\<rparr>, length (rt_classes rt))"
  using assms by (simp add: classId_def Let_def mult.commute)

lemma registryOk_newClass:
  assumes "registryOk rt" "legalName s" "map_of (rt_byName rt) s = None"
  shows "registryOk (rt\<lparr>rt_byName := assign s (2 * length (rt_classes rt)) (rt_byName rt),
      rt_classes := rt_classes rt @ [emptyClass\<lparr>ci_name := s\<rparr>]\<rparr>)" (is "registryOk ?rt")
proof -
  let ?n = "length (rt_classes rt)"
  have keep: "rt_classes ?rt ! k = rt_classes rt ! k" if "k < ?n" for k using that by (simp add: nth_append)
  have "classEntryOk ?rt k" if "k < Suc ?n" for k
  proof (cases "k = ?n")
    case True
    then show ?thesis using assms(2) registryOkD(4) [OF assms(1)] by (simp add: classEntryOk_def map_of_assign emptyClass_def)
  next
    case False
    then have "k < ?n" using that by simp
    moreover from this have "ci_name (rt_classes rt ! k) \<noteq> s" using registryOkD(2) [OF assms(1)] assms(3) by fastforce
    ultimately show ?thesis using assms(1) by (auto simp: registryOk_def classEntryOk_def nth_append map_of_assign)
  qed
  moreover have "nameEntryOk ?rt t v" if "map_of (rt_byName ?rt) t = Some v" for t v
  proof (cases "t = s")
    case True
    then show ?thesis using that by (auto simp: nameEntryOk_def map_of_assign)
  next
    case False
    then have "nameEntryOk rt t v" using that registryOkD(3) [OF assms(1)] by (simp add: map_of_assign)
    then show ?thesis by (auto simp: nameEntryOk_def nth_append split: prod.split)
  qed
  moreover have "fieldsOk ?rt"
    using assms(1) by (auto simp: registryOk_def fieldsOk_def less_Suc_eq nth_append emptyClass_def)
  moreover have "a = b" if "map_of (rt_byName ?rt) a = Some v" "map_of (rt_byName ?rt) b = Some v" for a b v
    using that registryOkD(7) [OF assms(1), of a v b] fresh_values(1) [OF assms(1)] by (auto simp: map_of_assign split: if_split_asm)
  ultimately show ?thesis by (simp add: registryOk_def)
qed

lemma classId_ok:
  assumes "registryOk rt" "legalName s" "length (rt_classes rt) < 2 ^ 31" "classId s rt = (rt', c)"
  shows "registryOk rt'" "c < length (rt_classes rt')" "ci_name (rt_classes rt' ! c) = s"
    and "k < length (rt_classes rt) \<Longrightarrow> rt_classes rt' ! k = rt_classes rt ! k"
    and "length (rt_classes rt) \<le> length (rt_classes rt')" "length (rt_classes rt') \<le> Suc (length (rt_classes rt))"
    and "rt_fieldIndex rt' = rt_fieldIndex rt" "s \<noteq> t \<Longrightarrow> map_of (rt_byName rt') t = map_of (rt_byName rt) t"
proof -
  have "registryOk rt' \<and> c < length (rt_classes rt') \<and> ci_name (rt_classes rt' ! c) = s
    \<and> (\<forall>k < length (rt_classes rt). rt_classes rt' ! k = rt_classes rt ! k) \<and> length (rt_classes rt) \<le> length (rt_classes rt')
    \<and> length (rt_classes rt') \<le> Suc (length (rt_classes rt)) \<and> rt_fieldIndex rt' = rt_fieldIndex rt
    \<and> (\<forall>t. s \<noteq> t \<longrightarrow> map_of (rt_byName rt') t = map_of (rt_byName rt) t)"
  proof (cases "map_of (rt_byName rt) s")
    case None
    show ?thesis
      using registryOk_newClass [OF assms(1,2) None] classId_fresh [OF assms(1,2) None assms(3)] assms(4)
      by (auto simp: nth_append map_of_assign)
  next
    case (Some v)
    note e = legal_entry_even [OF assms(1,2) Some]
    then have "rt' = rt \<and> c = v div 2" using assms(4) Some by (simp add: classId_def isFieldRegistryEntry_def)
    then show ?thesis using assms(1) e by simp
  qed
  then show "registryOk rt'" "c < length (rt_classes rt')" "ci_name (rt_classes rt' ! c) = s"
    "k < length (rt_classes rt) \<Longrightarrow> rt_classes rt' ! k = rt_classes rt ! k"
    "length (rt_classes rt) \<le> length (rt_classes rt')" "length (rt_classes rt') \<le> Suc (length (rt_classes rt))"
    "rt_fieldIndex rt' = rt_fieldIndex rt" "s \<noteq> t \<Longrightarrow> map_of (rt_byName rt') t = map_of (rt_byName rt) t" by auto
qed

section \<open>Resolving fields\<close>

lemma class_unique:
  assumes "registryOk rt" "k < length (rt_classes rt)" "j < length (rt_classes rt)"
  shows "ci_name (rt_classes rt ! k) = ci_name (rt_classes rt ! j) \<longleftrightarrow> k = j"
proof
  assume "ci_name (rt_classes rt ! k) = ci_name (rt_classes rt ! j)"
  then have "Some (2 * k) = Some (2 * j)" using registryOkD(2) [OF assms(1,2)] registryOkD(2) [OF assms(1,3)] by argo
  then show "k = j" by simp
qed simp

lemma fieldsOkD:
  assumes "registryOk rt" "c < length (rt_classes rt)" "sl < length (ci_fields (rt_classes rt ! c))"
  shows "ci_fields (rt_classes rt ! c) ! sl < length (rt_fieldIndex rt)"
    and "rt_fieldIndex rt ! (ci_fields (rt_classes rt ! c) ! sl) = (c, sl)"
  using assms by (auto simp: registryOk_def fieldsOk_def)

lemma fields_bounded:
  assumes "registryOk rt" "c < length (rt_classes rt)"
  shows "length (ci_fields (rt_classes rt ! c)) \<le> length (rt_fieldIndex rt)"
proof -
  let ?xs = "ci_fields (rt_classes rt ! c)"
  have "inj_on (nth ?xs) {..<length ?xs}"
  proof (rule inj_onI)
    fix i j assume "i \<in> {..<length ?xs}" "j \<in> {..<length ?xs}" "?xs ! i = ?xs ! j"
    then have "(c, i) = (c, j)" using fieldsOkD(2) [OF assms, of i] fieldsOkD(2) [OF assms, of j] by (metis lessThan_iff)
    then show "i = j" by simp
  qed
  moreover have "nth ?xs ` {..<length ?xs} \<subseteq> {..<length (rt_fieldIndex rt)}"
    using fieldsOkD(1) [OF assms] by auto
  ultimately show ?thesis using card_inj_on_le [of "nth ?xs" "{..<length ?xs}" "{..<length (rt_fieldIndex rt)}"] by simp
qed

text \<open>An entry under a field key of a class names a field of that class.\<close>

lemma field_entry:
  assumes "registryOk rt" "cid < length (rt_classes rt)"
    and "map_of (rt_byName rt) (fieldRegistryKey (ci_name (rt_classes rt ! cid)) n) = Some v"
  shows "odd v" "v div 2 < length (rt_fieldIndex rt)"
    and "\<exists>sl < length (ci_fields (rt_classes rt ! cid)). rt_fieldIndex rt ! (v div 2) = (cid, sl) \<and> ci_fields (rt_classes rt ! cid) ! sl = v div 2"
proof -
  let ?key = "fieldRegistryKey (ci_name (rt_classes rt ! cid)) n"
  note e = registryOkD(3) [OF assms(1,3)]
  show odd: "odd v"
  proof
    assume "even v"
    then have "v div 2 < length (rt_classes rt)" "ci_name (rt_classes rt ! (v div 2)) = ?key" using e by (auto simp: nameEntryOk_def)
    then show False using registryOkD(1) [OF assms(1), of "v div 2"] by (simp add: fieldKey_not_legal)
  qed
  show "v div 2 < length (rt_fieldIndex rt)" using e odd by (simp add: nameEntryOk_def)
  obtain c sl where p: "rt_fieldIndex rt ! (v div 2) = (c, sl)" by fastforce
  then obtain m where c: "c < length (rt_classes rt)" "sl < length (ci_fields (rt_classes rt ! c))"
      "ci_fields (rt_classes rt ! c) ! sl = v div 2" "?key = fieldRegistryKey (ci_name (rt_classes rt ! c)) m"
    using e odd by (auto simp: nameEntryOk_def)
  then have "cid = c"
    using fieldKey_inj [OF registryOkD(1) [OF assms(1,2)] registryOkD(1) [OF assms(1) c(1)]] class_unique [OF assms(1,2) c(1)] by auto
  then show "\<exists>sl < length (ci_fields (rt_classes rt ! cid)). rt_fieldIndex rt ! (v div 2) = (cid, sl) \<and> ci_fields (rt_classes rt ! cid) ! sl = v div 2"
    using p c by blast
qed

lemma registryOk_newField:
  assumes "registryOk rt" "cid < length (rt_classes rt)"
    and "map_of (rt_byName rt) (fieldRegistryKey (ci_name (rt_classes rt ! cid)) n) = None"
  shows "registryOk (rt\<lparr>rt_classes := (rt_classes rt)[cid := (rt_classes rt ! cid)
        \<lparr>ci_fields := ci_fields (rt_classes rt ! cid) @ [length (rt_fieldIndex rt)]\<rparr>],
      rt_fieldIndex := rt_fieldIndex rt @ [(cid, length (ci_fields (rt_classes rt ! cid)))],
      rt_statics := ss,
      rt_byName := assign (fieldRegistryKey (ci_name (rt_classes rt ! cid)) n) (Suc (2 * length (rt_fieldIndex rt))) (rt_byName rt)\<rparr>)"
    (is "registryOk ?rt")
proof -
  let ?key = "fieldRegistryKey (ci_name (rt_classes rt ! cid)) n"
  have name: "ci_name (rt_classes ?rt ! k) = ci_name (rt_classes rt ! k)"
    and sup: "ci_superclass (rt_classes ?rt ! k) = ci_superclass (rt_classes rt ! k)" for k
    by (cases "k = cid"; simp add: assms(2))+
  have "classEntryOk ?rt k" if "k < length (rt_classes rt)" for k
  proof -
    have "ci_name (rt_classes rt ! k) \<noteq> ?key" using registryOkD(1) [OF assms(1) that] fieldKey_not_legal by metis
    moreover have "classEntryOk rt k" using assms(1) that by (simp add: registryOk_def)
    ultimately show ?thesis by (simp only: classEntryOk_def name sup) (auto simp: map_of_assign)
  qed
  moreover have "nameEntryOk ?rt t v" if "map_of (rt_byName ?rt) t = Some v" for t v
  proof (cases "t = ?key")
    case True
    then have "v = Suc (2 * length (rt_fieldIndex rt))" using that by (simp add: map_of_assign)
    then show ?thesis using True assms(2) by (auto simp: nameEntryOk_def)
  next
    case False
    then have e: "nameEntryOk rt t v" using that registryOkD(3) [OF assms(1)] by (simp add: map_of_assign)
    show ?thesis
    proof (cases "even v")
      case True
      then show ?thesis using e name [of "v div 2"] by (simp add: nameEntryOk_def)
    next
      case False
      obtain c sl where p: "rt_fieldIndex rt ! (v div 2) = (c, sl)" by fastforce
      then show ?thesis using e False by (cases "c = cid") (auto simp: nameEntryOk_def nth_append)
    qed
  qed
  moreover have "fieldsOk ?rt"
    using assms(1,2) by (auto simp: registryOk_def fieldsOk_def nth_append nth_list_update less_Suc_eq)
  moreover have "a = b" if "map_of (rt_byName ?rt) a = Some v" "map_of (rt_byName ?rt) b = Some v" for a b v
    using that registryOkD(7) [OF assms(1), of a v b] fresh_values(2) [OF assms(1)] by (auto simp: map_of_assign split: if_split_asm)
  ultimately show ?thesis using registryOkD(4) [OF assms(1)] by (simp add: registryOk_def)
qed

text \<open>What a resolution gives, and what it leaves of the registry.\<close>

definition resolvedTo :: "const \<Rightarrow> resolved_field \<Rightarrow> runtime \<Rightarrow> bool" where
  "resolvedTo c f rt \<longleftrightarrow> rf_cls f < length (rt_classes rt) \<and> ci_name (rt_classes rt ! rf_cls f) = c_str c
     \<and> map_of (rt_byName rt) (fieldRegistryKey (c_str c) (c_str2 c)) = Some (Suc (2 * rf_id f))
     \<and> rt_fieldIndex rt ! rf_id f = (rf_cls f, rf_slot f) \<and> rf_type f = fieldDescriptorType (c_str3 c)"

definition registryGrew :: "runtime \<Rightarrow> runtime \<Rightarrow> bool" where
  "registryGrew rt rt' \<longleftrightarrow> length (rt_classes rt) \<le> length (rt_classes rt')
     \<and> (\<forall>k < length (rt_classes rt). ci_name (rt_classes rt' ! k) = ci_name (rt_classes rt ! k))
     \<and> map_of (rt_byName rt) \<subseteq>\<^sub>m map_of (rt_byName rt')
     \<and> (\<forall>k < length (rt_fieldIndex rt). rt_fieldIndex rt' ! k = rt_fieldIndex rt ! k)
     \<and> length (rt_fieldIndex rt) \<le> length (rt_fieldIndex rt')"

lemma registryGrew_refl: "registryGrew rt rt"
  by (simp add: registryGrew_def)

lemma registryGrew_trans: "registryGrew a b \<Longrightarrow> registryGrew b c \<Longrightarrow> registryGrew a c"
  by (auto simp: registryGrew_def intro: map_le_trans)

lemma classId_grew:
  assumes "registryOk rt" "legalName s" "length (rt_classes rt) < 2 ^ 31" "classId s rt = (rt', c)"
  shows "registryGrew rt rt'"
proof (cases "map_of (rt_byName rt) s")
  case None
  then show ?thesis using classId_fresh [OF assms(1,2) None assms(3)] assms(4)
    by (auto simp: registryGrew_def nth_append map_le_def map_of_assign dom_def)
next
  case (Some v)
  then have "rt' = rt" using legal_entry_even [OF assms(1,2) Some] assms(4) by (simp add: classId_def isFieldRegistryEntry_def)
  then show ?thesis by (simp add: registryGrew_refl)
qed

lemma resolveField_ok:
  assumes "registryOk rt" "c_kind c = K_FieldRef" "legalName (c_str c)"
    and "length (rt_classes rt) < 2 ^ 31" "length (rt_fieldIndex rt) < 2 ^ 31" "resolveField c rt = (rt', r)"
  shows "\<exists>f. r = Some f \<and> registryOk rt' \<and> registryGrew rt rt' \<and> resolvedTo c f rt'"
proof -
  obtain rt1 cid where ci: "classId (c_str c) rt = (rt1, cid)" by fastforce
  note k = classId_ok [OF assms(1,3,4) ci] and g = classId_grew [OF assms(1,3,4) ci]
  let ?key = "fieldRegistryKey (c_str c) (c_str2 c)"
  show ?thesis
  proof (cases "map_of (rt_byName rt1) ?key")
    case (Some v)
    note e = field_entry [OF k(1,2), unfolded k(3), OF Some]
    then have "resolveField c rt = (rt1, Some \<lparr>rf_id = v div 2, rf_cls = cid, rf_slot = snd (rt_fieldIndex rt1 ! (v div 2)),
        rf_type = fieldDescriptorType (c_str3 c)\<rparr>)"
      using assms(2) ci Some by (auto simp: resolveField_def isFieldRegistryEntry_def Let_def)
    moreover have "Suc (2 * (v div 2)) = v" using e(1) by simp
    ultimately show ?thesis using assms(6) k(1,2,3) g e(3) Some by (auto simp: resolvedTo_def)
  next
    case None
    have "length (ci_fields (rt_classes rt1 ! cid)) < 2 ^ 31" using fields_bounded [OF k(1,2)] k(7) assms(5) by simp
    then have "resolveField c rt = (rt1\<lparr>rt_classes := (rt_classes rt1)[cid := (rt_classes rt1 ! cid)
        \<lparr>ci_fields := ci_fields (rt_classes rt1 ! cid) @ [length (rt_fieldIndex rt1)]\<rparr>],
      rt_fieldIndex := rt_fieldIndex rt1 @ [(cid, length (ci_fields (rt_classes rt1 ! cid)))],
      rt_statics := rt_statics rt1 @ [VBottom],
      rt_byName := assign ?key (Suc (2 * length (rt_fieldIndex rt1))) (rt_byName rt1)\<rparr>,
      Some \<lparr>rf_id = length (rt_fieldIndex rt1), rf_cls = cid, rf_slot = length (ci_fields (rt_classes rt1 ! cid)),
        rf_type = fieldDescriptorType (c_str3 c)\<rparr>)" (is "_ = (?rt', Some ?f)")
      using assms(2,5) ci None k(7) by (simp add: resolveField_def Let_def mult.commute)
    moreover have "registryOk ?rt'" using registryOk_newField [OF k(1,2), unfolded k(3), OF None] .
    moreover have "registryGrew rt1 ?rt'"
      using None k(2) by (auto simp: registryGrew_def nth_list_update map_le_def map_of_assign dom_def nth_append)
    moreover have "resolvedTo c ?f ?rt'"
      using k(2,3) by (simp add: resolvedTo_def map_of_assign)
    ultimately show ?thesis using assms(6) registryGrew_trans [OF g] by auto
  qed
qed

lemma resolvedTo_grew: "resolvedTo c f rt \<Longrightarrow> registryGrew rt rt' \<Longrightarrow> registryOk rt \<Longrightarrow> resolvedTo c f rt'"
proof -
  assume r: "resolvedTo c f rt" and g: "registryGrew rt rt'" and ok: "registryOk rt"
  have "rf_id f < length (rt_fieldIndex rt)"
    using registryOkD(3) [OF ok, of "fieldRegistryKey (c_str c) (c_str2 c)" "Suc (2 * rf_id f)"] r
    by (auto simp: resolvedTo_def nameEntryOk_def)
  moreover have "map_of (rt_byName rt') (fieldRegistryKey (c_str c) (c_str2 c)) = Some (Suc (2 * rf_id f))"
    using r g unfolding resolvedTo_def registryGrew_def map_le_def by (metis domI)
  ultimately show ?thesis using r g by (auto simp: resolvedTo_def registryGrew_def)
qed

lemma resolvedTo_identity:
  assumes "registryOk rt" "resolvedTo c f rt" "resolvedTo d g rt"
  shows "rf_cls f = rf_cls g \<longleftrightarrow> c_str c = c_str d"
    and "rf_id f = rf_id g \<longleftrightarrow> c_str c = c_str d \<and> c_str2 c = c_str2 d"
    and "rf_cls f = rf_cls g \<Longrightarrow> rf_slot f = rf_slot g \<longleftrightarrow> c_str2 c = c_str2 d"
proof -
  show cls: "rf_cls f = rf_cls g \<longleftrightarrow> c_str c = c_str d"
    using assms class_unique [OF assms(1), of "rf_cls f" "rf_cls g"] by (auto simp: resolvedTo_def)
  have l: "legalName (c_str c)" "legalName (c_str d)"
    using assms(2,3) registryOkD(1) [OF assms(1), of "rf_cls f"] registryOkD(1) [OF assms(1), of "rf_cls g"] by (auto simp: resolvedTo_def)
  have entry: "\<exists>sl < length (ci_fields (rt_classes rt ! rf_cls h)). (rf_cls h, rf_slot h) = (rf_cls h, sl)
      \<and> ci_fields (rt_classes rt ! rf_cls h) ! sl = rf_id h" if "resolvedTo e h rt" for e h
    using that field_entry(3) [OF assms(1), of "rf_cls h" "c_str2 e" "Suc (2 * rf_id h)"] by (auto simp: resolvedTo_def)
  have same: "c_str c = c_str d \<and> c_str2 c = c_str2 d" if "rf_id f = rf_id g"
    using registryOkD(7) [OF assms(1)] assms(2,3) that fieldKey_inj [OF l] unfolding resolvedTo_def by metis
  show ids: "rf_id f = rf_id g \<longleftrightarrow> c_str c = c_str d \<and> c_str2 c = c_str2 d"
    using same assms(2,3) by (auto simp: resolvedTo_def)
  assume c: "rf_cls f = rf_cls g"
  then have "rf_slot f = rf_slot g \<Longrightarrow> rf_id f = rf_id g" using entry [OF assms(2)] entry [OF assms(3)] by auto
  moreover have "rf_id f = rf_id g \<Longrightarrow> rf_slot f = rf_slot g" using assms(2,3) by (auto simp: resolvedTo_def)
  ultimately show "rf_slot f = rf_slot g \<longleftrightarrow> c_str2 c = c_str2 d" using ids cls c by blast
qed

section \<open>Construction and runs\<close>

text \<open>One \<open>addClass\<close> of the constructor, on explicit lists, and the chain of them in \<open>registerBuiltinClasses\<close>.\<close>

lemma addClass_fresh:
  assumes "map_of (rt_byName rt) name = None" "length (rt_classes rt) < 100"
  shows "addClass name super isExc rt =
     (rt\<lparr>rt_byName := rt_byName rt @ [(name, 2 * length (rt_classes rt))],
        rt_classes := rt_classes rt @ [\<lparr>ci_name = name, ci_superclass = super, ci_initialized = False, ci_fields = [], ci_isException = isExc\<rparr>]\<rparr>,
      length (rt_classes rt))"
  using assms by (simp add: addClass_def Let_def mult.commute)

lemma let_pair: "(let (a, b) = (x, y) in f a b) = f x y"
  by simp

definition tableOk :: "class_info list \<Rightarrow> (string \<times> nat) list \<Rightarrow> bool" where
  "tableOk cs al \<longleftrightarrow> cs \<noteq> []
     \<and> list_all (\<lambda>(k, ci). legalName (ci_name ci) \<and> map_of al (ci_name ci) = Some (2 * k)
          \<and> (if k = 0 then ci_superclass ci = 0 else ci_superclass ci < k) \<and> ci_fields ci = []) (enumerate 0 cs)
     \<and> list_all (\<lambda>(s, v). even v \<and> v div 2 < length cs \<and> ci_name (cs ! (v div 2)) = s) al"

lemma registryOk_table:
  assumes "tableOk (rt_classes rt) (rt_byName rt)" "rt_fieldIndex rt = []"
  shows "registryOk rt"
proof -
  have e: "even v \<and> v div 2 < length (rt_classes rt) \<and> ci_name (rt_classes rt ! (v div 2)) = s"
    if "map_of (rt_byName rt) s = Some v" for s v
    using map_of_SomeD [OF that] assms(1) by (auto simp: tableOk_def list_all_iff)
  have k: "classEntryOk rt k \<and> ci_fields (rt_classes rt ! k) = []" if "k < length (rt_classes rt)" for k
    using assms(1) that unfolding tableOk_def classEntryOk_def list_all_length by (auto simp: nth_enumerate_eq)
  have "fieldsOk rt" using k by (auto simp: fieldsOk_def)
  moreover have "s = t" if "map_of (rt_byName rt) s = Some v" "map_of (rt_byName rt) t = Some v" for s t v
    using e [OF that(1)] e [OF that(2)] by simp
  ultimately show ?thesis using assms(1) e k by (auto simp: registryOk_def nameEntryOk_def tableOk_def)
qed

abbreviation blankRuntime :: "rprogram \<Rightarrow> runtime" where
  "blankRuntime p \<equiv> \<lparr>rt_program = p, rt_heap = emptyHeap, rt_classes = [], rt_byName = [], rt_fieldIndex = [], rt_statics = [],
     rt_profiles = [], rt_classObjects = [], rt_systemOut = 0, rt_systemErr = 0, rt_objectClass = 0, rt_stringClass = 0,
     rt_throwableClass = 0, rt_classClass = 0, rt_out = [], rt_err = []\<rparr>"

lemma newRuntime_registry:
  "rt_classes (newRuntime p) = rt_classes (registerBuiltinClasses (blankRuntime p))"
  "rt_byName (newRuntime p) = rt_byName (registerBuiltinClasses (blankRuntime p))"
  "rt_fieldIndex (newRuntime p) = rt_fieldIndex (registerBuiltinClasses (blankRuntime p))"
  by (simp_all add: newRuntime_def Let_def split_beta)

text \<open>The builtin hierarchy: name, superclass and exception flag of the classes of a fresh runtime.\<close>

definition builtinTable :: "(string \<times> nat \<times> bool) list" where
  "builtinTable =
    [(''java/lang/Object'', 0, False),
     (''java/lang/String'', 0, False),
     (''java/lang/Class'', 0, False),
     (''java/io/PrintStream'', 0, False),
     (''java/lang/System'', 0, False),
     (''java/lang/Throwable'', 0, True),
     (''java/lang/Exception'', 5, True),
     (''java/lang/Error'', 5, True),
     (''java/lang/RuntimeException'', 6, True),
     (''java/lang/ArithmeticException'', 8, True),
     (''java/lang/NullPointerException'', 8, True),
     (''java/lang/ArrayStoreException'', 8, True),
     (''java/lang/ClassCastException'', 8, True),
     (''java/lang/IllegalMonitorStateException'', 8, True),
     (''java/lang/IndexOutOfBoundsException'', 8, True),
     (''java/lang/NegativeArraySizeException'', 8, True),
     (''java/lang/UnsupportedOperationException'', 8, True),
     (''java/lang/ArrayIndexOutOfBoundsException'', 14, True),
     (''java/lang/VirtualMachineError'', 7, True),
     (''java/lang/InternalError'', 18, True),
     (''java/lang/StackOverflowError'', 18, True),
     (''java/lang/LinkageError'', 7, True),
     (''java/lang/NoSuchMethodError'', 21, True),
     (''java/lang/BootstrapMethodError'', 21, True)]"

definition builtinClass :: "string \<times> nat \<times> bool \<Rightarrow> class_info" where
  "builtinClass = (\<lambda>(n, s, e). \<lparr>ci_name = n, ci_superclass = s, ci_initialized = False, ci_fields = [], ci_isException = e\<rparr>)"

lemma registerBuiltin_table:
  "\<exists>rt. registerBuiltinClasses (blankRuntime p) = rt \<and> rt_classes rt = map builtinClass builtinTable
     \<and> rt_byName rt = zip (map fst builtinTable) (map ((*) 2) [0..<24]) \<and> rt_fieldIndex rt = []
     \<and> rt_program rt = p \<and> rt_heap rt = emptyHeap \<and> rt_statics rt = [] \<and> rt_throwableClass rt = 5 \<and> rt_stringClass rt = 1"
  by (simp add: registerBuiltinClasses_def addClass_fresh let_pair cong: let_weak_cong)
    (simp add: builtinTable_def builtinClass_def upt_conv_Cons)

lemma newRuntime_table:
  "rt_classes (newRuntime p) = map builtinClass builtinTable"
  "rt_byName (newRuntime p) = zip (map fst builtinTable) (map ((*) 2) [0..<24])" "rt_fieldIndex (newRuntime p) = []"
  using registerBuiltin_table [of p] unfolding newRuntime_registry by auto

lemma newRuntime_parts:
  "rt_program (newRuntime p) = p" "rt_statics (newRuntime p) = []" "rt_throwableClass (newRuntime p) = 5" "rt_stringClass (newRuntime p) = 1"
  "objs (rt_heap (newRuntime p)) = replicate 2 (newObj\<lparr>ho_cls := findClass (registerBuiltinClasses (blankRuntime p)) ''java/io/PrintStream''\<rparr>)"
  "interned (rt_heap (newRuntime p)) = []"
  using registerBuiltin_table [of p]
  by (auto simp: newRuntime_def Let_def split_beta allocInstance_def pushObj_def emptyHeap_def newObj_def numeral_2_eq_2)

lemma newRuntime_size: "length (rt_classes (newRuntime p)) = 24"
  by (simp add: newRuntime_table builtinTable_def)

lemma registryOk_new: "registryOk (newRuntime p)"
proof (rule registryOk_table)
  show "tableOk (rt_classes (newRuntime p)) (rt_byName (newRuntime p))"
    by (simp add: newRuntime_table builtinTable_def builtinClass_def tableOk_def legalName_def upt_conv_Cons)
qed (simp add: newRuntime_table)

lemma resolveField_size:
  assumes "registryOk rt" "legalName (c_str c)" "length (rt_classes rt) < 2 ^ 31" "resolveField c rt = (rt', r)"
  shows "length (rt_classes rt') \<le> Suc (length (rt_classes rt))" "length (rt_fieldIndex rt') \<le> Suc (length (rt_fieldIndex rt))"
proof -
  obtain rt1 cid where ci: "classId (c_str c) rt = (rt1, cid)" by fastforce
  show "length (rt_classes rt') \<le> Suc (length (rt_classes rt))" "length (rt_fieldIndex rt') \<le> Suc (length (rt_fieldIndex rt))"
    using classId_ok(6,7) [OF assms(1-3) ci] assms(4) ci
    by (auto simp: resolveField_def Let_def split: if_split_asm option.split_asm)
qed

text \<open>Everything the runtime does to the registry: interning, resolving, initialising, and operations
  that leave it alone (allocation, statics, output, profiles).\<close>

inductive registryRun :: "runtime \<Rightarrow> runtime \<Rightarrow> bool" where
  run_done: "registryRun rt rt"
| run_class: "registryRun a rt \<Longrightarrow> legalName s \<Longrightarrow> length (rt_classes rt) < 2 ^ 31 \<Longrightarrow> registryRun a (fst (classId s rt))"
| run_field: "registryRun a rt \<Longrightarrow> legalName (c_str c) \<Longrightarrow> length (rt_classes rt) < 2 ^ 31 \<Longrightarrow> length (rt_fieldIndex rt) < 2 ^ 31
    \<Longrightarrow> registryRun a (fst (resolveField c rt))"
| run_init: "registryRun a rt \<Longrightarrow> registryRun a (markInitialized k rt)"
| run_other: "registryRun a rt \<Longrightarrow> rt_classes rt' = rt_classes rt \<Longrightarrow> rt_byName rt' = rt_byName rt
    \<Longrightarrow> rt_fieldIndex rt' = rt_fieldIndex rt \<Longrightarrow> registryRun a rt'"

lemma registryOk_cong:
  assumes "registryOk rt" "rt_byName rt' = rt_byName rt" "rt_fieldIndex rt' = rt_fieldIndex rt"
    and "length (rt_classes rt') = length (rt_classes rt)"
    and "\<And>k. k < length (rt_classes rt) \<Longrightarrow> ci_name (rt_classes rt' ! k) = ci_name (rt_classes rt ! k)
        \<and> ci_superclass (rt_classes rt' ! k) = ci_superclass (rt_classes rt ! k) \<and> ci_fields (rt_classes rt' ! k) = ci_fields (rt_classes rt ! k)"
  shows "registryOk rt'"
proof -
  have "classEntryOk rt' k" if "k < length (rt_classes rt)" for k
    using registryOkD(1,2,5,6) [OF assms(1)] assms(5) [OF that] that assms(2) by (auto simp: classEntryOk_def)
  moreover have "nameEntryOk rt' s v" if "map_of (rt_byName rt) s = Some v" for s v
  proof -
    obtain c sl where p: "rt_fieldIndex rt ! (v div 2) = (c, sl)" by fastforce
    show ?thesis using registryOkD(3) [OF assms(1) that] assms(5) [of "v div 2"] assms(5) [of c] assms(3,4) p by (auto simp: nameEntryOk_def)
  qed
  moreover have "fieldsOk rt'" using assms(1,3,4,5) by (auto simp: registryOk_def fieldsOk_def)
  ultimately show ?thesis using registryOkD(4) [OF assms(1)] registryOkD(7) [OF assms(1)] assms(2,4) by (auto simp: registryOk_def)
qed

lemma registryGrew_cong:
  assumes "rt_byName rt' = rt_byName rt" "rt_fieldIndex rt' = rt_fieldIndex rt" "length (rt_classes rt') = length (rt_classes rt)"
    and "\<And>k. k < length (rt_classes rt) \<Longrightarrow> ci_name (rt_classes rt' ! k) = ci_name (rt_classes rt ! k)"
  shows "registryGrew rt rt'"
  using assms by (simp add: registryGrew_def)

lemma registryRun_ok:
  assumes "registryRun a rt" "registryOk a"
  shows "registryOk rt \<and> registryGrew a rt"
  using assms
proof (induction rule: registryRun.induct)
  case (run_done rt)
  then show ?case by (simp add: registryGrew_refl)
next
  case (run_class a rt s)
  then show ?case
    using classId_ok(1) classId_grew registryGrew_trans by (metis prod.collapse)
next
  case (run_field a rt c)
  show ?case
  proof (cases "c_kind c = K_FieldRef")
    case True
    have "registryOk rt" using run_field by simp
    from resolveField_ok [OF this True run_field.hyps(2-4) prod.collapse [symmetric]]
    have "registryOk (fst (resolveField c rt)) \<and> registryGrew rt (fst (resolveField c rt))" by blast
    then show ?thesis using run_field registryGrew_trans by blast
  next
    case False
    then show ?thesis using run_field by (simp add: resolveField_def)
  qed
next
  case (run_init a rt k)
  have "registryOk (markInitialized k rt)"
    by (rule registryOk_cong [of rt]) (use run_init in \<open>auto simp: markInitialized_def nth_list_update\<close>)
  moreover have "registryGrew rt (markInitialized k rt)"
    by (rule registryGrew_cong) (auto simp: markInitialized_def nth_list_update)
  ultimately show ?case using run_init registryGrew_trans by blast
next
  case (run_other a rt rt')
  have "registryOk rt'" by (rule registryOk_cong [of rt]) (use run_other in auto)
  moreover have "registryGrew rt rt'" by (rule registryGrew_cong) (use run_other in auto)
  ultimately show ?case using run_other registryGrew_trans by blast
qed

section \<open>Subclasses\<close>

inductive subclassOf :: "class_info list \<Rightarrow> nat \<Rightarrow> nat \<Rightarrow> bool" where
  sub_refl: "subclassOf cs c c"
| sub_step: "subclassOf cs (ci_superclass (cs ! c)) t \<Longrightarrow> subclassOf cs c t"

lemma superWalk_iff:
  assumes "registryOk rt" "c < length (rt_classes rt)" "c < n"
  shows "superWalk n (rt_classes rt) t c \<longleftrightarrow> subclassOf (rt_classes rt) c t"
  using assms(2,3)
proof (induction n arbitrary: c)
  case 0
  then show ?case by simp
next
  case (Suc n)
  let ?s = "ci_superclass (rt_classes rt ! c)"
  show ?case
  proof (cases "c = 0")
    case True
    have "subclassOf cs x t \<Longrightarrow> x = 0 \<Longrightarrow> ci_superclass (cs ! 0) = 0 \<Longrightarrow> t = 0" for cs x
      by (induction rule: subclassOf.induct) auto
    then show ?thesis using True registryOkD(5) [OF assms(1)] Suc.prems by (auto intro: sub_refl)
  next
    case False
    then have s: "?s < c" using registryOkD(6) [OF assms(1)] Suc.prems(1) by simp
    then have "superWalk n (rt_classes rt) t ?s \<longleftrightarrow> subclassOf (rt_classes rt) ?s t" using Suc by simp
    moreover have "subclassOf (rt_classes rt) c t \<longleftrightarrow> c = t \<or> subclassOf (rt_classes rt) ?s t"
      by (auto intro: subclassOf.intros elim: subclassOf.cases)
    ultimately show ?thesis using s Suc.prems(1) by auto
  qed
qed

section \<open>Properties\<close>

text \<open>Class identity is name identity for the whole life of a runtime: after construction
  and any sequence of registry operations, interning two names, however much later the second, gives the
  same id exactly when the names are equal, and the id leads back to the name.\<close>

theorem class_identity:
  assumes "registryRun (newRuntime p) rt" "legalName s" "length (rt_classes rt) < 2 ^ 31" "classId s rt = (rt1, k)"
    and "registryRun rt1 rt2" "legalName t" "length (rt_classes rt2) < 2 ^ 31" "classId t rt2 = (rt3, j)"
  shows "(k = j \<longleftrightarrow> s = t) \<and> ci_name (classInfo rt3 k) = s \<and> ci_name (classInfo rt3 j) = t"
proof -
  have ok: "registryOk rt" using registryRun_ok [OF assms(1) registryOk_new] by simp
  note a = classId_ok [OF ok assms(2,3,4)]
  note r = registryRun_ok [OF assms(5) a(1)]
  then have ok2: "registryOk rt2" by simp
  note b = classId_ok [OF ok2 assms(6,7,8)] and g = classId_grew [OF ok2 assms(6,7,8)]
  have "k < length (rt_classes rt3)" "ci_name (rt_classes rt3 ! k) = s"
    using registryGrew_trans [of rt1 rt2 rt3] r g a(2,3) by (auto simp: registryGrew_def)
  then show ?thesis using b(2,3) class_unique [OF b(1), of k j] by (simp add: classInfo_def)
qed

theorem class_identity_witness:
  "snd (classId ''A'' (newRuntime \<lparr>className = ''Main'', methods = []\<rparr>))
     \<noteq> snd (classId ''B'' (fst (classId ''A'' (newRuntime \<lparr>className = ''Main'', methods = []\<rparr>))))"
proof -
  let ?rt = "newRuntime \<lparr>className = ''Main'', methods = []\<rparr>"
  obtain rt1 k where a: "classId ''A'' ?rt = (rt1, k)" by fastforce
  obtain rt3 j where b: "classId ''B'' rt1 = (rt3, j)" by fastforce
  have n: "legalName ''A''" "legalName ''B''" by (simp_all add: legalName_def)
  have l: "length (rt_classes ?rt) < 2 ^ 31" by (simp add: newRuntime_size)
  then have "length (rt_classes rt1) < 2 ^ 31" using classId_ok(6) [OF registryOk_new n(1) l a] by (simp add: newRuntime_size)
  from class_identity [OF run_done n(1) l a run_done n(2) this b] show ?thesis using a b by simp
qed

text \<open>Property C32. Field resolution is stable and unambiguous: once a field reference has been resolved,
  every later resolution agrees with it, two references get the same field id exactly when they name the
  same field of the same class, and inside one class different names get different slots.\<close>

theorem field_resolution:
  assumes "registryRun (newRuntime p) rt" "legalName (c_str c)" "length (rt_classes rt) < 2 ^ 31"
    and "length (rt_fieldIndex rt) < 2 ^ 31" "c_kind c = K_FieldRef" "resolveField c rt = (rt1, r)"
    and "registryRun rt1 rt2" "legalName (c_str d)" "length (rt_classes rt2) < 2 ^ 31"
    and "length (rt_fieldIndex rt2) < 2 ^ 31" "c_kind d = K_FieldRef" "resolveField d rt2 = (rt3, q)"
  shows "\<exists>f g. r = Some f \<and> q = Some g \<and> (rf_cls f = rf_cls g \<longleftrightarrow> c_str c = c_str d)
      \<and> (rf_id f = rf_id g \<longleftrightarrow> c_str c = c_str d \<and> c_str2 c = c_str2 d)
      \<and> (rf_cls f = rf_cls g \<longrightarrow> (rf_slot f = rf_slot g \<longleftrightarrow> c_str2 c = c_str2 d))
      \<and> rf_type f = fieldDescriptorType (c_str3 c) \<and> rf_type g = fieldDescriptorType (c_str3 d)"
proof -
  have ok: "registryOk rt" using registryRun_ok [OF assms(1) registryOk_new] by simp
  from resolveField_ok [OF ok assms(5,2,3,4,6)] obtain f where
    f: "r = Some f" "registryOk rt1" "resolvedTo c f rt1" by blast
  from registryRun_ok [OF assms(7) f(2)] have ok2: "registryOk rt2" and g2: "registryGrew rt1 rt2" by auto
  from resolveField_ok [OF ok2 assms(11,8,9,10,12)] obtain g where
    g: "q = Some g" "registryOk rt3" "resolvedTo d g rt3" "registryGrew rt2 rt3" by blast
  have c: "resolvedTo c f rt3" using resolvedTo_grew [OF f(3) registryGrew_trans [OF g2 g(4)] f(2)] .
  have "rf_type f = fieldDescriptorType (c_str3 c)" "rf_type g = fieldDescriptorType (c_str3 d)"
    using c g(3) by (simp_all add: resolvedTo_def)
  then show ?thesis using resolvedTo_identity [OF g(2) c g(3)] f(1) g(1) by blast
qed

theorem field_resolution_witness:
  "\<exists>f g. snd (resolveField detailMessage (newRuntime \<lparr>className = ''Main'', methods = []\<rparr>)) = Some f
     \<and> snd (resolveField (detailMessage\<lparr>c_str2 := ''cause''\<rparr>)
          (fst (resolveField detailMessage (newRuntime \<lparr>className = ''Main'', methods = []\<rparr>)))) = Some g
     \<and> rf_cls f = rf_cls g \<and> rf_slot f \<noteq> rf_slot g \<and> rf_id f \<noteq> rf_id g"
proof -
  let ?rt = "newRuntime \<lparr>className = ''Main'', methods = []\<rparr>" and ?d = "detailMessage\<lparr>c_str2 := ''cause''\<rparr>"
  obtain rt1 r where a: "resolveField detailMessage ?rt = (rt1, r)" by fastforce
  obtain rt3 q where b: "resolveField ?d rt1 = (rt3, q)" by fastforce
  have n: "legalName (c_str detailMessage)" "legalName (c_str ?d)" by (simp_all add: legalName_def detailMessage_def)
  have l: "length (rt_classes ?rt) < 2 ^ 31" "length (rt_fieldIndex ?rt) < 2 ^ 31" by (simp_all add: newRuntime_size newRuntime_table(3))
  have k: "c_kind detailMessage = K_FieldRef" "c_kind ?d = K_FieldRef" by (simp_all add: detailMessage_def)
  have l1: "length (rt_classes rt1) < 2 ^ 31" "length (rt_fieldIndex rt1) < 2 ^ 31"
    using resolveField_size [OF registryOk_new n(1) l(1) a] by (simp_all add: newRuntime_size newRuntime_table(3))
  show ?thesis using field_resolution [OF run_done n(1) l k(1) a run_done n(2) l1 k(2) b] a b by (auto simp: detailMessage_def)
qed

text \<open>Property C33. The bounded superclass walk of \<open>isAssignableFrom\<close> decides the subclass relation: on
  every registry a runtime can reach, for two registered classes that are not arrays, it answers whether
  the second reaches the first along superclass links; its iteration bound is always enough. Array classes
  are assignable only to themselves.\<close>

theorem subclass_decided:
  assumes "registryRun (newRuntime p) rt" "target < length (rt_classes rt)" "val < length (rt_classes rt)"
  shows "isAssignableFrom rt target val \<longleftrightarrow>
      (if isArrayName (ci_name (classInfo rt target)) \<or> isArrayName (ci_name (classInfo rt val)) then target = val
       else subclassOf (rt_classes rt) val target)"
proof -
  have ok: "registryOk rt" using registryRun_ok [OF assms(1) registryOk_new] by simp
  have "superWalk (length (rt_classes rt) + 1) (rt_classes rt) target val \<longleftrightarrow> subclassOf (rt_classes rt) val target"
    by (rule superWalk_iff [OF ok assms(3)]) (use assms(3) in simp)
  then show ?thesis unfolding isAssignableFrom_def classInfo_def Let_def using assms(2,3) by (simp del: superWalk.simps)
qed

theorem subclass_decided_witness:
  "isAssignableFrom (newRuntime \<lparr>className = ''Main'', methods = []\<rparr>) 5 9
   \<and> subclassOf (rt_classes (newRuntime \<lparr>className = ''Main'', methods = []\<rparr>)) 9 5"
proof -
  let ?rt = "newRuntime \<lparr>className = ''Main'', methods = []\<rparr>"
  have n: "ci_name (classInfo ?rt 5) = ''java/lang/Throwable''" "ci_name (classInfo ?rt 9) = ''java/lang/ArithmeticException''"
    by (simp_all add: classInfo_def newRuntime_table builtinTable_def builtinClass_def)
  have s: "ci_superclass (rt_classes ?rt ! 9) = 8" "ci_superclass (rt_classes ?rt ! 8) = 6" "ci_superclass (rt_classes ?rt ! 6) = 5"
    by (simp_all add: newRuntime_table builtinTable_def builtinClass_def)
  have "subclassOf (rt_classes ?rt) 6 5" by (rule sub_step) (simp add: s sub_refl)
  then have "subclassOf (rt_classes ?rt) 8 5" by (intro sub_step [of _ 8]) (simp add: s)
  then have "subclassOf (rt_classes ?rt) 9 5" by (intro sub_step [of _ 9]) (simp add: s)
  then show ?thesis
    using subclass_decided [OF run_done, of 5 "\<lparr>className = ''Main'', methods = []\<rparr>" 9] n by (simp add: newRuntime_size isArrayName_def)
qed

end
