(* ===== verification/Interp_Effects.thy ===== *)
theory Interp_Effects
  imports Interp_Dispatch Interp_RuntimeOk "HOL-Library.Sublist"
begin

text \<open>
  What one step of the T0 machine can change. The effect of every instruction on the runtime is a
  sequence of primitive operations (\<open>runtimeRun\<close>): interning a class, resolving a field, extending the
  object store, marking a class, storing statics, profiles or class objects, and printing. The effect on
  the stack is \<open>stackStep\<close>: only the top frame changes, a frame is pushed, or frames are popped. Rules for
  the building blocks of the model are collected in \<open>effects\<close>; the lemmas on whole steps follow from them.
\<close>

section \<open>Extension of the object store\<close>

definition heapGrew :: "heap \<Rightarrow> heap \<Rightarrow> bool" where
  "heapGrew h h' \<longleftrightarrow> length (objs h) \<le> length (objs h') \<and>
     (\<forall>k < length (objs h). ho_kind (objs h' ! k) = ho_kind (objs h ! k) \<and> ho_cls (objs h' ! k) = ho_cls (objs h ! k)
        \<and> ho_elem (objs h' ! k) = ho_elem (objs h ! k) \<and> ho_length (objs h' ! k) = ho_length (objs h ! k)
        \<and> ho_str (objs h' ! k) = ho_str (objs h ! k))"

lemma heapGrew_refl [intro, simp]: "heapGrew h h"
  by (simp add: heapGrew_def)

lemma heapGrew_trans: "heapGrew a b \<Longrightarrow> heapGrew b c \<Longrightarrow> heapGrew a c"
  by (simp add: heapGrew_def)

lemma heapGrew_objs: "objs h' = objs h \<Longrightarrow> heapGrew h h'"
  by (simp add: heapGrew_def)

lemma heapGrew_push: "pushObj ob h = (h', r) \<Longrightarrow> heapGrew h h'"
  by (auto simp: pushObj_def heapGrew_def nth_append Let_def)

lemma heapGrew_set:
  assumes "obj h r = Some ob" "ho_kind ob' = ho_kind ob" "ho_cls ob' = ho_cls ob" "ho_elem ob' = ho_elem ob"
    "ho_length ob' = ho_length ob" "ho_str ob' = ho_str ob"
  shows "heapGrew h (setObj r ob' h)"
  using assms by (auto simp: heapGrew_def setObj_def obj_def nth_list_update split: if_split_asm)

lemma heapGrew_alloc:
  "allocInstance c n h = (h', r) \<Longrightarrow> heapGrew h h'"
  "allocArray c e n h = (h', r) \<Longrightarrow> heapGrew h h'"
  "allocString s c h = (h', r) \<Longrightarrow> heapGrew h h'"
  by (auto simp: allocInstance_def allocArray_def allocString_def dest: heapGrew_push)

lemma heapGrew_intern: "internString s c h = (h', r) \<Longrightarrow> heapGrew h h'"
  by (auto simp: internString_def split: option.split_asm prod.split_asm
      dest!: heapGrew_alloc(3) intro: heapGrew_trans [OF _ heapGrew_objs])

lemma heapGrew_field:
  "loadField r s h = Some (h', v) \<Longrightarrow> heapGrew h h'"
  "storeField r s x h = Some (h', ok) \<Longrightarrow> heapGrew h h'"
  by (auto simp: loadField_def storeField_def growSlots_def Let_def split: option.split_asm if_split_asm intro!: heapGrew_set)

lemma heapGrew_elem: "storeElem r s x h = (h', ok) \<Longrightarrow> heapGrew h h'"
  by (auto simp: storeElem_def split: option.split_asm if_split_asm intro!: heapGrew_set)

lemma heapGrew_monitor:
  "monitorenter r h = (h', mf) \<Longrightarrow> heapGrew h h'" "monitorexit r h = (h', mf) \<Longrightarrow> heapGrew h h'"
  by (auto simp: monitorenter_def monitorexit_def Let_def split: option.split_asm if_split_asm intro!: heapGrew_set)

lemma heapGrew_release: "heapGrew h (fold (\<lambda>r h. fst (monitorexit r h)) ms h)"
proof (induction ms arbitrary: h)
  case (Cons r ms)
  have "heapGrew h (fst (monitorexit r h))" using heapGrew_monitor(2) [of r h] by (cases "monitorexit r h") auto
  then show ?case using Cons heapGrew_trans by fastforce
qed simp

section \<open>Runs of primitive runtime operations\<close>

definition namesLegal :: "runtime \<Rightarrow> bool" where
  "namesLegal rt \<longleftrightarrow> (\<forall>k < length (rt_classes rt). legalName (ci_name (rt_classes rt ! k)))"

inductive runtimeRun :: "runtime \<Rightarrow> runtime \<Rightarrow> bool" where
  rr_refl [intro, simp]: "runtimeRun rt rt"
| rr_class: "runtimeRun a rt \<Longrightarrow> (namesLegal rt \<longrightarrow> legalName s) \<Longrightarrow> runtimeRun a (fst (classId s rt))"
| rr_field: "runtimeRun a rt \<Longrightarrow> (namesLegal rt \<longrightarrow> legalName (c_str c)) \<Longrightarrow> runtimeRun a (fst (resolveField c rt))"
| rr_heap: "runtimeRun a rt \<Longrightarrow> heapGrew (rt_heap rt) h \<Longrightarrow> runtimeRun a (rt\<lparr>rt_heap := h\<rparr>)"
| rr_init: "runtimeRun a rt \<Longrightarrow> runtimeRun a (markInitialized k rt)"
| rr_flag: "runtimeRun a rt \<Longrightarrow> k < length (rt_classes rt)
    \<Longrightarrow> runtimeRun a (rt\<lparr>rt_classes := (rt_classes rt)[k := (rt_classes rt ! k)\<lparr>ci_isException := True\<rparr>]\<rparr>)"
| rr_data: "runtimeRun a rt \<Longrightarrow> runtimeRun a (rt\<lparr>rt_statics := xs, rt_profiles := ps, rt_classObjects := co\<rparr>)"
| rr_print: "runtimeRun a rt \<Longrightarrow> runtimeRun a (rt\<lparr>rt_out := rt_out rt @ s, rt_err := rt_err rt @ t\<rparr>)"

lemma runtimeRun_trans: "runtimeRun b c \<Longrightarrow> runtimeRun a b \<Longrightarrow> runtimeRun a c"
  by (induction rule: runtimeRun.induct) (auto intro: runtimeRun.intros)

text \<open>Each service of the runtime, from a state the run has reached.\<close>

lemma rr_class': "runtimeRun a rt \<Longrightarrow> classId s rt = (rt', k) \<Longrightarrow> (namesLegal rt \<longrightarrow> legalName s) \<Longrightarrow> runtimeRun a rt'"
  using rr_class [of a rt s] by simp

lemma rr_field': "runtimeRun a rt \<Longrightarrow> resolveField c rt = (rt', r) \<Longrightarrow> (namesLegal rt \<longrightarrow> legalName (c_str c)) \<Longrightarrow> runtimeRun a rt'"
  using rr_field [of a rt c] by simp

lemma rr_onHeap:
  assumes "runtimeRun a rt" "onHeap g rt = (rt', r)" "\<And>h h' q. g h = (h', q) \<Longrightarrow> heapGrew h h'"
  shows "runtimeRun a rt'"
  using assms(2) rr_heap [OF assms(1) assms(3)] by (auto simp: onHeap_def split: prod.split_asm)

lemma rr_statics: "runtimeRun a rt \<Longrightarrow> runtimeRun a (rt\<lparr>rt_statics := xs\<rparr>)"
  using rr_data [where rt = rt and a = a and xs = xs and ps = "rt_profiles rt" and co = "rt_classObjects rt"] by simp

lemma rr_profiles: "runtimeRun a rt \<Longrightarrow> runtimeRun a (rt\<lparr>rt_profiles := ps\<rparr>)"
  using rr_data [where rt = rt and a = a and xs = "rt_statics rt" and ps = ps and co = "rt_classObjects rt"] by simp

lemma rr_classObjects: "runtimeRun a rt \<Longrightarrow> runtimeRun a (rt\<lparr>rt_classObjects := co\<rparr>)"
  using rr_data [where rt = rt and a = a and xs = "rt_statics rt" and ps = "rt_profiles rt" and co = co] by simp

lemma rr_bump: "runtimeRun a rt \<Longrightarrow> runtimeRun a (bumpInvocations k rt)" "runtimeRun a rt \<Longrightarrow> runtimeRun a (bumpBackedge k rt)"
  by (auto simp: bumpInvocations_def bumpBackedge_def intro: rr_profiles)

lemma rr_newInstance: "runtimeRun a rt \<Longrightarrow> newInstance c rt = (rt', r) \<Longrightarrow> runtimeRun a rt'"
  by (auto simp: newInstance_def intro: rr_onHeap heapGrew_alloc)

lemma legal_atype: "atypeInfo n = (e, nm) \<Longrightarrow> legalName nm"
  by (auto simp: atypeInfo_def legalName_def split: if_split_asm)

lemma rr_arrayOf:
  assumes "runtimeRun a rt" "namesLegal rt \<longrightarrow> legalName n" "classId n rt = (rt1, cls)" "onHeap (allocArray cls e l) rt1 = (rt', r)"
  shows "runtimeRun a rt'"
  using rr_onHeap [OF rr_class' [OF assms(1,3,2)] assms(4)] heapGrew_alloc(2) by blast

lemma rr_newArray: "runtimeRun a rt \<Longrightarrow> newArray n l rt = (rt', r) \<Longrightarrow> runtimeRun a rt'"
  using rr_arrayOf [of a rt "snd (atypeInfo n)"] legal_atype [of n] unfolding newArray_def by (auto split: prod.split_asm)

lemma legal_classInfo: "namesLegal rt \<Longrightarrow> legalName (ci_name (classInfo rt k))"
  by (auto simp: namesLegal_def classInfo_def emptyClass_def legalName_def)

lemma legal_refArray: "legalName n \<Longrightarrow> legalName (refArrayName n)"
  by (auto simp: refArrayName_def legalName_def)

lemma rr_newRefArray: "runtimeRun a rt \<Longrightarrow> newRefArray c l rt = (rt', r) \<Longrightarrow> runtimeRun a rt'"
  using rr_arrayOf [of a rt "refArrayName (ci_name (classInfo rt c))"] legal_refArray [OF legal_classInfo, of rt c]
  unfolding newRefArray_def by (auto split: prod.split_asm)

lemma legal_child: "legalName n \<Longrightarrow> legalName (childName n)"
  by (auto simp: childName_def legalName_def split: list.split)


definition namesKept :: "runtime \<Rightarrow> runtime \<Rightarrow> bool" where
  "namesKept a b \<longleftrightarrow> length (rt_classes a) \<le> length (rt_classes b)
     \<and> (\<forall>k < length (rt_classes a). ci_name (rt_classes b ! k) = ci_name (rt_classes a ! k))"

lemma namesKept_trans: "namesKept a b \<Longrightarrow> namesKept b c \<Longrightarrow> namesKept a c"
  by (auto simp: namesKept_def)

lemma namesKept_class: "namesKept rt (fst (classId s rt))"
  by (auto simp: namesKept_def classId_def Let_def nth_append split: option.split)

lemma namesKept_update: "ci_name ci = ci_name (rt_classes rt ! k) \<Longrightarrow> namesKept rt (rt\<lparr>rt_classes := (rt_classes rt)[k := ci]\<rparr>)"
  unfolding namesKept_def by (simp, metis nth_list_update_eq nth_list_update_neq)

lemma namesKept_field: "namesKept rt (fst (resolveField c rt))"
proof -
  obtain rt1 cid where c: "classId (c_str c) rt = (rt1, cid)" by fastforce
  have k: "namesKept rt rt1" using namesKept_class [of rt "c_str c"] c by simp
  then show ?thesis
    using c namesKept_trans [OF k namesKept_update]
    by (auto simp: resolveField_def Let_def namesKept_def nth_list_update split: option.split)
qed

lemma names_kept: "runtimeRun a b \<Longrightarrow> namesKept a b"
proof (induction rule: runtimeRun.induct)
  case (rr_class a rt s)
  then show ?case using namesKept_trans namesKept_class by blast
next
  case (rr_field a rt c)
  then show ?case using namesKept_trans namesKept_field by blast
next
  case (rr_flag a rt k)
  then show ?case using namesKept_trans [OF _ namesKept_update] by fastforce
next
  case (rr_init a rt k)
  then show ?case
    using namesKept_trans [OF _ namesKept_update [of "(rt_classes rt ! k)\<lparr>ci_initialized := True\<rparr>"]] by (auto simp: markInitialized_def)
qed (simp_all add: namesKept_def)

lemma namesLegal_before: "runtimeRun a b \<Longrightarrow> namesLegal b \<Longrightarrow> namesLegal a"
  using names_kept unfolding namesLegal_def namesKept_def by (metis order_less_le_trans)

lemma fold_run: "(\<And>i rt. runtimeRun a rt \<Longrightarrow> runtimeRun a (g i rt)) \<Longrightarrow> runtimeRun a rt \<Longrightarrow> runtimeRun a (fold g xs rt)"
  by (induction xs arbitrary: rt) auto

lemma rr_elem: "runtimeRun a rt \<Longrightarrow> runtimeRun a (rt\<lparr>rt_heap := fst (storeElem r i v (rt_heap rt))\<rparr>)"
  using heapGrew_elem [of r i v "rt_heap rt"] by (cases "storeElem r i v (rt_heap rt)") (auto intro: rr_heap)

lemma rr_buildMultiLevel:
  "runtimeRun a rt \<Longrightarrow> namesLegal a \<longrightarrow> legalName n \<Longrightarrow> buildMultiLevel k n e ds rt = (rt', r) \<Longrightarrow> runtimeRun a rt'"
proof (induction k arbitrary: n ds rt rt' r)
  case 0
  then show ?case using rr_arrayOf [of a rt n] namesLegal_before [OF 0(1)] by (auto split: prod.split_asm)
next
  case (Suc k)
  obtain rt1 cls rt2 arr where c: "classId n rt = (rt1, cls)" "onHeap (allocArray cls RT_Ref (dimLen ds)) rt1 = (rt2, arr)"
    by fastforce
  have "runtimeRun a rt2" using rr_arrayOf [OF Suc.prems(1) _ c] Suc.prems(2) namesLegal_before [OF Suc.prems(1)] by blast
  moreover have "runtimeRun a (let (rt, sub) = buildMultiLevel k (childName n) e (tl ds) rt
      in rt\<lparr>rt_heap := fst (storeElem arr i (VRef sub) (rt_heap rt))\<rparr>)" if "runtimeRun a rt" for i rt
  proof -
    obtain rt3 sub where b: "buildMultiLevel k (childName n) e (tl ds) rt = (rt3, sub)" by fastforce
    have "runtimeRun a rt3" using Suc.IH [OF that _ b] Suc.prems(2) legal_child by blast
    then show ?thesis using b rr_elem by simp
  qed
  ultimately show ?case using Suc.prems(3) c fold_run [of a "\<lambda>i rt. let (rt, sub) = buildMultiLevel k (childName n) e (tl ds) rt
      in rt\<lparr>rt_heap := fst (storeElem arr i (VRef sub) (rt_heap rt))\<rparr>"] by auto
qed

lemma rr_newMultiArray:
  assumes "runtimeRun a rt" "newMultiArray c ds rt = (rt', r)"
  shows "runtimeRun a rt'"
proof -
  have l: "namesLegal rt \<longrightarrow> legalName (ci_name (classInfo rt c))" using legal_classInfo by blast
  have l': "namesLegal rt \<longrightarrow> legalName (''[L'' @ (if nm = [] then ''java/lang/Object'' else nm) @ '';'')"
    if "nm = ci_name (classInfo rt c)" for nm using l that by (auto simp: legalName_def)
  have "runtimeRun rt rt'"
    using assms(2) rr_buildMultiLevel [OF rr_refl l] rr_arrayOf [OF rr_refl l' [OF refl]]
    unfolding newMultiArray_def Let_def by (auto split: if_split_asm prod.split_asm)
  then show ?thesis using assms(1) runtimeRun_trans by blast
qed

lemma rr_intern: "runtimeRun a rt \<Longrightarrow> rt_internString s rt = (rt', r) \<Longrightarrow> runtimeRun a rt'"
  by (auto simp: rt_internString_def intro: rr_onHeap heapGrew_intern)

lemma rr_classObject: "runtimeRun a rt \<Longrightarrow> classObject c rt = (rt', r) \<Longrightarrow> runtimeRun a rt'"
  by (auto simp: classObject_def Let_def split: if_split_asm prod.split_asm intro!: rr_classObjects dest: rr_newInstance)

lemma rr_makeException:
  assumes "runtimeRun a rt" "legalName n" "makeException n msg rt = Some (rt', r)"
  shows "runtimeRun a rt'"
proof -
  obtain rt1 cid where c: "classId n rt = (rt1, cid)" by fastforce
  let ?m = "if cid < length (rt_classes rt1) \<and> \<not> ci_isException (rt_classes rt1 ! cid) \<and> isAssignableFrom rt1 (rt_throwableClass rt1) cid
      then rt1\<lparr>rt_classes := (rt_classes rt1)[cid := (rt_classes rt1 ! cid)\<lparr>ci_isException := True\<rparr>]\<rparr> else rt1"
  have m: "runtimeRun a ?m" using rr_class' [OF assms(1) c] assms(2) rr_flag by auto
  obtain rt2 ob where o: "onHeap (allocInstance cid (u32 (length (ci_fields (classInfo ?m cid))))) ?m = (rt2, ob)" by fastforce
  have "runtimeRun a rt2" using rr_onHeap [OF m o] heapGrew_alloc(1) by blast
  moreover obtain rt3 rf where f: "resolveField detailMessage rt2 = (rt3, rf)" by fastforce
  ultimately have r: "runtimeRun a rt3" using rr_field' by (fastforce simp: detailMessage_def legalName_def)
  obtain rt4 q where i: "rt_internString msg rt3 = (rt4, q)" by fastforce
  have r4: "runtimeRun a rt4" using rr_intern [OF r i] .
  have eq: "makeException n msg rt = (case rf of None \<Rightarrow> Some (rt3, ob)
      | Some g \<Rightarrow> map_option (\<lambda>(h, _). (rt4\<lparr>rt_heap := h\<rparr>, ob)) (storeField ob (rf_slot g) (VRef q) (rt_heap rt4)))"
    unfolding makeException_def Let_def c prod.case o f i ..
  show ?thesis
  proof (cases rf)
    case None
    then show ?thesis using assms(3) eq r by simp
  next
    case (Some g)
    then obtain h ok where "storeField ob (rf_slot g) (VRef q) (rt_heap rt4) = Some (h, ok)" "rt' = rt4\<lparr>rt_heap := h\<rparr>"
      using assms(3) eq by auto
    then show ?thesis using rr_heap [OF r4] heapGrew_field(2) by blast
  qed
qed

lemma rr_storeStatic: "runtimeRun a rt \<Longrightarrow> storeStatic k v rt = Some rt' \<Longrightarrow> runtimeRun a rt'"
  by (auto simp: storeStatic_def Let_def split: if_split_asm intro: rr_statics)

lemma rr_execBuiltin: "runtimeRun a rt \<Longrightarrow> execBuiltin tc b args rt = (rt', ok) \<Longrightarrow> runtimeRun a rt'"
  using rr_print [of a rt _ "[]"] rr_print [of a rt "[]"] by (auto simp: execBuiltin_def Let_def split: if_split_asm)


lemma program_kept: "runtimeRun a b \<Longrightarrow> rt_program b = rt_program a"
proof (induction rule: runtimeRun.induct)
  case (rr_field a rt c)
  then show ?case by (auto simp: resolveField_def classId_def Let_def split: option.split prod.split)
qed (auto simp: classId_def Let_def markInitialized_def split: option.split)

section \<open>Steps of the machine\<close>

fun machineOf :: "status \<Rightarrow> machine" where
  "machineOf (Running m) = m"
| "machineOf (Returned v m) = m"
| "machineOf (Threw e m) = m"

definition legalMethod :: "rmethod \<Rightarrow> bool" where
  "legalMethod mt \<longleftrightarrow> (\<forall>c \<in> set (cp mt). legalName (c_str c))"

definition legalFrames :: "mframe list \<Rightarrow> bool" where
  "legalFrames xs \<longleftrightarrow> (\<forall>x \<in> set xs. legalMethod (fr_method (snd x)))"

text \<open>A frame runs the method at its position in the program.\<close>

definition methodAt :: "rprogram \<Rightarrow> nat \<Rightarrow> rmethod" where
  "methodAt p k = (if k \<ge> length (methods p) then dummyMethod else methods p ! k)"

definition framesAt :: "rprogram \<Rightarrow> mframe list \<Rightarrow> bool" where
  "framesAt p xs \<longleftrightarrow> (\<forall>x \<in> set xs. fr_method (snd x) = methodAt p (fst x))"

lemma rt_method_at: "rt_method rt k = methodAt (rt_program rt) k"
  by (simp add: rt_method_def methodAt_def)

definition stackStep :: "interp_config \<Rightarrow> rprogram \<Rightarrow> mframe list \<Rightarrow> mframe list \<Rightarrow> bool" where
  "stackStep cfg p xs ys \<longleftrightarrow> suffix (tl ys) xs \<and> length ys \<le> max (length xs) (maxFrames cfg) \<and> (framesAt p xs \<longrightarrow> framesAt p ys)"

text \<open>An intermediate state of a step: same stack, runtime reached from the start, known caches.\<close>

definition reached :: "machine \<Rightarrow> site_ic list list \<Rightarrow> machine \<Rightarrow> bool" where
  "reached m ics m' \<longleftrightarrow> mc_frames m' = mc_frames m \<and> runtimeRun (mc_rt m) (mc_rt m') \<and> mc_programClass m' = mc_programClass m
     \<and> mc_siteICs m' = ics \<and> legalFrames (mc_frames m)"

definition effect :: "interp_config \<Rightarrow> machine \<Rightarrow> site_ic list list \<Rightarrow> status option \<Rightarrow> bool" where
  "effect cfg m ics r \<longleftrightarrow> (\<forall>s. r = Some s \<longrightarrow>
     runtimeRun (mc_rt m) (mc_rt (machineOf s)) \<and> stackStep cfg (mc_program m) (mc_frames m) (mc_frames (machineOf s))
     \<and> mc_programClass (machineOf s) = mc_programClass m \<and> mc_siteICs (machineOf s) = ics)"

named_theorems effects

lemma reached_self: "legalFrames (mc_frames m) \<Longrightarrow> reached m (mc_siteICs m) m"
  by (simp add: reached_def)

lemma reachedD: "reached m ics m' \<Longrightarrow> runtimeRun (mc_rt m) (mc_rt m')"
  by (simp add: reached_def)

lemma reached_rt [effects]: "reached m ics m' \<Longrightarrow> runtimeRun (mc_rt m) rt \<Longrightarrow> reached m ics (m'\<lparr>mc_rt := rt\<rparr>)"
  by (simp add: reached_def)

lemma reached_heap [effects]: "reached m ics m' \<Longrightarrow> heapGrew (mc_heap m') h \<Longrightarrow> reached m ics (setHeap h m')"
  by (auto simp: reached_def setHeap_def mc_heap_def intro: rr_heap)

lemma reached_count [effects]: "reached m ics m' \<Longrightarrow> reached m ics (count cfg g m')"
  by (simp add: reached_def count_def)

lemma reached_record [effects]: "reached m ics m' \<Longrightarrow> reached m ics (recordDispatch mi site kd rc t m')"
  by (simp add: reached_def recordDispatch_def Let_def)

lemma effect_None [effects]: "effect cfg m ics None"
  by (simp add: effect_def)

lemma effect_bind [effects]: "(\<And>x. a = Some x \<Longrightarrow> effect cfg m ics (g x)) \<Longrightarrow> effect cfg m ics (Option.bind a g)"
  by (cases a) (auto simp: effect_def)

lemma effect_if [effects]: "(c \<Longrightarrow> effect cfg m ics x) \<Longrightarrow> (\<not> c \<Longrightarrow> effect cfg m ics y) \<Longrightarrow> effect cfg m ics (if c then x else y)"
  by simp

lemma findHandler_run:
  "findHandler f exc hs rt = Some (rt', h) \<Longrightarrow> legalMethod (fr_method f) \<Longrightarrow> runtimeRun a rt \<Longrightarrow> runtimeRun a rt'"
proof (induction f exc hs rt rule: findHandler.induct)
  case (2 f exc h hs rt)
  show ?case
  proof (cases "fr_pc f < h_start h \<or> fr_pc f \<ge> h_end h \<or> h_catchType h < 0")
    case True
    then show ?thesis using 2 by (auto split: if_split_asm)
  next
    case False
    then obtain ct where ct: "cpEntry f (nat (h_catchType h)) = Some ct" using 2(3) by (auto split: bind_split_asm)
    obtain rt1 k where c: "classId (c_str ct) rt = (rt1, k)" by fastforce
    have "legalName (c_str ct)" using ct 2(4) by (auto simp: cpEntry_def legalMethod_def split: if_split_asm)
    then have "runtimeRun a rt1" using rr_class' [OF 2(5) c] by blast
    then show ?thesis using 2 False ct c by (auto split: if_split_asm)
  qed
qed simp

lemma unwind_run:
  assumes "unwind exc xs rt = Some (rt', ys)" "legalFrames xs" "runtimeRun a rt"
  shows "runtimeRun a rt'" "suffix (tl ys) xs" "length ys \<le> length xs" "framesAt p xs \<longrightarrow> framesAt p ys"
proof -
  have "runtimeRun a rt' \<and> suffix (tl ys) xs \<and> length ys \<le> length xs \<and> (framesAt p xs \<longrightarrow> framesAt p ys)"
    using assms
  proof (induction exc xs rt rule: unwind.induct)
    case (2 exc k f xs rt)
    then obtain rt1 h where h: "findHandler f exc (handlers (fr_method f)) rt = Some (rt1, h)" by (auto split: bind_split_asm)
    have l: "legalMethod (fr_method f)" "legalFrames xs" using 2(3) by (auto simp: legalFrames_def)
    note r = findHandler_run [OF h l(1) 2(4)]
    show ?case
    proof (cases h)
      case None
      have "runtimeRun a (releaseMonitorsLIFO (fr_monitors f) rt1)"
        using rr_heap [OF r heapGrew_release] by (simp add: releaseMonitorsLIFO_def)
      then show ?thesis using 2(1) [OF h refl None] 2(2) h None l(2) by (auto simp: framesAt_def intro: suffix_ConsI)
    next
      case (Some hd)
      then show ?thesis using 2(2) h r
        by (auto simp: framesAt_def enterHandler_def Let_def intro: suffix_ConsI)
    qed
  qed simp
  then show "runtimeRun a rt'" "suffix (tl ys) xs" "length ys \<le> length xs" "framesAt p xs \<longrightarrow> framesAt p ys" by auto
qed

lemma effect_throw [effects]:
  assumes "reached m ics m'"
  shows "effect cfg m ics (throwException cfg exc m')"
proof -
  have "runtimeRun (mc_rt m) rt' \<and> stackStep cfg (mc_program m) (mc_frames m) ys"
    if u: "unwind exc (mc_frames m') (mc_rt m') = Some (rt', ys)" for rt' ys
    using unwind_run(1-3) [OF u, where a = "mc_rt m"] unwind_run(4) [OF u, where a = "mc_rt m" and p = "mc_program m"] assms
    by (auto simp: reached_def stackStep_def)
  then show ?thesis using assms
    by (auto simp: effect_def throwException_def count_def reached_def Let_def split: bind_split_asm)
qed

lemma effect_case_prod [effects]: "(\<And>x y. a = (x, y) \<Longrightarrow> effect cfg m ics (g x y)) \<Longrightarrow> effect cfg m ics (case a of (x, y) \<Rightarrow> g x y)"
  by (simp split: prod.split)

lemma effect_case_option [effects]:
  "(a = None \<Longrightarrow> effect cfg m ics x) \<Longrightarrow> (\<And>y. a = Some y \<Longrightarrow> effect cfg m ics (g y))
    \<Longrightarrow> effect cfg m ics (case a of None \<Rightarrow> x | Some y \<Rightarrow> g y)"
  by (simp split: option.split)

lemma effect_raise [effects]:
  assumes "reached m ics m'" "legalName cls"
  shows "effect cfg m ics (raise cfg cls msg m')"
  unfolding raise_def by (intro effects assms rr_makeException [OF reachedD [OF assms(1)] assms(2)]) simp

lemma legal_classes [simp]:
  "legalName kClsArithmetic" "legalName kClsInternalError" "legalName kClsNullPointer" "legalName kClsArrayIndexOob"
  "legalName kClsNegativeArraySize" "legalName kClsClassCast" "legalName kClsArrayStore" "legalName kClsIllegalMonitor"
  "legalName kClsStackOverflow" "legalName kClsNoSuchMethod" "legalName kClsBootstrapMethod"
  by (simp_all add: legalName_def kClsArithmetic_def kClsInternalError_def kClsNullPointer_def kClsArrayIndexOob_def
      kClsNegativeArraySize_def kClsClassCast_def kClsArrayStore_def kClsIllegalMonitor_def kClsStackOverflow_def
      kClsNoSuchMethod_def kClsBootstrapMethod_def)

lemma effect_traps [effects]:
  assumes "reached m ics m'"
  shows "effect cfg m ics (raiseNpe cfg m')" "effect cfg m ics (raiseAioobe cfg ix ln m')"
    "effect cfg m ics (negativeSize cfg n m')" "effect cfg m ics (noSuchMethod cfg c m')"
  using assms by (simp_all add: raiseNpe_def raiseAioobe_def negativeSize_def noSuchMethod_def effect_raise)

text \<open>The frame an instruction works on: the top one, possibly with other contents.\<close>

definition onTop :: "machine \<Rightarrow> nat \<Rightarrow> frame \<Rightarrow> bool" where
  "onTop m k f \<longleftrightarrow> (\<exists>g xs. mc_frames m = (k, g) # xs \<and> fr_method g = fr_method f)"

lemma effect_top:
  assumes "reached m ics m'" "onTop m k f"
  shows "effect cfg m ics (Some (Running (setTop f m')))"
  using assms by (force simp: effect_def reached_def onTop_def setTop_def stackStep_def framesAt_def intro: suffix_ConsI)

lemma onTop_upd: "onTop m k f \<Longrightarrow> fr_method g = fr_method f \<Longrightarrow> onTop m k g"
  by (simp add: onTop_def)

lemma effect_setRegIn [effects]: "reached m ics m' \<Longrightarrow> onTop m k f \<Longrightarrow> effect cfg m ics (setRegIn m' f d v)"
  unfolding setRegIn_def by (auto intro!: effect_None effect_top [of _ _ _ k] simp: onTop_def)

lemma effect_next [effects]: "reached m ics m' \<Longrightarrow> onTop m k f \<Longrightarrow> effect cfg m ics (Some (nextPc m' f))"
  unfolding nextPc_def by (auto intro!: effect_top [of _ _ _ k] simp: onTop_def)

lemma legal_entry: "reached m ics m' \<Longrightarrow> onTop m k f \<Longrightarrow> cpEntry f j = Some c \<Longrightarrow> legalName (c_str c)"
  by (auto simp: reached_def onTop_def legalFrames_def legalMethod_def cpEntry_def split: if_split_asm)

lemma run_services:
  assumes "reached m ics m'"
  shows "resolveField c (mc_rt m') = (rt, rf) \<Longrightarrow> legalName (c_str c) \<Longrightarrow> runtimeRun (mc_rt m) rt"
    and "classId n (mc_rt m') = (rt, q) \<Longrightarrow> legalName n \<Longrightarrow> runtimeRun (mc_rt m) rt"
    and "rt_internString n (mc_rt m') = (rt, q) \<Longrightarrow> runtimeRun (mc_rt m) rt"
    and "classObject q (mc_rt m') = (rt, r) \<Longrightarrow> runtimeRun (mc_rt m) rt"
    and "newInstance q (mc_rt m') = (rt, r) \<Longrightarrow> runtimeRun (mc_rt m) rt"
    and "newArray q l (mc_rt m') = (rt, r) \<Longrightarrow> runtimeRun (mc_rt m) rt"
    and "storeStatic q v (mc_rt m') = Some rt \<Longrightarrow> runtimeRun (mc_rt m) rt"
    and "execBuiltin tc b args (mc_rt m') = (rt, ok) \<Longrightarrow> runtimeRun (mc_rt m) rt"
  using reachedD [OF assms]
  by (blast intro: rr_field' rr_class' rr_intern rr_classObject rr_newInstance rr_newArray rr_storeStatic rr_execBuiltin)+

lemma heapGrew_services:
  "loadField r s (mc_heap m') = Some (h', v) \<Longrightarrow> heapGrew (mc_heap m') h'"
  "storeField r s x (mc_heap m') = Some (h', ok) \<Longrightarrow> heapGrew (mc_heap m') h'"
  "storeElem r s x (mc_heap m') = (h', ok) \<Longrightarrow> heapGrew (mc_heap m') h'"
  by (auto dest: heapGrew_field heapGrew_elem)

section \<open>Class initialisation and calls\<close>

lemma effect_push:
  assumes "reached m ics m'" "length (mc_frames m) < maxFrames cfg" "fr_method g = methodAt (mc_program m) t"
    and "mc_frames m'' = (t, g) # mc_frames m" "runtimeRun (mc_rt m) (mc_rt m'')" "mc_programClass m'' = mc_programClass m'"
    and "mc_siteICs m'' = mc_siteICs m'"
  shows "effect cfg m ics (Some (Running m''))"
  using assms by (auto simp: effect_def reached_def stackStep_def framesAt_def)

lemma reached_method: "reached m ics m' \<Longrightarrow> rt_method (mc_rt m') k = methodAt (mc_program m) k"
  by (auto simp: reached_def rt_method_at mc_program_def dest: program_kept)

lemma effect_pushCall [effects]:
  assumes "reached m ics m'"
  shows "effect cfg m ics (pushCall cfg i t m')"
  unfolding pushCall_def Let_def
proof (intro effects assms)
  fix x k f assume "\<not> maxFrames cfg \<le> length (mc_frames m')" "topFrame m' = Some x" "x = (k, f)"
  then show "effect cfg m ics (Some (Running ((countCall cfg (m'\<lparr>mc_frames := (t, newFrame (rt_method (mc_rt m') t) (fr_pc f) (argSpan f i)) # mc_frames m'\<rparr>))
      \<lparr>mc_rt := bumpInvocations t (mc_rt (countCall cfg (m'\<lparr>mc_frames := (t, newFrame (rt_method (mc_rt m') t) (fr_pc f) (argSpan f i)) # mc_frames m'\<rparr>)))\<rparr>)))"
    using assms rr_bump(1) [OF reachedD [OF assms], of t]
    by (intro effect_push [OF assms, of _ "newFrame (rt_method (mc_rt m') t) (fr_pc f) (argSpan f i)" t])
      (auto simp: count_def reached_method newFrame_def reached_def)
qed simp_all

end
