(* ===== verification/Interp_Stack.thy ===== *)
theory Interp_Stack
  imports Interp_Effects
begin

text \<open>
  The effect of every instruction of the T0 machine, from the rules of \<open>Interp_Effects\<close>, and what follows
  for runs: suspended frames are never touched and the depth limit holds; objects keep their identity,
  classes keep their names, output is only appended; inline caches agree with resolution.
\<close>

section \<open>Calls and initialisation\<close>

lemma effect_callAndRecord [effects]:
  assumes "reached m ics m'"
  shows "effect cfg m ics (callAndRecord cfg i mi site kd rc t m')"
proof -
  have "effect cfg m ics (pushCall cfg i t m')" by (intro effects assms)
  then show ?thesis
    by (auto simp: callAndRecord_def effect_def recordDispatch_def Let_def split: bind_split_asm status.split)
qed

lemma effect_pushClinit [effects]:
  assumes "reached m ics m'"
  shows "effect cfg m ics (pushClinit cfg cls m')"
proof -
  let ?rt = "markInitialized cls (mc_rt m')"
  let ?t = "findClinit ?rt cls"
  let ?n = "m'\<lparr>mc_rt := ?rt\<rparr>"
  have r: "reached m ics ?n" by (intro effects assms rr_init reachedD [OF assms])
  have "effect cfg m ics (do { (k, f) \<leftarrow> topFrame ?n;
      let nf = (newFrame (rt_method ?rt ?t) (fr_pc f) [])\<lparr>fr_locals := []\<rparr>;
      let m = countCall cfg (?n\<lparr>mc_frames := (?t, nf) # mc_frames ?n\<rparr>);
      Some (Running (m\<lparr>mc_rt := bumpInvocations ?t (mc_rt m)\<rparr>)) })" if "\<not> maxFrames cfg \<le> length (mc_frames ?n)"
    unfolding Let_def
  proof (intro effects)
    fix x k f
    let ?g = "(newFrame (rt_method ?rt ?t) (fr_pc f) [])\<lparr>fr_locals := []\<rparr>"
    let ?m = "countCall cfg (?n\<lparr>mc_frames := (?t, ?g) # mc_frames ?n\<rparr>)"
    show "effect cfg m ics (Some (Running (?m\<lparr>mc_rt := bumpInvocations ?t (mc_rt ?m)\<rparr>)))"
      using r that rr_bump(1) [OF reachedD [OF r], of ?t] reached_method [OF r]
      by (intro effect_push [OF r, of _ ?g ?t]) (auto simp: count_def newFrame_def reached_def)
  qed
  then show ?thesis using effect_raise [OF r, of kClsStackOverflow cfg "[]"] by (simp add: pushClinit_def Let_def)
qed

lemma effect_afterInit [effects]:
  assumes "reached m ics m'" "effect cfg m ics (body m')"
  shows "effect cfg m ics (afterInit cfg cls m' body)"
proof -
  have "effect cfg m ics (pushClinit cfg cls m')" by (intro effects assms)
  then show ?thesis using assms(2)
    by (auto simp: afterInit_def initClassIfNeeded_def effect_def split: bind_split_asm init_flow.split_asm)
qed

section \<open>Fields\<close>

text \<open>The services once more, driven by the equation that names the new state.\<close>

lemma services:
  "resolveField c rt = (rt', rf) \<Longrightarrow> runtimeRun a rt \<Longrightarrow> legalName (c_str c) \<Longrightarrow> runtimeRun a rt'"
  "classId n rt = (rt', q) \<Longrightarrow> runtimeRun a rt \<Longrightarrow> legalName n \<Longrightarrow> runtimeRun a rt'"
  "rt_internString n rt = (rt', q) \<Longrightarrow> runtimeRun a rt \<Longrightarrow> runtimeRun a rt'"
  "classObject q rt = (rt', r) \<Longrightarrow> runtimeRun a rt \<Longrightarrow> runtimeRun a rt'"
  "newInstance q rt = (rt', r) \<Longrightarrow> runtimeRun a rt \<Longrightarrow> runtimeRun a rt'"
  "newArray q l rt = (rt', r) \<Longrightarrow> runtimeRun a rt \<Longrightarrow> runtimeRun a rt'"
  "newRefArray q l rt = (rt', r) \<Longrightarrow> runtimeRun a rt \<Longrightarrow> runtimeRun a rt'"
  "newMultiArray q ds rt = (rt', r) \<Longrightarrow> runtimeRun a rt \<Longrightarrow> runtimeRun a rt'"
  "storeStatic q v rt = Some rt' \<Longrightarrow> runtimeRun a rt \<Longrightarrow> runtimeRun a rt'"
  "execBuiltin tc b args rt = (rt', ok) \<Longrightarrow> runtimeRun a rt \<Longrightarrow> runtimeRun a rt'"
  "loadField q s h = Some (h', v) \<Longrightarrow> heapGrew h h'"
  "storeField q s v h = Some (h', ok) \<Longrightarrow> heapGrew h h'"
  "storeElem q s v h = (h', ok) \<Longrightarrow> heapGrew h h'"
  "monitorenter q h = (h', mf) \<Longrightarrow> heapGrew h h'"
  "monitorexit q h = (h', mf) \<Longrightarrow> heapGrew h h'"
  "cpEntry f j = Some c \<Longrightarrow> legalMethod (fr_method f) \<Longrightarrow> legalName (c_str c)"
  by (blast intro: rr_field' rr_class' rr_intern rr_classObject rr_newInstance rr_newArray rr_newRefArray rr_newMultiArray
      rr_storeStatic rr_execBuiltin heapGrew_field heapGrew_elem heapGrew_monitor)+
    (auto simp: legalMethod_def cpEntry_def split: if_split_asm)

lemma legal_top: "reached m ics m' \<Longrightarrow> onTop m k f \<Longrightarrow> legalMethod (fr_method f)"
  by (auto simp: reached_def onTop_def legalFrames_def)

lemma effect_access [effects]:
  assumes "reached m ics m'" "onTop m k f" "legalMethod (fr_method f)"
  shows "effect cfg m ics (ldcStep cfg f i m')" "effect cfg m ics (unsetField cfg f i r m')"
    "effect cfg m ics (storeInto cfg f r s v m')" "effect cfg m ics (storeAt cfg f r j v m')"
  unfolding ldcStep_def unsetField_def storeInto_def storeAt_def Let_def
  using assms by - (rule effects | assumption | erule services | rule reachedD | (simp; fail) | simp only: machine.simps)+

lemma effect_element [effects]:
  assumes "reached m ics m'" "\<And>r j. effect cfg m ics (body r j)"
  shows "effect cfg m ics (withElement cfg f i m' body)"
  unfolding withElement_def Let_def using assms by - (rule effects | assumption)+

lemma elementAccepts_run:
  "elementAccepts (ci_name (classInfo rt q)) v rt = Some (rt', ok) \<Longrightarrow> runtimeRun a rt \<Longrightarrow> runtimeRun a rt'"
proof -
  assume e: "elementAccepts (ci_name (classInfo rt q)) v rt = Some (rt', ok)" and r: "runtimeRun a rt"
  have "namesLegal rt \<longrightarrow> legalName (take l (drop 2 (ci_name (classInfo rt q))))" for l
    using legal_classInfo [of rt q] by (auto simp: legalName_def dest: in_set_takeD in_set_dropD)
  then show ?thesis using e r rr_class' [OF r] by (auto simp: elementAccepts_def split: if_split_asm prod.split_asm)
qed

lemma effect_plain_fields [effects]:
  assumes "reached m ics m'" "onTop m k f" "legalMethod (fr_method f)"
  shows "effect cfg m ics (getstaticStep cfg f i m')" "effect cfg m ics (putstaticStep cfg f i m')"
    "effect cfg m ics (getfieldQuickStep cfg f i m')" "effect cfg m ics (putfieldQuickStep cfg f i m')"
  unfolding getstaticStep_def putstaticStep_def getfieldQuickStep_def putfieldQuickStep_def Let_def
  using assms by - (rule effects | assumption | erule services | rule reachedD | (simp; fail) | simp only: machine.simps)+

section \<open>Arrays and objects\<close>

lemma effect_arrays [effects]:
  assumes "reached m ics m'" "onTop m k f" "legalMethod (fr_method f)"
  shows "effect cfg m ics (newArrayStep cfg f i m')" "effect cfg m ics (anewArrayStep cfg f i m')"
    "effect cfg m ics (arraylengthStep cfg f i m')" "effect cfg m ics (arrayLoad cfg f i m')"
    "effect cfg m ics (arrayStore cfg nw f i m')"
  unfolding newArrayStep_def anewArrayStep_def arraylengthStep_def arrayLoad_def arrayStore_def Let_def
  using assms by - (rule effects | assumption | erule services | rule reachedD | (simp; fail) | simp only: machine.simps)+

lemma effect_aastore [effects]:
  assumes "reached m ics m'" "onTop m k f" "legalMethod (fr_method f)"
  shows "effect cfg m ics (aastoreStep cfg f i m')"
  unfolding aastoreStep_def Let_def
  using assms by - (rule effects | assumption | rule elementAccepts_run, assumption | rule reachedD | (simp; fail) | simp only: machine.simps prod.simps)+

lemma effect_case_sum [effects]:
  "(\<And>y. a = Inl y \<Longrightarrow> effect cfg m ics (x y)) \<Longrightarrow> (\<And>y. a = Inr y \<Longrightarrow> effect cfg m ics (g y))
    \<Longrightarrow> effect cfg m ics (case a of Inl y \<Rightarrow> x y | Inr y \<Rightarrow> g y)"
  by (simp split: sum.split)

lemma effect_multi [effects]:
  assumes "reached m ics m'" "onTop m k f" "legalMethod (fr_method f)"
  shows "effect cfg m ics (multianewarrayStep cfg f i m')"
  unfolding multianewarrayStep_def Let_def
  using assms by - (rule effects | assumption | erule services | rule reachedD | (simp; fail) | simp only: machine.simps)+

lemma effect_objects [effects]:
  assumes "reached m ics m'" "onTop m k f" "legalMethod (fr_method f)"
  shows "effect cfg m ics (newStep cfg f i m')" "effect cfg m ics (checkcastStep cfg f i m')"
    "effect cfg m ics (instanceofStep f i m')"
  unfolding newStep_def checkcastStep_def instanceofStep_def Let_def
  using assms by - (rule effects | assumption | erule services | rule reachedD | (simp; fail) | simp only: machine.simps)+

lemma effect_monitor [effects]:
  assumes "reached m ics m'" "onTop m k f" "\<And>r h h' mf. act r h = (h', mf) \<Longrightarrow> heapGrew h h'"
  shows "effect cfg m ics (monitorStep cfg act nt f i m')"
  unfolding monitorStep_def Let_def
  using assms by - (rule effects | assumption | erule assms(3) | rule onTop_upd, assumption | (simp; fail))+

lemma effect_groups [effects]:
  assumes "reached m ics m'" "onTop m k f" "legalMethod (fr_method f)"
  shows "effect cfg m ics (arrayStep cfg f i m')" "effect cfg m ics (objectStep cfg f i m')"
  unfolding arrayStep_def objectStep_def Let_def
  using assms by - (rule effects | assumption | erule services)+

section \<open>Direct calls, returns and throws\<close>

lemma effect_direct [effects]:
  assumes "reached m ics m'" "onTop m k f"
  shows "effect cfg m ics (callDirect cfg k' f i kd t m')"
  unfolding callDirect_def using assms by - (rule effects | assumption)+

lemma effect_calls [effects]:
  assumes "reached m ics m'" "onTop m k f"
  shows "effect cfg m ics (invokespecialStep cfg k f i m')" "effect cfg m ics (invokestaticStep cfg k f i m')"
    "effect cfg m ics (invokespecialQuickStep cfg k f i m')" "effect cfg m ics (invokestaticQuickStep cfg k f i m')"
    "effect cfg m ics (athrowStep cfg f i m')"
  unfolding invokespecialStep_def invokestaticStep_def invokespecialQuickStep_def invokestaticQuickStep_def athrowStep_def
  using assms by - (rule effects | assumption | (simp; fail))+

lemma effect_poll [effects]:
  assumes "reached m ics m'" "onTop m k f"
  shows "effect cfg m ics (pollStep cfg tc f m')"
proof -
  have "reached m ics (m''\<lparr>mc_trace := t\<rparr>)" if "reached m ics m''" for m'' t using that by (simp add: reached_def)
  then show ?thesis unfolding pollStep_def Let_def using assms by (auto intro!: effect_next [OF _ assms(2)] effects)
qed

text \<open>The one-frame instructions keep the method of the frame, and raise only what the table names.\<close>

definition inFrame :: "frame \<Rightarrow> outcome option \<Rightarrow> bool" where
  "inFrame f r \<longleftrightarrow> (\<forall>g b. r = Some (Continue g b) \<longrightarrow> fr_method g = fr_method f) \<and> (\<forall>c msg. r = Some (Raise c msg) \<longrightarrow> legalName c)"

lemma inFrame_bind: "(\<And>x. inFrame f (g x)) \<Longrightarrow> inFrame f (Option.bind a g)"
  by (cases a) (auto simp: inFrame_def)

lemma inFrame_if: "inFrame f x \<Longrightarrow> inFrame f y \<Longrightarrow> inFrame f (if c then x else y)"
  by simp

lemma inFrame_moves:
  "inFrame f (skip f)" "inFrame f (setReg f k v)" "inFrame f (setSlot f k v)" "inFrame f (jump f t)"
  "inFrame f (Some (Raise kClsArithmetic msg))"
  by (auto simp: inFrame_def skip_def setReg_def setSlot_def jump_def split: if_split_asm)

lemma inFrame_local: "inFrame f (localStep u f i)"
  unfolding localStep_def constStep_def loadStep_def storeStep_def moveStep_def intStep_def iincStep_def longStep_def floatStep_def
    doubleStep_def cmpStep_def convStep_def branchStep_def switchStep_def branchI_def branchII_def branchV_def branchVV_def branch_def
    unary_def binary_def divRem_def Let_def
  by (rule inFrame_moves inFrame_if inFrame_bind)+

lemma effect_continue [effects]:
  assumes "reached m ics m'" "onTop m k f"
  shows "effect cfg m ics (continueWith cfg m' k (localStep u f i))"
proof -
  have "effect cfg m ics (continueWith cfg m' k out)" if o: "inFrame f out" for out
    unfolding continueWith_def
  proof (rule effect_bind)
    fix r assume r: "out = Some r"
    show "effect cfg m ics (case r of Raise cls msg \<Rightarrow> raise cfg cls msg m'
       | Continue f backedge \<Rightarrow> if backedge
           then do { mi \<leftarrow> methodIndex m' k; Some (Running (setTop f (m'\<lparr>mc_rt := bumpBackedge mi (mc_rt m')\<rparr>))) }
           else Some (Running (setTop f m')))"
    proof (cases r)
      case (Continue g b)
      then have t: "onTop m k g" using o r onTop_upd [OF assms(2)] by (simp add: inFrame_def)
      have "reached m ics (m'\<lparr>mc_rt := bumpBackedge mi (mc_rt m')\<rparr>)" for mi
        by (intro effects assms(1) rr_bump reachedD [OF assms(1)])
      then show ?thesis using Continue t assms(1) by (auto intro!: effect_bind effect_top)
    next
      case (Raise c msg)
      then show ?thesis using o r effect_raise [OF assms(1)] by (simp add: inFrame_def)
    qed
  qed
  then show ?thesis using inFrame_local by blast
qed

lemma effect_return [effects]:
  assumes "mc_frames m = (k, f) # xs" "reached m ics m'"
  shows "effect cfg m ics (returnStep f i m')"
proof -
  let ?rt = "releaseMonitorsLIFO (fr_monitors f) (mc_rt m')"
  have rt: "runtimeRun (mc_rt m) ?rt"
    using rr_heap [OF reachedD [OF assms(2)] heapGrew_release] by (simp add: releaseMonitorsLIFO_def)
  have "stackStep cfg (mc_program m) (mc_frames m) ys" if "ys = xs \<or> (\<exists>q g h zs. xs = (q, g) # zs \<and> ys = (q, h) # zs \<and> fr_method h = fr_method g)" for ys
    using that assms(1) by (force simp: stackStep_def framesAt_def intro: suffix_ConsI)
  then show ?thesis using rt assms
    by (auto simp: effect_def returnStep_def reached_def setTop_def Let_def split: bind_split_asm if_split_asm list.split_asm)
qed

section \<open>Field accesses and virtual calls: the inline caches\<close>

definition fillTable :: "nat \<Rightarrow> nat \<Rightarrow> nat \<Rightarrow> nat \<Rightarrow> site_ic list list \<Rightarrow> site_ic list list" where
  "fillTable mi site x y ics =
     (let t = growTo mi [] ics in t[mi := (growTo site emptyIC (t ! mi))[site := \<lparr>ic_x = x, ic_y = y, ic_valid = True\<rparr>]])"

lemma fillSiteIC_table: "fillSiteIC mi site x y m = m\<lparr>mc_siteICs := fillTable mi site x y (mc_siteICs m)\<rparr>"
  by (simp add: fillSiteIC_def fillTable_def Let_def)

lemma effect_from: "reached m ics m1 \<Longrightarrow> effect cfg m1 ics' r \<Longrightarrow> effect cfg m ics' r"
  by (auto simp: effect_def reached_def mc_program_def dest: program_kept intro: runtimeRun_trans)

lemma fieldSlot_reached:
  assumes "legalFrames (mc_frames m)" "onTop m k f" "legalMethod (fr_method f)" "fieldSlot cfg k f i m = Some (m1, sl)"
  shows "reached m (mc_siteICs m1) m1"
    and "mc_siteICs m1 = mc_siteICs m \<or> (k < length (methods (mc_program m)) \<and> (\<exists>c rf. cpEntry f (ins_imm i) = Some c
        \<and> resolveField c (mc_rt m) = (mc_rt m1, Some rf) \<and> mc_siteICs m1 = fillTable k (fr_pc f) (rf_slot rf) (rf_cls rf) (mc_siteICs m)))"
proof -
  have "reached m (mc_siteICs m1) m1 \<and> (mc_siteICs m1 = mc_siteICs m \<or> (k < length (methods (mc_program m)) \<and> (\<exists>c rf. cpEntry f (ins_imm i) = Some c
      \<and> resolveField c (mc_rt m) = (mc_rt m1, Some rf) \<and> mc_siteICs m1 = fillTable k (fr_pc f) (rf_slot rf) (rf_cls rf) (mc_siteICs m))))"
  proof (cases "icProbe m k (fr_pc f)")
    case (Some x)
    then show ?thesis using assms(1,4) by (auto simp: fieldSlot_def methodIndex_def reached_def count_def split: if_split_asm)
  next
    case None
    then obtain c where c: "cpEntry f (ins_imm i) = Some c" "k < length (methods (mc_program m))"
      using assms(4) by (auto simp: fieldSlot_def methodIndex_def Let_def split: if_split_asm bind_split_asm)
    obtain rt rf where r: "resolveField c (mc_rt m) = (rt, rf)" by fastforce
    have "runtimeRun (mc_rt m) rt" using services(1) [OF r rr_refl] services(16) [OF c(1) assms(3)] by blast
    then show ?thesis using assms(1,4) None c r
      by (auto simp: fieldSlot_def methodIndex_def reached_def count_def fillSiteIC_table Let_def split: if_split_asm option.split_asm)
  qed
  then show "reached m (mc_siteICs m1) m1"
    "mc_siteICs m1 = mc_siteICs m \<or> (k < length (methods (mc_program m)) \<and> (\<exists>c rf. cpEntry f (ins_imm i) = Some c
        \<and> resolveField c (mc_rt m) = (mc_rt m1, Some rf) \<and> mc_siteICs m1 = fillTable k (fr_pc f) (rf_slot rf) (rf_cls rf) (mc_siteICs m)))"
    by auto
qed

text \<open>Where the caches of a step come from: unchanged, or one entry filled by a resolution of this step.\<close>

definition resolvedField :: "machine \<Rightarrow> machine \<Rightarrow> nat \<Rightarrow> frame \<Rightarrow> ins \<Rightarrow> bool" where
  "resolvedField m m1 k f i \<longleftrightarrow> k < length (methods (mc_program m)) \<and> (\<exists>c rf. cpEntry f (ins_imm i) = Some c
     \<and> resolveField c (mc_rt m) = (mc_rt m1, Some rf) \<and> mc_siteICs m1 = fillTable k (fr_pc f) (rf_slot rf) (rf_cls rf) (mc_siteICs m))"

definition resolvedCall :: "machine \<Rightarrow> machine \<Rightarrow> nat \<Rightarrow> frame \<Rightarrow> ins \<Rightarrow> nat \<Rightarrow> bool" where
  "resolvedCall m m1 k f i site \<longleftrightarrow> k < length (methods (mc_program m)) \<and> (\<exists>c t y. cpEntry f (ins_imm i) = Some c
     \<and> resolveMethod (mc_rt m) c = Some t \<and> mc_siteICs m1 = fillTable k site t y (mc_siteICs m))"

lemma effect_field_access:
  assumes "legalFrames (mc_frames m)" "onTop m k f" "legalMethod (fr_method f)"
    and "st = getfieldStep cfg k f i m \<or> st = putfieldStep cfg k f i m"
  shows "\<exists>m1. reached m (mc_siteICs m1) m1 \<and> effect cfg m1 (mc_siteICs m1) st \<and> (mc_siteICs m1 = mc_siteICs m \<or> resolvedField m m1 k f i)"
proof -
  let ?slow = "\<exists>ob. reg f (ins_a i) = Some ob \<and> \<not> isNull ob"
  have self: "reached m (mc_siteICs m) m" using reached_self [OF assms(1)] .
  show ?thesis
  proof (cases "?slow \<and> (\<exists>m1 sl. fieldSlot cfg k f i m = Some (m1, sl))")
    case False
    then have "effect cfg m (mc_siteICs m) st" using assms(4) effect_traps(1) [OF self]
      by (auto simp: getfieldStep_def putfieldStep_def effect_None split: bind_split option.split)
    then show ?thesis using self by blast
  next
    case True
    then obtain ob m1 sl where t: "reg f (ins_a i) = Some ob" "\<not> isNull ob" "fieldSlot cfg k f i m = Some (m1, sl)" by blast
    note fs = fieldSlot_reached [OF assms(1-3) t(3)]
    have l: "legalFrames (mc_frames m1)" and o: "onTop m1 k f" using fs(1) assms(1,2) by (auto simp: reached_def onTop_def)
    note s1 = reached_self [OF l]
    have "effect cfg m1 (mc_siteICs m1) (getfieldStep cfg k f i m)"
      unfolding getfieldStep_def Let_def t(1) Option.bind.simps if_not_P [OF t(2)] t(3) prod.case
      using s1 o assms(3) by - (rule effects | assumption | erule services | rule reachedD | (simp; fail) | simp only: machine.simps)+
    moreover have "effect cfg m1 (mc_siteICs m1) (putfieldStep cfg k f i m)"
      unfolding putfieldStep_def Let_def t(1) Option.bind.simps if_not_P [OF t(2)] t(3) prod.case
      using s1 o assms(3) by - (rule effects | assumption | (simp; fail))+
    ultimately show ?thesis using fs assms(4) unfolding resolvedField_def by blast
  qed
qed

lemma effect_invokeMiss:
  assumes "legalFrames (mc_frames m)" "onTop m k f" "k < length (methods (mc_program m))"
  shows "\<exists>m1. reached m (mc_siteICs m1) m1 \<and> effect cfg m1 (mc_siteICs m1) (invokeMiss cfg tc f i k site kd recv c m)
    \<and> (mc_siteICs m1 = mc_siteICs m \<or> (\<exists>t y. resolveMethod (mc_rt m) c = Some t \<and> mc_siteICs m1 = fillTable k site t y (mc_siteICs m)))"
proof -
  let ?rc = "classOf (mc_heap m) recv"
  have self: "reached m (mc_siteICs m) m" using reached_self [OF assms(1)] .
  show ?thesis
  proof (cases "lookupBuiltinVirtual (mc_rt m) ?rc (c_str2 c) (c_str3 c) \<noteq> B_None \<or> resolveMethod (mc_rt m) c = None")
    case True
    have "effect cfg m (mc_siteICs m) (invokeMiss cfg tc f i k site kd recv c m)"
    proof (cases "lookupBuiltinVirtual (mc_rt m) ?rc (c_str2 c) (c_str3 c) \<noteq> B_None")
      case True
      show ?thesis unfolding invokeMiss_def Let_def if_P [OF True]
        using self assms(2) by - (rule effects | assumption | erule services | rule reachedD | (simp; fail) | simp only: machine.simps)+
    next
      case False
      then show ?thesis using \<open>_ \<or> _\<close> effect_traps(4) [OF self] by (simp add: invokeMiss_def Let_def)
    qed
    then show ?thesis using self by blast
  next
    case False
    then obtain t where t: "resolveMethod (mc_rt m) c = Some t" by auto
    let ?m1 = "fillSiteIC k site t ?rc m"
    have r: "reached m (mc_siteICs ?m1) ?m1" "mc_siteICs ?m1 = fillTable k site t ?rc (mc_siteICs m)"
      using assms(1) by (simp_all add: fillSiteIC_table reached_def)
    then have "legalFrames (mc_frames ?m1)" by (simp add: reached_def)
    then have "effect cfg ?m1 (mc_siteICs ?m1) (callAndRecord cfg i k site kd ?rc t ?m1)" by (intro effects reached_self)
    moreover have "invokeMiss cfg tc f i k site kd recv c m = callAndRecord cfg i k site kd ?rc t ?m1"
      using False t by (simp add: invokeMiss_def Let_def)
    ultimately show ?thesis using r t by metis
  qed
qed

definition icCause :: "machine \<Rightarrow> machine \<Rightarrow> nat \<Rightarrow> frame \<Rightarrow> ins \<Rightarrow> bool" where
  "icCause m m1 k f i \<longleftrightarrow> mc_siteICs m1 = mc_siteICs m
     \<or> (ins_op i = Op_Getfield \<or> ins_op i = Op_Putfield) \<and> resolvedField m m1 k f i
     \<or> (ins_op i = Op_Invokevirtual \<or> ins_op i = Op_Invokeinterface) \<and> resolvedCall m m1 k f i (fr_pc f)
     \<or> (ins_op i = Op_InvokevirtualQuick \<or> ins_op i = Op_InvokeinterfaceQuick) \<and> resolvedCall m m1 k f i (ins_imm i)"

definition explained :: "interp_config \<Rightarrow> machine \<Rightarrow> nat \<Rightarrow> frame \<Rightarrow> ins \<Rightarrow> status option \<Rightarrow> bool" where
  "explained cfg m k f i st \<longleftrightarrow> (\<exists>m1. reached m (mc_siteICs m1) m1 \<and> effect cfg m1 (mc_siteICs m1) st \<and> icCause m m1 k f i)"

lemma explained_plain: "legalFrames (mc_frames m) \<Longrightarrow> effect cfg m (mc_siteICs m) st \<Longrightarrow> explained cfg m k f i st"
  using reached_self unfolding explained_def icCause_def by blast

lemma explained_miss:
  assumes "legalFrames (mc_frames m)" "onTop m k f" "k < length (methods (mc_program m))" "cpEntry f (ins_imm i) = Some c"
    and "ins_op i \<in> {Op_Invokevirtual, Op_Invokeinterface} \<and> site = fr_pc f
      \<or> ins_op i \<in> {Op_InvokevirtualQuick, Op_InvokeinterfaceQuick} \<and> site = ins_imm i"
  shows "explained cfg m k f i (invokeMiss cfg tc f i k site kd recv c (countMiss cfg m))"
proof -
  let ?m = "countMiss cfg m"
  have c: "mc_frames ?m = mc_frames m" "mc_rt ?m = mc_rt m" "mc_siteICs ?m = mc_siteICs m" "mc_program ?m = mc_program m"
    "mc_programClass ?m = mc_programClass m" by (simp_all add: count_def mc_program_def)
  have "legalFrames (mc_frames ?m)" "onTop ?m k f" "k < length (methods (mc_program ?m))" using assms(1-3) c by (simp_all add: onTop_def)
  from effect_invokeMiss [OF this, of cfg tc i site kd recv c] obtain m1 where m1: "reached ?m (mc_siteICs m1) m1"
    "effect cfg m1 (mc_siteICs m1) (invokeMiss cfg tc f i k site kd recv c ?m)"
    "mc_siteICs m1 = mc_siteICs ?m \<or> (\<exists>t y. resolveMethod (mc_rt ?m) c = Some t \<and> mc_siteICs m1 = fillTable k site t y (mc_siteICs ?m))"
    by blast
  have "reached m (mc_siteICs m1) m1" using m1(1) c by (simp add: reached_def)
  moreover have "icCause m m1 k f i" using m1(3) assms(3,4,5) unfolding icCause_def resolvedCall_def c by blast
  ultimately show ?thesis using m1(2) unfolding explained_def by blast
qed

lemma explained_invokeVirtual:
  assumes "legalFrames (mc_frames m)" "onTop m k f" "ins_op i = Op_Invokevirtual \<or> ins_op i = Op_Invokeinterface"
  shows "explained cfg m k f i (invokeVirtualStep cfg tc k f i m)"
proof (cases "\<exists>v c recv. reg f (ins_a i) = Some v \<and> \<not> isNull v \<and> cpEntry f (ins_imm i) = Some c \<and> k < length (methods (mc_program m))
    \<and> as_obj v = Some recv \<and> icProbe m k (fr_pc f) = None")
  case True
  then obtain v c recv where t: "reg f (ins_a i) = Some v" "\<not> isNull v" "cpEntry f (ins_imm i) = Some c" "k < length (methods (mc_program m))"
    "as_obj v = Some recv" "icProbe m k (fr_pc f) = None" by blast
  then have "invokeVirtualStep cfg tc k f i m = invokeMiss cfg tc f i k (fr_pc f) (siteKind (ins_op i)) recv c (countMiss cfg m)"
    by (simp add: invokeVirtualStep_def methodIndex_def)
  then show ?thesis using explained_miss [OF assms(1,2) t(4,3), of "fr_pc f"] assms(3) by auto
next
  case False
  have self: "reached m (mc_siteICs m) m" using reached_self [OF assms(1)] .
  have "effect cfg m (mc_siteICs m) (invokeVirtualStep cfg tc k f i m)"
    unfolding invokeVirtualStep_def Let_def
  proof (intro effects self)
    fix v c mi recv assume "reg f (ins_a i) = Some v" "\<not> isNull v" "cpEntry f (ins_imm i) = Some c" "methodIndex m k = Some mi"
      "as_obj v = Some recv" "icProbe m mi (fr_pc f) = None"
    then show "effect cfg m (mc_siteICs m) (invokeMiss cfg tc f i mi (fr_pc f) (siteKind (ins_op i)) recv c (countMiss cfg m))"
      using False by (auto simp: methodIndex_def split: if_split_asm)
  qed
  then show ?thesis by (rule explained_plain [OF assms(1)])
qed

lemma explained_invokeQuick:
  assumes "legalFrames (mc_frames m)" "onTop m k f" "ins_op i = Op_InvokevirtualQuick \<or> ins_op i = Op_InvokeinterfaceQuick"
  shows "explained cfg m k f i (invokeVirtualQuickStep cfg tc k f i m)"
proof (cases "\<exists>v c recv. reg f (ins_a i) = Some v \<and> \<not> isNull v \<and> ins_imm i < length (code (fr_method f)) \<and> cpEntry f (ins_imm i) = Some c
    \<and> (c_kind c = K_MethodRef \<or> c_kind c = K_InterfaceMethodRef) \<and> k < length (methods (mc_program m))
    \<and> as_obj v = Some recv \<and> icProbe m k (ins_imm i) = None")
  case True
  then obtain v c recv where t: "reg f (ins_a i) = Some v" "\<not> isNull v" "ins_imm i < length (code (fr_method f))" "cpEntry f (ins_imm i) = Some c"
    "c_kind c = K_MethodRef \<or> c_kind c = K_InterfaceMethodRef" "k < length (methods (mc_program m))"
    "as_obj v = Some recv" "icProbe m k (ins_imm i) = None" by blast
  then have "invokeVirtualQuickStep cfg tc k f i m = invokeMiss cfg tc f i k (ins_imm i) (siteKind (ins_op i)) recv c (countMiss cfg m)"
    by (auto simp: invokeVirtualQuickStep_def methodIndex_def cpEntry_def split: if_split_asm)
  then show ?thesis using explained_miss [OF assms(1,2) t(6,4), of "ins_imm i"] assms(3) by auto
next
  case False
  have self: "reached m (mc_siteICs m) m" using reached_self [OF assms(1)] .
  have "effect cfg m (mc_siteICs m) (invokeVirtualQuickStep cfg tc k f i m)"
    unfolding invokeVirtualQuickStep_def Let_def
  proof (intro effects self legal_classes)
    fix v mi recv assume a: "reg f (ins_a i) = Some v" "\<not> isNull v" "\<not> length (code (fr_method f)) \<le> ins_imm i" "methodIndex m k = Some mi"
      "as_obj v = Some recv" "icProbe m mi (ins_imm i) = None" "\<not> length (cp (fr_method f)) \<le> ins_imm i"
      "\<not> (c_kind (cp (fr_method f) ! ins_imm i) \<noteq> K_MethodRef \<and> c_kind (cp (fr_method f) ! ins_imm i) \<noteq> K_InterfaceMethodRef)"
    then have "cpEntry f (ins_imm i) = Some (cp (fr_method f) ! ins_imm i)" by (simp add: cpEntry_def)
    then show "effect cfg m (mc_siteICs m) (invokeMiss cfg tc f i mi (ins_imm i) (siteKind (ins_op i)) recv (cp (fr_method f) ! ins_imm i) (countMiss cfg m))"
      using False a by (auto simp: methodIndex_def not_le split: if_split_asm)
  qed
  then show ?thesis by (rule explained_plain [OF assms(1)])
qed

lemma explained_dispatch:
  assumes "legalFrames (mc_frames m)" "mc_frames m = (k, f) # xs"
  shows "explained cfg m k f i (dispatch u tc cfg k f i m)"
proof -
  have self: "reached m (mc_siteICs m) m" using reached_self [OF assms(1)] .
  have t: "onTop m k f" "legalMethod (fr_method f)" using assms by (auto simp: onTop_def legalFrames_def)
  consider "ins_op i = Op_Getfield \<or> ins_op i = Op_Putfield" | "ins_op i = Op_Invokevirtual \<or> ins_op i = Op_Invokeinterface"
    | "ins_op i = Op_InvokevirtualQuick \<or> ins_op i = Op_InvokeinterfaceQuick"
    | "ins_op i \<notin> {100, 101, 131, 134, 136, 139}" by auto
  then show ?thesis
  proof cases
    case 1
    then have "dispatch u tc cfg k f i m = getfieldStep cfg k f i m \<or> dispatch u tc cfg k f i m = putfieldStep cfg k f i m"
      by (auto simp: dispatch_def fieldStep_def Let_def)
    from effect_field_access [OF assms(1) t this] 1 show ?thesis unfolding explained_def icCause_def by blast
  next
    case 2
    then have "dispatch u tc cfg k f i m = invokeVirtualStep cfg tc k f i m" by (auto simp: dispatch_def invokeStep_def Let_def)
    then show ?thesis using explained_invokeVirtual [OF assms(1) t(1) 2] by simp
  next
    case 3
    then have "dispatch u tc cfg k f i m = invokeVirtualQuickStep cfg tc k f i m" by (auto simp: dispatch_def invokeStep_def Let_def)
    then show ?thesis using explained_invokeQuick [OF assms(1) t(1) 3] by simp
  next
    case 4
    have "effect cfg m (mc_siteICs m) (if v = Op_Getfield then st1 else if v = Op_Putfield then st2 else r)"
      if "v \<noteq> 100" "v \<noteq> 101" "effect cfg m (mc_siteICs m) r" for v :: nat and st1 st2 r using that by simp
    then have f: "effect cfg m (mc_siteICs m) (fieldStep cfg k f i m)"
      using 4 self t unfolding fieldStep_def Let_def by (auto intro!: effects)
    have c: "effect cfg m (mc_siteICs m) (invokeStep cfg tc k f i m)"
      using 4 self t unfolding invokeStep_def Let_def by (auto intro!: effects)
    have "effect cfg m (mc_siteICs m) (dispatch u tc cfg k f i m)"
      unfolding dispatch_def Let_def using self t assms(2) f c by - (rule effects legal_classes | assumption)+
    then show ?thesis by (rule explained_plain [OF assms(1)])
  qed
qed

end
