(* ===== verification/Interp_Run.thy ===== *)
theory Interp_Run
  imports Interp_Stack
begin

text \<open>
  Runs of the T0 machine. \<open>machineRun\<close> is the sequence of steps that \<open>dispatchFrom\<close> makes. From the effect of
  one step follow the properties of runs: the stack discipline, the stability of objects, classes and
  output, and the soundness of the inline caches.
\<close>

section \<open>The registry along a run of the runtime\<close>

definition registryFits :: "runtime \<Rightarrow> bool" where
  "registryFits rt \<longleftrightarrow> length (rt_classes rt) < 2 ^ 31 \<and> length (rt_fieldIndex rt) < 2 ^ 31"

lemma fieldIndex_mono: "length (rt_fieldIndex rt) \<le> length (rt_fieldIndex (fst (resolveField c rt)))"
  by (auto simp: resolveField_def classId_def Let_def split: option.split prod.split)

lemma fieldIndex_grows: "runtimeRun a b \<Longrightarrow> length (rt_fieldIndex a) \<le> length (rt_fieldIndex b)"
proof (induction rule: runtimeRun.induct)
  case (rr_field a rt c)
  then show ?case using fieldIndex_mono order_trans by blast
qed (auto simp: classId_def Let_def markInitialized_def split: option.split)

lemma registryFits_before: "runtimeRun a b \<Longrightarrow> registryFits b \<Longrightarrow> registryFits a"
  using names_kept fieldIndex_grows by (fastforce simp: registryFits_def namesKept_def)

lemma registryOk_same:
  assumes "registryOk rt" "rt_byName rt' = rt_byName rt" "rt_fieldIndex rt' = rt_fieldIndex rt" "rt_classes rt' = rt_classes rt"
  shows "registryOk rt' \<and> registryGrew rt rt'"
  using registryOk_cong [OF assms(1,2,3)] registryGrew_cong [OF assms(2,3)] assms(4) by simp

lemma runtimeRun_registry:
  "runtimeRun a b \<Longrightarrow> registryOk a \<Longrightarrow> registryFits b \<Longrightarrow> registryOk b \<and> registryGrew a b"
proof (induction rule: runtimeRun.induct)
  case (rr_refl rt)
  then show ?case by (simp add: registryGrew_refl)
next
  case (rr_class a rt s)
  have "registryFits rt" using registryFits_before [OF runtimeRun.rr_class [OF rr_refl rr_class.hyps(2)] rr_class.prems(2)] .
  then have ok: "registryOk rt" "registryGrew a rt" "length (rt_classes rt) < 2 ^ 31" using rr_class by (auto simp: registryFits_def)
  have "legalName s" using rr_class.hyps(2) registryOkD(1) [OF ok(1)] by (auto simp: namesLegal_def)
  then show ?case using classId_ok(1) [OF ok(1) _ ok(3)] classId_grew [OF ok(1) _ ok(3)] registryGrew_trans [OF ok(2)]
    by (metis prod.collapse)
next
  case (rr_field a rt c)
  have "registryFits rt" using registryFits_before [OF runtimeRun.rr_field [OF rr_refl rr_field.hyps(2)] rr_field.prems(2)] .
  then have ok: "registryOk rt" "registryGrew a rt" "length (rt_classes rt) < 2 ^ 31" "length (rt_fieldIndex rt) < 2 ^ 31"
    using rr_field by (auto simp: registryFits_def)
  have l: "legalName (c_str c)" using rr_field.hyps(2) registryOkD(1) [OF ok(1)] by (auto simp: namesLegal_def)
  show ?case
  proof (cases "c_kind c = K_FieldRef")
    case True
    from resolveField_ok [OF ok(1) True l ok(3,4) prod.collapse [symmetric]] show ?thesis using registryGrew_trans [OF ok(2)] by blast
  next
    case False
    then show ?thesis using ok by (simp add: resolveField_def)
  qed
next
  case (rr_heap a rt h)
  then have ok: "registryOk rt" "registryGrew a rt" by (auto simp: registryFits_def)
  show ?case using registryOk_same [OF ok(1), of "rt\<lparr>rt_heap := h\<rparr>"] registryGrew_trans [OF ok(2)] by simp
next
  case (rr_init a rt k)
  then have ok: "registryOk rt" "registryGrew a rt" by (auto simp: registryFits_def markInitialized_def split: if_split_asm)
  have "registryOk (markInitialized k rt)" by (rule registryOk_cong [OF ok(1)]) (auto simp: markInitialized_def nth_list_update)
  moreover have "registryGrew rt (markInitialized k rt)" by (rule registryGrew_cong) (auto simp: markInitialized_def nth_list_update)
  ultimately show ?case using ok(2) registryGrew_trans by blast
next
  case (rr_flag a rt k)
  let ?rt = "rt\<lparr>rt_classes := (rt_classes rt)[k := (rt_classes rt ! k)\<lparr>ci_isException := True\<rparr>]\<rparr>"
  from rr_flag have ok: "registryOk rt" "registryGrew a rt" by (auto simp: registryFits_def)
  have "registryOk ?rt" by (rule registryOk_cong [OF ok(1)]) (use rr_flag.hyps(2) in \<open>auto simp: nth_list_update\<close>)
  moreover have "registryGrew rt ?rt" by (rule registryGrew_cong) (use rr_flag.hyps(2) in \<open>auto simp: nth_list_update\<close>)
  ultimately show ?case using ok(2) registryGrew_trans by blast
next
  case (rr_data a rt co ps xs)
  then have ok: "registryOk rt" "registryGrew a rt" by (auto simp: registryFits_def)
  show ?case using registryOk_same [OF ok(1), of "rt\<lparr>rt_statics := xs, rt_profiles := ps, rt_classObjects := co\<rparr>"] registryGrew_trans [OF ok(2)] by simp
next
  case (rr_print a rt t s)
  then have ok: "registryOk rt" "registryGrew a rt" by (auto simp: registryFits_def)
  show ?case using registryOk_same [OF ok(1), of "rt\<lparr>rt_out := rt_out rt @ s, rt_err := rt_err rt @ t\<rparr>"] registryGrew_trans [OF ok(2)] by simp
qed

lemma output_grows: "runtimeRun a b \<Longrightarrow> prefix (rt_out a) (rt_out b) \<and> prefix (rt_err a) (rt_err b)"
proof (induction rule: runtimeRun.induct)
  case (rr_field a rt c)
  have "rt_out (fst (resolveField c rt)) = rt_out rt \<and> rt_err (fst (resolveField c rt)) = rt_err rt"
    by (auto simp: resolveField_def classId_def Let_def split: option.split prod.split)
  then show ?case using rr_field by simp
qed (auto simp: classId_def Let_def markInitialized_def split: option.split)

lemma heap_grows: "runtimeRun a b \<Longrightarrow> heapGrew (rt_heap a) (rt_heap b)"
proof (induction rule: runtimeRun.induct)
  case (rr_field a rt c)
  have "rt_heap (fst (resolveField c rt)) = rt_heap rt"
    by (auto simp: resolveField_def classId_def Let_def split: option.split prod.split)
  then show ?case using rr_field by simp
next
  case (rr_heap a rt h)
  then show ?case using heapGrew_trans by auto
qed (auto simp: classId_def Let_def markInitialized_def split: option.split)

section \<open>Steps and runs of the machine\<close>

definition legalProgram :: "rprogram \<Rightarrow> bool" where
  "legalProgram p \<longleftrightarrow> legalName (className p) \<and> (\<forall>mt \<in> set (methods p). legalMethod mt)"

lemma legal_methodAt: "legalProgram p \<Longrightarrow> legalMethod (methodAt p k)"
  by (auto simp: methodAt_def legalProgram_def legalMethod_def dummyMethod_def)

lemma framesAt_legal: "framesAt p xs \<Longrightarrow> legalProgram p \<Longrightarrow> legalFrames xs"
  using legal_methodAt by (simp add: framesAt_def legalFrames_def)

text \<open>A state whose frames run methods of the program.\<close>

definition wellFormed :: "rprogram \<Rightarrow> machine \<Rightarrow> bool" where
  "wellFormed p m \<longleftrightarrow> legalProgram p \<and> mc_program m = p \<and> framesAt p (mc_frames m)"

definition stepChange :: "interp_config \<Rightarrow> machine \<Rightarrow> machine \<Rightarrow> bool" where
  "stepChange cfg m m' \<longleftrightarrow> runtimeRun (mc_rt m) (mc_rt m') \<and> stackStep cfg (mc_program m) (mc_frames m) (mc_frames m')
     \<and> mc_programClass m' = mc_programClass m
     \<and> (mc_siteICs m' = mc_siteICs m \<or> (\<exists>m1 k f xs. mc_frames m = (k, f) # xs \<and> fr_pc f < length (code (fr_method f))
          \<and> icCause m m1 k f (code (fr_method f) ! fr_pc f) \<and> runtimeRun (mc_rt m) (mc_rt m1) \<and> runtimeRun (mc_rt m1) (mc_rt m')
          \<and> mc_siteICs m' = mc_siteICs m1))"

lemma step_change:
  assumes "wellFormed p m" "step u tc cfg m = Some s"
  shows "stepChange cfg m (machineOf s)"
proof -
  have l: "legalFrames (mc_frames m)" using framesAt_legal assms(1) by (auto simp: wellFormed_def)
  obtain k f xs where top: "mc_frames m = (k, f) # xs" using assms(2) by (cases "mc_frames m") (auto simp: step_def topFrame_def)
  let ?i = "code (fr_method f) ! fr_pc f"
  show ?thesis
  proof (cases "fr_pc f \<ge> length (code (fr_method f))")
    case True
    then have "step u tc cfg m = raise cfg kClsInternalError ''pc out of range (corrupt frame)'' m" using top by (simp add: step_def topFrame_def)
    moreover have "effect cfg m (mc_siteICs m) (raise cfg kClsInternalError ''pc out of range (corrupt frame)'' m)"
      by (intro effects reached_self l legal_classes)
    ultimately show ?thesis using assms(2) unfolding effect_def stepChange_def by auto
  next
    case False
    let ?m = "count cfg (st_instructions_update (\<lambda>n. u64 (n + 1))) m"
    have c: "mc_frames ?m = mc_frames m" "mc_rt ?m = mc_rt m" "mc_siteICs ?m = mc_siteICs m" "mc_program ?m = mc_program m"
      "mc_programClass ?m = mc_programClass m" by (simp_all add: count_def mc_program_def)
    have "explained cfg ?m k f ?i (dispatch u tc cfg k f ?i ?m)" by (rule explained_dispatch) (use l top c in auto)
    moreover have "dispatch u tc cfg k f ?i ?m = Some s" using assms(2) top False by (simp add: step_def topFrame_def)
    ultimately obtain m1 where m1: "reached ?m (mc_siteICs m1) m1" "effect cfg m1 (mc_siteICs m1) (Some s)" "icCause ?m m1 k f ?i"
      unfolding explained_def by auto
    have "icCause m m1 k f ?i" using m1(3) unfolding icCause_def resolvedField_def resolvedCall_def c .
    moreover have "effect cfg ?m (mc_siteICs m1) (Some s)" using effect_from [OF m1(1,2)] .
    ultimately show ?thesis using m1(1,2) top False c unfolding effect_def reached_def stepChange_def by auto
  qed
qed

inductive machineRun :: "fpu \<Rightarrow> to_chars \<Rightarrow> interp_config \<Rightarrow> machine \<Rightarrow> machine \<Rightarrow> bool" for u tc cfg where
  mr_start: "machineRun u tc cfg m m"
| mr_step: "machineRun u tc cfg m m' \<Longrightarrow> step u tc cfg m' = Some (Running m'') \<Longrightarrow> machineRun u tc cfg m m''"

lemma wellFormed_step: "wellFormed p m \<Longrightarrow> stepChange cfg m m' \<Longrightarrow> wellFormed p m'"
  by (auto simp: wellFormed_def stepChange_def stackStep_def mc_program_def dest: program_kept)

lemma run_invariant:
  assumes "machineRun u tc cfg m m'" "wellFormed p m" "length (mc_frames m) \<le> maxFrames cfg"
  shows "wellFormed p m' \<and> length (mc_frames m') \<le> maxFrames cfg \<and> runtimeRun (mc_rt m) (mc_rt m')"
  using assms
proof (induction rule: machineRun.induct)
  case (mr_step m m' m'')
  then have "stepChange cfg m' m''" using step_change [of p m' u tc cfg "Running m''"] by simp
  then have "runtimeRun (mc_rt m') (mc_rt m'')" "length (mc_frames m'') \<le> maxFrames cfg" "wellFormed p m''"
    using mr_step.IH [OF mr_step.prems] wellFormed_step [of p m' cfg m''] by (auto simp: stepChange_def stackStep_def)
  then show ?case using mr_step.IH [OF mr_step.prems] runtimeRun_trans by blast
qed simp

section \<open>Inline caches\<close>

definition entryAt :: "'a \<Rightarrow> 'a list \<Rightarrow> nat \<Rightarrow> 'a" where
  "entryAt d xs j = (if j < length xs then xs ! j else d)"

lemma entryAt_grown: "entryAt d ((growTo i d xs)[i := v]) j = (if j = i then v else entryAt d xs j)"
  by (auto simp: entryAt_def growTo_def resize_def nth_append nth_list_update)

lemma growTo_at: "growTo i d xs ! i = entryAt d xs i"
  by (auto simp: entryAt_def growTo_def resize_def nth_append)

definition probeTable :: "site_ic list list \<Rightarrow> nat \<Rightarrow> nat \<Rightarrow> nat option" where
  "probeTable ics k site = (let e = entryAt emptyIC (entryAt [] ics k) site in if ic_valid e then Some (ic_x e) else None)"

lemma icProbe_table: "icProbe m k site = probeTable (mc_siteICs m) k site"
  by (simp add: icProbe_def probeTable_def Let_def entryAt_def emptyIC_def)

lemma probe_fill:
  "probeTable (fillTable k site x y ics) k' site' = (if k' = k \<and> site' = site then Some x else probeTable ics k' site')"
  by (simp add: probeTable_def fillTable_def Let_def growTo_at entryAt_grown)

text \<open>What a cache entry of an unquickened site has to be.\<close>

definition justified :: "runtime \<Rightarrow> nat \<Rightarrow> nat \<Rightarrow> nat \<Rightarrow> bool" where
  "justified rt k site x \<longleftrightarrow>
     (let mt = methodAt (rt_program rt) k; i = code mt ! site; c = cp mt ! ins_imm i in
      (ins_op i = Op_Getfield \<or> ins_op i = Op_Putfield \<longrightarrow> c_kind c = K_FieldRef \<and> (\<exists>rf. resolvedTo c rf rt \<and> rf_slot rf = x))
      \<and> (ins_op i = Op_Invokevirtual \<or> ins_op i = Op_Invokeinterface \<longrightarrow> resolveMethod rt c = Some x))"

definition cachesSound :: "machine \<Rightarrow> bool" where
  "cachesSound m \<longleftrightarrow> (\<forall>k site x. probeTable (mc_siteICs m) k site = Some x \<longrightarrow> justified (mc_rt m) k site x)"

definition noQuickCalls :: "rprogram \<Rightarrow> bool" where
  "noQuickCalls p \<longleftrightarrow> (\<forall>mt \<in> set (methods p). \<forall>i \<in> set (code mt). ins_op i \<noteq> Op_InvokevirtualQuick \<and> ins_op i \<noteq> Op_InvokeinterfaceQuick)"

lemma resolveMethod_kept: "runtimeRun a b \<Longrightarrow> resolveMethod b c = resolveMethod a c"
  using program_kept by (simp add: resolveMethod_def)

lemma justified_later:
  assumes "runtimeRun a b" "registryOk a" "registryFits b" "justified a k site x"
  shows "justified b k site x"
proof -
  have "registryGrew a b" using runtimeRun_registry [OF assms(1-3)] by simp
  then show ?thesis
    using assms(4) resolvedTo_grew [OF _ _ assms(2)] resolveMethod_kept [OF assms(1)] program_kept [OF assms(1)]
    unfolding justified_def Let_def by metis
qed

lemma justified_field:
  assumes "registryOk rt" "registryFits rt" "legalName (c_str c)" "resolveField c rt = (rt1, Some rf)"
    and "runtimeRun rt1 rt'" "registryFits rt'" "mt = methodAt (rt_program rt') k" "c = cp mt ! ins_imm (code mt ! site)"
    and "ins_op (code mt ! site) = Op_Getfield \<or> ins_op (code mt ! site) = Op_Putfield"
  shows "justified rt' k site (rf_slot rf)"
proof -
  have k: "c_kind c = K_FieldRef" using assms(4) by (auto simp: resolveField_def split: if_split_asm)
  from resolveField_ok [OF assms(1) k assms(3) _ _ assms(4)] assms(2) have r: "registryOk rt1" "resolvedTo c rf rt1"
    by (auto simp: registryFits_def)
  then have "resolvedTo c rf rt'" using runtimeRun_registry [OF assms(5) r(1) assms(6)] resolvedTo_grew by blast
  then show ?thesis using k assms(7-9) unfolding justified_def Let_def by auto
qed

lemma justified_call:
  assumes "resolveMethod rt c = Some t" "runtimeRun rt rt'" "mt = methodAt (rt_program rt') k" "c = cp mt ! ins_imm (code mt ! site)"
    and "ins_op (code mt ! site) = Op_Invokevirtual \<or> ins_op (code mt ! site) = Op_Invokeinterface"
  shows "justified rt' k site t"
  using assms resolveMethod_kept [OF assms(2)] unfolding justified_def Let_def by auto

lemma cachesSound_step:
  assumes "wellFormed p m" "noQuickCalls p" "stepChange cfg m m'" "registryOk (mc_rt m)" "registryFits (mc_rt m')" "cachesSound m"
  shows "cachesSound m'"
proof -
  have r: "runtimeRun (mc_rt m) (mc_rt m')" using assms(3) by (simp add: stepChange_def)
  have old: "justified (mc_rt m') k site x" if "probeTable (mc_siteICs m) k site = Some x" for k site x
    using justified_later [OF r assms(4,5)] that assms(6) by (simp add: cachesSound_def)
  have prog: "rt_program (mc_rt m') = p" "rt_program (mc_rt m) = p"
    using program_kept [OF r] assms(1) by (auto simp: wellFormed_def mc_program_def)
  show ?thesis
  proof (cases "mc_siteICs m' = mc_siteICs m")
    case True
    then show ?thesis using old by (simp add: cachesSound_def)
  next
    case False
    then obtain m1 k f xs where c: "mc_frames m = (k, f) # xs" "fr_pc f < length (code (fr_method f))"
      "icCause m m1 k f (code (fr_method f) ! fr_pc f)" "runtimeRun (mc_rt m1) (mc_rt m')" "mc_siteICs m' = mc_siteICs m1"
      using assms(3) unfolding stepChange_def by blast
    let ?i = "code (fr_method f) ! fr_pc f"
    have mt: "fr_method f = methodAt p k" "legalMethod (fr_method f)"
      using assms(1) c(1) legal_methodAt by (auto simp: wellFormed_def framesAt_def)
    have "mc_siteICs m1 \<noteq> mc_siteICs m" using False c(5) by simp
    then consider (field) "ins_op ?i = Op_Getfield \<or> ins_op ?i = Op_Putfield" "resolvedField m m1 k f ?i"
      | (call) "ins_op ?i = Op_Invokevirtual \<or> ins_op ?i = Op_Invokeinterface" "resolvedCall m m1 k f ?i (fr_pc f)"
      | (quick) "ins_op ?i = Op_InvokevirtualQuick \<or> ins_op ?i = Op_InvokeinterfaceQuick" "resolvedCall m m1 k f ?i (ins_imm ?i)"
      using c(3) unfolding icCause_def by blast
    then have "\<exists>x y. mc_siteICs m1 = fillTable k (fr_pc f) x y (mc_siteICs m) \<and> justified (mc_rt m') k (fr_pc f) x"
    proof cases
      case field
      then obtain c0 rf where f0: "cpEntry f (ins_imm ?i) = Some c0" "resolveField c0 (mc_rt m) = (mc_rt m1, Some rf)"
        "mc_siteICs m1 = fillTable k (fr_pc f) (rf_slot rf) (rf_cls rf) (mc_siteICs m)" unfolding resolvedField_def by blast
      have "justified (mc_rt m') k (fr_pc f) (rf_slot rf)"
        by (rule justified_field [OF assms(4) registryFits_before [OF r assms(5)] services(16) [OF f0(1) mt(2)] f0(2) c(4) assms(5)])
          (use prog mt f0(1) field(1) in \<open>auto simp: cpEntry_def split: if_split_asm\<close>)
      then show ?thesis using f0(3) by blast
    next
      case call
      then obtain c0 t y where f0: "cpEntry f (ins_imm ?i) = Some c0" "resolveMethod (mc_rt m) c0 = Some t"
        "mc_siteICs m1 = fillTable k (fr_pc f) t y (mc_siteICs m)" unfolding resolvedCall_def by blast
      have "justified (mc_rt m') k (fr_pc f) t"
        by (rule justified_call [OF f0(2) r refl]) (use prog mt f0(1) call(1) in \<open>auto simp: cpEntry_def split: if_split_asm\<close>)
      then show ?thesis using f0(3) by blast
    next
      case quick
      then have "k < length (methods p)" using assms(1) by (auto simp: resolvedCall_def wellFormed_def)
      then have "fr_method f \<in> set (methods p)" using mt by (simp add: methodAt_def)
      then show ?thesis using quick(1) assms(2) c(2) unfolding noQuickCalls_def by (metis nth_mem)
    qed
    then show ?thesis using old c(5) unfolding cachesSound_def by (metis option.inject probe_fill)
  qed
qed

end
