(* ===== verification/Interp_Safe.thy ===== *)
theory Interp_Safe
  imports Interp_Local Rbc_Verified
begin

text \<open>
  Type safety of the one-frame instructions against the bytecode verifier: on an accepted method, a
  frame that conforms to the verifier's state at its pc never reaches undefined behaviour in an
  unchecked access, and continues in a frame that conforms to the state at the next pc.
\<close>

section \<open>Conformance of frames\<close>

definition frameOk :: "frame \<Rightarrow> flow_state \<Rightarrow> bool" where
  "frameOk f S \<longleftrightarrow> list_all2 conf (fr_regs f) (regs S) \<and> list_all2 conf (fr_locals f) (locals S)"

lemma conf_rle: "conf v a \<Longrightarrow> rle a b \<Longrightarrow> conf v b"
  by (cases v; cases a; cases b) (simp_all add: rle_cases conf_def isAssignable_def)

lemma list_conf_rle: "list_all2 conf vs ts \<Longrightarrow> list_all2 rle ts us \<Longrightarrow> list_all2 conf vs us"
  by (rule list_all2_trans [of conf rle conf]) (auto intro: conf_rle)

lemma frameOk_sle: "frameOk f S \<Longrightarrow> sle S T \<Longrightarrow> frameOk f T"
  unfolding frameOk_def sle_def using list_conf_rle by blast

lemma frameOk_pc [simp]: "frameOk (f\<lparr>fr_pc := p\<rparr>) S = frameOk f S"
  by (simp add: frameOk_def)

lemma frameOk_lengths: "frameOk f S \<Longrightarrow> length (fr_regs f) = length (regs S) \<and> length (fr_locals f) = length (locals S)"
  by (auto simp: frameOk_def dest: list_all2_lengthD)

lemma frameOk_reg: "frameOk f S \<Longrightarrow> k < length (regs S) \<Longrightarrow> \<exists>v. reg f k = Some v \<and> conf v (regs S ! k)"
  using frameOk_lengths [of f S] by (auto simp: frameOk_def reg_def dest: list_all2_nthD)

lemma frameOk_slot: "frameOk f S \<Longrightarrow> k < length (locals S) \<Longrightarrow> \<exists>v. slot f k = Some v \<and> conf v (locals S ! k)"
  using frameOk_lengths [of f S] by (auto simp: frameOk_def slot_def dest: list_all2_nthD)

lemma frameOk_setReg:
  "frameOk f S \<Longrightarrow> conf v t \<Longrightarrow> frameOk (f\<lparr>fr_regs := (fr_regs f)[k := v]\<rparr>) (S\<lparr>regs := (regs S)[k := t]\<rparr>)"
  by (simp add: frameOk_def list_all2_update_cong)

lemma frameOk_setSlot:
  "frameOk f S \<Longrightarrow> conf v t \<Longrightarrow> frameOk (f\<lparr>fr_locals := (fr_locals f)[k := v]\<rparr>) (S\<lparr>locals := (locals S)[k := t]\<rparr>)"
  by (simp add: frameOk_def list_all2_update_cong)

section \<open>The shape of the local opcodes\<close>

definition opShape :: "op \<Rightarrow> sig \<times> rtype \<times> rtype \<times> rtype" where
  "opShape v = (op_sig (info v), op_result (info v), op_operandA (info v), op_operandB (info v))"

lemma shape_table:
  "list_all (\<lambda>v. opShape v = (Sig_None, RT_Bottom, RT_Bottom, RT_Bottom)) [0, 1]"
  "list_all (\<lambda>v. opShape v = (Sig_RegRegReg, RT_Int, RT_Int, RT_Int)) [23, 24, 25, 26, 27, 29, 30, 31, 32, 33, 34, 60]"
  "list_all (\<lambda>v. opShape v = (Sig_RegReg, RT_Int, RT_Int, RT_Bottom)) [18, 28, 78, 79, 80]"
  "list_all (\<lambda>v. opShape v = (Sig_RegRegReg, RT_Long, RT_Long, RT_Long)) [36, 37, 38, 39, 40, 45, 46, 47]"
  "list_all (\<lambda>v. opShape v = (Sig_RegRegReg, RT_Long, RT_Long, RT_Int)) [42, 43, 44]"
  "list_all (\<lambda>v. opShape v = (Sig_RegReg, RT_Long, RT_Long, RT_Bottom)) [19, 41]"
  "list_all (\<lambda>v. opShape v = (Sig_RegRegReg, RT_Float, RT_Float, RT_Float)) [48, 49, 50, 51, 52]"
  "list_all (\<lambda>v. opShape v = (Sig_RegReg, RT_Float, RT_Float, RT_Bottom)) [20, 53]"
  "list_all (\<lambda>v. opShape v = (Sig_RegRegReg, RT_Double, RT_Double, RT_Double)) [54, 55, 56, 57, 58]"
  "list_all (\<lambda>v. opShape v = (Sig_RegReg, RT_Double, RT_Double, RT_Bottom)) [21, 59]"
  "list_all (\<lambda>v. opShape v = (Sig_RegReg, RT_Ref, RT_Ref, RT_Bottom)) [22]"
  "list_all (\<lambda>v. opShape v = (Sig_RegRegReg, RT_Int, RT_Long, RT_Long)) [61]"
  "list_all (\<lambda>v. opShape v = (Sig_RegRegReg, RT_Int, RT_Float, RT_Float)) [62, 63]"
  "list_all (\<lambda>v. opShape v = (Sig_RegRegReg, RT_Int, RT_Double, RT_Double)) [64, 65]"
  "list_all (\<lambda>v. opShape v = (Sig_RegBranch, RT_Bottom, RT_Int, RT_Bottom)) [82, 83, 84, 85, 86, 87]"
  "list_all (\<lambda>v. opShape v = (Sig_RegBranch, RT_Bottom, RT_Ref, RT_Bottom)) [88, 89]"
  "list_all (\<lambda>v. opShape v = (Sig_RegRegBranch, RT_Bottom, RT_Int, RT_Int)) [90, 91, 92, 93, 94, 95]"
  "list_all (\<lambda>v. opShape v = (Sig_RegRegBranch, RT_Bottom, RT_Ref, RT_Ref)) [96, 97]"
  "list_all (\<lambda>v. opShape v = (Sig_RegCpBranch, RT_Bottom, RT_Int, RT_Bottom)) [98, 99]"
  "map opShape [2, 3, 4, 5, 6, 35, 81] = [(Sig_RegImm, RT_Null, RT_Bottom, RT_Bottom), (Sig_RegImm, RT_Int, RT_Bottom, RT_Bottom),
     (Sig_RegImm, RT_Float, RT_Bottom, RT_Bottom), (Sig_RegCp, RT_Long, RT_Bottom, RT_Bottom),
     (Sig_RegCp, RT_Double, RT_Bottom, RT_Bottom), (Sig_RegImm, RT_Int, RT_Bottom, RT_Bottom),
     (Sig_Branch, RT_Bottom, RT_Bottom, RT_Bottom)]"
  "map opShape [8, 9, 10, 11, 12] = map (\<lambda>t. (Sig_RegSlot, t, RT_Bottom, RT_Bottom)) [RT_Int, RT_Long, RT_Float, RT_Double, RT_Ref]"
  "map opShape [13, 14, 15, 16, 17] = map (\<lambda>t. (Sig_SlotReg, RT_Bottom, t, RT_Bottom)) [RT_Int, RT_Long, RT_Float, RT_Double, RT_Ref]"
  "map opShape [66, 67, 68, 69, 70, 71, 72, 73, 74, 75, 76, 77] =
     map (\<lambda>(t, a). (Sig_RegReg, t, a, RT_Bottom)) [(RT_Long, RT_Int), (RT_Float, RT_Int), (RT_Double, RT_Int),
       (RT_Int, RT_Long), (RT_Float, RT_Long), (RT_Double, RT_Long), (RT_Int, RT_Float), (RT_Long, RT_Float), (RT_Double, RT_Float),
       (RT_Int, RT_Double), (RT_Long, RT_Double), (RT_Float, RT_Double)]"
  by code_simp+

lemmas shapes = shape_table [simplified]

section \<open>One step\<close>

definition stepOk :: "rmethod \<Rightarrow> nat \<Rightarrow> flow_state \<Rightarrow> outcome option \<Rightarrow> bool" where
  "stepOk m pc S r =
     (case r of
        None \<Rightarrow> False
      | Some (Continue f b) \<Rightarrow> fr_method f = m \<and> fr_pc f \<in> set (succPcs m pc) \<and> frameOk f (flow m pc S)
      | Some (Raise c msg) \<Rightarrow> c = kClsArithmetic \<and> msg = kMsgDivByZero)"

definition typedAt :: "rmethod \<Rightarrow> ret_scan \<Rightarrow> frame \<Rightarrow> flow_state \<Rightarrow> bool" where
  "typedAt m ret f S \<longleftrightarrow> fr_method f = m \<and> frameOk f S \<and> wtIns m ret (code m ! fr_pc f) S
     \<and> isLocalOp (ins_op (code m ! fr_pc f))"

lemma flow_local:
  assumes "typedAt m ret f S" "opShape (ins_op (code m ! fr_pc f)) = (s, t, x, y)" "s \<noteq> Sig_SlotReg"
    and "s = Sig_RegSlot \<longrightarrow> t \<noteq> RT_Bottom" "ins_op (code m ! fr_pc f) = 35 \<longrightarrow> t = RT_Int"
  shows "flow m (fr_pc f) S = (if t = RT_Bottom then S else setDst (code m ! fr_pc f) t S)"
proof -
  let ?i = "code m ! fr_pc f"
  have sh: "op_sig (info (ins_op ?i)) = s" "op_result (info (ins_op ?i)) = t" using assms(2) by (simp_all add: opShape_def)
  have wt: "wtIns m ret ?i S" "isLocalOp (ins_op ?i)" using assms(1) by (simp_all add: typedAt_def)
  have ns: "\<not> stepSkips ?i S" using wt(1) by (auto simp: wtIns_def stepSkips_def Let_def)
  have "s = Sig_RegSlot \<Longrightarrow> ins_imm ?i < length (locals S)" using wt(1) sh by (simp add: wtIns_def Let_def)
  then show ?thesis
    unfolding flow_def fst_stepIns_eq using ns wt(2) assms(3-5) sh
    by (auto simp: destWrite_def isLocalOp_def isInvokeOp_def setDst_def Let_def)
qed

lemma typed_operands:
  assumes "typedAt m ret f S" "opShape (ins_op (code m ! fr_pc f)) = (s, t, x, y)"
  shows "ru_dst (regUse s) \<Longrightarrow> ins_dst (code m ! fr_pc f) < length (regs S)"
    and "ru_a (regUse s) \<Longrightarrow> s \<noteq> Sig_Call \<Longrightarrow> s \<noteq> Sig_CallQuick \<Longrightarrow> \<exists>v. reg f (ins_a (code m ! fr_pc f)) = Some v \<and> conf v x"
    and "ru_b (regUse s) \<Longrightarrow> s \<noteq> Sig_Call \<Longrightarrow> s \<noteq> Sig_CallQuick \<Longrightarrow> \<exists>v. reg f (ins_b (code m ! fr_pc f)) = Some v \<and> conf v y"
proof -
  let ?i = "code m ! fr_pc f"
  have sh: "op_sig (info (ins_op ?i)) = s" "op_operandA (info (ins_op ?i)) = x" "op_operandB (info (ins_op ?i)) = y"
    using assms(2) by (simp_all add: opShape_def)
  have wt: "wtIns m ret ?i S" and fo: "frameOk f S" using assms(1) by (simp_all add: typedAt_def)
  have up: "conf v x'" if "conf v t'" "x' \<noteq> RT_Bottom \<longrightarrow> isAssignable t' x'" for v t' x'
    using that conf_mono [of v t' x'] by (cases "x' = RT_Bottom") (auto simp: conf_cases)
  show "ru_dst (regUse s) \<Longrightarrow> ins_dst ?i < length (regs S)" using wt sh by (simp add: wtIns_def Let_def)
  show "\<exists>v. reg f (ins_a ?i) = Some v \<and> conf v x" if "ru_a (regUse s)" "s \<noteq> Sig_Call" "s \<noteq> Sig_CallQuick"
  proof -
    have a: "ins_a ?i < length (regs S)" "x \<noteq> RT_Bottom \<longrightarrow> isAssignable (regs S ! ins_a ?i) x"
      using wt sh that by (simp_all add: wtIns_def Let_def)
    show ?thesis using frameOk_reg [OF fo a(1)] up [OF _ a(2)] by blast
  qed
  show "\<exists>v. reg f (ins_b ?i) = Some v \<and> conf v y" if "ru_b (regUse s)" "s \<noteq> Sig_Call" "s \<noteq> Sig_CallQuick"
  proof -
    have b: "ins_b ?i < length (regs S)" "y \<noteq> RT_Bottom \<longrightarrow> isAssignable (regs S ! ins_b ?i) y"
      using wt sh that by (simp_all add: wtIns_def Let_def)
    show ?thesis using frameOk_reg [OF fo b(1)] up [OF _ b(2)] by blast
  qed
qed

lemma next_pc: "isLocalOp (ins_op (code m ! pc)) \<Longrightarrow> ins_op (code m ! pc) \<notin> {81, 98, 99} \<Longrightarrow> pc + 1 \<in> set (succPcs m pc)"
  by (auto simp: succPcs_def canFallThrough_def isLocalOp_def Let_def)

lemma branch_pc: "isBranchSig (op_sig (info (ins_op (code m ! pc)))) \<Longrightarrow> ins_imm (code m ! pc) \<in> set (succPcs m pc)"
  by (simp add: succPcs_def Let_def)

lemma setReg_ok:
  assumes "typedAt m ret f S" "opShape (ins_op (code m ! fr_pc f)) = (s, t, x, y)"
    and "ru_dst (regUse s)" "t \<noteq> RT_Bottom" "conf v t"
    and "ins_op (code m ! fr_pc f) \<notin> {81, 98, 99}" "ins_op (code m ! fr_pc f) = 35 \<longrightarrow> t = RT_Int"
  shows "stepOk m (fr_pc f) S (setReg f (ins_dst (code m ! fr_pc f)) v)"
proof -
  have d: "ins_dst (code m ! fr_pc f) < length (regs S)" by (rule typed_operands(1) [OF assms(1-3)])
  have fo: "frameOk f S" "fr_method f = m" "isLocalOp (ins_op (code m ! fr_pc f))" using assms(1) by (simp_all add: typedAt_def)
  have "flow m (fr_pc f) S = S\<lparr>regs := (regs S)[ins_dst (code m ! fr_pc f) := t]\<rparr>"
    using flow_local [OF assms(1,2)] assms(3,4,7) d by (cases s) (auto simp: setDst_def)
  then show ?thesis
    using frameOk_setReg [OF fo(1) assms(5), of "ins_dst (code m ! fr_pc f)"] next_pc [OF fo(3) assms(6)] d fo
      frameOk_lengths [OF fo(1)]
    by (auto simp: stepOk_def setReg_def frameOk_def)
qed

lemma unary_ok:
  assumes "typedAt m ret f S" "opShape (ins_op (code m ! fr_pc f)) = (Sig_RegReg, t, x, RT_Bottom)"
    and "t \<noteq> RT_Bottom" "ins_op (code m ! fr_pc f) \<notin> {35, 81, 98, 99}"
    and "\<And>v. conf v x \<Longrightarrow> \<exists>z. rd v = Some z \<and> conf (g z) t"
  shows "stepOk m (fr_pc f) S (unary rd g f (code m ! fr_pc f))"
proof -
  obtain v z where "reg f (ins_a (code m ! fr_pc f)) = Some v" "rd v = Some z" "conf (g z) t"
    using typed_operands(2) [OF assms(1,2)] assms(5) by force
  then show ?thesis using setReg_ok [OF assms(1,2), of "g z"] assms(3,4) by (simp add: unary_def)
qed

lemma binary_ok:
  assumes "typedAt m ret f S" "opShape (ins_op (code m ! fr_pc f)) = (Sig_RegRegReg, t, x, y)"
    and "t \<noteq> RT_Bottom" "ins_op (code m ! fr_pc f) \<notin> {35, 81, 98, 99}"
    and "\<And>v. conf v x \<Longrightarrow> rda v \<noteq> None" "\<And>v. conf v y \<Longrightarrow> rdb v \<noteq> None" "\<And>z w. conf (g z w) t"
  shows "stepOk m (fr_pc f) S (binary rda rdb g f (code m ! fr_pc f))"
proof -
  obtain v w z z' where "reg f (ins_a (code m ! fr_pc f)) = Some v" "rda v = Some z"
    "reg f (ins_b (code m ! fr_pc f)) = Some w" "rdb w = Some z'"
    using typed_operands(2,3) [OF assms(1,2)] assms(5,6) by force
  then show ?thesis using setReg_ok [OF assms(1,2), of "g z z'"] assms(3,4,7) by (simp add: binary_def)
qed

lemma divide_ok:
  assumes "typedAt m ret f S" "opShape (ins_op (code m ! fr_pc f)) = (Sig_RegRegReg, t, t, t)"
    and "t \<noteq> RT_Bottom" "ins_op (code m ! fr_pc f) \<notin> {35, 81, 98, 99}"
    and "\<And>v. conf v t \<Longrightarrow> rd v \<noteq> None" "\<And>z w. conf (g z w) t"
  shows "stepOk m (fr_pc f) S (divRem rd g f (code m ! fr_pc f))"
proof -
  obtain v w z z' where "reg f (ins_a (code m ! fr_pc f)) = Some v" "rd v = Some z"
    "reg f (ins_b (code m ! fr_pc f)) = Some w" "rd w = Some z'"
    using typed_operands(2,3) [OF assms(1,2)] assms(5) by force
  then show ?thesis using setReg_ok [OF assms(1,2), of "g z z'"] assms(3,4,6) by (simp add: divRem_def stepOk_def)
qed

lemma branch_ok:
  assumes "typedAt m ret f S" "opShape (ins_op (code m ! fr_pc f)) = (s, RT_Bottom, x, y)"
    and "isBranchSig s" "c \<or> ins_op (code m ! fr_pc f) \<notin> {35, 81, 98, 99}"
  shows "stepOk m (fr_pc f) S (branch f (code m ! fr_pc f) c)"
proof -
  have s: "op_sig (info (ins_op (code m ! fr_pc f))) = s" using assms(2) by (simp add: opShape_def)
  have "op_result (info (ins_op (code m ! fr_pc f))) = RT_Bottom" using assms(2) by (simp add: opShape_def)
  then have "ins_op (code m ! fr_pc f) \<noteq> 35" using shapes by (auto simp: opShape_def)
  then have fl: "flow m (fr_pc f) S = S"
    using flow_local [OF assms(1,2)] assms(3) by (auto simp: isBranchSig_def)
  have fo: "frameOk f S" "fr_method f = m" "isLocalOp (ins_op (code m ! fr_pc f))" using assms(1) by (simp_all add: typedAt_def)
  show ?thesis
    using fl fo branch_pc [of m "fr_pc f"] next_pc [OF fo(3)] assms(3,4) s
    by (auto simp: stepOk_def branch_def jump_def skip_def)
qed

lemma branch1_ok:
  assumes "typedAt m ret f S" "opShape (ins_op (code m ! fr_pc f)) = (Sig_RegBranch, RT_Bottom, x, RT_Bottom)"
    and "ins_op (code m ! fr_pc f) \<notin> {35, 81, 98, 99}"
  shows "x = RT_Int \<Longrightarrow> stepOk m (fr_pc f) S (branchI c f (code m ! fr_pc f))"
    and "stepOk m (fr_pc f) S (branchV d f (code m ! fr_pc f))"
proof -
  obtain v where "reg f (ins_a (code m ! fr_pc f)) = Some v" "conf v x" using typed_operands(2) [OF assms(1,2)] by auto
  then show "x = RT_Int \<Longrightarrow> stepOk m (fr_pc f) S (branchI c f (code m ! fr_pc f))"
    "stepOk m (fr_pc f) S (branchV d f (code m ! fr_pc f))"
    using branch_ok [OF assms(1,2)] assms(3) by (auto simp: branchI_def branchV_def conf_cases isBranchSig_def)
qed

lemma branch2_ok:
  assumes "typedAt m ret f S" "opShape (ins_op (code m ! fr_pc f)) = (Sig_RegRegBranch, RT_Bottom, x, y)"
    and "ins_op (code m ! fr_pc f) \<notin> {35, 81, 98, 99}"
  shows "x = RT_Int \<Longrightarrow> y = RT_Int \<Longrightarrow> stepOk m (fr_pc f) S (branchII c f (code m ! fr_pc f))"
    and "stepOk m (fr_pc f) S (branchVV d f (code m ! fr_pc f))"
proof -
  obtain v w where "reg f (ins_a (code m ! fr_pc f)) = Some v" "conf v x" "reg f (ins_b (code m ! fr_pc f)) = Some w" "conf w y"
    using typed_operands(2,3) [OF assms(1,2)] by auto
  then show "x = RT_Int \<Longrightarrow> y = RT_Int \<Longrightarrow> stepOk m (fr_pc f) S (branchII c f (code m ! fr_pc f))"
    "stepOk m (fr_pc f) S (branchVV d f (code m ! fr_pc f))"
    using branch_ok [OF assms(1,2)] assms(3) by (auto simp: branchII_def branchVV_def conf_cases isBranchSig_def)
qed

section \<open>The groups\<close>

lemma conf_mk [simp]:
  "conf (VInt a) RT_Int" "conf (VLong b) RT_Long" "conf (VFloat c) RT_Float" "conf (VDouble d) RT_Double"
  "conf VNull RT_Null" "conf VNull RT_Ref" "conf (VRef r) RT_Ref"
  by (simp_all add: conf_cases)

lemma readers:
  "conf v RT_Int \<Longrightarrow> as_i v \<noteq> None" "conf v RT_Long \<Longrightarrow> as_l v \<noteq> None"
  "conf v RT_Float \<Longrightarrow> as_f v \<noteq> None" "conf v RT_Double \<Longrightarrow> as_d v \<noteq> None"
  "conf v RT_Int \<Longrightarrow> \<exists>z. as_i v = Some z" "conf v RT_Long \<Longrightarrow> \<exists>z. as_l v = Some z"
  "conf v RT_Float \<Longrightarrow> \<exists>z. as_f v = Some z" "conf v RT_Double \<Longrightarrow> \<exists>z. as_d v = Some z"
  by (auto simp: conf_cases)

lemma if_stepOk:
  "(c \<Longrightarrow> stepOk m pc S a) \<Longrightarrow> (\<not> c \<Longrightarrow> stepOk m pc S b) \<Longrightarrow> stepOk m pc S (if c then a else b)"
  by simp

lemmas bin_rules =
  binary_ok [where t = RT_Int and x = RT_Int and y = RT_Int and rda = as_i and rdb = as_i]
  binary_ok [where t = RT_Int and x = RT_Long and y = RT_Long and rda = as_l and rdb = as_l]
  binary_ok [where t = RT_Int and x = RT_Float and y = RT_Float and rda = as_f and rdb = as_f]
  binary_ok [where t = RT_Int and x = RT_Double and y = RT_Double and rda = as_d and rdb = as_d]
  binary_ok [where t = RT_Long and x = RT_Long and y = RT_Long and rda = as_l and rdb = as_l]
  binary_ok [where t = RT_Long and x = RT_Long and y = RT_Int and rda = as_l and rdb = as_i]
  binary_ok [where t = RT_Float and x = RT_Float and y = RT_Float and rda = as_f and rdb = as_f]
  binary_ok [where t = RT_Double and x = RT_Double and y = RT_Double and rda = as_d and rdb = as_d]

lemmas div_rules = divide_ok [where t = RT_Int and rd = as_i] divide_ok [where t = RT_Long and rd = as_l]

lemmas un_rules =
  unary_ok [where t = RT_Int and x = RT_Int] unary_ok [where t = RT_Int and x = RT_Long]
  unary_ok [where t = RT_Int and x = RT_Float] unary_ok [where t = RT_Int and x = RT_Double]
  unary_ok [where t = RT_Long and x = RT_Int] unary_ok [where t = RT_Long and x = RT_Long]
  unary_ok [where t = RT_Long and x = RT_Float] unary_ok [where t = RT_Long and x = RT_Double]
  unary_ok [where t = RT_Float and x = RT_Int] unary_ok [where t = RT_Float and x = RT_Long]
  unary_ok [where t = RT_Float and x = RT_Float] unary_ok [where t = RT_Float and x = RT_Double]
  unary_ok [where t = RT_Double and x = RT_Int] unary_ok [where t = RT_Double and x = RT_Long]
  unary_ok [where t = RT_Double and x = RT_Float] unary_ok [where t = RT_Double and x = RT_Double]

lemma iinc_ok:
  assumes "typedAt m ret f S" "ins_op (code m ! fr_pc f) = 35"
  shows "stepOk m (fr_pc f) S (iincStep f (code m ! fr_pc f))"
proof -
  let ?i = "code m ! fr_pc f"
  have sh: "opShape (ins_op ?i) = (Sig_RegImm, RT_Int, RT_Bottom, RT_Bottom)" using shapes assms(2) by simp
  have d: "ins_dst ?i < length (regs S)" using typed_operands(1) [OF assms(1) sh] by simp
  have "isAssignable (regs S ! ins_dst ?i) RT_Int" "frameOk f S"
    using assms by (simp_all add: typedAt_def wtIns_def Let_def)
  then obtain w where "reg f (ins_dst ?i) = Some (VInt w)"
    using frameOk_reg [OF _ d] conf_mono by (fastforce simp: conf_cases)
  then show ?thesis using setReg_ok [OF assms(1) sh] assms(2) by (simp add: iincStep_def)
qed

lemma intStep_ok:
  assumes "typedAt m ret f S" "ins_op (code m ! fr_pc f) \<in> set [23..<36]"
  shows "stepOk m (fr_pc f) S (intStep f (code m ! fr_pc f))"
proof -
  let ?v = "ins_op (code m ! fr_pc f)"
  have "?v = 23 \<or> ?v = 24 \<or> ?v = 25 \<or> ?v = 26 \<or> ?v = 27 \<or> ?v = 28 \<or> ?v = 29 \<or> ?v = 30 \<or> ?v = 31 \<or> ?v = 32 \<or> ?v = 33 \<or> ?v = 34 \<or> ?v = 35"
    using assms(2) by (simp add: upt_rec)
  then show ?thesis
    by - (elim disjE; simp add: intStep_def; (rule iinc_ok [OF assms(1)], assumption)?; (rule bin_rules [OF assms(1)] div_rules [OF assms(1)] un_rules [OF assms(1)]; (simp add: shapes readers; fail)))
qed

lemma longStep_ok:
  assumes "typedAt m ret f S" "ins_op (code m ! fr_pc f) \<in> set [36..<48]"
  shows "stepOk m (fr_pc f) S (longStep f (code m ! fr_pc f))"
proof -
  let ?v = "ins_op (code m ! fr_pc f)"
  have "?v = 36 \<or> ?v = 37 \<or> ?v = 38 \<or> ?v = 39 \<or> ?v = 40 \<or> ?v = 41 \<or> ?v = 42 \<or> ?v = 43 \<or> ?v = 44 \<or> ?v = 45 \<or> ?v = 46 \<or> ?v = 47"
    using assms(2) by (simp add: upt_rec)
  then show ?thesis
    by - (elim disjE; simp add: longStep_def; (rule bin_rules [OF assms(1)] div_rules [OF assms(1)] un_rules [OF assms(1)]; (simp add: shapes readers; fail)))
qed

lemma floatStep_ok:
  assumes "typedAt m ret f S" "ins_op (code m ! fr_pc f) \<in> set [48..<54]"
  shows "stepOk m (fr_pc f) S (floatStep u f (code m ! fr_pc f))"
proof -
  let ?v = "ins_op (code m ! fr_pc f)"
  have "?v = 48 \<or> ?v = 49 \<or> ?v = 50 \<or> ?v = 51 \<or> ?v = 52 \<or> ?v = 53"
    using assms(2) by (simp add: upt_rec)
  then show ?thesis
    by - (elim disjE; simp add: floatStep_def; (rule bin_rules [OF assms(1)] un_rules [OF assms(1)]; (simp add: shapes readers; fail)))
qed

lemma doubleStep_ok:
  assumes "typedAt m ret f S" "ins_op (code m ! fr_pc f) \<in> set [54..<60]"
  shows "stepOk m (fr_pc f) S (doubleStep u f (code m ! fr_pc f))"
proof -
  let ?v = "ins_op (code m ! fr_pc f)"
  have "?v = 54 \<or> ?v = 55 \<or> ?v = 56 \<or> ?v = 57 \<or> ?v = 58 \<or> ?v = 59"
    using assms(2) by (simp add: upt_rec)
  then show ?thesis
    by - (elim disjE; simp add: doubleStep_def; (rule bin_rules [OF assms(1)] un_rules [OF assms(1)]; (simp add: shapes readers; fail)))
qed

lemma cmpStep_ok:
  assumes "typedAt m ret f S" "ins_op (code m ! fr_pc f) \<in> set [60..<66]"
  shows "stepOk m (fr_pc f) S (cmpStep f (code m ! fr_pc f))"
proof -
  let ?v = "ins_op (code m ! fr_pc f)"
  have "?v = 60 \<or> ?v = 61 \<or> ?v = 62 \<or> ?v = 63 \<or> ?v = 64 \<or> ?v = 65"
    using assms(2) by (simp add: upt_rec)
  then show ?thesis
    by - (elim disjE; simp add: cmpStep_def; (rule bin_rules [OF assms(1)]; (simp add: shapes readers; fail)))
qed

lemma convStep_ok:
  assumes "typedAt m ret f S" "ins_op (code m ! fr_pc f) \<in> set [66..<81]"
  shows "stepOk m (fr_pc f) S (convStep u f (code m ! fr_pc f))"
proof -
  let ?v = "ins_op (code m ! fr_pc f)"
  have "?v = 66 \<or> ?v = 67 \<or> ?v = 68 \<or> ?v = 69 \<or> ?v = 70 \<or> ?v = 71 \<or> ?v = 72 \<or> ?v = 73 \<or> ?v = 74 \<or> ?v = 75 \<or> ?v = 76 \<or> ?v = 77 \<or> ?v = 78 \<or> ?v = 79 \<or> ?v = 80"
    using assms(2) by (simp add: upt_rec)
  then show ?thesis
    by - (elim disjE; simp add: convStep_def; (rule un_rules [OF assms(1)]; (simp add: shapes readers; fail)))
qed

lemma goto_ok:
  assumes "typedAt m ret f S" "ins_op (code m ! fr_pc f) = 81"
  shows "stepOk m (fr_pc f) S (jump f (ins_imm (code m ! fr_pc f)))"
  using branch_ok [OF assms(1), of Sig_Branch RT_Bottom RT_Bottom True] assms(2) shapes
  by (simp add: branch_def isBranchSig_def)

lemmas branch_rules =
  branch1_ok [where x = RT_Int] branch2_ok [where x = RT_Int and y = RT_Int]
  branch1_ok [where x = RT_Ref] branch2_ok [where x = RT_Ref and y = RT_Ref]

lemma branchStep_ok:
  assumes "typedAt m ret f S" "ins_op (code m ! fr_pc f) \<in> set [81..<98]"
  shows "stepOk m (fr_pc f) S (branchStep f (code m ! fr_pc f))"
proof -
  let ?v = "ins_op (code m ! fr_pc f)"
  have "?v = 81 \<or> ?v = 82 \<or> ?v = 83 \<or> ?v = 84 \<or> ?v = 85 \<or> ?v = 86 \<or> ?v = 87 \<or> ?v = 88 \<or> ?v = 89 \<or> ?v = 90 \<or> ?v = 91 \<or> ?v = 92 \<or> ?v = 93 \<or> ?v = 94 \<or> ?v = 95 \<or> ?v = 96 \<or> ?v = 97"
    using assms(2) by (simp add: upt_rec)
  then show ?thesis
    by - (elim disjE; simp add: branchStep_def; (rule goto_ok [OF assms(1)], assumption)?; (rule branch_rules [OF assms(1)]; (simp add: shapes readers; fail)))
qed

lemma constStep_ok:
  assumes "typedAt m ret f S" "ins_op (code m ! fr_pc f) \<in> set [2..<7]" "insStructOk m (code m ! fr_pc f)"
  shows "stepOk m (fr_pc f) S (constStep f (code m ! fr_pc f))"
proof -
  let ?v = "ins_op (code m ! fr_pc f)"
  have v: "?v = 2 \<or> ?v = 3 \<or> ?v = 4 \<or> ?v = 5 \<or> ?v = 6" using assms(2) by (simp add: upt_rec)
  have "\<exists>c. cpEntry f (ins_imm (code m ! fr_pc f)) = Some c" if "?v = 5 \<or> ?v = 6"
  proof -
    have "fst (opShape ?v) = Sig_RegCp" using that by (auto simp: shapes)
    then show ?thesis
      using assms(1,3) by (simp add: insStructOk_def Let_def opShape_def sigUsesCpIndex_def cpEntry_def typedAt_def)
  qed
  then obtain c where c: "?v = 5 \<or> ?v = 6 \<longrightarrow> cpEntry f (ins_imm (code m ! fr_pc f)) = Some c" by blast
  note r = setReg_ok [OF assms(1), where x = RT_Bottom and y = RT_Bottom]
  show ?thesis using v c
    r [where s = Sig_RegImm and t = RT_Null and v = VNull] r [where s = Sig_RegImm and t = RT_Int and v = "VInt a" for a]
    r [where s = Sig_RegImm and t = RT_Float and v = "VFloat a" for a] r [where s = Sig_RegCp and t = RT_Long and v = "VLong a" for a]
    r [where s = Sig_RegCp and t = RT_Double and v = "VDouble a" for a]
    by - (elim disjE; simp add: constStep_def shapes)
qed

lemma loadStep_ok:
  assumes "typedAt m ret f S" "ins_op (code m ! fr_pc f) \<in> set [8..<13]"
  shows "stepOk m (fr_pc f) S (loadStep f (code m ! fr_pc f))"
proof -
  let ?i = "code m ! fr_pc f"
  have "ins_op ?i = 8 \<or> ins_op ?i = 9 \<or> ins_op ?i = 10 \<or> ins_op ?i = 11 \<or> ins_op ?i = 12"
    using assms(2) by (simp add: upt_rec)
  then obtain t where t: "opShape (ins_op ?i) = (Sig_RegSlot, t, RT_Bottom, RT_Bottom)" "t \<noteq> RT_Bottom"
    "ins_op ?i \<notin> {35, 81, 98, 99}" using shapes by auto
  have l: "ins_imm ?i < length (locals S)" "isAssignable (locals S ! ins_imm ?i) t" "frameOk f S"
    using assms(1) t by (auto simp: typedAt_def wtIns_def opShape_def Let_def)
  then obtain v where "slot f (ins_imm ?i) = Some v" "conf v t" using frameOk_slot conf_mono by blast
  then show ?thesis using setReg_ok [OF assms(1) t(1) _ t(2), of v] t(3) by (simp add: loadStep_def)
qed

lemma storeStep_ok:
  assumes "typedAt m ret f S" "ins_op (code m ! fr_pc f) \<in> set [13..<18]"
  shows "stepOk m (fr_pc f) S (storeStep f (code m ! fr_pc f))"
proof -
  let ?i = "code m ! fr_pc f"
  have "ins_op ?i = 13 \<or> ins_op ?i = 14 \<or> ins_op ?i = 15 \<or> ins_op ?i = 16 \<or> ins_op ?i = 17"
    using assms(2) by (simp add: upt_rec)
  then have "fst (opShape (ins_op ?i)) = Sig_SlotReg" and t2: "ins_op ?i \<notin> {35, 81, 98, 99}"
    by (auto simp: shapes)
  then have t: "op_sig (info (ins_op ?i)) = Sig_SlotReg" "ins_op ?i \<notin> {35, 81, 98, 99}"
    by (simp_all add: opShape_def)
  have fo: "frameOk f S" "fr_method f = m" "isLocalOp (ins_op ?i)" "wtIns m ret ?i S" using assms(1) by (simp_all add: typedAt_def)
  have l: "ins_imm ?i < length (locals S)" "ins_a ?i < length (regs S)"
    using fo(4) t by (simp_all add: wtIns_def Let_def)
  obtain v where v: "reg f (ins_a ?i) = Some v" "conf v (regs S ! ins_a ?i)" using frameOk_reg [OF fo(1) l(2)] by blast
  have "\<not> stepSkips ?i S" using fo(4) by (auto simp: wtIns_def stepSkips_def Let_def)
  then have "flow m (fr_pc f) S = S\<lparr>locals := (locals S)[ins_imm ?i := regs S ! ins_a ?i]\<rparr>"
    unfolding flow_def fst_stepIns_eq using t l by simp
  then show ?thesis
    using frameOk_setSlot [OF fo(1) v(2), of "ins_imm ?i"] next_pc [OF fo(3)] t l v fo(2) frameOk_lengths [OF fo(1)]
    by (auto simp: storeStep_def setSlot_def stepOk_def frameOk_def)
qed

lemma moveStep_ok:
  assumes "typedAt m ret f S" "ins_op (code m ! fr_pc f) \<in> set [18..<23]"
  shows "stepOk m (fr_pc f) S (moveStep f (code m ! fr_pc f))"
proof -
  let ?i = "code m ! fr_pc f"
  have "ins_op ?i = 18 \<or> ins_op ?i = 19 \<or> ins_op ?i = 20 \<or> ins_op ?i = 21 \<or> ins_op ?i = 22"
    using assms(2) by (simp add: upt_rec)
  then obtain t where t: "opShape (ins_op ?i) = (Sig_RegReg, t, t, RT_Bottom)" "t \<noteq> RT_Bottom"
    "ins_op ?i \<notin> {35, 81, 98, 99}" using shapes by auto
  obtain v where "reg f (ins_a ?i) = Some v" "conf v t" using typed_operands(2) [OF assms(1) t(1)] by auto
  then show ?thesis using setReg_ok [OF assms(1) t(1) _ t(2), of v] t(3) by (simp add: moveStep_def)
qed

lemma skip_ok:
  assumes "typedAt m ret f S" "ins_op (code m ! fr_pc f) \<in> set [0..<2]"
  shows "stepOk m (fr_pc f) S (skip f)"
proof -
  have "ins_op (code m ! fr_pc f) = 0 \<or> ins_op (code m ! fr_pc f) = 1" using assms(2) by (simp add: upt_rec)
  then have sh: "opShape (ins_op (code m ! fr_pc f)) = (Sig_None, RT_Bottom, RT_Bottom, RT_Bottom)"
    "ins_op (code m ! fr_pc f) \<notin> {35, 81, 98, 99}" using shapes by auto
  then have "flow m (fr_pc f) S = S" using flow_local [OF assms(1) sh(1)] by auto
  then show ?thesis using assms(1) next_pc [of m "fr_pc f"] sh(2) by (auto simp: stepOk_def skip_def typedAt_def)
qed

lemma switchStep_ok:
  assumes "typedAt m ret f S" "ins_op (code m ! fr_pc f) \<in> set [98..<100]" "vr_ok (verify m)" "fr_pc f < length (code m)"
  shows "stepOk m (fr_pc f) S (switchStep f (code m ! fr_pc f))"
proof -
  let ?i = "code m ! fr_pc f"
  have "ins_op ?i = 98 \<or> ins_op ?i = 99" using assms(2) by (simp add: upt_rec)
  then have sh: "opShape (ins_op ?i) = (Sig_RegCpBranch, RT_Bottom, RT_Int, RT_Bottom)" "ins_op ?i \<noteq> 35" using shapes by auto
  then have sig: "op_sig (info (ins_op ?i)) = Sig_RegCpBranch" by (simp add: opShape_def)
  have fl: "flow m (fr_pc f) S = S" using flow_local [OF assms(1) sh(1)] sh(2) by auto
  obtain w where w: "reg f (ins_a ?i) = Some (VInt w)" using typed_operands(2) [OF assms(1) sh(1)] by (auto simp: conf_cases)
  have "insStructOk m ?i" using verified_structure [OF assms(3)] assms(4) by (simp add: structureOk_def)
  then have "\<exists>c. cpEntry f (ins_imm ?i) = Some c"
    using assms(1) sig by (auto simp: insStructOk_def Let_def sigUsesCpIndex_def cpEntry_def typedAt_def)
  moreover obtain t where "switchTarget m ?i (sint w) = Some t" "t \<in> set (succPcs m (fr_pc f))"
    using verified_switch [OF assms(3,4) sig, of "sint w"] by blast
  ultimately show ?thesis using w fl assms(1) by (auto simp: switchStep_def stepOk_def jump_def typedAt_def)
qed

lemma localStep_ok:
  assumes "typedAt m ret f S" "vr_ok (verify m)" "fr_pc f < length (code m)"
  shows "stepOk m (fr_pc f) S (localStep u f (code m ! fr_pc f))"
proof -
  have v: "ins_op (code m ! fr_pc f) \<le> 99" "ins_op (code m ! fr_pc f) \<noteq> 7"
    using assms(1) by (simp_all add: typedAt_def isLocalOp_def)
  have s: "insStructOk m (code m ! fr_pc f)" using verified_structure [OF assms(2)] assms(3) by (simp add: structureOk_def)
  note r = skip_ok constStep_ok [OF _ _ s] loadStep_ok storeStep_ok moveStep_ok intStep_ok longStep_ok floatStep_ok
    doubleStep_ok cmpStep_ok convStep_ok branchStep_ok
  show ?thesis
    unfolding localStep_def Let_def
    by (intro if_stepOk; (rule r [OF assms(1)] switchStep_ok [OF assms(1) _ assms(2,3)]; (simp only: set_upt atLeastLessThan_iff, insert v, linarith)))
qed

section \<open>Runs\<close>

definition conforms :: "rmethod \<Rightarrow> frame \<Rightarrow> bool" where
  "conforms m f \<longleftrightarrow> fr_method f = m \<and> (\<exists>S. verifiedState m (fr_pc f) = Some S \<and> frameOk f S)"

lemma conforms_step:
  assumes "vr_ok (verify m)" "conforms m f" "isLocalOp (ins_op (code m ! fr_pc f))"
  shows "\<exists>r. fetchStep u f = Some r"
    and "fetchStep u f = Some (Continue f' b) \<Longrightarrow> conforms m f'"
    and "fetchStep u f = Some (Raise c msg) \<Longrightarrow> c = kClsArithmetic \<and> msg = kMsgDivByZero"
proof -
  obtain S where S: "fr_method f = m" "verifiedState m (fr_pc f) = Some S" "frameOk f S"
    using assms(2) by (auto simp: conforms_def)
  note vs = verified_state [OF assms(1) S(2)]
  have ne: "code m \<noteq> []" using vs(1) by auto
  have ty: "typedAt m (methodRet m) f S" using S vs assms(3) by (simp add: typedAt_def)
  have f: "fetchStep u f = localStep u f (code m ! fr_pc f)"
    using vs(1) S(1) assms(3) by (simp add: fetchStep_def isLocalOp_def opCount_def)
  note ok = localStep_ok [OF ty assms(1) vs(1), of u]
  show "\<exists>r. fetchStep u f = Some r" using ok by (auto simp: f stepOk_def split: option.split_asm)
  show "fetchStep u f = Some (Raise c msg) \<Longrightarrow> c = kClsArithmetic \<and> msg = kMsgDivByZero"
    using ok by (simp add: f stepOk_def)
  assume "fetchStep u f = Some (Continue f' b)"
  then have f': "fr_method f' = m" "fr_pc f' \<in> set (succPcs m (fr_pc f))" "frameOk f' (flow m (fr_pc f) S)"
    using ok by (simp_all add: f stepOk_def)
  obtain T where "verifiedState m (fr_pc f') = Some T" "sle (flow m (fr_pc f) S) T"
    using verified_succ [OF assms(1) S(2) f'(2)] by blast
  then show "conforms m f'" using f' frameOk_sle by (auto simp: conforms_def)
qed

lemma find_SomeD: "find P xs = Some x \<Longrightarrow> x \<in> set xs \<and> P x"
  by (induction xs) (auto split: if_split_asm)

lemma conforms_handler:
  assumes "vr_ok (verify m)" "conforms m f" "catchInFrame isA exc f = Some f'"
  shows "conforms m f'"
proof -
  obtain S where S: "fr_method f = m" "verifiedState m (fr_pc f) = Some S" "frameOk f S"
    using assms(2) by (auto simp: conforms_def)
  obtain h where h: "h \<in> set (handlers m)" "handlerMatches isA f h" "f' = enterHandler exc h f"
    using assms(3) S(1) find_SomeD by (fastforce simp: catchInFrame_def)
  then have "h_start h \<le> fr_pc f" "fr_pc f < h_end h" by (auto simp: handlerMatches_def split: if_split_asm)
  then obtain T where T: "verifiedState m (h_handler h) = Some T" "sle (edgeState m (locals S)) T"
    using verified_exn [OF assms(1) S(2) h(1)] by blast
  have "list_all2 conf (if n = 0 then [] else (replicate n VBottom)[0 := VRef exc]) (handlerRegs n)" for n
    by (auto simp: handlerRegs_def list_all2_conv_all_nth nth_list_update conf_cases)
  then have "frameOk f' (edgeState m (locals S))"
    using S h(3) by (simp add: frameOk_def enterHandler_def edgeState_def Let_def)
  then show ?thesis using T frameOk_sle S(1) h(3) by (auto simp: conforms_def enterHandler_def Let_def)
qed

text \<open>The frames a frame passes through while it executes local instructions and catches their
  exceptions; \<open>exc\<close> is the object the runtime allocates for the exception.\<close>

inductive localRun :: "fpu \<Rightarrow> (nat \<Rightarrow> string \<Rightarrow> bool) \<Rightarrow> frame \<Rightarrow> frame \<Rightarrow> bool" for u isA f0 where
  run_start: "localRun u isA f0 f0"
| run_next: "localRun u isA f0 f \<Longrightarrow> isLocalOp (ins_op (code (fr_method f) ! fr_pc f)) \<Longrightarrow>
    fetchStep u f = Some (Continue f' b) \<Longrightarrow> localRun u isA f0 f'"
| run_catch: "localRun u isA f0 f \<Longrightarrow> isLocalOp (ins_op (code (fr_method f) ! fr_pc f)) \<Longrightarrow>
    fetchStep u f = Some (Raise c msg) \<Longrightarrow> catchInFrame (isA exc) exc f = Some f' \<Longrightarrow> localRun u isA f0 f'"

lemma conforms_run:
  assumes "localRun u isA f0 f" "vr_ok (verify m)" "conforms m f0"
  shows "conforms m f"
  using assms
proof (induction rule: localRun.induct)
  case (run_next f f' b)
  then show ?case using conforms_step(2) [of m f] by (auto simp: conforms_def)
next
  case (run_catch f c msg exc f')
  then show ?case using conforms_handler by blast
qed simp

lemma conforms_entry:
  assumes "vr_ok (verify m)" "code m \<noteq> []" "fr_method f = m" "fr_pc f = 0" "frameOk f (methodEntry m)"
  shows "conforms m f"
  using verified_wellTyped [OF assms(1,2)] assms(3-5) frameOk_sle
  unfolding wellTyped_def conforms_def by metis

text \<open>Property C8. Type safety of the interpreter's unchecked instructions: start an accepted method in
  a frame whose registers and locals conform to the verifier's entry state, and run constants, loads,
  stores, moves, arithmetic, comparisons, conversions, branches and switches, catching the exceptions
  they raise in the method's handlers. Then the pc stays inside the code, the next such instruction
  never reads outside a register file, local array, constant pool or switch table and never reads a
  value at the wrong type, and the only exception it raises is the one for a zero divisor.\<close>

theorem interpreter_type_safe:
  assumes "vr_ok (verify m)" "code m \<noteq> []" "fr_method f0 = m" "fr_pc f0 = 0" "frameOk f0 (methodEntry m)"
    and "localRun u isA f0 f" "isLocalOp (ins_op (code m ! fr_pc f))"
  shows "conforms m f \<and> fr_pc f < length (code m)
    \<and> (\<exists>r. fetchStep u f = Some r \<and> (\<forall>c msg. r = Raise c msg \<longrightarrow> c = kClsArithmetic \<and> msg = kMsgDivByZero))"
proof -
  have c: "conforms m f" by (rule conforms_run [OF assms(6,1) conforms_entry [OF assms(1-5)]])
  then have "fr_pc f < length (code m)" using verified_state(1) [OF assms(1)] by (auto simp: conforms_def)
  then show ?thesis using c conforms_step [OF assms(1) c assms(7), of u] by blast
qed

definition zeroFpu :: fpu where
  "zeroFpu = \<lparr>fadd = \<lambda>a b. 0, fsub = \<lambda>a b. 0, fmul = \<lambda>a b. 0, fdiv = \<lambda>a b. 0, fmod32 = \<lambda>a b. 0,
     dadd = \<lambda>a b. 0, dsub = \<lambda>a b. 0, dmul = \<lambda>a b. 0, ddiv = \<lambda>a b. 0, fmod64 = \<lambda>a b. 0,
     cvtI2f = \<lambda>a. 0, cvtI2d = \<lambda>a. 0, cvtL2f = \<lambda>a. 0, cvtL2d = \<lambda>a. 0, cvtD2f = \<lambda>a. 0, widenNan = \<lambda>a. 0\<rparr>"

abbreviation (input) sampleFrame :: "nat \<Rightarrow> jvalue list \<Rightarrow> frame" where
  "sampleFrame p rs \<equiv> \<lparr>fr_method = sample, fr_pc = p, fr_locals = [VInt 5], fr_regs = rs, fr_monitors = [],
     fr_pendingException = 0, fr_callerPc = 0\<rparr>"

lemma sample_first: "fetchStep zeroFpu (sampleFrame 0 [VBottom]) = Some (Continue (sampleFrame 1 [VInt 5]) False)"
  by (simp add: fetchStep_def opCount_def localStep_def loadStep_def slot_def setReg_def)

lemma sample_entry_frame: "frameOk (sampleFrame 0 [VBottom]) (methodEntry sample)"
  by (simp add: frameOk_def methodEntry_def sample_descriptor entryState_def sample_flags conf_cases Let_def)

theorem interpreter_type_safe_witness:
  "localRun zeroFpu (\<lambda>e c. True) (sampleFrame 0 [VBottom]) (sampleFrame 1 [VInt 5])
   \<and> conforms sample (sampleFrame 1 [VInt 5]) \<and> (\<exists>r. fetchStep zeroFpu (sampleFrame 1 [VInt 5]) = Some r)"
proof -
  have run: "localRun zeroFpu (\<lambda>e c. True) (sampleFrame 0 [VBottom]) (sampleFrame 1 [VInt 5])"
    by (rule run_next [OF run_start _ sample_first]) (simp add: isLocalOp_def)
  show ?thesis
    using run interpreter_type_safe [OF sample_ok _ _ _ sample_entry_frame run] by (auto simp: isLocalOp_def)
qed

end
