(* ===== verification/Interp_RunProps.thy ===== *)
theory Interp_RunProps
  imports Interp_Run Interp_Safe
begin

text \<open>
  The properties of runs of the T0 machine, and a small program that loops over a field access on which
  they are applied.
\<close>

section \<open>Properties\<close>

text \<open>A machine as \<open>run\<close> hands it to the loop for the first time: frames of the program, a runtime that was
  constructed for it and then used, no cached sites.\<close>

definition loaded :: "rprogram \<Rightarrow> interp_config \<Rightarrow> machine \<Rightarrow> bool" where
  "loaded p cfg m \<longleftrightarrow> wellFormed p m \<and> length (mc_frames m) \<le> maxFrames cfg \<and> runtimeRun (newRuntime p) (mc_rt m) \<and> mc_siteICs m = []"

lemma loaded_run:
  assumes "loaded p cfg m0" "machineRun u tc cfg m0 m"
  shows "wellFormed p m" "length (mc_frames m) \<le> maxFrames cfg" "runtimeRun (newRuntime p) (mc_rt m)" "runtimeRun (mc_rt m0) (mc_rt m)"
  using run_invariant [OF assms(2), of p] assms(1) runtimeRun_trans by (auto simp: loaded_def)

lemma caches_run:
  assumes "machineRun u tc cfg m0 m" "loaded p cfg m0" "noQuickCalls p" "registryFits (mc_rt m)"
  shows "cachesSound m"
  using assms
proof (induction rule: machineRun.induct)
  case (mr_start m)
  then show ?case by (simp add: loaded_def cachesSound_def probeTable_def entryAt_def emptyIC_def)
next
  case (mr_step m m' m'')
  note l = loaded_run [OF mr_step.prems(1) mr_step.hyps(1)]
  have c: "stepChange cfg m' m''" using step_change [OF l(1) mr_step.hyps(2)] by simp
  then have f: "registryFits (mc_rt m')" using registryFits_before mr_step.prems(3) by (auto simp: stepChange_def)
  have "registryOk (mc_rt m')" using runtimeRun_registry [OF l(3) registryOk_new f] by simp
  then show ?case using cachesSound_step [OF l(1) mr_step.prems(2) c _ mr_step.prems(3)] mr_step.IH [OF mr_step.prems(1,2) f] by blast
qed

lemma resolveField_known:
  assumes "registryOk rt" "resolvedTo c f rt" "c_kind c = K_FieldRef"
  shows "resolveField c rt = (rt, Some f)"
proof -
  have "classId (c_str c) rt = (rt, rf_cls f)"
    using classId_known [OF assms(1), of "rf_cls f"] assms(2) by (auto simp: resolvedTo_def)
  moreover have "rf_id f < length (rt_fieldIndex rt)"
    using registryOkD(3) [OF assms(1), of "fieldRegistryKey (c_str c) (c_str2 c)" "Suc (2 * rf_id f)"] assms(2)
    by (auto simp: resolvedTo_def nameEntryOk_def)
  ultimately show ?thesis using assms(2,3) by (auto simp: resolveField_def resolvedTo_def isFieldRegistryEntry_def Let_def)
qed


text \<open>Property C10. Identity is stable: between two states of a run every object keeps its class, kind, array
  length and text, every class id keeps its name, a field that was resolved resolves to the same slot
  without a change, and the two output streams are only appended to.\<close>

theorem run_stability:
  assumes "loaded p cfg m0" "machineRun u tc cfg m0 m" "machineRun u tc cfg m m'" "registryFits (mc_rt m')"
  shows "(\<forall>r ob. obj (mc_heap m) r = Some ob \<longrightarrow> (\<exists>ob'. obj (mc_heap m') r = Some ob' \<and> ho_kind ob' = ho_kind ob
        \<and> ho_cls ob' = ho_cls ob \<and> ho_length ob' = ho_length ob \<and> ho_str ob' = ho_str ob))
    \<and> (\<forall>c < length (rt_classes (mc_rt m)). ci_name (classInfo (mc_rt m') c) = ci_name (classInfo (mc_rt m) c))
    \<and> (\<forall>c f. resolveField c (mc_rt m) = (mc_rt m, Some f) \<and> legalName (c_str c) \<longrightarrow> resolveField c (mc_rt m') = (mc_rt m', Some f))
    \<and> prefix (rt_out (mc_rt m)) (rt_out (mc_rt m')) \<and> prefix (rt_err (mc_rt m)) (rt_err (mc_rt m'))"
proof -
  note l = loaded_run [OF assms(1,2)]
  have r: "runtimeRun (mc_rt m) (mc_rt m')" using run_invariant [OF assms(3) l(1,2)] by simp
  have fits: "registryFits (mc_rt m)" using registryFits_before [OF r assms(4)] .
  have ok: "registryOk (mc_rt m)" using runtimeRun_registry [OF l(3) registryOk_new fits] by simp
  note g = runtimeRun_registry [OF r ok assms(4)]
  have "\<exists>ob'. obj (mc_heap m') q = Some ob' \<and> ho_kind ob' = ho_kind ob \<and> ho_cls ob' = ho_cls ob \<and> ho_length ob' = ho_length ob \<and> ho_str ob' = ho_str ob"
    if "obj (mc_heap m) q = Some ob" for q ob
    using heap_grows [OF r] that by (auto simp: heapGrew_def obj_def mc_heap_def split: if_split_asm)
  moreover have "resolveField c (mc_rt m') = (mc_rt m', Some f)" if f: "resolveField c (mc_rt m) = (mc_rt m, Some f)" "legalName (c_str c)" for c f
  proof -
    have k: "c_kind c = K_FieldRef" using f(1) by (auto simp: resolveField_def split: if_split_asm)
    from resolveField_ok [OF ok k f(2) _ _ f(1)] fits have "resolvedTo c f (mc_rt m)" by (auto simp: registryFits_def)
    then show ?thesis using resolveField_known [OF _ resolvedTo_grew k] g ok by blast
  qed
  ultimately show ?thesis using names_kept [OF r] output_grows [OF r] by (auto simp: namesKept_def classInfo_def)
qed

text \<open>Property C11. Inline caches are transparent: in every state that a run of a program without quickened
  virtual calls reaches, a cached field site holds the slot that resolving its field reference gives,
  and resolving would change nothing; a cached call site holds the method that resolution gives.\<close>

theorem inline_caches_sound:
  assumes "loaded p cfg m0" "machineRun u tc cfg m0 m" "noQuickCalls p" "registryFits (mc_rt m)"
    and "mc_frames m = (k, f) # xs" "i = code (fr_method f) ! fr_pc f" "c = cp (fr_method f) ! ins_imm i" "icProbe m k (fr_pc f) = Some x"
  shows "(ins_op i \<in> {Op_Getfield, Op_Putfield} \<longrightarrow> (\<exists>rf. resolveField c (mc_rt m) = (mc_rt m, Some rf) \<and> rf_slot rf = x))
    \<and> (ins_op i \<in> {Op_Invokevirtual, Op_Invokeinterface} \<longrightarrow> resolveMethod (mc_rt m) c = Some x)"
proof -
  note l = loaded_run [OF assms(1,2)]
  have ok: "registryOk (mc_rt m)" using runtimeRun_registry [OF l(3) registryOk_new assms(4)] by simp
  have "fr_method f = methodAt (rt_program (mc_rt m)) k" using l(1) assms(5) by (auto simp: wellFormed_def framesAt_def mc_program_def)
  moreover have "justified (mc_rt m) k (fr_pc f) x"
    using caches_run [OF assms(2,1,3,4)] assms(8) by (simp add: cachesSound_def icProbe_table)
  ultimately show ?thesis using resolveField_known [OF ok] assms(6,7) unfolding justified_def Let_def by auto
qed

section \<open>A program that reads a field\<close>

definition fieldX :: const where
  "fieldX = \<lparr>c_kind = K_FieldRef, c_i32 = 0, c_i64 = 0, c_f32 = 0, c_f64 = 0, c_str = ''A'', c_str2 = ''x'', c_str3 = ''I'', c_ints = []\<rparr>"

definition readerMethod :: rmethod where
  "readerMethod = \<lparr>m_name = ''get'', m_descriptor = ''()V'', m_flags = 8, numRegs = 2, numLocals = 0,
     code = [\<lparr>ins_op = 100, ins_dst = 1, ins_a = 0, ins_b = 0, ins_imm = 0\<rparr>, \<lparr>ins_op = 81, ins_dst = 0, ins_a = 0, ins_b = 0, ins_imm = 0\<rparr>],
     cp = [fieldX], handlers = []\<rparr>"

definition reader :: rprogram where
  "reader = \<lparr>className = ''A'', methods = [readerMethod]\<rparr>"

definition plainConfig :: interp_config where
  "plainConfig = \<lparr>maxFrames = 8, traceSafepoints = False, collectStats = True\<rparr>"

definition readerFrame :: "nat \<Rightarrow> jvalue \<Rightarrow> frame" where
  "readerFrame pc v = (newFrame readerMethod 0 [])\<lparr>fr_pc := pc, fr_regs := [VRef 3, v]\<rparr>"

definition readerRuntime :: runtime where
  "readerRuntime = fst (newInstance 0 (newRuntime reader))"

definition readerStart :: machine where
  "readerStart = (newInterpreter reader)\<lparr>mc_rt := readerRuntime, mc_frames := [(0, readerFrame 0 VBottom)]\<rparr>"

lemma readerRuntime_run: "runtimeRun (newRuntime reader) readerRuntime"
  using rr_newInstance [OF rr_refl, of 0 "newRuntime reader"] by (metis prod.collapse readerRuntime_def)

lemma reader_code: "fr_method (readerFrame pc v) = readerMethod" "fr_pc (readerFrame pc v) = pc" "fr_regs (readerFrame pc v) = [VRef 3, v]"
  "(readerFrame pc v)\<lparr>fr_regs := [VRef 3, w], fr_pc := q\<rparr> = readerFrame q w" "(readerFrame pc v)\<lparr>fr_pc := q\<rparr> = readerFrame q v"
  by (simp_all add: readerFrame_def newFrame_def)

lemma readerStart_loaded: "loaded reader plainConfig readerStart"
  using program_kept [OF readerRuntime_run] readerRuntime_run
  by (simp add: loaded_def wellFormed_def readerStart_def newInterpreter_def plainConfig_def mc_program_def framesAt_def methodAt_def
      legalProgram_def legalMethod_def legalName_def reader_def readerMethod_def fieldX_def reader_code newRuntime_parts(1))

lemma readerRuntime_parts:
  "rt_classes readerRuntime = map builtinClass builtinTable" "rt_fieldIndex readerRuntime = []"
  "rt_byName readerRuntime = zip (map fst builtinTable) (map ((*) 2) [0..<24])"
  "obj (rt_heap readerRuntime) 3 = Some (newObj\<lparr>ho_kind := Instance, ho_cls := 0, ho_slots := []\<rparr>)"
proof -
  have "ci_fields (classInfo (newRuntime reader) 0) = []" by (simp add: classInfo_def newRuntime_table builtinTable_def builtinClass_def)
  then show "rt_classes readerRuntime = map builtinClass builtinTable" "rt_fieldIndex readerRuntime = []"
    "rt_byName readerRuntime = zip (map fst builtinTable) (map ((*) 2) [0..<24])"
    "obj (rt_heap readerRuntime) 3 = Some (newObj\<lparr>ho_kind := Instance, ho_cls := 0, ho_slots := []\<rparr>)"
    by (simp_all add: readerRuntime_def newInstance_def onHeap_def split_beta newRuntime_table allocInstance_def pushObj_def Let_def
        obj_def newRuntime_parts nth_append)
qed

lemma reader_resolve:
  "\<exists>rt rf. resolveField fieldX readerRuntime = (rt, Some rf) \<and> rf_slot rf = 0 \<and> rt_heap rt = rt_heap readerRuntime
     \<and> resolveField fieldX rt = (rt, Some rf) \<and> rf_type rf = RT_Int \<and> registryFits rt \<and> rt_program rt = reader"
proof -
  obtain rt r where r: "resolveField fieldX readerRuntime = (rt, r)" by fastforce
  have fits: "registryFits readerRuntime" by (simp add: registryFits_def readerRuntime_parts builtinTable_def)
  have ok: "registryOk readerRuntime" using runtimeRun_registry [OF readerRuntime_run registryOk_new fits] by simp
  have k: "c_kind fieldX = K_FieldRef" "legalName (c_str fieldX)" by (simp_all add: fieldX_def legalName_def)
  obtain f where f: "r = Some f" "registryOk rt" "resolvedTo fieldX f rt"
    using resolveField_ok [OF ok k _ _ r] fits by (auto simp: registryFits_def)
  have names: "map_of (rt_byName readerRuntime) ''A'' = None" "map_of (rt_byName readerRuntime) (fieldRegistryKey ''A'' ''x'') = None"
    by (simp_all add: readerRuntime_parts builtinTable_def fieldRegistryKey_def upt_conv_Cons)
  have key: "fieldRegistryKey ''A'' ''x'' \<noteq> ''A''" by (simp add: fieldRegistryKey_def)
  have "rf_slot f = 0 \<and> rt_heap rt = rt_heap readerRuntime \<and> rf_type f = RT_Int"
    using r f(1) names by (auto simp: resolveField_def classId_def fieldX_def Let_def map_of_assign emptyClass_def
        readerRuntime_parts(1,2) key nth_append builtinTable_def fieldDescriptorType_def)
  moreover have "registryFits rt" using resolveField_size [OF ok k(2) _ r] fits by (simp add: registryFits_def readerRuntime_parts builtinTable_def)
  moreover have "rt_program rt = reader"
    using program_kept [OF rr_field' [OF readerRuntime_run r]] k(2) newRuntime_parts(1) by simp
  ultimately show ?thesis using r f resolveField_known [OF f(2,3) k(1)] by blast
qed

lemma resolveField_heap: "resolveField c (rt\<lparr>rt_heap := h\<rparr>) = (let (rt', r) = resolveField c rt in (rt'\<lparr>rt_heap := h\<rparr>, r))"
  by (simp add: resolveField_def classId_def Let_def split: option.split prod.split)

lemma reader_load:
  "\<exists>h. loadField 3 0 (rt_heap readerRuntime) = Some (h, VBottom) \<and> isInstance h 3"
proof -
  let ?ob = "newObj\<lparr>ho_kind := Instance, ho_cls := 0, ho_slots := []\<rparr>"
  have "3 \<le> length (objs (rt_heap readerRuntime))" using readerRuntime_parts(4) by (auto simp: obj_def split: if_split_asm)
  then show ?thesis using readerRuntime_parts(4)
    by (auto simp: loadField_def growSlots_def resize_def isInstance_def obj_setObj Let_def)
qed

lemma reader_steps:
  "\<exists>m1 m2. step u tc plainConfig readerStart = Some (Running m1) \<and> step u tc plainConfig m1 = Some (Running m2)
    \<and> icProbe m2 0 0 = Some 0 \<and> mc_frames m1 = [(0, readerFrame 1 (VInt 0))] \<and> mc_frames m2 = [(0, readerFrame 0 (VInt 0))] \<and> registryFits (mc_rt m2)"
proof -
  obtain rt rf where r: "resolveField fieldX readerRuntime = (rt, Some rf)" "rf_slot rf = 0" "rt_heap rt = rt_heap readerRuntime"
    "resolveField fieldX rt = (rt, Some rf)" "rf_type rf = RT_Int" "registryFits rt" "rt_program rt = reader" using reader_resolve by blast
  obtain h where h: "loadField 3 0 (rt_heap readerRuntime) = Some (h, VBottom)" "isInstance h 3" using reader_load by blast
  have p: "rt_program readerRuntime = reader" using program_kept [OF readerRuntime_run] newRuntime_parts(1) by simp
  define m1 where "m1 = (readerStart\<lparr>mc_rt := rt\<lparr>rt_heap := h\<rparr>, mc_siteICs := fillTable 0 0 0 (rf_cls rf) [],
      mc_frames := [(0, readerFrame 1 (VInt 0))], mc_stats := zeroStats\<lparr>st_instructions := 1, st_icMisses := 1\<rparr>\<rparr>)"
  have s1: "step u tc plainConfig readerStart = Some (Running m1)"
    using r h p
    by (simp add: step_def topFrame_def readerStart_def newInterpreter_def reader_code dispatch_def fieldStep_def getfieldStep_def fieldSlot_def
        unsetField_def setRegIn_def setTop_def reg_def cpEntry_def methodIndex_def mc_program_def icProbe_def readerMethod_def isNull_def
        count_def plainConfig_def mc_heap_def setHeap_def fillSiteIC_table resolveField_heap m1_def reader_def u64_def zeroStats_def Let_def)
  define m2 where "m2 = m1\<lparr>mc_rt := bumpBackedge 0 (mc_rt m1), mc_frames := [(0, readerFrame 0 (VInt 0))],
      mc_stats := zeroStats\<lparr>st_instructions := u64 2, st_icMisses := 1\<rparr>\<rparr>"
  have s2: "step u tc plainConfig m1 = Some (Running m2)"
    using r
    by (simp add: step_def topFrame_def m1_def m2_def reader_code dispatch_def continueWith_def localStep_def branchStep_def jump_def
        methodIndex_def mc_program_def readerMethod_def count_def plainConfig_def reader_def zeroStats_def setTop_def numeral_2_eq_2
        readerStart_def newInterpreter_def Let_def)
  have "icProbe m2 0 0 = Some 0" by (simp add: icProbe_table m2_def m1_def probe_fill)
  moreover have "registryFits (mc_rt m2)" using r(6) by (simp add: m2_def m1_def bumpBackedge_def registryFits_def)
  ultimately show ?thesis using s1 s2 by (intro exI [of _ m1] exI [of _ m2]) (simp add: m1_def m2_def)
qed

section \<open>Witnesses\<close>

lemma reader_runs:
  "\<exists>m1 m2. step zeroFpu tc plainConfig readerStart = Some (Running m1) \<and> machineRun zeroFpu tc plainConfig readerStart m2
    \<and> icProbe m2 0 0 = Some 0 \<and> mc_frames m2 = [(0, readerFrame 0 (VInt 0))] \<and> registryFits (mc_rt m2)"
  using reader_steps [of zeroFpu tc] mr_start [of zeroFpu tc plainConfig readerStart] mr_step by blast

definition noDigits :: to_chars where
  "noDigits = \<lparr>digits32 = \<lambda>w. [], digits64 = \<lambda>w. []\<rparr>"


theorem run_stability_witness:
  "\<exists>m'. machineRun zeroFpu noDigits plainConfig readerStart m' \<and> (\<exists>ob. obj (mc_heap m') 3 = Some ob \<and> ho_kind ob = Instance \<and> ho_cls ob = 0)"
proof -
  obtain m2 where r: "machineRun zeroFpu noDigits plainConfig readerStart m2" "registryFits (mc_rt m2)" using reader_runs [of noDigits] by blast
  have o: "obj (mc_heap readerStart) 3 = Some (newObj\<lparr>ho_kind := Instance, ho_cls := 0, ho_slots := []\<rparr>)"
    using readerRuntime_parts(4) by (simp add: readerStart_def mc_heap_def)
  from run_stability [OF readerStart_loaded mr_start r] o have "\<exists>ob. obj (mc_heap m2) 3 = Some ob \<and> ho_kind ob = Instance \<and> ho_cls ob = 0"
    by fastforce
  then show ?thesis using r by blast
qed

theorem inline_caches_sound_witness:
  "\<exists>m rf. machineRun zeroFpu noDigits plainConfig readerStart m \<and> icProbe m 0 0 = Some 0
     \<and> resolveField fieldX (mc_rt m) = (mc_rt m, Some rf) \<and> rf_slot rf = 0"
proof -
  obtain m where r: "machineRun zeroFpu noDigits plainConfig readerStart m" "icProbe m 0 0 = Some 0"
    "mc_frames m = [(0, readerFrame 0 (VInt 0))]" "registryFits (mc_rt m)" using reader_runs [of noDigits] by blast
  have "noQuickCalls reader" by (simp add: noQuickCalls_def reader_def readerMethod_def)
  from inline_caches_sound [OF readerStart_loaded r(1) this r(4,3) refl refl] r(1,2) show ?thesis
    by (auto simp: reader_code readerMethod_def)
qed

end
