(* ===== verification/Ir_ResultType.thy ===== *)
theory Ir_ResultType
  imports Ir_Graph
begin

text \<open>
  The result type of a node (\<open>resultTypeOf\<close> in \<open>compiler/ir/core/Printer.cpp\<close>). Types that come from
  a payload are casts of an unchecked integer to an 8-bit enumeration, so a type is its code; a code
  that is no enumerator behaves as the comparisons of the source do. The function descends through
  bit casts and phis and has no guard against a cycle of phis: it is a partial function, \<open>None\<close> where
  the recursion does not end.
\<close>

definition castType :: "nat \<Rightarrow> nat" where
  "castType p = p mod 256"

definition joinCode :: "nat \<Rightarrow> nat \<Rightarrow> nat" where
  "joinCode a b =
     (if a = b then a
      else if (a = irCode IT_Null \<and> b = irCode IT_Ref) \<or> (a = irCode IT_Ref \<and> b = irCode IT_Null) then irCode IT_Ref
      else irCode IT_Bottom)"

definition vectorOfCode :: "nat \<Rightarrow> nat" where
  "vectorOfCode c = (case irOfCode c of Some t \<Rightarrow> irCode (vectorOfLane t) | None \<Rightarrow> irCode IT_Bottom)"

text \<open>\<open>unpackVecLane\<close>: the low byte of the payload.\<close>

definition laneCode :: "nat \<Rightarrow> nat" where
  "laneCode p = p mod 256"

definition untagType :: "nat \<Rightarrow> nat" where
  "untagType p =
     (let r = p mod 256 in
      if r = 0 \<or> r = 6 then irCode IT_Int
      else if r = 1 then irCode IT_Long
      else if r = 2 then irCode IT_Float
      else if r = 3 then irCode IT_Double
      else irCode IT_Ref)"

text \<open>The kinds whose type does not depend on the inputs, in the order of the switch.\<close>

definition kindsBottom :: "node_kind list" where
  "kindsBottom = [Nk_Start, Nk_End, Nk_Region, Nk_If, Nk_IfTrue, Nk_IfFalse, Nk_Switch, Nk_SwitchCase, Nk_SwitchDefault,
     Nk_LoopBegin, Nk_LoopEnd, Nk_LoopExit, Nk_Return, Nk_Unwind, Nk_Deopt, Nk_StoreField, Nk_StoreStatic, Nk_StoreElem,
     Nk_MemBar, Nk_MonitorEnter, Nk_MonitorExit, Nk_ClassInit, Nk_Guard, Nk_RepTransitionGuard, Nk_VectorStore,
     Nk_FrameState]"

definition kindsRef :: "node_kind list" where
  "kindsRef = [Nk_New, Nk_NewArray, Nk_NewRefArray, Nk_NewMultiArray, Nk_ConstantSym, Nk_CheckCast, Nk_Materialize,
     Nk_CompressedRefDecode, Nk_BoxPrimitive, Nk_VirtualObjectState, Nk_CallExcept, Nk_LoadException]"

definition kindsInt :: "node_kind list" where
  "kindsInt = [Nk_ArrayLength, Nk_InstanceOf, Nk_CompressedRefEncode, Nk_ConstantI, Nk_AddI, Nk_SubI, Nk_MulI, Nk_DivI,
     Nk_RemI, Nk_NegI, Nk_ShlI, Nk_ShrI, Nk_UShrI, Nk_AndI, Nk_OrI, Nk_XorI, Nk_CmpI, Nk_I2B, Nk_I2C, Nk_I2S,
     Nk_Truncate, Nk_Not, Nk_IsNull, Nk_RefEq, Nk_EqI, Nk_NeI, Nk_LtI, Nk_LeI, Nk_GtI, Nk_GeI, Nk_CmpL, Nk_CmpFl,
     Nk_CmpFg, Nk_CmpDl, Nk_CmpDg, Nk_L2I, Nk_F2I, Nk_D2I]"

definition kindsLong :: "node_kind list" where
  "kindsLong = [Nk_ConstantL, Nk_AddL, Nk_SubL, Nk_MulL, Nk_DivL, Nk_RemL, Nk_NegL, Nk_ShlL, Nk_ShrL, Nk_UShrL, Nk_AndL,
     Nk_OrL, Nk_XorL, Nk_SignExtend, Nk_ZeroExtend, Nk_I2L, Nk_F2L, Nk_D2L]"

definition kindsFloat :: "node_kind list" where
  "kindsFloat = [Nk_ConstantF, Nk_AddF, Nk_SubF, Nk_MulF, Nk_DivF, Nk_RemF, Nk_NegF, Nk_I2F, Nk_L2F, Nk_D2F]"

definition kindsDouble :: "node_kind list" where
  "kindsDouble = [Nk_ConstantD, Nk_AddD, Nk_SubD, Nk_MulD, Nk_DivD, Nk_RemD, Nk_NegD, Nk_I2D, Nk_L2D, Nk_F2D]"

definition ownType :: "node \<Rightarrow> nat" where
  "ownType nd =
     (let k = nd_kind nd in
      if k \<in> set kindsBottom then irCode IT_Bottom
      else if k = Nk_LoadField \<or> k = Nk_LoadStatic \<or> k = Nk_UnboxPrimitive then castType (nd_payload2 nd)
      else if k = Nk_LoadElem then castType (nd_payload nd)
      else if k \<in> set kindsRef then irCode IT_Ref
      else if k = Nk_CallStatic \<or> k = Nk_CallVirtual \<or> k = Nk_CallInterface \<or> k = Nk_CallDynamic
        then castType (nd_payload2 nd)
      else if k \<in> set kindsInt then irCode IT_Int
      else if k \<in> set kindsLong then irCode IT_Long
      else if k \<in> set kindsFloat then irCode IT_Float
      else if k \<in> set kindsDouble then irCode IT_Double
      else if k = Nk_ConstantNull then irCode IT_Null
      else if k = Nk_Parameter then castType (nd_payload2 nd)
      else if k = Nk_VectorBroadcast \<or> k = Nk_VectorPack then vectorOfCode (castType (nd_payload nd))
      else if k = Nk_VectorOp \<or> k = Nk_VectorMaskOp \<or> k = Nk_VectorInsert \<or> k = Nk_VectorLoad
        then vectorOfCode (laneCode (nd_payload2 nd))
      else if k = Nk_VectorExtract \<or> k = Nk_VectorReduce then laneCode (nd_payload2 nd)
      else if k = Nk_TagValue then irCode IT_Tagged
      else if k = Nk_UntagValue then untagType (nd_payload2 nd)
      else irCode IT_Bottom)"

text \<open>
  The recursion with its loop over the inputs of a phi. \<open>Inl n\<close> is a call for a node; \<open>Inr (n, s, t)\<close> is
  the loop of the phi \<open>n\<close> at slot \<open>s\<close> with the join \<open>t\<close> of the inputs seen so far, \<open>None\<close> at the first.
\<close>

partial_function (option) typeWalk :: "graph \<Rightarrow> node_id + node_id \<times> nat \<times> nat option \<Rightarrow> nat option" where
  "typeWalk g c =
     (case c of
        Inl n \<Rightarrow>
          if nd_kind (node_at g n) = Nk_BitCast
          then (if 1 \<le> numInputs g n then typeWalk g (Inl (input g n 0)) else Some (irCode IT_Bottom))
          else if nd_kind (node_at g n) = Nk_Phi then typeWalk g (Inr (n, 1, None))
          else Some (ownType (node_at g n))
      | Inr l \<Rightarrow>
          if fst (snd l) < numInputs g (fst l)
          then Option.bind (typeWalk g (Inl (input g (fst l) (fst (snd l))))) (\<lambda>v.
                 typeWalk g (Inr (fst l, fst (snd l) + 1,
                   Some (case snd (snd l) of Some t \<Rightarrow> joinCode t v | None \<Rightarrow> v))))
          else Some (case snd (snd l) of Some t \<Rightarrow> t | None \<Rightarrow> irCode IT_Bottom))"

declare typeWalk.simps [code]

definition resultTypeOf :: "graph \<Rightarrow> node_id \<Rightarrow> nat option" where
  "resultTypeOf g n = typeWalk g (Inl n)"

lemma resultTypeOf_own:
  "nd_kind (node_at g n) \<noteq> Nk_BitCast \<Longrightarrow> nd_kind (node_at g n) \<noteq> Nk_Phi \<Longrightarrow>
   resultTypeOf g n = Some (ownType (node_at g n))"
  by (simp add: resultTypeOf_def typeWalk.simps)

text \<open>On enumerators the code of the join is the join of the types.\<close>

lemma joinCode_join: "joinCode (irCode a) (irCode b) = irCode (ir_join a b)"
  by (cases a; cases b; simp add: joinCode_def ir_join_def)

lemma vectorOfCode_lane: "vectorOfCode (irCode t) = irCode (vectorOfLane t)"
  by (simp add: vectorOfCode_def)

text \<open>The recursion does not end on a phi that reads itself.\<close>

lemma self_phi_no_type:
  assumes "nd_kind (node_at g n) = Nk_Phi" "1 \<le> s" "s < numInputs g n" "input g n s = n"
  shows "resultTypeOf g n = None"
proof (rule ccontr)
  let ?P = "\<lambda>c. c \<noteq> Inl n \<and> (\<forall>s' (t :: nat option). c = Inr (n, s', t) \<longrightarrow> s < s')"
  assume "resultTypeOf g n \<noteq> None"
  then obtain v where "typeWalk g (Inl n) = Some v" by (auto simp: resultTypeOf_def)
  then have "g = g \<longrightarrow> ?P (Inl n)"
  proof (rule typeWalk.raw_induct [where P = "\<lambda>h c v. h = g \<longrightarrow> ?P c", rotated])
    fix f h c v
    assume IH: "\<And>h c v. f h c = Some v \<Longrightarrow> h = g \<longrightarrow> ?P c"
      and e: "(case c of
        Inl n \<Rightarrow>
          if nd_kind (node_at h n) = Nk_BitCast
          then (if 1 \<le> numInputs h n then f h (Inl (input h n 0)) else Some (irCode IT_Bottom))
          else if nd_kind (node_at h n) = Nk_Phi then f h (Inr (n, 1, None))
          else Some (ownType (node_at h n))
      | Inr l \<Rightarrow>
          if fst (snd l) < numInputs h (fst l)
          then Option.bind (f h (Inl (input h (fst l) (fst (snd l))))) (\<lambda>v.
                 f h (Inr (fst l, fst (snd l) + 1,
                   Some (case snd (snd l) of Some t \<Rightarrow> joinCode t v | None \<Rightarrow> v))))
          else Some (case snd (snd l) of Some t \<Rightarrow> t | None \<Rightarrow> irCode IT_Bottom)) = Some v"
    show "h = g \<longrightarrow> ?P c"
    proof (intro impI conjI allI notI)
      assume h: "h = g"
      show False if "c = Inl n"
        using e IH [of h "Inr (n, 1, None)"] that h assms(1,2) by auto
      show "s < s'" if c: "c = Inr (n, s', t)" for s' t
      proof (rule ccontr)
        assume "\<not> s < s'"
        then have "s' < numInputs g n" using assms(3) by simp
        then obtain w r where w: "f g (Inl (input g n s')) = Some w" "f g (Inr (n, s' + 1, r)) = Some v"
          using e c h by (auto simp: bind_eq_Some_conv)
        show False using IH [OF w(1)] IH [OF w(2)] assms(4) \<open>\<not> s < s'\<close> by (cases "s' = s") auto
      qed
    qed
  qed
  then show False by simp
qed

end
