(* ===== verification/Pass_Const.thy ===== *)
theory Pass_Const
  imports Ir_Graph Interp_Value
begin

unbundle bit_operations_syntax

text \<open>
  The constant machinery the optimisation passes share (\<open>compiler/passes/src/PassInternal.h\<close>,
  \<open>Simplify.cpp\<close>): constants read from nodes, the evaluators of two- and one-operand nodes, and the
  constant node for a folded value. Floating point values are bit patterns and the rounded operations
  come from the record \<open>fpu\<close>, as in the interpreter: the compiler folds with the arithmetic of the
  same host. The lemmas show that every fold computes what the interpreter's kernel computes.
\<close>

section \<open>Constants\<close>

datatype const_val = CV_None | CV_I "32 word" | CV_L "64 word" | CV_F "32 word" | CV_D "64 word" | CV_Null

definition constOf :: "graph \<Rightarrow> node_id \<Rightarrow> const_val" where
  "constOf g n =
     (let nd = node_at g n; k = nd_kind nd; c = nd_constValue nd in
      if isDead nd then CV_None
      else if k = Nk_ConstantI then CV_I (ucast c)
      else if k = Nk_ConstantL then CV_L c
      else if k = Nk_ConstantF then CV_F (ucast c)
      else if k = Nk_ConstantD then CV_D c
      else if k = Nk_ConstantNull then CV_Null
      else CV_None)"

definition isConst :: "const_val \<Rightarrow> bool" where
  "isConst c \<longleftrightarrow> c \<noteq> CV_None"

definition makeConstNode :: "const_val \<Rightarrow> graph \<Rightarrow> graph \<times> node_id" where
  "makeConstNode c g =
     (case c of
        CV_I w \<Rightarrow> constantI w g
      | CV_L w \<Rightarrow> constantL w g
      | CV_F w \<Rightarrow> constantF w g
      | CV_D w \<Rightarrow> constantD w g
      | CV_Null \<Rightarrow> constantNull g
      | CV_None \<Rightarrow> (g, kInvalidNodeId))"

section \<open>Folds\<close>

text \<open>The largest int as a double; the other bounds are powers of two.\<close>

definition dblMaxInt :: "64 word" where
  "dblMaxInt = 0x41DFFFFFFFC00000"

definition fpToInt64 :: "64 word \<Rightarrow> bool \<Rightarrow> 64 word" where
  "fpToInt64 v isLong =
     (if fpIsNan v then 0
      else if fpLe (fpPow2 63) v then (if isLong then maxInt else scast (maxInt :: 32 word))
      else if fpLe v (fpNegate (fpPow2 63)) then (if isLong then minInt else scast (minInt :: 32 word))
      else if \<not> isLong \<and> fpLess dblMaxInt v then scast (maxInt :: 32 word)
      else if \<not> isLong \<and> fpLess v (fpNegate (fpPow2 31)) then scast (minInt :: 32 word)
      else word_of_int (fpTrunc v))"

definition javaDivI :: "32 word \<Rightarrow> 32 word \<Rightarrow> 32 word" where
  "javaDivI a b = (if a = minInt \<and> b = -1 then minInt else word_of_int (sint a sdiv sint b))"

definition javaRemI :: "32 word \<Rightarrow> 32 word \<Rightarrow> 32 word" where
  "javaRemI a b = (if a = minInt \<and> b = -1 then 0 else word_of_int (sint a smod sint b))"

definition javaDivL :: "64 word \<Rightarrow> 64 word \<Rightarrow> 64 word" where
  "javaDivL a b = (if a = minInt \<and> b = -1 then minInt else word_of_int (sint a sdiv sint b))"

definition javaRemL :: "64 word \<Rightarrow> 64 word \<Rightarrow> 64 word" where
  "javaRemL a b = (if a = minInt \<and> b = -1 then 0 else word_of_int (sint a smod sint b))"

definition foldIntBin :: "node_kind \<Rightarrow> 32 word \<Rightarrow> 32 word \<Rightarrow> 64 word option" where
  "foldIntBin k a b =
     (if k = Nk_AddI then Some (scast (a + b))
      else if k = Nk_SubI then Some (scast (a - b))
      else if k = Nk_MulI then Some (scast (a * b))
      else if k = Nk_AndI then Some (scast (a AND b))
      else if k = Nk_OrI then Some (scast (a OR b))
      else if k = Nk_XorI then Some (scast (a XOR b))
      else if k = Nk_ShlI then Some (scast (push_bit (unat (b AND 31)) a))
      else if k = Nk_ShrI then Some (scast (signed_drop_bit (unat (b AND 31)) a))
      else if k = Nk_UShrI then Some (scast (drop_bit (unat (b AND 31)) a))
      else if k = Nk_DivI then (if b = 0 then None else Some (scast (javaDivI a b)))
      else if k = Nk_RemI then (if b = 0 then None else Some (scast (javaRemI a b)))
      else if k = Nk_CmpI then Some (of_bool (b <s a) - of_bool (a <s b))
      else if k = Nk_EqI then Some (of_bool (a = b))
      else if k = Nk_NeI then Some (of_bool (a \<noteq> b))
      else if k = Nk_LtI then Some (of_bool (a <s b))
      else if k = Nk_LeI then Some (of_bool (a \<le>s b))
      else if k = Nk_GtI then Some (of_bool (b <s a))
      else if k = Nk_GeI then Some (of_bool (b \<le>s a))
      else None)"

definition foldLongBin :: "node_kind \<Rightarrow> 64 word \<Rightarrow> 64 word \<Rightarrow> 64 word option" where
  "foldLongBin k a b =
     (if k = Nk_AddL then Some (a + b)
      else if k = Nk_SubL then Some (a - b)
      else if k = Nk_MulL then Some (a * b)
      else if k = Nk_AndL then Some (a AND b)
      else if k = Nk_OrL then Some (a OR b)
      else if k = Nk_XorL then Some (a XOR b)
      else if k = Nk_ShlL then Some (push_bit (unat (b AND 63)) a)
      else if k = Nk_ShrL then Some (signed_drop_bit (unat (b AND 63)) a)
      else if k = Nk_UShrL then Some (drop_bit (unat (b AND 63)) a)
      else if k = Nk_DivL then (if b = 0 then None else Some (javaDivL a b))
      else if k = Nk_RemL then (if b = 0 then None else Some (javaRemL a b))
      else if k = Nk_CmpL then Some (of_bool (b <s a) - of_bool (a <s b))
      else None)"

text \<open>A sum of floats and so on, refused when an operand or the result is a NaN.\<close>

definition nanFree :: "'a::len word \<Rightarrow> 'a word option" where
  "nanFree r = (if fpIsNan r then None else Some r)"

definition foldFloatBin :: "fpu \<Rightarrow> node_kind \<Rightarrow> 32 word \<Rightarrow> 32 word \<Rightarrow> 32 word option" where
  "foldFloatBin u k a b =
     (if fpIsNan a \<or> fpIsNan b then None
      else if k = Nk_AddF then nanFree (fadd u a b)
      else if k = Nk_SubF then nanFree (fsub u a b)
      else if k = Nk_MulF then nanFree (fmul u a b)
      else if k = Nk_DivF then nanFree (fdiv u a b)
      else if k = Nk_RemF then (if fpMag b = 0 \<or> fpIsInf a then None else nanFree (fmod32 u a b))
      else None)"

definition foldDoubleBin :: "fpu \<Rightarrow> node_kind \<Rightarrow> 64 word \<Rightarrow> 64 word \<Rightarrow> 64 word option" where
  "foldDoubleBin u k a b =
     (if fpIsNan a \<or> fpIsNan b then None
      else if k = Nk_AddD then nanFree (dadd u a b)
      else if k = Nk_SubD then nanFree (dsub u a b)
      else if k = Nk_MulD then nanFree (dmul u a b)
      else if k = Nk_DivD then nanFree (ddiv u a b)
      else if k = Nk_RemD then (if fpMag b = 0 \<or> fpIsInf a then None else nanFree (fmod64 u a b))
      else None)"

text \<open>The comparison of two doubles with the answer for a NaN operand; float operands are widened
  first.\<close>

definition foldFpCompare :: "32 word \<Rightarrow> 64 word \<Rightarrow> 64 word \<Rightarrow> 32 word" where
  "foldFpCompare unordered x y =
     (if fpIsNan x \<or> fpIsNan y then unordered else of_bool (fpLess y x) - of_bool (fpLess x y))"

definition evalFloat :: "fpu \<Rightarrow> node_kind \<Rightarrow> 32 word \<Rightarrow> 32 word \<Rightarrow> const_val option" where
  "evalFloat u k a b =
     (case foldFloatBin u k a b of
        Some r \<Rightarrow> Some (CV_F r)
      | None \<Rightarrow>
          if k = Nk_CmpFl then Some (CV_I (foldFpCompare (-1) (fpWiden u a) (fpWiden u b)))
          else if k = Nk_CmpFg then Some (CV_I (foldFpCompare 1 (fpWiden u a) (fpWiden u b)))
          else None)"

definition evalDouble :: "fpu \<Rightarrow> node_kind \<Rightarrow> 64 word \<Rightarrow> 64 word \<Rightarrow> const_val option" where
  "evalDouble u k a b =
     (case foldDoubleBin u k a b of
        Some r \<Rightarrow> Some (CV_D r)
      | None \<Rightarrow>
          if k = Nk_CmpDl then Some (CV_I (foldFpCompare (-1) a b))
          else if k = Nk_CmpDg then Some (CV_I (foldFpCompare 1 a b))
          else None)"

fun evalBinOp :: "fpu \<Rightarrow> node_kind \<Rightarrow> const_val \<Rightarrow> const_val \<Rightarrow> const_val option" where
  "evalBinOp u k (CV_I a) (CV_I b) = map_option (\<lambda>r. CV_I (ucast r)) (foldIntBin k a b)"
| "evalBinOp u k (CV_L a) (CV_L b) =
     map_option (\<lambda>r. if k = Nk_CmpL then CV_I (ucast r) else CV_L r) (foldLongBin k a b)"
| "evalBinOp u k (CV_F a) (CV_F b) = evalFloat u k a b"
| "evalBinOp u k (CV_D a) (CV_D b) = evalDouble u k a b"
| "evalBinOp u k _ _ = None"

fun evalUnaryOp :: "fpu \<Rightarrow> node_kind \<Rightarrow> const_val \<Rightarrow> const_val option" where
  "evalUnaryOp u k (CV_I a) =
     (if k = Nk_NegI then Some (CV_I (0 - a))
      else if k = Nk_Not then Some (CV_I (of_bool (a = 0)))
      else if k = Nk_I2L then Some (CV_L (scast a))
      else if k = Nk_I2B then Some (CV_I (scast (ucast a :: 8 word)))
      else if k = Nk_I2C then Some (CV_I (a AND 0xFFFF))
      else if k = Nk_I2S then Some (CV_I (scast (ucast a :: 16 word)))
      else if k = Nk_I2F then Some (CV_F (cvtI2f u a))
      else if k = Nk_I2D then Some (CV_D (cvtI2d u a))
      else None)"
| "evalUnaryOp u k (CV_L a) =
     (if k = Nk_NegL then Some (CV_L (0 - a))
      else if k = Nk_L2I then Some (CV_I (ucast a))
      else if k = Nk_L2F then Some (CV_F (cvtL2f u a))
      else if k = Nk_L2D then Some (CV_D (cvtL2d u a))
      else None)"
| "evalUnaryOp u k (CV_F a) =
     (if k = Nk_NegF then Some (CV_F (a XOR 0x80000000))
      else if k = Nk_F2I then Some (CV_I (ucast (fpToInt64 (fpWiden u a) False)))
      else if k = Nk_F2L then Some (CV_L (fpToInt64 (fpWiden u a) True))
      else if k = Nk_F2D then (if fpIsNan a then None else Some (CV_D (fpWiden u a)))
      else None)"
| "evalUnaryOp u k (CV_D a) =
     (if k = Nk_NegD then Some (CV_D (a XOR 0x8000000000000000))
      else if k = Nk_D2I then Some (CV_I (ucast (fpToInt64 a False)))
      else if k = Nk_D2L then Some (CV_L (fpToInt64 a True))
      else if k = Nk_D2F then (if fpIsNan a then None else map_option CV_F (nanFree (cvtD2f u a)))
      else None)"
| "evalUnaryOp u k _ = None"

section \<open>The meaning of a node\<close>

text \<open>
  What a value node computes, by the kernels of the interpreter: the reference the folds are
  compared with. \<open>None\<close> is a division by zero or a kind that computes nothing from its operands
  alone.
\<close>

definition intMeaning :: "node_kind \<Rightarrow> 32 word \<Rightarrow> 32 word \<Rightarrow> jvalue option" where
  "intMeaning k a b =
     (if k = Nk_AddI then Some (VInt (wrapAdd32 a b))
      else if k = Nk_SubI then Some (VInt (wrapSub32 a b))
      else if k = Nk_MulI then Some (VInt (wrapMul32 a b))
      else if k = Nk_DivI then (if b = 0 then None else Some (VInt (divTrunc a b)))
      else if k = Nk_RemI then (if b = 0 then None else Some (VInt (remTrunc a b)))
      else if k = Nk_ShlI then Some (VInt (shl a b))
      else if k = Nk_ShrI then Some (VInt (shr a b))
      else if k = Nk_UShrI then Some (VInt (ushr a b))
      else if k = Nk_AndI then Some (VInt (and a b))
      else if k = Nk_OrI then Some (VInt (or a b))
      else if k = Nk_XorI then Some (VInt (xor a b))
      else if k = Nk_CmpI then Some (VInt (cmpSigned a b))
      else if k = Nk_EqI then Some (VInt (of_bool (a = b)))
      else if k = Nk_NeI then Some (VInt (of_bool (a \<noteq> b)))
      else if k = Nk_LtI then Some (VInt (of_bool (sint a < sint b)))
      else if k = Nk_LeI then Some (VInt (of_bool (sint a \<le> sint b)))
      else if k = Nk_GtI then Some (VInt (of_bool (sint a > sint b)))
      else if k = Nk_GeI then Some (VInt (of_bool (sint a \<ge> sint b)))
      else None)"

definition longMeaning :: "node_kind \<Rightarrow> 64 word \<Rightarrow> 64 word \<Rightarrow> jvalue option" where
  "longMeaning k a b =
     (if k = Nk_AddL then Some (VLong (wrapAdd64 a b))
      else if k = Nk_SubL then Some (VLong (wrapSub64 a b))
      else if k = Nk_MulL then Some (VLong (wrapMul64 a b))
      else if k = Nk_DivL then (if b = 0 then None else Some (VLong (divTrunc a b)))
      else if k = Nk_RemL then (if b = 0 then None else Some (VLong (remTrunc a b)))
      else if k = Nk_AndL then Some (VLong (and a b))
      else if k = Nk_OrL then Some (VLong (or a b))
      else if k = Nk_XorL then Some (VLong (xor a b))
      else if k = Nk_CmpL then Some (VInt (cmpSigned a b))
      else None)"

definition shiftMeaning :: "node_kind \<Rightarrow> 64 word \<Rightarrow> 32 word \<Rightarrow> jvalue option" where
  "shiftMeaning k a b =
     (if k = Nk_ShlL then Some (VLong (shl a b))
      else if k = Nk_ShrL then Some (VLong (shr a b))
      else if k = Nk_UShrL then Some (VLong (ushr a b))
      else None)"

definition floatMeaning :: "fpu \<Rightarrow> node_kind \<Rightarrow> 32 word \<Rightarrow> 32 word \<Rightarrow> jvalue option" where
  "floatMeaning u k a b =
     (if k = Nk_AddF then Some (VFloat (fadd u a b))
      else if k = Nk_SubF then Some (VFloat (fsub u a b))
      else if k = Nk_MulF then Some (VFloat (fmul u a b))
      else if k = Nk_DivF then Some (VFloat (fdiv u a b))
      else if k = Nk_RemF then Some (VFloat (fmod32 u a b))
      else if k = Nk_CmpFl then Some (VInt (fpCompare (-1) a b))
      else if k = Nk_CmpFg then Some (VInt (fpCompare 1 a b))
      else None)"

definition doubleMeaning :: "fpu \<Rightarrow> node_kind \<Rightarrow> 64 word \<Rightarrow> 64 word \<Rightarrow> jvalue option" where
  "doubleMeaning u k a b =
     (if k = Nk_AddD then Some (VDouble (dadd u a b))
      else if k = Nk_SubD then Some (VDouble (dsub u a b))
      else if k = Nk_MulD then Some (VDouble (dmul u a b))
      else if k = Nk_DivD then Some (VDouble (ddiv u a b))
      else if k = Nk_RemD then Some (VDouble (fmod64 u a b))
      else if k = Nk_CmpDl then Some (VInt (fpCompare (-1) a b))
      else if k = Nk_CmpDg then Some (VInt (fpCompare 1 a b))
      else None)"

fun meaning2 :: "fpu \<Rightarrow> node_kind \<Rightarrow> jvalue \<Rightarrow> jvalue \<Rightarrow> jvalue option" where
  "meaning2 u k (VInt a) (VInt b) = intMeaning k a b"
| "meaning2 u k (VLong a) (VLong b) = longMeaning k a b"
| "meaning2 u k (VLong a) (VInt b) = shiftMeaning k a b"
| "meaning2 u k (VFloat a) (VFloat b) = floatMeaning u k a b"
| "meaning2 u k (VDouble a) (VDouble b) = doubleMeaning u k a b"
| "meaning2 u k a b =
     (if k = Nk_RefEq \<and> isRefLike a \<and> isRefLike b then Some (VInt (of_bool (sameObject a b))) else None)"

fun meaning1 :: "fpu \<Rightarrow> node_kind \<Rightarrow> jvalue \<Rightarrow> jvalue option" where
  "meaning1 u k (VInt a) =
     (if k = Nk_NegI then Some (VInt (neg32 a))
      else if k = Nk_Not then Some (VInt (of_bool (a = 0)))
      else if k = Nk_I2L then Some (VLong (scast a))
      else if k = Nk_I2F then Some (VFloat (cvtI2f u a))
      else if k = Nk_I2D then Some (VDouble (cvtI2d u a))
      else if k = Nk_I2B then Some (VInt (narrow8 a))
      else if k = Nk_I2C then Some (VInt (narrowU16 a))
      else if k = Nk_I2S then Some (VInt (narrow16 a))
      else None)"
| "meaning1 u k (VLong a) =
     (if k = Nk_NegL then Some (VLong (neg64 a))
      else if k = Nk_L2I then Some (VInt (ucast a))
      else if k = Nk_L2F then Some (VFloat (cvtL2f u a))
      else if k = Nk_L2D then Some (VDouble (cvtL2d u a))
      else None)"
| "meaning1 u k (VFloat a) =
     (if k = Nk_NegF then Some (VFloat (fpNegate a))
      else if k = Nk_F2I then Some (VInt (toInt32Sat a))
      else if k = Nk_F2L then Some (VLong (toInt64Sat a))
      else if k = Nk_F2D then Some (VDouble (fpWiden u a))
      else None)"
| "meaning1 u k (VDouble a) =
     (if k = Nk_NegD then Some (VDouble (fpNegate a))
      else if k = Nk_D2I then Some (VInt (toInt32Sat a))
      else if k = Nk_D2L then Some (VLong (toInt64Sat a))
      else if k = Nk_D2F then Some (VFloat (cvtD2f u a))
      else None)"
| "meaning1 u k v =
     (if k = Nk_IsNull \<and> isRefLike v then Some (VInt (of_bool (isNull v)))
      else if k = Nk_InstanceOf \<and> isNull v then Some (VInt 0)
      else None)"

definition meaning0 :: "node_kind \<Rightarrow> 64 word \<Rightarrow> jvalue option" where
  "meaning0 k c =
     (if k = Nk_ConstantI then Some (VInt (ucast c))
      else if k = Nk_ConstantL then Some (VLong c)
      else if k = Nk_ConstantF then Some (VFloat (ucast c))
      else if k = Nk_ConstantD then Some (VDouble c)
      else if k = Nk_ConstantNull then Some VNull
      else None)"

fun nodeMeaning :: "fpu \<Rightarrow> node_kind \<Rightarrow> 64 word \<Rightarrow> jvalue list \<Rightarrow> jvalue option" where
  "nodeMeaning u k c [] = meaning0 k c"
| "nodeMeaning u k c [a] = meaning1 u k a"
| "nodeMeaning u k c [a, b] = meaning2 u k a b"
| "nodeMeaning u k c _ = None"

fun valOfConst :: "const_val \<Rightarrow> jvalue option" where
  "valOfConst (CV_I w) = Some (VInt w)"
| "valOfConst (CV_L w) = Some (VLong w)"
| "valOfConst (CV_F w) = Some (VFloat w)"
| "valOfConst (CV_D w) = Some (VDouble w)"
| "valOfConst CV_Null = Some VNull"
| "valOfConst CV_None = None"

section \<open>Conversions to integers\<close>

lemma scaleTrunc_mono: "m \<le> m' \<Longrightarrow> scaleTrunc m e \<le> scaleTrunc m' e"
  by (simp add: scaleTrunc_def zdiv_mono1)

lemma truncMag_mono:
  fixes a b :: "'a::len word"
  assumes "fpMag a \<le> fpMag b"
  shows "truncMag a \<le> truncMag b"
proof -
  let ?f = "fracBits a" and ?e = "\<lambda>w :: 'a word. fpExp w - fpBias w - int (fracBits w)"
  have eq: "fracBits b = ?f" "fpBias b = fpBias a" by (simp_all add: fracBits_def fpBias_def)
  have sa: "fpSig a < 2 ^ Suc ?f"
    using pos_mod_bound [of "2 ^ ?f" "fpMag a"] by (auto simp: fpSig_def intro: less_trans)
  have dv: "fpMag a div 2 ^ ?f \<le> fpMag b div 2 ^ ?f" using assms by (intro zdiv_mono1) auto
  show ?thesis
  proof (cases "fpExp a = fpExp b")
    case True
    have "fpSig a \<le> fpSig b"
    proof (cases "fpMag a < 2 ^ ?f")
      case True
      moreover have "0 \<le> fpMag b mod 2 ^ ?f" by simp
      ultimately show ?thesis using assms by (auto simp: fpSig_def eq intro: order_trans [OF less_imp_le])
    next
      case False
      then have "1 \<le> fpMag a div 2 ^ ?f" using int_le_div_iff [of "2 ^ ?f" 1 "fpMag a"] by simp
      then have "fpMag a div 2 ^ ?f = fpMag b div 2 ^ ?f" using True dv by (simp add: fpExp_def eq)
      then have "fpMag a mod 2 ^ ?f \<le> fpMag b mod 2 ^ ?f"
        using assms div_mult_mod_eq [of "fpMag a" "2 ^ ?f"] div_mult_mod_eq [of "fpMag b" "2 ^ ?f"] by simp
      then show ?thesis using False assms by (simp add: fpSig_def eq)
    qed
    then show ?thesis using True by (simp add: truncMag_def eq scaleTrunc_mono)
  next
    case False
    then have less: "fpExp a < fpExp b" using dv by (auto simp: fpExp_def eq)
    then have "2 \<le> fpMag b div 2 ^ ?f" unfolding fpExp_def eq by linarith
    then have "2 * 2 ^ ?f \<le> fpMag b" using int_le_div_iff [of "2 ^ ?f" 2 "fpMag b"] by simp
    moreover have "(0::int) < 2 ^ ?f" by simp
    ultimately have "\<not> fpMag b < 2 ^ ?f" by linarith
    then have sb: "2 ^ ?f \<le> fpSig b" by (simp add: fpSig_def eq)
    define j where "j = nat (fpExp b - fpExp a)"
    have j: "1 \<le> j" "?e a = ?e b - int j" using less by (simp_all add: j_def eq)
    have "(2::int) ^ 1 \<le> 2 ^ j" using j(1) by (intro power_increasing) auto
    then have "2 ^ ?f * 2 \<le> fpSig b * 2 ^ j" using sb by (intro mult_mono) (auto simp: fpSig_def)
    then have "fpSig a \<le> fpSig b * 2 ^ j" using sa by simp
    then show ?thesis unfolding truncMag_def j(2) using scaleTrunc_mono scaleTrunc_shift by metis
  qed
qed

lemma truncMag_zero: "fpMag w = 0 \<Longrightarrow> truncMag w = 0"
  using truncMag_less [of w 0] truncMag_nonneg [of w] by (simp add: fpBias_def)

lemma fpTrunc_mono:
  fixes a b :: "'a::len word"
  assumes "fpKey a \<le> fpKey b"
  shows "fpTrunc a \<le> fpTrunc b"
  using assms truncMag_mono [of a b] truncMag_mono [of b a] truncMag_nonneg [of a] truncMag_nonneg [of b]
    fpMag_nonneg [of a] fpMag_nonneg [of b] truncMag_zero [of a] truncMag_zero [of b]
  by (auto simp: fpKey_def fpTrunc_mag simp del: fpMag_nonneg split: if_splits)

lemma dbl_bounds:
  "fpTrunc dblMaxInt = 2 ^ 31 - 1" "fpTrunc (fpNegate (fpPow2 31) :: 64 word) = - (2 ^ 31)"
  "fpTrunc (fpPow2 63 :: 64 word) = 2 ^ 63" "fpTrunc (fpNegate (fpPow2 63) :: 64 word) = - (2 ^ 63)"
  "\<not> fpIsNan dblMaxInt"
  by code_simp+

text \<open>The conversion of the folds is the saturating conversion of the interpreter.\<close>

lemma fpToInt64_clamp:
  "sint (fpToInt64 v True) = satInt 63 v" "fpToInt64 v False = word_of_int (satInt 31 v)"
proof -
  note le = fpTrunc_mono [of _ v] fpTrunc_mono [of v]
  have k: "fpLe (fpPow2 63) v \<Longrightarrow> 2 ^ 63 \<le> fpTrunc v" "fpLe v (fpNegate (fpPow2 63)) \<Longrightarrow> fpTrunc v \<le> - (2 ^ 63)"
    "\<not> fpLe v (fpNegate (fpPow2 63)) \<Longrightarrow> \<not> fpIsNan v \<Longrightarrow> - (2 ^ 63) \<le> fpTrunc v"
    "\<not> fpLess dblMaxInt v \<Longrightarrow> \<not> fpIsNan v \<Longrightarrow> fpTrunc v \<le> 2 ^ 31 - 1"
    "fpLess dblMaxInt v \<Longrightarrow> 2 ^ 31 - 1 \<le> fpTrunc v" "fpLess v (fpNegate (fpPow2 31)) \<Longrightarrow> fpTrunc v \<le> - (2 ^ 31)"
    "\<not> fpLess v (fpNegate (fpPow2 31)) \<Longrightarrow> \<not> fpIsNan v \<Longrightarrow> - (2 ^ 31) \<le> fpTrunc v"
    using le [of "fpPow2 63"] le [of "fpNegate (fpPow2 63)"] le [of dblMaxInt] le [of "fpNegate (fpPow2 31)"] dbl_bounds
      pow2_consts unfolding fpLe_def fpLess_def by (simp_all only: not_False_eq_True simp_thms) linarith+
  have t: "\<not> fpLe (fpPow2 63) v \<Longrightarrow> \<not> fpIsNan v \<Longrightarrow> fpTrunc v < 2 ^ 63"
    using fp_bounds(1) [of v "fpPow2 63" "fpNegate (fpPow2 63)" 63] pow2_consts by (simp add: fpBias_def fracBits_def)
  show "sint (fpToInt64 v True) = satInt 63 v"
    using k t sint_of_int(2) [of "fpTrunc v"] by (auto simp: fpToInt64_def satInt_def sint_limits)
  have w: "scast (maxInt :: 32 word) = (word_of_int (2 ^ 31 - 1) :: 64 word)" "scast (minInt :: 32 word) = (word_of_int (- (2 ^ 31)) :: 64 word)"
    by code_simp+
  show "fpToInt64 v False = word_of_int (satInt 31 v)"
    using k t by (auto simp: fpToInt64_def satInt_def w max_def min_def simp del: of_int_diff of_int_minus of_int_power)
qed

section \<open>Folds compute the meaning\<close>

text \<open>Widening a NaN gives a NaN on the host, as IEEE 754 requires.\<close>

definition hostNan :: "fpu \<Rightarrow> bool" where
  "hostNan u \<longleftrightarrow> (\<forall>w. fpIsNan w \<longrightarrow> fpIsNan (widenNan u w))"

lemma ucast_scast: "ucast (scast (w :: 32 word) :: 64 word) = w"
  by (rule bit_word_eqI) (simp add: bit_simps)

lemma ucast_minus_one: "ucast (-1 :: 64 word) = (-1 :: 32 word)"
  by code_simp

lemma ucast_sign: "ucast (of_bool p - of_bool q :: 64 word) = (of_bool p - of_bool q :: 32 word)"
  using ucast_minus_one by (cases p; cases q) simp_all

lemma ucast_of_bool: "ucast (of_bool p :: 64 word) = (of_bool p :: 32 word)"
  by (cases p) simp_all

lemma int_kernels:
  "wrapAdd32 a b = a + b" "wrapSub32 a b = a - b" "wrapMul32 a b = a * b"
  "divTrunc a b = javaDivI a b" "remTrunc a b = javaRemI a b"
  "shl a b = push_bit (unat (b AND 31)) a" "shr a b = signed_drop_bit (unat (b AND 31)) a"
  "ushr a b = drop_bit (unat (b AND 31)) a" "cmpSigned a b = of_bool (b <s a) - of_bool (a <s b)"
  "sint a < sint b \<longleftrightarrow> a <s b" "sint a \<le> sint b \<longleftrightarrow> a \<le>s b"
  by (simp_all only: wrap32_eq divTrunc_def remTrunc_def javaDivI_def javaRemI_def shl_def shr_def ushr_def
      shiftCount_def cmpSigned_def word_sless_alt word_sle_eq) simp_all

lemma foldIntBin_meaning: "foldIntBin k a b = Some r \<Longrightarrow> intMeaning k a b = Some (VInt (ucast r))"
  by (simp only: foldIntBin_def option.simps split: if_split_asm)
    (auto simp: intMeaning_def int_kernels ucast_scast ucast_sign ucast_of_bool ucast_minus_one)

lemma foldLongBin_meaning:
  "foldLongBin k a b = Some r \<Longrightarrow> longMeaning k a b = Some v \<Longrightarrow> v = (if k = Nk_CmpL then VInt (ucast r) else VLong r)"
  by (auto simp: foldLongBin_def longMeaning_def ucast_sign wrapAdd64_def wrapSub64_def wrapMul64_def divTrunc_def
      remTrunc_def javaDivL_def javaRemL_def cmpSigned_def split: if_splits)

lemma nan_widen: "hostNan u \<Longrightarrow> fpIsNan (fpWiden u w) \<longleftrightarrow> fpIsNan w"
  using widen_fields(3) [of w u] by (auto simp: hostNan_def fpWiden_def)

lemma foldFpCompare_widen: "hostNan u \<Longrightarrow> foldFpCompare c (fpWiden u a) (fpWiden u b) = fpCompare c a b"
  by (auto simp: foldFpCompare_def fpCompare_def nan_widen widen_less)

lemma nanFree_Some [simp]: "nanFree r = Some x \<longleftrightarrow> \<not> fpIsNan r \<and> x = r"
  by (auto simp: nanFree_def)

lemma evalFloat_meaning:
  assumes "hostNan u" "evalFloat u k a b = Some r"
  shows "floatMeaning u k a b = valOfConst r"
proof (cases "foldFloatBin u k a b")
  case None
  then show ?thesis using assms
    by (auto simp: evalFloat_def floatMeaning_def foldFpCompare_widen split: if_splits)
next
  case (Some x)
  then have "r = CV_F x" using assms by (simp add: evalFloat_def)
  then show ?thesis using Some by (auto simp: foldFloatBin_def floatMeaning_def split: if_splits)
qed

lemma evalDouble_meaning:
  assumes "evalDouble u k a b = Some r"
  shows "doubleMeaning u k a b = valOfConst r"
proof (cases "foldDoubleBin u k a b")
  case None
  then show ?thesis using assms
    by (auto simp: evalDouble_def doubleMeaning_def foldFpCompare_def fpCompare_def split: if_splits)
next
  case (Some x)
  then have "r = CV_D x" using assms by (simp add: evalDouble_def)
  then show ?thesis using Some by (auto simp: foldDoubleBin_def doubleMeaning_def split: if_splits)
qed

lemma evalBinOp_meaning:
  assumes "hostNan u" "evalBinOp u k x y = Some r" "valOfConst x = Some a" "valOfConst y = Some b" "meaning2 u k a b = Some v"
  shows "valOfConst r = Some v"
  using assms
proof (induction u k x y rule: evalBinOp.induct)
  case (1 u k x y)
  then show ?case using foldIntBin_meaning [of k x y] by auto
next
  case (2 u k x y)
  then show ?case using foldLongBin_meaning [of k x y] by (auto split: if_splits)
next
  case (3 u k x y)
  then show ?case using evalFloat_meaning [of u k x y] by auto
next
  case (4 u k x y)
  then show ?case using evalDouble_meaning [of u k x y] by auto
qed simp_all

lemma fpToInt64_sat:
  fixes d :: "64 word"
  shows "fpToInt64 d True = toInt64Sat d" "ucast (fpToInt64 d False) = toInt32Sat d"
proof -
  show "fpToInt64 d True = toInt64Sat d"
    using fpToInt64_clamp(1) [of d] toIntSat_clamp(4) [of d] by (metis signed_word_eqI)
  have "ucast (word_of_int i :: 64 word) = (word_of_int i :: 32 word)" for i
    by (rule bit_word_eqI) (simp add: bit_simps)
  then have "ucast (fpToInt64 d False) = (word_of_int (sint (toInt32Sat d)) :: 32 word)"
    by (simp add: fpToInt64_clamp toIntSat_clamp(3))
  then show "ucast (fpToInt64 d False) = toInt32Sat d" by simp
qed

lemma sat_widen:
  assumes "hostNan u"
  shows "toInt64Sat (fpWiden u w) = toInt64Sat w" "toInt32Sat (fpWiden u w) = toInt32Sat w"
proof -
  have sat: "satInt k (fpWiden u w) = satInt k w" if "k \<le> 63" for k
    using satInt_widen [of w k u] nan_widen [OF assms, of w] that by (cases "fpIsNan w") (simp_all add: satInt_def)
  have "sint (toInt64Sat (fpWiden u w)) = sint (toInt64Sat w)" "sint (toInt32Sat (fpWiden u w)) = sint (toInt32Sat w)"
    unfolding toIntSat_clamp by (rule sat, simp)+
  then show "toInt64Sat (fpWiden u w) = toInt64Sat w" "toInt32Sat (fpWiden u w) = toInt32Sat w"
    by (simp_all only: signed_word_eqI)
qed

lemma narrowing_masks: "(a :: 32 word) AND 0xFFFF = narrowU16 a" "(f :: 32 word) XOR 0x80000000 = fpNegate f"
  "(d :: 64 word) XOR 0x8000000000000000 = fpNegate d"
proof -
  have m: "(0xFFFF :: 32 word) = mask 16" by (simp add: mask_eq_exp_minus_1)
  show "a AND 0xFFFF = narrowU16 a"
    unfolding m take_bit_eq_mask [symmetric] by (rule bit_word_eqI) (auto simp: narrowU16_def bit_simps)
qed (simp_all add: fpNegate_def)

lemma evalUnaryOp_meaning:
  assumes "hostNan u" "evalUnaryOp u k x = Some r" "valOfConst x = Some a" "meaning1 u k a = Some v"
  shows "valOfConst r = Some v"
  using assms
  by (cases x; auto simp: fpToInt64_sat sat_widen narrowing_masks neg32_def neg64_def narrow8_def narrow16_def
      split: if_splits)

end
