(* ===== verification/Pass_Support.thy ===== *)
theory Pass_Support
  imports Ir_ResultType Pass_Const "HOL-Library.Monad_Syntax"
begin

text \<open>
  The machinery the passes share (\<open>compiler/passes/src/PassInternal.h\<close>, \<open>PassSupport.cpp\<close>): the budget,
  the telemetry, the junk sinks that keep the edges of dead nodes legal, the replace and kill
  protocols, and the predicates read from the registry. A pass run is a record: the graph, the
  telemetry, the budget and the cache of sinks. Operations that ask for a result type are in the option
  type: \<open>None\<close> is a type computation that does not end.
\<close>

section \<open>State\<close>

record budget =
  b_limit :: nat
  b_used :: nat
  b_exceeded :: bool

definition charge :: "budget \<Rightarrow> budget \<times> bool" where
  "charge b =
     (if b_exceeded b \<or> b_used b \<ge> b_limit b then (b\<lparr>b_exceeded := True\<rparr>, False)
      else (b\<lparr>b_used := b_used b + 1\<rparr>, True))"

record telemetry =
  t_rewrites :: nat
  t_removals :: nat
  t_folds :: nat
  t_gvnDedups :: nat
  t_sccpConstants :: nat
  t_rounds :: nat
  t_budgetOverruns :: nat
  t_peaScalarized :: nat
  t_peaMaterialized :: nat
  t_peaRejected :: nat
  t_converged :: bool

definition newTelemetry :: telemetry where
  "newTelemetry = \<lparr>t_rewrites = 0, t_removals = 0, t_folds = 0, t_gvnDedups = 0, t_sccpConstants = 0, t_rounds = 0,
     t_budgetOverruns = 0, t_peaScalarized = 0, t_peaMaterialized = 0, t_peaRejected = 0, t_converged = True\<rparr>"

record junk =
  jk_ifSink :: node_id
  jk_switchSink :: node_id
  jk_callSink :: node_id
  jk_fsSink :: node_id
  jk_constI :: node_id
  jk_constL :: node_id
  jk_constF :: node_id
  jk_constD :: node_id
  jk_constNull :: node_id
  jk_regionSinks :: "node_id list"

definition newJunk :: junk where
  "newJunk = \<lparr>jk_ifSink = kInvalidNodeId, jk_switchSink = kInvalidNodeId, jk_callSink = kInvalidNodeId,
     jk_fsSink = kInvalidNodeId, jk_constI = kInvalidNodeId, jk_constL = kInvalidNodeId, jk_constF = kInvalidNodeId,
     jk_constD = kInvalidNodeId, jk_constNull = kInvalidNodeId, jk_regionSinks = []\<rparr>"

record pass_state =
  ps_g :: graph
  ps_t :: telemetry
  ps_b :: budget
  ps_jk :: junk

section \<open>Junk sinks\<close>

text \<open>A call on the graph of the state.\<close>

definition onGraph :: "(graph \<Rightarrow> graph \<times> 'a) \<Rightarrow> pass_state \<Rightarrow> pass_state \<times> 'a" where
  "onGraph f st = (let (g, r) = f (ps_g st) in (st\<lparr>ps_g := g\<rparr>, r))"

definition makeFsSink :: "graph \<Rightarrow> graph \<times> node_id" where
  "makeFsSink g = makeFrameState 0 0 [] kInvalidFrameState [] g"

text \<open>A cached sink is kept while it is set and alive.\<close>

definition missing :: "pass_state \<Rightarrow> node_id \<Rightarrow> bool" where
  "missing st n \<longleftrightarrow> n = kInvalidNodeId \<or> isDead (node_at (ps_g st) n)"

definition branchSink :: "node_kind \<Rightarrow> graph \<Rightarrow> graph \<times> node_id" where
  "branchSink k g = (let (g1, c) = constantI 0 g in Ir_Graph.make k [startNode g, c] 0 0 g1)"

definition callSinkMake :: "graph \<Rightarrow> graph \<times> node_id" where
  "callSinkMake g =
     (let (g1, fs) = makeFsSink g;
          (g2, c) = Ir_Graph.make Nk_CallStatic [startNode g1, startNode g1] 0 (irCode IT_Bottom) g1
      in (appendInput c fs g2, c))"

definition parentSink :: "node_kind \<Rightarrow> pass_state \<Rightarrow> pass_state \<times> node_id" where
  "parentSink k st =
     (if k = Nk_IfTrue \<or> k = Nk_IfFalse then
        (if missing st (jk_ifSink (ps_jk st)) then
           let (st1, n) = onGraph (branchSink Nk_If) st in (st1\<lparr>ps_jk := (ps_jk st1)\<lparr>jk_ifSink := n\<rparr>\<rparr>, n)
         else (st, jk_ifSink (ps_jk st)))
      else if k = Nk_SwitchCase \<or> k = Nk_SwitchDefault then
        (if missing st (jk_switchSink (ps_jk st)) then
           let (st1, n) = onGraph (branchSink Nk_Switch) st in (st1\<lparr>ps_jk := (ps_jk st1)\<lparr>jk_switchSink := n\<rparr>\<rparr>, n)
         else (st, jk_switchSink (ps_jk st)))
      else if k = Nk_CallExcept then
        (if missing st (jk_callSink (ps_jk st)) then
           let (st1, n) = onGraph callSinkMake st in (st1\<lparr>ps_jk := (ps_jk st1)\<lparr>jk_callSink := n\<rparr>\<rparr>, n)
         else (st, jk_callSink (ps_jk st)))
      else (st, startNode (ps_g st)))"

definition fsSinkGet :: "pass_state \<Rightarrow> pass_state \<times> node_id" where
  "fsSinkGet st =
     (if missing st (jk_fsSink (ps_jk st)) then
        let (st1, n) = onGraph makeFsSink st in (st1\<lparr>ps_jk := (ps_jk st1)\<lparr>jk_fsSink := n\<rparr>\<rparr>, n)
      else (st, jk_fsSink (ps_jk st)))"

definition dataSink :: "nat \<Rightarrow> pass_state \<Rightarrow> pass_state \<times> node_id" where
  "dataSink t st =
     (if t = irCode IT_Int then
        (if missing st (jk_constI (ps_jk st)) then
           let (st1, n) = onGraph (constantI 0) st in (st1\<lparr>ps_jk := (ps_jk st1)\<lparr>jk_constI := n\<rparr>\<rparr>, n)
         else (st, jk_constI (ps_jk st)))
      else if t = irCode IT_Long then
        (if missing st (jk_constL (ps_jk st)) then
           let (st1, n) = onGraph (constantL 0) st in (st1\<lparr>ps_jk := (ps_jk st1)\<lparr>jk_constL := n\<rparr>\<rparr>, n)
         else (st, jk_constL (ps_jk st)))
      else if t = irCode IT_Float then
        (if missing st (jk_constF (ps_jk st)) then
           let (st1, n) = onGraph (constantF 0) st in (st1\<lparr>ps_jk := (ps_jk st1)\<lparr>jk_constF := n\<rparr>\<rparr>, n)
         else (st, jk_constF (ps_jk st)))
      else if t = irCode IT_Double then
        (if missing st (jk_constD (ps_jk st)) then
           let (st1, n) = onGraph (constantD 0) st in (st1\<lparr>ps_jk := (ps_jk st1)\<lparr>jk_constD := n\<rparr>\<rparr>, n)
         else (st, jk_constD (ps_jk st)))
      else if t = irCode IT_Null \<or> t = irCode IT_Ref then
        (if missing st (jk_constNull (ps_jk st)) then
           let (st1, n) = onGraph constantNull st in (st1\<lparr>ps_jk := (ps_jk st1)\<lparr>jk_constNull := n\<rparr>\<rparr>, n)
         else (st, jk_constNull (ps_jk st)))
      else if t = irCode IT_Bottom then (st, startNode (ps_g st))
      else (st, kInvalidNodeId))"

text \<open>The loop of \<open>regionSink\<close>: as many new regions as the cache is short of.\<close>

definition pushRegionSink :: "pass_state \<Rightarrow> pass_state" where
  "pushRegionSink st =
     (let n = u16 (length (jk_regionSinks (ps_jk st)) + 2);
          (st1, r) = onGraph (Ir_Graph.make Nk_Region (replicate n (startNode (ps_g st))) 0 0) st
      in st1\<lparr>ps_jk := (ps_jk st1)\<lparr>jk_regionSinks := jk_regionSinks (ps_jk st1) @ [r]\<rparr>\<rparr>)"

definition regionSink :: "nat \<Rightarrow> pass_state \<Rightarrow> pass_state \<times> node_id" where
  "regionSink preds0 st =
     (let preds = (if preds0 < 2 then 2 else preds0);
          st1 = (pushRegionSink ^^ (preds - 1 - length (jk_regionSinks (ps_jk st)))) st
      in (st1, jk_regionSinks (ps_jk st1) ! (preds - 2)))"

definition isJunkSink :: "junk \<Rightarrow> node_id \<Rightarrow> bool" where
  "isJunkSink jk n \<longleftrightarrow> n = jk_ifSink jk \<or> n = jk_switchSink jk \<or> n = jk_callSink jk \<or> n = jk_fsSink jk \<or> n = jk_constI jk
     \<or> n = jk_constL jk \<or> n = jk_constF jk \<or> n = jk_constD jk \<or> n = jk_constNull jk \<or> n \<in> set (jk_regionSinks jk)"

section \<open>Predicates from the registry\<close>

definition roleOfSlot :: "graph \<Rightarrow> node_id \<Rightarrow> nat \<Rightarrow> input_role" where
  "roleOfSlot g n slot =
     (let nd = node_at g n; row = info_ir (nd_kind nd) in
      if slot \<ge> nd_numInputs nd then IR_None
      else if ni_hasFrameState row \<and> slot + 1 = nd_numInputs nd then IR_FrameState
      else if slot < ni_numFixed row then (if slot < 6 then ni_roles row ! slot else IR_None)
      else if ni_variadic row then ni_variadicRole row
      else IR_None)"

definition consumesControl :: "node_kind \<Rightarrow> bool" where
  "consumesControl k =
     (let row = info_ir k in
      (\<exists>i \<in> set [0..<min (ni_numFixed row) 6]. ni_roles row ! i = IR_Ctrl \<or> ni_roles row ! i = IR_Parent)
      \<or> (ni_variadic row \<and> ni_variadicRole row = IR_Ctrl))"

definition isTerminator :: "node_kind \<Rightarrow> bool" where
  "isTerminator k \<longleftrightarrow> k = Nk_Return \<or> k = Nk_Unwind \<or> k = Nk_Deopt \<or> k = Nk_End"

definition isNeverNullNode :: "graph \<Rightarrow> node_id \<Rightarrow> bool" where
  "isNeverNullNode g n =
     (let nd = node_at g n; k = nd_kind nd in
      if isDead nd then False
      else if flagsHas (nd_flags nd) F_NeverNull then True
      else k = Nk_New \<or> k = Nk_NewArray \<or> k = Nk_NewRefArray \<or> k = Nk_NewMultiArray \<or> k = Nk_Materialize
        \<or> k = Nk_ConstantSym)"

definition useCount :: "graph \<Rightarrow> node_id \<Rightarrow> nat" where
  "useCount g n = u32 (length (usesOf g n))"

definition liveUseCount :: "graph \<Rightarrow> node_id \<Rightarrow> nat" where
  "liveUseCount g n = u32 (length (filter (\<lambda>u. \<not> isDead (node_at g (u_user u))) (usesOf g n)))"

definition isPureValueKind :: "node_kind \<Rightarrow> bool" where
  "isPureValueKind k \<longleftrightarrow> ni_cls (info_ir k) = NC_Value \<and> ni_effect (info_ir k) = EK_Pure"

definition isDceSafe :: "node_kind \<Rightarrow> bool" where
  "isDceSafe k =
     (if k = Nk_FrameState then True
      else if k = Nk_ArrayLength \<or> k = Nk_InstanceOf then True
      else if \<not> isPureValueKind k then False
      else if k = Nk_DivI \<or> k = Nk_RemI \<or> k = Nk_DivL \<or> k = Nk_RemL then False
      else if k = Nk_VirtualObjectState then False
      else True)"

definition isGvnEligible :: "node_kind \<Rightarrow> bool" where
  "isGvnEligible k =
     (if k = Nk_Phi \<or> k = Nk_ArrayLength \<or> k = Nk_InstanceOf \<or> k = Nk_LoadField \<or> k = Nk_LoadStatic \<or> k = Nk_LoadElem
      then True
      else if \<not> isPureValueKind k then False
      else if k = Nk_Undef \<or> k = Nk_VirtualObjectState then False
      else True)"

section \<open>Junk edges, replacement and kill\<close>

definition junkForSlot :: "node_id \<Rightarrow> nat \<Rightarrow> pass_state \<Rightarrow> (pass_state \<times> node_id) option" where
  "junkForSlot n slot st =
     (let g = ps_g st; nd = node_at g n in
      if slot \<ge> nd_numInputs nd then Some (st, kInvalidNodeId)
      else if nd_kind nd = Nk_Phi \<and> slot = 0 then
        (let vals = nd_numInputs nd - 1 in Some (regionSink (if vals < 2 then 2 else vals) st))
      else case roleOfSlot g n slot of
          IR_Ctrl \<Rightarrow> Some (st, startNode g)
        | IR_Parent \<Rightarrow> Some (parentSink (nd_kind nd) st)
        | IR_Mem \<Rightarrow> Some (st, startNode g)
        | IR_FrameState \<Rightarrow> Some (fsSinkGet st)
        | _ \<Rightarrow> map_option (\<lambda>t. dataSink t st) (resultTypeOf g (input g n slot)))"

definition updGraph :: "(graph \<Rightarrow> graph) \<Rightarrow> pass_state \<Rightarrow> pass_state" where
  "updGraph f st = st\<lparr>ps_g := f (ps_g st)\<rparr>"

definition padPhi :: "node_id \<Rightarrow> pass_state \<Rightarrow> pass_state option" where
  "padPhi n st =
     (if nd_kind (node_at (ps_g st) n) = Nk_Phi \<and> numInputs (ps_g st) n = 2 then
        do { t \<leftarrow> resultTypeOf (ps_g st) (input (ps_g st) n 1);
             let (st1, pad) = dataSink (if t = irCode IT_Bottom then irCode IT_Int else t) st;
             Some (if pad \<noteq> kInvalidNodeId then updGraph (appendInput n pad) st1 else st1) }
      else Some st)"

definition junkSlot :: "node_id \<Rightarrow> nat \<Rightarrow> pass_state \<Rightarrow> pass_state option" where
  "junkSlot n s st =
     (let cur = input (ps_g st) n s in
      if cur = startNode (ps_g st) \<or> cur = n then Some st
      else do { (st1, sink) \<leftarrow> junkForSlot n s st;
                Some (if sink = kInvalidNodeId \<or> sink = cur then st1 else updGraph (setInput n s sink) st1) })"

fun junkSlots :: "node_id \<Rightarrow> nat list \<Rightarrow> pass_state \<Rightarrow> pass_state option" where
  "junkSlots n [] st = Some st"
| "junkSlots n (s # ss) st = Option.bind (junkSlot n s st) (junkSlots n ss)"

definition junkEdges :: "node_id \<Rightarrow> pass_state \<Rightarrow> pass_state option" where
  "junkEdges n st = do { st1 \<leftarrow> padPhi n st; junkSlots n [0..<numInputs (ps_g st1) n] st1 }"

definition chargeState :: "pass_state \<Rightarrow> pass_state \<times> bool" where
  "chargeState st = (let (b, ok) = charge (ps_b st) in (st\<lparr>ps_b := b\<rparr>, ok))"

definition replace :: "node_id \<Rightarrow> node_id \<Rightarrow> pass_state \<Rightarrow> pass_state option" where
  "replace oldNode withNode st =
     (let (st1, ok) = chargeState st in
      if \<not> ok then Some st1
      else let (st2, e) = onGraph (replaceNode oldNode withNode) st1 in
        if e \<noteq> 0 then junkEdges oldNode (st2\<lparr>ps_t := (ps_t st2)\<lparr>t_rewrites := u32 (t_rewrites (ps_t st2) + 1)\<rparr>\<rparr>)
        else Some st2)"

definition hasLiveUser :: "graph \<Rightarrow> node_id \<Rightarrow> bool" where
  "hasLiveUser g n \<longleftrightarrow> (\<exists>u \<in> set (usesOf g n). u_user u < nodeCount g \<and> \<not> isDead (node_at g (u_user u)))"

definition junkUser :: "node_id \<Rightarrow> use \<Rightarrow> pass_state \<Rightarrow> pass_state option" where
  "junkUser n u st =
     (let g = ps_g st in
      if u_user u \<ge> nodeCount g \<or> u_slot u \<ge> numInputs g (u_user u) then Some st
      else if input g (u_user u) (u_slot u) \<noteq> n then Some st
      else do { (st1, sink) \<leftarrow> junkForSlot (u_user u) (u_slot u) st;
                Some (if sink \<noteq> kInvalidNodeId then updGraph (setInput (u_user u) (u_slot u) sink) st1 else st1) })"

fun junkUsers :: "node_id \<Rightarrow> use list \<Rightarrow> pass_state \<Rightarrow> pass_state option" where
  "junkUsers n [] st = Some st"
| "junkUsers n (u # us) st = Option.bind (junkUser n u st) (junkUsers n us)"

definition kill :: "node_id \<Rightarrow> pass_state \<Rightarrow> (pass_state \<times> bool) option" where
  "kill n st =
     (if n \<ge> nodeCount (ps_g st) \<or> isDead (node_at (ps_g st) n) then Some (st, True)
      else let (st1, ok) = chargeState st in
        if \<not> ok then Some (st1, False)
        else if hasLiveUser (ps_g st1) n then Some (st1, False)
        else do { st2 \<leftarrow> junkUsers n (usesOf (ps_g st1) n) st1;
                  st3 \<leftarrow> junkEdges n st2;
                  let st4 = updGraph (killNode n) st3;
                  Some (st4\<lparr>ps_t := (ps_t st4)\<lparr>t_removals := u32 (t_removals (ps_t st4) + 1)\<rparr>\<rparr>, True) })"

end
