(* ===== verification/Pass_Simplify.thy ===== *)
theory Pass_Simplify
  imports Pass_Support
begin

unbundle bit_operations_syntax

text \<open>
  The simplify engine (\<open>compiler/passes/src/Simplify.cpp\<close>), dead code elimination (\<open>DCE.cpp\<close>) and global
  value numbering (\<open>GVN.cpp\<close>). A rewrite rule takes the graph and returns the graph, possibly with new
  nodes, and the replacement. The sweeps run over a node count that grows while they run; they are
  partial functions.
\<close>

section \<open>Rewrite rules\<close>

type_synonym rewrite = "(graph \<times> node_id) option"

definition orElse :: "'a option \<Rightarrow> 'a option \<Rightarrow> 'a option" where
  "orElse a b = (case a of Some x \<Rightarrow> Some x | None \<Rightarrow> b)"

definition foldUnary :: "fpu \<Rightarrow> node_kind \<Rightarrow> const_val \<Rightarrow> graph \<Rightarrow> rewrite" where
  "foldUnary u k a g =
     (if \<not> isConst a then None
      else case evalUnaryOp u k a of Some r \<Rightarrow> Some (makeConstNode r g) | None \<Rightarrow> None)"

definition foldValueFacts :: "node_kind \<Rightarrow> node_id \<Rightarrow> graph \<Rightarrow> rewrite" where
  "foldValueFacts k n g =
     (if k = Nk_IsNull then
        (let x = input g n 0 in
         if constOf g x = CV_Null then Some (constantI 1 g)
         else if isNeverNullNode g x then Some (constantI 0 g)
         else None)
      else if k = Nk_RefEq then
        (let a = input g n 0; b = input g n 1; ca = constOf g a; cb = constOf g b in
         if a = b then Some (constantI 1 g)
         else if ca = CV_Null \<and> cb = CV_Null then Some (constantI 1 g)
         else if (ca = CV_Null \<and> isNeverNullNode g b) \<or> (cb = CV_Null \<and> isNeverNullNode g a) then Some (constantI 0 g)
         else None)
      else if k = Nk_InstanceOf then
        (if constOf g (input g n 0) = CV_Null then Some (constantI 0 g) else None)
      else None)"

definition zeroNode :: "bool \<Rightarrow> graph \<Rightarrow> graph \<times> node_id" where
  "zeroNode isLong g = (if isLong then constantL 0 g else constantI 0 g)"

text \<open>\<open>isI\<close> and \<open>valOf\<close> of \<open>tryIdentity\<close>: the operand is a constant of the operation's width with this value.\<close>

definition constIs :: "bool \<Rightarrow> node \<Rightarrow> 64 word \<Rightarrow> bool" where
  "constIs isLong nd v \<longleftrightarrow> nd_kind nd = (if isLong then Nk_ConstantL else Nk_ConstantI)
     \<and> (if isLong then nd_constValue nd else scast (ucast (nd_constValue nd) :: 32 word)) = v"

definition selfIdentity :: "node_kind \<Rightarrow> node_id \<Rightarrow> bool \<Rightarrow> graph \<Rightarrow> rewrite" where
  "selfIdentity k a isLong g =
     (if k = Nk_SubI \<or> k = Nk_SubL then Some (zeroNode isLong g)
      else if k = Nk_AndI \<or> k = Nk_AndL \<or> k = Nk_OrI \<or> k = Nk_OrL then Some (g, a)
      else if k = Nk_XorI \<or> k = Nk_XorL then Some (zeroNode isLong g)
      else if k = Nk_CmpI \<or> k = Nk_CmpL then Some (constantI 0 g)
      else if k = Nk_EqI \<or> k = Nk_LeI \<or> k = Nk_GeI then Some (constantI 1 g)
      else if k = Nk_NeI \<or> k = Nk_LtI \<or> k = Nk_GtI then Some (constantI 0 g)
      else None)"

definition constIdentity :: "node_kind \<Rightarrow> node_id \<Rightarrow> node_id \<Rightarrow> bool \<Rightarrow> graph \<Rightarrow> rewrite" where
  "constIdentity k a b isLong g =
     (let ca = constIs isLong (node_at g a); cb = constIs isLong (node_at g b) in
      if k = Nk_AddI \<or> k = Nk_AddL then
        (if ca 0 then Some (g, b) else if cb 0 then Some (g, a) else None)
      else if k = Nk_SubI \<or> k = Nk_SubL then (if cb 0 then Some (g, a) else None)
      else if k = Nk_MulI \<or> k = Nk_MulL then
        (if ca 1 then Some (g, b) else if cb 1 then Some (g, a)
         else if ca 0 \<or> cb 0 then Some (zeroNode isLong g) else None)
      else if k = Nk_AndI \<or> k = Nk_AndL then
        (if ca (-1) then Some (g, b) else if cb (-1) then Some (g, a)
         else if ca 0 \<or> cb 0 then Some (zeroNode isLong g) else None)
      else if k = Nk_OrI \<or> k = Nk_OrL then
        (if ca 0 then Some (g, b) else if cb 0 then Some (g, a)
         else if ca (-1) \<or> cb (-1) then Some (if isLong then constantL (-1) g else constantI (-1) g) else None)
      else if k = Nk_XorI \<or> k = Nk_XorL then
        (if ca 0 then Some (g, b) else if cb 0 then Some (g, a) else None)
      else if k = Nk_ShlI \<or> k = Nk_ShrI \<or> k = Nk_UShrI \<or> k = Nk_ShlL \<or> k = Nk_ShrL \<or> k = Nk_UShrL then
        (if nd_kind (node_at g b) = Nk_ConstantI \<and> (ucast (nd_constValue (node_at g b)) :: 32 word) = 0
         then Some (g, a) else None)
      else if k = Nk_DivI \<or> k = Nk_DivL then (if cb 1 then Some (g, a) else None)
      else if k = Nk_RemI \<or> k = Nk_RemL then (if cb 1 then Some (zeroNode isLong g) else None)
      else None)"

definition tryIdentity :: "node_kind \<Rightarrow> node_id \<Rightarrow> bool \<Rightarrow> graph \<Rightarrow> rewrite" where
  "tryIdentity k n isLong g =
     (let a = input g n 0; b = input g n 1 in
      orElse (if a = b then selfIdentity k a isLong g else None) (constIdentity k a b isLong g))"

definition tryDoubleNeg :: "node_kind \<Rightarrow> node_id \<Rightarrow> graph \<Rightarrow> rewrite" where
  "tryDoubleNeg k n g =
     (if \<not> (k = Nk_NegI \<or> k = Nk_NegL \<or> k = Nk_NegF \<or> k = Nk_NegD) then None
      else let inner = input g n 0; ni = node_at g inner in
        if isDead ni \<or> nd_kind ni \<noteq> k then None else Some (g, input g inner 0))"

definition tryConversionIdentity :: "node_kind \<Rightarrow> node_id \<Rightarrow> graph \<Rightarrow> rewrite" where
  "tryConversionIdentity k n g =
     (let inner = input g n 0; ni = node_at g inner in
      if isDead ni then None
      else if k = Nk_L2I then (if nd_kind ni = Nk_I2L then Some (g, input g inner 0) else None)
      else if k = Nk_I2B \<or> k = Nk_I2C \<or> k = Nk_I2S then (if nd_kind ni = k then Some (g, inner) else None)
      else None)"

definition isTestKind :: "node_kind \<Rightarrow> bool" where
  "isTestKind k \<longleftrightarrow> k = Nk_EqI \<or> k = Nk_NeI \<or> k = Nk_LtI \<or> k = Nk_LeI \<or> k = Nk_GtI \<or> k = Nk_GeI \<or> k = Nk_IsNull
     \<or> k = Nk_RefEq"

definition tryNotNot :: "node_kind \<Rightarrow> node_id \<Rightarrow> graph \<Rightarrow> rewrite" where
  "tryNotNot k n g =
     (if k \<noteq> Nk_Not then None
      else let inner = input g n 0; ni = node_at g inner in
        if isDead ni \<or> nd_kind ni \<noteq> Nk_Not then None
        else let inner2 = input g inner 0 in
          if isTestKind (nd_kind (node_at g inner2)) then Some (g, inner2) else None)"

definition countrZero :: "64 word \<Rightarrow> nat" where
  "countrZero w = length (takeWhile (\<lambda>i. \<not> bit w i) [0..<64])"

text \<open>One side of \<open>tryStrength\<close>: the constant operand and the other one.\<close>

definition strengthSide :: "bool \<Rightarrow> node_id \<Rightarrow> node_id \<Rightarrow> graph \<Rightarrow> rewrite" where
  "strengthSide isMulI c x g =
     (let nd = node_at g c;
          raw = (if isMulI then ucast (ucast (nd_constValue nd) :: 32 word) else nd_constValue nd :: 64 word) in
      if nd_kind nd \<noteq> (if isMulI then Nk_ConstantI else Nk_ConstantL) then None
      else if raw > 1 \<and> raw AND (raw - 1) = 0 then
        (let (g1, shiftK) = constantI (word_of_nat (countrZero raw)) g
         in Some (Ir_Graph.make (if isMulI then Nk_ShlI else Nk_ShlL) [x, shiftK] 0 0 g1))
      else None)"

definition tryStrength :: "node_kind \<Rightarrow> node_id \<Rightarrow> graph \<Rightarrow> rewrite" where
  "tryStrength k n g =
     (if k \<noteq> Nk_MulI \<and> k \<noteq> Nk_MulL then None
      else let a = input g n 0; b = input g n 1 in
        orElse (strengthSide (k = Nk_MulI) a b g) (strengthSide (k = Nk_MulI) b a g))"

definition isCommutativeInt :: "node_kind \<Rightarrow> bool" where
  "isCommutativeInt k \<longleftrightarrow> k = Nk_AddI \<or> k = Nk_MulI \<or> k = Nk_AndI \<or> k = Nk_OrI \<or> k = Nk_XorI
     \<or> k = Nk_AddL \<or> k = Nk_MulL \<or> k = Nk_AndL \<or> k = Nk_OrL \<or> k = Nk_XorL"

definition complementTest :: "node_kind \<Rightarrow> node_kind option" where
  "complementTest k =
     (if k = Nk_EqI then Some Nk_NeI
      else if k = Nk_NeI then Some Nk_EqI
      else if k = Nk_LtI then Some Nk_GeI
      else if k = Nk_GeI then Some Nk_LtI
      else if k = Nk_LeI then Some Nk_GtI
      else if k = Nk_GtI then Some Nk_LeI
      else None)"

text \<open>The loop of \<open>tryTrivialPhi\<close> over the value inputs; \<open>kInvalidNodeId\<close> stands for none seen yet.\<close>

fun distinctInput :: "node_id \<Rightarrow> node_id list \<Rightarrow> node_id \<Rightarrow> node_id option" where
  "distinctInput n [] d = (if d = kInvalidNodeId then None else Some d)"
| "distinctInput n (v # vs) d =
     (if v = n then distinctInput n vs d
      else if d = kInvalidNodeId then distinctInput n vs v
      else if d \<noteq> v then None
      else distinctInput n vs d)"

definition tryTrivialPhi :: "graph \<Rightarrow> node_id \<Rightarrow> node_id option" where
  "tryTrivialPhi g n =
     (if nd_kind (node_at g n) \<noteq> Nk_Phi \<or> numInputs g n < 1 then None
      else distinctInput n (map (input g n) [1..<numInputs g n]) kInvalidNodeId)"

section \<open>The simplify sweep\<close>

definition kFold :: "32 word" where "kFold = 1"
definition kIdentity :: "32 word" where "kIdentity = 2"
definition kStrength :: "32 word" where "kStrength = 4"
definition kCanonical :: "32 word" where "kCanonical = 8"
definition kTrivialPhi :: "32 word" where "kTrivialPhi = 16"

definition hasClass :: "32 word \<Rightarrow> 32 word \<Rightarrow> bool" where
  "hasClass mk c \<longleftrightarrow> mk AND c \<noteq> 0"

definition foldRule :: "fpu \<Rightarrow> node_id \<Rightarrow> graph \<Rightarrow> rewrite" where
  "foldRule u n g =
     (let k = nd_kind (node_at g n); a = constOf g (input g n 0); b = constOf g (input g n 1) in
      orElse
        (if numInputs g n = 2 \<and> isConst a \<and> isConst b
         then (case evalBinOp u k a b of Some r \<Rightarrow> Some (makeConstNode r g) | None \<Rightarrow> None) else None)
        (orElse (if numInputs g n = 1 then foldUnary u k a g else None) (foldValueFacts k n g)))"

definition isLongKind :: "node_kind \<Rightarrow> bool" where
  "isLongKind k \<longleftrightarrow> k = Nk_AddL \<or> k = Nk_SubL \<or> k = Nk_MulL \<or> k = Nk_AndL \<or> k = Nk_OrL \<or> k = Nk_XorL \<or> k = Nk_DivL
     \<or> k = Nk_RemL"

definition identityRule :: "node_id \<Rightarrow> graph \<Rightarrow> rewrite" where
  "identityRule n g =
     (let k = nd_kind (node_at g n) in
      orElse (if numInputs g n = 2 then tryIdentity k n (isLongKind k) g else None)
        (orElse (tryDoubleNeg k n g) (orElse (tryConversionIdentity k n g) (tryNotNot k n g))))"

definition complementRule :: "node_id \<Rightarrow> graph \<Rightarrow> rewrite" where
  "complementRule n g =
     (let k = nd_kind (node_at g n); inner = input g n 0; ni = node_at g inner in
      if numInputs g n = 2 \<and> isCommutativeInt k then None
      else if k = Nk_Not \<and> numInputs g n = 1 \<and> \<not> isDead ni \<and> nd_numInputs ni = 2 then
        (case complementTest (nd_kind ni) of
           Some ck \<Rightarrow> Some (Ir_Graph.make ck [input g inner 0, input g inner 1] 0 0 g)
         | None \<Rightarrow> None)
      else None)"

definition isIntConstKind :: "node_kind \<Rightarrow> bool" where
  "isIntConstKind k \<longleftrightarrow> k = Nk_ConstantI \<or> k = Nk_ConstantL"

definition swapWanted :: "node_id \<Rightarrow> graph \<Rightarrow> bool" where
  "swapWanted n g \<longleftrightarrow> numInputs g n = 2 \<and> isCommutativeInt (nd_kind (node_at g n))
     \<and> isIntConstKind (nd_kind (node_at g (input g n 0)))
     \<and> \<not> isIntConstKind (nd_kind (node_at g (input g n 1))) \<and> \<not> isDead (node_at g (input g n 1))"

definition simplifyRule :: "fpu \<Rightarrow> 32 word \<Rightarrow> node_id \<Rightarrow> graph \<Rightarrow> rewrite" where
  "simplifyRule u mk n g =
     orElse (if hasClass mk kTrivialPhi then map_option (Pair g) (tryTrivialPhi g n) else None)
       (orElse (if hasClass mk kFold then foldRule u n g else None)
         (orElse (if hasClass mk kIdentity then identityRule n g else None)
           (orElse (if hasClass mk kStrength then tryStrength (nd_kind (node_at g n)) n g else None)
             (if hasClass mk kCanonical then complementRule n g else None))))"

definition swapInputs :: "node_id \<Rightarrow> graph \<Rightarrow> graph" where
  "swapInputs n g = setInput n 1 (input g n 0) (setInput n 0 (input g n 1) g)"

definition countFold :: "pass_state \<Rightarrow> pass_state" where
  "countFold st = st\<lparr>ps_t := (ps_t st)\<lparr>t_folds := u32 (t_folds (ps_t st) + 1)\<rparr>\<rparr>"

text \<open>The body of the loop: the new state and whether it changed the graph.\<close>

definition simplifyNode :: "fpu \<Rightarrow> 32 word \<Rightarrow> node_id \<Rightarrow> pass_state \<Rightarrow> (pass_state \<times> bool) option" where
  "simplifyNode u mk n st =
     (let g = ps_g st in
      if isDead (node_at g n) then Some (st, False)
      else case simplifyRule u mk n g of
          Some (g1, rep) \<Rightarrow>
            (let st1 = st\<lparr>ps_g := g1\<rparr> in
             if rep = n \<or> (rep < nodeCount g1 \<and> isDead (node_at g1 rep)) then Some (st1, False)
             else do { st2 \<leftarrow> replace n rep st1;
                       Some (if t_rewrites (ps_t st2) \<noteq> t_rewrites (ps_t st1) then (countFold st2, True)
                             else (st2, False)) })
        | None \<Rightarrow>
            if hasClass mk kCanonical \<and> swapWanted n g then
              (let st1 = countFold (updGraph (swapInputs n) st)
               in Some (st1\<lparr>ps_t := (ps_t st1)\<lparr>t_rewrites := u32 (t_rewrites (ps_t st1) + 1)\<rparr>\<rparr>, True))
            else Some (st, False))"

partial_function (option) simplifyLoop ::
  "fpu \<Rightarrow> 32 word \<Rightarrow> node_id \<Rightarrow> bool \<Rightarrow> pass_state \<Rightarrow> (pass_state \<times> bool) option" where
  "simplifyLoop u mk n changed st =
     (if n < nodeCount (ps_g st) \<and> \<not> b_exceeded (ps_b st)
      then Option.bind (simplifyNode u mk n st) (\<lambda>r. simplifyLoop u mk (n + 1) (changed \<or> snd r) (fst r))
      else Some (st, changed))"

declare simplifyLoop.simps [code]

definition kMaxSimplifySweeps :: nat where "kMaxSimplifySweeps = 8"

fun simplifySweeps :: "fpu \<Rightarrow> 32 word \<Rightarrow> nat \<Rightarrow> pass_state \<Rightarrow> pass_state option" where
  "simplifySweeps u mk 0 st = Some st"
| "simplifySweeps u mk (Suc k) st =
     do { (st1, changed) \<leftarrow> simplifyLoop u mk 0 False st; if changed then simplifySweeps u mk k st1 else Some st1 }"

definition runSimplify :: "fpu \<Rightarrow> 32 word \<Rightarrow> pass_state \<Rightarrow> pass_state option" where
  "runSimplify u mk st = simplifySweeps u mk kMaxSimplifySweeps st"

section \<open>Dead code elimination\<close>

definition isCallerChained :: "graph \<Rightarrow> nat \<Rightarrow> bool" where
  "isCallerChained g descId \<longleftrightarrow> (\<exists>i \<in> set [0..<frameStateCount g]. fs_caller (frameState g i) = descId)"

definition dceNode :: "node_id \<Rightarrow> pass_state \<Rightarrow> (pass_state \<times> bool) option" where
  "dceNode n st =
     (let g = ps_g st; nd = node_at g n in
      if isDead nd \<or> \<not> isDceSafe (nd_kind nd) then Some (st, False)
      else if n = startNode g then Some (st, False)
      else if nd_kind nd = Nk_FrameState \<and> isCallerChained g (nd_payload nd) then Some (st, False)
      else if useCount g n = 0 then kill n st
      else Some (st, False))"

partial_function (option) dceLoop :: "node_id \<Rightarrow> bool \<Rightarrow> pass_state \<Rightarrow> (pass_state \<times> bool) option" where
  "dceLoop n changed st =
     (if n < nodeCount (ps_g st) \<and> \<not> b_exceeded (ps_b st)
      then Option.bind (dceNode n st) (\<lambda>r. dceLoop (n + 1) (changed \<or> snd r) (fst r))
      else Some (st, changed))"

declare dceLoop.simps [code]

definition kMaxDceSweeps :: nat where "kMaxDceSweeps = 64"

fun dceSweeps :: "nat \<Rightarrow> pass_state \<Rightarrow> pass_state option" where
  "dceSweeps 0 st = Some st"
| "dceSweeps (Suc k) st =
     do { (st1, changed) \<leftarrow> dceLoop 0 False st; if changed then dceSweeps k st1 else Some st1 }"

definition runDCE :: "pass_state \<Rightarrow> pass_state option" where
  "runDCE st = dceSweeps kMaxDceSweeps st"

section \<open>Global value numbering\<close>

record gvn_key =
  key_kind :: node_kind
  key_payload :: nat
  key_payload2 :: nat
  key_constValue :: "64 word"
  key_inputs :: "node_id list"

definition keyOf :: "graph \<Rightarrow> node_id \<Rightarrow> gvn_key" where
  "keyOf g n =
     (let nd = node_at g n in
      \<lparr>key_kind = nd_kind nd, key_payload = nd_payload nd, key_payload2 = nd_payload2 nd,
       key_constValue = nd_constValue nd, key_inputs = map (input g n) [0..<nd_numInputs nd]\<rparr>)"

text \<open>The hash map is only probed, so it is an association list.\<close>

type_synonym gvn_seen = "(gvn_key \<times> node_id) list"

definition gvnNode :: "node_id \<Rightarrow> gvn_seen \<Rightarrow> pass_state \<Rightarrow> (gvn_seen \<times> pass_state) option" where
  "gvnNode n seen st =
     (let g = ps_g st; nd = node_at g n in
      if isDead nd \<or> \<not> isGvnEligible (nd_kind nd) then Some (seen, st)
      else case map_of seen (keyOf g n) of
          None \<Rightarrow> Some ((keyOf g n, n) # seen, st)
        | Some survivor \<Rightarrow>
            if survivor = n \<or> isDead (node_at g survivor) then Some (seen, st)
            else do { st1 \<leftarrow> replace n survivor st;
                      Some (seen, if t_rewrites (ps_t st1) \<noteq> t_rewrites (ps_t st)
                                  then st1\<lparr>ps_t := (ps_t st1)\<lparr>t_gvnDedups := u32 (t_gvnDedups (ps_t st1) + 1)\<rparr>\<rparr>
                                  else st1) })"

partial_function (option) gvnLoop :: "node_id \<Rightarrow> gvn_seen \<Rightarrow> pass_state \<Rightarrow> pass_state option" where
  "gvnLoop n seen st =
     (if n < nodeCount (ps_g st) \<and> \<not> b_exceeded (ps_b st)
      then Option.bind (gvnNode n seen st) (\<lambda>r. gvnLoop (n + 1) (fst r) (snd r))
      else Some st)"

declare gvnLoop.simps [code]

definition runGVN :: "pass_state \<Rightarrow> pass_state option" where
  "runGVN st = gvnLoop 0 [] st"

end
