(* ===== verification/Ir_OperandType.thy ===== *)
theory Ir_OperandType
  imports Ir_ResultType
begin

text \<open>
  The operand types of arithmetic, comparisons and conversions, as the verifier of the IR asks for
  them (\<open>compiler/ir/core/Verifier.cpp\<close>) and the passes rely on them.
\<close>

definition binaryOperandTypes :: "node_kind \<Rightarrow> (irtype \<times> irtype) option" where
  "binaryOperandTypes k =
     (if k \<in> {Nk_AddI, Nk_SubI, Nk_MulI, Nk_DivI, Nk_RemI, Nk_ShlI, Nk_ShrI, Nk_UShrI, Nk_AndI, Nk_OrI, Nk_XorI, Nk_CmpI,
        Nk_EqI, Nk_NeI, Nk_LtI, Nk_LeI, Nk_GtI, Nk_GeI} then Some (IT_Int, IT_Int)
      else if k = Nk_RefEq then Some (IT_Ref, IT_Ref)
      else if k \<in> {Nk_AddL, Nk_SubL, Nk_MulL, Nk_DivL, Nk_RemL, Nk_AndL, Nk_OrL, Nk_XorL, Nk_CmpL}
        then Some (IT_Long, IT_Long)
      else if k \<in> {Nk_ShlL, Nk_ShrL, Nk_UShrL} then Some (IT_Long, IT_Int)
      else if k \<in> {Nk_AddF, Nk_SubF, Nk_MulF, Nk_DivF, Nk_RemF, Nk_CmpFl, Nk_CmpFg} then Some (IT_Float, IT_Float)
      else if k \<in> {Nk_AddD, Nk_SubD, Nk_MulD, Nk_DivD, Nk_RemD, Nk_CmpDl, Nk_CmpDg} then Some (IT_Double, IT_Double)
      else None)"

definition unaryOperandType :: "node_kind \<Rightarrow> irtype option" where
  "unaryOperandType k =
     (if k = Nk_NegI then Some IT_Int
      else if k = Nk_Not then Some IT_Int
      else if k = Nk_IsNull then Some IT_Ref
      else if k = Nk_NegL then Some IT_Long
      else if k = Nk_NegF then Some IT_Float
      else if k = Nk_NegD then Some IT_Double
      else if k \<in> {Nk_I2L, Nk_I2F, Nk_I2D, Nk_I2B, Nk_I2C, Nk_I2S, Nk_SignExtend, Nk_ZeroExtend} then Some IT_Int
      else if k \<in> {Nk_L2I, Nk_L2F, Nk_L2D, Nk_Truncate} then Some IT_Long
      else if k \<in> {Nk_F2I, Nk_F2L, Nk_F2D} then Some IT_Float
      else if k \<in> {Nk_D2I, Nk_D2L, Nk_D2F} then Some IT_Double
      else None)"

end
