(* ===== verification/Pass_Meaning.thy ===== *)
theory Pass_Meaning
  imports Pass_Simplify Ir_Replace Ir_OperandType
begin

text \<open>
  What it means for a pass to preserve a graph. The value of a node over a run is a history: what it is
  at every time. A valuation gives every node its history; it is sound for a graph when every live value
  node computes its history from the histories of its inputs, operands have the types the verifier
  asks for, and nodes known not to be null are not. How a node computes is a parameter that agrees with
  the interpreter's kernels; for phis and loads it is any function of the node and the histories of its
  inputs. A pass preserves the meaning when every sound valuation of the old graph extends to one of
  the new graph under which every surviving node reads the same histories as before.
\<close>

section \<open>Operand types\<close>

text \<open>The operand types of the verifier, the reference operand of \<open>InstanceOf\<close>, and the constants, which have
  no operands.\<close>

definition isConstKind :: "node_kind \<Rightarrow> bool" where
  "isConstKind k \<longleftrightarrow> k = Nk_ConstantI \<or> k = Nk_ConstantL \<or> k = Nk_ConstantF \<or> k = Nk_ConstantD \<or> k = Nk_ConstantNull"

definition operandTypes :: "node_kind \<Rightarrow> irtype list option" where
  "operandTypes k =
     (case binaryOperandTypes k of
        Some (a, b) \<Rightarrow> Some [a, b]
      | None \<Rightarrow> (case unaryOperandType k of
          Some a \<Rightarrow> Some [a]
        | None \<Rightarrow> if k = Nk_InstanceOf then Some [IT_Ref] else if isConstKind k then Some [] else None))"

section \<open>Valuations\<close>

datatype 'x ir_val = Java jvalue | State 'x

type_synonym 'x history = "nat \<Rightarrow> 'x ir_val"
type_synonym 'x valuation = "node_id \<Rightarrow> 'x history"
type_synonym node_desc = "node_kind \<times> nat \<times> nat \<times> 64 word"
type_synonym 'x semantics = "node_desc \<Rightarrow> 'x history list \<Rightarrow> 'x history"

definition descOf :: "node \<Rightarrow> node_desc" where
  "descOf nd = (nd_kind nd, nd_payload nd, nd_payload2 nd, nd_constValue nd)"

definition javaModel :: "fpu \<Rightarrow> 'x semantics \<Rightarrow> bool" where
  "javaModel u F \<longleftrightarrow> (\<forall>k p p2 c hs t vs v. map (\<lambda>h. h t) hs = map Java vs \<and> nodeMeaning u k c vs = Some v
     \<longrightarrow> F (k, p, p2, c) hs t = Java v)"

fun ofType :: "'x ir_val \<Rightarrow> irtype \<Rightarrow> bool" where
  "ofType (Java (VInt w)) t \<longleftrightarrow> t = IT_Int"
| "ofType (Java (VLong w)) t \<longleftrightarrow> t = IT_Long"
| "ofType (Java (VFloat w)) t \<longleftrightarrow> t = IT_Float"
| "ofType (Java (VDouble w)) t \<longleftrightarrow> t = IT_Double"
| "ofType (Java VNull) t \<longleftrightarrow> t = IT_Ref"
| "ofType (Java (VRef r)) t \<longleftrightarrow> t = IT_Ref"
| "ofType v t \<longleftrightarrow> False"

lemma ofType_cases:
  "ofType v IT_Int \<longleftrightarrow> (\<exists>w. v = Java (VInt w))" "ofType v IT_Long \<longleftrightarrow> (\<exists>w. v = Java (VLong w))"
  "ofType v IT_Float \<longleftrightarrow> (\<exists>w. v = Java (VFloat w))" "ofType v IT_Double \<longleftrightarrow> (\<exists>w. v = Java (VDouble w))"
  "ofType v IT_Ref \<longleftrightarrow> v = Java VNull \<or> (\<exists>r. v = Java (VRef r))"
  by (cases v; (cases "case v of Java j \<Rightarrow> j | _ \<Rightarrow> VBottom")?; auto)+

definition neverNull :: "node \<Rightarrow> bool" where
  "neverNull nd \<longleftrightarrow> flagsHas (nd_flags nd) F_NeverNull
     \<or> nd_kind nd \<in> {Nk_New, Nk_NewArray, Nk_NewRefArray, Nk_NewMultiArray, Nk_Materialize, Nk_ConstantSym}"

lemma isNeverNullNode_alt: "isNeverNullNode g n \<longleftrightarrow> \<not> isDead (node_at g n) \<and> neverNull (node_at g n)"
  by (auto simp: isNeverNullNode_def neverNull_def Let_def)

text \<open>A node with its input list is sound under a valuation.\<close>

definition nodeSound :: "'x semantics \<Rightarrow> 'x valuation \<Rightarrow> node_id \<Rightarrow> node \<Rightarrow> node_id list \<Rightarrow> bool" where
  "nodeSound F \<rho> n nd ins \<longleftrightarrow> (isGvnEligible (nd_kind nd) \<longrightarrow> \<rho> n = F (descOf nd) (map \<rho> ins))
     \<and> (neverNull nd \<longrightarrow> (\<forall>t. \<rho> n t \<noteq> Java VNull))
     \<and> (\<forall>ts. operandTypes (nd_kind nd) = Some ts \<longrightarrow> (\<forall>t. list_all2 (\<lambda>m ty. ofType (\<rho> m t) ty) ins ts))"

definition liveIn :: "graph \<Rightarrow> node_id \<Rightarrow> bool" where
  "liveIn g n \<longleftrightarrow> n < nodesSize g \<and> \<not> isDead (g_nodes g ! n)"

definition soundVal :: "'x semantics \<Rightarrow> graph \<Rightarrow> 'x valuation \<Rightarrow> bool" where
  "soundVal F g \<rho> \<longleftrightarrow> (\<forall>n. liveIn g n \<longrightarrow> nodeSound F \<rho> n (g_nodes g ! n) (absg g ! n))"

lemma nodeSound_cong:
  assumes "descOf nd' = descOf nd" "nd_flags nd' = nd_flags nd" "\<rho>' n = \<rho> n" "map \<rho>' ins' = map \<rho> ins"
  shows "nodeSound F \<rho>' n nd' ins' \<longleftrightarrow> nodeSound F \<rho> n nd ins"
proof -
  have k: "nd_kind nd' = nd_kind nd" using assms(1) by (simp add: descOf_def)
  have "list_all2 (\<lambda>m ty. ofType (\<rho>' m t) ty) ins' ts \<longleftrightarrow> list_all2 (\<lambda>m ty. ofType (\<rho> m t) ty) ins ts" for t ts
    using arg_cong [OF assms(4), of "\<lambda>hs. list_all2 (\<lambda>h ty. ofType (h t) ty) hs ts"] by (simp add: list_all2_map1)
  then show ?thesis using assms k by (simp add: nodeSound_def neverNull_def)
qed

section \<open>Facts from a sound valuation\<close>

lemma impure_rows:
  "map fst (filter (\<lambda>(k, ni). \<not> (ni_cls ni = NC_Value \<and> ni_effect ni = EK_Pure)) (zip [0..<137] kRegistry)) =
     [0..<39] @ [118, 119, 122, 125, 126]"
  by code_simp

lemma isPureValueKind_iff: "isPureValueKind k \<longleftrightarrow> 39 \<le> k \<and> k \<notin> {118, 119, 122, 125, 126}"
proof (cases "k < 137")
  case True
  let ?P = "\<lambda>(k :: nat, ni). \<not> (ni_cls ni = NC_Value \<and> ni_effect ni = EK_Pure)"
  have z: "x \<in> set (zip [0..<137] kRegistry) \<longleftrightarrow> (\<exists>i < 137. x = (i, kRegistry ! i))" for x
    by (fastforce simp: in_set_conv_nth)
  have "\<not> isPureValueKind k \<longleftrightarrow> k \<in> set (map fst (filter ?P (zip [0..<137] kRegistry)))"
    using True by (force simp: isPureValueKind_def info_ir_def nodeKindCount_def z)
  then show ?thesis unfolding impure_rows by auto
next
  case False
  then show ?thesis by (simp add: isPureValueKind_def info_ir_def nodeKindCount_def kBadNodeInfo_def makeRow_def)
qed

lemma operandTypes_eligible:
  assumes "operandTypes k = Some ts"
  shows "isGvnEligible k"
proof -
  note d = operandTypes_def binaryOperandTypes_def unaryOperandType_def isConstKind_def
  have "operandTypes k = None" if "k < 37 \<or> k = 38 \<or> k \<in> {118, 119, 122, 125, 126, 127, 121}"
    using that by (elim disjE insertE) (simp_all add: d)
  then have "k = 37 \<or> 39 \<le> k \<and> k \<notin> {118, 119, 122, 125, 126} \<and> k \<noteq> 127 \<and> k \<noteq> 121"
    using assms by force
  then show ?thesis by (auto simp: isGvnEligible_def isPureValueKind_iff)
qed

lemma input_absg: "n < nodesSize g \<Longrightarrow> s < cnt g n \<Longrightarrow> input g n s = absg g ! n ! s"
  by (simp add: absg_nth_input)

lemma sound_meaning:
  assumes "javaModel u F" "soundVal F g \<rho>" "liveIn g n" "operandTypes (nd_kind (g_nodes g ! n)) = Some ts"
    and "map (\<lambda>m. \<rho> m t) (absg g ! n) = map Java vs"
    and "nodeMeaning u (nd_kind (g_nodes g ! n)) (nd_constValue (g_nodes g ! n)) vs = Some v"
  shows "\<rho> n t = Java v"
proof -
  have "\<rho> n = F (descOf (g_nodes g ! n)) (map \<rho> (absg g ! n))"
    using assms(2,3) operandTypes_eligible [OF assms(4)] by (simp add: soundVal_def nodeSound_def)
  then show ?thesis using assms(1,5,6) by (simp add: javaModel_def descOf_def comp_def)
qed

lemma sound_types:
  assumes "soundVal F g \<rho>" "liveIn g n" "operandTypes (nd_kind (g_nodes g ! n)) = Some ts"
  shows "length (absg g ! n) = length ts" "cnt g n = length ts"
    "list_all2 (\<lambda>m ty. ofType (\<rho> m t) ty) (absg g ! n) ts"
proof -
  show *: "list_all2 (\<lambda>m ty. ofType (\<rho> m t) ty) (absg g ! n) ts" for t
    using assms by (simp add: soundVal_def nodeSound_def)
  show "length (absg g ! n) = length ts" using list_all2_lengthD [OF * [of 0]] .
  then show "cnt g n = length ts" using assms(2) by (simp add: liveIn_def)
qed

lemma operandTypes_const: "isConstKind k \<Longrightarrow> operandTypes k = Some []"
  unfolding isConstKind_def
  by (elim disjE) (simp_all add: operandTypes_def binaryOperandTypes_def unaryOperandType_def isConstKind_def)

lemma sound_const:
  assumes "javaModel u F" "soundVal F g \<rho>" "liveIn g n" "meaning0 (nd_kind (g_nodes g ! n)) (nd_constValue (g_nodes g ! n)) = Some v"
  shows "\<rho> n t = Java v"
proof -
  let ?k = "nd_kind (g_nodes g ! n)"
  have "isConstKind ?k" using assms(4) by (auto simp: meaning0_def isConstKind_def split: if_splits)
  then have ty: "operandTypes ?k = Some []" by (rule operandTypes_const)
  then have "absg g ! n = []" using sound_types(1) [OF assms(2,3)] by simp
  then show ?thesis using sound_meaning [OF assms(1-3) ty, of t "[]" v] assms(4) by simp
qed

text \<open>The inputs of a live node with one or two operands, and their types.\<close>

lemma sound_row2:
  assumes "soundVal F g \<rho>" "liveIn g n" "binaryOperandTypes (nd_kind (g_nodes g ! n)) = Some (ta, tb)"
  shows "absg g ! n = [input g n 0, input g n 1]" "ofType (\<rho> (input g n 0) t) ta" "ofType (\<rho> (input g n 1) t) tb"
    and "numInputs g n = 2"
proof -
  have ty: "operandTypes (nd_kind (g_nodes g ! n)) = Some [ta, tb]" using assms(3) by (simp add: operandTypes_def)
  note s = sound_types [OF assms(1,2) ty]
  have n: "n < nodesSize g" using assms(2) by (simp add: liveIn_def)
  have "input g n 0 = absg g ! n ! 0" "input g n 1 = absg g ! n ! 1"
    using input_absg [OF n] s(2) by simp_all
  then show row: "absg g ! n = [input g n 0, input g n 1]"
    using s(1) by (auto simp: length_Suc_conv numeral_2_eq_2)
  show "ofType (\<rho> (input g n 0) t) ta" "ofType (\<rho> (input g n 1) t) tb"
    using s(3) [of t] by (simp_all add: row)
  show "numInputs g n = 2" using s(2) n by simp
qed

lemma sound_row1:
  assumes "soundVal F g \<rho>" "liveIn g n" "operandTypes (nd_kind (g_nodes g ! n)) = Some [ta]"
  shows "absg g ! n = [input g n 0]" "ofType (\<rho> (input g n 0) t) ta" "numInputs g n = 1"
proof -
  note s = sound_types [OF assms]
  have n: "n < nodesSize g" using assms(2) by (simp add: liveIn_def)
  have "input g n 0 = absg g ! n ! 0" using input_absg [OF n] s(2) by simp
  then show row: "absg g ! n = [input g n 0]" using s(1) by (auto simp: length_Suc_conv)
  show "ofType (\<rho> (input g n 0) t) ta" using s(3) [of t] by (simp add: row)
  show "numInputs g n = 1" using s(2) n by simp
qed

lemma sound_op2:
  assumes "javaModel u F" "soundVal F g \<rho>" "liveIn g n" "binaryOperandTypes (nd_kind (g_nodes g ! n)) = Some (ta, tb)"
    and "\<rho> (input g n 0) t = Java x" "\<rho> (input g n 1) t = Java y" "meaning2 u (nd_kind (g_nodes g ! n)) x y = Some v"
  shows "\<rho> n t = Java v"
proof -
  have ty: "operandTypes (nd_kind (g_nodes g ! n)) = Some [ta, tb]" using assms(4) by (simp add: operandTypes_def)
  show ?thesis
    by (rule sound_meaning [OF assms(1-3) ty, of t "[x, y]"])
      (use sound_row2(1) [OF assms(2-4)] assms(5-7) in simp_all)
qed

lemma sound_op1:
  assumes "javaModel u F" "soundVal F g \<rho>" "liveIn g n" "operandTypes (nd_kind (g_nodes g ! n)) = Some [ta]"
    and "\<rho> (input g n 0) t = Java x" "meaning1 u (nd_kind (g_nodes g ! n)) x = Some v"
  shows "\<rho> n t = Java v"
  by (rule sound_meaning [OF assms(1-4), of t "[x]"]) (use sound_row1(1) [OF assms(2-4)] assms(5,6) in simp_all)

end
