(* ===== verification/Pass_Junk.thy ===== *)
theory Pass_Junk
  imports Pass_Meaning
begin

text \<open>
  What the junk protocol of \<open>PassSupport.cpp\<close> does to a graph: it adds constants and inert nodes whose
  inputs are live, and it changes the inputs of a given set of nodes only (the nodes that are dead or
  about to be killed). Sizes of the model's vectors never shrink, so one hypothesis, that the final
  graph has fewer than \<open>2 ^ 32\<close> nodes and edges, bounds every intermediate one.
\<close>

section \<open>Relations\<close>

definition sizesOk :: "graph \<Rightarrow> bool" where
  "sizesOk g \<longleftrightarrow> nodesSize g < 2 ^ 32 \<and> length (g_edgePool g) < 2 ^ 32"

definition grows :: "graph \<Rightarrow> graph \<Rightarrow> bool" where
  "grows g g' \<longleftrightarrow> nodesSize g \<le> nodesSize g' \<and> length (g_edgePool g) \<le> length (g_edgePool g')"

definition startOk :: "graph \<Rightarrow> bool" where
  "startOk g \<longleftrightarrow> liveIn g (g_start g) \<and> nd_kind (g_nodes g ! g_start g) = Nk_Start"

text \<open>A node no valuation says anything about.\<close>

definition inert :: "node_kind \<Rightarrow> bool" where
  "inert k \<longleftrightarrow> \<not> isGvnEligible k \<and> operandTypes k = None
     \<and> k \<notin> {Nk_New, Nk_NewArray, Nk_NewRefArray, Nk_NewMultiArray, Nk_Materialize, Nk_ConstantSym}"

definition addedOk :: "graph \<Rightarrow> node_id \<Rightarrow> bool" where
  "addedOk g n \<longleftrightarrow> nd_flags (g_nodes g ! n) = 0
     \<and> (inert (nd_kind (g_nodes g ! n)) \<or> isConstKind (nd_kind (g_nodes g ! n)) \<and> absg g ! n = [])
     \<and> (\<forall>v \<in> set (absg g ! n). liveIn g v)"

definition sameNode :: "graph \<Rightarrow> graph \<Rightarrow> node_id \<Rightarrow> bool" where
  "sameNode g g' n \<longleftrightarrow> descOf (g_nodes g' ! n) = descOf (g_nodes g ! n) \<and> nd_flags (g_nodes g' ! n) = nd_flags (g_nodes g ! n)"

definition junked :: "node_id set \<Rightarrow> graph \<Rightarrow> graph \<Rightarrow> bool" where
  "junked D g g' \<longleftrightarrow> graphOk g' \<and> g_start g' = g_start g \<and> nodesSize g \<le> nodesSize g'
     \<and> (\<forall>n < nodesSize g. sameNode g g' n \<and> (n \<notin> D \<longrightarrow> absg g' ! n = absg g ! n))
     \<and> (\<forall>n < nodesSize g'. nodesSize g \<le> n \<longrightarrow> addedOk g' n)"

text \<open>Added nodes read the start node or nodes from \<open>b\<close> on.\<close>

definition sprouts :: "nat \<Rightarrow> graph \<Rightarrow> graph \<Rightarrow> bool" where
  "sprouts b g g' \<longleftrightarrow> (\<forall>n < nodesSize g'. nodesSize g \<le> n \<longrightarrow> (\<forall>v \<in> set (absg g' ! n). v = g_start g' \<or> b \<le> v))"

lemma grows_refl [simp]: "grows g g" by (simp add: grows_def)

lemma grows_trans: "grows g g' \<Longrightarrow> grows g' g'' \<Longrightarrow> grows g g''" by (simp add: grows_def)

lemma grows_sizes: "grows g g' \<Longrightarrow> sizesOk g' \<Longrightarrow> sizesOk g" by (simp add: grows_def sizesOk_def)

lemma junked_refl: "graphOk g \<Longrightarrow> junked D g g" by (simp add: junked_def sameNode_def)

lemma sameNode_live: "sameNode g g' n \<Longrightarrow> isDead (g_nodes g' ! n) = isDead (g_nodes g ! n)"
  by (simp add: sameNode_def isDead_def)

lemma junked_live: "junked D g g' \<Longrightarrow> liveIn g n \<Longrightarrow> liveIn g' n"
  using sameNode_live [of g g' n] by (auto simp: junked_def liveIn_def)

lemma junked_startOk: "junked D g g' \<Longrightarrow> startOk g \<Longrightarrow> startOk g'"
  using junked_live [of D g g' "g_start g"] by (auto simp: startOk_def junked_def liveIn_def sameNode_def descOf_def)

lemma junked_trans:
  assumes "junked D g g1" "junked D g1 g2" "D \<subseteq> {..<nodesSize g}"
  shows "junked D g g2"
proof -
  have "addedOk g2 n" if n: "n < nodesSize g1" "nodesSize g \<le> n" for n
  proof -
    have "n \<notin> D" using n(2) assms(3) by auto
    then have "absg g2 ! n = absg g1 ! n" "sameNode g1 g2 n" using assms(2) n(1) by (auto simp: junked_def)
    moreover have "addedOk g1 n" using assms(1) n by (auto simp: junked_def)
    ultimately show ?thesis using junked_live [OF assms(2)] by (auto simp: addedOk_def sameNode_def descOf_def)
  qed
  then show ?thesis using assms(1,2) unfolding junked_def sameNode_def by (auto simp: not_le)
qed

lemma sprouts_same [simp]: "nodesSize g' \<le> nodesSize g \<Longrightarrow> sprouts b g g'"
  by (auto simp: sprouts_def)

lemma sprouts_trans:
  assumes "sprouts b g g1" "junked D g1 g2" "sprouts b' g1 g2" "b \<le> b'" "D \<subseteq> {..<nodesSize g}"
  shows "sprouts b g g2"
  unfolding sprouts_def
proof (intro allI impI ballI)
  fix n v assume n: "n < nodesSize g2" "nodesSize g \<le> n" and v: "v \<in> set (absg g2 ! n)"
  show "v = g_start g2 \<or> b \<le> v"
  proof (cases "n < nodesSize g1")
    case True
    then have "absg g2 ! n = absg g1 ! n" "g_start g2 = g_start g1" using assms(2,5) n(2) by (auto simp: junked_def)
    then show ?thesis using assms(1) True n(2) v by (auto simp: sprouts_def)
  next
    case False
    then show ?thesis using assms(3,4) n(1) v by (fastforce simp: sprouts_def)
  qed
qed

lemma refOk_mono: "refOk k v \<Longrightarrow> k \<le> k' \<Longrightarrow> refOk k' v" by (auto simp: refOk_def)

section \<open>States\<close>

definition junkIds :: "junk \<Rightarrow> node_id set" where
  "junkIds jk = {jk_ifSink jk, jk_switchSink jk, jk_callSink jk, jk_fsSink jk, jk_constI jk, jk_constL jk, jk_constF jk,
     jk_constD jk, jk_constNull jk} \<union> set (jk_regionSinks jk)"

definition junkOk :: "nat \<Rightarrow> junk \<Rightarrow> bool" where
  "junkOk k jk \<longleftrightarrow> (\<forall>n \<in> junkIds jk. refOk k n)"

definition goodState :: "pass_state \<Rightarrow> bool" where
  "goodState st \<longleftrightarrow> graphOk (ps_g st) \<and> startOk (ps_g st) \<and> junkOk (nodesSize (ps_g st)) (ps_jk st)"

definition calm :: "node_id set \<Rightarrow> pass_state \<Rightarrow> pass_state \<Rightarrow> bool" where
  "calm D st st' \<longleftrightarrow> grows (ps_g st) (ps_g st') \<and> ps_b st' = ps_b st \<and> ps_t st' = ps_t st
     \<and> (goodState st \<and> sizesOk (ps_g st') \<and> D \<subseteq> {..<nodesSize (ps_g st)} \<longrightarrow>
          junked D (ps_g st) (ps_g st') \<and> sprouts (nodesSize (ps_g st)) (ps_g st) (ps_g st') \<and> goodState st')"

lemma calm_refl [simp]: "calm D st st"
  by (auto simp: calm_def goodState_def junked_refl)

lemma calm_trans:
  assumes "calm D st st1" "calm D st1 st2"
  shows "calm D st st2"
  unfolding calm_def
proof (intro conjI impI)
  show "grows (ps_g st) (ps_g st2)" "ps_b st2 = ps_b st" "ps_t st2 = ps_t st"
    using assms grows_trans by (auto simp: calm_def)
  assume a: "goodState st \<and> sizesOk (ps_g st2) \<and> D \<subseteq> {..<nodesSize (ps_g st)}"
  then have s: "sizesOk (ps_g st1)" using assms(2) grows_sizes by (auto simp: calm_def)
  then have 1: "junked D (ps_g st) (ps_g st1)" "goodState st1" "sprouts (nodesSize (ps_g st)) (ps_g st) (ps_g st1)"
    using assms(1) a by (auto simp: calm_def)
  moreover have "D \<subseteq> {..<nodesSize (ps_g st1)}" using a 1(1) by (fastforce simp: junked_def)
  ultimately have 2: "junked D (ps_g st1) (ps_g st2)" "goodState st2" "sprouts (nodesSize (ps_g st1)) (ps_g st1) (ps_g st2)"
    using assms(2) a by (auto simp: calm_def)
  show "sprouts (nodesSize (ps_g st)) (ps_g st) (ps_g st2)"
    using sprouts_trans [OF 1(3) 2(1,3)] a 1(1) by (simp add: junked_def)
  show "junked D (ps_g st) (ps_g st2)" using junked_trans [OF 1(1) 2(1)] a by blast
  show "goodState st2" by (rule 2(2))
qed

lemma junkOk_mono: "junkOk k jk \<Longrightarrow> k \<le> k' \<Longrightarrow> junkOk k' jk"
  using refOk_mono by (auto simp: junkOk_def)

text \<open>Changing one entry of the cache.\<close>

lemma junkIds_upd:
  "junkIds (jk\<lparr>jk_ifSink := n\<rparr>) \<subseteq> insert n (junkIds jk)" "junkIds (jk\<lparr>jk_switchSink := n\<rparr>) \<subseteq> insert n (junkIds jk)"
  "junkIds (jk\<lparr>jk_callSink := n\<rparr>) \<subseteq> insert n (junkIds jk)" "junkIds (jk\<lparr>jk_fsSink := n\<rparr>) \<subseteq> insert n (junkIds jk)"
  "junkIds (jk\<lparr>jk_constI := n\<rparr>) \<subseteq> insert n (junkIds jk)" "junkIds (jk\<lparr>jk_constL := n\<rparr>) \<subseteq> insert n (junkIds jk)"
  "junkIds (jk\<lparr>jk_constF := n\<rparr>) \<subseteq> insert n (junkIds jk)" "junkIds (jk\<lparr>jk_constD := n\<rparr>) \<subseteq> insert n (junkIds jk)"
  "junkIds (jk\<lparr>jk_constNull := n\<rparr>) \<subseteq> insert n (junkIds jk)"
  "junkIds (jk\<lparr>jk_regionSinks := jk_regionSinks jk @ [n]\<rparr>) \<subseteq> insert n (junkIds jk)"
  by (auto simp: junkIds_def)

section \<open>Creating sinks\<close>

text \<open>A maker adds nodes that are added properly and returns one of them.\<close>

definition maker :: "(graph \<Rightarrow> graph \<times> node_id) \<Rightarrow> bool" where
  "maker mk \<longleftrightarrow> (\<forall>g. grows g (fst (mk g)) \<and>
     (graphOk g \<and> startOk g \<and> sizesOk (fst (mk g)) \<longrightarrow> junked {} g (fst (mk g)) \<and> sprouts (nodesSize g) g (fst (mk g))
        \<and> liveIn (fst (mk g)) (snd (mk g)) \<and> nodesSize g \<le> snd (mk g)))"

lemma makeRaw_node:
  assumes "graphOk g" "sizesOk (fst (makeRaw k ins p p2 c g))" "length ins < 2 ^ 16" "\<forall>v\<in>set ins. refOk (nodesSize g) v"
  shows "graphOk (fst (makeRaw k ins p p2 c g))" "absg (fst (makeRaw k ins p p2 c g)) = absg g @ [ins]"
    "snd (makeRaw k ins p p2 c g) = nodesSize g" "g_start (fst (makeRaw k ins p p2 c g)) = g_start g"
    "descOf (g_nodes (fst (makeRaw k ins p p2 c g)) ! nodesSize g) = (k, p, p2, c)"
    "nd_flags (g_nodes (fst (makeRaw k ins p p2 c g)) ! nodesSize g) = 0"
    "nodesSize (fst (makeRaw k ins p p2 c g)) = Suc (nodesSize g)"
    "n < nodesSize g \<Longrightarrow> g_nodes (fst (makeRaw k ins p p2 c g)) ! n = g_nodes g ! n"
proof -
  have st: "g_start (pushUses n s vs h) = g_start h" for n s vs h
    by (induction n s vs h rule: pushUses.induct) (simp_all add: pushUse_def)
  show sz: "nodesSize (fst (makeRaw k ins p p2 c g)) = Suc (nodesSize g)"
    and "g_start (fst (makeRaw k ins p p2 c g)) = g_start g"
    and "descOf (g_nodes (fst (makeRaw k ins p p2 c g)) ! nodesSize g) = (k, p, p2, c)"
    and "nd_flags (g_nodes (fst (makeRaw k ins p p2 c g)) ! nodesSize g) = 0"
    and "n < nodesSize g \<Longrightarrow> g_nodes (fst (makeRaw k ins p p2 c g)) ! n = g_nodes g ! n"
    by (simp_all add: makeRaw_def Let_def st descOf_def defaultNode_def nth_append)
  have "length (g_edgePool (fst (makeRaw k ins p p2 c g))) = length (g_edgePool g) + length ins"
    by (simp add: makeRaw_def Let_def)
  then have room: "roomFor (length ins) g" using assms(2) sz by (simp add: roomFor_def sizesOk_def)
  have refs: "\<forall>v\<in>set ins. refOk (Suc (nodesSize g)) v" using assms(4) refOk_mono by (metis le_SucI order_refl)
  show "graphOk (fst (makeRaw k ins p p2 c g))" "absg (fst (makeRaw k ins p p2 c g)) = absg g @ [ins]"
    "snd (makeRaw k ins p p2 c g) = nodesSize g"
    using makeRaw_ok [OF assms(1) room assms(3) refs] by simp_all
qed

lemma makeRaw_grows: "grows g (fst (makeRaw k ins p p2 c g))"
  by (simp add: grows_def makeRaw_def Let_def)

lemma makeRaw_junked:
  assumes ok: "graphOk g" "sizesOk (fst (makeRaw k ins p p2 c g))" "length ins < 2 ^ 16" "\<forall>v\<in>set ins. liveIn g v"
    and k: "inert k \<or> isConstKind k \<and> ins = []"
  shows "junked {} g (fst (makeRaw k ins p p2 c g))" "liveIn (fst (makeRaw k ins p p2 c g)) (nodesSize g)"
proof -
  let ?g = "fst (makeRaw k ins p p2 c g)"
  have "\<forall>v\<in>set ins. refOk (nodesSize g) v" using ok(4) by (auto simp: refOk_def liveIn_def)
  note m = makeRaw_node [OF ok(1-3) this]
  have abs: "absg ?g ! n = (if n < nodesSize g then absg g ! n else ins)" if "n \<le> nodesSize g" for n
    using that m(2) by (auto simp: nth_append)
  have "\<forall>v\<in>set ins. liveIn ?g v" using ok(4) m(7,8) by (auto simp: liveIn_def)
  then have "addedOk ?g (nodesSize g)" using k m(5,6) abs [of "nodesSize g"] by (auto simp: addedOk_def descOf_def)
  then show "junked {} g ?g"
    using m abs by (auto simp: junked_def sameNode_def le_less less_Suc_eq)
  show "liveIn ?g (nodesSize g)" using m by (simp add: liveIn_def isDead_def flagsHas_def)
qed

lemma makeRaw_sprouts:
  assumes "graphOk g" "sizesOk (fst (makeRaw k ins p p2 c g))" "length ins < 2 ^ 16" "\<forall>v\<in>set ins. liveIn g v"
    and "\<forall>v\<in>set ins. v = g_start g \<or> b \<le> v"
  shows "sprouts b g (fst (makeRaw k ins p p2 c g))"
proof -
  have "\<forall>v\<in>set ins. refOk (nodesSize g) v" using assms(4) by (auto simp: refOk_def liveIn_def)
  note m = makeRaw_node [OF assms(1-3) this]
  show ?thesis using m(2,4,7) assms(5) by (auto simp: sprouts_def nth_append)
qed

lemma maker_makeRaw:
  "isConstKind k \<Longrightarrow> maker (makeRaw k [] p p2 c)"
  using makeRaw_grows makeRaw_sprouts [of _ k "[]" p p2 c] makeRaw_junked [of _ k "[]" p p2 c] makeRaw_node(3) [of _ k "[]" p p2 c] by (simp add: maker_def)

lemma maker_constants: "maker (constantI v)" "maker (constantL w)" "maker (constantF v)" "maker (constantD w)" "maker constantNull"
  by (simp_all add: constantI_def constantL_def constantF_def constantD_def constantNull_def maker_makeRaw isConstKind_def
      del: One_nat_def)

lemma maker_seq:
  assumes "maker mk" "\<And>g n. grows g (fst (f n g))"
    and "\<And>g n. graphOk g \<Longrightarrow> startOk g \<Longrightarrow> liveIn g n \<Longrightarrow> sizesOk (fst (f n g)) \<Longrightarrow>
      junked {} g (fst (f n g)) \<and> sprouts n g (fst (f n g)) \<and> liveIn (fst (f n g)) (snd (f n g)) \<and> nodesSize g \<le> snd (f n g)"
  shows "maker (\<lambda>g. f (snd (mk g)) (fst (mk g)))"
  unfolding maker_def
proof (intro allI conjI impI; (elim conjE)?)
  fix g
  let ?g1 = "fst (mk g)"
  let ?n = "snd (mk g)"
  let ?g2 = "fst (f ?n ?g1)"
  have gr: "grows g ?g1" "grows ?g1 ?g2" using assms(1,2) by (auto simp: maker_def)
  then show "grows g ?g2" by (rule grows_trans)
  assume a: "graphOk g" "startOk g" "sizesOk ?g2"
  then have 1: "junked {} g ?g1" "liveIn ?g1 ?n" "sprouts (nodesSize g) g ?g1" "nodesSize g \<le> ?n"
    using assms(1) grows_sizes [OF gr(2)] by (auto simp: maker_def)
  have 2: "junked {} ?g1 ?g2" "sprouts ?n ?g1 ?g2" "liveIn ?g2 (snd (f ?n ?g1))" "nodesSize ?g1 \<le> snd (f ?n ?g1)"
    using assms(3) [of ?g1 ?n] 1 junked_startOk [OF 1(1) a(2)] a(3) by (auto simp: junked_def)
  show "junked {} g ?g2" using junked_trans [OF 1(1) 2(1)] by simp
  show "sprouts (nodesSize g) g ?g2" using sprouts_trans [OF 1(3) 2(1,2) 1(4)] by simp
  show "liveIn ?g2 (snd (f ?n ?g1))" "nodesSize g \<le> snd (f ?n ?g1)" using 2 gr(1) by (auto simp: grows_def)
qed

lemma inert_kinds: "inert Nk_If" "inert Nk_Switch" "inert Nk_CallStatic" "inert Nk_FrameState" "inert Nk_Region"
  by (simp_all add: inert_def isGvnEligible_def isPureValueKind_iff operandTypes_def binaryOperandTypes_def
      unaryOperandType_def isConstKind_def)

lemma junked_makeRaw_live:
  assumes "graphOk g" "sizesOk (fst (makeRaw k ins p p2 c g))" "length ins < 2 ^ 16" "\<forall>v\<in>set ins. liveIn g v" "inert k"
  shows "junked {} g (fst (makeRaw k ins p p2 c g)) \<and> liveIn (fst (makeRaw k ins p p2 c g)) (snd (makeRaw k ins p p2 c g))
    \<and> nodesSize g \<le> snd (makeRaw k ins p p2 c g)"
proof -
  have "\<forall>v\<in>set ins. refOk (nodesSize g) v" using assms(4) by (auto simp: refOk_def liveIn_def)
  then show ?thesis using makeRaw_junked [OF assms(1-4)] makeRaw_node(3) [OF assms(1-3)] assms(5) by simp
qed

lemma maker_branchSink: "inert k \<Longrightarrow> maker (branchSink k)"
proof -
  assume k: "inert k"
  have c: "g_start (fst (constantI 0 g)) = g_start g" for g
    unfolding constantI_def by (simp add: makeRaw_def Let_def)
  let ?f = "\<lambda>n g. Ir_Graph.make k [startNode g, n] 0 0 g"
  have "maker (\<lambda>g. ?f (snd (constantI 0 g)) (fst (constantI 0 g)))"
  proof (rule maker_seq [OF maker_constants(1)])
    show "grows g (fst (?f n g))" for g n by (simp add: Ir_Graph.make_def makeRaw_grows)
    show "junked {} g (fst (?f n g)) \<and> sprouts n g (fst (?f n g)) \<and> liveIn (fst (?f n g)) (snd (?f n g)) \<and> nodesSize g \<le> snd (?f n g)"
      if "graphOk g" "startOk g" "liveIn g n" "sizesOk (fst (?f n g))" for g n
      using junked_makeRaw_live [of g k "[startNode g, n]" 0 0 0] makeRaw_sprouts [of g k "[startNode g, n]" 0 0 0 n] that k
      by (simp add: Ir_Graph.make_def startOk_def startNode_def)
  qed
  moreover have "branchSink k = (\<lambda>g. ?f (snd (constantI 0 g)) (fst (constantI 0 g)))"
    by (rule ext) (simp add: branchSink_def split_beta startNode_def c)
  ultimately show ?thesis by simp
qed

lemma frameDesc_simps:
  "graphOk (fst (addFrameStateDesc m pc caller vobjs g)) = graphOk g" "absg (fst (addFrameStateDesc m pc caller vobjs g)) = absg g"
  "g_start (fst (addFrameStateDesc m pc caller vobjs g)) = g_start g"
  "g_nodes (fst (addFrameStateDesc m pc caller vobjs g)) = g_nodes g"
  "g_edgePool (fst (addFrameStateDesc m pc caller vobjs g)) = g_edgePool g"
proof -
  show "graphOk (fst (addFrameStateDesc m pc caller vobjs g)) = graphOk g" "absg (fst (addFrameStateDesc m pc caller vobjs g)) = absg g"
    by (rule graphOk_fields; simp add: addFrameStateDesc_def Let_def cnt_def offs_def)+
qed (simp_all add: addFrameStateDesc_def Let_def)

lemma junked_desc:
  "junked D (fst (addFrameStateDesc m pc caller vobjs g)) g' = junked D g g'"
  "liveIn (fst (addFrameStateDesc m pc caller vobjs g)) n = liveIn g n"
  by (simp_all add: junked_def sameNode_def frameDesc_simps liveIn_def)

lemma maker_fsSink: "maker makeFsSink"
  unfolding maker_def
proof (intro allI conjI impI; (elim conjE)?)
  fix g
  let ?d = "addFrameStateDesc 0 0 kInvalidFrameState [] g"
  have e: "makeFsSink g = makeRaw Nk_FrameState [] (snd ?d) 0 0 (fst ?d)"
    by (simp add: makeFsSink_def makeFrameState_def split_beta)
  show "grows g (fst (makeFsSink g))"
    using makeRaw_grows [of "fst ?d"] unfolding e by (simp add: grows_def frameDesc_simps)
  assume a: "graphOk g" "startOk g" "sizesOk (fst (makeFsSink g))"
  have "sprouts (nodesSize g) (fst ?d) (fst (makeFsSink g))"
    unfolding e by (rule makeRaw_sprouts) (use a in \<open>simp_all add: e frameDesc_simps\<close>)
  then show "sprouts (nodesSize g) g (fst (makeFsSink g))" by (simp add: sprouts_def frameDesc_simps)
  have "junked {} (fst ?d) (fst (makeFsSink g)) \<and> liveIn (fst (makeFsSink g)) (snd (makeFsSink g)) \<and> nodesSize (fst ?d) \<le> snd (makeFsSink g)"
    unfolding e by (rule junked_makeRaw_live) (use a inert_kinds in \<open>simp_all add: e frameDesc_simps\<close>)
  then show "junked {} g (fst (makeFsSink g))" "liveIn (fst (makeFsSink g)) (snd (makeFsSink g))" "nodesSize g \<le> snd (makeFsSink g)"
    by (simp_all add: junked_desc frameDesc_simps)
qed

lemma appendInput_fields:
  "nodesSize (appendInput n v g) = nodesSize g" "g_start (appendInput n v g) = g_start g"
  "descOf (g_nodes (appendInput n v g) ! m) = descOf (g_nodes g ! m)"
  "nd_flags (g_nodes (appendInput n v g) ! m) = nd_flags (g_nodes g ! m)"
  "length (g_edgePool g) \<le> length (g_edgePool (appendInput n v g))"
proof -
  have "m < nodesSize g \<or> \<not> m < nodesSize g" by blast
  then show "descOf (g_nodes (appendInput n v g) ! m) = descOf (g_nodes g ! m)"
    "nd_flags (g_nodes (appendInput n v g) ! m) = nd_flags (g_nodes g ! m)"
    by (auto simp: appendInput_def Let_def updNode_def pushUse_def descOf_def nth_list_update)
  show "length (g_edgePool g) \<le> length (g_edgePool (appendInput n v g))"
    by (simp add: appendInput_def Let_def length_relocate)
qed (simp_all add: appendInput_def Let_def updNode_def pushUse_def)

lemma appendInput_pool:
  assumes "graphOk g" "n < nodesSize g" "cnt g n = 2" "sizesOk (appendInput n v g)"
  shows "length (g_edgePool g) + cnt g n + 1 < 2 ^ 32"
proof -
  have "length (g_edgePool (appendInput n v g)) = length (g_edgePool g) + cnt g n + 1"
    using assms(2) by (simp add: appendInput_def Let_def length_relocate cnt_def)
  then show ?thesis using assms(4) by (simp add: sizesOk_def)
qed

lemma appendInput_junked:
  assumes "graphOk g" "n < nodesSize g" "cnt g n = 2" "sizesOk (appendInput n v g)" "refOk (nodesSize g) v" "n \<in> D"
  shows "junked D g (appendInput n v g)"
    and "absg (appendInput n v g) = (absg g)[n := absg g ! n @ [v]]"
  using appendInput_ok [OF assms(1,2,5) appendInput_pool [OF assms(1-4)]] assms(2,3,6)
  by (auto simp: junked_def sameNode_def appendInput_fields nth_list_update)

lemma setInput_junked:
  assumes "graphOk g" "refOk (nodesSize g) v" "n \<in> D"
  shows "junked D g (setInput n s v g)"
proof (cases "n < nodesSize g \<and> s < cnt g n")
  case True
  have "g_start (setInput n s v g) = g_start g" by (simp add: setInput_def Let_def pushUse_def removeFromUses_def)
  then show ?thesis using setInput_ok [OF assms(1) _ _ assms(2), of n s] True assms(3)
    by (auto simp: junked_def sameNode_def nth_list_update)
next
  case False
  then have "setInput n s v g = g" by (intro setInput_noop) (cases "n < nodesSize g"; auto)
  then show ?thesis using junked_refl [OF assms(1)] by simp
qed

lemma maker_callSink: "maker callSinkMake"
proof -
  let ?f = "\<lambda>fs g. (let (g2, c) = Ir_Graph.make Nk_CallStatic [startNode g, startNode g] 0 (irCode IT_Bottom) g
     in (appendInput c fs g2, c))"
  have "maker (\<lambda>g. ?f (snd (makeFsSink g)) (fst (makeFsSink g)))"
  proof (rule maker_seq [OF maker_fsSink])
    show "grows g (fst (?f n g))" for g n
    proof -
      let ?m = "makeRaw Nk_CallStatic [startNode g, startNode g] 0 (irCode IT_Bottom) 0 g"
      have "grows (fst ?m) (appendInput (snd ?m) n (fst ?m))" using appendInput_fields(1,5) by (simp add: grows_def)
      then show ?thesis using grows_trans [OF makeRaw_grows] by (simp add: Ir_Graph.make_def split_beta)
    qed
    fix g fs assume a: "graphOk g" "startOk g" "liveIn g fs" "sizesOk (fst (?f fs g))"
    define m where "m = makeRaw Nk_CallStatic [startNode g, startNode g] 0 (irCode IT_Bottom) 0 g"
    define h where "h = appendInput (snd m) fs (fst m)"
    have f: "?f fs g = (h, snd m)" by (simp add: h_def m_def Ir_Graph.make_def split_beta)
    have hs: "sizesOk h" using a(4) unfolding f by simp
    have sz: "sizesOk (fst m)"
      using hs appendInput_fields(1,5) [where n = "snd m" and v = fs and g = "fst m"] by (simp add: h_def sizesOk_def)
    have row: "\<forall>v\<in>set [startNode g, startNode g]. liveIn g v" "\<forall>v\<in>set [startNode g, startNode g]. refOk (nodesSize g) v"
      using a(2) by (auto simp: startOk_def startNode_def liveIn_def refOk_def)
    have j: "junked {} g (fst m)" "liveIn (fst m) (snd m)"
      using junked_makeRaw_live [OF a(1) _ _ row(1) inert_kinds(3)] sz by (auto simp: m_def)
    note n = makeRaw_node [OF a(1) _ _ row(2), of Nk_CallStatic 0 "irCode IT_Bottom" 0, folded m_def, OF sz]
    have n2: "snd m = nodesSize g" "nodesSize (fst m) = Suc (nodesSize g)" "absg (fst m) ! nodesSize g = [startNode g, startNode g]"
      using n(2,3,7) by (simp_all add: nth_append)
    then have c: "cnt (fst m) (snd m) = 2" "snd m < nodesSize (fst m)"
      using length_absg_nth [of "nodesSize g" "fst m"] by simp_all
    have live: "liveIn (fst m) fs" using junked_live [OF j(1) a(3)] .
    then have "refOk (nodesSize (fst m)) fs" by (simp add: liveIn_def refOk_def)
    note ap = appendInput_junked [OF _ c(2,1) _ this, of "{snd m}", folded h_def, OF _ hs]
    have ap: "junked {snd m} (fst m) h" "absg h = (absg (fst m))[snd m := absg (fst m) ! snd m @ [fs]]"
      using ap j(1) by (auto simp: junked_def)
    have row2: "absg h ! nodesSize g = [startNode g, startNode g, fs]" using ap(2) n2 by simp
    have k: "nd_kind (g_nodes h ! nodesSize g) = Nk_CallStatic" "nd_flags (g_nodes h ! nodesSize g) = 0"
      using n(5,6) appendInput_fields(3,4) [of "snd m" fs "fst m" "nodesSize g"] by (simp_all add: h_def descOf_def)
    have l: "liveIn h fs" "liveIn h (startNode g)" "liveIn h (snd m)"
      using junked_live [OF ap(1)] live j(2) junked_live [OF j(1)] row(1) by simp_all
    have "addedOk h (nodesSize g)" unfolding addedOk_def row2 k using inert_kinds(3) l by simp
    moreover have "nodesSize h = Suc (nodesSize g)" using n2 by (simp add: h_def appendInput_fields)
    ultimately have "junked {} g h"
      using j(1) ap n2 by (auto simp: junked_def sameNode_def less_Suc_eq le_less)
    moreover have "sprouts fs g h" unfolding sprouts_def
      using n2 row2 \<open>nodesSize h = Suc (nodesSize g)\<close> j(1) ap(1) by (auto simp: less_Suc_eq startNode_def junked_def)
    ultimately show "junked {} g (fst (?f fs g)) \<and> sprouts fs g (fst (?f fs g)) \<and> liveIn (fst (?f fs g)) (snd (?f fs g))
        \<and> nodesSize g \<le> snd (?f fs g)"
      unfolding f using l(3) n2 by simp
  qed
  moreover have "callSinkMake = (\<lambda>g. ?f (snd (makeFsSink g)) (fst (makeFsSink g)))"
    by (rule ext) (simp add: callSinkMake_def split_beta)
  ultimately show ?thesis by simp
qed

section \<open>Sinks\<close>

definition sinkStep :: "pass_state \<Rightarrow> pass_state \<times> node_id \<Rightarrow> bool" where
  "sinkStep st r \<longleftrightarrow> (\<forall>D. calm D st (fst r))
     \<and> (goodState st \<and> sizesOk (ps_g (fst r)) \<longrightarrow> refOk (nodesSize (ps_g (fst r))) (snd r))"

lemma junked_weaken: "junked {} g g' \<Longrightarrow> junked D g g'"
  by (auto simp: junked_def)

lemma sinkStep_make:
  assumes "maker mk" "junkIds jk \<subseteq> insert (snd (mk (ps_g st))) (junkIds (ps_jk st))"
  shows "sinkStep st (st\<lparr>ps_g := fst (mk (ps_g st)), ps_jk := jk\<rparr>, snd (mk (ps_g st)))"
proof -
  let ?g = "ps_g st"
  let ?g' = "fst (mk ?g)"
  have gr: "grows ?g ?g'" using assms(1) by (simp add: maker_def)
  have "junked {} ?g ?g' \<and> sprouts (nodesSize ?g) ?g ?g' \<and> liveIn ?g' (snd (mk ?g)) \<and> startOk ?g' \<and> junkOk (nodesSize ?g') jk" if "goodState st" "sizesOk ?g'"
  proof -
    have j: "junked {} ?g ?g'" "liveIn ?g' (snd (mk ?g))" "sprouts (nodesSize ?g) ?g ?g'" using assms(1) that by (auto simp: maker_def goodState_def)
    have "junkOk (nodesSize ?g') (ps_jk st)" using that junkOk_mono gr by (auto simp: goodState_def grows_def)
    then have "junkOk (nodesSize ?g') jk" using assms(2) j(2) by (auto simp: junkOk_def refOk_def liveIn_def)
    then show ?thesis using j junked_startOk [OF j(1)] that by (simp add: goodState_def)
  qed
  then show ?thesis using gr junked_weaken by (auto simp: sinkStep_def calm_def goodState_def refOk_def liveIn_def junked_def)
qed

lemma sinkStep_keep: "refOk (nodesSize (ps_g st)) n \<or> n \<in> junkIds (ps_jk st) \<or> n = startNode (ps_g st) \<Longrightarrow> sinkStep st (st, n)"
  by (auto simp: sinkStep_def goodState_def junkOk_def startOk_def startNode_def liveIn_def refOk_def)

lemmas sink_makers = maker_constants maker_branchSink [OF inert_kinds(1)] maker_branchSink [OF inert_kinds(2)]
  maker_callSink maker_fsSink

lemma parentSink_step: "sinkStep st (parentSink k st)"
  by (auto simp: parentSink_def onGraph_def split_beta intro!: sinkStep_keep sinkStep_make sink_makers junkIds_upd)
    (simp_all add: junkIds_def)

lemma fsSinkGet_step: "sinkStep st (fsSinkGet st)"
  by (auto simp: fsSinkGet_def onGraph_def split_beta intro!: sinkStep_keep sinkStep_make sink_makers junkIds_upd)
    (simp_all add: junkIds_def)

lemma dataSink_step: "sinkStep st (dataSink t st)"
proof -
  have "refOk k kInvalidNodeId" for k by (simp add: refOk_def)
  then show ?thesis
    by (auto simp: dataSink_def onGraph_def split_beta intro!: sinkStep_keep sinkStep_make sink_makers junkIds_upd)
      (simp_all add: junkIds_def)
qed

lemma maker_region: "n < 2 ^ 16 \<Longrightarrow> maker (\<lambda>g. Ir_Graph.make Nk_Region (replicate n (startNode g)) 0 0 g)"
  using makeRaw_grows junked_makeRaw_live [OF _ _ _ _ inert_kinds(5)] makeRaw_sprouts
  by (auto simp: maker_def Ir_Graph.make_def startOk_def startNode_def)

lemma pushRegionSink_calm: "calm D st (pushRegionSink st)"
proof -
  let ?n = "u16 (length (jk_regionSinks (ps_jk st)) + 2)"
  let ?mk = "\<lambda>g. Ir_Graph.make Nk_Region (replicate ?n (startNode g)) 0 0 g"
  have "maker ?mk" by (rule maker_region) (simp add: u16_def)
  from sinkStep_make [OF this, of "(ps_jk st)\<lparr>jk_regionSinks := jk_regionSinks (ps_jk st) @ [snd (?mk (ps_g st))]\<rparr>" st]
  show ?thesis using junkIds_upd(10) by (simp add: sinkStep_def pushRegionSink_def onGraph_def split_beta Let_def)
qed

lemma length_pushRegionSink: "length (jk_regionSinks (ps_jk (pushRegionSink st))) = Suc (length (jk_regionSinks (ps_jk st)))"
  by (simp add: pushRegionSink_def onGraph_def split_beta Let_def)

lemma funpow_push:
  "calm D st ((pushRegionSink ^^ k) st)" "length (jk_regionSinks (ps_jk ((pushRegionSink ^^ k) st))) = k + length (jk_regionSinks (ps_jk st))"
  by (induction k) (use calm_trans pushRegionSink_calm in \<open>auto simp: length_pushRegionSink\<close>)

lemma regionSink_step: "sinkStep st (regionSink preds st)"
proof -
  define p where "p = (if preds < 2 then 2 else preds)"
  let ?k = "p - 1 - length (jk_regionSinks (ps_jk st))"
  let ?st = "(pushRegionSink ^^ ?k) st"
  have r: "regionSink preds st = (?st, jk_regionSinks (ps_jk ?st) ! (p - 2))"
    by (simp add: regionSink_def p_def Let_def)
  have "2 \<le> p" by (simp add: p_def)
  then have "p - 2 < length (jk_regionSinks (ps_jk ?st))" using funpow_push(2) [of ?k st] by linarith
  then have "jk_regionSinks (ps_jk ?st) ! (p - 2) \<in> junkIds (ps_jk ?st)" by (simp add: junkIds_def)
  moreover have "goodState ?st" if "goodState st" "sizesOk (ps_g ?st)"
    using funpow_push(1) [of "{}" st ?k] that by (simp add: calm_def)
  ultimately show ?thesis unfolding r sinkStep_def using funpow_push(1) [of _ st ?k]
    by (auto simp: goodState_def junkOk_def)
qed

section \<open>Junk edges\<close>

lemma junkForSlot_step: "junkForSlot n s st = Some r \<Longrightarrow> sinkStep st r"
proof -
  have i: "refOk k kInvalidNodeId" for k by (simp add: refOk_def)
  show "junkForSlot n s st = Some r \<Longrightarrow> sinkStep st r"
    using regionSink_step parentSink_step fsSinkGet_step dataSink_step
    by (auto simp: junkForSlot_def Let_def startNode_def i split: if_splits input_role.splits intro: sinkStep_keep)
qed

lemma calm_setInput:
  assumes "sinkStep st (st1, v)" "n \<in> D"
  shows "calm D st (updGraph (setInput n s v) st1)"
proof -
  have c: "calm D st st1" using assms(1) by (simp add: sinkStep_def)
  have gr: "grows (ps_g st1) (setInput n s v (ps_g st1))"
    by (simp add: grows_def) (simp add: setInput_def Let_def)
  have "junked D (ps_g st) (setInput n s v (ps_g st1)) \<and> sprouts (nodesSize (ps_g st)) (ps_g st) (setInput n s v (ps_g st1))
      \<and> goodState (updGraph (setInput n s v) st1)"
    if a: "goodState st" "sizesOk (setInput n s v (ps_g st1))" "D \<subseteq> {..<nodesSize (ps_g st)}"
  proof -
    have sz: "sizesOk (ps_g st1)" using grows_sizes [OF gr a(2)] .
    have g: "junked D (ps_g st) (ps_g st1)" "goodState st1" "sprouts (nodesSize (ps_g st)) (ps_g st) (ps_g st1)"
      using c a sz by (auto simp: calm_def)
    have j: "junked D (ps_g st1) (setInput n s v (ps_g st1))"
      by (rule setInput_junked) (use g assms a sz in \<open>auto simp: goodState_def sinkStep_def\<close>)
    have "sprouts (nodesSize (ps_g st)) (ps_g st1) (setInput n s v (ps_g st1))" by (rule sprouts_same) simp
    note sp = sprouts_trans [OF g(3) j this order_refl a(3)]
    show ?thesis using sp junked_trans [OF g(1) j a(3)] junked_startOk [OF j] g(2) j
      by (simp add: goodState_def updGraph_def junked_def)
  qed
  then show ?thesis using c gr grows_trans unfolding calm_def updGraph_def by auto
qed

lemma junkSlot_calm: "junkSlot n s st = Some st' \<Longrightarrow> n \<in> D \<Longrightarrow> calm D st st'"
  using calm_setInput junkForSlot_step [of n s st]
  by (auto simp: junkSlot_def Let_def sinkStep_def bind_eq_Some_conv split: if_splits)

lemma junkSlots_calm: "junkSlots n ss st = Some st' \<Longrightarrow> n \<in> D \<Longrightarrow> calm D st st'"
proof (induction n ss st rule: junkSlots.induct)
  case (2 n s ss st)
  then obtain st1 where "junkSlot n s st = Some st1" "junkSlots n ss st1 = Some st'" by (auto simp: bind_eq_Some_conv)
  then show ?case using junkSlot_calm calm_trans 2 by blast
qed simp

lemma calm_appendInput:
  assumes "sinkStep st (st1, v)" "n \<in> D" "numInputs (ps_g st) n = 2" "n < nodesSize (ps_g st)"
  shows "calm D st (updGraph (appendInput n v) st1)"
proof -
  have c: "calm D st st1" using assms(1) by (simp add: sinkStep_def)
  have gr: "grows (ps_g st1) (appendInput n v (ps_g st1))" using appendInput_fields by (simp add: grows_def)
  have "junked D (ps_g st) (appendInput n v (ps_g st1)) \<and> sprouts (nodesSize (ps_g st)) (ps_g st) (appendInput n v (ps_g st1))
      \<and> goodState (updGraph (appendInput n v) st1)"
    if a: "goodState st" "sizesOk (appendInput n v (ps_g st1))" "D \<subseteq> {..<nodesSize (ps_g st)}"
  proof -
    have sz: "sizesOk (ps_g st1)" using grows_sizes [OF gr a(2)] .
    have g: "junked D (ps_g st) (ps_g st1)" "goodState st1" "sprouts (nodesSize (ps_g st)) (ps_g st) (ps_g st1)"
      using c a sz by (auto simp: calm_def)
    have n: "n < nodesSize (ps_g st1)" using assms(4) g(1) by (simp add: junked_def)
    have "absg (ps_g st1) ! n = absg (ps_g st) ! n"
      using assms(1,4) a sz by (auto simp: sinkStep_def calm_def junked_def)
    then have c2: "cnt (ps_g st1) n = 2"
      using length_absg_nth [OF n] length_absg_nth [OF assms(4)] assms(3,4) by simp
    have j: "junked D (ps_g st1) (appendInput n v (ps_g st1))"
      by (rule appendInput_junked(1)) (use g assms a sz n c2 in \<open>auto simp: goodState_def sinkStep_def\<close>)
    have "sprouts (nodesSize (ps_g st)) (ps_g st1) (appendInput n v (ps_g st1))" by (rule sprouts_same) (simp add: appendInput_fields)
    note sp = sprouts_trans [OF g(3) j this order_refl a(3)]
    show ?thesis using sp junked_trans [OF g(1) j a(3)] junked_startOk [OF j] g(2) j
      by (simp add: goodState_def updGraph_def junked_def appendInput_fields)
  qed
  then show ?thesis using c gr grows_trans unfolding calm_def updGraph_def by auto
qed

lemma padPhi_calm: "padPhi n st = Some st' \<Longrightarrow> n \<in> D \<Longrightarrow> n < nodesSize (ps_g st) \<Longrightarrow> calm D st st'"
  using calm_appendInput dataSink_step [of st]
  by (auto simp: padPhi_def bind_eq_Some_conv Let_def split_beta sinkStep_def split: if_splits)

lemma junkEdges_calm:
  assumes "junkEdges n st = Some st'" "n \<in> D" "n < nodesSize (ps_g st)"
  shows "calm D st st'"
proof -
  obtain st1 where "padPhi n st = Some st1" "junkSlots n [0..<numInputs (ps_g st1) n] st1 = Some st'"
    using assms(1) by (auto simp: junkEdges_def bind_eq_Some_conv)
  with assms(2,3) show ?thesis by (blast intro: calm_trans padPhi_calm junkSlots_calm)
qed

lemma junkUser_calm: "junkUser n u st = Some st' \<Longrightarrow> u_user u \<in> D \<Longrightarrow> calm D st st'"
  using calm_setInput junkForSlot_step [of "u_user u" "u_slot u" st]
  by (auto simp: junkUser_def Let_def sinkStep_def bind_eq_Some_conv split: if_splits)

lemma junkUsers_calm: "junkUsers n us st = Some st' \<Longrightarrow> \<forall>u \<in> set us. u_user u \<in> D \<Longrightarrow> calm D st st'"
proof (induction n us st rule: junkUsers.induct)
  case (2 n u us st)
  then obtain st1 where "junkUser n u st = Some st1" "junkUsers n us st1 = Some st'" by (auto simp: bind_eq_Some_conv)
  then show ?case using junkUser_calm calm_trans 2 by (metis list.set_intros)
qed simp

end
