(* ===== verification/Pass_Rewrite.thy ===== *)
theory Pass_Rewrite
  imports Pass_Junk "HOL-Library.Multiset"
begin

text \<open>
  The refinement relation between a graph and the graph a pass leaves, and the two ways a pass removes a
  node: \<open>replace\<close> by a node of the same history, and \<open>kill\<close> of a node without live users.
\<close>

section \<open>Refinement\<close>

definition liveInputs :: "graph \<Rightarrow> bool" where
  "liveInputs g \<longleftrightarrow> (\<forall>n v. liveIn g n \<and> v \<in> set (absg g ! n) \<and> v < nodesSize g \<longrightarrow> liveIn g v)"

definition passGood :: "pass_state \<Rightarrow> bool" where
  "passGood st \<longleftrightarrow> goodState st \<and> liveInputs (ps_g st)"

definition readsSame :: "'x valuation \<Rightarrow> graph \<Rightarrow> 'x valuation \<Rightarrow> graph \<Rightarrow> node_id \<Rightarrow> bool" where
  "readsSame \<rho> g \<rho>' g' n \<longleftrightarrow>
     (if isCommutativeInt (nd_kind (g_nodes g ! n)) then mset (map \<rho>' (absg g' ! n)) = mset (map \<rho> (absg g ! n))
      else map \<rho>' (absg g' ! n) = map \<rho> (absg g ! n))"

definition extendsVal :: "graph \<Rightarrow> 'x valuation \<Rightarrow> 'x valuation \<Rightarrow> bool" where
  "extendsVal g \<rho> \<rho>' \<longleftrightarrow> (\<forall>n. refOk (nodesSize g) n \<longrightarrow> \<rho>' n = \<rho> n)"

text \<open>What a pass may remove: a value that others can compute, or what dead code elimination accepts.\<close>

definition removable :: "node_kind \<Rightarrow> bool" where
  "removable k \<longleftrightarrow> isGvnEligible k \<or> isDceSafe k"

definition refined :: "'x semantics \<Rightarrow> graph \<Rightarrow> 'x valuation \<Rightarrow> graph \<Rightarrow> 'x valuation \<Rightarrow> bool" where
  "refined F g \<rho> g' \<rho>' \<longleftrightarrow> soundVal F g' \<rho>' \<and> extendsVal g \<rho> \<rho>' \<and> nodesSize g \<le> nodesSize g'
     \<and> (\<forall>n < nodesSize g. liveIn g' n \<longrightarrow> liveIn g n \<and> descOf (g_nodes g' ! n) = descOf (g_nodes g ! n)
          \<and> readsSame \<rho> g \<rho>' g' n)
     \<and> (\<forall>n. liveIn g n \<and> \<not> removable (nd_kind (g_nodes g ! n)) \<longrightarrow> liveIn g' n)"

lemma readsSameI: "map \<rho>' (absg g' ! n) = map \<rho> (absg g ! n) \<Longrightarrow> readsSame \<rho> g \<rho>' g' n"
  unfolding readsSame_def by (simp only: split: if_split) blast

lemma extendsVal_trans:
  "extendsVal g \<rho> \<rho>1 \<Longrightarrow> extendsVal g1 \<rho>1 \<rho>2 \<Longrightarrow> nodesSize g \<le> nodesSize g1 \<Longrightarrow> extendsVal g \<rho> \<rho>2"
  using refOk_mono by (auto simp: extendsVal_def)

lemma refined_old: "refined F g \<rho> g' \<rho>' \<Longrightarrow> refOk (nodesSize g) n \<Longrightarrow> \<rho>' n = \<rho> n"
  by (simp add: refined_def extendsVal_def)

lemma refined_sound: "refined F g \<rho> g' \<rho>' \<Longrightarrow> soundVal F g' \<rho>'"
  by (simp add: refined_def)

lemma refined_refl: "soundVal F g \<rho> \<Longrightarrow> refined F g \<rho> g \<rho>"
  by (simp add: refined_def extendsVal_def readsSame_def)

lemma refined_trans:
  assumes "refined F g \<rho> g1 \<rho>1" "refined F g1 \<rho>1 g2 \<rho>2"
  shows "refined F g \<rho> g2 \<rho>2"
proof -
  have s: "nodesSize g \<le> nodesSize g1" "nodesSize g1 \<le> nodesSize g2" using assms by (simp_all add: refined_def)
  have "liveIn g n \<and> descOf (g_nodes g2 ! n) = descOf (g_nodes g ! n) \<and> readsSame \<rho> g \<rho>2 g2 n"
    if "n < nodesSize g" "liveIn g2 n" for n
  proof -
    have 2: "liveIn g1 n" "descOf (g_nodes g2 ! n) = descOf (g_nodes g1 ! n)" "readsSame \<rho>1 g1 \<rho>2 g2 n"
      using assms(2) that s by (auto simp: refined_def)
    then have 1: "liveIn g n" "descOf (g_nodes g1 ! n) = descOf (g_nodes g ! n)" "readsSame \<rho> g \<rho>1 g1 n"
      using assms(1) that by (auto simp: refined_def)
    then show ?thesis using 2 by (auto simp: readsSame_def descOf_def)
  qed
  moreover have "liveIn g2 n" if "liveIn g n" "\<not> removable (nd_kind (g_nodes g ! n))" for n
  proof -
    have "liveIn g1 n" "n < nodesSize g" using assms(1) that by (auto simp: refined_def liveIn_def)
    moreover from this have "nd_kind (g_nodes g1 ! n) = nd_kind (g_nodes g ! n)" using assms(1) by (auto simp: refined_def descOf_def)
    ultimately show ?thesis using assms(2) that(2) by (auto simp: refined_def)
  qed
  moreover have "soundVal F g2 \<rho>2" "extendsVal g \<rho> \<rho>2"
    using assms extendsVal_trans [of g \<rho> \<rho>1 g1 \<rho>2] s(1) by (simp_all add: refined_def)
  ultimately show ?thesis unfolding refined_def using s by (meson order_trans)
qed

text \<open>One step of a pass: sizes grow, and a well-formed state stays well formed while every sound
  valuation is refined.\<close>

definition passStep :: "'x semantics \<Rightarrow> pass_state \<Rightarrow> pass_state \<Rightarrow> bool" where
  "passStep F st st' \<longleftrightarrow> grows (ps_g st) (ps_g st') \<and>
     (passGood st \<and> sizesOk (ps_g st') \<longrightarrow> passGood st'
        \<and> (\<forall>\<rho>. soundVal F (ps_g st) \<rho> \<longrightarrow> (\<exists>\<rho>'. refined F (ps_g st) \<rho> (ps_g st') \<rho>')))"

lemma passStep_refl: "passStep F st st"
  using refined_refl by (auto simp: passStep_def)

lemma passStep_trans:
  assumes "passStep F st st1" "passStep F st1 st2"
  shows "passStep F st st2"
  unfolding passStep_def
proof (intro conjI impI allI; (elim conjE)?)
  show "grows (ps_g st) (ps_g st2)" using assms grows_trans by (auto simp: passStep_def)
  assume a: "passGood st" "sizesOk (ps_g st2)"
  then have s: "sizesOk (ps_g st1)" using assms(2) grows_sizes by (auto simp: passStep_def)
  then have 1: "passGood st1" using assms(1) a by (auto simp: passStep_def)
  then show "passGood st2" using assms(2) a by (auto simp: passStep_def)
  fix \<rho> assume "soundVal F (ps_g st) \<rho>"
  then obtain \<rho>1 where r: "refined F (ps_g st) \<rho> (ps_g st1) \<rho>1" using assms(1) a s by (auto simp: passStep_def)
  then have "soundVal F (ps_g st1) \<rho>1" by (simp add: refined_def)
  then obtain \<rho>2 where "refined F (ps_g st1) \<rho>1 (ps_g st2) \<rho>2" using assms(2) 1 a by (auto simp: passStep_def)
  then show "\<exists>\<rho>'. refined F (ps_g st) \<rho> (ps_g st2) \<rho>'" using refined_trans [OF r] by blast
qed

lemma passStep_fields: "ps_g st1 = ps_g st \<Longrightarrow> ps_jk st1 = ps_jk st \<Longrightarrow> passStep F st st1"
  using refined_refl by (auto simp: passStep_def passGood_def goodState_def)

section \<open>Valuations of graphs with junk\<close>

definition soundOff :: "node_id set \<Rightarrow> 'x semantics \<Rightarrow> graph \<Rightarrow> 'x valuation \<Rightarrow> bool" where
  "soundOff D F g \<rho> \<longleftrightarrow> (\<forall>n. liveIn g n \<and> n \<notin> D \<longrightarrow> nodeSound F \<rho> n (g_nodes g ! n) (absg g ! n))"

lemma row_refs:
  assumes "graphOk g" "n < nodesSize g" "v \<in> set (absg g ! n)"
  shows "refOk (nodesSize g) v"
proof -
  have "absg g ! n \<in> set (absg g)" using assms(2) by (simp add: absg_def)
  moreover have "\<forall>e\<in>set (absg g). \<forall>v\<in>set e. refOk (length (absg g)) v"
    using graphOk_simps(3) [OF assms(1)] unfolding refsOk_def .
  ultimately have "refOk (length (absg g)) v" using assms(3) by blast
  then show ?thesis by (simp add: absg_def)
qed

lemma extendsVal_row:
  "graphOk g \<Longrightarrow> n < nodesSize g \<Longrightarrow> extendsVal g \<rho> \<rho>' \<Longrightarrow> map \<rho>' (absg g ! n) = map \<rho> (absg g ! n)"
  using row_refs by (auto simp: extendsVal_def)

lemma extendsVal_new: "sizesOk g' \<Longrightarrow> n < nodesSize g' \<Longrightarrow> nodesSize g \<le> n \<Longrightarrow> \<not> refOk (nodesSize g) n"
  by (auto simp: refOk_def kInvalidNodeId_def sizesOk_def)

lemma added_sound:
  assumes "addedOk g n" "\<rho> n = F (descOf (g_nodes g ! n)) []"
  shows "nodeSound F \<rho> n (g_nodes g ! n) (absg g ! n)"
proof -
  let ?k = "nd_kind (g_nodes g ! n)"
  have "inert ?k \<or> isConstKind ?k \<and> absg g ! n = []" "nd_flags (g_nodes g ! n) = 0" using assms(1) by (auto simp: addedOk_def)
  then show ?thesis
  proof (elim disjE conjE)
    assume "isConstKind ?k" "absg g ! n = []" "nd_flags (g_nodes g ! n) = 0"
    moreover from this have "\<not> neverNull (g_nodes g ! n)" by (auto simp: neverNull_def flagsHas_def isConstKind_def)
    ultimately show ?thesis using operandTypes_const [of ?k] assms(2) by (simp add: nodeSound_def)
  next
    assume "inert ?k" "nd_flags (g_nodes g ! n) = 0"
    then show ?thesis by (auto simp: nodeSound_def inert_def neverNull_def flagsHas_def)
  qed
qed

lemma junked_valued:
  fixes F :: "'x semantics"
  assumes ok: "graphOk g" and j: "junked D g g'" and sz: "sizesOk g'" and s: "soundOff D F g \<rho>" and D: "D \<subseteq> {..<nodesSize g}"
  shows "\<exists>\<rho>'. soundOff D F g' \<rho>' \<and> extendsVal g \<rho> \<rho>'"
proof -
  define \<rho>' where "\<rho>' n = (if refOk (nodesSize g) n then \<rho> n else F (descOf (g_nodes g' ! n)) [])" for n
  have e: "extendsVal g \<rho> \<rho>'" by (simp add: extendsVal_def \<rho>'_def)
  have "nodeSound F \<rho>' n (g_nodes g' ! n) (absg g' ! n)" if n: "liveIn g' n" "n \<notin> D" for n
  proof (cases "n < nodesSize g")
    case True
    have same: "sameNode g g' n" "absg g' ! n = absg g ! n" using j True n(2) by (auto simp: junked_def)
    then have "liveIn g n" using n(1) True sameNode_live [of g g' n] by (simp add: liveIn_def)
    then have "nodeSound F \<rho> n (g_nodes g ! n) (absg g ! n)" using s n(2) by (simp add: soundOff_def)
    moreover have "\<rho>' n = \<rho> n" using True by (simp add: \<rho>'_def refOk_def)
    ultimately show ?thesis
      using nodeSound_cong [of "g_nodes g' ! n" "g_nodes g ! n" \<rho>' n \<rho> "absg g' ! n" "absg g ! n" F] same
        extendsVal_row [OF ok True e] by (simp add: sameNode_def)
  next
    case False
    then have nn: "n < nodesSize g'" "nodesSize g \<le> n" using n(1) by (auto simp: liveIn_def)
    then have "addedOk g' n" using j by (simp add: junked_def)
    then show ?thesis by (rule added_sound) (use extendsVal_new [OF sz nn] in \<open>simp add: \<rho>'_def\<close>)
  qed
  then show ?thesis using e by (auto simp: soundOff_def)
qed

section \<open>Replacement\<close>

lemma replaceNode_nodes:
  assumes "replaceable old w g" "n < nodesSize g"
  shows "descOf (g_nodes (fst (replaceNode old w g)) ! n) = descOf (g_nodes g ! n)"
    and "liveIn (fst (replaceNode old w g)) n \<longleftrightarrow> liveIn g n \<and> n \<noteq> old"
    and "n \<noteq> old \<Longrightarrow> g_nodes (fst (replaceNode old w g)) ! n = g_nodes g ! n"
proof -
  have r: "old < nodesSize g" "w < nodesSize g" "\<not> isDead (g_nodes g ! w)" "old \<noteq> w"
    using assms(1) by (simp_all add: replaceable_def)
  show "descOf (g_nodes (fst (replaceNode old w g)) ! n) = descOf (g_nodes g ! n)"
    "n \<noteq> old \<Longrightarrow> g_nodes (fst (replaceNode old w g)) ! n = g_nodes g ! n"
    using r assms(2) by (cases "n = old"; simp add: replaceNode_def Let_def nextEpoch_def descOf_def)+
  show "liveIn (fst (replaceNode old w g)) n \<longleftrightarrow> liveIn g n \<and> n \<noteq> old"
    using r assms(2) by (cases "n = old") (simp_all add: replaceNode_def Let_def nextEpoch_def liveIn_def isDead_def)
qed

lemma replaceNode_keeps:
  "nodesSize (fst (replaceNode old w g)) = nodesSize g" "g_start (fst (replaceNode old w g)) = g_start g"
  "length (g_edgePool (fst (replaceNode old w g))) = length (g_edgePool g)"
proof -
  have s: "g_start (setInput n s v h) = g_start h" "length (g_edgePool (setInput n s v h)) = length (g_edgePool h)" for n s v h
    by (simp_all add: setInput_def Let_def pushUse_def removeFromUses_def)
  have "g_start (fold (rewireUse old w) us h) = g_start h" "length (g_edgePool (fold (rewireUse old w) us h)) = length (g_edgePool h)"
    for us h by (induction us arbitrary: h) (simp_all add: rewireUse_def s)
  then show "nodesSize (fst (replaceNode old w g)) = nodesSize g" "g_start (fst (replaceNode old w g)) = g_start g"
    "length (g_edgePool (fst (replaceNode old w g))) = length (g_edgePool g)"
    by (simp_all add: replaceNode_def Let_def nextEpoch_def updNode_def)
qed

lemma subst_row:
  assumes "extendsVal g \<rho> \<rho>" "\<rho> w = \<rho> old"
  shows "map \<rho> (map (substNode old w) xs) = map \<rho> xs"
  using assms(2) by (simp add: substNode_def)

lemma replaceNode_refined:
  assumes ok: "graphOk g" and r: "replaceable old w g" and s: "soundVal F g \<rho>" and e: "\<rho> w = \<rho> old"
    and k: "removable (nd_kind (g_nodes g ! old))"
  shows "refined F g \<rho> (fst (replaceNode old w g)) \<rho>"
proof -
  let ?g = "fst (replaceNode old w g)"
  note n = replaceNode_nodes [OF r]
  have row: "map \<rho> (absg ?g ! m) = map \<rho> (absg g ! m)" if "m < nodesSize g" for m
    using replaceNode_ok(2) [OF ok r] that subst_row [where \<rho> = \<rho> and xs = "absg g ! m"] e by (simp add: extendsVal_def)
  have "nodeSound F \<rho> m (g_nodes ?g ! m) (absg ?g ! m)" if "liveIn ?g m" for m
  proof -
    have m: "m < nodesSize g" using that by (simp add: liveIn_def replaceNode_keeps)
    then have l: "liveIn g m" "m \<noteq> old" using n(2) that by simp_all
    then show ?thesis using nodeSound_cong [OF _ _ _ row [OF m]] n(3) [OF m] s by (simp add: soundVal_def)
  qed
  moreover have "liveIn ?g m" if "liveIn g m" "\<not> removable (nd_kind (g_nodes g ! m))" for m
    using that n(2) k by (auto simp: liveIn_def)
  ultimately show ?thesis
    using n row by (auto simp: refined_def soundVal_def extendsVal_def replaceNode_keeps readsSame_def)
qed

lemma replaceNode_liveInputs:
  assumes ok: "graphOk g" and r: "replaceable old w g" and l: "liveInputs g"
  shows "liveInputs (fst (replaceNode old w g))"
  unfolding liveInputs_def
proof (intro allI impI; elim conjE)
  let ?g = "fst (replaceNode old w g)"
  fix n v assume a: "liveIn ?g n" "v \<in> set (absg ?g ! n)" "v < nodesSize ?g"
  have n: "n < nodesSize g" using a(1) by (simp add: liveIn_def replaceNode_keeps)
  then have ln: "liveIn g n" using replaceNode_nodes(2) [OF r n] a(1) by simp
  have w: "liveIn g w" "w \<noteq> old" using r by (auto simp: replaceable_def liveIn_def)
  obtain x where x: "x \<in> set (absg g ! n)" "v = substNode old w x"
    using a(2) replaceNode_ok(2) [OF ok r] n by auto
  have "liveIn g v \<and> v \<noteq> old"
  proof (cases "x = old")
    case True
    then show ?thesis using x(2) w by (simp add: substNode_def)
  next
    case False
    then have "v = x" using x(2) by (simp add: substNode_def)
    then show ?thesis using l ln x(1) a(3) False by (auto simp: liveInputs_def replaceNode_keeps)
  qed
  moreover have "v < nodesSize g" using a(3) by (simp add: replaceNode_keeps)
  ultimately show "liveIn ?g v" using replaceNode_nodes(2) [OF r] by simp
qed

section \<open>Junk edges\<close>

lemma junked_dead: "junked D g g' \<Longrightarrow> n < nodesSize g \<Longrightarrow> liveIn g' n = liveIn g n"
  using sameNode_live [of g g' n] by (auto simp: junked_def liveIn_def)

lemma junked_refined:
  fixes F :: "'x semantics"
  assumes ok: "graphOk g" and j: "junked D g g'" and sz: "sizesOk g'" and s: "soundVal F g \<rho>"
    and D: "D \<subseteq> {..<nodesSize g}" and d: "\<forall>n \<in> D. \<not> liveIn g n"
  shows "\<exists>\<rho>'. refined F g \<rho> g' \<rho>'"
proof -
  have "soundOff D F g \<rho>" using s by (simp add: soundOff_def soundVal_def)
  then obtain \<rho>' where r: "soundOff D F g' \<rho>'" "extendsVal g \<rho> \<rho>'" using junked_valued [OF ok j sz _ D] by blast
  have nD: "n \<notin> D" if "liveIn g' n" for n
    using that d D junked_dead [OF j, of n] by auto
  have "liveIn g n \<and> descOf (g_nodes g' ! n) = descOf (g_nodes g ! n) \<and> readsSame \<rho> g \<rho>' g' n"
    if n: "n < nodesSize g" "liveIn g' n" for n
  proof -
    have "absg g' ! n = absg g ! n" "sameNode g g' n" using j n(1) nD [OF n(2)] by (auto simp: junked_def)
    then show ?thesis using junked_dead [OF j n(1)] n(2) readsSameI [of \<rho>' g' n \<rho> g] extendsVal_row [OF ok n(1) r(2)]
      by (simp add: sameNode_def)
  qed
  moreover have "soundVal F g' \<rho>'" using r(1) nD by (simp add: soundVal_def soundOff_def)
  moreover have "nodesSize g \<le> nodesSize g'" using j by (simp add: junked_def)
  ultimately have "refined F g \<rho> g' \<rho>'" using r(2) junked_live [OF j] by (simp add: refined_def)
  then show ?thesis by blast
qed

lemma junked_row_live:
  assumes j: "junked D g g'" and l: "liveInputs g" and n: "liveIn g' n" "n \<notin> D" and v: "v \<in> set (absg g' ! n)" "v < nodesSize g'"
    and ok: "graphOk g" "sizesOk g'"
  shows "liveIn g' v"
proof (cases "n < nodesSize g")
  case True
  then have row: "absg g' ! n = absg g ! n" using j n(2) by (auto simp: junked_def)
  have "refOk (nodesSize g) v" using row_refs [OF ok(1) True] v(1) row by simp
  then have "v < nodesSize g" using v(2) ok(2) by (auto simp: refOk_def kInvalidNodeId_def sizesOk_def)
  then have "liveIn g v" using l junked_dead [OF j True] n(1) v(1) row by (auto simp: liveInputs_def)
  then show ?thesis by (rule junked_live [OF j])
next
  case False
  then have "addedOk g' n" using j n(1) by (simp add: junked_def liveIn_def)
  then show ?thesis using v(1) by (simp add: addedOk_def)
qed

lemma junked_liveInputs:
  assumes "junked D g g'" "liveInputs g" "graphOk g" "sizesOk g'" "D \<subseteq> {..<nodesSize g}" "\<forall>n \<in> D. \<not> liveIn g n"
  shows "liveInputs g'"
proof -
  have "n \<notin> D" if "liveIn g' n" for n using that assms(5,6) junked_dead [OF assms(1), of n] by auto
  then show ?thesis using junked_row_live [OF assms(1,2) _ _ _ _ assms(3,4)] by (auto simp: liveInputs_def)
qed

end
