(* ===== verification/Pass_Protocol.thy ===== *)
theory Pass_Protocol
  imports Pass_Rewrite
begin

text \<open>
  The two protocols by which a pass removes a node preserve the meaning of the graph: \<open>replace\<close> by a node
  of the same history, and \<open>kill\<close>, which refuses while a live node reads the victim.
\<close>

section \<open>Replacement\<close>

lemma chargeState_fields [simp]:
  "ps_g (fst (chargeState st)) = ps_g st" "ps_jk (fst (chargeState st)) = ps_jk st" "ps_t (fst (chargeState st)) = ps_t st"
  by (simp_all add: chargeState_def split_beta)

lemma goodState_fields: "ps_g st = ps_g st1 \<Longrightarrow> ps_jk st = ps_jk st1 \<Longrightarrow> goodState st = goodState st1"
  by (simp add: goodState_def)

lemma replace_outcome:
  assumes "replace old w st = Some st'"
  shows "ps_g st' = ps_g st \<and> ps_jk st' = ps_jk st \<or>
    replaceable old w (ps_g st) \<and> (\<exists>st2. ps_g st2 = fst (replaceNode old w (ps_g st)) \<and> ps_jk st2 = ps_jk st \<and> calm {old} st2 st')"
proof (cases "replaceable old w (ps_g st)")
  case False
  then show ?thesis using assms replaceNode_refused [OF False]
    by (auto simp: replace_def split_beta onGraph_def Let_def split: if_splits)
next
  case True
  then have "old < nodesSize (fst (replaceNode old w (ps_g st)))" by (simp add: replaceNode_keeps replaceable_def)
  then show ?thesis using assms True
    by (auto simp: replace_def split_beta onGraph_def Let_def split: if_splits dest!: junkEdges_calm [where D = "{old}"]
      intro: exI [of _ st'])
qed

lemma replaceNode_grows: "grows g (fst (replaceNode old w g))"
  by (simp add: grows_def replaceNode_keeps)

lemma replace_grows:
  assumes "replace old w st = Some st'"
  shows "grows (ps_g st) (ps_g st')"
  using replace_outcome [OF assms]
proof (elim disjE conjE exE)
  fix st2 assume "ps_g st2 = fst (replaceNode old w (ps_g st))" "calm {old} st2 st'"
  then show ?thesis using grows_trans [OF replaceNode_grows [of "ps_g st" old w]] by (simp add: calm_def)
qed simp

text \<open>The state between the rewiring and the junk edges.\<close>

lemma replaceNode_good:
  assumes "goodState st" "replaceable old w (ps_g st)" "old \<noteq> g_start (ps_g st)"
    and "ps_g st2 = fst (replaceNode old w (ps_g st))" "ps_jk st2 = ps_jk st"
  shows "goodState st2"
proof -
  have s: "g_start (ps_g st) < nodesSize (ps_g st)" using assms(1) by (simp add: goodState_def startOk_def liveIn_def)
  have "startOk (ps_g st2)"
    using replaceNode_nodes(2,3) [OF assms(2) s] assms(1,3,4) by (auto simp: startOk_def replaceNode_keeps goodState_def)
  then show ?thesis using replaceNode_ok(1) [OF _ assms(2)] assms(1,4,5) by (simp add: goodState_def replaceNode_keeps)
qed

lemma replace_calm:
  assumes "calm {old} st2 st'" "goodState st2" "sizesOk (ps_g st')" "old < nodesSize (ps_g st2)" "\<not> liveIn (ps_g st2) old"
    and "liveInputs (ps_g st2)"
  shows "passGood st'" "soundVal F (ps_g st2) \<rho> \<Longrightarrow> \<exists>\<rho>'. refined F (ps_g st2) \<rho> (ps_g st') \<rho>'"
proof -
  have j: "junked {old} (ps_g st2) (ps_g st')" "goodState st'" using assms(1-4) by (auto simp: calm_def)
  have ok: "graphOk (ps_g st2)" using assms(2) by (simp add: goodState_def)
  show "passGood st'"
    using junked_liveInputs [OF j(1) assms(6) ok assms(3)] assms(4,5) j(2) by (simp add: passGood_def)
  show "soundVal F (ps_g st2) \<rho> \<Longrightarrow> \<exists>\<rho>'. refined F (ps_g st2) \<rho> (ps_g st') \<rho>'"
    using junked_refined [OF ok j(1) assms(3)] assms(4,5) by simp
qed

lemma replace_keeps_meaning:
  assumes r: "replace old w st = Some st'" and good: "passGood st" and n: "old \<noteq> g_start (ps_g st)" and sz: "sizesOk (ps_g st')"
  shows "passGood st'"
    and "removable (nd_kind (g_nodes (ps_g st) ! old)) \<Longrightarrow> soundVal F (ps_g st) \<rho> \<Longrightarrow> (liveIn (ps_g st) w \<Longrightarrow> \<rho> w = \<rho> old) \<Longrightarrow> \<exists>\<rho>'. refined F (ps_g st) \<rho> (ps_g st') \<rho>'"
proof -
  have "passGood st' \<and> (removable (nd_kind (g_nodes (ps_g st) ! old)) \<and> soundVal F (ps_g st) \<rho> \<and> (liveIn (ps_g st) w \<longrightarrow> \<rho> w = \<rho> old)
      \<longrightarrow> (\<exists>\<rho>'. refined F (ps_g st) \<rho> (ps_g st') \<rho>'))"
    using replace_outcome [OF r]
  proof (elim disjE conjE exE)
    assume "ps_g st' = ps_g st" "ps_jk st' = ps_jk st"
    then show ?thesis using good goodState_fields [of st' st] refined_refl by (auto simp: passGood_def)
  next
    fix st2 assume ra: "replaceable old w (ps_g st)" and st2: "ps_g st2 = fst (replaceNode old w (ps_g st))" "ps_jk st2 = ps_jk st"
      and c: "calm {old} st2 st'"
    have ok: "graphOk (ps_g st)" "liveInputs (ps_g st)" "goodState st" using good by (auto simp: passGood_def goodState_def)
    have o: "old < nodesSize (ps_g st2)" "\<not> liveIn (ps_g st2) old"
      using ra replaceNode_nodes(2) [OF ra, of old] by (auto simp: st2 replaceNode_keeps replaceable_def)
    have g2: "goodState st2" using replaceNode_good [OF ok(3) ra n st2] .
    have l2: "liveInputs (ps_g st2)" using replaceNode_liveInputs [OF ok(1) ra ok(2)] st2 by simp
    note k = replace_calm [OF c g2 sz o l2]
    have "\<exists>\<rho>'. refined F (ps_g st) \<rho> (ps_g st') \<rho>'" 
      if a: "soundVal F (ps_g st) \<rho>" "liveIn (ps_g st) w \<longrightarrow> \<rho> w = \<rho> old" "removable (nd_kind (g_nodes (ps_g st) ! old))"
    proof -
      have "\<rho> w = \<rho> old" using a(2) ra by (simp add: replaceable_def liveIn_def)
      then have 1: "refined F (ps_g st) \<rho> (ps_g st2) \<rho>" using replaceNode_refined [OF ok(1) ra a(1)] a(3) st2(1) by simp
      then have "soundVal F (ps_g st2) \<rho>" by (simp add: refined_def)
      then show ?thesis using k(2) refined_trans [OF 1] by blast
    qed
    then show ?thesis using k(1) by blast
  qed
  then show "passGood st'" "removable (nd_kind (g_nodes (ps_g st) ! old)) \<Longrightarrow> soundVal F (ps_g st) \<rho> \<Longrightarrow> (liveIn (ps_g st) w \<Longrightarrow> \<rho> w = \<rho> old) \<Longrightarrow> \<exists>\<rho>'. refined F (ps_g st) \<rho> (ps_g st') \<rho>'"
    by blast+
qed

section \<open>Kill\<close>

lemma killNode_nodes:
  "nodesSize (killNode n g) = nodesSize g" "g_start (killNode n g) = g_start g" "g_edgePool (killNode n g) = g_edgePool g"
  "m \<noteq> n \<Longrightarrow> g_nodes (killNode n g) ! m = g_nodes g ! m"
  "liveIn (killNode n g) m \<longleftrightarrow> liveIn g m \<and> m \<noteq> n"
proof -
  show *: "nodesSize (killNode n g) = nodesSize g" "m \<noteq> n \<Longrightarrow> g_nodes (killNode n g) ! m = g_nodes g ! m"
    by (simp_all add: killNode_def Let_def nextEpoch_def)
  show "g_start (killNode n g) = g_start g" "g_edgePool (killNode n g) = g_edgePool g"
    by (simp_all add: killNode_def Let_def nextEpoch_def updNode_def)
  have "n < nodesSize g \<Longrightarrow> \<not> liveIn (killNode n g) n"
    by (simp add: liveIn_def killNode_def Let_def nextEpoch_def isDead_def)
  then show "liveIn (killNode n g) m \<longleftrightarrow> liveIn g m \<and> m \<noteq> n"
    using * by (cases "m = n") (auto simp: liveIn_def)
qed

text \<open>The nodes whose edges a kill may change: the victim and its users, all dead.\<close>

definition killSet :: "graph \<Rightarrow> node_id \<Rightarrow> node_id set" where
  "killSet g n = insert n (u_user ` set (usesOf g n))"

lemma user_iff:
  assumes "graphOk g" "n < nodesSize g"
  shows "m \<in> u_user ` set (usesOf g n) \<longleftrightarrow> m < nodesSize g \<and> n \<in> set (absg g ! m)"
proof -
  have u: "Use m s \<in> set (usesOf g n) \<longleftrightarrow> m < nodesSize g \<and> s < length (absg g ! m) \<and> absg g ! m ! s = n" for m s
    using graphOk_simps(2) [OF assms(1)] usesOf_eq [OF assms] assms(2) by (simp add: usesExact_def)
  have "m \<in> u_user ` set (usesOf g n) \<longleftrightarrow> (\<exists>s. Use m s \<in> set (usesOf g n))" 
    by (metis (no_types, lifting) image_iff use.collapse use.sel(1))
  then show ?thesis unfolding u by (auto simp: in_set_conv_nth)
qed

lemma killSet_sub: "graphOk g \<Longrightarrow> n < nodesSize g \<Longrightarrow> killSet g n \<subseteq> {..<nodesSize g}"
  using user_iff by (auto simp: killSet_def)

lemma nodeCount_ok: "graphOk g \<Longrightarrow> nodeCount g = nodesSize g"
  using storeOkD(2) [OF graphOk_simps(1)] by (simp add: nodeCount_def u32_def)

lemma killSet_dead:
  assumes "graphOk g" "n < nodesSize g" "\<not> hasLiveUser g n" "m \<in> killSet g n" "m \<noteq> n"
  shows "\<not> liveIn g m"
proof -
  have "m \<in> u_user ` set (usesOf g n)" using assms(4,5) by (simp add: killSet_def)
  then show ?thesis using assms(3) by (auto simp: hasLiveUser_def nodeCount_ok [OF assms(1)] liveIn_def node_at_def)
qed

text \<open>The graph before the victim is marked dead.\<close>

lemma kill_refined:
  fixes F :: "'x semantics"
  assumes ok: "graphOk g" and n: "n < nodesSize g" and u: "\<not> hasLiveUser g n" and j: "junked (killSet g n) g g'"
    and sz: "sizesOk g'" and s: "soundVal F g \<rho>" and rm: "removable (nd_kind (g_nodes g ! n))"
  shows "\<exists>\<rho>'. refined F g \<rho> (killNode n g') \<rho>'"
proof -
  let ?D = "killSet g n"
  have D: "?D \<subseteq> {..<nodesSize g}" using killSet_sub [OF ok n] .
  have "soundOff ?D F g \<rho>" using s by (simp add: soundOff_def soundVal_def)
  then obtain \<rho>' where r: "soundOff ?D F g' \<rho>'" "extendsVal g \<rho> \<rho>'" using junked_valued [OF ok j sz _ D] by blast
  have nD: "m \<notin> ?D \<and> liveIn g' m \<and> m \<noteq> n" if "liveIn (killNode n g') m" for m
    using that killSet_dead [OF ok n u, of m] D junked_dead [OF j, of m] by (auto simp: killNode_nodes)
  have "liveIn g m \<and> descOf (g_nodes (killNode n g') ! m) = descOf (g_nodes g ! m) \<and> readsSame \<rho> g \<rho>' (killNode n g') m"
    if m: "m < nodesSize g" "liveIn (killNode n g') m" for m
  proof -
    have "absg (killNode n g') ! m = absg g ! m" "sameNode g g' m" "g_nodes (killNode n g') ! m = g_nodes g' ! m"
      using j m(1) nD [OF m(2)] by (auto simp: junked_def killNode_ok(2) killNode_nodes)
    then show ?thesis using junked_dead [OF j m(1)] nD [OF m(2)] readsSameI [of \<rho>' "killNode n g'" m \<rho> g]
        extendsVal_row [OF ok m(1) r(2)] by (simp add: sameNode_def)
  qed
  moreover have "soundVal F (killNode n g') \<rho>'"
    unfolding soundVal_def using r(1) nD by (metis soundOff_def killNode_ok(2) killNode_nodes(4))
  moreover have "nodesSize g \<le> nodesSize g'" using j by (simp add: junked_def)
  moreover have "liveIn (killNode n g') m" if "liveIn g m" "\<not> removable (nd_kind (g_nodes g ! m))" for m
    using that rm junked_live [OF j] by (auto simp: killNode_nodes)
  ultimately have "refined F g \<rho> (killNode n g') \<rho>'" 
    unfolding refined_def killNode_nodes using r(2) by blast
  then show ?thesis by blast
qed

lemma kill_liveInputs:
  assumes ok: "graphOk g" and n: "n < nodesSize g" "n \<noteq> g_start g" and u: "\<not> hasLiveUser g n" and j: "junked (killSet g n) g g'"
    and sz: "sizesOk g'" and sp: "sprouts (nodesSize g) g g'" and l: "liveInputs g"
  shows "liveInputs (killNode n g')"
  unfolding liveInputs_def
proof (intro allI impI; elim conjE)
  fix m v assume a: "liveIn (killNode n g') m" "v \<in> set (absg (killNode n g') ! m)" "v < nodesSize (killNode n g')"
  have m: "liveIn g' m" "m \<notin> killSet g n"
    using a(1) killSet_dead [OF ok n(1) u, of m] killSet_sub [OF ok n(1)] junked_dead [OF j, of m] by (auto simp: killNode_nodes)
  have row: "v \<in> set (absg g' ! m)" "v < nodesSize g'" using a(2,3) by (simp_all add: killNode_ok(2) killNode_nodes)
  have "v \<noteq> n"
  proof (cases "m < nodesSize g")
    case True
    then have "v \<in> set (absg g ! m)" using row(1) j m(2) by (auto simp: junked_def)
    then show ?thesis using m(2) user_iff [OF ok n(1), of m] True by (auto simp: killSet_def)
  next
    case False
    then have "v = g_start g' \<or> nodesSize g \<le> v" using sp row(1) m(1) by (auto simp: sprouts_def liveIn_def)
    then show ?thesis using n j by (auto simp: junked_def)
  qed
  then show "liveIn (killNode n g') v"
    using junked_row_live [OF j l m row ok sz] by (simp add: killNode_nodes)
qed

lemma kill_step:
  fixes F :: "'x semantics"
  assumes k: "kill n st = Some (st', b)" and n: "n \<noteq> g_start (ps_g st)" and rm: "n < nodesSize (ps_g st) \<Longrightarrow> removable (nd_kind (g_nodes (ps_g st) ! n))"
  shows "passStep F st st'"
proof (cases "n \<ge> nodeCount (ps_g st) \<or> isDead (node_at (ps_g st) n) \<or> \<not> snd (chargeState st) \<or> hasLiveUser (ps_g st) n")
  case True
  then have "ps_g st' = ps_g st" "ps_jk st' = ps_jk st" using k by (auto simp: kill_def split_beta Let_def split: if_splits)
  then show ?thesis by (rule passStep_fields)
next
  case False
  let ?g = "ps_g st"
  define st1 where "st1 = fst (chargeState st)"
  obtain st2 st3 where s: "junkUsers n (usesOf ?g n) st1 = Some st2" "junkEdges n st2 = Some st3"
      "ps_g st' = killNode n (ps_g st3)" "ps_jk st' = ps_jk st3"
    using k False by (auto simp: kill_def split_beta Let_def bind_eq_Some_conv st1_def updGraph_def split: if_splits)
  have nn: "n < nodesSize ?g" using False by (auto simp: nodeCount_def u32_def intro: less_le_trans)
  have g1: "ps_g st1 = ?g" "ps_jk st1 = ps_jk st" by (simp_all add: st1_def)
  have c1: "calm (killSet ?g n) st1 st2" using junkUsers_calm [OF s(1)] by (auto simp: killSet_def)
  then have "n < nodesSize (ps_g st2)" using nn g1 by (auto simp: calm_def grows_def)
  then have c: "calm (killSet ?g n) st1 st3"
    using calm_trans [OF c1 junkEdges_calm [OF s(2)]] by (simp add: killSet_def)
  then have gr: "grows ?g (ps_g st')" using g1 s(3) by (simp add: calm_def grows_def killNode_nodes)
  have "passGood st' \<and> (\<forall>\<rho>. soundVal F ?g \<rho> \<longrightarrow> (\<exists>\<rho>'. refined F ?g \<rho> (ps_g st') \<rho>'))"
    if a: "passGood st" "sizesOk (ps_g st')"
  proof -
    have ok: "graphOk ?g" "liveInputs ?g" "goodState st1" using a(1) g1 goodState_fields [of st1 st] by (auto simp: passGood_def goodState_def)
    have sz: "sizesOk (ps_g st3)" using a(2) s(3) by (simp add: sizesOk_def killNode_nodes)
    have j: "junked (killSet ?g n) ?g (ps_g st3)" "sprouts (nodesSize ?g) ?g (ps_g st3)" "goodState st3"
      using c ok(3) sz g1 killSet_sub [OF ok(1) nn] by (auto simp: calm_def)
    have u: "\<not> hasLiveUser ?g n" using False by simp
    have "goodState st'" using j(3) n j(1)
      by (auto simp: goodState_def s(3,4) killNode_ok startOk_def killNode_nodes junked_def)
    moreover have "liveInputs (ps_g st')" using kill_liveInputs [OF ok(1) nn n u j(1) sz j(2) ok(2)] s(3) by simp
    ultimately show ?thesis using kill_refined [OF ok(1) nn u j(1) sz _ rm [OF nn]] unfolding passGood_def s(3) by blast
  qed
  then show ?thesis using gr by (simp add: passStep_def)
qed

end
