(* ===== verification/Pass_Rules.thy ===== *)
theory Pass_Rules
  imports Pass_Protocol
begin

unbundle bit_operations_syntax

text \<open>
  The rewrite rules of the simplify engine: the node a rule proposes has the history of the node it
  replaces. The rules that collapse trivial phis are apart: they do not look at what a node computes.
\<close>

section \<open>What a rule promises\<close>

definition goodGraph :: "graph \<Rightarrow> bool" where
  "goodGraph g \<longleftrightarrow> graphOk g \<and> startOk g \<and> liveInputs g"

lemma passGood_alt: "passGood st \<longleftrightarrow> goodGraph (ps_g st) \<and> junkOk (nodesSize (ps_g st)) (ps_jk st)"
  by (auto simp: passGood_def goodGraph_def goodState_def)

definition rewriteOk :: "'x semantics \<Rightarrow> node_id \<Rightarrow> graph \<Rightarrow> graph \<times> node_id \<Rightarrow> bool" where
  "rewriteOk F n g r \<longleftrightarrow> grows g (fst r) \<and> (goodGraph g \<and> sizesOk (fst r) \<longrightarrow>
     goodGraph (fst r) \<and> g_start (fst r) = g_start g \<and> (\<forall>m < nodesSize g. g_nodes (fst r) ! m = g_nodes g ! m)
     \<and> (\<forall>\<rho>. soundVal F g \<rho> \<longrightarrow> (\<exists>\<rho>'. refined F g \<rho> (fst r) \<rho>' \<and> (liveIn (fst r) (snd r) \<longrightarrow> \<rho>' (snd r) = \<rho>' n))))"

lemma rewriteOk_keep:
  assumes "\<And>\<rho>. goodGraph g \<Longrightarrow> soundVal F g \<rho> \<Longrightarrow> liveIn g x \<Longrightarrow> \<rho> x = \<rho> n"
  shows "rewriteOk F n g (g, x)"
  unfolding rewriteOk_def using assms refined_refl by (auto, blast)

text \<open>A new node with the inputs \<open>ins\<close>.\<close>

lemma typed_not_null: "operandTypes k = Some ts \<Longrightarrow> nd_kind nd = k \<Longrightarrow> nd_flags nd = 0 \<Longrightarrow> \<not> neverNull nd"
  by (auto simp: neverNull_def flagsHas_def operandTypes_def binaryOperandTypes_def unaryOperandType_def isConstKind_def)

lemma makeRaw_refined:
  fixes F :: "'x semantics"
  assumes ok: "graphOk g" "sizesOk (fst (makeRaw k ins p p2 c g))" "length ins < 2 ^ 16" "\<forall>v\<in>set ins. refOk (nodesSize g) v"
    and ty: "operandTypes k = Some ts" "\<forall>t. list_all2 (\<lambda>m ty. ofType (\<rho> m t) ty) ins ts" and s: "soundVal F g \<rho>"
  shows "\<exists>\<rho>'. refined F g \<rho> (fst (makeRaw k ins p p2 c g)) \<rho>' \<and> \<rho>' (nodesSize g) = F (k, p, p2, c) (map \<rho> ins)"
proof -
  let ?g = "fst (makeRaw k ins p p2 c g)"
  let ?n = "nodesSize g"
  note m = makeRaw_node [OF ok]
  define \<rho>' where "\<rho>' = \<rho>(?n := F (k, p, p2, c) (map \<rho> ins))"
  have nr: "\<not> refOk ?n ?n" using extendsVal_new [OF ok(2), of ?n g] m(7) by simp
  then have e: "extendsVal g \<rho> \<rho>'" by (auto simp: extendsVal_def \<rho>'_def)
  have ins: "map \<rho>' ins = map \<rho> ins" using ok(4) nr by (auto simp: \<rho>'_def)
  have row: "absg ?g ! i = (if i < ?n then absg g ! i else ins)" if "i \<le> ?n" for i using m(2) that by (auto simp: nth_append)
  have old: "map \<rho>' (absg ?g ! i) = map \<rho> (absg g ! i)" if "i < ?n" for i
    using extendsVal_row [OF ok(1) that e] row [of i] that by simp
  have "nodeSound F \<rho>' ?n (g_nodes ?g ! ?n) ins"
  proof -
    have k: "nd_kind (g_nodes ?g ! ?n) = k" using m(5) by (simp add: descOf_def)
    have "list_all2 (\<lambda>m ty. ofType (\<rho>' m t) ty) ins ts" for t
      using ty(2) arg_cong [OF ins, of "\<lambda>hs. list_all2 (\<lambda>h ty. ofType (h t) ty) hs ts"] by (simp add: list_all2_map1)
    then show ?thesis unfolding nodeSound_def k ins m(5) using ty(1) typed_not_null [OF ty(1) k m(6)] by (simp add: \<rho>'_def)
  qed
  moreover have "nodeSound F \<rho>' i (g_nodes ?g ! i) (absg ?g ! i)" if "i < ?n" "liveIn ?g i" for i
    using nodeSound_cong [OF _ _ _ old [OF that(1)], of "g_nodes ?g ! i" "g_nodes g ! i" i F] m(8) [OF that(1)] s that
    by (simp add: soundVal_def \<rho>'_def liveIn_def)
  ultimately have "soundVal F ?g \<rho>'" using m(7) row by (auto simp: soundVal_def liveIn_def less_Suc_eq)
  moreover have "liveIn ?g i" if "liveIn g i" for i using that m(7,8) by (simp add: liveIn_def)
  ultimately have "refined F g \<rho> ?g \<rho>'" using e m(7,8) old readsSameI [of \<rho>' ?g _ \<rho> g] by (auto simp: refined_def liveIn_def)
  then show ?thesis by (auto simp: \<rho>'_def)
qed

lemma makeRaw_good:
  assumes ok: "goodGraph g" "sizesOk (fst (makeRaw k ins p p2 c g))" "length ins < 2 ^ 16"
    and l: "\<forall>v\<in>set ins. refOk (nodesSize g) v \<and> (v < nodesSize g \<longrightarrow> liveIn g v)"
  shows "goodGraph (fst (makeRaw k ins p p2 c g))"
proof -
  let ?g = "fst (makeRaw k ins p p2 c g)"
  have g: "graphOk g" "startOk g" "liveInputs g" using ok(1) by (simp_all add: goodGraph_def)
  have refs: "\<forall>v\<in>set ins. refOk (nodesSize g) v" using l by simp
  note m = makeRaw_node [OF g(1) ok(2,3) refs]
  have up: "liveIn ?g v" if "liveIn g v" for v using that m(7,8) by (simp add: liveIn_def)
  have small: "v < nodesSize g" if "refOk (nodesSize g) v" "v < nodesSize ?g" for v
    using that ok(2) by (auto simp: refOk_def kInvalidNodeId_def sizesOk_def)
  have "liveIn ?g v" if a: "liveIn ?g i" "v \<in> set (absg ?g ! i)" "v < nodesSize ?g" for i v
  proof (cases "i < nodesSize g")
    case True
    then have r: "v \<in> set (absg g ! i)" "liveIn g i" using a(1,2) m(2,8) by (auto simp: nth_append liveIn_def)
    then have "v < nodesSize g" using row_refs [OF g(1) True] small a(3) by blast
    then show ?thesis using up r g(3) by (auto simp: liveInputs_def)
  next
    case False
    then have "v \<in> set ins" using a(1,2) m(2,7) by (simp add: nth_append liveIn_def)
    then show ?thesis using l small [of v] a(3) up by blast
  qed
  then have "liveInputs ?g" by (auto simp: liveInputs_def)
  moreover have "startOk ?g" using g(2) up m(4,8) by (auto simp: startOk_def liveIn_def)
  ultimately show ?thesis using m(1) by (simp add: goodGraph_def)
qed

lemma rewriteOk_make:
  assumes n: "liveIn g n" and ins: "length ins < 2 ^ 16" "goodGraph g \<Longrightarrow> \<forall>v\<in>set ins. refOk (nodesSize g) v \<and> (v < nodesSize g \<longrightarrow> liveIn g v)"
    and ty: "operandTypes k = Some ts"
    and v: "\<And>\<rho> t. goodGraph g \<Longrightarrow> soundVal F g \<rho> \<Longrightarrow> list_all2 (\<lambda>m ty. ofType (\<rho> m t) ty) ins ts"
      "\<And>\<rho> t. goodGraph g \<Longrightarrow> soundVal F g \<rho> \<Longrightarrow> F (k, p, p2, c) (map \<rho> ins) t = \<rho> n t"
  shows "rewriteOk F n g (makeRaw k ins p p2 c g)"
  unfolding rewriteOk_def
proof (intro conjI impI allI makeRaw_grows; (elim conjE)?)
  let ?g = "fst (makeRaw k ins p p2 c g)"
  assume a: "goodGraph g" "sizesOk ?g"
  have refs: "\<forall>v\<in>set ins. refOk (nodesSize g) v" using ins(2) a(1) by simp
  have ok: "graphOk g" using a(1) by (simp add: goodGraph_def)
  note m = makeRaw_node [OF ok a(2) ins(1) refs]
  show "goodGraph ?g" by (rule makeRaw_good [OF a ins(1) ins(2) [OF a(1)]])
  show "g_start ?g = g_start g" by (rule m(4))
  show "g_nodes ?g ! i = g_nodes g ! i" if "i < nodesSize g" for i by (rule m(8) [OF that])
  fix \<rho> assume s: "soundVal F g \<rho>"
  obtain \<rho>' where r: "refined F g \<rho> ?g \<rho>'" "\<rho>' (nodesSize g) = F (k, p, p2, c) (map \<rho> ins)"
    using makeRaw_refined [OF ok a(2) ins(1) refs ty _ s] v(1) [OF a(1) s] by blast
  have "\<rho>' n = \<rho> n" using refined_old [OF r(1)] n by (simp add: refOk_def liveIn_def)
  then have "\<rho>' (nodesSize g) = \<rho>' n" using r(2) v(2) [OF a(1) s] by auto
  then show "\<exists>\<rho>'. refined F g \<rho> ?g \<rho>' \<and> (liveIn ?g (snd (makeRaw k ins p p2 c g)) \<longrightarrow> \<rho>' (snd (makeRaw k ins p p2 c g)) = \<rho>' n)"
    using r(1) m(3) by auto
qed

text \<open>A new constant.\<close>

lemma ucast_ucast_small: "ucast (ucast (w :: 32 word) :: 64 word) = w"
  by (rule bit_word_eqI) (simp add: bit_simps)

lemma javaModelD:
  "javaModel u F \<Longrightarrow> map (\<lambda>h. h t) hs = map Java vs \<Longrightarrow> nodeMeaning u k c vs = Some v \<Longrightarrow> F (k, p, p2, c) hs t = Java v"
  unfolding javaModel_def by blast

lemma rewriteOk_const:
  assumes "javaModel u F" "liveIn g n" "meaning0 k c = Some v" "\<And>\<rho> t. goodGraph g \<Longrightarrow> soundVal F g \<rho> \<Longrightarrow> \<rho> n t = Java v"
  shows "rewriteOk F n g (makeRaw k [] p p2 c g)"
proof (rule rewriteOk_make [OF assms(2)])
  have "isConstKind k" using assms(3) by (auto simp: meaning0_def isConstKind_def split: if_splits)
  then show "operandTypes k = Some []" by (rule operandTypes_const)
  show "F (k, p, p2, c) (map \<rho> []) t = \<rho> n t" if "goodGraph g" "soundVal F g \<rho>" for \<rho> t
    using javaModelD [OF assms(1), of t "[]" "[]" k c v p p2] assms(3) assms(4) [OF that, of t] by simp
qed simp_all

lemma rewriteOk_constants:
  assumes "javaModel u F" "liveIn g n"
  shows "(\<And>\<rho> t. goodGraph g \<Longrightarrow> soundVal F g \<rho> \<Longrightarrow> \<rho> n t = Java (VInt w)) \<Longrightarrow> rewriteOk F n g (constantI w g)"
    and "(\<And>\<rho> t. goodGraph g \<Longrightarrow> soundVal F g \<rho> \<Longrightarrow> \<rho> n t = Java (VLong l)) \<Longrightarrow> rewriteOk F n g (constantL l g)"
    and "(\<And>\<rho> t. goodGraph g \<Longrightarrow> soundVal F g \<rho> \<Longrightarrow> \<rho> n t = Java (VFloat w)) \<Longrightarrow> rewriteOk F n g (constantF w g)"
    and "(\<And>\<rho> t. goodGraph g \<Longrightarrow> soundVal F g \<rho> \<Longrightarrow> \<rho> n t = Java (VDouble l)) \<Longrightarrow> rewriteOk F n g (constantD l g)"
    and "(\<And>\<rho> t. goodGraph g \<Longrightarrow> soundVal F g \<rho> \<Longrightarrow> \<rho> n t = Java VNull) \<Longrightarrow> rewriteOk F n g (constantNull g)"
  unfolding constantI_def constantL_def constantF_def constantD_def constantNull_def
  using rewriteOk_const [OF assms, where v = "VInt w"] rewriteOk_const [OF assms, where v = "VLong l"]
    rewriteOk_const [OF assms, where v = "VFloat w"] rewriteOk_const [OF assms, where v = "VDouble l"]
    rewriteOk_const [OF assms, where v = VNull]
  by (simp_all add: meaning0_def ucast_scast ucast_ucast_small)

end
