(* ===== verification/Pass_Values.thy ===== *)
theory Pass_Values
  imports Pass_Rules
begin

unbundle bit_operations_syntax

text \<open>
  The identity, folding and strength rules keep the history of the node they replace.
\<close>

section \<open>Operands of a live node\<close>

text \<open>The situation every rule is used in: the node is live and the valuation sound.\<close>

definition ruleAt :: "fpu \<Rightarrow> 'x semantics \<Rightarrow> graph \<Rightarrow> 'x valuation \<Rightarrow> node_id \<Rightarrow> bool" where
  "ruleAt u F g \<rho> n \<longleftrightarrow> javaModel u F \<and> goodGraph g \<and> soundVal F g \<rho> \<and> liveIn g n"

abbreviation kindAt :: "graph \<Rightarrow> node_id \<Rightarrow> node_kind" where
  "kindAt g n \<equiv> nd_kind (g_nodes g ! n)"

lemma node_at_live: "liveIn g n \<Longrightarrow> node_at g n = g_nodes g ! n"
  by (simp add: node_at_def liveIn_def)

lemma input_refOk:
  assumes "goodGraph g"
  shows "refOk (nodesSize g) (input g n s)"
proof (cases "n < nodesSize g \<and> s < cnt g n")
  case True
  then have "input g n s \<in> set (absg g ! n)" by (simp add: input_absg)
  then show ?thesis using row_refs [of g n] True assms by (simp add: goodGraph_def)
next
  case False
  then have "input g n s = kInvalidNodeId"
    by (auto simp: input_def node_at_def cnt_def Let_def defaultNode_def)
  then show ?thesis by (simp add: refOk_def)
qed

lemma input_live:
  assumes "goodGraph g" "liveIn g n" "input g n s < nodesSize g"
  shows "liveIn g (input g n s)"
proof -
  have n: "n < nodesSize g" using assms(2) by (simp add: liveIn_def)
  have sz: "nodesSize g < 2 ^ 32" using assms(1) storeOkD(2) [OF graphOk_simps(1)] by (simp add: goodGraph_def)
  have "s < cnt g n"
  proof (rule ccontr)
    assume "\<not> s < cnt g n"
    then have "input g n s = kInvalidNodeId" using n by (simp add: input_def node_at_def cnt_def Let_def)
    then show False using assms(3) sz by (simp add: kInvalidNodeId_def)
  qed
  then have "input g n s \<in> set (absg g ! n)" using n by (simp add: input_absg)
  then show ?thesis using assms by (auto simp: goodGraph_def liveInputs_def)
qed

lemma kind_in_range: "nd_kind (node_at g a) \<noteq> Nk_Start \<Longrightarrow> a < nodesSize g"
  by (rule ccontr) (simp add: node_at_def defaultNode_def)

lemma const_value:
  assumes r: "ruleAt u F g \<rho> n" and m: "meaning0 (nd_kind (node_at g (input g n s))) (nd_constValue (node_at g (input g n s))) = Some v"
  shows "\<rho> (input g n s) t = Java v"
proof -
  have "nd_kind (node_at g (input g n s)) \<noteq> Nk_Start" using m by (auto simp: meaning0_def split: if_splits)
  then have l: "liveIn g (input g n s)" using input_live r kind_in_range by (auto simp: ruleAt_def)
  then show ?thesis using sound_const [of u F g \<rho> "input g n s"] r m by (simp add: ruleAt_def node_at_live)
qed

lemma constOf_value:
  assumes "ruleAt u F g \<rho> n" "valOfConst (constOf g (input g n s)) = Some v"
  shows "\<rho> (input g n s) t = Java v"
  by (rule const_value [OF assms(1)]) (use assms(2) in \<open>auto simp: constOf_def meaning0_def Let_def split: if_splits\<close>)

lemma scast_inj32: "scast (w :: 32 word) = (scast x :: 64 word) \<Longrightarrow> w = x"
  using ucast_scast by metis

lemma constIs_value:
  assumes "ruleAt u F g \<rho> n"
  shows "constIs False (node_at g (input g n s)) (scast w) \<Longrightarrow> \<rho> (input g n s) t = Java (VInt w)"
    and "constIs True (node_at g (input g n s)) l \<Longrightarrow> \<rho> (input g n s) t = Java (VLong l)"
  by (rule const_value [OF assms]; auto simp: constIs_def meaning0_def dest!: scast_inj32)+

lemma constIs_int:
  assumes "ruleAt u F g \<rho> n"
  shows "constIs False (node_at g (input g n s)) 0 \<Longrightarrow> \<rho> (input g n s) t = Java (VInt 0)"
    and "constIs False (node_at g (input g n s)) 1 \<Longrightarrow> \<rho> (input g n s) t = Java (VInt 1)"
    and "constIs False (node_at g (input g n s)) (-1) \<Longrightarrow> \<rho> (input g n s) t = Java (VInt (-1))"
  using constIs_value(1) [OF assms, of s 0] constIs_value(1) [OF assms, of s 1] constIs_value(1) [OF assms, of s "-1"] by simp_all

text \<open>The history of a node from the meaning of its operation at each time.\<close>

lemma int_value:
  assumes r: "ruleAt u F g \<rho> n" and k: "binaryOperandTypes (kindAt g n) = Some (IT_Int, IT_Int)"
    and m: "\<And>x y. \<rho> (input g n 0) t = Java (VInt x) \<Longrightarrow> \<rho> (input g n 1) t = Java (VInt y) \<Longrightarrow>
      \<exists>v. intMeaning (kindAt g n) x y = Some v \<and> w = Java v"
  shows "\<rho> n t = w"
proof -
  have s: "javaModel u F" "soundVal F g \<rho>" "liveIn g n" using r by (simp_all add: ruleAt_def)
  obtain x y where xy: "\<rho> (input g n 0) t = Java (VInt x)" "\<rho> (input g n 1) t = Java (VInt y)"
    using sound_row2(2,3) [OF s(2,3) k, of t] by (auto simp: ofType_cases)
  obtain v where "intMeaning (kindAt g n) x y = Some v" "w = Java v" using m [OF xy] by blast
  then show ?thesis using sound_op2 [OF s k xy] by simp
qed

lemma long_value:
  assumes r: "ruleAt u F g \<rho> n" and k: "binaryOperandTypes (kindAt g n) = Some (IT_Long, IT_Long)"
    and m: "\<And>x y. \<rho> (input g n 0) t = Java (VLong x) \<Longrightarrow> \<rho> (input g n 1) t = Java (VLong y) \<Longrightarrow>
      \<exists>v. longMeaning (kindAt g n) x y = Some v \<and> w = Java v"
  shows "\<rho> n t = w"
proof -
  have s: "javaModel u F" "soundVal F g \<rho>" "liveIn g n" using r by (simp_all add: ruleAt_def)
  obtain x y where xy: "\<rho> (input g n 0) t = Java (VLong x)" "\<rho> (input g n 1) t = Java (VLong y)"
    using sound_row2(2,3) [OF s(2,3) k, of t] by (auto simp: ofType_cases)
  obtain v where "longMeaning (kindAt g n) x y = Some v" "w = Java v" using m [OF xy] by blast
  then show ?thesis using sound_op2 [OF s k xy] by simp
qed

lemma shift_value:
  assumes r: "ruleAt u F g \<rho> n" and k: "binaryOperandTypes (kindAt g n) = Some (IT_Long, IT_Int)"
    and m: "\<And>x y. \<rho> (input g n 0) t = Java (VLong x) \<Longrightarrow> \<rho> (input g n 1) t = Java (VInt y) \<Longrightarrow>
      \<exists>v. shiftMeaning (kindAt g n) x y = Some v \<and> w = Java v"
  shows "\<rho> n t = w"
proof -
  have s: "javaModel u F" "soundVal F g \<rho>" "liveIn g n" using r by (simp_all add: ruleAt_def)
  obtain x y where xy: "\<rho> (input g n 0) t = Java (VLong x)" "\<rho> (input g n 1) t = Java (VInt y)"
    using sound_row2(2,3) [OF s(2,3) k, of t] by (auto simp: ofType_cases)
  obtain v where "shiftMeaning (kindAt g n) x y = Some v" "w = Java v" using m [OF xy] by blast
  then show ?thesis using sound_op2 [OF s k xy] by simp
qed

lemma unary_value:
  assumes r: "ruleAt u F g \<rho> n" and k: "operandTypes (kindAt g n) = Some [ty]"
    and m: "\<And>x. \<rho> (input g n 0) t = Java x \<Longrightarrow> ofType (Java x :: 'x ir_val) ty \<Longrightarrow> \<exists>v. meaning1 u (kindAt g n) x = Some v \<and> w = Java v"
  shows "\<rho> n t = (w :: 'x ir_val)"
proof -
  have s: "javaModel u F" "soundVal F g \<rho>" "liveIn g n" using r by (simp_all add: ruleAt_def)
  have ty: "ofType (\<rho> (input g n 0) t) ty" using sound_row1(2) [OF s(2,3) k, of t] .
  then obtain x where x: "\<rho> (input g n 0) t = Java x" by (cases "\<rho> (input g n 0) t") auto
  obtain v where "meaning1 u (kindAt g n) x = Some v" "w = Java v" using m [OF x] ty x by auto
  then show ?thesis using sound_op1 [OF s k x] by simp
qed

section \<open>Identities\<close>

lemmas int_rules = intMeaning_def binaryOperandTypes_def int_kernels javaDivI_def javaRemI_def
lemmas long_rules = longMeaning_def binaryOperandTypes_def wrapAdd64_def wrapSub64_def wrapMul64_def divTrunc_def remTrunc_def
  cmpSigned_def

definition rulesOk :: "fpu \<Rightarrow> 'x semantics \<Rightarrow> graph \<Rightarrow> node_id \<Rightarrow> bool" where
  "rulesOk u F g n \<longleftrightarrow> javaModel u F \<and> liveIn g n"

lemma ruleAtI: "rulesOk u F g n \<Longrightarrow> goodGraph g \<Longrightarrow> soundVal F g \<rho> \<Longrightarrow> ruleAt u F g \<rho> n"
  by (simp add: ruleAt_def rulesOk_def)

lemma rewrite_keep:
  assumes "rulesOk u F g n" "\<And>\<rho> t. ruleAt u F g \<rho> n \<Longrightarrow> \<rho> n t = \<rho> x t"
  shows "rewriteOk F n g (g, x)"
  by (rule rewriteOk_keep) (use assms ruleAtI in \<open>blast intro: ext [symmetric]\<close>)

lemma rewrite_int:
  assumes "rulesOk u F g n" "\<And>\<rho> t. ruleAt u F g \<rho> n \<Longrightarrow> \<rho> n t = Java (VInt w)"
  shows "rewriteOk F n g (constantI w g)"
  by (rule rewriteOk_constants(1) [of u]) (use assms ruleAtI [OF assms(1)] in \<open>auto simp: rulesOk_def\<close>)

lemma rewrite_long:
  assumes "rulesOk u F g n" "\<And>\<rho> t. ruleAt u F g \<rho> n \<Longrightarrow> \<rho> n t = Java (VLong w)"
  shows "rewriteOk F n g (constantL w g)"
  by (rule rewriteOk_constants(2) [of u]) (use assms ruleAtI [OF assms(1)] in \<open>auto simp: rulesOk_def\<close>)

lemma selfIdentity_ok:
  assumes s: "selfIdentity (kindAt g n) (input g n 0) (isLongKind (kindAt g n)) g = Some r" and eq: "input g n 1 = input g n 0"
    and r: "rulesOk u F g n"
  shows "rewriteOk F n g r"
proof -
  let ?k = "kindAt g n"
  have i: "\<rho> n t = Java v" if "ruleAt u F g \<rho> n" "binaryOperandTypes ?k = Some (IT_Int, IT_Int)" "\<And>x. intMeaning ?k x x = Some v" for \<rho> t v
    by (rule int_value [OF that(1,2)]) (use that(3) eq in auto)
  have l: "\<rho> n t = Java v" if "ruleAt u F g \<rho> n" "binaryOperandTypes ?k = Some (IT_Long, IT_Long)" "\<And>x. longMeaning ?k x x = Some v" for \<rho> t v
    by (rule long_value [OF that(1,2)]) (use that(3) eq in auto)
  have ki: "\<rho> n t = \<rho> (input g n 0) t" if "ruleAt u F g \<rho> n" "?k = Nk_AndI \<or> ?k = Nk_OrI" for \<rho> t
    by (rule int_value [OF that(1)]) (use that(2) eq in \<open>auto simp: int_rules\<close>)
  have kl: "\<rho> n t = \<rho> (input g n 0) t" if "ruleAt u F g \<rho> n" "?k = Nk_AndL \<or> ?k = Nk_OrL" for \<rho> t
    by (rule long_value [OF that(1)]) (use that(2) eq in \<open>auto simp: long_rules\<close>)
  have k: "?k = Nk_SubI \<or> ?k = Nk_SubL \<or> ?k = Nk_AndI \<or> ?k = Nk_AndL \<or> ?k = Nk_OrI \<or> ?k = Nk_OrL \<or> ?k = Nk_XorI \<or> ?k = Nk_XorL
      \<or> ?k = Nk_CmpI \<or> ?k = Nk_CmpL \<or> ?k = Nk_EqI \<or> ?k = Nk_LeI \<or> ?k = Nk_GeI \<or> ?k = Nk_NeI \<or> ?k = Nk_LtI \<or> ?k = Nk_GtI"
    using s unfolding selfIdentity_def by (simp only: option.simps split: if_split_asm) blast+
  consider "?k = Nk_SubI \<or> ?k = Nk_XorI \<or> ?k = Nk_CmpI \<or> ?k = Nk_NeI \<or> ?k = Nk_LtI \<or> ?k = Nk_GtI" "r = constantI 0 g"
    | "?k = Nk_CmpL" "r = constantI 0 g"
    | "?k = Nk_EqI \<or> ?k = Nk_LeI \<or> ?k = Nk_GeI" "r = constantI 1 g" | "?k = Nk_SubL \<or> ?k = Nk_XorL" "r = constantL 0 g"
    | "?k = Nk_AndI \<or> ?k = Nk_OrI" "r = (g, input g n 0)" | "?k = Nk_AndL \<or> ?k = Nk_OrL" "r = (g, input g n 0)"
    using k s by (elim disjE) (simp_all add: selfIdentity_def zeroNode_def isLongKind_def)
  then show ?thesis
  proof cases
    case 1
    then show ?thesis by (auto intro!: rewrite_int [OF r] i simp: int_rules)
  next
    case 2
    then show ?thesis by (auto intro!: rewrite_int [OF r] l simp: long_rules)
  next
    case 3
    then show ?thesis by (auto intro!: rewrite_int [OF r] i simp: int_rules)
  next
    case 4
    then show ?thesis by (auto intro!: rewrite_long [OF r] l simp: long_rules)
  next
    case 5
    then show ?thesis by (auto intro!: rewrite_keep [OF r] ki)
  next
    case 6
    then show ?thesis by (auto intro!: rewrite_keep [OF r] kl)
  qed
qed

text \<open>A constant operand that makes the operation trivial, on the left and on the right.\<close>

lemma const_operand_int:
  assumes r: "rulesOk u F g n" and k: "binaryOperandTypes (kindAt g n) = Some (IT_Int, IT_Int)"
  shows "constIs False (node_at g (input g n 0)) (scast c) \<Longrightarrow> (\<And>y. intMeaning (kindAt g n) c y = Some (VInt y)) \<Longrightarrow>
      rewriteOk F n g (g, input g n 1)"
    and "constIs False (node_at g (input g n 1)) (scast c) \<Longrightarrow> (\<And>x. intMeaning (kindAt g n) x c = Some (VInt x)) \<Longrightarrow>
      rewriteOk F n g (g, input g n 0)"
    and "constIs False (node_at g (input g n 0)) (scast c) \<Longrightarrow> (\<And>y. intMeaning (kindAt g n) c y = Some (VInt z)) \<Longrightarrow>
      rewriteOk F n g (constantI z g)"
    and "constIs False (node_at g (input g n 1)) (scast c) \<Longrightarrow> (\<And>x. intMeaning (kindAt g n) x c = Some (VInt z)) \<Longrightarrow>
      rewriteOk F n g (constantI z g)"
proof -
  note val = int_value [OF _ k] constIs_value(1)
  show "constIs False (node_at g (input g n 0)) (scast c) \<Longrightarrow> (\<And>y. intMeaning (kindAt g n) c y = Some (VInt y)) \<Longrightarrow>
      rewriteOk F n g (g, input g n 1)"
    by (rule rewrite_keep [OF r], rule val(1), assumption) (use val(2) in fastforce)
  show "constIs False (node_at g (input g n 1)) (scast c) \<Longrightarrow> (\<And>x. intMeaning (kindAt g n) x c = Some (VInt x)) \<Longrightarrow>
      rewriteOk F n g (g, input g n 0)"
    by (rule rewrite_keep [OF r], rule val(1), assumption) (use val(2) in fastforce)
  show "constIs False (node_at g (input g n 0)) (scast c) \<Longrightarrow> (\<And>y. intMeaning (kindAt g n) c y = Some (VInt z)) \<Longrightarrow>
      rewriteOk F n g (constantI z g)"
    by (rule rewrite_int [OF r], rule val(1), assumption) (use val(2) in fastforce)
  show "constIs False (node_at g (input g n 1)) (scast c) \<Longrightarrow> (\<And>x. intMeaning (kindAt g n) x c = Some (VInt z)) \<Longrightarrow>
      rewriteOk F n g (constantI z g)"
    by (rule rewrite_int [OF r], rule val(1), assumption) (use val(2) in fastforce)
qed

lemma const_operand_long:
  assumes r: "rulesOk u F g n" and k: "binaryOperandTypes (kindAt g n) = Some (IT_Long, IT_Long)"
  shows "constIs True (node_at g (input g n 0)) c \<Longrightarrow> (\<And>y. longMeaning (kindAt g n) c y = Some (VLong y)) \<Longrightarrow>
      rewriteOk F n g (g, input g n 1)"
    and "constIs True (node_at g (input g n 1)) c \<Longrightarrow> (\<And>x. longMeaning (kindAt g n) x c = Some (VLong x)) \<Longrightarrow>
      rewriteOk F n g (g, input g n 0)"
    and "constIs True (node_at g (input g n 0)) c \<Longrightarrow> (\<And>y. longMeaning (kindAt g n) c y = Some (VLong z)) \<Longrightarrow>
      rewriteOk F n g (constantL z g)"
    and "constIs True (node_at g (input g n 1)) c \<Longrightarrow> (\<And>x. longMeaning (kindAt g n) x c = Some (VLong z)) \<Longrightarrow>
      rewriteOk F n g (constantL z g)"
proof -
  note val = long_value [OF _ k] constIs_value(2)
  show "constIs True (node_at g (input g n 0)) c \<Longrightarrow> (\<And>y. longMeaning (kindAt g n) c y = Some (VLong y)) \<Longrightarrow>
      rewriteOk F n g (g, input g n 1)"
    by (rule rewrite_keep [OF r], rule val(1), assumption) (use val(2) in fastforce)
  show "constIs True (node_at g (input g n 1)) c \<Longrightarrow> (\<And>x. longMeaning (kindAt g n) x c = Some (VLong x)) \<Longrightarrow>
      rewriteOk F n g (g, input g n 0)"
    by (rule rewrite_keep [OF r], rule val(1), assumption) (use val(2) in fastforce)
  show "constIs True (node_at g (input g n 0)) c \<Longrightarrow> (\<And>y. longMeaning (kindAt g n) c y = Some (VLong z)) \<Longrightarrow>
      rewriteOk F n g (constantL z g)"
    by (rule rewrite_long [OF r], rule val(1), assumption) (use val(2) in fastforce)
  show "constIs True (node_at g (input g n 1)) c \<Longrightarrow> (\<And>x. longMeaning (kindAt g n) x c = Some (VLong z)) \<Longrightarrow>
      rewriteOk F n g (constantL z g)"
    by (rule rewrite_long [OF r], rule val(1), assumption) (use val(2) in fastforce)
qed

end
