(* ===== verification/Pass_Identity.thy ===== *)
theory Pass_Identity
  imports Pass_Values
begin

unbundle bit_operations_syntax

text \<open>
  Every rule of the simplify engine but the collapse of phis keeps the history of the node it replaces.
\<close>

section \<open>Identities with a constant\<close>

lemma scast_small: "scast (0 :: 32 word) = (0 :: 64 word)" "scast (1 :: 32 word) = (1 :: 64 word)" "scast (-1 :: 32 word) = (-1 :: 64 word)"
  by code_simp+

lemma smod_one: "(a :: int) smod 1 = 0"
  by (simp add: signed_modulo_int_def)

lemma constIdentity_int:
  assumes s: "constIdentity (kindAt g n) (input g n 0) (input g n 1) False g = Some x" and r: "rulesOk u F g n"
    and k: "kindAt g n = Nk_AddI \<or> kindAt g n = Nk_SubI \<or> kindAt g n = Nk_MulI \<or> kindAt g n = Nk_AndI \<or> kindAt g n = Nk_OrI
      \<or> kindAt g n = Nk_XorI \<or> kindAt g n = Nk_DivI \<or> kindAt g n = Nk_RemI"
  shows "rewriteOk F n g x"
proof -
  have t: "binaryOperandTypes (kindAt g n) = Some (IT_Int, IT_Int)" using k by (elim disjE) (simp_all add: binaryOperandTypes_def)
  note c0 = const_operand_int [OF r t, where c = 0, unfolded scast_small]
  note c1 = const_operand_int [OF r t, where c = 1, unfolded scast_small]
  note cm = const_operand_int [OF r t, where c = "-1", unfolded scast_small]
  note m = intMeaning_def int_kernels javaDivI_def javaRemI_def
  show ?thesis using k s
  proof (elim disjE)
    assume "kindAt g n = Nk_AddI"
    then show ?thesis using s c0(1,2) by (simp add: constIdentity_def m split: if_splits)
  next
    assume "kindAt g n = Nk_SubI"
    then show ?thesis using s c0(2) by (simp add: constIdentity_def m split: if_splits)
  next
    assume "kindAt g n = Nk_MulI"
    then show ?thesis using s c1(1,2) c0(3,4) [of 0] by (auto simp: constIdentity_def Let_def m zeroNode_def smod_one split: if_splits)
  next
    assume "kindAt g n = Nk_AndI"
    then show ?thesis using s cm(1,2) c0(3,4) [of 0] by (auto simp: constIdentity_def Let_def m zeroNode_def smod_one split: if_splits)
  next
    assume "kindAt g n = Nk_OrI"
    then show ?thesis using s c0(1,2) cm(3,4) [of "-1"] by (auto simp: constIdentity_def Let_def m split: if_splits)
  next
    assume "kindAt g n = Nk_XorI"
    then show ?thesis using s c0(1,2) by (simp add: constIdentity_def m split: if_splits)
  next
    assume "kindAt g n = Nk_DivI"
    then show ?thesis using s c1(2) by (simp add: constIdentity_def m split: if_splits)
  next
    assume "kindAt g n = Nk_RemI"
    then show ?thesis using s c1(4) [of 0] by (simp add: constIdentity_def Let_def m zeroNode_def smod_one split: if_splits)
  qed
qed

lemma constIdentity_long:
  assumes s: "constIdentity (kindAt g n) (input g n 0) (input g n 1) True g = Some x" and r: "rulesOk u F g n"
    and k: "kindAt g n = Nk_AddL \<or> kindAt g n = Nk_SubL \<or> kindAt g n = Nk_MulL \<or> kindAt g n = Nk_AndL \<or> kindAt g n = Nk_OrL
      \<or> kindAt g n = Nk_XorL \<or> kindAt g n = Nk_DivL \<or> kindAt g n = Nk_RemL"
  shows "rewriteOk F n g x"
proof -
  have t: "binaryOperandTypes (kindAt g n) = Some (IT_Long, IT_Long)" using k by (elim disjE) (simp_all add: binaryOperandTypes_def)
  note c = const_operand_long [OF r t]
  note m = longMeaning_def wrapAdd64_def wrapSub64_def wrapMul64_def divTrunc_def remTrunc_def
  show ?thesis using k s
  proof (elim disjE)
    assume "kindAt g n = Nk_AddL"
    then show ?thesis using s c(1,2) [of 0] by (simp add: constIdentity_def m split: if_splits)
  next
    assume "kindAt g n = Nk_SubL"
    then show ?thesis using s c(2) [of 0] by (simp add: constIdentity_def m split: if_splits)
  next
    assume "kindAt g n = Nk_MulL"
    then show ?thesis using s c(1,2) [of 1] c(3,4) [of 0 0] by (auto simp: constIdentity_def Let_def m zeroNode_def smod_one split: if_splits)
  next
    assume "kindAt g n = Nk_AndL"
    then show ?thesis using s c(1,2) [of "-1"] c(3,4) [of 0 0] by (auto simp: constIdentity_def Let_def m zeroNode_def smod_one split: if_splits)
  next
    assume "kindAt g n = Nk_OrL"
    then show ?thesis using s c(1,2) [of 0] c(3,4) [of "-1" "-1"] by (auto simp: constIdentity_def Let_def m split: if_splits)
  next
    assume "kindAt g n = Nk_XorL"
    then show ?thesis using s c(1,2) [of 0] by (simp add: constIdentity_def m split: if_splits)
  next
    assume "kindAt g n = Nk_DivL"
    then show ?thesis using s c(2) [of 1] by (simp add: constIdentity_def m split: if_splits)
  next
    assume "kindAt g n = Nk_RemL"
    then show ?thesis using s c(4) [of 1 0] by (simp add: constIdentity_def Let_def m zeroNode_def smod_one split: if_splits)
  qed
qed

lemma shiftIdentity:
  assumes z: "nd_kind (node_at g (input g n 1)) = Nk_ConstantI" "(ucast (nd_constValue (node_at g (input g n 1))) :: 32 word) = 0"
    and r: "rulesOk u F g n"
    and k: "kindAt g n = Nk_ShlI \<or> kindAt g n = Nk_ShrI \<or> kindAt g n = Nk_UShrI \<or> kindAt g n = Nk_ShlL \<or> kindAt g n = Nk_ShrL
      \<or> kindAt g n = Nk_UShrL"
  shows "rewriteOk F n g (g, input g n 0)"
proof (rule rewrite_keep [OF r])
  fix \<rho> t assume a: "ruleAt u F g \<rho> n"
  have b: "\<rho> (input g n 1) t = Java (VInt 0)" by (rule const_value [OF a]) (use z in \<open>simp add: meaning0_def\<close>)
  consider "binaryOperandTypes (kindAt g n) = Some (IT_Int, IT_Int)" "\<And>x. intMeaning (kindAt g n) x 0 = Some (VInt x)"
    | "binaryOperandTypes (kindAt g n) = Some (IT_Long, IT_Int)" "\<And>x. shiftMeaning (kindAt g n) x 0 = Some (VLong x)"
    using k by (elim disjE) (simp_all add: binaryOperandTypes_def intMeaning_def shiftMeaning_def shl_def shr_def ushr_def shiftCount_def)
  then show "\<rho> n t = \<rho> (input g n 0) t"
  proof cases
    case 1
    show ?thesis by (rule int_value [OF a 1(1)]) (use 1(2) b in simp)
  next
    case 2
    show ?thesis by (rule shift_value [OF a 2(1)]) (use 2(2) b in simp)
  qed
qed

lemma constIdentity_ok:
  assumes s: "constIdentity (kindAt g n) (input g n 0) (input g n 1) (isLongKind (kindAt g n)) g = Some x" and r: "rulesOk u F g n"
  shows "rewriteOk F n g x"
proof -
  let ?k = "kindAt g n"
  let ?l = "isLongKind ?k"
  consider "?k = Nk_AddI \<or> ?k = Nk_SubI \<or> ?k = Nk_MulI \<or> ?k = Nk_AndI \<or> ?k = Nk_OrI \<or> ?k = Nk_XorI \<or> ?k = Nk_DivI \<or> ?k = Nk_RemI"
    | "?k = Nk_AddL \<or> ?k = Nk_SubL \<or> ?k = Nk_MulL \<or> ?k = Nk_AndL \<or> ?k = Nk_OrL \<or> ?k = Nk_XorL \<or> ?k = Nk_DivL \<or> ?k = Nk_RemL"
    | "?k = Nk_ShlI \<or> ?k = Nk_ShrI \<or> ?k = Nk_UShrI \<or> ?k = Nk_ShlL \<or> ?k = Nk_ShrL \<or> ?k = Nk_UShrL"
    using s unfolding constIdentity_def Let_def by (simp only: option.simps split: if_split_asm) blast+
  then show ?thesis
  proof cases
    case 1
    moreover from this have "\<not> ?l" by (elim disjE) (simp_all add: isLongKind_def)
    ultimately show ?thesis using constIdentity_int [OF _ r] s by simp
  next
    case 2
    moreover from this have "?l" by (elim disjE) (simp_all add: isLongKind_def)
    ultimately show ?thesis using constIdentity_long [OF _ r] s by simp
  next
    case 3
    then have "x = (g, input g n 0) \<and> nd_kind (node_at g (input g n 1)) = Nk_ConstantI
        \<and> (ucast (nd_constValue (node_at g (input g n 1))) :: 32 word) = 0"
      using s by (elim disjE) (simp_all add: constIdentity_def split: if_splits)
    then show ?thesis using shiftIdentity [OF _ _ r 3] by simp
  qed
qed

section \<open>Identities of one operand\<close>

lemma unary_types:
  assumes "unaryOperandType k = Some ty"
  shows "operandTypes k = Some [ty]"
proof -
  have "k \<in> {51, 63, 75, 81, 88, 89, 90, 91, 92, 93, 94, 95, 96, 97, 98, 99, 100, 101, 102, 103, 104, 105, 128, 129}"
    using assms unfolding unaryOperandType_def by (simp only: option.simps split: if_split_asm) blast+
  then have "binaryOperandTypes k = None" by (elim insertE emptyE) (simp_all add: binaryOperandTypes_def)
  then show ?thesis using assms by (simp add: operandTypes_def)
qed

lemma inner_rule: "ruleAt u F g \<rho> n \<Longrightarrow> \<not> isDead (node_at g (input g n 0)) \<Longrightarrow> nd_kind (node_at g (input g n 0)) \<noteq> Nk_Start \<Longrightarrow>
    ruleAt u F g \<rho> (input g n 0) \<and> nd_kind (node_at g (input g n 0)) = kindAt g (input g n 0)"
  using input_live [of g n 0] kind_in_range [of g "input g n 0"] by (auto simp: ruleAt_def node_at_live)

text \<open>A node whose operand is a node of one operand.\<close>

lemma nested_value:
  assumes r: "ruleAt u F g \<rho> n" and k: "kindAt g n = k" "unaryOperandType k = Some ty"
    and i: "\<not> isDead (node_at g (input g n 0))" "nd_kind (node_at g (input g n 0)) = k'" "unaryOperandType k' = Some ty'"
    and m: "\<And>x. \<rho> (input g (input g n 0) 0) t = Java x \<Longrightarrow> ofType (Java x :: 'x ir_val) ty' \<Longrightarrow>
      \<exists>y v. meaning1 u k' x = Some y \<and> meaning1 u k y = Some v \<and> w y x = Java v"
  shows "\<exists>x y. \<rho> (input g (input g n 0) 0) t = Java x \<and> \<rho> (input g n 0) t = Java y \<and> \<rho> n t = (w y x :: 'x ir_val)"
proof -
  let ?i = "input g n 0"
  have "k' \<noteq> Nk_Start" using i(3) by (auto simp: unaryOperandType_def split: if_splits)
  then have ri: "ruleAt u F g \<rho> ?i" "kindAt g ?i = k'" using inner_rule [OF r i(1)] i(2) by auto
  have s: "javaModel u F" "soundVal F g \<rho>" "liveIn g ?i" "liveIn g n" using ri r by (simp_all add: ruleAt_def)
  have ty: "operandTypes (kindAt g ?i) = Some [ty']" "operandTypes (kindAt g n) = Some [ty]"
    using unary_types i(3) k ri(2) by auto
  have o: "ofType (\<rho> (input g ?i 0) t) ty'" using sound_row1(2) [OF s(2,3) ty(1)] .
  then obtain x where x: "\<rho> (input g ?i 0) t = Java x" by (cases "\<rho> (input g ?i 0) t") auto
  obtain y v where v: "meaning1 u k' x = Some y" "meaning1 u k y = Some v" "w y x = Java v" using m [OF x] o x by auto
  have "\<rho> ?i t = Java y" using sound_op1 [OF s(1-3) ty(1) x] v(1) ri(2) by simp
  then have "\<rho> n t = Java v" using sound_op1 [OF s(1,2,4) ty(2)] v(2) k(1) by simp
  then show ?thesis using x v(3) \<open>\<rho> ?i t = Java y\<close> by metis
qed

lemma neg_neg: "neg32 (neg32 w) = w" "neg64 (neg64 l) = l" "fpNegate (fpNegate f) = f"
  by (simp_all add: neg32_def neg64_def fpNegate_def) (rule bit_word_eqI, auto simp: bit_simps)

lemma tryDoubleNeg_ok:
  assumes s: "tryDoubleNeg (kindAt g n) n g = Some x" and r: "rulesOk u F g n"
  shows "rewriteOk F n g x"
proof -
  let ?k = "kindAt g n"
  let ?i = "input g n 0"
  have k: "?k = Nk_NegI \<or> ?k = Nk_NegL \<or> ?k = Nk_NegF \<or> ?k = Nk_NegD" and i: "\<not> isDead (node_at g ?i)" "nd_kind (node_at g ?i) = ?k"
    and x: "x = (g, input g ?i 0)"
    using s by (auto simp: tryDoubleNeg_def Let_def split: if_splits)
  obtain ty where ty: "unaryOperandType ?k = Some ty" using k by (elim disjE) (simp_all add: unaryOperandType_def)
  have m: "\<exists>y v. meaning1 u ?k x = Some y \<and> meaning1 u ?k y = Some v \<and> Java x = Java v" if "ofType (Java x :: 'a ir_val) ty" for x
    using that k ty by (elim disjE; cases x; simp add: unaryOperandType_def neg_neg)
  show ?thesis unfolding x
  proof (rule rewrite_keep [OF r])
    fix \<rho> t assume "ruleAt u F g \<rho> n"
    then have "\<exists>x y. \<rho> (input g ?i 0) t = Java x \<and> \<rho> ?i t = Java y \<and> \<rho> n t = Java x"
      by (rule nested_value [OF _ refl ty i ty, where w = "\<lambda>y x. Java x"]) (use m in blast)
    then show "\<rho> n t = \<rho> (input g ?i 0) t" by auto
  qed
qed

lemma narrow_idem: "narrow8 (narrow8 w) = narrow8 w" "narrowU16 (narrowU16 w) = narrowU16 w" "narrow16 (narrow16 w) = narrow16 w"
  by (rule bit_word_eqI; auto simp: narrow8_def narrowU16_def narrow16_def bit_simps)+

lemma tryConversionIdentity_ok:
  assumes s: "tryConversionIdentity (kindAt g n) n g = Some x" and r: "rulesOk u F g n"
  shows "rewriteOk F n g x"
proof -
  let ?k = "kindAt g n"
  let ?i = "input g n 0"
  have i: "\<not> isDead (node_at g ?i)" using s by (auto simp: tryConversionIdentity_def Let_def split: if_splits)
  consider "?k = Nk_L2I" "nd_kind (node_at g ?i) = Nk_I2L" "x = (g, input g ?i 0)"
    | "?k = Nk_I2B \<or> ?k = Nk_I2C \<or> ?k = Nk_I2S" "nd_kind (node_at g ?i) = ?k" "x = (g, ?i)"
    using s by (auto simp: tryConversionIdentity_def Let_def split: if_splits)
  then show ?thesis
  proof cases
    case 1
    have t: "unaryOperandType Nk_L2I = Some IT_Long" "unaryOperandType Nk_I2L = Some IT_Int" by (simp_all add: unaryOperandType_def)
    show ?thesis unfolding 1(3)
    proof (rule rewrite_keep [OF r])
      fix \<rho> t assume "ruleAt u F g \<rho> n"
      then have "\<exists>x y. \<rho> (input g ?i 0) t = Java x \<and> \<rho> ?i t = Java y \<and> \<rho> n t = Java x"
        by (rule nested_value [OF _ 1(1) t(1) i 1(2) t(2), where w = "\<lambda>y x. Java x"]) (auto simp: ofType_cases ucast_scast)
      then show "\<rho> n t = \<rho> (input g ?i 0) t" by auto
    qed
  next
    case 2
    have t: "unaryOperandType ?k = Some IT_Int" using 2(1) by (elim disjE) (simp_all add: unaryOperandType_def)
    show ?thesis unfolding 2(3)
    proof (rule rewrite_keep [OF r])
      fix \<rho> t assume "ruleAt u F g \<rho> n"
      then have "\<exists>x y. \<rho> (input g ?i 0) t = Java x \<and> \<rho> ?i t = Java y \<and> \<rho> n t = Java y"
        by (rule nested_value [OF _ refl t i 2(2) t, where w = "\<lambda>y x. Java y"])
          (use 2(1) in \<open>elim disjE; auto simp: ofType_cases narrow_idem\<close>)
      then show "\<rho> n t = \<rho> ?i t" by auto
    qed
  qed
qed

lemma ref_value:
  assumes r: "ruleAt u F g \<rho> n" and k: "kindAt g n = Nk_RefEq"
  obtains x y where "\<rho> (input g n 0) t = Java x" "\<rho> (input g n 1) t = Java y" "isRefLike x" "isRefLike y"
    "\<rho> n t = Java (VInt (of_bool (sameObject x y)))"
proof -
  have s: "javaModel u F" "soundVal F g \<rho>" "liveIn g n" using r by (simp_all add: ruleAt_def)
  have b: "binaryOperandTypes (kindAt g n) = Some (IT_Ref, IT_Ref)" using k by (simp add: binaryOperandTypes_def)
  note o = sound_row2(2,3) [OF s(2,3) b, of t]
  obtain x y where x: "\<rho> (input g n 0) t = Java x" "x = VNull \<or> (\<exists>a. x = VRef a)"
    and y: "\<rho> (input g n 1) t = Java y" "y = VNull \<or> (\<exists>a. y = VRef a)"
    using o by (auto simp: ofType_cases)
  have "meaning2 u (kindAt g n) x y = Some (VInt (of_bool (sameObject x y)))"
    using x(2) y(2) k by (auto simp: isRefLike_def)
  then show ?thesis using that [OF x(1) y(1)] sound_op2 [OF s b x(1) y(1)] x(2) y(2) by (auto simp: isRefLike_def)
qed

lemma isnull_value:
  assumes r: "ruleAt u F g \<rho> n" and k: "kindAt g n = Nk_IsNull"
  obtains x where "\<rho> (input g n 0) t = Java x" "isRefLike x" "\<rho> n t = Java (VInt (of_bool (isNull x)))"
proof -
  have s: "javaModel u F" "soundVal F g \<rho>" "liveIn g n" using r by (simp_all add: ruleAt_def)
  have ty: "operandTypes (kindAt g n) = Some [IT_Ref]" using k unary_types by (simp add: unaryOperandType_def)
  obtain x where x: "\<rho> (input g n 0) t = Java x" "x = VNull \<or> (\<exists>a. x = VRef a)"
    using sound_row1(2) [OF s(2,3) ty, of t] by (auto simp: ofType_cases)
  then have "meaning1 u (kindAt g n) x = Some (VInt (of_bool (isNull x)))" using k by (auto simp: isRefLike_def)
  then show ?thesis using that [OF x(1)] sound_op1 [OF s ty x(1)] x(2) by (auto simp: isRefLike_def)
qed

lemma test_bool:
  assumes r: "ruleAt u F g \<rho> n" and k: "isTestKind (kindAt g n)"
  shows "\<exists>p. \<rho> n t = Java (VInt (of_bool p))"
proof -
  let ?k = "kindAt g n"
  consider "?k = Nk_EqI \<or> ?k = Nk_NeI \<or> ?k = Nk_LtI \<or> ?k = Nk_LeI \<or> ?k = Nk_GtI \<or> ?k = Nk_GeI" | "?k = Nk_IsNull" | "?k = Nk_RefEq"
    using k by (auto simp: isTestKind_def)
  then show ?thesis
  proof cases
    case 1
    then have b: "binaryOperandTypes ?k = Some (IT_Int, IT_Int)" by (elim disjE) (simp_all add: binaryOperandTypes_def)
    have "\<exists>p. intMeaning ?k x y = Some (VInt (of_bool p))" for x y using 1 by (elim disjE; simp add: intMeaning_def; blast)
    moreover obtain x y where xy: "\<rho> (input g n 0) t = Java (VInt x)" "\<rho> (input g n 1) t = Java (VInt y)"
      using sound_row2(2,3) [OF _ _ b, of F \<rho> t] r by (auto simp: ofType_cases ruleAt_def)
    ultimately obtain p where p: "intMeaning ?k x y = Some (VInt (of_bool p))" by blast
    have "\<rho> n t = Java (VInt (of_bool p))" by (rule int_value [OF r b]) (use xy p in simp)
    then show ?thesis by blast
  next
    case 2
    then show ?thesis using isnull_value [OF r] by metis
  next
    case 3
    then show ?thesis using ref_value [OF r] by metis
  qed
qed

lemma tryNotNot_ok:
  assumes s: "tryNotNot (kindAt g n) n g = Some x" and r: "rulesOk u F g n"
  shows "rewriteOk F n g x"
proof -
  let ?i = "input g n 0"
  let ?j = "input g ?i 0"
  have k: "kindAt g n = Nk_Not" "nd_kind (node_at g ?i) = Nk_Not" and i: "\<not> isDead (node_at g ?i)"
    and j: "isTestKind (nd_kind (node_at g ?j))" and x: "x = (g, ?j)"
    using s by (auto simp: tryNotNot_def Let_def split: if_splits)
  have t: "unaryOperandType Nk_Not = Some IT_Int" by (simp add: unaryOperandType_def)
  show ?thesis unfolding x
  proof (rule rewrite_keep [OF r])
    fix \<rho> t assume a: "ruleAt u F g \<rho> n"
    have ri: "ruleAt u F g \<rho> ?i" using inner_rule [OF a i] k by simp
    have "nd_kind (node_at g ?j) \<noteq> Nk_Start" using j by (auto simp: isTestKind_def)
    then have lj: "liveIn g ?j" using input_live [of g ?i 0] kind_in_range [of g ?j] ri by (simp add: ruleAt_def)
    then have "ruleAt u F g \<rho> ?j" "isTestKind (kindAt g ?j)" using a j by (simp_all add: ruleAt_def node_at_live)
    then obtain p where p: "\<rho> ?j t = Java (VInt (of_bool p))" using test_bool by blast
    have "\<exists>x y. \<rho> ?j t = Java x \<and> \<rho> ?i t = Java y \<and> \<rho> n t = Java x"
      by (rule nested_value [OF a k(1) t i k(2) t, where w = "\<lambda>y x. Java x"]) (use p in simp)
    then show "\<rho> n t = \<rho> ?j t" by auto
  qed
qed

lemma orElse_Some: "orElse a b = Some x \<longleftrightarrow> a = Some x \<or> a = None \<and> b = Some x"
  by (cases a) (simp_all add: orElse_def)

lemma if_None_Some: "(if p then a else None) = Some x \<longleftrightarrow> p \<and> a = Some x"
  by simp

lemma tryIdentity_ok:
  assumes s: "tryIdentity (kindAt g n) n (isLongKind (kindAt g n)) g = Some x" and r: "rulesOk u F g n"
  shows "rewriteOk F n g x"
proof -
  have "input g n 0 = input g n 1 \<and> selfIdentity (kindAt g n) (input g n 0) (isLongKind (kindAt g n)) g = Some x
      \<or> constIdentity (kindAt g n) (input g n 0) (input g n 1) (isLongKind (kindAt g n)) g = Some x"
    using s unfolding tryIdentity_def Let_def orElse_Some if_None_Some by blast
  then show ?thesis using selfIdentity_ok [OF _ _ r] constIdentity_ok [OF _ r] by metis
qed

lemma identityRule_ok:
  assumes s: "identityRule n g = Some x" and r: "rulesOk u F g n"
  shows "rewriteOk F n g x"
proof -
  have n: "node_at g n = g_nodes g ! n" using r node_at_live by (auto simp: rulesOk_def)
  have "tryIdentity (kindAt g n) n (isLongKind (kindAt g n)) g = Some x \<or> tryDoubleNeg (kindAt g n) n g = Some x
      \<or> tryConversionIdentity (kindAt g n) n g = Some x \<or> tryNotNot (kindAt g n) n g = Some x"
    using s unfolding identityRule_def Let_def orElse_Some if_None_Some n by blast
  then show ?thesis using tryIdentity_ok [OF _ r] tryDoubleNeg_ok [OF _ r] tryConversionIdentity_ok [OF _ r] tryNotNot_ok [OF _ r]
    by blast
qed

end
