(* ===== verification/Pass_Fold.thy ===== *)
theory Pass_Fold
  imports Pass_Identity
begin

unbundle bit_operations_syntax

text \<open>
  Constant folding, strength reduction and the complement of tests keep the history of the node they
  replace; with the identities, so does every rule of the engine that looks at what a node computes.
\<close>

section \<open>Folding\<close>

lemma makeConstNode_ok:
  assumes r: "rulesOk u F g n" and v: "valOfConst c = Some v" and n: "\<And>\<rho> t. ruleAt u F g \<rho> n \<Longrightarrow> \<rho> n t = Java v"
  shows "rewriteOk F n g (makeConstNode c g)"
proof -
  have m: "javaModel u F" "liveIn g n" using r by (simp_all add: rulesOk_def)
  note k = rewriteOk_constants [OF m]
  have n': "\<rho> n t = Java v" if "goodGraph g" "soundVal F g \<rho>" for \<rho> t using n ruleAtI [OF r that] by blast
  show ?thesis
  proof (cases c)
    case (CV_I w)
    then show ?thesis using k(1) [of w] n' v by (simp add: makeConstNode_def)
  next
    case (CV_L w)
    then show ?thesis using k(2) [of w] n' v by (simp add: makeConstNode_def)
  next
    case (CV_F w)
    then show ?thesis using k(3) [of w] n' v by (simp add: makeConstNode_def)
  next
    case (CV_D w)
    then show ?thesis using k(4) [of w] n' v by (simp add: makeConstNode_def)
  next
    case CV_Null
    then show ?thesis using k(5) n' v by (simp add: makeConstNode_def)
  next
    case CV_None
    then show ?thesis using v by simp
  qed
qed

lemma valOfConst_isConst: "isConst c \<Longrightarrow> \<exists>v. valOfConst c = Some v"
  by (cases c) (simp_all add: isConst_def)

lemma meaning_types:
  "intMeaning k a b = Some v \<Longrightarrow> binaryOperandTypes k = Some (IT_Int, IT_Int)"
  "longMeaning k x y = Some v \<Longrightarrow> binaryOperandTypes k = Some (IT_Long, IT_Long)"
  "floatMeaning u k a b = Some v \<Longrightarrow> binaryOperandTypes k = Some (IT_Float, IT_Float)"
  "doubleMeaning u k x y = Some v \<Longrightarrow> binaryOperandTypes k = Some (IT_Double, IT_Double)"
  unfolding intMeaning_def longMeaning_def floatMeaning_def doubleMeaning_def
  by (simp_all only: option.simps split: if_split_asm) (simp_all add: binaryOperandTypes_def)

lemma foldLongBin_types:
  "foldLongBin k a b = Some r \<Longrightarrow> (\<exists>v. longMeaning k a b = Some v) \<or> binaryOperandTypes k = Some (IT_Long, IT_Int)"
  unfolding foldLongBin_def
  by (simp only: option.simps split: if_split_asm) (simp_all add: binaryOperandTypes_def longMeaning_def)

text \<open>A fold of two constants is the meaning of the operation, unless the second constant has the wrong
  type for a shift.\<close>

lemma evalBinOp_cases:
  assumes "evalBinOp u k x y = Some r"
  obtains p q z where "x = CV_I p" "y = CV_I q" "foldIntBin k p q = Some z"
    | p q z where "x = CV_L p" "y = CV_L q" "foldLongBin k p q = Some z"
    | p q where "x = CV_F p" "y = CV_F q" "evalFloat u k p q = Some r"
    | p q where "x = CV_D p" "y = CV_D q" "evalDouble u k p q = Some r"
  using assms by (cases x; cases y; auto)

lemma evalFloat_const: "evalFloat u k p q = Some r \<Longrightarrow> \<exists>v. valOfConst r = Some v"
  by (auto simp: evalFloat_def split: option.splits if_splits)

lemma evalDouble_const: "evalDouble u k x y = Some r \<Longrightarrow> \<exists>v. valOfConst r = Some v"
  by (auto simp: evalDouble_def split: option.splits if_splits)

lemma evalBinOp_defined:
  assumes "hostNan u" "evalBinOp u k x y = Some r" "valOfConst x = Some a" "valOfConst y = Some b"
  shows "(\<exists>v. meaning2 u k a b = Some v \<and> valOfConst r = Some v) \<and> (\<exists>ta tb. binaryOperandTypes k = Some (ta, tb))
    \<or> binaryOperandTypes k = Some (IT_Long, IT_Int) \<and> (\<exists>w. b = VLong w)"
proof (cases "\<exists>v. meaning2 u k a b = Some v")
  case True
  then obtain v where v: "meaning2 u k a b = Some v" by blast
  have "\<exists>ta tb. binaryOperandTypes k = Some (ta, tb)"
    using assms(2)
  proof (cases rule: evalBinOp_cases)
    case (1 p q z)
    then show ?thesis using v assms(3,4) meaning_types(1) [of k p q v] by auto
  next
    case (2 p q z)
    then show ?thesis using v assms(3,4) meaning_types(2) [of k p q v] by auto
  next
    case (3 p q)
    then show ?thesis using v assms(3,4) meaning_types(3) [of u k p q v] by auto
  next
    case (4 p q)
    then show ?thesis using v assms(3,4) meaning_types(4) [of u k p q v] by auto
  qed
  then show ?thesis using evalBinOp_meaning [OF assms v] v by blast
next
  case False
  show ?thesis using assms(2)
  proof (cases rule: evalBinOp_cases)
    case (1 p q z)
    then show ?thesis using False foldIntBin_meaning [OF 1(3)] assms(3,4) by auto
  next
    case (2 p q z)
    then show ?thesis using False foldLongBin_types [OF 2(3)] assms(3,4) by auto
  next
    case (3 p q)
    then show ?thesis using False evalFloat_meaning [OF assms(1) 3(3)] evalFloat_const [OF 3(3)] assms(3,4) by auto
  next
    case (4 p q)
    then show ?thesis using False evalDouble_meaning [OF 4(3)] evalDouble_const [OF 4(3)] assms(3,4) by auto
  qed
qed

lemma fold_binary:
  assumes h: "hostNan u" and r: "rulesOk u F g n"
    and e: "evalBinOp u (kindAt g n) (constOf g (input g n 0)) (constOf g (input g n 1)) = Some c"
    and c: "isConst (constOf g (input g n 0))" "isConst (constOf g (input g n 1))"
  shows "rewriteOk F n g (makeConstNode c g)"
proof -
  obtain a b where ab: "valOfConst (constOf g (input g n 0)) = Some a" "valOfConst (constOf g (input g n 1)) = Some b"
    using valOfConst_isConst c by blast
  show ?thesis using evalBinOp_defined [OF h e ab]
  proof (elim disjE conjE exE)
    fix v ta tb assume v: "meaning2 u (kindAt g n) a b = Some v" "valOfConst c = Some v"
      and k: "binaryOperandTypes (kindAt g n) = Some (ta, tb)"
    show ?thesis
    proof (rule makeConstNode_ok [OF r v(2)])
      fix \<rho> t assume at: "ruleAt u F g \<rho> n"
      then have s: "javaModel u F" "soundVal F g \<rho>" "liveIn g n" by (simp_all add: ruleAt_def)
      show "\<rho> n t = Java v"
        by (rule sound_op2 [OF s k constOf_value [OF at ab(1)] constOf_value [OF at ab(2)] v(1)])
    qed
  next
    fix w assume k: "binaryOperandTypes (kindAt g n) = Some (IT_Long, IT_Int)" and w: "b = VLong w"
    have no: False if at: "ruleAt u F g \<rho> n" for \<rho>
    proof -
      have "ofType (\<rho> (input g n 1) 0) IT_Int" using sound_row2(3) [OF _ _ k, of F \<rho> 0] at by (simp add: ruleAt_def)
      then show False using constOf_value [OF at ab(2), of 0] w by (simp add: ofType_cases)
    qed
    obtain v where "valOfConst c = Some v" using e by (cases "constOf g (input g n 0)"; cases "constOf g (input g n 1)")
      (auto simp: evalFloat_def evalDouble_def split: option.splits if_splits)
    then show ?thesis by (rule makeConstNode_ok [OF r]) (use no in blast)
  qed
qed

lemma unary_meaning_types:
  assumes "meaning1 u k a = Some v" "evalUnaryOp u k x = Some r" "valOfConst x = Some a"
  shows "\<exists>ty. unaryOperandType k = Some ty"
  using assms by (cases x; simp only: evalUnaryOp.simps option.simps split: if_split_asm) (simp_all add: unaryOperandType_def)

lemma evalUnaryOp_defined: "evalUnaryOp u k x = Some r \<Longrightarrow> valOfConst x = Some a \<Longrightarrow> \<exists>v. meaning1 u k a = Some v"
  by (cases x; simp only: evalUnaryOp.simps option.simps split: if_split_asm) auto

lemma fold_unary:
  assumes h: "hostNan u" and r: "rulesOk u F g n" and e: "foldUnary u (kindAt g n) (constOf g (input g n 0)) g = Some x"
  shows "rewriteOk F n g x"
proof -
  obtain c where c: "isConst (constOf g (input g n 0))" "evalUnaryOp u (kindAt g n) (constOf g (input g n 0)) = Some c" "x = makeConstNode c g"
    using e by (auto simp: foldUnary_def split: if_splits option.splits)
  obtain a where a: "valOfConst (constOf g (input g n 0)) = Some a" using valOfConst_isConst c(1) by blast
  obtain v where v: "meaning1 u (kindAt g n) a = Some v" using evalUnaryOp_defined [OF c(2) a] by blast
  obtain ty where k: "operandTypes (kindAt g n) = Some [ty]" using unary_meaning_types [OF v c(2) a] unary_types by blast
  show ?thesis unfolding c(3)
  proof (rule makeConstNode_ok [OF r evalUnaryOp_meaning [OF h c(2) a v]])
    fix \<rho> t assume at: "ruleAt u F g \<rho> n"
    then have s: "javaModel u F" "soundVal F g \<rho>" "liveIn g n" by (simp_all add: ruleAt_def)
    show "\<rho> n t = Java v" by (rule sound_op1 [OF s k constOf_value [OF at a] v])
  qed
qed

lemma never_null_value:
  assumes "ruleAt u F g \<rho> n" "isNeverNullNode g (input g n s)" "\<rho> (input g n s) t = Java x" "isRefLike x"
  shows "\<exists>a. x = VRef a"
proof -
  have l: "\<not> isDead (node_at g (input g n s))" "neverNull (node_at g (input g n s))" using assms(2) by (simp_all add: isNeverNullNode_alt)
  have "input g n s < nodesSize g"
    by (rule ccontr) (use l(2) in \<open>simp add: node_at_def defaultNode_def neverNull_def flagsHas_def\<close>)
  then have i: "liveIn g (input g n s)" using input_live assms(1) by (auto simp: ruleAt_def)
  then have "\<rho> (input g n s) t \<noteq> Java VNull" using l(2) assms(1) by (simp add: ruleAt_def soundVal_def nodeSound_def node_at_live)
  then show ?thesis using assms(3,4) by (cases x) (auto simp: isRefLike_def)
qed

lemma fold_facts:
  assumes r: "rulesOk u F g n" and e: "foldValueFacts (kindAt g n) n g = Some x"
  shows "rewriteOk F n g x"
proof -
  let ?k = "kindAt g n"
  let ?a = "input g n 0"
  let ?b = "input g n 1"
  have null: "\<rho> (input g n s) t = Java VNull" if "ruleAt u F g \<rho> n" "constOf g (input g n s) = CV_Null" for \<rho> t s
    using constOf_value [OF that(1)] that(2) by simp
  consider (isnull1) "?k = Nk_IsNull" "constOf g ?a = CV_Null" "x = constantI 1 g"
    | (isnull0) "?k = Nk_IsNull" "isNeverNullNode g ?a" "x = constantI 0 g"
    | (eq) "?k = Nk_RefEq" "?a = ?b \<or> constOf g ?a = CV_Null \<and> constOf g ?b = CV_Null" "x = constantI 1 g"
    | (ne) "?k = Nk_RefEq" "constOf g ?a = CV_Null \<and> isNeverNullNode g ?b \<or> constOf g ?b = CV_Null \<and> isNeverNullNode g ?a" "x = constantI 0 g"
    | (inst) "?k = Nk_InstanceOf" "constOf g ?a = CV_Null" "x = constantI 0 g"
    using e unfolding foldValueFacts_def Let_def by (simp only: option.simps option.inject split: if_split_asm) blast+
  then show ?thesis
  proof cases
    case isnull1
    have "\<rho> n t = Java (VInt 1)" if at: "ruleAt u F g \<rho> n" for \<rho> t
      by (rule isnull_value [OF at isnull1(1), of t]) (use null [OF at isnull1(2), of t] in simp)
    then show ?thesis unfolding isnull1(3) by (rule rewrite_int [OF r])
  next
    case isnull0
    have "\<rho> n t = Java (VInt 0)" if at: "ruleAt u F g \<rho> n" for \<rho> t
      by (rule isnull_value [OF at isnull0(1), of t]) (use never_null_value [OF at isnull0(2)] in fastforce)
    then show ?thesis unfolding isnull0(3) by (rule rewrite_int [OF r])
  next
    case eq
    have "\<rho> n t = Java (VInt 1)" if at: "ruleAt u F g \<rho> n" for \<rho> t
    proof (rule ref_value [OF at eq(1), of t])
      fix x y assume xy: "\<rho> ?a t = Java x" "\<rho> ?b t = Java y" "isRefLike x" "isRefLike y" "\<rho> n t = Java (VInt (of_bool (sameObject x y)))"
      have "x = y" using eq(2) xy(1,2) null [OF at, of 0 t] null [OF at, of 1 t] by auto
      then show ?thesis using xy(3,5) by (cases y) (auto simp: sameObject_def isRefLike_def isRef_def)
    qed
    then show ?thesis unfolding eq(3) by (rule rewrite_int [OF r])
  next
    case ne
    have "\<rho> n t = Java (VInt 0)" if at: "ruleAt u F g \<rho> n" for \<rho> t
    proof (rule ref_value [OF at ne(1), of t])
      fix x y assume xy: "\<rho> ?a t = Java x" "\<rho> ?b t = Java y" "isRefLike x" "isRefLike y" "\<rho> n t = Java (VInt (of_bool (sameObject x y)))"
      have "x = VNull \<and> (\<exists>a. y = VRef a) \<or> y = VNull \<and> (\<exists>a. x = VRef a)"
        using ne(2) xy null [OF at, of 0 t] null [OF at, of 1 t] never_null_value [OF at, of 0 t x] never_null_value [OF at, of 1 t y]
        by auto
      then show ?thesis using xy(5) by (auto simp: sameObject_def)
    qed
    then show ?thesis unfolding ne(3) by (rule rewrite_int [OF r])
  next
    case inst
    have k: "operandTypes ?k = Some [IT_Ref]" using inst(1) by (simp add: operandTypes_def binaryOperandTypes_def unaryOperandType_def)
    have "\<rho> n t = Java (VInt 0)" if at: "ruleAt u F g \<rho> n" for \<rho> t
      by (rule unary_value [OF at k]) (use null [OF at inst(2), of t] inst(1) in simp)
    then show ?thesis unfolding inst(3) by (rule rewrite_int [OF r])
  qed
qed

lemma foldRule_ok:
  assumes h: "hostNan u" and s: "foldRule u n g = Some x" and r: "rulesOk u F g n"
  shows "rewriteOk F n g x"
proof -
  have n: "node_at g n = g_nodes g ! n" using r node_at_live by (auto simp: rulesOk_def)
  consider c where "evalBinOp u (kindAt g n) (constOf g (input g n 0)) (constOf g (input g n 1)) = Some c" "x = makeConstNode c g"
      "isConst (constOf g (input g n 0))" "isConst (constOf g (input g n 1))"
    | "foldUnary u (kindAt g n) (constOf g (input g n 0)) g = Some x" | "foldValueFacts (kindAt g n) n g = Some x"
    using s unfolding foldRule_def Let_def orElse_Some if_None_Some n by (auto split: option.splits)
  then show ?thesis using fold_binary [OF h r] fold_unary [OF h r] fold_facts [OF r] by cases auto
qed

section \<open>Strength reduction\<close>

lemma power_of_two_nat: "0 < m \<Longrightarrow> (m :: nat) AND (m - 1) = 0 \<Longrightarrow> \<exists>j. m = 2 ^ j"
proof (induction m rule: less_induct)
  case (less m)
  show ?case
  proof (cases "even m")
    case True
    then obtain k where k: "m = 2 * k" by blast
    then have "0 < k" using less.prems(1) by simp
    moreover have "m - 1 = 2 * (k - 1) + 1" using k \<open>0 < k\<close> by simp
    then have "2 * (k AND (k - 1)) = m AND (m - 1)" unfolding k by (subst (2) and_nat_rec) simp
    then have "k AND (k - 1) = 0" using less.prems(2) by simp
    moreover have "k < m" using k \<open>0 < k\<close> by simp
    ultimately obtain j where "k = 2 ^ j" using less.IH by blast
    then have "m = 2 ^ Suc j" using k by simp
    then show ?thesis by blast
  next
    case False
    then obtain k where k: "m = 2 * k + 1" by (elim oddE)
    have "m AND (m - 1) = 2 * k" unfolding k by (subst and_nat_rec) simp
    then have "m = 2 ^ 0" using less.prems(2) k by simp
    then show ?thesis by blast
  qed
qed

lemma countrZero_pow: "j < 64 \<Longrightarrow> countrZero (2 ^ j) = j"
proof -
  assume j: "j < 64"
  have u: "[0..<64] = [0..<j] @ j # [Suc j..<64]" using upt_add_eq_append [of 0 j "64 - j"] upt_conv_Cons [of j 64] j by simp
  have b: "bit (2 ^ j :: 64 word) i \<longleftrightarrow> i = j" if "i < 64" for i using that j by (auto simp: bit_exp_iff)
  have "takeWhile (\<lambda>i. \<not> bit (2 ^ j :: 64 word) i) ([0..<j] @ j # [Suc j..<64]) = [0..<j]"
    by (subst takeWhile_append2) (use b j in auto)
  then show ?thesis by (simp add: countrZero_def u)
qed

lemma power_of_two:
  fixes w :: "64 word"
  assumes "1 < w" "w AND (w - 1) = 0"
  shows "w = 2 ^ countrZero w" "countrZero w < 64"
proof -
  have u: "1 < unat w" using assms(1) by (simp add: word_less_nat_alt)
  then have "unat (w - 1) = unat w - 1" by (simp add: unat_sub_if')
  then have "unat w AND (unat w - 1) = unat (w AND (w - 1))" by (simp add: unsigned_and_eq)
  then have "unat w AND (unat w - 1) = 0" using assms(2) by simp
  then obtain j where j: "unat w = 2 ^ j" using power_of_two_nat [of "unat w"] u by auto
  then have "(2 :: nat) ^ j < 2 ^ 64" using unsigned_less [of w, where 'a = nat] by simp
  then have j64: "j < 64" by (rule power_less_imp_less_exp [rotated]) simp
  have "w = of_nat (unat w)" by simp
  then have "w = of_nat (2 ^ j)" unfolding j .
  then have "w = 2 ^ j" by simp
  then show "w = 2 ^ countrZero w" "countrZero w < 64" using countrZero_pow [OF j64] j64 by simp_all
qed

text \<open>A shift by a new constant.\<close>

lemma rewriteOk_shift:
  assumes r: "rulesOk u F g n" and x: "goodGraph g \<Longrightarrow> refOk (nodesSize g) x \<and> (x < nodesSize g \<longrightarrow> liveIn g x)"
    and k: "operandTypes k = Some [ta, IT_Int]"
    and v: "\<And>\<rho> t. ruleAt u F g \<rho> n \<Longrightarrow> \<exists>y v. \<rho> x t = Java y \<and> ofType (\<rho> x t) ta \<and> meaning2 u k y (VInt w) = Some v \<and> \<rho> n t = Java v"
  shows "rewriteOk F n g (Ir_Graph.make k [x, snd (constantI w g)] 0 0 (fst (constantI w g)))"
proof -
  define g1 where "g1 = fst (constantI w g)"
  define cn where "cn = snd (constantI w g)"
  have c: "constantI w g = makeRaw Nk_ConstantI [] 0 0 (scast w) g" by (simp add: constantI_def)
  let ?m = "makeRaw k [x, cn] 0 0 0 g1"
  have gr: "grows g g1" "grows g1 (fst ?m)" using makeRaw_grows by (simp_all add: g1_def c)
  have "goodGraph (fst ?m) \<and> g_start (fst ?m) = g_start g \<and> (\<forall>i < nodesSize g. g_nodes (fst ?m) ! i = g_nodes g ! i)
      \<and> (\<forall>\<rho>. soundVal F g \<rho> \<longrightarrow> (\<exists>\<rho>'. refined F g \<rho> (fst ?m) \<rho>' \<and> \<rho>' (snd ?m) = \<rho>' n))"
    if a: "goodGraph g" "sizesOk (fst ?m)"
  proof -
    have sz: "sizesOk g1" "sizesOk (fst (makeRaw Nk_ConstantI [] 0 0 (scast w) g))" using grows_sizes [OF gr(2) a(2)] by (simp_all add: g1_def c)
    have ok: "graphOk g" using a(1) by (simp add: goodGraph_def)
    note n1 = makeRaw_node [OF ok sz(2), simplified, folded c, folded g1_def]
    have good1: "goodGraph g1" using makeRaw_good [OF a(1) sz(2)] by (simp add: g1_def c)
    then have ok1: "graphOk g1" by (simp add: goodGraph_def)
    have cn: "cn = nodesSize g" using n1(3) by (simp add: cn_def c)
    have lc: "liveIn g1 cn" using n1(6,7) by (simp add: cn liveIn_def isDead_def flagsHas_def)
    have ins: "\<forall>v\<in>set [x, cn]. refOk (nodesSize g1) v \<and> (v < nodesSize g1 \<longrightarrow> liveIn g1 v)"
      using x [OF a(1)] n1(7,8) lc sz(1) by (auto simp: cn refOk_def liveIn_def kInvalidNodeId_def sizesOk_def)
    then have refs: "\<forall>v\<in>set [x, cn]. refOk (nodesSize g1) v" by simp
    note n2 = makeRaw_node [OF ok1 a(2) _ refs, simplified]
    have "\<exists>\<rho>'. refined F g \<rho> (fst ?m) \<rho>' \<and> \<rho>' (snd ?m) = \<rho>' n" if s: "soundVal F g \<rho>" for \<rho>
    proof -
      have at: "ruleAt u F g \<rho> n" by (rule ruleAtI [OF r a(1) s])
      have j: "javaModel u F" "liveIn g n" using r by (simp_all add: rulesOk_def)
      have ct: "operandTypes Nk_ConstantI = Some []" by (rule operandTypes_const) (simp add: isConstKind_def)
      obtain \<rho>1 where r1: "refined F g \<rho> g1 \<rho>1" "\<rho>1 cn = F (Nk_ConstantI, 0, 0, scast w) []"
        using makeRaw_refined [OF ok sz(2) _ _ ct _ s] by (auto simp: g1_def c cn)
      have cv: "\<rho>1 cn t = Java (VInt w)" for t
        using javaModelD [OF j(1), of t "[]" "[]" Nk_ConstantI "scast w"] r1(2) by (simp add: meaning0_def ucast_scast)
      have x1: "\<rho>1 x = \<rho> x" "\<rho>1 n = \<rho> n"
        using refined_old [OF r1(1)] x [OF a(1)] j(2) by (auto simp: refOk_def liveIn_def)
      have ty: "\<forall>t. list_all2 (\<lambda>m ty. ofType (\<rho>1 m t) ty) [x, cn] [ta, IT_Int]"
        using v [OF at] x1(1) cv by (simp add: ofType_cases) blast
      have s1: "soundVal F g1 \<rho>1" using refined_sound [OF r1(1)] .
      obtain \<rho>2 where r2: "refined F g1 \<rho>1 (fst ?m) \<rho>2" "\<rho>2 (nodesSize g1) = F (k, 0, 0, 0) (map \<rho>1 [x, cn])"
        using makeRaw_refined [OF ok1 a(2) _ refs k ty s1] by auto
      have "\<rho>2 (nodesSize g1) t = \<rho> n t" for t
      proof -
        obtain y z where y: "\<rho> x t = Java y" "meaning2 u k y (VInt w) = Some z" "\<rho> n t = Java z" using v [OF at] by blast
        show ?thesis using javaModelD [OF j(1), of t "map \<rho>1 [x, cn]" "[y, VInt w]" k 0 z] r2(2) y x1(1) cv by simp
      qed
      moreover have "\<rho>2 n = \<rho>1 n" using refined_old [OF r2(1)] j(2) n1(7) by (auto simp: refOk_def liveIn_def)
      ultimately have "\<rho>2 (snd ?m) = \<rho>2 n" using x1(2) n2(3) by auto
      then show ?thesis using refined_trans [OF r1(1) r2(1)] by blast
    qed
    then show ?thesis using makeRaw_good [OF good1 a(2) _ ins] n1(4,7,8) n2(4,8) by simp
  qed
  then show ?thesis unfolding rewriteOk_def Ir_Graph.make_def cn_def [symmetric] g1_def [symmetric]
    using grows_trans [OF gr] by blast
qed

end
