(* ===== verification/Pass_Strength.thy ===== *)
theory Pass_Strength
  imports Pass_Fold
begin

unbundle bit_operations_syntax

text \<open>
  Strength reduction and the complement of tests; then the rules of the engine together.
\<close>

section \<open>Multiplication by a power of two\<close>

lemma shift_amount:
  "j < 32 \<Longrightarrow> unat ((word_of_nat j :: 32 word) AND 0x1F) = j" "j < 64 \<Longrightarrow> unat ((word_of_nat j :: 32 word) AND 0x3F) = j"
proof -
  have m: "(0x1F :: 32 word) = mask 5" "(0x3F :: 32 word) = mask 6" by (simp_all add: mask_eq_exp_minus_1)
  have t: "take_bit k j = j" if "j < 2 ^ k" for k j :: nat using that by (simp add: take_bit_nat_eq_self)
  have u: "unat (word_of_nat j :: 32 word) = j" if "j < 64" for j using that by (simp add: unsigned_of_nat t)
  show "j < 32 \<Longrightarrow> unat ((word_of_nat j :: 32 word) AND 0x1F) = j" "j < 64 \<Longrightarrow> unat ((word_of_nat j :: 32 word) AND 0x3F) = j"
    unfolding m take_bit_eq_mask [symmetric] by (simp_all add: unsigned_take_bit_eq u t)
qed

lemma mul_shift_int:
  fixes w y :: "32 word"
  assumes "1 < (ucast w :: 64 word)" "(ucast w :: 64 word) AND (ucast w - 1) = 0"
  shows "shl y (word_of_nat (countrZero (ucast w))) = y * w"
proof -
  let ?j = "countrZero (ucast w)"
  note p = power_of_two [OF assms]
  have b: "bit w i \<longleftrightarrow> i = ?j" if "i < 32" for i
  proof -
    have "bit (ucast w :: 64 word) i \<longleftrightarrow> bit (2 ^ ?j :: 64 word) i" using p(1) by metis
    then show ?thesis using that by (auto simp: bit_simps)
  qed
  have j: "?j < 32"
  proof (rule ccontr)
    assume "\<not> ?j < 32"
    then have "w = 0" by (intro bit_word_eqI) (use b in auto)
    then show False using assms(1) by simp
  qed
  then have "w = 2 ^ ?j" by (intro bit_word_eqI) (auto simp: b bit_exp_iff)
  then show ?thesis using shift_amount(1) [OF j] by (simp add: shl_def shiftCount_def push_bit_eq_mult)
qed

lemma mul_shift_long:
  fixes w y :: "64 word"
  assumes "1 < w" "w AND (w - 1) = 0"
  shows "shl y (word_of_nat (countrZero w)) = y * w"
  using power_of_two [OF assms] shift_amount(2) [OF power_of_two(2) [OF assms]]
  by (simp add: shl_def shiftCount_def push_bit_eq_mult)

lemma binary_types: "binaryOperandTypes k = Some (a, b) \<Longrightarrow> operandTypes k = Some [a, b]"
  by (simp add: operandTypes_def)

lemma strength_kinds:
  "binaryOperandTypes Nk_MulI = Some (IT_Int, IT_Int)" "binaryOperandTypes Nk_MulL = Some (IT_Long, IT_Long)"
  "operandTypes Nk_ShlI = Some [IT_Int, IT_Int]" "operandTypes Nk_ShlL = Some [IT_Long, IT_Int]"
  by (simp_all add: operandTypes_def binaryOperandTypes_def)

lemma input_fresh: "rulesOk u F g n \<Longrightarrow> goodGraph g \<Longrightarrow> refOk (nodesSize g) (input g n s) \<and> (input g n s < nodesSize g \<longrightarrow> liveIn g (input g n s))"
  using input_refOk input_live by (simp add: rulesOk_def)

lemma strength_int:
  assumes s: "strengthSide True (input g n i) (input g n j) g = Some x" and k: "kindAt g n = Nk_MulI" and ij: "i = 0 \<and> j = 1 \<or> i = 1 \<and> j = 0"
    and r: "rulesOk u F g n"
  shows "rewriteOk F n g x"
proof -
  let ?nd = "node_at g (input g n i)"
  define w where "w = (ucast (nd_constValue ?nd) :: 32 word)"
  let ?raw = "ucast w :: 64 word"
  let ?c = "constantI (word_of_nat (countrZero ?raw)) g"
  have a: "nd_kind ?nd = Nk_ConstantI" "1 < ?raw" "?raw AND (?raw - 1) = 0"
    "x = Ir_Graph.make Nk_ShlI [input g n j, snd ?c] 0 0 (fst ?c)"
    using s by (auto simp: strengthSide_def Let_def split_beta w_def split: if_splits)
  show ?thesis unfolding a(4)
  proof (rule rewriteOk_shift [OF r input_fresh [OF r] strength_kinds(3)])
    fix \<rho> t assume at: "ruleAt u F g \<rho> n"
    have c: "\<rho> (input g n i) t = Java (VInt w)" by (rule const_value [OF at]) (use a(1) in \<open>simp add: meaning0_def w_def\<close>)
    have b: "binaryOperandTypes (kindAt g n) = Some (IT_Int, IT_Int)" using k strength_kinds(1) by simp
    obtain y where y: "\<rho> (input g n j) t = Java (VInt y)"
      using sound_row2(2,3) [OF _ _ b, of F \<rho> t] at ij by (auto simp: ofType_cases ruleAt_def)
    have "\<rho> n t = Java (VInt (y * w))"
      by (rule int_value [OF at b]) (use ij c y k in \<open>auto simp: intMeaning_def int_kernels\<close>)
    then show "\<exists>z v. \<rho> (input g n j) t = Java z \<and> ofType (\<rho> (input g n j) t) IT_Int
        \<and> meaning2 u Nk_ShlI z (VInt (word_of_nat (countrZero ?raw))) = Some v \<and> \<rho> n t = Java v"
      using y mul_shift_int [OF a(2,3), of y] by (simp add: intMeaning_def)
  qed
qed

lemma strength_long:
  assumes s: "strengthSide False (input g n i) (input g n j) g = Some x" and k: "kindAt g n = Nk_MulL" and ij: "i = 0 \<and> j = 1 \<or> i = 1 \<and> j = 0"
    and r: "rulesOk u F g n"
  shows "rewriteOk F n g x"
proof -
  let ?nd = "node_at g (input g n i)"
  let ?w = "nd_constValue ?nd"
  let ?c = "constantI (word_of_nat (countrZero ?w)) g"
  have a: "nd_kind ?nd = Nk_ConstantL" "1 < ?w" "?w AND (?w - 1) = 0"
    "x = Ir_Graph.make Nk_ShlL [input g n j, snd ?c] 0 0 (fst ?c)"
    using s by (auto simp: strengthSide_def Let_def split_beta split: if_splits)
  show ?thesis unfolding a(4)
  proof (rule rewriteOk_shift [OF r input_fresh [OF r] strength_kinds(4)])
    fix \<rho> t assume at: "ruleAt u F g \<rho> n"
    have c: "\<rho> (input g n i) t = Java (VLong ?w)" by (rule const_value [OF at]) (use a(1) in \<open>simp add: meaning0_def\<close>)
    have b: "binaryOperandTypes (kindAt g n) = Some (IT_Long, IT_Long)" using k strength_kinds(2) by simp
    obtain y where y: "\<rho> (input g n j) t = Java (VLong y)"
      using sound_row2(2,3) [OF _ _ b, of F \<rho> t] at ij by (auto simp: ofType_cases ruleAt_def)
    have "\<rho> n t = Java (VLong (y * ?w))"
      by (rule long_value [OF at b]) (use ij c y k in \<open>auto simp: longMeaning_def wrapMul64_def\<close>)
    then show "\<exists>z v. \<rho> (input g n j) t = Java z \<and> ofType (\<rho> (input g n j) t) IT_Long
        \<and> meaning2 u Nk_ShlL z (VInt (word_of_nat (countrZero ?w))) = Some v \<and> \<rho> n t = Java v"
      using y mul_shift_long [OF a(2,3), of y] by (simp add: shiftMeaning_def)
  qed
qed

lemma tryStrength_ok:
  assumes s: "tryStrength (kindAt g n) n g = Some x" and r: "rulesOk u F g n"
  shows "rewriteOk F n g x"
proof -
  consider (int) i j where "kindAt g n = Nk_MulI" "strengthSide True (input g n i) (input g n j) g = Some x" "i = 0 \<and> j = 1 \<or> i = 1 \<and> j = 0"
    | (long) i j where "kindAt g n = Nk_MulL" "strengthSide False (input g n i) (input g n j) g = Some x" "i = 0 \<and> j = 1 \<or> i = 1 \<and> j = 0"
    using s unfolding tryStrength_def Let_def by (auto simp: orElse_Some split: if_splits)
  then show ?thesis using strength_int [OF _ _ _ r] strength_long [OF _ _ _ r] by cases blast+
qed

section \<open>The complement of a test\<close>

lemma complement_value:
  assumes "complementTest k = Some ck"
  shows "binaryOperandTypes k = Some (IT_Int, IT_Int)" "binaryOperandTypes ck = Some (IT_Int, IT_Int)"
    and "\<exists>p. intMeaning k x y = Some (VInt (of_bool p)) \<and> intMeaning ck x y = Some (VInt (of_bool (\<not> p)))"
  using assms unfolding complementTest_def
  by (simp_all only: option.inject option.simps split: if_split_asm)
    (auto simp: binaryOperandTypes_def intMeaning_def not_less not_le)

lemma complementRule_ok:
  assumes s: "complementRule n g = Some x" and r: "rulesOk u F g n"
  shows "rewriteOk F n g x"
proof -
  let ?i = "input g n 0"
  have n: "node_at g n = g_nodes g ! n" "javaModel u F" "liveIn g n" using r node_at_live by (auto simp: rulesOk_def)
  obtain ck where k: "kindAt g n = Nk_Not" "\<not> isDead (node_at g ?i)" "complementTest (nd_kind (node_at g ?i)) = Some ck"
    "x = makeRaw ck [input g ?i 0, input g ?i 1] 0 0 0 g"
    using s by (auto simp: complementRule_def Let_def n(1) Ir_Graph.make_def split: if_splits option.splits)
  note c = complement_value [OF k(3)]
  have ik: "nd_kind (node_at g ?i) \<noteq> Nk_Start" using k(3) by (auto simp: complementTest_def split: if_splits)
  have live: "liveIn g ?i" if "goodGraph g" using input_live [OF that n(3)] kind_in_range [OF ik] by blast
  show ?thesis unfolding k(4)
  proof (rule rewriteOk_make [OF n(3) _ _ binary_types [OF c(2)]])
    show "\<forall>v\<in>set [input g ?i 0, input g ?i 1]. refOk (nodesSize g) v \<and> (v < nodesSize g \<longrightarrow> liveIn g v)" if "goodGraph g"
      using input_refOk [OF that] input_live [OF that live [OF that]] by simp
    fix \<rho> t assume a: "goodGraph g" "soundVal F g \<rho>"
    have at: "ruleAt u F g \<rho> n" "ruleAt u F g \<rho> ?i" using ruleAtI [OF r a] live [OF a(1)] by (simp_all add: ruleAt_def)
    have b: "binaryOperandTypes (kindAt g ?i) = Some (IT_Int, IT_Int)" using c(1) live [OF a(1)] by (simp add: node_at_live)
    obtain y z where yz: "\<rho> (input g ?i 0) t = Java (VInt y)" "\<rho> (input g ?i 1) t = Java (VInt z)"
      using sound_row2(2,3) [OF _ _ b, of F \<rho> t] at(2) by (auto simp: ofType_cases ruleAt_def)
    then show "list_all2 (\<lambda>m ty. ofType (\<rho> m t) ty) [input g ?i 0, input g ?i 1] [IT_Int, IT_Int]" by simp
    obtain p where p: "intMeaning (kindAt g ?i) y z = Some (VInt (of_bool p))" "intMeaning ck y z = Some (VInt (of_bool (\<not> p)))"
      using c(3) live [OF a(1)] by (auto simp: node_at_live)
    have "\<rho> ?i t = Java (VInt (of_bool p))" by (rule int_value [OF at(2) b]) (use yz p in simp)
    then have "\<rho> n t = Java (VInt (of_bool (\<not> p)))"
      by (intro unary_value [OF at(1) unary_types]) (use k(1) in \<open>simp_all add: unaryOperandType_def\<close>)
    then show "F (ck, 0, 0, 0) (map \<rho> [input g ?i 0, input g ?i 1]) t = \<rho> n t"
      using javaModelD [OF n(2), of t "map \<rho> [input g ?i 0, input g ?i 1]" "[VInt y, VInt z]" ck 0] yz p(2) by simp
  qed simp
qed

section \<open>All rules\<close>

lemma simplifyRule_ok:
  assumes h: "hostNan u" and j: "javaModel u F" and m: "\<not> hasClass mk kTrivialPhi"
    and s: "simplifyRule u mk n g = Some x" and n: "liveIn g n"
  shows "rewriteOk F n g x"
proof -
  have r: "rulesOk u F g n" using j n by (simp add: rulesOk_def)
  consider "foldRule u n g = Some x" | "identityRule n g = Some x" | "tryStrength (kindAt g n) n g = Some x" | "complementRule n g = Some x"
    using s m node_at_live [OF n] unfolding simplifyRule_def orElse_Some if_None_Some by auto
  then show ?thesis
    using foldRule_ok [OF h _ r] identityRule_ok [OF _ r] tryStrength_ok [OF _ r] complementRule_ok [OF _ r] by cases blast+
qed

end
