(* ===== verification/Pass_Preserve.thy ===== *)
theory Pass_Preserve
  imports Pass_Strength
begin

unbundle bit_operations_syntax

text \<open>
  Simplification, dead code elimination and value numbering preserve the meaning of the graph: a run
  that returns leaves a well-formed graph to which every sound valuation extends. The proofs follow
  the loops; each step is a rewrite by a sound rule, a swap of commutative operands or a kill.
\<close>

section \<open>Simplification\<close>

lemma swap_row:
  assumes ok: "graphOk g" and n: "n < nodesSize g" and c: "cnt g n = 2"
  shows "graphOk (swapInputs n g)" "absg (swapInputs n g) = (absg g)[n := [input g n 1, input g n 0]]"
proof -
  let ?a = "input g n 0"
  let ?b = "input g n 1"
  let ?g1 = "setInput n 0 ?b g"
  have row: "absg g ! n = [?a, ?b]"
    using input_absg [OF n, of 0] input_absg [OF n, of 1] c length_absg_nth [OF n] by (auto simp: length_Suc_conv numeral_2_eq_2)
  have refs: "refOk (nodesSize g) ?a" "refOk (nodesSize g) ?b" using row_refs [OF ok n] row by auto
  have 1: "graphOk ?g1" "absg ?g1 = (absg g)[n := [?b, ?b]]" using setInput_ok [OF ok n _ refs(2), of 0] c row by simp_all
  have c1: "cnt ?g1 n = 2" "n < nodesSize ?g1" using c n by (simp_all add: cnt_def)
  show "graphOk (swapInputs n g)" "absg (swapInputs n g) = (absg g)[n := [?b, ?a]]"
    using setInput_ok [OF 1(1) c1(2), of 1 ?a] c1(1) refs(1) 1(2) n by (simp_all add: swapInputs_def)
qed

lemma commutative_kinds:
  assumes "isCommutativeInt k"
  shows "binaryOperandTypes k = Some (IT_Int, IT_Int) \<and> (\<forall>x y. intMeaning k x y = intMeaning k y x \<and> intMeaning k x y \<noteq> None)
    \<or> binaryOperandTypes k = Some (IT_Long, IT_Long) \<and> (\<forall>x y. longMeaning k x y = longMeaning k y x \<and> longMeaning k x y \<noteq> None)"
  using assms unfolding isCommutativeInt_def
  by (elim disjE) (simp_all add: binaryOperandTypes_def intMeaning_def longMeaning_def int_kernels wrapAdd64_def wrapMul64_def
      ac_simps)

lemma commutative_value:
  assumes r: "ruleAt u F g \<rho> n" and k: "isCommutativeInt (kindAt g n)"
  shows "\<rho> n = F (descOf (g_nodes g ! n)) [\<rho> (input g n 1), \<rho> (input g n 0)]"
    and "\<exists>ty. operandTypes (kindAt g n) = Some [ty, ty] \<and> (\<forall>t. ofType (\<rho> (input g n 0) t) ty \<and> ofType (\<rho> (input g n 1) t) ty)"
proof -
  have s: "javaModel u F" "soundVal F g \<rho>" "liveIn g n" using r by (simp_all add: ruleAt_def)
  obtain ty where ty: "binaryOperandTypes (kindAt g n) = Some (ty, ty)" using commutative_kinds [OF k] by blast
  note o = sound_row2(2,3) [OF s(2,3) ty]
  show "\<exists>ty. operandTypes (kindAt g n) = Some [ty, ty] \<and> (\<forall>t. ofType (\<rho> (input g n 0) t) ty \<and> ofType (\<rho> (input g n 1) t) ty)"
    using binary_types [OF ty] o by blast
  have "\<rho> n t = F (descOf (g_nodes g ! n)) [\<rho> (input g n 1), \<rho> (input g n 0)] t" for t
  proof -
    have "\<exists>x y v. \<rho> (input g n 0) t = Java x \<and> \<rho> (input g n 1) t = Java y \<and> meaning2 u (kindAt g n) x y = Some v
        \<and> meaning2 u (kindAt g n) y x = Some v"
      using commutative_kinds [OF k] o [of t] ty by (elim disjE conjE) (auto simp: ofType_cases)
    then obtain x y v where v: "\<rho> (input g n 0) t = Java x" "\<rho> (input g n 1) t = Java y" "meaning2 u (kindAt g n) x y = Some v"
      "meaning2 u (kindAt g n) y x = Some v" by blast
    have "\<rho> n t = Java v" by (rule sound_op2 [OF s ty v(1-3)])
    moreover have "F (descOf (g_nodes g ! n)) [\<rho> (input g n 1), \<rho> (input g n 0)] t = Java v"
      unfolding descOf_def by (rule javaModelD [OF s(1), of _ _ "[y, x]"]) (use v in simp_all)
    ultimately show ?thesis by simp
  qed
  then show "\<rho> n = F (descOf (g_nodes g ! n)) [\<rho> (input g n 1), \<rho> (input g n 0)]" by (rule ext)
qed

lemma swap_step:
  assumes j: "javaModel u F" and n: "liveIn (ps_g st) n" and w: "swapWanted n (ps_g st)" and st': "ps_g st' = swapInputs n (ps_g st)" "ps_jk st' = ps_jk st"
  shows "passStep F st st'"
proof -
  let ?g = "ps_g st"
  let ?h = "swapInputs n ?g"
  have k: "isCommutativeInt (kindAt ?g n)" and c: "cnt ?g n = 2" and nn: "n < nodesSize ?g"
    using w n by (auto simp: swapWanted_def node_at_live cnt_def numInputs_def liveIn_def)
  have same: "g_nodes ?h = g_nodes ?g" by (simp add: swapInputs_def)
  have sz: "length (g_edgePool ?h) = length (g_edgePool ?g)" "g_start ?h = g_start ?g"
    by (simp_all add: swapInputs_def setInput_def Let_def pushUse_def removeFromUses_def)
  have live: "liveIn ?h m = liveIn ?g m" for m by (simp add: liveIn_def same)
  have "passGood st' \<and> (\<forall>\<rho>. soundVal F ?g \<rho> \<longrightarrow> refined F ?g \<rho> ?h \<rho>)" if a: "passGood st"
  proof (intro conjI allI impI)
    have ok: "graphOk ?g" "goodGraph ?g" using a by (auto simp: passGood_alt goodGraph_def)
    note r = swap_row [OF ok(1) nn c]
    have row: "absg ?g ! n = [input ?g n 0, input ?g n 1]"
      using input_absg [OF nn, of 0] input_absg [OF nn, of 1] c length_absg_nth [OF nn] by (auto simp: length_Suc_conv numeral_2_eq_2)
    have "set (absg ?h ! m) = set (absg ?g ! m)" if "m < nodesSize ?g" for m using r(2) that row by (cases "m = n") auto
    then have "liveInputs ?h" using a live by (auto simp: liveInputs_def passGood_def liveIn_def same)
    then show "passGood st'" using a r(1) live by (simp add: passGood_alt goodGraph_def st' startOk_def same sz)
    fix \<rho> assume s: "soundVal F ?g \<rho>"
    have at: "ruleAt u F ?g \<rho> n" using j ok(2) s n by (simp add: ruleAt_def)
    note v = commutative_value [OF at k]
    have "nodeSound F \<rho> m (g_nodes ?h ! m) (absg ?h ! m)" if m: "liveIn ?h m" for m
    proof (cases "m = n")
      case True
      have "nodeSound F \<rho> n (g_nodes ?g ! n) (absg ?g ! n)" using s n by (simp add: soundVal_def)
      then show ?thesis using v r(2) nn by (auto simp: nodeSound_def True same)
    next
      case False
      then show ?thesis using s m live r(2) by (simp add: soundVal_def same)
    qed
    moreover have "readsSame \<rho> ?g \<rho> ?h m" if "m < nodesSize ?g" for m
      using r(2) that row k by (cases "m = n") (simp_all add: readsSame_def)
    ultimately show "refined F ?g \<rho> ?h \<rho>" using live by (simp add: refined_def soundVal_def extendsVal_def same)
  qed
  moreover have "grows ?g ?h" by (simp add: grows_def same sz)
  ultimately show ?thesis unfolding passStep_def st'(1) by blast
qed

text \<open>Only nodes with typed operands are rewritten.\<close>

lemma typed_removable: "k = 37 \<or> k \<in> {46..105} \<union> {128..136} \<Longrightarrow> removable k \<and> k \<noteq> Nk_Start"
  by (auto simp: removable_def isGvnEligible_def isPureValueKind_iff)

lemma ruleKinds:
  "foldValueFacts k n g = Some x \<Longrightarrow> k = 37 \<or> k \<in> {46..105} \<union> {128..136}" "selfIdentity k a l g = Some x \<Longrightarrow> k \<in> {46..105} \<union> {128..136}"
  "constIdentity k a b l g = Some x \<Longrightarrow> k \<in> {46..105} \<union> {128..136}"
  "tryDoubleNeg k n g = Some x \<Longrightarrow> k \<in> {46..105} \<union> {128..136}" "tryConversionIdentity k n g = Some x \<Longrightarrow> k \<in> {46..105} \<union> {128..136}"
  "tryNotNot k n g = Some x \<Longrightarrow> k \<in> {46..105} \<union> {128..136}" "tryStrength k n g = Some x \<Longrightarrow> k \<in> {46..105} \<union> {128..136}"
  "binaryOperandTypes k = Some b2 \<Longrightarrow> k \<in> {46..105} \<union> {128..136}"
  unfolding foldValueFacts_def selfIdentity_def constIdentity_def tryDoubleNeg_def tryConversionIdentity_def tryNotNot_def
    tryStrength_def binaryOperandTypes_def Let_def
  by (simp_all only: option.simps split: if_split_asm) auto

lemma evalUnaryOp_kinds: "evalUnaryOp u k c = Some y \<Longrightarrow> k \<in> {46..105} \<union> {128..136}"
  by (cases c; simp only: evalUnaryOp.simps option.simps split: if_split_asm) auto

lemma evalBinOp_kinds:
  assumes "hostNan u" "evalBinOp u k a b = Some c"
  shows "k \<in> {46..105} \<union> {128..136}"
proof -
  have "\<exists>v w. valOfConst a = Some v \<and> valOfConst b = Some w" using assms(2) by (cases rule: evalBinOp_cases) auto
  then have "\<exists>p. binaryOperandTypes k = Some p" using evalBinOp_defined [OF assms] by blast
  then show ?thesis using ruleKinds(8) by blast
qed

lemma simplifyRule_kinds:
  assumes h: "hostNan u" and m: "\<not> hasClass mk kTrivialPhi" and s: "simplifyRule u mk n g = Some x"
  shows "removable (nd_kind (node_at g n)) \<and> nd_kind (node_at g n) \<noteq> Nk_Start"
proof -
  let ?k = "nd_kind (node_at g n)"
  consider "foldRule u n g = Some x" | "identityRule n g = Some x" | "tryStrength ?k n g = Some x" | "complementRule n g = Some x"
    using s m unfolding simplifyRule_def orElse_Some if_None_Some by blast
  then have "?k = 37 \<or> ?k \<in> {46..105} \<union> {128..136}"
  proof cases
    case 1
    then have "(\<exists>a b c. evalBinOp u ?k a b = Some c) \<or> (\<exists>a c. evalUnaryOp u ?k a = Some c) \<or> foldValueFacts ?k n g = Some x"
      unfolding foldRule_def foldUnary_def Let_def orElse_Some if_None_Some by (auto split: if_splits option.splits)
    then show ?thesis by (elim disjE exE) (drule evalBinOp_kinds [OF h], erule disjI2, drule evalUnaryOp_kinds, erule disjI2, rule ruleKinds(1))
  next
    case 2
    then have "(\<exists>a l. selfIdentity ?k a l g = Some x) \<or> (\<exists>a b l. constIdentity ?k a b l g = Some x) \<or> tryDoubleNeg ?k n g = Some x
        \<or> tryConversionIdentity ?k n g = Some x \<or> tryNotNot ?k n g = Some x"
      unfolding identityRule_def tryIdentity_def Let_def orElse_Some if_None_Some by blast
    then show ?thesis by (elim disjE exE) (rule disjI2, erule ruleKinds(2-6))+
  next
    case 3
    then show ?thesis by (intro disjI2) (rule ruleKinds(7))
  next
    case 4
    then show ?thesis by (auto simp: complementRule_def Let_def split: if_splits)
  qed
  then show ?thesis by (rule typed_removable)
qed

text \<open>A rewrite: the rule extends the graph, the node is replaced by what the rule proposes.\<close>

lemma rewrite_step:
  assumes r: "rewriteOk F n (ps_g st) (g1, rep)" and n: "passGood st \<Longrightarrow> n \<noteq> g_start (ps_g st)"
    and rm: "liveIn (ps_g st) n" "removable (kindAt (ps_g st) n)"
    and p: "replace n rep (st\<lparr>ps_g := g1\<rparr>) = Some st'"
  shows "passStep F st st'"
proof -
  let ?g = "ps_g st"
  let ?st1 = "st\<lparr>ps_g := g1\<rparr>"
  have gr: "grows ?g g1" "grows g1 (ps_g st')" using r replace_grows [OF p] by (simp_all add: rewriteOk_def)
  have "passGood st' \<and> (\<forall>\<rho>. soundVal F ?g \<rho> \<longrightarrow> (\<exists>\<rho>'. refined F ?g \<rho> (ps_g st') \<rho>'))"
    if a: "passGood st" "sizesOk (ps_g st')"
  proof -
    have sz: "sizesOk g1" using grows_sizes [OF gr(2) a(2)] .
    have g1: "goodGraph g1" "g_start g1 = g_start ?g" using r a(1) sz by (auto simp: rewriteOk_def passGood_alt)
    have good: "passGood ?st1" using g1(1) a(1) junkOk_mono gr(1) by (auto simp: passGood_alt grows_def)
    have nn: "n \<noteq> g_start (ps_g ?st1)" using n [OF a(1)] g1(2) by simp
    have "g_nodes g1 ! n = g_nodes ?g ! n" using r a(1) sz rm(1) by (auto simp: rewriteOk_def passGood_alt liveIn_def)
    then have k: "passGood st'" "soundVal F g1 \<rho> \<Longrightarrow> (liveIn g1 rep \<Longrightarrow> \<rho> rep = \<rho> n) \<Longrightarrow> \<exists>\<rho>'. refined F g1 \<rho> (ps_g st') \<rho>'" for \<rho>
      using replace_keeps_meaning(1) [OF p good nn a(2)] replace_keeps_meaning(2) [OF p good nn a(2), of F \<rho>] rm(2) by simp_all
    have "\<exists>\<rho>'. refined F ?g \<rho> (ps_g st') \<rho>'" if s: "soundVal F ?g \<rho>" for \<rho>
    proof -
      obtain \<rho>1 where 1: "refined F ?g \<rho> g1 \<rho>1" "liveIn g1 rep \<longrightarrow> \<rho>1 rep = \<rho>1 n"
        using r a(1) sz s by (auto simp: rewriteOk_def passGood_alt)
      then have "soundVal F g1 \<rho>1" using refined_sound by blast
      then obtain \<rho>2 where "refined F g1 \<rho>1 (ps_g st') \<rho>2" using k(2) [of \<rho>1] 1(2) by auto
      then show ?thesis using refined_trans [OF 1(1)] by blast
    qed
    then show ?thesis using k(1) by blast
  qed
  then show ?thesis using grows_trans [OF gr] by (simp add: passStep_def)
qed

lemma rewrite_only:
  assumes r: "rewriteOk F n (ps_g st) (g1, rep)"
  shows "passStep F st (st\<lparr>ps_g := g1\<rparr>)"
proof -
  have "passGood (st\<lparr>ps_g := g1\<rparr>)" if "passGood st" "sizesOk g1"
    using r that junkOk_mono by (auto simp: rewriteOk_def passGood_alt grows_def)
  then show ?thesis using r by (auto simp: passStep_def rewriteOk_def passGood_alt)
qed

lemma live_of_count: "n < nodeCount g \<Longrightarrow> \<not> isDead (node_at g n) \<Longrightarrow> liveIn g n"
  using mod_less_eq_dividend [of "nodesSize g" "2 ^ 32"] by (auto simp: nodeCount_def u32_def liveIn_def node_at_def split: if_splits)

lemma countFold_step: "passStep F st (countFold st)"
  by (rule passStep_fields) (simp_all add: countFold_def)

lemma simplifyNode_step:
  assumes h: "hostNan u" and j: "javaModel u F" and m: "\<not> hasClass mk kTrivialPhi" and n: "n < nodeCount (ps_g st)"
    and s: "simplifyNode u mk n st = Some (st', b)"
  shows "passStep F st st'"
proof (cases "isDead (node_at (ps_g st) n)")
  case True
  then show ?thesis using s passStep_refl by (simp add: simplifyNode_def Let_def)
next
  case False
  have l: "liveIn (ps_g st) n" using live_of_count [OF n False] .
  show ?thesis
  proof (cases "simplifyRule u mk n (ps_g st)")
    case None
    then show ?thesis using s False swap_step [OF j l] passStep_refl
      by (auto simp: simplifyNode_def Let_def updGraph_def countFold_def split: if_splits)
  next
    case (Some r)
    obtain g1 rep where e: "r = (g1, rep)" by (cases r)
    have ok: "rewriteOk F n (ps_g st) (g1, rep)" using simplifyRule_ok [OF h j m Some l] e by simp
    have ns: "n \<noteq> g_start (ps_g st)" if "passGood st"
      using simplifyRule_kinds [OF h m Some] that l by (auto simp: passGood_alt goodGraph_def startOk_def node_at_live)
    have rm: "removable (kindAt (ps_g st) n)" using simplifyRule_kinds [OF h m Some] l by (simp add: node_at_live)
    consider "st' = st\<lparr>ps_g := g1\<rparr>"
      | st2 where "replace n rep (st\<lparr>ps_g := g1\<rparr>) = Some st2" "st' = st2 \<or> st' = countFold st2"
      using s False Some e by (auto simp: simplifyNode_def Let_def bind_eq_Some_conv split: if_splits)
    then show ?thesis
    proof cases
      case 1
      then show ?thesis using rewrite_only [OF ok] by simp
    next
      case 2
      then show ?thesis using rewrite_step [OF ok ns l rm 2(1)] passStep_trans countFold_step by blast
    qed
  qed
qed

lemma simplifyLoop_step:
  assumes h: "hostNan u" and j: "javaModel u F" and m: "\<not> hasClass mk kTrivialPhi"
    and l: "simplifyLoop u mk n changed st = Some r"
  shows "passStep F st (fst r)"
proof -
  have "u = u \<and> mk = mk \<longrightarrow> passStep F st (fst r)" using l
  proof (rule simplifyLoop.raw_induct [where P = "\<lambda>u' mk' n c st r. u' = u \<and> mk' = mk \<longrightarrow> passStep F st (fst r)", rotated])
    fix f u' mk' n c st r
    assume IH: "\<And>u' mk' n c st r. f u' mk' n c st = Some r \<Longrightarrow> u' = u \<and> mk' = mk \<longrightarrow> passStep F st (fst r)"
      and e: "(if n < nodeCount (ps_g st) \<and> \<not> b_exceeded (ps_b st)
        then Option.bind (simplifyNode u' mk' n st) (\<lambda>r. f u' mk' (n + 1) (c \<or> snd r) (fst r)) else Some (st, c)) = Some r"
    show "u' = u \<and> mk' = mk \<longrightarrow> passStep F st (fst r)"
    proof (intro impI; elim conjE)
      assume u: "u' = u" "mk' = mk"
      show "passStep F st (fst r)"
      proof (cases "n < nodeCount (ps_g st) \<and> \<not> b_exceeded (ps_b st)")
        case False
        then show ?thesis using e passStep_refl by auto
      next
        case True
        then obtain x where x: "simplifyNode u mk n st = Some x" "f u mk (n + 1) (c \<or> snd x) (fst x) = Some r"
          using e u by (auto simp: bind_eq_Some_conv)
        have "passStep F st (fst x)" using simplifyNode_step [OF h j m] True x(1) by (metis prod.collapse)
        then show ?thesis using IH [OF x(2)] passStep_trans by blast
      qed
    qed
  qed
  then show ?thesis by simp
qed

lemma simplifySweeps_step:
  assumes h: "hostNan u" and j: "javaModel u F" and m: "\<not> hasClass mk kTrivialPhi"
  shows "simplifySweeps u mk k st = Some st' \<Longrightarrow> passStep F st st'"
proof (induction k arbitrary: st)
  case 0
  then show ?case using passStep_refl by simp
next
  case (Suc k)
  then obtain st1 ch where s: "simplifyLoop u mk 0 False st = Some (st1, ch)" "simplifySweeps u mk k st1 = Some st' \<or> st' = st1"
    by (auto simp: bind_eq_Some_conv split: if_splits)
  have "passStep F st st1" using simplifyLoop_step [OF h j m s(1)] by simp
  then show ?case using s(2) Suc.IH passStep_trans by blast
qed

section \<open>Dead code elimination\<close>

lemma dceNode_step: "dceNode n st = Some (st', b) \<Longrightarrow> passStep F st st'"
  using kill_step [of n st st' b] passStep_refl by (auto simp: dceNode_def Let_def startNode_def removable_def node_at_def split: if_splits)

lemma dceLoop_step: "dceLoop n changed st = Some r \<Longrightarrow> passStep F st (fst r)"
proof (rule dceLoop.raw_induct [where P = "\<lambda>n c st r. passStep F st (fst r)", rotated])
  fix f n c st r
  assume IH: "\<And>n c st r. f n c st = Some r \<Longrightarrow> passStep F st (fst r)"
    and e: "(if n < nodeCount (ps_g st) \<and> \<not> b_exceeded (ps_b st)
      then Option.bind (dceNode n st) (\<lambda>r. f (n + 1) (c \<or> snd r) (fst r)) else Some (st, c)) = Some r"
  show "passStep F st (fst r)"
  proof (cases "n < nodeCount (ps_g st) \<and> \<not> b_exceeded (ps_b st)")
    case False
    then show ?thesis using e passStep_refl by auto
  next
    case True
    then obtain x where x: "dceNode n st = Some x" "f (n + 1) (c \<or> snd x) (fst x) = Some r" using e by (auto simp: bind_eq_Some_conv)
    have "passStep F st (fst x)" using dceNode_step x(1) by (metis prod.collapse)
    then show ?thesis using IH [OF x(2)] passStep_trans by blast
  qed
qed

lemma dceSweeps_step: "dceSweeps k st = Some st' \<Longrightarrow> passStep F st st'"
proof (induction k arbitrary: st)
  case 0
  then show ?case using passStep_refl by simp
next
  case (Suc k)
  then obtain st1 ch where s: "dceLoop 0 False st = Some (st1, ch)" "dceSweeps k st1 = Some st' \<or> st' = st1"
    by (auto simp: bind_eq_Some_conv split: if_splits)
  have "passStep F st st1" using dceLoop_step [OF s(1)] by simp
  then show ?case using s(2) Suc.IH passStep_trans by blast
qed

section \<open>Global value numbering\<close>

text \<open>What a replacement does to the rows of the surviving nodes.\<close>

lemma replace_rows:
  assumes r: "replace old w st = Some st'" and good: "passGood st" and n: "old \<noteq> g_start (ps_g st)" and sz: "sizesOk (ps_g st')"
    and m: "m < nodesSize (ps_g st)" "liveIn (ps_g st') m"
  shows "liveIn (ps_g st) m" "descOf (g_nodes (ps_g st') ! m) = descOf (g_nodes (ps_g st) ! m)"
    and "absg (ps_g st') ! m = absg (ps_g st) ! m \<or> old \<in> set (absg (ps_g st) ! m) \<and> old < nodesSize (ps_g st) \<and> \<not> liveIn (ps_g st') old"
proof -
  let ?g = "ps_g st"
  let ?g' = "ps_g st'"
  have "liveIn ?g m \<and> descOf (g_nodes ?g' ! m) = descOf (g_nodes ?g ! m)
    \<and> (absg ?g' ! m = absg ?g ! m \<or> old \<in> set (absg ?g ! m) \<and> old < nodesSize ?g \<and> \<not> liveIn ?g' old)"
    using replace_outcome [OF r]
  proof (elim disjE conjE exE)
    assume "ps_g st' = ps_g st"
    then show ?thesis using m by simp
  next
    fix st2 assume ra: "replaceable old w ?g" and st2: "ps_g st2 = fst (replaceNode old w ?g)" "ps_jk st2 = ps_jk st" and c: "calm {old} st2 st'"
    have ok: "graphOk ?g" "goodState st" using good by (auto simp: passGood_def goodState_def)
    have o: "old < nodesSize (ps_g st2)" "\<not> liveIn (ps_g st2) old" "old < nodesSize ?g"
      using ra replaceNode_nodes(2) [OF ra, of old] by (auto simp: st2 replaceNode_keeps replaceable_def)
    have j: "junked {old} (ps_g st2) ?g'" using c replaceNode_good [OF ok(2) ra n st2] sz o(1) by (auto simp: calm_def)
    have m2: "m < nodesSize (ps_g st2)" using m(1) by (simp add: st2 replaceNode_keeps)
    have l2: "liveIn (ps_g st2) m" using junked_dead [OF j m2] m(2) by simp
    then have lm: "liveIn ?g m" "m \<noteq> old" using replaceNode_nodes(2) [OF ra m(1)] by (simp_all add: st2)
    have row: "absg ?g' ! m = map (substNode old w) (absg ?g ! m)"
      using j m2 lm(2) replaceNode_ok(2) [OF ok(1) ra] m(1) by (simp add: junked_def st2)
    have "map (substNode old w) xs = xs" if "old \<notin> set xs" for xs
      by (rule map_idI) (use that in \<open>auto simp: substNode_def\<close>)
    then have "absg ?g' ! m = absg ?g ! m \<or> old \<in> set (absg ?g ! m)" using row by metis
    moreover have "descOf (g_nodes ?g' ! m) = descOf (g_nodes ?g ! m)"
      using j m2 replaceNode_nodes(1) [OF ra m(1)] by (simp add: junked_def sameNode_def st2)
    moreover have "\<not> liveIn ?g' old" using junked_dead [OF j o(1)] o(2) by simp
    ultimately show ?thesis using lm(1) o(3) by blast
  qed
  then show "liveIn ?g m" "descOf (g_nodes ?g' ! m) = descOf (g_nodes ?g ! m)"
    "absg ?g' ! m = absg ?g ! m \<or> old \<in> set (absg ?g ! m) \<and> old < nodesSize ?g \<and> \<not> liveIn ?g' old" by blast+
qed

text \<open>The table: a live survivor still is what its key says, or an input of the key has died.\<close>

definition keyHolds :: "graph \<Rightarrow> gvn_key \<times> node_id \<Rightarrow> bool" where
  "keyHolds g e \<longleftrightarrow> snd e < nodesSize g \<and> (liveIn g (snd e) \<longrightarrow>
     descOf (g_nodes g ! snd e) = (key_kind (fst e), key_payload (fst e), key_payload2 (fst e), key_constValue (fst e))
     \<and> (absg g ! snd e = key_inputs (fst e) \<or> (\<exists>v \<in> set (key_inputs (fst e)). v < nodesSize g \<and> \<not> liveIn g v)))"

lemma keyOf_holds: "liveIn g n \<Longrightarrow> keyHolds g (keyOf g n, n)"
  by (simp add: keyHolds_def keyOf_def Let_def node_at_live descOf_def liveIn_def absg_def inputsOf_def numInputs_def)

lemma keyHolds_replace:
  assumes "replace old w st = Some st'" "passGood st" "old \<noteq> g_start (ps_g st)" "sizesOk (ps_g st')" "keyHolds (ps_g st) e"
  shows "keyHolds (ps_g st') e"
proof -
  let ?g = "ps_g st"
  let ?g' = "ps_g st'"
  let ?s = "snd e"
  have le: "nodesSize ?g \<le> nodesSize ?g'" using replace_grows [OF assms(1)] by (simp add: grows_def)
  have s: "?s < nodesSize ?g" using assms(5) by (simp add: keyHolds_def)
  note rr = replace_rows [OF assms(1-4)]
  have dead: "\<not> liveIn ?g' v" if "v < nodesSize ?g" "\<not> liveIn ?g v" for v using rr(1) that by blast
  have "descOf (g_nodes ?g' ! ?s) = (key_kind (fst e), key_payload (fst e), key_payload2 (fst e), key_constValue (fst e))
     \<and> (absg ?g' ! ?s = key_inputs (fst e) \<or> (\<exists>v \<in> set (key_inputs (fst e)). v < nodesSize ?g' \<and> \<not> liveIn ?g' v))"
    if l: "liveIn ?g' ?s"
  proof -
    note r = rr [OF s l]
    have k: "descOf (g_nodes ?g ! ?s) = (key_kind (fst e), key_payload (fst e), key_payload2 (fst e), key_constValue (fst e))"
      "absg ?g ! ?s = key_inputs (fst e) \<or> (\<exists>v \<in> set (key_inputs (fst e)). v < nodesSize ?g \<and> \<not> liveIn ?g v)"
      using assms(5) r(1) by (auto simp: keyHolds_def)
    have "absg ?g' ! ?s = key_inputs (fst e) \<or> (\<exists>v \<in> set (key_inputs (fst e)). v < nodesSize ?g \<and> \<not> liveIn ?g' v)"
      using k(2) r(3) dead by auto
    then show ?thesis using k(1) r(2) le by auto
  qed
  then show ?thesis using s le by (simp add: keyHolds_def)
qed

text \<open>A hit is a node of the same kind, payloads and inputs, so of the same history.\<close>

lemma hit_same:
  assumes g: "goodGraph g" and n: "liveIn g n" and s: "keyHolds g (keyOf g n, s)" "liveIn g s" and v: "soundVal F g \<rho>" and e: "isGvnEligible (kindAt g n)"
  shows "\<rho> s = \<rho> n"
proof -
  have k: "key_inputs (keyOf g n) = absg g ! n" using n by (simp add: keyOf_def Let_def absg_def inputsOf_def numInputs_def liveIn_def)
  have "\<not> (\<exists>v \<in> set (absg g ! n). v < nodesSize g \<and> \<not> liveIn g v)" using g n by (auto simp: goodGraph_def liveInputs_def)
  then have row: "absg g ! s = absg g ! n" using s by (auto simp: keyHolds_def k)
  have d: "descOf (g_nodes g ! s) = descOf (g_nodes g ! n)" using s n by (simp add: keyHolds_def keyOf_def Let_def node_at_live descOf_def)
  then have "isGvnEligible (kindAt g s)" using e by (simp add: descOf_def)
  then have "\<rho> s = F (descOf (g_nodes g ! s)) (map \<rho> (absg g ! s))" "\<rho> n = F (descOf (g_nodes g ! n)) (map \<rho> (absg g ! n))"
    using v e n s(2) by (simp_all add: soundVal_def nodeSound_def)
  then show ?thesis by (simp add: row d)
qed

lemma start_not_eligible: "\<not> isGvnEligible Nk_Start"
  by (simp add: isGvnEligible_def isPureValueKind_iff)

lemma gvnNode_step:
  assumes s: "gvnNode n seen st = Some (seen', st')" and n: "n < nodeCount (ps_g st)"
  shows "grows (ps_g st) (ps_g st')"
    and "\<forall>e \<in> set seen. keyHolds (ps_g st) e \<Longrightarrow> passStep F st st'"
    and "\<forall>e \<in> set seen. keyHolds (ps_g st) e \<Longrightarrow> passGood st \<Longrightarrow> sizesOk (ps_g st') \<Longrightarrow> \<forall>e \<in> set seen'. keyHolds (ps_g st') e"
proof -
  let ?g = "ps_g st"
  have c: "seen' = seen \<and> st' = st \<or> liveIn ?g n \<and> (seen' = (keyOf ?g n, n) # seen \<and> st' = st
      \<or> (\<exists>sv st1. seen' = seen \<and> map_of seen (keyOf ?g n) = Some sv \<and> isGvnEligible (kindAt ?g n) \<and> replace n sv st = Some st1
          \<and> ps_g st' = ps_g st1 \<and> ps_jk st' = ps_jk st1))"
    using s live_of_count [OF n] node_at_live [of ?g n]
    by (auto simp: gvnNode_def Let_def bind_eq_Some_conv split: if_splits option.splits)
  show "grows ?g (ps_g st')" using c replace_grows by auto
  assume inv: "\<forall>e \<in> set seen. keyHolds ?g e"
  have hit: "\<rho> sv = \<rho> n" if "map_of seen (keyOf ?g n) = Some sv" "isGvnEligible (kindAt ?g n)" "liveIn ?g n" "passGood st" "soundVal F ?g \<rho>" "liveIn ?g sv"
    for sv \<rho>
    using hit_same [OF _ that(3) _ that(6,5,2)] inv map_of_SomeD [OF that(1)] that(4) by (auto simp: passGood_alt)
  have ns: "n \<noteq> g_start ?g" if "isGvnEligible (kindAt ?g n)" "passGood st"
    using that start_not_eligible by (auto simp: passGood_alt goodGraph_def startOk_def)
  have rm: "removable (kindAt ?g n)" if "isGvnEligible (kindAt ?g n)" using that by (simp add: removable_def)
  have good: "passGood x = passGood y" if "ps_g x = ps_g y" "ps_jk x = ps_jk y" for x y using that by (simp add: passGood_alt)
  show "passStep F st st'" using c
  proof (elim disjE conjE exE)
    fix sv st1 assume a: "map_of seen (keyOf ?g n) = Some sv" "isGvnEligible (kindAt ?g n)" "replace n sv st = Some st1" "ps_g st' = ps_g st1"
      "ps_jk st' = ps_jk st1" "liveIn ?g n"
    have "passGood st' \<and> (\<forall>\<rho>. soundVal F ?g \<rho> \<longrightarrow> (\<exists>\<rho>'. refined F ?g \<rho> (ps_g st') \<rho>'))" if b: "passGood st" "sizesOk (ps_g st')"
      using replace_keeps_meaning [OF a(3) b(1) ns [OF a(2) b(1)]] rm [OF a(2)] b(2) hit [OF a(1,2,6) b(1)] good [of st' st1] a(4,5) by auto
    then show ?thesis using replace_grows [OF a(3)] a(4) by (simp add: passStep_def)
  qed (simp_all add: passStep_refl)
  assume b: "passGood st" "sizesOk (ps_g st')"
  show "\<forall>e \<in> set seen'. keyHolds (ps_g st') e" using c
  proof (elim disjE conjE exE)
    fix sv st1 assume a: "seen' = seen" "isGvnEligible (kindAt ?g n)" "replace n sv st = Some st1" "ps_g st' = ps_g st1"
    then show ?thesis using inv keyHolds_replace [OF a(3) b(1) ns [OF a(2) b(1)]] b(2) by simp
  qed (use inv keyOf_holds in auto)
qed

lemma gvnLoop_step:
  "gvnLoop n seen st = Some st' \<Longrightarrow> grows (ps_g st) (ps_g st') \<and> ((\<forall>e \<in> set seen. keyHolds (ps_g st) e) \<longrightarrow> passStep F st st')"
proof (rule gvnLoop.raw_induct [where P = "\<lambda>n seen st st'. grows (ps_g st) (ps_g st')
    \<and> ((\<forall>e \<in> set seen. keyHolds (ps_g st) e) \<longrightarrow> passStep F st st')", rotated])
  fix f n seen st st'
  let ?P = "\<lambda>seen st st'. grows (ps_g st) (ps_g st') \<and> ((\<forall>e \<in> set seen. keyHolds (ps_g st) e) \<longrightarrow> passStep F st st')"
  assume IH: "\<And>n seen st st'. f n seen st = Some st' \<Longrightarrow> ?P seen st st'"
    and e: "(if n < nodeCount (ps_g st) \<and> \<not> b_exceeded (ps_b st)
      then Option.bind (gvnNode n seen st) (\<lambda>r. f (n + 1) (fst r) (snd r)) else Some st) = Some st'"
  show "?P seen st st'"
  proof (cases "n < nodeCount (ps_g st) \<and> \<not> b_exceeded (ps_b st)")
    case False
    then show ?thesis using e passStep_refl by auto
  next
    case True
    then obtain x where x: "gvnNode n seen st = Some x" "f (n + 1) (fst x) (snd x) = Some st'" using e by (auto simp: bind_eq_Some_conv)
    have x1: "gvnNode n seen st = Some (fst x, snd x)" using x(1) by simp
    note g = gvnNode_step [OF x1 conjunct1 [OF True]]
    note i = IH [OF x(2)]
    have gr: "grows (ps_g st) (ps_g st')" using grows_trans [OF g(1)] i by blast
    have "passStep F st st'" if inv: "\<forall>e \<in> set seen. keyHolds (ps_g st) e"
    proof -
      have 1: "passStep F st (snd x)" using g(2) [OF inv] .
      have 2: "passStep F (snd x) st'" if "passGood st" "sizesOk (ps_g st')"
        using g(3) [OF inv that(1)] grows_sizes [of "ps_g (snd x)" "ps_g st'"] i that(2) by blast
      have "passStep F st st'" if "passGood st" "sizesOk (ps_g st')" using passStep_trans [OF 1 2 [OF that]] .
      then show ?thesis using gr by (auto simp: passStep_def)
    qed
    then show ?thesis using gr by blast
  qed
qed

section \<open>The contract of a pass\<close>

text \<open>
  A pass that preserves meaning: for a host whose floating point treats NaN as the interpreter
  expects and a node semantics that agrees with the interpreter, a run that returns is a step.
\<close>

locale meaning_pass =
  fixes pass :: "fpu \<Rightarrow> pass_state \<Rightarrow> pass_state option" and F :: "'x semantics"
  assumes pass_step: "hostNan u \<Longrightarrow> javaModel u F \<Longrightarrow> pass u st = Some st' \<Longrightarrow> passStep F st st'"
begin

lemma pass_good: "hostNan u \<Longrightarrow> javaModel u F \<Longrightarrow> pass u st = Some st' \<Longrightarrow> passGood st \<Longrightarrow> sizesOk (ps_g st') \<Longrightarrow> passGood st'"
  using pass_step unfolding passStep_def by blast

lemma pass_refines:
  "hostNan u \<Longrightarrow> javaModel u F \<Longrightarrow> pass u st = Some st' \<Longrightarrow> passGood st \<Longrightarrow> sizesOk (ps_g st') \<Longrightarrow> soundVal F (ps_g st) \<rho> \<Longrightarrow>
   \<exists>\<rho>'. refined F (ps_g st) \<rho> (ps_g st') \<rho>'"
  using pass_step unfolding passStep_def by blast

end

text \<open>One pass after another.\<close>

locale pass_pair = first: meaning_pass p F + second: meaning_pass q F
  for p q :: "fpu \<Rightarrow> pass_state \<Rightarrow> pass_state option" and F :: "'x semantics"

sublocale pass_pair \<subseteq> pair: meaning_pass "\<lambda>u st. Option.bind (p u st) (q u)" F
proof unfold_locales
  fix u st st' assume a: "hostNan u" "javaModel u F" "Option.bind (p u st) (q u) = Some st'"
  then obtain st1 where "p u st = Some st1" "q u st1 = Some st'" by (auto simp: bind_eq_Some_conv)
  then show "passStep F st st'" using first.pass_step second.pass_step a(1,2) passStep_trans by blast
qed

text \<open>The mask of the engine without the class that collapses phis.\<close>

definition noPhi :: "32 word \<Rightarrow> 32 word" where
  "noPhi mk = mk AND NOT kTrivialPhi"

lemma noPhi_class: "\<not> hasClass (noPhi mk) kTrivialPhi"
  by (simp add: hasClass_def noPhi_def and.assoc)

lemma noPhi_id: "\<not> hasClass mk kTrivialPhi \<Longrightarrow> noPhi mk = mk"
  unfolding hasClass_def noPhi_def by (rule bit_word_eqI) (auto simp: bit_simps bit_eq_iff)

interpretation simplify_pass: meaning_pass "\<lambda>u. runSimplify u (noPhi mk)" F for mk F
  by unfold_locales (rule simplifySweeps_step [OF _ _ noPhi_class], simp_all add: runSimplify_def)

interpretation dce_pass: meaning_pass "\<lambda>_. runDCE" F for F
  by unfold_locales (simp add: runDCE_def dceSweeps_step)

interpretation gvn_pass: meaning_pass "\<lambda>_. runGVN" F for F
  by unfold_locales (use gvnLoop_step [of 0 "[]"] in \<open>auto simp: runGVN_def\<close>)

interpretation clean_pass: pass_pair "\<lambda>_. runDCE" "\<lambda>_. runGVN" F for F
  by unfold_locales

interpretation cleanup_pass: pass_pair "\<lambda>u. runSimplify u (noPhi mk)" "\<lambda>u st. Option.bind (runDCE st) runGVN" F for mk F
  by unfold_locales

end
