(* ===== verification/Pass_Props.thy ===== *)
theory Pass_Props
  imports Pass_Preserve Ir_Build
begin

unbundle bit_operations_syntax

text \<open>
  The properties of the passes: simplification, dead code elimination and value numbering preserve the
  meaning of a graph, and the type computation they call does not return on a phi that reads itself.
\<close>

section \<open>Meaning\<close>

text \<open>Property C12. Simplification preserves the meaning of a graph. Let the host widen NaN to NaN and let
  node semantics agree with the interpreter's kernels. When \<open>runSimplify\<close>, with any classes but the
  collapse of phis, returns on a well-formed state, the new state is well formed (use lists exact,
  no live node reads a dead one), and every sound valuation of the old graph extends to a sound
  valuation of the new one: old nodes keep their histories, every surviving node has the same kind and
  payloads and reads the same histories as before (as a multiset where the operation commutes), and
  only values that can be recomputed disappear.\<close>

theorem simplify_preserves_meaning:
  assumes "hostNan u" "javaModel u F" "\<not> hasClass mk kTrivialPhi" "passGood st" "runSimplify u mk st = Some st'"
    and "sizesOk (ps_g st')" "soundVal F (ps_g st) \<rho>"
  shows "passGood st' \<and> (\<exists>\<rho>'. refined F (ps_g st) \<rho> (ps_g st') \<rho>')"
proof -
  have r: "runSimplify u (noPhi mk) st = Some st'" using assms(5) noPhi_id [OF assms(3)] by simp
  show ?thesis
    using simplify_pass.pass_good [OF assms(1,2) r assms(4,6)] simplify_pass.pass_refines [OF assms(1,2) r assms(4,6,7)] by blast
qed


text \<open>Property C13. Value numbering preserves the meaning of a graph, for every semantics in which the history
  of an eligible node is a function of its kind, payloads and the histories of its inputs. The hash
  table is not updated when later replacements change the inputs of a survivor; a hit on such an entry
  is impossible, because the key then names a dead node.\<close>

theorem gvn_preserves_meaning:
  assumes "passGood st" "runGVN st = Some st'" "sizesOk (ps_g st')" "soundVal F (ps_g st) \<rho>"
  shows "passGood st' \<and> (\<exists>\<rho>'. refined F (ps_g st) \<rho> (ps_g st') \<rho>')"
proof -
  have "passStep F st st'" using gvnLoop_step [of 0 "[]"] assms(2) by (auto simp: runGVN_def)
  then show ?thesis using assms by (auto simp: passStep_def)
qed

section \<open>Phis that read themselves\<close>

text \<open>The type of a phi that reads itself is never computed: \<open>resultTypeOf\<close> recurses without end.
  The verifier accepts such phis as the marker of a loop-invariant value, and the passes call
  \<open>resultTypeOf\<close> on the inputs of every node they replace or kill.\<close>

theorem self_phi_type_diverges:
  assumes "nd_kind (node_at g n) = Nk_Phi" "1 \<le> s" "s < numInputs g n" "input g n s = n"
  shows "resultTypeOf g n = None"
  using assms by (rule self_phi_no_type)

section \<open>Examples\<close>

text \<open>The graph of \<open>5 + x\<close> for a parameter \<open>x\<close>, which canonicalisation turns into \<open>x + 5\<close>.\<close>

definition sum0 :: graph where "sum0 = fst (makeRaw Nk_ConstantI [] 0 0 5 newGraph)"
definition sum1 :: graph where "sum1 = fst (makeRaw Nk_Parameter [] 0 (irCode IT_Int) 0 sum0)"
definition sum2 :: graph where "sum2 = fst (makeRaw Nk_AddI [1, 2] 0 0 0 sum1)"

definition freshState :: "graph \<Rightarrow> pass_state" where
  "freshState g = \<lparr>ps_g = g, ps_t = newTelemetry, ps_b = \<lparr>b_limit = 100, b_used = 0, b_exceeded = False\<rparr>, ps_jk = newJunk\<rparr>"

definition nanFpu :: fpu where
  "nanFpu = \<lparr>fadd = \<lambda>a b. 0, fsub = \<lambda>a b. 0, fmul = \<lambda>a b. 0, fdiv = \<lambda>a b. 0, fmod32 = \<lambda>a b. 0,
     dadd = \<lambda>a b. 0, dsub = \<lambda>a b. 0, dmul = \<lambda>a b. 0, ddiv = \<lambda>a b. 0, fmod64 = \<lambda>a b. 0, cvtI2f = \<lambda>a. 0,
     cvtI2d = \<lambda>a. 0, cvtL2f = \<lambda>a. 0, cvtL2d = \<lambda>a. 0, cvtD2f = \<lambda>a. 0, widenNan = \<lambda>a. 0x7FF8000000000000\<rparr>"

fun unJava :: "'x ir_val \<Rightarrow> jvalue" where
  "unJava (Java v) = v"
| "unJava (State x) = VBottom"

text \<open>The kernels where they are defined, and 3 for every other node.\<close>

fun kernelModel :: "unit semantics" where
  "kernelModel (k, p, p2, c) hs t =
     (case nodeMeaning nanFpu k c (map (\<lambda>h. unJava (h t)) hs) of Some v \<Rightarrow> Java v | None \<Rightarrow> Java (VInt 3))"

definition sumVal :: "unit valuation" where
  "sumVal n t = Java (VInt (if n = 1 then 5 else if n = 3 then 8 else 3))"

lemma quiet_nan: "fpIsNan (0x7FF8000000000000 :: 64 word)"
  by code_simp

lemma nanFpu_host: "hostNan nanFpu"
  using quiet_nan by (simp add: hostNan_def nanFpu_def)

lemma kernelModel_java: "javaModel nanFpu kernelModel"
  unfolding javaModel_def
proof (intro allI impI; elim conjE)
  fix k p p2 c hs t vs v assume "map (\<lambda>h :: unit history. h t) hs = map Java vs" and m: "nodeMeaning nanFpu k c vs = Some v"
  then have "map unJava (map (\<lambda>h. h t) hs) = map unJava (map Java vs)" by simp
  then have "map (\<lambda>h. unJava (h t)) hs = vs" by (simp add: comp_def)
  then show "kernelModel (k, p, p2, c) hs t = Java v" using m by simp
qed

lemma sum_eval:
  "g_nodes sum2 = [defaultNode, defaultNode\<lparr>nd_kind := Nk_ConstantI, nd_constValue := 5\<rparr>,
     defaultNode\<lparr>nd_kind := Nk_Parameter, nd_payload2 := irCode IT_Int\<rparr>,
     defaultNode\<lparr>nd_kind := Nk_AddI, nd_numInputs := 2\<rparr>]"
  "g_edgePool sum2 = [1, 2]" "g_uses sum2 = [[], [Use 3 0], [Use 3 1], []]" "g_start sum2 = 0"
  by (simp_all add: sum0_def sum1_def sum2_def newGraph_eval makeRaw_def defaultNode_def Let_def pushUse_def)

lemma sum_built: "built sum2"
proof -
  have 0: "built sum0" unfolding sum0_def by (rule built.makeRaw [OF built.new]) (simp add: fits_def roomFor_def newGraph_eval)
  have 1: "built sum1" unfolding sum1_def
    by (rule built.makeRaw [OF 0]) (simp add: fits_def roomFor_def sum0_def newGraph_eval makeRaw_def Let_def)
  show ?thesis unfolding sum2_def
    by (rule built.makeRaw [OF 1]) (simp add: fits_def roomFor_def refOk_def sum1_def sum0_def newGraph_eval makeRaw_def Let_def)
qed

lemma sum_ok: "graphOk sum2"
  using built_invOk [OF sum_built] by (simp add: invOk_def)

lemma sum_rows: "absg sum2 = [[], [], [], [1, 2]]"
  by (simp add: absg_def inputsOf_def numInputs_def input_def node_at_def edgeIndex_def upt_rec sum_eval defaultNode_def)

lemma sum_live: "liveIn sum2 n \<longleftrightarrow> n < 4"
  by (auto simp: liveIn_def sum_eval isDead_def flagsHas_def defaultNode_def less_Suc_eq numeral_eq_Suc)

lemma sum_cases: "n < 4 \<longleftrightarrow> n = 0 \<or> n = 1 \<or> n = 2 \<or> n = (3 :: nat)"
  by auto

lemma sum_good: "passGood (freshState sum2)"
proof -
  have "startOk sum2" by (simp add: startOk_def sum_live) (simp add: sum_eval defaultNode_def)
  moreover have "liveInputs sum2" by (auto simp: liveInputs_def sum_live sum_rows sum_cases)
  moreover have "junkOk k newJunk" for k by (simp add: junkOk_def junkIds_def newJunk_def refOk_def)
  ultimately show ?thesis using sum_ok by (simp add: passGood_alt goodGraph_def freshState_def)
qed

lemma sum_sound: "soundVal kernelModel sum2 sumVal"
proof -
  have k: "isGvnEligible 39" "isGvnEligible 45" "isGvnEligible 46" "\<not> isGvnEligible 0"
    by (simp_all add: isGvnEligible_def isPureValueKind_iff)
  have o: "operandTypes 0 = None" "operandTypes 39 = Some []" "operandTypes 45 = None" "operandTypes 46 = Some [IT_Int, IT_Int]"
    by (simp_all add: operandTypes_def binaryOperandTypes_def unaryOperandType_def isConstKind_def)
  show ?thesis
    unfolding soundVal_def sum_live sum_cases
    by (auto simp: nodeSound_def sum_rows sum_eval k o neverNull_def flagsHas_def defaultNode_def descOf_def fun_eq_iff sumVal_def
        meaning0_def intMeaning_def wrap32_eq)
qed

text \<open>A sweep over nodes nothing applies to, and one step of a sweep.\<close>

lemma simplifyLoop_quiet:
  "\<forall>m. n \<le> m \<and> m < nodeCount (ps_g st) \<longrightarrow> simplifyNode u mk m st = Some (st, False) \<Longrightarrow> simplifyLoop u mk n c st = Some (st, c)"
proof (induction "nodeCount (ps_g st) - n" arbitrary: n)
  case 0
  then show ?case by (simp add: simplifyLoop.simps)
next
  case (Suc k)
  have "simplifyLoop u mk (n + 1) c st = Some (st, c)" by (rule Suc.hyps(1)) (use Suc.hyps(2) Suc.prems in auto)
  then show ?case using Suc.prems [THEN spec [of _ n]] Suc.hyps(2) by (subst simplifyLoop.simps) auto
qed

lemma simplifyLoop_next:
  "n < nodeCount (ps_g st) \<Longrightarrow> \<not> b_exceeded (ps_b st) \<Longrightarrow> simplifyNode u mk n st = Some (st', b) \<Longrightarrow>
   simplifyLoop u mk n c st = simplifyLoop u mk (n + 1) (c \<or> b) st'"
  by (subst simplifyLoop.simps) simp

lemma canonical_classes: "hasClass kCanonical kCanonical" "\<not> hasClass kCanonical kTrivialPhi" "\<not> hasClass kCanonical kFold"
  "\<not> hasClass kCanonical kIdentity" "\<not> hasClass kCanonical kStrength"
  by (simp_all add: hasClass_def kCanonical_def kTrivialPhi_def kFold_def kIdentity_def kStrength_def)

lemma canonical_rule: "simplifyRule u kCanonical n g = complementRule n g"
  by (simp add: simplifyRule_def canonical_classes orElse_def)

lemma canonical_quiet:
  assumes "kindAt g n \<noteq> Nk_Not" "n < nodesSize g" "\<not> swapWanted n g" "ps_g st = g"
  shows "simplifyNode u kCanonical n st = Some (st, False)"
  using assms by (simp add: simplifyNode_def Let_def canonical_rule complementRule_def node_at_def)

definition sumDone :: pass_state where
  "sumDone = (let st = countFold (updGraph (swapInputs 3) (freshState sum2))
     in st\<lparr>ps_t := (ps_t st)\<lparr>t_rewrites := u32 (t_rewrites (ps_t st) + 1)\<rparr>\<rparr>)"

lemma sumDone_graph: "ps_g sumDone = swapInputs 3 sum2" "ps_jk sumDone = newJunk" "b_exceeded (ps_b sumDone) = False"
  by (simp_all add: sumDone_def Let_def updGraph_def countFold_def freshState_def)

lemma sum_inputs: "input sum2 3 0 = 1" "input sum2 3 1 = 2" "cnt sum2 3 = 2" "numInputs sum2 3 = 2" "input sum2 3 (Suc 0) = 2"
  by (simp_all add: input_def numInputs_def node_at_def edgeIndex_def sum_eval cnt_def u32_def defaultNode_def)

lemma swap_pool: "length (g_edgePool (swapInputs n g)) = length (g_edgePool g)" "g_nodes (swapInputs n g) = g_nodes g"
  by (simp_all add: swapInputs_def) (simp add: setInput_def Let_def pushUse_def removeFromUses_def)

lemma sum_swapped: "absg (swapInputs 3 sum2) = [[], [], [], [2, 1]]" "g_nodes (swapInputs 3 sum2) = g_nodes sum2"
  "length (g_edgePool (swapInputs 3 sum2)) = 2"
  using swap_row(2) [OF sum_ok, of 3] sum_inputs
  by (simp_all add: sum_rows sum_eval swap_pool)

lemma sum_run: "runSimplify u kCanonical (freshState sum2) = Some sumDone"
proof -
  let ?s = "freshState sum2"
  have g: "ps_g ?s = sum2" "b_exceeded (ps_b ?s) = False" by (simp_all add: freshState_def)
  have c: "nodeCount sum2 = 4" "nodeCount (swapInputs 3 sum2) = 4" by (simp_all add: nodeCount_def u32_def sum_swapped sum_eval)
  have k: "kindAt sum2 n \<noteq> Nk_Not \<and> \<not> isCommutativeInt (kindAt sum2 n)" if n: "n < 3" for n
  proof -
    consider "n = 0" | "n = 1" | "n = 2" using n by linarith
    then show ?thesis by cases (simp_all add: sum_eval defaultNode_def isCommutativeInt_def)
  qed
  have q: "simplifyNode u kCanonical n ?s = Some (?s, False)" if "n < 3" for n
    by (rule canonical_quiet [where g = sum2]) (use k [OF that] that in \<open>auto simp: g swapWanted_def node_at_def sum_eval(1)\<close>)
  have w: "swapWanted 3 sum2" by (simp add: swapWanted_def sum_inputs isCommutativeInt_def isIntConstKind_def node_at_def sum_eval
      defaultNode_def isDead_def flagsHas_def)
  have 3: "simplifyNode u kCanonical 3 ?s = Some (sumDone, True)"
    using w by (simp add: simplifyNode_def canonical_rule canonical_classes complementRule_def sum_inputs sumDone_def Let_def g)
      (simp add: node_at_def sum_eval defaultNode_def isDead_def flagsHas_def isCommutativeInt_def)
  have l: "simplifyLoop u kCanonical n False ?s = simplifyLoop u kCanonical (n + 1) False ?s" if "n < 3" for n
    using simplifyLoop_next [OF _ _ q [OF that], of False] that by (simp add: g c)
  have "simplifyLoop u kCanonical 3 False ?s = simplifyLoop u kCanonical 4 True sumDone"
    using simplifyLoop_next [OF _ _ 3, of False] by (simp add: g c)
  then have "simplifyLoop u kCanonical 0 False ?s = simplifyLoop u kCanonical 4 True sumDone"
    using l [of 0] l [of 1] l [of 2] by (simp add: numeral_2_eq_2 numeral_3_eq_3)
  also have "\<dots> = Some (sumDone, True)" by (rule simplifyLoop_quiet) (auto simp: sumDone_graph c)
  finally have 1: "simplifyLoop u kCanonical 0 False ?s = Some (sumDone, True)" .
  have i: "input (swapInputs 3 sum2) 3 0 = 2" "input (swapInputs 3 sum2) 3 (Suc 0) = 1"
    using input_absg [of 3 "swapInputs 3 sum2"] sum_inputs(3) by (simp_all add: sum_swapped sum_eval cnt_def)
  have "\<not> swapWanted n (swapInputs 3 sum2)" if "n < 4" for n
    using that by (auto simp: sum_cases swapWanted_def isCommutativeInt_def isIntConstKind_def node_at_def sum_swapped sum_eval defaultNode_def i)
  then have "simplifyNode u kCanonical n sumDone = Some (sumDone, False)" if "n < 4" for n
    by (rule canonical_quiet [rotated 2]) (use that in \<open>auto simp: sumDone_graph sum_swapped sum_eval sum_cases defaultNode_def\<close>)
  then have 2: "simplifyLoop u kCanonical 0 False sumDone = Some (sumDone, False)"
    by (intro simplifyLoop_quiet) (simp add: sumDone_graph c)
  have "simplifySweeps u kCanonical (Suc (Suc k)) ?s = Some sumDone" for k using 1 2 by simp
  then show ?thesis unfolding runSimplify_def kMaxSimplifySweeps_def by (metis numeral_eq_Suc pred_numeral_simps(2,3))
qed

theorem simplify_preserves_meaning_witness:
  "runSimplify nanFpu kCanonical (freshState sum2) = Some sumDone \<and> absg (ps_g sumDone) = [[], [], [], [2, 1]] \<and> passGood sumDone
   \<and> (\<exists>\<rho>'. refined kernelModel sum2 sumVal (ps_g sumDone) \<rho>')"
proof -
  have "sizesOk (ps_g sumDone)" by (simp add: sizesOk_def sumDone_graph sum_swapped sum_eval)
  moreover have "ps_g (freshState sum2) = sum2" by (simp add: freshState_def)
  ultimately show ?thesis
    using simplify_preserves_meaning [OF nanFpu_host kernelModel_java canonical_classes(2) sum_good sum_run, of sumVal] sum_sound sum_run
    by (simp add: sumDone_graph sum_swapped)
qed

text \<open>Two equal constants that nothing reads: value numbering merges them, dead code elimination removes both.\<close>

definition twin :: graph where "twin = fst (makeRaw Nk_ConstantI [] 0 0 5 sum0)"

lemma twin_eval:
  "g_nodes twin = [defaultNode, defaultNode\<lparr>nd_kind := Nk_ConstantI, nd_constValue := 5\<rparr>,
     defaultNode\<lparr>nd_kind := Nk_ConstantI, nd_constValue := 5\<rparr>]"
  "g_edgePool twin = []" "g_uses twin = [[], [], []]" "g_start twin = 0" "g_epoch twin = 0"
  by (simp_all add: sum0_def twin_def newGraph_eval makeRaw_def defaultNode_def Let_def pushUse_def)

lemma twin_ok: "graphOk twin"
proof -
  have 0: "built sum0" unfolding sum0_def by (rule built.makeRaw [OF built.new]) (simp add: fits_def roomFor_def newGraph_eval)
  have "built twin" unfolding twin_def
    by (rule built.makeRaw [OF 0]) (simp add: fits_def roomFor_def sum0_def newGraph_eval makeRaw_def Let_def)
  then show ?thesis using built_invOk by (simp add: invOk_def)
qed

lemma twin_rows: "absg twin = [[], [], []]"
  by (simp add: absg_def inputsOf_def numInputs_def node_at_def upt_rec twin_eval defaultNode_def)

lemma twin_live: "liveIn twin n \<longleftrightarrow> n < 3"
  by (auto simp: liveIn_def twin_eval isDead_def flagsHas_def defaultNode_def less_Suc_eq numeral_eq_Suc)

lemma twin_cases: "n < 3 \<longleftrightarrow> n = 0 \<or> n = 1 \<or> n = (2 :: nat)"
  by auto

lemma twin_good: "passGood (freshState twin)"
proof -
  have "startOk twin" by (simp add: startOk_def twin_live) (simp add: twin_eval defaultNode_def)
  moreover have "liveInputs twin" by (auto simp: liveInputs_def twin_live twin_rows twin_cases)
  moreover have "junkOk k newJunk" for k by (simp add: junkOk_def junkIds_def newJunk_def refOk_def)
  ultimately show ?thesis using twin_ok by (simp add: passGood_alt goodGraph_def freshState_def)
qed

lemma twin_sound: "soundVal kernelModel twin (\<lambda>n t. Java (VInt 5))"
proof -
  have k: "isGvnEligible 39" "\<not> isGvnEligible 0" by (simp_all add: isGvnEligible_def isPureValueKind_iff)
  have o: "operandTypes 0 = None" "operandTypes 39 = Some []"
    by (simp_all add: operandTypes_def binaryOperandTypes_def unaryOperandType_def isConstKind_def)
  show ?thesis
    unfolding soundVal_def twin_live twin_cases
    by (auto simp: nodeSound_def twin_rows twin_eval k o neverNull_def flagsHas_def defaultNode_def descOf_def fun_eq_iff meaning0_def)
qed

lemma junkEdges_none: "nd_kind (node_at (ps_g st) n) \<noteq> Nk_Phi \<Longrightarrow> numInputs (ps_g st) n = 0 \<Longrightarrow> junkEdges n st = Some st"
  by (simp add: junkEdges_def padPhi_def)

lemmas twin_node = node_at_def numInputs_def defaultNode_def isDead_def flagsHas_def nodeCount_def u32_def

lemma gvnLoop_next:
  "n < nodeCount (ps_g st) \<Longrightarrow> \<not> b_exceeded (ps_b st) \<Longrightarrow> gvnNode n seen st = Some (seen', st') \<Longrightarrow> gvnLoop n seen st = gvnLoop (n + 1) seen' st'"
  "\<not> n < nodeCount (ps_g st) \<Longrightarrow> gvnLoop n seen st = Some st"
  by (subst gvnLoop.simps; simp)+

lemma twin_gvn:
  "\<exists>st'. runGVN (freshState twin) = Some st' \<and> ps_g st' = fst (replaceNode 2 1 twin)"
proof -
  let ?s = "freshState twin"
  have g: "ps_g ?s = twin" "b_exceeded (ps_b ?s) = False" by (simp_all add: freshState_def)
  have el: "isGvnEligible 39" "\<not> isGvnEligible 0" by (simp_all add: isGvnEligible_def isPureValueKind_iff)
  have c: "nodeCount twin = 3" by (simp add: nodeCount_def u32_def twin_eval)
  have 0: "gvnNode 0 [] ?s = Some ([], ?s)" by (simp add: gvnNode_def Let_def g el twin_node twin_eval(1))
  have 1: "gvnNode 1 [] ?s = Some ([(keyOf twin 1, 1)], ?s)" by (simp add: gvnNode_def Let_def g el twin_node twin_eval(1))
  have key: "keyOf twin 2 = keyOf twin 1" by (simp add: keyOf_def Let_def twin_eval(1) node_at_def defaultNode_def)
  have r: "replaceable 2 1 twin" by (simp add: replaceable_def twin_eval(1) isDead_def flagsHas_def defaultNode_def)
  let ?h = "fst (replaceNode 2 1 twin)"
  have e: "snd (replaceNode 2 1 twin) = 1" using replaceNode_ok(5) [OF twin_ok r] by (simp add: twin_eval u32_def)
  have d: "descOf (g_nodes ?h ! 2) = descOf (g_nodes twin ! 2)" using replaceNode_nodes(1) [OF r, of 2] by (simp add: twin_eval(1))
  have sz: "nodesSize ?h = 3" by (simp add: replaceNode_keeps twin_eval(1))
  have row: "absg ?h ! 2 = []" using replaceNode_ok(2) [OF twin_ok r] by (simp add: twin_rows)
  have k: "nd_kind (node_at ?h 2) \<noteq> Nk_Phi" "numInputs ?h 2 = 0"
    using d row sz length_absg_nth [of 2 ?h] by (simp_all add: node_at_def numInputs_def descOf_def twin_eval(1) defaultNode_def cnt_def)
  obtain st1 where st1: "replace 2 1 ?s = Some st1" "ps_g st1 = ?h" "b_exceeded (ps_b st1) = False"
    using k by (auto simp: replace_def chargeState_def charge_def split_beta onGraph_def Let_def e g freshState_def junkEdges_none
        simp del: One_nat_def)
  define st2 where "st2 = (if t_rewrites (ps_t st1) \<noteq> t_rewrites (ps_t ?s)
    then st1\<lparr>ps_t := (ps_t st1)\<lparr>t_gvnDedups := u32 (t_gvnDedups (ps_t st1) + 1)\<rparr>\<rparr> else st1)"
  have nd: "\<not> isDead (node_at twin 1)" "\<not> isDead (node_at twin 2)" "nd_kind (node_at twin 2) = 39"
    by (simp_all add: twin_node twin_eval(1))
  have 2: "gvnNode 2 [(keyOf twin 1, 1)] ?s = Some ([(keyOf twin 1, 1)], st2)" "ps_g st2 = ?h" "b_exceeded (ps_b st2) = False"
    using st1 nd el(1) by (simp_all add: gvnNode_def g key st2_def Let_def del: One_nat_def)
  have "gvnLoop 0 [] ?s = gvnLoop 3 [(keyOf twin 1, 1)] st2"
    using gvnLoop_next(1) [OF _ _ 0] gvnLoop_next(1) [OF _ _ 1] gvnLoop_next(1) [OF _ _ 2(1)] by (simp add: g c numeral_2_eq_2 numeral_3_eq_3)
  also have "\<dots> = Some st2" by (rule gvnLoop_next(2)) (simp add: 2 nodeCount_def u32_def sz del: One_nat_def)
  finally show ?thesis using 2(2) by (auto simp: runGVN_def)
qed

theorem gvn_preserves_meaning_witness:
  "\<exists>st'. runGVN (freshState twin) = Some st' \<and> \<not> liveIn (ps_g st') 2 \<and> liveIn (ps_g st') 1 \<and> passGood st'
    \<and> (\<exists>\<rho>'. refined kernelModel twin (\<lambda>n t. Java (VInt 5)) (ps_g st') \<rho>')"
proof -
  obtain st' where r: "runGVN (freshState twin) = Some st'" "ps_g st' = fst (replaceNode 2 1 twin)" using twin_gvn by blast
  have a: "replaceable 2 1 twin" by (simp add: replaceable_def twin_eval(1) isDead_def flagsHas_def defaultNode_def)
  have "sizesOk (ps_g st')" by (simp add: r(2) sizesOk_def replaceNode_keeps twin_eval)
  moreover have "ps_g (freshState twin) = twin" by (simp add: freshState_def)
  moreover have "\<not> liveIn (ps_g st') 2" "liveIn (ps_g st') 1"
    using replaceNode_nodes(2) [OF a] by (simp_all add: r(2) twin_live twin_eval(1))
  ultimately show ?thesis
    using gvn_preserves_meaning [OF twin_good r(1), of kernelModel "\<lambda>n t. Java (VInt 5)"] twin_sound r(1) by auto
qed

lemma kill_lonely:
  assumes "n < nodeCount (ps_g st)" "\<not> isDead (node_at (ps_g st) n)" "usesOf (ps_g st) n = []" "nd_kind (node_at (ps_g st) n) \<noteq> Nk_Phi"
    and "numInputs (ps_g st) n = 0" "\<not> b_exceeded (ps_b st)" "b_used (ps_b st) < b_limit (ps_b st)"
  obtains st' where "kill n st = Some (st', True)" "ps_g st' = killNode n (ps_g st)" "\<not> b_exceeded (ps_b st')"
    "b_used (ps_b st') = b_used (ps_b st) + 1" "b_limit (ps_b st') = b_limit (ps_b st)"
proof -
  let ?st1 = "st\<lparr>ps_b := (ps_b st)\<lparr>b_used := b_used (ps_b st) + 1\<rparr>\<rparr>"
  have c: "chargeState st = (?st1, True)" using assms(6,7) by (simp add: chargeState_def charge_def)
  have j: "junkEdges n ?st1 = Some ?st1" by (rule junkEdges_none) (use assms(4,5) in simp_all)
  have "\<not> hasLiveUser (ps_g st) n" using assms(3) by (simp add: hasLiveUser_def)
  then have k: "kill n st = Some ((updGraph (killNode n) ?st1)\<lparr>ps_t := (ps_t (updGraph (killNode n) ?st1))
      \<lparr>t_removals := u32 (t_removals (ps_t (updGraph (killNode n) ?st1)) + 1)\<rparr>\<rparr>, True)"
    using assms(1-3) j by (simp add: kill_def c Let_def)
  show ?thesis by (rule that [OF k]) (use assms(6) in \<open>simp_all add: updGraph_def\<close>)
qed

lemma dceLoop_next:
  "n < nodeCount (ps_g st) \<Longrightarrow> \<not> b_exceeded (ps_b st) \<Longrightarrow> dceNode n st = Some (st', b) \<Longrightarrow> dceLoop n c st = dceLoop (n + 1) (c \<or> b) st'"
  "\<not> n < nodeCount (ps_g st) \<Longrightarrow> dceLoop n c st = Some (st, c)"
  by (subst dceLoop.simps; simp)+

lemma killNode_uses: "g_uses (killNode n g) = g_uses g"
  by (simp add: killNode_def Let_def nextEpoch_def updNode_def)

lemma twin_dce: "\<exists>st'. runDCE (freshState twin) = Some st' \<and> ps_g st' = killNode 2 (killNode 1 twin)"
proof -
  let ?s = "freshState twin"
  have g: "ps_g ?s = twin" "\<not> b_exceeded (ps_b ?s)" "b_used (ps_b ?s) = 0" "b_limit (ps_b ?s) = 100" by (simp_all add: freshState_def)
  have safe: "isDceSafe 39" "\<not> isDceSafe 0" by (simp_all add: isDceSafe_def isPureValueKind_iff)
  have c: "nodeCount twin = 3" "nodeCount (killNode 1 twin) = 3" "nodeCount (killNode 2 (killNode 1 twin)) = 3"
    by (simp_all add: nodeCount_def u32_def killNode_nodes twin_eval(1))
  have u: "usesOf twin n = []" "usesOf (killNode 1 twin) n = []" for n
    by (simp_all add: usesOf_def killNode_uses twin_eval(3) nth_Cons split: nat.split)
  have nd: "node_at twin 1 = defaultNode\<lparr>nd_kind := Nk_ConstantI, nd_constValue := 5\<rparr>"
    "node_at (killNode 1 twin) 2 = defaultNode\<lparr>nd_kind := Nk_ConstantI, nd_constValue := 5\<rparr>"
    by (simp_all add: node_at_def killNode_nodes twin_eval(1))
  have alive: "\<not> isDead (defaultNode\<lparr>nd_kind := Nk_ConstantI, nd_constValue := 5\<rparr>)" "nd_numInputs defaultNode = 0"
    by (simp_all add: isDead_def flagsHas_def defaultNode_def)
  have 0: "dceNode 0 st = Some (st, False)" if "nd_kind (node_at (ps_g st) 0) = 0" for st
    using that safe(2) by (simp add: dceNode_def Let_def)
  have k0: "nd_kind (node_at twin 0) = 0" "nd_kind (node_at (killNode 2 (killNode 1 twin)) 0) = 0"
    by (simp_all add: node_at_def killNode_nodes twin_eval(1) defaultNode_def)
  obtain st1 where 1: "kill 1 ?s = Some (st1, True)" "ps_g st1 = killNode 1 twin" "\<not> b_exceeded (ps_b st1)" "b_used (ps_b st1) = 1" "b_limit (ps_b st1) = 100"
    by (rule kill_lonely [of 1 ?s]) (use u(1) in \<open>simp_all add: g c nd(1) alive numInputs_def del: One_nat_def\<close>)
  obtain st2 where 2: "kill 2 st1 = Some (st2, True)" "ps_g st2 = killNode 2 (killNode 1 twin)" "\<not> b_exceeded (ps_b st2)"
    by (rule kill_lonely [of 2 st1]) (use 1 u(2) in \<open>simp_all add: c nd(2) alive numInputs_def del: One_nat_def\<close>)
  have n1: "dceNode 1 ?s = Some (st1, True)" using 1(1) u(1) safe(1) alive(1)
    by (simp add: dceNode_def Let_def g nd(1) startNode_def twin_eval(4) useCount_def u32_def del: One_nat_def)
  have n2: "dceNode 2 st1 = Some (st2, True)" using 2(1) u(2) safe(1) alive(1) 1(2)
    by (simp add: dceNode_def Let_def nd(2) startNode_def killNode_nodes twin_eval(4) useCount_def u32_def del: One_nat_def)
  have "dceLoop 0 False ?s = dceLoop 3 True st2"
    using dceLoop_next(1) [OF _ _ 0 [of ?s], of False] dceLoop_next(1) [OF _ _ n1, of False] dceLoop_next(1) [OF _ _ n2, of True]
    by (simp add: g c [simplified] k0 1(2,3) [simplified] numeral_2_eq_2 numeral_3_eq_3)
  also have "\<dots> = Some (st2, True)" by (rule dceLoop_next(2)) (simp add: 2(2) c del: One_nat_def)
  finally have s1: "dceLoop 0 False ?s = Some (st2, True)" .
  have dead: "isDead (node_at (ps_g st2) 1)" "isDead (node_at (ps_g st2) 2)"
    using killNode_nodes(5) [of 2 "killNode 1 twin" 1] killNode_nodes(5) [of 1 twin 1] killNode_nodes(5) [of 2 "killNode 1 twin" 2] c
    by (auto simp: 2(2) liveIn_def node_at_def killNode_nodes twin_eval(1))
  have q: "dceNode 1 st2 = Some (st2, False)" "dceNode 2 st2 = Some (st2, False)" using dead by (simp_all add: dceNode_def Let_def)
  have s2: "nodeCount (ps_g st2) = 3" "nd_kind (node_at (ps_g st2) 0) = 0" using c(3) k0(2) by (simp_all add: 2(2) del: One_nat_def)
  have "dceLoop 0 False st2 = dceLoop 3 False st2"
    using dceLoop_next(1) [OF _ _ 0 [of st2], of False] dceLoop_next(1) [OF _ _ q(1), of False] dceLoop_next(1) [OF _ _ q(2), of False]
    by (simp add: s2 2(3) numeral_2_eq_2 numeral_3_eq_3)
  also have "\<dots> = Some (st2, False)" by (rule dceLoop_next(2)) (simp add: 2(2) c del: One_nat_def)
  finally have "dceLoop 0 False st2 = Some (st2, False)" .
  then have "dceSweeps (Suc (Suc k)) ?s = Some st2" for k using s1 by simp
  moreover have "kMaxDceSweeps = Suc (Suc 62)" by (simp add: kMaxDceSweeps_def)
  ultimately have "runDCE ?s = Some st2" unfolding runDCE_def by metis
  then show ?thesis using 2(2) by blast
qed


text \<open>A phi of a loop that keeps its value: region, the constant 5, itself.\<close>

definition selfPhi :: graph where
  "selfPhi = fst (makeRaw Nk_Phi [0, 1, 2] 0 0 0 sum0)"

theorem self_phi_type_diverges_witness: "input selfPhi 2 2 = 2 \<and> resultTypeOf selfPhi 2 = None"
proof -
  have e: "nd_kind (node_at selfPhi 2) = Nk_Phi" "numInputs selfPhi 2 = 3" "input selfPhi 2 2 = 2"
    by (simp_all add: selfPhi_def sum0_def newGraph_eval makeRaw_def defaultNode_def Let_def pushUse_def node_at_def numInputs_def input_def
        edgeIndex_def u32_def)
  show ?thesis using self_phi_type_diverges [OF e(1) _ _ e(3)] e by simp
qed

end
