(* ===== verification/Ir_Verifier.thy ===== *)
theory Ir_Verifier
  imports Ir_OperandType Rbc_Verifier
begin

text \<open>
  The verifier of the IR (\<open>compiler/ir/core/Verifier.cpp\<close>). Every check is a function from the graph to
  the diagnostics it reports, in the order of the source; the sink keeps the first hundred. Checks that
  ask for the type of an operand are in the option type: \<open>None\<close> is a type computation that does not
  return (\<open>Ir_ResultType\<close>). The walks over memory chains, caller chains, memory phis and virtual
  objects have the bounds of the source and are total. The scratch vectors that are as long as the
  node table are functions.
\<close>

unbundle bit_operations_syntax

section \<open>Diagnostics\<close>

datatype ir_diag = IrDiag (ird_node: node_id) (ird_message: string)

definition kMaxIrDiags :: nat where "kMaxIrDiags = 100"

definition irSink :: "ir_diag list \<Rightarrow> ir_diag \<Rightarrow> ir_diag list" where
  "irSink ds d = (if length ds < kMaxIrDiags then ds @ [d] else ds)"

definition report :: "bool \<Rightarrow> node_id \<Rightarrow> string \<Rightarrow> ir_diag list" where
  "report b n msg = (if b then [IrDiag n msg] else [])"

text \<open>Checks one after the other.\<close>

fun inOrder :: "ir_diag list option list \<Rightarrow> ir_diag list option" where
  "inOrder [] = Some []"
| "inOrder (c # cs) = Option.bind c (\<lambda>ds. map_option ((@) ds) (inOrder cs))"

definition validId :: "graph \<Rightarrow> node_id \<Rightarrow> bool" where
  "validId g n \<longleftrightarrow> n \<noteq> kInvalidNodeId \<and> n < nodeCount g"

abbreviation (input) kindOf :: "graph \<Rightarrow> node_id \<Rightarrow> node_kind" where
  "kindOf g n \<equiv> nd_kind (node_at g n)"

definition idText :: "node_id \<Rightarrow> string" where
  "idText n = CHR ''n'' # show_nat n"

section \<open>Classification\<close>

definition producesControl :: "node_kind \<Rightarrow> bool" where
  "producesControl k \<longleftrightarrow> k \<in> set [Nk_Start, Nk_Region, Nk_IfTrue, Nk_IfFalse, Nk_SwitchCase, Nk_SwitchDefault, Nk_LoopBegin,
     Nk_LoopEnd, Nk_LoopExit, Nk_CallStatic, Nk_CallVirtual, Nk_CallInterface, Nk_CallDynamic, Nk_CallExcept,
     Nk_LoadException, Nk_If, Nk_Switch, Nk_LoadField, Nk_StoreField, Nk_LoadStatic, Nk_StoreStatic, Nk_LoadElem,
     Nk_StoreElem, Nk_MemBar, Nk_MonitorEnter, Nk_MonitorExit, Nk_New, Nk_NewArray, Nk_NewRefArray, Nk_NewMultiArray,
     Nk_ClassInit, Nk_CheckCast, Nk_Guard, Nk_RepTransitionGuard, Nk_Materialize, Nk_VectorLoad, Nk_VectorStore]"

definition producesMemoryState :: "node_kind \<Rightarrow> bool" where
  "producesMemoryState k \<longleftrightarrow> k \<in> set [Nk_Start, Nk_StoreField, Nk_StoreStatic, Nk_StoreElem, Nk_MemBar, Nk_MonitorEnter,
     Nk_MonitorExit, Nk_New, Nk_NewArray, Nk_NewRefArray, Nk_NewMultiArray, Nk_ClassInit, Nk_CallStatic, Nk_CallVirtual,
     Nk_CallInterface, Nk_CallDynamic, Nk_Materialize, Nk_VectorStore, Nk_Phi]"

text \<open>
  \<open>memoryPhiOffender\<close> and \<open>memoryChainOffender\<close>: the loop over the inputs of a phi at a depth. The depth
  is compared with the 32-bit successor of the node count.
\<close>

definition phiDepth :: "graph \<Rightarrow> nat" where
  "phiDepth g = u32 (nodeCount g + 1)"

function phiInputsOffender :: "graph \<Rightarrow> node_id \<Rightarrow> nat list \<Rightarrow> nat \<Rightarrow> node_id" where
  "phiInputsOffender g phi [] depth = kInvalidNodeId"
| "phiInputsOffender g phi (s # ss) depth =
     (let i = input g phi s;
          off = (if i = phi \<or> \<not> validId g i then kInvalidNodeId
                 else if kindOf g i = Nk_Phi
                 then (if depth + 1 > phiDepth g then i
                       else phiInputsOffender g i [1..<numInputs g i] (depth + 1))
                 else if producesMemoryState (kindOf g i) then kInvalidNodeId else i)
      in if off \<noteq> kInvalidNodeId then off else phiInputsOffender g phi ss depth)"
  by pat_completeness auto

termination
  by (relation "measures [\<lambda>(g, phi, ss, depth). phiDepth g + 1 - depth, \<lambda>(g, phi, ss, depth). length ss]") auto

definition memoryPhiOffender :: "graph \<Rightarrow> node_id \<Rightarrow> nat \<Rightarrow> node_id" where
  "memoryPhiOffender g phi depth =
     (if depth > phiDepth g then phi else phiInputsOffender g phi [1..<numInputs g phi] depth)"

definition isTerminal :: "node_kind \<Rightarrow> bool" where
  "isTerminal k \<longleftrightarrow> k = Nk_Return \<or> k = Nk_Unwind \<or> k = Nk_Deopt \<or> k = Nk_End"

definition isCallKind :: "node_kind \<Rightarrow> bool" where
  "isCallKind k \<longleftrightarrow> k = Nk_CallStatic \<or> k = Nk_CallVirtual \<or> k = Nk_CallInterface \<or> k = Nk_CallDynamic"

section \<open>Types as codes\<close>

definition typeText :: "nat \<Rightarrow> string" where
  "typeText c = (case irOfCode c of Some t \<Rightarrow> ir_typeName t | None \<Rightarrow> ''?'')"

definition assignableCode :: "nat \<Rightarrow> nat \<Rightarrow> bool" where
  "assignableCode from to \<longleftrightarrow> from = to \<or> (from = irCode IT_Null \<and> to = irCode IT_Ref)"

definition scalarCode :: "nat \<Rightarrow> bool" where
  "scalarCode c \<longleftrightarrow> (case irOfCode c of Some t \<Rightarrow> isScalarType t | None \<Rightarrow> False)"

definition vectorCode :: "nat \<Rightarrow> bool" where
  "vectorCode c \<longleftrightarrow> irCode IT_VectorI8 \<le> c \<and> c \<le> irCode IT_VectorF64"

definition laneOfVector :: "nat \<Rightarrow> nat" where
  "laneOfVector c = (case irOfCode c of Some t \<Rightarrow> irCode (laneTypeOf t) | None \<Rightarrow> irCode IT_Bottom)"

definition laneCarrier :: "nat \<Rightarrow> nat" where
  "laneCarrier lane =
     (if lane = irCode IT_Int8 \<or> lane = irCode IT_Int16 \<or> lane = irCode IT_Int then irCode IT_Int
      else if lane = irCode IT_Long then irCode IT_Long
      else if lane = irCode IT_Float then irCode IT_Float
      else if lane = irCode IT_Double then irCode IT_Double
      else irCode IT_Bottom)"

definition checkOperandType :: "graph \<Rightarrow> node_id \<Rightarrow> node_id \<Rightarrow> nat \<Rightarrow> string \<Rightarrow> ir_diag list option" where
  "checkOperandType g n operand want what =
     (if \<not> validId g operand then Some []
      else map_option (\<lambda>got. report (\<not> assignableCode got want) n
             (what @ '': operand '' @ idText operand @ '' has type '' @ typeText got @ '', expected '' @ typeText want))
           (resultTypeOf g operand))"

text \<open>A check of one input under a condition on the number of inputs.\<close>

definition operandAt :: "graph \<Rightarrow> node_id \<Rightarrow> nat \<Rightarrow> nat \<Rightarrow> irtype \<Rightarrow> string \<Rightarrow> ir_diag list option" where
  "operandAt g n need slot want what =
     (if need \<le> numInputs g n then checkOperandType g n (input g n slot) (irCode want) what else Some [])"

section \<open>One node: structure and roles\<close>

definition checkInput :: "graph \<Rightarrow> node_id \<Rightarrow> nat \<Rightarrow> ir_diag list" where
  "checkInput g n s =
     (let i = input g n s; at = ''input slot '' @ show_nat s in
      if \<not> validId g i then [IrDiag n (at @ '': dangling NodeId '' @ show_nat i)]
      else if i = n \<and> \<not> (kindOf g n = Nk_Phi \<and> s \<ge> 1) then [IrDiag n (at @ '': self reference'')]
      else report (isDead (node_at g i)) n (at @ '': '' @ idText i @ '' is dead''))"

definition minInputsOf :: "node_info \<Rightarrow> nat" where
  "minInputsOf row = ni_numFixed row + (if ni_hasFrameState row then 1 else 0)"

definition checkSignature :: "graph \<Rightarrow> node_id \<Rightarrow> ir_diag list" where
  "checkSignature g n =
     (let row = info_ir (kindOf g n); k = numInputs g n; m = minInputsOf row; fs = input g n (k - 1) in
      report (k < m) n (ni_name row @ '': expected at least '' @ show_nat m @ '' inputs, found '' @ show_nat k)
      @ report (\<not> ni_variadic row \<and> k \<noteq> m) n (ni_name row @ '': expected exactly '' @ show_nat m @ '' inputs, found '' @
          show_nat k @ '' (kind is not variadic)'')
      @ report (ni_hasFrameState row \<and> k \<ge> m \<and> validId g fs \<and> kindOf g fs \<noteq> Nk_FrameState) n
          ''last input must be a FrameState (Rule 5)'')"

definition slotRole :: "graph \<Rightarrow> node_id \<Rightarrow> nat \<Rightarrow> input_role" where
  "slotRole g n s =
     (let row = info_ir (kindOf g n) in
      if s < ni_numFixed row then ni_roles row ! s
      else if ni_hasFrameState row \<and> s + 1 = numInputs g n then IR_FrameState
      else ni_variadicRole row)"

definition checkRole :: "graph \<Rightarrow> node_id \<Rightarrow> nat \<Rightarrow> ir_diag list" where
  "checkRole g n s =
     (let i = input g n s; pk = kindOf g i; off = memoryPhiOffender g i 0 in
      if \<not> validId g i then []
      else (case slotRole g n s of
          IR_Ctrl \<Rightarrow> report (\<not> producesControl pk) n (''ctrl input slot '' @ show_nat s @ '': '' @ idText i @ '' ('' @
            nodeKindName pk @ '') does not produce control'')
        | IR_Mem \<Rightarrow>
            if \<not> producesMemoryState pk
            then [IrDiag n (''mem input slot '' @ show_nat s @ '': '' @ idText i @ '' ('' @ nodeKindName pk @
              '') does not produce memory state'')]
            else report (pk = Nk_Phi \<and> off \<noteq> kInvalidNodeId) n (''mem input slot '' @ show_nat s @ '': Phi '' @ idText i @
              '' has value input '' @ idText off @ '' ('' @ nodeKindName (kindOf g off) @
              '') which does not produce memory state'')
        | IR_FrameState \<Rightarrow> report (pk \<noteq> Nk_FrameState) n (''framestate input slot '' @ show_nat s @ '': '' @ idText i @
            '' is not a FrameState'')
        | _ \<Rightarrow> [])
        @ report (pk = Nk_Undef \<and> kindOf g n \<noteq> Nk_FrameState \<and> \<not> (kindOf g n = Nk_Phi \<and> s \<ge> 1)) n
            (''Undef may only feed a FrameState or a Phi value input; '' @ idText n @ '' ('' @ nodeKindName (kindOf g n) @
             '') reads it at slot '' @ show_nat s))"

definition checkMergeShapes :: "graph \<Rightarrow> node_id \<Rightarrow> ir_diag list" where
  "checkMergeShapes g n =
     (let k = kindOf g n; m = numInputs g n; r = input g n 0 in
      if k = Nk_Phi then
        (if m < 1 \<or> \<not> validId g r then []
         else if kindOf g r \<noteq> Nk_Region \<and> kindOf g r \<noteq> Nk_LoopBegin
         then [IrDiag n ''Phi input 0 must be a Region or LoopBegin'']
         else report (m \<noteq> numInputs g r + 1) n (''Phi input count must be 1 + region predecessors ('' @
           show_nat (numInputs g r) @ ''), found '' @ show_nat (m - 1)))
      else if k = Nk_Region then report (m < 2) n ''Region needs at least 2 predecessors at verification time''
      else if k = Nk_LoopBegin then report (m < 2) n ''LoopBegin needs an entry and at least one backedge''
      else if k = Nk_Return then report ((if m > 0 then m - 1 else 0) > 1) n ''Return takes at most one value input''
      else [])"

definition checkProjectionParent :: "graph \<Rightarrow> node_id \<Rightarrow> ir_diag list" where
  "checkProjectionParent g n =
     (let k = kindOf g n; p = input g n 0 in
      if k \<notin> {Nk_IfTrue, Nk_IfFalse, Nk_SwitchCase, Nk_SwitchDefault, Nk_CallExcept} \<or> numInputs g n < 1 \<or> \<not> validId g p
      then []
      else if k = Nk_CallExcept then report (\<not> isCallKind (kindOf g p)) n ''CallExcept input must be a Call node''
      else let want = (if k = Nk_IfTrue \<or> k = Nk_IfFalse then Nk_If else Nk_Switch) in
        report (kindOf g p \<noteq> want) n (nodeKindName k @ '' input must be a '' @ nodeKindName want @ '' node''))"

section \<open>One node: operand types and payloads\<close>

definition checkOtherOperands :: "graph \<Rightarrow> node_id \<Rightarrow> ir_diag list option" where
  "checkOtherOperands g n =
     (let k = kindOf g n; op = operandAt g n; m = numInputs g n in
      if k = Nk_If then op 2 1 IT_Int ''If condition''
      else if k = Nk_Switch then op 2 1 IT_Int ''Switch selector''
      else if k = Nk_Guard then op 2 1 IT_Int ''Guard condition''
      else if k = Nk_Unwind then op 2 1 IT_Ref ''Unwind exception''
      else if k = Nk_LoadField then op 3 2 IT_Ref ''LoadField object''
      else if k = Nk_StoreField then op 4 2 IT_Ref ''StoreField object''
      else if k = Nk_LoadElem then inOrder [op 4 2 IT_Ref ''LoadElem array'', op 4 3 IT_Int ''LoadElem index'']
      else if k = Nk_StoreElem then
        inOrder [op 5 2 IT_Ref ''StoreElem array'', op 5 3 IT_Int ''StoreElem index'',
          if m \<ge> 5 then checkOperandType g n (input g n 4) (castType (nd_payload (node_at g n))) ''StoreElem value''
          else Some []]
      else if k = Nk_ArrayLength then op 1 0 IT_Ref ''ArrayLength array''
      else if k = Nk_MonitorEnter \<or> k = Nk_MonitorExit then op 3 2 IT_Ref ''monitor object''
      else if k = Nk_NewArray \<or> k = Nk_NewRefArray then op 2 1 IT_Int ''array length''
      else if k = Nk_NewMultiArray then
        inOrder (map (\<lambda>s. checkOperandType g n (input g n s) (irCode IT_Int) ''array dimension'') [1..<m])
      else if k = Nk_CheckCast then op 2 1 IT_Ref ''CheckCast object''
      else if k = Nk_InstanceOf then op 1 0 IT_Ref ''InstanceOf object''
      else if k = Nk_CompressedRefEncode then op 1 0 IT_Ref ''CompressedRefEncode reference''
      else if k = Nk_CompressedRefDecode then op 1 0 IT_Int ''CompressedRefDecode oop''
      else if k = Nk_UntagValue then op 1 0 IT_Tagged ''UntagValue tagged value''
      else if k = Nk_RepTransitionGuard then op 2 1 IT_Tagged ''RepTransitionGuard value''
      else if k = Nk_Materialize then
        Some (report (m \<ge> 3 \<and> validId g (input g n 2) \<and> kindOf g (input g n 2) \<noteq> Nk_VirtualObjectState) n
          ''Materialize input 2 must be a VirtualObjectState'')
      else Some [])"

definition checkOperandTypes :: "graph \<Rightarrow> node_id \<Rightarrow> ir_diag list option" where
  "checkOperandTypes g n =
     (case binaryOperandTypes (kindOf g n) of
        Some (a, b) \<Rightarrow> inOrder [operandAt g n 2 0 a ''binary operand a'', operandAt g n 2 1 b ''binary operand b'']
      | None \<Rightarrow> (case unaryOperandType (kindOf g n) of
          Some a \<Rightarrow> operandAt g n 1 0 a ''unary operand''
        | None \<Rightarrow> checkOtherOperands g n))"

definition checkKindPayloads :: "graph \<Rightarrow> node_id \<Rightarrow> ir_diag list" where
  "checkKindPayloads g n =
     (let nd = node_at g n; k = nd_kind nd; t = castType (nd_payload nd); t2 = castType (nd_payload2 nd) in
      if k = Nk_Parameter then report (\<not> scalarCode t2) n ''Parameter type must be a scalar IRType''
      else if k = Nk_LoadField \<or> k = Nk_LoadStatic \<or> k = Nk_UnboxPrimitive
      then report (\<not> scalarCode t2) n ''load result type must be a scalar IRType''
      else if k = Nk_LoadElem \<or> k = Nk_StoreElem \<or> k = Nk_NewArray
      then report (\<not> scalarCode t) n ''element type must be a scalar IRType''
      else if k = Nk_MemBar then report (nd_payload nd > 5) n ''MemBar kind out of range''
      else if k = Nk_Guard then report (nd_payload nd > 10) n ''Guard kind out of range''
      else if k = Nk_VirtualObjectState
      then report (nd_payload2 nd > 1) n ''VirtualObjectState kind must be 0 (instance) or 1 (array)''
      else [])"

definition checkNode :: "graph \<Rightarrow> node_id \<Rightarrow> ir_diag list option" where
  "checkNode g n =
     (let nd = node_at g n; slots = [0..<nd_numInputs nd] in
      inOrder
        [Some (report (nd_reserved nd \<noteq> 0) n ''reserved field must be 0 (corrupt node record)''),
         Some (concat (map (checkInput g n) slots)),
         Some (checkSignature g n),
         Some (concat (map (checkRole g n) slots)),
         Some (report (isTerminal (nd_kind nd) \<and> usesOf g n \<noteq> []) n ''terminal node still has users''),
         Some (checkProjectionParent g n),
         Some (checkMergeShapes g n),
         checkOperandTypes g n,
         Some (checkKindPayloads g n)])"

section \<open>Memory chains\<close>

definition memSlotOf :: "node_info \<Rightarrow> nat option" where
  "memSlotOf row = find (\<lambda>s. ni_roles row ! s = IR_Mem) [0..<min (ni_numFixed row) 6]"

text \<open>The children of a node on a walk: the value inputs of a phi, the memory input of another node.\<close>

definition memChildren :: "graph \<Rightarrow> node_id \<Rightarrow> nat" where
  "memChildren g c =
     (if kindOf g c = Nk_Phi then (if numInputs g c > 1 then numInputs g c - 1 else 0)
      else case memSlotOf (info_ir (kindOf g c)) of Some s \<Rightarrow> (if s < numInputs g c then 1 else 0) | None \<Rightarrow> 0)"

definition memChild :: "graph \<Rightarrow> node_id \<Rightarrow> nat \<Rightarrow> node_id" where
  "memChild g c i =
     (if kindOf g c = Nk_Phi then input g c (i + 1)
      else case memSlotOf (info_ir (kindOf g c)) of Some s \<Rightarrow> input g c s | None \<Rightarrow> 0)"

definition isLoopHeaderPhi :: "graph \<Rightarrow> node_id \<Rightarrow> bool" where
  "isLoopHeaderPhi g c \<longleftrightarrow> kindOf g c = Nk_Phi \<and> numInputs g c \<ge> 1 \<and> validId g (input g c 0)
     \<and> kindOf g (input g c 0) = Nk_LoopBegin"

definition chainSteps :: "graph \<Rightarrow> nat" where
  "chainSteps g = u32 (2 * nodeCount g + 2)"

text \<open>The state of a walk: the stack, top first, and the two vectors of stamps.\<close>

record mem_walk =
  mw_stack :: "(node_id \<times> nat) list"
  mw_onPath :: "node_id \<Rightarrow> nat"
  mw_done :: "node_id \<Rightarrow> nat"

text \<open>One iteration: the walk goes on, or it stops with a diagnostic.\<close>

definition chainStep :: "graph \<Rightarrow> node_id \<Rightarrow> nat \<Rightarrow> node_id \<Rightarrow> nat \<Rightarrow> (node_id \<times> nat) list \<Rightarrow> mem_walk \<Rightarrow> ir_diag list \<times> mem_walk" where
  "chainStep g n gen t i rest w =
     (if kindOf g t \<noteq> Nk_Phi \<and> \<not> producesMemoryState (kindOf g t)
      then ([IrDiag n (''memory chain passes through '' @ idText t @ '' ('' @ nodeKindName (kindOf g t) @
             '') which does not produce memory state'')], w)
      else if i \<ge> memChildren g t
      then ([], w\<lparr>mw_stack := rest, mw_onPath := (mw_onPath w)(t := 0), mw_done := (mw_done w)(t := gen)\<rparr>)
      else let w' = w\<lparr>mw_stack := (t, i + 1) # rest\<rparr>; c = memChild g t i in
        if (kindOf g t = Nk_Phi \<and> c = t) \<or> \<not> validId g c \<or> c = startNode g then ([], w')
        else if mw_onPath w c = gen
        then (if isLoopHeaderPhi g c then [] else [IrDiag n (''memory chain cycle detected at '' @ idText c)], w')
        else if mw_done w c = gen then ([], w')
        else ([], w'\<lparr>mw_stack := (c, 0) # mw_stack w', mw_onPath := (mw_onPath w)(c := gen)\<rparr>))"

function chainWalk :: "graph \<Rightarrow> node_id \<Rightarrow> nat \<Rightarrow> nat \<Rightarrow> mem_walk \<Rightarrow> ir_diag list \<times> mem_walk" where
  "chainWalk g n gen steps w =
     (case mw_stack w of
        [] \<Rightarrow> ([], w)
      | (t, i) # rest \<Rightarrow>
          if steps > chainSteps g then ([IrDiag n ''memory chain walk exceeded graph size (cycle?)''], w)
          else let (ds, w') = chainStep g n gen t i rest w in
            if ds \<noteq> [] then (ds, w') else chainWalk g n gen (steps + 1) w')"
  by pat_completeness auto

termination
  by (relation "measure (\<lambda>(g, n, gen, steps, w). chainSteps g + 1 - steps)") auto

declare chainWalk.simps [simp del]

definition unwindPath :: "mem_walk \<Rightarrow> mem_walk" where
  "unwindPath w = w\<lparr>mw_onPath := fold (\<lambda>f p. p(fst f := 0)) (mw_stack w) (mw_onPath w)\<rparr>"

text \<open>One node of the outer loop; the stamps of a walk are the number of walks so far.\<close>

definition checkChain :: "graph \<Rightarrow> node_id \<Rightarrow> nat \<times> mem_walk \<Rightarrow> ir_diag list \<times> nat \<times> mem_walk" where
  "checkChain g n st =
     (let nd = node_at g n in
      if isDead nd \<or> nd_numInputs nd < 1 then ([], st)
      else case memSlotOf (info_ir (nd_kind nd)) of
          None \<Rightarrow> ([], st)
        | Some s \<Rightarrow>
            if s \<ge> nd_numInputs nd then ([], st)
            else let gen = u32 (fst st + 1); i = input g n s; w = (snd st)\<lparr>mw_stack := []\<rparr>;
                     w0 = (if validId g i then w\<lparr>mw_stack := [(i, 0)], mw_onPath := (mw_onPath w)(i := gen)\<rparr> else w);
                     (ds, w1) = chainWalk g n gen 0 w0
                 in (ds, gen, unwindPath w1))"

fun checkChains :: "graph \<Rightarrow> node_id list \<Rightarrow> nat \<times> mem_walk \<Rightarrow> ir_diag list" where
  "checkChains g [] st = []"
| "checkChains g (n # ns) st = (let (ds, st') = checkChain g n st in ds @ checkChains g ns st')"

definition checkMemoryChains :: "graph \<Rightarrow> ir_diag list" where
  "checkMemoryChains g =
     checkChains g [0..<nodeCount g] (0, \<lparr>mw_stack = [], mw_onPath = \<lambda>_. 0, mw_done = \<lambda>_. 0\<rparr>)"

section \<open>Speculation and frame states\<close>

definition checkSpeculation :: "graph \<Rightarrow> node_id \<Rightarrow> ir_diag list" where
  "checkSpeculation g n =
     (let nd = node_at g n; sm = specMeta g (nd_specMeta nd - 1); sp = flagsHas (nd_flags nd) F_Speculative in
      (if \<not> sp then []
       else if nd_specMeta nd = 0 then [IrDiag n ''speculative node has no SpecMeta (Rule 122)'']
       else report (sm_confidence sm > 10000) n ''SpecMeta confidence exceeds 10000 basis points''
         @ report ((sm_source sm = Source_PGO \<or> sm_source sm = Source_Assumption)
               \<and> (sm_dependency sm = kInvalidDependency \<or> sm_dependency sm \<ge> dependencyCount g)) n
             ''PGO/assumption speculation without a valid dependency (Rule 42)''
         @ report (sm_source sm \<noteq> Source_Static \<and> sm_guard sm = kInvalidNodeId) n
             ''non-static speculation has no guard plan (Rule 122)'')
      @ report (nd_kind nd = Nk_RepTransitionGuard \<and> \<not> sp) n ''RepTransitionGuard must be speculative (Part XVIII)'')"

definition liveFrameState :: "graph \<Rightarrow> node_id \<Rightarrow> bool" where
  "liveFrameState g n \<longleftrightarrow> kindOf g n = Nk_FrameState \<and> \<not> isDead (node_at g n)"

text \<open>The entry of \<open>descHasLiveFs\<close>.\<close>

definition descHasLiveFs :: "graph \<Rightarrow> nat \<Rightarrow> bool" where
  "descHasLiveFs g d \<longleftrightarrow> (\<exists>n \<in> set [0..<nodeCount g]. liveFrameState g n \<and> nd_payload (node_at g n) = d)"

function callerWalk :: "graph \<Rightarrow> node_id \<Rightarrow> nat \<Rightarrow> nat \<Rightarrow> ir_diag list" where
  "callerWalk g n steps cur =
     (if cur = kInvalidFrameState then []
      else if steps > u32 (frameStateCount g + 1) then [IrDiag n ''FrameState caller chain cycle'']
      else if cur \<ge> frameStateCount g then [IrDiag n ''FrameState caller id out of range'']
      else if \<not> descHasLiveFs g cur
      then [IrDiag n (''FrameState caller chain target '' @ show_nat cur @ '' has no live snapshot node'')]
      else callerWalk g n (steps + 1) (fs_caller (frameState g cur)))"
  by pat_completeness auto

termination
  by (relation "measure (\<lambda>(g, n, steps, cur). u32 (frameStateCount g + 1) + 1 - steps)") auto

declare callerWalk.simps [simp del]

definition checkVobjEntry :: "graph \<Rightarrow> node_id \<Rightarrow> node_id \<Rightarrow> ir_diag list" where
  "checkVobjEntry g n v =
     (if \<not> validId g v then [IrDiag n ''FrameState vobj list contains a dangling id'']
      else if kindOf g v \<noteq> Nk_VirtualObjectState then [IrDiag n ''FrameState vobj entry is not a VirtualObjectState'']
      else report (isDead (node_at g v)) n ''FrameState vobj entry is dead'')"

definition checkFrameState :: "graph \<Rightarrow> node_id \<Rightarrow> ir_diag list" where
  "checkFrameState g n =
     (let d = nd_payload (node_at g n) in
      if \<not> liveFrameState g n then []
      else if d \<ge> frameStateCount g then [IrDiag n ''FrameState descriptor id out of range'']
      else callerWalk g n 0 d @ concat (map (checkVobjEntry g n) (frameStateVobjs g d)))"

definition checkFrameStates :: "graph \<Rightarrow> ir_diag list" where
  "checkFrameStates g = concat (map (checkFrameState g) [0..<nodeCount g])"

section \<open>Materialization\<close>

abbreviation (input) isVobj :: "graph \<Rightarrow> node_id \<Rightarrow> bool" where
  "isVobj g f \<equiv> validId g f \<and> nd_kind (node_at g f) = Nk_VirtualObjectState"

definition whites :: "graph \<Rightarrow> (node_id \<Rightarrow> nat) \<Rightarrow> nat" where
  "whites g color = card {f. f < nodeCount g \<and> color f = 0}"

lemma whites_upd: "f < nodeCount g \<Longrightarrow> color f = 0 \<Longrightarrow> c \<noteq> 0 \<Longrightarrow> whites g (color(f := c)) < whites g color"
  unfolding whites_def by (rule psubset_card_mono) auto

text \<open>\<open>hasVobjCycle\<close> from the slots on; the colours are 0 (white), 1 (gray) and 2 (black).\<close>

function vobjSlots :: "graph \<Rightarrow> node_id \<Rightarrow> nat list \<Rightarrow> (node_id \<Rightarrow> nat) \<Rightarrow> ir_diag list \<times> (node_id \<Rightarrow> nat)" where
  "vobjSlots g n [] color = ([], color(n := 2))"
| "vobjSlots g n (s # ss) color =
     (let f = input g n s in
      if \<not> isVobj g f then vobjSlots g n ss color
      else if color f = 1 then
        (let r = vobjSlots g n ss color
         in (IrDiag n (''materialization graph cycle: vobj '' @ idText f @ '' participates in a cycle'') # fst r, snd r))
      else if color f = 0 then
        (let r1 = vobjSlots g f [0..<numInputs g f] (color(f := 1)); r2 = vobjSlots g n ss (snd r1)
         in (fst r1 @ fst r2, snd r2))
      else vobjSlots g n ss color)"
  by pat_completeness auto

termination
proof (relation "measures [\<lambda>(g, n, ss, color). whites g color, \<lambda>(g, n, ss, color). length ss]", goal_cases)
  case (5 g n s ss color f r1)
  have colors: "snd (vobjSlots g n ss color) h \<noteq> 0" if "vobjSlots_dom (g, n, ss, color)" "color h \<noteq> 0" for n ss color h
    using that by (induction arbitrary: h rule: vobjSlots.pinduct) (auto simp: vobjSlots.psimps Let_def)
  have "vobjSlots_dom (g, f, [0..<numInputs g f], color(f := 1))" using 5 by simp
  note c = colors [OF this]
  have "{h. h < nodeCount g \<and> snd r1 h = 0} \<subseteq> {h. h < nodeCount g \<and> color h = 0}"
    using c 5(5) by fastforce
  then have "whites g (snd r1) \<le> whites g color" unfolding whites_def by (intro card_mono) auto
  then show ?case by auto
qed (auto simp: validId_def whites_upd)

declare vobjSlots.simps [simp del]

definition checkVobjCycles :: "graph \<Rightarrow> ir_diag list" where
  "checkVobjCycles g =
     fst (fold (\<lambda>n (ds, color).
       if kindOf g n = Nk_VirtualObjectState \<and> color n = 0
       then let r = vobjSlots g n [0..<numInputs g n] (color(n := 1)) in (ds @ fst r, snd r)
       else (ds, color)) [0..<nodeCount g] ([], \<lambda>_. 0))"

definition checkStillVirtual :: "graph \<Rightarrow> node_id \<Rightarrow> ir_diag list" where
  "checkStillVirtual g n =
     (let v = input g n 2 in
      if kindOf g n = Nk_Materialize \<and> numInputs g n \<ge> 3 \<and> isVobj g v
      then concat (map (\<lambda>s. let f = input g v s in
             report (isVobj g f) n (''Materialize stores a still-virtual field: vobj '' @ idText v @ '' field '' @ idText f @
               '' must be materialized (or deopt-listed) first'')) [0..<numInputs g v])
      else [])"

definition checkVobjClosure :: "graph \<Rightarrow> node_id \<Rightarrow> ir_diag list" where
  "checkVobjClosure g n =
     (let d = nd_payload (node_at g n); vs = frameStateVobjs g d in
      if kindOf g n \<noteq> Nk_FrameState \<or> d \<ge> frameStateCount g then []
      else concat (map (\<lambda>v.
             if \<not> isVobj g v then []
             else concat (map (\<lambda>s. let f = input g v s in
               report (isVobj g f \<and> f \<notin> set vs) n (''materialization closure violated: vobj '' @ idText v @
                 '' references vobj '' @ idText f @ '' which is not materialized at this deopt point''))
               [0..<numInputs g v])) vs))"

definition checkMaterialization :: "graph \<Rightarrow> ir_diag list" where
  "checkMaterialization g =
     checkVobjCycles g @ concat (map (\<lambda>n. if isDead (node_at g n) then [] else checkStillVirtual g n @ checkVobjClosure g n)
       [0..<nodeCount g])"

section \<open>Vectors and tagged values\<close>

definition lanesBad :: "nat \<Rightarrow> bool" where
  "lanesBad l \<longleftrightarrow> l < kMinVectorLanes \<or> l > kMaxVectorLanes \<or> ((word_of_nat l :: 32 word) AND (word_of_nat l - 1)) \<noteq> 0"

definition lanesOf :: "nat \<Rightarrow> nat" where
  "lanesOf p = p div 256"

definition vectorOps :: "vector_op list" where
  "vectorOps = [VO_Add, VO_Sub, VO_Mul, VO_Div, VO_Rem, VO_And, VO_Or, VO_Xor, VO_Min, VO_Max, VO_Sum]"

text \<open>An operation code is legal for a lane: it is an enumerator and the table of the types allows it.\<close>

definition legalOpCode :: "(vector_op \<Rightarrow> irtype \<Rightarrow> bool) \<Rightarrow> nat \<Rightarrow> nat \<Rightarrow> bool" where
  "legalOpCode legal c lane \<longleftrightarrow> c < length vectorOps \<and> (case irOfCode lane of Some t \<Rightarrow> legal (vectorOps ! c) t | None \<Rightarrow> False)"

definition checkVectorPack :: "graph \<Rightarrow> node_id \<Rightarrow> ir_diag list option" where
  "checkVectorPack g n =
     (let lane = castType (nd_payload (node_at g n)); m = numInputs g n in
      if laneOfVector (vectorOfCode lane) \<noteq> lane \<or> vectorOfCode lane = irCode IT_Bottom
      then Some [IrDiag n ''VectorPack lane type must be a lane-legal IRType'']
      else if lanesBad m then Some [IrDiag n ''VectorPack lane count must be a power of two in [2, 64]'']
      else inOrder (map (\<lambda>s. checkOperandType g n (input g n s) (laneCarrier lane) ''VectorPack lane value'') [0..<m]))"

definition checkVectorBroadcast :: "graph \<Rightarrow> node_id \<Rightarrow> ir_diag list option" where
  "checkVectorBroadcast g n =
     (let nd = node_at g n; lane = castType (nd_payload nd) in
      if vectorOfCode lane = irCode IT_Bottom then Some [IrDiag n ''VectorBroadcast lane type must be lane-legal'']
      else if lanesBad (lanesOf (nd_payload2 nd))
      then Some [IrDiag n ''VectorBroadcast lane count must be a power of two in [2, 64]'']
      else checkOperandType g n (input g n 0) (laneCarrier lane) ''VectorBroadcast scalar'')"

definition checkVectorOp :: "graph \<Rightarrow> node_id \<Rightarrow> ir_diag list option" where
  "checkVectorOp g n =
     (let nd = node_at g n; lane = laneCode (nd_payload2 nd); lanes = lanesOf (nd_payload2 nd); vt = vectorOfCode lane;
          m = nd_numInputs nd; mask = input g n 0;
          at = (\<lambda>k s ty what. if m \<ge> k then checkOperandType g n (input g n s) ty what else Some [])
      in
      if vt = irCode IT_Bottom then Some [IrDiag n ''vector op lane type must be lane-legal'']
      else if lanesBad lanes then Some [IrDiag n ''vector op lane count must be a power of two in [2, 64]'']
      else if \<not> legalOpCode isLegalElementWiseOp (castType (nd_payload nd)) lane
      then Some [IrDiag n ''vector op not legal for this lane type'']
      else if nd_kind nd = Nk_VectorOp then inOrder [at 2 0 vt ''VectorOp operand a'', at 2 1 vt ''VectorOp operand b'']
      else inOrder [at 3 0 (irCode IT_VectorI8) ''VectorMaskOp mask'', at 3 1 vt ''VectorMaskOp operand a'',
             at 3 2 vt ''VectorMaskOp operand b'',
             Some (report (m \<ge> 1 \<and> validId g mask \<and> kindOf g mask = Nk_VectorBroadcast
                 \<and> lanesOf (nd_payload2 (node_at g mask)) \<noteq> lanes) n ''mask lane count differs from operand lane count'')])"

definition checkVectorMemory :: "graph \<Rightarrow> node_id \<Rightarrow> ir_diag list option" where
  "checkVectorMemory g n =
     (let nd = node_at g n; lane = laneCode (nd_payload2 nd) in
      if vectorOfCode lane = irCode IT_Bottom then Some [IrDiag n ''vector memory lane type must be lane-legal'']
      else if lanesBad (lanesOf (nd_payload2 nd))
      then Some [IrDiag n ''vector memory lane count must be a power of two in [2, 64]'']
      else if nd_kind nd = Nk_VectorLoad
      then inOrder [operandAt g n 4 2 IT_Ref ''VectorLoad array'', operandAt g n 4 3 IT_Int ''VectorLoad index'']
      else inOrder [operandAt g n 5 2 IT_Ref ''VectorStore array'', operandAt g n 5 3 IT_Int ''VectorStore index'',
             if nd_numInputs nd \<ge> 5 then checkOperandType g n (input g n 4) (vectorOfCode lane) ''VectorStore vector''
             else Some []])"

definition checkVectorReduce :: "graph \<Rightarrow> node_id \<Rightarrow> ir_diag list option" where
  "checkVectorReduce g n =
     (let nd = node_at g n; lane = laneCode (nd_payload2 nd) in
      if vectorOfCode lane = irCode IT_Bottom then Some [IrDiag n ''VectorReduce lane type must be lane-legal'']
      else inOrder [Some (report (\<not> legalOpCode isLegalReductionOp (castType (nd_payload nd)) lane) n
               ''VectorReduce op not legal for this lane type''),
             if nd_numInputs nd \<ge> 1 then checkOperandType g n (input g n 0) (vectorOfCode lane) ''VectorReduce operand''
             else Some []])"

definition checkVectorElement :: "graph \<Rightarrow> node_id \<Rightarrow> ir_diag list option" where
  "checkVectorElement g n =
     (let v = input g n 0; ext = (kindOf g n = Nk_VectorExtract) in
      if numInputs g n < (if ext then 2 else 3) then Some []
      else inOrder
        [if \<not> validId g v then Some []
         else Option.bind (resultTypeOf g v) (\<lambda>vt.
           if \<not> vectorCode vt
           then Some [IrDiag n (if ext then ''VectorExtract operand must be a vector'' else ''VectorInsert operand must be a vector'')]
           else if ext then Some []
           else checkOperandType g n (input g n 1) (laneCarrier (laneOfVector vt)) ''VectorInsert value''),
         if ext then checkOperandType g n (input g n 1) (irCode IT_Int) ''VectorExtract index''
         else checkOperandType g n (input g n 2) (irCode IT_Int) ''VectorInsert index''])"

definition checkVector :: "graph \<Rightarrow> node_id \<Rightarrow> ir_diag list option" where
  "checkVector g n =
     (let k = kindOf g n in
      if k = Nk_VectorPack then checkVectorPack g n
      else if k = Nk_VectorBroadcast then checkVectorBroadcast g n
      else if k = Nk_VectorOp \<or> k = Nk_VectorMaskOp then checkVectorOp g n
      else if k = Nk_VectorLoad \<or> k = Nk_VectorStore then checkVectorMemory g n
      else if k = Nk_VectorReduce then checkVectorReduce g n
      else if k = Nk_VectorExtract \<or> k = Nk_VectorInsert then checkVectorElement g n
      else Some [])"

definition checkTagged :: "graph \<Rightarrow> node_id \<Rightarrow> ir_diag list" where
  "checkTagged g n =
     (let nd = node_at g n; k = nd_kind nd; from = nd_payload nd mod 256; to = nd_payload2 nd mod 256 in
      if k \<noteq> Nk_TagValue \<and> k \<noteq> Nk_UntagValue \<and> k \<noteq> Nk_RepTransitionGuard then []
      else if from > 8 \<or> to > 8 then [IrDiag n ''tagged node has an out-of-range ValueRep payload'']
      else report (k \<noteq> Nk_RepTransitionGuard \<and> (from = 8 \<or> to = 8)) n
             ''unguarded Polymorphic rep transition: use RepTransitionGuard (Part XVIII)''
        @ report (k = Nk_RepTransitionGuard \<and> from = to) n ''RepTransitionGuard must actually change the representation'')"

section \<open>The verifier\<close>

definition irDiags :: "graph \<Rightarrow> ir_diag list option" where
  "irDiags g =
     (let ns = [0..<nodeCount g] in
      inOrder
        [inOrder (map (checkNode g) ns), Some (checkMemoryChains g), Some (concat (map (checkSpeculation g) ns)),
         Some (checkFrameStates g), Some (checkMaterialization g),
         inOrder (map (\<lambda>n. inOrder [checkVector g n, Some (checkTagged g n)]) ns)])"

definition verifyGraph :: "graph \<Rightarrow> ir_diag list option" where
  "verifyGraph g = map_option (foldl irSink []) (irDiags g)"

text \<open>The graph is accepted: the verifier returns and has nothing to report.\<close>

definition graphVerified :: "graph \<Rightarrow> bool" where
  "graphVerified g \<longleftrightarrow> verifyGraph g = Some []"

end
