(* ===== verification/Ir_Serialize.thy ===== *)
theory Ir_Serialize
  imports Ir_Verifier
begin

text \<open>
  Serialization and replay of graphs (\<open>compiler/ir/core/Serialize.cpp\<close>, \<open>include/b2/ir/Serialize.h\<close>). A byte
  is an 8-bit word. The cursor of the reader is the list of the bytes it has not read; a read past
  the end is \<open>None\<close>. A result \<open>Inl\<close> is the message the reader fails with. The last step of the reader is
  the verifier, so its value is in the option type.
\<close>

type_synonym bytes = "8 word list"

definition kIrMagic :: nat where "kIrMagic = 0x52493242"
definition kIrFormatVersion :: nat where "kIrFormatVersion = 2"
definition kIrMinReadVersion :: nat where "kIrMinReadVersion = 1"

section \<open>Integers\<close>

definition byteAt :: "nat \<Rightarrow> nat \<Rightarrow> 8 word" where
  "byteAt v i = word_of_nat (v div 2 ^ (8 * i))"

definition putU16 :: "nat \<Rightarrow> bytes" where "putU16 v = map (byteAt v) [0..<2]"
definition putU32 :: "nat \<Rightarrow> bytes" where "putU32 v = map (byteAt v) [0..<4]"
definition putU64 :: "nat \<Rightarrow> bytes" where "putU64 v = map (byteAt v) [0..<8]"

fun littleEndian :: "bytes \<Rightarrow> nat" where
  "littleEndian [] = 0"
| "littleEndian (b # bs) = unat b + 256 * littleEndian bs"

definition cursorRead :: "nat \<Rightarrow> bytes \<Rightarrow> (nat \<times> bytes) option" where
  "cursorRead k bs = (if length bs < k then None else Some (littleEndian (take k bs), drop k bs))"

definition cursorU16 :: "bytes \<Rightarrow> (nat \<times> bytes) option" where "cursorU16 = cursorRead 2"
definition cursorU32 :: "bytes \<Rightarrow> (nat \<times> bytes) option" where "cursorU32 = cursorRead 4"
definition cursorU64 :: "bytes \<Rightarrow> (nat \<times> bytes) option" where "cursorU64 = cursorRead 8"

text \<open>Several 32-bit values in a row.\<close>

fun cursorMany :: "nat \<Rightarrow> bytes \<Rightarrow> (nat list \<times> bytes) option" where
  "cursorMany 0 bs = Some ([], bs)"
| "cursorMany (Suc k) bs =
     (case cursorU32 bs of None \<Rightarrow> None
      | Some (v, bs) \<Rightarrow> (case cursorMany k bs of None \<Rightarrow> None | Some (vs, bs) \<Rightarrow> Some (v # vs, bs)))"

section \<open>Enumerations\<close>

definition specKinds :: "spec_kind list" where
  "specKinds = [ClassHierarchyStable, MethodFinal, TypeMonomorphic, TypeBimorphic, NullNeverSeen, BoundsAlwaysValid,
     ArgumentConstant, LoopTripCountProfile, StaticProofCarried]"

definition specSources :: "spec_source list" where "specSources = [Source_PGO, Source_Static, Source_Assumption]"
definition specRollbacks :: "spec_rollback list" where
  "specRollbacks = [Rollback_None, Rollback_DeferredEffects, Rollback_Compensated]"
definition depKinds :: "dep_kind list" where
  "depKinds = [DK_ClassHierarchy, DK_MethodBody, DK_FieldFinality, DK_ProfileCounter, DK_StaticProof]"

text \<open>The code of an enumerator is its position.\<close>

fun codeIn :: "'a list \<Rightarrow> 'a \<Rightarrow> nat" where
  "codeIn [] x = 0"
| "codeIn (y # ys) x = (if x = y then 0 else Suc (codeIn ys x))"

section \<open>The writer\<close>

definition putNode :: "graph \<Rightarrow> node_id \<Rightarrow> bytes" where
  "putNode g n =
     (let nd = node_at g n in
      putU16 (nd_kind nd) @ putU16 (unat (nd_flags nd)) @ putU32 (nd_payload nd) @ putU32 (nd_payload2 nd)
      @ putU64 (unat (nd_constValue nd)) @ putU32 (nd_specMeta nd) @ putU32 (nd_epoch nd) @ putU16 (nd_numInputs nd)
      @ putU16 (nd_reserved nd) @ concat (map (\<lambda>s. putU32 (input g n s)) [0..<nd_numInputs nd]))"

definition putFrameState :: "graph \<Rightarrow> nat \<Rightarrow> bytes" where
  "putFrameState g i =
     (let d = frameState g i; vobjs = frameStateVobjs g i in
      putU32 (fs_method d) @ putU32 (fs_pc d) @ putU32 (fs_caller d) @ putU32 (length vobjs) @ concat (map putU32 vobjs))"

definition putSpecMeta :: "spec_meta \<Rightarrow> bytes" where
  "putSpecMeta sm =
     putU32 (codeIn specKinds (sm_kind sm)) @ putU32 (codeIn specSources (sm_source sm)) @ putU32 (sm_confidence sm)
     @ putU32 (sm_guard sm) @ putU32 (sm_deoptTarget sm) @ putU32 (sm_cost sm) @ putU32 (sm_dependency sm)
     @ putU32 (codeIn specRollbacks (sm_rollback sm))"

definition putDependency :: "dependency \<Rightarrow> bytes" where
  "putDependency d = putU32 (codeIn depKinds (dep_kind d)) @ putU32 (dep_target d)"

definition putReplacement :: "replacement \<Rightarrow> bytes" where
  "putReplacement r = putU32 (rp_oldNode r) @ putU32 (rp_newNode r) @ putU32 (rp_epoch r)"

definition serialize :: "graph \<Rightarrow> bytes" where
  "serialize g =
     putU32 kIrMagic @ putU32 kIrFormatVersion @ putU32 (nodeCount g)
     @ concat (map (putNode g) [0..<nodeCount g])
     @ putU32 (frameStateCount g) @ concat (map (putFrameState g) [0..<frameStateCount g])
     @ putU32 (specMetaCount g) @ concat (map (\<lambda>i. putSpecMeta (specMeta g i)) [0..<specMetaCount g])
     @ putU32 (dependencyCount g) @ concat (map (\<lambda>i. putDependency (dependency_at g i)) [0..<dependencyCount g])
     @ putU32 (length (g_replacements g)) @ concat (map putReplacement (g_replacements g))"

section \<open>The reader\<close>

text \<open>A read that fails the load with a message, and what follows it.\<close>

definition orFail :: "string \<Rightarrow> 'a option \<Rightarrow> ('a \<Rightarrow> string + 'b) \<Rightarrow> string + 'b" where
  "orFail msg r k = (case r of None \<Rightarrow> Inl msg | Some a \<Rightarrow> k a)"

definition andThen :: "string + 'a \<Rightarrow> ('a \<Rightarrow> string + 'b) \<Rightarrow> string + 'b" where
  "andThen r k = (case r of Inl msg \<Rightarrow> Inl msg | Inr a \<Rightarrow> k a)"

definition failIf :: "bool \<Rightarrow> string \<Rightarrow> string + 'b \<Rightarrow> string + 'b" where
  "failIf b msg k = (if b then Inl msg else k)"

record node_record =
  nr_kind :: nat
  nr_flags :: nat
  nr_payload :: nat
  nr_payload2 :: nat
  nr_constValue :: nat
  nr_specMeta :: nat
  nr_epoch :: nat
  nr_numInputs :: nat
  nr_reserved :: nat

definition readRecord :: "bytes \<Rightarrow> (node_record \<times> bytes) option" where
  "readRecord bs =
     Option.bind (cursorU16 bs) (\<lambda>(k, bs).
     Option.bind (cursorU16 bs) (\<lambda>(f, bs).
     Option.bind (cursorU32 bs) (\<lambda>(p, bs).
     Option.bind (cursorU32 bs) (\<lambda>(p2, bs).
     Option.bind (cursorU64 bs) (\<lambda>(c, bs).
     Option.bind (cursorU32 bs) (\<lambda>(sm, bs).
     Option.bind (cursorU32 bs) (\<lambda>(e, bs).
     Option.bind (cursorU16 bs) (\<lambda>(m, bs).
     Option.bind (cursorU16 bs) (\<lambda>(r, bs).
       Some (\<lparr>nr_kind = k, nr_flags = f, nr_payload = p, nr_payload2 = p2, nr_constValue = c, nr_specMeta = sm,
              nr_epoch = e, nr_numInputs = m, nr_reserved = r\<rparr>, bs))))))))))"

text \<open>The assignments through \<open>nodeForReplay\<close>; its sink for an id out of range is lost.\<close>

definition replayFields :: "node_id \<Rightarrow> node_record \<Rightarrow> graph \<Rightarrow> graph" where
  "replayFields n r g =
     updNode n (\<lambda>nd. nd\<lparr>nd_flags := word_of_nat (nr_flags r), nd_constValue := word_of_nat (nr_constValue r),
       nd_specMeta := nr_specMeta r, nd_epoch := nr_epoch r, nd_reserved := 0\<rparr>) g"

text \<open>One node of the first pass: the inputs to replay, the rest of the bytes and the graph.\<close>

definition readNode :: "nat \<Rightarrow> bytes \<Rightarrow> graph \<Rightarrow> string + (nat list \<times> bytes \<times> graph)" where
  "readNode i bs g =
     orFail ''truncated node record'' (readRecord bs) (\<lambda>(r, bs).
     failIf (nr_kind r \<ge> nodeKindCount) ''node kind out of range''
     (failIf (nr_reserved r \<noteq> 0) ''node record reserved field must be 0 (corrupt artifact)''
     (orFail ''truncated node inputs'' (cursorMany (nr_numInputs r) bs) (\<lambda>(ins, bs).
       if i = 0
       then failIf (nr_kind r \<noteq> Nk_Start) ''node 0 must be Start (corrupt artifact)'' (Inr (ins, bs, replayFields 0 r g))
       else let (g1, n) = Ir_Graph.make (nr_kind r) [] (nr_payload r) (nr_payload2 r) g in
         failIf (n \<noteq> i) ''node id mismatch during replay'' (Inr (ins, bs, replayFields n r g1))))))"

fun readNodes :: "nat list \<Rightarrow> bytes \<Rightarrow> graph \<Rightarrow> string + (nat list list \<times> bytes \<times> graph)" where
  "readNodes [] bs g = Inr ([], bs, g)"
| "readNodes (i # is) bs g =
     andThen (readNode i bs g) (\<lambda>(ins, bs, g). andThen (readNodes is bs g) (\<lambda>(pending, bs, g). Inr (ins # pending, bs, g)))"

text \<open>The second pass.\<close>

definition replayEdges :: "nat list list \<Rightarrow> graph \<Rightarrow> graph" where
  "replayEdges pending g = fold (\<lambda>(i, ins) g. fold (appendInput i) ins g) (enumerate 0 pending) g"

definition readFrameState :: "nat \<Rightarrow> bytes \<Rightarrow> graph \<Rightarrow> string + (bytes \<times> graph)" where
  "readFrameState i bs g =
     orFail ''truncated FrameState descriptor'' (cursorMany 4 bs) (\<lambda>(h, bs).
     orFail ''truncated FrameState vobj list'' (cursorMany (h ! 3) bs) (\<lambda>(vobjs, bs).
       let (g1, got) = addFrameStateDesc (h ! 0) (h ! 1) (h ! 2) vobjs g in
       failIf (got \<noteq> i) ''FrameState descriptor id mismatch during replay'' (Inr (bs, g1))))"

definition readSpecMeta :: "nat \<Rightarrow> bytes \<Rightarrow> graph \<Rightarrow> string + (bytes \<times> graph)" where
  "readSpecMeta i bs g =
     orFail ''truncated SpecMeta record'' (cursorMany 8 bs) (\<lambda>(h, bs).
     failIf (h ! 0 \<ge> length specKinds \<or> h ! 1 \<ge> length specSources \<or> h ! 7 \<ge> length specRollbacks) ''SpecMeta enum out of range''
     (let sm = \<lparr>sm_kind = specKinds ! (h ! 0), sm_source = specSources ! (h ! 1), sm_confidence = h ! 2, sm_guard = h ! 3,
                sm_deoptTarget = h ! 4, sm_cost = h ! 5, sm_dependency = h ! 6, sm_rollback = specRollbacks ! (h ! 7)\<rparr>;
          (g1, got) = addSpecMeta sm g
      in failIf (got \<noteq> i) ''SpecMeta id mismatch during replay'' (Inr (bs, g1))))"

definition readDependency :: "nat \<Rightarrow> bytes \<Rightarrow> graph \<Rightarrow> string + (bytes \<times> graph)" where
  "readDependency i bs g =
     orFail ''truncated Dependency record'' (cursorMany 2 bs) (\<lambda>(h, bs).
     failIf (h ! 0 \<ge> length depKinds) ''Dependency enum out of range''
     (let (g1, got) = addDependency \<lparr>dep_kind = depKinds ! (h ! 0), dep_target = h ! 1\<rparr> g
      in failIf (got \<noteq> i) ''Dependency id mismatch during replay'' (Inr (bs, g1))))"

definition readReplacement :: "nat \<Rightarrow> nat \<Rightarrow> bytes \<Rightarrow> graph \<Rightarrow> string + (bytes \<times> graph)" where
  "readReplacement nodes i bs g =
     orFail ''truncated replacement entry'' (cursorMany 3 bs) (\<lambda>(h, bs).
     failIf (h ! 0 \<ge> nodes \<or> h ! 1 \<ge> nodes) ''replacement entry node id out of range''
     (Inr (bs, replayReplacement (h ! 0) (h ! 1) (h ! 2) g)))"

text \<open>A side table: its length, then its entries.\<close>

fun readEntries :: "(nat \<Rightarrow> bytes \<Rightarrow> graph \<Rightarrow> string + (bytes \<times> graph)) \<Rightarrow> nat list \<Rightarrow> bytes \<Rightarrow> graph \<Rightarrow> string + (bytes \<times> graph)" where
  "readEntries f [] bs g = Inr (bs, g)"
| "readEntries f (i # is) bs g = andThen (f i bs g) (\<lambda>(bs, g). readEntries f is bs g)"

definition readTable :: "string \<Rightarrow> (nat \<Rightarrow> bytes \<Rightarrow> graph \<Rightarrow> string + (bytes \<times> graph)) \<Rightarrow> bytes \<times> graph \<Rightarrow> string + (bytes \<times> graph)" where
  "readTable msg f st = orFail msg (cursorU32 (fst st)) (\<lambda>(n, bs). readEntries f [0..<n] bs (snd st))"

definition readHeader :: "bytes \<Rightarrow> string + (nat \<times> bytes)" where
  "readHeader bs =
     orFail ''truncated header'' (cursorMany 2 bs) (\<lambda>(h, bs).
     failIf (h ! 0 \<noteq> kIrMagic) ''bad magic (not a B-2 IR artifact)''
     (failIf (h ! 1 \<noteq> kIrFormatVersion \<and> \<not> (h ! 1 \<ge> kIrMinReadVersion \<and> h ! 1 < kIrFormatVersion))
        ''unsupported IR format version (Rule 31: stale artifact)''
     (orFail ''truncated node count'' (cursorU32 bs) Inr)))"

text \<open>Everything but the load gate: the bytes left over and the rebuilt graph.\<close>

definition replayGraph :: "bytes \<Rightarrow> graph \<Rightarrow> string + (bytes \<times> graph)" where
  "replayGraph bs g =
     andThen (readHeader bs) (\<lambda>(nodes, bs).
     andThen (readNodes [0..<nodes] bs g) (\<lambda>(pending, bs, g).
     andThen (readTable ''truncated FrameState table'' readFrameState (bs, replayEdges pending g)) (\<lambda>st.
     andThen (readTable ''truncated SpecMeta table'' readSpecMeta st) (\<lambda>st.
     andThen (readTable ''truncated Dependency table'' readDependency st)
       (readTable ''truncated replacement log'' (readReplacement nodes))))))"

definition deserializeInto :: "bytes \<Rightarrow> graph \<Rightarrow> (string + graph) option" where
  "deserializeInto bs g =
     (case replayGraph bs g of
        Inl msg \<Rightarrow> Some (Inl msg)
      | Inr (rest, g') \<Rightarrow> map_option (\<lambda>ds. if ds = [] then Inr g' else Inl ''replayed graph failed verification'') (verifyGraph g'))"

end
