(* ===== verification/Ir_SerializeOk.thy ===== *)
theory Ir_SerializeOk
  imports Ir_Serialize Ir_Build
begin

text \<open>
  What is written is read back. The integers of the wire format are a locale: a writer, a reader and
  their laws; everything above it uses the laws only. The replay of a serialized graph is followed
  stage by stage: nodes, edges, frame states, the two tables of speculation, the replacement log.
\<close>

section \<open>Integers of the wire format\<close>

locale wire_integer =
  fixes put :: "nat \<Rightarrow> bytes" and get :: "bytes \<Rightarrow> (nat \<times> bytes) option" and bits :: nat
  assumes get_put: "get (put v @ bs) = Some (v mod 2 ^ bits, bs)"
    and get_extends: "get bs = Some (v, rest) \<Longrightarrow> get (bs @ ext) = Some (v, rest @ ext)"
begin

lemma get_small: "v < 2 ^ bits \<Longrightarrow> get (put v @ bs) = Some (v, bs)"
  by (simp add: get_put)

lemma put_inj: "put v = put w \<Longrightarrow> v < 2 ^ bits \<Longrightarrow> w < 2 ^ bits \<Longrightarrow> v = w"
  using get_small [of v "[]"] get_small [of w "[]"] by simp

end

lemma littleEndian_bytes: "littleEndian (map (byteAt v) [0..<k]) = v mod 2 ^ (8 * k)"
proof (induction k arbitrary: v)
  case (Suc k)
  have "map (byteAt v) [0..<Suc k] = byteAt v 0 # map (\<lambda>i. byteAt v (Suc i)) [0..<k]"
    by (simp add: map_Suc_upt [symmetric] upt_conv_Cons del: upt_Suc)
  also have "map (\<lambda>i. byteAt v (Suc i)) [0..<k] = map (byteAt (v div 256)) [0..<k]"
    by (simp add: byteAt_def div_mult2_eq [symmetric] power_add mult.commute)
  finally have e: "map (byteAt v) [0..<Suc k] = byteAt v 0 # map (byteAt (v div 256)) [0..<k]" .
  have "unat (byteAt v 0) = v mod 256" by (simp add: byteAt_def unat_of_nat take_bit_eq_mod)
  then have "littleEndian (map (byteAt v) [0..<Suc k]) = v mod 256 + 256 * (v div 256 mod 2 ^ (8 * k))"
    unfolding e littleEndian.simps by (simp only: Suc.IH)
  also have "\<dots> = v mod (256 * 2 ^ (8 * k))" by (simp add: mod_mult2_eq)
  finally show ?case by (simp add: power_add)
qed simp

lemma cursorRead_put: "cursorRead k (map (byteAt v) [0..<k] @ bs) = Some (v mod 2 ^ (8 * k), bs)"
  by (simp add: cursorRead_def littleEndian_bytes)

lemma cursorRead_extends: "cursorRead k bs = Some (v, rest) \<Longrightarrow> cursorRead k (bs @ ext) = Some (v, rest @ ext)"
  by (auto simp: cursorRead_def split: if_splits)

interpretation wire16: wire_integer putU16 cursorU16 16
  by unfold_locales (use cursorRead_put [of 2] cursorRead_extends in \<open>simp_all add: putU16_def cursorU16_def\<close>)

interpretation wire32: wire_integer putU32 cursorU32 32
  by unfold_locales (use cursorRead_put [of 4] cursorRead_extends in \<open>simp_all add: putU32_def cursorU32_def\<close>)

interpretation wire64: wire_integer putU64 cursorU64 64
  by unfold_locales (use cursorRead_put [of 8] cursorRead_extends in \<open>simp_all add: putU64_def cursorU64_def\<close>)

lemma cursorMany_put: "\<forall>v \<in> set vs. v < 2 ^ 32 \<Longrightarrow> cursorMany (length vs) (concat (map putU32 vs) @ bs) = Some (vs, bs)"
  by (induction vs) (simp_all add: wire32.get_small)

lemma cursorMany_extends: "cursorMany k bs = Some (vs, rest) \<Longrightarrow> cursorMany k (bs @ ext) = Some (vs, rest @ ext)"
  by (induction k arbitrary: bs vs rest) (auto split: option.splits simp: wire32.get_extends)

lemma codeIn_nth: "x \<in> set xs \<Longrightarrow> codeIn xs x < length xs \<and> xs ! codeIn xs x = x"
  by (induction xs) auto

lemma enum_codes:
  "codeIn specKinds k < 9" "specKinds ! codeIn specKinds k = k" "codeIn specSources s < 3" "specSources ! codeIn specSources s = s"
  "codeIn specRollbacks r < 3" "specRollbacks ! codeIn specRollbacks r = r" "codeIn depKinds d < 5" "depKinds ! codeIn depKinds d = d"
proof -
  have "k \<in> set specKinds" by (cases k) (simp_all add: specKinds_def)
  moreover have "s \<in> set specSources" by (cases s) (simp_all add: specSources_def)
  moreover have "r \<in> set specRollbacks" by (cases r) (simp_all add: specRollbacks_def)
  moreover have "d \<in> set depKinds" by (cases d) (simp_all add: depKinds_def)
  ultimately show "codeIn specKinds k < 9" "specKinds ! codeIn specKinds k = k" "codeIn specSources s < 3" "specSources ! codeIn specSources s = s"
    "codeIn specRollbacks r < 3" "specRollbacks ! codeIn specRollbacks r = r" "codeIn depKinds d < 5" "depKinds ! codeIn depKinds d = d"
    using codeIn_nth [of k specKinds] codeIn_nth [of s specSources] codeIn_nth [of r specRollbacks] codeIn_nth [of d depKinds]
    by (simp_all add: specKinds_def specSources_def specRollbacks_def depKinds_def)
qed

section \<open>Graphs that fit the format\<close>

text \<open>The widths of the fields, which are types in the source.\<close>

definition nodeFits :: "node \<Rightarrow> bool" where
  "nodeFits nd \<longleftrightarrow> nd_kind nd < nodeKindCount \<and> nd_payload nd < 2 ^ 32 \<and> nd_payload2 nd < 2 ^ 32 \<and> nd_specMeta nd < 2 ^ 32
     \<and> nd_epoch nd < 2 ^ 32 \<and> nd_numInputs nd < 2 ^ 16 \<and> nd_reserved nd = 0"

definition descFits :: "frame_state_desc \<Rightarrow> bool" where
  "descFits d \<longleftrightarrow> fs_method d < 2 ^ 32 \<and> fs_pc d < 2 ^ 32 \<and> fs_caller d < 2 ^ 32"

definition metaFits :: "spec_meta \<Rightarrow> bool" where
  "metaFits sm \<longleftrightarrow> sm_confidence sm < 2 ^ 32 \<and> sm_guard sm < 2 ^ 32 \<and> sm_deoptTarget sm < 2 ^ 32 \<and> sm_cost sm < 2 ^ 32
     \<and> sm_dependency sm < 2 ^ 32"

definition widthsOk :: "graph \<Rightarrow> bool" where
  "widthsOk g \<longleftrightarrow> (\<forall>nd \<in> set (g_nodes g). nodeFits nd) \<and> (\<forall>d \<in> set (g_fsDesc g). descFits d)
     \<and> (\<forall>v \<in> set (g_fsVobjs g). v < 2 ^ 32) \<and> (\<forall>sm \<in> set (g_specMetas g). metaFits sm)
     \<and> (\<forall>d \<in> set (g_deps g). dep_target d < 2 ^ 32) \<and> (\<forall>r \<in> set (g_replacements g). rp_epoch r < 2 ^ 32)"

definition tablesFit :: "graph \<Rightarrow> bool" where
  "tablesFit g \<longleftrightarrow> length (g_fsDesc g) < 2 ^ 32 \<and> length (g_specMetas g) < 2 ^ 32 \<and> length (g_deps g) < 2 ^ 32
     \<and> length (g_replacements g) < 2 ^ 32 \<and> sum_list (map length (absfs g)) < 2 ^ 32"

text \<open>Replaying the edges of a node copies its slice once per input.\<close>

definition edgeRoom :: "graph \<Rightarrow> bool" where
  "edgeRoom g \<longleftrightarrow> sum_list (map (\<lambda>is. \<Sum>k < length is. k + 1) (absg g)) < 2 ^ 32"

text \<open>Node 0 is the start node as the constructor makes it; the format does not keep its payloads.\<close>

definition startPlain :: "graph \<Rightarrow> bool" where
  "startPlain g \<longleftrightarrow> g_start g = 0 \<and> g_nodes g \<noteq> [] \<and> nd_kind (g_nodes g ! 0) = Nk_Start \<and> nd_payload (g_nodes g ! 0) = 0
     \<and> nd_payload2 (g_nodes g ! 0) = 0"

text \<open>The log names replaced nodes of the graph, and a node has the epoch of its last entry.\<close>

definition lastEpoch :: "replacement list \<Rightarrow> node_id \<Rightarrow> nat \<Rightarrow> nat" where
  "lastEpoch rs n e = fold (\<lambda>r e. if rp_oldNode r = n then rp_epoch r else e) rs e"

definition logTagged :: "graph \<Rightarrow> bool" where
  "logTagged g \<longleftrightarrow> (\<forall>r \<in> set (g_replacements g). rp_oldNode r < nodesSize g \<and> rp_newNode r < nodesSize g
       \<and> flagsHas (nd_flags (g_nodes g ! rp_oldNode r)) F_Dead \<and> flagsHas (nd_flags (g_nodes g ! rp_oldNode r)) F_Replaced)
     \<and> (\<forall>n < nodesSize g. lastEpoch (g_replacements g) n (nd_epoch (g_nodes g ! n)) = nd_epoch (g_nodes g ! n))"

definition serializable :: "graph \<Rightarrow> bool" where
  "serializable g \<longleftrightarrow> graphOk g \<and> frameTableOk g \<and> widthsOk g \<and> tablesFit g \<and> edgeRoom g \<and> startPlain g \<and> logTagged g"

section \<open>Nodes\<close>

definition bare :: "node \<Rightarrow> node" where
  "bare nd = nd\<lparr>nd_edgeOffset := 0, nd_numInputs := 0\<rparr>"

text \<open>The graph after the first \<open>i\<close> nodes.\<close>

definition stage :: "graph \<Rightarrow> nat \<Rightarrow> graph" where
  "stage g i = newGraph\<lparr>g_nodes := (if i = 0 then [defaultNode] else map bare (take i (g_nodes g))),
     g_uses := replicate (if i = 0 then 1 else i) []\<rparr>"

lemma newGraph_fields:
  "g_nodes newGraph = [defaultNode]" "g_edgePool newGraph = []" "g_uses newGraph = [[]]" "g_fsDesc newGraph = []"
  "g_fsVobjs newGraph = []" "g_specMetas newGraph = []" "g_deps newGraph = []" "g_replacements newGraph = []"
  "g_epoch newGraph = 0" "g_start newGraph = 0"
  by (simp_all add: newGraph_def makeRaw_def emptyGraph_def defaultNode_def Let_def)

lemma stage_0: "stage g 0 = newGraph"
proof -
  have "newGraph\<lparr>g_nodes := g_nodes newGraph, g_uses := g_uses newGraph\<rparr> = newGraph" by simp
  then show ?thesis by (simp add: stage_def newGraph_fields)
qed

definition recordOf :: "node \<Rightarrow> node_record" where
  "recordOf nd = \<lparr>nr_kind = nd_kind nd, nr_flags = unat (nd_flags nd), nr_payload = nd_payload nd, nr_payload2 = nd_payload2 nd,
     nr_constValue = unat (nd_constValue nd), nr_specMeta = nd_specMeta nd, nr_epoch = nd_epoch nd,
     nr_numInputs = nd_numInputs nd, nr_reserved = nd_reserved nd\<rparr>"

lemma readRecord_put:
  assumes "nodeFits nd"
  shows "readRecord (putU16 (nd_kind nd) @ putU16 (unat (nd_flags nd)) @ putU32 (nd_payload nd) @ putU32 (nd_payload2 nd)
      @ putU64 (unat (nd_constValue nd)) @ putU32 (nd_specMeta nd) @ putU32 (nd_epoch nd) @ putU16 (nd_numInputs nd)
      @ putU16 (nd_reserved nd) @ bs) = Some (recordOf nd, bs)"
proof -
  have "unat (nd_flags nd) < 2 ^ 16" "unat (nd_constValue nd) < 2 ^ 64"
    using unsigned_less [of "nd_flags nd"] unsigned_less [of "nd_constValue nd"] by simp_all
  then show ?thesis using assms
    by (simp add: readRecord_def wire16.get_small wire32.get_small wire64.get_small nodeFits_def nodeKindCount_def recordOf_def)
qed

lemma inputs_row: "n < nodesSize g \<Longrightarrow> map (input g n) [0..<nd_numInputs (g_nodes g ! n)] = absg g ! n"
  by (simp add: absg_def inputsOf_def numInputs_def node_at_def)

lemma row_small: "graphOk g \<Longrightarrow> n < nodesSize g \<Longrightarrow> v \<in> set (absg g ! n) \<Longrightarrow> v < 2 ^ 32"
proof -
  assume a: "graphOk g" "n < nodesSize g" "v \<in> set (absg g ! n)"
  then have "refOk (nodesSize g) v" using nth_mem [of n "absg g"] by (fastforce simp: graphOk_def refsOk_def)
  moreover have "nodesSize g < 2 ^ 32" using a(1) by (simp add: graphOk_def storeOk_def)
  ultimately show "v < 2 ^ 32" by (auto simp: refOk_def kInvalidNodeId_def)
qed

lemma stage_first:
  assumes "startPlain g" "nodeFits (g_nodes g ! 0)"
  shows "replayFields 0 (recordOf (g_nodes g ! 0)) (stage g 0) = stage g 1"
proof -
  let ?nd = "g_nodes g ! 0"
  have n: "take 1 (g_nodes g) = [?nd]" using assms(1) by (cases "g_nodes g") (auto simp: startPlain_def)
  have "bare ?nd = defaultNode\<lparr>nd_flags := nd_flags ?nd, nd_constValue := nd_constValue ?nd, nd_specMeta := nd_specMeta ?nd,
      nd_epoch := nd_epoch ?nd, nd_reserved := 0\<rparr>"
    using assms by (cases ?nd) (simp add: bare_def defaultNode_def startPlain_def nodeFits_def)
  then show ?thesis using n by (simp add: replayFields_def updNode_def stage_def recordOf_def newGraph_fields)
qed

lemma stage_next:
  assumes "0 < i" "i < nodesSize g" "nodesSize g < 2 ^ 32" "nodeFits (g_nodes g ! i)"
  shows "snd (Ir_Graph.make (nd_kind (g_nodes g ! i)) [] (nd_payload (g_nodes g ! i)) (nd_payload2 (g_nodes g ! i)) (stage g i)) = i"
    "replayFields i (recordOf (g_nodes g ! i))
       (fst (Ir_Graph.make (nd_kind (g_nodes g ! i)) [] (nd_payload (g_nodes g ! i)) (nd_payload2 (g_nodes g ! i)) (stage g i))) = stage g (Suc i)"
proof -
  let ?nd = "g_nodes g ! i"
  let ?m = "Ir_Graph.make (nd_kind ?nd) [] (nd_payload ?nd) (nd_payload2 ?nd) (stage g i)"
  have s: "length (g_nodes (stage g i)) = i" using assms by (simp add: stage_def)
  show "snd ?m = i" using s assms by (simp add: Ir_Graph.make_def makeRaw_def Let_def)
  have "bare ?nd = defaultNode\<lparr>nd_kind := nd_kind ?nd, nd_edgeOffset := 0, nd_numInputs := 0, nd_payload := nd_payload ?nd,
      nd_payload2 := nd_payload2 ?nd, nd_constValue := nd_constValue ?nd, nd_flags := nd_flags ?nd, nd_specMeta := nd_specMeta ?nd,
      nd_epoch := nd_epoch ?nd, nd_reserved := 0\<rparr>"
    using assms(4) by (cases ?nd) (simp add: bare_def defaultNode_def nodeFits_def)
  then show "replayFields i (recordOf ?nd) (fst ?m) = stage g (Suc i)"
    using s assms by (simp add: Ir_Graph.make_def makeRaw_def Let_def replayFields_def updNode_def recordOf_def stage_def
        newGraph_fields take_Suc_conv_app_nth nth_append list_update_append defaultNode_def replicate_append_same [symmetric])
qed

lemma readNode_put:
  assumes g: "graphOk g" "widthsOk g" "startPlain g" and i: "i < nodesSize g"
  shows "readNode i (putNode g i @ bs) (stage g i) = Inr (absg g ! i, bs, stage g (Suc i))"
proof -
  let ?nd = "g_nodes g ! i"
  have f: "nodeFits ?nd" using g(2) i by (simp add: widthsOk_def)
  have n: "nodesSize g < 2 ^ 32" using g(1) by (simp add: graphOk_def storeOk_def)
  have nd: "node_at g i = ?nd" using i by (simp add: node_at_def)
  have ins: "concat (map (\<lambda>s. putU32 (input g i s)) [0..<nd_numInputs ?nd]) = concat (map putU32 (absg g ! i))"
    unfolding inputs_row [OF i, symmetric] by (simp add: comp_def)
  have len: "nd_numInputs ?nd = length (absg g ! i)" unfolding inputs_row [OF i, symmetric] by simp
  have m: "cursorMany (nd_numInputs ?nd) (concat (map putU32 (absg g ! i)) @ bs) = Some (absg g ! i, bs)"
    unfolding len by (rule cursorMany_put) (use row_small [OF g(1) i] in blast)
  have r: "readRecord (putNode g i @ bs) = Some (recordOf ?nd, concat (map putU32 (absg g ! i)) @ bs)"
    unfolding putNode_def Let_def nd ins by (simp add: readRecord_put [OF f])
  have k: "nr_kind (recordOf ?nd) = nd_kind ?nd" "nr_reserved (recordOf ?nd) = 0" "nr_numInputs (recordOf ?nd) = nd_numInputs ?nd"
    "nr_payload (recordOf ?nd) = nd_payload ?nd" "nr_payload2 (recordOf ?nd) = nd_payload2 ?nd" "nd_kind ?nd < nodeKindCount"
    using f by (simp_all add: recordOf_def nodeFits_def)
  show ?thesis
  proof (cases "i = 0")
    case True
    then show ?thesis
      using r k m stage_first [OF g(3)] f g(3) by (simp add: readNode_def orFail_def failIf_def startPlain_def)
  next
    case False
    then show ?thesis
      using r k m stage_next [OF _ i n f] by (simp add: readNode_def orFail_def failIf_def split_beta Let_def)
  qed
qed

lemma readNodes_put:
  assumes g: "graphOk g" "widthsOk g" "startPlain g"
  shows "i + k \<le> nodesSize g \<Longrightarrow> readNodes [i..<i + k] (concat (map (putNode g) [i..<i + k]) @ bs) (stage g i)
    = Inr (map ((!) (absg g)) [i..<i + k], bs, stage g (i + k))"
proof (induction k arbitrary: i)
  case (Suc k)
  have u: "[i..<i + Suc k] = i # [Suc i..<Suc i + k]" by (simp add: upt_conv_Cons del: upt_Suc)
  show ?case unfolding u using Suc readNode_put [OF g, of i] Suc.IH [of "Suc i"] by (simp add: andThen_def)
qed simp

lemma read_all_nodes:
  assumes g: "graphOk g" "widthsOk g" "startPlain g"
  shows "readNodes [0..<nodesSize g] (concat (map (putNode g) [0..<nodesSize g]) @ bs) newGraph
    = Inr (absg g, bs, stage g (nodesSize g))"
proof -
  have "map ((!) (absg g)) [0..<nodesSize g] = absg g" using map_nth [of "absg g"] by simp
  then show ?thesis using readNodes_put [OF g, of 0 "nodesSize g"] by (simp add: stage_0)
qed

section \<open>Edges\<close>

text \<open>Two graphs that differ in their edges only.\<close>

definition sameButEdges :: "graph \<Rightarrow> graph \<Rightarrow> bool" where
  "sameButEdges g h \<longleftrightarrow> map bare (g_nodes h) = map bare (g_nodes g) \<and> g_fsDesc h = g_fsDesc g \<and> g_fsVobjs h = g_fsVobjs g
     \<and> g_specMetas h = g_specMetas g \<and> g_deps h = g_deps g \<and> g_replacements h = g_replacements g \<and> g_epoch h = g_epoch g
     \<and> g_start h = g_start g"

lemma sameButEdges_append: "sameButEdges g (appendInput n v g)"
  by (auto simp: sameButEdges_def appendInput_def Let_def updNode_def pushUse_def bare_def map_update)
    (auto intro!: nth_equalityI simp: nth_list_update bare_def)

lemma append_row:
  assumes "graphOk h" "i < nodesSize h" "\<forall>v \<in> set ins. refOk (nodesSize h) v" "length (absg h ! i) + length ins < 2 ^ 16"
    and "length (g_edgePool h) + (\<Sum>k < length ins. length (absg h ! i) + k + 1) < 2 ^ 32"
  shows "graphOk (fold (appendInput i) ins h) \<and> absg (fold (appendInput i) ins h) = (absg h)[i := absg h ! i @ ins]
    \<and> sameButEdges h (fold (appendInput i) ins h)
    \<and> length (g_edgePool (fold (appendInput i) ins h)) = length (g_edgePool h) + (\<Sum>k < length ins. length (absg h ! i) + k + 1)"
  using assms
proof (induction ins arbitrary: h)
  case Nil
  then show ?case by (simp add: sameButEdges_def)
next
  case (Cons v ins)
  let ?h = "appendInput i v h"
  have c: "cnt h i = length (absg h ! i)" using Cons.prems(2) by simp
  have sum: "(\<Sum>k < length (v # ins). length (absg h ! i) + k + 1) = length (absg h ! i) + 1 + (\<Sum>k < length ins. length (absg h ! i) + 1 + k + 1)"
    by (simp only: list.size sum.lessThan_Suc_shift add_0_right add_Suc_right) (simp add: add.commute)
  have room: "length (g_edgePool h) + cnt h i + 1 < 2 ^ 32" "cnt h i + 1 < 2 ^ 16" using Cons.prems(4,5) sum c by simp_all
  have ok: "graphOk ?h" "absg ?h = (absg h)[i := absg h ! i @ [v]]"
    using appendInput_ok [OF Cons.prems(1,2) _ room, of v] Cons.prems(3) by simp_all
  have b: "sameButEdges h ?h" by (rule sameButEdges_append)
  then have n: "nodesSize ?h = nodesSize h" by (metis sameButEdges_def length_map)
  have pool: "length (g_edgePool ?h) = length (g_edgePool h) + length (absg h ! i) + 1"
    using Cons.prems(2) c by (simp add: appendInput_def Let_def length_relocate cnt_def)
  have row: "absg ?h ! i = absg h ! i @ [v]" using ok(2) Cons.prems(2) by simp
  have "graphOk (fold (appendInput i) ins ?h) \<and> absg (fold (appendInput i) ins ?h) = (absg ?h)[i := absg ?h ! i @ ins]
    \<and> sameButEdges ?h (fold (appendInput i) ins ?h)
    \<and> length (g_edgePool (fold (appendInput i) ins ?h)) = length (g_edgePool ?h) + (\<Sum>k < length ins. length (absg ?h ! i) + k + 1)"
    using Cons.IH [OF ok(1)] Cons.prems n row pool sum by simp
  then show ?case using ok(2) row pool sum b by (simp add: sameButEdges_def)
qed

lemma replay_rows:
  assumes "graphOk h" "i + length rows = nodesSize h" "absg h = pre @ replicate (length rows) []" "length pre = i"
    and "\<forall>ins \<in> set rows. (\<forall>v \<in> set ins. refOk (nodesSize h) v) \<and> length ins < 2 ^ 16"
    and "length (g_edgePool h) + sum_list (map (\<lambda>ins. \<Sum>k < length ins. k + 1) rows) < 2 ^ 32"
  shows "graphOk (fold (\<lambda>(i, ins) g. fold (appendInput i) ins g) (enumerate i rows) h)
    \<and> absg (fold (\<lambda>(i, ins) g. fold (appendInput i) ins g) (enumerate i rows) h) = pre @ rows
    \<and> sameButEdges h (fold (\<lambda>(i, ins) g. fold (appendInput i) ins g) (enumerate i rows) h)"
  using assms
proof (induction rows arbitrary: i h pre)
  case Nil
  then show ?case by (simp add: sameButEdges_def)
next
  case (Cons ins rows)
  let ?h = "fold (appendInput i) ins h"
  have i: "i < nodesSize h" "absg h ! i = []" using Cons.prems(2,3,4) by (simp_all add: nth_append)
  have r: "graphOk ?h" "absg ?h = (absg h)[i := ins]" "sameButEdges h ?h"
    "length (g_edgePool ?h) = length (g_edgePool h) + (\<Sum>k < length ins. k + 1)"
    using append_row [OF Cons.prems(1) i(1), of ins] Cons.prems(5,6) i(2) by simp_all
  have n: "nodesSize ?h = nodesSize h" using r(3) by (metis sameButEdges_def length_map)
  have a: "absg ?h = (pre @ [ins]) @ replicate (length rows) []"
    using r(2) Cons.prems(3,4) by (simp add: list_update_append)
  let ?r = "fold (\<lambda>(i, ins) g. fold (appendInput i) ins g) (enumerate (Suc i) rows) ?h"
  have "graphOk ?r \<and> absg ?r = (pre @ [ins]) @ rows \<and> sameButEdges ?h ?r"
    by (rule Cons.IH) (use r a n Cons.prems in \<open>simp_all add: add.assoc\<close>)
  then show ?case using r(3) by (simp add: sameButEdges_def)
qed

lemma stage_ok:
  assumes "0 < nodesSize g" "nodesSize g < 2 ^ 32"
  shows "graphOk (stage g (nodesSize g))" "absg (stage g (nodesSize g)) = replicate (nodesSize g) []"
proof -
  let ?h = "stage g (nodesSize g)"
  have h: "g_nodes ?h = map bare (g_nodes g)" "g_uses ?h = replicate (nodesSize g) []" "g_edgePool ?h = []"
    using assms(1) by (simp_all add: stage_def newGraph_fields)
  show a: "absg ?h = replicate (nodesSize g) []"
    by (rule absg_eqI) (simp_all add: h cnt_def bare_def)
  show "graphOk ?h"
    unfolding graphOk_def a using assms(2) by (auto simp: storeOk_def usesExact_def refsOk_def h cnt_def offs_def bare_def)
qed

text \<open>The graph after the two passes over the nodes.\<close>

lemma replay_nodes:
  assumes g: "serializable g"
  defines "h \<equiv> replayEdges (absg g) (stage g (nodesSize g))"
  shows "graphOk h" "absg h = absg g" "map bare (g_nodes h) = map bare (g_nodes g)" "g_fsDesc h = []" "g_fsVobjs h = []"
    "g_specMetas h = []" "g_deps h = []" "g_replacements h = []" "g_epoch h = 0" "g_start h = 0"
proof -
  let ?s = "stage g (nodesSize g)"
  have ok: "graphOk g" "widthsOk g" "edgeRoom g" "g_nodes g \<noteq> []" using g by (auto simp: serializable_def startPlain_def)
  have n: "0 < nodesSize g" "nodesSize g < 2 ^ 32" using ok(1,4) by (simp_all add: graphOk_def storeOk_def)
  note st = stage_ok [OF n]
  have sz: "nodesSize ?s = nodesSize g" using n(1) by (simp add: stage_def)
  have "\<forall>ins \<in> set (absg g). (\<forall>v \<in> set ins. refOk (nodesSize g) v) \<and> length ins < 2 ^ 16"
    using ok(1) by (auto simp: graphOk_def refsOk_def storeOk_def in_set_conv_nth)
  moreover have "g_edgePool ?s = []" by (simp add: stage_def newGraph_fields)
  ultimately have "graphOk h \<and> absg h = absg g \<and> sameButEdges ?s h"
    using replay_rows [OF st(1), of 0 "absg g" "[]"] st(2) sz ok(3) by (simp add: h_def replayEdges_def edgeRoom_def)
  moreover have "map bare (g_nodes ?s) = map bare (g_nodes g)" using n(1) by (simp add: stage_def bare_def comp_def)
  ultimately show "graphOk h" "absg h = absg g" "map bare (g_nodes h) = map bare (g_nodes g)" "g_fsDesc h = []" "g_fsVobjs h = []"
    "g_specMetas h = []" "g_deps h = []" "g_replacements h = []" "g_epoch h = 0" "g_start h = 0"
    by (simp_all add: sameButEdges_def stage_def newGraph_fields)
qed

section \<open>Side tables\<close>

definition fsCore :: "frame_state_desc \<Rightarrow> nat \<times> nat \<times> nat" where
  "fsCore d = (fs_method d, fs_pc d, fs_caller d)"

lemma cursorMany_row:
  "length vs = k \<Longrightarrow> \<forall>v \<in> set vs. v < 2 ^ 32 \<Longrightarrow> cursorMany k (concat (map putU32 vs) @ bs) = Some (vs, bs)"
  using cursorMany_put by blast

lemma frameState_parts:
  assumes "frameTableOk g" "widthsOk g" "i < length (g_fsDesc g)"
  shows "descFits (frameState g i)" "frameStateVobjs g i = absfs g ! i" "\<forall>v \<in> set (absfs g ! i). v < 2 ^ 32"
    "length (absfs g ! i) < 2 ^ 32"
proof -
  show "descFits (frameState g i)" using assms(2,3) by (simp add: frameState_def widthsOk_def)
  show "frameStateVobjs g i = absfs g ! i" using assms(3) by (simp add: absfs_def)
  have e: "absfs g ! i = sliceOf (g_fsVobjs g) (g_fsDesc g ! i)" using absfs_slices [OF assms(1)] assms(3) by simp
  then show "\<forall>v \<in> set (absfs g ! i). v < 2 ^ 32"
    using assms(2) set_take_subset set_drop_subset unfolding sliceOf_def widthsOk_def by (metis subsetD)
  have "length (sliceOf (g_fsVobjs g) (g_fsDesc g ! i)) \<le> length (g_fsVobjs g)" by (simp add: sliceOf_def)
  moreover have "length (g_fsVobjs g) < 2 ^ 32" using assms(1) by (simp add: fsOk_def)
  ultimately show "length (absfs g ! i) < 2 ^ 32" by (simp add: e)
qed

lemma readFrameState_put:
  assumes "frameTableOk g" "widthsOk g" "i < length (g_fsDesc g)" "length (g_fsDesc h) = i" "i < 2 ^ 32"
  shows "readFrameState i (putFrameState g i @ bs) h = Inr (bs, fst (addFrameStateDesc (fs_method (frameState g i))
    (fs_pc (frameState g i)) (fs_caller (frameState g i)) (absfs g ! i) h))"
proof -
  let ?d = "frameState g i"
  note p = frameState_parts [OF assms(1-3)]
  have h: "cursorMany 4 (putU32 (fs_method ?d) @ putU32 (fs_pc ?d) @ putU32 (fs_caller ?d) @ putU32 (length (absfs g ! i)) @ r)
      = Some ([fs_method ?d, fs_pc ?d, fs_caller ?d, length (absfs g ! i)], r)" for r
    using cursorMany_row [of "[fs_method ?d, fs_pc ?d, fs_caller ?d, length (absfs g ! i)]" 4 r] p by (simp add: descFits_def)
  have "snd (addFrameStateDesc (fs_method ?d) (fs_pc ?d) (fs_caller ?d) (absfs g ! i) h) = i"
    using assms(4,5) by (simp add: addFrameStateDesc_def Let_def)
  then show ?thesis
    using h cursorMany_put [OF p(3)] p(2) by (simp add: readFrameState_def putFrameState_def Let_def orFail_def failIf_def split_beta)
qed

lemma read_frame_states:
  assumes g: "frameTableOk g" "widthsOk g" "tablesFit g"
  shows "i + k = length (g_fsDesc g) \<Longrightarrow> frameTableOk h \<Longrightarrow> absfs h = take i (absfs g) \<Longrightarrow>
    map fsCore (g_fsDesc h) = take i (map fsCore (g_fsDesc g)) \<Longrightarrow> length (g_fsVobjs h) = sum_list (map length (take i (absfs g))) \<Longrightarrow>
    \<exists>ds vs. readEntries readFrameState [i..<i + k] (concat (map (putFrameState g) [i..<i + k]) @ bs) h
        = Inr (bs, h\<lparr>g_fsDesc := ds, g_fsVobjs := vs\<rparr>)
      \<and> fsOk ds vs \<and> absfs (h\<lparr>g_fsDesc := ds, g_fsVobjs := vs\<rparr>) = absfs g \<and> map fsCore ds = map fsCore (g_fsDesc g)"
proof (induction k arbitrary: i h)
  case 0
  have "h\<lparr>g_fsDesc := g_fsDesc h, g_fsVobjs := g_fsVobjs h\<rparr> = h" by simp
  moreover have "length (absfs g) = length (g_fsDesc g)" by (simp add: absfs_def)
  ultimately show ?case using 0 by (intro exI [of _ "g_fsDesc h"] exI [of _ "g_fsVobjs h"]) simp
next
  case (Suc k)
  have i: "i < length (g_fsDesc g)" "i < 2 ^ 32" using Suc.prems(1) g(3) by (simp_all add: tablesFit_def)
  have len: "length (absfs g) = length (g_fsDesc g)" by (simp add: absfs_def)
  have hl: "length (g_fsDesc h) = i" using Suc.prems(4) i(1) by (metis length_map length_take min.absorb4)
  let ?d = "frameState g i"
  let ?h = "fst (addFrameStateDesc (fs_method ?d) (fs_pc ?d) (fs_caller ?d) (absfs g ! i) h)"
  have u: "[i..<i + Suc k] = i # [Suc i..<Suc i + k]" by (simp add: upt_conv_Cons del: upt_Suc)
  have tk: "take (Suc i) (absfs g) = take i (absfs g) @ [absfs g ! i]" using i(1) len by (simp add: take_Suc_conv_app_nth)
  have "sum_list (map length (take (Suc i) (absfs g))) \<le> sum_list (map length (absfs g))"
    by (metis append_take_drop_id le_add1 map_append sum_list_append)
  then have room: "length (g_fsVobjs h) + length (absfs g ! i) < 2 ^ 32" using Suc.prems(5) g(3) tk by (simp add: tablesFit_def)
  note a = addFrameStateDesc_ok [OF Suc.prems(2) room, of "fs_method ?d" "fs_pc ?d" "fs_caller ?d"]
  have h: "?h = h\<lparr>g_fsVobjs := g_fsVobjs h @ absfs g ! i, g_fsDesc := g_fsDesc ?h\<rparr>" "map fsCore (g_fsDesc ?h) = map fsCore (g_fsDesc h) @ [fsCore ?d]"
    by (simp_all add: addFrameStateDesc_def Let_def fsCore_def)
  have "map fsCore (g_fsDesc ?h) = take (Suc i) (map fsCore (g_fsDesc g))"
    using Suc.prems(4) h(2) i(1) by (simp add: take_Suc_conv_app_nth frameState_def)
  moreover have "absfs ?h = take (Suc i) (absfs g)" "frameTableOk ?h" using a hl i(2) Suc.prems(3) tk by simp_all
  moreover have "length (g_fsVobjs ?h) = sum_list (map length (take (Suc i) (absfs g)))"
    using Suc.prems(5) tk by (simp add: addFrameStateDesc_def Let_def)
  ultimately obtain ds vs where r: "readEntries readFrameState [Suc i..<Suc i + k] (concat (map (putFrameState g) [Suc i..<Suc i + k]) @ bs) ?h
      = Inr (bs, ?h\<lparr>g_fsDesc := ds, g_fsVobjs := vs\<rparr>)" "fsOk ds vs" "absfs (?h\<lparr>g_fsDesc := ds, g_fsVobjs := vs\<rparr>) = absfs g"
      "map fsCore ds = map fsCore (g_fsDesc g)"
    using Suc.IH [of "Suc i" ?h] Suc.prems(1) by auto
  have e: "?h\<lparr>g_fsDesc := ds, g_fsVobjs := vs\<rparr> = h\<lparr>g_fsDesc := ds, g_fsVobjs := vs\<rparr>"
    by (simp add: addFrameStateDesc_def Let_def)
  show ?case
    unfolding u using r readFrameState_put [OF g(1,2) i(1) hl i(2)] e by (intro exI [of _ ds] exI [of _ vs]) (simp add: andThen_def)
qed

lemma readSpecMeta_put:
  assumes "metaFits sm" "length (g_specMetas h) = i" "i < 2 ^ 32"
  shows "readSpecMeta i (putSpecMeta sm @ bs) h = Inr (bs, h\<lparr>g_specMetas := g_specMetas h @ [sm]\<rparr>)"
proof -
  let ?vs = "[codeIn specKinds (sm_kind sm), codeIn specSources (sm_source sm), sm_confidence sm, sm_guard sm, sm_deoptTarget sm, sm_cost sm,
    sm_dependency sm, codeIn specRollbacks (sm_rollback sm)]"
  have "\<forall>v \<in> set ?vs. v < 2 ^ 32"
    using assms(1) enum_codes(1) [of "sm_kind sm"] enum_codes(3) [of "sm_source sm"] enum_codes(5) [of "sm_rollback sm"] by (simp add: metaFits_def)
  then have "cursorMany 8 (putSpecMeta sm @ bs) = Some (?vs, bs)" using cursorMany_row [of ?vs 8 bs] by (simp add: putSpecMeta_def)
  moreover have "length specKinds = 9" "length specSources = 3" "length specRollbacks = 3"
    by (simp_all add: specKinds_def specSources_def specRollbacks_def)
  ultimately show ?thesis
    using assms(2,3) enum_codes by (simp add: readSpecMeta_def orFail_def failIf_def Let_def addSpecMeta_def not_le)
qed

lemma readDependency_put:
  assumes "dep_target d < 2 ^ 32" "length (g_deps h) = i" "i < 2 ^ 32"
  shows "readDependency i (putDependency d @ bs) h = Inr (bs, h\<lparr>g_deps := g_deps h @ [d]\<rparr>)"
proof -
  let ?vs = "[codeIn depKinds (dep_kind d), dep_target d]"
  have "\<forall>v \<in> set ?vs. v < 2 ^ 32" using assms(1) enum_codes(7) [of "dep_kind d"] by simp
  then have "cursorMany 2 (putDependency d @ bs) = Some (?vs, bs)" using cursorMany_row [of ?vs 2 bs] by (simp add: putDependency_def)
  moreover have "length depKinds = 5" by (simp add: depKinds_def)
  ultimately show ?thesis
    using assms(2,3) enum_codes(7,8) by (simp add: readDependency_def orFail_def failIf_def Let_def addDependency_def not_le)
qed

lemma read_spec_metas:
  "\<forall>sm \<in> set sms. metaFits sm \<Longrightarrow> length (g_specMetas h) = i \<Longrightarrow> i + length sms < 2 ^ 32 \<Longrightarrow>
   readEntries readSpecMeta [i..<i + length sms] (concat (map putSpecMeta sms) @ bs) h = Inr (bs, h\<lparr>g_specMetas := g_specMetas h @ sms\<rparr>)"
proof (induction sms arbitrary: i h)
  case (Cons sm sms)
  have u: "[i..<i + length (sm # sms)] = i # [Suc i..<Suc i + length sms]" by (simp add: upt_conv_Cons del: upt_Suc)
  show ?case unfolding u
    using Cons.prems readSpecMeta_put [of sm h i] Cons.IH [of "h\<lparr>g_specMetas := g_specMetas h @ [sm]\<rparr>" "Suc i"] by (simp add: andThen_def)
qed simp

lemma read_dependencies:
  "\<forall>d \<in> set ds. dep_target d < 2 ^ 32 \<Longrightarrow> length (g_deps h) = i \<Longrightarrow> i + length ds < 2 ^ 32 \<Longrightarrow>
   readEntries readDependency [i..<i + length ds] (concat (map putDependency ds) @ bs) h = Inr (bs, h\<lparr>g_deps := g_deps h @ ds\<rparr>)"
proof (induction ds arbitrary: i h)
  case (Cons d ds)
  have u: "[i..<i + length (d # ds)] = i # [Suc i..<Suc i + length ds]" by (simp add: upt_conv_Cons del: upt_Suc)
  show ?case unfolding u
    using Cons.prems readDependency_put [of d h i] Cons.IH [of "h\<lparr>g_deps := g_deps h @ [d]\<rparr>" "Suc i"] by (simp add: andThen_def)
qed simp

definition replayLog :: "replacement list \<Rightarrow> graph \<Rightarrow> graph" where
  "replayLog rs h = fold (\<lambda>r. replayReplacement (rp_oldNode r) (rp_newNode r) (rp_epoch r)) rs h"

lemma read_replacements:
  "\<forall>r \<in> set rs. rp_oldNode r < N \<and> rp_newNode r < N \<and> rp_epoch r < 2 ^ 32 \<Longrightarrow> N < 2 ^ 32 \<Longrightarrow> length is = length rs \<Longrightarrow>
   readEntries (readReplacement N) is (concat (map putReplacement rs) @ bs) h = Inr (bs, replayLog rs h)"
proof (induction rs arbitrary: "is" h)
  case Nil
  then show ?case by (simp add: replayLog_def)
next
  case (Cons r rs)
  then obtain j js where js: "is = j # js" "length js = length rs" by (cases "is") auto
  let ?vs = "[rp_oldNode r, rp_newNode r, rp_epoch r]"
  have "cursorMany 3 (putReplacement r @ bs) = Some (?vs, bs)" for bs
    using cursorMany_row [of ?vs 3 bs] Cons.prems(1,2) by (simp add: putReplacement_def)
  then have "readReplacement N j (putReplacement r @ bs) h = Inr (bs, replayReplacement (rp_oldNode r) (rp_newNode r) (rp_epoch r) h)" for bs
    using Cons.prems(1) by (simp add: readReplacement_def orFail_def failIf_def)
  then show ?case using Cons js by (simp add: andThen_def replayLog_def)
qed

end
