(* ===== verification/Ir_Replay.thy ===== *)
theory Ir_Replay
  imports Ir_SerializeOk
begin

text \<open>
  The graph that a serialized graph is replayed to. It has the content of the original: the same nodes
  but for the places of their slices in the edge pool, the same inputs, frame states, side tables and
  replacement log. The writer and the verifier read nothing but this content, so they do not
  distinguish the two graphs.
\<close>

section \<open>The replacement log\<close>

lemma flagsSet_idem: "flagsHas raw f \<Longrightarrow> flagsSet f raw = raw"
  by (rule bit_word_eqI) (auto simp: flagsSet_def flagsHas_bit bit_or_iff flagBits_exp bit_exp_iff)

lemma replayLog_effect:
  assumes "\<forall>r \<in> set rs. rp_oldNode r < nodesSize h \<and> flagsHas (nd_flags (g_nodes h ! rp_oldNode r)) F_Dead
      \<and> flagsHas (nd_flags (g_nodes h ! rp_oldNode r)) F_Replaced"
  shows "\<exists>e. replayLog rs h = h\<lparr>g_nodes := map (\<lambda>n. (g_nodes h ! n)\<lparr>nd_epoch := lastEpoch rs n (nd_epoch (g_nodes h ! n))\<rparr>) [0..<nodesSize h],
    g_replacements := g_replacements h @ rs, g_epoch := e\<rparr>"
  using assms
proof (induction rs arbitrary: h)
  case Nil
  have "map (\<lambda>n. (g_nodes h ! n)\<lparr>nd_epoch := nd_epoch (g_nodes h ! n)\<rparr>) [0..<nodesSize h] = g_nodes h" by (simp add: map_nth)
  then show ?case by (intro exI [of _ "g_epoch h"]) (simp add: replayLog_def lastEpoch_def)
next
  case (Cons r rs)
  let ?o = "rp_oldNode r"
  let ?h = "replayReplacement ?o (rp_newNode r) (rp_epoch r) h"
  have o: "?o < nodesSize h" "flagsHas (nd_flags (g_nodes h ! ?o)) F_Dead" "flagsHas (nd_flags (g_nodes h ! ?o)) F_Replaced"
    using Cons.prems by simp_all
  have h: "?h = h\<lparr>g_nodes := (g_nodes h)[?o := (g_nodes h ! ?o)\<lparr>nd_epoch := rp_epoch r\<rparr>],
      g_replacements := g_replacements h @ [r], g_epoch := g_epoch ?h\<rparr>"
    using o by (cases r) (simp add: replayReplacement_def Let_def updNode_def flagsSet_idem)
  have n: "g_nodes ?h = (g_nodes h)[?o := (g_nodes h ! ?o)\<lparr>nd_epoch := rp_epoch r\<rparr>]" by (subst h) simp
  then have fl: "nodesSize ?h = nodesSize h" "\<And>m. m < nodesSize h \<Longrightarrow> nd_flags (g_nodes ?h ! m) = nd_flags (g_nodes h ! m)"
    using o(1) by (simp_all add: nth_list_update)
  have "\<exists>e. replayLog rs ?h = ?h\<lparr>g_nodes := map (\<lambda>n. (g_nodes ?h ! n)\<lparr>nd_epoch := lastEpoch rs n (nd_epoch (g_nodes ?h ! n))\<rparr>) [0..<nodesSize ?h],
      g_replacements := g_replacements ?h @ rs, g_epoch := e\<rparr>"
    by (rule Cons.IH) (use Cons.prems fl in auto)
  then obtain e where e: "replayLog rs ?h = ?h\<lparr>g_nodes := map (\<lambda>n. (g_nodes ?h ! n)\<lparr>nd_epoch := lastEpoch rs n (nd_epoch (g_nodes ?h ! n))\<rparr>) [0..<nodesSize ?h],
      g_replacements := g_replacements ?h @ rs, g_epoch := e\<rparr>" ..
  have m: "map (\<lambda>n. (g_nodes ?h ! n)\<lparr>nd_epoch := lastEpoch rs n (nd_epoch (g_nodes ?h ! n))\<rparr>) [0..<nodesSize ?h]
    = map (\<lambda>n. (g_nodes h ! n)\<lparr>nd_epoch := lastEpoch (r # rs) n (nd_epoch (g_nodes h ! n))\<rparr>) [0..<nodesSize h]"
    by (auto simp: fl(1) n nth_list_update lastEpoch_def)
  have "replayLog (r # rs) h = replayLog rs ?h" by (simp add: replayLog_def)
  then have "replayLog (r # rs) h = ?h\<lparr>g_nodes := map (\<lambda>n. (g_nodes h ! n)\<lparr>nd_epoch := lastEpoch (r # rs) n (nd_epoch (g_nodes h ! n))\<rparr>) [0..<nodesSize h],
      g_replacements := g_replacements ?h @ rs, g_epoch := e\<rparr>"
    unfolding e m .
  also have "\<dots> = h\<lparr>g_nodes := map (\<lambda>n. (g_nodes h ! n)\<lparr>nd_epoch := lastEpoch (r # rs) n (nd_epoch (g_nodes h ! n))\<rparr>) [0..<nodesSize h],
      g_replacements := g_replacements h @ r # rs, g_epoch := e\<rparr>"
    by (subst h, subst (2) h) simp
  finally show ?case by blast
qed

text \<open>On the nodes of a tagged log the replay changes nothing but the log and the epoch counter.\<close>

lemma replayLog_tagged:
  assumes "map bare (g_nodes h) = map bare (g_nodes g)" "logTagged g"
  shows "\<exists>e. replayLog (g_replacements g) h = h\<lparr>g_replacements := g_replacements h @ g_replacements g, g_epoch := e\<rparr>"
proof -
  have len: "nodesSize h = nodesSize g" using assms(1) by (metis length_map)
  have nd: "bare (g_nodes h ! n) = bare (g_nodes g ! n)" if "n < nodesSize g" for n
    using assms(1) len that by (metis nth_map)
  have f: "nd_flags (g_nodes h ! n) = nd_flags (g_nodes g ! n)" "nd_epoch (g_nodes h ! n) = nd_epoch (g_nodes g ! n)" if "n < nodesSize g" for n
    using nd [OF that] by (cases "g_nodes h ! n"; cases "g_nodes g ! n"; simp add: bare_def)+
  have "map (\<lambda>n. (g_nodes h ! n)\<lparr>nd_epoch := lastEpoch (g_replacements g) n (nd_epoch (g_nodes h ! n))\<rparr>) [0..<nodesSize h]
    = map (\<lambda>n. g_nodes h ! n) [0..<nodesSize h]"
    using assms(2) f len by (auto simp: logTagged_def)
  also have "\<dots> = g_nodes h" by (rule map_nth)
  finally have m: "map (\<lambda>n. (g_nodes h ! n)\<lparr>nd_epoch := lastEpoch (g_replacements g) n (nd_epoch (g_nodes h ! n))\<rparr>) [0..<nodesSize h] = g_nodes h" .
  have "\<exists>e. replayLog (g_replacements g) h = h\<lparr>g_nodes := map (\<lambda>n. (g_nodes h ! n)\<lparr>nd_epoch := lastEpoch (g_replacements g) n (nd_epoch (g_nodes h ! n))\<rparr>) [0..<nodesSize h],
      g_replacements := g_replacements h @ g_replacements g, g_epoch := e\<rparr>"
    by (rule replayLog_effect) (use assms(2) f len in \<open>auto simp: logTagged_def\<close>)
  then show ?thesis unfolding m by simp
qed

section \<open>The whole artifact\<close>

text \<open>What a graph keeps of another.\<close>

definition sameContent :: "graph \<Rightarrow> graph \<Rightarrow> bool" where
  "sameContent g h \<longleftrightarrow> map bare (g_nodes h) = map bare (g_nodes g) \<and> absg h = absg g \<and> map fsCore (g_fsDesc h) = map fsCore (g_fsDesc g)
     \<and> absfs h = absfs g \<and> g_specMetas h = g_specMetas g \<and> g_deps h = g_deps g \<and> g_replacements h = g_replacements g
     \<and> g_start h = g_start g"

lemma table_lists:
  "map (\<lambda>i. putSpecMeta (specMeta g i)) [0..<length (g_specMetas g)] = map putSpecMeta (g_specMetas g)"
  "map (\<lambda>i. putDependency (dependency_at g i)) [0..<length (g_deps g)] = map putDependency (g_deps g)"
  by (auto intro!: nth_equalityI simp: specMeta_def dependency_at_def)

lemma graphOk_tables:
  "graphOk (h\<lparr>g_fsDesc := a, g_fsVobjs := b, g_specMetas := c, g_deps := d, g_replacements := r, g_epoch := e\<rparr>) = graphOk h"
  "absg (h\<lparr>g_fsDesc := a, g_fsVobjs := b, g_specMetas := c, g_deps := d, g_replacements := r, g_epoch := e\<rparr>) = absg h"
  by (rule graphOk_fields; simp add: cnt_def offs_def)+

lemma absfs_tables: "absfs (h\<lparr>g_specMetas := c, g_deps := d, g_replacements := r, g_epoch := e\<rparr>) = absfs h"
  by (simp add: absfs_def frameStateVobjs_def [abs_def] Let_def)

text \<open>The sizes are not truncated.\<close>

lemma serializable_sizes:
  assumes "serializable g"
  shows "nodesSize g < 2 ^ 32" "length (g_fsDesc g) < 2 ^ 32" "length (g_specMetas g) < 2 ^ 32" "length (g_deps g) < 2 ^ 32"
    "length (g_replacements g) < 2 ^ 32" "nodeCount g = nodesSize g" "frameStateCount g = length (g_fsDesc g)"
    "specMetaCount g = length (g_specMetas g)" "dependencyCount g = length (g_deps g)"
  using assms by (simp_all add: serializable_def graphOk_def storeOk_def tablesFit_def nodeCount_def frameStateCount_def specMetaCount_def
      dependencyCount_def)

lemma replay_serialize:
  assumes g: "serializable g"
  shows "\<exists>h. replayGraph (serialize g @ extra) newGraph = Inr (extra, h) \<and> sameContent g h \<and> graphOk h \<and> frameTableOk h"
proof -
  have ok: "graphOk g" "frameTableOk g" "widthsOk g" "tablesFit g" "startPlain g" "logTagged g"
    using g by (simp_all add: serializable_def)
  note n = serializable_sizes(1) [OF g] and t = serializable_sizes(2-5) [OF g] and c = serializable_sizes(6-9) [OF g]
  let ?tables = "putU32 (length (g_specMetas g)) @ concat (map putSpecMeta (g_specMetas g)) @ putU32 (length (g_deps g))
    @ concat (map putDependency (g_deps g)) @ putU32 (length (g_replacements g)) @ concat (map putReplacement (g_replacements g)) @ extra"
  let ?h0 = "replayEdges (absg g) (stage g (nodesSize g))"
  note h0 = replay_nodes [OF g]
  have e0: "absfs ?h0 = []" using h0(4) by (simp add: absfs_def)
  have "fsOk [] []" by (simp add: fsOk_def)
  then have "\<exists>ds vs. readEntries readFrameState [0..<0 + length (g_fsDesc g)] (concat (map (putFrameState g) [0..<0 + length (g_fsDesc g)]) @ bs) ?h0
        = Inr (bs, ?h0\<lparr>g_fsDesc := ds, g_fsVobjs := vs\<rparr>)
      \<and> fsOk ds vs \<and> absfs (?h0\<lparr>g_fsDesc := ds, g_fsVobjs := vs\<rparr>) = absfs g \<and> map fsCore ds = map fsCore (g_fsDesc g)" for bs
    by (intro read_frame_states [OF ok(2-4)]) (simp_all add: h0 e0)
  then obtain ds vs where fs: "readEntries readFrameState [0..<length (g_fsDesc g)] (concat (map (putFrameState g) [0..<length (g_fsDesc g)]) @ ?tables) ?h0
        = Inr (?tables, ?h0\<lparr>g_fsDesc := ds, g_fsVobjs := vs\<rparr>)"
    and ds: "fsOk ds vs" "absfs (?h0\<lparr>g_fsDesc := ds, g_fsVobjs := vs\<rparr>) = absfs g" "map fsCore ds = map fsCore (g_fsDesc g)"
    unfolding add_0 by meson
  let ?h1 = "?h0\<lparr>g_fsDesc := ds, g_fsVobjs := vs\<rparr>"
  let ?h2 = "?h1\<lparr>g_specMetas := g_specMetas g, g_deps := g_deps g\<rparr>"
  have w: "\<forall>sm \<in> set (g_specMetas g). metaFits sm" "\<forall>d \<in> set (g_deps g). dep_target d < 2 ^ 32"
    "\<forall>r \<in> set (g_replacements g). rp_oldNode r < nodesSize g \<and> rp_newNode r < nodesSize g \<and> rp_epoch r < 2 ^ 32"
    using ok(3,6) by (auto simp: widthsOk_def logTagged_def)
  have sm: "readEntries readSpecMeta [0..<length (g_specMetas g)] (concat (map putSpecMeta (g_specMetas g)) @ bs) ?h1
     = Inr (bs, ?h1\<lparr>g_specMetas := g_specMetas g\<rparr>)" for bs
    using read_spec_metas [OF w(1), of ?h1 0 bs] t h0 by simp
  have dp: "readEntries readDependency [0..<length (g_deps g)] (concat (map putDependency (g_deps g)) @ bs) (?h1\<lparr>g_specMetas := g_specMetas g\<rparr>)
     = Inr (bs, ?h2)" for bs
    using read_dependencies [OF w(2), of "?h1\<lparr>g_specMetas := g_specMetas g\<rparr>" 0 bs] t h0 by simp
  have rp: "readEntries (readReplacement (nodesSize g)) [0..<length (g_replacements g)] (concat (map putReplacement (g_replacements g)) @ extra) ?h2
     = Inr (extra, replayLog (g_replacements g) ?h2)"
    by (rule read_replacements [OF w(3) n]) simp
  have hd: "readHeader (putU32 kIrMagic @ putU32 kIrFormatVersion @ putU32 (nodesSize g) @ bs) = Inr (nodesSize g, bs)" for bs
    using cursorMany_row [of "[kIrMagic, kIrFormatVersion]" 2 "putU32 (nodesSize g) @ bs"] n
    by (simp add: readHeader_def orFail_def failIf_def wire32.get_small kIrMagic_def kIrFormatVersion_def)
  have nodes: "readNodes [0..<nodesSize g] (concat (map (putNode g) [0..<nodesSize g]) @ bs) newGraph = Inr (absg g, bs, stage g (nodesSize g))" for bs
    by (rule read_all_nodes [OF ok(1,3,5)])
  have "replayGraph (serialize g @ extra) newGraph = Inr (extra, replayLog (g_replacements g) ?h2)"
    unfolding serialize_def c table_lists replayGraph_def append_assoc hd
    using nodes fs sm dp rp t by (simp add: andThen_def readTable_def orFail_def wire32.get_small)
  moreover obtain e where e: "replayLog (g_replacements g) ?h2 = ?h2\<lparr>g_replacements := g_replacements ?h2 @ g_replacements g, g_epoch := e\<rparr>"
    using replayLog_tagged [of ?h2 g] h0(3) ok(6) by auto
  moreover have "graphOk (replayLog (g_replacements g) ?h2)" "absg (replayLog (g_replacements g) ?h2) = absg g"
    using h0(1,2) unfolding e graphOk_tables by simp_all
  moreover have "absfs (replayLog (g_replacements g) ?h2) = absfs g" using ds(2) unfolding e absfs_tables .
  ultimately show ?thesis
    using h0 ds ok(5) by (intro exI [of _ "replayLog (g_replacements g) ?h2"]) (simp add: sameContent_def startPlain_def e)
qed

text \<open>The graph a serialized graph is replayed to.\<close>

definition replayed :: "graph \<Rightarrow> graph" where
  "replayed g = (case replayGraph (serialize g) newGraph of Inr (rest, h) \<Rightarrow> h | Inl msg \<Rightarrow> newGraph)"

named_theorems view

lemma replayed_ok:
  assumes "serializable g"
  shows "sameContent g (replayed g)" "graphOk (replayed g)" "frameTableOk (replayed g)"
  using replay_serialize [OF assms, of "[]"] by (auto simp: replayed_def)

lemma replayed_size [view]: "serializable g \<Longrightarrow> nodesSize (replayed g) = nodesSize g"
  using replayed_ok(1) unfolding sameContent_def by (metis length_map)

lemma replayed_bare: "serializable g \<Longrightarrow> n < nodesSize g \<Longrightarrow> bare (g_nodes (replayed g) ! n) = bare (g_nodes g ! n)"
  using replayed_ok(1) replayed_size unfolding sameContent_def by (metis nth_map)

lemma replayed_row: "serializable g \<Longrightarrow> absg (replayed g) = absg g"
  using replayed_ok(1) by (simp add: sameContent_def)

lemma replayed_numInputs: "serializable g \<Longrightarrow> n < nodesSize g \<Longrightarrow> nd_numInputs (g_nodes (replayed g) ! n) = nd_numInputs (g_nodes g ! n)"
  using replayed_row [of g] replayed_size [of g] length_absg_nth [of n g] length_absg_nth [of n "replayed g"] by (simp add: cnt_def)

lemma replayed_node:
  assumes "serializable g"
  shows "\<exists>off. node_at (replayed g) n = (node_at g n)\<lparr>nd_edgeOffset := off\<rparr>"
proof (cases "n < nodesSize g")
  case True
  then have "bare (g_nodes (replayed g) ! n) = bare (g_nodes g ! n)" "nd_numInputs (g_nodes (replayed g) ! n) = nd_numInputs (g_nodes g ! n)"
    using assms by (simp_all add: replayed_bare replayed_numInputs)
  then have "g_nodes (replayed g) ! n = (g_nodes g ! n)\<lparr>nd_edgeOffset := nd_edgeOffset (g_nodes (replayed g) ! n)\<rparr>"
    by (cases "g_nodes (replayed g) ! n"; cases "g_nodes g ! n") (simp add: bare_def)
  then show ?thesis using True assms by (auto simp: node_at_def replayed_size)
next
  case False
  then have "node_at (replayed g) n = (node_at g n)\<lparr>nd_edgeOffset := nd_edgeOffset (node_at g n)\<rparr>"
    using assms by (simp add: node_at_def replayed_size)
  then show ?thesis ..
qed

lemma replayed_fields [view]:
  assumes "serializable g"
  shows "nd_kind (node_at (replayed g) n) = nd_kind (node_at g n)" "nd_flags (node_at (replayed g) n) = nd_flags (node_at g n)"
    "nd_payload (node_at (replayed g) n) = nd_payload (node_at g n)" "nd_payload2 (node_at (replayed g) n) = nd_payload2 (node_at g n)"
    "nd_constValue (node_at (replayed g) n) = nd_constValue (node_at g n)" "nd_specMeta (node_at (replayed g) n) = nd_specMeta (node_at g n)"
    "nd_epoch (node_at (replayed g) n) = nd_epoch (node_at g n)" "nd_reserved (node_at (replayed g) n) = nd_reserved (node_at g n)"
    "nd_numInputs (node_at (replayed g) n) = nd_numInputs (node_at g n)" "isDead (node_at (replayed g) n) = isDead (node_at g n)"
    "ownType (node_at (replayed g) n) = ownType (node_at g n)"
proof -
  obtain off where e: "node_at (replayed g) n = (node_at g n)\<lparr>nd_edgeOffset := off\<rparr>" using replayed_node [OF assms] by blast
  have "ownType (nd\<lparr>nd_edgeOffset := off\<rparr>) = ownType nd" for nd by (simp add: ownType_def Let_def)
  then show "ownType (node_at (replayed g) n) = ownType (node_at g n)" by (simp only: e)
qed (use replayed_node [OF assms, of n] in \<open>auto simp: isDead_def\<close>)

lemma replayed_numInputs_at [view]: "serializable g \<Longrightarrow> numInputs (replayed g) n = numInputs g n"
  by (simp add: numInputs_def view)

lemma replayed_input [view]:
  assumes "serializable g"
  shows "input (replayed g) n s = input g n s"
proof (cases "n < nodesSize g \<and> s < cnt g n")
  case True
  then have "n < nodesSize (replayed g) \<and> s < cnt (replayed g) n" using assms by (simp add: replayed_size replayed_numInputs cnt_def)
  then show ?thesis using True assms absg_nth_input [of n g s] absg_nth_input [of n "replayed g" s] by (simp add: replayed_row)
next
  case False
  then have "\<not> s < nd_numInputs (node_at g n)" by (auto simp: node_at_def cnt_def defaultNode_def)
  then show ?thesis using assms by (simp add: input_def Let_def view)
qed

lemma replayed_nodeCount [view]: "serializable g \<Longrightarrow> nodeCount (replayed g) = nodeCount g"
  by (simp add: nodeCount_def view)

lemma replayed_uses [view]:
  assumes "serializable g"
  shows "usesOf (replayed g) n = [] \<longleftrightarrow> usesOf g n = []"
proof -
  have e: "usesExact (g_uses g) (absg g)" "usesExact (g_uses (replayed g)) (absg g)"
    using assms replayed_ok(2) [OF assms] by (simp_all add: serializable_def graphOk_def replayed_row)
  have "xs = [] \<longleftrightarrow> (\<forall>u s. Use u s \<notin> set xs)" for xs
    by (metis list.set_intros(1) neq_Nil_conv empty_iff list.set(1) use.exhaust)
  then show ?thesis using e unfolding usesOf_def usesExact_def by auto
qed

lemma replayed_tables [view]:
  assumes "serializable g"
  shows "frameStateCount (replayed g) = frameStateCount g" "frameStateVobjs (replayed g) i = frameStateVobjs g i"
    "fs_caller (frameState (replayed g) i) = fs_caller (frameState g i)" "fs_method (frameState (replayed g) i) = fs_method (frameState g i)"
    "fs_pc (frameState (replayed g) i) = fs_pc (frameState g i)" "specMetaCount (replayed g) = specMetaCount g"
    "dependencyCount (replayed g) = dependencyCount g" "specMeta (replayed g) i = specMeta g i"
    "dependency_at (replayed g) i = dependency_at g i" "startNode (replayed g) = startNode g" "g_replacements (replayed g) = g_replacements g"
proof -
  have c: "map fsCore (g_fsDesc (replayed g)) = map fsCore (g_fsDesc g)" "absfs (replayed g) = absfs g"
    using replayed_ok(1) [OF assms] by (simp_all add: sameContent_def)
  have l: "length (g_fsDesc (replayed g)) = length (g_fsDesc g)" using c(1) by (metis length_map)
  have d: "fsCore (frameState (replayed g) i) = fsCore (frameState g i)" using c(1) l by (metis frameState_def nth_map)
  show "frameStateCount (replayed g) = frameStateCount g" by (simp add: frameStateCount_def l)
  show "fs_caller (frameState (replayed g) i) = fs_caller (frameState g i)" "fs_method (frameState (replayed g) i) = fs_method (frameState g i)"
    "fs_pc (frameState (replayed g) i) = fs_pc (frameState g i)" using d by (simp_all add: fsCore_def)
  show "frameStateVobjs (replayed g) i = frameStateVobjs g i"
  proof (cases "i < length (g_fsDesc g)")
    case True
    then show ?thesis using arg_cong [OF c(2), of "\<lambda>xs. xs ! i"] l by (simp add: absfs_def)
  qed (simp add: frameStateVobjs_def l)
qed (use replayed_ok(1) [OF assms] in \<open>simp_all add: sameContent_def specMetaCount_def dependencyCount_def specMeta_def dependency_at_def startNode_def\<close>)

end
