(* ===== verification/Ir_ReplayView.thy ===== *)
theory Ir_ReplayView
  imports Ir_Replay
begin

text \<open>
  The writer and the verifier give the same answers on a graph and on the graph it is replayed to: one
  equation per function that reads the graph, in the order of \<open>Ir_Serialize\<close> and \<open>Ir_Verifier\<close>.
\<close>

section \<open>The writer\<close>

lemma serialize_replayed:
  assumes "serializable g"
  shows "serialize (replayed g) = serialize g"
proof -
  have "putNode (replayed g) = putNode g" "putFrameState (replayed g) = putFrameState g"
    using assms by (simp_all add: fun_eq_iff putNode_def putFrameState_def Let_def view)
  then show ?thesis using assms by (simp add: serialize_def view)
qed

section \<open>Types of results\<close>

definition sameTypes :: "graph \<Rightarrow> graph \<Rightarrow> bool" where
  "sameTypes g h \<longleftrightarrow> (\<forall>n. nd_kind (node_at h n) = nd_kind (node_at g n) \<and> ownType (node_at h n) = ownType (node_at g n)
     \<and> numInputs h n = numInputs g n \<and> (\<forall>s. input h n s = input g n s))"

lemma typeWalk_same: "typeWalk g c = Some v \<Longrightarrow> sameTypes g h \<longrightarrow> typeWalk h c = Some v"
proof (rule typeWalk.raw_induct [where P = "\<lambda>g c v. sameTypes g h \<longrightarrow> typeWalk h c = Some v", rotated], assumption, rule impI)
  fix f g c v
  assume IH: "\<And>g c v. f g c = Some v \<Longrightarrow> sameTypes g h \<longrightarrow> typeWalk h c = Some v"
    and e: "(case c of
        Inl n \<Rightarrow>
          if nd_kind (node_at g n) = Nk_BitCast
          then (if 1 \<le> numInputs g n then f g (Inl (input g n 0)) else Some (irCode IT_Bottom))
          else if nd_kind (node_at g n) = Nk_Phi then f g (Inr (n, 1, None))
          else Some (ownType (node_at g n))
      | Inr l \<Rightarrow>
          if fst (snd l) < numInputs g (fst l)
          then Option.bind (f g (Inl (input g (fst l) (fst (snd l))))) (\<lambda>v.
                 f g (Inr (fst l, fst (snd l) + 1,
                   Some (case snd (snd l) of Some t \<Rightarrow> joinCode t v | None \<Rightarrow> v))))
          else Some (case snd (snd l) of Some t \<Rightarrow> t | None \<Rightarrow> irCode IT_Bottom)) = Some v"
    and s: "sameTypes g h"
  note same = s [unfolded sameTypes_def, rule_format] and IH = IH [THEN mp, OF _ s]
  show "typeWalk h c = Some v"
  proof (cases c)
    case (Inl n)
    then show ?thesis using e IH same by (subst typeWalk.simps) (auto split: if_splits)
  next
    case (Inr l)
    show ?thesis
    proof (cases "fst (snd l) < numInputs g (fst l)")
      case True
      then obtain w where "f g (Inl (input g (fst l) (fst (snd l)))) = Some w"
          "f g (Inr (fst l, fst (snd l) + 1, Some (case snd (snd l) of Some t \<Rightarrow> joinCode t w | None \<Rightarrow> w))) = Some v"
        using e Inr by (auto simp: bind_eq_Some_conv)
      note this [THEN IH]
      then show ?thesis using Inr True same by (subst typeWalk.simps) simp
    next
      case False
      then show ?thesis using e Inr same by (subst typeWalk.simps) simp
    qed
  qed
qed

lemma resultTypeOf_same: "sameTypes g h \<Longrightarrow> resultTypeOf h n = resultTypeOf g n"
proof -
  assume s: "sameTypes g h"
  then have s': "sameTypes h g" by (simp add: sameTypes_def)
  show ?thesis
    using typeWalk_same [THEN mp, OF _ s, of "Inl n"] typeWalk_same [THEN mp, OF _ s', of "Inl n"] unfolding resultTypeOf_def
    by (metis not_None_eq)
qed

lemma resultTypeOf_replayed [view]: "serializable g \<Longrightarrow> resultTypeOf (replayed g) n = resultTypeOf g n"
  by (rule resultTypeOf_same) (simp add: sameTypes_def view)

section \<open>One node\<close>

lemma validId_replayed [view]: "serializable g \<Longrightarrow> validId (replayed g) n = validId g n"
  by (simp add: validId_def view)

lemma phiOffender_replayed [view]:
  assumes "serializable g"
  shows "memoryPhiOffender (replayed g) phi d = memoryPhiOffender g phi d"
proof -
  have "phiDepth (replayed g) = phiDepth g" using assms by (simp add: phiDepth_def view)
  moreover from this have "phiInputsOffender (replayed g) phi ss d = phiInputsOffender g phi ss d" for ss
    using assms by (induction g phi ss d rule: phiInputsOffender.induct) (simp_all add: Let_def view)
  ultimately show ?thesis using assms by (simp add: memoryPhiOffender_def view)
qed

lemma operands_replayed [view]:
  assumes "serializable g"
  shows "checkOperandType (replayed g) = checkOperandType g" "operandAt (replayed g) = operandAt g"
proof -
  show "checkOperandType (replayed g) = checkOperandType g" using assms by (simp only: fun_eq_iff checkOperandType_def view simp_thms)
  then show "operandAt (replayed g) = operandAt g" using assms by (simp add: fun_eq_iff operandAt_def view)
qed

lemma checkInput_replayed [view]: "serializable g \<Longrightarrow> checkInput (replayed g) = checkInput g"
  by (simp only: fun_eq_iff checkInput_def Let_def view simp_thms)

lemma checkSignature_replayed [view]: "serializable g \<Longrightarrow> checkSignature (replayed g) = checkSignature g"
  by (simp only: fun_eq_iff checkSignature_def Let_def view simp_thms)

lemma checkRole_replayed [view]: "serializable g \<Longrightarrow> checkRole (replayed g) = checkRole g"
  by (simp only: fun_eq_iff checkRole_def slotRole_def Let_def view simp_thms)

lemma checkMergeShapes_replayed [view]: "serializable g \<Longrightarrow> checkMergeShapes (replayed g) = checkMergeShapes g"
  by (simp only: fun_eq_iff checkMergeShapes_def Let_def view simp_thms)

lemma checkProjectionParent_replayed [view]: "serializable g \<Longrightarrow> checkProjectionParent (replayed g) = checkProjectionParent g"
  by (simp only: fun_eq_iff checkProjectionParent_def Let_def view simp_thms)

lemma checkOtherOperands_replayed [view]: "serializable g \<Longrightarrow> checkOtherOperands (replayed g) = checkOtherOperands g"
  by (simp only: fun_eq_iff checkOtherOperands_def view simp_thms)

lemma checkOperandTypes_replayed [view]: "serializable g \<Longrightarrow> checkOperandTypes (replayed g) = checkOperandTypes g"
  by (simp only: fun_eq_iff checkOperandTypes_def view simp_thms)

lemma checkKindPayloads_replayed [view]: "serializable g \<Longrightarrow> checkKindPayloads (replayed g) = checkKindPayloads g"
  by (simp only: fun_eq_iff checkKindPayloads_def Let_def view simp_thms)

lemma checkNode_replayed [view]: "serializable g \<Longrightarrow> checkNode (replayed g) = checkNode g"
  by (simp only: fun_eq_iff checkNode_def Let_def view simp_thms)

section \<open>Memory chains\<close>

lemma chainStep_replayed [view]: "serializable g \<Longrightarrow> chainStep (replayed g) = chainStep g"
  by (simp only: fun_eq_iff chainStep_def memChildren_def memChild_def isLoopHeaderPhi_def Let_def view simp_thms)

lemma chainWalk_replayed [view]:
  assumes "serializable g"
  shows "chainWalk (replayed g) n gen steps w = chainWalk g n gen steps w"
proof -
  have "chainSteps (replayed g) = chainSteps g" using assms by (simp add: chainSteps_def view)
  then show ?thesis using assms
  proof (induction g n gen steps w rule: chainWalk.induct)
    case (1 g n gen steps w)
    show ?case
      by (subst (1 2) chainWalk.simps) (use 1 in \<open>auto simp: view split: list.splits prod.splits\<close>)
  qed
qed

lemma checkChains_replayed [view]:
  assumes "serializable g"
  shows "checkChains (replayed g) ns st = checkChains g ns st"
proof -
  have "checkChain (replayed g) = checkChain g" using assms by (simp only: fun_eq_iff checkChain_def Let_def view simp_thms)
  then show ?thesis by (induction ns arbitrary: st) simp_all
qed

lemma checkMemoryChains_replayed [view]: "serializable g \<Longrightarrow> checkMemoryChains (replayed g) = checkMemoryChains g"
  by (simp add: checkMemoryChains_def view)

section \<open>Speculation, frame states and materialization\<close>

lemma checkSpeculation_replayed [view]: "serializable g \<Longrightarrow> checkSpeculation (replayed g) = checkSpeculation g"
  by (simp only: fun_eq_iff checkSpeculation_def Let_def view simp_thms)

lemma frameStates_replayed [view]:
  assumes "serializable g"
  shows "checkFrameStates (replayed g) = checkFrameStates g"
proof -
  have l: "liveFrameState (replayed g) = liveFrameState g" "checkVobjEntry (replayed g) = checkVobjEntry g"
    using assms by (simp_all add: fun_eq_iff liveFrameState_def checkVobjEntry_def view)
  then have "descHasLiveFs (replayed g) = descHasLiveFs g" using assms by (simp add: fun_eq_iff descHasLiveFs_def view)
  then have "callerWalk (replayed g) n steps cur = callerWalk g n steps cur" for n steps cur
    using assms
  proof (induction g n steps cur rule: callerWalk.induct)
    case (1 g n steps cur)
    show ?case by (subst (1 2) callerWalk.simps) (use 1 in \<open>simp add: view\<close>)
  qed
  then have "checkFrameState (replayed g) n = checkFrameState g n" for n using assms l by (simp add: checkFrameState_def Let_def view)
  then have "checkFrameState (replayed g) = checkFrameState g" by (rule ext)
  then show ?thesis using assms by (simp add: checkFrameStates_def view)
qed

lemma vobjSlots_replayed [view]: "serializable g \<Longrightarrow> vobjSlots (replayed g) n ss color = vobjSlots g n ss color"
proof (induction g n ss color rule: vobjSlots.induct)
  case (1 g n color)
  then show ?case by (simp add: vobjSlots.simps)
next
  case (2 g n s ss color)
  let ?f = "input g n s" and ?sub = "\<lambda>h. vobjSlots h (input g n s) [0..<numInputs g (input g n s)] (color(input g n s := 1))"
  have rest: "vobjSlots (replayed g) n ss color = vobjSlots g n ss color" if "\<not> isVobj g ?f \<or> color ?f \<noteq> 0"
    using 2(1) [OF refl] 2(2) [OF refl] 2(5) [OF refl] 2(6) that by (cases "isVobj g ?f"; cases "color ?f = 1") simp_all
  have sub: "?sub (replayed g) = ?sub g" if "isVobj g ?f" "color ?f = 0"
    by (rule 2(3) [OF refl _ _ _ 2(6)]) (use that in simp_all)
  have after: "vobjSlots (replayed g) n ss (snd (?sub g)) = vobjSlots g n ss (snd (?sub g))" if "isVobj g ?f" "color ?f = 0"
    by (rule 2(4) [OF refl _ _ _ refl 2(6)]) (use that in simp_all)
  show ?case
    by (subst (1 2) vobjSlots.simps) (use 2(6) rest sub after in \<open>auto simp: Let_def view\<close>)
qed

lemma checkVobjCycles_replayed [view]: "serializable g \<Longrightarrow> checkVobjCycles (replayed g) = checkVobjCycles g"
  by (simp only: fun_eq_iff checkVobjCycles_def Let_def view simp_thms)

lemma checkStillVirtual_replayed [view]: "serializable g \<Longrightarrow> checkStillVirtual (replayed g) = checkStillVirtual g"
  by (simp only: fun_eq_iff checkStillVirtual_def Let_def view simp_thms)

lemma checkVobjClosure_replayed [view]: "serializable g \<Longrightarrow> checkVobjClosure (replayed g) = checkVobjClosure g"
  by (simp only: fun_eq_iff checkVobjClosure_def Let_def view simp_thms)

lemma checkMaterialization_replayed [view]: "serializable g \<Longrightarrow> checkMaterialization (replayed g) = checkMaterialization g"
  by (simp only: fun_eq_iff checkMaterialization_def Let_def view simp_thms)

section \<open>Vectors and the whole verifier\<close>

lemma checkVectorPack_replayed [view]: "serializable g \<Longrightarrow> checkVectorPack (replayed g) = checkVectorPack g"
  by (simp only: fun_eq_iff checkVectorPack_def Let_def view simp_thms)

lemma checkVectorBroadcast_replayed [view]: "serializable g \<Longrightarrow> checkVectorBroadcast (replayed g) = checkVectorBroadcast g"
  by (simp only: fun_eq_iff checkVectorBroadcast_def Let_def view simp_thms)

lemma checkVectorOp_replayed [view]: "serializable g \<Longrightarrow> checkVectorOp (replayed g) = checkVectorOp g"
  by (simp only: fun_eq_iff checkVectorOp_def Let_def view simp_thms)

lemma checkVectorMemory_replayed [view]: "serializable g \<Longrightarrow> checkVectorMemory (replayed g) = checkVectorMemory g"
  by (simp only: fun_eq_iff checkVectorMemory_def Let_def view simp_thms)

lemma checkVectorReduce_replayed [view]: "serializable g \<Longrightarrow> checkVectorReduce (replayed g) = checkVectorReduce g"
  by (simp only: fun_eq_iff checkVectorReduce_def Let_def view simp_thms)

lemma checkVectorElement_replayed [view]: "serializable g \<Longrightarrow> checkVectorElement (replayed g) = checkVectorElement g"
  by (simp only: fun_eq_iff checkVectorElement_def Let_def view simp_thms)

lemma checkVector_replayed [view]: "serializable g \<Longrightarrow> checkVector (replayed g) = checkVector g"
  by (simp only: fun_eq_iff checkVector_def Let_def view simp_thms)

lemma checkTagged_replayed [view]: "serializable g \<Longrightarrow> checkTagged (replayed g) = checkTagged g"
  by (simp only: fun_eq_iff checkTagged_def Let_def view simp_thms)

lemma verifyGraph_replayed: "serializable g \<Longrightarrow> verifyGraph (replayed g) = verifyGraph g"
  by (simp add: verifyGraph_def irDiags_def Let_def view)

end
