(* ===== verification/Ir_VerifierOk.thy ===== *)
theory Ir_VerifierOk
  imports Ir_Verifier Ir_Replace
begin

text \<open>
  What the verifier of the IR guarantees: what each check says when it reports nothing, and the three
  walks. A walk that reports nothing shows that the chains it follows end: memory chains at the start
  node or at a loop header, caller chains at the outermost frame, and references between virtual
  objects.
\<close>

section \<open>Clean checks\<close>

lemma report_Nil [simp]: "report b n msg = [] \<longleftrightarrow> \<not> b"
  by (simp add: report_def)

lemma inOrder_clean: "inOrder cs = Some [] \<longleftrightarrow> (\<forall>c \<in> set cs. c = Some [])"
  by (induction cs rule: inOrder.induct) (auto simp: bind_eq_Some_conv)

lemma inOrder_returns: "inOrder cs = None \<longleftrightarrow> None \<in> set cs"
proof (induction cs rule: inOrder.induct)
  case (2 c cs)
  then show ?case by (cases c) auto
qed simp

declare inOrder.simps [simp del]

lemma foldl_irSink_Nil: "foldl irSink ds es = [] \<longleftrightarrow> ds = [] \<and> es = []"
proof (induction es arbitrary: ds)
  case (Cons e es)
  have "irSink ds e \<noteq> []" by (auto simp: irSink_def kMaxIrDiags_def)
  then show ?case using Cons by simp
qed simp

lemma foldl_irSink_length: "length ds \<le> kMaxIrDiags \<Longrightarrow> length (foldl irSink ds es) \<le> kMaxIrDiags"
  by (induction es arbitrary: ds) (auto simp: irSink_def)

lemma verified_checks:
  assumes "graphVerified g"
  shows "n < nodeCount g \<Longrightarrow> checkNode g n = Some []" "checkMemoryChains g = []"
    "n < nodeCount g \<Longrightarrow> checkSpeculation g n = []" "n < nodeCount g \<Longrightarrow> checkFrameState g n = []"
    "checkMaterialization g = []" "n < nodeCount g \<Longrightarrow> checkVector g n = Some []" "n < nodeCount g \<Longrightarrow> checkTagged g n = []"
proof -
  have "irDiags g = Some []"
    using assms by (auto simp: graphVerified_def verifyGraph_def foldl_irSink_Nil)
  then show "n < nodeCount g \<Longrightarrow> checkNode g n = Some []" "checkMemoryChains g = []"
    "n < nodeCount g \<Longrightarrow> checkSpeculation g n = []" "n < nodeCount g \<Longrightarrow> checkFrameState g n = []"
    "checkMaterialization g = []" "n < nodeCount g \<Longrightarrow> checkVector g n = Some []" "n < nodeCount g \<Longrightarrow> checkTagged g n = []"
    by (auto simp: irDiags_def Let_def inOrder_clean checkFrameStates_def)
qed

lemma checkNode_clean:
  assumes "checkNode g n = Some []"
  shows "nd_reserved (node_at g n) = 0" "s < numInputs g n \<Longrightarrow> checkInput g n s = []" "checkSignature g n = []"
    "s < numInputs g n \<Longrightarrow> checkRole g n s = []" "isTerminal (kindOf g n) \<Longrightarrow> usesOf g n = []" "checkProjectionParent g n = []"
    "checkMergeShapes g n = []" "checkOperandTypes g n = Some []" "checkKindPayloads g n = []"
  using assms by (auto simp: checkNode_def Let_def inOrder_clean numInputs_def)

lemma checkInput_clean:
  "checkInput g n s = [] \<Longrightarrow> validId g (input g n s) \<and> \<not> isDead (node_at g (input g n s))
     \<and> (input g n s = n \<longrightarrow> kindOf g n = Nk_Phi \<and> 1 \<le> s)"
  by (auto simp: checkInput_def Let_def split: if_splits)

lemma checkSignature_clean:
  "checkSignature g n = [] \<Longrightarrow> minInputsOf (info_ir (kindOf g n)) \<le> numInputs g n
     \<and> (\<not> ni_variadic (info_ir (kindOf g n)) \<longrightarrow> numInputs g n = minInputsOf (info_ir (kindOf g n)))"
  by (auto simp: checkSignature_def Let_def not_less)

text \<open>What a slot of a role accepts.\<close>

definition roleAccepts :: "graph \<Rightarrow> input_role \<Rightarrow> node_id \<Rightarrow> bool" where
  "roleAccepts g role i \<longleftrightarrow> (role = IR_Ctrl \<longrightarrow> producesControl (kindOf g i))
     \<and> (role = IR_Mem \<longrightarrow> producesMemoryState (kindOf g i)) \<and> (role = IR_FrameState \<longrightarrow> kindOf g i = Nk_FrameState)"

lemma checkRole_clean: "checkRole g n s = [] \<Longrightarrow> validId g (input g n s) \<Longrightarrow> roleAccepts g (slotRole g n s) (input g n s)"
  by (cases "slotRole g n s") (auto simp: checkRole_def Let_def roleAccepts_def split: if_splits)

lemma checkMerge_clean:
  assumes "checkMergeShapes g n = []"
  shows "kindOf g n = Nk_Phi \<Longrightarrow> 1 \<le> numInputs g n \<Longrightarrow> validId g (input g n 0) \<Longrightarrow>
      (kindOf g (input g n 0) = Nk_Region \<or> kindOf g (input g n 0) = Nk_LoopBegin) \<and> numInputs g n = numInputs g (input g n 0) + 1"
    "kindOf g n = Nk_Region \<or> kindOf g n = Nk_LoopBegin \<Longrightarrow> 2 \<le> numInputs g n"
  using assms by (auto simp: checkMergeShapes_def Let_def split: if_splits)

lemma checkParent_clean:
  assumes "checkProjectionParent g n = []" "1 \<le> numInputs g n" "validId g (input g n 0)"
  shows "kindOf g n = Nk_IfTrue \<or> kindOf g n = Nk_IfFalse \<Longrightarrow> kindOf g (input g n 0) = Nk_If"
    "kindOf g n = Nk_SwitchCase \<or> kindOf g n = Nk_SwitchDefault \<Longrightarrow> kindOf g (input g n 0) = Nk_Switch"
    "kindOf g n = Nk_CallExcept \<Longrightarrow> isCallKind (kindOf g (input g n 0))"
  using assms by (auto simp: checkProjectionParent_def Let_def split: if_splits)

lemma checkOperandType_clean:
  "checkOperandType g n i want what = Some [] \<Longrightarrow> validId g i \<Longrightarrow> \<exists>t. resultTypeOf g i = Some t \<and> assignableCode t want"
  by (auto simp: checkOperandType_def)

lemma checkOperandTypes_clean:
  assumes "checkOperandTypes g n = Some []"
  shows "binaryOperandTypes (kindOf g n) = Some (a, b) \<Longrightarrow> 2 \<le> numInputs g n \<Longrightarrow> validId g (input g n 0) \<Longrightarrow> validId g (input g n 1) \<Longrightarrow>
      (\<exists>t. resultTypeOf g (input g n 0) = Some t \<and> assignableCode t (irCode a))
      \<and> (\<exists>t. resultTypeOf g (input g n 1) = Some t \<and> assignableCode t (irCode b))"
    and "binaryOperandTypes (kindOf g n) = None \<Longrightarrow> unaryOperandType (kindOf g n) = Some a \<Longrightarrow> 1 \<le> numInputs g n \<Longrightarrow>
      validId g (input g n 0) \<Longrightarrow> \<exists>t. resultTypeOf g (input g n 0) = Some t \<and> assignableCode t (irCode a)"
  using assms checkOperandType_clean
  by (fastforce simp: checkOperandTypes_def inOrder_clean operandAt_def simp del: One_nat_def)+

section \<open>Caller chains\<close>

inductive callerEnds :: "graph \<Rightarrow> nat \<Rightarrow> bool" for g where
  outermost: "callerEnds g kInvalidFrameState"
| caller: "d < frameStateCount g \<Longrightarrow> descHasLiveFs g d \<Longrightarrow> callerEnds g (fs_caller (frameState g d)) \<Longrightarrow> callerEnds g d"

lemma callerWalk_clean: "callerWalk g n steps cur = [] \<Longrightarrow> callerEnds g cur"
proof (induction g n steps cur rule: callerWalk.induct)
  case (1 g n steps cur)
  show ?case
  proof (cases "cur = kInvalidFrameState")
    case False
    then show ?thesis using 1 callerWalk.simps [of g n steps cur]
      by (auto split: if_splits intro: callerEnds.caller)
  qed (simp add: callerEnds.outermost)
qed

section \<open>Virtual objects\<close>

text \<open>References between virtual objects are well founded.\<close>

inductive vobjEnds :: "graph \<Rightarrow> node_id \<Rightarrow> bool" for g where
  vobj: "(\<And>s. s < numInputs g n \<Longrightarrow> isVobj g (input g n s) \<Longrightarrow> vobjEnds g (input g n s)) \<Longrightarrow> vobjEnds g n"

definition blacksEnd :: "graph \<Rightarrow> (node_id \<Rightarrow> nat) \<Rightarrow> bool" where
  "blacksEnd g color \<longleftrightarrow> (\<forall>x. color x \<in> {0, 1, 2} \<and> (color x = 2 \<longrightarrow> vobjEnds g x))"

text \<open>The slots before the remaining ones have been visited.\<close>

definition slotsBlack :: "graph \<Rightarrow> node_id \<Rightarrow> nat list \<Rightarrow> (node_id \<Rightarrow> nat) \<Rightarrow> bool" where
  "slotsBlack g n ss color \<longleftrightarrow> (\<forall>s < numInputs g n. s \<notin> set ss \<longrightarrow> isVobj g (input g n s) \<longrightarrow> color (input g n s) = 2)"

lemma vobjSlots_clean:
  assumes "fst (vobjSlots g n ss color) = []" "blacksEnd g color" "color n = 1" "slotsBlack g n ss color"
  shows "blacksEnd g (snd (vobjSlots g n ss color)) \<and> snd (vobjSlots g n ss color) n = 2
    \<and> (\<forall>x. color x \<noteq> 0 \<longrightarrow> x \<noteq> n \<longrightarrow> snd (vobjSlots g n ss color) x = color x)
    \<and> (\<forall>x. snd (vobjSlots g n ss color) x = 1 \<longrightarrow> color x = 1)"
  using assms
proof (induction g n ss color rule: vobjSlots.induct)
  case (1 g n color)
  have "vobjEnds g n"
    using 1 by (auto simp: slotsBlack_def blacksEnd_def intro: vobjEnds.vobj)
  then show ?case using 1 by (auto simp: blacksEnd_def vobjSlots.simps)
next
  case (2 g n s ss color)
  let ?f = "input g n s"
  consider (skip) "\<not> isVobj g ?f \<or> color ?f = 2" | (white) "isVobj g ?f" "color ?f = 0" | (gray) "isVobj g ?f" "color ?f = 1"
  proof -
    have "color ?f = 0 \<or> color ?f = 1 \<or> color ?f = 2" using 2(7) by (simp add: blacksEnd_def)
    then show thesis using skip white gray by blast
  qed
  then show ?case
  proof cases
    case skip
    have sb: "slotsBlack g n ss color" using 2(9) skip by (auto simp: slotsBlack_def)
    have r: "vobjSlots g n (s # ss) color = vobjSlots g n ss color" using skip by (auto simp: Let_def vobjSlots.simps)
    show ?thesis
    proof (cases "isVobj g ?f")
      case True
      then have c: "color ?f \<noteq> 1" "color ?f \<noteq> 0" using skip by auto
      have "fst (vobjSlots g n ss color) = []" using 2(6) by (simp only: r)
      with True c show ?thesis unfolding r using 2(5) [OF refl _ _ _ _ 2(7,8) sb] by blast
    next
      case False
      have "fst (vobjSlots g n ss color) = []" using 2(6) by (simp only: r)
      with False show ?thesis unfolding r using 2(1) [OF refl _ _ 2(7,8) sb] by blast
    qed
  next
    case gray
    then show ?thesis using 2(6) by (simp add: Let_def vobjSlots.simps)
  next
    case white
    let ?r1 = "vobjSlots g ?f [0..<numInputs g ?f] (color(?f := 1))"
    let ?r2 = "vobjSlots g n ss (snd ?r1)"
    have r: "vobjSlots g n (s # ss) color = (fst ?r1 @ fst ?r2, snd ?r2)" using white by (simp add: Let_def vobjSlots.simps)
    have ne: "?f \<noteq> n" using white 2(8) by auto
    let ?c = "color(?f := 1)"
    have fs: "fst ?r1 = []" "fst ?r2 = []" using 2(6) by (simp_all add: r)
    have b: "blacksEnd g ?c" using 2(7) by (auto simp: blacksEnd_def)
    have w1: "color ?f \<noteq> 1" using white(2) by simp
    have "slotsBlack g ?f [0..<numInputs g ?f] ?c" "?c ?f = 1" by (simp_all add: slotsBlack_def)
    then have IH: "blacksEnd g (snd ?r1) \<and> snd ?r1 ?f = 2 \<and> (\<forall>x. ?c x \<noteq> 0 \<longrightarrow> x \<noteq> ?f \<longrightarrow> snd ?r1 x = ?c x) \<and> (\<forall>x. snd ?r1 x = 1 \<longrightarrow> ?c x = 1)"
      using 2(3) [OF refl _ w1 white(2) fs(1) b] white(1) by blast
    then have c1: "blacksEnd g (snd ?r1)" "snd ?r1 ?f = 2" "\<And>x. ?c x \<noteq> 0 \<Longrightarrow> x \<noteq> ?f \<Longrightarrow> snd ?r1 x = ?c x"
      "\<And>x. snd ?r1 x = 1 \<Longrightarrow> ?c x = 1"
      by blast+
    have n1: "snd ?r1 n = 1" using c1(3) [of n] ne 2(8) by simp
    have sb: "slotsBlack g n ss (snd ?r1)"
      unfolding slotsBlack_def
    proof (intro allI impI)
      fix s' assume s': "s' < numInputs g n" "s' \<notin> set ss" "isVobj g (input g n s')"
      show "snd ?r1 (input g n s') = 2"
      proof (cases "s' = s \<or> input g n s' = ?f")
        case False
        then have "color (input g n s') = 2" using 2(9) s' by (auto simp: slotsBlack_def)
        then show ?thesis using c1(3) [of "input g n s'"] False by simp
      qed (use c1(2) in auto)
    qed
    have "blacksEnd g (snd ?r2) \<and> snd ?r2 n = 2 \<and> (\<forall>x. snd ?r1 x \<noteq> 0 \<longrightarrow> x \<noteq> n \<longrightarrow> snd ?r2 x = snd ?r1 x) \<and> (\<forall>x. snd ?r2 x = 1 \<longrightarrow> snd ?r1 x = 1)"
      using 2(4) [OF refl _ w1 white(2) refl fs(2) c1(1) n1 sb] white(1) by blast
    then have c2: "blacksEnd g (snd ?r2)" "snd ?r2 n = 2" "\<And>x. snd ?r1 x \<noteq> 0 \<Longrightarrow> x \<noteq> n \<Longrightarrow> snd ?r2 x = snd ?r1 x"
      "\<And>x. snd ?r2 x = 1 \<Longrightarrow> snd ?r1 x = 1"
      by blast+
    have "snd ?r2 x = color x" if "color x \<noteq> 0" "x \<noteq> n" for x
      using that white(2) c1(3) [of x] c2(3) [of x] by (cases "x = ?f") auto
    moreover have "color x = 1" if "snd ?r2 x = 1" for x
    proof -
      have "x \<noteq> ?f"
      proof
        assume "x = ?f"
        then have "snd ?r2 x = 2" using c2(3) [of ?f] c1(2) ne by simp
        then show False using that by simp
      qed
      then show ?thesis using c1(4) [OF c2(4) [OF that]] by simp
    qed
    ultimately show ?thesis using c2(1,2) unfolding r snd_conv by blast
  qed
qed


lemma checkVobjCycles_clean:
  assumes "checkVobjCycles g = []" "n < nodeCount g" "kindOf g n = Nk_VirtualObjectState"
  shows "vobjEnds g n"
proof -
  let ?step = "\<lambda>n (ds, color).
       if kindOf g n = Nk_VirtualObjectState \<and> color n = 0
       then let r = vobjSlots g n [0..<numInputs g n] (color(n := 1)) in (ds @ fst r, snd r) else (ds, color)"
  let ?inv = "\<lambda>ns ds color. ds = [] \<longrightarrow> blacksEnd g color \<and> (\<forall>x. color x \<noteq> 1)
    \<and> (\<forall>n \<in> set ns. kindOf g n = Nk_VirtualObjectState \<longrightarrow> color n = 2)"
  have "?inv ns (fst (fold ?step ns ([], \<lambda>_. 0))) (snd (fold ?step ns ([], \<lambda>_. 0)))" for ns
  proof (induction ns rule: rev_induct)
    case Nil
    show ?case by (simp add: blacksEnd_def)
  next
    case (snoc m ns)
    obtain ds color where st: "fold ?step ns ([], \<lambda>_. 0) = (ds, color)" by force
    let ?r = "vobjSlots g m [0..<numInputs g m] (color(m := 1))"
    show ?case
    proof (cases "kindOf g m = Nk_VirtualObjectState \<and> color m = 0")
      case False
      have "color m = 2" if "kindOf g m = Nk_VirtualObjectState" "ds = []"
      proof -
        have "blacksEnd g color" "color m \<noteq> 1" using snoc that(2) by (simp_all add: st)
        then have "color m = 0 \<or> color m = 2" unfolding blacksEnd_def by blast
        then show ?thesis using False that(1) by auto
      qed
      then show ?thesis using snoc False by (auto simp: st)
    next
      case True
      have "?inv (ns @ [m]) (ds @ fst ?r) (snd ?r)"
      proof (intro impI)
        assume e: "ds @ fst ?r = []"
        then have i: "blacksEnd g color" "\<And>x. color x \<noteq> 1" "\<And>n. n \<in> set ns \<Longrightarrow> kindOf g n = Nk_VirtualObjectState \<Longrightarrow> color n = 2"
          using snoc by (auto simp: st)
        have "blacksEnd g (color(m := 1))" using i(1) by (simp add: blacksEnd_def)
        then have r: "blacksEnd g (snd ?r) \<and> snd ?r m = 2 \<and> (\<forall>x. (color(m := 1)) x \<noteq> 0 \<longrightarrow> x \<noteq> m \<longrightarrow> snd ?r x = (color(m := 1)) x)
            \<and> (\<forall>x. snd ?r x = 1 \<longrightarrow> (color(m := 1)) x = 1)"
          using e vobjSlots_clean [of g m "[0..<numInputs g m]" "color(m := 1)"] by (simp add: slotsBlack_def)
        have "snd ?r x \<noteq> 1" for x using r i(2) [of x] by (cases "x = m") auto
        moreover have "snd ?r k = 2" if "k \<in> set (ns @ [m])" "kindOf g k = Nk_VirtualObjectState" for k
          using r that i(3) [of k] by (cases "k = m") auto
        ultimately show "blacksEnd g (snd ?r) \<and> (\<forall>x. snd ?r x \<noteq> 1)
          \<and> (\<forall>n \<in> set (ns @ [m]). kindOf g n = Nk_VirtualObjectState \<longrightarrow> snd ?r n = 2)" using r by blast
      qed
      then show ?thesis using True by (simp add: st Let_def)
    qed
  qed
  from this [of "[0..<nodeCount g]"] show ?thesis
    using assms by (auto simp: checkVobjCycles_def blacksEnd_def)
qed

section \<open>Memory chains\<close>

text \<open>The links a walk follows, and the nodes from which every walk back that meets no loop header ends.\<close>

definition memLink :: "graph \<Rightarrow> node_id \<Rightarrow> node_id \<Rightarrow> bool" where
  "memLink g t c \<longleftrightarrow> (\<exists>i < memChildren g t. c = memChild g t i) \<and> \<not> (kindOf g t = Nk_Phi \<and> c = t) \<and> validId g c
     \<and> c \<noteq> startNode g"

inductive chainEnds :: "graph \<Rightarrow> node_id \<Rightarrow> bool" for g where
  link: "producesMemoryState (kindOf g t) \<Longrightarrow> (\<And>c. memLink g t c \<Longrightarrow> \<not> isLoopHeaderPhi g c \<Longrightarrow> chainEnds g c) \<Longrightarrow> chainEnds g t"

text \<open>A link that has been dealt with: its target is done, or is a loop header still on the path.\<close>

definition settled :: "graph \<Rightarrow> nat \<Rightarrow> mem_walk \<Rightarrow> node_id \<Rightarrow> bool" where
  "settled g gen w c \<longleftrightarrow> mw_done w c = gen \<or> isLoopHeaderPhi g c \<and> c \<in> fst ` set (mw_stack w)"

text \<open>The children before the next one of every stack entry are settled, or are the entry above.\<close>

fun pathOk :: "graph \<Rightarrow> (node_id \<Rightarrow> bool) \<Rightarrow> node_id option \<Rightarrow> (node_id \<times> nat) list \<Rightarrow> bool" where
  "pathOk g S up [] = True"
| "pathOk g S up ((t, i) # rest) =
     ((\<forall>j < i. memLink g t (memChild g t j) \<longrightarrow> S (memChild g t j) \<or> up = Some (memChild g t j)) \<and> pathOk g S (Some t) rest)"

definition walkOk :: "graph \<Rightarrow> nat \<Rightarrow> mem_walk \<Rightarrow> bool" where
  "walkOk g gen w \<longleftrightarrow> distinct (map fst (mw_stack w)) \<and> (\<forall>x. mw_onPath w x = gen \<longleftrightarrow> x \<in> fst ` set (mw_stack w))
     \<and> (\<forall>x. mw_done w x = gen \<longrightarrow> x \<notin> fst ` set (mw_stack w) \<and> chainEnds g x \<and> (\<forall>c. memLink g x c \<longrightarrow> settled g gen w c))
     \<and> pathOk g (settled g gen w) None (mw_stack w)"

lemma pathOk_mono:
  "pathOk g S up st \<Longrightarrow> (\<And>c. S c \<Longrightarrow> S' c) \<Longrightarrow> (\<And>c. up = Some c \<Longrightarrow> S' c \<or> up' = Some c) \<Longrightarrow> pathOk g S' up' st"
proof (induction g S up st arbitrary: up' rule: pathOk.induct)
  case (2 g S up t i rest)
  have "pathOk g S' (Some t) rest" using 2(2) by (intro 2(1)) (auto simp: 2(3))
  moreover have "\<forall>j < i. memLink g t (memChild g t j) \<longrightarrow> S' (memChild g t j) \<or> up' = Some (memChild g t j)"
    using 2(2) 2(3,4) by (auto; blast)
  ultimately show ?case by simp
qed simp

definition seen :: "nat \<Rightarrow> mem_walk \<Rightarrow> node_id \<Rightarrow> bool" where
  "seen gen w x \<longleftrightarrow> mw_done w x = gen \<or> x \<in> fst ` set (mw_stack w)"

lemma pop_ok:
  assumes w: "walkOk g gen w" "mw_stack w = (t, i) # rest" and gen: "gen \<noteq> 0" and i: "memChildren g t \<le> i"
    and p: "producesMemoryState (kindOf g t)"
    and w': "w' = w\<lparr>mw_stack := rest, mw_onPath := (mw_onPath w)(t := 0), mw_done := (mw_done w)(t := gen)\<rparr>"
  shows "walkOk g gen w' \<and> (\<forall>x. seen gen w x \<longrightarrow> seen gen w' x)"
proof -
  have t: "t \<notin> fst ` set rest" "distinct (map fst rest)" using w by (auto simp: walkOk_def)
  have mono: "settled g gen w' c" if "settled g gen w c" for c
    using that by (auto simp: settled_def w' w(2))
  have path: "pathOk g (settled g gen w) None ((t, i) # rest)" using w by (simp add: walkOk_def)
  have link: "settled g gen w c" if l: "memLink g t c" for c
  proof -
    obtain j where "j < memChildren g t" "c = memChild g t j" using l by (auto simp: memLink_def)
    then show ?thesis using path l i by simp
  qed
  have "chainEnds g t"
  proof (rule chainEnds.link [OF p])
    fix c assume "memLink g t c" "\<not> isLoopHeaderPhi g c"
    then have "mw_done w c = gen" using link by (auto simp: settled_def)
    then show "chainEnds g c" using w(1) by (simp add: walkOk_def)
  qed
  then have d: "x \<notin> fst ` set rest \<and> chainEnds g x \<and> (\<forall>c. memLink g x c \<longrightarrow> settled g gen w' c)" if "mw_done w' x = gen" for x
    using that w t(1) link mono by (cases "x = t") (auto simp: walkOk_def w')
  have "pathOk g (settled g gen w') None rest"
    by (rule pathOk_mono [of _ "settled g gen w" "Some t"]) (use path mono in \<open>auto simp: settled_def w'\<close>)
  moreover have "mw_onPath w' x = gen \<longleftrightarrow> x \<in> fst ` set rest" for x
    using w t(1) gen by (auto simp: walkOk_def w')
  ultimately show ?thesis using t(2) d by (auto simp: walkOk_def w' seen_def w(2))
qed

lemma advance_ok:
  assumes w: "walkOk g gen w" "mw_stack w = (t, i) # rest"
    and c: "memLink g t (memChild g t i) \<longrightarrow> settled g gen w (memChild g t i)"
    and w': "w' = w\<lparr>mw_stack := (t, i + 1) # rest\<rparr>"
  shows "walkOk g gen w' \<and> (\<forall>x. seen gen w x \<longrightarrow> seen gen w' x)"
proof -
  have S: "settled g gen w' = settled g gen w" by (auto simp: settled_def w(2) w' fun_eq_iff)
  have "pathOk g (settled g gen w) None ((t, i + 1) # rest)"
    using w c by (auto simp: walkOk_def less_Suc_eq)
  then have "pathOk g (settled g gen w') None (mw_stack w')" unfolding S by (simp add: w')
  moreover have "mw_done w' = mw_done w" "mw_onPath w' = mw_onPath w" "fst ` set (mw_stack w') = fst ` set (mw_stack w)"
    "map fst (mw_stack w') = map fst (mw_stack w)"
    by (simp_all add: w' w(2))
  ultimately show ?thesis using w(1) by (simp add: walkOk_def S seen_def)
qed

lemma push_ok:
  assumes w: "walkOk g gen w" "mw_stack w = (t, i) # rest" and c: "mw_onPath w c \<noteq> gen" "mw_done w c \<noteq> gen" "c = memChild g t i"
    and w': "w' = w\<lparr>mw_stack := (c, 0) # (t, i + 1) # rest, mw_onPath := (mw_onPath w)(c := gen)\<rparr>"
  shows "walkOk g gen w' \<and> (\<forall>x. seen gen w x \<longrightarrow> seen gen w' x)"
proof -
  have nc: "c \<notin> fst ` set ((t, i) # rest)" using w c(1) by (auto simp: walkOk_def)
  have mono: "settled g gen w' x" if "settled g gen w x" for x
    using that by (auto simp: settled_def w' w(2))
  have "pathOk g (settled g gen w) None ((t, i) # rest)" using w by (simp add: walkOk_def)
  then have "pathOk g (settled g gen w') (Some c) ((t, i + 1) # rest)"
    using pathOk_mono [of g "settled g gen w" "Some t" rest "settled g gen w'" "Some t"] mono
    by (auto simp: less_Suc_eq c(3))
  then show ?thesis using w nc mono c(2) by (auto simp: walkOk_def w' seen_def)
qed

lemma chainStep_ok:
  assumes w: "walkOk g gen w" "mw_stack w = (t, i) # rest" and gen: "gen \<noteq> 0" and s: "chainStep g n gen t i rest w = ([], w')"
  shows "walkOk g gen w' \<and> (\<forall>x. seen gen w x \<longrightarrow> seen gen w' x)"
proof -
  let ?c = "memChild g t i"
  have p: "producesMemoryState (kindOf g t)"
    using s by (auto simp: chainStep_def producesMemoryState_def split: if_splits)
  consider (pop) "memChildren g t \<le> i"
      "w' = w\<lparr>mw_stack := rest, mw_onPath := (mw_onPath w)(t := 0), mw_done := (mw_done w)(t := gen)\<rparr>"
    | (skip) "w' = w\<lparr>mw_stack := (t, i + 1) # rest\<rparr>" "memLink g t ?c \<longrightarrow> settled g gen w ?c"
    | (push) "mw_onPath w ?c \<noteq> gen" "mw_done w ?c \<noteq> gen"
      "w' = w\<lparr>mw_stack := (?c, 0) # (t, i + 1) # rest, mw_onPath := (mw_onPath w)(?c := gen)\<rparr>"
  proof -
    have on: "mw_onPath w x = gen \<Longrightarrow> x \<in> fst ` set (mw_stack w)" for x using w(1) by (simp add: walkOk_def)
    show thesis
      using s pop skip push on [of ?c] by (auto simp: chainStep_def Let_def memLink_def settled_def split: if_splits)
  qed
  then show ?thesis
  proof cases
    case pop
    then show ?thesis using pop_ok [OF w gen _ p] by simp
  next
    case skip
    then show ?thesis using advance_ok [OF w skip(2,1)] by simp
  next
    case push
    then show ?thesis using push_ok [OF w push(1,2) refl] by simp
  qed
qed

lemma chainWalk_ok:
  assumes "walkOk g gen w" "gen \<noteq> 0" "chainWalk g n gen steps w = ([], w')"
  shows "walkOk g gen w' \<and> mw_stack w' = [] \<and> (\<forall>x. seen gen w x \<longrightarrow> seen gen w' x)"
  using assms
proof (induction g n gen steps w rule: chainWalk.induct)
  case (1 g n gen steps w)
  show ?case
  proof (cases "mw_stack w")
    case Nil
    then show ?thesis using 1 by (simp add: chainWalk.simps)
  next
    case (Cons e rest)
    obtain t i where e: "e = (t, i)" by force
    obtain ds w1 where s: "chainStep g n gen t i rest w = (ds, w1)" by force
    have r: "\<not> chainSteps g < steps" "ds = []" "chainWalk g n gen (steps + 1) w1 = ([], w')"
      using 1(4) Cons e s by (auto simp: chainWalk.simps [of g n gen steps w] split: if_splits)
    have s': "chainStep g n gen t i rest w = ([], w1)" using s r(2) by simp
    have o: "walkOk g gen w1 \<and> (\<forall>x. seen gen w x \<longrightarrow> seen gen w1 x)"
      using chainStep_ok [OF 1(2) _ 1(3) s'] Cons e by simp
    show ?thesis
      using 1(1) [OF Cons e [symmetric] r(1) refl s' [symmetric] _ _ 1(3) r(3)] o by auto
  qed
qed

text \<open>The outer loop: the stamps of earlier walks are smaller.\<close>

definition stampsBelow :: "nat \<Rightarrow> mem_walk \<Rightarrow> bool" where
  "stampsBelow k w \<longleftrightarrow> (\<forall>x. mw_onPath w x \<le> k \<and> mw_done w x \<le> k)"

lemma chainStep_stamps: "stampsBelow gen w \<Longrightarrow> stampsBelow gen (snd (chainStep g n gen t i rest w))"
  by (auto simp: chainStep_def Let_def stampsBelow_def)

lemma chainWalk_stamps: "stampsBelow gen w \<Longrightarrow> stampsBelow gen (snd (chainWalk g n gen steps w))"
proof (induction g n gen steps w rule: chainWalk.induct)
  case (1 g n gen steps w)
  show ?case
  proof (cases "mw_stack w")
    case (Cons e rest)
    obtain t i where e: "(t, i) = e" by (cases e) auto
    obtain ds w1 where s: "(ds, w1) = chainStep g n gen t i rest w" by (metis surj_pair)
    have "stampsBelow gen w1" using chainStep_stamps [OF 1(2), of g n t i rest] s by (metis snd_conv)
    then show ?thesis
      using 1 Cons e s 1(1) [OF Cons e _ refl s] by (auto simp: chainWalk.simps [of g n gen steps w] split: prod.split)
  qed (use 1 in \<open>simp add: chainWalk.simps\<close>)
qed

lemma unwindPath_stamps: "stampsBelow gen w \<Longrightarrow> stampsBelow gen (unwindPath w)"
proof -
  have "(\<forall>x. p x \<le> gen) \<Longrightarrow> fold (\<lambda>f p. p(fst f := 0)) st p x \<le> gen" for st :: "(node_id \<times> nat) list" and p x
    by (induction st arbitrary: p) auto
  then show "stampsBelow gen w \<Longrightarrow> stampsBelow gen (unwindPath w)" by (auto simp: stampsBelow_def unwindPath_def)
qed

text \<open>The memory input of a live node.\<close>

definition memInput :: "graph \<Rightarrow> node_id \<Rightarrow> node_id option" where
  "memInput g n = (case memSlotOf (info_ir (kindOf g n)) of
     Some s \<Rightarrow> if s < numInputs g n then Some (input g n s) else None | None \<Rightarrow> None)"

lemma checkChain_ok:
  assumes "checkChain g n (k, w) = ([], k', w')" "stampsBelow k w" "k + 1 < 2 ^ 32"
  shows "k \<le> k'" "k' \<le> k + 1" "stampsBelow k' w'"
    "\<not> isDead (node_at g n) \<Longrightarrow> memInput g n = Some i \<Longrightarrow> validId g i \<Longrightarrow> (memLink g)\<^sup>*\<^sup>* i c \<Longrightarrow> chainEnds g c"
proof -
  have "k \<le> k' \<and> k' \<le> k + 1 \<and> stampsBelow k' w' \<and> (\<forall>i c. \<not> isDead (node_at g n) \<longrightarrow> memInput g n = Some i \<longrightarrow> validId g i
      \<longrightarrow> (memLink g)\<^sup>*\<^sup>* i c \<longrightarrow> chainEnds g c)"
  proof (cases "isDead (node_at g n) \<or> memInput g n = None")
    case True
    then have "(k', w') = (k, w)"
      using assms(1) by (auto simp: checkChain_def Let_def memInput_def numInputs_def not_less split: if_splits option.splits)
    then show ?thesis using True assms(2) by auto
  next
    case False
    then obtain s where s: "memSlotOf (info_ir (kindOf g n)) = Some s" "s < numInputs g n" "\<not> isDead (node_at g n)"
      by (auto simp: memInput_def split: option.splits if_splits)
    define i where "i = input g n s"
    define w0 where "w0 = (if validId g i then w\<lparr>mw_stack := [(i, 0)], mw_onPath := (mw_onPath w)(i := k + 1)\<rparr> else w\<lparr>mw_stack := []\<rparr>)"
    have u: "u32 (k + 1) = k + 1" using assms(3) by simp
    obtain ds w1 where w1: "chainWalk g n (k + 1) 0 w0 = (ds, w1)" by force
    have "checkChain g n (k, w) = (ds, k + 1, unwindPath w1)"
      using s u w1 by (auto simp: checkChain_def Let_def w0_def i_def numInputs_def split: if_splits)
    then have r: "ds = []" "k' = k + 1" "w' = unwindPath w1" using assms(1) by auto
    have st: "stampsBelow (k + 1) w0" using assms(2) by (auto simp: stampsBelow_def w0_def le_SucI)
    have fresh: "mw_onPath w x \<noteq> k + 1" "mw_done w x \<noteq> k + 1" for x
      using assms(2) unfolding stampsBelow_def by (metis not_less_eq_eq order_refl Suc_eq_plus1)+
    have "walkOk g (k + 1) w0"
      using fresh by (simp add: walkOk_def w0_def)
    then have f: "walkOk g (k + 1) w1 \<and> mw_stack w1 = [] \<and> (\<forall>x. seen (k + 1) w0 x \<longrightarrow> seen (k + 1) w1 x)"
      using chainWalk_ok [of g "k + 1" w0 n 0 w1] w1 r(1) by simp
    have "chainEnds g c" if v: "validId g i" and c: "(memLink g)\<^sup>*\<^sup>* i c" for c
    proof -
      have "mw_done w1 i = k + 1" using f v by (auto simp: seen_def w0_def)
      with c have "mw_done w1 c = k + 1"
        by (induction rule: rtranclp_induct) (use f in \<open>auto simp: walkOk_def settled_def\<close>)
      then show ?thesis using f by (simp add: walkOk_def)
    qed
    moreover have "memInput g n = Some i" using s by (simp add: memInput_def i_def)
    ultimately show ?thesis
      using r unwindPath_stamps chainWalk_stamps [OF st, of g n 0] w1 by simp
  qed
  then show "k \<le> k'" "k' \<le> k + 1" "stampsBelow k' w'"
    "\<not> isDead (node_at g n) \<Longrightarrow> memInput g n = Some i \<Longrightarrow> validId g i \<Longrightarrow> (memLink g)\<^sup>*\<^sup>* i c \<Longrightarrow> chainEnds g c"
    by blast+
qed

lemma checkChains_ok:
  "checkChains g ns (k, w) = [] \<Longrightarrow> stampsBelow k w \<Longrightarrow> k + length ns < 2 ^ 32 \<Longrightarrow> n \<in> set ns \<Longrightarrow> \<not> isDead (node_at g n) \<Longrightarrow>
   memInput g n = Some i \<Longrightarrow> validId g i \<Longrightarrow> (memLink g)\<^sup>*\<^sup>* i c \<Longrightarrow> chainEnds g c"
proof (induction ns arbitrary: k w)
  case (Cons m ns)
  obtain ds k' w' where c: "checkChain g m (k, w) = (ds, k', w')" by (metis surj_pair)
  have d: "ds = []" "checkChains g ns (k', w') = []" using Cons.prems(1) by (auto simp: c)
  note o = checkChain_ok [OF c [unfolded d(1)] Cons.prems(2)]
  show ?case
  proof (cases "n = m")
    case True
    then show ?thesis using o(4) Cons.prems by auto
  next
    case False
    then show ?thesis using Cons.IH [OF d(2) o(3)] o(1,2) Cons.prems by auto
  qed
qed simp

lemma verified_memory:
  assumes "graphVerified g" "n < nodeCount g" "\<not> isDead (node_at g n)" "memInput g n = Some i" "validId g i" "(memLink g)\<^sup>*\<^sup>* i c"
  shows "chainEnds g c"
proof -
  have "nodeCount g < 2 ^ 32" by (simp add: nodeCount_def u32_def)
  then show ?thesis
    using verified_checks(2) [OF assms(1)] assms(2-) checkChains_ok [of g "[0..<nodeCount g]" 0 _ n i c]
    by (simp add: checkMemoryChains_def stampsBelow_def)
qed

end
