(* ===== verification/Ir_VerifierProps.thy ===== *)
theory Ir_VerifierProps
  imports Ir_VerifierOk Ir_Build "HOL-Library.Code_Target_Nat"
begin

text \<open>
  The properties of the verifier of the IR: what an accepted graph looks like, when the verifier
  returns, and a class of legal graphs it rejects.
\<close>

section \<open>Rows the operand checks rely on\<close>

text \<open>A row is looked up in its group of the registry.\<close>

lemma reg_lengths:
  "length regControl = 15" "length regMemory = 15" "length regCalls = 6" "length regTypeOps = 2" "length regGuards = 1"
  "length regConstants = 7" "length regInt = 12" "length regLong = 12" "length regFloat = 6" "length regDouble = 6"
  "length regCompare = 6" "length regConvert = 23" "length regMerge = 1" "length regVector = 9" "length regVirtual = 2"
  "length regTagged = 3" "length regState = 1"
  by (simp_all add: registry_defs)

lemma info_ir_code [code]:
  "info_ir k =
     (if k < nodeKindCount then
       (if k < 15 then regControl ! k else let k = k - 15 in
        if k < 15 then regMemory ! k else let k = k - 15 in
        if k < 6 then regCalls ! k else let k = k - 6 in
        if k < 2 then regTypeOps ! k else let k = k - 2 in
        if k < 1 then regGuards ! k else let k = k - 1 in
        if k < 7 then regConstants ! k else let k = k - 7 in
        if k < 12 then regInt ! k else let k = k - 12 in
        if k < 12 then regLong ! k else let k = k - 12 in
        if k < 6 then regFloat ! k else let k = k - 6 in
        if k < 6 then regDouble ! k else let k = k - 6 in
        if k < 6 then regCompare ! k else let k = k - 6 in
        if k < 23 then regConvert ! k else let k = k - 23 in
        if k < 1 then regMerge ! k else let k = k - 1 in
        if k < 9 then regVector ! k else let k = k - 9 in
        if k < 2 then regVirtual ! k else let k = k - 2 in
        if k < 3 then regTagged ! k else let k = k - 3 in
        if k < 1 then regState ! k else let k = k - 1 in
        regTests ! k) else kBadNodeInfo)"
  by (simp only: info_ir_def kRegistry_def nth_append reg_lengths Let_def)

declare report_def [code_unfold]

lemma binary_arity: "binaryOperandTypes k = Some ab \<Longrightarrow> minInputsOf (info_ir k) = 2"
  by (auto simp: binaryOperandTypes_def split: if_splits)
    (simp_all add: info_ir_code nodeKindCount_def regInt_def regLong_def regFloat_def regDouble_def regCompare_def
      regTests_def makeRow_def minInputsOf_def)

lemma unary_arity: "unaryOperandType k = Some a \<Longrightarrow> minInputsOf (info_ir k) = 1"
  by (auto simp: unaryOperandType_def split: if_splits)
    (simp_all add: info_ir_code nodeKindCount_def regInt_def regLong_def regFloat_def regDouble_def regConvert_def
      regTests_def makeRow_def minInputsOf_def)

lemma projection_arity:
  "k \<in> {Nk_Phi, Nk_IfTrue, Nk_IfFalse, Nk_SwitchCase, Nk_SwitchDefault, Nk_CallExcept} \<Longrightarrow> 1 \<le> minInputsOf (info_ir k)"
  by auto (simp_all add: info_ir_code nodeKindCount_def regMerge_def regControl_def regCalls_def makeRow_def minInputsOf_def)

section \<open>Properties\<close>

text \<open>The inputs of a node of an accepted graph.\<close>

definition inputsWell :: "graph \<Rightarrow> node_id \<Rightarrow> bool" where
  "inputsWell g n \<longleftrightarrow> (\<forall>s < numInputs g n. validId g (input g n s) \<and> \<not> isDead (node_at g (input g n s))
     \<and> (input g n s = n \<longrightarrow> kindOf g n = Nk_Phi \<and> 1 \<le> s) \<and> roleAccepts g (slotRole g n s) (input g n s))"

definition shapeWell :: "graph \<Rightarrow> node_id \<Rightarrow> bool" where
  "shapeWell g n \<longleftrightarrow> minInputsOf (info_ir (kindOf g n)) \<le> numInputs g n
     \<and> (\<not> ni_variadic (info_ir (kindOf g n)) \<longrightarrow> numInputs g n = minInputsOf (info_ir (kindOf g n)))
     \<and> (kindOf g n = Nk_Phi \<longrightarrow> kindOf g (input g n 0) \<in> {Nk_Region, Nk_LoopBegin} \<and> numInputs g n = numInputs g (input g n 0) + 1)
     \<and> (kindOf g n \<in> {Nk_IfTrue, Nk_IfFalse} \<longrightarrow> kindOf g (input g n 0) = Nk_If)
     \<and> (kindOf g n \<in> {Nk_SwitchCase, Nk_SwitchDefault} \<longrightarrow> kindOf g (input g n 0) = Nk_Switch)
     \<and> (kindOf g n = Nk_CallExcept \<longrightarrow> isCallKind (kindOf g (input g n 0)))"

text \<open>Every operand of arithmetic has a type, and it fits.\<close>

definition operandFits :: "graph \<Rightarrow> node_id \<Rightarrow> nat \<Rightarrow> irtype \<Rightarrow> bool" where
  "operandFits g n s a \<longleftrightarrow> (\<exists>t. resultTypeOf g (input g n s) = Some t \<and> assignableCode t (irCode a))"

definition operandsWell :: "graph \<Rightarrow> node_id \<Rightarrow> bool" where
  "operandsWell g n \<longleftrightarrow>
     (case binaryOperandTypes (kindOf g n) of
        Some (a, b) \<Rightarrow> numInputs g n = 2 \<and> operandFits g n 0 a \<and> operandFits g n 1 b
      | None \<Rightarrow> (case unaryOperandType (kindOf g n) of
          Some a \<Rightarrow> numInputs g n = 1 \<and> operandFits g n 0 a | None \<Rightarrow> True))"

lemma arithmetic_rows:
  "binaryOperandTypes k = Some ab \<Longrightarrow> \<not> ni_variadic (info_ir k)" "unaryOperandType k = Some a \<Longrightarrow> \<not> ni_variadic (info_ir k)"
  by (auto simp: binaryOperandTypes_def unaryOperandType_def split: if_splits)
    (simp_all add: info_ir_code nodeKindCount_def regInt_def regLong_def regFloat_def regDouble_def regCompare_def
      regConvert_def regTests_def makeRow_def)

lemma verified_node:
  assumes "checkNode g n = Some []"
  shows "inputsWell g n" "shapeWell g n" "operandsWell g n"
proof -
  note c = checkNode_clean [OF assms]
  note sig = checkSignature_clean [OF c(3)]
  show i: "inputsWell g n"
    using checkInput_clean [OF c(2)] checkRole_clean [OF c(4)] unfolding inputsWell_def by blast
  then have v: "validId g (input g n s)" if "s < numInputs g n" for s using that by (simp add: inputsWell_def)
  have p: "1 \<le> numInputs g n \<and> validId g (input g n 0)"
    if "kindOf g n \<in> {Nk_Phi, Nk_IfTrue, Nk_IfFalse, Nk_SwitchCase, Nk_SwitchDefault, Nk_CallExcept}"
    using projection_arity [OF that] sig v [of 0] by linarith
  show "shapeWell g n"
    using sig p checkMerge_clean(1) [OF c(7)] checkParent_clean [OF c(6)] unfolding shapeWell_def by blast
  show "operandsWell g n"
  proof (cases "binaryOperandTypes (kindOf g n)")
    case (Some ab)
    then have "numInputs g n = 2" using sig binary_arity arithmetic_rows(1) by metis
    then show ?thesis
      using Some checkOperandTypes_clean(1) [OF c(8), of "fst ab" "snd ab"] v [of 0] v [of 1]
      by (auto simp: operandsWell_def operandFits_def split: prod.split)
  next
    case None
    have "numInputs g n = 1" if "unaryOperandType (kindOf g n) = Some a" for a
      using sig unary_arity [OF that] arithmetic_rows(2) [OF that] by metis
    then show ?thesis
      using None checkOperandTypes_clean(2) [OF c(8) None] v [of 0]
      by (auto simp: operandsWell_def operandFits_def split: option.split)
  qed
qed

text \<open>Property C15. A graph the verifier accepts is well formed: every input of every node is a live node of the
  graph (the node itself only as a value input of a phi) that produces what the role of its slot asks
  for; input counts, phis and projections have the shape of the registry; and the operands of
  arithmetic, comparisons and conversions have types, and they fit.\<close>

theorem verified_graph_wellformed:
  assumes "graphVerified g" "n < nodeCount g"
  shows "inputsWell g n \<and> shapeWell g n \<and> operandsWell g n"
  using verified_node verified_checks(1) [OF assms] by blast


section \<open>Phis of nested loops\<close>

text \<open>A set of phis each of which reads another one of the set.\<close>

definition phiRing :: "graph \<Rightarrow> node_id set \<Rightarrow> bool" where
  "phiRing g C \<longleftrightarrow> (\<forall>p \<in> C. validId g p \<and> kindOf g p = Nk_Phi \<and> (\<exists>s. 1 \<le> s \<and> s < numInputs g p \<and> input g p s \<in> C - {p}))"

lemma ring_offender:
  "phiRing g C \<Longrightarrow> phi \<in> C \<Longrightarrow> (\<exists>s \<in> set ss. input g phi s \<in> C - {phi}) \<Longrightarrow> phiInputsOffender g phi ss depth \<noteq> kInvalidNodeId"
proof (induction g phi ss depth rule: phiInputsOffender.induct)
  case (2 g phi s ss depth)
  let ?i = "input g phi s"
  show ?case
  proof (cases "?i \<in> C - {phi}")
    case True
    then obtain t where i: "?i \<noteq> phi" "validId g ?i" "kindOf g ?i = Nk_Phi" "1 \<le> t" "t < numInputs g ?i" "input g ?i t \<in> C - {?i}"
      using 2(3) unfolding phiRing_def by blast
    have "phiInputsOffender g ?i [1..<numInputs g ?i] (depth + 1) \<noteq> kInvalidNodeId" if "\<not> depth + 1 > phiDepth g"
    proof -
      have "\<exists>s \<in> set [1..<numInputs g ?i]. input g ?i s \<in> C - {?i}" using i(4-6) by force
      then show ?thesis using 2(1) [OF refl _ i(3) that 2(3)] i(1,2) True by blast
    qed
    moreover have "?i \<noteq> kInvalidNodeId" using i(2) by (simp add: validId_def)
    ultimately show ?thesis using i(1-3) by (simp add: Let_def)
  next
    case False
    then have later: "\<exists>s \<in> set ss. input g phi s \<in> C - {phi}" using 2(5) by auto
    define off where "off = (if ?i = phi \<or> \<not> validId g ?i then kInvalidNodeId
      else if kindOf g ?i = Nk_Phi
      then (if depth + 1 > phiDepth g then ?i else phiInputsOffender g ?i [1..<numInputs g ?i] (depth + 1))
      else if producesMemoryState (kindOf g ?i) then kInvalidNodeId else ?i)"
    have "phiInputsOffender g phi (s # ss) depth = (if off \<noteq> kInvalidNodeId then off else phiInputsOffender g phi ss depth)"
      by (simp add: off_def Let_def)
    then show ?thesis using 2(2) [OF refl off_def _ 2(3,4) later] by (auto split: if_splits)
  qed
qed simp

text \<open>Property C19. The verifier rejects memory phis that read each other. The header phi of an outer loop whose
  body changes memory only in an inner loop reads the header phi of the inner loop, which reads the
  outer one at its entry; any use of such a phi as a memory input is reported, because the recursion
  over nested phis has no visited set and counts its depth instead.\<close>

theorem memory_phi_ring_rejected:
  assumes "phiRing g C" "n < nodeCount g" "s < numInputs g n" "slotRole g n s = IR_Mem" "input g n s \<in> C"
  shows "\<not> graphVerified g"
proof
  assume v: "graphVerified g"
  let ?p = "input g n s"
  obtain t where p: "validId g ?p" "kindOf g ?p = Nk_Phi" "1 \<le> t" "t < numInputs g ?p" "input g ?p t \<in> C - {?p}"
    using assms(1,5) unfolding phiRing_def by blast
  have "\<exists>t \<in> set [1..<numInputs g ?p]. input g ?p t \<in> C - {?p}" using p(3-5) by force
  then have off: "memoryPhiOffender g ?p 0 \<noteq> kInvalidNodeId"
    using ring_offender [OF assms(1,5), of _ 0] by (simp add: memoryPhiOffender_def)
  have "checkRole g n s = []" using checkNode_clean(4) [OF verified_checks(1) [OF v assms(2)] assms(3)] .
  then show False using off p(1,2) assms(4) by (simp add: checkRole_def Let_def producesMemoryState_def)
qed

section \<open>Returning\<close>

lemma inOrder_map_returns: "(\<And>n. f n \<noteq> None) \<Longrightarrow> inOrder (map f ns) \<noteq> None"
proof (induction ns)
  case (Cons n ns)
  obtain ds where "f n = Some ds" using Cons.prems [of n] by blast
  then show ?case using Cons by (auto simp: inOrder.simps)
qed (simp add: inOrder.simps)

lemma checkOperandType_returns: "(\<And>i. resultTypeOf g i \<noteq> None) \<Longrightarrow> checkOperandType g n i want what \<noteq> None"
  by (auto simp: checkOperandType_def)

lemma operandAt_returns: "(\<And>i. resultTypeOf g i \<noteq> None) \<Longrightarrow> operandAt g n need slot want what \<noteq> None"
  by (simp add: operandAt_def checkOperandType_returns del: not_None_eq)

lemma checks_return:
  assumes t: "\<And>i. resultTypeOf g i \<noteq> None"
  shows "checkNode g n \<noteq> None" "checkVector g n \<noteq> None"
proof -
  note [simp] = operandAt_returns [OF t, THEN not_sym] checkOperandType_returns [OF t, THEN not_sym]
    operandAt_returns [OF t] checkOperandType_returns [OF t]
  have "checkOtherOperands g n \<noteq> None"
    by (auto simp: checkOtherOperands_def Let_def inOrder_returns simp del: not_None_eq)
  then have "checkOperandTypes g n \<noteq> None"
    by (auto simp: checkOperandTypes_def inOrder_returns simp del: not_None_eq split: option.split prod.split)
  then show "checkNode g n \<noteq> None" by (auto simp: checkNode_def Let_def inOrder_returns simp del: not_None_eq)
  obtain vt where vt: "resultTypeOf g (input g n 0) = Some vt" using t by blast
  have "checkVectorPack g n \<noteq> None" "checkVectorBroadcast g n \<noteq> None" "checkVectorMemory g n \<noteq> None" "checkVectorReduce g n \<noteq> None"
    by (auto simp: checkVectorPack_def checkVectorBroadcast_def checkVectorMemory_def checkVectorReduce_def Let_def inOrder_returns
        simp del: not_None_eq)
  moreover have "checkVectorElement g n \<noteq> None"
    by (auto simp: checkVectorElement_def Let_def inOrder_returns vt simp del: not_None_eq)
  moreover have "checkVectorOp g n \<noteq> None"
    by (auto simp: checkVectorOp_def Let_def inOrder_returns simp del: not_None_eq)
  ultimately show "checkVector g n \<noteq> None" by (simp add: checkVector_def Let_def del: not_None_eq)
qed

text \<open>Property C20. The verifier returns with at most a hundred diagnostics, provided the types of all nodes are
  computed; and it accepts exactly when no check reports anything. On a graph in which arithmetic
  reads a phi whose type computation does not return, the verifier does not return either.\<close>

theorem verifier_returns:
  "((\<forall>i. resultTypeOf g i \<noteq> None) \<longrightarrow> (\<exists>ds. verifyGraph g = Some ds \<and> length ds \<le> 100 \<and> (ds = [] \<longleftrightarrow> irDiags g = Some [])))
   \<and> (n < nodeCount g \<longrightarrow> binaryOperandTypes (kindOf g n) = Some ab \<longrightarrow> 2 \<le> numInputs g n \<longrightarrow> validId g (input g n 0) \<longrightarrow>
      resultTypeOf g (input g n 0) = None \<longrightarrow> verifyGraph g = None)"
proof (intro conjI impI)
  assume t: "\<forall>i. resultTypeOf g i \<noteq> None"
  then have c: "checkNode g n \<noteq> None" "checkVector g n \<noteq> None" for n using checks_return by blast+
  have v: "inOrder [checkVector g n, Some (checkTagged g n)] \<noteq> None" for n
    using c(2) [of n] by (auto simp: inOrder_returns)
  obtain a b where "inOrder (map (checkNode g) [0..<nodeCount g]) = Some a"
    "inOrder (map (\<lambda>n. inOrder [checkVector g n, Some (checkTagged g n)]) [0..<nodeCount g]) = Some b"
    using inOrder_map_returns [of "checkNode g"] inOrder_map_returns [of "\<lambda>n. inOrder [checkVector g n, Some (checkTagged g n)]"] c(1) v by blast
  then have "irDiags g \<noteq> None"
    by (simp add: irDiags_def Let_def inOrder_returns)
  then obtain es where es: "irDiags g = Some es" by blast
  show "\<exists>ds. verifyGraph g = Some ds \<and> length ds \<le> 100 \<and> (ds = [] \<longleftrightarrow> irDiags g = Some [])"
    using foldl_irSink_length [of "[]" es] by (simp add: verifyGraph_def es foldl_irSink_Nil kMaxIrDiags_def)
next
  assume n: "n < nodeCount g" "binaryOperandTypes (kindOf g n) = Some ab" "2 \<le> numInputs g n" "validId g (input g n 0)"
    "resultTypeOf g (input g n 0) = None"
  have "checkOperandTypes g n = None"
    using n(2-5) by (auto simp: checkOperandTypes_def inOrder_returns operandAt_def checkOperandType_def split: prod.split)
  then have "checkNode g n = None" by (auto simp: checkNode_def Let_def inOrder_returns)
  then have "inOrder (map (checkNode g) [0..<nodeCount g]) = None" using n(1) by (force simp: inOrder_returns)
  then show "verifyGraph g = None" by (simp add: verifyGraph_def irDiags_def Let_def inOrder.simps)
qed

section \<open>Examples\<close>

text \<open>A graph with an addition, a barrier, a virtual object and a frame state that lists it.\<close>

definition fine1 :: graph where "fine1 = fst (makeRaw Nk_Parameter [] 0 (irCode IT_Int) 0 newGraph)"
definition fine2 :: graph where "fine2 = fst (makeRaw Nk_AddI [1, 1] 0 0 0 fine1)"
definition fine3 :: graph where "fine3 = fst (makeRaw Nk_MemBar [0, 0] 0 0 0 fine2)"
definition fine4 :: graph where "fine4 = fst (makeRaw Nk_VirtualObjectState [2] 7 0 0 fine3)"
definition fine5 :: graph where "fine5 = fst (makeFrameState 3 4 [2] kInvalidFrameState [4] fine4)"
definition fine :: graph where "fine = fst (makeRaw Nk_Return [3, 2] 0 0 0 fine5)"

lemma fine_verified: "graphVerified fine"
  by code_simp

lemma fine_facts: "nodeCount fine = 7" "kindOf fine 2 = Nk_AddI" "input fine 2 1 = 1" "\<not> isDead (node_at fine 3)"
  "memInput fine 3 = Some 0" "liveFrameState fine 5" "nd_payload (node_at fine 5) = 0" "kindOf fine 4 = Nk_VirtualObjectState"
  by code_simp+

theorem verified_graph_wellformed_witness: "inputsWell fine 2 \<and> shapeWell fine 2 \<and> operandsWell fine 2"
  using verified_graph_wellformed [OF fine_verified, of 2] by (simp add: fine_facts)


text \<open>Two loops: the header phi of the outer one (5) reads that of the inner one (6), and a barrier in the inner
  loop reads the inner phi.\<close>

definition ring1 :: graph where "ring1 = fst (makeRaw Nk_LoopBegin [0] 0 0 0 newGraph)"
definition ring2 :: graph where "ring2 = fst (makeRaw Nk_LoopBegin [1] 0 0 0 ring1)"
definition ring3 :: graph where "ring3 = fst (makeRaw Nk_LoopEnd [2] 0 0 0 ring2)"
definition ring4 :: graph where "ring4 = appendInput 2 3 (appendInput 1 3 ring3)"
definition ring5 :: graph where "ring5 = fst (makeRaw Nk_Phi [1, 0] 0 0 0 ring4)"
definition ring6 :: graph where "ring6 = fst (makeRaw Nk_Phi [2, 4] 0 0 0 ring5)"
definition ring7 :: graph where "ring7 = fst (makeRaw Nk_MemBar [2, 5] 0 0 0 ring6)"
definition ring :: graph where "ring = appendInput 4 5 (appendInput 5 6 ring7)"

lemma ring_facts: "nodeCount ring = 7" "kindOf ring 4 = Nk_Phi" "kindOf ring 5 = Nk_Phi" "numInputs ring 4 = 3" "numInputs ring 5 = 3"
  "input ring 4 2 = 5" "input ring 5 1 = 4" "numInputs ring 6 = 2" "slotRole ring 6 1 = IR_Mem" "input ring 6 1 = 5"
  "validId ring 4" "validId ring 5"
  by code_simp+

theorem memory_phi_ring_rejected_witness: "\<not> graphVerified ring"
proof (rule memory_phi_ring_rejected [of ring "{4, 5}" 6 1])
  have "1 \<le> (2 :: nat) \<and> (2 :: nat) < numInputs ring 4 \<and> input ring 4 2 \<in> {4, 5} - {4}" "1 \<le> (1 :: nat) \<and> 1 < numInputs ring 5 \<and> input ring 5 1 \<in> {4, 5} - {5}"
    using ring_facts by simp_all
  then show "phiRing ring {4, 5}" unfolding phiRing_def using ring_facts(2,3,11,12) by blast
qed (use ring_facts in simp_all)

text \<open>An addition that reads a phi that reads itself.\<close>

definition spin1 :: graph where "spin1 = fst (makeRaw Nk_Phi [0, 1] 0 0 0 newGraph)"
definition spin :: graph where "spin = fst (makeRaw Nk_AddI [1, 1] 0 0 0 spin1)"

lemma spin_facts: "nodeCount spin = 3" "kindOf spin 1 = Nk_Phi" "kindOf spin 2 = Nk_AddI" "numInputs spin 1 = 2" "numInputs spin 2 = 2"
  "input spin 1 1 = 1" "input spin 2 0 = 1" "validId spin 1" "binaryOperandTypes Nk_AddI = Some (IT_Int, IT_Int)"
  by code_simp+

theorem verifier_returns_witness:
  "(\<exists>ds. verifyGraph newGraph = Some ds \<and> length ds \<le> 100 \<and> (ds = [] \<longleftrightarrow> irDiags newGraph = Some [])) \<and> verifyGraph spin = None"
proof -
  have "nd_kind (node_at newGraph i) = Nk_Start" for i
    by (simp add: node_at_def newGraph_def makeRaw_def emptyGraph_def Let_def defaultNode_def)
  then have "\<forall>i. resultTypeOf newGraph i \<noteq> None" by (simp add: resultTypeOf_own)
  moreover have "resultTypeOf spin 1 = None" by (rule self_phi_no_type [of _ _ 1]) (use spin_facts in simp_all)
  ultimately show ?thesis
    using verifier_returns [of newGraph 0 undefined] verifier_returns [of spin 2 "(IT_Int, IT_Int)"] spin_facts by simp
qed

end
