(* ===== verification/Ir_SerializeProps.thy ===== *)
theory Ir_SerializeProps
  imports Ir_ReplayView Ir_VerifierProps
begin

text \<open>
  The properties of the serializer: an accepted graph survives the round trip, and an artifact that was
  cut short anywhere is refused.
\<close>

section \<open>Bytes behind what is read\<close>

text \<open>A reader that succeeds does not look at the bytes behind those it consumes.\<close>

lemma readRecord_extends: "readRecord bs = Some (r, rest) \<Longrightarrow> readRecord (bs @ ext) = Some (r, rest @ ext)"
  unfolding readRecord_def by (auto simp: bind_eq_Some_conv wire16.get_extends wire32.get_extends wire64.get_extends)

lemma orFail_Inr: "orFail msg r k = Inr v \<longleftrightarrow> (\<exists>a. r = Some a \<and> k a = Inr v)"
  by (auto simp: orFail_def split: option.splits)

lemma failIf_Inr: "failIf b msg k = Inr v \<longleftrightarrow> \<not> b \<and> k = Inr v"
  by (simp add: failIf_def)

lemma andThen_Inr: "andThen r k = Inr v \<longleftrightarrow> (\<exists>a. r = Inr a \<and> k a = Inr v)"
  by (auto simp: andThen_def split: sum.splits)

lemmas reads = orFail_Inr failIf_Inr andThen_Inr

lemma readNode_extends: "readNode i bs g = Inr (ins, rest, h) \<Longrightarrow> readNode i (bs @ ext) g = Inr (ins, rest @ ext, h)"
  unfolding readNode_def by (cases "i = 0") (auto simp: reads Let_def split_beta readRecord_extends cursorMany_extends)

lemma readNodes_extends: "readNodes is bs g = Inr (pending, rest, h) \<Longrightarrow> readNodes is (bs @ ext) g = Inr (pending, rest @ ext, h)"
proof (induction "is" arbitrary: bs g pending)
  case (Cons i "is")
  then obtain ins bs' g' ps where "readNode i bs g = Inr (ins, bs', g')" "readNodes is bs' g' = Inr (ps, rest, h)" "pending = ins # ps"
    by (auto simp: reads)
  then show ?case using Cons.IH [of bs' g' ps] readNode_extends [of i bs g ins bs' g' ext] by (simp add: andThen_def)
qed simp

text \<open>The entry readers.\<close>

definition extends :: "(nat \<Rightarrow> bytes \<Rightarrow> graph \<Rightarrow> string + (bytes \<times> graph)) \<Rightarrow> bool" where
  "extends f \<longleftrightarrow> (\<forall>i bs g rest h ext. f i bs g = Inr (rest, h) \<longrightarrow> f i (bs @ ext) g = Inr (rest @ ext, h))"

lemma entries_extend: "extends readFrameState" "extends readSpecMeta" "extends readDependency" "extends (readReplacement N)"
  unfolding extends_def readFrameState_def readSpecMeta_def readDependency_def readReplacement_def
  by (auto simp: reads Let_def split_beta cursorMany_extends)

lemma readEntries_extends:
  "extends f \<Longrightarrow> readEntries f is bs g = Inr (rest, h) \<Longrightarrow> readEntries f is (bs @ ext) g = Inr (rest @ ext, h)"
  by (induction "is" arbitrary: bs g) (auto simp: reads extends_def)

lemma readTable_extends:
  "extends f \<Longrightarrow> readTable msg f (bs, g) = Inr (rest, h) \<Longrightarrow> readTable msg f (bs @ ext, g) = Inr (rest @ ext, h)"
  by (auto simp: readTable_def reads wire32.get_extends readEntries_extends)

lemma readHeader_extends: "readHeader bs = Inr (n, rest) \<Longrightarrow> readHeader (bs @ ext) = Inr (n, rest @ ext)"
  unfolding readHeader_def by (auto simp: reads cursorMany_extends wire32.get_extends)

lemma replayGraph_extends: "replayGraph bs g = Inr (rest, h) \<Longrightarrow> replayGraph (bs @ ext) g = Inr (rest @ ext, h)"
  unfolding replayGraph_def
  by (auto simp: reads readHeader_extends readNodes_extends readTable_extends entries_extend)

lemma replayGraph_serialize: "serializable g \<Longrightarrow> replayGraph (serialize g @ extra) newGraph = Inr (extra, replayed g)"
  using replayGraph_extends [of "serialize g" newGraph "[]" "replayed g" extra] replay_serialize [of g "[]"]
  by (auto simp: replayed_def)

section \<open>Properties\<close>

text \<open>Property C17. Serializing a graph and loading the bytes gives a graph with the same content, if the verifier
  accepts the original; otherwise the load is refused. The content is the same nodes but for the places of their slices in the edge pool, the same inputs, frame
  states, speculation records, dependencies and replacement log, with exact use lists. Serializing the
  loaded graph gives the same bytes again. Bytes behind the artifact are ignored.\<close>

theorem serialize_roundtrip:
  assumes "serializable g"
  shows "\<exists>h. deserializeInto (serialize g @ extra) newGraph
        = map_option (\<lambda>ds. if ds = [] then Inr h else Inl ''replayed graph failed verification'') (verifyGraph g)
      \<and> sameContent g h \<and> graphOk h \<and> frameTableOk h \<and> verifyGraph h = verifyGraph g \<and> serialize h = serialize g"
  using replayGraph_serialize [OF assms, of extra] replayed_ok [OF assms] serialize_replayed [OF assms] verifyGraph_replayed [OF assms]
  by (intro exI [of _ "replayed g"]) (simp add: deserializeInto_def)

text \<open>Property C18. An artifact that lost bytes at its end is refused with a message, wherever it was cut.\<close>

theorem truncated_artifact_rejected:
  assumes "serializable g" "serialize g = bs @ lost" "lost \<noteq> []"
  shows "\<exists>msg. deserializeInto bs newGraph = Some (Inl msg)"
proof (cases "replayGraph bs newGraph")
  case (Inr r)
  obtain rest h where r: "r = (rest, h)" by (cases r)
  have "replayGraph (serialize g) newGraph = Inr (rest @ lost, h)"
    using Inr r replayGraph_extends [of bs newGraph rest h lost] assms(2) by simp
  then show ?thesis using replayGraph_serialize [OF assms(1), of "[]"] assms(3) by simp
qed (simp add: deserializeInto_def)

section \<open>Examples\<close>

lemma built_fine: "built fine"
proof -
  have sz: "nodesSize newGraph = 1" "length (g_edgePool newGraph) = 0" "nodesSize fine1 = 2" "length (g_edgePool fine1) = 0"
    "nodesSize fine2 = 3" "length (g_edgePool fine2) = 2" "nodesSize fine3 = 4" "length (g_edgePool fine3) = 4"
    "nodesSize fine4 = 5" "length (g_edgePool fine4) = 5" "length (g_fsVobjs fine4) = 0" "length (g_fsDesc fine4) = 0"
    "nodesSize fine5 = 6" "length (g_edgePool fine5) = 6"
    by code_simp+
  have 1: "built fine1"
    unfolding fine1_def by (rule built.makeRaw [OF built.new]) (simp add: fits_def roomFor_def sz)
  have 2: "built fine2"
    unfolding fine2_def by (rule built.makeRaw [OF 1]) (simp add: fits_def roomFor_def refOk_def sz)
  have 3: "built fine3"
    unfolding fine3_def by (rule built.makeRaw [OF 2]) (simp add: fits_def roomFor_def refOk_def sz)
  have 4: "built fine4"
    unfolding fine4_def by (rule built.makeRaw [OF 3]) (simp add: fits_def roomFor_def refOk_def sz)
  have 5: "built fine5"
    unfolding fine5_def by (rule built.makeFrameState [OF 4]) (simp_all add: fits_def roomFor_def refOk_def sz)
  show ?thesis
    unfolding fine_def by (rule built.makeRaw [OF 5]) (simp add: fits_def roomFor_def refOk_def sz)
qed

lemma fine_serializable: "serializable fine"
proof -
  have "graphOk fine" "frameTableOk fine" using built_invOk [OF built_fine] by (simp_all add: invOk_def)
  moreover have "widthsOk fine" "tablesFit fine" "edgeRoom fine" "startPlain fine" by code_simp+
  moreover have "g_replacements fine = []" by code_simp
  then have "logTagged fine" by (simp add: logTagged_def lastEpoch_def)
  ultimately show ?thesis by (simp add: serializable_def)
qed

theorem serialize_roundtrip_witness:
  "\<exists>h. deserializeInto (serialize fine @ [7]) newGraph = Some (Inr h) \<and> sameContent fine h \<and> serialize h = serialize fine"
  using serialize_roundtrip [OF fine_serializable, of "[7]"] fine_verified by (auto simp: graphVerified_def)

theorem truncated_artifact_rejected_witness: "\<exists>msg. deserializeInto (butlast (serialize fine)) newGraph = Some (Inl msg)"
proof (rule truncated_artifact_rejected [OF fine_serializable])
  have "serialize fine \<noteq> []" by (simp add: serialize_def putU32_def upt_rec)
  then show "serialize fine = butlast (serialize fine) @ [last (serialize fine)]" by simp
qed simp

end
