(* ===== verification/Rbc_Builder.thy ===== *)
theory Rbc_Builder
  imports Rbc_Verifier
begin

text \<open>
  The method builder (\<open>include/b2/rbc/RbcBuilder.h\<close>, \<open>compiler/rbc/src/RbcBuilder.cpp\<close>). The builder is a
  record with the members of the class; an operation takes it and returns it with its result. A label
  is its id. The two sentinels of \<open>boundAt\<close> are 32-bit values as in the source. Matches of a switch are
  sorted with a stable sort: the order of equal matches is unspecified in the source, and equal matches
  make \<open>finish\<close> fail.
\<close>

section \<open>State\<close>

definition kUnbound :: nat where "kUnbound = 4294967295"
definition kDoubleBound :: nat where "kDoubleBound = 4294967294"
definition kMaxRegs :: nat where "kMaxRegs = 65536"
definition kBranchSlot :: nat where "kBranchSlot = 4294967295"

type_synonym label = nat

record patch =
  pt_at :: nat
  pt_labelId :: label
  pt_slot :: nat

record builder =
  bd_name :: string
  bd_descriptor :: string
  bd_flags :: "16 word"
  bd_numRegs :: nat
  bd_numLocals :: nat
  bd_code :: "ins list"
  bd_cp :: "const list"
  bd_handlers :: "exception_handler list"
  bd_labels :: "label list"
  bd_boundAt :: "nat list"
  bd_patches :: "patch list"
  bd_pendingError :: string

definition bd_u32 :: "nat \<Rightarrow> nat" where "bd_u32 n = n mod 2 ^ 32"

text \<open>The cast of an index to a signed entry of a payload.\<close>

definition asI32 :: "nat \<Rightarrow> int" where
  "asI32 n = sint (word_of_nat n :: 32 word)"

definition mkIns :: "op \<Rightarrow> nat \<Rightarrow> nat \<Rightarrow> nat \<Rightarrow> nat \<Rightarrow> ins" where
  "mkIns v dst a b imm = \<lparr>ins_op = v, ins_dst = dst, ins_a = a, ins_b = b, ins_imm = imm\<rparr>"

definition newBuilder :: "string \<Rightarrow> string \<Rightarrow> 16 word \<Rightarrow> builder" where
  "newBuilder name descriptor flags =
     \<lparr>bd_name = name, bd_descriptor = descriptor, bd_flags = flags, bd_numRegs = 0, bd_numLocals = 0, bd_code = [],
      bd_cp = [], bd_handlers = [], bd_labels = [], bd_boundAt = [], bd_patches = [], bd_pendingError = []\<rparr>"

definition isSwitchOp :: "op \<Rightarrow> bool" where
  "isSwitchOp v \<longleftrightarrow> v = Op_Tableswitch \<or> v = Op_Lookupswitch"

section \<open>Sizes\<close>

definition setRegs :: "nat \<Rightarrow> builder \<Rightarrow> builder" where "setRegs n b = b\<lparr>bd_numRegs := n\<rparr>"
definition setLocals :: "nat \<Rightarrow> builder \<Rightarrow> builder" where "setLocals n b = b\<lparr>bd_numLocals := n\<rparr>"

definition newReg :: "builder \<Rightarrow> builder \<times> nat" where
  "newReg b = (b\<lparr>bd_numRegs := bd_u32 (bd_numRegs b + 1)\<rparr>, bd_numRegs b)"

section \<open>Constant pool\<close>

definition sameConst :: "const \<Rightarrow> const \<Rightarrow> bool" where
  "sameConst a b \<longleftrightarrow> c_kind a = c_kind b \<and>
     (case c_kind a of
        K_Int32 \<Rightarrow> c_i32 a = c_i32 b
      | K_Int64 \<Rightarrow> c_i64 a = c_i64 b
      | K_Float \<Rightarrow> c_f32 a = c_f32 b
      | K_Double \<Rightarrow> c_f64 a = c_f64 b
      | K_Utf8 \<Rightarrow> c_str a = c_str b
      | K_String \<Rightarrow> c_str a = c_str b
      | K_Class \<Rightarrow> c_str a = c_str b
      | K_MethodType \<Rightarrow> c_str a = c_str b
      | K_NameType \<Rightarrow> c_str a = c_str b \<and> c_str2 a = c_str2 b
      | K_MethodHandle \<Rightarrow> c_str a = c_str b \<and> c_str2 a = c_str2 b
      | K_InvokeDynamic \<Rightarrow> c_str a = c_str b \<and> c_str2 a = c_str2 b
      | K_FieldRef \<Rightarrow> c_str a = c_str b \<and> c_str2 a = c_str2 b \<and> c_str3 a = c_str3 b
      | K_MethodRef \<Rightarrow> c_str a = c_str b \<and> c_str2 a = c_str2 b \<and> c_str3 a = c_str3 b
      | K_InterfaceMethodRef \<Rightarrow> c_str a = c_str b \<and> c_str2 a = c_str2 b \<and> c_str3 a = c_str3 b
      | K_SwitchTable \<Rightarrow> c_ints a = c_ints b)"

definition internConst :: "const \<Rightarrow> builder \<Rightarrow> builder \<times> nat" where
  "internConst c b =
     (case find (\<lambda>i. sameConst (bd_cp b ! i) c) [0..<length (bd_cp b)] of
        Some i \<Rightarrow> (b, bd_u32 i)
      | None \<Rightarrow> let cp' = bd_cp b @ [c] in (b\<lparr>bd_cp := cp'\<rparr>, bd_u32 (length cp' - 1)))"

definition defaultConst :: const where
  "defaultConst = \<lparr>c_kind = K_Int32, c_i32 = 0, c_i64 = 0, c_f32 = 0, c_f64 = 0, c_str = [], c_str2 = [], c_str3 = [], c_ints = []\<rparr>"

definition constInt :: "int \<Rightarrow> builder \<Rightarrow> builder \<times> nat" where
  "constInt v = internConst (defaultConst\<lparr>c_kind := K_Int32, c_i32 := v\<rparr>)"
definition constLong :: "int \<Rightarrow> builder \<Rightarrow> builder \<times> nat" where
  "constLong v = internConst (defaultConst\<lparr>c_kind := K_Int64, c_i64 := v\<rparr>)"
definition constFloat :: "32 word \<Rightarrow> builder \<Rightarrow> builder \<times> nat" where
  "constFloat v = internConst (defaultConst\<lparr>c_kind := K_Float, c_f32 := v\<rparr>)"
definition constDouble :: "64 word \<Rightarrow> builder \<Rightarrow> builder \<times> nat" where
  "constDouble v = internConst (defaultConst\<lparr>c_kind := K_Double, c_f64 := v\<rparr>)"
definition constString :: "string \<Rightarrow> builder \<Rightarrow> builder \<times> nat" where
  "constString v = internConst (defaultConst\<lparr>c_kind := K_String, c_str := v\<rparr>)"
definition constClass :: "string \<Rightarrow> builder \<Rightarrow> builder \<times> nat" where
  "constClass v = internConst (defaultConst\<lparr>c_kind := K_Class, c_str := v\<rparr>)"
definition constFieldRef :: "string \<Rightarrow> string \<Rightarrow> string \<Rightarrow> builder \<Rightarrow> builder \<times> nat" where
  "constFieldRef cls name descriptor =
     internConst (defaultConst\<lparr>c_kind := K_FieldRef, c_str := cls, c_str2 := name, c_str3 := descriptor\<rparr>)"
definition constMethodRef :: "string \<Rightarrow> string \<Rightarrow> string \<Rightarrow> builder \<Rightarrow> builder \<times> nat" where
  "constMethodRef cls name descriptor =
     internConst (defaultConst\<lparr>c_kind := K_MethodRef, c_str := cls, c_str2 := name, c_str3 := descriptor\<rparr>)"
definition constSwitch :: "int list \<Rightarrow> builder \<Rightarrow> builder \<times> nat" where
  "constSwitch payload = internConst (defaultConst\<lparr>c_kind := K_SwitchTable, c_ints := payload\<rparr>)"

section \<open>Emission\<close>

definition rawEmit :: "ins \<Rightarrow> builder \<Rightarrow> builder \<times> nat" where
  "rawEmit i b = (let code' = bd_code b @ [i] in (b\<lparr>bd_code := code'\<rparr>, bd_u32 (length code' - 1)))"

definition emit :: "op \<Rightarrow> builder \<Rightarrow> builder \<times> nat" where
  "emit v = rawEmit (mkIns v 0 0 0 0)"
definition emitReg :: "op \<Rightarrow> nat \<Rightarrow> builder \<Rightarrow> builder \<times> nat" where
  "emitReg v a = rawEmit (mkIns v 0 a 0 0)"
definition emitRegImm :: "op \<Rightarrow> nat \<Rightarrow> nat \<Rightarrow> builder \<Rightarrow> builder \<times> nat" where
  "emitRegImm v dst imm = rawEmit (mkIns v dst 0 0 imm)"
definition emitRegCp :: "op \<Rightarrow> nat \<Rightarrow> nat \<Rightarrow> builder \<Rightarrow> builder \<times> nat" where
  "emitRegCp v dst cpIdx = rawEmit (mkIns v dst 0 0 cpIdx)"
definition emitRegSlot :: "op \<Rightarrow> nat \<Rightarrow> nat \<Rightarrow> builder \<Rightarrow> builder \<times> nat" where
  "emitRegSlot v dst slot = rawEmit (mkIns v dst 0 0 slot)"
definition emitSlotReg :: "op \<Rightarrow> nat \<Rightarrow> nat \<Rightarrow> builder \<Rightarrow> builder \<times> nat" where
  "emitSlotReg v a slot = rawEmit (mkIns v 0 a 0 slot)"
definition emitRegReg :: "op \<Rightarrow> nat \<Rightarrow> nat \<Rightarrow> builder \<Rightarrow> builder \<times> nat" where
  "emitRegReg v dst a = rawEmit (mkIns v dst a 0 0)"
definition emitRegRegReg :: "op \<Rightarrow> nat \<Rightarrow> nat \<Rightarrow> nat \<Rightarrow> builder \<Rightarrow> builder \<times> nat" where
  "emitRegRegReg v dst a b = rawEmit (mkIns v dst a b 0)"
definition emitRegRegImm :: "op \<Rightarrow> nat \<Rightarrow> nat \<Rightarrow> nat \<Rightarrow> builder \<Rightarrow> builder \<times> nat" where
  "emitRegRegImm v dst a imm = rawEmit (mkIns v dst a 0 imm)"
definition emitRegRegCp :: "op \<Rightarrow> nat \<Rightarrow> nat \<Rightarrow> nat \<Rightarrow> builder \<Rightarrow> builder \<times> nat" where
  "emitRegRegCp v dst a cpIdx = rawEmit (mkIns v dst a 0 cpIdx)"
definition emitRegRegRegCp :: "op \<Rightarrow> nat \<Rightarrow> nat \<Rightarrow> nat \<Rightarrow> nat \<Rightarrow> builder \<Rightarrow> builder \<times> nat" where
  "emitRegRegRegCp v dst a b cpIdx = rawEmit (mkIns v dst a b cpIdx)"
definition emitCall :: "op \<Rightarrow> nat \<Rightarrow> nat \<Rightarrow> nat \<Rightarrow> nat \<Rightarrow> builder \<Rightarrow> builder \<times> nat" where
  "emitCall v dst argBase argCount cpIdx = rawEmit (mkIns v dst argBase argCount cpIdx)"
definition emitGuard :: "op \<Rightarrow> nat \<Rightarrow> nat \<Rightarrow> builder \<Rightarrow> builder \<times> nat" where
  "emitGuard v a deoptId = rawEmit (mkIns v 0 a 0 deoptId)"
definition emitTrap :: "nat \<Rightarrow> builder \<Rightarrow> builder \<times> nat" where
  "emitTrap deoptId = rawEmit (mkIns Op_DeoptTrap 0 0 0 deoptId)"

section \<open>Branches and switches\<close>

definition addPatches :: "patch list \<Rightarrow> builder \<Rightarrow> builder" where
  "addPatches ps b = b\<lparr>bd_patches := bd_patches b @ ps\<rparr>"

definition mkPatch :: "nat \<Rightarrow> label \<Rightarrow> nat \<Rightarrow> patch" where
  "mkPatch at l slot = \<lparr>pt_at = at, pt_labelId = l, pt_slot = slot\<rparr>"

text \<open>The common tail of the three branch factories.\<close>

definition branchIns :: "ins \<Rightarrow> label \<Rightarrow> builder \<Rightarrow> builder \<times> nat" where
  "branchIns i target b = (let (b1, at) = rawEmit i b in (addPatches [mkPatch at target kBranchSlot] b1, at))"

definition emitBranch :: "op \<Rightarrow> label \<Rightarrow> builder \<Rightarrow> builder \<times> nat" where
  "emitBranch v target = branchIns (mkIns v 0 0 0 0) target"
definition emitRegBranch :: "op \<Rightarrow> nat \<Rightarrow> label \<Rightarrow> builder \<Rightarrow> builder \<times> nat" where
  "emitRegBranch v a target = branchIns (mkIns v 0 a 0 0) target"
definition emitRegRegBranch :: "op \<Rightarrow> nat \<Rightarrow> nat \<Rightarrow> label \<Rightarrow> builder \<Rightarrow> builder \<times> nat" where
  "emitRegRegBranch v a b target = branchIns (mkIns v 0 a b 0) target"

definition noteError :: "bool \<Rightarrow> string \<Rightarrow> builder \<Rightarrow> builder" where
  "noteError bad msg b = (if bad \<and> bd_pendingError b = [] then b\<lparr>bd_pendingError := msg\<rparr> else b)"

definition sizeMismatch :: "nat \<Rightarrow> nat \<Rightarrow> nat \<Rightarrow> string" where
  "sizeMismatch at n k =
     ''switch at pc '' @ show_nat at @ '' has '' @ show_nat n @ '' matches for '' @ show_nat k @ '' targets''"

definition noteDuplicates :: "nat \<Rightarrow> (int \<times> label) list \<Rightarrow> builder \<Rightarrow> builder" where
  "noteDuplicates at pairs b =
     fold (\<lambda>i. noteError (fst (pairs ! i) = fst (pairs ! (i - 1)))
       (''switch at pc '' @ show_nat at @ '' has duplicate match '' @ show_int (fst (pairs ! i)))) [1..<length pairs] b"

text \<open>The payload with zeros in the target slots, and the patches of these slots.\<close>

definition tablePayload :: "nat \<Rightarrow> (int \<times> label) list \<Rightarrow> int list" where
  "tablePayload at pairs =
     (if pairs = [] then [0, -1, asI32 (bd_u32 (at + 1))]
      else [fst (hd pairs), fst (last pairs), asI32 (bd_u32 (at + 1))] @ map (\<lambda>_. 0) pairs)"

definition lookupPayload :: "nat \<Rightarrow> (int \<times> label) list \<Rightarrow> int list" where
  "lookupPayload at pairs =
     [asI32 (length pairs), asI32 (bd_u32 (at + 1))] @ concat (map (\<lambda>p. [fst p, 0]) pairs)"

definition tablePatches :: "nat \<Rightarrow> (int \<times> label) list \<Rightarrow> patch list" where
  "tablePatches at pairs = map (\<lambda>i. mkPatch at (snd (pairs ! i)) (bd_u32 (3 + i))) [0..<length pairs]"

definition lookupPatches :: "nat \<Rightarrow> (int \<times> label) list \<Rightarrow> patch list" where
  "lookupPatches at pairs = map (\<lambda>i. mkPatch at (snd (pairs ! i)) (bd_u32 (3 + 2 * i))) [0..<length pairs]"

text \<open>The misuse a switch records.\<close>

definition switchErrors :: "op \<Rightarrow> nat \<Rightarrow> int list \<Rightarrow> label list \<Rightarrow> builder \<Rightarrow> builder" where
  "switchErrors v at payload targets b =
     (let pairs = sort_key fst (zip payload targets);
          b1 = (if length payload \<noteq> length targets
                then b\<lparr>bd_pendingError := sizeMismatch at (length payload) (length targets)\<rparr> else b);
          b2 = noteDuplicates at pairs b1
      in if v = Op_Tableswitch then
           noteError (pairs = []) (''tableswitch at pc '' @ show_nat at @ '' requires at least one match'')
            (noteError (pairs \<noteq> [] \<and> fst (last pairs) - fst (hd pairs) + 1 \<noteq> int (length pairs))
              (''tableswitch at pc '' @ show_nat at @
               '' matches must be contiguous ascending (use lookupswitch for sparse matches)'') b2)
         else b2)"

definition emitSwitch :: "op \<Rightarrow> nat \<Rightarrow> int list \<Rightarrow> label list \<Rightarrow> builder \<Rightarrow> builder \<times> nat" where
  "emitSwitch v a payload targets b =
     (if \<not> isSwitchOp v
      then let (b1, at) = rawEmit (mkIns v 0 a 0 0) b in (addPatches (map (\<lambda>t. mkPatch at t kBranchSlot) targets) b1, at)
      else
        let at = bd_u32 (length (bd_code b));
            pairs = sort_key fst (zip payload targets);
            b1 = switchErrors v at payload targets b;
            ints = (if v = Op_Tableswitch then tablePayload at pairs else lookupPayload at pairs);
            b2 = addPatches (if v = Op_Tableswitch then tablePatches at pairs else lookupPatches at pairs) b1;
            cp' = bd_cp b2 @ [defaultConst\<lparr>c_kind := K_SwitchTable, c_ints := ints\<rparr>]
        in rawEmit (mkIns v 0 a 0 (bd_u32 (length cp' - 1))) (b2\<lparr>bd_cp := cp'\<rparr>))"

section \<open>Labels and handlers\<close>

definition newLabel :: "builder \<Rightarrow> builder \<times> label" where
  "newLabel b =
     (let l = bd_u32 (length (bd_labels b))
      in (b\<lparr>bd_labels := bd_labels b @ [l], bd_boundAt := bd_boundAt b @ [kUnbound]\<rparr>, l))"

definition bindLabel :: "label \<Rightarrow> builder \<Rightarrow> builder" where
  "bindLabel l b =
     (if l = kUnbound \<or> length (bd_labels b) \<le> l then b
      else if bd_boundAt b ! l = kUnbound then b\<lparr>bd_boundAt := (bd_boundAt b)[l := bd_u32 (length (bd_code b))]\<rparr>
      else b\<lparr>bd_boundAt := (bd_boundAt b)[l := kDoubleBound]\<rparr>)"

definition here :: "builder \<Rightarrow> nat" where
  "here b = bd_u32 (length (bd_code b))"

definition addHandler :: "nat \<Rightarrow> nat \<Rightarrow> nat \<Rightarrow> int \<Rightarrow> builder \<Rightarrow> builder" where
  "addHandler start stop handler catchTypeCp b =
     b\<lparr>bd_handlers := bd_handlers b @ [\<lparr>h_start = start, h_end = stop, h_handler = handler, h_catchType = catchTypeCp\<rparr>]\<rparr>"

definition handlerLabel :: "builder \<Rightarrow> builder \<times> label" where
  "handlerLabel = newLabel"

section \<open>Finish\<close>

text \<open>A check is a condition with its message; the first that holds is the error.\<close>

fun firstError :: "(bool \<times> string) list \<Rightarrow> string option" where
  "firstError [] = None"
| "firstError ((bad, msg) # cs) = (if bad then Some msg else firstError cs)"

fun firstSome :: "('a \<Rightarrow> string option) \<Rightarrow> 'a list \<Rightarrow> string option" where
  "firstSome f [] = None"
| "firstSome f (x # xs) = (case f x of Some msg \<Rightarrow> Some msg | None \<Rightarrow> firstSome f xs)"

definition doubleBound :: "builder \<Rightarrow> nat \<Rightarrow> string option" where
  "doubleBound b i = firstError [(bd_boundAt b ! i = kDoubleBound, ''label L'' @ show_nat i @ '' is already bound'')]"

definition patchError :: "patch \<Rightarrow> builder \<Rightarrow> string option" where
  "patchError p b =
     (let l = pt_labelId p; i = bd_code b ! pt_at p; target = bd_boundAt b ! l in
      if length (bd_code b) \<le> pt_at p then Some (''internal error: patch references instruction '' @ show_nat (pt_at p))
      else if length (bd_labels b) \<le> l then Some (''label L'' @ show_nat l @ '' is not bound'')
      else if target = kUnbound then Some (''label L'' @ show_nat l @ '' is not bound'')
      else if target = kDoubleBound then Some (''label L'' @ show_nat l @ '' is already bound'')
      else if length (bd_code b) \<le> target then Some ''branch target out of range''
      else if pt_slot p = kBranchSlot \<or> \<not> isSwitchOp (ins_op i) then None
      else if length (bd_cp b) \<le> ins_imm i \<or> c_kind (bd_cp b ! ins_imm i) \<noteq> K_SwitchTable
      then Some (''switch at pc '' @ show_nat (pt_at p) @ '' does not reference a switch table'')
      else if length (c_ints (bd_cp b ! ins_imm i)) \<le> pt_slot p
      then Some (''internal error: switch patch slot out of range at pc '' @ show_nat (pt_at p))
      else None)"

definition applyPatch :: "patch \<Rightarrow> builder \<Rightarrow> builder" where
  "applyPatch p b =
     (let i = bd_code b ! pt_at p; target = bd_boundAt b ! pt_labelId p; c = bd_cp b ! ins_imm i in
      if pt_slot p = kBranchSlot \<or> \<not> isSwitchOp (ins_op i)
      then b\<lparr>bd_code := (bd_code b)[pt_at p := i\<lparr>ins_imm := target\<rparr>]\<rparr>
      else b\<lparr>bd_cp := (bd_cp b)[ins_imm i := c\<lparr>c_ints := (c_ints c)[pt_slot p := asI32 target]\<rparr>]\<rparr>)"

fun applyPatches :: "patch list \<Rightarrow> builder \<Rightarrow> builder \<times> string option" where
  "applyPatches [] b = (b, None)"
| "applyPatches (p # ps) b =
     (case patchError p b of Some msg \<Rightarrow> (b, Some msg) | None \<Rightarrow> applyPatches ps (applyPatch p b))"

definition switchShape :: "builder \<Rightarrow> nat \<Rightarrow> string option" where
  "switchShape b pc =
     (let i = bd_code b ! pc; ints = c_ints (bd_cp b ! ins_imm i); sz = int (length ints);
          at = ''switch at pc '' @ show_nat pc in
      if \<not> isSwitchOp (ins_op i) then None
      else if length (bd_code b) \<le> pc + 1
      then Some (at @ '' must not be the last instruction (default target is pc+1)'')
      else if length (bd_cp b) \<le> ins_imm i \<or> c_kind (bd_cp b ! ins_imm i) \<noteq> K_SwitchTable
      then Some (at @ '' does not reference a switch table'')
      else if ins_op i = Op_Tableswitch then
        (let low = (if length ints > 0 then ints ! 0 else 0); high = (if length ints > 1 then ints ! 1 else -1) in
         firstError [(sz < 3 \<or> 3 + (high - low) + 1 \<noteq> sz, at @ '' has a malformed tableswitch payload'')])
      else
        (let n = (if length ints > 0 then ints ! 0 else -1) in
         firstError [(sz < 2 \<or> 2 + 2 * n \<noteq> sz \<or> n < 0, at @ '' has a malformed lookupswitch payload'')]))"

definition callWritesResult :: "const list \<Rightarrow> ins \<Rightarrow> bool" where
  "callWritesResult pool i \<longleftrightarrow>
     (if length pool \<le> ins_imm i then False
      else let c = pool ! ins_imm i in
        if c_kind c = K_MethodRef \<or> c_kind c = K_InterfaceMethodRef then parseReturn (c_str3 c) \<noteq> RT_Bottom
        else if c_kind c = K_InvokeDynamic then parseReturn (c_str2 c) \<noteq> RT_Bottom
        else False)"

definition regRangeError :: "nat \<Rightarrow> nat \<Rightarrow> nat \<Rightarrow> string" where
  "regRangeError reg pc n =
     ''register r'' @ show_nat reg @ '' out of range at pc '' @ show_nat pc @ '' (numRegs '' @ show_nat n @ '')''"

definition slotRangeError :: "nat \<Rightarrow> nat \<Rightarrow> nat \<Rightarrow> string" where
  "slotRangeError slot pc n =
     ''local slot '' @ show_nat slot @ '' out of range at pc '' @ show_nat pc @ '' (numLocals '' @ show_nat n @ '')''"

definition rangeOverError :: "string \<Rightarrow> ins \<Rightarrow> nat \<Rightarrow> nat \<Rightarrow> string" where
  "rangeOverError what i pc n =
     what @ '' registers out of range at pc '' @ show_nat pc @ '' (r'' @ show_nat (ins_a i) @ '' + '' @ show_nat (ins_b i) @
     '' > numRegs '' @ show_nat n @ '')''"

definition insError :: "builder \<Rightarrow> nat \<Rightarrow> string option" where
  "insError b pc =
     (let i = bd_code b ! pc; s = op_sig (info (ins_op i)); n = bd_numRegs b;
          reg = (\<lambda>r. (n \<le> r, regRangeError r pc n));
          slot = (bd_numLocals b \<le> ins_imm i, slotRangeError (ins_imm i) pc (bd_numLocals b));
          over = (\<lambda>what. (ins_b i > 0 \<and> ins_a i + ins_b i > n, rangeOverError what i pc n))
      in
      if s = Sig_Call \<or> s = Sig_CallQuick
      then firstError [(callWritesResult (bd_cp b) i \<and> n \<le> ins_dst i, regRangeError (ins_dst i) pc n), over ''call argument'']
      else if ins_op i = Op_Multianewarray
      then firstError [reg (ins_dst i), reg (ins_a i), over ''multianewarray dimension'']
      else if ins_op i = Op_Putfield \<or> ins_op i = Op_PutfieldQuick then firstError [reg (ins_a i), reg (ins_b i)]
      else (case s of
          Sig_None \<Rightarrow> None | Sig_Branch \<Rightarrow> None | Sig_Trap \<Rightarrow> None | Sig_Call \<Rightarrow> None | Sig_CallQuick \<Rightarrow> None
        | Sig_Reg \<Rightarrow> firstError [reg (ins_a i)]
        | Sig_RegBranch \<Rightarrow> firstError [reg (ins_a i)]
        | Sig_RegCpBranch \<Rightarrow> firstError [reg (ins_a i)]
        | Sig_Guard \<Rightarrow> firstError [reg (ins_a i)]
        | Sig_GuardCp \<Rightarrow> firstError [reg (ins_a i)]
        | Sig_RegImm \<Rightarrow> firstError [reg (ins_dst i)]
        | Sig_RegCp \<Rightarrow> firstError [reg (ins_dst i)]
        | Sig_RegSlot \<Rightarrow> firstError [reg (ins_dst i), slot]
        | Sig_SlotReg \<Rightarrow> firstError [reg (ins_a i), slot]
        | Sig_RegRegBranch \<Rightarrow> firstError [reg (ins_a i), reg (ins_b i)]
        | Sig_RegReg \<Rightarrow> firstError [reg (ins_dst i), reg (ins_a i)]
        | Sig_RegRegImm \<Rightarrow> firstError [reg (ins_dst i), reg (ins_a i)]
        | Sig_RegRegCp \<Rightarrow> firstError [reg (ins_dst i), reg (ins_a i)]
        | Sig_RegRegReg \<Rightarrow> firstError [reg (ins_dst i), reg (ins_a i), reg (ins_b i)]
        | Sig_RegRegRegCp \<Rightarrow> firstError [reg (ins_dst i), reg (ins_a i), reg (ins_b i)]))"

definition handlerError :: "builder \<Rightarrow> exception_handler \<Rightarrow> string option" where
  "handlerError b h =
     (let n = length (bd_code b); ct = nat (h_catchType h) in
      firstError
        [(h_start h \<ge> h_end h \<or> h_end h > n, ''exception handler range out of code (start '' @ show_nat (h_start h) @ '', end '' @
            show_nat (h_end h) @ '', code size '' @ show_nat n @ '')''),
         (h_handler h \<ge> n, ''exception handler entry out of range (handler '' @ show_nat (h_handler h) @ '', code size '' @
            show_nat n @ '')''),
         (h_catchType h \<ge> 0 \<and> (ct \<ge> length (bd_cp b) \<or> c_kind (bd_cp b ! ct) \<noteq> K_Class),
            ''exception handler catch type c'' @ show_int (h_catchType h) @ '' is not a Class constant'')])"

definition methodOf :: "builder \<Rightarrow> rmethod" where
  "methodOf b =
     \<lparr>m_name = bd_name b, m_descriptor = bd_descriptor b, m_flags = bd_flags b, numRegs = bd_numRegs b,
      numLocals = bd_numLocals b, code = bd_code b, cp = bd_cp b, handlers = bd_handlers b\<rparr>"

text \<open>The checks behind the patches.\<close>

definition finishChecks :: "builder \<Rightarrow> string option" where
  "finishChecks b =
     (case firstSome (switchShape b) [0..<length (bd_code b)] of
        Some msg \<Rightarrow> Some msg
      | None \<Rightarrow>
          if bd_numRegs b > kMaxRegs then Some (''too many registers ('' @ show_nat (bd_numRegs b) @ '', max 65536)'')
          else (case firstSome (insError b) [0..<length (bd_code b)] of
              Some msg \<Rightarrow> Some msg
            | None \<Rightarrow> firstSome (handlerError b) (bd_handlers b)))"

definition finish :: "builder \<Rightarrow> builder \<times> (string + rmethod)" where
  "finish b =
     (if bd_pendingError b \<noteq> [] then (b, Inl (bd_pendingError b))
      else case firstSome (doubleBound b) [0..<length (bd_labels b)] of
          Some msg \<Rightarrow> (b, Inl msg)
        | None \<Rightarrow>
            (let (b1, e) = applyPatches (bd_patches b) b in
             (case e of
                Some msg \<Rightarrow> (b1, Inl msg)
              | None \<Rightarrow> (case finishChecks b1 of Some msg \<Rightarrow> (b1, Inl msg) | None \<Rightarrow> (b1, Inr (methodOf b1))))))"

end
