(* ===== verification/Rbc_BuilderOk.thy ===== *)
theory Rbc_BuilderOk
  imports Rbc_Builder Rbc_Switch
begin

text \<open>
  What the builder keeps and what \<open>finish\<close> does with the patches. \<open>bstep\<close> is one call of a public operation; every
  factory is \<open>rawEmit\<close>, \<open>branchIns\<close> or \<open>emitSwitch\<close> on some operands, and every constant is interned. Its premises keep
  sizes below the sentinels.
\<close>

section \<open>Steps\<close>

inductive bstep :: "builder \<Rightarrow> builder \<Rightarrow> bool" where
  setRegs: "bstep b (setRegs n b)"
| setLocals: "bstep b (setLocals n b)"
| newReg: "bstep b (fst (newReg b))"
| internConst: "length (bd_cp b) + 1 < 2 ^ 32 \<Longrightarrow> bstep b (fst (internConst c b))"
| rawEmit: "length (bd_code b) + 1 < kDoubleBound \<Longrightarrow> bstep b (fst (rawEmit i b))"
| branchIns: "length (bd_code b) + 1 < kDoubleBound \<Longrightarrow> bstep b (fst (branchIns i l b))"
| emitSwitch: "length (bd_code b) + 1 < kDoubleBound \<Longrightarrow> length (bd_cp b) + 1 < 2 ^ 32 \<Longrightarrow> length payload < 2 ^ 31 - 2 \<Longrightarrow>
    bstep b (fst (emitSwitch v a payload targets b))"
| newLabel: "length (bd_labels b) < kUnbound \<Longrightarrow> bstep b (fst (newLabel b))"
| bindLabel: "bstep b (bindLabel l b)"
| addHandler: "bstep b (addHandler s e h c b)"

inductive assembled :: "builder \<Rightarrow> bool" where
  new: "assembled (newBuilder name descriptor flags)"
| step: "assembled b \<Longrightarrow> bstep b b' \<Longrightarrow> assembled b'"

section \<open>What a step adds\<close>

definition payloadPatch :: "patch \<Rightarrow> bool" where
  "payloadPatch p \<longleftrightarrow> pt_slot p \<noteq> kBranchSlot"

text \<open>New patches are for new instructions, and those into payloads for switches with new tables.\<close>

definition grown_by :: "builder \<Rightarrow> builder \<Rightarrow> ins list \<Rightarrow> const list \<Rightarrow> patch list \<Rightarrow> bool" where
  "grown_by b b' is cs ps \<longleftrightarrow> bd_code b' = bd_code b @ is \<and> bd_cp b' = bd_cp b @ cs \<and> bd_patches b' = bd_patches b @ ps
     \<and> (\<forall>p \<in> set ps. length (bd_code b) \<le> pt_at p \<and> pt_at p < length (bd_code b')
          \<and> (payloadPatch p \<longrightarrow> isSwitchOp (ins_op (bd_code b' ! pt_at p)) \<and> length (bd_cp b) \<le> ins_imm (bd_code b' ! pt_at p)))"

definition boundKept :: "builder \<Rightarrow> builder \<Rightarrow> bool" where
  "boundKept b b' \<longleftrightarrow> length (bd_boundAt b) \<le> length (bd_boundAt b') \<and> (\<forall>l < length (bd_boundAt b). bd_boundAt b ! l \<noteq> kUnbound \<longrightarrow>
     bd_boundAt b' ! l = bd_boundAt b ! l \<or> bd_boundAt b' ! l = kDoubleBound)"

definition keeps :: "builder \<Rightarrow> builder \<Rightarrow> bool" where
  "keeps b b' \<longleftrightarrow> (\<exists>is cs ps. grown_by b b' is cs ps) \<and> boundKept b b' \<and> (bd_pendingError b \<noteq> [] \<longrightarrow> bd_pendingError b' \<noteq> [])"

lemma keeps_refl: "keeps b b"
proof -
  have "grown_by b b [] [] []" by (simp add: grown_by_def)
  then show ?thesis by (auto simp: keeps_def boundKept_def)
qed

lemma grown_by_trans: "grown_by a b is cs ps \<Longrightarrow> grown_by b c is' cs' ps' \<Longrightarrow> grown_by a c (is @ is') (cs @ cs') (ps @ ps')"
  by (fastforce simp: grown_by_def nth_append)

lemma boundKept_trans:
  assumes "boundKept a b" "boundKept b c"
  shows "boundKept a c"
  unfolding boundKept_def
proof (intro conjI allI impI)
  show "length (bd_boundAt a) \<le> length (bd_boundAt c)" using assms by (simp add: boundKept_def)
  fix l assume l: "l < length (bd_boundAt a)" "bd_boundAt a ! l \<noteq> kUnbound"
  then have "bd_boundAt b ! l = bd_boundAt a ! l \<or> bd_boundAt b ! l = kDoubleBound" "l < length (bd_boundAt b)"
    using assms(1) by (simp_all add: boundKept_def)
  moreover from this have "bd_boundAt b ! l \<noteq> kUnbound" using l(2) by (auto simp: kUnbound_def kDoubleBound_def)
  ultimately show "bd_boundAt c ! l = bd_boundAt a ! l \<or> bd_boundAt c ! l = kDoubleBound"
    using assms(2) by (fastforce simp: boundKept_def)
qed

lemma keeps_trans: "keeps a b \<Longrightarrow> keeps b c \<Longrightarrow> keeps a c"
proof -
  assume k: "keeps a b" "keeps b c"
  then have "\<exists>is cs ps. grown_by a c is cs ps" unfolding keeps_def by (blast intro: grown_by_trans)
  moreover have "boundKept a c" using k boundKept_trans by (auto simp: keeps_def)
  ultimately show ?thesis using k by (simp add: keeps_def)
qed

lemma noteError_simps [simp]:
  "bd_code (noteError bad msg b) = bd_code b" "bd_cp (noteError bad msg b) = bd_cp b" "bd_patches (noteError bad msg b) = bd_patches b"
  "bd_boundAt (noteError bad msg b) = bd_boundAt b" "bd_labels (noteError bad msg b) = bd_labels b"
  "bd_pendingError b \<noteq> [] \<Longrightarrow> noteError bad msg b = b"
  by (simp_all add: noteError_def)

lemma fold_noteError [simp]:
  "bd_code (fold (\<lambda>i. noteError (P i) (m i)) is b) = bd_code b" "bd_cp (fold (\<lambda>i. noteError (P i) (m i)) is b) = bd_cp b"
  "bd_patches (fold (\<lambda>i. noteError (P i) (m i)) is b) = bd_patches b" "bd_boundAt (fold (\<lambda>i. noteError (P i) (m i)) is b) = bd_boundAt b"
  "bd_labels (fold (\<lambda>i. noteError (P i) (m i)) is b) = bd_labels b"
  "bd_pendingError b \<noteq> [] \<Longrightarrow> fold (\<lambda>i. noteError (P i) (m i)) is b = b"
  by (induction "is" arbitrary: b) simp_all

definition switchIns :: "op \<Rightarrow> nat \<Rightarrow> builder \<Rightarrow> ins" where
  "switchIns v a b = mkIns v 0 a 0 (length (bd_cp b))"

definition switchConst :: "op \<Rightarrow> int list \<Rightarrow> label list \<Rightarrow> builder \<Rightarrow> const" where
  "switchConst v payload targets b = defaultConst\<lparr>c_kind := K_SwitchTable, c_ints :=
     (let pairs = sort_key fst (zip payload targets); at = length (bd_code b)
      in if v = Op_Tableswitch then tablePayload at pairs else lookupPayload at pairs)\<rparr>"

definition switchPatches :: "op \<Rightarrow> int list \<Rightarrow> label list \<Rightarrow> builder \<Rightarrow> patch list" where
  "switchPatches v payload targets b =
     (let pairs = sort_key fst (zip payload targets); at = length (bd_code b)
      in if v = Op_Tableswitch then tablePatches at pairs else lookupPatches at pairs)"

lemma switchErrors_simps [simp]:
  "bd_code (switchErrors v at payload targets b) = bd_code b" "bd_cp (switchErrors v at payload targets b) = bd_cp b"
  "bd_patches (switchErrors v at payload targets b) = bd_patches b" "bd_boundAt (switchErrors v at payload targets b) = bd_boundAt b"
  "bd_labels (switchErrors v at payload targets b) = bd_labels b"
  by (simp_all add: switchErrors_def noteDuplicates_def Let_def)

lemma noteError_set: "bd_pendingError b \<noteq> [] \<Longrightarrow> bd_pendingError (noteError bad msg b) \<noteq> []"
  by simp

lemma switchErrors_set: "bd_pendingError b \<noteq> [] \<Longrightarrow> bd_pendingError (switchErrors v at payload targets b) \<noteq> []"
  by (simp add: switchErrors_def noteDuplicates_def Let_def sizeMismatch_def)

lemma emitSwitch_fields:
  assumes "isSwitchOp v" "length (bd_code b) < 2 ^ 32" "length (bd_cp b) < 2 ^ 32"
  shows "bd_code (fst (emitSwitch v a payload targets b)) = bd_code b @ [switchIns v a b]"
    "bd_cp (fst (emitSwitch v a payload targets b)) = bd_cp b @ [switchConst v payload targets b]"
    "bd_patches (fst (emitSwitch v a payload targets b)) = bd_patches b @ switchPatches v payload targets b"
    "bd_boundAt (fst (emitSwitch v a payload targets b)) = bd_boundAt b" "bd_labels (fst (emitSwitch v a payload targets b)) = bd_labels b"
    "snd (emitSwitch v a payload targets b) = length (bd_code b)"
    "bd_pendingError (fst (emitSwitch v a payload targets b)) = bd_pendingError (switchErrors v (length (bd_code b)) payload targets b)"
  using assms by (simp_all add: emitSwitch_def Let_def rawEmit_def addPatches_def switchIns_def switchConst_def switchPatches_def bd_u32_def)

lemma switchPatches_slots:
  assumes "length payload < 2 ^ 31 - 2" "p \<in> set (switchPatches v payload targets b)"
  shows "payloadPatch p" "pt_at p = length (bd_code b)"
proof -
  let ?pairs = "sort_key fst (zip payload targets)"
  have n: "length ?pairs < 2 ^ 31 - 2" using assms(1) by simp
  obtain i where "i < length ?pairs" "p = mkPatch (length (bd_code b)) (snd (?pairs ! i)) (3 + i) \<or> p = mkPatch (length (bd_code b)) (snd (?pairs ! i)) (3 + 2 * i)"
    using assms(2) n by (auto simp: switchPatches_def tablePatches_def lookupPatches_def Let_def bd_u32_def split: if_splits)
  then show "payloadPatch p" "pt_at p = length (bd_code b)" using n by (auto simp: payloadPatch_def mkPatch_def kBranchSlot_def)
qed

text \<open>The patches of one step are of one sort.\<close>

definition adds :: "builder \<Rightarrow> builder \<Rightarrow> ins list \<Rightarrow> const list \<Rightarrow> patch list \<Rightarrow> bool" where
  "adds b b' is cs ps \<longleftrightarrow> grown_by b b' is cs ps \<and> (\<forall>p \<in> set ps. \<forall>q \<in> set ps. payloadPatch p \<longrightarrow> payloadPatch q)
     \<and> (\<forall>p \<in> set ps. payloadPatch p \<longrightarrow> ins_imm (bd_code b' ! pt_at p) < length (bd_cp b'))"

lemma bstep_adds: "bstep b b' \<Longrightarrow> \<exists>is cs ps. adds b b' is cs ps"
proof (induction rule: bstep.induct)
  case (internConst b c)
  have "adds b (fst (internConst c b)) [] [] [] \<or> adds b (fst (internConst c b)) [] [c] []"
    by (auto simp: internConst_def Let_def adds_def grown_by_def split: option.splits)
  then show ?case by blast
next
  case (rawEmit b i)
  have "adds b (fst (rawEmit i b)) [i] [] []" by (simp add: rawEmit_def Let_def adds_def grown_by_def)
  then show ?case by blast
next
  case (branchIns b i l)
  then have "adds b (fst (branchIns i l b)) [i] [] [mkPatch (length (bd_code b)) l kBranchSlot]"
    by (simp add: branchIns_def rawEmit_def Let_def adds_def grown_by_def addPatches_def mkPatch_def payloadPatch_def bd_u32_def kDoubleBound_def)
  then show ?case by blast
next
  case (emitSwitch b payload v a targets)
  show ?case
  proof (cases "isSwitchOp v")
    case True
    have sz: "length (bd_code b) < 2 ^ 32" "length (bd_cp b) < 2 ^ 32" using emitSwitch by (simp_all add: kDoubleBound_def)
    have "adds b (fst (emitSwitch v a payload targets b)) [switchIns v a b] [switchConst v payload targets b] (switchPatches v payload targets b)"
      using emitSwitch_fields(1-3) [OF True sz, of a payload targets] switchPatches_slots [OF emitSwitch(3)] True
      by (simp add: adds_def grown_by_def switchIns_def mkIns_def)
    then show ?thesis by blast
  next
    case False
    then have "adds b (fst (emitSwitch v a payload targets b)) [mkIns v 0 a 0 0] [] (map (\<lambda>t. mkPatch (length (bd_code b)) t kBranchSlot) targets)"
      using emitSwitch
      by (auto simp: emitSwitch_def rawEmit_def Let_def adds_def grown_by_def addPatches_def mkPatch_def payloadPatch_def bd_u32_def kDoubleBound_def)
    then show ?thesis by blast
  qed
qed (fastforce simp: adds_def grown_by_def setRegs_def setLocals_def newReg_def addHandler_def newLabel_def bindLabel_def Let_def)+

lemma bstep_bound: "bstep b b' \<Longrightarrow> boundKept b b' \<and> (bd_pendingError b \<noteq> [] \<longrightarrow> bd_pendingError b' \<noteq> [])
    \<and> (length (bd_labels b) = length (bd_boundAt b) \<longrightarrow> length (bd_labels b') = length (bd_boundAt b'))"
proof (induction rule: bstep.induct)
  case (emitSwitch b payload v a targets)
  show ?case
  proof (cases "isSwitchOp v")
    case True
    have sz: "length (bd_code b) < 2 ^ 32" "length (bd_cp b) < 2 ^ 32" using emitSwitch by (simp_all add: kDoubleBound_def)
    show ?thesis using emitSwitch_fields(4,5,7) [OF True sz, of a payload targets] switchErrors_set [of b] by (simp add: boundKept_def)
  qed (simp add: emitSwitch_def rawEmit_def addPatches_def Let_def boundKept_def)
next
  case (bindLabel b l)
  have "boundKept b (bindLabel l b)"
    by (auto simp: bindLabel_def boundKept_def) (metis nth_list_update_eq nth_list_update_neq)+
  then show ?case by (simp add: bindLabel_def)
qed (auto simp: boundKept_def setRegs_def setLocals_def newReg_def internConst_def rawEmit_def branchIns_def addPatches_def newLabel_def
    addHandler_def Let_def nth_append split: option.splits)

lemma bstep_keeps: "bstep b b' \<Longrightarrow> keeps b b'"
  using bstep_adds bstep_bound unfolding keeps_def adds_def by blast

lemma bsteps_keeps: "bstep\<^sup>*\<^sup>* b b' \<Longrightarrow> keeps b b'"
  by (induction rule: rtranclp_induct) (auto intro: keeps_refl keeps_trans bstep_keeps)

section \<open>The invariant\<close>

definition patchesOk :: "builder \<Rightarrow> bool" where
  "patchesOk b \<longleftrightarrow>
     (\<forall>p \<in> set (bd_patches b). pt_at p < length (bd_code b)
        \<and> (payloadPatch p \<longrightarrow> isSwitchOp (ins_op (bd_code b ! pt_at p)) \<and> ins_imm (bd_code b ! pt_at p) < length (bd_cp b)))
     \<and> (\<forall>p \<in> set (bd_patches b). \<forall>q \<in> set (bd_patches b). pt_at p = pt_at q \<longrightarrow> payloadPatch p \<longrightarrow> payloadPatch q)"

definition builderOk :: "builder \<Rightarrow> bool" where
  "builderOk b \<longleftrightarrow> patchesOk b \<and> length (bd_labels b) = length (bd_boundAt b) \<and> length (bd_code b) < kDoubleBound"

lemma patchesOk_adds:
  assumes "patchesOk b" "adds b b' is cs ps"
  shows "patchesOk b'"
  unfolding patchesOk_def
proof (intro conjI ballI impI)
  have g: "bd_code b' = bd_code b @ is" "bd_cp b' = bd_cp b @ cs" "bd_patches b' = bd_patches b @ ps"
    "\<And>p. p \<in> set ps \<Longrightarrow> length (bd_code b) \<le> pt_at p" "\<And>p. p \<in> set (bd_patches b) \<Longrightarrow> pt_at p < length (bd_code b)"
    using assms by (simp_all add: adds_def grown_by_def patchesOk_def)
  have old: "bd_code b' ! pt_at p = bd_code b ! pt_at p" if "p \<in> set (bd_patches b)" for p using g(1,5) that by (simp add: nth_append)
  fix p assume p: "p \<in> set (bd_patches b')"
  then consider "p \<in> set (bd_patches b)" | "p \<in> set ps" using g(3) by auto
  note cases = this
  have new: "pt_at p < length (bd_code b') \<and> (payloadPatch p \<longrightarrow> isSwitchOp (ins_op (bd_code b' ! pt_at p)) \<and> ins_imm (bd_code b' ! pt_at p) < length (bd_cp b'))"
    if "p \<in> set ps" for p
    using assms(2) that unfolding adds_def grown_by_def by blast
  have kept: "pt_at p < length (bd_code b') \<and> (payloadPatch p \<longrightarrow> isSwitchOp (ins_op (bd_code b' ! pt_at p)) \<and> ins_imm (bd_code b' ! pt_at p) < length (bd_cp b'))"
    if "p \<in> set (bd_patches b)" for p
    using assms(1) [unfolded patchesOk_def, THEN conjunct1, rule_format, OF that] old [OF that] g(1,2) by auto
  show "pt_at p < length (bd_code b')" using cases new kept by blast
  show "isSwitchOp (ins_op (bd_code b' ! pt_at p))" "ins_imm (bd_code b' ! pt_at p) < length (bd_cp b')" if "payloadPatch p"
    using cases new kept that by blast+
  fix q assume q: "q \<in> set (bd_patches b')" "pt_at p = pt_at q" "payloadPatch p"
  have "(p \<in> set (bd_patches b) \<and> q \<in> set (bd_patches b)) \<or> (p \<in> set ps \<and> q \<in> set ps)"
    using p q g(3) g(4) [of p] g(4) [of q] g(5) [of p] g(5) [of q] by auto
  then show "payloadPatch q" using assms q(2,3) unfolding adds_def patchesOk_def by blast
qed

lemma bstep_size: "bstep b b' \<Longrightarrow> length (bd_code b) < kDoubleBound \<Longrightarrow> length (bd_code b') < kDoubleBound"
proof (induction rule: bstep.induct)
  case (emitSwitch b payload v a targets)
  then show ?case using emitSwitch_fields(1) [of v b a payload targets]
    by (cases "isSwitchOp v") (auto simp: kDoubleBound_def emitSwitch_def rawEmit_def addPatches_def Let_def)
qed (auto simp: setRegs_def setLocals_def newReg_def internConst_def rawEmit_def branchIns_def addPatches_def newLabel_def bindLabel_def
    addHandler_def Let_def split: option.splits)

lemma builderOk_step: "bstep b b' \<Longrightarrow> builderOk b \<Longrightarrow> builderOk b'"
  using bstep_adds bstep_bound bstep_size patchesOk_adds unfolding builderOk_def by blast

lemma assembled_ok: "assembled b \<Longrightarrow> builderOk b"
proof (induction rule: assembled.induct)
  case (new name descriptor flags)
  then show ?case by (simp add: newBuilder_def builderOk_def patchesOk_def kDoubleBound_def)
qed (rule builderOk_step)

lemma bsteps_ok: "bstep\<^sup>*\<^sup>* b b' \<Longrightarrow> builderOk b \<Longrightarrow> builderOk b'"
  by (induction rule: rtranclp_induct) (auto intro: builderOk_step)

section \<open>The effect of the patches\<close>

text \<open>The patches of one instruction's immediate, and those of one table.\<close>

definition immPatches :: "builder \<Rightarrow> nat \<Rightarrow> patch list \<Rightarrow> patch list" where
  "immPatches b at = filter (\<lambda>p. pt_at p = at \<and> \<not> payloadPatch p)"

definition tablePatchesOf :: "builder \<Rightarrow> nat \<Rightarrow> patch list \<Rightarrow> patch list" where
  "tablePatchesOf b k = filter (\<lambda>p. payloadPatch p \<and> ins_imm (bd_code b ! pt_at p) = k)"

definition retarget :: "nat list \<Rightarrow> patch \<Rightarrow> ins \<Rightarrow> ins" where
  "retarget bound p i = i\<lparr>ins_imm := bound ! pt_labelId p\<rparr>"

definition refill :: "nat list \<Rightarrow> patch \<Rightarrow> int list \<Rightarrow> int list" where
  "refill bound p ints = ints[pt_slot p := asI32 (bound ! pt_labelId p)]"

lemma applyPatches_effect:
  assumes "applyPatches ps b = (b', None)" "\<forall>p \<in> set ps. payloadPatch p \<longrightarrow> isSwitchOp (ins_op (bd_code b ! pt_at p))"
    and "\<forall>p \<in> set ps. \<forall>q \<in> set ps. pt_at p = pt_at q \<longrightarrow> payloadPatch p \<longrightarrow> payloadPatch q"
  shows "(\<exists>is cs. b' = b\<lparr>bd_code := is, bd_cp := cs\<rparr> \<and> length is = length (bd_code b) \<and> length cs = length (bd_cp b)
      \<and> (\<forall>at < length (bd_code b). is ! at = fold (retarget (bd_boundAt b)) (immPatches b at ps) (bd_code b ! at))
      \<and> (\<forall>k < length (bd_cp b). cs ! k = (bd_cp b ! k)\<lparr>c_ints := fold (refill (bd_boundAt b)) (tablePatchesOf b k ps) (c_ints (bd_cp b ! k))\<rparr>))
    \<and> (\<forall>p \<in> set ps. pt_at p < length (bd_code b) \<and> pt_labelId p < length (bd_labels b) \<and> bd_boundAt b ! pt_labelId p < length (bd_code b))"
  using assms
proof (induction ps arbitrary: b)
  case Nil
  then have "b' = b" by (simp only: applyPatches.simps prod.inject)
  show ?case unfolding \<open>b' = b\<close>
    by (intro conjI exI [of _ "bd_code b"] exI [of _ "bd_cp b"]) (simp_all add: immPatches_def tablePatchesOf_def)
next
  case (Cons p ps)
  have e: "patchError p b = None" "applyPatches ps (applyPatch p b) = (b', None)"
    using Cons.prems(1) by (auto split: option.splits)
  have p: "pt_at p < length (bd_code b)" "pt_labelId p < length (bd_labels b)" "bd_boundAt b ! pt_labelId p < length (bd_code b)"
    using e(1) by (auto simp: patchError_def Let_def split: if_splits)
  let ?b = "applyPatch p b"
  have f: "bd_boundAt ?b = bd_boundAt b" "bd_labels ?b = bd_labels b" "length (bd_code ?b) = length (bd_code b)" "length (bd_cp ?b) = length (bd_cp b)"
    by (simp_all add: applyPatch_def Let_def)
  have "ins_op (bd_code ?b ! n) = ins_op (bd_code b ! n)" for n
    using p(1) by (simp add: applyPatch_def Let_def nth_list_update)
  then have prems: "\<forall>p \<in> set ps. payloadPatch p \<longrightarrow> isSwitchOp (ins_op (bd_code ?b ! pt_at p))"
    "\<forall>p \<in> set ps. \<forall>q \<in> set ps. pt_at p = pt_at q \<longrightarrow> payloadPatch p \<longrightarrow> payloadPatch q"
    using Cons.prems(2,3) by (metis list.set_intros(2))+
  obtain ic cs where r: "b' = ?b\<lparr>bd_code := ic, bd_cp := cs\<rparr>" "length ic = length (bd_code b)" "length cs = length (bd_cp b)"
    "\<And>at. at < length (bd_code b) \<Longrightarrow> ic ! at = fold (retarget (bd_boundAt b)) (immPatches ?b at ps) (bd_code ?b ! at)"
    "\<And>k. k < length (bd_cp b) \<Longrightarrow> cs ! k = (bd_cp ?b ! k)\<lparr>c_ints := fold (refill (bd_boundAt b)) (tablePatchesOf ?b k ps) (c_ints (bd_cp ?b ! k))\<rparr>"
    and rest: "\<forall>p \<in> set ps. pt_at p < length (bd_code b) \<and> pt_labelId p < length (bd_labels b) \<and> bd_boundAt b ! pt_labelId p < length (bd_code b)"
    using Cons.IH [OF e(2) prems] unfolding f(1-4) by blast
  have goal: ?case if b': "?b\<lparr>bd_code := ic, bd_cp := cs\<rparr> = b\<lparr>bd_code := ic, bd_cp := cs\<rparr>"
    and i: "\<And>at. at < length (bd_code b) \<Longrightarrow> fold (retarget (bd_boundAt b)) (immPatches ?b at ps) (bd_code ?b ! at)
      = fold (retarget (bd_boundAt b)) (immPatches b at (p # ps)) (bd_code b ! at)"
    and c: "\<And>k. k < length (bd_cp b) \<Longrightarrow> (bd_cp ?b ! k)\<lparr>c_ints := fold (refill (bd_boundAt b)) (tablePatchesOf ?b k ps) (c_ints (bd_cp ?b ! k))\<rparr>
      = (bd_cp b ! k)\<lparr>c_ints := fold (refill (bd_boundAt b)) (tablePatchesOf b k (p # ps)) (c_ints (bd_cp b ! k))\<rparr>"
    using r rest p b' i c by (intro conjI exI [of _ ic] exI [of _ cs]) simp_all
  show ?case
  proof (cases "payloadPatch p")
    case True
    let ?k = "ins_imm (bd_code b ! pt_at p)"
    have "isSwitchOp (ins_op (bd_code b ! pt_at p))" using True Cons.prems(2) by simp
    moreover from this have k: "?k < length (bd_cp b)" using True e(1) by (auto simp: patchError_def Let_def payloadPatch_def split: if_splits)
    ultimately have b: "?b = b\<lparr>bd_cp := (bd_cp b)[?k := (bd_cp b ! ?k)\<lparr>c_ints := refill (bd_boundAt b) p (c_ints (bd_cp b ! ?k))\<rparr>]\<rparr>"
      using True by (simp add: applyPatch_def Let_def payloadPatch_def refill_def)
    have "immPatches ?b at ps = immPatches b at (p # ps)" "tablePatchesOf b n (p # ps) = (if n = ?k then p # tablePatchesOf ?b n ps else tablePatchesOf ?b n ps)" for at n
      using True by (simp_all add: immPatches_def tablePatchesOf_def b)
    then show ?thesis using k by (intro goal) (simp_all add: b nth_list_update)
  next
    case False
    have b: "?b = b\<lparr>bd_code := (bd_code b)[pt_at p := retarget (bd_boundAt b) p (bd_code b ! pt_at p)]\<rparr>"
      using False by (simp add: applyPatch_def Let_def payloadPatch_def retarget_def)
    have "bd_code ?b ! pt_at q = bd_code b ! pt_at q" if "q \<in> set ps" "payloadPatch q" for q
      using Cons.prems(3) False that by (cases "pt_at q = pt_at p") (auto simp: b)
    then have "tablePatchesOf ?b n ps = tablePatchesOf b n (p # ps)" "immPatches b at (p # ps) = (if at = pt_at p then p # immPatches ?b at ps else immPatches ?b at ps)" for at n
      using False by (auto simp: immPatches_def tablePatchesOf_def intro!: filter_cong)
    then show ?thesis using p by (intro goal) (simp_all add: b nth_list_update)
  qed
qed

end
