(* ===== verification/Rbc_BuilderSwitch.thy ===== *)
theory Rbc_BuilderSwitch
  imports Rbc_BuilderOk
begin

text \<open>
  The payloads of switches: what the recorded misuse excludes, the tables after patching, and what the
  interpreter reads from them.
\<close>

section \<open>Recorded misuse\<close>

lemma noteError_clean: "bd_pendingError (noteError bad msg b) = [] \<Longrightarrow> msg \<noteq> [] \<Longrightarrow> \<not> bad \<and> bd_pendingError b = []"
  by (auto simp: noteError_def split: if_splits)

lemma fold_noteError_clean:
  "bd_pendingError (fold (\<lambda>i. noteError (P i) (m i)) is b) = [] \<Longrightarrow> (\<And>i. m i \<noteq> []) \<Longrightarrow> (\<forall>i \<in> set is. \<not> P i) \<and> bd_pendingError b = []"
proof (induction "is" arbitrary: b)
  case (Cons i "is")
  have "(\<forall>i \<in> set is. \<not> P i) \<and> bd_pendingError (noteError (P i) (m i) b) = []"
    by (rule Cons.IH) (use Cons.prems in simp_all)
  then show ?case using noteError_clean [of "P i" "m i" b] Cons.prems(2) by simp
qed simp

lemma sorted_strict:
  fixes xs :: "int list"
  assumes "sorted xs" "\<forall>i. 1 \<le> i \<and> i < length xs \<longrightarrow> xs ! i \<noteq> xs ! (i - 1)"
  shows "sorted_wrt (<) xs"
proof -
  have "xs ! i < xs ! Suc i" if "Suc i < length xs" for i
    using sorted_nth_mono [OF assms(1), of i "Suc i"] assms(2) [rule_format, of "Suc i"] that by simp
  then show ?thesis by (simp add: sorted_wrt_iff_nth_Suc_transp)
qed

lemma switchErrors_clean:
  assumes "bd_pendingError (switchErrors v at payload targets b) = []"
  defines "ms \<equiv> map fst (sort_key fst (zip payload targets))"
  shows "length payload = length targets" "sorted_wrt (<) ms"
    "v = Op_Tableswitch \<Longrightarrow> ms \<noteq> [] \<and> last ms - hd ms + 1 = int (length ms)"
proof -
  let ?pairs = "sort_key fst (zip payload targets)"
  let ?b1 = "if length payload \<noteq> length targets then b\<lparr>bd_pendingError := sizeMismatch at (length payload) (length targets)\<rparr> else b"
  have d: "bd_pendingError (noteDuplicates at ?pairs ?b1) = []"
    "v = Op_Tableswitch \<Longrightarrow> ?pairs \<noteq> [] \<and> fst (last ?pairs) - fst (hd ?pairs) + 1 = int (length ?pairs)"
    using assms(1) unfolding switchErrors_def Let_def by (auto split: if_split_asm dest!: noteError_clean)
  then show "v = Op_Tableswitch \<Longrightarrow> ms \<noteq> [] \<and> last ms - hd ms + 1 = int (length ms)" by (simp add: ms_def last_map hd_map)
  have c: "\<forall>i \<in> set [1..<length ?pairs]. fst (?pairs ! i) \<noteq> fst (?pairs ! (i - 1))" "bd_pendingError ?b1 = []"
    using fold_noteError_clean [OF d(1) [unfolded noteDuplicates_def]] by simp_all
  from c(2) show "length payload = length targets" by (auto simp: sizeMismatch_def split: if_split_asm)
  show "sorted_wrt (<) ms"
  proof (rule sorted_strict)
    show "sorted ms" by (simp add: ms_def)
    show "\<forall>i. 1 \<le> i \<and> i < length ms \<longrightarrow> ms ! i \<noteq> ms ! (i - 1)"
    proof (intro allI impI)
      fix i assume "1 \<le> i \<and> i < length ms"
      then have "i \<in> set [1..<length ?pairs]" "i < length ?pairs" "i - 1 < length ?pairs" by (auto simp: ms_def)
      then show "ms ! i \<noteq> ms ! (i - 1)" using c(1) unfolding ms_def by (metis nth_map)
    qed
  qed
qed

section \<open>Tables after patching\<close>

lemma fold_update:
  assumes "inj_on S {..<n}" "\<forall>i < n. S i < length xs"
  shows "length (fold (\<lambda>i xs. xs[S i := g i]) [0..<n] xs) = length xs"
    "i < n \<Longrightarrow> fold (\<lambda>i xs. xs[S i := g i]) [0..<n] xs ! S i = g i"
    "\<forall>i < n. S i \<noteq> j \<Longrightarrow> fold (\<lambda>i xs. xs[S i := g i]) [0..<n] xs ! j = xs ! j"
proof -
  show l: "length (fold (\<lambda>i xs. xs[S i := g i]) [0..<n] xs) = length xs" for n by (induction n) simp_all
  show "\<forall>i < n. S i \<noteq> j \<Longrightarrow> fold (\<lambda>i xs. xs[S i := g i]) [0..<n] xs ! j = xs ! j" by (induction n) simp_all
  show "i < n \<Longrightarrow> fold (\<lambda>i xs. xs[S i := g i]) [0..<n] xs ! S i = g i"
    using assms
  proof (induction n)
    case (Suc n)
    have "inj_on S {..<n}" using Suc.prems(2) by (rule inj_on_subset) auto
    moreover have "i \<noteq> n \<Longrightarrow> S i \<noteq> S n" using Suc.prems(1,2) by (auto simp: inj_on_def)
    ultimately show ?case using Suc l by (cases "i = n") (simp_all add: nth_list_update)
  qed simp
qed

lemma refill_patches:
  "fold (refill bound) (map (\<lambda>i. mkPatch at (L i) (S i)) is) xs = fold (\<lambda>i xs. xs[S i := asI32 (bound ! L i)]) is xs"
  by (induction "is" arbitrary: xs) (simp_all add: refill_def mkPatch_def)

lemma flat_pairs_nth: "i < length ps \<Longrightarrow> concat (map (\<lambda>p. [f p, z]) ps) ! (2 * i) = f (ps ! i)"
proof (induction ps arbitrary: i)
  case (Cons p ps)
  then show ?case by (cases i) simp_all
qed simp

lemma length_flat_pairs: "length (concat (map (\<lambda>p. [f p, z]) ps)) = 2 * length ps"
  by (induction ps) simp_all

lemma cast_asI32: "n < 2 ^ 32 \<Longrightarrow> cast_u32 (asI32 n) = n"
proof -
  assume n: "n < 2 ^ 32"
  have "sint (word_of_nat n :: 32 word) mod 2 ^ 32 = uint (word_of_nat n :: 32 word)"
    using uint_sint [of "word_of_nat n :: 32 word"] by (simp add: take_bit_eq_mod)
  then show ?thesis using n by (simp add: cast_u32_def asI32_def unsigned_of_nat take_bit_nat_eq_self flip: of_nat_mod)
qed

lemma asI32_small: "n < 2 ^ 31 \<Longrightarrow> asI32 n = int n"
  by (simp add: asI32_def sint_uint unsigned_of_nat signed_take_bit_int_eq_self take_bit_nat_eq_self)

lemma table_filled:
  fixes bound :: "nat list" and at :: nat and pairs :: "(int \<times> label) list"
  assumes "length pairs < 2 ^ 31 - 2" "pairs \<noteq> []"
  defines "tbl \<equiv> fold (refill bound) (tablePatches at pairs) (tablePayload at pairs)"
  shows "length tbl = 3 + length pairs" "tbl ! 0 = fst (hd pairs)" "tbl ! 1 = fst (last pairs)" "tbl ! 2 = asI32 (bd_u32 (at + 1))"
    "i < length pairs \<Longrightarrow> tbl ! (3 + i) = asI32 (bound ! snd (pairs ! i))"
proof -
  let ?xs = "tablePayload at pairs"
  have s: "tablePatches at pairs = map (\<lambda>i. mkPatch at (snd (pairs ! i)) (3 + i)) [0..<length pairs]"
    using assms(1) by (simp add: tablePatches_def bd_u32_def)
  have xs: "length ?xs = 3 + length pairs" "?xs ! 0 = fst (hd pairs)" "?xs ! 1 = fst (last pairs)" "?xs ! 2 = asI32 (bd_u32 (at + 1))"
    using assms(2) by (simp_all add: tablePayload_def)
  have "inj_on (\<lambda>i. 3 + i) {..<length pairs}" "\<forall>i < length pairs. 3 + i < length ?xs" by (simp_all add: xs)
  note f = fold_update [OF this, where g = "\<lambda>i. asI32 (bound ! snd (pairs ! i))"]
  show "length tbl = 3 + length pairs" "tbl ! 0 = fst (hd pairs)" "tbl ! 1 = fst (last pairs)" "tbl ! 2 = asI32 (bd_u32 (at + 1))"
    "i < length pairs \<Longrightarrow> tbl ! (3 + i) = asI32 (bound ! snd (pairs ! i))"
    unfolding tbl_def s refill_patches using f(1,2) f(3) [where j = 0] f(3) [where j = 1] f(3) [where j = 2] xs by simp_all
qed

lemma lookup_filled:
  fixes bound :: "nat list" and at :: nat and pairs :: "(int \<times> label) list"
  assumes "length pairs < 2 ^ 31 - 2"
  defines "tbl \<equiv> fold (refill bound) (lookupPatches at pairs) (lookupPayload at pairs)"
  shows "length tbl = 2 + 2 * length pairs" "tbl ! 0 = int (length pairs)" "tbl ! 1 = asI32 (bd_u32 (at + 1))"
    "i < length pairs \<Longrightarrow> tbl ! (2 + 2 * i) = fst (pairs ! i)" "i < length pairs \<Longrightarrow> tbl ! (3 + 2 * i) = asI32 (bound ! snd (pairs ! i))"
proof -
  let ?xs = "lookupPayload at pairs"
  have s: "lookupPatches at pairs = map (\<lambda>i. mkPatch at (snd (pairs ! i)) (3 + 2 * i)) [0..<length pairs]"
    using assms(1) by (simp add: lookupPatches_def bd_u32_def)
  have xs: "length ?xs = 2 + 2 * length pairs" "?xs ! 0 = int (length pairs)" "?xs ! 1 = asI32 (bd_u32 (at + 1))"
    "\<And>i. i < length pairs \<Longrightarrow> ?xs ! (2 + 2 * i) = fst (pairs ! i)"
    using assms(1) by (simp_all add: lookupPayload_def length_flat_pairs flat_pairs_nth asI32_small)
  have "inj_on (\<lambda>i. 3 + 2 * i) {..<length pairs}" "\<forall>i < length pairs. 3 + 2 * i < length ?xs" by (auto simp: xs inj_on_def)
  note f = fold_update [OF this, where g = "\<lambda>i. asI32 (bound ! snd (pairs ! i))"]
  have par: "3 + 2 * j \<noteq> 2 + 2 * i" for i j :: nat by presburger
  show "length tbl = 2 + 2 * length pairs" "tbl ! 0 = int (length pairs)" "tbl ! 1 = asI32 (bd_u32 (at + 1))"
    "i < length pairs \<Longrightarrow> tbl ! (2 + 2 * i) = fst (pairs ! i)" "i < length pairs \<Longrightarrow> tbl ! (3 + 2 * i) = asI32 (bound ! snd (pairs ! i))"
    unfolding tbl_def s refill_patches using f(1,2) f(3) [where j = 0] f(3) [where j = 1] f(3) [where j = "2 + 2 * i"] xs par by simp_all
qed

section \<open>Dispatch\<close>

lemma contiguous_nth:
  fixes xs :: "int list"
  assumes "sorted_wrt (<) xs" "xs \<noteq> []" "last xs - hd xs + 1 = int (length xs)" "i < length xs"
  shows "xs ! i = hd xs + int i"
proof -
  have step: "xs ! a + int k \<le> xs ! (a + k)" if "a + k < length xs" for a k
    using that
  proof (induction k)
    case (Suc k)
    have "xs ! (a + k) < xs ! (a + Suc k)" using assms(1) Suc.prems by (simp add: sorted_wrt_nth_less)
    then show ?case using Suc by simp
  qed simp
  have ends: "hd xs = xs ! 0" "last xs = xs ! (length xs - 1)" using assms(2) by (simp_all add: hd_conv_nth last_conv_nth)
  have lower: "xs ! 0 + int i \<le> xs ! i" using step [of 0 i] assms(4) by simp
  have "i + (length xs - 1 - i) = length xs - 1" "length xs - 1 < length xs" using assms(4) by simp_all
  then have upper: "xs ! i + int (length xs - 1 - i) \<le> xs ! (length xs - 1)" using step [of i "length xs - 1 - i"] by metis
  have "int (length xs - 1 - i) = int (length xs) - 1 - int i" using assms(4) by simp
  then show ?thesis using lower upper assms(3) ends by linarith
qed

text \<open>A pair of a sorted table with distinct matches.\<close>

lemma table_dispatch:
  fixes bound :: "nat list" and at :: nat and pairs :: "(int \<times> label) list"
  assumes "length pairs < 2 ^ 31 - 2" "sorted_wrt (<) (map fst pairs)" "pairs \<noteq> []"
    "last (map fst pairs) - hd (map fst pairs) + 1 = int (length (map fst pairs))"
  defines "tbl \<equiv> fold (refill bound) (tablePatches at pairs) (tablePayload at pairs)"
  shows "i < length pairs \<Longrightarrow> tableswitchTarget tbl (fst (pairs ! i)) = Some (cast_u32 (asI32 (bound ! snd (pairs ! i))))"
    "sel \<notin> fst ` set pairs \<Longrightarrow> tableswitchTarget tbl sel = Some (cast_u32 (asI32 (bd_u32 (at + 1))))"
proof -
  note t = table_filled [OF assms(1,3), where bound = bound and at = at, folded tbl_def]
  have nth: "fst (pairs ! i) = fst (hd pairs) + int i" if "i < length pairs" for i
    using contiguous_nth [OF assms(2) _ assms(4), of i] that assms(3) by (simp add: hd_map)
  have hi: "fst (last pairs) = fst (hd pairs) + int (length pairs) - 1" using assms(3,4) by (simp add: last_map hd_map)
  show "tableswitchTarget tbl (fst (pairs ! i)) = Some (cast_u32 (asI32 (bound ! snd (pairs ! i))))" if i: "i < length pairs"
    using t i nth [OF i] hi by (simp add: tableswitchTarget_def tblAt_def)
  show "tableswitchTarget tbl sel = Some (cast_u32 (asI32 (bd_u32 (at + 1))))" if s: "sel \<notin> fst ` set pairs"
  proof -
    have "\<not> (fst (hd pairs) \<le> sel \<and> sel \<le> fst (last pairs))"
    proof
      assume r: "fst (hd pairs) \<le> sel \<and> sel \<le> fst (last pairs)"
      then have "nat (sel - fst (hd pairs)) < length pairs" using hi by linarith
      then have "fst (pairs ! nat (sel - fst (hd pairs))) = sel" "pairs ! nat (sel - fst (hd pairs)) \<in> set pairs" using nth r by simp_all
      then show False using s by (metis image_eqI)
    qed
    then show ?thesis using t by (auto simp: tableswitchTarget_def tblAt_def)
  qed
qed

lemma lookupScan_pairs:
  assumes "distinct (map fst pairs)" "length tbl = 2 + 2 * length pairs" "\<And>i. i < length pairs \<Longrightarrow> tbl ! (2 + 2 * i) = fst (pairs ! i)"
    and "k \<le> length pairs"
  shows "(\<forall>i. k \<le> i \<longrightarrow> i < length pairs \<longrightarrow> lookupScan tbl (fst (pairs ! i)) d [k..<length pairs] = Some (cast_u32 (tbl ! (3 + 2 * i))))
    \<and> (sel \<notin> fst ` set pairs \<longrightarrow> lookupScan tbl sel d [k..<length pairs] = Some d)"
  using assms(4)
proof (induction "length pairs - k" arbitrary: k)
  case 0
  then show ?case by simp
next
  case (Suc n)
  then have k: "k < length pairs" and u: "[k..<length pairs] = k # [Suc k..<length pairs]" by (simp_all add: upt_conv_Cons)
  have at: "tblAt tbl (2 + 2 * k) = Some (fst (pairs ! k))" "tblAt tbl (3 + 2 * k) = Some (tbl ! (3 + 2 * k))"
    using k assms(2,3) by (simp_all add: tblAt_def)
  have ne: "fst (pairs ! k) \<noteq> fst (pairs ! i)" if "i < length pairs" "i \<noteq> k" for i
    using assms(1) k that by (metis length_map nth_eq_iff_index_eq nth_map)
  have ih: "\<And>i. Suc k \<le> i \<Longrightarrow> i < length pairs \<Longrightarrow> lookupScan tbl (fst (pairs ! i)) d [Suc k..<length pairs] = Some (cast_u32 (tbl ! (3 + 2 * i)))"
    "sel \<notin> fst ` set pairs \<Longrightarrow> lookupScan tbl sel d [Suc k..<length pairs] = Some d"
    using Suc.hyps(1) [of "Suc k"] Suc.hyps(2) k by auto
  have here: "lookupScan tbl s d [k..<length pairs] = (if fst (pairs ! k) = s then Some (cast_u32 (tbl ! (3 + 2 * k))) else lookupScan tbl s d [Suc k..<length pairs])" for s
    unfolding u using at by simp
  show ?case
  proof (intro conjI allI impI)
    fix i assume "k \<le> i" "i < length pairs"
    then show "lookupScan tbl (fst (pairs ! i)) d [k..<length pairs] = Some (cast_u32 (tbl ! (3 + 2 * i)))"
      using ih(1) [of i] ne [of i] unfolding here by (cases "i = k") auto
  next
    assume "sel \<notin> fst ` set pairs"
    then show "lookupScan tbl sel d [k..<length pairs] = Some d" using ih(2) nth_mem [OF k] unfolding here by auto
  qed
qed

lemma lookup_dispatch:
  fixes bound :: "nat list" and at :: nat and pairs :: "(int \<times> label) list"
  assumes "length pairs < 2 ^ 31 - 2" "sorted_wrt (<) (map fst pairs)"
  defines "tbl \<equiv> fold (refill bound) (lookupPatches at pairs) (lookupPayload at pairs)"
  shows "i < length pairs \<Longrightarrow> lookupswitchTarget tbl (fst (pairs ! i)) = Some (cast_u32 (asI32 (bound ! snd (pairs ! i))))"
    "sel \<notin> fst ` set pairs \<Longrightarrow> lookupswitchTarget tbl sel = Some (cast_u32 (asI32 (bd_u32 (at + 1))))"
proof -
  note t = lookup_filled [OF assms(1), where bound = bound and at = at, folded tbl_def]
  have d: "distinct (map fst pairs)" using assms(2) by (simp add: strict_sorted_iff)
  have e: "lookupswitchTarget tbl s = lookupScan tbl s (cast_u32 (asI32 (bd_u32 (at + 1)))) [0..<length pairs]" for s
    using t(1-3) by (simp add: lookupswitchTarget_def tblAt_def)
  note sc = lookupScan_pairs [OF d t(1) t(4), where k = 0 and d = "cast_u32 (asI32 (bd_u32 (at + 1)))" and sel = sel]
  show "i < length pairs \<Longrightarrow> lookupswitchTarget tbl (fst (pairs ! i)) = Some (cast_u32 (asI32 (bound ! snd (pairs ! i))))"
    "sel \<notin> fst ` set pairs \<Longrightarrow> lookupswitchTarget tbl sel = Some (cast_u32 (asI32 (bd_u32 (at + 1))))"
    using sc t(5) unfolding e by simp_all
qed

end
