(* ===== verification/Rbc_BuilderProps.thy ===== *)
theory Rbc_BuilderProps
  imports Rbc_BuilderSwitch Rbc_Verified "HOL-Library.Code_Target_Nat"
begin

text \<open>
  The properties of the builder: branches and switches of a finished method go where the labels were
  bound, constants are shared, and which of the verifier's structural checks a finished method passes.
\<close>

section \<open>What finish has checked\<close>

lemma finish_Inr:
  assumes "finish b = (b', Inr m)"
  shows "bd_pendingError b = []" "applyPatches (bd_patches b) b = (b', None)" "m = methodOf b'" "finishChecks b' = None"
    "firstSome (doubleBound b) [0..<length (bd_labels b)] = None"
  using assms by (auto simp: finish_def Let_def split: if_splits option.splits prod.splits)

lemma firstSome_None: "firstSome f xs = None \<longleftrightarrow> (\<forall>x \<in> set xs. f x = None)"
  by (induction xs) (auto split: option.splits)

lemma finishChecks_None:
  assumes "finishChecks b = None"
  shows "pc < length (bd_code b) \<Longrightarrow> switchShape b pc = None" "pc < length (bd_code b) \<Longrightarrow> insError b pc = None"
    "h \<in> set (bd_handlers b) \<Longrightarrow> handlerError b h = None" "bd_numRegs b \<le> kMaxRegs"
  using assms by (auto simp: finishChecks_def firstSome_None split: option.splits if_splits)

text \<open>A finished method has the code of the builder with the immediates and tables patched.\<close>

lemma finish_effect:
  assumes "builderOk b" "finish b = (b', Inr m)"
  shows "length (code m) = length (bd_code b)" "length (cp m) = length (bd_cp b)"
    "at < length (bd_code b) \<Longrightarrow> code m ! at = fold (retarget (bd_boundAt b)) (immPatches b at (bd_patches b)) (bd_code b ! at)"
    "k < length (bd_cp b) \<Longrightarrow> cp m ! k = (bd_cp b ! k)\<lparr>c_ints := fold (refill (bd_boundAt b)) (tablePatchesOf b k (bd_patches b)) (c_ints (bd_cp b ! k))\<rparr>"
    "p \<in> set (bd_patches b) \<Longrightarrow> bd_boundAt b ! pt_labelId p < length (bd_code b)"
proof -
  note f = finish_Inr [OF assms(2)]
  have ok: "\<forall>p \<in> set (bd_patches b). payloadPatch p \<longrightarrow> isSwitchOp (ins_op (bd_code b ! pt_at p))"
    "\<forall>p \<in> set (bd_patches b). \<forall>q \<in> set (bd_patches b). pt_at p = pt_at q \<longrightarrow> payloadPatch p \<longrightarrow> payloadPatch q"
    using assms(1) unfolding builderOk_def patchesOk_def by blast+
  obtain ic cs where "b' = b\<lparr>bd_code := ic, bd_cp := cs\<rparr>" "length ic = length (bd_code b)" "length cs = length (bd_cp b)"
    "\<forall>at < length (bd_code b). ic ! at = fold (retarget (bd_boundAt b)) (immPatches b at (bd_patches b)) (bd_code b ! at)"
    "\<forall>k < length (bd_cp b). cs ! k = (bd_cp b ! k)\<lparr>c_ints := fold (refill (bd_boundAt b)) (tablePatchesOf b k (bd_patches b)) (c_ints (bd_cp b ! k))\<rparr>"
    "\<forall>p \<in> set (bd_patches b). bd_boundAt b ! pt_labelId p < length (bd_code b)"
    using applyPatches_effect [OF f(2) ok] by blast
  then show "length (code m) = length (bd_code b)" "length (cp m) = length (bd_cp b)"
    "at < length (bd_code b) \<Longrightarrow> code m ! at = fold (retarget (bd_boundAt b)) (immPatches b at (bd_patches b)) (bd_code b ! at)"
    "k < length (bd_cp b) \<Longrightarrow> cp m ! k = (bd_cp b ! k)\<lparr>c_ints := fold (refill (bd_boundAt b)) (tablePatchesOf b k (bd_patches b)) (c_ints (bd_cp b ! k))\<rparr>"
    "p \<in> set (bd_patches b) \<Longrightarrow> bd_boundAt b ! pt_labelId p < length (bd_code b)"
    by (simp_all add: f(3) methodOf_def)
qed

section \<open>Branches\<close>

lemma bound_stays:
  assumes "bstep\<^sup>*\<^sup>* (bindLabel l c) b" "assembled c" "l < length (bd_labels c)" "l < kUnbound" "bd_boundAt c ! l = kUnbound"
    "length (bd_code c) < kDoubleBound" "finish b = (b', Inr m)"
  shows "bd_boundAt b ! l = length (bd_code c)"
proof -
  have ok: "builderOk c" using assembled_ok [OF assms(2)] .
  then have l: "l < length (bd_boundAt c)" using assms(3) by (simp add: builderOk_def)
  have "bd_boundAt (bindLabel l c) ! l = length (bd_code c)"
    using assms(3-6) l by (simp add: bindLabel_def bd_u32_def kUnbound_def kDoubleBound_def)
  moreover have "l < length (bd_boundAt (bindLabel l c))" using l by (simp add: bindLabel_def)
  moreover have "keeps (bindLabel l c) b" by (rule bsteps_keeps [OF assms(1)])
  ultimately have "bd_boundAt b ! l = length (bd_code c) \<or> bd_boundAt b ! l = kDoubleBound" "l < length (bd_boundAt b)"
    using assms(6) by (auto simp: keeps_def boundKept_def kUnbound_def kDoubleBound_def)
  moreover have "builderOk b" using bsteps_ok [OF assms(1)] builderOk_step [OF bstep.bindLabel ok] by blast
  then have "bd_boundAt b ! l \<noteq> kDoubleBound"
    using finish_Inr(5) [OF assms(7)] \<open>l < length (bd_boundAt b)\<close> by (auto simp: firstSome_None doubleBound_def builderOk_def split: if_splits)
  ultimately show ?thesis by blast
qed

text \<open>The patches of a later builder around those of one step.\<close>

lemma later_patches:
  assumes "keeps b1 b2" "bd_code b1 = bd_code b @ [i]" "bd_cp b1 = bd_cp b @ cs" "bd_patches b1 = bd_patches b @ qs" "builderOk b"
  shows "\<exists>ps. bd_patches b2 = bd_patches b @ qs @ ps \<and> (\<forall>p \<in> set (bd_patches b). pt_at p < length (bd_code b)
        \<and> bd_code b2 ! pt_at p = bd_code b ! pt_at p \<and> (payloadPatch p \<longrightarrow> ins_imm (bd_code b ! pt_at p) < length (bd_cp b)))
      \<and> (\<forall>p \<in> set ps. length (bd_code b) < pt_at p \<and> (payloadPatch p \<longrightarrow> length (bd_cp b1) \<le> ins_imm (bd_code b2 ! pt_at p)))"
    "length (bd_code b) < length (bd_code b2)" "bd_code b2 ! length (bd_code b) = i"
    "k < length (bd_cp b1) \<Longrightarrow> k < length (bd_cp b2) \<and> bd_cp b2 ! k = bd_cp b1 ! k"
proof -
  obtain ic cs' ps where g: "bd_code b2 = bd_code b @ i # ic" "bd_cp b2 = bd_cp b1 @ cs'" "bd_patches b2 = bd_patches b @ qs @ ps"
    "\<And>p. p \<in> set ps \<Longrightarrow> length (bd_code b) < pt_at p" "\<And>p. p \<in> set ps \<Longrightarrow> payloadPatch p \<Longrightarrow> length (bd_cp b1) \<le> ins_imm (bd_code b2 ! pt_at p)"
  proof -
    obtain ic cs' ps where "grown_by b1 b2 ic cs' ps" using assms(1) unfolding keeps_def by blast
    then have "bd_code b2 = bd_code b1 @ ic" "bd_cp b2 = bd_cp b1 @ cs'" "bd_patches b2 = bd_patches b1 @ ps"
      "\<And>p. p \<in> set ps \<Longrightarrow> length (bd_code b1) \<le> pt_at p" "\<And>p. p \<in> set ps \<Longrightarrow> payloadPatch p \<Longrightarrow> length (bd_cp b1) \<le> ins_imm (bd_code b2 ! pt_at p)"
      unfolding grown_by_def by blast+
    then show thesis using that [of ic cs' ps] assms(2,4) by (simp add: Suc_le_eq)
  qed
  have p: "pt_at p < length (bd_code b) \<and> (payloadPatch p \<longrightarrow> ins_imm (bd_code b ! pt_at p) < length (bd_cp b))" if "p \<in> set (bd_patches b)" for p
    using assms(5) that unfolding builderOk_def patchesOk_def by blast
  show "\<exists>ps. bd_patches b2 = bd_patches b @ qs @ ps \<and> (\<forall>p \<in> set (bd_patches b). pt_at p < length (bd_code b)
        \<and> bd_code b2 ! pt_at p = bd_code b ! pt_at p \<and> (payloadPatch p \<longrightarrow> ins_imm (bd_code b ! pt_at p) < length (bd_cp b)))
      \<and> (\<forall>p \<in> set ps. length (bd_code b) < pt_at p \<and> (payloadPatch p \<longrightarrow> length (bd_cp b1) \<le> ins_imm (bd_code b2 ! pt_at p)))"
    using g(3-5) p by (intro exI [of _ ps]) (simp add: g(1) nth_append)
  show "length (bd_code b) < length (bd_code b2)" "bd_code b2 ! length (bd_code b) = i"
    "k < length (bd_cp b1) \<Longrightarrow> k < length (bd_cp b2) \<and> bd_cp b2 ! k = bd_cp b1 ! k"
    by (simp_all add: g(1,2) nth_append)
qed

lemma branch_patched:
  assumes "assembled b" "length (bd_code b) + 1 < kDoubleBound" "bstep\<^sup>*\<^sup>* (fst (branchIns i l b)) b2" "finish b2 = (b3, Inr m)"
  shows "code m ! length (bd_code b) = i\<lparr>ins_imm := bd_boundAt b2 ! l\<rparr> \<and> bd_boundAt b2 ! l < length (code m) \<and> length (bd_code b) < length (code m)"
proof -
  let ?b1 = "fst (branchIns i l b)" and ?at = "length (bd_code b)" and ?q = "mkPatch (length (bd_code b)) l kBranchSlot"
  have ok: "builderOk b" "builderOk b2"
    using assembled_ok [OF assms(1)] bsteps_ok [OF assms(3)] builderOk_step [OF bstep.branchIns [OF assms(2)]] by blast+
  have f: "bd_code ?b1 = bd_code b @ [i]" "bd_cp ?b1 = bd_cp b @ []" "bd_patches ?b1 = bd_patches b @ [?q]"
    using assms(2) by (simp_all add: branchIns_def rawEmit_def addPatches_def Let_def bd_u32_def kDoubleBound_def)
  note l = later_patches [OF bsteps_keeps [OF assms(3)] f ok(1)]
  obtain ps where ps: "bd_patches b2 = bd_patches b @ [?q] @ ps" "\<forall>p \<in> set (bd_patches b). pt_at p < ?at" "\<forall>p \<in> set ps. ?at < pt_at p" using l(1) by blast
  have "immPatches b2 ?at (bd_patches b2) = [?q]"
  proof -
    have "filter (\<lambda>p. pt_at p = ?at \<and> \<not> payloadPatch p) (bd_patches b) = []" "filter (\<lambda>p. pt_at p = ?at \<and> \<not> payloadPatch p) ps = []"
      using ps(2,3) by (fastforce simp: filter_empty_conv)+
    then show ?thesis by (simp add: immPatches_def ps(1) mkPatch_def payloadPatch_def)
  qed
  moreover have "bd_boundAt b2 ! l < length (bd_code b2)" using finish_effect(5) [OF ok(2) assms(4), of ?q] ps(1) by (simp add: mkPatch_def)
  ultimately show ?thesis using finish_effect(1,3) [OF ok(2) assms(4)] l(2,3) by (simp add: retarget_def mkPatch_def)
qed

text \<open>Property C22. A branch of a finished method goes to the place of its label. Emit a branch to a label, and
  bind the label, in any order and with anything in between: if \<open>finish\<close> accepts the method, the
  target of that instruction is the number of instructions there were when the label was bound, and
  it is an instruction of the method.\<close>

theorem branch_lands_on_label:
  assumes "assembled b" "length (bd_code b) + 1 < kDoubleBound" "bstep\<^sup>*\<^sup>* (fst (branchIns i l b)) b2"
    and "assembled c" "l < length (bd_labels c)" "l < kUnbound" "bd_boundAt c ! l = kUnbound" "length (bd_code c) < kDoubleBound"
    and "bstep\<^sup>*\<^sup>* (bindLabel l c) b2" "finish b2 = (b3, Inr m)"
  shows "code m ! length (bd_code b) = i\<lparr>ins_imm := length (bd_code c)\<rparr> \<and> length (bd_code b) < length (code m) \<and> length (bd_code c) < length (code m)"
  using branch_patched [OF assms(1-3,10)] bound_stays [OF assms(9,4-8,10)] by simp

section \<open>Switches\<close>

lemma switch_patched:
  assumes "assembled b" "isSwitchOp v" "length (bd_code b) + 1 < kDoubleBound" "length (bd_cp b) + 1 < 2 ^ 32" "length payload < 2 ^ 31 - 2"
    and "bstep\<^sup>*\<^sup>* (fst (emitSwitch v a payload targets b)) b2" "finish b2 = (b3, Inr m)"
  shows "code m ! length (bd_code b) = switchIns v a b" "length (bd_code b) + 1 < length (code m)" "length (code m) < 2 ^ 32"
    "length (bd_cp b) < length (cp m)"
    "c_ints (cp m ! length (bd_cp b)) = fold (refill (bd_boundAt b2)) (switchPatches v payload targets b) (c_ints (switchConst v payload targets b))"
    "bd_pendingError (switchErrors v (length (bd_code b)) payload targets b) = []"
    "p \<in> set (switchPatches v payload targets b) \<Longrightarrow> bd_boundAt b2 ! pt_labelId p < length (code m)"
proof -
  let ?b1 = "fst (emitSwitch v a payload targets b)" and ?at = "length (bd_code b)" and ?k = "length (bd_cp b)"
    and ?qs = "switchPatches v payload targets b"
  have sz: "length (bd_code b) < 2 ^ 32" "length (bd_cp b) < 2 ^ 32" using assms(3,4) by (simp_all add: kDoubleBound_def)
  note f = emitSwitch_fields [OF assms(2) sz, of a payload targets]
  have ok: "builderOk b" "builderOk b2"
    using assembled_ok [OF assms(1)] bsteps_ok [OF assms(6)] builderOk_step [OF bstep.emitSwitch [OF assms(3-5)]] by blast+
  note k = bsteps_keeps [OF assms(6)]
  note l = later_patches [OF k f(1-3) ok(1)]
  obtain ps where ps: "bd_patches b2 = bd_patches b @ ?qs @ ps"
    "\<forall>p \<in> set (bd_patches b). pt_at p < ?at \<and> bd_code b2 ! pt_at p = bd_code b ! pt_at p \<and> (payloadPatch p \<longrightarrow> ins_imm (bd_code b ! pt_at p) < ?k)"
    "\<forall>p \<in> set ps. ?at < pt_at p \<and> (payloadPatch p \<longrightarrow> length (bd_cp ?b1) \<le> ins_imm (bd_code b2 ! pt_at p))"
    using l(1) by blast
  have qs: "\<forall>p \<in> set ?qs. payloadPatch p \<and> pt_at p = ?at" using switchPatches_slots [OF assms(5)] by blast
  have "immPatches b2 ?at (bd_patches b2) = []"
    using ps(2,3) qs by (fastforce simp: immPatches_def ps(1) filter_empty_conv)
  then show code: "code m ! ?at = switchIns v a b" using finish_effect(3) [OF ok(2) assms(7)] l(2,3) by simp
  have "tablePatchesOf b2 ?k (bd_patches b) = []" using ps(2) by (fastforce simp: tablePatchesOf_def filter_empty_conv)
  moreover have "tablePatchesOf b2 ?k ps = []" using ps(3) f(2) by (fastforce simp: tablePatchesOf_def filter_empty_conv)
  moreover have "tablePatchesOf b2 ?k ?qs = ?qs" using qs l(3) by (simp add: tablePatchesOf_def filter_id_conv switchIns_def mkIns_def)
  ultimately have t: "tablePatchesOf b2 ?k (bd_patches b2) = ?qs" by (simp add: ps(1) tablePatchesOf_def)
  have kk: "?k < length (bd_cp b2)" "bd_cp b2 ! ?k = switchConst v payload targets b" using l(4) [of ?k] f(2) by (simp_all add: nth_append)
  show "?k < length (cp m)" using finish_effect(2) [OF ok(2) assms(7)] kk(1) by simp
  show "c_ints (cp m ! ?k) = fold (refill (bd_boundAt b2)) ?qs (c_ints (switchConst v payload targets b))"
    using finish_effect(4) [OF ok(2) assms(7) kk(1)] t kk(2) by simp
  show "bd_pendingError (switchErrors v ?at payload targets b) = []"
    using k f(7) finish_Inr(1) [OF assms(7)] by (auto simp: keeps_def)
  show "p \<in> set ?qs \<Longrightarrow> bd_boundAt b2 ! pt_labelId p < length (code m)"
    using finish_effect(1,5) [OF ok(2) assms(7)] ps(1) by simp
  show "length (code m) < 2 ^ 32" using finish_effect(1) [OF ok(2) assms(7)] ok(2) by (simp add: builderOk_def kDoubleBound_def)
  note fi = finish_Inr [OF assms(7)]
  have cm: "code m = bd_code b3" using fi(3) by (simp add: methodOf_def)
  have "?at < length (code m)" using finish_effect(1) [OF ok(2) assms(7)] l(2) by simp
  then have "switchShape b3 ?at = None" using finishChecks_None(1) [OF fi(4)] cm by simp
  then show "?at + 1 < length (code m)" using code assms(2) cm
    by (auto simp: switchShape_def Let_def switchIns_def mkIns_def split: if_split_asm)
qed

lemma pair_index:
  assumes "length payload = length targets" "i < length payload"
  shows "\<exists>j < length payload. sort_key fst (zip payload targets) ! j = (payload ! i, targets ! i)"
proof -
  have "(payload ! i, targets ! i) \<in> set (sort_key fst (zip payload targets))"
    using assms by (auto simp: set_zip)
  then show ?thesis using assms(1) unfolding in_set_conv_nth by simp
qed

text \<open>The table of the switch, read the way the interpreter reads it.\<close>

lemma switch_dispatch:
  assumes "assembled b" "isSwitchOp v" "length (bd_code b) + 1 < kDoubleBound" "length (bd_cp b) + 1 < 2 ^ 32" "length payload < 2 ^ 31 - 2"
    and "bstep\<^sup>*\<^sup>* (fst (emitSwitch v a payload targets b)) b2" "finish b2 = (b3, Inr m)"
  defines "pairs \<equiv> sort_key fst (zip payload targets)"
  shows "j < length pairs \<Longrightarrow> switchTarget m (code m ! length (bd_code b)) (fst (pairs ! j)) = Some (cast_u32 (asI32 (bd_boundAt b2 ! snd (pairs ! j))))"
    "sel \<notin> fst ` set pairs \<Longrightarrow> switchTarget m (code m ! length (bd_code b)) sel = Some (cast_u32 (asI32 (bd_u32 (length (bd_code b) + 1))))"
proof -
  note s = switch_patched [OF assms(1-7)]
  note e = switchErrors_clean [OF s(6), folded pairs_def]
  have n: "length pairs < 2 ^ 31 - 2" using assms(5) by (simp add: pairs_def)
  note fold = s(5) [unfolded switchPatches_def switchConst_def Let_def, folded pairs_def]
  let ?st = "switchTarget m (code m ! length (bd_code b))" and ?tbl = "c_ints (cp m ! length (bd_cp b))"
  have st: "?st x = (if v = Op_Tableswitch then tableswitchTarget ?tbl x else lookupswitchTarget ?tbl x)" for x
    by (simp add: switchTarget_def s(1) switchIns_def mkIns_def)
  have "(j < length pairs \<longrightarrow> ?st (fst (pairs ! j)) = Some (cast_u32 (asI32 (bd_boundAt b2 ! snd (pairs ! j)))))
    \<and> (sel \<notin> fst ` set pairs \<longrightarrow> ?st sel = Some (cast_u32 (asI32 (bd_u32 (length (bd_code b) + 1)))))"
  proof (cases "v = Op_Tableswitch")
    case True
    have ne: "pairs \<noteq> []" "last (map fst pairs) - hd (map fst pairs) + 1 = int (length (map fst pairs))" using e(3) [OF True] by simp_all
    have "?tbl = fold (refill (bd_boundAt b2)) (tablePatches (length (bd_code b)) pairs) (tablePayload (length (bd_code b)) pairs)"
      using fold True by simp
    then show ?thesis unfolding st using table_dispatch [OF n e(2) ne] True by presburger
  next
    case False
    have "?tbl = fold (refill (bd_boundAt b2)) (lookupPatches (length (bd_code b)) pairs) (lookupPayload (length (bd_code b)) pairs)"
      using fold False by simp
    then show ?thesis unfolding st using lookup_dispatch [OF n e(2)] False by presburger
  qed
  then show "j < length pairs \<Longrightarrow> ?st (fst (pairs ! j)) = Some (cast_u32 (asI32 (bd_boundAt b2 ! snd (pairs ! j))))"
    "sel \<notin> fst ` set pairs \<Longrightarrow> ?st sel = Some (cast_u32 (asI32 (bd_u32 (length (bd_code b) + 1))))" by blast+
qed

text \<open>Property C21. A switch of a finished method dispatches to its labels. The matches and labels are given in
  any order, and anything may be emitted afterwards, other switches with the same matches included: if
  \<open>finish\<close> accepts the method, the interpreter's lookup sends each match to the place where its own label was
  bound and every other selector to the next instruction; all of these are instructions of the method.\<close>

theorem switch_goes_to_labels:
  assumes "assembled b" "isSwitchOp v" "length (bd_code b) + 1 < kDoubleBound" "length (bd_cp b) + 1 < 2 ^ 32" "length payload < 2 ^ 31 - 2"
    and "bstep\<^sup>*\<^sup>* (fst (emitSwitch v a payload targets b)) b2" "finish b2 = (b3, Inr m)"
  shows "length payload = length targets
    \<and> (\<forall>i < length payload. switchTarget m (code m ! length (bd_code b)) (payload ! i) = Some (bd_boundAt b2 ! (targets ! i))
         \<and> bd_boundAt b2 ! (targets ! i) < length (code m))
    \<and> (\<forall>sel. sel \<notin> set payload \<longrightarrow> switchTarget m (code m ! length (bd_code b)) sel = Some (length (bd_code b) + 1))
    \<and> length (bd_code b) + 1 < length (code m)"
proof -
  let ?pairs = "sort_key fst (zip payload targets)"
  note s = switch_patched [OF assms]
  note d = switch_dispatch [OF assms]
  have len: "length payload = length targets" by (rule switchErrors_clean(1) [OF s(6)])
  have "switchTarget m (code m ! length (bd_code b)) (payload ! i) = Some (bd_boundAt b2 ! (targets ! i)) \<and> bd_boundAt b2 ! (targets ! i) < length (code m)"
    if i: "i < length payload" for i
  proof -
    obtain j where j: "j < length ?pairs" "?pairs ! j = (payload ! i, targets ! i)" using pair_index [OF len i] len by auto
    have "\<exists>p \<in> set (switchPatches v payload targets b). pt_labelId p = targets ! i"
      using j by (auto simp: switchPatches_def tablePatches_def lookupPatches_def Let_def mkPatch_def intro!: bexI [of _ j])
    then have "bd_boundAt b2 ! (targets ! i) < length (code m)" using s(7) by metis
    then show ?thesis using d(1) [OF j(1)] j(2) s(3) cast_asI32 by simp
  qed
  moreover have "switchTarget m (code m ! length (bd_code b)) sel = Some (length (bd_code b) + 1)" if "sel \<notin> set payload" for sel
  proof -
    have "sel \<notin> fst ` set ?pairs" using that by (auto dest: set_zip_leftD)
    then show ?thesis using d(2) s(2,3) by (simp add: bd_u32_def cast_asI32)
  qed
  ultimately show ?thesis using len s(2) by blast
qed

section \<open>Constants\<close>

lemma sameConst_ints: "c_kind c \<noteq> K_SwitchTable \<Longrightarrow> sameConst (x\<lparr>c_ints := ys\<rparr>) c = sameConst x c"
  by (cases "c_kind c") (auto simp: sameConst_def)

lemma find_upt:
  "find P [0..<n] = Some i \<longleftrightarrow> i < n \<and> P i \<and> (\<forall>j < i. \<not> P j)" "find P [0..<n] = None \<longleftrightarrow> (\<forall>j < n. \<not> P j)"
proof -
  show "find P [0..<n] = None \<longleftrightarrow> (\<forall>j < n. \<not> P j)" by (auto simp: find_None_iff)
  show "find P [0..<n] = Some i \<longleftrightarrow> i < n \<and> P i \<and> (\<forall>j < i. \<not> P j)"
    by (auto simp: find_Some_iff intro!: exI [of _ i])
qed

lemma sameConst_refl: "sameConst c c"
  by (simp add: sameConst_def split: const_kind.split)

lemma interned:
  fixes b :: builder and c :: const
  assumes "length (bd_cp b) + 1 < 2 ^ 32"
  defines "k \<equiv> snd (internConst c b)" and "b1 \<equiv> fst (internConst c b)"
  shows "find (\<lambda>i. sameConst (bd_cp b1 ! i) c) [0..<length (bd_cp b1)] = Some k" "length (bd_cp b1) < 2 ^ 32"
  using assms(1) sameConst_refl [of c] unfolding k_def b1_def
  by (auto simp: internConst_def find_upt nth_append bd_u32_def split: option.split)


section \<open>Structure\<close>

text \<open>What \<open>finish\<close> establishes of the verifier's structure. The destinations of calls and field stores are the
  verifier's to check.\<close>

definition finishedIns :: "rmethod \<Rightarrow> ins \<Rightarrow> bool" where
  "finishedIns m i \<longleftrightarrow>
     (let s = op_sig (info (ins_op i)); ru = regUse s; v = ins_op i; call = (s = Sig_Call \<or> s = Sig_CallQuick)
      in (\<not> call \<and> v \<noteq> Op_Putfield \<and> v \<noteq> Op_PutfieldQuick \<and> ru_dst ru \<longrightarrow> ins_dst i < numRegs m)
       \<and> (\<not> call \<and> ru_a ru \<longrightarrow> ins_a i < numRegs m)
       \<and> (\<not> call \<and> v \<noteq> Op_Multianewarray \<and> ru_b ru \<longrightarrow> ins_b i < numRegs m)
       \<and> ((call \<or> v = Op_Multianewarray) \<and> ins_b i > 0 \<longrightarrow> ins_a i + ins_b i \<le> numRegs m)
       \<and> (s = Sig_RegSlot \<or> s = Sig_SlotReg \<longrightarrow> ins_imm i < numLocals m)
       \<and> (isSwitchOp v \<longrightarrow> ins_imm i < length (cp m) \<and> c_kind (cp m ! ins_imm i) = K_SwitchTable))"

lemma special_sigs:
  "op_sig (info Op_Multianewarray) = Sig_RegRegRegCp" "op_sig (info Op_Putfield) = Sig_RegRegRegCp" "op_sig (info Op_PutfieldQuick) = Sig_RegRegRegCp"
  by (simp_all add: info_def kOpInfo_def kOpInfo_defs opCount_def)

lemma insError_finished:
  assumes "insError b pc = None" "switchShape b pc = None"
  shows "finishedIns (methodOf b) (bd_code b ! pc)"
proof -
  let ?i = "bd_code b ! pc"
  have sw: "isSwitchOp (ins_op ?i) \<longrightarrow> ins_imm ?i < length (bd_cp b) \<and> c_kind (bd_cp b ! ins_imm ?i) = K_SwitchTable"
    using assms(2) by (auto simp: switchShape_def Let_def split: if_split_asm)
  consider (special) "ins_op ?i = Op_Multianewarray \<or> ins_op ?i = Op_Putfield \<or> ins_op ?i = Op_PutfieldQuick"
    | (plain) "ins_op ?i \<noteq> Op_Multianewarray" "ins_op ?i \<noteq> Op_Putfield" "ins_op ?i \<noteq> Op_PutfieldQuick" by blast
  then show ?thesis
  proof cases
    case special
    then show ?thesis using assms(1) sw special_sigs
      by (auto simp: insError_def finishedIns_def methodOf_def Let_def split: if_split_asm)
  next
    case plain
    then show ?thesis using assms(1) sw
      by (cases "op_sig (info (ins_op ?i))") (auto simp: insError_def finishedIns_def methodOf_def Let_def split: if_split_asm)
  qed
qed

text \<open>Property C23. A finished method has the structure the verifier requires wherever the builder checks it: register
  operands and local slots are in range, argument and dimension registers too, switches have a
  successor and a switch table, and handlers that name a type or catch everything satisfy the
  verifier's handler rules.\<close>

theorem finished_structure:
  assumes "finish b = (b', Inr m)"
  shows "numRegs m \<le> kMaxRegs \<and> (\<forall>pc < length (code m). finishedIns m (code m ! pc) \<and> (isSwitchOp (ins_op (code m ! pc)) \<longrightarrow> pc + 1 < length (code m)))
    \<and> (\<forall>h \<in> set (handlers m). h_catchType h \<ge> -1 \<longrightarrow> handlerOk m h)"
proof -
  note f = finish_Inr [OF assms]
  note c = finishChecks_None [OF f(4)]
  have "finishedIns m (code m ! pc) \<and> (isSwitchOp (ins_op (code m ! pc)) \<longrightarrow> pc + 1 < length (code m))" if "pc < length (code m)" for pc
  proof -
    have pc: "pc < length (bd_code b')" using that f(3) by (simp add: methodOf_def)
    have "isSwitchOp (ins_op (bd_code b' ! pc)) \<longrightarrow> pc + 1 < length (bd_code b')"
      using c(1) [OF pc] by (auto simp: switchShape_def Let_def split: if_split_asm)
    then show ?thesis using insError_finished [OF c(2) [OF pc] c(1) [OF pc]] f(3) by (simp add: methodOf_def)
  qed
  moreover have "handlerOk m h" if "h \<in> set (handlers m)" "h_catchType h \<ge> -1" for h
  proof -
    have "handlerError b' h = None" using c(3) that(1) f(3) by (simp add: methodOf_def)
    then show ?thesis using that(2) f(3) by (auto simp: handlerError_def handlerOk_def methodOf_def Let_def split: if_split_asm)
  qed
  moreover have "numRegs m \<le> kMaxRegs" using c(4) f(3) by (simp add: methodOf_def)
  ultimately show ?thesis by blast
qed

section \<open>Examples\<close>

definition start1 :: builder where
  "start1 = setRegs 1 (fst (newLabel (newBuilder ''f'' ''()V'' 0)))"

definition branch1 :: builder where "branch1 = fst (branchIns (mkIns Op_Goto 0 0 0 0) 0 start1)"
definition branch2 :: builder where "branch2 = fst (rawEmit (mkIns Op_Return 0 0 0 0) (bindLabel 0 branch1))"

definition switch1 :: builder where "switch1 = fst (emitSwitch Op_Lookupswitch 0 [5, -3] [0, 0] start1)"
definition switch2 :: builder where
  "switch2 = fst (rawEmit (mkIns Op_Return 0 0 0 0) (bindLabel 0 (fst (rawEmit (mkIns Op_Return 0 0 0 0) switch1))))"

definition sevenConst :: const where "sevenConst = defaultConst\<lparr>c_i32 := 7\<rparr>"
definition const1 :: builder where "const1 = fst (internConst sevenConst start1)"
definition const2 :: builder where "const2 = fst (rawEmit (mkIns Op_Return 0 0 0 0) const1)"

text \<open>A call without registers, and an array creation with one register and one dimension.\<close>

definition voidCaller :: builder where
  "voidCaller = fst (emit Op_Return (fst (emitCall Op_Invokestatic 0 0 0 0 (fst (constMethodRef ''A'' ''g'' ''()V'' (newBuilder ''f'' ''()V'' 0))))))"

definition arrayMaker :: builder where
  "arrayMaker = fst (emit Op_Return (fst (emitRegRegRegCp Op_Multianewarray 0 0 1 0 (fst (constClass ''[I'' start1)))))"

lemma samples_finish:
  "\<not> isl (snd (finish branch2))" "\<not> isl (snd (finish switch2))" "\<not> isl (snd (finish const2))" "\<not> isl (snd (finish voidCaller))" "\<not> isl (snd (finish arrayMaker))"
  by code_simp+

lemma finish_projr: "\<not> isl (snd (finish b)) \<Longrightarrow> finish b = (fst (finish b), Inr (projr (snd (finish b))))"
  by (metis prod.collapse sum.collapse(2))

lemma start1_assembled: "assembled start1"
  unfolding start1_def by (intro assembled.step [OF _ bstep.setRegs] assembled.step [OF _ bstep.newLabel] assembled.new) (simp add: newBuilder_def kUnbound_def)

lemma start1_simps [simp]: "bd_code start1 = []" "bd_cp start1 = []" "bd_labels start1 = [0]" "bd_boundAt start1 = [kUnbound]"
  by (simp_all add: start1_def setRegs_def newLabel_def newBuilder_def bd_u32_def)

theorem branch_lands_on_label_witness:
  "\<exists>b3 m. finish branch2 = (b3, Inr m) \<and> code m ! 0 = (mkIns Op_Goto 0 0 0 0)\<lparr>ins_imm := 1\<rparr> \<and> 1 < length (code m)"
proof -
  have b1: "assembled branch1" unfolding branch1_def
    by (rule assembled.step [OF start1_assembled bstep.branchIns]) (simp add: kDoubleBound_def)
  have f1: "length (bd_code branch1) = 1" "bd_labels branch1 = [0]" "bd_boundAt branch1 = [kUnbound]"
    by (simp_all add: branch1_def branchIns_def rawEmit_def addPatches_def)
  have last: "bstep (bindLabel 0 branch1) branch2" unfolding branch2_def
    by (rule bstep.rawEmit) (simp add: bindLabel_def f1 kDoubleBound_def)
  have s: "bstep\<^sup>*\<^sup>* (bindLabel 0 branch1) branch2" "bstep\<^sup>*\<^sup>* (fst (branchIns (mkIns Op_Goto 0 0 0 0) 0 start1)) branch2"
    using last bstep.bindLabel [of branch1 0] by (auto simp flip: branch1_def)
  note fin = finish_projr [OF samples_finish(1)]
  have "code (projr (snd (finish branch2))) ! length (bd_code start1) = (mkIns Op_Goto 0 0 0 0)\<lparr>ins_imm := length (bd_code branch1)\<rparr>
      \<and> length (bd_code start1) < length (code (projr (snd (finish branch2)))) \<and> length (bd_code branch1) < length (code (projr (snd (finish branch2))))"
    by (rule branch_lands_on_label [OF start1_assembled _ s(2) b1 _ _ _ _ s(1) fin]) (simp_all add: f1 kDoubleBound_def kUnbound_def)
  then show ?thesis using fin f1(1) by auto
qed

theorem switch_goes_to_labels_witness:
  "\<exists>b3 m. finish switch2 = (b3, Inr m) \<and> switchTarget m (code m ! 0) 5 = Some 2 \<and> switchTarget m (code m ! 0) 6 = Some 1"
proof -
  have "bstep\<^sup>*\<^sup>* switch1 switch2"
  proof -
    have "length (bd_code switch1) + 1 < kDoubleBound" "length (bd_code (bindLabel 0 (fst (rawEmit (mkIns Op_Return 0 0 0 0) switch1)))) + 1 < kDoubleBound"
      by code_simp+
    then have "bstep switch1 (fst (rawEmit (mkIns Op_Return 0 0 0 0) switch1))"
      "bstep (bindLabel 0 (fst (rawEmit (mkIns Op_Return 0 0 0 0) switch1))) switch2"
      unfolding switch2_def by (blast intro: bstep.rawEmit)+
    from r_into_rtranclp [of bstep, OF this(1)] bstep.bindLabel [of "fst (rawEmit (mkIns Op_Return 0 0 0 0) switch1)" 0] this(2)
    show ?thesis by (rule rtranclp.rtrancl_into_rtrancl [OF rtranclp.rtrancl_into_rtrancl])
  qed
  then have s: "bstep\<^sup>*\<^sup>* (fst (emitSwitch Op_Lookupswitch 0 [5, -3] [0, 0] start1)) switch2" by (simp add: switch1_def)
  note fin = finish_projr [OF samples_finish(2)]
  let ?m = "projr (snd (finish switch2))"
  have "(\<forall>i < 2. switchTarget ?m (code ?m ! 0) ([5, -3] ! i) = Some (bd_boundAt switch2 ! ([0, 0] ! i)))
      \<and> (\<forall>sel. sel \<notin> set [5, -3] \<longrightarrow> switchTarget ?m (code ?m ! 0) sel = Some 1)"
    using switch_goes_to_labels [OF start1_assembled _ _ _ _ s fin] by (simp add: isSwitchOp_def kDoubleBound_def)
  moreover have "bd_boundAt switch2 = [2]" by code_simp
  ultimately have "switchTarget ?m (code ?m ! 0) 5 = Some 2" "switchTarget ?m (code ?m ! 0) 6 = Some 1" by (auto dest: spec [of _ 0])
  then show ?thesis using fin by blast
qed


theorem finished_structure_witness:
  "\<exists>b3 m. finish switch2 = (b3, Inr m) \<and> finishedIns m (code m ! 0) \<and> 1 < length (code m)"
proof -
  note fin = finish_projr [OF samples_finish(2)]
  have "0 < length (code (projr (snd (finish switch2))))" "isSwitchOp (ins_op (code (projr (snd (finish switch2))) ! 0))" by code_simp+
  then show ?thesis using finished_structure [OF fin] fin by fastforce
qed

text \<open>Two methods the builder finishes and the verifier refuses: a call in a method without registers, although a
  comment of \<open>callWritesResult\<close> names this case, and a one-dimensional array creation in a method with
  one register, since the verifier reads the dimension count as a register.\<close>

lemma builder_verifier_gap:
  "\<not> isl (snd (finish voidCaller)) \<and> \<not> vr_ok (verify (projr (snd (finish voidCaller))))"
  "\<not> isl (snd (finish arrayMaker)) \<and> \<not> vr_ok (verify (projr (snd (finish arrayMaker))))"
proof -
  have "insStructOk (projr (snd (finish voidCaller))) (code (projr (snd (finish voidCaller))) ! 0) \<longleftrightarrow> False" "0 < length (code (projr (snd (finish voidCaller))))"
    "insStructOk (projr (snd (finish arrayMaker))) (code (projr (snd (finish arrayMaker))) ! 0) \<longleftrightarrow> False" "0 < length (code (projr (snd (finish arrayMaker))))"
    by code_simp+
  then show "\<not> isl (snd (finish voidCaller)) \<and> \<not> vr_ok (verify (projr (snd (finish voidCaller))))"
    "\<not> isl (snd (finish arrayMaker)) \<and> \<not> vr_ok (verify (projr (snd (finish arrayMaker))))"
    using samples_finish(4,5) verified_structure unfolding structureOk_def by (metis nth_mem)+
qed

end
