(* ===== verification/Spec2Isabelle.thy ===== *)
theory Spec2Isabelle
  imports Rbc_Verified Rbc_Descriptor Pipe_RegionSafety Interp_RunProps Interp_RuntimeOk Pass_Props Ir_SerializeProps Rbc_BuilderProps
begin

text \<open>
  A verification library for the B-2 compiler (\<open>src/compiler\<close>, \<open>src/include/b2\<close>).

  \<^bold>\<open>The program.\<close> B-2 runs a register bytecode, RBC. A method is accepted by the RBC verifier, is run by
  the T0 interpreter, is turned by the graph builder into a sea-of-nodes IR that the optimisation
  passes rewrite, and is compiled by a baseline tier and a code generator. The pipeline records which
  IR nodes and regions rest on which runtime assumption; when an assumption breaks, it computes the
  nodes to recompute (the dirty closure) and asks whether one region can be left alone (region
  safety, partial deoptimisation).

  \<^bold>\<open>Shared theories.\<close>
  \<^item> \<open>B2_Prelude\<close>: list and option lemmas, the collections of simplification rules.
  \<^item> \<open>Std_Algorithms\<close>: \<open>lower_bound\<close>, \<open>binary_search\<close>, vector insertion and sort/unique as the sources
    use them, with their characterisation on sorted lists.

  \<^bold>\<open>RBC\<close> (\<open>include/b2/rbc\<close>, \<open>compiler/rbc/src\<close>).
  \<^item> \<open>Rbc_Type\<close> (\<open>Type.h\<close>): the seven types, join, assignability; join is the least upper bound.
  \<^item> \<open>Rbc_Opcode\<close> (\<open>Opcode.h\<close>, \<open>Opcode.cpp\<close>): the opcodes as numbers and one row of metadata each.
  \<^item> \<open>Rbc_Program\<close> (\<open>Rbc.h\<close>, \<open>Rbc.cpp\<close>): instructions, constant pool, handlers, methods.
  \<^item> \<open>Rbc_Descriptor\<close> (\<open>Rbc.cpp\<close>): printing and parsing of descriptors, the two scanners compared.
  \<^item> \<open>Rbc_Verifier\<close>, \<open>Rbc_Worklist\<close> (\<open>Verifier.cpp\<close>): every phase of \<open>verify\<close>: guards, the structural
    pass, switch payloads, handlers, blocks, the worklist with its work budget, the final sweep and
    the check of protected ranges. Budgets are state of the model, as in the code: running out is a
    diagnostic, so an accepted method is one where they sufficed and no theorem assumes them.
  \<^item> \<open>Rbc_Flow\<close>, \<open>Rbc_Cfg\<close>, \<open>Rbc_Fixpoint\<close>, \<open>Rbc_Sweep\<close>, \<open>Rbc_Stability\<close>, \<open>Rbc_Sound\<close>,
    \<open>Rbc_Switch\<close>: monotone transfer, block structure, invariants of the worklist, and soundness: the fixpoint is
    a well-typed state assignment closed under every edge. \<open>Rbc_Example\<close> is a concrete method with a loop,
    a switch and a handler; \<open>Rbc_Verified\<close> states the properties of \<open>verify\<close>.
  \<^item> \<open>Rbc_Builder\<close> (\<open>RbcBuilder.h\<close>, \<open>RbcBuilder.cpp\<close>): the assembler of methods: interning, emission, labels, switches,
    \<open>finish\<close> with its patches and checks. \<open>Rbc_BuilderOk\<close> has the step relation \<open>bstep\<close> of its operations, its invariant
    and the effect of the patches; \<open>Rbc_BuilderSwitch\<close> the payloads of switches as the interpreter reads them;
    \<open>Rbc_BuilderProps\<close> the properties: branches and switches go to their labels, constants are shared, the
    structure of a finished method, and two methods the builder finishes and the verifier refuses.
    The size premises of \<open>bstep\<close> keep indices below the two sentinel values of the code.

  \<^bold>\<open>T0 interpreter\<close> (\<open>include/b2/interp\<close>, \<open>compiler/interp/src\<close>).
  \<^item> \<open>Java_Num\<close> (kernels of \<open>Interp.cpp\<close>): integers are words of their width. Floats are bit patterns;
    comparison, negation, saturating conversion and widening are computed on the bits, and the rounded
    operations (sums, products, conversions that round) are the record \<open>fpu\<close>, a parameter of the step.
  \<^item> \<open>Interp_Value\<close> (\<open>Value.h\<close>): tagged values; reading the union at the wrong tag is \<open>None\<close>.
  \<^item> \<open>Interp_Heap\<close>, \<open>Interp_HeapOk\<close> (\<open>Heap.cpp\<close>): the object store. Locale \<open>slot_store\<close> is the contract of
    fields and elements, interpreted on both.
  \<^item> \<open>Interp_Local\<close> (\<open>Interp.cpp\<close>, \<open>Frame.h\<close>): one frame, the instructions that stay in it, the fetch guard
    and the handler search. A result \<open>None\<close> is an access the C++ leaves undefined; \<open>Interp_Safe\<close> proves that
    frames of accepted methods never reach it.
  \<^item> \<open>Interp_Runtime\<close>, \<open>Interp_RuntimeOk\<close> (\<open>Runtime.cpp\<close>): classes, fields, statics, methods, builtins,
    exceptions, profiles. \<open>std::to_chars\<close> is a parameter.
  \<^item> \<open>Interp_Machine\<close>, \<open>Interp_Dispatch\<close> (\<open>Interp.cpp\<close>, \<open>Interp.h\<close>, \<open>Frame.cpp\<close>): the interpreter as a record
    (runtime, frames, inline caches, dispatch profiles, result) and every opcode of \<open>dispatchLoop\<close>, with class
    initialization, the call protocol, the exception algorithm and the frame dump. A step is \<open>None\<close> where the
    C++ is undefined, otherwise a new machine with the status of the loop; \<open>dispatchFrom\<close> iterates steps and is
    a partial function, since a program may run forever. \<open>run\<close> and \<open>resume\<close> are the entry points.
  \<^item> \<open>Interp_Effects\<close>, \<open>Interp_Stack\<close>, \<open>Interp_Run\<close>: what one step can change: the runtime by its services only,
    the stack by one of the moves of the call protocol, a cache entry by a successful resolution only.
    \<open>Interp_RunProps\<close> lifts them to runs.

  \<^bold>\<open>IR\<close> (\<open>include/b2/ir\<close>, \<open>compiler/ir/core\<close>).
  \<^item> \<open>Ir_Type\<close> (\<open>Types.h\<close>), \<open>Ir_Effect\<close> (\<open>Effect.h\<close>), \<open>Ir_Node\<close> (\<open>Node.h\<close>, \<open>NodeInfo.cpp\<close>): types with
    vectors, the effect algebra with its frozen table, node kinds and the registry.
  \<^item> \<open>Ir_Graph\<close> (\<open>Graph.h\<close>, \<open>Graph.cpp\<close>): the graph as a record (nodes, edge pool, use lists, frame
    states, replacement log, epoch) and every operation that changes it.
  \<^item> \<open>Ir_GraphOk\<close>, \<open>Ir_Replace\<close>, \<open>Ir_Build\<close>: the storage and def-use invariants, the abstraction to input
    lists (locale \<open>use_def_graph\<close>, interpreted on the model), and the properties of every graph
    that the operations can build (\<open>built\<close>).
  \<^item> \<open>Ir_ResultType\<close> (\<open>resultTypeOf\<close> of \<open>Printer.cpp\<close>): the type of a node. The code follows phis without a
    visited set, so the walk is a partial function, \<open>None\<close> where it does not return. \<open>Ir_OperandType\<close>: the operand
    types of \<open>Verifier.cpp\<close>.
  \<^item> \<open>Ir_Verifier\<close> (\<open>Verifier.h\<close>, \<open>Verifier.cpp\<close>): the six passes of the IR verifier with every diagnostic. The depth and step
    bounds of its walks are those of the code and make them total; the verdict is in the option type
    only because of the types. \<open>Ir_VerifierOk\<close> follows the walks; \<open>Ir_VerifierProps\<close> says what acceptance gives
    (inputs, roles, shapes, operand types, chains that end), when the verifier returns, and which legal
    graphs it refuses.
  \<^item> \<open>Ir_Serialize\<close> (\<open>Serialize.h\<close>, \<open>Serialize.cpp\<close>): writer and reader of artifacts over lists of bytes. \<open>Ir_SerializeOk\<close> and
    \<open>Ir_Replay\<close> follow the replay of a serialized graph stage by stage over locale \<open>wire_integer\<close>, interpreted on the three
    widths; \<open>Ir_ReplayView\<close> shows that writer and verifier do not distinguish the replayed graph;
    \<open>Ir_SerializeProps\<close> has the round trip and the refusal of truncated artifacts. The condition \<open>serializable\<close> is what the field
    widths of the format ask for.

  \<^bold>\<open>Optimisation passes\<close> (\<open>compiler/passes/src\<close>).
  \<^item> \<open>Pass_Const\<close>, \<open>Pass_Support\<close> (\<open>PassInternal.h\<close>, \<open>PassSupport.cpp\<close>): the evaluators of the constant folder,
    the budget and telemetry, the junk sinks that keep the inputs of dead nodes legal, \<open>replace\<close> and \<open>kill\<close>.
  \<^item> \<open>Pass_Simplify\<close> (\<open>Simplify.cpp\<close>, \<open>DCE.cpp\<close>, \<open>GVN.cpp\<close>): every rewrite rule, the sweeps, dead code
    elimination and value numbering. The numbers of sweeps are those of the code.
  \<^item> \<open>Pass_Meaning\<close>: the history of a node over a run, what it is for an assignment of histories to be sound for
    a graph. How a node computes is a parameter that agrees with the
    interpreter's kernels; for phis and loads it is any function of the histories of the inputs.
  \<^item> \<open>Pass_Junk\<close>, \<open>Pass_Rewrite\<close>, \<open>Pass_Protocol\<close>: junk edges change dead nodes only; \<open>replace\<close> by a node of the
    same history and \<open>kill\<close> of an unused node refine the graph (\<open>refined\<close>): survivors read the histories they
    read before, and only what can be recomputed disappears.
  \<^item> \<open>Pass_Rules\<close>, \<open>Pass_Values\<close>, \<open>Pass_Identity\<close>, \<open>Pass_Fold\<close>, \<open>Pass_Strength\<close>: every rule of the engine but the
    collapse of phis proposes a node of the same history.
  \<^item> \<open>Pass_Preserve\<close>: the loops. Locale \<open>meaning_pass\<close> is the contract of a pass, interpreted on the three passes
    and, by \<open>pass_pair\<close>, on their sequence. \<open>Pass_Props\<close> states the properties with concrete graphs.

  \<^bold>\<open>Pipeline\<close> (\<open>include/b2/pipeline\<close>, \<open>compiler/pipeline/src\<close>).
  \<^item> \<open>Pipe_DependencyIndex\<close> (\<open>DependencyIndex.cpp\<close>): the sorted vector of associations; locale
    \<open>inverse_index\<close> states the contract of an index, and the model interprets it.
  \<^item> \<open>Pipe_DirtyClosure\<close> (\<open>DirtyClosure.cpp\<close>): the closure loop is a partial function (its value is
    \<open>None\<close> if it does not return); it is proved to return on every graph and budget.
  \<^item> \<open>Pipe_RegionSafety\<close> (\<open>RegionSafety.cpp\<close>, \<open>Region.h\<close>, \<open>PartialDeopt.h\<close>): the ten checks. Two of their
    loops count in eight bits; they are partial functions, and the properties say exactly when they
    return.

  This theory holds the properties that span the components.

  \<^bold>\<open>Not modelled.\<close> Allocation failure, logging and timing have no counterpart. The arena and the inline
  storage of \<open>SmallVector\<close> are not observable. The RBC text format, the text
  dump of the IR, the graph builder, the control-flow repairs, conditional constant
  propagation, escape analysis, inlining, the driver of the passes, the baseline tier and the Java frontend are
  not modelled yet; native code generation, memory mapping and signal handling are outside what the
  model reaches; TurboScript is a separate interpreter in the same repository.
\<close>

section \<open>From a broken assumption to the nodes that depend on it\<close>

lemma clean_nodes:
  assumes "built g" "expandDirtyClosure g seeds m = Some r" "\<not> dc_budget_exceeded r"
    and "u < nodesSize g" "\<not> isDead (node_at g u)" "s < numInputs g u" "semanticsDependOn g u s"
    and "input g u s \<in> set (ds_nodes (dc_dirty r))"
  shows "u \<in> set (ds_nodes (dc_dirty r))"
  using closure_reads [OF assms(1) _ assms(4-7)] assms(8) unfolding expand_result [OF assms(2,3)] by blast


lemma demo_small_closure: "card (dirtyClosure demo3 S) \<le> 64"
proof -
  have "dirtyClosure demo3 S \<subseteq> {..<5}"
    using closed_dirtyClosure [of demo3 S] demo_nodes(2) built_nodeCount [OF built_demo(4)]
    by (auto simp: closedUnder_def skipped_def)
  from card_mono [OF _ this] show ?thesis by simp
qed


end
